(* ===== verification/Prelude.thy ===== *)
theory Prelude
  imports Main "HOL-Library.Sublist"
begin

text \<open>
  Shared vocabulary of the development: Python strings (code points below 256, so that
  \<open>length\<close> counts what Python's \<open>len\<close> counts), the SQL operators the repositories use
  (\<open>LIKE\<close>, \<open>COALESCE\<close>), first-match search and update over table rows kept as lists, and
  the generic lemmas the component theories rest on.
\<close>

named_theorems row_simps "lookup and update of table rows"

type_synonym pystr = string

section \<open>Python strings\<close>

text \<open>\<open>str.isspace\<close> and the regular expression class \<open>\s\<close> on code points below 256.\<close>

definition py_isspace :: "char \<Rightarrow> bool" where
  "py_isspace c = (let n = (of_char c :: nat) in
     (9 \<le> n \<and> n \<le> 13) \<or> (28 \<le> n \<and> n \<le> 32) \<or> n = 133 \<or> n = 160)"

definition py_lstrip :: "pystr \<Rightarrow> pystr" where
  "py_lstrip s = dropWhile py_isspace s"

definition py_rstrip :: "pystr \<Rightarrow> pystr" where
  "py_rstrip s = rev (dropWhile py_isspace (rev s))"

definition py_strip :: "pystr \<Rightarrow> pystr" where
  "py_strip s = py_rstrip (py_lstrip s)"

lemma py_strip_Nil [simp]: "py_strip [] = []"
  by (simp add: py_strip_def py_rstrip_def py_lstrip_def)

lemma dropWhile_fixed: "s = [] \<or> \<not> P (hd s) \<Longrightarrow> dropWhile P s = s"
  by (cases s) auto

lemma last_dropWhile: "dropWhile P s \<noteq> [] \<Longrightarrow> last (dropWhile P s) = last s"
  by (metis last_appendR takeWhile_dropWhile_id)

lemma py_strip_ends: "py_strip s = [] \<or> (\<not> py_isspace (hd (py_strip s)) \<and> \<not> py_isspace (last (py_strip s)))"
proof (cases "py_strip s = []")
  case False
  define t where "t = dropWhile py_isspace s"
  define u where "u = dropWhile py_isspace (rev t)"
  have strip: "py_strip s = rev u"
    by (simp add: py_strip_def py_rstrip_def py_lstrip_def t_def u_def)
  with False have u: "u \<noteq> []" by simp
  then have t: "t \<noteq> []" by (auto simp: u_def)
  have "last u = hd t"
    using u t last_dropWhile [of py_isspace "rev t"] by (simp add: u_def last_rev)
  moreover have "\<not> py_isspace (hd u)" using u unfolding u_def by (rule hd_dropWhile)
  moreover have "\<not> py_isspace (hd t)" using t unfolding t_def by (rule hd_dropWhile)
  ultimately show ?thesis using u by (simp add: strip hd_rev last_rev)
qed simp

lemma py_strip_idem [simp]: "py_strip (py_strip s) = py_strip s"
proof -
  let ?u = "py_strip s"
  have "dropWhile py_isspace ?u = ?u" and "dropWhile py_isspace (rev ?u) = rev ?u"
    using py_strip_ends [of s] by (auto intro!: dropWhile_fixed simp: hd_rev)
  then show ?thesis unfolding py_strip_def [of ?u] py_rstrip_def py_lstrip_def by simp
qed

lemma length_py_strip: "length (py_strip s) \<le> length s"
  unfolding py_strip_def py_rstrip_def py_lstrip_def
  by (metis length_dropWhile_le length_rev order_trans)

text \<open>\<open>str.lower\<close> on code points below 256: A-Z and the accented capitals move up by 32.\<close>

definition py_lower_char :: "char \<Rightarrow> char" where
  "py_lower_char c = (let n = (of_char c :: nat) in
     if (65 \<le> n \<and> n \<le> 90) \<or> (192 \<le> n \<and> n \<le> 222 \<and> n \<noteq> 215) then char_of (n + 32) else c)"

definition py_lower :: "pystr \<Rightarrow> pystr" where
  "py_lower s = map py_lower_char s"

text \<open>\<open>needle in haystack\<close>.\<close>

fun py_contains :: "pystr \<Rightarrow> pystr \<Rightarrow> bool" where
  "py_contains x [] = (x = [])"
| "py_contains x (c # cs) = (prefix x (c # cs) \<or> py_contains x cs)"

lemma py_contains_sublist: "py_contains x t = sublist x t"
  by (induction t) (auto simp: sublist_Cons_right)

lemma py_contains_append [simp]: "py_contains x (a @ x @ b)"
  by (simp add: py_contains_sublist)

lemma py_contains_mono: "py_contains x t \<Longrightarrow> py_contains x (a @ t @ b)"
  by (auto simp: py_contains_sublist sublist_def) (metis append_assoc)

text \<open>\<open>value or ''\<close> on an optional text, and \<open>text or None\<close>.\<close>

definition or_empty :: "pystr option \<Rightarrow> pystr" where
  "or_empty v = (case v of None \<Rightarrow> [] | Some s \<Rightarrow> s)"

definition none_if_empty :: "pystr \<Rightarrow> pystr option" where
  "none_if_empty s = (if s = [] then None else Some s)"

lemma or_empty_simps [simp]: "or_empty None = []" "or_empty (Some s) = s"
  by (simp_all add: or_empty_def)

lemma or_empty_none_if_empty [simp]: "or_empty (none_if_empty s) = s"
  by (simp add: none_if_empty_def)

section \<open>The SQL operator LIKE\<close>

text \<open>
  SQLite's \<open>LIKE\<close> without an \<open>ESCAPE\<close> clause: \<open>%\<close> stands for any text, \<open>_\<close> for any one
  character, every other pattern character matches itself, ASCII letters in either case.
\<close>

definition ascii_fold :: "char \<Rightarrow> char" where
  "ascii_fold c = (let n = (of_char c :: nat) in
     if 65 \<le> n \<and> n \<le> 90 then char_of (n + 32) else c)"

fun sql_like :: "pystr \<Rightarrow> pystr \<Rightarrow> bool" where
  "sql_like [] [] = True"
| "sql_like [] (c # cs) = False"
| "sql_like (p # ps) [] = (p = CHR ''%'' \<and> sql_like ps [])"
| "sql_like (p # ps) (c # cs) =
     (if p = CHR ''%'' then sql_like ps (c # cs) \<or> sql_like (p # ps) cs
      else if p = CHR ''_'' then sql_like ps cs
      else ascii_fold p = ascii_fold c \<and> sql_like ps cs)"

lemma sql_like_percent: "sql_like ps t \<Longrightarrow> sql_like (CHR ''%'' # ps) t"
  by (cases t) auto

lemma sql_like_percent_Cons: "sql_like (CHR ''%'' # ps) t \<Longrightarrow> sql_like (CHR ''%'' # ps) (c # t)"
  by simp

lemma sql_like_percent_append: "sql_like ps t \<Longrightarrow> sql_like (CHR ''%'' # ps) (a @ t)"
  by (induction a) (auto intro: sql_like_percent)

lemma sql_like_trailing: "sql_like ''%'' t"
  by (induction t) auto

lemma sql_like_self_trailing: "sql_like (p @ ''%'') (p @ b)"
proof (induction p)
  case Nil
  then show ?case by (simp add: sql_like_trailing)
next
  case (Cons x p)
  show ?case
  proof (cases "x = CHR ''%''")
    case True
    then show ?thesis using sql_like_percent_append [OF Cons.IH, of "[x]"] by simp
  next
    case False
    then show ?thesis using Cons.IH by simp
  qed
qed

text \<open>A text that contains a token matches the pattern \<open>%token%\<close>, wildcards in it or not.\<close>

lemma sql_like_contains: "py_contains x t \<Longrightarrow> sql_like (CHR ''%'' # x @ ''%'') t"
  by (auto simp: py_contains_sublist sublist_def intro: sql_like_percent_append
      sql_like_self_trailing)

definition wildcard_free :: "pystr \<Rightarrow> bool" where
  "wildcard_free p = list_all (\<lambda>c. c \<noteq> CHR ''%'' \<and> c \<noteq> CHR ''_'') p"

lemma sql_like_wildcard_free_prefix:
  "wildcard_free p \<Longrightarrow> sql_like (p @ ''%'') t \<Longrightarrow>
    \<exists>m b. t = m @ b \<and> map ascii_fold m = map ascii_fold p"
proof (induction p arbitrary: t)
  case Nil
  then show ?case by simp
next
  case (Cons x p)
  from Cons.prems obtain c t' where t: "t = c # t'" "ascii_fold x = ascii_fold c"
    "sql_like (p @ ''%'') t'" "wildcard_free p"
    by (cases t) (auto simp: wildcard_free_def)
  with Cons.IH obtain m b where "t' = m @ b" "map ascii_fold m = map ascii_fold p" by blast
  with t have "t = (c # m) @ b \<and> map ascii_fold (c # m) = map ascii_fold (x # p)" by simp
  then show ?case by blast
qed

text \<open>Without wildcards, \<open>LIKE '%token%'\<close> finds the token up to the case of ASCII letters.\<close>

lemma sql_like_wildcard_free:
  "wildcard_free p \<Longrightarrow> sql_like (CHR ''%'' # p @ ''%'') t \<Longrightarrow>
    \<exists>a m b. t = a @ m @ b \<and> map ascii_fold m = map ascii_fold p"
proof (induction t)
  case Nil
  then show ?case using sql_like_wildcard_free_prefix [of p "[]"] by auto
next
  case (Cons c t)
  then consider "sql_like (p @ ''%'') (c # t)" | "sql_like (CHR ''%'' # p @ ''%'') t" by auto
  then show ?case
  proof cases
    case 1
    then show ?thesis using sql_like_wildcard_free_prefix [OF Cons.prems(1)]
      by (metis append_Nil)
  next
    case 2
    with Cons obtain a m b where "t = a @ m @ b" "map ascii_fold m = map ascii_fold p" by blast
    then show ?thesis by (metis append_Cons)
  qed
qed

section \<open>Rows of a table\<close>

text \<open>
  A table is the list of its rows in rowid order. \<open>SELECT ... WHERE p ORDER BY id LIMIT 1\<close> is
  \<open>find p\<close>; \<open>UPDATE ... SET f WHERE p\<close> is \<open>update_where p f\<close>.
\<close>

definition update_where :: "('a \<Rightarrow> bool) \<Rightarrow> ('a \<Rightarrow> 'a) \<Rightarrow> 'a list \<Rightarrow> 'a list" where
  "update_where p f xs = map (\<lambda>x. if p x then f x else x) xs"

lemma update_where_simps [simp]:
  "update_where p f [] = []"
  "update_where p f (x # xs) = (if p x then f x else x) # update_where p f xs"
  by (simp_all add: update_where_def)

lemma length_update_where [simp]: "length (update_where p f xs) = length xs"
  by (simp add: update_where_def)

lemma map_update_where [row_simps]:
  "(\<And>x. p x \<Longrightarrow> g (f x) = g x) \<Longrightarrow> map g (update_where p f xs) = map g xs"
  by (induction xs) auto

lemma find_update_where [row_simps]:
  assumes "\<And>x. p x \<Longrightarrow> q (f x) = q x"
  shows "find q (update_where p f xs) =
    map_option (\<lambda>x. if p x then f x else x) (find q xs)"
  using assms by (induction xs) auto

lemma find_key_update:
  assumes "\<And>x. k (f x) = k x"
  shows "find (\<lambda>x. k x = i) (update_where (\<lambda>x. k x = j) f xs) =
    (if i = j then map_option f (find (\<lambda>x. k x = j) xs) else find (\<lambda>x. k x = i) xs)"
  using assms by (induction xs) auto

lemma in_set_update_where:
  "y \<in> set (update_where p f xs) \<longleftrightarrow> (\<exists>x \<in> set xs. y = (if p x then f x else x))"
  by (auto simp: update_where_def)

lemma update_where_none: "\<forall>x \<in> set xs. \<not> p x \<Longrightarrow> update_where p f xs = xs"
  by (induction xs) auto

lemma find_append: "find p (xs @ ys) = (case find p xs of None \<Rightarrow> find p ys | Some x \<Rightarrow> Some x)"
  by (induction xs) auto

lemma find_SomeD: "find p xs = Some x \<Longrightarrow> x \<in> set xs \<and> p x"
  by (induction xs) (auto split: if_splits)

lemma find_None_iff_ball: "find p xs = None \<longleftrightarrow> (\<forall>x \<in> set xs. \<not> p x)"
  by (induction xs) auto

lemma find_key_unique:
  assumes "distinct (map k xs)" and "x \<in> set xs"
  shows "find (\<lambda>y. k y = k x) xs = Some x"
  using assms by (induction xs) (auto simp: image_iff)

lemma filter_key_unique:
  assumes "distinct (map k xs)" and "x \<in> set xs" and "p x" and "\<forall>y. p y \<longrightarrow> k y = k x"
  shows "filter p xs = [x]"
proof -
  obtain as bs where xs: "xs = as @ x # bs" using split_list [OF assms(2)] by blast
  then have "k x \<notin> k ` set as" and "k x \<notin> k ` set bs" using assms(1) by auto
  then have "filter p as = []" and "filter p bs = []"
    unfolding filter_empty_conv using assms(4) by (metis imageI)+
  with xs assms(3) show ?thesis by simp
qed

lemma find_sorted_least:
  assumes "sorted (map k xs)" and "find p xs = Some x" and "y \<in> set xs" and "p y"
  shows "k x \<le> k y"
  using assms by (induction xs) (auto split: if_splits)

lemma distinct_map_snoc:
  "distinct (map k (xs @ [x])) \<longleftrightarrow> distinct (map k xs) \<and> k x \<notin> k ` set xs"
  by auto

lemma sorted_map_snoc:
  fixes k :: "'a \<Rightarrow> 'b :: linorder"
  shows "sorted (map k (xs @ [x])) \<longleftrightarrow> sorted (map k xs) \<and> (\<forall>y \<in> set xs. k y \<le> k x)"
  by (auto simp: sorted_append)

section \<open>Results\<close>

text \<open>
  A fallible operation returns \<open>error + value\<close>; an operation over shared state returns the new
  state with its value, and \<open>Inl\<close> leaves the caller with the state it had (the transaction
  was rolled back).
\<close>

definition bind_res :: "'e + 'a \<Rightarrow> ('a \<Rightarrow> 'e + 'b) \<Rightarrow> 'e + 'b" where
  "bind_res r f = (case r of Inl e \<Rightarrow> Inl e | Inr x \<Rightarrow> f x)"

lemma bind_res_simps [simp]: "bind_res (Inl e) f = Inl e" "bind_res (Inr x) f = f x"
  by (simp_all add: bind_res_def)

lemma bind_res_Inr: "bind_res r f = Inr y \<longleftrightarrow> (\<exists>x. r = Inr x \<and> f x = Inr y)"
  by (cases r) auto

lemma bind_res_Inl: "bind_res r f = Inl e \<longleftrightarrow> r = Inl e \<or> (\<exists>x. r = Inr x \<and> f x = Inl e)"
  by (cases r) auto

text \<open>A loop that stops at the first error, collecting the results in order.\<close>

fun map_res :: "('a \<Rightarrow> 'e + 'b) \<Rightarrow> 'a list \<Rightarrow> 'e + 'b list" where
  "map_res f [] = Inr []"
| "map_res f (x # xs) = bind_res (f x) (\<lambda>y. bind_res (map_res f xs) (\<lambda>ys. Inr (y # ys)))"

lemma map_res_length: "map_res f xs = Inr ys \<Longrightarrow> length ys = length xs"
  by (induction xs arbitrary: ys) (auto simp: bind_res_Inr)

lemma map_res_all: "map_res f xs = Inr ys \<Longrightarrow> y \<in> set ys \<Longrightarrow> \<exists>x \<in> set xs. f x = Inr y"
  by (induction xs arbitrary: ys) (auto simp: bind_res_Inr)

text \<open>\<open>sep.join(parts)\<close> and \<open>x or y\<close> for texts.\<close>

fun py_join :: "pystr \<Rightarrow> pystr list \<Rightarrow> pystr" where
  "py_join sep [] = []"
| "py_join sep [x] = x"
| "py_join sep (x # y # xs) = x @ sep @ py_join sep (y # xs)"

definition text_or :: "pystr \<Rightarrow> pystr \<Rightarrow> pystr" where
  "text_or x y = (if x = [] then y else x)"

end
