(* ===== verification/Task_States.thy ===== *)
theory Task_States
  imports Prelude
begin

text \<open>
  The state machine of tasks (\<open>quimera/domain/task_states.py\<close>) and the interface every status
  table of the program shares: a finite table of allowed moves, checked before a status
  column is written. The locale \<open>status_table\<close> holds what follows from such a table for whole
  histories; it is interpreted here for tasks and in \<open>Workflow_Models\<close> for workflows.
\<close>

section \<open>Status tables\<close>

text \<open>
  \<open>next_of s\<close> is the set of allowed targets of \<open>s\<close>. A history is a list of statuses; each
  one is either the one before (a write of other columns) or an allowed target of it.
\<close>

locale status_table =
  fixes next_of :: "'s \<Rightarrow> 's list"
    and terminal :: "'s \<Rightarrow> bool"
  assumes terminal_no_exit: "terminal s \<Longrightarrow> next_of s = []"
begin

definition moves :: "'s \<Rightarrow> 's \<Rightarrow> bool" where
  "moves s t \<longleftrightarrow> t = s \<or> t \<in> set (next_of s)"

fun history :: "'s \<Rightarrow> 's list \<Rightarrow> bool" where
  "history s [] = True"
| "history s (t # ts) = (moves s t \<and> history t ts)"

lemma moves_refl [simp]: "moves s s"
  by (simp add: moves_def)

lemma terminal_moves: "terminal s \<Longrightarrow> moves s t \<Longrightarrow> t = s"
  using terminal_no_exit by (auto simp: moves_def)

lemma terminal_absorbing: "terminal s \<Longrightarrow> history s ts \<Longrightarrow> set ts \<subseteq> {s}"
proof (induction ts arbitrary: s)
  case Nil
  then show ?case by simp
next
  case (Cons t ts)
  then show ?case using terminal_moves [of s t] by auto
qed

lemma history_append: "history s (ts @ us) \<longleftrightarrow> history s ts \<and> history (last (s # ts)) us"
  by (induction ts arbitrary: s) auto

lemma history_terminal_final:
  assumes "history s (ts @ [t] @ us)" and "terminal t"
  shows "set us \<subseteq> {t}"
  using assms terminal_absorbing [of t us] by (auto simp: history_append)

lemma history_moves: "history s ts \<longleftrightarrow> (\<forall>i < length ts. moves ((s # ts) ! i) (ts ! i))"
proof (induction ts arbitrary: s)
  case Nil
  then show ?case by simp
next
  case (Cons t ts)
  show ?case by (simp add: Cons.IH All_less_Suc2)
qed

end

section \<open>Task statuses\<close>

datatype Visibility = QUIET | SUMMARY | FULL

datatype TaskStatus = PENDING | PROPOSED | APPROVED | IN_PROGRESS | PENDING_REVIEW | REVIEWING
  | COMPLETED | FAILED | REJECTED | CANCELLED

text \<open>The status column is text; the enumeration is a \<open>str\<close> subclass with these values.\<close>

fun status_value :: "TaskStatus \<Rightarrow> pystr" where
  "status_value PENDING = ''pending''"
| "status_value PROPOSED = ''proposed''"
| "status_value APPROVED = ''approved''"
| "status_value IN_PROGRESS = ''in_progress''"
| "status_value PENDING_REVIEW = ''pending_review''"
| "status_value REVIEWING = ''reviewing''"
| "status_value COMPLETED = ''completed''"
| "status_value FAILED = ''failed''"
| "status_value REJECTED = ''rejected''"
| "status_value CANCELLED = ''cancelled''"

definition all_statuses :: "TaskStatus list" where
  "all_statuses = [PENDING, PROPOSED, APPROVED, IN_PROGRESS, PENDING_REVIEW, REVIEWING,
     COMPLETED, FAILED, REJECTED, CANCELLED]"

text \<open>\<open>TaskStatus(text)\<close>: \<open>None\<close> is the \<open>ValueError\<close>.\<close>

definition task_status_of :: "pystr \<Rightarrow> TaskStatus option" where
  "task_status_of t = find (\<lambda>s. status_value s = t) all_statuses"

lemma all_statuses_complete [simp]: "s \<in> set all_statuses"
  by (cases s) (simp_all add: all_statuses_def)

lemma status_value_inject [simp]: "status_value a = status_value b \<longleftrightarrow> a = b"
  by (cases a; cases b) simp_all

lemma status_roundtrip [simp]: "task_status_of (status_value s) = Some s"
  by (cases s) (simp_all add: task_status_of_def all_statuses_def)

lemma task_status_of_SomeD: "task_status_of t = Some s \<Longrightarrow> t = status_value s"
  by (auto simp: task_status_of_def dest: find_SomeD)

fun valid_transitions :: "TaskStatus \<Rightarrow> TaskStatus list" where
  "valid_transitions PROPOSED = [APPROVED, REJECTED, CANCELLED]"
| "valid_transitions APPROVED = [IN_PROGRESS, CANCELLED]"
| "valid_transitions PENDING = [IN_PROGRESS, FAILED, CANCELLED]"
| "valid_transitions IN_PROGRESS = [PENDING_REVIEW, COMPLETED, FAILED, PENDING, CANCELLED]"
| "valid_transitions PENDING_REVIEW = [REVIEWING, CANCELLED]"
| "valid_transitions REVIEWING = [COMPLETED, FAILED, PENDING, PENDING_REVIEW, CANCELLED]"
| "valid_transitions COMPLETED = []"
| "valid_transitions FAILED = []"
| "valid_transitions REJECTED = []"
| "valid_transitions CANCELLED = []"

text \<open>
  Both arguments are text: a member of the enumeration stands for its value, any other text
  is refused.
\<close>

definition can_transition :: "pystr \<Rightarrow> pystr \<Rightarrow> bool" where
  "can_transition from_status to_status =
     (case task_status_of from_status of
        None \<Rightarrow> False
      | Some from_s \<Rightarrow>
          (case task_status_of to_status of
             None \<Rightarrow> False
           | Some to_s \<Rightarrow> to_s \<in> set (valid_transitions from_s)))"

lemma can_transition_values [simp]:
  "can_transition (status_value a) (status_value b) \<longleftrightarrow> b \<in> set (valid_transitions a)"
  by (simp add: can_transition_def)

lemma can_transition_to_value:
  "can_transition x (status_value b) \<longleftrightarrow> (\<exists>a. x = status_value a \<and> b \<in> set (valid_transitions a))"
  by (auto simp: can_transition_def split: option.splits dest: task_status_of_SomeD)

lemma can_transition_from_value:
  "can_transition (status_value a) y \<longleftrightarrow> (\<exists>b \<in> set (valid_transitions a). y = status_value b)"
  by (auto simp: can_transition_def split: option.splits dest: task_status_of_SomeD)

lemma can_transitionE:
  assumes "can_transition x y"
  obtains a b where "x = status_value a" and "y = status_value b" and "b \<in> set (valid_transitions a)"
  using assms by (auto simp: can_transition_def split: option.splits dest: task_status_of_SomeD)

declare status_value.simps [simp del]

definition task_terminal :: "TaskStatus \<Rightarrow> bool" where
  "task_terminal s \<longleftrightarrow> s \<in> {COMPLETED, FAILED, REJECTED, CANCELLED}"

interpretation task_table: status_table valid_transitions task_terminal
  by unfold_locales (auto simp: task_terminal_def)

lemma task_terminal_iff: "task_terminal s \<longleftrightarrow> valid_transitions s = []"
  by (cases s) (simp_all add: task_terminal_def)

datatype TaskType = TEST_EXECUTION | CODE_REVIEW | CODE_EDIT | BUG_INVESTIGATION | ARCHITECTURE
  | DOCUMENTATION | GENERAL

fun task_type_value :: "TaskType \<Rightarrow> pystr" where
  "task_type_value TEST_EXECUTION = ''test_execution''"
| "task_type_value CODE_REVIEW = ''code_review''"
| "task_type_value CODE_EDIT = ''code_edit''"
| "task_type_value BUG_INVESTIGATION = ''bug_investigation''"
| "task_type_value ARCHITECTURE = ''architecture''"
| "task_type_value DOCUMENTATION = ''documentation''"
| "task_type_value GENERAL = ''general''"

definition all_task_types :: "TaskType list" where
  "all_task_types = [TEST_EXECUTION, CODE_REVIEW, CODE_EDIT, BUG_INVESTIGATION, ARCHITECTURE,
     DOCUMENTATION, GENERAL]"

definition task_type_of :: "pystr \<Rightarrow> TaskType option" where
  "task_type_of t = find (\<lambda>s. task_type_value s = t) all_task_types"

lemma task_type_roundtrip [simp]: "task_type_of (task_type_value s) = Some s"
  by (cases s) (simp_all add: task_type_of_def all_task_types_def)

end
