(* ===== verification/Work_Items.thy ===== *)
theory Work_Items
  imports Task_States Complex_Main "HOL-Library.List_Lexorder" "HOL-Library.Char_ord"
begin

text \<open>
  JSON values as \<open>json.loads\<close> delivers them, and the strict parsing and graph validation of work
  items (\<open>quimera/domain/work_items.py\<close>). The depth-first search of \<open>validate_work_items\<close> is
  shown to accept exactly the plans with distinct ids, known dependencies and no cycle.
\<close>

section \<open>JSON values\<close>

text \<open>
  Finite floats are exact rationals; \<open>JNonFinite\<close> is \<open>NaN\<close> or an infinity, which
  \<open>json.loads\<close> accepts. An object keeps its keys in order, each once.
\<close>

datatype json = JNull | JBool bool | JInt int | JFloat rat | JNonFinite | JStr pystr
  | JList "json list" | JObj "(pystr \<times> json) list"

fun truthy :: "json \<Rightarrow> bool" where
  "truthy JNull = False"
| "truthy (JBool b) = b"
| "truthy (JInt i) = (i \<noteq> 0)"
| "truthy (JFloat r) = (r \<noteq> 0)"
| "truthy JNonFinite = True"
| "truthy (JStr s) = (s \<noteq> [])"
| "truthy (JList xs) = (xs \<noteq> [])"
| "truthy (JObj kvs) = (kvs \<noteq> [])"

text \<open>\<open>payload.get(key)\<close> and \<open>value or default\<close>.\<close>

definition obj_get :: "(pystr \<times> json) list \<Rightarrow> pystr \<Rightarrow> json" where
  "obj_get kvs k = (case map_of kvs k of None \<Rightarrow> JNull | Some v \<Rightarrow> v)"

definition json_or :: "json \<Rightarrow> json \<Rightarrow> json" where
  "json_or v d = (if truthy v then v else d)"

text \<open>Decimal numerals, for \<open>f"T{index}"\<close>.\<close>

fun show_nat :: "nat \<Rightarrow> pystr" where
  "show_nat n = (if n < 10 then [char_of (48 + n)] else show_nat (n div 10) @ [char_of (48 + n mod 10)])"

declare show_nat.simps [simp del]

section \<open>Work items\<close>

definition max_text_chars :: nat where "max_text_chars = 20000"
definition max_list_items :: nat where "max_list_items = 32"

definition id_first_char :: "char \<Rightarrow> bool" where
  "id_first_char c = (let n = (of_char c :: nat) in
     (65 \<le> n \<and> n \<le> 90) \<or> (97 \<le> n \<and> n \<le> 122) \<or> (48 \<le> n \<and> n \<le> 57))"

definition id_rest_char :: "char \<Rightarrow> bool" where
  "id_rest_char c = (id_first_char c \<or> c \<in> set ''_.-'')"

text \<open>\<open>WORK_ITEM_ID_RE.fullmatch\<close>: one alphanumeric, then at most 63 of \<open>[A-Za-z0-9_.-]\<close>.\<close>

definition work_item_id_ok :: "pystr \<Rightarrow> bool" where
  "work_item_id_ok s = (case s of [] \<Rightarrow> False
     | c # cs \<Rightarrow> id_first_char c \<and> length cs \<le> 63 \<and> list_all id_rest_char cs)"

definition work_item_priorities :: "pystr list" where
  "work_item_priorities = [''low'', ''medium'', ''high'', ''critical'']"

definition work_item_task_types :: "pystr list" where
  "work_item_task_types = [''architecture'', ''bug_investigation'', ''code_edit'', ''code_review'',
     ''documentation'', ''general'', ''test_execution'']"

datatype work_item_error =
    DuplicateIds
  | UnknownDependencies pystr "pystr list"
  | SelfDependency pystr
  | DependencyCycle
  | ItemsNotList
  | TooManyItems nat
  | ItemNotObject
  | InvalidId pystr
  | MissingTitle
  | InvalidPriority pystr pystr
  | InvalidTaskType pystr pystr
  | NotText pystr
  | TextTooLong pystr nat
  | InvalidListType pystr
  | ListTooLong pystr
  | WritesNotBool pystr
  | MissingKey pystr

record WorkItem =
  wi_id :: pystr
  wi_title :: pystr
  wi_description :: pystr
  wi_task_type :: pystr
  wi_assigned_to :: "pystr option"
  wi_dependencies :: "pystr list"
  wi_acceptance_criteria :: "pystr list"
  wi_priority :: pystr

definition text_field :: "json \<Rightarrow> pystr \<Rightarrow> nat \<Rightarrow> work_item_error + pystr" where
  "text_field value field_name max_chars = (case value of
       JNull \<Rightarrow> Inr []
     | JStr s \<Rightarrow> (let text = py_strip s in
         if length text > max_chars then Inl (TextTooLong field_name max_chars) else Inr text)
     | _ \<Rightarrow> Inl (NotText field_name))"

definition text_list :: "json \<Rightarrow> pystr \<Rightarrow> work_item_error + pystr list" where
  "text_list value field_name =
     (if value = JNull \<or> value = JStr [] then Inr []
      else case value of
        JList items \<Rightarrow>
          (if length items > max_list_items then Inl (ListTooLong field_name)
           else bind_res (map_res (\<lambda>item. text_field item (field_name @ ''[]'') 4000) items)
                  (\<lambda>texts. Inr (filter (\<lambda>t. t \<noteq> []) texts)))
      | _ \<Rightarrow> Inl (InvalidListType field_name))"

definition parse_work_item :: "json \<Rightarrow> pystr \<Rightarrow> work_item_error + WorkItem" where
  "parse_work_item raw default_id = (case raw of
     JObj kvs \<Rightarrow>
       bind_res (text_field (json_or (obj_get kvs ''id'') (JStr default_id)) ''work_item.id'' 64) (\<lambda>item_id.
       if \<not> work_item_id_ok item_id then Inl (InvalidId item_id) else
       bind_res (text_field (obj_get kvs ''title'') ''title'' 500) (\<lambda>title.
       if title = [] then Inl MissingTitle else
       bind_res (text_field (json_or (obj_get kvs ''priority'') (JStr ''medium'')) ''work_item.priority'' 20) (\<lambda>p.
       let priority = py_lower p in
       if priority \<notin> set work_item_priorities then Inl (InvalidPriority item_id priority) else
       bind_res (text_field (json_or (obj_get kvs ''task_type'') (JStr ''general'')) ''work_item.task_type'' 40) (\<lambda>t.
       let task_type = py_lower t in
       if task_type \<notin> set work_item_task_types then Inl (InvalidTaskType item_id task_type) else
       bind_res (text_field (json_or (obj_get kvs ''description'') (JStr title)) ''work_item.description'' 8000) (\<lambda>description.
       bind_res (text_field (obj_get kvs ''assigned_to'') ''work_item.assigned_to'' 200) (\<lambda>assigned.
       bind_res (text_list (obj_get kvs ''dependencies'') ''work_item.dependencies'') (\<lambda>dependencies.
       bind_res (text_list (obj_get kvs ''acceptance_criteria'') ''work_item.acceptance_criteria'') (\<lambda>criteria.
       Inr \<lparr> wi_id = item_id, wi_title = title, wi_description = description,
             wi_task_type = task_type, wi_assigned_to = none_if_empty assigned,
             wi_dependencies = dependencies, wi_acceptance_criteria = criteria,
             wi_priority = priority \<rparr>))))))))
   | _ \<Rightarrow> Inl ItemNotObject)"

definition parse_work_items :: "json \<Rightarrow> nat \<Rightarrow> work_item_error + WorkItem list" where
  "parse_work_items value max_items =
     (if value = JNull \<or> value = JStr [] then Inr []
      else case value of
        JList raws \<Rightarrow>
          (if length raws > max_items then Inl (TooManyItems max_items)
           else map_res (\<lambda>(index, raw). parse_work_item raw (CHR ''T'' # show_nat index))
                  (zip [1..<Suc (length raws)] raws))
      | _ \<Rightarrow> Inl ItemsNotList)"

subsection \<open>What a parsed item satisfies\<close>

definition text_ok :: "nat \<Rightarrow> pystr \<Rightarrow> bool" where
  "text_ok n t \<longleftrightarrow> length t \<le> n \<and> py_strip t = t"

definition texts_ok :: "pystr list \<Rightarrow> bool" where
  "texts_ok ts \<longleftrightarrow> length ts \<le> max_list_items \<and> (\<forall>t \<in> set ts. t \<noteq> [] \<and> text_ok 4000 t)"

definition item_ok :: "WorkItem \<Rightarrow> bool" where
  "item_ok i \<longleftrightarrow> work_item_id_ok (wi_id i) \<and> wi_title i \<noteq> [] \<and> text_ok 500 (wi_title i) \<and>
     text_ok 8000 (wi_description i) \<and> wi_task_type i \<in> set work_item_task_types \<and>
     wi_priority i \<in> set work_item_priorities \<and>
     (\<forall>a. wi_assigned_to i = Some a \<longrightarrow> a \<noteq> [] \<and> text_ok 200 a) \<and>
     texts_ok (wi_dependencies i) \<and> texts_ok (wi_acceptance_criteria i)"

lemma text_field_ok: "text_field v name n = Inr t \<Longrightarrow> text_ok n t"
  by (cases v) (auto simp: text_field_def text_ok_def Let_def split: if_splits)

lemma text_list_ok: "text_list v name = Inr ts \<Longrightarrow> texts_ok ts"
proof -
  assume ok: "text_list v name = Inr ts"
  have "texts_ok (filter (\<lambda>t. t \<noteq> []) us)"
    if "map_res (\<lambda>item. text_field item f 4000) xs = Inr us" "length xs \<le> max_list_items" for f xs us
    unfolding texts_ok_def
  proof (intro conjI ballI)
    have "length (filter (\<lambda>t. t \<noteq> []) us) \<le> length us" by simp
    then show "length (filter (\<lambda>t. t \<noteq> []) us) \<le> max_list_items"
      using that map_res_length by fastforce
    show "t \<noteq> []" "text_ok 4000 t" if "t \<in> set (filter (\<lambda>t. t \<noteq> []) us)" for t
      using that map_res_all \<open>map_res _ xs = _\<close> text_field_ok by fastforce+
  qed
  with ok show ?thesis
    by (auto simp: text_list_def bind_res_Inr texts_ok_def max_list_items_def split: if_splits json.splits)
qed

lemma parse_work_item_ok: "parse_work_item raw d = Inr i \<Longrightarrow> item_ok i"
  by (auto simp: parse_work_item_def item_ok_def bind_res_Inr Let_def none_if_empty_def
      dest!: text_field_ok text_list_ok split: json.splits if_splits)

lemma parse_work_items_ok:
  assumes "parse_work_items v n = Inr items"
  shows "length items \<le> n \<and> (\<forall>i \<in> set items. item_ok i)"
proof (cases v)
  case (JList raws)
  with assms have items: "map_res (\<lambda>(index, raw). parse_work_item raw (CHR ''T'' # show_nat index))
      (zip [1..<Suc (length raws)] raws) = Inr items" and len: "length raws \<le> n"
    by (auto simp: parse_work_items_def split: if_splits)
  have "length items \<le> n" using map_res_length [OF items] len by simp
  moreover have "item_ok i" if "i \<in> set items" for i
    using map_res_all [OF items that] parse_work_item_ok by (auto simp: split_beta)
  ultimately show ?thesis by blast
qed (use assms in \<open>auto simp: parse_work_items_def split: if_splits\<close>)

text \<open>
  Strict parsing (\<open>parse_work_items\<close>): what it accepts is within the announced bounds. At most
  \<open>max_items\<close> items; each id matches \<open>[A-Za-z0-9][A-Za-z0-9_.-]{0,63}\<close>; titles are non-empty and at
  most 500 characters; task type and priority are of the closed sets; each list has at most 32
  non-empty trimmed texts of at most 4000 characters.
\<close>

theorem parse_work_items_within_bounds:
  assumes "parse_work_items v n = Inr items"
  shows "length items \<le> n \<and> (\<forall>i \<in> set items. work_item_id_ok (wi_id i) \<and>
     wi_title i \<noteq> [] \<and> length (wi_title i) \<le> 500 \<and>
     wi_task_type i \<in> set work_item_task_types \<and> wi_priority i \<in> set work_item_priorities \<and>
     texts_ok (wi_dependencies i) \<and> texts_ok (wi_acceptance_criteria i))"
  using parse_work_items_ok [OF assms] by (auto simp: item_ok_def text_ok_def)

definition sample_items :: json where
  "sample_items = JList [JObj [(''title'', JStr '' Ler ''), (''priority'', JStr ''HIGH'')],
     JObj [(''id'', JStr ''B''), (''title'', JStr ''x''), (''dependencies'', JList [JStr ''T1'', JStr '' ''])]]"

lemma sample_items_parse: "parse_work_items sample_items 3 =
    Inr [\<lparr>wi_id = ''T1'', wi_title = ''Ler'', wi_description = ''Ler'', wi_task_type = ''general'',
          wi_assigned_to = None, wi_dependencies = [], wi_acceptance_criteria = [],
          wi_priority = ''high''\<rparr>,
         \<lparr>wi_id = ''B'', wi_title = ''x'', wi_description = ''x'', wi_task_type = ''general'',
          wi_assigned_to = None, wi_dependencies = [''T1''], wi_acceptance_criteria = [],
          wi_priority = ''medium''\<rparr>]"
  by code_simp

theorem parse_work_items_within_bounds_witness:
  "\<exists>items. parse_work_items sample_items 3 = Inr items \<and> length items = 2 \<and> length items \<le> 3 \<and>
     work_item_id_ok (wi_id (hd items))"
  using parse_work_items_within_bounds [OF sample_items_parse] sample_items_parse by simp

section \<open>Validation of the dependency graph\<close>

text \<open>\<open>by_id[x]\<close>: the ids are distinct where this is used.\<close>

definition item_by_id :: "WorkItem list \<Rightarrow> pystr \<Rightarrow> WorkItem option" where
  "item_by_id items x = find (\<lambda>i. wi_id i = x) items"

text \<open>
  \<open>visit\<close> on each element of a list: \<open>visiting\<close> is the set of open calls (added before the
  recursive calls and removed after them, so each call gets its caller's set and its own id),
  \<open>visited\<close> the set of finished ones, threaded through the calls.
\<close>

function visit_each :: "WorkItem list \<Rightarrow> pystr list \<Rightarrow> pystr list \<Rightarrow> pystr list
    \<Rightarrow> work_item_error + pystr list" where
  "visit_each items visiting visited [] = Inr visited"
| "visit_each items visiting visited (x # xs) =
     (if x \<in> set visiting then Inl DependencyCycle
      else if x \<in> set visited then visit_each items visiting visited xs
      else case item_by_id items x of
          None \<Rightarrow> Inl (MissingKey x)
        | Some item \<Rightarrow>
            (case visit_each items (x # visiting) visited (wi_dependencies item) of
               Inl e \<Rightarrow> Inl e
             | Inr visited' \<Rightarrow> visit_each items visiting (x # visited') xs))"
  by pat_completeness auto

lemma item_by_id_SomeD: "item_by_id items x = Some i \<Longrightarrow> i \<in> set items \<and> wi_id i = x"
  by (auto simp: item_by_id_def dest: find_SomeD)

lemma item_by_id_None: "item_by_id items x = None \<longleftrightarrow> x \<notin> wi_id ` set items"
  by (auto simp: item_by_id_def find_None_iff_ball)

termination visit_each
proof (relation "measures [\<lambda>(items, visiting, visited, xs). card (wi_id ` set items - set visiting),
    \<lambda>(items, visiting, visited, xs). length xs]", goal_cases)
  case (3 items visiting visited x xs item)
  then have "x \<in> wi_id ` set items - set visiting" by (auto dest: item_by_id_SomeD)
  moreover have "wi_id ` set items - set (x # visiting) = (wi_id ` set items - set visiting) - {x}"
    by auto
  ultimately have "card (wi_id ` set items - set (x # visiting)) < card (wi_id ` set items - set visiting)"
    by (metis card_Diff1_less finite_Diff finite_imageI finite_set)
  then show ?case by simp
qed auto

definition item_check :: "WorkItem list \<Rightarrow> WorkItem \<Rightarrow> work_item_error + unit" where
  "item_check items item =
     (let ids = map wi_id items;
          unknown = filter (\<lambda>d. d \<notin> set ids) (remdups (wi_dependencies item)) in
      if unknown \<noteq> [] then Inl (UnknownDependencies (wi_id item) (sort unknown))
      else if wi_id item \<in> set (wi_dependencies item) then Inl (SelfDependency (wi_id item))
      else Inr ())"

definition validate_work_items :: "WorkItem list \<Rightarrow> work_item_error + unit" where
  "validate_work_items items =
     (let ids = map wi_id items in
      if length (remdups ids) \<noteq> length ids then Inl DuplicateIds
      else bind_res (map_res (item_check items) items) (\<lambda>_.
           bind_res (visit_each items [] [] ids) (\<lambda>_. Inr ())))"

subsection \<open>The search accepts exactly the acyclic plans\<close>

definition dep_rel :: "WorkItem list \<Rightarrow> (pystr \<times> pystr) set" where
  "dep_rel items = {(wi_id i, d) | i d. i \<in> set items \<and> d \<in> set (wi_dependencies i)}"

lemma dep_rel_range: "snd ` dep_rel items = (\<Union>i \<in> set items. set (wi_dependencies i))"
  by (force simp: dep_rel_def image_iff)

text \<open>
  What the search keeps of its visited set: it holds the dependencies of its members, none of
  its members is on a cycle, and it is disjoint from the open calls.
\<close>

definition visited_ok :: "WorkItem list \<Rightarrow> pystr list \<Rightarrow> pystr list \<Rightarrow> bool" where
  "visited_ok items visiting visited \<longleftrightarrow>
     dep_rel items `` set visited \<subseteq> set visited \<and>
     (\<forall>v \<in> set visited. (v, v) \<notin> (dep_rel items)\<^sup>+) \<and> set visited \<inter> set visiting = {}"

lemma visited_okD:
  assumes "visited_ok items P V"
  shows "dep_rel items `` set V \<subseteq> set V" "v \<in> set V \<Longrightarrow> (v, v) \<notin> (dep_rel items)\<^sup>+"
    "set V \<inter> set P = {}"
  using assms by (auto simp: visited_ok_def)

lemma closed_trancl: "(x, y) \<in> r\<^sup>+ \<Longrightarrow> r `` X \<subseteq> X \<Longrightarrow> x \<in> X \<Longrightarrow> y \<in> X"
  by (induction rule: trancl_induct) auto

lemma dep_rel_item:
  assumes dist: "distinct (map wi_id items)" and item: "item_by_id items x = Some i"
  shows "dep_rel items `` {x} = set (wi_dependencies i)"
proof -
  have "item_by_id items x = Some j" if "j \<in> set items" "wi_id j = x" for j
    using find_key_unique [OF dist that(1)] unfolding that(2) item_by_id_def .
  then have only: "j \<in> set items \<and> wi_id j = x \<longleftrightarrow> j = i" for j
    using item by (auto dest: item_by_id_SomeD)
  have "dep_rel items `` {x} =
      {d. \<exists>j. (j \<in> set items \<and> wi_id j = x) \<and> d \<in> set (wi_dependencies j)}"
    unfolding dep_rel_def by blast
  then show ?thesis by (simp add: only)
qed

lemma visited_ok_insert:
  assumes ok: "visited_ok items (x # P) V" and deps: "dep_rel items `` {x} \<subseteq> set V"
    and new: "x \<notin> set P"
  shows "visited_ok items P (x # V)"
proof -
  let ?R = "dep_rel items"
  have xV: "x \<notin> set V" using visited_okD(3) [OF ok] by auto
  have "(x, x) \<notin> ?R\<^sup>+"
  proof
    assume "(x, x) \<in> ?R\<^sup>+"
    then obtain d where "(x, d) \<in> ?R" "d = x \<or> (d, x) \<in> ?R\<^sup>+"
      by (metis tranclD rtranclD)
    with deps have d: "d \<in> set V" "d = x \<or> (d, x) \<in> ?R\<^sup>+" by auto
    then have "x \<in> set V" using closed_trancl [OF _ visited_okD(1) [OF ok]] by blast
    with xV show False ..
  qed
  with ok deps new show ?thesis by (auto simp: visited_ok_def)
qed

lemma visit_each_sound:
  "visit_each items P V xs = Inr V' \<Longrightarrow> visited_ok items P V \<Longrightarrow> distinct (map wi_id items) \<Longrightarrow>
    visited_ok items P V' \<and> set xs \<subseteq> set V' \<and> set V \<subseteq> set V'"
proof (induction items P V xs arbitrary: V' rule: visit_each.induct)
  case (1 items P V)
  then show ?case by simp
next
  case (2 items P V x xs)
  have new: "x \<notin> set P" using "2.prems"(1) by (auto split: if_splits)
  show ?case
  proof (cases "x \<in> set V")
    case True
    with "2.prems" new have "visit_each items P V xs = Inr V'" by simp
    with "2.IH"(1) [OF new True _ "2.prems"(2,3)] True show ?thesis by auto
  next
    case False
    then obtain i W where i: "item_by_id items x = Some i"
      and W: "visit_each items (x # P) V (wi_dependencies i) = Inr W"
      and rest: "visit_each items P (x # W) xs = Inr V'"
      using "2.prems"(1) new by (auto split: option.splits sum.splits)
    have "visited_ok items (x # P) V" using "2.prems"(2) False by (auto simp: visited_ok_def)
    with "2.IH"(2) [OF new False i W _ "2.prems"(3)] have W_ok: "visited_ok items (x # P) W"
      "set (wi_dependencies i) \<subseteq> set W" "set V \<subseteq> set W" by auto
    then have "visited_ok items P (x # W)"
      by (intro visited_ok_insert) (simp_all add: new dep_rel_item [OF "2.prems"(3) i])
    with "2.IH"(3) [OF new False i W rest _ "2.prems"(3)] W_ok show ?thesis by auto
  qed
qed


text \<open>
  Conversely, along an acyclic graph the search never meets an open call: every open call leads
  to every element still to be visited.
\<close>

lemma visit_each_complete:
  "acyclic (dep_rel items) \<Longrightarrow> distinct (map wi_id items) \<Longrightarrow>
    snd ` dep_rel items \<subseteq> wi_id ` set items \<Longrightarrow> set xs \<subseteq> wi_id ` set items \<Longrightarrow>
    set P \<times> set xs \<subseteq> (dep_rel items)\<^sup>+ \<Longrightarrow> \<exists>V'. visit_each items P V xs = Inr V'"
proof (induction items P V xs rule: visit_each.induct)
  case (1 items P V)
  then show ?case by simp
next
  case (2 items P V x xs)
  let ?R = "dep_rel items"
  have new: "x \<notin> set P"
  proof
    assume "x \<in> set P"
    then have "(x, x) \<in> ?R\<^sup>+" using "2.prems"(5) by auto
    then show False using "2.prems"(1) by (simp add: acyclic_def)
  qed
  show ?case
  proof (cases "x \<in> set V")
    case True
    have "set P \<times> set xs \<subseteq> ?R\<^sup>+" and "set xs \<subseteq> wi_id ` set items"
      using "2.prems"(4,5) by auto
    with "2.IH"(1) [OF new True "2.prems"(1-3)] True new show ?thesis by simp
  next
    case False
    from "2.prems"(4) obtain i where i: "item_by_id items x = Some i"
      by (cases "item_by_id items x") (auto simp: item_by_id_None)
    note deps = dep_rel_item [OF "2.prems"(2) i]
    have known: "set (wi_dependencies i) \<subseteq> wi_id ` set items"
      using "2.prems"(3) deps by force
    have step: "set (x # P) \<times> set (wi_dependencies i) \<subseteq> ?R\<^sup>+"
      using "2.prems"(5) deps by (auto intro: trancl_into_trancl)
    obtain W where W: "visit_each items (x # P) V (wi_dependencies i) = Inr W"
      using "2.IH"(2) [OF new False i "2.prems"(1-3) known step] by blast
    have "\<exists>V'. visit_each items P (x # W) xs = Inr V'"
      using "2.IH"(3) [OF new False i W "2.prems"(1-3)] "2.prems"(4,5) by auto
    with new False i W show ?thesis by simp
  qed
qed

lemma map_res_unit: "(\<exists>us. map_res f xs = Inr us) \<longleftrightarrow> (\<forall>x \<in> set xs. f x = Inr ())"
  by (induction xs) (auto simp: bind_res_Inr)

lemma item_check_iff:
  "item_check items i = Inr () \<longleftrightarrow>
     set (wi_dependencies i) \<subseteq> wi_id ` set items \<and> wi_id i \<notin> set (wi_dependencies i)"
  by (auto simp: item_check_def Let_def filter_empty_conv)

lemma validate_work_items_iff:
  "validate_work_items items = Inr () \<longleftrightarrow>
     distinct (map wi_id items) \<and> snd ` dep_rel items \<subseteq> wi_id ` set items \<and> acyclic (dep_rel items)"
proof -
  let ?R = "dep_rel items" and ?ids = "map wi_id items"
  have checks: "(\<exists>us. map_res (item_check items) items = Inr us) \<longleftrightarrow>
      snd ` ?R \<subseteq> wi_id ` set items \<and> (\<forall>i \<in> set items. wi_id i \<notin> set (wi_dependencies i))"
    unfolding map_res_unit item_check_iff dep_rel_range by blast
  have search: "(\<exists>V. visit_each items [] [] ?ids = Inr V) \<longleftrightarrow> acyclic ?R"
    if dist: "distinct ?ids" and known: "snd ` ?R \<subseteq> wi_id ` set items"
  proof
    assume "\<exists>V. visit_each items [] [] ?ids = Inr V"
    then obtain V where V: "visit_each items [] [] ?ids = Inr V" ..
    have "visited_ok items [] V" and "set ?ids \<subseteq> set V"
      using visit_each_sound [OF V _ dist] by (auto simp: visited_ok_def)
    moreover have "x \<in> set ?ids" if "(x, x) \<in> ?R\<^sup>+" for x
      using tranclD [OF that] by (auto simp: dep_rel_def)
    ultimately show "acyclic ?R" unfolding acyclic_def by (metis subsetD visited_okD(2))
  next
    assume "acyclic ?R"
    then show "\<exists>V. visit_each items [] [] ?ids = Inr V"
      using visit_each_complete [OF _ dist known, of ?ids "[]"] by simp
  qed
  have self: "wi_id i \<notin> set (wi_dependencies i)" if "acyclic ?R" "i \<in> set items" for i
    using that by (auto simp: acyclic_def dep_rel_def)
  have "validate_work_items items = Inr () \<longleftrightarrow> distinct ?ids \<and>
      (\<exists>us. map_res (item_check items) items = Inr us) \<and> (\<exists>V. visit_each items [] [] ?ids = Inr V)"
    by (auto simp: validate_work_items_def Let_def bind_res_Inr length_remdups_eq)
  with checks search self show ?thesis by blast
qed

text \<open>
  C33. Plan validation (\<open>validate_work_items\<close>) is exact: it succeeds on precisely the lists of
  work items whose ids are distinct, whose dependencies are ids of the list, and whose
  dependency graph is acyclic. In particular the recursive search terminates, accepts a shared
  dependency reached twice, and no cycle of any length passes.
\<close>

theorem validate_work_items_exact:
  "validate_work_items items = Inr () \<longleftrightarrow>
     distinct (map wi_id items) \<and> snd ` dep_rel items \<subseteq> wi_id ` set items \<and> acyclic (dep_rel items)"
  by (rule validate_work_items_iff)

end
