(* ===== verification/Task_Store.thy ===== *)
theory Task_Store
  imports Work_Items
begin

text \<open>
  The SQLite database shared by \<open>tasks/repository.py\<close> and \<open>workflows/repository.py\<close>: one record
  per table row, one list per table in rowid order, the AUTOINCREMENT counters, and the log of
  events published to the event sink. Columns keep their SQL type: a nullable TEXT column is
  \<open>pystr option\<close>, a status column is text. The column \<open>plan_json\<close> and the \<open>body\<close> of workflow
  tasks hold the value that \<open>json.dumps\<close> wrote and \<open>json.loads\<close> reads back. An event is its class
  with the fields the repository gives it; the default timestamp of an event is left out.
\<close>

section \<open>Events\<close>

datatype TaskEvent =
    TaskProposed int int pystr pystr "pystr option" "pystr option"
  | TaskApproved int int "pystr option"
  | TaskRejected int int "pystr option"
  | TaskStarted int int pystr
  | TaskSubmittedForReview int int "pystr option" "pystr option"
  | TaskReviewStarted int int pystr
  | TaskCompleted int int "pystr option" "pystr option"
  | TaskFailed int int "pystr option" "pystr option"
  | TaskRequeued int int "pystr option" pystr int "pystr option"

section \<open>Rows\<close>

record JobRow =
  j_id :: int
  j_description :: pystr
  j_status :: pystr
  j_created_by :: "pystr option"
  j_created_at :: "pystr option"
  j_updated_at :: "pystr option"
  j_started_at :: "pystr option"
  j_completed_at :: "pystr option"

datatype body_text = Plain pystr | Dumped json

record TaskRow =
  t_id :: int
  t_job_id :: int
  t_description :: pystr
  t_body :: "body_text option"
  t_status :: pystr
  t_task_type :: pystr
  t_origin :: pystr
  t_assigned_to :: "pystr option"
  t_result :: "pystr option"
  t_notes :: "pystr option"
  t_priority :: "pystr option"
  t_created_at :: "pystr option"
  t_updated_at :: "pystr option"
  t_started_at :: "pystr option"
  t_completed_at :: "pystr option"
  t_created_by :: "pystr option"
  t_approved_by :: "pystr option"
  t_source_context :: "pystr option"
  t_requested_by :: "pystr option"
  t_reviewed_by :: "pystr option"
  t_attempt_count :: int
  t_rework_count :: int
  t_failed_agents :: "pystr option"
  t_failed_reviewers :: "pystr option"

record DepRow =
  d_task :: int
  d_on :: int
  d_created_at :: pystr

record WorkflowRow =
  w_id :: int
  w_job_id :: int
  w_objective :: pystr
  w_coordinator :: pystr
  w_status :: pystr
  w_status_reason :: "pystr option"
  w_plan_version :: int
  w_global_criteria :: "pystr list"
  w_constraints :: "pystr list"
  w_replans :: int
  w_consults :: int
  w_attention :: "pystr option"
  w_result :: "pystr option"
  w_publication_key :: pystr
  w_created_at :: pystr
  w_updated_at :: pystr

record PlanRow =
  p_workflow :: int
  p_version :: int
  p_plan_json :: json
  p_hash :: pystr
  p_created_at :: pystr

record LinkRow =
  l_id :: int
  l_workflow :: int
  l_item :: pystr
  l_task :: int
  l_version :: int
  l_superseded_in :: "int option"
  l_writes :: bool
  l_evidence :: "pystr list"

record AttemptRow =
  a_task :: int
  a_attempt :: int
  a_agent :: pystr
  a_run_id :: "pystr option"
  a_status :: pystr
  a_failure_reason :: "pystr option"
  a_handoff :: "pystr option"
  a_started_at :: pystr
  a_finished_at :: "pystr option"

record Store =
  jobs :: "JobRow list"
  tasks :: "TaskRow list"
  task_seq :: int
  deps :: "DepRow list"
  workflows :: "WorkflowRow list"
  workflow_seq :: int
  plans :: "PlanRow list"
  links :: "LinkRow list"
  link_seq :: int
  attempts :: "AttemptRow list"
  published :: "TaskEvent list"

definition empty_store :: Store where
  "empty_store = \<lparr> jobs = [], tasks = [], task_seq = 0, deps = [], workflows = [],
     workflow_seq = 0, plans = [], links = [], link_seq = 0, attempts = [], published = [] \<rparr>"

text \<open>What an operation may raise. \<open>IntegrityError\<close> is SQLite's constraint failure.\<close>

datatype store_error =
    IntegrityError
  | ValueError pystr
  | KeyError pystr
  | RowMissing
  | WorkflowNotFound int
  | WorkflowLimit int
  | VersionConflict int int
  | NotReplannable pystr
  | ReplanLimit int

section \<open>Lookup and update by id\<close>

definition task_at :: "Store \<Rightarrow> int \<Rightarrow> TaskRow option" where
  "task_at s tid = find (\<lambda>r. t_id r = tid) (tasks s)"

definition update_task_row :: "int \<Rightarrow> (TaskRow \<Rightarrow> TaskRow) \<Rightarrow> Store \<Rightarrow> Store" where
  "update_task_row tid f s = s\<lparr>tasks := update_where (\<lambda>r. t_id r = tid) f (tasks s)\<rparr>"

definition publish_event :: "TaskEvent \<Rightarrow> Store \<Rightarrow> Store" where
  "publish_event e s = s\<lparr>published := published s @ [e]\<rparr>"

definition workflow_at :: "Store \<Rightarrow> int \<Rightarrow> WorkflowRow option" where
  "workflow_at s wid = find (\<lambda>w. w_id w = wid) (workflows s)"

definition update_workflow_row :: "int \<Rightarrow> (WorkflowRow \<Rightarrow> WorkflowRow) \<Rightarrow> Store \<Rightarrow> Store" where
  "update_workflow_row wid f s = s\<lparr>workflows := update_where (\<lambda>w. w_id w = wid) f (workflows s)\<rparr>"

definition job_exists :: "Store \<Rightarrow> int \<Rightarrow> bool" where
  "job_exists s jid = list_ex (\<lambda>j. j_id j = jid) (jobs s)"

lemma task_at_SomeD: "task_at s tid = Some r \<Longrightarrow> r \<in> set (tasks s) \<and> t_id r = tid"
  by (auto simp: task_at_def dest: find_SomeD)

lemma workflow_at_SomeD: "workflow_at s wid = Some w \<Longrightarrow> w \<in> set (workflows s) \<and> w_id w = wid"
  by (auto simp: workflow_at_def dest: find_SomeD)

text \<open>An update of a row by id keeps every other row; it must not write the id itself.\<close>

lemma task_at_update_task_row [row_simps]:
  "(\<And>r. t_id (f r) = t_id r) \<Longrightarrow> task_at (update_task_row tid f s) tid' =
    (if tid' = tid then map_option f (task_at s tid) else task_at s tid')"
  using find_key_update [of t_id f tid' tid "tasks s"] by (simp add: task_at_def update_task_row_def)

lemma workflow_at_update_workflow_row [row_simps]:
  "(\<And>w. w_id (f w) = w_id w) \<Longrightarrow> workflow_at (update_workflow_row wid f s) wid' =
    (if wid' = wid then map_option f (workflow_at s wid) else workflow_at s wid')"
  using find_key_update [of w_id f wid' wid "workflows s"]
  by (simp add: workflow_at_def update_workflow_row_def)

lemma task_at_publish [row_simps, simp]: "task_at (publish_event e s) tid = task_at s tid"
  by (simp add: task_at_def publish_event_def)

lemma task_at_update_workflow [row_simps, simp]: "task_at (update_workflow_row w f s) tid = task_at s tid"
  by (simp add: task_at_def update_workflow_row_def)

lemma workflow_at_update_task [row_simps, simp]: "workflow_at (update_task_row t f s) w = workflow_at s w"
  by (simp add: workflow_at_def update_task_row_def)

lemma workflow_at_publish [row_simps, simp]: "workflow_at (publish_event e s) w = workflow_at s w"
  by (simp add: workflow_at_def publish_event_def)

text \<open>Tables an update does not write.\<close>

lemma update_task_row_other [simp]:
  "jobs (update_task_row t f s) = jobs s" "task_seq (update_task_row t f s) = task_seq s"
  "deps (update_task_row t f s) = deps s" "workflows (update_task_row t f s) = workflows s"
  "workflow_seq (update_task_row t f s) = workflow_seq s" "plans (update_task_row t f s) = plans s"
  "links (update_task_row t f s) = links s" "link_seq (update_task_row t f s) = link_seq s"
  "attempts (update_task_row t f s) = attempts s" "published (update_task_row t f s) = published s"
  by (simp_all add: update_task_row_def)

lemma publish_event_other [simp]:
  "jobs (publish_event e s) = jobs s" "tasks (publish_event e s) = tasks s"
  "task_seq (publish_event e s) = task_seq s" "deps (publish_event e s) = deps s"
  "workflows (publish_event e s) = workflows s" "workflow_seq (publish_event e s) = workflow_seq s"
  "plans (publish_event e s) = plans s" "links (publish_event e s) = links s"
  "link_seq (publish_event e s) = link_seq s" "attempts (publish_event e s) = attempts s"
  "published (publish_event e s) = published s @ [e]"
  by (simp_all add: publish_event_def)

lemma update_workflow_row_other [simp]:
  "jobs (update_workflow_row w f s) = jobs s" "tasks (update_workflow_row w f s) = tasks s"
  "task_seq (update_workflow_row w f s) = task_seq s" "deps (update_workflow_row w f s) = deps s"
  "workflow_seq (update_workflow_row w f s) = workflow_seq s"
  "plans (update_workflow_row w f s) = plans s" "links (update_workflow_row w f s) = links s"
  "link_seq (update_workflow_row w f s) = link_seq s"
  "attempts (update_workflow_row w f s) = attempts s"
  "published (update_workflow_row w f s) = published s"
  by (simp_all add: update_workflow_row_def)

end
