(* ===== verification/Workflow_States.thy ===== *)
theory Workflow_States
  imports Task_States
begin

text \<open>
  The global states of a workflow and their transition table (\<open>quimera/workflows/models.py\<close>),
  the second instance of \<open>status_table\<close>. Constructors carry the prefix \<open>WF_\<close> because task
  statuses share names with them.
\<close>

datatype WorkflowStatus = WF_READY | WF_RUNNING | WF_PAUSED | WF_BLOCKED | WF_COMPLETED
  | WF_FAILED | WF_CANCELLED

fun wf_value :: "WorkflowStatus \<Rightarrow> pystr" where
  "wf_value WF_READY = ''ready''"
| "wf_value WF_RUNNING = ''running''"
| "wf_value WF_PAUSED = ''paused''"
| "wf_value WF_BLOCKED = ''blocked''"
| "wf_value WF_COMPLETED = ''completed''"
| "wf_value WF_FAILED = ''failed''"
| "wf_value WF_CANCELLED = ''cancelled''"

definition all_wf_statuses :: "WorkflowStatus list" where
  "all_wf_statuses = [WF_READY, WF_RUNNING, WF_PAUSED, WF_BLOCKED, WF_COMPLETED, WF_FAILED, WF_CANCELLED]"

definition wf_status_of :: "pystr \<Rightarrow> WorkflowStatus option" where
  "wf_status_of t = find (\<lambda>s. wf_value s = t) all_wf_statuses"

definition open_workflow_states :: "WorkflowStatus list" where
  "open_workflow_states = [WF_READY, WF_RUNNING, WF_PAUSED, WF_BLOCKED]"

fun workflow_transitions :: "WorkflowStatus \<Rightarrow> WorkflowStatus list" where
  "workflow_transitions WF_READY = [WF_RUNNING, WF_CANCELLED]"
| "workflow_transitions WF_RUNNING = [WF_PAUSED, WF_BLOCKED, WF_COMPLETED, WF_FAILED, WF_CANCELLED]"
| "workflow_transitions WF_PAUSED = [WF_RUNNING, WF_CANCELLED]"
| "workflow_transitions WF_BLOCKED = [WF_RUNNING, WF_PAUSED, WF_FAILED, WF_CANCELLED]"
| "workflow_transitions WF_COMPLETED = [WF_RUNNING]"
| "workflow_transitions WF_FAILED = []"
| "workflow_transitions WF_CANCELLED = []"

definition terminal_workflow_status :: "WorkflowStatus \<Rightarrow> bool" where
  "terminal_workflow_status s \<longleftrightarrow> s \<in> {WF_FAILED, WF_CANCELLED}"

definition can_transition_workflow :: "pystr \<Rightarrow> pystr \<Rightarrow> bool" where
  "can_transition_workflow from_status to_status =
     (case wf_status_of from_status of
        None \<Rightarrow> False
      | Some source \<Rightarrow>
          (case wf_status_of to_status of
             None \<Rightarrow> False
           | Some target \<Rightarrow> target \<in> set (workflow_transitions source)))"

lemma wf_value_inject [simp]: "wf_value a = wf_value b \<longleftrightarrow> a = b"
  by (cases a; cases b) simp_all

lemma wf_status_roundtrip [simp]: "wf_status_of (wf_value s) = Some s"
  by (cases s) (simp_all add: wf_status_of_def all_wf_statuses_def)

lemma wf_status_of_SomeD: "wf_status_of t = Some s \<Longrightarrow> t = wf_value s"
  by (auto simp: wf_status_of_def dest: find_SomeD)

lemma can_transition_workflow_values [simp]:
  "can_transition_workflow (wf_value a) (wf_value b) \<longleftrightarrow> b \<in> set (workflow_transitions a)"
  by (simp add: can_transition_workflow_def)

declare wf_value.simps [simp del]

interpretation workflow_table: status_table workflow_transitions terminal_workflow_status
  by unfold_locales (auto simp: terminal_workflow_status_def)

end
