(* ===== verification/Task_Repository.thy ===== *)
theory Task_Repository
  imports Task_Store Workflow_States "HOL-Library.Option_ord"
begin

text \<open>
  \<open>TaskRepository\<close> (\<open>quimera/tasks/repository.py\<close>) with the claim gates of
  \<open>quimera/workflows/schema.py\<close>. Each operation is one \<open>BEGIN IMMEDIATE\<close> transaction: a function
  of the store that returns its Python result and the new store. \<open>now\<close> is the text of the clock
  read inside the transaction. Events are published after the commit, in order.
\<close>

section \<open>Helpers\<close>

definition stale_attempt :: "int \<Rightarrow> int option \<Rightarrow> bool" where
  "stale_attempt current expected = (case expected of None \<Rightarrow> False | Some e \<Rightarrow> current \<noteq> e)"

definition failed_agents_token :: "pystr \<Rightarrow> pystr" where
  "failed_agents_token agent = ''|'' @ agent @ ''|''"

definition add_token :: "pystr option \<Rightarrow> pystr \<Rightarrow> pystr" where
  "add_token column agent = (let failed = or_empty column; token = failed_agents_token agent in
     if py_contains token failed then failed else failed @ token)"

definition truthy_text :: "pystr option \<Rightarrow> bool" where
  "truthy_text v = (or_empty v \<noteq> [])"

definition publish_requeue :: "int \<Rightarrow> int \<Rightarrow> pystr option \<Rightarrow> pystr \<Rightarrow> int \<Rightarrow> bool \<Rightarrow> pystr option
    \<Rightarrow> Store \<Rightarrow> Store" where
  "publish_requeue tid jid reason failed_agent attempt exhausted assigned_to =
     publish_event (if exhausted then TaskFailed tid jid reason (Some failed_agent)
                    else TaskRequeued tid jid reason failed_agent attempt assigned_to)"

definition show_int :: "int \<Rightarrow> pystr" where
  "show_int i = (if i < 0 then CHR ''-'' # show_nat (nat (- i)) else show_nat (nat i))"

text \<open>\<open>column = ?\<close> in SQL: NULL equals nothing.\<close>

definition sql_eq :: "'a option \<Rightarrow> 'a option \<Rightarrow> bool" where
  "sql_eq a b = (case a of None \<Rightarrow> False | Some x \<Rightarrow> b = Some x)"

section \<open>Jobs\<close>

definition next_rowid :: "int list \<Rightarrow> int" where
  "next_rowid ids = (if ids = [] then 1 else Max (set ids) + 1)"

definition new_job :: "pystr \<Rightarrow> int \<Rightarrow> pystr \<Rightarrow> pystr option \<Rightarrow> JobRow" where
  "new_job now jid description created_by = \<lparr> j_id = jid, j_description = description,
     j_status = ''planning'', j_created_by = created_by, j_created_at = Some now,
     j_updated_at = Some now, j_started_at = None, j_completed_at = None \<rparr>"

definition add_job :: "pystr \<Rightarrow> pystr \<Rightarrow> pystr option \<Rightarrow> int option \<Rightarrow> Store \<Rightarrow> int \<times> Store" where
  "add_job now description created_by job_id s = (case job_id of
     Some jid \<Rightarrow>
       if job_exists s jid then (jid, s)
       else (jid, s\<lparr>jobs := jobs s @ [new_job now jid description created_by]\<rparr>)
   | None \<Rightarrow> (let jid = next_rowid (map j_id (jobs s)) in
       (jid, s\<lparr>jobs := jobs s @ [new_job now jid description created_by]\<rparr>)))"

datatype JobFilter = ByJobStatus "pystr option" | ByCreatedBy "pystr option"

fun job_matches :: "JobRow \<Rightarrow> JobFilter \<Rightarrow> bool" where
  "job_matches j (ByJobStatus v) = sql_eq v (Some (j_status j))"
| "job_matches j (ByCreatedBy v) = sql_eq v (j_created_by j)"

definition list_jobs :: "JobFilter list \<Rightarrow> Store \<Rightarrow> JobRow list" where
  "list_jobs filt s =
     sort_key j_updated_at (sort_key j_id (filter (\<lambda>j. list_all (job_matches j) filt) (jobs s)))"

definition get_job :: "int \<Rightarrow> Store \<Rightarrow> JobRow option" where
  "get_job jid s = find (\<lambda>j. j_id j = jid) (jobs s)"

definition coalesce :: "'a option \<Rightarrow> 'a option \<Rightarrow> 'a option" where
  "coalesce a b = (case a of None \<Rightarrow> b | Some x \<Rightarrow> Some x)"

definition update_job_status :: "pystr \<Rightarrow> int \<Rightarrow> pystr \<Rightarrow> Store \<Rightarrow> bool \<times> Store" where
  "update_job_status now jid status s =
     (let started = status \<in> set [''active'', ''in_progress'', ''completed'', ''failed'', ''rejected'', ''cancelled''];
          completed = status \<in> set [''completed'', ''failed'', ''rejected'', ''cancelled''];
          f = (\<lambda>j. j\<lparr>j_status := status, j_updated_at := Some now,
                 j_started_at := (if started then coalesce (j_started_at j) (Some now) else j_started_at j),
                 j_completed_at := (if completed then coalesce (j_completed_at j) (Some now)
                                    else j_completed_at j)\<rparr>)
      in (job_exists s jid, s\<lparr>jobs := update_where (\<lambda>j. j_id j = jid) f (jobs s)\<rparr>))"

section \<open>Reading tasks\<close>

datatype TaskFilter = ByJob "int option" | ByStatus "pystr option" | ByAssigned "pystr option"
  | ByType "pystr option" | ByOrigin "pystr option" | ById "int option" | ByIds "int list"

fun task_matches :: "TaskRow \<Rightarrow> TaskFilter \<Rightarrow> bool" where
  "task_matches r (ByJob v) = sql_eq v (Some (t_job_id r))"
| "task_matches r (ByStatus v) = sql_eq v (Some (t_status r))"
| "task_matches r (ByAssigned v) = sql_eq v (t_assigned_to r)"
| "task_matches r (ByType v) = sql_eq v (Some (t_task_type r))"
| "task_matches r (ByOrigin v) = sql_eq v (Some (t_origin r))"
| "task_matches r (ById v) = sql_eq v (Some (t_id r))"
| "task_matches r (ByIds ids) = (t_id r \<in> set ids)"

definition list_tasks :: "TaskFilter list \<Rightarrow> Store \<Rightarrow> TaskRow list" where
  "list_tasks filt s = filter (\<lambda>r. list_all (task_matches r) filt) (tasks s)"

definition find_task_by_source_context :: "pystr option \<Rightarrow> Store \<Rightarrow> TaskRow option" where
  "find_task_by_source_context source_context s =
     (if py_strip (or_empty source_context) = [] then None
      else case find (\<lambda>r. t_source_context r = source_context) (tasks s) of
          None \<Rightarrow> None
        | Some r \<Rightarrow> (case list_tasks [ById (Some (t_id r))] s of [] \<Rightarrow> None | x # _ \<Rightarrow> Some x))"

section \<open>Dependencies\<close>

definition dep_edges :: "Store \<Rightarrow> (int \<times> int) list" where
  "dep_edges s = map (\<lambda>d. (d_task d, d_on d)) (deps s)"

text \<open>
  The recursive query \<open>reachable\<close>: start from a node, add the targets of edges that leave a
  reached node until nothing is new (\<open>UNION\<close> drops duplicates).
\<close>

function reach :: "(int \<times> int) list \<Rightarrow> int list \<Rightarrow> int list \<Rightarrow> int list" where
  "reach E seen [] = seen"
| "reach E seen (x # xs) =
     (if x \<in> set seen then reach E seen xs
      else reach E (x # seen) (map snd (filter (\<lambda>e. fst e = x) E) @ xs))"
  by pat_completeness auto
termination reach
proof (relation "measures [\<lambda>(E, seen, xs). card (fst ` set E - set seen), \<lambda>(E, seen, xs). length xs]",
    goal_cases)
  case (3 E seen x xs)
  show ?case
  proof (cases "x \<in> fst ` set E")
    case True
    have "fst ` set E - set (x # seen) = (fst ` set E - set seen) - {x}" by auto
    moreover have "x \<in> fst ` set E - set seen" using True 3 by simp
    ultimately have "card (fst ` set E - set (x # seen)) < card (fst ` set E - set seen)"
      by (metis card_Diff1_less finite_Diff finite_imageI finite_set)
    then show ?thesis by simp
  next
    case False
    then have "filter (\<lambda>e. fst e = x) E = []" by (auto simp: filter_empty_conv)
    moreover have "fst ` set E - set (x # seen) = fst ` set E - set seen" using False by auto
    ultimately show ?thesis by simp
  qed
qed auto

definition insert_task_dependency :: "pystr \<Rightarrow> int \<Rightarrow> int \<Rightarrow> Store \<Rightarrow> store_error + (bool \<times> Store)" where
  "insert_task_dependency now tid dep s =
     (if tid = dep then Inl (ValueError ''task nao pode depender de si mesma'')
      else if tid \<in> set (reach (dep_edges s) [] [dep])
        then Inl (ValueError ''dependencia criaria ciclo entre tasks'')
      else if (tid, dep) \<in> set (dep_edges s) then Inr (False, s)
      else if task_at s tid = None \<or> task_at s dep = None then Inl IntegrityError
      else Inr (True, s\<lparr>deps := deps s @ [\<lparr>d_task = tid, d_on = dep, d_created_at = now\<rparr>]\<rparr>))"

definition add_task_dependency :: "pystr \<Rightarrow> int \<Rightarrow> int \<Rightarrow> Store \<Rightarrow> store_error + (bool \<times> Store)" where
  "add_task_dependency now tid dep s = insert_task_dependency now tid dep s"

definition list_task_dependencies :: "int \<Rightarrow> Store \<Rightarrow> int list" where
  "list_task_dependencies tid s = sort (map d_on (filter (\<lambda>d. d_task d = tid) (deps s)))"

section \<open>Operations inside a caller's transaction\<close>

text \<open>\<open>transition_tasks\<close>: the ids it changed, in order, and the store.\<close>

fun transition_tasks :: "pystr \<Rightarrow> int list \<Rightarrow> TaskStatus \<Rightarrow> pystr option \<Rightarrow> Store \<Rightarrow> int list \<times> Store" where
  "transition_tasks now [] to_status reason s = ([], s)"
| "transition_tasks now (tid # tids) to_status reason s =
     (case task_at s tid of
        None \<Rightarrow> transition_tasks now tids to_status reason s
      | Some r \<Rightarrow>
          if \<not> can_transition (t_status r) (status_value to_status)
          then transition_tasks now tids to_status reason s
          else (let s' = update_task_row tid (\<lambda>r. r\<lparr>t_status := status_value to_status,
                      t_notes := reason, t_completed_at := Some now, t_updated_at := Some now\<rparr>) s;
                    (changed, s'') = transition_tasks now tids to_status reason s'
                in (tid # changed, s'')))"

type_synonym observation = "pystr \<times> int \<times> pystr option"

definition requeue_interrupted :: "pystr \<Rightarrow> int \<Rightarrow> pystr \<Rightarrow> observation option \<Rightarrow> Store \<Rightarrow> bool \<times> Store" where
  "requeue_interrupted now tid reason observed s = (case task_at s tid of
     None \<Rightarrow> (False, s)
   | Some r \<Rightarrow>
       if observed \<noteq> None \<and> observed \<noteq> Some (t_status r, t_attempt_count r, t_updated_at r) then (False, s)
       else if t_status r = status_value REVIEWING then
         (True, update_task_row tid (\<lambda>r. r\<lparr>t_status := status_value PENDING_REVIEW,
            t_reviewed_by := None, t_notes := Some reason, t_updated_at := Some now\<rparr>) s)
       else if t_status r \<noteq> status_value IN_PROGRESS then (False, s)
       else
         (True, update_task_row tid (\<lambda>r. r\<lparr>t_status := status_value PENDING, t_result := None,
            t_notes := Some reason, t_attempt_count := t_attempt_count r + 1,
            t_started_at := None, t_completed_at := None, t_updated_at := Some now\<rparr>) s))"

definition unassign_pending_task :: "pystr \<Rightarrow> int \<Rightarrow> pystr \<Rightarrow> Store \<Rightarrow> bool \<times> Store" where
  "unassign_pending_task now tid owner s = (case task_at s tid of
     None \<Rightarrow> (False, s)
   | Some r \<Rightarrow>
       if t_status r = status_value PENDING \<and> t_assigned_to r = Some owner
       then (True, update_task_row tid (\<lambda>r. r\<lparr>t_assigned_to := None, t_updated_at := Some now\<rparr>) s)
       else (False, s))"

fun set_tasks_job :: "pystr \<Rightarrow> int list \<Rightarrow> int \<Rightarrow> Store \<Rightarrow> store_error + Store" where
  "set_tasks_job now [] jid s = Inr s"
| "set_tasks_job now (tid # tids) jid s =
     (if task_at s tid \<noteq> None \<and> \<not> job_exists s jid then Inl IntegrityError
      else set_tasks_job now tids jid
        (update_task_row tid (\<lambda>r. r\<lparr>t_job_id := jid, t_updated_at := Some now\<rparr>) s))"

definition release_agent_tasks :: "pystr \<Rightarrow> pystr \<Rightarrow> Store \<Rightarrow> Store" where
  "release_agent_tasks now agent s = s\<lparr>tasks := update_where
     (\<lambda>r. t_assigned_to r = Some agent \<and> t_status r = status_value PENDING \<and>
          t_origin r \<notin> set [''delegate'', ''workflow''])
     (\<lambda>r. r\<lparr>t_assigned_to := None, t_updated_at := Some now\<rparr>) (tasks s)\<rparr>"

section \<open>Creating tasks\<close>

text \<open>
  The \<open>status\<close> argument is a member of the enumeration or plain text. \<open>str\<close> of a member is
  \<open>'TaskStatus.NAME'\<close>, so \<open>str(status) == TaskStatus.IN_PROGRESS\<close> holds for the text only.
\<close>

datatype StatusArg = Member TaskStatus | StatusText pystr

definition status_arg_column :: "StatusArg \<Rightarrow> pystr" where
  "status_arg_column a = (case a of Member st \<Rightarrow> status_value st | StatusText t \<Rightarrow> t)"

definition starts_now :: "StatusArg \<Rightarrow> bool" where
  "starts_now a = (case a of Member st \<Rightarrow> False | StatusText t \<Rightarrow> t = status_value IN_PROGRESS)"

record NewTask =
  n_description :: pystr
  n_task_type :: pystr
  n_assigned_to :: "pystr option"
  n_origin :: pystr
  n_status :: StatusArg
  n_priority :: pystr
  n_created_by :: "pystr option"
  n_requested_by :: "pystr option"
  n_notes :: "pystr option"
  n_body :: "body_text option"
  n_source_context :: "pystr option"

definition task_defaults :: "pystr \<Rightarrow> NewTask" where
  "task_defaults description = \<lparr> n_description = description, n_task_type = task_type_value GENERAL,
     n_assigned_to = None, n_origin = ''human_command'', n_status = Member PENDING,
     n_priority = ''medium'', n_created_by = None, n_requested_by = None, n_notes = None,
     n_body = None, n_source_context = None \<rparr>"

definition new_task_row :: "pystr \<Rightarrow> int \<Rightarrow> int \<Rightarrow> NewTask \<Rightarrow> TaskRow" where
  "new_task_row now tid jid n = \<lparr> t_id = tid, t_job_id = jid, t_description = n_description n,
     t_body = n_body n, t_status = status_arg_column (n_status n), t_task_type = n_task_type n,
     t_origin = n_origin n, t_assigned_to = n_assigned_to n, t_result = None, t_notes = n_notes n,
     t_priority = Some (n_priority n), t_created_at = Some now, t_updated_at = Some now,
     t_started_at = (if starts_now (n_status n) then Some now else None), t_completed_at = None,
     t_created_by = n_created_by n, t_approved_by = None, t_source_context = n_source_context n,
     t_requested_by = n_requested_by n, t_reviewed_by = None, t_attempt_count = 0,
     t_rework_count = 0, t_failed_agents = None, t_failed_reviewers = None \<rparr>"

definition insert_task :: "pystr \<Rightarrow> int \<Rightarrow> NewTask \<Rightarrow> Store \<Rightarrow> store_error + (int \<times> Store)" where
  "insert_task now jid n s =
     (if \<not> job_exists s jid then Inl IntegrityError
      else let tid = task_seq s + 1 in
        Inr (tid, s\<lparr>tasks := tasks s @ [new_task_row now tid jid n], task_seq := tid\<rparr>))"

definition create_task :: "pystr \<Rightarrow> int \<Rightarrow> NewTask \<Rightarrow> Store \<Rightarrow> store_error + (int \<times> Store)" where
  "create_task now jid n s = bind_res (insert_task now jid n s) (\<lambda>(tid, s').
     Inr (tid, publish_event (TaskProposed tid jid (n_description n) (n_task_type n)
       (n_requested_by n) (n_source_context n)) s'))"

section \<open>Moving a task\<close>

definition update_task :: "pystr \<Rightarrow> int \<Rightarrow> pystr \<Rightarrow> pystr option \<Rightarrow> pystr option \<Rightarrow> Store \<Rightarrow> bool \<times> Store" where
  "update_task now tid status result notes s =
     (let starts = status = status_value IN_PROGRESS;
          ends = \<not> starts \<and> status \<in> set (map status_value [COMPLETED, FAILED, REJECTED, CANCELLED])
      in (task_at s tid \<noteq> None, update_task_row tid (\<lambda>r. r\<lparr>t_status := status, t_result := result,
            t_notes := notes, t_updated_at := Some now,
            t_started_at := (if starts then coalesce (t_started_at r) (Some now) else t_started_at r),
            t_completed_at := (if ends then Some now else t_completed_at r)\<rparr>) s))"

definition requeue_task :: "pystr \<Rightarrow> int \<Rightarrow> pystr \<Rightarrow> pystr option \<Rightarrow> int option \<Rightarrow> bool \<Rightarrow> Store
    \<Rightarrow> bool \<times> Store" where
  "requeue_task now tid failed_agent reason expected_attempt exclude_agent s = (case task_at s tid of
     None \<Rightarrow> (False, s)
   | Some r \<Rightarrow>
       if \<not> can_transition (t_status r) (status_value PENDING)
          \<or> stale_attempt (t_attempt_count r) expected_attempt then (False, s)
       else (let failed_agents = (if exclude_agent then add_token (t_failed_agents r) failed_agent
                                  else or_empty (t_failed_agents r));
                 attempt_count = t_attempt_count r + 1;
                 s' = update_task_row tid (\<lambda>r. r\<lparr>t_status := status_value PENDING,
                   t_assigned_to := None, t_result := reason, t_notes := reason,
                   t_failed_agents := none_if_empty failed_agents, t_attempt_count := attempt_count,
                   t_started_at := None, t_completed_at := None, t_updated_at := Some now\<rparr>) s
             in (True, publish_requeue tid (t_job_id r) reason failed_agent attempt_count False None s')))"

definition complete_task :: "pystr \<Rightarrow> int \<Rightarrow> pystr option \<Rightarrow> pystr option \<Rightarrow> pystr option \<Rightarrow> pystr option
    \<Rightarrow> int option \<Rightarrow> Store \<Rightarrow> bool \<times> Store" where
  "complete_task now tid result reviewed_by notes executed_by expected_attempt s = (case task_at s tid of
     None \<Rightarrow> (False, s)
   | Some r \<Rightarrow>
       if \<not> can_transition (t_status r) (status_value COMPLETED)
          \<or> stale_attempt (t_attempt_count r) expected_attempt then (False, s)
       else (let reviewing = t_status r = status_value REVIEWING;
                 s' = update_task_row tid (\<lambda>r. r\<lparr>t_status := status_value COMPLETED,
                   t_result := result, t_notes := notes, t_completed_at := Some now,
                   t_updated_at := Some now,
                   t_reviewed_by := (if truthy_text reviewed_by then reviewed_by
                     else if reviewing then None else t_reviewed_by r),
                   t_assigned_to := (if truthy_text executed_by then executed_by
                     else t_assigned_to r)\<rparr>) s
             in (True, publish_event (TaskCompleted tid (t_job_id r) result reviewed_by) s')))"

definition submit_for_review :: "pystr \<Rightarrow> int \<Rightarrow> pystr option \<Rightarrow> int option \<Rightarrow> Store \<Rightarrow> bool \<times> Store" where
  "submit_for_review now tid result expected_attempt s = (case task_at s tid of
     None \<Rightarrow> (False, s)
   | Some r \<Rightarrow>
       if \<not> can_transition (t_status r) (status_value PENDING_REVIEW)
          \<or> stale_attempt (t_attempt_count r) expected_attempt then (False, s)
       else (let s' = update_task_row tid (\<lambda>r. r\<lparr>t_status := status_value PENDING_REVIEW,
                   t_result := result, t_notes := None, t_reviewed_by := None,
                   t_updated_at := Some now\<rparr>) s
             in (True, publish_event
                  (TaskSubmittedForReview tid (t_job_id r) result (t_assigned_to r)) s')))"

definition requeue_task_after_review :: "pystr \<Rightarrow> int \<Rightarrow> pystr \<Rightarrow> pystr option \<Rightarrow> pystr option
    \<Rightarrow> int option \<Rightarrow> Store \<Rightarrow> bool \<times> Store" where
  "requeue_task_after_review now tid failed_agent result notes expected_attempt s = (case task_at s tid of
     None \<Rightarrow> (False, s)
   | Some r \<Rightarrow>
       if \<not> can_transition (t_status r) (status_value PENDING)
          \<or> stale_attempt (t_attempt_count r) expected_attempt then (False, s)
       else (let failed_agents = add_token (t_failed_agents r) failed_agent;
                 attempt_count = t_attempt_count r + 1;
                 s' = update_task_row tid (\<lambda>r. r\<lparr>t_status := status_value PENDING,
                   t_assigned_to := None, t_result := result, t_notes := notes,
                   t_reviewed_by := None, t_failed_agents := Some failed_agents,
                   t_attempt_count := attempt_count, t_started_at := None, t_completed_at := None,
                   t_updated_at := Some now\<rparr>) s
             in (True, publish_requeue tid (t_job_id r) notes failed_agent attempt_count False None s')))"

definition rework_task :: "pystr \<Rightarrow> int \<Rightarrow> pystr option \<Rightarrow> pystr \<Rightarrow> pystr option \<Rightarrow> int option \<Rightarrow> int option
    \<Rightarrow> Store \<Rightarrow> TaskStatus option \<times> Store" where
  "rework_task now tid owner reason result expected_attempt max_reworks s = (case task_at s tid of
     None \<Rightarrow> (None, s)
   | Some r \<Rightarrow>
       if \<not> can_transition (t_status r) (status_value PENDING)
          \<or> stale_attempt (t_attempt_count r) expected_attempt then (None, s)
       else (let attempt_count = t_attempt_count r + 1;
                 rework_count = t_rework_count r + 1;
                 exhausted = (case max_reworks of None \<Rightarrow> False | Some m \<Rightarrow> rework_count \<ge> m);
                 reason' = (case max_reworks of
                     Some m \<Rightarrow> if exhausted then ''limite de '' @ show_int m @
                       '' entregas rejeitadas atingido: '' @ reason else reason
                   | None \<Rightarrow> reason);
                 status = (if exhausted then FAILED else PENDING);
                 s' = update_task_row tid (\<lambda>r. r\<lparr>t_status := status_value status,
                   t_assigned_to := owner, t_result := result, t_notes := Some reason',
                   t_reviewed_by := None, t_failed_reviewers := None,
                   t_attempt_count := attempt_count, t_rework_count := rework_count,
                   t_started_at := None,
                   t_completed_at := (if exhausted then Some now else None),
                   t_updated_at := Some now\<rparr>) s
             in (Some status, publish_requeue tid (t_job_id r) (Some reason') (or_empty owner)
                  attempt_count exhausted owner s')))"

definition return_review :: "pystr \<Rightarrow> int \<Rightarrow> pystr \<Rightarrow> pystr \<Rightarrow> int option \<Rightarrow> bool \<Rightarrow> Store \<Rightarrow> bool \<times> Store" where
  "return_review now tid reviewer reason expected_attempt exclude_reviewer s = (case task_at s tid of
     None \<Rightarrow> (False, s)
   | Some r \<Rightarrow>
       if \<not> can_transition (t_status r) (status_value PENDING_REVIEW)
          \<or> stale_attempt (t_attempt_count r) expected_attempt then (False, s)
       else (let failed_reviewers = (if exclude_reviewer then add_token (t_failed_reviewers r) reviewer
                                     else or_empty (t_failed_reviewers r))
             in (True, update_task_row tid (\<lambda>r. r\<lparr>t_status := status_value PENDING_REVIEW,
                   t_reviewed_by := None, t_notes := Some reason,
                   t_failed_reviewers := none_if_empty failed_reviewers,
                   t_updated_at := Some now\<rparr>) s)))"

text \<open>
  \<open>transition_task\<close>: an argument that is \<open>_UNSET\<close> is \<open>None\<close>, an argument given is \<open>Some\<close> of its
  (possibly NULL) value.
\<close>

definition given :: "'a option \<Rightarrow> 'a \<Rightarrow> 'a" where
  "given arg current = (case arg of None \<Rightarrow> current | Some v \<Rightarrow> v)"

definition transition_event :: "int \<Rightarrow> int \<Rightarrow> pystr \<Rightarrow> pystr option \<Rightarrow> pystr option \<Rightarrow> Store \<Rightarrow> Store" where
  "transition_event tid jid to_status approved_by result s =
     (if to_status = status_value APPROVED then publish_event (TaskApproved tid jid approved_by) s
      else if to_status = status_value REJECTED then publish_event (TaskRejected tid jid result) s
      else if to_status = status_value FAILED then publish_event (TaskFailed tid jid result None) s
      else s)"

definition transition_task :: "pystr \<Rightarrow> int \<Rightarrow> pystr \<Rightarrow> pystr option option \<Rightarrow> pystr option option
    \<Rightarrow> pystr option option \<Rightarrow> pystr option option \<Rightarrow> int option \<Rightarrow> pystr option \<Rightarrow> Store \<Rightarrow> bool \<times> Store" where
  "transition_task now tid to_status result notes approved_by assigned_to expected_attempt
      expected_status s = (case task_at s tid of
     None \<Rightarrow> (False, s)
   | Some r \<Rightarrow>
       if \<not> can_transition (t_status r) to_status
          \<or> stale_attempt (t_attempt_count r) expected_attempt
          \<or> (expected_status \<noteq> None \<and> Some (t_status r) \<noteq> expected_status) then (False, s)
       else (let ends = to_status \<in> set (map status_value [COMPLETED, FAILED, REJECTED, CANCELLED]);
                 s' = update_task_row tid (\<lambda>r. r\<lparr>t_status := to_status, t_updated_at := Some now,
                   t_completed_at := (if ends then Some now else t_completed_at r),
                   t_result := given result (t_result r), t_notes := given notes (t_notes r),
                   t_approved_by := given approved_by (t_approved_by r),
                   t_assigned_to := given assigned_to (t_assigned_to r)\<rparr>) s
             in (True, transition_event tid (t_job_id r) to_status (given approved_by None)
                  (given result None) s')))"

definition fail_task :: "pystr \<Rightarrow> int \<Rightarrow> pystr option \<Rightarrow> int option \<Rightarrow> pystr option \<Rightarrow> Store \<Rightarrow> bool \<times> Store" where
  "fail_task now tid reason expected_attempt expected_status s =
     transition_task now tid (status_value FAILED) (Some reason) (Some reason) None None
       expected_attempt expected_status s"

section \<open>Claims\<close>

definition excluded_by :: "pystr option \<Rightarrow> pystr \<Rightarrow> bool" where
  "excluded_by column agent =
     sql_like (''%'' @ failed_agents_token agent @ ''%'') (or_empty column)"

text \<open>\<open>EXEC_CLAIM_GATE_SQL\<close> and \<open>REVIEW_CLAIM_GATE_SQL\<close> for one candidate row.\<close>

definition own_writes :: "Store \<Rightarrow> int \<Rightarrow> bool" where
  "own_writes s tid = (case find (\<lambda>l. l_task l = tid) (links s) of None \<Rightarrow> False | Some l \<Rightarrow> l_writes l)"

definition busy_writer :: "Store \<Rightarrow> int \<Rightarrow> bool" where
  "busy_writer s tid = list_ex (\<lambda>l. l_writes l \<and> l_superseded_in l = None \<and>
     list_ex (\<lambda>r. t_id r = l_task l \<and> t_id r \<noteq> tid \<and>
       list_ex (\<lambda>w. w_id w = l_workflow l \<and>
         (t_status r = status_value IN_PROGRESS \<or>
          (t_status r \<in> set [status_value PENDING_REVIEW, status_value REVIEWING] \<and>
           w_status w \<in> set [wf_value WF_RUNNING, wf_value WF_BLOCKED])))
       (workflows s)) (tasks s)) (links s)"

definition exec_claim_gate :: "Store \<Rightarrow> TaskRow \<Rightarrow> bool" where
  "exec_claim_gate s c =
     (\<not> list_ex (\<lambda>l. l_task l = t_id c \<and> list_ex (\<lambda>w. w_id w = l_workflow l \<and>
          (w_status w \<noteq> wf_value WF_RUNNING \<or> l_superseded_in l \<noteq> None)) (workflows s)) (links s)
      \<and> \<not> (own_writes s (t_id c) \<and> busy_writer s (t_id c)))"

definition review_claim_gate :: "Store \<Rightarrow> TaskRow \<Rightarrow> bool" where
  "review_claim_gate s c =
     (\<not> list_ex (\<lambda>l. l_task l = t_id c \<and> list_ex (\<lambda>w. w_id w = l_workflow l \<and>
          (w_status w \<notin> set [wf_value WF_RUNNING, wf_value WF_BLOCKED] \<or> l_superseded_in l \<noteq> None))
        (workflows s)) (links s))"

definition prerequisites_met :: "Store \<Rightarrow> int \<Rightarrow> bool" where
  "prerequisites_met s tid =
     (\<not> list_ex (\<lambda>d. d_task d = tid \<and>
        list_ex (\<lambda>r. t_id r = d_on d \<and> t_status r \<noteq> status_value COMPLETED) (tasks s)) (deps s))"

definition claimable :: "Store \<Rightarrow> pystr \<Rightarrow> int option \<Rightarrow> TaskRow \<Rightarrow> bool" where
  "claimable s agent job_id c \<longleftrightarrow>
     t_status c \<in> set [status_value PENDING, status_value APPROVED] \<and>
     t_origin c \<noteq> ''delegate'' \<and>
     (t_assigned_to c = Some agent \<or> t_assigned_to c = None) \<and>
     (job_id = None \<or> job_id = Some (t_job_id c)) \<and>
     \<not> excluded_by (t_failed_agents c) agent \<and>
     prerequisites_met s (t_id c) \<and> exec_claim_gate s c"

definition claim_update_matches :: "pystr \<Rightarrow> int \<Rightarrow> int \<Rightarrow> TaskRow \<Rightarrow> bool" where
  "claim_update_matches agent tid jid r \<longleftrightarrow> t_id r = tid \<and>
     t_status r \<in> set [status_value PENDING, status_value APPROVED] \<and>
     (t_assigned_to r = Some agent \<or> t_assigned_to r = None) \<and> t_job_id r = jid \<and>
     \<not> excluded_by (t_failed_agents r) agent"

definition claim_task :: "pystr \<Rightarrow> pystr \<Rightarrow> int option \<Rightarrow> Store \<Rightarrow> int option \<times> Store" where
  "claim_task now agent job_id s = (case find (claimable s agent job_id) (tasks s) of
     None \<Rightarrow> (None, s)
   | Some c \<Rightarrow>
       (let tid = t_id c; jid = t_job_id c; hit = claim_update_matches agent tid jid in
        if length (filter hit (tasks s)) \<noteq> 1 then (None, s)
        else (let s' = s\<lparr>tasks := update_where hit (\<lambda>r. r\<lparr>t_assigned_to := Some agent,
                    t_status := status_value IN_PROGRESS, t_started_at := Some now,
                    t_updated_at := Some now\<rparr>) (tasks s)\<rparr>
              in (Some tid, publish_event (TaskStarted tid jid agent) s'))))"

definition review_claimable :: "Store \<Rightarrow> pystr \<Rightarrow> int option \<Rightarrow> TaskRow \<Rightarrow> bool" where
  "review_claimable s agent job_id c \<longleftrightarrow>
     t_status c = status_value PENDING_REVIEW \<and>
     (t_assigned_to c = None \<or> t_assigned_to c \<noteq> Some agent) \<and>
     (t_reviewed_by c = None \<or> t_reviewed_by c \<noteq> Some agent) \<and>
     \<not> excluded_by (t_failed_reviewers c) agent \<and>
     (job_id = None \<or> job_id = Some (t_job_id c)) \<and> review_claim_gate s c"

definition claim_review_task :: "pystr \<Rightarrow> pystr \<Rightarrow> int option \<Rightarrow> Store \<Rightarrow> int option \<times> Store" where
  "claim_review_task now agent job_id s = (case find (review_claimable s agent job_id) (tasks s) of
     None \<Rightarrow> (None, s)
   | Some c \<Rightarrow>
       (let tid = t_id c;
            s' = update_task_row tid (\<lambda>r. r\<lparr>t_status := status_value REVIEWING,
                   t_reviewed_by := Some agent, t_updated_at := Some now\<rparr>) s
        in (Some tid, publish_event (TaskReviewStarted tid (t_job_id c) agent) s')))"

text \<open>\<open>_has_candidate\<close>: the candidates are matched by \<open>in\<close>, not by \<open>LIKE\<close>.\<close>

definition has_candidate :: "(TaskRow \<Rightarrow> pystr option) \<Rightarrow> int \<Rightarrow> pystr list \<Rightarrow> Store \<Rightarrow> bool" where
  "has_candidate column tid candidates s =
     (candidates \<noteq> [] \<and> (case task_at s tid of
        None \<Rightarrow> False
      | Some r \<Rightarrow> (let failed = or_empty (column r) in
          list_ex (\<lambda>a. \<not> py_contains (failed_agents_token a) failed) candidates)))"

definition can_reassign_task :: "int \<Rightarrow> pystr list \<Rightarrow> Store \<Rightarrow> bool" where
  "can_reassign_task = has_candidate t_failed_agents"

definition can_review_task :: "int \<Rightarrow> pystr list \<Rightarrow> Store \<Rightarrow> bool" where
  "can_review_task = has_candidate t_failed_reviewers"

end
