(* ===== verification/Agent_Pool.thy ===== *)
theory Agent_Pool
  imports Task_Repository Complex_Main
begin

text \<open>
  The pool of agents (\<open>quimera/app/agent_pool.py\<close>) and the tracker of their failures
  (\<open>quimera/app/agent_failure_tracker.py\<close>): who answers next, who is suspended and until when. Each
  method holds the lock of its object, so it is one function on the state. The clock is the
  parameter \<open>now\<close>; instants and spans (floats in the code) are rational numbers.
\<close>

section \<open>State\<close>

record AgentPool =
  ap_agents :: "pystr list"
  ap_suspended :: "pystr \<rightharpoonup> rat \<times> pystr"
  ap_frozen :: "pystr option"
  ap_orchestrator :: "pystr option"
  ap_listening :: bool
  ap_routed :: "(pystr option \<times> pystr option) list"

text \<open>\<open>ap_routed\<close> are the calls of the routing listener so far, newest last.\<close>

datatype pool_error = NotInPool pystr | IndexFault

record SuspendedAgent =
  sa_name :: pystr
  sa_reason :: pystr
  sa_remaining :: rat

definition new_pool :: "pystr list \<Rightarrow> AgentPool" where
  "new_pool agents = \<lparr> ap_agents = agents, ap_suspended = Map.empty, ap_frozen = None, ap_orchestrator = None,
     ap_listening = False, ap_routed = [] \<rparr>"

definition set_routing_listener :: "bool \<Rightarrow> AgentPool \<Rightarrow> AgentPool" where
  "set_routing_listener callable p = p\<lparr>ap_listening := callable\<rparr>"

definition notify_routing :: "AgentPool \<Rightarrow> AgentPool" where
  "notify_routing p = (if ap_listening p
     then p\<lparr>ap_routed := ap_routed p @ [(ap_frozen p, ap_orchestrator p)]\<rparr> else p)"

section \<open>Availability\<close>

definition unexpired :: "rat \<Rightarrow> (pystr \<rightharpoonup> rat \<times> pystr) \<Rightarrow> (pystr \<rightharpoonup> rat \<times> pystr)" where
  "unexpired now susp = (\<lambda>n. case susp n of None \<Rightarrow> None | Some (til, why) \<Rightarrow> if til \<le> now then None else Some (til, why))"

definition available_locked :: "rat \<Rightarrow> AgentPool \<Rightarrow> pystr list \<times> AgentPool" where
  "available_locked now p = (let susp = unexpired now (ap_suspended p) in
     (filter (\<lambda>a. susp a = None) (ap_agents p), p\<lparr>ap_suspended := susp\<rparr>))"

text \<open>\<open>xs.index(x)\<close> of an element, and when an agent comes back (only asked of suspended ones).\<close>

definition index_of :: "'a \<Rightarrow> 'a list \<Rightarrow> nat" where
  "index_of x xs = length (takeWhile (\<lambda>y. y \<noteq> x) xs)"

definition back_at :: "(pystr \<rightharpoonup> rat \<times> pystr) \<Rightarrow> pystr \<Rightarrow> rat" where
  "back_at susp a = (case susp a of None \<Rightarrow> 0 | Some (til, why) \<Rightarrow> til)"

definition pick_locked :: "rat \<Rightarrow> AgentPool \<Rightarrow> (pystr option \<times> nat option) \<times> AgentPool" where
  "pick_locked now p = (case available_locked now p of (available, q) \<Rightarrow>
     (case ap_frozen q of
        Some f \<Rightarrow> if f \<in> set available then (Some f, None)
          else if available \<noteq> [] then (Some (hd available), Some (index_of (hd available) (ap_agents q)))
          else if ap_agents q = [] then (None, None)
          else (Some (arg_min_list (back_at (ap_suspended q)) (ap_agents q)), None)
      | None \<Rightarrow> if available \<noteq> [] then (Some (hd available), Some (index_of (hd available) (ap_agents q)))
          else if ap_agents q = [] then (None, None)
          else (Some (arg_min_list (back_at (ap_suspended q)) (ap_agents q)), None), q))"

definition suspend :: "rat \<Rightarrow> pystr \<Rightarrow> rat \<Rightarrow> pystr \<Rightarrow> AgentPool \<Rightarrow> pool_error + AgentPool" where
  "suspend now name seconds why p =
     (if name \<notin> set (ap_agents p) then Inl (NotInPool name)
      else let til = now + max 0 seconds in
        (case ap_suspended p name of
           Some (current, _) \<Rightarrow> if current > til then Inr p else Inr (p\<lparr>ap_suspended := (ap_suspended p)(name \<mapsto> (til, why))\<rparr>)
         | None \<Rightarrow> Inr (p\<lparr>ap_suspended := (ap_suspended p)(name \<mapsto> (til, why))\<rparr>)))"

definition resume_agent :: "pystr \<Rightarrow> AgentPool \<Rightarrow> bool \<times> AgentPool" where
  "resume_agent name p = (ap_suspended p name \<noteq> None, p\<lparr>ap_suspended := (ap_suspended p)(name := None)\<rparr>)"

definition suspensions :: "rat \<Rightarrow> AgentPool \<Rightarrow> SuspendedAgent list \<times> AgentPool" where
  "suspensions now p = (let q = snd (available_locked now p) in
     (List.map_filter (\<lambda>a. map_option (\<lambda>(til, why). \<lparr> sa_name = a, sa_reason = why, sa_remaining = til - now \<rparr>)
        (ap_suspended q a)) (ap_agents q), q))"

section \<open>Rotation and routing\<close>

definition primary :: "rat \<Rightarrow> AgentPool \<Rightarrow> pystr option \<times> AgentPool" where
  "primary now p = (case pick_locked now p of ((chosen, _), q) \<Rightarrow> (chosen, q))"

definition take_primary :: "rat \<Rightarrow> AgentPool \<Rightarrow> pystr option \<times> AgentPool" where
  "take_primary now p = (case pick_locked now p of ((chosen, index), q) \<Rightarrow>
     (chosen, case index of
        Some i \<Rightarrow> if length (ap_agents q) > 1
          then q\<lparr>ap_agents := take i (ap_agents q) @ drop (Suc i) (ap_agents q) @ [ap_agents q ! i]\<rparr> else q
      | None \<Rightarrow> q))"

definition rotate_pool :: "AgentPool \<Rightarrow> AgentPool" where
  "rotate_pool p = (if length (ap_agents p) > 1 then p\<lparr>ap_agents := drop 1 (ap_agents p) @ take 1 (ap_agents p)\<rparr> else p)"

definition freeze :: "pystr \<Rightarrow> AgentPool \<Rightarrow> pool_error + AgentPool" where
  "freeze name p = (if name \<notin> set (ap_agents p) then Inl (NotInPool name)
     else Inr (notify_routing (p\<lparr>ap_frozen := Some name, ap_orchestrator := None\<rparr>)))"

definition set_orchestrator :: "pystr \<Rightarrow> AgentPool \<Rightarrow> pool_error + AgentPool" where
  "set_orchestrator name p = (if name \<notin> set (ap_agents p) then Inl (NotInPool name)
     else Inr (notify_routing (p\<lparr>ap_orchestrator := Some name, ap_frozen := Some name\<rparr>)))"

definition unfreeze :: "AgentPool \<Rightarrow> AgentPool" where
  "unfreeze p = notify_routing (p\<lparr>ap_frozen := None, ap_orchestrator := None\<rparr>)"

definition list_agents :: "AgentPool \<Rightarrow> pystr list" where
  "list_agents p = rev (remdups (rev (ap_agents p)))"

section \<open>Membership\<close>

definition add_agent :: "pystr \<Rightarrow> AgentPool \<Rightarrow> AgentPool" where
  "add_agent name p = (if name \<in> set (ap_agents p) then p else p\<lparr>ap_agents := ap_agents p @ [name]\<rparr>)"

definition unroute :: "AgentPool \<Rightarrow> AgentPool" where
  "unroute p = notify_routing (p\<lparr>ap_frozen := None, ap_orchestrator := None\<rparr>)"

definition remove_agent :: "pystr \<Rightarrow> AgentPool \<Rightarrow> AgentPool" where
  "remove_agent name p = (let q = p\<lparr>ap_suspended := (ap_suspended p)(name := None)\<rparr> in
     if name \<in> set (ap_agents q)
     then (let r = q\<lparr>ap_agents := remove1 name (ap_agents q)\<rparr> in
       if ap_frozen r = Some name then unroute r else r)
     else q)"

definition set_agents :: "pystr list \<Rightarrow> AgentPool \<Rightarrow> AgentPool" where
  "set_agents agents p = (let q = p\<lparr>ap_agents := agents,
       ap_suspended := (\<lambda>n. if n \<in> set agents then ap_suspended p n else None)\<rparr> in
     case ap_frozen q of
       Some f \<Rightarrow> if f \<in> set agents then q else unroute q
     | None \<Rightarrow> q)"

text \<open>The list-like view: Python's indices count from the end when negative; \<open>insert\<close> clamps them.\<close>

definition py_index :: "int \<Rightarrow> nat \<Rightarrow> nat option" where
  "py_index i n = (let j = (if i < 0 then i + int n else i) in if 0 \<le> j \<and> j < int n then Some (nat j) else None)"

definition view_get :: "int \<Rightarrow> AgentPool \<Rightarrow> pool_error + pystr" where
  "view_get i p = (case py_index i (length (ap_agents p)) of None \<Rightarrow> Inl IndexFault | Some k \<Rightarrow> Inr (ap_agents p ! k))"

definition view_set :: "int \<Rightarrow> pystr \<Rightarrow> AgentPool \<Rightarrow> pool_error + AgentPool" where
  "view_set i name p = (case py_index i (length (ap_agents p)) of None \<Rightarrow> Inl IndexFault
     | Some k \<Rightarrow> Inr (set_agents ((ap_agents p)[k := name]) p))"

definition view_del :: "int \<Rightarrow> AgentPool \<Rightarrow> pool_error + AgentPool" where
  "view_del i p = (case py_index i (length (ap_agents p)) of None \<Rightarrow> Inl IndexFault
     | Some k \<Rightarrow> Inr (set_agents (take k (ap_agents p) @ drop (Suc k) (ap_agents p)) p))"

definition view_insert :: "int \<Rightarrow> pystr \<Rightarrow> AgentPool \<Rightarrow> AgentPool" where
  "view_insert i name p = (let n = int (length (ap_agents p));
       k = nat (if i < 0 then max 0 (i + n) else min i n) in
     set_agents (take k (ap_agents p) @ name # drop k (ap_agents p)) p)"

section \<open>Failures\<close>

record Tracked =
  tr_pool :: AgentPool
  tr_failures :: "pystr \<Rightarrow> int"
  tr_strikes :: "pystr \<Rightarrow> int"
  tr_released :: "pystr list"
  tr_metrics :: "pystr list"
  tr_bugs :: "(pystr \<times> int) list"

text \<open>
  \<open>tr_released\<close>, \<open>tr_metrics\<close> and \<open>tr_bugs\<close> are the calls of \<open>release_agent_tasks\<close> (whose exceptions are
  logged and dropped), \<open>record_metric\<close> and \<open>file_bug\<close>; the environment says whether the last two are
  installed and how names are normalized (\<open>[]\<close> for no name).
\<close>

record TrackEnv =
  te_normalize :: "pystr \<Rightarrow> pystr"
  te_metrics :: bool
  te_bugs :: bool

definition failure_threshold :: int where "failure_threshold = 2"
definition cooldown_base_seconds :: int where "cooldown_base_seconds = 5 * 60"
definition cooldown_max_seconds :: int where "cooldown_max_seconds = 60 * 60"
definition rate_limit_min_seconds :: int where "rate_limit_min_seconds = 5"

definition cooldown_seconds :: "int \<Rightarrow> int" where
  "cooldown_seconds strike = min (cooldown_base_seconds * 2 ^ nat (max 0 (strike - 1))) cooldown_max_seconds"

definition record_success :: "TrackEnv \<Rightarrow> pystr \<Rightarrow> Tracked \<Rightarrow> Tracked" where
  "record_success env agent t = (let name = te_normalize env agent in
     if name = [] then t
     else let t' = t\<lparr>tr_failures := (tr_failures t)(name := 0), tr_strikes := (tr_strikes t)(name := 0)\<rparr> in
       if name \<in> set (ap_agents (tr_pool t')) then t'\<lparr>tr_pool := snd (resume_agent name (tr_pool t'))\<rparr> else t')"

text \<open>The suspension of a member, which cannot raise: the membership was checked under the same lock.\<close>

definition suspend_member :: "rat \<Rightarrow> pystr \<Rightarrow> rat \<Rightarrow> pystr \<Rightarrow> Tracked \<Rightarrow> Tracked" where
  "suspend_member now name seconds why t = (case suspend now name seconds why (tr_pool t) of
     Inl _ \<Rightarrow> t | Inr p \<Rightarrow> t\<lparr>tr_pool := p\<rparr>)"

definition release :: "pystr \<Rightarrow> Tracked \<Rightarrow> Tracked" where
  "release name t = t\<lparr>tr_released := tr_released t @ [name]\<rparr>"

definition count_metric :: "TrackEnv \<Rightarrow> pystr \<Rightarrow> Tracked \<Rightarrow> Tracked" where
  "count_metric env name t = (if te_metrics env then t\<lparr>tr_metrics := tr_metrics t @ [name]\<rparr> else t)"

definition record_failure :: "TrackEnv \<Rightarrow> rat \<Rightarrow> pystr \<Rightarrow> Tracked \<Rightarrow> Tracked" where
  "record_failure env now agent t = (let name = te_normalize env agent in
     if name = [] then t
     else let failures = tr_failures t name + 1;
              t1 = t\<lparr>tr_failures := (tr_failures t)(name := failures)\<rparr>;
              t2 = (if failures \<ge> failure_threshold \<and> name \<in> set (ap_agents (tr_pool t1))
                then let strikes = tr_strikes t1 name + 1 in
                  release name (suspend_member now name (of_int (cooldown_seconds strikes)) (show_int failures @ '' falhas seguidas'')
                    (t1\<lparr>tr_strikes := (tr_strikes t1)(name := strikes)\<rparr>))
                else t1);
              t3 = count_metric env name t2 in
       if failures = failure_threshold \<and> te_bugs env then t3\<lparr>tr_bugs := tr_bugs t3 @ [(name, failures)]\<rparr> else t3)"

text \<open>\<open>retry_after\<close> is the number the provider gave, if it is a finite number that is not negative.\<close>

definition record_rate_limited :: "TrackEnv \<Rightarrow> rat \<Rightarrow> pystr \<Rightarrow> rat option \<Rightarrow> Tracked \<Rightarrow> Tracked" where
  "record_rate_limited env now agent retry_after t = (let name = te_normalize env agent in
     if name = [] then t
     else count_metric env name
       (if name \<in> set (ap_agents (tr_pool t))
        then let strikes = tr_strikes t name + 1;
                 cooldown = (case retry_after of
                   Some r \<Rightarrow> if 0 \<le> r then min (max r (of_int rate_limit_min_seconds)) (of_int cooldown_max_seconds)
                     else of_int (cooldown_seconds strikes)
                 | None \<Rightarrow> of_int (cooldown_seconds strikes)) in
          release name (suspend_member now name cooldown ''rate limit do provedor''
            (t\<lparr>tr_strikes := (tr_strikes t)(name := strikes)\<rparr>))
        else t))"

section \<open>Rotation as a queue\<close>

text \<open>
  The contract of a rotation: whatever the allowed moments of the calls, each takes the head of the
  queue and moves it to the end.
\<close>

fun takes :: "('t \<Rightarrow> 's \<Rightarrow> 'a option \<times> 's) \<Rightarrow> 't list \<Rightarrow> 's \<Rightarrow> 'a option list \<times> 's" where
  "takes f [] s = ([], s)"
| "takes f (t # ts) s = (case f t s of (x, s') \<Rightarrow> (case takes f ts s' of (xs, s'') \<Rightarrow> (x # xs, s'')))"

locale rotation =
  fixes queue :: "'s \<Rightarrow> 'a list" and take_next :: "'t \<Rightarrow> 's \<Rightarrow> 'a option \<times> 's"
    and inv :: "'s \<Rightarrow> bool" and allowed :: "'t \<Rightarrow> bool"
  assumes take_head: "inv s \<Longrightarrow> allowed t \<Longrightarrow> queue s \<noteq> [] \<Longrightarrow> fst (take_next t s) = Some (hd (queue s))"
    and take_rotates: "inv s \<Longrightarrow> allowed t \<Longrightarrow> queue (snd (take_next t s)) = rotate1 (queue s)"
    and take_inv: "inv s \<Longrightarrow> allowed t \<Longrightarrow> inv (snd (take_next t s))"
begin

lemma takes_rotate:
  "inv s \<Longrightarrow> \<forall>t \<in> set ts. allowed t \<Longrightarrow> queue s \<noteq> [] \<Longrightarrow>
     fst (takes take_next ts s) = map (\<lambda>i. Some (queue s ! (i mod length (queue s)))) [0..<length ts] \<and>
     queue (snd (takes take_next ts s)) = rotate (length ts) (queue s)"
proof (induction ts arbitrary: s)
  case (Cons t ts)
  obtain x s' where x: "take_next t s = (x, s')" by fastforce
  have s': "x = Some (hd (queue s))" "queue s' = rotate1 (queue s)" "inv s'"
    using take_head [of s t] take_rotates [of s t] take_inv [of s t] Cons.prems x by auto
  let ?n = "length (queue s)"
  have n: "0 < ?n" using Cons.prems by simp
  have ih: "fst (takes take_next ts s') = map (\<lambda>i. Some (queue s' ! (i mod length (queue s')))) [0..<length ts]"
    "queue (snd (takes take_next ts s')) = rotate (length ts) (queue s')"
    using Cons.IH [of s'] Cons.prems s' by auto
  have "queue s' ! (i mod ?n) = queue s ! (Suc i mod ?n)" for i
    using nth_rotate1 [of "i mod ?n" "queue s"] n by (simp add: s'(2) mod_Suc_eq)
  then have "fst (takes take_next ts s') = map (\<lambda>i. Some (queue s ! (i mod ?n))) (map Suc [0..<length ts])"
    using ih(1) by (simp add: s'(2) comp_def)
  moreover have "hd (queue s) = queue s ! (0 mod ?n)" using Cons.prems(3) by (simp add: hd_conv_nth)
  ultimately show ?case using ih(2)
    by (simp add: x s'(1,2) case_prod_beta map_Suc_upt rotate1_rotate_swap upt_conv_Cons del: upt_Suc map_map)
qed simp

end

text \<open>
  The rotation of the pool between two moments at which the same agents are suspended, with no frozen
  agent available.
\<close>

definition resting :: "rat \<Rightarrow> rat \<Rightarrow> AgentPool \<Rightarrow> bool" where
  "resting t0 t1 p \<longleftrightarrow> (\<forall>n til why. ap_suspended p n = Some (til, why) \<longrightarrow> til \<le> t0 \<or> t1 < til) \<and>
     (\<forall>f. ap_frozen p = Some f \<longrightarrow> f \<notin> set (fst (available_locked t0 p)))"

definition rotation_queue :: "rat \<Rightarrow> AgentPool \<Rightarrow> pystr list" where
  "rotation_queue t0 p = fst (available_locked t0 p)"

lemma unexpired_resting:
  "resting t0 t1 p \<Longrightarrow> t0 \<le> t \<Longrightarrow> t \<le> t1 \<Longrightarrow> unexpired t (ap_suspended p) = unexpired t0 (ap_suspended p)"
  unfolding resting_def unexpired_def by (fastforce split: option.splits)

lemma unexpired_idem: "unexpired t (unexpired t m) = unexpired t m"
  by (auto simp: unexpired_def split: option.splits)

lemma index_of_hd_filter:
  assumes "filter P xs \<noteq> []"
  shows "filter P (take (index_of (hd (filter P xs)) xs)  xs) = []" and "index_of (hd (filter P xs)) xs < length xs"
    and "xs ! index_of (hd (filter P xs)) xs = hd (filter P xs)"
  using assms by (induction xs) (auto simp: index_of_def)

lemma filter_moved:
  assumes "filter P xs \<noteq> []"
  shows "filter P (take (index_of (hd (filter P xs)) xs) xs @ drop (Suc (index_of (hd (filter P xs)) xs)) xs @
     [xs ! index_of (hd (filter P xs)) xs]) = rotate1 (filter P xs)"
proof -
  let ?i = "index_of (hd (filter P xs)) xs"
  note i = index_of_hd_filter [OF assms]
  have "P (hd (filter P xs))" using hd_in_set [OF assms] by simp
  moreover have "filter P xs = filter P (take ?i xs) @ filter P (xs ! ?i # drop (Suc ?i) xs)"
    using i(2) by (metis append_take_drop_id Cons_nth_drop_Suc filter_append)
  ultimately have "filter P xs = hd (filter P xs) # filter P (drop (Suc ?i) xs)" using i(1,3) by simp
  then have "rotate1 (filter P xs) = filter P (drop (Suc ?i) xs) @ [hd (filter P xs)]" by (metis rotate1.simps(2))
  then show ?thesis using i(1,3) \<open>P (hd (filter P xs))\<close> by simp
qed

lemma take_primary_available:
  assumes "fst (available_locked now p) \<noteq> []"
    and "\<And>f. ap_frozen p = Some f \<Longrightarrow> f \<notin> set (fst (available_locked now p))"
  shows "fst (take_primary now p) = Some (hd (fst (available_locked now p)))"
    and "filter (\<lambda>a. unexpired now (ap_suspended p) a = None) (ap_agents (snd (take_primary now p))) =
      rotate1 (fst (available_locked now p))"
proof -
  define P where "P a = (unexpired now (ap_suspended p) a = None)" for a
  note P = P_def [abs_def]
  have av: "fst (available_locked now p) = filter P (ap_agents p)" by (simp add: available_locked_def Let_def P)
  let ?i = "index_of (hd (filter P (ap_agents p))) (ap_agents p)"
  have pick: "pick_locked now p = ((Some (hd (filter P (ap_agents p))), Some ?i), p\<lparr>ap_suspended := unexpired now (ap_suspended p)\<rparr>)"
    using assms by (auto simp: pick_locked_def available_locked_def Let_def P split: option.splits)
  show "fst (take_primary now p) = Some (hd (fst (available_locked now p)))" by (simp add: take_primary_def pick av)
  have "filter P (ap_agents (snd (take_primary now p))) = rotate1 (filter P (ap_agents p))"
  proof (cases "length (ap_agents p) > 1")
    case True
    with filter_moved [of P "ap_agents p"] assms(1) show ?thesis by (simp add: take_primary_def pick av)
  next
    case False
    then obtain a where "ap_agents p = [a]" using assms(1) av by (cases "ap_agents p") auto
    then show ?thesis by (simp add: take_primary_def pick)
  qed
  then show "filter (\<lambda>a. unexpired now (ap_suspended p) a = None) (ap_agents (snd (take_primary now p))) =
      rotate1 (fst (available_locked now p))" by (simp add: av P)
qed


lemma set_take_primary [simp]: "set (ap_agents (snd (take_primary now p))) = set (ap_agents p)"
proof -
  have moved: "set (take i xs @ drop (Suc i) xs @ [xs ! i]) = set xs" if "i < length xs" for i and xs :: "pystr list"
    using that by (metis id_take_nth_drop Un_assoc Un_commute list.simps(15) set_append empty_set Un_insert_right Un_empty_right)
  show ?thesis
    using index_of_hd_filter(2) [of "\<lambda>a. unexpired now (ap_suspended p) a = None" "ap_agents p"]
    by (auto simp: take_primary_def pick_locked_def available_locked_def Let_def moved split: option.splits simp del: set_append)
qed

lemma take_primary_keeps [simp]:
  "ap_suspended (snd (take_primary now p)) = unexpired now (ap_suspended p)"
  "ap_frozen (snd (take_primary now p)) = ap_frozen p" "ap_orchestrator (snd (take_primary now p)) = ap_orchestrator p"
  "ap_listening (snd (take_primary now p)) = ap_listening p" "ap_routed (snd (take_primary now p)) = ap_routed p"
  by (auto simp: take_primary_def pick_locked_def available_locked_def Let_def split: option.splits prod.splits)

lemma available_eq: "fst (available_locked now p) = filter (\<lambda>a. unexpired now (ap_suspended p) a = None) (ap_agents p)"
  by (simp add: available_locked_def Let_def)

interpretation pool_rotation: rotation "rotation_queue t0" take_primary "resting t0 t1" "\<lambda>t. t0 \<le> t \<and> t \<le> t1" for t0 t1
proof
  fix p :: AgentPool and t
  assume p: "resting t0 t1 p" and t: "t0 \<le> t \<and> t \<le> t1"
  have same: "unexpired t (ap_suspended p) = unexpired t0 (ap_suspended p)" using unexpired_resting [OF p] t by blast
  have q: "rotation_queue t0 p = fst (available_locked t p)" by (simp add: rotation_queue_def available_eq same)
  have free: "f \<notin> set (fst (available_locked t p))" if "ap_frozen p = Some f" for f
    using p that by (simp add: resting_def available_eq same)
  have av: "unexpired t0 (ap_suspended (snd (take_primary t p))) = unexpired t (ap_suspended p)" by (simp add: same unexpired_idem)
  show "rotation_queue t0 p \<noteq> [] \<Longrightarrow> fst (take_primary t p) = Some (hd (rotation_queue t0 p))"
    using take_primary_available(1) [OF _ free] q by simp
  show "rotation_queue t0 (snd (take_primary t p)) = rotate1 (rotation_queue t0 p)"
  proof (cases "fst (available_locked t p) = []")
    case True
    then show ?thesis
      using set_take_primary [of t p] by (simp add: rotation_queue_def available_eq same unexpired_idem filter_empty_conv)
  next
    case False
    from take_primary_available(2) [OF this free] show ?thesis by (simp add: rotation_queue_def available_eq same unexpired_idem)
  qed
  have "set (fst (available_locked t0 (snd (take_primary t p)))) = set (fst (available_locked t0 p))"
    by (simp add: available_eq same unexpired_idem)
  moreover have "ap_suspended p n = Some u" if "unexpired t0 (ap_suspended p) n = Some u" for n u
    using that by (auto simp: unexpired_def split: option.splits if_splits)
  ultimately show "resting t0 t1 (snd (take_primary t p))" using p unfolding resting_def take_primary_keeps same by blast
qed

text \<open>
  The rotation is fair: as long as no suspension begins or ends and no frozen agent is available,
  the agents handed out by successive calls of \<open>take_primary\<close> are the available ones in the order of
  the pool, round after round, so none is passed over; and after as many calls as there are available
  agents the rotation is where it was.
\<close>

theorem rotation_is_fair:
  assumes "resting t0 t1 p" and "\<forall>t \<in> set ts. t0 \<le> t \<and> t \<le> t1" and "fst (available_locked t0 p) \<noteq> []"
  shows "let available = fst (available_locked t0 p); (chosen, q) = takes take_primary ts p in
    chosen = map (\<lambda>i. Some (available ! (i mod length available))) [0..<length ts] \<and>
    fst (available_locked t0 q) = rotate (length ts) available \<and>
    (length ts = length available \<longrightarrow> chosen = map Some available \<and> fst (available_locked t0 q) = available)"
proof -
  let ?av = "fst (available_locked t0 p)"
  note r = pool_rotation.takes_rotate [OF assms(1), of ts, unfolded rotation_queue_def, OF assms(2,3)]
  have "map (\<lambda>i. Some (?av ! (i mod length ?av))) [0..<length ?av] = map Some ?av"
    by (rule nth_equalityI) simp_all
  with r show ?thesis by (simp add: Let_def case_prod_beta rotate_id)
qed

theorem rotation_is_fair_witness:
  "fst (takes take_primary [1, 2] (new_pool [''claude'', ''codex''])) = [Some ''claude'', Some ''codex'']"
proof -
  have "resting 0 5 (new_pool [''claude'', ''codex''])" by (simp add: resting_def new_pool_def)
  moreover have "fst (available_locked 0 (new_pool [''claude'', ''codex''])) = [''claude'', ''codex'']"
    by (simp add: available_eq new_pool_def unexpired_def)
  ultimately show ?thesis
    using rotation_is_fair [of 0 5 "new_pool [''claude'', ''codex'']" "[1, 2]"] by (simp add: Let_def case_prod_beta)
qed

section \<open>Any sequence of calls\<close>

text \<open>One call of a method of the pool, of its list view or of the tracker; a raised call changes nothing.\<close>

datatype pool_call = Listen bool | Available | Suspensions | Primary | TakePrimary | Rotate
  | Suspend pystr rat pystr | Resume pystr | Freeze pystr | Orchestrate pystr | Unfreeze
  | Add pystr | Remove pystr | SetAgents "pystr list" | ViewSet int pystr | ViewDel int | ViewInsert int pystr
  | Success pystr | Failure pystr | RateLimited pystr "rat option"

definition on_pool :: "(AgentPool \<Rightarrow> AgentPool) \<Rightarrow> Tracked \<Rightarrow> Tracked" where
  "on_pool f t = t\<lparr>tr_pool := f (tr_pool t)\<rparr>"

definition unless_raised :: "pool_error + AgentPool \<Rightarrow> AgentPool \<Rightarrow> AgentPool" where
  "unless_raised r p = (case r of Inl _ \<Rightarrow> p | Inr q \<Rightarrow> q)"

fun call_pool :: "TrackEnv \<Rightarrow> rat \<Rightarrow> pool_call \<Rightarrow> Tracked \<Rightarrow> Tracked" where
  "call_pool env now (Listen b) = on_pool (set_routing_listener b)"
| "call_pool env now Available = on_pool (\<lambda>p. snd (available_locked now p))"
| "call_pool env now Suspensions = on_pool (\<lambda>p. snd (suspensions now p))"
| "call_pool env now Primary = on_pool (\<lambda>p. snd (primary now p))"
| "call_pool env now TakePrimary = on_pool (\<lambda>p. snd (take_primary now p))"
| "call_pool env now Rotate = on_pool rotate_pool"
| "call_pool env now (Suspend name seconds why) = on_pool (\<lambda>p. unless_raised (suspend now name seconds why p) p)"
| "call_pool env now (Resume name) = on_pool (\<lambda>p. snd (resume_agent name p))"
| "call_pool env now (Freeze name) = on_pool (\<lambda>p. unless_raised (freeze name p) p)"
| "call_pool env now (Orchestrate name) = on_pool (\<lambda>p. unless_raised (set_orchestrator name p) p)"
| "call_pool env now Unfreeze = on_pool unfreeze"
| "call_pool env now (Add name) = on_pool (add_agent name)"
| "call_pool env now (Remove name) = on_pool (remove_agent name)"
| "call_pool env now (SetAgents names) = on_pool (set_agents names)"
| "call_pool env now (ViewSet i name) = on_pool (\<lambda>p. unless_raised (view_set i name p) p)"
| "call_pool env now (ViewDel i) = on_pool (\<lambda>p. unless_raised (view_del i p) p)"
| "call_pool env now (ViewInsert i name) = on_pool (view_insert i name)"
| "call_pool env now (Success agent) = record_success env agent"
| "call_pool env now (Failure agent) = record_failure env now agent"
| "call_pool env now (RateLimited agent retry_after) = record_rate_limited env now agent retry_after"

definition pool_calls :: "TrackEnv \<Rightarrow> (rat \<times> pool_call) list \<Rightarrow> Tracked \<Rightarrow> Tracked" where
  "pool_calls env calls t = fold (\<lambda>(now, c). call_pool env now c) calls t"

definition new_tracked :: "pystr list \<Rightarrow> Tracked" where
  "new_tracked agents = \<lparr> tr_pool = new_pool agents, tr_failures = (\<lambda>_. 0), tr_strikes = (\<lambda>_. 0),
     tr_released = [], tr_metrics = [], tr_bugs = [] \<rparr>"

section \<open>Routing stays inside the pool\<close>

definition routing_ok :: "AgentPool \<Rightarrow> bool" where
  "routing_ok p \<longleftrightarrow> (\<forall>f. ap_frozen p = Some f \<longrightarrow> f \<in> set (ap_agents p)) \<and>
     (ap_orchestrator p = None \<or> ap_orchestrator p = ap_frozen p) \<and>
     (\<forall>n u. ap_suspended p n = Some u \<longrightarrow> n \<in> set (ap_agents p))"

named_theorems pool_ok "operations keep the routing inside the pool"

lemma unexpired_dom: "unexpired now m n = Some u \<Longrightarrow> m n = Some u"
  by (auto simp: unexpired_def split: option.splits if_splits)

lemma notify_routing_keeps [simp]:
  "ap_agents (notify_routing p) = ap_agents p" "ap_suspended (notify_routing p) = ap_suspended p"
  "ap_frozen (notify_routing p) = ap_frozen p" "ap_orchestrator (notify_routing p) = ap_orchestrator p"
  by (simp_all add: notify_routing_def)

lemma routing_ok_available [pool_ok]: "routing_ok p \<Longrightarrow> routing_ok (snd (available_locked now p))"
  using unexpired_dom [of now "ap_suspended p"] by (fastforce simp: routing_ok_def available_locked_def Let_def)

lemma routing_ok_take [pool_ok]: "routing_ok p \<Longrightarrow> routing_ok (snd (take_primary now p))"
  using unexpired_dom [of now "ap_suspended p"] by (fastforce simp: routing_ok_def)

lemma routing_ok_pick [pool_ok]: "routing_ok p \<Longrightarrow> routing_ok (snd (primary now p))"
  using routing_ok_available [of p now] by (simp add: primary_def pick_locked_def case_prod_beta)

lemma routing_ok_suspend [pool_ok]: "routing_ok p \<Longrightarrow> suspend now name seconds why p = Inr q \<Longrightarrow> routing_ok q"
  by (auto simp: routing_ok_def suspend_def Let_def split: if_splits option.splits)

lemma routing_ok_set [pool_ok]: "routing_ok p \<Longrightarrow> routing_ok (set_agents names p)"
  by (auto simp: routing_ok_def set_agents_def unroute_def Let_def split: option.splits if_splits)

lemma routing_ok_remove [pool_ok]: "routing_ok p \<Longrightarrow> routing_ok (remove_agent name p)"
  by (auto simp: routing_ok_def remove_agent_def unroute_def Let_def in_set_remove1 split: if_splits)

lemma routing_ok_simple [pool_ok]:
  "routing_ok p \<Longrightarrow> routing_ok (set_routing_listener b p)" "routing_ok p \<Longrightarrow> routing_ok (snd (suspensions now p))"
  "routing_ok p \<Longrightarrow> routing_ok (rotate_pool p)" "routing_ok p \<Longrightarrow> routing_ok (snd (resume_agent name p))"
  "routing_ok p \<Longrightarrow> freeze name p = Inr q \<Longrightarrow> routing_ok q" "routing_ok p \<Longrightarrow> set_orchestrator name p = Inr q \<Longrightarrow> routing_ok q"
  "routing_ok p \<Longrightarrow> routing_ok (unfreeze p)" "routing_ok p \<Longrightarrow> routing_ok (add_agent name p)"
proof -
  have "set (drop 1 xs @ take 1 xs) = set xs" for xs :: "pystr list" by (cases xs) auto
  then show "routing_ok p \<Longrightarrow> routing_ok (rotate_pool p)" by (simp add: routing_ok_def rotate_pool_def del: set_append)
  show "routing_ok p \<Longrightarrow> routing_ok (snd (suspensions now p))" using routing_ok_available by (simp add: suspensions_def Let_def)
qed (auto simp: routing_ok_def set_routing_listener_def resume_agent_def freeze_def set_orchestrator_def unfreeze_def
    add_agent_def split: if_splits)

lemma tracker_pools:
  "tr_pool (record_success env agent t) = tr_pool t \<or>
     tr_pool (record_success env agent t) = snd (resume_agent (te_normalize env agent) (tr_pool t))"
  "tr_pool (record_failure env now agent t) = tr_pool t \<or>
     (\<exists>seconds why. suspend now (te_normalize env agent) seconds why (tr_pool t) = Inr (tr_pool (record_failure env now agent t)))"
  "tr_pool (record_rate_limited env now agent retry_after t) = tr_pool t \<or>
     (\<exists>seconds why. suspend now (te_normalize env agent) seconds why (tr_pool t) =
        Inr (tr_pool (record_rate_limited env now agent retry_after t)))"
  by (auto simp: record_success_def record_failure_def record_rate_limited_def Let_def count_metric_def release_def
      suspend_member_def split: sum.splits)

lemma routing_ok_call: "routing_ok (tr_pool t) \<Longrightarrow> routing_ok (tr_pool (call_pool env now c t))"
proof (cases c)
  case (Success agent)
  then show "routing_ok (tr_pool t) \<Longrightarrow> ?thesis" using tracker_pools(1) [of env agent t] by (auto intro: pool_ok)
next
  case (Failure agent)
  then show "routing_ok (tr_pool t) \<Longrightarrow> ?thesis" using tracker_pools(2) [of env now agent t] by (auto intro: pool_ok)
next
  case (RateLimited agent retry_after)
  then show "routing_ok (tr_pool t) \<Longrightarrow> ?thesis"
    using tracker_pools(3) [of env now agent retry_after t] by (auto intro: pool_ok)
qed (auto simp: on_pool_def unless_raised_def view_set_def view_del_def view_insert_def Let_def intro: pool_ok
    split: sum.splits option.splits)

lemma routing_ok_calls: "routing_ok (tr_pool t) \<Longrightarrow> routing_ok (tr_pool (pool_calls env calls t))"
  unfolding pool_calls_def by (induction calls arbitrary: t) (auto intro: routing_ok_call)

lemma routing_ok_new: "routing_ok (tr_pool (new_tracked agents))"
  by (simp add: routing_ok_def new_tracked_def new_pool_def)

text \<open>
  Whatever calls were made before, on the pool, its view or the tracker, the pool hands out one
  of its members whenever it has any: the frozen one if it is available, else an available one, and
  a suspended one only if all are suspended, then one that comes back first. The frozen agent and
  the orchestrator are always members, and only members are suspended.
\<close>

theorem primary_is_usable:
  "let p = tr_pool (pool_calls env calls (new_tracked agents)); available = fst (available_locked now p) in
    routing_ok p \<and>
    (case fst (take_primary now p) of
       None \<Rightarrow> ap_agents p = []
     | Some a \<Rightarrow> a \<in> set (ap_agents p) \<and>
         (if available = [] then list_all (\<lambda>b. back_at (ap_suspended p) a \<le> back_at (ap_suspended p) b) (ap_agents p)
          else a = (case ap_frozen p of Some f \<Rightarrow> if f \<in> set available then f else hd available | None \<Rightarrow> hd available)))"
proof -
  define p where "p = tr_pool (pool_calls env calls (new_tracked agents))"
  have ok: "routing_ok p" unfolding p_def by (rule routing_ok_calls [OF routing_ok_new])
  let ?susp = "unexpired now (ap_suspended p)"
  have "back_at ?susp b = back_at (ap_suspended p) b" if "?susp b \<noteq> None" for b
    using that by (auto simp: unexpired_def back_at_def split: option.splits if_splits)
  moreover have "\<forall>b \<in> set (ap_agents p). ?susp b \<noteq> None" if "fst (available_locked now p) = []"
    using that by (auto simp: available_eq filter_empty_conv)
  ultimately have probe: "list_all (\<lambda>b. back_at (ap_suspended p) (arg_min_list (back_at ?susp) (ap_agents p)) \<le>
      back_at (ap_suspended p) b) (ap_agents p)" if "fst (available_locked now p) = []" "ap_agents p \<noteq> []"
    using that f_arg_min_list_f [OF that(2), of "back_at ?susp"] arg_min_list_in [OF that(2), of "back_at ?susp"]
    by (simp add: list_all_iff)
  have member: "hd (fst (available_locked now p)) \<in> set (ap_agents p)" if "fst (available_locked now p) \<noteq> []"
    using hd_in_set [OF that] by (simp add: available_eq)
  have q: "available_locked now p = (fst (available_locked now p), p\<lparr>ap_suspended := ?susp\<rparr>)"
    by (simp add: available_locked_def Let_def)
  have "fst (take_primary now p) = fst (fst (pick_locked now p))" by (simp add: take_primary_def case_prod_beta)
  then show ?thesis
    unfolding p_def [symmetric] Let_def using ok probe member arg_min_list_in [of "ap_agents p" "back_at ?susp"]
    by (cases "ap_frozen p"; cases "fst (available_locked now p) = []"; subst (asm) pick_locked_def; subst (asm) q)
      (auto simp: routing_ok_def)
qed

section \<open>Suspensions hold\<close>

definition out_until :: "pystr \<Rightarrow> rat \<Rightarrow> AgentPool \<Rightarrow> bool" where
  "out_until name til p \<longleftrightarrow> (\<exists>u why. ap_suspended p name = Some (u, why) \<and> til \<le> u)"

text \<open>The calls that end a suspension early.\<close>

fun ends_suspension :: "TrackEnv \<Rightarrow> pystr \<Rightarrow> pool_call \<Rightarrow> bool" where
  "ends_suspension env name (Resume n) = (n = name)"
| "ends_suspension env name (Remove n) = (n = name)"
| "ends_suspension env name (SetAgents names) = (name \<notin> set names)"
| "ends_suspension env name (ViewSet i n) = True"
| "ends_suspension env name (ViewDel i) = True"
| "ends_suspension env name (Success agent) = (te_normalize env agent = name)"
| "ends_suspension env name _ = False"

lemma suspend_out: "out_until name til p \<Longrightarrow> suspend now n seconds why p = Inr q \<Longrightarrow> out_until name til q"
  by (auto simp: out_until_def suspend_def Let_def split: if_splits option.splits)

lemma out_unexpired: "out_until name til p \<Longrightarrow> now < til \<Longrightarrow> out_until name til (p\<lparr>ap_suspended := unexpired now (ap_suspended p)\<rparr>)"
  by (auto simp: out_until_def unexpired_def)

lemma out_call:
  assumes "out_until name til (tr_pool t)" and "routing_ok (tr_pool t)" and "now < til" and "\<not> ends_suspension env name c"
  shows "out_until name til (tr_pool (call_pool env now c t))"
proof (cases c)
  case (Success agent)
  then show ?thesis using tracker_pools(1) [of env agent t] assms by (auto simp: out_until_def resume_agent_def)
next
  case (Failure agent)
  then show ?thesis using tracker_pools(2) [of env now agent t] assms by (auto intro: suspend_out)
next
  case (RateLimited agent retry_after)
  then show ?thesis using tracker_pools(3) [of env now agent retry_after t] assms by (auto intro: suspend_out)
next
  case (Suspend n seconds why)
  then show ?thesis using assms by (auto simp: on_pool_def unless_raised_def intro: suspend_out split: sum.splits)
next
  case (ViewInsert i n)
  have "set (take k xs @ n # drop k xs) = insert n (set xs)" for k and xs :: "pystr list"
    by (metis append_take_drop_id Un_insert_right list.simps(15) set_append)
  moreover have "name \<in> set (ap_agents (tr_pool t))" using assms(1,2) by (auto simp: out_until_def routing_ok_def)
  ultimately show ?thesis
    using assms(1) ViewInsert by (auto simp: on_pool_def view_insert_def set_agents_def unroute_def out_until_def Let_def
        split: option.splits simp del: set_append)
qed (use assms out_unexpired [OF assms(1,3)] in \<open>auto simp: on_pool_def unless_raised_def out_until_def
      set_routing_listener_def available_locked_def suspensions_def primary_def pick_locked_def rotate_pool_def resume_agent_def
      freeze_def set_orchestrator_def unfreeze_def add_agent_def remove_agent_def set_agents_def unroute_def Let_def
      split: if_splits option.splits prod.splits\<close>)

lemma out_calls:
  "out_until name til (tr_pool t) \<Longrightarrow> routing_ok (tr_pool t) \<Longrightarrow> \<forall>(now, c) \<in> set calls. now < til \<and> \<not> ends_suspension env name c \<Longrightarrow>
     out_until name til (tr_pool (pool_calls env calls t))"
  unfolding pool_calls_def by (induction calls arbitrary: t) (auto intro: out_call routing_ok_call)

lemma out_unavailable: "out_until name til p \<Longrightarrow> now < til \<Longrightarrow> name \<notin> set (fst (available_locked now p))"
  by (auto simp: out_until_def available_eq unexpired_def)

lemma suspended_until:
  assumes "name \<in> set (ap_agents (tr_pool t))" and "0 \<le> seconds"
  shows "out_until name (now + seconds) (tr_pool (suspend_member now name seconds why t))"
  using assms by (auto simp: suspend_member_def suspend_def out_until_def Let_def split: option.splits)

lemma cooldown_bounds: "cooldown_base_seconds \<le> cooldown_seconds strike \<and> cooldown_seconds strike \<le> cooldown_max_seconds"
  by (simp add: cooldown_seconds_def cooldown_base_seconds_def cooldown_max_seconds_def)

lemma failure_suspends:
  assumes "te_normalize env agent = name" and "name \<noteq> []" and "name \<in> set (ap_agents (tr_pool t))"
    and "failure_threshold \<le> tr_failures t name + 1"
  shows "out_until name (now + of_int (cooldown_seconds (tr_strikes t name + 1))) (tr_pool (record_failure env now agent t))"
    and "tr_released (record_failure env now agent t) = tr_released t @ [name]"
proof -
  have pos: "0 \<le> cooldown_seconds strike" for strike using cooldown_bounds [of strike] by (simp add: cooldown_base_seconds_def)
  have kept: "tr_released (suspend_member now n seconds why u) = tr_released u" for n seconds why u
    by (simp add: suspend_member_def split: sum.splits)
  show "out_until name (now + of_int (cooldown_seconds (tr_strikes t name + 1))) (tr_pool (record_failure env now agent t))"
    using assms by (auto simp: record_failure_def Let_def count_metric_def release_def intro!: suspended_until pos)
  show "tr_released (record_failure env now agent t) = tr_released t @ [name]"
    using assms by (auto simp: record_failure_def Let_def count_metric_def release_def kept)
qed

text \<open>
  An agent that fails a second time in a row, after whatever history, loses its tasks and is out
  for the whole cooldown, between five minutes and an hour: whatever calls follow, further failures
  and rate limits included, nothing that does not end the suspension (a success, \<open>resume\<close>, its
  removal) makes it available before. In particular a short rate limit never shortens it.
\<close>

theorem failing_agent_rests:
  assumes "te_normalize env agent = name" and "name \<noteq> []"
    and "t = pool_calls env earlier (new_tracked agents)" and "name \<in> set (ap_agents (tr_pool t))" and "1 \<le> tr_failures t name"
    and "\<forall>(moment, c) \<in> set later. moment \<le> now \<and> \<not> ends_suspension env name c"
  shows "let cooldown = cooldown_seconds (tr_strikes t name + 1); failed = record_failure env since agent t in
    300 \<le> cooldown \<and> cooldown \<le> 3600 \<and> tr_released failed = tr_released t @ [name] \<and>
    (now < since + of_int cooldown \<longrightarrow> name \<notin> set (fst (available_locked now (tr_pool (pool_calls env later failed)))))"
proof -
  have ok: "routing_ok (tr_pool t)" unfolding assms(3) by (rule routing_ok_calls [OF routing_ok_new])
  have threshold: "failure_threshold \<le> tr_failures t name + 1" using assms(5) by (simp add: failure_threshold_def)
  note out = failure_suspends [OF assms(1,2,4) threshold]
  let ?til = "since + of_int (cooldown_seconds (tr_strikes t name + 1))"
  have "name \<notin> set (fst (available_locked now (tr_pool (pool_calls env later (record_failure env since agent t)))))" if "now < ?til"
  proof (rule out_unavailable [OF out_calls that])
    show "out_until name ?til (tr_pool (record_failure env since agent t))" by (rule out(1))
    show "routing_ok (tr_pool (record_failure env since agent t))" using routing_ok_call [OF ok, of env since "Failure agent"] by simp
    show "\<forall>(moment, c) \<in> set later. moment < ?til \<and> \<not> ends_suspension env name c" using assms(6) that by fastforce
  qed
  then show ?thesis
    using cooldown_bounds [of "tr_strikes t name + 1"] out(2) by (simp add: Let_def cooldown_base_seconds_def cooldown_max_seconds_def)
qed

definition sample_track_env :: TrackEnv where
  "sample_track_env = \<lparr> te_normalize = py_lower, te_metrics = True, te_bugs = True \<rparr>"

theorem failing_agent_rests_witness:
  "''codex'' \<notin> set (fst (available_locked 400 (tr_pool (pool_calls sample_track_env [(200, RateLimited ''codex'' (Some 0))]
     (record_failure sample_track_env 150 ''codex'' (pool_calls sample_track_env [(100, Failure ''codex'')]
       (new_tracked [''claude'', ''codex''])))))))"
proof -
  let ?t = "pool_calls sample_track_env [(100, Failure ''codex'')] (new_tracked [''claude'', ''codex''])"
  have n: "te_normalize sample_track_env ''codex'' = ''codex''"
    by (simp add: sample_track_env_def py_lower_def py_lower_char_def Let_def)
  have "tr_failures ?t ''codex'' = 1" "tr_strikes ?t ''codex'' = 0" "ap_agents (tr_pool ?t) = [''claude'', ''codex'']"
    by (simp_all add: pool_calls_def record_failure_def n Let_def new_tracked_def new_pool_def count_metric_def failure_threshold_def)
  then show ?thesis
    using failing_agent_rests [OF n _ refl, of "[(100, Failure ''codex'')]" "[''claude'', ''codex'']" "[(200, RateLimited ''codex'' (Some 0))]" 400 150]
    by (simp add: Let_def cooldown_seconds_def cooldown_base_seconds_def cooldown_max_seconds_def)
qed

end
