(* ===== verification/Workflow_Plan.thy ===== *)
theory Workflow_Plan
  imports Work_Items
begin

text \<open>
  Plans of distributed workflows: the typed records of \<open>quimera/workflows/models.py\<close> and the
  deterministic parsing, validation, routing of owners and serialization of
  \<open>quimera/workflows/plan.py\<close>. Parsing is shown to yield only plans that keep the contract
  \<open>plan_ok\<close>; serialization is shown to be a round trip, hence injective.
\<close>

section \<open>Records\<close>

record WorkflowLimits =
  max_tasks :: int
  max_replans :: int
  max_consults :: int
  max_open_workflows :: int
  max_task_attempts :: int
  lease_seconds :: int

definition default_limits :: WorkflowLimits where
  "default_limits = \<lparr> max_tasks = 20, max_replans = 3, max_consults = 6, max_open_workflows = 3,
     max_task_attempts = 3, lease_seconds = 1800 \<rparr>"

definition positive_int :: "(pystr \<times> json) list \<Rightarrow> pystr \<Rightarrow> int \<Rightarrow> int" where
  "positive_int values key fallback = (case map_of values key of
     Some (JInt v) \<Rightarrow> if v > 0 then v else fallback
   | _ \<Rightarrow> fallback)"

text \<open>\<open>WorkflowLimits.from_mapping\<close>: unknown keys and values that are not positive \<open>int\<close>s are ignored.\<close>

definition limits_from_mapping :: "(pystr \<times> json) list option \<Rightarrow> WorkflowLimits" where
  "limits_from_mapping values = (let get = positive_int (case values of None \<Rightarrow> [] | Some kvs \<Rightarrow> kvs);
     d = default_limits in
     \<lparr> max_tasks = get ''max_tasks'' (max_tasks d), max_replans = get ''max_replans'' (max_replans d),
       max_consults = get ''max_consults'' (max_consults d),
       max_open_workflows = get ''max_open_workflows'' (max_open_workflows d),
       max_task_attempts = get ''max_task_attempts'' (max_task_attempts d),
       lease_seconds = get ''lease_seconds'' (lease_seconds d) \<rparr>)"

record WorkflowTaskSpec =
  ws_item :: WorkItem
  ws_evidence :: "pystr list"
  ws_writes :: bool

abbreviation spec_id :: "WorkflowTaskSpec \<Rightarrow> pystr" where
  "spec_id sp \<equiv> wi_id (ws_item sp)"

record WorkflowPlan =
  pl_objective :: pystr
  pl_coordinator :: pystr
  pl_tasks :: "WorkflowTaskSpec list"
  pl_global_criteria :: "pystr list"
  pl_constraints :: "pystr list"
  pl_version :: int

abbreviation plan_items :: "WorkflowPlan \<Rightarrow> WorkItem list" where
  "plan_items p \<equiv> map ws_item (pl_tasks p)"

section \<open>Parsing\<close>

datatype plan_error =
    PlanNotObject
  | MissingObjective
  | ItemsMissing
  | PlanTooLarge int
  | NoCriteria pystr
  | ItemError work_item_error

definition plan_err :: "work_item_error + 'a \<Rightarrow> plan_error + 'a" where
  "plan_err r = (case r of Inl e \<Rightarrow> Inl (ItemError e) | Inr x \<Rightarrow> Inr x)"

lemma plan_err_Inr [simp]: "plan_err r = Inr x \<longleftrightarrow> r = Inr x"
  by (cases r) (auto simp: plan_err_def)

definition writing_task_types :: "pystr list" where
  "writing_task_types = [''code_edit'', ''documentation'']"

definition writes_field :: "json \<Rightarrow> WorkItem \<Rightarrow> work_item_error + bool" where
  "writes_field writes item = (case writes of
       JNull \<Rightarrow> Inr (wi_task_type item \<in> set writing_task_types)
     | JBool b \<Rightarrow> Inr b
     | _ \<Rightarrow> Inl (WritesNotBool (wi_id item)))"

definition parse_spec :: "json \<Rightarrow> pystr \<Rightarrow> work_item_error + WorkflowTaskSpec" where
  "parse_spec raw default_id = (case raw of
     JObj kvs \<Rightarrow>
       bind_res (parse_work_item raw default_id) (\<lambda>item.
       bind_res (writes_field (obj_get kvs ''writes'') item) (\<lambda>writes.
       bind_res (text_list (obj_get kvs ''evidence_expected'') ''evidence_expected'') (\<lambda>evidence.
       Inr \<lparr> ws_item = item, ws_evidence = evidence, ws_writes = writes \<rparr>)))
   | _ \<Rightarrow> Inl ItemNotObject)"

definition criteria_check :: "WorkflowTaskSpec \<Rightarrow> plan_error + unit" where
  "criteria_check sp =
     (if wi_acceptance_criteria (ws_item sp) = [] then Inl (NoCriteria (spec_id sp)) else Inr ())"

definition validate_plan :: "WorkflowPlan \<Rightarrow> plan_error + unit" where
  "validate_plan plan =
     bind_res (plan_err (validate_work_items (plan_items plan))) (\<lambda>_.
     bind_res (map_res criteria_check (pl_tasks plan)) (\<lambda>_. Inr ()))"

definition raw_tasks :: "json \<Rightarrow> WorkflowLimits \<Rightarrow> plan_error + json list" where
  "raw_tasks value limits = (case value of
       JList raws \<Rightarrow>
         if raws = [] then Inl ItemsMissing
         else if int (length raws) > max_tasks limits then Inl (PlanTooLarge (max_tasks limits))
         else Inr raws
     | _ \<Rightarrow> Inl ItemsMissing)"

definition parse_plan :: "json \<Rightarrow> pystr \<Rightarrow> WorkflowLimits \<Rightarrow> int \<Rightarrow> plan_error + WorkflowPlan" where
  "parse_plan payload coordinator limits version = (case payload of
     JObj kvs \<Rightarrow>
       bind_res (plan_err (text_field (obj_get kvs ''objective'') ''objective'' 4000)) (\<lambda>objective.
       if objective = [] then Inl MissingObjective else
       bind_res (raw_tasks (obj_get kvs ''work_items'') limits) (\<lambda>raws.
       bind_res (plan_err (map_res (\<lambda>(index, raw). parse_spec raw (CHR ''T'' # show_nat index))
         (zip [1..<Suc (length raws)] raws))) (\<lambda>specs.
       bind_res (plan_err (text_list (obj_get kvs ''global_criteria'') ''global_criteria'')) (\<lambda>criteria.
       bind_res (plan_err (text_list (obj_get kvs ''constraints'') ''constraints'')) (\<lambda>constraints.
       let plan = \<lparr> pl_objective = objective, pl_coordinator = coordinator, pl_tasks = specs,
             pl_global_criteria = criteria, pl_constraints = constraints, pl_version = version \<rparr>
       in bind_res (validate_plan plan) (\<lambda>_. Inr plan))))))
   | _ \<Rightarrow> Inl PlanNotObject)"

section \<open>The contract of a plan\<close>

definition spec_ok :: "WorkflowTaskSpec \<Rightarrow> bool" where
  "spec_ok sp \<longleftrightarrow> item_ok (ws_item sp) \<and> texts_ok (ws_evidence sp)"

text \<open>What execution needs of a plan: an acyclic graph over distinct ids, criteria everywhere.\<close>

definition graph_ok :: "WorkflowPlan \<Rightarrow> bool" where
  "graph_ok p \<longleftrightarrow> distinct (map spec_id (pl_tasks p)) \<and>
     snd ` dep_rel (plan_items p) \<subseteq> set (map spec_id (pl_tasks p)) \<and> acyclic (dep_rel (plan_items p))"

definition plan_ok :: "WorkflowLimits \<Rightarrow> WorkflowPlan \<Rightarrow> bool" where
  "plan_ok limits p \<longleftrightarrow> text_ok 4000 (pl_objective p) \<and> pl_objective p \<noteq> [] \<and>
     pl_tasks p \<noteq> [] \<and> int (length (pl_tasks p)) \<le> max_tasks limits \<and> list_all spec_ok (pl_tasks p) \<and>
     texts_ok (pl_global_criteria p) \<and> texts_ok (pl_constraints p) \<and> graph_ok p \<and>
     list_all (\<lambda>sp. wi_acceptance_criteria (ws_item sp) \<noteq> []) (pl_tasks p)"

lemma validate_plan_iff: "validate_plan p = Inr () \<longleftrightarrow> graph_ok p \<and>
    list_all (\<lambda>sp. wi_acceptance_criteria (ws_item sp) \<noteq> []) (pl_tasks p)"
proof -
  have "validate_plan p = Inr () \<longleftrightarrow> validate_work_items (plan_items p) = Inr () \<and>
      (\<exists>us. map_res criteria_check (pl_tasks p) = Inr us)"
    by (auto simp: validate_plan_def bind_res_Inr)
  then show ?thesis unfolding validate_work_items_iff map_res_unit
    by (auto simp: graph_ok_def criteria_check_def list_all_iff comp_def)
qed

lemma parse_spec_ok: "parse_spec raw d = Inr sp \<Longrightarrow> spec_ok sp"
  by (auto simp: parse_spec_def bind_res_Inr spec_ok_def dest!: parse_work_item_ok text_list_ok
      split: json.splits)

lemma raw_tasks_ok: "raw_tasks v limits = Inr raws \<Longrightarrow> raws \<noteq> [] \<and> int (length raws) \<le> max_tasks limits"
  by (auto simp: raw_tasks_def split: json.splits if_splits)

lemma parse_plan_ok:
  assumes "parse_plan payload coordinator limits version = Inr p"
  shows "plan_ok limits p \<and> pl_coordinator p = coordinator \<and> pl_version p = version"
proof -
  from assms obtain kvs where kvs: "payload = JObj kvs"
    by (cases payload) (simp_all add: parse_plan_def)
  from assms obtain raws where raws: "raw_tasks (obj_get kvs ''work_items'') limits = Inr raws"
    and specs: "map_res (\<lambda>(index, raw). parse_spec raw (CHR ''T'' # show_nat index))
        (zip [1..<Suc (length raws)] raws) = Inr (pl_tasks p)"
    and obj: "text_field (obj_get kvs ''objective'') ''objective'' 4000 = Inr (pl_objective p)"
      "pl_objective p \<noteq> []"
    and lists: "text_list (obj_get kvs ''global_criteria'') ''global_criteria'' = Inr (pl_global_criteria p)"
      "text_list (obj_get kvs ''constraints'') ''constraints'' = Inr (pl_constraints p)"
    and p: "pl_coordinator p = coordinator" "pl_version p = version"
    and valid: "validate_plan p = Inr ()"
    unfolding kvs by (auto simp: parse_plan_def bind_res_Inr Let_def split: if_splits)
  have "length (pl_tasks p) = length raws" using map_res_length [OF specs] by (simp del: upt_Suc)
  then have len: "pl_tasks p \<noteq> []" "int (length (pl_tasks p)) \<le> max_tasks limits"
    using raw_tasks_ok [OF raws] by auto
  have "list_all spec_ok (pl_tasks p)"
    unfolding list_all_iff using map_res_all [OF specs] parse_spec_ok by fastforce
  then show ?thesis
    using len p obj(2) valid text_field_ok [OF obj(1)] text_list_ok [OF lists(1)] text_list_ok [OF lists(2)]
    by (simp add: plan_ok_def validate_plan_iff)
qed

section \<open>Owners\<close>

definition agent_key :: "pystr \<Rightarrow> pystr" where
  "agent_key name = py_lower (dropWhile (\<lambda>c. c = CHR ''/'') (py_strip name))"

text \<open>The dict \<open>active\<close>: a later agent with the same key replaces an earlier one.\<close>

definition active_map :: "pystr list \<Rightarrow> pystr \<Rightarrow> pystr option" where
  "active_map active_agents = map_of (rev (map (\<lambda>n. (agent_key n, n)) active_agents))"

definition resolve_spec :: "pystr list \<Rightarrow> WorkflowTaskSpec \<Rightarrow> WorkflowTaskSpec" where
  "resolve_spec active_agents sp = sp\<lparr>ws_item := (ws_item sp)\<lparr>wi_assigned_to :=
     active_map active_agents (agent_key (or_empty (wi_assigned_to (ws_item sp))))\<rparr>\<rparr>"

definition resolve_assignees :: "WorkflowPlan \<Rightarrow> pystr list \<Rightarrow> WorkflowPlan" where
  "resolve_assignees plan active_agents =
     plan\<lparr>pl_tasks := map (resolve_spec active_agents) (pl_tasks plan)\<rparr>"

lemma active_map_range: "active_map names k = Some n \<Longrightarrow> n \<in> set names \<and> agent_key n = k"
  by (auto simp: active_map_def dest!: map_of_SomeD)

lemma resolve_spec_fields [simp]:
  "spec_id (resolve_spec names sp) = spec_id sp"
  "wi_dependencies (ws_item (resolve_spec names sp)) = wi_dependencies (ws_item sp)"
  "ws_writes (resolve_spec names sp) = ws_writes sp"
  by (simp_all add: resolve_spec_def)

lemma resolve_plan_fields [simp]:
  "pl_tasks (resolve_assignees p names) = map (resolve_spec names) (pl_tasks p)"
  by (simp add: resolve_assignees_def)

lemma dep_rel_specs: "dep_rel (map ws_item sps) =
    (\<Union>sp \<in> set sps. {spec_id sp} \<times> set (wi_dependencies (ws_item sp)))"
  unfolding dep_rel_def by fastforce

lemma graph_ok_dep:
  assumes "graph_ok p" and "sp \<in> set (pl_tasks p)" and "d \<in> set (wi_dependencies (ws_item sp))"
  shows "d \<in> spec_id ` set (pl_tasks p)"
proof -
  have "d \<in> snd ` dep_rel (plan_items p)" unfolding dep_rel_specs using assms(2,3) by force
  then show ?thesis using assms(1) unfolding graph_ok_def by auto
qed

lemma dep_rel_resolve [simp]: "dep_rel (plan_items (resolve_assignees p names)) = dep_rel (plan_items p)"
  unfolding dep_rel_specs by simp

lemma ids_resolve: "map spec_id (pl_tasks (resolve_assignees p names)) = map spec_id (pl_tasks p)"
  by simp

lemma graph_ok_resolve [simp]: "graph_ok (resolve_assignees p names) = graph_ok p"
  unfolding graph_ok_def dep_rel_resolve ids_resolve ..

section \<open>Serialization\<close>

definition opt_str :: "pystr option \<Rightarrow> json" where
  "opt_str v = (case v of None \<Rightarrow> JNull | Some s \<Rightarrow> JStr s)"

definition str_list :: "pystr list \<Rightarrow> json" where
  "str_list xs = JList (map JStr xs)"

definition item_to_dict :: "WorkItem \<Rightarrow> (pystr \<times> json) list" where
  "item_to_dict i = [(''id'', JStr (wi_id i)), (''title'', JStr (wi_title i)),
     (''description'', JStr (wi_description i)), (''task_type'', JStr (wi_task_type i)),
     (''assigned_to'', opt_str (wi_assigned_to i)), (''dependencies'', str_list (wi_dependencies i)),
     (''acceptance_criteria'', str_list (wi_acceptance_criteria i)), (''priority'', JStr (wi_priority i))]"

definition spec_to_dict :: "WorkflowTaskSpec \<Rightarrow> (pystr \<times> json) list" where
  "spec_to_dict sp = item_to_dict (ws_item sp) @
     [(''evidence_expected'', str_list (ws_evidence sp)), (''writes'', JBool (ws_writes sp))]"

definition plan_to_dict :: "WorkflowPlan \<Rightarrow> (pystr \<times> json) list" where
  "plan_to_dict p = [(''objective'', JStr (pl_objective p)), (''coordinator'', JStr (pl_coordinator p)),
     (''global_criteria'', str_list (pl_global_criteria p)), (''constraints'', str_list (pl_constraints p)),
     (''tasks'', JList (map (\<lambda>sp. JObj (spec_to_dict sp)) (pl_tasks p)))]"

text \<open>
  Reading back. \<open>data[key]\<close> of an absent key is the \<open>KeyError\<close>, here \<open>None\<close>; a value whose type
  does not fit the field is \<open>None\<close> too: Python would carry it along in the dataclass.
\<close>

definition get_str :: "(pystr \<times> json) list \<Rightarrow> pystr \<Rightarrow> pystr option" where
  "get_str kvs k = (case map_of kvs k of Some (JStr s) \<Rightarrow> Some s | _ \<Rightarrow> None)"

fun strs_of :: "json list \<Rightarrow> pystr list option" where
  "strs_of [] = Some []"
| "strs_of (JStr s # xs) = map_option ((#) s) (strs_of xs)"
| "strs_of (_ # xs) = None"

definition get_strs :: "(pystr \<times> json) list \<Rightarrow> pystr \<Rightarrow> pystr list option" where
  "get_strs kvs k = (case map_of kvs k of None \<Rightarrow> Some [] | Some (JList xs) \<Rightarrow> strs_of xs | _ \<Rightarrow> None)"

definition get_opt_str :: "(pystr \<times> json) list \<Rightarrow> pystr \<Rightarrow> pystr option option" where
  "get_opt_str kvs k = (case obj_get kvs k of JNull \<Rightarrow> Some None | JStr s \<Rightarrow> Some (Some s) | _ \<Rightarrow> None)"

definition spec_from_dict :: "json \<Rightarrow> WorkflowTaskSpec option" where
  "spec_from_dict data = (case data of
     JObj kvs \<Rightarrow>
       Option.bind (get_str kvs ''id'') (\<lambda>i.
       Option.bind (get_str kvs ''title'') (\<lambda>title.
       Option.bind (get_str kvs ''description'') (\<lambda>description.
       Option.bind (get_str kvs ''task_type'') (\<lambda>task_type.
       Option.bind (get_opt_str kvs ''assigned_to'') (\<lambda>assigned_to.
       Option.bind (get_strs kvs ''dependencies'') (\<lambda>dependencies.
       Option.bind (get_strs kvs ''acceptance_criteria'') (\<lambda>criteria.
       Option.bind (if map_of kvs ''priority'' = None then Some ''medium'' else get_str kvs ''priority'') (\<lambda>priority.
       Option.bind (get_strs kvs ''evidence_expected'') (\<lambda>evidence.
       Some \<lparr> ws_item = \<lparr> wi_id = i, wi_title = title, wi_description = description,
               wi_task_type = task_type, wi_assigned_to = assigned_to, wi_dependencies = dependencies,
               wi_acceptance_criteria = criteria, wi_priority = priority \<rparr>,
             ws_evidence = evidence, ws_writes = truthy (obj_get kvs ''writes'') \<rparr>)))))))))
   | _ \<Rightarrow> None)"

fun map_opt :: "('a \<Rightarrow> 'b option) \<Rightarrow> 'a list \<Rightarrow> 'b list option" where
  "map_opt f [] = Some []"
| "map_opt f (x # xs) = Option.bind (f x) (\<lambda>y. map_option ((#) y) (map_opt f xs))"

definition plan_from_dict :: "json \<Rightarrow> int \<Rightarrow> WorkflowPlan option" where
  "plan_from_dict data version = (case data of
     JObj kvs \<Rightarrow>
       Option.bind (get_str kvs ''objective'') (\<lambda>objective.
       Option.bind (get_str kvs ''coordinator'') (\<lambda>coordinator.
       Option.bind (case map_of kvs ''tasks'' of Some (JList raws) \<Rightarrow> map_opt spec_from_dict raws | _ \<Rightarrow> None) (\<lambda>specs.
       Option.bind (get_strs kvs ''global_criteria'') (\<lambda>criteria.
       Option.bind (get_strs kvs ''constraints'') (\<lambda>constraints.
       Some \<lparr> pl_objective = objective, pl_coordinator = coordinator, pl_tasks = specs,
             pl_global_criteria = criteria, pl_constraints = constraints, pl_version = version \<rparr>)))))
   | _ \<Rightarrow> None)"

text \<open>
  \<open>plan_hash\<close>: the SHA-256 digest of the canonical JSON text. The digest of a JSON value is a
  parameter of the model.
\<close>

definition plan_hash :: "(json \<Rightarrow> pystr) \<Rightarrow> WorkflowPlan \<Rightarrow> pystr" where
  "plan_hash digest plan = digest (JObj (plan_to_dict plan))"

lemma strs_of_map [simp]: "strs_of (map JStr xs) = Some xs"
  by (induction xs) auto

lemma map_opt_map: "(\<And>x. f (g x) = Some (h x)) \<Longrightarrow> map_opt f (map g xs) = Some (map h xs)"
  by (induction xs) auto

lemma spec_dict_roundtrip [simp]: "spec_from_dict (JObj (spec_to_dict sp)) = Some sp"
  by (simp add: spec_from_dict_def spec_to_dict_def item_to_dict_def get_str_def get_strs_def
      get_opt_str_def opt_str_def str_list_def obj_get_def split: option.splits)

lemma plan_dict_roundtrip: "plan_from_dict (JObj (plan_to_dict p)) v = Some (p\<lparr>pl_version := v\<rparr>)"
  by (simp add: plan_from_dict_def plan_to_dict_def get_str_def get_strs_def str_list_def
      map_opt_map [where h = id, simplified])

lemma spec_to_dict_inject [simp]: "spec_to_dict a = spec_to_dict b \<longleftrightarrow> a = b"
  by (metis option.inject spec_dict_roundtrip)

lemma plan_to_dict_inject:
  "plan_to_dict p = plan_to_dict q \<longleftrightarrow> p\<lparr>pl_version := 0\<rparr> = q\<lparr>pl_version := 0\<rparr>"
proof
  assume "plan_to_dict p = plan_to_dict q"
  then show "p\<lparr>pl_version := 0\<rparr> = q\<lparr>pl_version := 0\<rparr>" by (metis option.inject plan_dict_roundtrip)
next
  assume "p\<lparr>pl_version := 0\<rparr> = q\<lparr>pl_version := 0\<rparr>"
  then have "plan_to_dict (p\<lparr>pl_version := 0\<rparr>) = plan_to_dict (q\<lparr>pl_version := 0\<rparr>)" by simp
  then show "plan_to_dict p = plan_to_dict q" by (simp add: plan_to_dict_def)
qed

section \<open>Properties\<close>

text \<open>
  What \<open>parse_plan\<close> accepts is a plan within the limits: an objective of 1 to 4000 characters,
  1 to \<open>max_tasks\<close> tasks, each within the bounds of a work item and with at least one acceptance
  criterion, distinct ids, dependencies among the ids, no cycle.
\<close>

theorem parse_plan_contract:
  assumes "parse_plan payload coordinator limits version = Inr p"
  shows "0 < length (pl_objective p) \<and> length (pl_objective p) \<le> 4000 \<and>
    1 \<le> length (pl_tasks p) \<and> int (length (pl_tasks p)) \<le> max_tasks limits \<and>
    (\<forall>sp \<in> set (pl_tasks p). item_ok (ws_item sp) \<and> texts_ok (ws_evidence sp) \<and>
       wi_acceptance_criteria (ws_item sp) \<noteq> []) \<and>
    distinct (map spec_id (pl_tasks p)) \<and>
    snd ` dep_rel (plan_items p) \<subseteq> set (map spec_id (pl_tasks p)) \<and> acyclic (dep_rel (plan_items p))"
  using parse_plan_ok [OF assms]
  by (auto simp: plan_ok_def graph_ok_def list_all_iff spec_ok_def text_ok_def Suc_le_eq)

definition sample_payload :: json where
  "sample_payload = JObj [(''objective'', JStr ''Corrigir''), (''work_items'', JList
     [JObj [(''id'', JStr ''A''), (''title'', JStr ''Ler''), (''acceptance_criteria'', JList [JStr ''ok''])],
      JObj [(''id'', JStr ''B''), (''title'', JStr ''Mudar''), (''task_type'', JStr ''code_edit''),
        (''assigned_to'', JStr ''/Codex''), (''dependencies'', JList [JStr ''A'']),
        (''acceptance_criteria'', JList [JStr ''testes''])]])]"

definition sample_spec :: "pystr \<Rightarrow> pystr \<Rightarrow> pystr \<Rightarrow> pystr option \<Rightarrow> pystr list \<Rightarrow> pystr \<Rightarrow> bool \<Rightarrow> WorkflowTaskSpec" where
  "sample_spec i title kind owner needs criterion wr = \<lparr> ws_item = \<lparr> wi_id = i, wi_title = title,
     wi_description = title, wi_task_type = kind, wi_assigned_to = owner, wi_dependencies = needs,
     wi_acceptance_criteria = [criterion], wi_priority = ''medium'' \<rparr>, ws_evidence = [], ws_writes = wr \<rparr>"

definition sample_plan :: WorkflowPlan where
  "sample_plan = \<lparr> pl_objective = ''Corrigir'', pl_coordinator = ''claude'', pl_tasks =
     [sample_spec ''A'' ''Ler'' ''general'' None [] ''ok'' False,
      sample_spec ''B'' ''Mudar'' ''code_edit'' (Some ''/Codex'') [''A''] ''testes'' True],
     pl_global_criteria = [], pl_constraints = [], pl_version = 1 \<rparr>"

lemma sample_payload_parse: "parse_plan sample_payload ''claude'' default_limits 1 = Inr sample_plan"
  by code_simp

theorem parse_plan_contract_witness:
  "\<exists>p. parse_plan sample_payload ''claude'' default_limits 1 = Inr p \<and> length (pl_tasks p) = 2 \<and>
     acyclic (dep_rel (plan_items p))"
  using parse_plan_contract [OF sample_payload_parse] sample_payload_parse
  by (simp add: sample_plan_def)

text \<open>
  Serialization loses nothing but the version: reading back \<open>plan_to_dict\<close> gives the plan, and
  two plans have the same serialized form only if they are equal up to the version.
\<close>

theorem plan_serialization_roundtrip:
  "plan_from_dict (JObj (plan_to_dict p)) v = Some (p\<lparr>pl_version := v\<rparr>) \<and>
   (plan_to_dict p = plan_to_dict q \<longleftrightarrow> p\<lparr>pl_version := 0\<rparr> = q\<lparr>pl_version := 0\<rparr>)"
  using plan_dict_roundtrip plan_to_dict_inject by simp

text \<open>
  \<open>resolve_assignees\<close> keeps the plan except for owners, and an owner it leaves is an active
  agent, the one the plan named up to case, blanks and a leading slash; every other task is left
  to the router.
\<close>

theorem resolved_owners_are_active:
  "map spec_id (pl_tasks (resolve_assignees p names)) = map spec_id (pl_tasks p) \<and>
   dep_rel (plan_items (resolve_assignees p names)) = dep_rel (plan_items p) \<and>
   (\<forall>i < length (pl_tasks p). \<forall>a. wi_assigned_to (ws_item (pl_tasks (resolve_assignees p names) ! i)) = Some a \<longrightarrow>
      a \<in> set names \<and> agent_key a = agent_key (or_empty (wi_assigned_to (ws_item (pl_tasks p ! i)))))"
  using ids_resolve dep_rel_resolve by (auto simp: resolve_spec_def dest: active_map_range)

theorem resolved_owners_are_active_witness:
  "''codex'' \<in> set [''claude'', ''codex''] \<and> agent_key ''codex'' = agent_key (or_empty (Some ''/Codex''))"
proof -
  have "wi_assigned_to (ws_item (pl_tasks (resolve_assignees sample_plan [''claude'', ''codex'']) ! 1)) = Some ''codex''"
    by code_simp
  moreover have "wi_assigned_to (ws_item (pl_tasks sample_plan ! 1)) = Some ''/Codex''" by code_simp
  moreover have "1 < length (pl_tasks sample_plan)" by (simp add: sample_plan_def)
  ultimately show ?thesis
    using resolved_owners_are_active [of sample_plan "[''claude'', ''codex'']"] by metis
qed

end
