(* ===== verification/Workflow_Replan.thy ===== *)
theory Workflow_Replan
  imports Workflow_Plan
begin

text \<open>
  Which tasks survive a new version of a plan (\<open>quimera/workflows/replan.py\<close>). \<open>decide_kept\<close> is a
  memoised depth-first search; it is shown to compute exactly the items whose whole dependency
  cone is unchanged and alive. The locale \<open>keep_decider\<close> is the contract the repository needs of
  the \<open>keep_decider\<close> callback it receives; it is interpreted on \<open>decide_kept\<close>.
\<close>

type_synonym current_map = "(pystr \<times> WorkflowTaskSpec \<times> pystr) list"

definition dead_statuses :: "pystr list" where
  "dead_statuses = [''failed'', ''rejected'', ''cancelled'']"

text \<open>\<open>_identity\<close>: the dict of the task without the suggested owner.\<close>

definition spec_identity :: "WorkflowTaskSpec \<Rightarrow> (pystr \<times> json) list" where
  "spec_identity sp = filter (\<lambda>(k, v). k \<noteq> ''assigned_to'') (spec_to_dict sp)"

text \<open>\<open>by_id[item_id]\<close>; the ids are distinct in a validated plan.\<close>

definition spec_by_id :: "WorkflowTaskSpec list \<Rightarrow> pystr \<Rightarrow> WorkflowTaskSpec option" where
  "spec_by_id specs x = find (\<lambda>sp. spec_id sp = x) specs"

definition unchanged :: "current_map \<Rightarrow> WorkflowTaskSpec \<Rightarrow> bool" where
  "unchanged current sp = (case map_of current (spec_id sp) of
     None \<Rightarrow> False
   | Some (old_spec, status) \<Rightarrow>
       \<not> (status \<in> set dead_statuses \<or> spec_identity old_spec \<noteq> spec_identity sp))"

lemma unchanged_iff: "unchanged current sp \<longleftrightarrow> (\<exists>old status.
    map_of current (spec_id sp) = Some (old, status) \<and> status \<notin> set dead_statuses \<and>
    spec_identity old = spec_identity sp)"
  by (auto simp: unchanged_def split: option.splits)

text \<open>
  \<open>visit\<close> on each id of a list, with the sets \<open>visited\<close> and \<open>kept\<close> threaded through; \<open>None\<close> is the
  \<open>KeyError\<close> of \<open>by_id[item_id]\<close>.
\<close>

function visit_kept :: "current_map \<Rightarrow> WorkflowTaskSpec list \<Rightarrow> pystr list \<Rightarrow> pystr list \<Rightarrow> pystr list
    \<Rightarrow> (pystr list \<times> pystr list) option" where
  "visit_kept current specs visited kept [] = Some (visited, kept)"
| "visit_kept current specs visited kept (x # xs) =
     (if x \<in> set visited then visit_kept current specs visited kept xs
      else case spec_by_id specs x of
          None \<Rightarrow> None
        | Some sp \<Rightarrow>
            (case visit_kept current specs (x # visited) kept (wi_dependencies (ws_item sp)) of
               None \<Rightarrow> None
             | Some (visited', kept') \<Rightarrow>
                 visit_kept current specs visited'
                   (if unchanged current sp \<and> set (wi_dependencies (ws_item sp)) \<subseteq> set kept'
                    then x # kept' else kept') xs))"
  by pat_completeness auto

lemma visit_kept_grows:
  "visit_kept_dom (current, specs, V, K, xs) \<Longrightarrow> visit_kept current specs V K xs = Some (V', K') \<Longrightarrow>
    set V \<subseteq> set V'"
proof (induction arbitrary: V' K' rule: visit_kept.pinduct)
  case (1 current specs V K)
  then show ?case by (simp add: visit_kept.psimps)
next
  case (2 current specs V K x xs)
  show ?case
  proof (cases "x \<in> set V")
    case True
    then show ?thesis using 2 by (simp add: visit_kept.psimps)
  next
    case False
    with "2.prems" "2.hyps" obtain sp where sp: "spec_by_id specs x = Some sp"
      by (auto simp: visit_kept.psimps split: option.splits)
    with False "2.prems" "2.hyps" obtain W L where
      W: "visit_kept current specs (x # V) K (wi_dependencies (ws_item sp)) = Some (W, L)"
      and rest: "visit_kept current specs W (if unchanged current sp \<and>
          set (wi_dependencies (ws_item sp)) \<subseteq> set L then x # L else L) xs = Some (V', K')"
      by (auto simp: visit_kept.psimps split: option.splits)
    have "set (x # V) \<subseteq> set W" using "2.IH"(2) [OF False sp W] .
    moreover have "set W \<subseteq> set V'" using "2.IH"(3) [OF False sp W _ rest] by simp
    ultimately show ?thesis by auto
  qed
qed

lemma spec_by_id_SomeD: "spec_by_id specs x = Some sp \<Longrightarrow> sp \<in> set specs \<and> spec_id sp = x"
  by (auto simp: spec_by_id_def dest: find_SomeD)

lemma spec_by_id_None: "spec_by_id specs x = None \<longleftrightarrow> x \<notin> spec_id ` set specs"
  by (auto simp: spec_by_id_def find_None_iff_ball)

lemma spec_by_id_member: "distinct (map spec_id specs) \<Longrightarrow> sp \<in> set specs \<Longrightarrow>
    spec_by_id specs (spec_id sp) = Some sp"
  using find_key_unique [of spec_id specs sp] by (simp add: spec_by_id_def)

lemma unvisited_shrinks:
  assumes "x \<in> spec_id ` set specs" and "x \<notin> set V" and "set (x # V) \<subseteq> set W"
  shows "card (spec_id ` set specs - set W) < card (spec_id ` set specs - set V)"
proof (rule psubset_card_mono)
  show "spec_id ` set specs - set W \<subset> spec_id ` set specs - set V" using assms by auto
qed simp

termination visit_kept
proof (relation "measures [\<lambda>(current, specs, visited, kept, xs). card (spec_id ` set specs - set visited),
    \<lambda>(current, specs, visited, kept, xs). length xs]", goal_cases)
  case (3 current specs visited kept x xs sp)
  then have "x \<in> spec_id ` set specs" by (auto dest: spec_by_id_SomeD)
  then show ?case using unvisited_shrinks [OF _ 3(1), of specs "x # visited"] by simp
next
  case (4 current specs visited kept x xs sp p V K)
  then have "x \<in> spec_id ` set specs" by (auto dest: spec_by_id_SomeD)
  moreover have "set (x # visited) \<subseteq> set V" using visit_kept_grows 4 by blast
  ultimately show ?case using unvisited_shrinks [OF _ 4(1)] by simp
qed auto

definition decide_kept :: "current_map \<Rightarrow> WorkflowPlan \<Rightarrow> pystr list option" where
  "decide_kept current new_plan =
     map_option snd (visit_kept current (pl_tasks new_plan) [] [] (map spec_id (pl_tasks new_plan)))"

section \<open>What the search computes\<close>

text \<open>An item is good when everything it depends on, itself included, is unchanged and alive.\<close>

definition cone_unchanged :: "current_map \<Rightarrow> WorkflowTaskSpec list \<Rightarrow> pystr \<Rightarrow> bool" where
  "cone_unchanged current specs x \<longleftrightarrow> (\<forall>y. (x, y) \<in> (dep_rel (map ws_item specs))\<^sup>* \<longrightarrow>
     (\<exists>sp. spec_by_id specs y = Some sp \<and> unchanged current sp))"

lemma dep_rel_spec:
  assumes "distinct (map spec_id specs)" and "spec_by_id specs x = Some sp"
  shows "dep_rel (map ws_item specs) `` {x} = set (wi_dependencies (ws_item sp))"
proof -
  have "sp' = sp" if "sp' \<in> set specs" "spec_id sp' = x" for sp'
    using spec_by_id_member [OF assms(1) that(1)] that(2) assms(2) by simp
  then show ?thesis using spec_by_id_SomeD [OF assms(2)] unfolding dep_rel_specs by fastforce
qed

lemma cone_unfold:
  assumes "distinct (map spec_id specs)" and "spec_by_id specs x = Some sp"
  shows "cone_unchanged current specs x \<longleftrightarrow> unchanged current sp \<and>
    (\<forall>d \<in> set (wi_dependencies (ws_item sp)). cone_unchanged current specs d)"
proof -
  let ?R = "dep_rel (map ws_item specs)"
  have "(x, y) \<in> ?R\<^sup>* \<longleftrightarrow> y = x \<or> (\<exists>d \<in> set (wi_dependencies (ws_item sp)). (d, y) \<in> ?R\<^sup>*)" for y
    using dep_rel_spec [OF assms] by (metis Image_singleton_iff converse_rtranclE
        converse_rtrancl_into_rtrancl rtrancl.rtrancl_refl)
  then show ?thesis unfolding cone_unchanged_def using assms(2) by auto
qed

text \<open>The finished ids are closed under dependencies and judged right; nothing else is kept.\<close>

definition kept_ok :: "current_map \<Rightarrow> WorkflowTaskSpec list \<Rightarrow> pystr set \<Rightarrow> pystr list \<Rightarrow> pystr list \<Rightarrow> bool" where
  "kept_ok current specs P V K \<longleftrightarrow> P \<subseteq> set V \<and> set K \<subseteq> set V - P \<and>
     (\<forall>v \<in> set V - P. dep_rel (map ws_item specs) `` {v} \<subseteq> set V - P \<and>
        (v \<in> set K \<longleftrightarrow> cone_unchanged current specs v))"

lemma kept_ok_finish:
  assumes "kept_ok current specs (insert x P) V K" and "x \<notin> P" and "spec_by_id specs x = Some sp"
    and "distinct (map spec_id specs)" and "set (wi_dependencies (ws_item sp)) \<subseteq> set V - insert x P"
  shows "kept_ok current specs P V (if unchanged current sp \<and>
    set (wi_dependencies (ws_item sp)) \<subseteq> set K then x # K else K)"
proof -
  have good: "cone_unchanged current specs x \<longleftrightarrow> unchanged current sp \<and>
      set (wi_dependencies (ws_item sp)) \<subseteq> set K"
    using cone_unfold [OF assms(4,3)] assms(1,5) by (auto simp: kept_ok_def)
  have succ: "dep_rel (map ws_item specs) `` {x} \<subseteq> set V - P"
    using dep_rel_spec [OF assms(4,3)] assms(5) by auto
  show ?thesis unfolding kept_ok_def using assms(1,2) good succ
    by (auto simp: kept_ok_def)
qed

lemma visit_kept_correct:
  "distinct (map spec_id specs) \<Longrightarrow> acyclic (dep_rel (map ws_item specs)) \<Longrightarrow>
    snd ` dep_rel (map ws_item specs) \<subseteq> spec_id ` set specs \<Longrightarrow> set xs \<subseteq> spec_id ` set specs \<Longrightarrow>
    kept_ok current specs P V K \<Longrightarrow> P \<times> set xs \<subseteq> (dep_rel (map ws_item specs))\<^sup>+ \<Longrightarrow>
    \<exists>V' K'. visit_kept current specs V K xs = Some (V', K') \<and> kept_ok current specs P V' K' \<and>
      set V \<subseteq> set V' \<and> set xs \<subseteq> set V' - P"
proof (induction current specs V K xs arbitrary: P rule: visit_kept.induct)
  case (1 current specs V K)
  then show ?case by simp
next
  case (2 current specs V K x xs)
  let ?R = "dep_rel (map ws_item specs)"
  note fixed = "2.prems"(1-3)
  have new: "x \<notin> P"
  proof
    assume "x \<in> P"
    then have "(x, x) \<in> ?R\<^sup>+" using "2.prems"(6) by auto
    then show False using "2.prems"(2) by (simp add: acyclic_def)
  qed
  have xs: "set xs \<subseteq> spec_id ` set specs" "P \<times> set xs \<subseteq> ?R\<^sup>+" using "2.prems"(4,6) by auto
  show ?case
  proof (cases "x \<in> set V")
    case True
    from "2.IH"(1) [OF True fixed xs(1) "2.prems"(5) xs(2)] obtain V' K' where
      "visit_kept current specs V K xs = Some (V', K')" "kept_ok current specs P V' K'"
      "set V \<subseteq> set V'" "set xs \<subseteq> set V' - P"
      by blast
    with True new show ?thesis by auto
  next
    case False
    from "2.prems"(4) obtain sp where sp: "spec_by_id specs x = Some sp"
      by (cases "spec_by_id specs x") (auto simp: spec_by_id_None)
    note deps = dep_rel_spec [OF fixed(1) sp]
    have known: "set (wi_dependencies (ws_item sp)) \<subseteq> spec_id ` set specs" using fixed(3) deps by force
    have path: "insert x P \<times> set (wi_dependencies (ws_item sp)) \<subseteq> ?R\<^sup>+"
      using "2.prems"(6) deps by (auto intro: trancl_into_trancl)
    have "kept_ok current specs (insert x P) (x # V) K" using "2.prems"(5) False by (auto simp: kept_ok_def)
    from "2.IH"(2) [OF False sp fixed known this path] obtain W L where
      W: "visit_kept current specs (x # V) K (wi_dependencies (ws_item sp)) = Some (W, L)"
      "kept_ok current specs (insert x P) W L" "set (x # V) \<subseteq> set W"
      "set (wi_dependencies (ws_item sp)) \<subseteq> set W - insert x P"
      by blast
    note fin = kept_ok_finish [OF W(2) new sp fixed(1) W(4)]
    from "2.IH"(3) [OF False sp W(1) refl fixed xs(1) fin xs(2)] obtain V' K' where
      "visit_kept current specs W (if unchanged current sp \<and>
          set (wi_dependencies (ws_item sp)) \<subseteq> set L then x # L else L) xs = Some (V', K')"
      "kept_ok current specs P V' K'" "set W \<subseteq> set V'" "set xs \<subseteq> set V' - P"
      by blast
    then show ?thesis using False sp W(1,3) new by auto
  qed
qed

lemma decide_kept_iff:
  assumes "graph_ok p"
  shows "\<exists>K. decide_kept current p = Some K \<and>
    (\<forall>x. x \<in> set K \<longleftrightarrow> x \<in> set (map spec_id (pl_tasks p)) \<and> cone_unchanged current (pl_tasks p) x)"
proof -
  let ?sps = "pl_tasks p"
  from assms have g: "distinct (map spec_id ?sps)" "acyclic (dep_rel (plan_items p))"
    "snd ` dep_rel (plan_items p) \<subseteq> spec_id ` set ?sps"
    by (auto simp: graph_ok_def)
  have "kept_ok current ?sps {} [] []" by (simp add: kept_ok_def)
  from visit_kept_correct [OF g _ this, of "map spec_id ?sps"] obtain V K where
    VK: "visit_kept current ?sps [] [] (map spec_id ?sps) = Some (V, K)" "kept_ok current ?sps {} V K"
    "set (map spec_id ?sps) \<subseteq> set V"
    by auto
  have "x \<in> set (map spec_id ?sps)" if "cone_unchanged current ?sps x" for x
    using that spec_by_id_SomeD unfolding cone_unchanged_def by fastforce
  with VK show ?thesis by (auto simp: decide_kept_def kept_ok_def)
qed

section \<open>The contract of a decider\<close>

text \<open>
  What \<open>WorkflowRepository.replan\<close> needs of its callback: an answer for every valid plan; a kept
  item is an item of the new plan that is current, alive and unchanged; the kept items are closed
  under dependencies, so that a kept task never waits for a replaced one.
\<close>

locale keep_decider =
  fixes decide :: "current_map \<Rightarrow> WorkflowPlan \<Rightarrow> pystr list option"
  assumes answers: "graph_ok p \<Longrightarrow> \<exists>K. decide current p = Some K"
    and kept_unchanged: "graph_ok p \<Longrightarrow> decide current p = Some K \<Longrightarrow> x \<in> set K \<Longrightarrow>
      \<exists>sp \<in> set (pl_tasks p). spec_id sp = x \<and> unchanged current sp"
    and kept_closed: "graph_ok p \<Longrightarrow> decide current p = Some K \<Longrightarrow> sp \<in> set (pl_tasks p) \<Longrightarrow>
      spec_id sp \<in> set K \<Longrightarrow> set (wi_dependencies (ws_item sp)) \<subseteq> set K"
begin

lemma kept_is_current:
  assumes "graph_ok p" and "decide current p = Some K" and "x \<in> set K"
  shows "\<exists>old status. map_of current x = Some (old, status) \<and> status \<notin> set dead_statuses"
  using kept_unchanged [OF assms] by (auto simp: unchanged_def split: option.splits)

text \<open>Every dependency of an item that is not kept is either created anew or kept and current.\<close>

lemma dependency_resolves:
  assumes "graph_ok p" and "decide current p = Some K" and "sp \<in> set (pl_tasks p)"
    and "d \<in> set (wi_dependencies (ws_item sp))"
  shows "d \<in> spec_id ` set (filter (\<lambda>s. spec_id s \<notin> set K) (pl_tasks p)) \<or>
    (d \<in> set K \<and> map_of current d \<noteq> None)"
proof -
  have "d \<in> spec_id ` set (pl_tasks p)" using graph_ok_dep [OF assms(1,3,4)] .
  then show ?thesis using kept_is_current [OF assms(1,2)] by (cases "d \<in> set K") auto
qed

end

interpretation decide_kept: keep_decider decide_kept
proof unfold_locales
  fix p :: WorkflowPlan and current
  assume g: "graph_ok p"
  show "\<exists>K. decide_kept current p = Some K" using decide_kept_iff [OF g] by blast
  fix K assume K: "decide_kept current p = Some K"
  have member: "x \<in> set K \<longleftrightarrow> x \<in> set (map spec_id (pl_tasks p)) \<and> cone_unchanged current (pl_tasks p) x" for x
    using decide_kept_iff [OF g, of current] K by auto
  have dist: "distinct (map spec_id (pl_tasks p))" using g by (simp add: graph_ok_def)
  { fix x assume "x \<in> set K"
    then obtain sp where "spec_by_id (pl_tasks p) x = Some sp" "unchanged current sp"
      using member unfolding cone_unchanged_def by blast
    then show "\<exists>sp \<in> set (pl_tasks p). spec_id sp = x \<and> unchanged current sp"
      using spec_by_id_SomeD by blast }
  { fix sp assume sp: "sp \<in> set (pl_tasks p)" "spec_id sp \<in> set K"
    have at: "spec_by_id (pl_tasks p) (spec_id sp) = Some sp" using spec_by_id_member [OF dist sp(1)] .
    have "set (wi_dependencies (ws_item sp)) \<subseteq> set (map spec_id (pl_tasks p))"
      using graph_ok_dep [OF g sp(1)] by auto
    then show "set (wi_dependencies (ws_item sp)) \<subseteq> set K"
      using member sp(2) cone_unfold [OF dist at] by blast }
qed

text \<open>
  C37. For a validated plan, \<open>decide_kept\<close> terminates and keeps exactly the items whose whole
  dependency cone (the item and everything it depends on, directly or not) exists in the current
  version, is neither failed, rejected nor cancelled, and has the same specification up to the
  suggested owner.
\<close>

theorem decide_kept_exact:
  assumes "validate_plan p = Inr ()"
  shows "\<exists>K. decide_kept current p = Some K \<and>
    (\<forall>x. x \<in> set K \<longleftrightarrow> x \<in> set (map spec_id (pl_tasks p)) \<and>
      (\<forall>y. (x, y) \<in> (dep_rel (plan_items p))\<^sup>* \<longrightarrow>
        (\<exists>sp \<in> set (pl_tasks p). spec_id sp = y \<and> (\<exists>old status. map_of current y = Some (old, status) \<and>
           status \<notin> set dead_statuses \<and> spec_identity old = spec_identity sp))))"
proof -
  have g: "graph_ok p" using assms by (simp add: validate_plan_iff)
  have "(\<exists>sp. spec_by_id (pl_tasks p) y = Some sp \<and> unchanged current sp) \<longleftrightarrow>
      (\<exists>sp \<in> set (pl_tasks p). spec_id sp = y \<and> (\<exists>old status. map_of current y = Some (old, status) \<and>
        status \<notin> set dead_statuses \<and> spec_identity old = spec_identity sp))" for y
  proof -
    have "(\<exists>sp. spec_by_id (pl_tasks p) y = Some sp \<and> unchanged current sp) \<longleftrightarrow>
        (\<exists>sp \<in> set (pl_tasks p). spec_id sp = y \<and> unchanged current sp)"
      using g spec_by_id_member spec_by_id_SomeD unfolding graph_ok_def by metis
    also have "\<dots> \<longleftrightarrow> (\<exists>sp \<in> set (pl_tasks p). spec_id sp = y \<and> (\<exists>old status. map_of current y = Some (old, status) \<and>
        status \<notin> set dead_statuses \<and> spec_identity old = spec_identity sp))"
      unfolding unchanged_iff by blast
    finally show ?thesis .
  qed
  then show ?thesis using decide_kept_iff [OF g, of current] unfolding cone_unchanged_def by simp
qed

definition sample_current :: current_map where
  "sample_current = [(''A'', sample_spec ''A'' ''Ler'' ''general'' (Some ''codex'') [] ''ok'' False, ''completed''),
     (''B'', sample_spec ''B'' ''Mudar'' ''code_edit'' None [''A''] ''outros testes'' True, ''in_progress'')]"

theorem decide_kept_exact_witness:
  "decide_kept sample_current sample_plan = Some [''A''] \<and>
   (\<exists>y. (''B'', y) \<in> (dep_rel (plan_items sample_plan))\<^sup>* \<and>
        \<not> (\<exists>sp \<in> set (pl_tasks sample_plan). spec_id sp = y \<and> (\<exists>old status.
            map_of sample_current y = Some (old, status) \<and> status \<notin> set dead_statuses \<and>
            spec_identity old = spec_identity sp)))"
    (is "?run \<and> ?broken")
proof -
  have valid: "validate_plan sample_plan = Inr ()" by code_simp
  have K: ?run by code_simp
  have B: "''B'' \<in> set (map spec_id (pl_tasks sample_plan))" by code_simp
  have "''B'' \<in> set [''A''] \<longleftrightarrow> ''B'' \<in> set (map spec_id (pl_tasks sample_plan)) \<and> \<not> ?broken"
    using decide_kept_exact [OF valid, of sample_current] unfolding K by blast
  with B have ?broken by simp
  with K show ?thesis ..
qed

end
