(* ===== verification/Workflow_Repository.thy ===== *)
theory Workflow_Repository
  imports Task_Repository Workflow_Replan
begin

text \<open>
  \<open>WorkflowRepository\<close> (\<open>quimera/workflows/repository.py\<close>). Each operation is one transaction over
  the store shared with the task repository: \<open>Inl\<close> is the exception that rolls it back. The
  records \<open>WorkflowRecord\<close>, \<open>WorkflowTaskLink\<close> and \<open>AttemptRecord\<close> are read as the rows they
  come from. \<open>digest\<close> is the SHA-256 of the canonical JSON text.
\<close>

definition active_statuses :: "WorkflowStatus list" where
  "active_statuses = [WF_READY, WF_RUNNING, WF_PAUSED, WF_BLOCKED]"

definition in_flight_statuses :: "TaskStatus list" where
  "in_flight_statuses = [IN_PROGRESS, PENDING_REVIEW, REVIEWING]"

definition in_flight :: "pystr \<Rightarrow> bool" where
  "in_flight status \<longleftrightarrow> status \<in> set (map status_value in_flight_statuses)"

section \<open>Reading rows\<close>

definition load_workflow :: "int \<Rightarrow> Store \<Rightarrow> store_error + WorkflowRow" where
  "load_workflow wid s = (case workflow_at s wid of
     None \<Rightarrow> Inl (WorkflowNotFound wid)
   | Some w \<Rightarrow> if wf_status_of (w_status w) = None then Inl (ValueError (w_status w)) else Inr w)"

definition current_links :: "int \<Rightarrow> Store \<Rightarrow> LinkRow list" where
  "current_links wid s = filter (\<lambda>l. l_workflow l = wid \<and> l_superseded_in l = None) (links s)"

definition plan_row :: "int \<Rightarrow> int \<Rightarrow> Store \<Rightarrow> PlanRow option" where
  "plan_row wid version s = find (\<lambda>p. p_workflow p = wid \<and> p_version p = version) (plans s)"

text \<open>\<open>_plan_specs\<close>: a later task with the same id replaces an earlier one.\<close>

definition specs_of_json :: "json \<Rightarrow> (pystr \<times> WorkflowTaskSpec) list option" where
  "specs_of_json data = (case data of
     JObj kvs \<Rightarrow>
       (case map_of kvs ''tasks'' of
          Some (JList raws) \<Rightarrow> map_option rev (map_opt (\<lambda>raw. map_option (\<lambda>sp. (spec_id sp, sp)) (spec_from_dict raw)) raws)
        | _ \<Rightarrow> None)
   | _ \<Rightarrow> None)"

definition plan_specs :: "int \<Rightarrow> int \<Rightarrow> Store \<Rightarrow> store_error + (pystr \<times> WorkflowTaskSpec) list" where
  "plan_specs wid version s = (case plan_row wid version s of
     None \<Rightarrow> Inr []
   | Some p \<Rightarrow> (case specs_of_json (p_plan_json p) of None \<Rightarrow> Inl (KeyError ''tasks'') | Some sps \<Rightarrow> Inr sps))"

text \<open>\<open>statuses[task_id]\<close> of the dict read by \<open>_task_statuses\<close>.\<close>

definition status_of_task :: "Store \<Rightarrow> int \<Rightarrow> store_error + pystr" where
  "status_of_task s tid = (case task_at s tid of
     None \<Rightarrow> Inl (KeyError (show_int tid)) | Some r \<Rightarrow> Inr (t_status r))"

section \<open>Publishing\<close>

definition insert_plan_version :: "(json \<Rightarrow> pystr) \<Rightarrow> pystr \<Rightarrow> int \<Rightarrow> int \<Rightarrow> WorkflowPlan \<Rightarrow> Store
    \<Rightarrow> store_error + Store" where
  "insert_plan_version digest now wid version plan s =
     (if plan_row wid version s \<noteq> None then Inl IntegrityError
      else Inr (s\<lparr>plans := plans s @ [\<lparr> p_workflow = wid, p_version = version,
        p_plan_json = JObj (plan_to_dict plan), p_hash = plan_hash digest plan, p_created_at = now \<rparr>]\<rparr>))"

text \<open>The indexes: a task has one link, an item one current link in its workflow.\<close>

definition insert_link :: "int \<Rightarrow> pystr \<Rightarrow> int \<Rightarrow> int \<Rightarrow> bool \<Rightarrow> pystr list \<Rightarrow> Store \<Rightarrow> store_error + Store" where
  "insert_link wid item tid version writes evidence s =
     (if list_ex (\<lambda>l. l_task l = tid \<or>
           (l_workflow l = wid \<and> l_item l = item \<and> l_superseded_in l = None)) (links s)
         \<or> workflow_at s wid = None \<or> task_at s tid = None then Inl IntegrityError
      else Inr (s\<lparr>links := links s @ [\<lparr> l_id = link_seq s + 1, l_workflow = wid, l_item = item,
        l_task = tid, l_version = version, l_superseded_in = None, l_writes = writes,
        l_evidence = evidence \<rparr>], link_seq := link_seq s + 1\<rparr>))"

definition new_task_of_spec :: "int \<Rightarrow> int \<Rightarrow> WorkflowTaskSpec \<Rightarrow> NewTask" where
  "new_task_of_spec wid version sp = (let item = ws_item sp in
     \<lparr> n_description = wi_title item,
       n_task_type = (case task_type_of (wi_task_type item) of None \<Rightarrow> task_type_value GENERAL
         | Some t \<Rightarrow> task_type_value t),
       n_assigned_to = wi_assigned_to item, n_origin = ''workflow'', n_status = Member PENDING,
       n_priority = wi_priority item, n_created_by = Some (''workflow:'' @ show_int wid),
       n_requested_by = Some ''workflow'', n_notes = None,
       n_body = Some (Dumped (JObj [(''workflow_id'', JInt wid), (''plan_version'', JInt version),
         (''work_item'', JObj (spec_to_dict sp))])),
       n_source_context = Some (''workflow:'' @ show_int wid @ '':'' @ wi_id item @ '':v'' @ show_int version) \<rparr>)"

fun insert_specs :: "pystr \<Rightarrow> int \<Rightarrow> int \<Rightarrow> int \<Rightarrow> WorkflowTaskSpec list \<Rightarrow> Store
    \<Rightarrow> store_error + ((pystr \<times> int) list \<times> Store)" where
  "insert_specs now wid jid version [] s = Inr ([], s)"
| "insert_specs now wid jid version (sp # sps) s =
     bind_res (insert_task now jid (new_task_of_spec wid version sp) s) (\<lambda>(tid, s1).
     bind_res (insert_link wid (spec_id sp) tid version (ws_writes sp) (ws_evidence sp) s1) (\<lambda>s2.
     bind_res (insert_specs now wid jid version sps s2) (\<lambda>(created, s3).
     Inr ((spec_id sp, tid) # created, s3))))"

definition dict_get :: "(pystr \<times> int) list \<Rightarrow> pystr \<Rightarrow> store_error + int" where
  "dict_get d k = (case map_of d k of None \<Rightarrow> Inl (KeyError k) | Some v \<Rightarrow> Inr v)"

fun link_deps :: "pystr \<Rightarrow> int \<Rightarrow> (pystr \<times> int) list \<Rightarrow> pystr list \<Rightarrow> Store \<Rightarrow> store_error + Store" where
  "link_deps now tid by_item [] s = Inr s"
| "link_deps now tid by_item (d # ds) s =
     bind_res (dict_get by_item d) (\<lambda>dep.
     bind_res (insert_task_dependency now tid dep s) (\<lambda>(_, s').
     link_deps now tid by_item ds s'))"

fun link_specs :: "pystr \<Rightarrow> (pystr \<times> int) list \<Rightarrow> (pystr \<times> int) list \<Rightarrow> WorkflowTaskSpec list \<Rightarrow> Store
    \<Rightarrow> store_error + Store" where
  "link_specs now created by_item [] s = Inr s"
| "link_specs now created by_item (sp # sps) s =
     bind_res (dict_get created (spec_id sp)) (\<lambda>tid.
     bind_res (link_deps now tid by_item (wi_dependencies (ws_item sp)) s) (\<lambda>s'.
     link_specs now created by_item sps s'))"

definition create_tasks :: "pystr \<Rightarrow> int \<Rightarrow> int \<Rightarrow> int \<Rightarrow> WorkflowTaskSpec list \<Rightarrow> (pystr \<times> int) list \<Rightarrow> Store
    \<Rightarrow> store_error + ((pystr \<times> int) list \<times> Store)" where
  "create_tasks now wid jid version specs existing s =
     bind_res (insert_specs now wid jid version specs s) (\<lambda>(created, s1).
     bind_res (link_specs now created (created @ existing) specs s1) (\<lambda>s2.
     Inr (created, s2)))"

definition open_count :: "int \<Rightarrow> Store \<Rightarrow> int" where
  "open_count jid s = int (length (filter (\<lambda>w. w_job_id w = jid \<and>
     w_status w \<in> set (map wf_value active_statuses)) (workflows s)))"

definition new_workflow :: "pystr \<Rightarrow> int \<Rightarrow> int \<Rightarrow> pystr \<Rightarrow> WorkflowPlan \<Rightarrow> WorkflowRow" where
  "new_workflow now wid jid key plan = \<lparr> w_id = wid, w_job_id = jid, w_objective = pl_objective plan,
     w_coordinator = pl_coordinator plan, w_status = wf_value WF_READY, w_status_reason = None,
     w_plan_version = 1, w_global_criteria = pl_global_criteria plan,
     w_constraints = pl_constraints plan, w_replans = 0, w_consults = 0, w_attention = None,
     w_result = None, w_publication_key = key, w_created_at = now, w_updated_at = now \<rparr>"

text \<open>The result: the workflow and whether it is new.\<close>

definition publish :: "(json \<Rightarrow> pystr) \<Rightarrow> WorkflowLimits \<Rightarrow> pystr \<Rightarrow> WorkflowPlan \<Rightarrow> int \<Rightarrow> pystr \<Rightarrow> pystr list
    \<Rightarrow> Store \<Rightarrow> store_error + ((WorkflowRow \<times> bool) \<times> Store)" where
  "publish digest limits now plan jid key active_agents s =
     (let resolved = resolve_assignees plan active_agents in
      case find (\<lambda>w. w_publication_key w = key) (workflows s) of
        Some row \<Rightarrow> bind_res (load_workflow (w_id row) s) (\<lambda>w. Inr ((w, False), s))
      | None \<Rightarrow>
          if open_count jid s \<ge> max_open_workflows limits then Inl (WorkflowLimit (max_open_workflows limits))
          else if \<not> job_exists s jid then Inl IntegrityError
          else (let wid = workflow_seq s + 1;
                    s1 = s\<lparr>workflows := workflows s @ [new_workflow now wid jid key plan], workflow_seq := wid\<rparr> in
            bind_res (insert_plan_version digest now wid 1 plan s1) (\<lambda>s2.
            bind_res (create_tasks now wid jid 1 (pl_tasks resolved) [] s2) (\<lambda>(_, s3).
            bind_res (load_workflow wid s3) (\<lambda>w. Inr ((w, True), s3))))))"

section \<open>Attempts\<close>

definition close_open_attempts :: "pystr \<Rightarrow> int list \<Rightarrow> pystr \<Rightarrow> Store \<Rightarrow> Store" where
  "close_open_attempts now tids reason s =
     (if tids = [] then s
      else s\<lparr>attempts := update_where (\<lambda>a. a_status a \<in> set [''running'', ''submitted''] \<and> a_task a \<in> set tids)
        (\<lambda>a. a\<lparr>a_status := ''cancelled'', a_failure_reason := Some reason, a_finished_at := Some now\<rparr>)
        (attempts s)\<rparr>)"

definition requeue_and_close :: "pystr \<Rightarrow> int \<Rightarrow> pystr \<Rightarrow> observation option \<Rightarrow> Store \<Rightarrow> bool \<times> Store" where
  "requeue_and_close now tid reason observed s =
     (let (requeued, s1) = requeue_interrupted now tid reason observed s in
      if requeued then (True, s1\<lparr>attempts := update_where (\<lambda>a. a_task a = tid \<and> a_status a = ''running'')
          (\<lambda>a. a\<lparr>a_status := ''interrupted'', a_failure_reason := Some reason, a_finished_at := Some now\<rparr>)
          (attempts s1)\<rparr>)
      else (False, s1))"

definition same_attempt :: "int \<Rightarrow> int \<Rightarrow> pystr \<Rightarrow> AttemptRow \<Rightarrow> bool" where
  "same_attempt tid attempt agent a \<longleftrightarrow> a_task a = tid \<and> a_attempt a = attempt \<and> a_agent a = agent"

definition begin_attempt :: "pystr \<Rightarrow> int \<Rightarrow> int \<Rightarrow> pystr \<Rightarrow> pystr option \<Rightarrow> Store \<Rightarrow> store_error + Store" where
  "begin_attempt now tid attempt agent run_id s =
     (if list_ex (same_attempt tid attempt agent) (attempts s)
      then Inr (s\<lparr>attempts := update_where (same_attempt tid attempt agent)
        (\<lambda>a. a\<lparr>a_run_id := run_id, a_status := ''running'', a_failure_reason := None, a_finished_at := None\<rparr>)
        (attempts s)\<rparr>)
      else if task_at s tid = None then Inl IntegrityError
      else Inr (s\<lparr>attempts := attempts s @ [\<lparr> a_task = tid, a_attempt = attempt, a_agent = agent,
        a_run_id = run_id, a_status = ''running'', a_failure_reason = None, a_handoff = None,
        a_started_at = now, a_finished_at = None \<rparr>]\<rparr>))"

definition review_verdicts :: "pystr list" where
  "review_verdicts = [''accepted'', ''rejected'']"

definition finish_source :: "pystr \<Rightarrow> pystr" where
  "finish_source status = (if status \<in> set review_verdicts then ''submitted'' else ''running'')"

definition finish_attempt :: "pystr \<Rightarrow> int \<Rightarrow> int \<Rightarrow> pystr \<Rightarrow> pystr \<Rightarrow> pystr option \<Rightarrow> pystr option \<Rightarrow> Store \<Rightarrow> Store" where
  "finish_attempt now tid attempt agent status handoff failure_reason s =
     s\<lparr>attempts := update_where (\<lambda>a. same_attempt tid attempt agent a \<and> a_status a = finish_source status)
       (\<lambda>a. a\<lparr>a_status := status, a_handoff := coalesce handoff (a_handoff a),
              a_failure_reason := failure_reason, a_finished_at := Some now\<rparr>) (attempts s)\<rparr>"

definition list_attempts :: "int \<Rightarrow> Store \<Rightarrow> AttemptRow list" where
  "list_attempts tid s =
     sort_key a_attempt (sort_key a_started_at (filter (\<lambda>a. a_task a = tid) (attempts s)))"

section \<open>Replanning\<close>

record ReplanResult =
  rp_workflow :: WorkflowRow
  rp_applied :: bool
  rp_kept :: "int list"
  rp_created :: "int list"
  rp_retired :: "int list"
  rp_to_interrupt :: "int list"

definition replannable :: "WorkflowStatus list" where
  "replannable = [WF_RUNNING, WF_PAUSED, WF_BLOCKED, WF_COMPLETED]"

definition current_entry :: "Store \<Rightarrow> (pystr \<times> WorkflowTaskSpec) list \<Rightarrow> LinkRow
    \<Rightarrow> store_error + (pystr \<times> WorkflowTaskSpec \<times> pystr)" where
  "current_entry s old_specs l = (case map_of old_specs (l_item l) of
     None \<Rightarrow> Inl (KeyError (l_item l))
   | Some sp \<Rightarrow> bind_res (status_of_task s (l_task l)) (\<lambda>st. Inr (l_item l, sp, st)))"

definition supersede :: "int \<Rightarrow> int list \<Rightarrow> Store \<Rightarrow> Store" where
  "supersede version tids s = s\<lparr>links := update_where (\<lambda>l. l_task l \<in> set tids)
     (\<lambda>l. l\<lparr>l_superseded_in := Some version\<rparr>) (links s)\<rparr>"

text \<open>The retired tasks are cancelled, their open attempts closed, their links marked.\<close>

definition retire :: "pystr \<Rightarrow> int \<Rightarrow> int list \<Rightarrow> pystr \<Rightarrow> Store \<Rightarrow> Store" where
  "retire now v tids reason s = (let (changed, s1) = transition_tasks now tids CANCELLED (Some reason) s in
     supersede v tids (close_open_attempts now changed reason s1))"

definition replanned_row :: "pystr \<Rightarrow> int \<Rightarrow> WorkflowPlan \<Rightarrow> WorkflowRow \<Rightarrow> WorkflowRow" where
  "replanned_row now version plan w = w\<lparr>w_plan_version := version, w_replans := w_replans w + 1,
     w_status := (if w_status w = wf_value WF_PAUSED then w_status w else wf_value WF_RUNNING),
     w_status_reason := Some (''replanejado para v'' @ show_int version),
     w_attention := None, w_result := None, w_global_criteria := pl_global_criteria plan,
     w_constraints := pl_constraints plan, w_updated_at := now\<rparr>"

text \<open>The part of \<open>replan\<close> after its guards, with the workflow row and the resolved plan.\<close>

definition apply_replan :: "(json \<Rightarrow> pystr) \<Rightarrow> pystr \<Rightarrow> WorkflowRow \<Rightarrow> WorkflowPlan \<Rightarrow> WorkflowPlan
    \<Rightarrow> (current_map \<Rightarrow> WorkflowPlan \<Rightarrow> pystr list option) \<Rightarrow> Store \<Rightarrow> store_error + (ReplanResult \<times> Store)" where
  "apply_replan digest now w plan resolved decide s =
     (let wid = w_id w; new_version = w_plan_version w + 1; lks = current_links wid s in
      bind_res (plan_specs wid (w_plan_version w) s) (\<lambda>old_specs.
      bind_res (map_res (current_entry s old_specs)
        (filter (\<lambda>l. l_item l \<in> fst ` set old_specs) lks)) (\<lambda>current.
      case decide current resolved of
        None \<Rightarrow> Inl (KeyError ''item'')
      | Some keep \<Rightarrow>
         (let kept = filter (\<lambda>l. l_item l \<in> set keep) lks;
              retired = filter (\<lambda>l. l_item l \<notin> set keep) lks;
              retired_ids = map l_task retired;
              reason = ''superada pelo plano v'' @ show_int new_version in
          bind_res (map_res (\<lambda>tid. map_sum id (\<lambda>st. (tid, st)) (status_of_task s tid)) retired_ids) (\<lambda>statuses.
          bind_res (create_tasks now wid (w_job_id w) new_version
              (filter (\<lambda>sp. spec_id sp \<notin> set keep) (pl_tasks resolved))
              (rev (map (\<lambda>l. (l_item l, l_task l)) kept))
              (retire now new_version retired_ids reason s)) (\<lambda>(created, s3).
          bind_res (insert_plan_version digest now wid new_version plan s3) (\<lambda>s4.
          let s5 = update_workflow_row wid (replanned_row now new_version plan) s4 in
          bind_res (load_workflow wid s5) (\<lambda>w'.
          Inr (\<lparr> rp_workflow = w', rp_applied = True, rp_kept = map l_task kept,
                 rp_created = map snd created, rp_retired = retired_ids,
                 rp_to_interrupt = map fst (filter (\<lambda>(tid, st). in_flight st) statuses) \<rparr>, s5)))))))))"

definition replan :: "(json \<Rightarrow> pystr) \<Rightarrow> WorkflowLimits \<Rightarrow> pystr \<Rightarrow> int \<Rightarrow> WorkflowPlan \<Rightarrow> int \<Rightarrow> pystr list
    \<Rightarrow> (current_map \<Rightarrow> WorkflowPlan \<Rightarrow> pystr list option) \<Rightarrow> Store \<Rightarrow> store_error + (ReplanResult \<times> Store)" where
  "replan digest limits now wid plan base_version active_agents decide s =
     (let resolved = resolve_assignees plan active_agents in
      bind_res (load_workflow wid s) (\<lambda>w.
      case plan_row wid (w_plan_version w) s of
        None \<Rightarrow> Inl RowMissing
      | Some row \<Rightarrow>
          if plan_hash digest plan = p_hash row then
            Inr (\<lparr> rp_workflow = w, rp_applied = False, rp_kept = [], rp_created = [],
                   rp_retired = [], rp_to_interrupt = [] \<rparr>, s)
          else if w_plan_version w \<noteq> base_version then
            Inl (VersionConflict (w_plan_version w) base_version)
          else if w_status w \<notin> set (map wf_value replannable) then Inl (NotReplannable (w_status w))
          else if w_replans w \<ge> max_replans limits then Inl (ReplanLimit (max_replans limits))
          else apply_replan digest now w plan resolved decide s))"

section \<open>State of a workflow\<close>

definition cancel_current :: "pystr \<Rightarrow> int \<Rightarrow> pystr \<Rightarrow> Store \<Rightarrow> store_error + (int list \<times> Store)" where
  "cancel_current now wid cancel_reason s =
     (let ids = map l_task (current_links wid s) in
      bind_res (map_res (\<lambda>tid. map_sum id (\<lambda>st. (tid, st)) (status_of_task s tid)) ids) (\<lambda>statuses.
      let (changed, s1) = transition_tasks now ids CANCELLED (Some cancel_reason) s in
      Inr (map fst (filter (\<lambda>(tid, st). in_flight st) statuses),
           close_open_attempts now changed cancel_reason s1)))"

definition non_empty_or :: "pystr option \<Rightarrow> pystr \<Rightarrow> pystr" where
  "non_empty_or v d = (if or_empty v = [] then d else or_empty v)"

definition status_row :: "pystr \<Rightarrow> WorkflowStatus \<Rightarrow> pystr option \<Rightarrow> pystr option \<Rightarrow> pystr option
    \<Rightarrow> WorkflowRow \<Rightarrow> WorkflowRow" where
  "status_row now to_status reason attention result w = w\<lparr>w_status := wf_value to_status,
     w_status_reason := reason, w_attention := attention, w_result := coalesce result (w_result w),
     w_updated_at := now\<rparr>"

text \<open>The result \<open>None\<close> is the refusal; otherwise the workflow and the task ids to interrupt.\<close>

definition set_status :: "pystr \<Rightarrow> int \<Rightarrow> WorkflowStatus \<Rightarrow> pystr option \<Rightarrow> WorkflowStatus list option
    \<Rightarrow> int option \<Rightarrow> bool \<Rightarrow> pystr option \<Rightarrow> pystr option \<Rightarrow> Store
    \<Rightarrow> store_error + ((WorkflowRow \<times> int list) option \<times> Store)" where
  "set_status now wid to_status reason expected expected_version cancel_tasks attention result s =
     bind_res (load_workflow wid s) (\<lambda>w.
     if (case expected of None \<Rightarrow> False | Some sts \<Rightarrow> w_status w \<notin> set (map wf_value sts))
        \<or> (case expected_version of None \<Rightarrow> False | Some v \<Rightarrow> w_plan_version w \<noteq> v)
        \<or> \<not> can_transition_workflow (w_status w) (wf_value to_status)
     then Inr (None, s)
     else
       bind_res (if cancel_tasks then cancel_current now wid (non_empty_or reason ''workflow cancelado'') s
                 else Inr ([], s)) (\<lambda>(interrupted, s1).
       let s2 = update_workflow_row wid (status_row now to_status reason attention result) s1 in
       bind_res (load_workflow wid s2) (\<lambda>w'. Inr (Some (w', interrupted), s2))))"

definition set_result :: "pystr \<Rightarrow> int \<Rightarrow> pystr \<Rightarrow> WorkflowStatus \<Rightarrow> int \<Rightarrow> bool \<Rightarrow> Store \<Rightarrow> bool \<times> Store" where
  "set_result now wid result expected_status expected_version only_if_empty s =
     (let hit = (\<lambda>w. w_id w = wid \<and> w_status w = wf_value expected_status \<and>
            w_plan_version w = expected_version \<and> (only_if_empty \<longrightarrow> w_result w = None)) in
      (length (filter hit (workflows s)) = 1,
       s\<lparr>workflows := update_where hit (\<lambda>w. w\<lparr>w_result := Some result, w_updated_at := now\<rparr>) (workflows s)\<rparr>))"

definition claim_consult :: "WorkflowLimits \<Rightarrow> pystr \<Rightarrow> int \<Rightarrow> pystr \<Rightarrow> Store \<Rightarrow> bool \<times> Store" where
  "claim_consult limits now wid attention s =
     (let hit = (\<lambda>w. w_id w = wid \<and> w_consults w < max_consults limits \<and> or_empty (w_attention w) \<noteq> attention) in
      (length (filter hit (workflows s)) = 1,
       s\<lparr>workflows := update_where hit (\<lambda>w. w\<lparr>w_attention := Some attention, w_consults := w_consults w + 1,
         w_updated_at := now\<rparr>) (workflows s)\<rparr>))"

fun requeue_all :: "pystr \<Rightarrow> int list \<Rightarrow> pystr \<Rightarrow> Store \<Rightarrow> Store" where
  "requeue_all now [] reason s = s"
| "requeue_all now (tid # tids) reason s =
     requeue_all now tids reason (snd (requeue_and_close now tid reason None s))"

definition adopted_row :: "pystr \<Rightarrow> int \<Rightarrow> pystr \<Rightarrow> WorkflowRow \<Rightarrow> WorkflowRow \<Rightarrow> WorkflowRow" where
  "adopted_row now job_id pause_reason loaded w = (let paused = w_status loaded = wf_value WF_RUNNING in
     w\<lparr>w_job_id := job_id, w_status := (if paused then wf_value WF_PAUSED else w_status loaded),
       w_status_reason := (if paused then Some pause_reason else w_status_reason loaded), w_updated_at := now\<rparr>)"

definition adopt :: "pystr \<Rightarrow> int \<Rightarrow> int \<Rightarrow> pystr \<Rightarrow> Store \<Rightarrow> store_error + (bool \<times> Store)" where
  "adopt now wid job_id pause_reason s =
     bind_res (load_workflow wid s) (\<lambda>w.
     let ids = map l_task (current_links wid s); paused = w_status w = wf_value WF_RUNNING in
     bind_res (set_tasks_job now ids job_id s) (\<lambda>s1.
     if \<not> job_exists s1 job_id then Inl IntegrityError
     else Inr (paused, requeue_all now ids ''interrompida por reinicio''
       (update_workflow_row wid (adopted_row now job_id pause_reason w) s1))))"

fun requeue_orphans :: "pystr \<Rightarrow> (int \<times> observation) list \<Rightarrow> pystr \<Rightarrow> Store \<Rightarrow> int list \<times> Store" where
  "requeue_orphans now [] reason s = ([], s)"
| "requeue_orphans now ((tid, seen) # obs) reason s =
     (let (done, s1) = requeue_and_close now tid reason (Some seen) s;
          (rest, s2) = requeue_orphans now obs reason s1
      in (if done then tid # rest else rest, s2))"

section \<open>Queries\<close>

definition list_workflows :: "int option \<Rightarrow> WorkflowStatus list option \<Rightarrow> Store \<Rightarrow> store_error + WorkflowRow list" where
  "list_workflows job_id statuses s = map_res (\<lambda>w. load_workflow (w_id w) s)
     (filter (\<lambda>w. (job_id = None \<or> job_id = Some (w_job_id w)) \<and>
        (case statuses of None \<Rightarrow> True | Some sts \<Rightarrow> w_status w \<in> set (map wf_value sts))) (workflows s))"

definition link_for_task :: "int \<Rightarrow> Store \<Rightarrow> LinkRow option" where
  "link_for_task tid s = find (\<lambda>l. l_task l = tid) (links s)"

definition read_plan :: "int \<Rightarrow> int option \<Rightarrow> Store \<Rightarrow> store_error + WorkflowPlan" where
  "read_plan wid version s =
     bind_res (load_workflow wid s) (\<lambda>w.
     let wanted = (case version of None \<Rightarrow> w_plan_version w | Some v \<Rightarrow> v) in
     case plan_row wid wanted s of
       None \<Rightarrow> Inl (WorkflowNotFound wid)
     | Some row \<Rightarrow> (case plan_from_dict (p_plan_json row) wanted of
         None \<Rightarrow> Inl (KeyError ''plan_json'') | Some p \<Rightarrow> Inr p))"

record TaskView =
  v_link :: LinkRow
  v_status :: pystr
  v_assigned_to :: "pystr option"
  v_attempt_count :: int
  v_title :: pystr
  v_dependencies :: "pystr list"
  v_result :: "pystr option"
  v_notes :: "pystr option"
  v_updated_at :: "pystr option"
  v_rework_count :: int

record WorkflowSnapshot =
  sn_workflow :: WorkflowRow
  sn_tasks :: "TaskView list"

definition task_view :: "Store \<Rightarrow> (pystr \<times> WorkflowTaskSpec) list \<Rightarrow> LinkRow \<Rightarrow> store_error + TaskView" where
  "task_view s specs l = (case task_at s (l_task l) of
     None \<Rightarrow> Inl (KeyError (show_int (l_task l)))
   | Some r \<Rightarrow> Inr \<lparr> v_link = l, v_status = t_status r, v_assigned_to = t_assigned_to r,
       v_attempt_count = t_attempt_count r, v_title = t_description r,
       v_dependencies = (case map_of specs (l_item l) of None \<Rightarrow> [] | Some sp \<Rightarrow> wi_dependencies (ws_item sp)),
       v_result = t_result r, v_notes = t_notes r, v_updated_at = t_updated_at r,
       v_rework_count = t_rework_count r \<rparr>)"

text \<open>
  The reads of one \<open>snapshot\<close> when nobody writes in between; statement by statement they are in
  \<open>Coordinator_Interleaving\<close>.
\<close>

definition snapshot :: "int \<Rightarrow> Store \<Rightarrow> store_error + WorkflowSnapshot" where
  "snapshot wid s =
     bind_res (load_workflow wid s) (\<lambda>w.
     bind_res (plan_specs wid (w_plan_version w) s) (\<lambda>specs.
     bind_res (map_res (task_view s specs) (current_links wid s)) (\<lambda>views.
     Inr \<lparr> sn_workflow = w, sn_tasks = views \<rparr>)))"

end
