(* ===== verification/Actions.thy ===== *)
theory Actions
  imports Workflow_Repository
begin

text \<open>
  Code that strings several transactions together (the coordinator, the task runner, the reviewer)
  as state-passing actions. The state is the database, the notices already given (the memory of
  the coordinator) and the log of effects on the outside, in the order they happen. An exception
  leaves the state as it was when it was raised: the transactions before it stay committed.
\<close>

section \<open>The state and the effects\<close>

text \<open>
  \<open>Waken\<close> is the call of \<open>wake\<close>, \<open>Notify\<close> that of \<open>notify\<close>, \<open>Interrupt\<close> that of \<open>interrupt_tasks\<close>,
  \<open>ShowMuted\<close> a line of \<open>show_muted_message\<close> and \<open>Emit\<close> an event given to the event sink outside
  the repository.
\<close>

datatype effect = Waken | Notify pystr | Interrupt "int list" | ShowMuted pystr
  | ReviewReassigned int int pystr pystr

record Sys =
  db :: Store
  noticed :: "(int \<times> int \<times> pystr) list"
  effects :: "effect list"

type_synonym ('s, 'e, 'a) action = "'s \<Rightarrow> ('e + 'a) \<times> 's"
type_synonym ('e, 'a) act = "(Sys, 'e, 'a) action"

section \<open>Actions\<close>

definition act_return :: "'a \<Rightarrow> ('s, 'e, 'a) action" where
  "act_return x = (\<lambda>s. (Inr x, s))"

definition act_raise :: "'e \<Rightarrow> ('s, 'e, 'a) action" where
  "act_raise e = (\<lambda>s. (Inl e, s))"

definition act_bind :: "('s, 'e, 'a) action \<Rightarrow> ('a \<Rightarrow> ('s, 'e, 'b) action) \<Rightarrow> ('s, 'e, 'b) action" where
  "act_bind m f = (\<lambda>s. case m s of (Inl e, s') \<Rightarrow> (Inl e, s') | (Inr x, s') \<Rightarrow> f x s')"

definition act_then :: "('s, 'e, 'a) action \<Rightarrow> ('s, 'e, 'b) action \<Rightarrow> ('s, 'e, 'b) action" where
  "act_then m m' = act_bind m (\<lambda>_. m')"

text \<open>\<open>try: m / except E as exc: h\<close>, where \<open>caught\<close> tells the exceptions of \<open>E\<close>.\<close>

definition act_try :: "('e \<Rightarrow> bool) \<Rightarrow> ('s, 'e, 'a) action \<Rightarrow> ('e \<Rightarrow> ('s, 'e, 'a) action) \<Rightarrow> ('s, 'e, 'a) action" where
  "act_try caught m h = (\<lambda>s. case m s of
     (Inl e, s') \<Rightarrow> if caught e then h e s' else (Inl e, s')
   | (Inr x, s') \<Rightarrow> (Inr x, s'))"

definition act_effect :: "effect \<Rightarrow> ('e, unit) act" where
  "act_effect e = (\<lambda>s. (Inr (), s\<lparr>effects := effects s @ [e]\<rparr>))"

text \<open>A value of the database, a query that may raise, a transaction, a statement that cannot fail.\<close>

definition act_ask :: "(Store \<Rightarrow> 'a) \<Rightarrow> ('e, 'a) act" where
  "act_ask f = (\<lambda>s. (Inr (f (db s)), s))"

definition act_query :: "(store_error \<Rightarrow> 'e) \<Rightarrow> (Store \<Rightarrow> store_error + 'a) \<Rightarrow> ('e, 'a) act" where
  "act_query err f = (\<lambda>s. case f (db s) of Inl e \<Rightarrow> (Inl (err e), s) | Inr x \<Rightarrow> (Inr x, s))"

definition act_commit :: "(store_error \<Rightarrow> 'e) \<Rightarrow> (Store \<Rightarrow> store_error + ('a \<times> Store)) \<Rightarrow> ('e, 'a) act" where
  "act_commit err f = (\<lambda>s. case f (db s) of
     Inl e \<Rightarrow> (Inl (err e), s) | Inr (x, d) \<Rightarrow> (Inr x, s\<lparr>db := d\<rparr>))"

definition act_write :: "(Store \<Rightarrow> 'a \<times> Store) \<Rightarrow> ('e, 'a) act" where
  "act_write f = (\<lambda>s. (Inr (fst (f (db s))), s\<lparr>db := snd (f (db s))\<rparr>))"

text \<open>What the environment shows at this moment, and \<open>try: m / finally: h\<close>.\<close>

definition act_get :: "('s \<Rightarrow> 'a) \<Rightarrow> ('s, 'e, 'a) action" where
  "act_get f = (\<lambda>s. (Inr (f s), s))"

definition act_finally :: "('s, 'e, 'a) action \<Rightarrow> ('s, 'e, unit) action \<Rightarrow> ('s, 'e, 'a) action" where
  "act_finally m h = (\<lambda>s. case m s of (r, s') \<Rightarrow>
     (case h s' of (Inl e, s'') \<Rightarrow> (Inl e, s'') | (Inr u, s'') \<Rightarrow> (r, s'')))"

text \<open>\<open>for x in xs: f x\<close> with the results in order, and \<open>if c: m\<close>.\<close>

fun act_each :: "('a \<Rightarrow> ('s, 'e, 'b) action) \<Rightarrow> 'a list \<Rightarrow> ('s, 'e, 'b list) action" where
  "act_each f [] = act_return []"
| "act_each f (x # xs) = act_bind (f x) (\<lambda>y. act_bind (act_each f xs) (\<lambda>ys. act_return (y # ys)))"

definition act_when :: "bool \<Rightarrow> ('s, 'e, unit) action \<Rightarrow> ('s, 'e, unit) action" where
  "act_when c m = (if c then m else act_return ())"

lemma act_simps [simp]:
  "act_return x s = (Inr x, s)" "act_raise e t = (Inl e, t)" "act_get g u = (Inr (g u), u)"
  "act_effect ef v = (Inr (), v\<lparr>effects := effects v @ [ef]\<rparr>)" "act_ask f w = (Inr (f (db w)), w)"
  by (simp_all add: act_return_def act_raise_def act_effect_def act_ask_def act_get_def)

lemma act_bind_Inr: "act_bind m f s = (Inr y, s') \<longleftrightarrow> (\<exists>x t. m s = (Inr x, t) \<and> f x t = (Inr y, s'))"
  by (auto simp: act_bind_def split: prod.splits sum.splits)

lemma act_then_Inr: "act_then m m' s = (Inr y, s') \<longleftrightarrow> (\<exists>x t. m s = (Inr x, t) \<and> m' t = (Inr y, s'))"
  by (simp add: act_then_def act_bind_Inr)

lemma act_commit_Inr: "act_commit err f s = (Inr x, s') \<longleftrightarrow>
    (\<exists>d. f (db s) = Inr (x, d) \<and> s' = s\<lparr>db := d\<rparr>)"
  by (auto simp: act_commit_def split: sum.splits prod.splits)

lemma act_query_Inr: "act_query err f s = (Inr x, s') \<longleftrightarrow> f (db s) = Inr x \<and> s' = s"
  by (auto simp: act_query_def split: sum.splits)

section \<open>What an action does to the database\<close>

text \<open>
  The contract of an action towards a relation \<open>R\<close> on stores, in every outcome, exceptions
  included. For a preorder \<open>R\<close> the contracts compose along the code.
\<close>

definition act_keeps :: "(Store \<Rightarrow> Store \<Rightarrow> bool) \<Rightarrow> ('e, 'a) act \<Rightarrow> bool" where
  "act_keeps R m \<longleftrightarrow> (\<forall>s. R (db s) (db (snd (m s))))"

lemma act_keepsI: "(\<And>s. R (db s) (db (snd (m s)))) \<Longrightarrow> act_keeps R m"
  by (simp add: act_keeps_def)

lemma act_keepsD: "act_keeps R m \<Longrightarrow> m s = (r, s') \<Longrightarrow> R (db s) (db s')"
  by (metis act_keeps_def snd_conv)

lemma act_keeps_if: "(c \<Longrightarrow> act_keeps R m) \<Longrightarrow> (\<not> c \<Longrightarrow> act_keeps R m') \<Longrightarrow> act_keeps R (if c then m else m')"
  by simp

lemma act_keeps_option: "(r = None \<Longrightarrow> act_keeps R m) \<Longrightarrow> (\<And>x. r = Some x \<Longrightarrow> act_keeps R (f x)) \<Longrightarrow>
    act_keeps R (case r of None \<Rightarrow> m | Some x \<Rightarrow> f x)"
  by (cases r) simp_all

lemma act_keeps_prod: "(\<And>x y. r = (x, y) \<Longrightarrow> act_keeps R (f x y)) \<Longrightarrow>
    act_keeps R (case r of (x, y) \<Rightarrow> f x y)"
  by (cases r) simp_all

lemma act_keeps_sum: "(\<And>x. r = Inl x \<Longrightarrow> act_keeps R (f x)) \<Longrightarrow> (\<And>x. r = Inr x \<Longrightarrow> act_keeps R (g x)) \<Longrightarrow>
    act_keeps R (case r of Inl x \<Rightarrow> f x | Inr x \<Rightarrow> g x)"
  by (cases r) simp_all

lemmas act_keeps_splits = act_keeps_if act_keeps_option act_keeps_prod act_keeps_sum

locale store_preorder =
  fixes R :: "Store \<Rightarrow> Store \<Rightarrow> bool"
  assumes refl: "R s s" and trans: "R s t \<Longrightarrow> R t u \<Longrightarrow> R s u"
begin

lemma keeps_pure [intro]:
  "act_keeps R (act_return x)" "act_keeps R (act_raise e)" "act_keeps R (act_effect ef)"
  "act_keeps R (act_ask f)" "act_keeps R (act_query err g)"
  by (auto simp: act_keeps_def act_query_def refl split: sum.splits)

lemma keeps_bind [intro]:
  assumes "act_keeps R m" and "\<And>x. act_keeps R (f x)"
  shows "act_keeps R (act_bind m f)"
proof (rule act_keepsI)
  fix s
  obtain r t where m: "m s = (r, t)" by fastforce
  have t: "R (db s) (db t)" using act_keepsD [OF assms(1) m] .
  show "R (db s) (db (snd (act_bind m f s)))"
  proof (cases r)
    case (Inr x)
    obtain r' u where f: "f x t = (r', u)" by fastforce
    from trans [OF t act_keepsD [OF assms(2) f]] show ?thesis by (simp add: act_bind_def m Inr f)
  qed (use t in \<open>simp add: act_bind_def m\<close>)
qed

lemma keeps_then [intro]: "act_keeps R m \<Longrightarrow> act_keeps R m' \<Longrightarrow> act_keeps R (act_then m m')"
  unfolding act_then_def by (rule keeps_bind)

lemma keeps_when [intro]: "(c \<Longrightarrow> act_keeps R m) \<Longrightarrow> act_keeps R (act_when c m)"
  by (auto simp: act_when_def)

lemma keeps_try [intro]:
  assumes "act_keeps R m" and "\<And>e. act_keeps R (h e)"
  shows "act_keeps R (act_try caught m h)"
proof (rule act_keepsI)
  fix s
  obtain r t where m: "m s = (r, t)" by fastforce
  have t: "R (db s) (db t)" using act_keepsD [OF assms(1) m] .
  show "R (db s) (db (snd (act_try caught m h s)))"
  proof (cases r)
    case (Inl e)
    obtain r' u where h: "h e t = (r', u)" by fastforce
    from trans [OF t act_keepsD [OF assms(2) h]] t show ?thesis by (simp add: act_try_def m Inl h)
  qed (use t in \<open>simp add: act_try_def m\<close>)
qed

lemma keeps_get [intro]: "act_keeps R (act_get f)"
  by (simp add: act_keeps_def act_get_def refl)

lemma keeps_finally [intro]:
  assumes "act_keeps R m" and "act_keeps R h"
  shows "act_keeps R (act_finally m h)"
proof (rule act_keepsI)
  fix s
  obtain r t where m: "m s = (r, t)" by fastforce
  obtain r' u where h: "h t = (r', u)" by fastforce
  from trans [OF act_keepsD [OF assms(1) m] act_keepsD [OF assms(2) h]]
  show "R (db s) (db (snd (act_finally m h s)))" by (cases r') (simp_all add: act_finally_def m h)
qed

lemma keeps_each [intro]: "(\<And>x. act_keeps R (f x)) \<Longrightarrow> act_keeps R (act_each f xs)"
  by (induction xs) (auto intro!: keeps_bind keeps_pure)

lemma keeps_commit: "(\<And>d x d'. f d = Inr (x, d') \<Longrightarrow> R d d') \<Longrightarrow> act_keeps R (act_commit err f)"
  by (auto simp: act_keeps_def act_commit_def refl split: sum.splits)

lemma keeps_write: "(\<And>d. R d (snd (f d))) \<Longrightarrow> act_keeps R (act_write f)"
  by (simp add: act_keeps_def act_write_def)

end


section \<open>What holds when an action returns\<close>

text \<open>
  \<open>act_ends P m Q\<close>: started on a database with \<open>P\<close>, \<open>m\<close> leaves one with \<open>Q\<close> if it returns, for every
  state of the rest. \<open>act_total m\<close>: \<open>m\<close> returns, it never raises.
\<close>

named_theorems ends "what holds when an action returns"
named_theorems totals "actions that never raise"

definition act_ends :: "(Store \<Rightarrow> bool) \<Rightarrow> ('e, 'a) act \<Rightarrow> (Store \<Rightarrow> bool) \<Rightarrow> bool" where
  "act_ends P m Q \<longleftrightarrow> (\<forall>s x s'. P (db s) \<longrightarrow> m s = (Inr x, s') \<longrightarrow> Q (db s'))"

definition act_total :: "('e, 'a) act \<Rightarrow> bool" where
  "act_total m \<longleftrightarrow> (\<forall>s. \<exists>x s'. m s = (Inr x, s'))"

lemma act_endsD: "act_ends P m Q \<Longrightarrow> P (db s) \<Longrightarrow> m s = (Inr x, s') \<Longrightarrow> Q (db s')"
  by (auto simp: act_ends_def)

lemma ends_return [ends]: "(\<And>d. P d \<Longrightarrow> Q d) \<Longrightarrow> act_ends P (act_return x) Q"
  by (simp add: act_ends_def)

lemma ends_raise [ends]: "act_ends P (act_raise e) Q"
  by (simp add: act_ends_def)

lemma ends_if [ends]: "(c \<Longrightarrow> act_ends P m Q) \<Longrightarrow> (\<not> c \<Longrightarrow> act_ends P m' Q) \<Longrightarrow> act_ends P (if c then m else m') Q"
  by simp

lemma ends_option [ends]: "(r = None \<Longrightarrow> act_ends P m Q) \<Longrightarrow> (\<And>x. r = Some x \<Longrightarrow> act_ends P (f x) Q) \<Longrightarrow>
    act_ends P (case r of None \<Rightarrow> m | Some x \<Rightarrow> f x) Q"
  by (cases r) simp_all

lemma ends_prod [ends]: "(\<And>x y. r = (x, y) \<Longrightarrow> act_ends P (f x y) Q) \<Longrightarrow> act_ends P (case r of (x, y) \<Rightarrow> f x y) Q"
  by (cases r) simp_all

text \<open>An action that returns something else about the same end, and one whose last step decides.\<close>

lemma ends_last: "(\<And>x. act_ends (\<lambda>_. True) (f x) Q) \<Longrightarrow> act_ends P (act_bind m f) Q"
  by (auto simp: act_ends_def act_bind_Inr)

lemma ends_then_last: "act_ends (\<lambda>_. True) m' Q \<Longrightarrow> act_ends P (act_then m m') Q"
  by (auto simp: act_ends_def act_then_Inr)

lemma ends_map: "act_ends P m Q \<Longrightarrow> act_ends P (act_bind m (\<lambda>x. act_return (g x))) Q"
  by (auto simp: act_ends_def act_bind_Inr)

lemma ends_then_return: "act_ends P m Q \<Longrightarrow> act_ends P (act_then m (act_return x)) Q"
  by (auto simp: act_ends_def act_then_Inr)

lemma ends_seq: "act_ends P m R \<Longrightarrow> act_ends R m' Q \<Longrightarrow> act_ends P (act_then m m') Q"
  by (auto simp: act_ends_def act_then_Inr)

lemma ends_pre: "act_ends R m Q \<Longrightarrow> (\<And>d. P d \<Longrightarrow> R d) \<Longrightarrow> act_ends P m Q"
  by (auto simp: act_ends_def)

lemma ends_bind: "act_ends P m R \<Longrightarrow> (\<And>x. act_ends R (f x) Q) \<Longrightarrow> act_ends P (act_bind m f) Q"
  unfolding act_ends_def act_bind_Inr by blast

lemma ends_ask: "(\<And>x. act_ends (\<lambda>d. P d \<and> f d = x) (k x) Q) \<Longrightarrow> act_ends P (act_bind (act_ask f) k) Q"
  by (auto simp: act_ends_def act_bind_Inr)

lemma ends_try: "act_ends P m Q \<Longrightarrow> (\<And>e. act_ends (\<lambda>_. True) (h e) Q) \<Longrightarrow> act_ends P (act_try caught m h) Q"
  by (auto simp: act_ends_def act_try_def split: prod.splits sum.splits if_splits)

lemma ends_write: "(\<And>d. P d \<Longrightarrow> Q (snd (f d))) \<Longrightarrow> act_ends P (act_write f) Q"
  by (auto simp: act_ends_def act_write_def)

lemma ends_weaken: "act_ends (\<lambda>_. True) m Q \<Longrightarrow> act_ends P m Q"
  by (auto simp: act_ends_def)

lemma totals_basic [totals]: "act_total (act_return x)" "act_total (act_ask f)" "act_total (act_get g)"
  "act_total (act_effect ef)" "act_total (act_write w)"
  by (auto simp: act_total_def act_get_def act_write_def)

lemma totals_bind [totals]: "act_total m \<Longrightarrow> (\<And>x. act_total (f x)) \<Longrightarrow> act_total (act_bind m f)"
  unfolding act_total_def by (metis act_bind_Inr)

lemma totals_then [totals]: "act_total m \<Longrightarrow> act_total m' \<Longrightarrow> act_total (act_then m m')"
  unfolding act_then_def by (rule totals_bind)

lemma totals_if [totals]: "(c \<Longrightarrow> act_total m) \<Longrightarrow> (\<not> c \<Longrightarrow> act_total m') \<Longrightarrow> act_total (if c then m else m')"
  by simp

lemma totals_when [totals]: "(c \<Longrightarrow> act_total m) \<Longrightarrow> act_total (act_when c m)"
  by (auto simp: act_when_def act_total_def)

lemma totals_try: "(\<And>e. act_total (h e)) \<Longrightarrow> act_total (act_try (\<lambda>_. True) m h)"
  by (auto simp: act_total_def act_try_def split: prod.splits sum.splits)

end
