(* ===== verification/Action_Invariants.thy ===== *)
theory Action_Invariants
  imports Actions
begin

text \<open>
  Invariants of actions on any state: what holds before holds after, in every outcome, exceptions
  included; and a count that grows by a bounded amount. Both compose along the code (\<open>act_rules\<close>).
\<close>

named_theorems act_rules "composition of contracts along actions"

definition stays :: "('s \<Rightarrow> bool) \<Rightarrow> ('s, 'e, 'a) action \<Rightarrow> bool" where
  "stays P m \<longleftrightarrow> (\<forall>s. P s \<longrightarrow> P (snd (m s)))"

lemma staysI: "(\<And>s. P s \<Longrightarrow> P (snd (m s))) \<Longrightarrow> stays P m"
  by (simp add: stays_def)

lemma staysD: "stays P m \<Longrightarrow> m s = (r, s') \<Longrightarrow> P s \<Longrightarrow> P s'"
  by (metis stays_def snd_conv)

lemma stays_pure [act_rules]: "stays P (act_return x)" "stays P (act_raise e)" "stays P (act_get f)"
  by (simp_all add: stays_def)

lemma stays_bind [act_rules]: "stays P m \<Longrightarrow> (\<And>x. stays P (f x)) \<Longrightarrow> stays P (act_bind m f)"
  by (rule staysI) (auto simp: act_bind_def stays_def dest: staysD split: prod.splits sum.splits)

lemma stays_then [act_rules]: "stays P m \<Longrightarrow> stays P m' \<Longrightarrow> stays P (act_then m m')"
  unfolding act_then_def by (rule stays_bind)

lemma stays_try [act_rules]: "stays P m \<Longrightarrow> (\<And>e. stays P (h e)) \<Longrightarrow> stays P (act_try c m h)"
  by (rule staysI) (auto simp: act_try_def stays_def dest: staysD split: prod.splits sum.splits)

lemma stays_finally [act_rules]: "stays P m \<Longrightarrow> stays P h \<Longrightarrow> stays P (act_finally m h)"
  by (rule staysI) (auto simp: act_finally_def dest!: staysD split: prod.splits sum.splits)

lemma stays_each [act_rules]: "(\<And>x. stays P (f x)) \<Longrightarrow> stays P (act_each f xs)"
  by (induction xs) (simp_all add: stays_pure stays_bind)

lemma stays_when [act_rules]: "stays P m \<Longrightarrow> stays P (act_when c m)"
  by (simp add: act_when_def stays_pure)

lemma stays_if [act_rules]: "(c \<Longrightarrow> stays P m) \<Longrightarrow> (\<not> c \<Longrightarrow> stays P m') \<Longrightarrow> stays P (if c then m else m')"
  by simp

lemma stays_cases [act_rules]:
  "stays P m \<Longrightarrow> (\<And>x. stays P (f x)) \<Longrightarrow> stays P (case r of None \<Rightarrow> m | Some x \<Rightarrow> f x)"
  "(\<And>x. stays P (f1 x)) \<Longrightarrow> (\<And>x. stays P (f2 x)) \<Longrightarrow> stays P (case q of Inl x \<Rightarrow> f1 x | Inr x \<Rightarrow> f2 x)"
  "(\<And>x y. stays P (g x y)) \<Longrightarrow> stays P (case p of (x, y) \<Rightarrow> g x y)"
  by (simp_all split: option.splits sum.splits prod.splits)

section \<open>Bounded growth\<close>

definition grows :: "('s \<Rightarrow> nat) \<Rightarrow> nat \<Rightarrow> ('s, 'e, 'a) action \<Rightarrow> bool" where
  "grows f n m \<longleftrightarrow> (\<forall>s. f (snd (m s)) \<le> f s + n)"

lemma growsD: "grows f n m \<Longrightarrow> m s = (r, s') \<Longrightarrow> f s' \<le> f s + n"
  by (metis grows_def snd_conv)

lemma grows_mono: "grows f n m \<Longrightarrow> n \<le> k \<Longrightarrow> grows f k m"
  unfolding grows_def by (meson add_left_mono order_trans)

lemma grows_pure: "grows f n (act_return x)" "grows f n (act_raise e)" "grows f n (act_get g)"
  by (simp_all add: grows_def)

lemma growsI: "(\<And>s r s'. m s = (r, s') \<Longrightarrow> f s' \<le> f s + n) \<Longrightarrow> grows f n m"
  by (simp add: grows_def) (metis surjective_pairing)

lemma grows_bind:
  assumes "grows f n m" and "\<And>x. grows f k (g x)"
  shows "grows f (n + k) (act_bind m g)"
proof (rule growsI)
  fix s q s' assume run: "act_bind m g s = (q, s')"
  obtain r t where r: "m s = (r, t)" by fastforce
  with assms(1) have t: "f t \<le> f s + n" by (rule growsD)
  show "f s' \<le> f s + (n + k)"
  proof (cases r)
    case (Inr x)
    then have "g x t = (q, s')" using run r by (simp add: act_bind_def)
    with assms(2) have "f s' \<le> f t + k" by (rule growsD)
    with t show ?thesis by simp
  qed (use run r t in \<open>simp add: act_bind_def\<close>)
qed

lemma grows_then: "grows f n m \<Longrightarrow> grows f k m' \<Longrightarrow> grows f (n + k) (act_then m m')"
  unfolding act_then_def by (rule grows_bind)

lemma grows_try:
  assumes "grows f n m" and "\<And>e. grows f k (h e)"
  shows "grows f (n + k) (act_try c m h)"
proof (rule growsI)
  fix s q s' assume run: "act_try c m h s = (q, s')"
  obtain r t where r: "m s = (r, t)" by fastforce
  with assms(1) have t: "f t \<le> f s + n" by (rule growsD)
  consider e where "r = Inl e" "c e" | "s' = t" using run r by (cases r) (auto simp: act_try_def split: if_splits)
  then show "f s' \<le> f s + (n + k)"
  proof cases
    case (1 e)
    then have "h e t = (q, s')" using run r by (simp add: act_try_def)
    with assms(2) have "f s' \<le> f t + k" by (rule growsD)
    with t show ?thesis by simp
  qed (use t in simp)
qed

lemma grows_finally:
  assumes "grows f n m" and "grows f k h"
  shows "grows f (n + k) (act_finally m h)"
proof (rule growsI)
  fix s q s' assume run: "act_finally m h s = (q, s')"
  obtain r t where r: "m s = (r, t)" by fastforce
  obtain p u where p: "h t = (p, u)" by fastforce
  have "s' = u" using run r p by (cases p) (auto simp: act_finally_def)
  with growsD [OF assms(1) r] growsD [OF assms(2) p] show "f s' \<le> f s + (n + k)" by simp
qed

lemma grows_each: "(\<And>x. grows f 0 (g x)) \<Longrightarrow> grows f 0 (act_each g xs)"
  by (induction xs) (auto intro!: grows_pure grows_bind [where n = 0 and k = 0, simplified])

lemma grows_when: "grows f n m \<Longrightarrow> grows f n (act_when c m)"
  by (simp add: act_when_def grows_pure)

lemma grows_if: "grows f n m \<Longrightarrow> grows f n m' \<Longrightarrow> grows f n (if c then m else m')"
  by simp

lemma grows_cases:
  "grows f n m \<Longrightarrow> (\<And>x. grows f n (g x)) \<Longrightarrow> grows f n (case r of None \<Rightarrow> m | Some x \<Rightarrow> g x)"
  "(\<And>x. grows f n (g1 x)) \<Longrightarrow> (\<And>x. grows f n (g2 x)) \<Longrightarrow> grows f n (case q of Inl x \<Rightarrow> g1 x | Inr x \<Rightarrow> g2 x)"
  "(\<And>x y. grows f n (h x y)) \<Longrightarrow> grows f n (case p of (x, y) \<Rightarrow> h x y)"
  by (simp_all split: option.splits sum.splits prod.splits)

lemmas grows_zero = grows_if grows_cases grows_bind [where n = 0 and k = 0, simplified] grows_then [where n = 0 and k = 0, simplified]
  grows_try [where n = 0 and k = 0, simplified] grows_finally [where n = 0 and k = 0, simplified] grows_each grows_when grows_pure

end
