(* ===== verification/Json_Text.thy ===== *)
theory Json_Text
  imports Task_Repository "HOL-Library.AList"
begin

text \<open>
  The texts of Python's \<open>json\<close> module and of \<open>str\<close> on JSON values, as the workflow code uses them:
  \<open>json.dumps (.., ensure_ascii=False)\<close>, \<open>json.loads\<close> and \<open>str(value)\<close>. The digits of a finite float
  (\<open>repr\<close>, the shortest that read back) and the character U+2026, which lies above the 8-bit
  characters of \<open>pystr\<close>, are fields of the record \<open>PyText\<close>. An escape that denotes a character above
  U+00FF has no value here and is read as an error; nesting is not bounded by the interpreter's
  recursion limit.
\<close>

record PyText =
  py_float_text :: "json \<Rightarrow> pystr"
  py_ellipsis :: char

section \<open>Writing\<close>

definition quote :: char where "quote = CHR 0x22"
definition backslash :: char where "backslash = CHR 0x5C"

definition hex_digit :: "nat \<Rightarrow> char" where
  "hex_digit n = (if n < 10 then char_of (48 + n) else char_of (87 + n))"

definition short_escapes :: "(nat \<times> char) list" where
  "short_escapes = [(34, quote), (92, backslash), (8, CHR ''b''), (12, CHR ''f''), (10, CHR ''n''),
     (13, CHR ''r''), (9, CHR ''t'')]"

definition escape_char :: "char \<Rightarrow> pystr" where
  "escape_char c = (let n = of_char c :: nat in
     case map_of short_escapes n of
       Some e \<Rightarrow> [backslash, e]
     | None \<Rightarrow> if n < 32 then [backslash, CHR ''u'', CHR ''0'', CHR ''0'', hex_digit (n div 16), hex_digit (n mod 16)]
         else [c])"

definition json_string :: "pystr \<Rightarrow> pystr" where
  "json_string s = quote # concat (map escape_char s) @ [quote]"

fun json_dumps :: "PyText \<Rightarrow> json \<Rightarrow> pystr"
  and dumps_items :: "PyText \<Rightarrow> json list \<Rightarrow> pystr"
  and dumps_fields :: "PyText \<Rightarrow> (pystr \<times> json) list \<Rightarrow> pystr" where
  "json_dumps py JNull = ''null''"
| "json_dumps py (JBool b) = (if b then ''true'' else ''false'')"
| "json_dumps py (JInt i) = show_int i"
| "json_dumps py (JFloat r) = py_float_text py (JFloat r)"
| "json_dumps py JNonFinite = py_float_text py JNonFinite"
| "json_dumps py (JStr s) = json_string s"
| "json_dumps py (JList xs) = CHR ''['' # dumps_items py xs @ '']''"
| "json_dumps py (JObj kvs) = CHR ''{'' # dumps_fields py kvs @ ''}''"
| "dumps_items py [] = []"
| "dumps_items py [x] = json_dumps py x"
| "dumps_items py (x # y # xs) = json_dumps py x @ '', '' @ dumps_items py (y # xs)"
| "dumps_fields py [] = []"
| "dumps_fields py [(k, v)] = json_string k @ '': '' @ json_dumps py v"
| "dumps_fields py ((k, v) # kv # kvs) = json_string k @ '': '' @ json_dumps py v @ '', '' @ dumps_fields py (kv # kvs)"

section \<open>Reading\<close>

definition json_ws :: "char \<Rightarrow> bool" where
  "json_ws c \<longleftrightarrow> c \<in> {CHR '' '', CHR 0x09, CHR 0x0A, CHR 0x0D}"

definition skip_ws :: "pystr \<Rightarrow> pystr" where
  "skip_ws s = dropWhile json_ws s"

definition is_digit :: "char \<Rightarrow> bool" where
  "is_digit c = (let n = of_char c :: nat in 48 \<le> n \<and> n \<le> 57)"

definition hex_value :: "char \<Rightarrow> nat option" where
  "hex_value c = (let n = of_char c :: nat in
     if 48 \<le> n \<and> n \<le> 57 then Some (n - 48)
     else if 97 \<le> n \<and> n \<le> 102 then Some (n - 87)
     else if 65 \<le> n \<and> n \<le> 70 then Some (n - 55)
     else None)"

definition hex4 :: "char \<Rightarrow> char \<Rightarrow> char \<Rightarrow> char \<Rightarrow> nat option" where
  "hex4 a b c d = (case (hex_value a, hex_value b, hex_value c, hex_value d) of
     (Some w, Some x, Some y, Some z) \<Rightarrow> Some (((w * 16 + x) * 16 + y) * 16 + z) | _ \<Rightarrow> None)"

definition unescape :: "char \<Rightarrow> char option" where
  "unescape e = (if e = CHR ''/'' then Some e
     else map_option char_of (map_of (map (\<lambda>(n, c). (c, n)) short_escapes) e))"

text \<open>The rest of a string after its opening quote, and the text behind the closing quote.\<close>

fun scan_string :: "pystr \<Rightarrow> (pystr \<times> pystr) option" where
  "scan_string [] = None"
| "scan_string [c] = (if c = quote then Some ([], []) else None)"
| "scan_string (c # e # cs) =
     (if c = quote then Some ([], e # cs)
      else if c = backslash then
        (if e = CHR ''u'' then
           (case cs of a # b # x # y # r \<Rightarrow>
               (case hex4 a b x y of
                  Some n \<Rightarrow> if n < 256 then map_option (\<lambda>(t, q). (char_of n # t, q)) (scan_string r) else None
                | None \<Rightarrow> None)
            | _ \<Rightarrow> None)
         else case unescape e of
             Some d \<Rightarrow> map_option (\<lambda>(t, q). (d # t, q)) (scan_string cs)
           | None \<Rightarrow> None)
      else if (of_char c :: nat) < 32 then None
      else map_option (\<lambda>(t, q). (c # t, q)) (scan_string (e # cs)))"

definition digits_value :: "pystr \<Rightarrow> nat" where
  "digits_value ds = foldl (\<lambda>n d. 10 * n + (of_char d - 48)) 0 ds"

text \<open>The limits of a double: what rounds to an infinity, and what rounds to zero.\<close>

definition float_json :: "rat \<Rightarrow> json" where
  "float_json r = (if \<bar>r\<bar> \<ge> 2 ^ 1024 - 2 ^ 970 then JNonFinite
     else if \<bar>r\<bar> * 2 ^ 1075 \<le> 1 then JFloat 0 else JFloat r)"

definition scan_fraction :: "pystr \<Rightarrow> pystr \<times> pystr" where
  "scan_fraction s = (case s of
     c # cs \<Rightarrow> if c = CHR ''.'' \<and> takeWhile is_digit cs \<noteq> [] then (takeWhile is_digit cs, dropWhile is_digit cs) else ([], s)
   | [] \<Rightarrow> ([], s))"

definition scan_exponent :: "pystr \<Rightarrow> int option \<times> pystr" where
  "scan_exponent s = (case s of
     c # cs \<Rightarrow>
       if c \<in> {CHR ''e'', CHR ''E''} then
         (let (neg, ds) = (case cs of d # r \<Rightarrow> if d = CHR ''-'' then (True, r) else if d = CHR ''+'' then (False, r) else (False, cs)
              | [] \<Rightarrow> (False, cs)) in
          if takeWhile is_digit ds = [] then (None, s)
          else (Some (if neg then - int (digits_value (takeWhile is_digit ds)) else int (digits_value (takeWhile is_digit ds))),
                dropWhile is_digit ds))
       else (None, s)
   | [] \<Rightarrow> (None, s))"

definition int_digits :: "pystr \<Rightarrow> pystr" where
  "int_digits s = (case s of [] \<Rightarrow> [] | c # cs \<Rightarrow> if c = CHR ''0'' then ''0'' else takeWhile is_digit s)"

definition scan_number :: "pystr \<Rightarrow> (json \<times> pystr) option" where
  "scan_number s =
     (let neg = (s \<noteq> [] \<and> hd s = CHR ''-''); body = (if neg then tl s else s); ds = int_digits body in
      if ds = [] then None
      else (let (fraction, r1) = scan_fraction (drop (length ds) body); (exponent, r2) = scan_exponent r1;
                sign = (if neg then -1 else 1) in
        if fraction = [] \<and> exponent = None then Some (JInt (sign * int (digits_value ds)), r2)
        else Some (float_json (of_int (sign * int (digits_value (ds @ fraction))) / 10 ^ length fraction *
               (case exponent of None \<Rightarrow> 1 | Some e \<Rightarrow> if e \<ge> 0 then 10 ^ nat e else 1 / 10 ^ nat (- e))), r2)))"

text \<open>A later value of a key replaces the earlier one, in its place.\<close>

definition dict_of :: "(pystr \<times> json) list \<Rightarrow> (pystr \<times> json) list" where
  "dict_of kvs = foldl (\<lambda>d (k, v). AList.update k v d) [] kvs"

definition json_word :: "pystr \<Rightarrow> (json \<times> pystr) option" where
  "json_word s = map_option (\<lambda>(w, v). (v, drop (length w) s)) (find (\<lambda>(w, v). prefix w s)
     [(''null'', JNull), (''true'', JBool True), (''false'', JBool False), (''NaN'', JNonFinite),
      (''Infinity'', JNonFinite), (''-Infinity'', JNonFinite)])"

text \<open>
  The scanner of \<open>json.loads\<close>, with fuel: twice the length of the text and one is enough
  (\<open>parse_fuel\<close>).
\<close>

fun parse_value :: "nat \<Rightarrow> pystr \<Rightarrow> (json \<times> pystr) option"
  and parse_items :: "nat \<Rightarrow> pystr \<Rightarrow> (json list \<times> pystr) option"
  and parse_fields :: "nat \<Rightarrow> pystr \<Rightarrow> ((pystr \<times> json) list \<times> pystr) option" where
  "parse_value 0 s = None"
| "parse_value (Suc n) [] = None"
| "parse_value (Suc n) (c # cs) =
     (if c = quote then map_option (\<lambda>(t, r). (JStr t, r)) (scan_string cs)
      else if c = CHR ''{'' then
        (if skip_ws cs \<noteq> [] \<and> hd (skip_ws cs) = CHR ''}'' then Some (JObj [], tl (skip_ws cs))
         else map_option (\<lambda>(kvs, r). (JObj (dict_of kvs), r)) (parse_fields n (skip_ws cs)))
      else if c = CHR ''['' then
        (if skip_ws cs \<noteq> [] \<and> hd (skip_ws cs) = CHR '']'' then Some (JList [], tl (skip_ws cs))
         else map_option (\<lambda>(vs, r). (JList vs, r)) (parse_items n (skip_ws cs)))
      else case json_word (c # cs) of Some found \<Rightarrow> Some found | None \<Rightarrow> scan_number (c # cs))"
| "parse_items 0 s = None"
| "parse_items (Suc n) s =
     (case parse_value n s of
        None \<Rightarrow> None
      | Some (v, r) \<Rightarrow>
          (case skip_ws r of
             [] \<Rightarrow> None
           | c # r' \<Rightarrow>
               if c = CHR '']'' then Some ([v], r')
               else if c = CHR '','' then map_option (\<lambda>(vs, q). (v # vs, q)) (parse_items n (skip_ws r'))
               else None))"
| "parse_fields 0 s = None"
| "parse_fields (Suc n) [] = None"
| "parse_fields (Suc n) (c # cs) =
     (if c \<noteq> quote then None
      else case scan_string cs of
        None \<Rightarrow> None
      | Some (k, r) \<Rightarrow>
          (case skip_ws r of
             [] \<Rightarrow> None
           | d # r1 \<Rightarrow>
               if d \<noteq> CHR '':'' then None
               else case parse_value n (skip_ws r1) of
                 None \<Rightarrow> None
               | Some (v, r2) \<Rightarrow>
                   (case skip_ws r2 of
                      [] \<Rightarrow> None
                    | e # r3 \<Rightarrow>
                        if e = CHR ''}'' then Some ([(k, v)], r3)
                        else if e = CHR '','' then map_option (\<lambda>(kvs, q). ((k, v) # kvs, q)) (parse_fields n (skip_ws r3))
                        else None)))"

definition json_loads :: "pystr \<Rightarrow> json option" where
  "json_loads s = (case parse_value (2 * length s + 1) (skip_ws s) of
     Some (v, r) \<Rightarrow> if skip_ws r = [] then Some v else None
   | None \<Rightarrow> None)"


section \<open>The fuel is enough\<close>

lemma scan_string_shorter: "scan_string s = Some (t, r) \<Longrightarrow> length r < length s"
  by (induction s arbitrary: t r rule: scan_string.induct) (fastforce split: if_splits list.splits option.splits)+

lemma length_skip_ws: "length (skip_ws s) \<le> length s"
  by (simp add: skip_ws_def length_dropWhile_le)

lemma skip_ws_Cons_length: "skip_ws s = c # r \<Longrightarrow> length r < length s"
  using length_skip_ws [of s] by simp

lemma json_word_shorter: "json_word s = Some (v, r) \<Longrightarrow> length r < length s"
  by (auto simp: json_word_def prefix_def split: if_splits)

lemma scan_fraction_length: "scan_fraction s = (f, r) \<Longrightarrow> length r \<le> length s"
  using length_dropWhile_le [of is_digit "tl s"]
  by (auto simp: scan_fraction_def split: list.splits if_splits)

lemma scan_exponent_length: "scan_exponent s = (e, r) \<Longrightarrow> length r \<le> length s"
  by (auto simp: scan_exponent_def Let_def split: list.splits if_splits
      dest!: arg_cong [where f = length] intro: order_trans [OF length_dropWhile_le] le_SucI)

lemma scan_number_shorter: "scan_number s = Some (v, r) \<Longrightarrow> length r < length s"
proof -
  assume a: "scan_number s = Some (v, r)"
  define body where "body = (if s \<noteq> [] \<and> hd s = CHR ''-'' then tl s else s)"
  define ds where "ds = int_digits body"
  obtain f r1 where f: "scan_fraction (drop (length ds) body) = (f, r1)" by fastforce
  obtain e r2 where e: "scan_exponent r1 = (e, r2)" by fastforce
  from a have "ds \<noteq> []" "r = r2"
    by (auto simp: scan_number_def Let_def body_def [symmetric] ds_def [symmetric] f e split: if_splits)
  moreover have "body \<noteq> []" using \<open>ds \<noteq> []\<close> by (auto simp: ds_def int_digits_def)
  moreover have "length body \<le> length s" by (simp add: body_def)
  ultimately show ?thesis using scan_fraction_length [OF f] scan_exponent_length [OF e]
    by (cases ds; cases body) auto
qed


lemma parse_shorter:
  "parse_value n s = Some (v, r) \<Longrightarrow> length r < length s"
  "parse_items n s = Some (vs, r) \<Longrightarrow> length r < length s"
  "parse_fields n s = Some (kvs, r) \<Longrightarrow> length r < length s"
proof (induction n s and n s and n s arbitrary: v r and vs r and kvs r rule: parse_value_parse_items_parse_fields.induct)
  case (3 n c cs)
  have ws: "length (skip_ws cs) \<le> length cs" by (rule length_skip_ws)
  from 3 ws show ?case
    by (fastforce split: if_splits option.splits dest: scan_string_shorter json_word_shorter scan_number_shorter)
next
  case (5 n s)
  then show ?case
    by (fastforce split: if_splits option.splits list.splits dest!: skip_ws_Cons_length
        dest: order.strict_trans2 [OF _ length_skip_ws])
next
  case (8 n c cs)
  then show ?case
    by (fastforce split: if_splits option.splits list.splits dest!: skip_ws_Cons_length scan_string_shorter
        dest: order.strict_trans2 [OF _ length_skip_ws])
qed auto


lemma ws_rest: "parse_value n s = Some (v, r) \<Longrightarrow> skip_ws r = c # r' \<Longrightarrow> length (skip_ws r') + 2 \<le> length s"
  using parse_shorter(1) [of n s v r] skip_ws_Cons_length [of r c r'] length_skip_ws [of r'] by simp

text \<open>Any fuel from the bound on gives the same result.\<close>

lemma parse_fuel:
  "2 * length s + 1 \<le> n \<Longrightarrow> 2 * length s + 1 \<le> m \<Longrightarrow> parse_value n s = parse_value m s"
  "2 * length s + 2 \<le> n \<Longrightarrow> 2 * length s + 2 \<le> m \<Longrightarrow> parse_items n s = parse_items m s"
  "2 * length s + 1 \<le> n \<Longrightarrow> 2 * length s + 1 \<le> m \<Longrightarrow> parse_fields n s = parse_fields m s"
proof (induction n s and n s and n s arbitrary: m and m and m rule: parse_value_parse_items_parse_fields.induct)
  case (2 n)
  show ?case using "2.prems" by (cases m) auto
next
  case (3 n c cs)
  from "3.prems" obtain k where m: "m = Suc k" by (cases m) auto
  have "length (skip_ws cs) \<le> length cs" by (rule length_skip_ws)
  with "3.prems" m have b: "2 * length (skip_ws cs) + 2 \<le> n" "2 * length (skip_ws cs) + 2 \<le> k"
    "2 * length (skip_ws cs) + 1 \<le> n" "2 * length (skip_ws cs) + 1 \<le> k" by auto
  show ?case
    unfolding m parse_value.simps
    by (intro if_cong refl arg_cong [where f = "map_option _"] "3.IH" b; assumption)
next
  case (5 n s)
  from "5.prems" obtain k where m: "m = Suc k" by (cases m) auto
  with "5.prems" have b: "2 * length s + 1 \<le> n" "2 * length s + 1 \<le> k" by auto
  have v: "parse_value n s = parse_value k s" using "5.IH"(1) [OF b] .
  show ?case
  proof (cases "parse_value n s")
    case (Some a)
    obtain v r where a: "a = (v, r)" by fastforce
    have "parse_items n (skip_ws r') = parse_items k (skip_ws r')" if "skip_ws r = CHR '','' # r'" for r'
      using ws_rest [OF Some [unfolded a] that] b by (intro "5.IH"(2) [OF Some a [symmetric] that]) simp_all
    with Some v a m show ?thesis by (auto split: list.splits)
  qed (simp add: m v [symmetric])
next
  case (7 n)
  show ?case using "7.prems" by (cases m) auto
next
  case (8 n c cs)
  from "8.prems" obtain k where m: "m = Suc k" by (cases m) auto
  with "8.prems" have b: "2 * length cs + 2 \<le> n" "2 * length cs + 2 \<le> k" by auto
  show ?case
  proof (cases "c = quote")
    case True
    show ?thesis
    proof (cases "scan_string cs")
      case (Some a)
      obtain key r where a: "a = (key, r)" by fastforce
      show ?thesis
      proof (cases "skip_ws r")
        case (Cons d r1)
        have l1: "length (skip_ws r1) + 2 \<le> length cs"
          using scan_string_shorter [OF Some [unfolded a]] skip_ws_Cons_length [OF Cons] length_skip_ws [of r1] by simp
        show ?thesis
        proof (cases "d = CHR '':''")
          case True
          note d = True
          have v: "parse_value n (skip_ws r1) = parse_value k (skip_ws r1)"
            using \<open>c = quote\<close> d l1 b by (intro "8.IH"(1) [OF _ Some a [symmetric] Cons]) simp_all
          show ?thesis
          proof (cases "parse_value n (skip_ws r1)")
            case None
            with v show ?thesis using \<open>c = quote\<close> Some a Cons d by (simp add: m)
          next
            case v2: (Some z)
            obtain w r2 where z: "z = (w, r2)" by fastforce
            have f: "parse_fields n (skip_ws r3) = parse_fields k (skip_ws r3)" if "skip_ws r2 = CHR '','' # r3" for r3
              using \<open>c = quote\<close> d ws_rest [OF v2 [unfolded z] that] l1 b
              by (intro "8.IH"(2) [OF _ Some a [symmetric] Cons _ v2 z [symmetric] that]) simp_all
            show ?thesis using \<open>c = quote\<close>
              by (cases "skip_ws r2") (simp_all add: m Some a Cons d v [symmetric] v2 z f)
          qed
        qed (use \<open>c = quote\<close> Some a Cons in \<open>simp add: m\<close>)
      qed (use \<open>c = quote\<close> Some a in \<open>simp add: m\<close>)
    qed (use \<open>c = quote\<close> in \<open>simp add: m\<close>)
  qed (simp add: m)
qed auto


section \<open>Strings and numbers read back\<close>

lemma hex_roundtrip: "n < 16 \<Longrightarrow> hex_value (hex_digit n) = Some n"
  by (auto simp: hex_digit_def hex_value_def Let_def)

lemma escape_control: "n < 32 \<Longrightarrow> hex4 (CHR ''0'') (CHR ''0'') (hex_digit (n div 16)) (hex_digit (n mod 16)) = Some n"
  using hex_roundtrip [of "n div 16"] hex_roundtrip [of "n mod 16"] by (simp add: hex4_def hex_value_def [of "CHR ''0''"])

lemma unescape_short: "map_of short_escapes n = Some e \<Longrightarrow> e \<noteq> CHR ''u'' \<and> unescape e = Some (char_of n)"
  by (auto simp: short_escapes_def unescape_def quote_def backslash_def split: if_splits)

lemma scan_escape: "scan_string (escape_char c @ s) = map_option (\<lambda>(t, q). (c # t, q)) (scan_string s)"
proof -
  define n where "n = (of_char c :: nat)"
  have c: "c = char_of n" by (simp add: n_def)
  show ?thesis
  proof (cases "map_of short_escapes n")
    case (Some e)
    then show ?thesis
      using unescape_short [OF Some] by (simp add: escape_char_def n_def [symmetric] c [symmetric] backslash_def quote_def)
  next
    case None
    then have plain: "c \<noteq> quote" "c \<noteq> backslash" by (auto simp: short_escapes_def n_def quote_def backslash_def split: if_splits)
    show ?thesis
    proof (cases "n < 32")
      case True
      then show ?thesis using None True escape_control [OF True]
        by (simp add: escape_char_def n_def [symmetric] c [symmetric] backslash_def quote_def)
    next
      case False
      then show ?thesis using None plain
        by (cases s) (simp_all add: escape_char_def n_def [symmetric] c [symmetric])
    qed
  qed
qed

lemma scan_json_string: "scan_string (concat (map escape_char s) @ quote # r) = Some (s, r)"
proof (induction s)
  case Nil
  show ?case by (cases r) simp_all
qed (simp add: scan_escape)


lemma show_nat_digits: "show_nat n \<noteq> [] \<and> list_all is_digit (show_nat n) \<and> digits_value (show_nat n) = n \<and>
    (n > 0 \<longrightarrow> hd (show_nat n) \<noteq> CHR ''0'')"
proof (induction n rule: show_nat.induct)
  case (1 n)
  show ?case
  proof (cases "n < 10")
    case True
    then have "n = 0 \<or> n = 1 \<or> n = 2 \<or> n = 3 \<or> n = 4 \<or> n = 5 \<or> n = 6 \<or> n = 7 \<or> n = 8 \<or> n = 9" by auto
    with True show ?thesis by (auto simp: show_nat.simps [of n] is_digit_def digits_value_def char_of_eq_iff)
  next
    case False
    have s: "show_nat n = show_nat (n div 10) @ [char_of (48 + n mod 10)]" using False by (simp add: show_nat.simps [of n])
    have d: "(of_char (char_of (48 + n mod 10) :: char) :: nat) = 48 + n mod 10" by simp
    have "is_digit (char_of (48 + n mod 10))" unfolding is_digit_def Let_def d by auto
    moreover have "n div 10 > 0" using False by auto
    ultimately show ?thesis using "1.IH" [OF False] unfolding s by (simp add: digits_value_def d)
  qed
qed

definition number_end :: "pystr \<Rightarrow> bool" where
  "number_end s \<longleftrightarrow> s = [] \<or> \<not> is_digit (hd s) \<and> hd s \<notin> {CHR ''.'', CHR ''e'', CHR ''E''}"

lemma zero_digit: "char_of (48 :: nat) = CHR ''0''"
  by (simp add: char_of_eq_iff)

lemma int_digits_show: "number_end r \<Longrightarrow> int_digits (show_nat n @ r) = show_nat n"
proof (cases "n = 0")
  case False
  assume r: "number_end r"
  have n: "show_nat n \<noteq> []" "list_all is_digit (show_nat n)" "hd (show_nat n) \<noteq> CHR ''0''"
    using show_nat_digits [of n] False by auto
  have "takeWhile is_digit r = []" using r by (cases r) (auto simp: number_end_def)
  then have "takeWhile is_digit (show_nat n @ r) = show_nat n" using n(2) by (simp add: takeWhile_append list_all_iff)
  with n(1,3) show ?thesis by (cases "show_nat n") (simp_all add: int_digits_def)
qed (simp add: show_nat.simps [of 0] int_digits_def zero_digit)

lemma scan_tail: "number_end r \<Longrightarrow> scan_fraction r = ([], r) \<and> scan_exponent r = (None, r)"
  by (cases r) (auto simp: number_end_def scan_fraction_def scan_exponent_def)

lemma scan_show_int: "number_end r \<Longrightarrow> scan_number (show_int i @ r) = Some (JInt i, r)"
proof -
  assume r: "number_end r"
  define m where "m = nat \<bar>i\<bar>"
  have ds: "int_digits (show_nat m @ r) = show_nat m" "show_nat m \<noteq> []" "digits_value (show_nat m) = m"
    using int_digits_show [OF r] show_nat_digits by auto
  have "is_digit (hd (show_nat m))" using ds(2) show_nat_digits [of m] by (cases "show_nat m") auto
  then have "hd (show_nat m) \<noteq> CHR ''-''" by (auto simp: is_digit_def)
  with ds scan_tail [OF r] show ?thesis
    by (cases "i < 0") (auto simp: scan_number_def show_int_def Let_def m_def [symmetric] m_def hd_append)
qed


section \<open>Reading back what was written\<close>

text \<open>No float (their digits are the interpreter's), and the keys of an object differ.\<close>

fun json_plain :: "json \<Rightarrow> bool" and plain_items :: "json list \<Rightarrow> bool" and plain_fields :: "(pystr \<times> json) list \<Rightarrow> bool" where
  "json_plain (JFloat r) = False"
| "json_plain JNonFinite = False"
| "json_plain (JList xs) = plain_items xs"
| "json_plain (JObj kvs) = (plain_fields kvs \<and> distinct (map fst kvs))"
| "json_plain v = True"
| "plain_items [] = True"
| "plain_items (x # xs) = (json_plain x \<and> plain_items xs)"
| "plain_fields [] = True"
| "plain_fields ((k, v) # kvs) = (json_plain v \<and> plain_fields kvs)"

text \<open>
  Floats are written as \<open>repr\<close> does, whose digits are a parameter: a value is read back when the
  text of each float in it is.
\<close>

definition float_reads :: "PyText \<Rightarrow> json \<Rightarrow> bool" where
  "float_reads py v \<longleftrightarrow> (\<exists>c cs. py_float_text py v = c # cs \<and> \<not> json_ws c \<and> c \<noteq> CHR '']'') \<and>
     (\<forall>n r. number_end r \<longrightarrow> parse_value (Suc n) (py_float_text py v @ r) = Some (v, r))"

fun json_ok :: "PyText \<Rightarrow> json \<Rightarrow> bool" and items_ok :: "PyText \<Rightarrow> json list \<Rightarrow> bool"
  and fields_ok :: "PyText \<Rightarrow> (pystr \<times> json) list \<Rightarrow> bool" where
  "json_ok py (JFloat r) = float_reads py (JFloat r)"
| "json_ok py JNonFinite = float_reads py JNonFinite"
| "json_ok py (JList xs) = items_ok py xs"
| "json_ok py (JObj kvs) = (fields_ok py kvs \<and> distinct (map fst kvs))"
| "json_ok py v = True"
| "items_ok py [] = True"
| "items_ok py (x # xs) = (json_ok py x \<and> items_ok py xs)"
| "fields_ok py [] = True"
| "fields_ok py ((k, v) # kvs) = (json_ok py v \<and> fields_ok py kvs)"

lemma plain_ok: "json_plain v \<Longrightarrow> json_ok py v" "plain_items xs \<Longrightarrow> items_ok py xs"
  "plain_fields kvs \<Longrightarrow> fields_ok py kvs"
  by (induction v and xs and kvs rule: json_plain_plain_items_plain_fields.induct) auto

lemma dict_of_distinct: "distinct (map fst kvs) \<Longrightarrow> dict_of kvs = kvs"
proof -
  have up: "AList.update k v d = d @ [(k, v)]" if "k \<notin> fst ` set d" for k v and d :: "(pystr \<times> json) list"
    using that by (induction d) auto
  have "foldl (\<lambda>d (k, v). AList.update k v d) d kvs = d @ kvs"
    if "distinct (map fst (d @ kvs))" for d
    using that by (induction kvs arbitrary: d) (auto simp: up)
  from this [of "[]"] show "distinct (map fst kvs) \<Longrightarrow> dict_of kvs = kvs" by (simp add: dict_of_def)
qed

lemma show_int_head: "\<exists>c cs. show_int i = c # cs \<and> (is_digit c \<or> c = CHR ''-'' \<and> cs \<noteq> [] \<and> is_digit (hd cs))"
  using show_nat_digits [of "nat i"] show_nat_digits [of "nat (- i)"]
  by (cases "show_nat (nat i)"; cases "show_nat (nat (- i))") (auto simp: show_int_def)

lemma dumps_head: "json_ok py v \<Longrightarrow> \<exists>c cs. json_dumps py v = c # cs \<and> \<not> json_ws c \<and> c \<noteq> CHR '']''"
  using show_int_head
  by (cases v) (fastforce simp: json_ws_def json_string_def quote_def is_digit_def float_reads_def)+

lemma skip_ws_dumps: "json_ok py v \<Longrightarrow> skip_ws (json_dumps py v @ r) = json_dumps py v @ r"
  using dumps_head [of py v] by (auto simp: skip_ws_def)

lemma skip_ws_Cons [simp]: "\<not> json_ws c \<Longrightarrow> skip_ws (c # r) = c # r"
  by (simp add: skip_ws_def)

lemma skip_ws_blank [simp]: "skip_ws (CHR '' '' # r) = skip_ws r"
  by (simp add: skip_ws_def json_ws_def)

lemma marks [simp]: "\<not> json_ws (CHR '','')" "\<not> json_ws (CHR '']'')" "\<not> json_ws (CHR ''}'')" "\<not> json_ws (CHR '':'')" "\<not> json_ws quote"
  by (simp_all add: json_ws_def quote_def)

lemma dumps_items_Cons: "dumps_items py (x # xs) = json_dumps py x @ (if xs = [] then [] else '', '' @ dumps_items py xs)"
  by (cases xs) simp_all

lemma dumps_fields_Cons: "dumps_fields py ((k, v) # kvs) =
    json_string k @ '': '' @ json_dumps py v @ (if kvs = [] then [] else '', '' @ dumps_fields py kvs)"
  by (cases kvs) simp_all


lemma number_end_marks [simp]: "number_end []" "number_end (CHR '','' # r)" "number_end (CHR '']'' # r)" "number_end (CHR ''}'' # r)"
  by (simp_all add: number_end_def is_digit_def)

lemma word_of_int: "json_word (show_int i @ r) = None"
proof -
  from show_int_head [of i] obtain c cs where c: "show_int i = c # cs" and "is_digit c \<or> c = CHR ''-'' \<and> cs \<noteq> [] \<and> is_digit (hd cs)"
    by blast
  then consider "is_digit c" | d ds where "c = CHR ''-''" "cs = d # ds" "is_digit d" by (cases cs) auto
  then show ?thesis
  proof cases
    case 1
    then have "c \<noteq> CHR ''n''" "c \<noteq> CHR ''t''" "c \<noteq> CHR ''f''" "c \<noteq> CHR ''N''" "c \<noteq> CHR ''I''" "c \<noteq> CHR ''-''"
      by (auto simp: is_digit_def)
    then show ?thesis by (simp add: c json_word_def)
  next
    case 2
    then have "d \<noteq> CHR ''I''" by (auto simp: is_digit_def)
    with 2 show ?thesis by (simp add: c json_word_def)
  qed
qed

lemma parse_int:
  assumes "number_end r"
  shows "parse_value (Suc n) (show_int i @ r) = Some (JInt i, r)"
proof -
  obtain c cs where c: "show_int i = c # cs" "is_digit c \<or> c = CHR ''-''" using show_int_head by blast
  have "c \<noteq> quote" "c \<noteq> CHR ''{''" "c \<noteq> CHR ''[''" using c(2) by (auto simp: is_digit_def quote_def)
  with word_of_int [of i r] scan_show_int [OF assms, of i] show ?thesis by (simp add: c(1))
qed

lemma parse_string: "parse_value (Suc n) (json_string s @ r) = Some (JStr s, r)"
  by (simp add: json_string_def scan_json_string)

lemma word_lits [simp]: "json_word (''null'' @ r) = Some (JNull, r)" "json_word (''true'' @ r) = Some (JBool True, r)"
  "json_word (''false'' @ r) = Some (JBool False, r)"
  by (simp_all add: json_word_def)

lemma parse_atoms:
  "1 \<le> n \<Longrightarrow> parse_value n (json_dumps py JNull @ r) = Some (JNull, r)"
  "1 \<le> n \<Longrightarrow> parse_value n (json_dumps py (JBool b) @ r) = Some (JBool b, r)"
  "1 \<le> n \<Longrightarrow> number_end r \<Longrightarrow> parse_value n (json_dumps py (JInt i) @ r) = Some (JInt i, r)"
  "1 \<le> n \<Longrightarrow> parse_value n (json_dumps py (JStr t) @ r) = Some (JStr t, r)"
  using parse_int [of r "n - 1" i] parse_string [of "n - 1" t r] by (cases n; auto simp: quote_def json_word_def)+

lemma parse_float: "float_reads py v \<Longrightarrow> number_end r \<Longrightarrow> 1 \<le> n \<Longrightarrow>
    parse_value n (py_float_text py v @ r) = Some (v, r)"
  by (cases n) (auto simp: float_reads_def)

lemma parse_dumps:
  "json_ok py v \<Longrightarrow> number_end r \<Longrightarrow> 2 * length (json_dumps py v) + 1 \<le> n \<Longrightarrow>
     parse_value n (json_dumps py v @ r) = Some (v, r)"
  "items_ok py xs \<Longrightarrow> xs \<noteq> [] \<Longrightarrow> 2 * length (dumps_items py xs) + 2 \<le> n \<Longrightarrow>
     parse_items n (dumps_items py xs @ CHR '']'' # r) = Some (xs, r)"
  "fields_ok py kvs \<Longrightarrow> kvs \<noteq> [] \<Longrightarrow> 2 * length (dumps_fields py kvs) + 1 \<le> n \<Longrightarrow>
     parse_fields n (dumps_fields py kvs @ CHR ''}'' # r) = Some (kvs, r)"
proof (induction py v and py xs and py kvs arbitrary: n r and n r and n r rule: json_ok_items_ok_fields_ok.induct)
  case (3 py xs)
  then obtain k where n: "n = Suc k" by (cases n) auto
  show ?case
  proof (cases xs)
    case (Cons x ys)
    obtain c cs where "json_dumps py x = c # cs" "\<not> json_ws c" "c \<noteq> CHR '']''"
      using dumps_head [of py x] 3(2) Cons by auto
    then have "skip_ws (dumps_items py xs @ CHR '']'' # r) = dumps_items py xs @ CHR '']'' # r"
      "hd (dumps_items py xs @ CHR '']'' # r) \<noteq> CHR '']''" using Cons by (simp_all add: dumps_items_Cons)
    moreover have "parse_items k (dumps_items py xs @ CHR '']'' # r) = Some (xs, r)"
      using 3 Cons n by (intro "3.IH") auto
    ultimately show ?thesis using Cons by (simp add: n quote_def)
  qed (simp add: n quote_def)
next
  case (4 py kvs)
  then obtain k where n: "n = Suc k" by (cases n) auto
  show ?case
  proof (cases kvs)
    case (Cons kv ys)
    then have "skip_ws (dumps_fields py kvs @ CHR ''}'' # r) = dumps_fields py kvs @ CHR ''}'' # r"
      "hd (dumps_fields py kvs @ CHR ''}'' # r) \<noteq> CHR ''}''"
      by (cases kv; simp add: dumps_fields_Cons json_string_def; simp add: quote_def)+
    moreover have "parse_fields k (dumps_fields py kvs @ CHR ''}'' # r) = Some (kvs, r)"
      using 4 Cons n by (intro "4.IH") auto
    ultimately show ?thesis using Cons 4(2) by (simp add: n quote_def dict_of_distinct)
  qed (simp add: n quote_def)
next
  case (7 py x xs)
  then obtain k where n: "n = Suc k" by (cases n) auto
  have x: "json_ok py x" "2 * length (json_dumps py x) + 1 \<le> k" using 7(3,5) n by (simp_all add: dumps_items_Cons)
  show ?case
  proof (cases "xs = []")
    case True
    with "7.IH"(1) [OF x(1) _ x(2), of "CHR '']'' # r"] show ?thesis by (simp add: n)
  next
    case False
    have p: "parse_items k (dumps_items py xs @ CHR '']'' # r) = Some (xs, r)"
      using 7(3,5) n False by (intro "7.IH"(2)) (auto simp: dumps_items_Cons)
    have "skip_ws (dumps_items py xs @ CHR '']'' # r) = dumps_items py xs @ CHR '']'' # r"
      using 7(3) False skip_ws_dumps [of py "hd xs"] by (cases xs) (simp_all add: dumps_items_Cons)
    with p False "7.IH"(1) [OF x(1) _ x(2), of "'', '' @ dumps_items py xs @ CHR '']'' # r"] show ?thesis
      by (simp add: n dumps_items_Cons)
  qed
next
  case (9 py key v kvs)
  then obtain k where n: "n = Suc k" by (cases n) auto
  have v: "json_ok py v" "2 * length (json_dumps py v) + 1 \<le> k" using 9(3,5) n by (simp_all add: dumps_fields_Cons)
  have head: "parse_fields n (dumps_fields py ((key, v) # kvs) @ CHR ''}'' # r) =
      parse_fields n (json_string key @ '': '' @ json_dumps py v @ (if kvs = [] then [] else '', '' @ dumps_fields py kvs) @ CHR ''}'' # r)"
    by (simp add: dumps_fields_Cons)
  show ?case
  proof (cases "kvs = []")
    case True
    with "9.IH"(1) [OF v(1) _ v(2), of "CHR ''}'' # r"] show ?thesis
      unfolding head by (simp add: n json_string_def scan_json_string skip_ws_dumps v(1))
  next
    case False
    have p: "parse_fields k (dumps_fields py kvs @ CHR ''}'' # r) = Some (kvs, r)"
      using 9(3,5) n False by (intro "9.IH"(2)) (auto simp: dumps_fields_Cons)
    have "skip_ws (dumps_fields py kvs @ CHR ''}'' # r) = dumps_fields py kvs @ CHR ''}'' # r"
      using False by (cases "hd kvs"; cases kvs) (simp_all add: dumps_fields_Cons json_string_def)
    with p False "9.IH"(1) [OF v(1) _ v(2), of "'', '' @ dumps_fields py kvs @ CHR ''}'' # r"] show ?thesis
      unfolding head by (simp add: n json_string_def scan_json_string skip_ws_dumps v(1))
  qed
qed (rule parse_atoms; simp | simp | simp add: parse_float)+

text \<open>
  What \<open>json.dumps\<close> writes, \<open>json.loads\<close> reads back: for every JSON value whose objects have
  distinct keys and whose floats are read back (every value without floats, in particular), whatever characters its texts hold and however deep it is nested.
\<close>

lemma json_text_reads:
  assumes "json_ok py v"
  shows "json_loads (json_dumps py v) = Some v"
proof -
  have "skip_ws (json_dumps py v) = json_dumps py v" using skip_ws_dumps [OF assms, of "[]"] by simp
  with parse_dumps(1) [OF assms, of "[]"] show ?thesis by (simp add: json_loads_def skip_ws_def)
qed

lemma json_text_roundtrip: "json_plain v \<Longrightarrow> json_loads (json_dumps py v) = Some v"
  by (rule json_text_reads [OF plain_ok(1)])

definition sample_py :: PyText where
  "sample_py = \<lparr> py_float_text = (\<lambda>_. ''0.5''), py_ellipsis = CHR ''.'' \<rparr>"

section \<open>\<open>str(value)\<close>\<close>

text \<open>\<open>repr\<close> of a text: its quotes, escapes and the characters below 256 that are not printable.\<close>

definition repr_char :: "char \<Rightarrow> char \<Rightarrow> pystr" where
  "repr_char q c = (let n = of_char c :: nat in
     if c = q \<or> c = backslash then [backslash, c]
     else if n = 9 then [backslash, CHR ''t''] else if n = 10 then [backslash, CHR ''n'']
     else if n = 13 then [backslash, CHR ''r'']
     else if n < 32 \<or> (127 \<le> n \<and> n \<le> 160) \<or> n = 173
       then [backslash, CHR ''x'', hex_digit (n div 16), hex_digit (n mod 16)]
     else [c])"

definition py_repr_text :: "pystr \<Rightarrow> pystr" where
  "py_repr_text s = (let q = (if CHR 0x27 \<in> set s \<and> quote \<notin> set s then quote else CHR 0x27) in
     q # concat (map (repr_char q) s) @ [q])"

fun py_repr :: "PyText \<Rightarrow> json \<Rightarrow> pystr"
  and repr_items :: "PyText \<Rightarrow> json list \<Rightarrow> pystr"
  and repr_fields :: "PyText \<Rightarrow> (pystr \<times> json) list \<Rightarrow> pystr" where
  "py_repr py JNull = ''None''"
| "py_repr py (JBool b) = (if b then ''True'' else ''False'')"
| "py_repr py (JInt i) = show_int i"
| "py_repr py (JFloat r) = py_float_text py (JFloat r)"
| "py_repr py JNonFinite = py_float_text py JNonFinite"
| "py_repr py (JStr s) = py_repr_text s"
| "py_repr py (JList xs) = CHR ''['' # repr_items py xs @ '']''"
| "py_repr py (JObj kvs) = CHR ''{'' # repr_fields py kvs @ ''}''"
| "repr_items py [] = []"
| "repr_items py [x] = py_repr py x"
| "repr_items py (x # y # xs) = py_repr py x @ '', '' @ repr_items py (y # xs)"
| "repr_fields py [] = []"
| "repr_fields py [(k, v)] = py_repr_text k @ '': '' @ py_repr py v"
| "repr_fields py ((k, v) # kv # kvs) = py_repr_text k @ '': '' @ py_repr py v @ '', '' @ repr_fields py (kv # kvs)"

definition py_str :: "PyText \<Rightarrow> json \<Rightarrow> pystr" where
  "py_str py v = (case v of JStr s \<Rightarrow> s | _ \<Rightarrow> py_repr py v)"

end
