(* ===== verification/Handoff.thy ===== *)
theory Handoff
  imports Json_Text Workflow_Plan
begin

text \<open>
  The handoff between tasks (\<open>quimera/workflows/handoff.py\<close>): how the answer of an agent becomes a
  structured delivery, how it is stored as text and read back, and the deterministic judgement
  whether its evidence suffices. What the file system says about a declared file (it resolves to an
  existing path inside the workspace) is the parameter \<open>present\<close>.
\<close>

section \<open>Data\<close>

definition max_summary_chars :: nat where "max_summary_chars = 2000"
definition max_report_chars :: nat where "max_report_chars = 24000"
definition max_handoff_items :: nat where "max_handoff_items = 20"
definition max_item_chars :: nat where "max_item_chars = 300"

definition handoff_statuses :: "pystr list" where
  "handoff_statuses = [''success'', ''partial'', ''failed'']"

record Check =
  ck_command :: pystr
  ck_outcome :: pystr
  ck_detail :: pystr

record Handoff =
  h_task_id :: int
  h_attempt :: int
  h_agent :: pystr
  h_status :: pystr
  h_summary :: pystr
  h_files_changed :: "pystr list"
  h_checks :: "Check list"
  h_evidence_refs :: "pystr list"
  h_limitations :: "pystr list"
  h_failure_reason :: "pystr option"
  h_structured :: bool
  h_truncated :: bool
  h_unverified_files :: "pystr list"
  h_report :: pystr

section \<open>Stored form\<close>

definition check_dict :: "Check \<Rightarrow> json" where
  "check_dict c = JObj [(''command'', JStr (ck_command c)), (''outcome'', JStr (ck_outcome c)), (''detail'', JStr (ck_detail c))]"

definition handoff_dict :: "Handoff \<Rightarrow> (pystr \<times> json) list" where
  "handoff_dict h = [(''summary'', JStr (h_summary h)), (''task_id'', JInt (h_task_id h)), (''attempt'', JInt (h_attempt h)),
     (''agent'', JStr (h_agent h)), (''status'', JStr (h_status h)), (''files_changed'', str_list (h_files_changed h)),
     (''checks'', JList (map check_dict (h_checks h))), (''evidence_refs'', str_list (h_evidence_refs h)),
     (''limitations'', str_list (h_limitations h)), (''failure_reason'', opt_str (h_failure_reason h)),
     (''structured'', JBool (h_structured h)), (''truncated'', JBool (h_truncated h)),
     (''unverified_files'', str_list (h_unverified_files h)), (''report'', JStr (h_report h))]"

definition handoff_to_json :: "PyText \<Rightarrow> Handoff \<Rightarrow> pystr" where
  "handoff_to_json py h = json_dumps py (JObj (handoff_dict h))"

text \<open>
  \<open>int(value)\<close>; \<open>None\<close> is the \<open>TypeError\<close> or \<open>ValueError\<close> (of an infinity the \<open>OverflowError\<close>, which
  \<open>from_json\<close> does not catch).
\<close>

fun underscored_digits :: "pystr \<Rightarrow> pystr option" where
  "underscored_digits [] = None"
| "underscored_digits [c] = (if is_digit c then Some [c] else None)"
| "underscored_digits (c # d # cs) =
     (if \<not> is_digit c then None
      else if d = CHR ''_'' then map_option ((#) c) (underscored_digits cs)
      else map_option ((#) c) (underscored_digits (d # cs)))"

definition py_int_text :: "pystr \<Rightarrow> int option" where
  "py_int_text s = (let t = py_strip s in
     case t of
       [] \<Rightarrow> None
     | c # cs \<Rightarrow>
         if c = CHR ''-'' then map_option (\<lambda>ds. - int (digits_value ds)) (underscored_digits cs)
         else if c = CHR ''+'' then map_option (\<lambda>ds. int (digits_value ds)) (underscored_digits cs)
         else map_option (\<lambda>ds. int (digits_value ds)) (underscored_digits t))"

fun py_int :: "json \<Rightarrow> int option" where
  "py_int (JInt i) = Some i"
| "py_int (JBool b) = Some (if b then 1 else 0)"
| "py_int (JFloat r) = Some (if r < 0 then - \<lfloor>- r\<rfloor> else \<lfloor>r\<rfloor>)"
| "py_int (JStr s) = py_int_text s"
| "py_int _ = None"

text \<open>
  \<open>Check( **check)\<close> raises \<open>TypeError\<close> for an unknown or a missing field; \<open>detail\<close> has a default.
  Lists and texts of another type, which \<open>to_json\<close> never writes, are \<open>None\<close> too: Python would
  carry them along in the dataclass.
\<close>

definition check_of :: "json \<Rightarrow> Check option" where
  "check_of data = (case data of
     JObj kvs \<Rightarrow>
       if list_ex (\<lambda>(k, v). k \<notin> set [''command'', ''outcome'', ''detail'']) kvs then None
       else Option.bind (get_str kvs ''command'') (\<lambda>command.
         Option.bind (get_str kvs ''outcome'') (\<lambda>outcome.
         Option.bind (if map_of kvs ''detail'' = None then Some [] else get_str kvs ''detail'') (\<lambda>detail.
         Some \<lparr> ck_command = command, ck_outcome = outcome, ck_detail = detail \<rparr>)))
   | _ \<Rightarrow> None)"

definition get_checks :: "(pystr \<times> json) list \<Rightarrow> Check list option" where
  "get_checks kvs = (case map_of kvs ''checks'' of
     None \<Rightarrow> Some [] | Some (JList xs) \<Rightarrow> map_opt check_of xs | _ \<Rightarrow> None)"

definition get_bool :: "(pystr \<times> json) list \<Rightarrow> pystr \<Rightarrow> bool \<Rightarrow> bool" where
  "get_bool kvs k default_value = (case map_of kvs k of None \<Rightarrow> default_value | Some v \<Rightarrow> truthy v)"

definition handoff_from_json :: "PyText \<Rightarrow> pystr option \<Rightarrow> Handoff option" where
  "handoff_from_json py stored = (case json_loads (or_empty stored) of
     Some (JObj kvs) \<Rightarrow>
       Option.bind (Option.bind (map_of kvs ''task_id'') py_int) (\<lambda>task_id.
       Option.bind (Option.bind (map_of kvs ''attempt'') py_int) (\<lambda>attempt.
       Option.bind (map_option (py_str py) (map_of kvs ''agent'')) (\<lambda>agent.
       Option.bind (map_option (py_str py) (map_of kvs ''status'')) (\<lambda>status.
       Option.bind (map_option (py_str py) (map_of kvs ''summary'')) (\<lambda>summary.
       Option.bind (get_strs kvs ''files_changed'') (\<lambda>files.
       Option.bind (get_checks kvs) (\<lambda>checks.
       Option.bind (get_strs kvs ''evidence_refs'') (\<lambda>refs.
       Option.bind (get_strs kvs ''limitations'') (\<lambda>limits.
       Option.bind (get_opt_str kvs ''failure_reason'') (\<lambda>reason.
       Option.bind (get_strs kvs ''unverified_files'') (\<lambda>unverified.
       Some \<lparr> h_task_id = task_id, h_attempt = attempt, h_agent = agent, h_status = status, h_summary = summary,
         h_files_changed = files, h_checks = checks, h_evidence_refs = refs, h_limitations = limits,
         h_failure_reason = reason, h_structured = get_bool kvs ''structured'' True,
         h_truncated = get_bool kvs ''truncated'' False, h_unverified_files = unverified,
         h_report = py_str py (json_or (obj_get kvs ''report'') (JStr [])) \<rparr>)))))))))))
   | _ \<Rightarrow> None)"

section \<open>Reading an answer\<close>

text \<open>
  The pattern of \<open>_FENCED_JSON\<close> at the start of a text: the fence, the word \<open>json\<close>, white space, an
  object up to the first brace that white space and a fence follow. The result is the object's text
  and what follows the match.
\<close>

definition fence :: pystr where "fence = ''```''"

fun fence_body :: "pystr \<Rightarrow> (pystr \<times> pystr) option" where
  "fence_body [] = None"
| "fence_body (c # cs) =
     (if c = CHR ''}'' \<and> prefix fence (dropWhile py_isspace cs)
      then Some (''}'', drop (length fence) (dropWhile py_isspace cs))
      else map_option (\<lambda>(b, r). (c # b, r)) (fence_body cs))"

definition match_fence :: "pystr \<Rightarrow> (pystr \<times> pystr) option" where
  "match_fence t =
     (if \<not> prefix fence t then None
      else let r = drop (length fence) t;
               q = dropWhile py_isspace (if prefix ''json'' r then drop 4 r else r) in
        case q of
          [] \<Rightarrow> None
        | c # cs \<Rightarrow> if c = CHR ''{'' then map_option (\<lambda>(b, r). (c # b, r)) (fence_body cs) else None)"

lemma fence_body_shorter: "fence_body s = Some (b, r) \<Longrightarrow> length r < length s"
  by (induction s arbitrary: b r)
    (auto split: if_splits simp: less_Suc_eq_le intro: order_trans [OF diff_le_self] length_dropWhile_le less_imp_le)

lemma match_fence_shorter: "match_fence t = Some (g, r) \<Longrightarrow> length r < length t"
proof -
  assume m: "match_fence t = Some (g, r)"
  define q where "q = dropWhile py_isspace (if prefix ''json'' (drop (length fence) t) then drop 4 (drop (length fence) t) else drop (length fence) t)"
  have "length q \<le> length (if prefix ''json'' (drop (length fence) t) then drop 4 (drop (length fence) t) else drop (length fence) t)"
    unfolding q_def by (rule length_dropWhile_le)
  then have "length q \<le> length t" by (simp split: if_splits)
  with m show ?thesis unfolding match_fence_def Let_def q_def [symmetric]
    by (auto split: if_splits list.splits dest: fence_body_shorter)
qed

text \<open>\<open>finditer\<close>: the matches with the text before and behind each.\<close>

function fenced_blocks :: "pystr \<Rightarrow> pystr \<Rightarrow> (pystr \<times> pystr \<times> pystr) list" where
  "fenced_blocks before [] = []"
| "fenced_blocks before (c # cs) =
     (case match_fence (c # cs) of
        Some (g, rest) \<Rightarrow> (before, g, rest) # fenced_blocks (before @ take (length (c # cs) - length rest) (c # cs)) rest
      | None \<Rightarrow> fenced_blocks (before @ [c]) cs)"
  by pat_completeness auto
termination fenced_blocks
  by (relation "measure (\<lambda>(before, t). length t)") (auto dest: match_fence_shorter)

fun first_handoff :: "(pystr \<times> pystr \<times> pystr) list \<Rightarrow> ((pystr \<times> json) list \<times> pystr \<times> pystr) option" where
  "first_handoff [] = None"
| "first_handoff ((before, g, rest) # blocks) =
     (case json_loads g of
        Some (JObj kvs) \<Rightarrow>
          (case obj_get kvs ''handoff'' of JObj inner \<Rightarrow> Some (inner, before, rest) | _ \<Rightarrow> first_handoff blocks)
      | _ \<Rightarrow> first_handoff blocks)"

definition extract_block :: "pystr \<Rightarrow> ((pystr \<times> json) list \<times> pystr \<times> pystr) option" where
  "extract_block t = first_handoff (rev (fenced_blocks [] t))"

definition clip_text :: "PyText \<Rightarrow> pystr \<Rightarrow> nat \<Rightarrow> pystr" where
  "clip_text py t limit = (if length t \<le> limit then t else py_rstrip (take (limit - 1) t) @ [py_ellipsis py])"

definition handoff_items :: "PyText \<Rightarrow> json \<Rightarrow> pystr list \<times> bool" where
  "handoff_items py value = (case value of
     JList xs \<Rightarrow>
       (let items = map (\<lambda>x. clip_text py (py_strip (py_str py x)) max_item_chars)
              (filter (\<lambda>x. py_strip (py_str py x) \<noteq> []) xs) in
        (take max_handoff_items items, length items > max_handoff_items))
   | _ \<Rightarrow> ([], False))"

definition handoff_check :: "PyText \<Rightarrow> json \<Rightarrow> Check option" where
  "handoff_check py raw = (case raw of
     JObj kvs \<Rightarrow>
       if truthy (obj_get kvs ''command'') then
         Some \<lparr> ck_command = clip_text py (py_str py (obj_get kvs ''command'')) max_item_chars,
           ck_outcome = py_lower (py_str py (json_or (obj_get kvs ''outcome'') (JStr ''unknown''))),
           ck_detail = clip_text py (py_str py (json_or (obj_get kvs ''detail'') (JStr []))) max_item_chars \<rparr>
       else None
   | _ \<Rightarrow> None)"

definition handoff_checks :: "PyText \<Rightarrow> json \<Rightarrow> Check list" where
  "handoff_checks py value = (case value of
     JList xs \<Rightarrow> List.map_filter (handoff_check py) (take max_handoff_items xs) | _ \<Rightarrow> [])"

definition parse_handoff :: "PyText \<Rightarrow> pystr \<Rightarrow> int \<Rightarrow> int \<Rightarrow> pystr \<Rightarrow> Handoff" where
  "parse_handoff py response task_id attempt agent = (case extract_block response of
     None \<Rightarrow>
       (let body = py_strip response in
        \<lparr> h_task_id = task_id, h_attempt = attempt, h_agent = agent, h_status = ''success'',
          h_summary = clip_text py body max_summary_chars, h_files_changed = [], h_checks = [], h_evidence_refs = [],
          h_limitations = [''handoff nao estruturado: resultado nao verificavel''], h_failure_reason = None,
          h_structured = False, h_truncated = length body > max_report_chars, h_unverified_files = [],
          h_report = (if length body > max_summary_chars then clip_text py body max_report_chars else []) \<rparr>)
   | Some (payload, before, rest) \<Rightarrow>
       (let report = py_strip (py_rstrip before @ [CHR 0x0A, CHR 0x0A] @ py_lstrip rest);
            declared = py_lower (py_strip (py_str py (json_or (obj_get payload ''status'') (JStr []))));
            known = declared \<in> set handoff_statuses;
            reason = (if known then obj_get payload ''failure_reason''
                      else json_or (obj_get payload ''failure_reason'') (JStr ''status invalido''));
            (files, cut_files) = handoff_items py (obj_get payload ''files_changed'');
            (refs, cut_refs) = handoff_items py (obj_get payload ''evidence_refs'');
            (limits, cut_limits) = handoff_items py (obj_get payload ''limitations'');
            summary = py_strip (py_str py (json_or (obj_get payload ''summary'') (JStr []))) in
        \<lparr> h_task_id = task_id, h_attempt = attempt, h_agent = agent,
          h_status = (if known then declared else ''failed''),
          h_summary = clip_text py summary max_summary_chars, h_files_changed = files,
          h_checks = handoff_checks py (obj_get payload ''checks''), h_evidence_refs = refs, h_limitations = limits,
          h_failure_reason = (if truthy reason then Some (py_str py reason) else None), h_structured = True,
          h_truncated = (cut_files \<or> cut_refs \<or> cut_limits \<or> length summary > max_summary_chars \<or> length report > max_report_chars),
          h_unverified_files = [], h_report = clip_text py report max_report_chars \<rparr>))"

section \<open>Verification\<close>

definition verify_files :: "(pystr \<Rightarrow> bool) \<Rightarrow> Handoff \<Rightarrow> Handoff" where
  "verify_files present h = (let missing = filter (\<lambda>raw. \<not> present raw) (h_files_changed h) in
     if missing = [] then h else h\<lparr>h_unverified_files := missing\<rparr>)"

definition failed_commands :: "Handoff \<Rightarrow> pystr list" where
  "failed_commands h = map ck_command (filter (\<lambda>c. py_lower (ck_outcome c) = ''failed'') (h_checks h))"

definition evaluate :: "Handoff \<Rightarrow> WorkflowTaskSpec \<Rightarrow> bool \<times> pystr" where
  "evaluate h spec =
     (if h_status h = ''failed'' then (False, text_or (or_empty (h_failure_reason h)) ''executor reportou falha'')
      else if h_unverified_files h \<noteq> []
        then (False, ''arquivos declarados inexistentes: '' @ py_join '', '' (h_unverified_files h))
      else if failed_commands h \<noteq> []
        then (False, ''verificacoes com outcome failed contradizem a entrega: '' @ py_join ''; '' (failed_commands h) @
          ''. Se a verificacao confirma o que voce relata (ex.: reproduz o defeito), '' @
          ''declare outcome passed; se mostra algo por fazer, corrija ou declare status partial'')
      else if ws_evidence spec \<noteq> [] \<and> \<not> h_structured h
        then (False, ''evidencia esperada, mas o handoff nao e estruturado'')
      else if ws_evidence spec \<noteq> [] \<and> h_checks h = [] \<and> h_evidence_refs h = []
        then (False, ''evidencia esperada ausente (sem verificacoes nem referencias)'')
      else if h_status h = ''partial''
        then (False, ''executor reportou resultado parcial: '' @ text_or (py_join ''; '' (h_limitations h)) ''sem detalhes'')
      else (True, h_summary h))"


section \<open>The stored form keeps the handoff\<close>

lemma plain_dict: "json_plain (JObj (handoff_dict h))"
proof -
  have strs: "plain_items (map JStr xs)" for xs by (induction xs) simp_all
  have checks: "plain_items (map check_dict cs)" for cs by (induction cs) (simp_all add: check_dict_def)
  show ?thesis by (simp add: handoff_dict_def str_list_def opt_str_def strs checks split: option.splits)
qed

lemma check_dict_roundtrip: "check_of (check_dict c) = Some c"
  by (simp add: check_of_def check_dict_def get_str_def)

text \<open>
  The stored form of a delivery loses nothing: \<open>Handoff.from_json\<close> of the text that \<open>to_json\<close>
  writes is the same handoff, whatever its texts contain (quotes, line ends, control characters,
  braces), so the reviewer and the dependent tasks read what the executor delivered.
\<close>

theorem handoff_roundtrip: "handoff_from_json py (Some (handoff_to_json py h)) = Some h"
proof -
  have l: "json_loads (handoff_to_json py h) = Some (JObj (handoff_dict h))"
    unfolding handoff_to_json_def by (rule json_text_roundtrip [OF plain_dict])
  have checks: "map_opt check_of (map check_dict (h_checks h)) = Some (h_checks h)"
    using map_opt_map [of check_of check_dict id] by (simp add: check_dict_roundtrip)
  show ?thesis
    unfolding handoff_from_json_def or_empty_simps l
    by (cases "h_failure_reason h")
      (simp_all add: handoff_dict_def get_strs_def get_checks_def
        get_opt_str_def get_bool_def obj_get_def str_list_def opt_str_def py_str_def json_or_def checks)
qed

section \<open>Bounds of a parsed handoff\<close>

lemma length_py_rstrip: "length (py_rstrip s) \<le> length s"
  unfolding py_rstrip_def by (metis length_dropWhile_le length_rev)

lemma length_clip_text: "limit > 0 \<Longrightarrow> length (clip_text py t limit) \<le> limit"
  using length_py_rstrip [of "take (limit - 1) t"] by (auto simp: clip_text_def)

lemmas handoff_limits = max_summary_chars_def max_report_chars_def max_handoff_items_def max_item_chars_def

definition items_bounded :: "pystr list \<Rightarrow> bool" where
  "items_bounded xs \<longleftrightarrow> length xs \<le> max_handoff_items \<and> (\<forall>x \<in> set xs. length x \<le> max_item_chars)"

lemma handoff_items_bounded: "items_bounded (fst (handoff_items py v))"
  by (auto simp: handoff_items_def items_bounded_def Let_def handoff_limits dest!: in_set_takeD
      intro!: length_clip_text split: json.splits)

definition check_bounded :: "Check \<Rightarrow> bool" where
  "check_bounded c \<longleftrightarrow> length (ck_command c) \<le> max_item_chars \<and> length (ck_detail c) \<le> max_item_chars"

lemma handoff_checks_bounded:
  "length (handoff_checks py v) \<le> max_handoff_items \<and> (\<forall>c \<in> set (handoff_checks py v). check_bounded c)"
proof -
  have one: "check_bounded c" if "handoff_check py x = Some c" for x c
    using that by (auto simp: handoff_check_def check_bounded_def max_item_chars_def intro!: length_clip_text
        split: json.splits if_splits)
  have len: "length (List.map_filter f xs) \<le> length xs" for f :: "json \<Rightarrow> Check option" and xs
    by (simp add: List.map_filter_def)
  show ?thesis
    using len [of "handoff_check py"] one
    by (auto simp: handoff_checks_def List.map_filter_def split: json.splits intro!: order_trans [OF length_filter_le])
qed

definition handoff_bounded :: "Handoff \<Rightarrow> bool" where
  "handoff_bounded h \<longleftrightarrow> h_status h \<in> set handoff_statuses \<and> length (h_summary h) \<le> max_summary_chars \<and>
     length (h_report h) \<le> max_report_chars \<and> items_bounded (h_files_changed h) \<and>
     items_bounded (h_evidence_refs h) \<and> items_bounded (h_limitations h) \<and>
     length (h_checks h) \<le> max_handoff_items \<and> (\<forall>c \<in> set (h_checks h). check_bounded c)"

text \<open>
  Whatever an agent answers, the handoff made of it is bounded: a known status, a summary of at
  most 2000 characters, a report of at most 24000, at most 20 entries per list with at most 300
  characters each.
\<close>

theorem parsed_handoff_bounded: "handoff_bounded (parse_handoff py response task_id attempt agent)"
proof (cases "extract_block response")
  case None
  then show ?thesis
    by (auto simp: parse_handoff_def handoff_bounded_def Let_def items_bounded_def handoff_statuses_def handoff_limits
        intro!: length_clip_text)
next
  case (Some b)
  obtain payload before rest where b: "b = (payload, before, rest)" by (cases b)
  show ?thesis
    using handoff_items_bounded [of py] handoff_checks_bounded [of py]
    by (simp add: parse_handoff_def Some b handoff_bounded_def Let_def case_prod_beta handoff_statuses_def
        length_clip_text max_summary_chars_def max_report_chars_def)
qed

end
