(* ===== verification/Task_Planning.thy ===== *)
theory Task_Planning
  imports Task_States
begin

text \<open>
  Classification of tasks from their description and scoring of agents
  (\<open>quimera/tasks/planning.py\<close>): the keyword heuristics, the score of a profile for a task type and
  the choice of the best profile.
\<close>

section \<open>Descriptions\<close>

text \<open>
  \<open>re.sub(r"\s+", " ", text)\<close>: each maximal run of white space becomes one blank; and the number
  of words of \<open>text.split()\<close>.
\<close>

fun squeeze :: "pystr \<Rightarrow> pystr" where
  "squeeze [] = []"
| "squeeze [c] = [if py_isspace c then CHR '' '' else c]"
| "squeeze (c # d # cs) =
     (if py_isspace c then (if py_isspace d then squeeze (d # cs) else CHR '' '' # squeeze (d # cs))
      else c # squeeze (d # cs))"

fun word_count :: "pystr \<Rightarrow> nat" where
  "word_count [] = 0"
| "word_count [c] = (if py_isspace c then 0 else 1)"
| "word_count (c # d # cs) =
     (if \<not> py_isspace c \<and> py_isspace d then 1 else 0) + word_count (d # cs)"

definition normalize_task_description :: "pystr \<Rightarrow> pystr" where
  "normalize_task_description t = squeeze (py_strip t)"

section \<open>Keyword tables\<close>

definition task_patterns :: "(TaskType \<times> pystr list) list" where
  "task_patterns =
     [(TEST_EXECUTION, [''execute os testes'', ''executar testes'', ''rode pytest'', ''rodar testes'',
        ''run tests'', ''pytest'', ''testes'']),
      (CODE_REVIEW, [''revise'', ''review'', ''analise esse arquivo'', ''code review'', ''revisar arquivo'',
        ''inspecione'']),
      (CODE_EDIT, [''corrija'', ''implemente'', ''edite'', ''refatore'',
        ''refatora'' @ [CHR 0xE7, CHR 0xE3] @ ''o'', ''refactor'', ''ajuste'', ''altere'', ''modifique'']),
      (BUG_INVESTIGATION, [''investigue'', ''descubra por que'', ''erro'', ''falha'', ''bug'', ''quebrou'',
        ''n'' @ [CHR 0xE3] @ ''o funciona'']),
      (ARCHITECTURE, [''arquitetura'', ''design'', ''protocolo'', ''estrat'' @ [CHR 0xE9] @ ''gia'', ''modelagem'']),
      (DOCUMENTATION, [''documente'', ''readme'', ''explicar'', ''documenta'' @ [CHR 0xE7, CHR 0xE3] @ ''o'', ''docs''])]"

definition task_precedence :: "TaskType list" where
  "task_precedence = [CODE_EDIT, BUG_INVESTIGATION, TEST_EXECUTION, CODE_REVIEW, ARCHITECTURE, DOCUMENTATION]"

definition complexity_high_hints :: "pystr list" where
  "complexity_high_hints = [''arquitetura'', ''redesen'', ''migr'', ''protocolo'', ''sistema inteiro'']"

definition complexity_medium_hints :: "pystr list" where
  "complexity_medium_hints = [''integra'', ''fluxo'', ''pipeline'', ''regress'', ''cobertura'']"

definition risk_high_hints :: "pystr list" where
  "risk_high_hints = [''produ'' @ [CHR 0xE7, CHR 0xE3] @ ''o'', ''prod'', ''deploy'',
     ''seguran'' @ [CHR 0xE7] @ ''a'', ''credencial'', ''token'', ''database'', ''sqlite'']"

definition tools_hints :: "pystr list" where
  "tools_hints = [''pytest'', ''teste'', ''rodar'', ''executar'', ''comando'', ''shell'', ''terminal'', ''log'', ''traceback'']"

definition code_edit_hints :: "pystr list" where
  "code_edit_hints = [''corrija'', ''implemente'', ''edite'', ''refatore'', ''altere'', ''modifique'', ''patch'']"

definition multi_scope_hints :: "pystr list" where
  "multi_scope_hints = ['' e '', '' al'' @ [CHR 0xE9] @ ''m de '', ''tamb'' @ [CHR 0xE9] @ ''m'', ''depois'', ''em seguida'']"

section \<open>Classification\<close>

definition mentions :: "pystr list \<Rightarrow> pystr \<Rightarrow> bool" where
  "mentions keywords t = list_ex (\<lambda>k. py_contains k t) keywords"

definition matched_types :: "pystr \<Rightarrow> TaskType list" where
  "matched_types t = map fst (filter (\<lambda>(_, keywords). mentions keywords t) task_patterns)"

definition classify_task_type_from_text :: "pystr \<Rightarrow> TaskType" where
  "classify_task_type_from_text t =
     (if t = [] then GENERAL
      else case matched_types t of
          [] \<Rightarrow> GENERAL
        | [ty] \<Rightarrow> ty
        | tys \<Rightarrow> (case find (\<lambda>ty. ty \<in> set tys) task_precedence of None \<Rightarrow> GENERAL | Some ty \<Rightarrow> ty))"

datatype Level = LowLevel | MediumLevel | HighLevel

definition infer_complexity :: "pystr \<Rightarrow> TaskType \<Rightarrow> Level" where
  "infer_complexity t ty =
     (let words = word_count t; multi = mentions multi_scope_hints t in
      if mentions complexity_high_hints t \<or> words \<ge> 22 then HighLevel
      else if ty \<in> set [ARCHITECTURE, BUG_INVESTIGATION] \<and> words \<ge> 12 \<and> multi then HighLevel
      else if ty \<in> set [TEST_EXECUTION, BUG_INVESTIGATION, CODE_REVIEW] then MediumLevel
      else if multi \<or> words \<ge> 10 \<or> mentions complexity_medium_hints t then MediumLevel
      else LowLevel)"

definition infer_requires_tools :: "pystr \<Rightarrow> TaskType \<Rightarrow> bool" where
  "infer_requires_tools t ty = (ty \<in> set [TEST_EXECUTION, BUG_INVESTIGATION] \<or> mentions tools_hints t)"

definition infer_requires_code_editing :: "pystr \<Rightarrow> TaskType \<Rightarrow> bool" where
  "infer_requires_code_editing t ty = (ty = CODE_EDIT \<or> mentions code_edit_hints t)"

definition infer_risk_level :: "pystr \<Rightarrow> TaskType \<Rightarrow> Level" where
  "infer_risk_level t ty =
     (if mentions risk_high_hints t then HighLevel
      else if ty \<in> set [BUG_INVESTIGATION, TEST_EXECUTION, CODE_EDIT, CODE_REVIEW, ARCHITECTURE] then MediumLevel
      else LowLevel)"

record TaskClassification =
  tc_type :: TaskType
  tc_complexity :: Level
  tc_requires_tools :: bool
  tc_requires_code_editing :: bool
  tc_risk :: Level

text \<open>\<open>KeywordTaskClassifier.classify\<close>, the default classifier of \<open>classify_task\<close>.\<close>

definition classify_task :: "pystr \<Rightarrow> TaskClassification" where
  "classify_task description =
     (let t = py_lower (normalize_task_description description); ty = classify_task_type_from_text t in
      \<lparr> tc_type = ty, tc_complexity = infer_complexity t ty, tc_requires_tools = infer_requires_tools t ty,
        tc_requires_code_editing = infer_requires_code_editing t ty, tc_risk = infer_risk_level t ty \<rparr>)"

section \<open>Profiles and scores\<close>

record AgentProfile =
  pf_name :: pystr
  pf_prefix :: "pystr option"
  pf_aliases :: "pystr list"
  pf_base_tier :: int
  pf_preferred :: "pystr list"
  pf_avoid :: "pystr list"
  pf_code_editing :: bool
  pf_long_context :: bool
  pf_tools :: bool
  pf_capabilities :: "pystr list"
  pf_task_execution :: bool
  pf_reliability :: "pystr option"

definition capability_boost :: "pystr \<Rightarrow> (pystr \<times> int) list" where
  "capability_boost cap = (case map_of
     [(''code_editing'', [(''code_edit'', 4), (''bug_investigation'', 1)]),
      (''bug_investigation'', [(''bug_investigation'', 4), (''code_edit'', 1)]),
      (''documentation'', [(''documentation'', 4)]),
      (''code_review'', [(''code_review'', 4), (''architecture'', 1)]),
      (''architecture'', [(''architecture'', 4), (''code_review'', 1)]),
      (''general_coding'', [(''code_edit'', 3), (''bug_investigation'', 1)]),
      (''planning'', [(''architecture'', 2), (''code_review'', 1)])] cap of
    None \<Rightarrow> [] | Some boosts \<Rightarrow> boosts)"

definition boost :: "pystr \<Rightarrow> pystr \<Rightarrow> int" where
  "boost cap ty = (case map_of (capability_boost cap) ty of None \<Rightarrow> 0 | Some n \<Rightarrow> n)"

definition tool_reliability :: "AgentProfile \<Rightarrow> pystr" where
  "tool_reliability p = py_lower (if or_empty (pf_reliability p) = [] then ''medium'' else or_empty (pf_reliability p))"

definition reliability_score :: "pystr \<Rightarrow> int" where
  "reliability_score level = (case map_of [(''low'', - 4), (''medium'', 0), (''high'', 3)] level of
     None \<Rightarrow> 0 | Some n \<Rightarrow> n)"

definition can_execute_task :: "AgentProfile \<Rightarrow> bool" where
  "can_execute_task p = pf_task_execution p"

definition score_profile_for_task :: "AgentProfile \<Rightarrow> pystr \<Rightarrow> int" where
  "score_profile_for_task p ty =
     (pf_base_tier p - 1) * 2
     + (if ty \<in> set (pf_preferred p) then 5 else 0)
     - (if ty \<in> set (pf_avoid p) then 5 else 0)
     + (if ty \<in> set [''code_edit'', ''bug_investigation'', ''code_review''] \<and> pf_code_editing p then 2 else 0)
     + (if ty \<in> set [''architecture'', ''code_review'', ''documentation''] \<and> pf_long_context p then 2 else 0)
     + (if pf_tools p \<and> ty \<in> set [''test_execution'', ''bug_investigation''] then 1 else 0)
     + (if ty \<in> set [''test_execution'', ''bug_investigation''] then reliability_score (tool_reliability p) else 0)
     - (if ty = ''bug_investigation'' \<and> \<not> pf_tools p then 3 else 0)
     + sum_list (map (\<lambda>cap. boost cap ty) (pf_capabilities p))"

text \<open>The loop of \<open>choose_best_agent\<close>: a later profile replaces the best only with a higher score.\<close>

fun best_profile :: "pystr \<Rightarrow> AgentProfile list \<Rightarrow> (AgentProfile \<times> int) option \<Rightarrow> (AgentProfile \<times> int) option" where
  "best_profile ty [] best = best"
| "best_profile ty (p # ps) best =
     (let score = score_profile_for_task p ty in
      best_profile ty ps (case best of
        None \<Rightarrow> Some (p, score)
      | Some (_, best_score) \<Rightarrow> if score > best_score then Some (p, score) else best))"

definition choose_best_agent :: "pystr \<Rightarrow> AgentProfile list \<Rightarrow> pystr option" where
  "choose_best_agent ty active =
     (case filter can_execute_task active of
        [] \<Rightarrow> None
      | p # ps \<Rightarrow>
          (case best_profile ty (p # ps) None of
             Some (best, best_score) \<Rightarrow>
               if best_score > -5 then Some (pf_name best)
               else (case filter (\<lambda>q. ty \<notin> set (pf_avoid q)) (p # ps) of
                   [] \<Rightarrow> Some (pf_name p)
                 | q # _ \<Rightarrow> Some (pf_name q))
           | None \<Rightarrow> Some (pf_name p)))"

section \<open>Normalization\<close>

fun single_spaced :: "pystr \<Rightarrow> bool" where
  "single_spaced [] = True"
| "single_spaced [c] = (py_isspace c \<longrightarrow> c = CHR '' '')"
| "single_spaced (c # d # cs) \<longleftrightarrow> (py_isspace c \<longrightarrow> c = CHR '' '' \<and> \<not> py_isspace d) \<and> single_spaced (d # cs)"

lemma blank_isspace [simp]: "py_isspace CHR '' ''"
  by (simp add: py_isspace_def)

lemma squeeze_Nil_iff [simp]: "squeeze t = [] \<longleftrightarrow> t = []"
  by (induction t rule: squeeze.induct) auto

lemma hd_squeeze: "t \<noteq> [] \<Longrightarrow> py_isspace (hd (squeeze t)) = py_isspace (hd t)"
  by (induction t rule: squeeze.induct) auto

lemma single_spaced_Cons: "single_spaced (c # t) \<longleftrightarrow>
    (py_isspace c \<longrightarrow> c = CHR '' '' \<and> (t = [] \<or> \<not> py_isspace (hd t))) \<and> single_spaced t"
  by (cases t) auto

lemma single_spaced_squeeze: "single_spaced (squeeze t)"
  by (induction t rule: squeeze.induct) (auto simp: single_spaced_Cons hd_squeeze)

lemma squeeze_single_spaced: "single_spaced t \<Longrightarrow> squeeze t = t"
  by (induction t rule: single_spaced.induct) auto

lemma last_squeeze: "t \<noteq> [] \<Longrightarrow> py_isspace (last (squeeze t)) = py_isspace (last t)"
  by (induction t rule: squeeze.induct) auto

lemma py_strip_fixed: "t = [] \<or> \<not> py_isspace (hd t) \<and> \<not> py_isspace (last t) \<Longrightarrow> py_strip t = t"
  by (auto simp: py_strip_def py_lstrip_def py_rstrip_def dropWhile_fixed hd_rev)

lemma normalize_fixed: "single_spaced t \<Longrightarrow> py_strip t = t \<Longrightarrow> normalize_task_description t = t"
  by (simp add: normalize_task_description_def squeeze_single_spaced)

text \<open>
  The description that is classified is canonical: single blanks, none at the ends; normalizing
  again changes nothing, and two descriptions that differ only in white space get the same
  classification.
\<close>

theorem normalization_canonical:
  "single_spaced (normalize_task_description t) \<and> py_strip (normalize_task_description t) = normalize_task_description t \<and>
   normalize_task_description (normalize_task_description t) = normalize_task_description t \<and>
   classify_task (normalize_task_description t) = classify_task t"
proof -
  let ?n = "normalize_task_description t"
  have single: "single_spaced ?n" by (simp add: normalize_task_description_def single_spaced_squeeze)
  have "py_strip ?n = ?n"
  proof (cases "py_strip t = []")
    case True
    then show ?thesis by (simp add: normalize_task_description_def)
  next
    case False
    then show ?thesis using py_strip_ends [of t] hd_squeeze [OF False] last_squeeze [OF False]
      by (intro py_strip_fixed) (simp add: normalize_task_description_def)
  qed
  moreover from this single have "normalize_task_description ?n = ?n" by (intro normalize_fixed)
  ultimately show ?thesis using single by (simp add: classify_task_def)
qed

section \<open>The best agent\<close>

definition first_best :: "pystr \<Rightarrow> AgentProfile list \<Rightarrow> AgentProfile \<Rightarrow> bool" where
  "first_best ty ps p \<longleftrightarrow> (\<exists>before after. ps = before @ p # after \<and>
     (\<forall>q \<in> set before. score_profile_for_task q ty < score_profile_for_task p ty) \<and>
     (\<forall>q \<in> set after. score_profile_for_task q ty \<le> score_profile_for_task p ty))"

lemma best_profile_Some:
  assumes "first_best ty done b"
  shows "\<exists>p. best_profile ty ps (Some (b, score_profile_for_task b ty)) = Some (p, score_profile_for_task p ty) \<and>
    first_best ty (done @ ps) p"
  using assms
proof (induction ps arbitrary: "done" b)
  case (Cons q ps)
  show ?case
  proof (cases "score_profile_for_task q ty > score_profile_for_task b ty")
    case True
    with Cons.prems have "first_best ty (done @ [q]) q"
      unfolding first_best_def by (intro exI [of _ "done"] exI [of _ "[]"]) force
    with Cons.IH [of "done @ [q]" q] True show ?thesis by simp
  next
    case False
    from Cons.prems obtain xs ys where "done = xs @ b # ys" "\<forall>q \<in> set xs. score_profile_for_task q ty < score_profile_for_task b ty"
      "\<forall>q \<in> set ys. score_profile_for_task q ty \<le> score_profile_for_task b ty" unfolding first_best_def by blast
    with False have "first_best ty (done @ [q]) b"
      unfolding first_best_def by (intro exI [of _ xs] exI [of _ "ys @ [q]"]) auto
    with Cons.IH [of "done @ [q]" b] False show ?thesis by simp
  qed
qed auto

lemma best_profile_first:
  "\<exists>best. best_profile ty (p # ps) None = Some (best, score_profile_for_task best ty) \<and> first_best ty (p # ps) best"
proof -
  have "first_best ty [p] p" unfolding first_best_def by (intro exI [of _ "[]"]) simp
  from best_profile_Some [OF this, of ps] show ?thesis by simp
qed

declare best_profile.simps [simp del]

lemma choose_best_agent_member:
  assumes "filter can_execute_task active = p # ps"
  shows "\<exists>q \<in> set (p # ps). choose_best_agent ty active = Some (pf_name q)"
proof -
  from best_profile_first [of ty p ps] obtain best where
    b: "best_profile ty (p # ps) None = Some (best, score_profile_for_task best ty)" "best \<in> set (p # ps)"
    unfolding first_best_def by fastforce
  show ?thesis
  proof (cases "filter (\<lambda>q. ty \<notin> set (pf_avoid q)) (p # ps)")
    case Nil
    with b assms show ?thesis by (auto simp: choose_best_agent_def)
  next
    case (Cons q qs)
    then have "q \<in> set (p # ps)" by (metis filter_is_subset in_mono list.set_intros(1))
    moreover have "choose_best_agent ty active = Some (pf_name best) \<or> choose_best_agent ty active = Some (pf_name q)"
      using b(1) assms Cons by (simp add: choose_best_agent_def)
    ultimately show ?thesis using b(2) by blast
  qed
qed

text \<open>
  \<open>choose_best_agent\<close> only returns agents that can execute tasks, and returns one whenever there
  is one. It returns the first of those with the highest score, if that score is above -5;
  otherwise the first that does not avoid the task type, or the first at all when all avoid it.
\<close>

theorem choose_best_agent_exact:
  "case choose_best_agent ty active of
     None \<Rightarrow> filter can_execute_task active = []
   | Some name \<Rightarrow> (\<exists>p. pf_name p = name \<and> p \<in> set active \<and> can_execute_task p \<and>
       (if \<exists>q \<in> set active. can_execute_task q \<and> score_profile_for_task q ty > -5
        then first_best ty (filter can_execute_task active) p
        else case filter (\<lambda>q. ty \<notin> set (pf_avoid q)) (filter can_execute_task active) of
            [] \<Rightarrow> p = hd (filter can_execute_task active) | q # _ \<Rightarrow> p = q))"
proof (cases "filter can_execute_task active")
  case Nil
  then show ?thesis by (simp add: choose_best_agent_def)
next
  case (Cons p ps)
  have able: "set (p # ps) = {q \<in> set active. can_execute_task q}" unfolding Cons [symmetric] by auto
  from best_profile_first [of ty p ps] obtain best where b: "best_profile ty (p # ps) None = Some (best, score_profile_for_task best ty)"
    "first_best ty (p # ps) best" by blast
  then have mem: "best \<in> set (p # ps)" and high: "\<forall>q \<in> set (p # ps). score_profile_for_task q ty \<le> score_profile_for_task best ty"
    unfolding first_best_def by fastforce+
  have above: "(\<exists>q \<in> set active. can_execute_task q \<and> score_profile_for_task q ty > -5) \<longleftrightarrow> score_profile_for_task best ty > -5"
    using mem high able by fastforce
  show ?thesis
  proof (cases "score_profile_for_task best ty > -5")
    case True
    then have "choose_best_agent ty active = Some (pf_name best)" by (simp add: choose_best_agent_def Cons b(1))
    with True above mem b(2) able Cons show ?thesis by auto
  next
    case False
    show ?thesis
    proof (cases "filter (\<lambda>q. ty \<notin> set (pf_avoid q)) (p # ps)")
      case Nil
      then have "choose_best_agent ty active = Some (pf_name p)" using False by (simp add: choose_best_agent_def Cons b(1))
      with False above able Cons Nil show ?thesis by auto
    next
      case (Cons q qs)
      have "choose_best_agent ty active = Some (pf_name q)"
        using False \<open>filter can_execute_task active = p # ps\<close> b(1) Cons by (simp add: choose_best_agent_def)
      moreover have "q \<in> set (p # ps)" using Cons by (metis filter_is_subset in_mono list.set_intros(1))
      ultimately show ?thesis
        using False above able \<open>filter can_execute_task active = p # ps\<close> Cons by auto
    qed
  qed
qed

end
