(* ===== verification/Task_Reports.thy ===== *)
theory Task_Reports
  imports Json_Text Task_Planning
begin

text \<open>
  What the task services read out of the answers of agents (\<open>quimera/tasks/classifiers.py\<close>) and the
  short reports they give (\<open>quimera/tasks/utils.py\<close>). The regular expressions are written out as
  functions on the text.
\<close>

section \<open>Upper case, lines and words\<close>

text \<open>
  \<open>str.upper\<close> on code points below 256. The capitals of U+00B5 and U+00FF lie above the 8-bit
  characters; here these two stay, which no search for an ASCII word can tell.
\<close>

definition py_upper_char :: "char \<Rightarrow> pystr" where
  "py_upper_char c = (let n = of_char c :: nat in
     if n = 223 then ''SS''
     else if (97 \<le> n \<and> n \<le> 122) \<or> (224 \<le> n \<and> n \<le> 254 \<and> n \<noteq> 247) then [char_of (n - 32)] else [c])"

definition py_upper :: "pystr \<Rightarrow> pystr" where
  "py_upper s = concat (map py_upper_char s)"

text \<open>\<open>s.split(sep)\<close> for one character, and \<open>s.splitlines()\<close>.\<close>

fun split_char :: "char \<Rightarrow> pystr \<Rightarrow> pystr list" where
  "split_char sep [] = [[]]"
| "split_char sep (c # cs) =
     (if c = sep then [] # split_char sep cs
      else (case split_char sep cs of [] \<Rightarrow> [[c]] | l # ls \<Rightarrow> (c # l) # ls))"

definition line_end :: "char \<Rightarrow> bool" where
  "line_end c = (let n = of_char c :: nat in (10 \<le> n \<and> n \<le> 13) \<or> (28 \<le> n \<and> n \<le> 30) \<or> n = 133)"

fun splitlines_from :: "pystr \<Rightarrow> pystr \<Rightarrow> pystr list" where
  "splitlines_from line [] = (if line = [] then [] else [line])"
| "splitlines_from line (c # cs) =
     (if line_end c then
        line # splitlines_from [] (if c = CHR 0x0D \<and> cs \<noteq> [] \<and> hd cs = CHR 0x0A then tl cs else cs)
      else splitlines_from (line @ [c]) cs)"

definition py_splitlines :: "pystr \<Rightarrow> pystr list" where
  "py_splitlines s = splitlines_from [] s"

text \<open>The class \<open>\w\<close> of regular expressions on code points below 256.\<close>

definition word_char :: "char \<Rightarrow> bool" where
  "word_char c = (let n = of_char c :: nat in
     (48 \<le> n \<and> n \<le> 57) \<or> (65 \<le> n \<and> n \<le> 90) \<or> n = 95 \<or> (97 \<le> n \<and> n \<le> 122) \<or>
     n \<in> {170, 178, 179, 181, 185, 186, 188, 189, 190} \<or> (192 \<le> n \<and> n \<noteq> 215 \<and> n \<noteq> 247))"

section \<open>Results of executions\<close>

definition blocked_markers :: "pystr list" where
  "blocked_markers =
     (let nao = ''n'' @ [CHR 0xE3] @ ''o'' in
      [nao @ '' consigo'', ''nao consigo'', nao @ '' posso'', ''nao posso'', nao @ '' tenho como'', ''nao tenho como'',
       nao @ '' tenho capacidade'', ''nao tenho capacidade'',
       nao @ '' '' @ [CHR 0xE9] @ '' poss'' @ [CHR 0xED] @ ''vel realizar'', ''nao e possivel realizar'',
       ''fora do meu escopo'', nao @ '' est'' @ [CHR 0xE1] @ '' no meu escopo'', ''nao esta no meu escopo'',
       ''unable to'', ''unable to complete'', ''cannot'', ''can'' @ [CHR 0x27] @ ''t'',
       ''i'' @ [CHR 0x27] @ ''m not able to'', ''i am not able to'',
       ''i'' @ [CHR 0x27] @ ''m unable to'', ''i am unable to'', ''beyond my capabilities'', ''outside my scope'',
       ''outside the scope'', ''imposs'' @ [CHR 0xED] @ ''vel'', ''impossivel'', ''requer ferramentas'', ''requires tools'',
       nao @ '' tenho acesso'', ''nao tenho acesso'', ''sem acesso a'', ''without access to'',
       nao @ '' tenho permiss'' @ [CHR 0xE3] @ ''o'', ''nao tenho permissao'',
       ''preciso de mais informa'' @ [CHR 0xE7, CHR 0xF5] @ ''es'', ''preciso de mais detalhes'',
       ''need more information'', ''need more details'', ''more information is needed'',
       nao @ '' '' @ [CHR 0xE9] @ '' minha responsabilidade'', ''nao e minha responsabilidade'',
       ''fora das minhas capacidades'', ''not within my capabilities'', ''not my responsibility''])"

definition classify_task_execution_result :: "pystr option \<Rightarrow> bool \<times> pystr" where
  "classify_task_execution_result response = (case response of
     None \<Rightarrow> (False, ''sem resposta do agente'')
   | Some answer \<Rightarrow>
       (let t = py_strip answer in
        if t = [] then (False, ''resposta vazia do agente'')
        else if mentions blocked_markers (py_lower t) then (False, t)
        else (True, t)))"

section \<open>Verdicts of reviews\<close>

definition verdicts :: "pystr list" where
  "verdicts = [''ACEITE'', ''RETENTATIVA'', ''REPLANEJAR'', ''REJEITAR'']"

text \<open>The verdict a text begins with, and the text behind it.\<close>

definition verdict_prefix :: "pystr \<Rightarrow> (pystr \<times> pystr) option" where
  "verdict_prefix t = map_option (\<lambda>v. (v, drop (length v) t)) (find (\<lambda>v. prefix v t) verdicts)"

definition lead_char :: "char \<Rightarrow> bool" where
  "lead_char c \<longleftrightarrow> py_isspace c \<or> c \<in> set ''#*_>`:.-''"

definition trail_char :: "char \<Rightarrow> bool" where
  "trail_char c \<longleftrightarrow> py_isspace c \<or> c \<in> set ''*_`:.!-''"

text \<open>
  \<open>_VERDICT_LINE_RE\<close> at one place: decoration, which may run over line ends, a verdict, and then
  decoration up to a line end or the end of the text.
\<close>

definition verdict_at :: "pystr \<Rightarrow> pystr option" where
  "verdict_at t = (case verdict_prefix (dropWhile lead_char t) of
     None \<Rightarrow> None
   | Some (v, r) \<Rightarrow>
       if dropWhile trail_char r = [] \<or> CHR 0x0A \<in> set (takeWhile trail_char r) then Some v else None)"

text \<open>\<open>search\<close> tries the beginnings of lines in order; the argument says whether a line begins here.\<close>

fun verdict_search :: "bool \<Rightarrow> pystr \<Rightarrow> pystr option" where
  "verdict_search at_start [] = (if at_start then verdict_at [] else None)"
| "verdict_search at_start (c # cs) =
     (case (if at_start then verdict_at (c # cs) else None) of
        Some v \<Rightarrow> Some v
      | None \<Rightarrow> verdict_search (c = CHR 0x0A) cs)"

text \<open>\<open>_VERDICT_WORD_RE.search\<close>; the argument says whether a word boundary lies here.\<close>

fun verdict_word :: "bool \<Rightarrow> pystr \<Rightarrow> pystr option" where
  "verdict_word boundary [] = None"
| "verdict_word boundary (c # cs) =
     (case (if boundary then verdict_prefix (c # cs) else None) of
        Some (v, r) \<Rightarrow> if r = [] \<or> \<not> word_char (hd r) then Some v else verdict_word (\<not> word_char c) cs
      | None \<Rightarrow> verdict_word (\<not> word_char c) cs)"

definition review_verdict :: "pystr \<Rightarrow> pystr option" where
  "review_verdict t = (let upper = py_upper t in
     case verdict_search True upper of
       Some v \<Rightarrow> Some v
     | None \<Rightarrow>
         (let first_line = (case find (\<lambda>l. py_strip l \<noteq> []) (py_splitlines upper) of None \<Rightarrow> [] | Some l \<Rightarrow> l) in
          case verdict_word True first_line of Some v \<Rightarrow> Some v | None \<Rightarrow> verdict_word True upper))"

definition bare_verdict :: "pystr \<Rightarrow> bool" where
  "bare_verdict line \<longleftrightarrow> py_lower (py_strip line) \<in> set (map py_lower verdicts)"

definition classify_task_review_result :: "pystr option \<Rightarrow> bool \<times> pystr \<times> pystr" where
  "classify_task_review_result response = (case response of
     None \<Rightarrow> (False, ''RETENTATIVA'', ''sem resposta do revisor'')
   | Some answer \<Rightarrow>
       (let t = py_strip answer in
        if t = [] then (False, ''RETENTATIVA'', ''resposta vazia do revisor'')
        else case review_verdict t of
            None \<Rightarrow> (False, ''RETENTATIVA'', t)
          | Some v \<Rightarrow>
              (let has_justification = list_ex (\<lambda>line. py_strip line \<noteq> [] \<and> \<not> bare_verdict line) (split_char (CHR 0x0A) t) in
               if v = ''ACEITE'' \<and> \<not> has_justification then (False, ''RETENTATIVA'', ''ACEITE sem justificativa'')
               else (v = ''ACEITE'', v, t))))"

section \<open>The command /task\<close>

definition cmd_task :: pystr where "cmd_task = ''/task''"

definition parse_task_command :: "pystr \<Rightarrow> pystr" where
  "parse_task_command command =
     (let raw = py_strip (drop (length cmd_task) command) in
      normalize_task_description
        (if length raw \<ge> 2 \<and> hd raw = last raw \<and> hd raw \<in> {CHR 0x27, quote}
         then py_strip (butlast (tl raw)) else raw))"


section \<open>The search of the verdict line\<close>

definition line_verdict :: "pystr \<Rightarrow> pystr option" where
  "line_verdict line = (case verdict_prefix (dropWhile lead_char line) of
     None \<Rightarrow> None | Some (v, r) \<Rightarrow> if list_all trail_char r then Some v else None)"

fun first_some :: "('a \<Rightarrow> 'b option) \<Rightarrow> 'a list \<Rightarrow> 'b option" where
  "first_some f [] = None"
| "first_some f (x # xs) = (case f x of Some y \<Rightarrow> Some y | None \<Rightarrow> first_some f xs)"

abbreviation newline :: char where "newline \<equiv> CHR 0x0A"

lemma split_char_line: "newline \<notin> set l \<Longrightarrow> split_char newline l = [l]"
  by (induction l) auto

lemma split_char_lines: "newline \<notin> set l \<Longrightarrow> split_char newline (l @ newline # r) = l # split_char newline r"
  by (induction l) auto

lemma lines_cases:
  obtains "newline \<notin> set t" | l r where "newline \<notin> set l" "t = l @ newline # r"
  by (metis split_list_first)

lemma newline_chars [simp]: "lead_char newline" "trail_char newline"
  by (simp_all add: lead_char_def trail_char_def py_isspace_def)

lemma verdict_plain: "v \<in> set verdicts \<Longrightarrow> newline \<notin> set v \<and> v \<noteq> []"
  by (auto simp: verdicts_def)

lemma verdict_unique: "v \<in> set verdicts \<Longrightarrow> w \<in> set verdicts \<Longrightarrow> prefix v t \<Longrightarrow> prefix w t \<Longrightarrow> v = w"
  by (auto simp: verdicts_def prefix_def)

lemma verdict_prefix_iff: "verdict_prefix t = Some (v, r) \<longleftrightarrow> v \<in> set verdicts \<and> t = v @ r"
proof
  assume "verdict_prefix t = Some (v, r)"
  then have f: "find (\<lambda>v. prefix v t) verdicts = Some v" and "r = drop (length v) t" by (auto simp: verdict_prefix_def)
  moreover from find_SomeD [OF f] have "v \<in> set verdicts" "prefix v t" by blast+
  ultimately show "v \<in> set verdicts \<and> t = v @ r" by (metis append_eq_conv_conj prefix_def)
next
  assume a: "v \<in> set verdicts \<and> t = v @ r"
  then have "find (\<lambda>v. prefix v t) verdicts \<noteq> None"
    by (auto simp: find_None_iff_ball prefix_def intro!: bexI [of _ v])
  then obtain w where w: "find (\<lambda>v. prefix v t) verdicts = Some w" by blast
  with find_SomeD [OF w] verdict_unique [of w v t] a have "w = v" by auto
  with w a show "verdict_prefix t = Some (v, r)" by (simp add: verdict_prefix_def)
qed

lemma verdict_then: "(case verdict_prefix t of None \<Rightarrow> None | Some (v, r) \<Rightarrow> if P r then Some v else None) = Some v \<longleftrightarrow>
    (\<exists>r. v \<in> set verdicts \<and> t = v @ r \<and> P r)"
proof (cases "verdict_prefix t")
  case None
  then show ?thesis using verdict_prefix_iff [of t v] by auto
next
  case (Some a)
  obtain w q where a: "a = (w, q)" by fastforce
  have w: "w \<in> set verdicts" "t = w @ q" using verdict_prefix_iff [of t w q] Some a by auto
  have "r = q \<and> v = w" if "v \<in> set verdicts" "t = v @ r" for r
  proof -
    have "v = w" by (rule verdict_unique [OF that(1) w(1), of t]) (use that(2) w(2) in \<open>metis prefixI\<close>)+
    with that(2) w(2) show ?thesis by simp
  qed
  with w Some a show ?thesis by auto
qed

lemma line_verdict_iff: "line_verdict l = Some v \<longleftrightarrow>
    (\<exists>r. v \<in> set verdicts \<and> dropWhile lead_char l = v @ r \<and> list_all trail_char r)"
  unfolding line_verdict_def by (rule verdict_then)

definition trail_end :: "pystr \<Rightarrow> bool" where
  "trail_end r \<longleftrightarrow> dropWhile trail_char r = [] \<or> newline \<in> set (takeWhile trail_char r)"

lemma verdict_at_iff: "verdict_at t = Some v \<longleftrightarrow>
    (\<exists>r. v \<in> set verdicts \<and> dropWhile lead_char t = v @ r \<and> trail_end r)"
  unfolding verdict_at_def trail_end_def by (rule verdict_then)

lemma blank_line_verdict: "list_all lead_char l \<Longrightarrow> line_verdict l = None"
  using line_verdict_iff [of l] verdict_plain
  by (metis append_is_Nil_conv dropWhile_eq_Nil_conv list_all_iff not_Some_eq)

lemma trail_end_line: "newline \<notin> set r \<Longrightarrow> trail_end (r @ newline # rest) \<longleftrightarrow> list_all trail_char r"
proof (induction r)
  case (Cons c r)
  then show ?case by (cases "trail_char c") (auto simp: trail_end_def)
qed (simp add: trail_end_def)

lemma trail_end_last: "newline \<notin> set r \<Longrightarrow> trail_end r \<longleftrightarrow> list_all trail_char r"
  using set_takeWhileD [of newline trail_char r] by (auto simp: trail_end_def dropWhile_eq_Nil_conv list_all_iff)

lemma verdict_split:
  assumes "v \<in> set verdicts" "newline \<notin> set x" "x @ newline # rest = v @ r"
  shows "\<exists>q. x = v @ q \<and> r = q @ newline # rest"
proof -
  from assms(3) consider q where "x = v @ q" "r = q @ newline # rest" | q where "v = x @ q" "newline # rest = q @ r"
    by (auto simp: append_eq_append_conv2)
  then show ?thesis
  proof cases
    case 2
    with verdict_plain [OF assms(1)] show ?thesis by (cases q) auto
  qed blast
qed

text \<open>One place of the search, against the line that begins there.\<close>

lemma verdict_at_last: "newline \<notin> set t \<Longrightarrow> verdict_at t = line_verdict t"
proof -
  assume a: "newline \<notin> set t"
  have "newline \<notin> set r" if "dropWhile lead_char t = v @ r" for v r
    using that a by (metis UnCI set_append set_dropWhileD)
  then have "verdict_at t = Some v \<longleftrightarrow> line_verdict t = Some v" for v
    unfolding verdict_at_iff line_verdict_iff using trail_end_last by blast
  then show ?thesis by (metis not_Some_eq)
qed

lemma verdict_at_line:
  assumes "newline \<notin> set l"
  shows "verdict_at (l @ newline # rest) = (if list_all lead_char l then verdict_at rest else line_verdict l)"
proof (cases "list_all lead_char l")
  case True
  then have "dropWhile lead_char (l @ newline # rest) = dropWhile lead_char rest"
    by (simp add: dropWhile_append list_all_iff)
  with True show ?thesis by (simp add: verdict_at_def)
next
  case False
  define x where "x = dropWhile lead_char l"
  have d: "dropWhile lead_char (l @ newline # rest) = x @ newline # rest"
    using False by (auto simp: dropWhile_append list_all_iff x_def)
  have x: "newline \<notin> set x" using assms unfolding x_def by (meson set_dropWhileD)
  have "verdict_at (l @ newline # rest) = Some v \<longleftrightarrow> line_verdict l = Some v" for v
  proof
    assume "verdict_at (l @ newline # rest) = Some v"
    then obtain r where "v \<in> set verdicts" "x @ newline # rest = v @ r" "trail_end r" by (auto simp: verdict_at_iff d)
    with verdict_split [OF _ x] obtain q where "v \<in> set verdicts" "x = v @ q" "trail_end (q @ newline # rest)" by metis
    with x show "line_verdict l = Some v" by (auto simp: line_verdict_iff x_def [symmetric] trail_end_line)
  next
    assume "line_verdict l = Some v"
    then obtain q where "v \<in> set verdicts" "x = v @ q" "list_all trail_char q" by (auto simp: line_verdict_iff x_def [symmetric])
    with x show "verdict_at (l @ newline # rest) = Some v" by (auto simp: verdict_at_iff d trail_end_line)
  qed
  with False show ?thesis by (metis not_Some_eq)
qed

lemma verdict_search_skip: "newline \<notin> set l \<Longrightarrow> verdict_search False l = None"
  "newline \<notin> set l \<Longrightarrow> verdict_search False (l @ newline # rest) = verdict_search True rest"
  by (induction l) auto

lemma verdict_search_step: "verdict_search True t = (case verdict_at t of Some v \<Rightarrow> Some v
    | None \<Rightarrow> (case t of [] \<Rightarrow> None | c # cs \<Rightarrow> verdict_search (c = newline) cs))"
  by (cases t) (auto split: option.splits)

lemma verdict_search_True_last: "newline \<notin> set t \<Longrightarrow> verdict_search True t = line_verdict t"
  by (cases t) (auto simp: verdict_search_step verdict_at_last verdict_search_skip split: option.splits)

lemma verdict_search_True_line: "newline \<notin> set l \<Longrightarrow> verdict_search True (l @ newline # rest) =
    (case verdict_at (l @ newline # rest) of Some v \<Rightarrow> Some v | None \<Rightarrow> verdict_search True rest)"
  by (cases l) (auto simp: verdict_search_step [of "_ @ _"] verdict_search_step [of "_ # _"] verdict_search_skip split: option.splits)

lemma verdict_at_found: "verdict_at t = Some v \<Longrightarrow> verdict_search True t = Some v"
  by (simp add: verdict_search_step)

text \<open>The pattern with its run over line ends finds exactly the first line that is only a verdict.\<close>

lemma verdict_search_lines: "verdict_search True t = first_some line_verdict (split_char newline t)"
proof (induction t rule: length_induct)
  case (1 t)
  show ?case
  proof (rule lines_cases [of t])
    assume "newline \<notin> set t"
    then show ?thesis by (auto simp: verdict_search_True_last split_char_line split: option.splits)
  next
    fix l rest assume l: "newline \<notin> set l" and t: "t = l @ newline # rest"
    have IH: "verdict_search True rest = first_some line_verdict (split_char newline rest)" using 1 t by simp
    show ?thesis
      using blank_line_verdict [of l]
      by (auto simp: t verdict_search_True_line [OF l] verdict_at_line [OF l] split_char_lines [OF l] IH [symmetric]
          verdict_at_found split: option.splits)
  qed
qed


text \<open>
  A review counts as an acceptance exactly if the answer says more than a verdict and its verdict
  is ACEITE: the verdict of the first line that holds nothing but a verdict and decoration, and only
  without such a line that of the first line or the text. A sentence that mentions a verdict never
  overrides the line that gives it.
\<close>

theorem acceptance_exact:
  "fst (classify_task_review_result response) \<longleftrightarrow>
     (\<exists>answer. response = Some answer \<and>
       (\<exists>line \<in> set (split_char newline (py_strip answer)). py_strip line \<noteq> [] \<and> \<not> bare_verdict line) \<and>
       (case first_some line_verdict (split_char newline (py_upper (py_strip answer))) of
          Some v \<Rightarrow> v = ''ACEITE''
        | None \<Rightarrow> review_verdict (py_strip answer) = Some ''ACEITE''))"
proof (cases response)
  case (Some answer)
  have v: "(case first_some line_verdict (split_char newline (py_upper t)) of Some v \<Rightarrow> v = ''ACEITE''
      | None \<Rightarrow> review_verdict t = Some ''ACEITE'') \<longleftrightarrow> review_verdict t = Some ''ACEITE''" for t
    by (simp add: review_verdict_def verdict_search_lines Let_def split: option.splits)
  have "\<not> (\<exists>line \<in> set (split_char newline []). py_strip line \<noteq> [])" by simp
  with Some show ?thesis unfolding v
    by (cases "py_strip answer = []") (auto simp: classify_task_review_result_def Let_def list_ex_iff split: option.splits)
qed (simp add: classify_task_review_result_def)

section \<open>Reports\<close>

definition format_completed_task_result :: "nat \<Rightarrow> nat \<Rightarrow> TaskRow \<Rightarrow> pystr" where
  "format_completed_task_result max_desc max_value r =
     (let desc = take max_desc (t_description r); result = or_empty (t_result r) in
      ''[task '' @ show_int (t_id r) @ ''] '' @ desc @ '': '' @
      (if result \<noteq> [] then take max_value result else ''conclu'' @ [CHR 0xED] @ ''do''))"

text \<open>The loop over the tasks, newest first: the lines kept, their length with the separators, the count of the others.\<close>

fun keep_lines :: "nat \<Rightarrow> pystr list \<Rightarrow> pystr list \<Rightarrow> nat \<Rightarrow> nat \<Rightarrow> pystr list \<times> nat" where
  "keep_lines max_chars [] kept used omitted = (kept, omitted)"
| "keep_lines max_chars (line # lines) kept used omitted =
     (let separator = (if kept \<noteq> [] then 1 else 0) in
      if used + separator + length line > max_chars then keep_lines max_chars lines kept used (omitted + 1)
      else keep_lines max_chars lines (kept @ [line]) (used + separator + length line) omitted)"

definition join_lines :: "pystr list \<Rightarrow> pystr" where
  "join_lines lines = py_join [newline] lines"

definition omitted_line :: "nat \<Rightarrow> pystr" where
  "omitted_line n = ''... ('' @ show_nat n @ '' task(s) conclu'' @ [CHR 0xED] @ ''da(s) anterior(es) omitida(s))''"

fun drop_to_fit :: "nat \<Rightarrow> pystr \<Rightarrow> pystr list \<Rightarrow> pystr list" where
  "drop_to_fit max_chars header [] = []"
| "drop_to_fit max_chars header (line # lines) =
     (if length (join_lines (header # line # lines)) > max_chars then drop_to_fit max_chars header lines else line # lines)"

definition build_completed_task_results :: "nat \<Rightarrow> nat \<Rightarrow> nat \<Rightarrow> TaskRow list \<Rightarrow> pystr" where
  "build_completed_task_results max_chars max_desc max_value completed =
     (if completed = [] then []
      else let format = format_completed_task_result max_desc max_value;
               (kept, omitted) = keep_lines max_chars (map format (rev completed)) [] 0 0 in
        if kept = [] then take max_chars (format (last completed))
        else let lines = rev kept in
          if omitted = 0 then join_lines lines
          else let header = omitted_line omitted; candidate = join_lines (header # lines) in
            if length candidate \<le> max_chars then candidate
            else case drop_to_fit max_chars header lines of
                [] \<Rightarrow> take max_chars header
              | line # rest \<Rightarrow>
                  if length (join_lines (header # line # rest)) > max_chars
                  then (let available = int max_chars - int (length header) - 1 in
                    if available \<le> 0 then take max_chars (format (last completed))
                    else join_lines (header # take (nat available) line # rest))
                  else join_lines (header # line # rest))"

definition max_completed_task_results_chars :: nat where "max_completed_task_results_chars = 2000"
definition max_completed_task_result_desc_chars :: nat where "max_completed_task_result_desc_chars = 80"
definition max_completed_task_result_value_chars :: nat where "max_completed_task_result_value_chars = 200"
definition max_task_feedback_summary_chars :: nat where "max_task_feedback_summary_chars = 140"
definition max_task_feedback_summary_lines :: nat where "max_task_feedback_summary_lines = 6"

definition strip_empty_trailing :: "pystr list \<Rightarrow> pystr list" where
  "strip_empty_trailing lines = rev (dropWhile (\<lambda>l. py_strip l = []) (rev lines))"

definition summarize_task_feedback :: "PyText \<Rightarrow> nat \<Rightarrow> nat \<Rightarrow> pystr option \<Rightarrow> pystr" where
  "summarize_task_feedback py max_chars max_lines result =
     (if or_empty result = [] then []
      else let stripped = strip_empty_trailing (split_char newline (or_empty result));
               kept = take max_lines stripped;
               summary = join_lines (if length kept < length stripped then kept @ [[py_ellipsis py]] else kept) in
        if length summary \<le> max_chars then summary
        else if max_chars \<le> 1 then take max_chars summary
        else py_rstrip (take (max_chars - 1) summary) @ [py_ellipsis py])"

text \<open>\<open>format_task_requeue\<close> on the fields of the event \<open>TaskRequeued\<close>.\<close>

definition format_task_requeue :: "PyText \<Rightarrow> int \<Rightarrow> pystr option \<Rightarrow> pystr \<Rightarrow> int \<Rightarrow> pystr option \<Rightarrow> pystr" where
  "format_task_requeue py tid reason failed_agent attempt assigned_to =
     (let attempt_text = ''tentativa '' @ show_int (attempt + 1);
          line = ''[task '' @ show_int tid @ ''] '' @
            (if or_empty assigned_to \<noteq> [] then ''volta para '' @ or_empty assigned_to @ '' refazer ('' @ attempt_text @ '')''
             else if failed_agent \<noteq> [] then ''sai de '' @ failed_agent @ '' e passa para outro agente ('' @ attempt_text @ '')''
             else ''volta para a fila ('' @ attempt_text @ '')'');
          first = (case filter (\<lambda>part. part \<noteq> []) (map py_strip (py_splitlines (or_empty reason))) of [] \<Rightarrow> [] | p # _ \<Rightarrow> p);
          shown = (if length first > max_task_feedback_summary_chars
            then py_rstrip (take (max_task_feedback_summary_chars - 1) first) @ [py_ellipsis py] else first)
      in if shown \<noteq> [] then line @ '': '' @ shown else line)"

definition describe_rework :: "TaskStatus option \<Rightarrow> pystr option \<Rightarrow> pystr" where
  "describe_rework status owner =
     (if status = Some PENDING then
        (if or_empty owner \<noteq> [] then ''volta para '' @ or_empty owner @ '' refazer'' else ''volta para a fila'')
      else if status = Some FAILED then ''limite de entregas devolvidas atingido; a task falhou''
      else ''a task mudou durante a run; nada foi devolvido'')"

section \<open>The budget of the report\<close>

lemma length_join_Cons: "length (join_lines (x # xs)) = length x + (if xs = [] then 0 else 1 + length (join_lines xs))"
  by (cases xs) (simp_all add: join_lines_def)

lemma length_join: "length (join_lines xs) = sum_list (map length xs) + (length xs - 1)"
  by (induction xs) (auto simp: length_join_Cons join_lines_def [of "[]"] neq_Nil_conv)

lemma length_join_rev: "length (join_lines (rev xs)) = length (join_lines xs)"
  unfolding length_join by (simp add: rev_map [symmetric] sum_list_rev)

lemma keep_lines_budget:
  "keep_lines m lines kept used omitted = (kept', omitted') \<Longrightarrow> used = length (join_lines kept) \<Longrightarrow> used \<le> m \<Longrightarrow>
     length (join_lines kept') \<le> m"
proof (induction lines arbitrary: kept used omitted)
  case (Cons line lines)
  have "length (join_lines (kept @ [line])) = length (join_lines kept) + (if kept \<noteq> [] then 1 else 0) + length line"
    unfolding length_join by (cases kept) simp_all
  then show ?case
    using Cons.prems Cons.IH [of kept used "omitted + 1"]
      Cons.IH [of "kept @ [line]" "used + (if kept \<noteq> [] then 1 else 0) + length line" omitted]
    by (simp add: Let_def split: if_splits)
qed (simp add: join_lines_def)

lemma drop_to_fit_fits: "drop_to_fit m header lines = line # rest \<Longrightarrow> length (join_lines (header # line # rest)) \<le> m"
  by (induction lines) (auto split: if_splits)

text \<open>
  The report of the completed tasks never exceeds its budget, whatever the tasks returned and
  however long their descriptions are.
\<close>

theorem completed_results_bounded:
  "length (build_completed_task_results max_chars max_desc max_value completed) \<le> max_chars"
proof -
  let ?format = "format_completed_task_result max_desc max_value"
  obtain kept omitted where k: "keep_lines max_chars (map ?format (rev completed)) [] 0 0 = (kept, omitted)" by fastforce
  have "length (join_lines (rev kept)) \<le> max_chars"
    using keep_lines_budget [OF k] by (simp add: length_join_rev join_lines_def [of "[]"])
  then show ?thesis
    using drop_to_fit_fits [of max_chars "omitted_line omitted" "rev kept"]
    by (auto simp: build_completed_task_results_def Let_def k split: list.splits)
qed

end
