(* ===== verification/Workspace_Files.thy ===== *)
theory Workspace_Files
  imports Action_Invariants Handoff Task_Reports "HOL-Library.AList"
begin

text \<open>
  What the file tools share (\<open>runtime/models.py\<close>, \<open>runtime/policy.py\<close>, \<open>runtime/tools/base.py\<close>):
  calls and results of tools, and the file system as they use it. An absolute path is the list of
  its components. A file has a text and a fingerprint; the operating system's resolution of a path
  (\<open>Path.resolve\<close>, symbolic links included) and the fingerprint of a file that is written are
  parameters. Other processes do not change files during one call; operations fail for the structure of
  the tree only (a directory where a file is needed, a file among the parents).
\<close>

section \<open>Paths\<close>

type_synonym fpath = "pystr list"

definition path_text :: "fpath \<Rightarrow> pystr" where
  "path_text p = (if p = [] then ''/'' else concat (map (\<lambda>c. CHR ''/'' # c) p))"

text \<open>\<open>Path (text).parts\<close> of a relative text: empty components and \<open>.\<close> are dropped, \<open>..\<close> is kept.\<close>

definition path_parts :: "pystr \<Rightarrow> pystr list" where
  "path_parts raw = filter (\<lambda>c. c \<noteq> [] \<and> c \<noteq> ''.'') (split_char (CHR ''/'') raw)"

definition strip_slashes :: "pystr \<Rightarrow> pystr" where
  "strip_slashes raw = dropWhile (\<lambda>c. c = CHR ''/'') raw"

definition joined :: "fpath \<Rightarrow> pystr \<Rightarrow> fpath" where
  "joined base raw = base @ path_parts (strip_slashes raw)"

text \<open>\<open>resolve\<close> where there are no symbolic links.\<close>

definition lexical_resolve :: "fpath \<Rightarrow> fpath" where
  "lexical_resolve p = foldl (\<lambda>acc c. if c = ''..'' then butlast acc else acc @ [c]) [] p"

section \<open>Files\<close>

record FileFingerprint =
  fp_mtime_ns :: int
  fp_ctime_ns :: int
  fp_size :: int
  fp_device :: int
  fp_inode :: int

datatype node = Dir | File pystr FileFingerprint

type_synonym tree = "(fpath \<times> node) list"

definition node_at :: "tree \<Rightarrow> fpath \<Rightarrow> node option" where
  "node_at t p = map_of t p"

definition path_exists :: "tree \<Rightarrow> fpath \<Rightarrow> bool" where
  "path_exists t p \<longleftrightarrow> node_at t p \<noteq> None"

definition is_file :: "tree \<Rightarrow> fpath \<Rightarrow> bool" where
  "is_file t p = (case node_at t p of Some (File _ _) \<Rightarrow> True | _ \<Rightarrow> False)"

definition is_dir :: "tree \<Rightarrow> fpath \<Rightarrow> bool" where
  "is_dir t p = (node_at t p = Some Dir)"

definition dir_entries :: "tree \<Rightarrow> fpath \<Rightarrow> (pystr \<times> bool) list" where
  "dir_entries t p = map (\<lambda>(q, n). (last q, n = Dir)) (filter (\<lambda>(q, n). q \<noteq> [] \<and> butlast q = p) t)"

section \<open>Exceptions and results\<close>

datatype os_error = IsDirectory | NotFound | NotDirectory

datatype tool_exception = ValueErr pystr | PolicyErr pystr | PatchErr pystr
  | OsErr os_error fpath | KeyErr pystr | BadArgument json | RuntimeErr pystr

record ToolResult =
  tr_ok :: bool
  tr_tool :: pystr
  tr_content :: pystr
  tr_error :: "pystr option"
  tr_truncated :: bool
  tr_data :: "(pystr \<times> json) list"

definition tool_success :: "pystr \<Rightarrow> pystr \<Rightarrow> (pystr \<times> json) list \<Rightarrow> ToolResult" where
  "tool_success name content data = \<lparr> tr_ok = True, tr_tool = name, tr_content = content, tr_error = None,
     tr_truncated = False, tr_data = data \<rparr>"

definition tool_failure :: "pystr \<Rightarrow> pystr \<Rightarrow> (pystr \<times> json) list \<Rightarrow> ToolResult" where
  "tool_failure name message data = \<lparr> tr_ok = False, tr_tool = name, tr_content = [], tr_error = Some message,
     tr_truncated = False, tr_data = data \<rparr>"

text \<open>\<open>path.parent.mkdir (parents=True, exist_ok=True)\<close>.\<close>

fun make_dirs :: "fpath list \<Rightarrow> tree \<Rightarrow> tool_exception + tree" where
  "make_dirs [] t = Inr t"
| "make_dirs (p # ps) t = (case node_at t p of
     None \<Rightarrow> make_dirs ps (AList.update p Dir t)
   | Some Dir \<Rightarrow> make_dirs ps t
   | Some (File _ _) \<Rightarrow> Inl (OsErr NotDirectory p))"

definition make_parents :: "fpath \<Rightarrow> tree \<Rightarrow> tool_exception + tree" where
  "make_parents p t = make_dirs (prefixes (butlast p)) t"

definition write_text :: "fpath \<Rightarrow> pystr \<Rightarrow> FileFingerprint \<Rightarrow> tree \<Rightarrow> tool_exception + tree" where
  "write_text p content fp t =
     (if is_dir t p then Inl (OsErr IsDirectory p)
      else if p \<noteq> [] \<and> \<not> is_dir t (butlast p) then Inl (OsErr NotFound p)
      else Inr (AList.update p (File content fp) t))"

definition unlink :: "fpath \<Rightarrow> tree \<Rightarrow> tool_exception + tree" where
  "unlink p t = (case node_at t p of
     None \<Rightarrow> Inl (OsErr NotFound p)
   | Some Dir \<Rightarrow> Inl (OsErr IsDirectory p)
   | Some (File _ _) \<Rightarrow> Inr (AList.delete p t))"

text \<open>Reading in text mode turns every kind of line end into one line feed.\<close>

fun universal_newlines :: "pystr \<Rightarrow> pystr" where
  "universal_newlines [] = []"
| "universal_newlines (c # cs) =
     (if c = CHR 0x0D then CHR 0x0A # universal_newlines (if cs \<noteq> [] \<and> hd cs = CHR 0x0A then tl cs else cs)
      else c # universal_newlines cs)"

definition read_text :: "fpath \<Rightarrow> tree \<Rightarrow> tool_exception + pystr" where
  "read_text p t = (case node_at t p of
     None \<Rightarrow> Inl (OsErr NotFound p)
   | Some Dir \<Rightarrow> Inl (OsErr IsDirectory p)
   | Some (File content _) \<Rightarrow> Inr (universal_newlines content))"

section \<open>Calls of tools\<close>

text \<open>\<open>TrustedToolExecutionContext\<close>.\<close>

record TrustedContext =
  tc_agent_name :: "pystr option"
  tc_parent_agent :: "pystr option"
  tc_run_id :: "pystr option"
  tc_parent_run_id :: "pystr option"
  tc_job_id :: "json option"
  tc_task_id :: "json option"
  tc_transport :: pystr
  tc_session_id :: "pystr option"
  tc_client_name :: "pystr option"
  tc_client_version :: "pystr option"
  tc_server_origin :: pystr
  tc_http_profile :: "pystr option"
  tc_approval_scope_id :: "pystr option"
  tc_delegation_budget :: "int option"
  tc_http_delegate_auto_approve :: bool

datatype meta_value = MetaJson json | MetaContext TrustedContext

text \<open>\<open>metadata\<close> is \<open>None\<close> where Python has \<open>None\<close> instead of a dict.\<close>

record ToolCall =
  tool_name :: pystr
  arguments :: "(pystr \<times> json) list"
  call_id :: "pystr option"
  metadata :: "(pystr \<times> meta_value) list option"

definition arg :: "ToolCall \<Rightarrow> pystr \<Rightarrow> json option" where
  "arg call k = map_of (arguments call) k"

definition meta_truthy :: "meta_value option \<Rightarrow> bool" where
  "meta_truthy v = (case v of None \<Rightarrow> False | Some (MetaContext _) \<Rightarrow> True | Some (MetaJson j) \<Rightarrow> truthy j)"

text \<open>\<open>metadata.get ("trusted_context") or metadata.get ("_trusted_context")\<close>.\<close>

definition call_context :: "ToolCall \<Rightarrow> meta_value option" where
  "call_context call = (let m = (case metadata call of None \<Rightarrow> [] | Some kvs \<Rightarrow> kvs);
     v = map_of m ''trusted_context'' in if meta_truthy v then v else map_of m ''_trusted_context'')"

end
