(* ===== verification/Tool_Metadata.thy ===== *)
theory Tool_Metadata
  imports Workspace_Files
begin

text \<open>
  What the runtime knows of each tool (\<open>runtime/tool_metadata.py\<close>) and how much autonomy a workspace grants
  for each kind of risk (\<open>runtime/workspace_policy.py\<close>).
\<close>

section \<open>Metadata\<close>

datatype ToolRisk = RISK_READ | RISK_NETWORK | RISK_DELEGATION | RISK_WRITE | RISK_SHELL | RISK_DESTRUCTIVE

fun risk_value :: "ToolRisk \<Rightarrow> pystr" where
  "risk_value RISK_READ = ''read''"
| "risk_value RISK_NETWORK = ''network''"
| "risk_value RISK_DELEGATION = ''delegation''"
| "risk_value RISK_WRITE = ''write''"
| "risk_value RISK_SHELL = ''shell''"
| "risk_value RISK_DESTRUCTIVE = ''destructive''"

datatype ApprovalMode = AM_NONE | AM_MUTATION | AM_TASK_CREATION | AM_HTTP_METHOD

record ToolMetadata =
  tm_risk :: ToolRisk
  tm_mutates :: bool
  tm_approval :: ApprovalMode
  tm_path_args :: "pystr list"
  tm_requires_path_permission :: bool
  tm_serialization :: "pystr option"
  tm_parallel_safe :: bool
  tm_capabilities :: "pystr list"
  tm_http_profiles :: "pystr list"

definition tool_meta :: "ToolRisk \<Rightarrow> ToolMetadata" where
  "tool_meta risk = \<lparr> tm_risk = risk, tm_mutates = False, tm_approval = AM_NONE, tm_path_args = [],
     tm_requires_path_permission = False, tm_serialization = None, tm_parallel_safe = False,
     tm_capabilities = [], tm_http_profiles = [] \<rparr>"

definition read_local :: "pystr list" where "read_local = [''read-local'', ''read'', ''agent'']"
definition read_network :: "pystr list" where "read_network = [''read'', ''agent'']"
definition agent_only :: "pystr list" where "agent_only = [''agent'']"

section \<open>The table\<close>

definition host_tools :: "(pystr \<times> ToolMetadata) list" where
  "host_tools = [
    (''host_processes'', (tool_meta RISK_READ)\<lparr>tm_parallel_safe := True, tm_http_profiles := read_local\<rparr>),
    (''host_process_inspect'', (tool_meta RISK_READ)\<lparr>tm_parallel_safe := True, tm_http_profiles := read_local\<rparr>),
    (''host_process_sample'', (tool_meta RISK_READ)\<lparr>tm_parallel_safe := True, tm_http_profiles := read_local\<rparr>),
    (''host_memory'', (tool_meta RISK_READ)\<lparr>tm_parallel_safe := True, tm_http_profiles := read_local\<rparr>)]"

definition session_tools :: "(pystr \<times> ToolMetadata) list" where
  "session_tools = [
    (''tui_screenshot'', (tool_meta RISK_READ)\<lparr>tm_parallel_safe := True, tm_capabilities := [''tui_screenshot''], tm_http_profiles := read_local\<rparr>),
    (''tool_search'', (tool_meta RISK_READ)\<lparr>tm_parallel_safe := True, tm_http_profiles := read_local\<rparr>)]"

definition workspace_tools :: "(pystr \<times> ToolMetadata) list" where
  "workspace_tools = [
    (''list_files'', (tool_meta RISK_READ)\<lparr>tm_path_args := [''path''], tm_requires_path_permission := True, tm_parallel_safe := True, tm_http_profiles := read_local\<rparr>),
    (''read_file'', (tool_meta RISK_READ)\<lparr>tm_path_args := [''path''], tm_requires_path_permission := True, tm_parallel_safe := True, tm_http_profiles := read_local\<rparr>),
    (''write_file'', (tool_meta RISK_WRITE)\<lparr>tm_mutates := True, tm_approval := AM_MUTATION, tm_path_args := [''path''], tm_serialization := Some ''path''\<rparr>),
    (''replace_text'', (tool_meta RISK_WRITE)\<lparr>tm_mutates := True, tm_approval := AM_MUTATION, tm_path_args := [''path''], tm_serialization := Some ''path'', tm_http_profiles := agent_only\<rparr>),
    (''apply_patch'', (tool_meta RISK_WRITE)\<lparr>tm_mutates := True, tm_approval := AM_MUTATION, tm_serialization := Some ''patch_paths''\<rparr>),
    (''grep_search'', (tool_meta RISK_READ)\<lparr>tm_path_args := [''path''], tm_requires_path_permission := True, tm_parallel_safe := True, tm_http_profiles := read_local\<rparr>),
    (''inspect_symbols'', (tool_meta RISK_READ)\<lparr>tm_path_args := [''path''], tm_parallel_safe := True, tm_http_profiles := read_local\<rparr>),
    (''remove_file'', (tool_meta RISK_DESTRUCTIVE)\<lparr>tm_mutates := True, tm_approval := AM_MUTATION, tm_path_args := [''path''], tm_requires_path_permission := True, tm_serialization := Some ''path''\<rparr>)]"

definition process_tools :: "(pystr \<times> ToolMetadata) list" where
  "process_tools = [
    (''run_shell'', (tool_meta RISK_SHELL)\<lparr>tm_mutates := True, tm_approval := AM_MUTATION, tm_serialization := Some ''workspace''\<rparr>),
    (''exec_command'', (tool_meta RISK_SHELL)\<lparr>tm_mutates := True, tm_approval := AM_MUTATION, tm_serialization := Some ''workspace''\<rparr>),
    (''close_command_session'', (tool_meta RISK_WRITE)\<lparr>tm_mutates := True, tm_approval := AM_MUTATION, tm_serialization := Some ''command_session''\<rparr>),
    (''write_stdin'', (tool_meta RISK_WRITE)\<lparr>tm_mutates := True, tm_approval := AM_MUTATION, tm_serialization := Some ''command_session''\<rparr>),
    (''poll_command_session'', (tool_meta RISK_SHELL)\<lparr>tm_mutates := True, tm_approval := AM_MUTATION, tm_serialization := Some ''command_session''\<rparr>)]"

definition task_tools :: "(pystr \<times> ToolMetadata) list" where
  "task_tools = [
    (''tasks_create'', (tool_meta RISK_WRITE)\<lparr>tm_mutates := True, tm_approval := AM_TASK_CREATION, tm_capabilities := [''task_db'', ''tasks''], tm_http_profiles := agent_only\<rparr>),
    (''tasks_delegate'', (tool_meta RISK_DELEGATION)\<lparr>tm_mutates := True, tm_approval := AM_MUTATION, tm_capabilities := [''delegate''], tm_http_profiles := agent_only\<rparr>),
    (''tasks_list'', (tool_meta RISK_READ)\<lparr>tm_parallel_safe := True, tm_capabilities := [''task_db''], tm_http_profiles := read_local\<rparr>),
    (''tasks_cancel'', (tool_meta RISK_WRITE)\<lparr>tm_mutates := True, tm_capabilities := [''task_db'', ''delegate''], tm_http_profiles := agent_only\<rparr>)]"

definition workflow_tools :: "(pystr \<times> ToolMetadata) list" where
  "workflow_tools = [
    (''workflows_create'', (tool_meta RISK_WRITE)\<lparr>tm_mutates := True, tm_capabilities := [''task_db'', ''workflows''], tm_http_profiles := agent_only\<rparr>),
    (''workflows_start'', (tool_meta RISK_WRITE)\<lparr>tm_mutates := True, tm_approval := AM_TASK_CREATION, tm_capabilities := [''task_db'', ''workflows''], tm_http_profiles := agent_only\<rparr>),
    (''workflows_status'', (tool_meta RISK_READ)\<lparr>tm_parallel_safe := True, tm_capabilities := [''task_db'', ''workflows''], tm_http_profiles := read_local\<rparr>),
    (''workflows_control'', (tool_meta RISK_WRITE)\<lparr>tm_mutates := True, tm_capabilities := [''task_db'', ''workflows''], tm_http_profiles := agent_only\<rparr>),
    (''workflows_replan'', (tool_meta RISK_WRITE)\<lparr>tm_mutates := True, tm_approval := AM_TASK_CREATION, tm_capabilities := [''task_db'', ''workflows''], tm_http_profiles := agent_only\<rparr>),
    (''workflows_cancel'', (tool_meta RISK_WRITE)\<lparr>tm_mutates := True, tm_capabilities := [''task_db'', ''workflows''], tm_http_profiles := agent_only\<rparr>),
    (''workflows_finish'', (tool_meta RISK_WRITE)\<lparr>tm_mutates := True, tm_capabilities := [''task_db'', ''workflows''], tm_http_profiles := agent_only\<rparr>)]"

definition job_tools :: "(pystr \<times> ToolMetadata) list" where
  "job_tools = [
    (''jobs_list'', (tool_meta RISK_READ)\<lparr>tm_parallel_safe := True, tm_capabilities := [''task_db''], tm_http_profiles := read_local\<rparr>),
    (''jobs_get'', (tool_meta RISK_READ)\<lparr>tm_parallel_safe := True, tm_capabilities := [''task_db''], tm_http_profiles := read_local\<rparr>),
    (''todo_write'', (tool_meta RISK_WRITE)\<lparr>tm_mutates := True\<rparr>),
    (''todo_list'', (tool_meta RISK_READ)\<lparr>tm_parallel_safe := True, tm_http_profiles := read_local\<rparr>)]"

definition network_tools :: "(pystr \<times> ToolMetadata) list" where
  "network_tools = [
    (''web_search'', (tool_meta RISK_NETWORK)\<lparr>tm_parallel_safe := True, tm_http_profiles := read_network\<rparr>),
    (''web_fetch'', (tool_meta RISK_NETWORK)\<lparr>tm_parallel_safe := True, tm_http_profiles := read_network\<rparr>),
    (''http_request'', (tool_meta RISK_NETWORK)\<lparr>tm_mutates := True, tm_approval := AM_HTTP_METHOD, tm_http_profiles := agent_only\<rparr>)]"

definition memory_tools :: "(pystr \<times> ToolMetadata) list" where
  "memory_tools = [
    (''memory_save'', (tool_meta RISK_READ)\<lparr>tm_mutates := True, tm_http_profiles := agent_only\<rparr>),
    (''memory_retrieve'', (tool_meta RISK_READ)\<lparr>tm_http_profiles := read_local\<rparr>),
    (''memory_delete'', (tool_meta RISK_DESTRUCTIVE)\<lparr>tm_mutates := True, tm_approval := AM_MUTATION, tm_http_profiles := agent_only\<rparr>),
    (''memory_list_namespaces'', (tool_meta RISK_READ)\<lparr>tm_parallel_safe := True, tm_http_profiles := read_local\<rparr>)]"

definition interaction_tools :: "(pystr \<times> ToolMetadata) list" where
  "interaction_tools = [
    (''list_agents'', (tool_meta RISK_READ)\<lparr>tm_parallel_safe := True, tm_capabilities := [''delegate''], tm_http_profiles := agent_only\<rparr>),
    (''ask_user'', (tool_meta RISK_READ)\<lparr>tm_capabilities := [''ask_user'']\<rparr>),
    (''update_shared_state'', (tool_meta RISK_READ)\<lparr>tm_mutates := True, tm_capabilities := [''update_shared_state'']\<rparr>)]"

definition git_tools :: "(pystr \<times> ToolMetadata) list" where
  "git_tools = [
    (''git_status'', (tool_meta RISK_READ)\<lparr>tm_parallel_safe := True, tm_http_profiles := read_local\<rparr>),
    (''git_log'', (tool_meta RISK_READ)\<lparr>tm_parallel_safe := True, tm_http_profiles := read_local\<rparr>),
    (''git_diff'', (tool_meta RISK_READ)\<lparr>tm_parallel_safe := True, tm_http_profiles := read_local\<rparr>),
    (''git_branch'', (tool_meta RISK_READ)\<lparr>tm_parallel_safe := True, tm_http_profiles := read_local\<rparr>),
    (''git_fetch'', (tool_meta RISK_WRITE)\<lparr>tm_mutates := True, tm_approval := AM_MUTATION, tm_http_profiles := agent_only\<rparr>),
    (''git_add'', (tool_meta RISK_WRITE)\<lparr>tm_mutates := True, tm_approval := AM_MUTATION, tm_http_profiles := agent_only\<rparr>),
    (''git_commit'', (tool_meta RISK_WRITE)\<lparr>tm_mutates := True, tm_approval := AM_MUTATION, tm_http_profiles := agent_only\<rparr>),
    (''git_checkout'', (tool_meta RISK_WRITE)\<lparr>tm_mutates := True, tm_approval := AM_MUTATION, tm_http_profiles := agent_only\<rparr>),
    (''git_push'', (tool_meta RISK_WRITE)\<lparr>tm_mutates := True, tm_approval := AM_MUTATION, tm_http_profiles := agent_only\<rparr>)]"

definition browser_tools :: "(pystr \<times> ToolMetadata) list" where
  "browser_tools = [
    (''browser_start'', (tool_meta RISK_WRITE)\<lparr>tm_mutates := True, tm_approval := AM_MUTATION\<rparr>),
    (''browser_status'', (tool_meta RISK_NETWORK)),
    (''browser_close'', (tool_meta RISK_WRITE)\<lparr>tm_mutates := True, tm_approval := AM_MUTATION\<rparr>),
    (''browser_navigate'', (tool_meta RISK_WRITE)\<lparr>tm_mutates := True, tm_approval := AM_MUTATION\<rparr>),
    (''browser_snapshot'', (tool_meta RISK_NETWORK)),
    (''browser_click'', (tool_meta RISK_WRITE)\<lparr>tm_mutates := True, tm_approval := AM_MUTATION\<rparr>),
    (''browser_type'', (tool_meta RISK_WRITE)\<lparr>tm_mutates := True, tm_approval := AM_MUTATION\<rparr>),
    (''browser_press'', (tool_meta RISK_WRITE)\<lparr>tm_mutates := True, tm_approval := AM_MUTATION\<rparr>),
    (''browser_mouse'', (tool_meta RISK_WRITE)\<lparr>tm_mutates := True, tm_approval := AM_MUTATION\<rparr>),
    (''browser_wait'', (tool_meta RISK_NETWORK)),
    (''browser_evaluate'', (tool_meta RISK_WRITE)\<lparr>tm_mutates := True, tm_approval := AM_MUTATION\<rparr>),
    (''browser_screenshot'', (tool_meta RISK_WRITE)\<lparr>tm_mutates := True, tm_approval := AM_MUTATION\<rparr>),
    (''browser_console'', (tool_meta RISK_NETWORK)),
    (''browser_network'', (tool_meta RISK_NETWORK))]"

definition tool_table :: "(pystr \<times> ToolMetadata) list" where
  "tool_table = host_tools @ session_tools @ workspace_tools @ process_tools @ task_tools @ workflow_tools @ job_tools @
     network_tools @ memory_tools @ interaction_tools @ git_tools @ browser_tools"

definition get_tool_metadata :: "pystr \<Rightarrow> ToolMetadata option" where
  "get_tool_metadata name = map_of tool_table name"

definition tools_for_http_profile :: "pystr \<Rightarrow> pystr list" where
  "tools_for_http_profile profile = map fst (filter (\<lambda>(_, m). profile \<in> set (tm_http_profiles m)) tool_table)"

definition mutating_tool_names :: "pystr list" where
  "mutating_tool_names = map fst (filter (\<lambda>(_, m). tm_mutates m) tool_table)"

section \<open>Policies of a workspace\<close>

datatype AutonomyLevel = LEVEL_DENY | LEVEL_PROMPT | LEVEL_AUTO

record WorkspacePolicy =
  wp_read :: AutonomyLevel
  wp_network :: AutonomyLevel
  wp_write :: AutonomyLevel
  wp_shell :: AutonomyLevel
  wp_destructive :: AutonomyLevel
  wp_delegation :: AutonomyLevel
  wp_shell_allow_chaining :: bool
  wp_shell_skip_allowlist :: bool

fun level_for :: "WorkspacePolicy \<Rightarrow> ToolRisk \<Rightarrow> AutonomyLevel" where
  "level_for p RISK_READ = wp_read p"
| "level_for p RISK_NETWORK = wp_network p"
| "level_for p RISK_WRITE = wp_write p"
| "level_for p RISK_SHELL = wp_shell p"
| "level_for p RISK_DESTRUCTIVE = wp_destructive p"
| "level_for p RISK_DELEGATION = wp_delegation p"

definition strict_policy :: WorkspacePolicy where
  "strict_policy = \<lparr> wp_read = LEVEL_AUTO, wp_network = LEVEL_AUTO, wp_write = LEVEL_PROMPT, wp_shell = LEVEL_PROMPT,
     wp_destructive = LEVEL_PROMPT, wp_delegation = LEVEL_AUTO, wp_shell_allow_chaining = False,
     wp_shell_skip_allowlist = False \<rparr>"

definition developer_policy :: WorkspacePolicy where
  "developer_policy = strict_policy\<lparr>wp_write := LEVEL_AUTO, wp_shell := LEVEL_AUTO, wp_destructive := LEVEL_PROMPT,
     wp_shell_allow_chaining := True, wp_shell_skip_allowlist := False\<rparr>"

definition autonomous_policy :: WorkspacePolicy where
  "autonomous_policy = strict_policy\<lparr>wp_write := LEVEL_AUTO, wp_shell := LEVEL_AUTO, wp_destructive := LEVEL_PROMPT,
     wp_shell_allow_chaining := True, wp_shell_skip_allowlist := True\<rparr>"

definition policy_presets :: "pystr list" where
  "policy_presets = [''strict'', ''developer'', ''autonomous'']"

definition normalize_policy :: "pystr option \<Rightarrow> pystr" where
  "normalize_policy name = (let v = py_lower (py_strip (or_empty name)) in if v \<in> set policy_presets then v else ''strict'')"

definition policy_from_name :: "pystr option \<Rightarrow> WorkspacePolicy" where
  "policy_from_name name = (let v = normalize_policy name in
     if v = ''developer'' then developer_policy else if v = ''autonomous'' then autonomous_policy else strict_policy)"

section \<open>Lemmas\<close>

lemma tool_table_cases:
  assumes "get_tool_metadata n = Some m" "list_all (\<lambda>(n, m). P n m) tool_table"
  shows "P n m"
  using map_of_SomeD [OF assms(1) [unfolded get_tool_metadata_def]] assms(2) by (auto simp: list_all_iff)

end
