(* ===== verification/Approval_Handlers.thy ===== *)
theory Approval_Handlers
  imports Tool_Metadata Task_Repository
begin

text \<open>
  The handlers of approvals (\<open>runtime/approval.py\<close>): what a person's answer means, the automatic handler, and
  the handler in front of them that keeps what was approved beforehand, for the next tool, for a thread, for a
  scope or for everything. Prompts, spinners and the reading of the terminal are not modelled: an answer is a value.
\<close>

section \<open>Answers\<close>

text \<open>
  How a prompt ends: the run was cancelled, nobody answered, a line was typed, or a gate without a person
  answers by its policy.
\<close>

datatype human_answer = RunCancelled | Unanswered | Typed pystr | Unattended pystr

definition all_answers :: "pystr list" where "all_answers = [''a'', ''all'', ''todas'']"
definition yes_answers :: "pystr list" where "yes_answers = [''y'', ''yes'', ''s'', ''sim'']"

text \<open>
  Whether the tool is approved, and whether everything after it is. A gate without a person and with the
  policy ''auto'' approves although nobody was asked.
\<close>

fun answer_decision :: "human_answer \<Rightarrow> bool \<times> bool" where
  "answer_decision RunCancelled = (False, False)"
| "answer_decision Unanswered = (False, False)"
| "answer_decision (Typed raw) = (let answer = py_lower (py_strip raw) in
     if answer \<in> set all_answers then (True, True) else (answer \<in> set yes_answers, False))"
| "answer_decision (Unattended policy) = (policy = ''auto'', False)"

definition format_approval_question :: "pystr \<Rightarrow> pystr \<Rightarrow> pystr" where
  "format_approval_question name summary = (let clean = py_strip summary in
     if clean = [] then [CHR 0x0A] @ ''Aprovar '' @ name
     else (let lines = py_splitlines clean; first = py_strip (hd lines) in
       if prefix ''risco: '' first then
         (let header = [CHR 0x0A] @ ''Aprovar '' @ name @ '' :: '' @ first;
              others = py_strip (py_join [CHR 0x0A] (tl lines)) in
          if others \<noteq> [] then header @ [CHR 0x0A] @ others else header)
       else [CHR 0x0A] @ ''Aprovar '' @ name @ [CHR 0x0A] @ clean))"

section \<open>Approvals given beforehand\<close>

text \<open>Sets are lists without repetition; \<open>pa_shown\<close> are the messages for the renderer.\<close>

record PreApproval =
  pa_pre_approved :: bool
  pa_approve_all :: bool
  pa_permanent :: bool
  pa_silent :: bool
  pa_threads :: "int list"
  pa_scopes :: "pystr list"
  pa_silent_threads :: "int list"
  pa_silent_scopes :: "pystr list"
  pa_thread_scopes :: "(int \<times> pystr) list"
  pa_shown :: "pystr list"

definition new_pre_approval :: PreApproval where
  "new_pre_approval = \<lparr> pa_pre_approved = False, pa_approve_all = False, pa_permanent = False, pa_silent = False,
     pa_threads = [], pa_scopes = [], pa_silent_threads = [], pa_silent_scopes = [], pa_thread_scopes = [], pa_shown = [] \<rparr>"

definition pre_approve :: "PreApproval \<Rightarrow> PreApproval" where
  "pre_approve h = h\<lparr>pa_pre_approved := True\<rparr>"

definition reset_pre_approval :: "PreApproval \<Rightarrow> PreApproval" where
  "reset_pre_approval h = h\<lparr>pa_pre_approved := False\<rparr>"

definition set_approve_all :: "bool \<Rightarrow> bool \<Rightarrow> bool \<Rightarrow> PreApproval \<Rightarrow> PreApproval" where
  "set_approve_all enabled permanent silent h =
     h\<lparr>pa_approve_all := enabled, pa_permanent := (if enabled then permanent else False),
       pa_silent := (if enabled then silent else False),
       pa_pre_approved := (if enabled then False else pa_pre_approved h)\<rparr>"

definition set_thread_approve_all :: "int \<Rightarrow> bool \<Rightarrow> pystr option \<Rightarrow> bool \<Rightarrow> PreApproval \<Rightarrow> PreApproval" where
  "set_thread_approve_all thread enabled scope silent h =
     (if enabled then
        (let key = (if or_empty scope \<noteq> [] then or_empty scope
                    else text_or (or_empty (map_of (pa_thread_scopes h) thread)) (''thread:'' @ show_int thread)) in
         h\<lparr>pa_thread_scopes := AList.update thread key (pa_thread_scopes h),
           pa_threads := List.insert thread (pa_threads h), pa_scopes := List.insert key (pa_scopes h),
           pa_silent_threads := (if silent then List.insert thread (pa_silent_threads h) else removeAll thread (pa_silent_threads h)),
           pa_silent_scopes := (if silent then List.insert key (pa_silent_scopes h) else removeAll key (pa_silent_scopes h))\<rparr>)
      else
        (let off = h\<lparr>pa_threads := removeAll thread (pa_threads h), pa_silent_threads := removeAll thread (pa_silent_threads h)\<rparr>;
             drop_scope = (\<lambda>key h. h\<lparr>pa_scopes := removeAll key (pa_scopes h), pa_silent_scopes := removeAll key (pa_silent_scopes h)\<rparr>) in
         if or_empty scope \<noteq> [] then drop_scope (or_empty scope) off
         else (case map_of (pa_thread_scopes h) thread of
           None \<Rightarrow> off
         | Some key \<Rightarrow> drop_scope key (off\<lparr>pa_thread_scopes := AList.delete thread (pa_thread_scopes h)\<rparr>))))"

definition bind_thread_scope :: "int \<Rightarrow> pystr option \<Rightarrow> PreApproval \<Rightarrow> pystr option \<times> PreApproval" where
  "bind_thread_scope thread scope h = (map_of (pa_thread_scopes h) thread,
     h\<lparr>pa_thread_scopes := (case scope of None \<Rightarrow> AList.delete thread (pa_thread_scopes h)
         | Some key \<Rightarrow> AList.update thread key (pa_thread_scopes h))\<rparr>)"

definition show_unless :: "bool \<Rightarrow> pystr \<Rightarrow> PreApproval \<Rightarrow> PreApproval" where
  "show_unless silent message h = (if silent then h else h\<lparr>pa_shown := pa_shown h @ [message]\<rparr>)"

text \<open>True if approved beforehand, which is then used up; \<open>None\<close> in the code is False here.\<close>

definition consume_local :: "int \<Rightarrow> pystr \<Rightarrow> pystr \<Rightarrow> PreApproval \<Rightarrow> bool \<times> PreApproval" where
  "consume_local thread name summary h =
     (let all_message = ''  [approve-all] '' @ name @ '' :: '' @ summary; scope = map_of (pa_thread_scopes h) thread in
      if thread \<in> set (pa_threads h) then (True, show_unless (thread \<in> set (pa_silent_threads h)) all_message h)
      else if scope \<noteq> None \<and> the scope \<in> set (pa_scopes h)
      then (True, show_unless (the scope \<in> set (pa_silent_scopes h)) all_message h)
      else if pa_approve_all h then (True, show_unless (pa_silent h) all_message h)
      else if pa_pre_approved h
      then (True, show_unless False (''  [pr'' @ [CHR 0xE9] @ ''-aprovado] '' @ name @ '' :: '' @ summary) (h\<lparr>pa_pre_approved := False\<rparr>))
      else (False, h))"

text \<open>\<open>approve_request\<close>: the person is asked only if nothing was approved before; the answer "all" is kept.\<close>

definition handler_approves :: "int \<Rightarrow> human_answer \<Rightarrow> pystr \<Rightarrow> pystr \<Rightarrow> PreApproval \<Rightarrow> bool \<times> PreApproval" where
  "handler_approves thread answer name summary h = (let (local, h') = consume_local thread name summary h in
     if local then (True, h')
     else (let (approved, everything) = answer_decision answer in
       (approved, if everything then set_approve_all True False False h' else h')))"

definition reset_after_cycle :: "int \<Rightarrow> PreApproval \<Rightarrow> PreApproval" where
  "reset_after_cycle thread h =
     (let off = h\<lparr>pa_threads := removeAll thread (pa_threads h), pa_silent_threads := removeAll thread (pa_silent_threads h),
            pa_thread_scopes := AList.delete thread (pa_thread_scopes h)\<rparr>;
          off' = (case map_of (pa_thread_scopes h) thread of None \<Rightarrow> off
            | Some key \<Rightarrow> off\<lparr>pa_scopes := removeAll key (pa_scopes h), pa_silent_scopes := removeAll key (pa_silent_scopes h)\<rparr>) in
      if pa_approve_all h \<and> \<not> pa_permanent h then off'\<lparr>pa_approve_all := False, pa_silent := False\<rparr> else off')"

end
