(* ===== verification/Read_Ledger.thy ===== *)
theory Read_Ledger
  imports Workspace_Files
begin

text \<open>
  The ledger of files read (\<open>runtime/read_ledger.py\<close>): for each run, the fingerprints of the files it
  has read, in two ordered dictionaries of bounded size with the least recently used entry first. The
  guard before an edit asks whether the file is still the one that was read.
\<close>

section \<open>Ordered dictionaries\<close>

text \<open>
  An \<open>OrderedDict\<close> is the list of its items: \<open>move_to_end\<close>, assignment (which keeps the place of an
  old key), \<open>pop\<close>, and \<open>popitem (last=False)\<close> while it is too long.
\<close>

definition od_touch :: "'k \<Rightarrow> ('k \<times> 'v) list \<Rightarrow> ('k \<times> 'v) list" where
  "od_touch k xs = filter (\<lambda>(k', _). k' \<noteq> k) xs @ filter (\<lambda>(k', _). k' = k) xs"

definition od_trim :: "nat \<Rightarrow> ('k \<times> 'v) list \<Rightarrow> ('k \<times> 'v) list" where
  "od_trim n xs = drop (length xs - n) xs"

section \<open>The ledger\<close>

datatype LedgerVerdict = LEDGER_OK | NOT_READ | STALE

fun verdict_value :: "LedgerVerdict \<Rightarrow> pystr" where
  "verdict_value LEDGER_OK = ''ok''"
| "verdict_value NOT_READ = ''not_read''"
| "verdict_value STALE = ''stale''"

record LedgerEntry =
  le_fingerprint :: FileFingerprint
  le_read_at :: rat

type_synonym scope_paths = "(fpath \<times> LedgerEntry) list"

record ReadLedger =
  rl_max_scopes :: nat
  rl_max_paths :: nat
  rl_scopes :: "(pystr \<times> scope_paths) list"

definition default_max_scopes :: nat where "default_max_scopes = 64"
definition default_max_paths :: nat where "default_max_paths = 512"

definition new_ledger :: "int \<Rightarrow> int \<Rightarrow> tool_exception + ReadLedger" where
  "new_ledger max_scopes max_paths =
     (if max_scopes < 1 then Inl (ValueErr ''max_scopes deve ser um inteiro positivo'')
      else if max_paths < 1 then Inl (ValueErr ''max_paths_per_scope deve ser um inteiro positivo'')
      else Inr \<lparr> rl_max_scopes = nat max_scopes, rl_max_paths = nat max_paths, rl_scopes = [] \<rparr>)"

definition scope_key :: "pystr \<Rightarrow> tool_exception + pystr" where
  "scope_key scope = (if py_strip scope = [] then Inl (ValueErr (''scope deve ser uma string nao vazia'')) else Inr (py_strip scope))"

definition scope_paths_of :: "ReadLedger \<Rightarrow> pystr \<Rightarrow> scope_paths option" where
  "scope_paths_of l k = map_of (rl_scopes l) k"

definition set_paths :: "pystr \<Rightarrow> scope_paths \<Rightarrow> ReadLedger \<Rightarrow> ReadLedger" where
  "set_paths k ps l = l\<lparr>rl_scopes := AList.update k ps (rl_scopes l)\<rparr>"

text \<open>\<open>record\<close>; the path is resolved and \<open>fingerprint\<close> is the one given or that of the file now.\<close>

definition record_read :: "pystr \<Rightarrow> fpath \<Rightarrow> LedgerEntry \<Rightarrow> ReadLedger \<Rightarrow> tool_exception + ReadLedger" where
  "record_read scope p entry l = bind_res (scope_key scope) (\<lambda>k.
     let scopes = (case scope_paths_of l k of None \<Rightarrow> rl_scopes l @ [(k, [])] | Some _ \<Rightarrow> od_touch k (rl_scopes l));
         paths = (case scope_paths_of l k of None \<Rightarrow> [] | Some ps \<Rightarrow> ps);
         paths' = od_trim (rl_max_paths l) (od_touch p (AList.update p entry paths)) in
     Inr (l\<lparr>rl_scopes := od_trim (rl_max_scopes l) (AList.update k paths' scopes)\<rparr>))"

record LedgerInspection =
  li_verdict :: LedgerVerdict
  li_entry :: "LedgerEntry option"
  li_current :: "FileFingerprint option"

text \<open>\<open>inspect\<close>: an entry that is found counts as used, whatever the verdict.\<close>

definition inspect_read :: "pystr \<Rightarrow> fpath \<Rightarrow> FileFingerprint option \<Rightarrow> ReadLedger \<Rightarrow>
    tool_exception + (LedgerInspection \<times> ReadLedger)" where
  "inspect_read scope p current l = bind_res (scope_key scope) (\<lambda>k.
     case scope_paths_of l k of
       None \<Rightarrow> Inr (\<lparr>li_verdict = NOT_READ, li_entry = None, li_current = None\<rparr>, l)
     | Some paths \<Rightarrow> (case map_of paths p of
         None \<Rightarrow> Inr (\<lparr>li_verdict = NOT_READ, li_entry = None, li_current = None\<rparr>, l)
       | Some entry \<Rightarrow>
           Inr (\<lparr>li_verdict = (if current = Some (le_fingerprint entry) then LEDGER_OK else STALE),
                  li_entry = Some entry, li_current = current\<rparr>,
                l\<lparr>rl_scopes := AList.update k (od_touch p paths) (od_touch k (rl_scopes l))\<rparr>)))"

definition check_read :: "pystr \<Rightarrow> fpath \<Rightarrow> FileFingerprint option \<Rightarrow> ReadLedger \<Rightarrow> tool_exception + (LedgerVerdict \<times> ReadLedger)" where
  "check_read scope p current l = bind_res (inspect_read scope p current l) (\<lambda>(i, l'). Inr (li_verdict i, l'))"

definition forget_read :: "pystr \<Rightarrow> fpath \<Rightarrow> ReadLedger \<Rightarrow> tool_exception + (bool \<times> ReadLedger)" where
  "forget_read scope p l = bind_res (scope_key scope) (\<lambda>k.
     case scope_paths_of l k of
       None \<Rightarrow> Inr (False, l)
     | Some paths \<Rightarrow> (let paths' = AList.delete p paths in
         Inr (map_of paths p \<noteq> None,
              if paths' = [] then l\<lparr>rl_scopes := AList.delete k (rl_scopes l)\<rparr> else set_paths k paths' l)))"

definition clear_ledger :: "ReadLedger \<Rightarrow> ReadLedger" where
  "clear_ledger l = l\<lparr>rl_scopes := []\<rparr>"

definition scope_count :: "ReadLedger \<Rightarrow> nat" where
  "scope_count l = length (rl_scopes l)"

definition path_count :: "ReadLedger \<Rightarrow> pystr \<Rightarrow> tool_exception + nat" where
  "path_count l scope = bind_res (scope_key scope) (\<lambda>k.
     Inr (case scope_paths_of l k of None \<Rightarrow> 0 | Some ps \<Rightarrow> length ps))"

section \<open>The scope of a call\<close>

definition clean_scope_part :: "json option \<Rightarrow> pystr option" where
  "clean_scope_part v = (case v of Some (JStr t) \<Rightarrow> none_if_empty (py_strip t) | _ \<Rightarrow> None)"

text \<open>\<open>_context_value\<close> of the trusted context, a dict or an object; other objects have no such attribute.\<close>

definition context_run_id :: "meta_value option \<Rightarrow> pystr option" where
  "context_run_id c = (case c of
     Some (MetaContext t) \<Rightarrow> Option.bind (tc_run_id t) (\<lambda>x. clean_scope_part (Some (JStr x)))
   | Some (MetaJson (JObj kvs)) \<Rightarrow> clean_scope_part (map_of kvs ''run_id'')
   | _ \<Rightarrow> None)"

definition context_agent :: "meta_value option \<Rightarrow> pystr option" where
  "context_agent c = (case c of
     Some (MetaContext t) \<Rightarrow> Option.bind (tc_agent_name t) (\<lambda>x. clean_scope_part (Some (JStr x)))
   | Some (MetaJson (JObj kvs)) \<Rightarrow> clean_scope_part (map_of kvs ''agent_name'')
   | _ \<Rightarrow> None)"

definition meta_json :: "ToolCall \<Rightarrow> pystr \<Rightarrow> json option" where
  "meta_json call k = (case metadata call of None \<Rightarrow> None | Some kvs \<Rightarrow>
     (case map_of kvs k of Some (MetaJson j) \<Rightarrow> Some j | _ \<Rightarrow> None))"

definition ledger_scope :: "ToolCall \<Rightarrow> pystr" where
  "ledger_scope call = (case context_run_id (call_context call) of
     Some run \<Rightarrow> run
   | None \<Rightarrow> (case (case meta_json call ''_mcp_state'' of
         Some (JObj kvs) \<Rightarrow> clean_scope_part (map_of kvs ''trusted_run_id'') | _ \<Rightarrow> None) of
       Some run \<Rightarrow> run
     | None \<Rightarrow>
         (let agent = (case context_agent (call_context call) of Some a \<Rightarrow> Some a
                | None \<Rightarrow> clean_scope_part (meta_json call ''calling_agent''));
              name = strip_slashes (py_lower (case agent of Some a \<Rightarrow> a | None \<Rightarrow> ''native'')) in
          ''fallback:'' @ text_or name ''native'')))"

section \<open>The guard before an edit\<close>

record ReadGuardDecision =
  rg_verdict :: LedgerVerdict
  rg_message :: pystr
  rg_data :: "(pystr \<times> json) list"

definition guard_allowed :: "ReadGuardDecision \<Rightarrow> bool" where
  "guard_allowed d \<longleftrightarrow> rg_verdict d = LEDGER_OK"

definition fingerprint_data :: "pystr \<Rightarrow> FileFingerprint option \<Rightarrow> (pystr \<times> json) list" where
  "fingerprint_data kind f = (case f of None \<Rightarrow> [] | Some x \<Rightarrow>
     [(kind @ ''_mtime_ns'', JInt (fp_mtime_ns x)), (kind @ ''_ctime_ns'', JInt (fp_ctime_ns x)),
      (kind @ ''_size'', JInt (fp_size x)), (kind @ ''_device'', JInt (fp_device x)),
      (kind @ ''_inode'', JInt (fp_inode x))])"

definition guard_message :: "pystr \<Rightarrow> pystr \<Rightarrow> LedgerVerdict \<Rightarrow> pystr" where
  "guard_message tool shown v = (case v of
     LEDGER_OK \<Rightarrow> []
   | NOT_READ \<Rightarrow> tool @ '': '' @ [CHR 0x27] @ shown @ [CHR 0x27] @ '' n'' @ [CHR 0xE3] @ ''o foi lido neste run. Use read_file antes de editar.''
   | STALE \<Rightarrow> tool @ '': '' @ [CHR 0x27] @ shown @ [CHR 0x27] @ '' mudou desde sua '' @ [CHR 0xFA] @ ''ltima leitura (possivelmente editado por outro agente). Releia com read_file e refa'' @ [CHR 0xE7] @ ''a a edi'' @ [CHR 0xE7, CHR 0xE3] @ ''o sobre o conte'' @ [CHR 0xFA] @ ''do atual.'')"

definition guard_decision :: "ToolCall \<Rightarrow> fpath \<Rightarrow> pystr \<Rightarrow> LedgerInspection \<Rightarrow> ReadGuardDecision" where
  "guard_decision call p shown i =
     (if li_verdict i = LEDGER_OK then \<lparr>rg_verdict = LEDGER_OK, rg_message = [], rg_data = []\<rparr>
      else \<lparr>rg_verdict = li_verdict i, rg_message = guard_message (tool_name call) shown (li_verdict i),
        rg_data = [(''path'', JStr (path_text p)), (''reason'', JStr (verdict_value (li_verdict i)))]
          @ fingerprint_data ''read'' (map_option le_fingerprint (li_entry i)) @ fingerprint_data ''current'' (li_current i)\<rparr>)"

section \<open>Lemmas on ordered dictionaries\<close>

definition keys_of :: "('k \<times> 'v) list \<Rightarrow> 'k list" where
  "keys_of xs = map fst xs"

lemma map_of_touch [simp]: "map_of (od_touch k xs) = map_of xs"
proof
  fix x
  have "map_of (filter (\<lambda>(k', _). k' \<noteq> k) xs) x = (if x = k then None else map_of xs x)" by (induction xs) auto
  moreover have "map_of (filter (\<lambda>(k', _). k' = k) xs) x = (if x = k then map_of xs x else None)" by (induction xs) auto
  ultimately show "map_of (od_touch k xs) x = map_of xs x" by (auto simp: od_touch_def map_add_def split: option.split)
qed

lemma length_touch [simp]: "length (od_touch k xs) = length xs"
  by (induction xs) (auto simp: od_touch_def)

lemma length_trim [simp]: "length (od_trim n xs) = min n (length xs)"
  by (simp add: od_trim_def)

lemma keys_touch: "distinct (keys_of xs) \<Longrightarrow> distinct (keys_of (od_touch k xs))"
  by (induction xs) (auto simp: od_touch_def keys_of_def)

lemma keys_trim: "distinct (keys_of xs) \<Longrightarrow> distinct (keys_of (od_trim n xs))"
  by (simp add: od_trim_def keys_of_def flip: drop_map)

lemma map_of_trim: "distinct (keys_of xs) \<Longrightarrow> map_of (od_trim n xs) \<subseteq>\<^sub>m map_of xs"
proof -
  assume d: "distinct (keys_of xs)"
  show ?thesis
  proof (unfold map_le_def, intro ballI)
    fix k assume "k \<in> dom (map_of (od_trim n xs))"
    then obtain v where v: "map_of (od_trim n xs) k = Some v" by blast
    then have "(k, v) \<in> set xs" using set_drop_subset [of "length xs - n" xs] map_of_SomeD [OF v] by (auto simp: od_trim_def)
    then show "map_of (od_trim n xs) k = map_of xs k" using v d by (simp add: keys_of_def)
  qed
qed

lemma touch_split: "distinct (keys_of xs) \<Longrightarrow> map_of xs k = Some v \<Longrightarrow>
    od_touch k xs = filter (\<lambda>(k', _). k' \<noteq> k) xs @ [(k, v)]"
proof -
  assume "distinct (keys_of xs)" "map_of xs k = Some v"
  then have "filter (\<lambda>(k', _). k' = k) xs = [(k, v)]"
    by (induction xs) (auto simp: keys_of_def filter_empty_conv split: if_splits dest: map_of_SomeD intro: rev_image_eqI)
  then show ?thesis by (simp add: od_touch_def)
qed

lemma update_end: "k \<notin> fst ` set ys \<Longrightarrow> AList.update k v (ys @ [(k, w)]) = ys @ [(k, v)]"
  by (induction ys) auto

lemma od_last:
  assumes "distinct (keys_of xs)" "map_of xs k = Some v" "0 < n"
  shows "map_of (od_trim n (od_touch k xs)) k = Some v"
proof -
  obtain ys where ys: "od_touch k xs = ys @ [(k, v)]" using touch_split [OF assms(1,2)] by blast
  then have "(k, v) \<in> set (od_trim n (od_touch k xs))" using assms(3) by (simp add: od_trim_def)
  moreover have "distinct (keys_of (od_trim n (od_touch k xs)))" using assms(1) by (intro keys_trim keys_touch)
  ultimately show ?thesis by (simp add: keys_of_def)
qed

section \<open>What the ledger knows\<close>

text \<open>
  A ledger is sound when its dictionaries have no key twice and stay within their bounds. Reading it
  is \<open>known\<close>: the entry of a path in a scope.
\<close>

definition ledger_ok :: "ReadLedger \<Rightarrow> bool" where
  "ledger_ok l \<longleftrightarrow> 0 < rl_max_scopes l \<and> 0 < rl_max_paths l \<and> distinct (keys_of (rl_scopes l)) \<and>
     length (rl_scopes l) \<le> rl_max_scopes l \<and>
     (\<forall>(k, ps) \<in> set (rl_scopes l). distinct (keys_of ps) \<and> length ps \<le> rl_max_paths l)"

definition known :: "ReadLedger \<Rightarrow> pystr \<Rightarrow> fpath \<Rightarrow> LedgerEntry option" where
  "known l k p = Option.bind (map_of (rl_scopes l) k) (\<lambda>ps. map_of ps p)"

lemma scope_key_Inr [simp]: "scope_key s = Inr k \<longleftrightarrow> py_strip s \<noteq> [] \<and> k = py_strip s"
  by (auto simp: scope_key_def)

lemma set_trim: "set (od_trim n xs) \<subseteq> set xs"
  by (simp add: od_trim_def set_drop_subset)

lemma set_touch [simp]: "set (od_touch k xs) = set xs"
  by (auto simp: od_touch_def)

lemma keys_update: "distinct (keys_of xs) \<Longrightarrow> distinct (keys_of (AList.update k v xs))"
  by (simp add: keys_of_def distinct_update)

lemma length_update_new: "length (AList.update k v xs) \<le> Suc (length xs)"
  by (induction xs) auto

lemma set_update: "set (AList.update k v xs) \<subseteq> insert (k, v) (set xs)"
  by (induction xs) auto

lemma length_update_old: "map_of xs k \<noteq> None \<Longrightarrow> length (AList.update k v xs) = length xs"
  by (induction xs) auto

lemma ledger_okD: "ledger_ok l \<Longrightarrow> map_of (rl_scopes l) k = Some ps \<Longrightarrow> distinct (keys_of ps) \<and> length ps \<le> rl_max_paths l"
  by (auto simp: ledger_ok_def dest: map_of_SomeD)

lemma new_ledger_ok: "new_ledger a b = Inr l \<Longrightarrow> ledger_ok l \<and> known l k p = None"
  by (auto simp: new_ledger_def ledger_ok_def known_def keys_of_def split: if_splits)

lemma inspect_read_Inr: "inspect_read s p current l = Inr (i, l') \<Longrightarrow> ledger_ok l \<Longrightarrow>
    ledger_ok l' \<and> known l' = known l \<and> li_entry i = known l (py_strip s) p \<and>
    (li_verdict i = LEDGER_OK \<longleftrightarrow> (\<exists>e. known l (py_strip s) p = Some e \<and> current = Some (le_fingerprint e)))"
proof -
  assume run: "inspect_read s p current l = Inr (i, l')" and ok: "ledger_ok l"
  show ?thesis
  proof (cases "map_of (rl_scopes l) (py_strip s)")
    case None
    with run ok show ?thesis by (auto simp: inspect_read_def bind_res_Inr scope_paths_of_def known_def)
  next
    case (Some ps)
    note psok = ledger_okD [OF ok Some]
    show ?thesis
    proof (cases "map_of ps p")
      case None
      with run ok Some show ?thesis by (auto simp: inspect_read_def bind_res_Inr scope_paths_of_def known_def)
    next
      case entry: (Some e)
      have l': "l' = l\<lparr>rl_scopes := AList.update (py_strip s) (od_touch p ps) (od_touch (py_strip s) (rl_scopes l))\<rparr>"
        and i: "li_entry i = Some e" "li_verdict i = LEDGER_OK \<longleftrightarrow> current = Some (le_fingerprint e)"
        using run Some entry by (auto simp: inspect_read_def bind_res_Inr scope_paths_of_def split: if_splits)
      have "known l' = known l" by (auto simp: l' known_def fun_eq_iff update_conv' Some)
      moreover have "ledger_ok l'"
      proof -
        have "set (AList.update (py_strip s) (od_touch p ps) (od_touch (py_strip s) (rl_scopes l))) \<subseteq>
            insert (py_strip s, od_touch p ps) (set (rl_scopes l))"
          using set_update [of "py_strip s" "od_touch p ps" "od_touch (py_strip s) (rl_scopes l)"] by simp
        moreover have "length (AList.update (py_strip s) (od_touch p ps) (od_touch (py_strip s) (rl_scopes l))) = length (rl_scopes l)"
          using Some by (simp add: length_update_old)
        ultimately show ?thesis using ok psok by (auto simp: l' ledger_ok_def keys_update keys_touch)
      qed
      ultimately show ?thesis using i Some entry by (simp add: known_def)
    qed
  qed
qed

lemma record_read_Inr:
  assumes run: "record_read s p e l = Inr l'" and ok: "ledger_ok l"
  shows "ledger_ok l' \<and> known l' (py_strip s) p = Some e \<and>
     (\<forall>k q f. known l' k q = Some f \<longrightarrow> (k, q) = (py_strip s, p) \<or> known l k q = Some f)"
proof -
  let ?k = "py_strip s"
  define paths where "paths = (case map_of (rl_scopes l) ?k of None \<Rightarrow> [] | Some ps \<Rightarrow> ps)"
  define scopes where "scopes = (case map_of (rl_scopes l) ?k of None \<Rightarrow> rl_scopes l @ [(?k, [])] | Some _ \<Rightarrow> od_touch ?k (rl_scopes l))"
  define new where "new = od_trim (rl_max_paths l) (od_touch p (AList.update p e paths))"
  have l': "l' = l\<lparr>rl_scopes := od_trim (rl_max_scopes l) (AList.update ?k new scopes)\<rparr>"
    using run by (auto simp: record_read_def bind_res_Inr scope_paths_of_def Let_def paths_def scopes_def new_def)
  have paths: "distinct (keys_of paths)"
    using ledger_okD [OF ok] by (auto simp: paths_def keys_of_def split: option.split)
  have ks: "distinct (keys_of scopes)"
    using ok keys_touch [of "rl_scopes l" ?k] by (auto simp: scopes_def ledger_ok_def keys_of_def map_of_eq_None_iff split: option.split)
  have new: "distinct (keys_of new)" "length new \<le> rl_max_paths l" "map_of new p = Some e" "map_of new \<subseteq>\<^sub>m (map_of paths)(p \<mapsto> e)"
  proof -
    have d: "distinct (keys_of (AList.update p e paths))" using paths by (rule keys_update)
    show "distinct (keys_of new)" unfolding new_def by (intro keys_trim keys_touch d)
    show "map_of new p = Some e" unfolding new_def using d ok by (intro od_last) (auto simp: ledger_ok_def update_conv')
    show "map_of new \<subseteq>\<^sub>m (map_of paths)(p \<mapsto> e)"
      using map_of_trim [OF keys_touch [OF d]] by (simp add: new_def update_conv' [symmetric])
  qed (simp add: new_def)
  have "\<exists>ys w. scopes = ys @ [(?k, w)] \<and> ?k \<notin> fst ` set ys"
  proof (cases "map_of (rl_scopes l) ?k")
    case None
    then have "?k \<notin> fst ` set (rl_scopes l)" by (simp add: map_of_eq_None_iff)
    with None show ?thesis by (intro exI [of _ "rl_scopes l"]) (simp add: scopes_def)
  next
    case (Some ps)
    then show ?thesis using ok touch_split [of "rl_scopes l" ?k ps] by (fastforce simp: scopes_def ledger_ok_def)
  qed
  then obtain ys where "AList.update ?k new scopes = ys @ [(?k, new)]" using update_end by metis
  then have "(?k, new) \<in> set (rl_scopes l')" using ok by (simp add: l' od_trim_def ledger_ok_def)
  have dom: "map_of scopes ?k \<noteq> None" by (auto simp: scopes_def map_add_def split: option.split)
  have d: "distinct (keys_of (AList.update ?k new scopes))" using ks by (rule keys_update)
  have scopes_of: "map_of scopes k = (case map_of (rl_scopes l) k of Some ps \<Rightarrow> Some ps | None \<Rightarrow> if k = ?k then Some [] else None)" for k
    by (auto simp: scopes_def map_add_def split: option.split)
  have sub: "map_of (rl_scopes l') \<subseteq>\<^sub>m (map_of scopes)(?k \<mapsto> new)"
    using map_of_trim [OF d] by (simp add: l' update_conv')
  have "distinct (keys_of (rl_scopes l'))" using d by (simp add: l' keys_trim)
  then have found: "map_of (rl_scopes l') ?k = Some new" using \<open>(?k, new) \<in> _\<close> by (simp add: keys_of_def)
  have each: "distinct (keys_of ps) \<and> length ps \<le> rl_max_paths l" if "map_of (rl_scopes l') k = Some ps" for k ps
  proof (cases "k = ?k")
    case False
    then have "map_of scopes k = Some ps" using sub that by (auto simp: map_le_def dom_def)
    then show ?thesis using False ledger_okD [OF ok] by (auto simp: scopes_of split: option.splits)
  qed (use found that new in auto)
  have "ledger_ok l'"
  proof -
    have "rl_max_scopes l' = rl_max_scopes l" "rl_max_paths l' = rl_max_paths l" "length (rl_scopes l') \<le> rl_max_scopes l"
      by (simp_all add: l')
    moreover have "distinct (keys_of ps) \<and> length ps \<le> rl_max_paths l" if "(k, ps) \<in> set (rl_scopes l')" for k ps
      using each map_of_is_SomeI [OF _ that] \<open>distinct (keys_of (rl_scopes l'))\<close> by (simp add: keys_of_def)
    ultimately show ?thesis using ok \<open>distinct (keys_of (rl_scopes l'))\<close> unfolding ledger_ok_def by fastforce
  qed
  moreover have "known l' ?k p = Some e" using found new by (simp add: known_def)
  moreover have "known l k q = Some f" if old: "known l' k q = Some f" "(k, q) \<noteq> (?k, p)" for k q f
  proof (cases "k = ?k")
    case True
    then have "map_of new q = Some f" using old(1) found by (simp add: known_def)
    then have "map_of paths q = Some f" using new(4) old True by (auto simp: map_le_def dom_def split: if_splits)
    then show ?thesis using True by (auto simp: known_def paths_def split: option.splits)
  next
    case False
    then obtain ps where ps: "map_of (rl_scopes l') k = Some ps" "map_of ps q = Some f" using old(1) by (auto simp: known_def bind_eq_Some_conv)
    then have "map_of scopes k = Some ps" using sub False by (auto simp: map_le_def dom_def)
    then show ?thesis using False ps by (auto simp: known_def scopes_of split: option.splits)
  qed
  ultimately show ?thesis by blast
qed

lemma forget_read_Inr:
  assumes run: "forget_read s p l = Inr (b, l')" and ok: "ledger_ok l"
  shows "ledger_ok l' \<and> known l' (py_strip s) p = None \<and>
     (\<forall>k q. (k, q) \<noteq> (py_strip s, p) \<longrightarrow> known l' k q = known l k q)"
proof (cases "map_of (rl_scopes l) (py_strip s)")
  case None
  with run ok show ?thesis by (auto simp: forget_read_def bind_res_Inr scope_paths_of_def known_def)
next
  case (Some ps)
  note psok = ledger_okD [OF ok Some]
  let ?ps = "AList.delete p ps"
  have ps: "distinct (keys_of ?ps)" "length ?ps \<le> rl_max_paths l"
    using psok length_delete_le [of p ps] by (auto simp: keys_of_def distinct_delete)
  show ?thesis
  proof (cases "?ps = []")
    case True
    then have l': "l' = l\<lparr>rl_scopes := AList.delete (py_strip s) (rl_scopes l)\<rparr>"
      using run Some by (auto simp: forget_read_def bind_res_Inr scope_paths_of_def Let_def)
    have "map_of ps q = None" if "q \<noteq> p" for q
      using arg_cong [OF True, of "\<lambda>xs. map_of xs q"] that by (simp add: delete_conv')
    then have "known l' k q = known l k q" if "(k, q) \<noteq> (py_strip s, p)" for k q
      using that Some by (auto simp: known_def l' delete_conv')
    moreover have "ledger_ok l'"
      using ok length_delete_le [of "py_strip s" "rl_scopes l"]
      by (auto simp: l' ledger_ok_def keys_of_def distinct_delete) (auto simp: AList.delete_eq)
    ultimately show ?thesis by (simp add: known_def l' delete_conv')
  next
    case False
    then have l': "l' = l\<lparr>rl_scopes := AList.update (py_strip s) ?ps (rl_scopes l)\<rparr>"
      using run Some by (auto simp: forget_read_def bind_res_Inr scope_paths_of_def Let_def set_paths_def)
    have "ledger_ok l'"
      using ok ps set_update [of "py_strip s" ?ps "rl_scopes l"] length_update_old [of "rl_scopes l" "py_strip s" ?ps] Some
      by (auto simp: l' ledger_ok_def keys_update)
    then show ?thesis using Some by (auto simp: known_def l' update_conv' delete_conv')
  qed
qed

end
