(* ===== verification/File_Tools.thy ===== *)
theory File_Tools
  imports Read_Ledger
begin

text \<open>
  The file tools (\<open>runtime/tools/files.py\<close>): list, read, write, replace and remove, with the
  confinement of paths and the guard that asks for a read before an edit. A call is an action on the tree of
  files and the ledger. \<open>grep_search\<close> and \<open>inspect_symbols\<close> are not modelled (regular
  expressions, globs, Python's own syntax trees).
\<close>

section \<open>State and environment\<close>

record FileState =
  fs_tree :: tree
  fs_ledger :: ReadLedger
  fs_tick :: nat

text \<open>
  \<open>fe_stamp\<close>: the fingerprint of a file written at this step; \<open>fe_race\<close>: the fingerprint after a read during which
  the file changed; \<open>fe_message\<close>: the text of an exception of the interpreter or the system.
\<close>

record FileEnv =
  fe_py :: PyText
  fe_cwd :: fpath
  fe_staging :: "fpath option"
  fe_read_roots :: "fpath list"
  fe_resolve :: "fpath \<Rightarrow> fpath"
  fe_stamp :: "nat \<Rightarrow> fpath \<Rightarrow> FileFingerprint"
  fe_dir_stat :: "fpath \<Rightarrow> FileFingerprint"
  fe_race :: "nat \<Rightarrow> FileFingerprint option"
  fe_now :: "nat \<Rightarrow> rat"
  fe_read_mode :: pystr
  fe_max_read :: nat
  fe_message :: "tool_exception \<Rightarrow> pystr"

type_synonym 'a file_act = "(FileState, tool_exception, 'a) action"

definition exc_message :: "FileEnv \<Rightarrow> tool_exception \<Rightarrow> pystr" where
  "exc_message env e = (case e of ValueErr m \<Rightarrow> m | PolicyErr m \<Rightarrow> m | PatchErr m \<Rightarrow> m | _ \<Rightarrow> fe_message env e)"

definition f_lift :: "tool_exception + 'a \<Rightarrow> 'a file_act" where
  "f_lift r = (case r of Inl e \<Rightarrow> act_raise e | Inr x \<Rightarrow> act_return x)"

definition f_tree :: "(tree \<Rightarrow> tool_exception + tree) \<Rightarrow> unit file_act" where
  "f_tree f = (\<lambda>s. case f (fs_tree s) of Inl e \<Rightarrow> (Inl e, s) | Inr t \<Rightarrow> (Inr (), s\<lparr>fs_tree := t\<rparr>))"

definition f_write :: "FileEnv \<Rightarrow> fpath \<Rightarrow> pystr \<Rightarrow> unit file_act" where
  "f_write env p content = (\<lambda>s. case write_text p content (fe_stamp env (fs_tick s) p) (fs_tree s) of
     Inl e \<Rightarrow> (Inl e, s) | Inr t \<Rightarrow> (Inr (), s\<lparr>fs_tree := t, fs_tick := Suc (fs_tick s)\<rparr>))"

definition stat_of :: "FileEnv \<Rightarrow> fpath \<Rightarrow> tree \<Rightarrow> FileFingerprint option" where
  "stat_of env p t = (case node_at t p of None \<Rightarrow> None | Some Dir \<Rightarrow> Some (fe_dir_stat env p) | Some (File _ fp) \<Rightarrow> Some fp)"

definition f_ledger :: "(ReadLedger \<Rightarrow> tool_exception + ('a \<times> ReadLedger)) \<Rightarrow> 'a file_act" where
  "f_ledger f = (\<lambda>s. case f (fs_ledger s) of Inl e \<Rightarrow> (Inl e, s) | Inr (x, l) \<Rightarrow> (Inr x, s\<lparr>fs_ledger := l\<rparr>))"

text \<open>\<open>record\<close> of the ledger with the fingerprint given, or that of the file now; \<open>forget\<close>.\<close>

definition f_record :: "FileEnv \<Rightarrow> ToolCall \<Rightarrow> fpath \<Rightarrow> FileFingerprint option \<Rightarrow> unit file_act" where
  "f_record env call p observed = act_bind (act_get id) (\<lambda>s.
     case (case observed of Some f \<Rightarrow> Some f | None \<Rightarrow> stat_of env (fe_resolve env p) (fs_tree s)) of
       None \<Rightarrow> act_raise (OsErr NotFound p)
     | Some f \<Rightarrow> f_ledger (\<lambda>l. bind_res (record_read (ledger_scope call) (fe_resolve env p)
         \<lparr>le_fingerprint = f, le_read_at = fe_now env (fs_tick s)\<rparr> l) (\<lambda>l'. Inr ((), l'))))"

definition f_forget :: "FileEnv \<Rightarrow> ToolCall \<Rightarrow> fpath \<Rightarrow> bool file_act" where
  "f_forget env call p = f_ledger (forget_read (ledger_scope call) (fe_resolve env p))"

definition read_guard :: "FileEnv \<Rightarrow> ToolCall \<Rightarrow> fpath \<Rightarrow> pystr \<Rightarrow> ReadGuardDecision file_act" where
  "read_guard env call p shown = act_bind (act_get id) (\<lambda>s.
     act_bind (f_ledger (inspect_read (ledger_scope call) (fe_resolve env p) (stat_of env (fe_resolve env p) (fs_tree s)))) (\<lambda>i.
       act_return (guard_decision call p shown i)))"

text \<open>\<open>_require_prior_read\<close>: an error, or else the warning for the result (empty when there is none).\<close>

definition require_prior_read :: "FileEnv \<Rightarrow> ToolCall \<Rightarrow> fpath \<Rightarrow> pystr \<Rightarrow> (ToolResult + pystr) file_act" where
  "require_prior_read env call p shown =
     (if fe_read_mode env = ''off'' then act_return (Inr [])
      else act_bind (read_guard env call p shown) (\<lambda>d.
        if guard_allowed d then act_return (Inr [])
        else if fe_read_mode env = ''warn'' then act_return (Inr (''[aviso read-before-edit] '' @ rg_message d))
        else act_return (Inl (tool_failure (tool_name call) (rg_message d) (rg_data d)))))"

text \<open>\<open>blocked, warning = self._require_prior_read (..); if blocked is not None: return blocked\<close>, and what follows.\<close>

definition guarded_edit :: "FileEnv \<Rightarrow> ToolCall \<Rightarrow> fpath \<Rightarrow> pystr \<Rightarrow> (pystr \<Rightarrow> ToolResult file_act) \<Rightarrow> ToolResult file_act" where
  "guarded_edit env call p shown proceed = act_bind (require_prior_read env call p shown) (\<lambda>guard. case guard of
     Inl blocked \<Rightarrow> act_return blocked | Inr warning \<Rightarrow> proceed warning)"

definition content_with_warning :: "pystr \<Rightarrow> pystr \<Rightarrow> pystr" where
  "content_with_warning content warning = (if warning \<noteq> [] then warning @ [CHR 0x0A] @ content else content)"

section \<open>Paths\<close>

definition base_path :: "FileEnv \<Rightarrow> fpath" where
  "base_path env = (case fe_staging env of Some st \<Rightarrow> st | None \<Rightarrow> fe_cwd env)"

definition is_path_inside :: "FileEnv \<Rightarrow> fpath \<Rightarrow> fpath \<Rightarrow> bool" where
  "is_path_inside env p area = prefix (fe_resolve env area) (fe_resolve env p)"

definition is_allowed_path :: "FileEnv \<Rightarrow> fpath \<Rightarrow> bool" where
  "is_allowed_path env p \<longleftrightarrow> (case fe_staging env of Some st \<Rightarrow> prefix st p | None \<Rightarrow> False) \<or>
     list_ex (\<lambda>area. prefix area p) (fe_read_roots env)"

definition outside_text :: "pystr \<Rightarrow> pystr" where
  "outside_text raw = ''Path fora da workspace: '' @ raw"

definition resolve_readable :: "FileEnv \<Rightarrow> pystr \<Rightarrow> tool_exception + fpath" where
  "resolve_readable env raw = (let p = fe_resolve env (joined (base_path env) raw) in
     if is_allowed_path env p then Inr p else Inl (ValueErr (outside_text raw)))"

definition resolve_mutable :: "FileEnv \<Rightarrow> pystr \<Rightarrow> tool_exception + fpath" where
  "resolve_mutable env raw = (let p = fe_resolve env (joined (base_path env) raw) in
     if (case fe_staging env of Some st \<Rightarrow> is_path_inside env p st | None \<Rightarrow> False) then Inr p
     else if is_path_inside env p (fe_cwd env) then Inr p else Inl (ValueErr (outside_text raw)))"

text \<open>\<open>call.arguments ["path"]\<close> and \<open>call.arguments.get ("path", default)\<close>, a text; \<open>str (.. get (k, default))\<close>.\<close>

definition needed_text :: "ToolCall \<Rightarrow> pystr \<Rightarrow> tool_exception + pystr" where
  "needed_text call k = (case arg call k of None \<Rightarrow> Inl (KeyErr k) | Some (JStr t) \<Rightarrow> Inr t | Some v \<Rightarrow> Inl (BadArgument v))"

definition text_default :: "ToolCall \<Rightarrow> pystr \<Rightarrow> pystr \<Rightarrow> tool_exception + pystr" where
  "text_default call k d = (case arg call k of None \<Rightarrow> Inr d | Some (JStr t) \<Rightarrow> Inr t | Some v \<Rightarrow> Inl (BadArgument v))"

definition str_default :: "FileEnv \<Rightarrow> ToolCall \<Rightarrow> pystr \<Rightarrow> pystr \<Rightarrow> pystr" where
  "str_default env call k d = (case arg call k of None \<Rightarrow> d | Some v \<Rightarrow> py_str (fe_py env) v)"

definition flag_arg :: "ToolCall \<Rightarrow> pystr \<Rightarrow> bool \<Rightarrow> bool" where
  "flag_arg call k d = (case arg call k of None \<Rightarrow> d | Some v \<Rightarrow> truthy v)"

definition given_arg :: "ToolCall \<Rightarrow> pystr \<Rightarrow> json option" where
  "given_arg call k = (case arg call k of Some JNull \<Rightarrow> None | v \<Rightarrow> v)"

section \<open>Listing\<close>

definition name_entry :: "pystr \<times> bool \<Rightarrow> pystr" where
  "name_entry e = fst e @ (if snd e then ''/'' else [])"

text \<open>\<open>sorted (all_names.items (), key=(not is_dir, name.lower ()))\<close>, a stable sort.\<close>

definition listing :: "(pystr \<times> bool) list \<Rightarrow> pystr list" where
  "listing xs = map name_entry (sort_key (\<lambda>e. py_lower (fst e)) (filter snd xs) @
     sort_key (\<lambda>e. py_lower (fst e)) (filter (\<lambda>e. \<not> snd e) xs))"

definition merged_entries :: "(pystr \<times> bool) list \<Rightarrow> (pystr \<times> bool) list \<Rightarrow> (pystr \<times> bool) list" where
  "merged_entries xs ys = foldl (\<lambda>acc (n, d). AList.update n d acc) (foldl (\<lambda>acc (n, d). AList.update n d acc) [] xs) ys"

definition list_files :: "FileEnv \<Rightarrow> ToolCall \<Rightarrow> ToolResult file_act" where
  "list_files env call =
     act_bind (f_lift (text_default call ''path'' ''.'')) (\<lambda>raw.
     act_bind (f_lift (resolve_readable env raw)) (\<lambda>p.
     act_bind (act_get fs_tree) (\<lambda>t.
       let staging_check = (case fe_staging env of None \<Rightarrow> None
             | Some st \<Rightarrow> if p \<noteq> st \<and> prefix (fe_cwd env) p then Some (fe_resolve env (joined st raw)) else None);
           staged = (case staging_check of None \<Rightarrow> False | Some q \<Rightarrow> path_exists t q) in
       if \<not> path_exists t p \<and> \<not> staged
       then act_return (tool_failure (tool_name call) (''Diret'' @ [CHR 0xF3] @ ''rio n'' @ [CHR 0xE3] @ ''o encontrado: '' @ raw) [])
       else if path_exists t p \<and> \<not> is_dir t p
       then act_return (tool_failure (tool_name call) (''N'' @ [CHR 0xE3] @ ''o '' @ [CHR 0xE9] @ '' um diret'' @ [CHR 0xF3] @ ''rio: '' @ raw) [])
       else act_return (tool_success (tool_name call) (py_join [CHR 0x0A] (listing (merged_entries
              (if path_exists t p then dir_entries t p else [])
              (case staging_check of Some q \<Rightarrow> if is_dir t q then dir_entries t q else [] | None \<Rightarrow> [])))) []))))"

section \<open>Reading\<close>

text \<open>\<open>text.splitlines (keepends=True)\<close>.\<close>

fun keep_lines :: "pystr \<Rightarrow> pystr \<Rightarrow> pystr list" where
  "keep_lines line [] = (if line = [] then [] else [line])"
| "keep_lines line (c # cs) =
     (if line_end c then
        if c = CHR 0x0D \<and> cs \<noteq> [] \<and> hd cs = CHR 0x0A then (line @ [c, CHR 0x0A]) # keep_lines [] (tl cs)
        else (line @ [c]) # keep_lines [] cs
      else keep_lines (line @ [c]) cs)"

definition int_arg :: "json option \<Rightarrow> int \<Rightarrow> tool_exception + int" where
  "int_arg v d = (case v of None \<Rightarrow> Inr d | Some j \<Rightarrow> (case py_int j of Some i \<Rightarrow> Inr i | None \<Rightarrow> Inl (BadArgument j)))"

definition read_path :: "FileEnv \<Rightarrow> tree \<Rightarrow> pystr \<Rightarrow> tool_exception + fpath" where
  "read_path env t raw = (case fe_staging env of
     None \<Rightarrow> resolve_readable env raw
   | Some st \<Rightarrow>
       (let staged = fe_resolve env (joined st raw); p = fe_resolve env (joined (fe_cwd env) raw) in
        if prefix st staged \<and> path_exists t staged then Inr staged
        else if \<not> prefix (fe_cwd env) p then Inl (ValueErr (outside_text raw)) else Inr p))"

definition read_result :: "FileEnv \<Rightarrow> ToolCall \<Rightarrow> fpath \<Rightarrow> FileFingerprint \<Rightarrow> pystr \<Rightarrow> nat \<Rightarrow> nat \<Rightarrow> nat \<Rightarrow> ToolResult file_act" where
  "read_result env call p fp shown first final lines_total = (let cut = length shown > fe_max_read env in
     act_then (f_record env call p (Some fp))
       (act_return (tool_success (tool_name call) (take (fe_max_read env) shown)
          [(''path'', JStr (path_text p)), (''start_line'', JInt first), (''end_line'', JInt final),
           (''total_lines'', JInt lines_total), (''truncated'', JBool cut)]\<lparr>tr_truncated := cut\<rparr>)))"

definition read_file :: "FileEnv \<Rightarrow> ToolCall \<Rightarrow> ToolResult file_act" where
  "read_file env call =
     act_bind (f_lift (needed_text call ''path'')) (\<lambda>raw.
     act_bind (act_get id) (\<lambda>s.
     act_bind (f_lift (read_path env (fs_tree s) raw)) (\<lambda>p.
     act_bind (f_lift (read_text p (fs_tree s))) (\<lambda>content.
       let before = (case stat_of env p (fs_tree s) of Some f \<Rightarrow> f | None \<Rightarrow> fe_dir_stat env p);
           after = (case fe_race env (fs_tick s) of None \<Rightarrow> before | Some f \<Rightarrow> f) in
       if before \<noteq> after
       then act_return (tool_failure (tool_name call)
              (''read_file: '' @ [CHR 0x27] @ raw @ [CHR 0x27] @ '' mudou durante a leitura. Releia o arquivo antes de editar.'')
              [(''path'', JStr (path_text p)), (''reason'', JStr ''changed_during_read'')])
       else (let all = keep_lines [] content; lines_total = length all;
                 start_line = given_arg call ''start_line''; end_line = given_arg call ''end_line'' in
         if start_line = None \<and> end_line = None
         then read_result env call p after content (if lines_total > 0 then 1 else 0) lines_total lines_total
         else act_bind (f_lift (int_arg start_line 1)) (\<lambda>a.
              act_bind (f_lift (int_arg end_line (int lines_total))) (\<lambda>b.
                let first = max 0 (a - 1); final = min b (int lines_total) in
                if first \<ge> final
                then act_return (tool_failure (tool_name call)
                       (''Intervalo inv'' @ [CHR 0xE1] @ ''lido: start_line='' @ (case start_line of None \<Rightarrow> ''None'' | Some v \<Rightarrow> py_str (fe_py env) v) @
                        '', end_line='' @ (case end_line of None \<Rightarrow> ''None'' | Some v \<Rightarrow> py_str (fe_py env) v) @
                        ''. Arquivo tem '' @ show_nat lines_total @ '' linhas.'') [])
                else read_result env call p after (concat (take (nat final - nat first) (drop (nat first) all)))
                       (nat first + 1) (nat final) lines_total)))))))"

section \<open>Writing\<close>

definition write_modes :: "pystr list" where
  "write_modes = [''overwrite'', ''append'', ''create'']"

text \<open>The text of the file before, for \<open>append\<close>: what is written goes after it as it is.\<close>

definition content_at :: "tree \<Rightarrow> fpath \<Rightarrow> pystr" where
  "content_at t p = (case node_at t p of Some (File c _) \<Rightarrow> c | _ \<Rightarrow> [])"

definition bad_mode_text :: "pystr \<Rightarrow> pystr" where
  "bad_mode_text mode = ''write_file: mode inv'' @ [CHR 0xE1] @ ''lido: '' @ py_repr_text mode @ '' (use overwrite, append ou create)''"

definition overwrite_text :: pystr where
  "overwrite_text = ''write_file n'' @ [CHR 0xE3] @ ''o pode sobrescrever arquivo existente sem replace_existing=true; para edi'' @ [CHR 0xE7, CHR 0xF5] @ ''es parciais use apply_patch''"

definition store_file :: "FileEnv \<Rightarrow> ToolCall \<Rightarrow> fpath \<Rightarrow> pystr \<Rightarrow> pystr \<Rightarrow> ToolResult file_act" where
  "store_file env call p content warning =
     act_then (f_tree (make_parents p))
     (act_then (f_write env p content)
     (act_then (f_record env call p None)
       (act_return (tool_success (tool_name call)
          (content_with_warning (''Arquivo salvo: '' @ path_text p) warning) []))))"

definition write_file :: "FileEnv \<Rightarrow> ToolCall \<Rightarrow> ToolResult file_act" where
  "write_file env call =
     act_bind (f_lift (needed_text call ''path'')) (\<lambda>raw.
     act_bind (f_lift (resolve_mutable env raw)) (\<lambda>p.
       let mode = str_default env call ''mode'' ''overwrite'' in
       if mode \<notin> set write_modes then act_return (tool_failure (tool_name call) (bad_mode_text mode) [])
       else (case arg call ''content'' of
         None \<Rightarrow> act_raise (KeyErr ''content'')
       | Some v \<Rightarrow>
         (let content = py_str (fe_py env) v; replace_existing = flag_arg call ''replace_existing'' False in
          act_bind (act_get fs_tree) (\<lambda>t.
            if mode = ''create'' \<and> path_exists t p
            then act_return (tool_failure (tool_name call) (''Arquivo j'' @ [CHR 0xE1] @ '' existe: '' @ path_text p) [])
            else if mode = ''overwrite'' \<and> path_exists t p \<and> \<not> replace_existing
            then act_return (tool_failure (tool_name call) overwrite_text [])
            else (let proceed = store_file env call p (if mode = ''append'' then content_at t p @ content else content) in
              if mode \<in> {''overwrite'', ''append''} \<and> path_exists t p then guarded_edit env call p raw proceed
              else proceed []))))))"

section \<open>Replacing\<close>

text \<open>\<open>text.count (old)\<close> and \<open>text.replace (old, new, n)\<close>: from the left, without overlap.\<close>

fun py_count :: "pystr \<Rightarrow> pystr \<Rightarrow> nat" where
  "py_count old [] = 0"
| "py_count old (c # cs) =
     (if old \<noteq> [] \<and> prefix old (c # cs) then Suc (py_count old (drop (length old - 1) cs)) else py_count old cs)"

fun py_replace :: "pystr \<Rightarrow> pystr \<Rightarrow> nat \<Rightarrow> pystr \<Rightarrow> pystr" where
  "py_replace old new n [] = []"
| "py_replace old new n (c # cs) =
     (if 0 < n \<and> old \<noteq> [] \<and> prefix old (c # cs) then new @ py_replace old new (n - 1) (drop (length old - 1) cs)
      else c # py_replace old new n cs)"

definition replace_count :: "json option \<Rightarrow> nat" where
  "replace_count v = (case v of None \<Rightarrow> 1 | Some j \<Rightarrow> (case py_int j of None \<Rightarrow> 1 | Some i \<Rightarrow> nat (max 1 i)))"

definition replace_in :: "FileEnv \<Rightarrow> ToolCall \<Rightarrow> fpath \<Rightarrow> pystr \<Rightarrow> pystr \<Rightarrow> nat \<Rightarrow> tree \<Rightarrow> pystr \<Rightarrow> ToolResult file_act" where
  "replace_in env call p old new expected t warning =
     act_bind (f_lift (read_text p t)) (\<lambda>content.
       let actual = py_count old content in
       if actual \<noteq> expected
       then act_return (tool_failure (tool_name call)
         (''replace_text encontrou '' @ show_nat actual @ '' ocorr'' @ [CHR 0xEA] @ ''ncias, mas esperava '' @ show_nat expected @
          ''. Nenhuma altera'' @ [CHR 0xE7, CHR 0xE3] @ ''o aplicada.'')
         [(''path'', JStr (path_text p)), (''occurrences'', JInt actual), (''expected_count'', JInt expected)])
       else act_then (f_write env p (py_replace old new expected content))
            (act_then (f_record env call p None)
              (act_return (tool_success (tool_name call)
                (content_with_warning (''Texto substitu'' @ [CHR 0xED] @ ''do em: '' @ path_text p) warning)
                [(''path'', JStr (path_text p)), (''occurrences'', JInt actual)]))))"

definition replace_text :: "FileEnv \<Rightarrow> ToolCall \<Rightarrow> ToolResult file_act" where
  "replace_text env call =
     act_bind (f_lift (needed_text call ''path'')) (\<lambda>raw.
     act_bind (f_lift (resolve_mutable env raw)) (\<lambda>p.
     act_bind (act_get fs_tree) (\<lambda>t.
       if \<not> is_file t p then act_return (tool_failure (tool_name call) (''Arquivo inv'' @ [CHR 0xE1] @ ''lido: '' @ raw) [])
       else (let old = str_default env call ''old'' []; new = str_default env call ''new'' [];
                 expected = replace_count (given_arg call ''count'') in
         if old = [] then act_return (tool_failure (tool_name call) (''replace_text requer '' @ [CHR 0x27] @ ''old'' @ [CHR 0x27] @ '' n'' @ [CHR 0xE3] @ ''o vazio'') [])
         else guarded_edit env call p raw (replace_in env call p old new expected t))))) "

section \<open>Removing\<close>

definition is_os_error :: "tool_exception \<Rightarrow> bool" where
  "is_os_error e = (case e of OsErr _ _ \<Rightarrow> True | _ \<Rightarrow> False)"

definition unlink_file :: "FileEnv \<Rightarrow> ToolCall \<Rightarrow> fpath \<Rightarrow> pystr \<Rightarrow> ToolResult file_act" where
  "unlink_file env call p warning = act_try is_os_error
     (act_then (f_tree (unlink p))
     (act_then (f_forget env call p)
       (act_return (tool_success (tool_name call)
          (content_with_warning (''Arquivo removido: '' @ path_text p) warning) []))))
     (\<lambda>e. act_return (tool_failure (tool_name call) (exc_message env e) []))"

definition remove_file :: "FileEnv \<Rightarrow> ToolCall \<Rightarrow> ToolResult file_act" where
  "remove_file env call =
     act_bind (f_lift (needed_text call ''path'')) (\<lambda>raw.
     act_bind (f_lift (resolve_mutable env raw)) (\<lambda>p.
     act_bind (act_get fs_tree) (\<lambda>t.
       if \<not> path_exists t p then act_return (tool_failure (tool_name call) (''Arquivo n'' @ [CHR 0xE3] @ ''o encontrado: '' @ raw) [])
       else if is_dir t p then act_return (tool_failure (tool_name call) (''remove_file n'' @ [CHR 0xE3] @ ''o remove diret'' @ [CHR 0xF3] @ ''rios: '' @ raw) [])
       else if flag_arg call ''dry_run'' True
       then act_return (tool_success (tool_name call) (''[dry-run] Removeria: '' @ path_text p @ ''.'' @
              (if fe_read_mode env \<noteq> ''off'' then '' Leia o arquivo com read_file antes de confirmar.'' else [])) [])
       else guarded_edit env call p raw (unlink_file env call p))))"

end
