(* ===== verification/Patch_Tool.thy ===== *)
theory Patch_Tool
  imports File_Tools
begin

text \<open>
  The patch tool (\<open>runtime/tools/patch.py\<close>): the parser of structured patches, the search and
  replacement of hunks, the prior check of reads and the application of the operations one after the
  other. The similarity of two texts (\<open>difflib\<close>) is a parameter.
\<close>

section \<open>Operations\<close>

datatype patch_op =
    AddFile pystr pystr
  | DeleteFile pystr
  | UpdateFile pystr "pystr list list" "pystr option"

definition op_path :: "patch_op \<Rightarrow> pystr" where
  "op_path op = (case op of AddFile p _ \<Rightarrow> p | DeleteFile p \<Rightarrow> p | UpdateFile p _ _ \<Rightarrow> p)"

definition join_lines :: "pystr list \<Rightarrow> pystr" where
  "join_lines ls = (if ls = [] then [] else py_join [CHR 0x0A] ls @ [CHR 0x0A])"

section \<open>Parsing\<close>

definition begin_line :: pystr where "begin_line = ''*** Begin Patch''"
definition end_line :: pystr where "end_line = ''*** End Patch''"
definition eof_line :: pystr where "eof_line = ''*** End of File''"
definition add_mark :: pystr where "add_mark = ''*** Add File: ''"
definition delete_mark :: pystr where "delete_mark = ''*** Delete File: ''"
definition update_mark :: pystr where "update_mark = ''*** Update File: ''"
definition move_mark :: pystr where "move_mark = ''*** Move to: ''"

definition marked :: "pystr \<Rightarrow> bool" where
  "marked line = prefix ''*** '' line"

definition after_mark :: "pystr \<Rightarrow> pystr \<Rightarrow> pystr" where
  "after_mark mark line = py_strip (drop (length mark) line)"

definition added_line :: "pystr \<Rightarrow> tool_exception + pystr" where
  "added_line line = (if prefix ''+'' line then Inr (tl line)
     else Inl (PatchErr (''Add File aceita apenas linhas prefixadas com '' @ [CHR 0x27] @ ''+'' @ [CHR 0x27])))"

text \<open>
  The lines of an update up to the next mark: \<open>hunks\<close> and the current hunk. A line \<open>*** End of File\<close> is
  skipped by the code, but the loop has stopped before it, for it has the form of a mark.
\<close>

fun read_hunks :: "pystr list \<Rightarrow> pystr list list \<Rightarrow> pystr list \<Rightarrow> tool_exception + pystr list list" where
  "read_hunks [] hunks current = Inr (if current \<noteq> [] then hunks @ [current] else hunks)"
| "read_hunks (raw # lines) hunks current =
     (if prefix ''@@'' raw then read_hunks lines (if current \<noteq> [] then hunks @ [current] else hunks) []
      else if raw = eof_line then read_hunks lines hunks current
      else if raw \<noteq> [] \<and> hd raw \<in> {CHR '' '', CHR ''+'', CHR ''-''} then read_hunks lines hunks (current @ [raw])
      else Inl (PatchErr (''Linha inv'' @ [CHR 0xE1] @ ''lida no update: '' @ raw)))"

definition update_op :: "pystr \<Rightarrow> pystr option \<Rightarrow> pystr list \<Rightarrow> tool_exception + patch_op" where
  "update_op path move_to lines = bind_res (read_hunks lines [] []) (\<lambda>hunks.
     if hunks = [] then Inl (PatchErr (''Update sem hunks: '' @ path)) else Inr (UpdateFile path hunks move_to))"

definition bad_operation :: "pystr \<Rightarrow> tool_exception" where
  "bad_operation line = PatchErr (''Opera'' @ [CHR 0xE7, CHR 0xE3] @ ''o de patch inv'' @ [CHR 0xE1] @ ''lida: '' @ line)"

definition move_target :: "pystr list \<Rightarrow> pystr option" where
  "move_target lines = (case lines of [] \<Rightarrow> None | l # _ \<Rightarrow> if prefix move_mark l then Some (after_mark move_mark l) else None)"

definition hunk_lines :: "pystr list \<Rightarrow> pystr list" where
  "hunk_lines lines = (if move_target lines = None then lines else tl lines)"

lemma dropWhile_shorter: "length (dropWhile P xs) \<le> length xs"
  by (induction xs) auto

lemma hunk_lines_shorter: "length (hunk_lines lines) \<le> length lines"
  by (simp add: hunk_lines_def)

function parse_ops :: "pystr list \<Rightarrow> tool_exception + patch_op list" where
  "parse_ops [] = Inr []"
| "parse_ops (line # lines) =
     (if prefix add_mark line then
        bind_res (map_res added_line (takeWhile (\<lambda>l. \<not> marked l) lines)) (\<lambda>content.
        bind_res (parse_ops (dropWhile (\<lambda>l. \<not> marked l) lines)) (\<lambda>ops.
        Inr (AddFile (after_mark add_mark line) (join_lines content) # ops)))
      else if prefix delete_mark line then
        bind_res (parse_ops lines) (\<lambda>ops. Inr (DeleteFile (after_mark delete_mark line) # ops))
      else if prefix update_mark line then
        bind_res (update_op (after_mark update_mark line) (move_target lines)
            (takeWhile (\<lambda>l. \<not> marked l) (hunk_lines lines))) (\<lambda>op.
        bind_res (parse_ops (dropWhile (\<lambda>l. \<not> marked l) (hunk_lines lines))) (\<lambda>ops. Inr (op # ops)))
      else Inl (bad_operation line))"
  by pat_completeness auto
termination
proof (relation "measure length")
  fix line :: pystr and lines :: "pystr list"
  show "(dropWhile (\<lambda>l. \<not> marked l) lines, line # lines) \<in> measure length"
    using dropWhile_shorter [of "\<lambda>l. \<not> marked l" lines] by simp
  show "(dropWhile (\<lambda>l. \<not> marked l) (hunk_lines lines), line # lines) \<in> measure length"
    using dropWhile_shorter [of "\<lambda>l. \<not> marked l" "hunk_lines lines"] hunk_lines_shorter [of lines] by simp
qed simp_all

definition parse_patch :: "pystr \<Rightarrow> tool_exception + patch_op list" where
  "parse_patch patch = (let lines = py_splitlines patch in
     if lines = [] \<or> hd lines \<noteq> begin_line then Inl (PatchErr (''Patch deve come'' @ [CHR 0xE7] @ ''ar com '' @ [CHR 0x27] @ ''*** Begin Patch'' @ [CHR 0x27]))
     else if last lines \<noteq> end_line then Inl (PatchErr (''Patch deve terminar com '' @ [CHR 0x27] @ ''*** End Patch'' @ [CHR 0x27]))
     else parse_ops (butlast (tl lines)))"

section \<open>Hunks\<close>

definition old_lines :: "pystr list \<Rightarrow> pystr list" where
  "old_lines hunk = map tl (filter (\<lambda>l. l \<noteq> [] \<and> hd l \<in> {CHR '' '', CHR ''-''}) hunk)"

definition new_lines :: "pystr list \<Rightarrow> pystr list" where
  "new_lines hunk = map tl (filter (\<lambda>l. l \<noteq> [] \<and> hd l \<in> {CHR '' '', CHR ''+''}) hunk)"

definition find_subsequence :: "'a list \<Rightarrow> 'a list \<Rightarrow> nat \<Rightarrow> nat option" where
  "find_subsequence haystack needle start =
     (if needle = [] then Some start
      else find (\<lambda>i. take (length needle) (drop i haystack) = needle)
             [start ..< length haystack + 1 - length needle])"

text \<open>The first window with the highest similarity, for the message of a hunk that is not found.\<close>

definition windows :: "nat \<Rightarrow> pystr list \<Rightarrow> pystr list list" where
  "windows n lines = map (\<lambda>i. take n (drop i lines)) [0 ..< max (length lines + 1 - n) 1]"

fun best_window :: "(pystr \<Rightarrow> pystr \<Rightarrow> rat) \<Rightarrow> pystr \<Rightarrow> pystr list list \<Rightarrow> nat \<Rightarrow> (nat \<times> rat) option \<Rightarrow> (nat \<times> rat) option" where
  "best_window ratio chunk [] i best = best"
| "best_window ratio chunk (w # ws) i best =
     (let r = ratio chunk (py_join [CHR 0x0A] w) in
      best_window ratio chunk ws (Suc i)
        (case best of None \<Rightarrow> Some (i, r) | Some (j, q) \<Rightarrow> if r > q then Some (i, r) else best))"

definition format_lines :: "pystr list \<Rightarrow> pystr" where
  "format_lines lines = (let shown = take 5 lines in
     if shown = [] then ''<vazio>''
     else py_join [CHR 0x0A] shown @ (if length lines \<le> 5 then []
       else [CHR 0x0A] @ ''... (+'' @ show_nat (length lines - 5) @ '' linhas)''))"

record PatchEnv =
  pe_files :: FileEnv
  pe_ratio :: "pystr \<Rightarrow> pystr \<Rightarrow> rat"
  pe_percent :: "rat \<Rightarrow> pystr"

definition missing_hunk :: "PatchEnv \<Rightarrow> pystr \<Rightarrow> pystr list \<Rightarrow> pystr list \<Rightarrow> tool_exception" where
  "missing_hunk env path old_chunk lines = PatchErr
     (if old_chunk = [] then ''Hunk vazio n'' @ [CHR 0xE3] @ ''o encontrado em '' @ path
      else (case best_window (pe_ratio env) (py_join [CHR 0x0A] old_chunk) (windows (length old_chunk) lines) 0 None of
        None \<Rightarrow> ''Hunk n'' @ [CHR 0xE3] @ ''o encontrado em '' @ path @ ''. Esperado:'' @ [CHR 0x0A] @ format_lines old_chunk
      | Some (i, r) \<Rightarrow> ''Hunk n'' @ [CHR 0xE3] @ ''o encontrado em '' @ path @ ''. Trecho mais pr'' @ [CHR 0xF3] @ ''ximo come'' @ [CHR 0xE7] @ ''a na linha '' @ show_nat (i + 1) @
          '' (similaridade '' @ pe_percent env r @ '').'' @ [CHR 0x0A] @ ''Esperado:'' @ [CHR 0x0A] @ format_lines old_chunk @
          [CHR 0x0A] @ ''Encontrado pr'' @ [CHR 0xF3] @ ''ximo:'' @ [CHR 0x0A] @ format_lines (take (length old_chunk) (drop i lines))))"

fun apply_hunks :: "PatchEnv \<Rightarrow> pystr \<Rightarrow> pystr list list \<Rightarrow> pystr list \<Rightarrow> nat \<Rightarrow> tool_exception + pystr list" where
  "apply_hunks env path [] lines cursor = Inr lines"
| "apply_hunks env path (hunk # hunks) lines cursor =
     (let old_chunk = old_lines hunk; new_chunk = new_lines hunk in
      case find_subsequence lines old_chunk cursor of
        None \<Rightarrow> Inl (missing_hunk env path old_chunk lines)
      | Some i \<Rightarrow> apply_hunks env path hunks (take i lines @ new_chunk @ drop (i + length old_chunk) lines)
          (i + length new_chunk))"

section \<open>The tool\<close>

text \<open>\<open>_resolve\<close> compares the texts of the paths.\<close>

definition patch_resolve :: "PatchEnv \<Rightarrow> pystr \<Rightarrow> tool_exception + fpath" where
  "patch_resolve env raw = (let base = base_path (pe_files env); p = fe_resolve (pe_files env) (joined base raw) in
     if prefix (path_text base) (path_text p) then Inr p else Inl (PatchErr (outside_text raw)))"

definition display_path :: "PatchEnv \<Rightarrow> fpath \<Rightarrow> tool_exception + pystr" where
  "display_path env p = (let base = base_path (pe_files env) in
     if prefix base p then Inr (if p = base then ''.'' else py_join ''/'' (drop (length base) p))
     else Inl (ValueErr (py_repr_text (path_text p) @ '' is not in the subpath of '' @ py_repr_text (path_text base))))"

text \<open>\<open>self._resolve (op.move_to) if op.move_to else path\<close>.\<close>

definition update_target :: "PatchEnv \<Rightarrow> fpath \<Rightarrow> pystr option \<Rightarrow> tool_exception + fpath" where
  "update_target env p move_to = (if or_empty move_to = [] then Inr p else patch_resolve env (or_empty move_to))"

text \<open>The paths an operation needs to have been read: what it changes, and an existing target of a move.\<close>

definition guarded_paths :: "PatchEnv \<Rightarrow> tree \<Rightarrow> patch_op \<Rightarrow> tool_exception + (pystr \<times> fpath) list" where
  "guarded_paths env t op = (case op of
     AddFile _ _ \<Rightarrow> Inr []
   | DeleteFile raw \<Rightarrow> bind_res (patch_resolve env raw) (\<lambda>p. Inr [(raw, p)])
   | UpdateFile raw _ move_to \<Rightarrow> bind_res (patch_resolve env raw) (\<lambda>p. bind_res (update_target env p move_to) (\<lambda>q.
       Inr ((raw, p) # (if q \<noteq> p \<and> path_exists t q then [(or_empty move_to, q)] else [])))))"

fun check_paths :: "PatchEnv \<Rightarrow> ToolCall \<Rightarrow> (pystr \<times> fpath) list \<Rightarrow> pystr list \<Rightarrow> (ToolResult + pystr list) file_act" where
  "check_paths env call [] warnings = act_return (Inr warnings)"
| "check_paths env call ((shown, p) # ps) warnings =
     act_bind (read_guard (pe_files env) call p shown) (\<lambda>d.
       if guard_allowed d then check_paths env call ps warnings
       else if fe_read_mode (pe_files env) = ''warn'' then
         (let warning = ''[aviso read-before-edit] '' @ rg_message d in
          check_paths env call ps (if warning \<in> set warnings then warnings else warnings @ [warning]))
       else act_return (Inl (tool_failure (tool_name call) (rg_message d) (rg_data d))))"

fun precheck_ops :: "PatchEnv \<Rightarrow> ToolCall \<Rightarrow> patch_op list \<Rightarrow> pystr list \<Rightarrow> (ToolResult + pystr list) file_act" where
  "precheck_ops env call [] warnings = act_return (Inr warnings)"
| "precheck_ops env call (op # ops) warnings =
     act_bind (act_get fs_tree) (\<lambda>t.
     act_bind (f_lift (guarded_paths env t op)) (\<lambda>ps.
     act_bind (check_paths env call ps warnings) (\<lambda>r. case r of
       Inl blocked \<Rightarrow> act_return (Inl blocked)
     | Inr ws \<Rightarrow> precheck_ops env call ops ws)))"

definition precheck_reads :: "PatchEnv \<Rightarrow> ToolCall \<Rightarrow> patch_op list \<Rightarrow> (ToolResult + pystr list) file_act" where
  "precheck_reads env call ops =
     (if fe_read_mode (pe_files env) = ''off'' then act_return (Inr []) else precheck_ops env call ops [])"

definition apply_update :: "PatchEnv \<Rightarrow> fpath \<Rightarrow> pystr \<Rightarrow> pystr list list \<Rightarrow> pystr option \<Rightarrow> bool \<Rightarrow> fpath file_act" where
  "apply_update env p raw hunks move_to dry_run =
     act_bind (act_get fs_tree) (\<lambda>t.
       if \<not> path_exists t p then act_raise (PatchErr (''Arquivo n'' @ [CHR 0xE3] @ ''o existe para update: '' @ raw))
       else act_bind (f_lift (read_text p t)) (\<lambda>content.
         act_bind (f_lift (apply_hunks env raw hunks (py_splitlines content) 0)) (\<lambda>lines.
         act_bind (f_lift (update_target env p move_to)) (\<lambda>target.
           if dry_run then act_return target
           else act_then (f_tree (make_parents target))
             (act_then (f_write (pe_files env) target (join_lines lines))
             (act_then (act_when (target \<noteq> p) (f_tree (unlink p)))
               (act_return target)))))))"

definition f_forget_silently :: "FileEnv \<Rightarrow> ToolCall \<Rightarrow> fpath \<Rightarrow> unit file_act" where
  "f_forget_silently env call p = act_bind (f_forget env call p) (\<lambda>_. act_return ())"

definition apply_op :: "PatchEnv \<Rightarrow> ToolCall \<Rightarrow> bool \<Rightarrow> patch_op \<Rightarrow> pystr file_act" where
  "apply_op env call dry_run op = (case op of
     AddFile raw content \<Rightarrow>
       act_bind (f_lift (patch_resolve env raw)) (\<lambda>p.
       act_bind (act_get fs_tree) (\<lambda>t.
         if path_exists t p then act_raise (PatchErr (''Arquivo j'' @ [CHR 0xE1] @ '' existe: '' @ raw))
         else act_then (act_when (\<not> dry_run) (act_then (f_tree (make_parents p))
                (act_then (f_write (pe_files env) p content) (f_record (pe_files env) call p None))))
              (act_return raw)))
   | DeleteFile raw \<Rightarrow>
       act_bind (f_lift (patch_resolve env raw)) (\<lambda>p.
       act_bind (act_get fs_tree) (\<lambda>t.
         if \<not> path_exists t p then act_raise (PatchErr (''Arquivo n'' @ [CHR 0xE3] @ ''o existe: '' @ raw))
         else act_then (act_when (\<not> dry_run) (act_then (f_tree (unlink p)) (f_forget_silently (pe_files env) call p)))
              (act_return raw)))
   | UpdateFile raw hunks move_to \<Rightarrow>
       act_bind (f_lift (patch_resolve env raw)) (\<lambda>p.
       act_bind (apply_update env p raw hunks move_to dry_run) (\<lambda>target.
       act_then (act_when (\<not> dry_run) (act_then
            (act_when (target \<noteq> p) (f_forget_silently (pe_files env) call p)) (f_record (pe_files env) call target None)))
         (f_lift (display_path env target)))))"

definition patch_success :: "ToolCall \<Rightarrow> bool \<Rightarrow> pystr list \<Rightarrow> pystr list \<Rightarrow> ToolResult" where
  "patch_success call dry_run warnings changed =
     (let content = (if dry_run then ''[dry-run] Patch validado com sucesso.'' else ''Patch aplicado com sucesso.'') in
      tool_success (tool_name call)
        (if warnings \<noteq> [] then py_join [CHR 0x0A] (warnings @ [content]) else content)
        [(''changed_files'', JList (map JStr changed)), (''dry_run'', JBool dry_run)])"

text \<open>\<open>if blocked is not None: return blocked\<close>, and the operations one after the other.\<close>

definition apply_checked :: "PatchEnv \<Rightarrow> ToolCall \<Rightarrow> bool \<Rightarrow> patch_op list \<Rightarrow> ToolResult + pystr list \<Rightarrow> ToolResult file_act" where
  "apply_checked env call dry_run ops checked = (case checked of
     Inl blocked \<Rightarrow> act_return blocked
   | Inr warnings \<Rightarrow> act_bind (act_each (apply_op env call dry_run) ops) (\<lambda>changed.
       act_return (patch_success call dry_run warnings changed)))"

definition apply_patch :: "PatchEnv \<Rightarrow> ToolCall \<Rightarrow> ToolResult file_act" where
  "apply_patch env call =
     (let raw_patch = str_default (pe_files env) call ''patch'' [] in
      if py_strip raw_patch = [] then act_return (tool_failure (tool_name call) (''apply_patch requer '' @ [CHR 0x27] @ ''patch'' @ [CHR 0x27]) [])
      else (let dry_run = flag_arg call ''dry_run'' False in
        act_try (\<lambda>_. True)
          (act_bind (f_lift (parse_patch raw_patch)) (\<lambda>ops.
           act_bind (precheck_reads env call ops) (apply_checked env call dry_run ops)))
          (\<lambda>e. act_return (tool_failure (tool_name call) (exc_message (pe_files env) e) []))))"

section \<open>Dispatch\<close>

text \<open>The tools as they are registered; a name without a tool is the registry's own error.\<close>

definition run_file_tool :: "PatchEnv \<Rightarrow> ToolCall \<Rightarrow> ToolResult file_act" where
  "run_file_tool env call =
     (let name = tool_name call; files = pe_files env in
      if name = ''list_files'' then list_files files call
      else if name = ''read_file'' then read_file files call
      else if name = ''write_file'' then write_file files call
      else if name = ''replace_text'' then replace_text files call
      else if name = ''remove_file'' then remove_file files call
      else if name = ''apply_patch'' then apply_patch env call
      else act_raise (KeyErr name))"

end
