(* ===== verification/Approval_Broker.thy ===== *)
theory Approval_Broker
  imports Approval_Handlers Patch_Tool
begin

text \<open>
  The broker of approvals (\<open>runtime/approval_broker.py\<close>): requests with their risk and trusted context, scopes of
  approval with a term and a number of uses, the budget of delegations, the decision, the record of
  decisions and the keys that serialize executions. Identifiers (\<open>uuid4\<close>), the clock, the preview of a call and the
  arrow character are parameters; one operation reads the clock once.
\<close>

section \<open>Environment and state\<close>

record BrokerEnv =
  be_files :: FileEnv
  be_now :: rat
  be_ids :: "nat \<Rightarrow> pystr"
  be_thread :: int
  be_arrow :: pystr
  be_preview :: "pystr \<Rightarrow> (pystr \<times> json) list \<Rightarrow> bool \<Rightarrow> pystr"
  be_require_mutations :: bool
  be_require_tasks :: bool
  be_policy :: "WorkspacePolicy option"
  be_delegation_budget :: int

record ApprovalRequest =
  ar_id :: pystr
  ar_tool :: pystr
  ar_arguments :: "(pystr \<times> json) list"
  ar_risk :: ToolRisk
  ar_context :: TrustedContext
  ar_summary :: pystr
  ar_path :: "pystr option"
  ar_command :: "pystr option"
  ar_reason :: "pystr option"
  ar_target :: "pystr option"
  ar_created_at :: rat

record ApprovalScope =
  as_id :: pystr
  as_run_id :: pystr
  as_transport :: "pystr option"
  as_server_origin :: "pystr option"
  as_tool :: "pystr option"
  as_agent :: "pystr option"
  as_target :: "pystr option"
  as_path :: "pystr option"
  as_risk :: "ToolRisk option"
  as_expires_at :: "rat option"
  as_uses :: "int option"
  as_all_in_run :: bool

record AuditEntry =
  au_event :: pystr
  au_request :: ApprovalRequest
  au_decision :: "bool option"
  au_recorded_at :: rat

record BrokerState =
  bs_scopes :: "ApprovalScope list"
  bs_budget :: "(pystr \<times> int) list"
  bs_audit :: "AuditEntry list"
  bs_handler :: PreApproval
  bs_ids_used :: nat

definition new_broker :: BrokerState where
  "new_broker = \<lparr> bs_scopes = [], bs_budget = [], bs_audit = [], bs_handler = new_pre_approval, bs_ids_used = 0 \<rparr>"

definition fresh_id :: "BrokerEnv \<Rightarrow> BrokerState \<Rightarrow> pystr \<times> BrokerState" where
  "fresh_id env b = (be_ids env (bs_ids_used b), b\<lparr>bs_ids_used := Suc (bs_ids_used b)\<rparr>)"

section \<open>The trusted context\<close>

text \<open>\<open>_clean (raw.get (k))\<close> and \<open>_positive_int_or_none\<close>.\<close>

definition clean_field :: "PyText \<Rightarrow> (pystr \<times> json) list \<Rightarrow> pystr \<Rightarrow> pystr option" where
  "clean_field py kvs k = (case map_of kvs k of None \<Rightarrow> None | Some JNull \<Rightarrow> None | Some v \<Rightarrow> none_if_empty (py_strip (py_str py v)))"

definition positive_int :: "json option \<Rightarrow> int option" where
  "positive_int v = (case v of None \<Rightarrow> None | Some j \<Rightarrow> (case py_int j of Some i \<Rightarrow> if i > 0 then Some i else None | None \<Rightarrow> None))"

definition native_context :: "pystr \<Rightarrow> TrustedContext" where
  "native_context run = \<lparr> tc_agent_name = None, tc_parent_agent = None, tc_run_id = Some run, tc_parent_run_id = None,
     tc_job_id = None, tc_task_id = None, tc_transport = ''native_tool_call'', tc_session_id = None, tc_client_name = None,
     tc_client_version = None, tc_server_origin = ''tool_executor'', tc_http_profile = None, tc_approval_scope_id = None,
     tc_delegation_budget = None, tc_http_delegate_auto_approve = False \<rparr>"

definition dict_context :: "PyText \<Rightarrow> (pystr \<times> json) list \<Rightarrow> pystr \<Rightarrow> TrustedContext" where
  "dict_context py raw run = (native_context run)\<lparr>
     tc_agent_name := clean_field py raw ''agent_name'', tc_parent_agent := clean_field py raw ''parent_agent'',
     tc_parent_run_id := clean_field py raw ''parent_run_id'', tc_job_id := map_of raw ''job_id'', tc_task_id := map_of raw ''task_id'',
     tc_transport := text_or (or_empty (clean_field py raw ''transport'')) ''native_tool_call'',
     tc_session_id := clean_field py raw ''session_id'',
     tc_server_origin := text_or (or_empty (clean_field py raw ''server_origin'')) ''tool_executor'',
     tc_http_profile := clean_field py raw ''http_profile'', tc_approval_scope_id := clean_field py raw ''approval_scope_id'',
     tc_delegation_budget := positive_int (map_of raw ''delegation_budget''),
     tc_http_delegate_auto_approve := (case map_of raw ''http_delegate_auto_approve'' of None \<Rightarrow> False | Some v \<Rightarrow> truthy v)\<rparr>"

definition build_context :: "BrokerEnv \<Rightarrow> ToolCall \<Rightarrow> BrokerState \<Rightarrow> TrustedContext \<times> BrokerState" where
  "build_context env call b = (let py = fe_py (be_files env) in
     case call_context call of
       Some (MetaContext c) \<Rightarrow> (c, b)
     | Some (MetaJson (JObj raw)) \<Rightarrow>
         (case clean_field py raw ''run_id'' of
            Some run \<Rightarrow> (dict_context py raw run, b)
          | None \<Rightarrow> (let (n, b') = fresh_id env b in (dict_context py raw (''native:'' @ n), b')))
     | _ \<Rightarrow> (let (n, b') = fresh_id env b in (native_context (''native:'' @ n), b')))"

definition context_scope_key :: "BrokerEnv \<Rightarrow> TrustedContext \<Rightarrow> pystr" where
  "context_scope_key env c =
     (if or_empty (tc_approval_scope_id c) \<noteq> [] then ''scope:'' @ or_empty (tc_approval_scope_id c)
      else if or_empty (tc_run_id c) \<noteq> [] then ''run:'' @ or_empty (tc_run_id c)
      else ''thread:'' @ show_int (be_thread env))"

section \<open>Risk, paths and commands\<close>

definition http_method :: "BrokerEnv \<Rightarrow> ToolCall \<Rightarrow> pystr" where
  "http_method env call = text_or (py_upper (py_strip (str_default (be_files env) call ''method'' ''GET''))) ''GET''"

definition classify_call :: "BrokerEnv \<Rightarrow> ToolCall \<Rightarrow> ToolRisk" where
  "classify_call env call =
     (if tool_name call = ''http_request'' then
        (let m = http_method env call in
         if m = ''DELETE'' then RISK_DESTRUCTIVE
         else if m \<in> {''POST'', ''PUT'', ''PATCH''} then RISK_WRITE else RISK_NETWORK)
      else (case get_tool_metadata (tool_name call) of Some m \<Rightarrow> tm_risk m | None \<Rightarrow> RISK_WRITE))"

text \<open>A path the policy does not allow: the text as given and the path it stands for.\<close>

record PathPermission =
  pp_raw :: pystr
  pp_resolved :: fpath

definition cwd_path :: "BrokerEnv \<Rightarrow> pystr \<Rightarrow> fpath" where
  "cwd_path env raw = fe_resolve (be_files env) (joined (fe_cwd (be_files env)) raw)"

definition patch_path_text :: "BrokerEnv \<Rightarrow> pystr \<Rightarrow> pystr option" where
  "patch_path_text env raw_path = (let raw = py_strip raw_path in
     if raw = [] \<or> raw = ''/dev/null'' then None
     else (let p = cwd_path env (if prefix ''a/'' raw \<or> prefix ''b/'' raw then drop 2 raw else raw) in
       if is_path_inside (be_files env) p (fe_cwd (be_files env)) then Some (path_text p) else None))"

definition patch_line_path :: "pystr \<Rightarrow> pystr option" where
  "patch_line_path line =
     (if prefix add_mark line then Some (drop (length add_mark) line)
      else if prefix delete_mark line then Some (drop (length delete_mark) line)
      else if prefix update_mark line then Some (drop (length update_mark) line)
      else if prefix move_mark line then Some (drop (length move_mark) line)
      else if prefix ''+++ '' line \<or> prefix ''--- '' line then Some (hd (split_char (CHR 0x09) (py_strip (drop 4 line))))
      else None)"

definition extract_patch_paths :: "BrokerEnv \<Rightarrow> pystr \<Rightarrow> pystr list" where
  "extract_patch_paths env patch = foldl (\<lambda>paths line.
     case Option.bind (patch_line_path line) (patch_path_text env) of
       None \<Rightarrow> paths | Some t \<Rightarrow> if t \<in> set paths then paths else paths @ [t]) [] (py_splitlines patch)"

definition extract_path :: "BrokerEnv \<Rightarrow> ToolCall \<Rightarrow> PathPermission option \<Rightarrow> pystr option" where
  "extract_path env call permission = (case permission of
     Some p \<Rightarrow> Some (path_text (pp_resolved p))
   | None \<Rightarrow>
       if tool_name call = ''apply_patch'' then
         (let paths = extract_patch_paths env (str_default (be_files env) call ''patch'' []) in
          if length paths = 1 then Some (hd paths) else if paths \<noteq> [] then Some (py_join '', '' paths) else None)
       else (case get_tool_metadata (tool_name call) of
           None \<Rightarrow> None
         | Some m \<Rightarrow> if tm_path_args m = [] then None
             else Some (path_text (cwd_path env (str_default (be_files env) call (hd (tm_path_args m)) ''.'')))))"

definition extract_command :: "BrokerEnv \<Rightarrow> ToolCall \<Rightarrow> pystr option" where
  "extract_command env call =
     (if tool_name call = ''run_shell'' then none_if_empty (py_strip (str_default (be_files env) call ''command'' []))
      else if tool_name call = ''exec_command'' then
        (let given_text = (\<lambda>k. case arg call k of Some v \<Rightarrow> if truthy v then Some (py_str (fe_py (be_files env)) v) else None | None \<Rightarrow> None) in
         none_if_empty (py_strip (case given_text ''cmd'' of Some t \<Rightarrow> t | None \<Rightarrow> or_empty (given_text ''command''))))
      else None)"

section \<open>Requests\<close>

definition request_route :: "BrokerEnv \<Rightarrow> pystr \<Rightarrow> (pystr \<times> json) list \<Rightarrow> TrustedContext \<Rightarrow> pystr option \<Rightarrow> pystr option \<Rightarrow> pystr" where
  "request_route env name args c path command =
     (let sep = '' '' @ be_arrow env @ '' '';
          agents = py_join sep (filter (\<lambda>p. p \<noteq> []) [or_empty (tc_parent_agent c), or_empty (tc_agent_name c)]);
          target = (if name = ''tasks_delegate'' then map_of args ''target_agent'' else None);
          op = (case target of Some v \<Rightarrow> if truthy v then name @ ''('' @ py_str (fe_py (be_files env)) v @ '')'' else name | None \<Rightarrow> name);
          tail_text = text_or (or_empty path) (or_empty command);
          rendered = py_strip (op @ '' '' @ tail_text) in
      if agents \<noteq> [] then agents @ sep @ rendered else rendered)"

text \<open>\<open>text.split (sep)\<close> for a text that is not empty.\<close>

fun split_text :: "pystr \<Rightarrow> pystr \<Rightarrow> pystr \<Rightarrow> pystr list" where
  "split_text sep acc [] = [acc]"
| "split_text sep acc (c # cs) =
     (if sep \<noteq> [] \<and> prefix sep (c # cs) then acc # split_text sep [] (drop (length sep - 1) cs)
      else split_text sep (acc @ [c]) cs)"

definition origin_context :: "BrokerEnv \<Rightarrow> pystr \<Rightarrow> pystr option" where
  "origin_context env route = (let cleaned = py_strip route; sep = '' '' @ be_arrow env @ '' '' in
     if \<not> py_contains sep cleaned then None
     else (let parts = filter (\<lambda>p. p \<noteq> []) (map py_strip (split_text sep [] cleaned)) in
       if length parts \<le> 1 then None else none_if_empty (py_join sep (butlast parts))))"

definition request_summary :: "BrokerEnv \<Rightarrow> ToolCall \<Rightarrow> ToolRisk \<Rightarrow> TrustedContext \<Rightarrow> pystr option \<Rightarrow> pystr option \<Rightarrow>
    PathPermission option \<Rightarrow> pystr option \<Rightarrow> pystr" where
  "request_summary env call risk c path command permission reason =
     (let line = (\<lambda>label v. case v of None \<Rightarrow> [] | Some t \<Rightarrow> if t = [] then [] else [label @ t]) in
      py_join [CHR 0x0A] ([''risco: '' @ risk_value risk]
        @ line ''origem: '' (origin_context env (request_route env (tool_name call) (arguments call) c path command))
        @ line ''comando: '' command @ line ''justificativa: '' reason
        @ [case permission of
             Some p \<Rightarrow> ''Permiss'' @ [CHR 0xE3] @ ''o necess'' @ [CHR 0xE1] @ ''ria para acessar: '' @ path_text (pp_resolved p)
           | None \<Rightarrow> be_preview env (tool_name call) (arguments call) (or_empty command \<noteq> [])]))"

definition create_request :: "BrokerEnv \<Rightarrow> ToolCall \<Rightarrow> PathPermission option \<Rightarrow> pystr option \<Rightarrow> BrokerState \<Rightarrow>
    ApprovalRequest \<times> BrokerState" where
  "create_request env call permission reason b =
     (let (c, b1) = build_context env call b;
          risk = classify_call env call;
          path = extract_path env call permission;
          command = extract_command env call;
          why = (if or_empty reason \<noteq> [] then reason else if permission \<noteq> None then Some ''path_permission'' else None);
          (n, b2) = fresh_id env b1 in
      (\<lparr> ar_id = n, ar_tool = tool_name call, ar_arguments = arguments call, ar_risk = risk, ar_context = c,
         ar_summary = request_summary env call risk c path command permission why, ar_path = path, ar_command = command,
         ar_reason = why,
         ar_target = (if tool_name call = ''tasks_delegate'' then clean_field (fe_py (be_files env)) (arguments call) ''target_agent'' else None),
         ar_created_at = be_now env \<rparr>, b2))"

section \<open>Scopes\<close>

definition agrees :: "'a option \<Rightarrow> 'a option \<Rightarrow> bool" where
  "agrees wanted actual \<longleftrightarrow> wanted = None \<or> wanted = actual"

definition scope_live :: "rat \<Rightarrow> ApprovalScope \<Rightarrow> bool" where
  "scope_live now s \<longleftrightarrow> (case as_expires_at s of None \<Rightarrow> False | Some e \<Rightarrow> e > now)"

definition scope_exhausted :: "ApprovalScope \<Rightarrow> bool" where
  "scope_exhausted s = (case as_uses s of None \<Rightarrow> False | Some n \<Rightarrow> n \<le> 0)"

definition scope_matches :: "rat \<Rightarrow> ApprovalScope \<Rightarrow> ApprovalRequest \<Rightarrow> bool" where
  "scope_matches now s r \<longleftrightarrow> scope_live now s \<and> (case as_uses s of None \<Rightarrow> False | Some n \<Rightarrow> n > 0) \<and>
     Some (as_run_id s) = tc_run_id (ar_context r) \<and>
     agrees (as_transport s) (Some (tc_transport (ar_context r))) \<and>
     agrees (as_server_origin s) (Some (tc_server_origin (ar_context r))) \<and>
     agrees (as_tool s) (Some (ar_tool r)) \<and>
     agrees (as_agent s) (tc_agent_name (ar_context r)) \<and>
     agrees (as_target s) (ar_target r) \<and>
     agrees (as_path s) (ar_path r) \<and> agrees (as_risk s) (Some (ar_risk r))"

definition consume_scope :: "ApprovalScope \<Rightarrow> ApprovalScope" where
  "consume_scope s = s\<lparr>as_uses := map_option (\<lambda>n. n - 1) (as_uses s)\<rparr>"

definition prune_scopes :: "rat \<Rightarrow> ApprovalScope list \<Rightarrow> ApprovalScope list" where
  "prune_scopes now ss = filter (\<lambda>s. \<not> scope_exhausted s \<and> scope_live now s) ss"

fun use_first :: "rat \<Rightarrow> ApprovalRequest \<Rightarrow> ApprovalScope list \<Rightarrow> ApprovalScope list option" where
  "use_first now r [] = None"
| "use_first now r (s # ss) =
     (if scope_matches now s r then Some (consume_scope s # ss) else map_option (\<lambda>t. s # t) (use_first now r ss))"

definition consume_matching_scope :: "BrokerEnv \<Rightarrow> ApprovalRequest \<Rightarrow> bool \<Rightarrow> BrokerState \<Rightarrow> bool \<times> BrokerState" where
  "consume_matching_scope env r consume b = (let kept = prune_scopes (be_now env) (bs_scopes b) in
     case use_first (be_now env) r kept of
       None \<Rightarrow> (False, b\<lparr>bs_scopes := kept\<rparr>)
     | Some used \<Rightarrow> (True, b\<lparr>bs_scopes := (if consume then prune_scopes (be_now env) used else kept)\<rparr>))"

definition scope_error :: "rat \<Rightarrow> ApprovalScope \<Rightarrow> pystr option" where
  "scope_error now s =
     (if as_run_id s = [] then Some (''ApprovalScope requer run_id confi'' @ [CHR 0xE1] @ ''vel'')
      else if or_empty (as_transport s) = [] then Some (''ApprovalScope requer transport expl'' @ [CHR 0xED] @ ''cito'')
      else if or_empty (as_server_origin s) = [] then Some (''ApprovalScope requer server_origin expl'' @ [CHR 0xED] @ ''cito'')
      else if \<not> scope_live now s then Some ''ApprovalScope requer expires_at futuro''
      else if (case as_uses s of None \<Rightarrow> True | Some n \<Rightarrow> n \<le> 0) then Some ''ApprovalScope requer remaining_uses positivo''
      else if as_risk s = None then Some (''ApprovalScope requer risk expl'' @ [CHR 0xED] @ ''cito'')
      else if \<not> as_all_in_run s \<and> or_empty (as_tool s) = []
      then Some (''ApprovalScope requer tool_name ou approve_all_in_run expl'' @ [CHR 0xED] @ ''cito'')
      else if as_tool s \<in> {Some ''write_file'', Some ''remove_file'', Some ''apply_patch''} \<and> or_empty (as_path s) = []
      then Some (''ApprovalScope de muta'' @ [CHR 0xE7, CHR 0xE3] @ ''o de arquivo requer path'')
      else if as_tool s = Some ''tasks_delegate'' \<and> (or_empty (as_agent s) = [] \<or> or_empty (as_target s) = [])
      then Some ''ApprovalScope de tasks_delegate requer agent_name e target_agent_name''
      else None)"

definition approve_scope :: "BrokerEnv \<Rightarrow> ApprovalScope \<Rightarrow> BrokerState \<Rightarrow> tool_exception + BrokerState" where
  "approve_scope env s b = (case scope_error (be_now env) s of
     Some message \<Rightarrow> Inl (ValueErr message) | None \<Rightarrow> Inr (b\<lparr>bs_scopes := bs_scopes b @ [s]\<rparr>))"

definition default_scope_ttl :: rat where "default_scope_ttl = 300"

definition approve_equivalent :: "BrokerEnv \<Rightarrow> ApprovalRequest \<Rightarrow> rat option \<Rightarrow> int \<Rightarrow> BrokerState \<Rightarrow>
    tool_exception + (ApprovalScope \<times> BrokerState)" where
  "approve_equivalent env r ttl uses b =
     (let (run, b1) = (if or_empty (tc_run_id (ar_context r)) \<noteq> [] then (or_empty (tc_run_id (ar_context r)), b)
            else (let (n, b') = fresh_id env b in (''native:'' @ n, b')));
          s = \<lparr> as_id = ''equiv:'' @ ar_id r, as_run_id = run, as_transport = Some (tc_transport (ar_context r)),
                as_server_origin = Some (tc_server_origin (ar_context r)), as_tool = Some (ar_tool r),
                as_agent = tc_agent_name (ar_context r), as_target = ar_target r, as_path = ar_path r,
                as_risk = Some (ar_risk r), as_expires_at = Some (be_now env + (case ttl of None \<Rightarrow> default_scope_ttl | Some t \<Rightarrow> t)),
                as_uses = Some uses, as_all_in_run = False \<rparr> in
      bind_res (approve_scope env s b1) (\<lambda>b2. Inr (s, b2)))"

section \<open>The decision\<close>

definition budget_used :: "BrokerState \<Rightarrow> pystr \<Rightarrow> int" where
  "budget_used b k = (case map_of (bs_budget b) k of None \<Rightarrow> 0 | Some n \<Rightarrow> n)"

definition delegation_within_budget :: "BrokerEnv \<Rightarrow> ApprovalRequest \<Rightarrow> bool \<Rightarrow> BrokerState \<Rightarrow> bool \<times> BrokerState" where
  "delegation_within_budget env r consume b =
     (let budget = (case tc_delegation_budget (ar_context r) of None \<Rightarrow> be_delegation_budget env | Some n \<Rightarrow> n) in
      if budget \<le> 0 then (False, b)
      else (let k = context_scope_key env (ar_context r); used = budget_used b k in
        if used \<ge> budget then (False, b)
        else (True, if consume then b\<lparr>bs_budget := AList.update k (used + 1) (bs_budget b)\<rparr> else b)))"

text \<open>The rest of the decision, after the scopes.\<close>

definition auto_approved :: "BrokerEnv \<Rightarrow> ApprovalRequest \<Rightarrow> bool \<Rightarrow> bool \<Rightarrow> BrokerState \<Rightarrow> bool \<times> BrokerState" where
  "auto_approved env r needs consume b =
     (if ar_risk r \<in> {RISK_READ, RISK_NETWORK} \<and> \<not> needs \<and> ar_reason r = None then (True, b)
      else if ar_risk r = RISK_DELEGATION then
        (if tc_transport (ar_context r) = ''http_mcp'' \<and> \<not> tc_http_delegate_auto_approve (ar_context r) then (False, b)
         else delegation_within_budget env r consume b)
      else (let fallback = (\<not> needs \<and> ar_reason r = None, b) in
        if be_policy env \<noteq> None \<and> ar_reason r = None
        then (case level_for (the (be_policy env)) (ar_risk r) of
                LEVEL_DENY \<Rightarrow> (False, b) | LEVEL_AUTO \<Rightarrow> (True, b) | LEVEL_PROMPT \<Rightarrow> fallback)
        else fallback))"

definition can_auto_approve :: "BrokerEnv \<Rightarrow> ApprovalRequest \<Rightarrow> bool \<Rightarrow> bool \<Rightarrow> BrokerState \<Rightarrow> bool \<times> BrokerState" where
  "can_auto_approve env r needs consume b = (let (matched, b') = consume_matching_scope env r consume b in
     if matched then (True, b') else auto_approved env r needs consume b')"

definition record_decision :: "BrokerEnv \<Rightarrow> pystr \<Rightarrow> ApprovalRequest \<Rightarrow> bool option \<Rightarrow> BrokerState \<Rightarrow> BrokerState" where
  "record_decision env event r decision b = b\<lparr>bs_audit := bs_audit b @
     [\<lparr> au_event = event, au_request = r, au_decision = decision, au_recorded_at = be_now env \<rparr>]\<rparr>"

definition should_request_approval :: "BrokerEnv \<Rightarrow> ToolCall \<Rightarrow> bool \<Rightarrow> PathPermission option \<Rightarrow> BrokerState \<Rightarrow> bool \<times> BrokerState" where
  "should_request_approval env call needs permission b =
     (let (r, b1) = create_request env call permission None b; (ok, b2) = can_auto_approve env r needs False b1 in (\<not> ok, b2))"

text \<open>\<open>approve\<close>: the decision for a request, and the whole for a call; \<open>human\<close> is how a prompt would end.\<close>

definition decide_request :: "BrokerEnv \<Rightarrow> (ApprovalRequest \<Rightarrow> human_answer) \<Rightarrow> ApprovalRequest \<Rightarrow> bool \<Rightarrow> BrokerState \<Rightarrow> bool \<times> BrokerState" where
  "decide_request env human r needs b =
     (let (auto, b2) = can_auto_approve env r needs True (record_decision env ''request'' r None b) in
      if auto then (True, record_decision env ''auto_approved'' r (Some True) b2)
      else (let (approved, h) = handler_approves (be_thread env) (human r) (ar_tool r) (ar_summary r) (bs_handler b2) in
        (approved, record_decision env (if approved then ''approved'' else ''denied'') r (Some approved) (b2\<lparr>bs_handler := h\<rparr>))))"

definition approve_call :: "BrokerEnv \<Rightarrow> (ApprovalRequest \<Rightarrow> human_answer) \<Rightarrow> ToolCall \<Rightarrow> bool \<Rightarrow> PathPermission option \<Rightarrow>
    BrokerState \<Rightarrow> bool \<times> BrokerState" where
  "approve_call env human call needs permission b =
     (let (r, b1) = create_request env call permission None b in decide_request env human r needs b1)"

section \<open>Serialization\<close>

definition serialization_keys :: "BrokerEnv \<Rightarrow> ToolCall \<Rightarrow> pystr list" where
  "serialization_keys env call =
     (let whole = [''workspace:'' @ path_text (fe_cwd (be_files env))];
          kind = Option.bind (get_tool_metadata (tool_name call)) tm_serialization in
      if kind = Some ''workspace'' then whole
      else if kind = Some ''command_session'' then
        [case given_arg call ''session_id'' of Some v \<Rightarrow> ''command-session:'' @ py_str (fe_py (be_files env)) v
         | None \<Rightarrow> ''command-session:unknown'']
      else if kind = Some ''path'' then
        (case none_if_empty (or_empty (extract_path env call None)) of Some p \<Rightarrow> [''path:'' @ p] | None \<Rightarrow> whole)
      else if kind = Some ''patch_paths'' then
        (let paths = extract_patch_paths env (str_default (be_files env) call ''patch'' []) in
         if paths \<noteq> [] then map (\<lambda>p. ''path:'' @ p) (sort (remdups paths)) else whole)
      else [])"

text \<open>The locks of an execution, in the order in which they are taken.\<close>

definition guard_keys :: "BrokerEnv \<Rightarrow> ToolCall \<Rightarrow> pystr list" where
  "guard_keys env call = sort (remdups (serialization_keys env call))"

end
