(* ===== verification/Tool_Policy.thy ===== *)
theory Tool_Policy
  imports Approval_Broker
begin

text \<open>
  The policy of tool calls (\<open>runtime/policy.py\<close>) and the validators of the file and patch tools
  (\<open>runtime/tools/base.py\<close>, \<open>runtime/tools/files.py\<close>, \<open>runtime/tools/patch.py\<close>): what is refused before
  anything is asked, what needs an approval and what needs a permission for its path. The validators of the other
  tools are a parameter.
\<close>

section \<open>Validators\<close>

text \<open>\<open>config.read_roots ()\<close>: the workspace, the roots of the configuration and the artifacts of the session.\<close>

definition read_roots :: "(fpath \<Rightarrow> fpath) \<Rightarrow> fpath \<Rightarrow> fpath list \<Rightarrow> fpath option \<Rightarrow> fpath list" where
  "read_roots resolve cwd allowed artifacts =
     (let areas = cwd # map resolve allowed;
          areas' = (case artifacts of None \<Rightarrow> areas
            | Some a \<Rightarrow> if list_ex (\<lambda>r. prefix r a) areas then areas else areas @ [a]) in
      rev (remdups (rev (map resolve areas'))))"

definition resolve_workspace_path :: "FileEnv \<Rightarrow> pystr \<Rightarrow> tool_exception + fpath" where
  "resolve_workspace_path env raw = (let p = fe_resolve env (joined (fe_cwd env) raw) in
     if is_path_inside env p (fe_cwd env) then Inr p else Inl (PolicyErr (outside_text raw)))"

definition resolve_workspace_or_staging :: "FileEnv \<Rightarrow> pystr \<Rightarrow> tool_exception + fpath" where
  "resolve_workspace_or_staging env raw = bind_res (resolve_workspace_path env raw) (\<lambda>p.
     Inr (case fe_staging env of
       None \<Rightarrow> p
     | Some st \<Rightarrow> (let q = fe_resolve env (joined st raw) in if is_path_inside env q st then q else p)))"

definition refuse :: "pystr \<Rightarrow> tool_exception + 'a" where
  "refuse message = Inl (PolicyErr message)"

text \<open>\<open>raw_path = call.arguments.get ("path"); if not raw_path: raise\<close>, as a text.\<close>

definition required_path :: "FileEnv \<Rightarrow> ToolCall \<Rightarrow> tool_exception + pystr" where
  "required_path env call = (case arg call ''path'' of
     Some v \<Rightarrow> if truthy v then Inr (py_str (fe_py env) v) else refuse (tool_name call @ '' requer '' @ [CHR 0x27] @ ''path'' @ [CHR 0x27])
   | None \<Rightarrow> refuse (tool_name call @ '' requer '' @ [CHR 0x27] @ ''path'' @ [CHR 0x27]))"

definition validate_read_file :: "FileEnv \<Rightarrow> tree \<Rightarrow> ToolCall \<Rightarrow> tool_exception + unit" where
  "validate_read_file env t call = bind_res (required_path env call) (\<lambda>raw.
     bind_res (resolve_workspace_path env raw) (\<lambda>p.
     bind_res (resolve_workspace_or_staging env raw) (\<lambda>q.
       if \<not> is_file t p \<and> \<not> is_file t q
       then refuse (''Arquivo inv'' @ [CHR 0xE1] @ ''lido para leitura: '' @ path_text p) else Inr ())))"

definition validate_write_file :: "FileEnv \<Rightarrow> tree \<Rightarrow> ToolCall \<Rightarrow> tool_exception + unit" where
  "validate_write_file env t call = bind_res (required_path env call) (\<lambda>raw.
     bind_res (resolve_workspace_or_staging env raw) (\<lambda>p.
       if arg call ''content'' = None then refuse (''write_file requer '' @ [CHR 0x27] @ ''content'' @ [CHR 0x27])
       else (let mode = str_default env call ''mode'' ''overwrite'' in
         if mode \<notin> set write_modes then refuse (bad_mode_text mode)
         else if mode = ''overwrite'' \<and> path_exists t p \<and> \<not> flag_arg call ''replace_existing'' False then refuse overwrite_text
         else Inr ())))"

definition validate_replace_text :: "FileEnv \<Rightarrow> ToolCall \<Rightarrow> tool_exception + unit" where
  "validate_replace_text env call = bind_res (required_path env call) (\<lambda>raw.
     bind_res (resolve_workspace_or_staging env raw) (\<lambda>_.
       if str_default env call ''old'' [] = [] then refuse (''replace_text requer '' @ [CHR 0x27] @ ''old'' @ [CHR 0x27] @ '' n'' @ [CHR 0xE3] @ ''o vazio'')
       else if arg call ''new'' = None then refuse (''replace_text requer '' @ [CHR 0x27] @ ''new'' @ [CHR 0x27])
       else Inr ()))"

definition validate_grep_search :: "FileEnv \<Rightarrow> ToolCall \<Rightarrow> tool_exception + unit" where
  "validate_grep_search env call = bind_res (resolve_workspace_or_staging env (str_default env call ''path'' ''.'')) (\<lambda>_.
     if py_strip (str_default env call ''pattern'' []) = []
     then refuse (''grep_search requer um padr'' @ [CHR 0xE3] @ ''o n'' @ [CHR 0xE3] @ ''o vazio'') else Inr ())"

definition validate_remove_file :: "FileEnv \<Rightarrow> ToolCall \<Rightarrow> tool_exception + unit" where
  "validate_remove_file env call = bind_res (required_path env call) (\<lambda>raw.
     bind_res (resolve_workspace_or_staging env raw) (\<lambda>_.
       if arg call ''dry_run'' = Some (JBool False) then Inr ()
       else refuse (''remove_file requer dry_run=False expl'' @ [CHR 0xED] @ ''cito para confirmar a remo'' @ [CHR 0xE7, CHR 0xE3] @ ''o'')))"

definition validate_file_tool :: "FileEnv \<Rightarrow> tree \<Rightarrow> ToolCall \<Rightarrow> tool_exception + unit" where
  "validate_file_tool env t call = (let name = tool_name call in
     if name = ''list_files'' then bind_res (resolve_workspace_or_staging env (str_default env call ''path'' ''.'')) (\<lambda>_. Inr ())
     else if name = ''read_file'' then validate_read_file env t call
     else if name = ''write_file'' then validate_write_file env t call
     else if name = ''replace_text'' then validate_replace_text env call
     else if name = ''grep_search'' then validate_grep_search env call
     else if name = ''inspect_symbols'' then bind_res (required_path env call) (\<lambda>raw. bind_res (resolve_workspace_or_staging env raw) (\<lambda>_. Inr ()))
     else if name = ''remove_file'' then validate_remove_file env call
     else Inr ())"

definition validate_patch_tool :: "FileEnv \<Rightarrow> ToolCall \<Rightarrow> tool_exception + unit" where
  "validate_patch_tool env call =
     (if tool_name call = ''apply_patch'' \<and> py_strip (str_default env call ''patch'' []) = []
      then refuse (''apply_patch requer '' @ [CHR 0x27] @ ''patch'' @ [CHR 0x27]) else Inr ())"

section \<open>The policy\<close>

datatype tool_validator = FileValidator | PatchValidator | OtherValidator pystr

record ToolPolicy =
  tp_blocked :: "pystr list"
  tp_allowed :: "pystr list option"
  tp_validators :: "(pystr \<times> tool_validator) list"
  tp_external :: "pystr list"

definition file_tool_names :: "pystr list" where
  "file_tool_names = [''list_files'', ''read_file'', ''write_file'', ''replace_text'', ''remove_file'', ''grep_search'', ''inspect_symbols'']"

definition patch_tool_names :: "pystr list" where
  "patch_tool_names = [''apply_patch'']"

definition new_policy :: ToolPolicy where
  "new_policy = \<lparr> tp_blocked = [], tp_allowed = None, tp_validators = [], tp_external = [] \<rparr>"

definition register_validator :: "pystr list \<Rightarrow> tool_validator \<Rightarrow> ToolPolicy \<Rightarrow> ToolPolicy" where
  "register_validator names v p = p\<lparr>tp_validators := foldl (\<lambda>acc n. AList.update n v acc) (tp_validators p) names\<rparr>"

definition unregister_validators :: "pystr list \<Rightarrow> ToolPolicy \<Rightarrow> ToolPolicy" where
  "unregister_validators names p = p\<lparr>tp_validators := foldl (\<lambda>acc n. AList.delete n acc) (tp_validators p) names\<rparr>"

definition register_external :: "pystr list \<Rightarrow> ToolPolicy \<Rightarrow> ToolPolicy" where
  "register_external names p = p\<lparr>tp_external := foldl (\<lambda>acc n. List.insert n acc) (tp_external p) names\<rparr>"

definition unregister_external :: "pystr list \<Rightarrow> ToolPolicy \<Rightarrow> ToolPolicy" where
  "unregister_external names p = p\<lparr>tp_external := filter (\<lambda>n. n \<notin> set names) (tp_external p)\<rparr>"

text \<open>What \<open>register\<close> of the file and patch tools leaves in the policy.\<close>

definition builtin_policy :: "ToolPolicy \<Rightarrow> ToolPolicy" where
  "builtin_policy p = register_validator patch_tool_names PatchValidator (register_validator file_tool_names FileValidator p)"

definition disabled_tools :: "(pystr \<times> pystr) list" where
  "disabled_tools = [
     (''propose_task'', ''propose_task foi desativada; use /task ou a tool tasks_create''),
     (''approve_task'', ''approve_task foi desativada no chat; tasks humanas j'' @ [CHR 0xE1] @ '' nascem roteadas''),
     (''complete_task'', ''complete_task n'' @ [CHR 0xE3] @ ''o '' @ [CHR 0xE9] @ '' exposta no chat; o executor interno encerra a task''),
     (''fail_task'', ''fail_task n'' @ [CHR 0xE3] @ ''o '' @ [CHR 0xE9] @ '' exposta no chat; o executor interno encerra a task'')]"

definition agent_state_keys :: "pystr list" where
  "agent_state_keys = [''goal'', ''goal_canonical'', ''decisions'', ''current_step'', ''acceptance_criteria'', ''allowed_scope'',
     ''non_goals'', ''out_of_scope_notes'', ''evidence'', ''next_step'']"

definition max_agent_update_keys :: nat where "max_agent_update_keys = length agent_state_keys"

text \<open>\<open>len (options)\<close> of a value that is true; numbers have no length.\<close>

definition py_len :: "json \<Rightarrow> nat option" where
  "py_len v = (case v of JStr t \<Rightarrow> Some (length t) | JList xs \<Rightarrow> Some (length xs) | JObj kvs \<Rightarrow> Some (length kvs) | _ \<Rightarrow> None)"

definition validate_ask_user :: "FileEnv \<Rightarrow> ToolCall \<Rightarrow> tool_exception + unit" where
  "validate_ask_user env call =
     (if py_strip (case arg call ''question'' of Some v \<Rightarrow> if truthy v then py_str (fe_py env) v else [] | None \<Rightarrow> []) = []
      then refuse (''ask_user requer '' @ [CHR 0x27] @ ''question'' @ [CHR 0x27])
      else (case arg call ''options'' of
        None \<Rightarrow> Inr ()
      | Some v \<Rightarrow> if \<not> truthy v then Inr ()
          else (case py_len v of
            None \<Rightarrow> Inl (BadArgument v)
          | Some n \<Rightarrow> if n < 2 then refuse (''ask_user com '' @ [CHR 0x27] @ ''options'' @ [CHR 0x27] @ '' requer pelo menos 2 op'' @ [CHR 0xE7, CHR 0xF5] @ ''es (ou omita para texto livre)'')
              else Inr ())))"

definition validate_update_shared_state :: "ToolCall \<Rightarrow> tool_exception + unit" where
  "validate_update_shared_state call = (case arg call ''updates'' of
     Some (JObj kvs) \<Rightarrow>
       if kvs = [] then refuse (''update_shared_state requer '' @ [CHR 0x27] @ ''updates'' @ [CHR 0x27] @ '' como objeto n'' @ [CHR 0xE3] @ ''o vazio'')
       else if length kvs > max_agent_update_keys
       then refuse (''update_shared_state aceita no m'' @ [CHR 0xE1] @ ''ximo '' @ show_nat max_agent_update_keys @ '' campos por chamada'')
       else Inr ()
   | _ \<Rightarrow> refuse (''update_shared_state requer '' @ [CHR 0x27] @ ''updates'' @ [CHR 0x27] @ '' como objeto n'' @ [CHR 0xE3] @ ''o vazio''))"

definition validate_builtin :: "FileEnv \<Rightarrow> ToolCall \<Rightarrow> tool_exception + unit" where
  "validate_builtin env call = (case map_of disabled_tools (tool_name call) of
     Some message \<Rightarrow> refuse message
   | None \<Rightarrow>
       if tool_name call = ''ask_user'' then validate_ask_user env call
       else if tool_name call = ''update_shared_state'' then validate_update_shared_state call
       else refuse (''Sem pol'' @ [CHR 0xED] @ ''tica para a ferramenta: '' @ tool_name call))"

definition validate_call :: "FileEnv \<Rightarrow> (pystr \<Rightarrow> tree \<Rightarrow> ToolCall \<Rightarrow> tool_exception + unit) \<Rightarrow> ToolPolicy \<Rightarrow> tree \<Rightarrow> ToolCall \<Rightarrow>
    tool_exception + unit" where
  "validate_call env others policy t call = (let quoted = [CHR 0x27] @ tool_name call @ [CHR 0x27] in
     if (case tp_allowed policy of None \<Rightarrow> False | Some names \<Rightarrow> tool_name call \<notin> set names)
     then refuse (''Ferramenta '' @ quoted @ '' nao permitida pelo modo de execucao ativo.'')
     else if tool_name call \<in> set (tp_blocked policy)
     then refuse (''Ferramenta '' @ quoted @ '' bloqueada pelo modo de execu'' @ [CHR 0xE7, CHR 0xE3] @ ''o ativo.'')
     else (case map_of (tp_validators policy) (tool_name call) of
       Some FileValidator \<Rightarrow> validate_file_tool env t call
     | Some PatchValidator \<Rightarrow> validate_patch_tool env call
     | Some (OtherValidator v) \<Rightarrow> others v t call
     | None \<Rightarrow> validate_builtin env call))"

definition requires_path_permission :: "ToolCall \<Rightarrow> bool" where
  "requires_path_permission call = (case get_tool_metadata (tool_name call) of None \<Rightarrow> False | Some m \<Rightarrow> tm_requires_path_permission m)"

definition requires_approval :: "BrokerEnv \<Rightarrow> ToolPolicy \<Rightarrow> ToolCall \<Rightarrow> bool" where
  "requires_approval env policy call = (case get_tool_metadata (tool_name call) of
     None \<Rightarrow> be_require_mutations env
   | Some m \<Rightarrow> (case tm_approval m of
       AM_TASK_CREATION \<Rightarrow> be_require_tasks env
     | AM_HTTP_METHOD \<Rightarrow> if http_method env call \<in> {''GET'', ''HEAD''} then False else be_require_mutations env
     | AM_MUTATION \<Rightarrow> be_require_mutations env
     | AM_NONE \<Rightarrow> if tool_name call \<in> set (tp_external policy) then be_require_mutations env else False))"

definition check_path_permission :: "FileEnv \<Rightarrow> ToolCall \<Rightarrow> tool_exception + PathPermission option" where
  "check_path_permission env call =
     (if \<not> requires_path_permission call then Inr None
      else bind_res (text_default call ''path'' ''.'') (\<lambda>raw. let p = fe_resolve env (joined (fe_cwd env) raw) in
        Inr (if list_ex (is_path_inside env p) (fe_read_roots env) then None else Some \<lparr> pp_raw = raw, pp_resolved = p \<rparr>)))"

end
