(* ===== verification/Tool_Executor.thy ===== *)
theory Tool_Executor
  imports Tool_Policy
begin

text \<open>
  The executor of tools (\<open>runtime/executor.py\<close>): a call is put in canonical form, validated, checked for its path,
  approved, and only then handed to its handler. The handlers are the file and patch tools of this library; those of the
  other tools, and what they do to the files, are a parameter. \<open>xs_ran\<close> keeps the calls whose handler was run.
\<close>

section \<open>State and environment\<close>

record ExecState =
  xs_broker :: BrokerState
  xs_files :: FileState
  xs_ran :: "ToolCall list"

text \<open>
  \<open>xe_meanwhile\<close>: what others did to the files while the approval was pending; \<open>xe_preview_error\<close>: an exception of
  the preview callback.
\<close>

record ExecEnv =
  xe_broker :: BrokerEnv
  xe_policy :: ToolPolicy
  xe_validate :: "pystr \<Rightarrow> tree \<Rightarrow> ToolCall \<Rightarrow> tool_exception + unit"
  xe_human :: "ApprovalRequest \<Rightarrow> human_answer"
  xe_meanwhile :: "FileState \<Rightarrow> FileState"
  xe_preview_error :: "ToolCall \<Rightarrow> tool_exception option"
  xe_others :: "pystr \<Rightarrow> (ToolCall \<Rightarrow> ToolResult file_act) option"
  xe_ratio :: "pystr \<Rightarrow> pystr \<Rightarrow> rat"
  xe_percent :: "rat \<Rightarrow> pystr"

definition xe_files :: "ExecEnv \<Rightarrow> FileEnv" where
  "xe_files env = be_files (xe_broker env)"

definition xe_patch :: "ExecEnv \<Rightarrow> PatchEnv" where
  "xe_patch env = \<lparr> pe_files = xe_files env, pe_ratio = xe_ratio env, pe_percent = xe_percent env \<rparr>"

type_synonym 'a exec_act = "(ExecState, tool_exception, 'a) action"

definition x_lift :: "tool_exception + 'a \<Rightarrow> 'a exec_act" where
  "x_lift r = (case r of Inl e \<Rightarrow> act_raise e | Inr x \<Rightarrow> act_return x)"

definition x_files :: "'a file_act \<Rightarrow> 'a exec_act" where
  "x_files m = (\<lambda>s. let (r, f) = m (xs_files s) in (r, s\<lparr>xs_files := f\<rparr>))"

definition x_broker :: "(BrokerState \<Rightarrow> 'a \<times> BrokerState) \<Rightarrow> 'a exec_act" where
  "x_broker f = (\<lambda>s. let (x, b) = f (xs_broker s) in (Inr x, s\<lparr>xs_broker := b\<rparr>))"

section \<open>The canonical form\<close>

definition tool_aliases :: "(pystr \<times> pystr) list" where
  "tool_aliases = [(''run'', ''run_shell''), (''execute_command'', ''exec_command'')]"

definition normalize_call :: "ToolCall \<Rightarrow> ToolCall" where
  "normalize_call call =
     (let name = (case map_of tool_aliases (tool_name call) of Some n \<Rightarrow> n | None \<Rightarrow> tool_name call);
          args = arguments call;
          args1 = (if name = ''run_shell'' \<and> map_of args ''command'' = None then
              (case map_of args ''commands'' of Some (JList [JStr c]) \<Rightarrow> AList.update ''command'' (JStr c) args | _ \<Rightarrow> args)
            else args);
          args2 = (if name = ''exec_command'' \<and> map_of args1 ''cmd'' = None then
              (case map_of args1 ''command'' of Some v \<Rightarrow> AList.update ''cmd'' v args1 | None \<Rightarrow> args1)
            else args1) in
      call\<lparr>tool_name := name, arguments := args2\<rparr>)"

definition with_tool_call_id :: "ExecEnv \<Rightarrow> ToolCall \<Rightarrow> ToolCall exec_act" where
  "with_tool_call_id env call =
     (case metadata call of
        None \<Rightarrow> act_raise (BadArgument JNull)
      | Some meta \<Rightarrow>
          (let own = or_empty (call_id call);
               finish = (\<lambda>i. if i = [] then call else call\<lparr>metadata := Some (AList.update ''tool_call_id'' (MetaJson (JStr i)) meta)\<rparr>) in
           case map_of meta ''mcp_msg_id'' of
             Some (MetaJson m) \<Rightarrow>
               if own = [] \<and> m \<noteq> JNull then
                 act_bind (x_broker (build_context (xe_broker env) call)) (\<lambda>c.
                   act_return (finish (''mcp:'' @ text_or (or_empty (tc_run_id c)) (or_empty (tc_session_id c)) @ '':'' @ py_str (fe_py (xe_files env)) m)))
               else act_return (finish own)
           | _ \<Rightarrow> act_return (finish own)))"

section \<open>Execution\<close>

definition call_scope :: "ExecEnv \<Rightarrow> ToolCall \<Rightarrow> pystr option" where
  "call_scope env call = (case meta_json call ''_mcp_state'' of
     Some (JObj kvs) \<Rightarrow> (case map_of kvs ''quimera_approval_scope'' of
         Some v \<Rightarrow> if truthy v then Some (py_str (fe_py (xe_files env)) v) else None | None \<Rightarrow> None)
   | _ \<Rightarrow> None)"

text \<open>\<open>with self._approval_scope_from_metadata (call)\<close>: the scope is bound to the thread and restored.\<close>

definition in_call_scope :: "ExecEnv \<Rightarrow> ToolCall \<Rightarrow> (BrokerState \<Rightarrow> 'a \<times> BrokerState) \<Rightarrow> BrokerState \<Rightarrow> 'a \<times> BrokerState" where
  "in_call_scope env call f b = (case call_scope env call of
     None \<Rightarrow> f b
   | Some scope \<Rightarrow>
       (let thread = be_thread (xe_broker env); (before, h) = bind_thread_scope thread (Some scope) (bs_handler b);
            (x, b') = f (b\<lparr>bs_handler := h\<rparr>) in
        (x, b'\<lparr>bs_handler := snd (bind_thread_scope thread before (bs_handler b'))\<rparr>)))"

definition not_approved_text :: pystr where
  "not_approved_text = ''Execu'' @ [CHR 0xE7, CHR 0xE3] @ ''o n'' @ [CHR 0xE3] @ ''o aprovada: o pedido de aprova'' @ [CHR 0xE7, CHR 0xE3] @ ''o foi negado ou ficou sem resposta''"

definition modelled_tools :: "pystr list" where
  "modelled_tools = [''list_files'', ''read_file'', ''write_file'', ''replace_text'', ''remove_file'', ''apply_patch'']"

definition run_handler_of :: "ExecEnv \<Rightarrow> ToolCall \<Rightarrow> ToolResult exec_act" where
  "run_handler_of env call =
     (let name = tool_name call;
          run = (\<lambda>m. act_then (\<lambda>s. (Inr (), s\<lparr>xs_ran := xs_ran s @ [call]\<rparr>)) (x_files m)) in
      if name \<in> set modelled_tools then run (run_file_tool (xe_patch env) call)
      else (case xe_others env name of Some h \<Rightarrow> run (h call) | None \<Rightarrow> act_raise (KeyErr (''Ferramenta n'' @ [CHR 0xE3] @ ''o registrada: '' @ name))))"

definition authorize :: "ExecEnv \<Rightarrow> ToolCall \<Rightarrow> (bool \<Rightarrow> PathPermission option \<Rightarrow> 'a exec_act) \<Rightarrow> 'a exec_act" where
  "authorize env call proceed =
     act_bind (act_get (\<lambda>s. fs_tree (xs_files s))) (\<lambda>t.
     act_bind (x_lift (validate_call (xe_files env) (xe_validate env) (xe_policy env) t call)) (\<lambda>_.
     act_bind (x_lift (check_path_permission (xe_files env) call)) (\<lambda>permission.
       proceed (requires_approval (xe_broker env) (xe_policy env) call) permission)))"

definition execute_approved :: "ExecEnv \<Rightarrow> ToolCall \<Rightarrow> bool \<Rightarrow> PathPermission option \<Rightarrow> ToolResult exec_act" where
  "execute_approved env call needs permission =
     act_then (case xe_preview_error env call of None \<Rightarrow> act_return () | Some e \<Rightarrow> act_raise e)
     (act_bind (x_broker (in_call_scope env call (approve_call (xe_broker env) (xe_human env) call needs permission))) (\<lambda>approved.
        if \<not> approved then act_return (tool_failure (tool_name call) not_approved_text [])
        else act_then (\<lambda>s. (Inr (), s\<lparr>xs_files := xe_meanwhile env (xs_files s)\<rparr>)) (run_handler_of env call)))"

definition failure_text :: "ExecEnv \<Rightarrow> tool_exception \<Rightarrow> pystr" where
  "failure_text env e = (case e of PolicyErr m \<Rightarrow> m | _ \<Rightarrow> ''Falha inesperada: '' @ exc_message (xe_files env) e)"

definition execute_call :: "ExecEnv \<Rightarrow> ToolCall \<Rightarrow> ToolResult exec_act" where
  "execute_call env call = act_bind (with_tool_call_id env (normalize_call call)) (\<lambda>c.
     act_try (\<lambda>_. True) (authorize env c (execute_approved env c))
       (\<lambda>e. act_return (tool_failure (tool_name c) (failure_text env e) [])))"

definition would_require_approval :: "ExecEnv \<Rightarrow> ToolCall \<Rightarrow> bool exec_act" where
  "would_require_approval env call = (let c = normalize_call call in
     act_try (\<lambda>_. True) (authorize env c (\<lambda>needs permission.
         x_broker (should_request_approval (xe_broker env) c needs permission)))
       (\<lambda>_. act_return True))"

definition is_parallel_safe :: "ToolCall \<Rightarrow> bool" where
  "is_parallel_safe call = (case get_tool_metadata (tool_name (normalize_call call)) of
     None \<Rightarrow> False | Some m \<Rightarrow> tm_parallel_safe m \<and> \<not> tm_mutates m)"

end
