(* ===== verification/Execution_Guards.thy ===== *)
theory Execution_Guards
  imports Tool_Executor
begin

text \<open>
  Guarded executions side by side (\<open>execution_guard\<close> of \<open>runtime/approval_broker.py\<close>): each takes the locks of its
  keys one after the other in sorted order, runs, and releases them. A step of any execution is a step of the
  system; every schedule ends, none gets stuck, and executions that share a key do not overlap.
\<close>

section \<open>Steps\<close>

datatype guard_phase = Acquiring | Inside | Releasing | Finished

record GuardThread =
  gt_phase :: guard_phase
  gt_todo :: "pystr list"
  gt_held :: "pystr list"

definition guard_thread :: "pystr list \<Rightarrow> GuardThread" where
  "guard_thread keys = \<lparr> gt_phase = Acquiring, gt_todo = keys, gt_held = [] \<rparr>"

text \<open>\<open>lock.acquire ()\<close> succeeds when no other execution holds the lock; the body may return or raise.\<close>

definition lock_free :: "GuardThread list \<Rightarrow> nat \<Rightarrow> pystr \<Rightarrow> bool" where
  "lock_free ts i k \<longleftrightarrow> list_all (\<lambda>j. j = i \<or> k \<notin> set (gt_held (ts ! j))) [0 ..< length ts]"

lemma lock_free_iff: "lock_free ts i k \<longleftrightarrow> (\<forall>j < length ts. j \<noteq> i \<longrightarrow> k \<notin> set (gt_held (ts ! j)))"
  by (auto simp: lock_free_def list_all_iff)

inductive guard_step :: "GuardThread list \<Rightarrow> GuardThread list \<Rightarrow> bool" where
  acquire: "i < length ts \<Longrightarrow> ts ! i = \<lparr> gt_phase = Acquiring, gt_todo = k # ks, gt_held = hs \<rparr> \<Longrightarrow> lock_free ts i k \<Longrightarrow>
    guard_step ts (ts[i := \<lparr> gt_phase = Acquiring, gt_todo = ks, gt_held = k # hs \<rparr>])"
| enter: "i < length ts \<Longrightarrow> ts ! i = \<lparr> gt_phase = Acquiring, gt_todo = [], gt_held = hs \<rparr> \<Longrightarrow>
    guard_step ts (ts[i := \<lparr> gt_phase = Inside, gt_todo = [], gt_held = hs \<rparr>])"
| leave: "i < length ts \<Longrightarrow> ts ! i = \<lparr> gt_phase = Inside, gt_todo = [], gt_held = hs \<rparr> \<Longrightarrow>
    guard_step ts (ts[i := \<lparr> gt_phase = Releasing, gt_todo = [], gt_held = hs \<rparr>])"
| release: "i < length ts \<Longrightarrow> ts ! i = \<lparr> gt_phase = Releasing, gt_todo = [], gt_held = k # hs \<rparr> \<Longrightarrow>
    guard_step ts (ts[i := \<lparr> gt_phase = Releasing, gt_todo = [], gt_held = hs \<rparr>])"
| finish: "i < length ts \<Longrightarrow> ts ! i = \<lparr> gt_phase = Releasing, gt_todo = [], gt_held = [] \<rparr> \<Longrightarrow>
    guard_step ts (ts[i := \<lparr> gt_phase = Finished, gt_todo = [], gt_held = [] \<rparr>])"

definition start_guards :: "(BrokerEnv \<times> ToolCall) list \<Rightarrow> GuardThread list" where
  "start_guards calls = map (\<lambda>(env, call). guard_thread (guard_keys env call)) calls"

definition all_finished :: "GuardThread list \<Rightarrow> bool" where
  "all_finished ts \<longleftrightarrow> list_all (\<lambda>t. gt_phase t = Finished) ts"

text \<open>The step of one execution, if it has one, and a schedule that names the executions in turn.\<close>

definition guard_next :: "nat \<Rightarrow> GuardThread list \<Rightarrow> GuardThread list option" where
  "guard_next i ts = (if i \<ge> length ts then None else let t = ts ! i in
     (case gt_phase t of
       Acquiring \<Rightarrow> (case gt_todo t of
           [] \<Rightarrow> Some (ts[i := t\<lparr>gt_phase := Inside\<rparr>])
         | k # ks \<Rightarrow> if lock_free ts i k then Some (ts[i := t\<lparr>gt_todo := ks, gt_held := k # gt_held t\<rparr>]) else None)
     | Inside \<Rightarrow> if gt_todo t = [] then Some (ts[i := t\<lparr>gt_phase := Releasing\<rparr>]) else None
     | Releasing \<Rightarrow> if gt_todo t \<noteq> [] then None else (case gt_held t of
           [] \<Rightarrow> Some (ts[i := t\<lparr>gt_phase := Finished\<rparr>])
         | k # hs \<Rightarrow> Some (ts[i := t\<lparr>gt_held := hs\<rparr>]))
     | Finished \<Rightarrow> None))"

lemma guard_next_step: "guard_next i ts = Some ts' \<Longrightarrow> guard_step ts ts'"
proof -
  assume next_i: "guard_next i ts = Some ts'"
  obtain p td h where t: "ts ! i = \<lparr> gt_phase = p, gt_todo = td, gt_held = h \<rparr>" by (cases "ts ! i") auto
  show ?thesis using next_i t guard_step.intros [of i ts]
    by (auto simp: guard_next_def Let_def split: if_splits guard_phase.splits list.splits)
qed

fun guard_schedule :: "nat list \<Rightarrow> GuardThread list \<Rightarrow> GuardThread list option" where
  "guard_schedule [] ts = Some ts"
| "guard_schedule (i # sched) ts = (case guard_next i ts of None \<Rightarrow> None | Some ts' \<Rightarrow> guard_schedule sched ts')"

lemma schedule_runs: "guard_schedule sched ts = Some ts' \<Longrightarrow> (guard_step ^^ length sched) ts ts'"
proof (induction sched arbitrary: ts)
  case (Cons i sched)
  then obtain u where "guard_step ts u" "(guard_step ^^ length sched) u ts'" by (auto split: option.splits dest: guard_next_step)
  then show ?case using relpowp_Suc_I2 [of guard_step ts u "length sched" ts'] by simp
qed simp

section \<open>The invariant\<close>

definition thread_ok :: "pystr list \<Rightarrow> GuardThread \<Rightarrow> bool" where
  "thread_ok keys t \<longleftrightarrow> (case gt_phase t of
     Acquiring \<Rightarrow> rev (gt_held t) @ gt_todo t = keys
   | Inside \<Rightarrow> gt_todo t = [] \<and> rev (gt_held t) = keys
   | Releasing \<Rightarrow> gt_todo t = [] \<and> set (gt_held t) \<subseteq> set keys
   | Finished \<Rightarrow> gt_todo t = [] \<and> gt_held t = [])"

definition guards_ok :: "pystr list list \<Rightarrow> GuardThread list \<Rightarrow> bool" where
  "guards_ok keys ts \<longleftrightarrow> length ts = length keys \<and> (\<forall>i < length ts. thread_ok (keys ! i) (ts ! i)) \<and>
     (\<forall>i < length ts. \<forall>j < length ts. i \<noteq> j \<longrightarrow> set (gt_held (ts ! i)) \<inter> set (gt_held (ts ! j)) = {})"

lemma guards_update:
  assumes "guards_ok keys ts" "i < length ts" "thread_ok (keys ! i) t"
    "\<And>j. j < length ts \<Longrightarrow> j \<noteq> i \<Longrightarrow> set (gt_held t) \<inter> set (gt_held (ts ! j)) = {}"
  shows "guards_ok keys (ts[i := t])"
  using assms unfolding guards_ok_def by (auto simp: nth_list_update)

lemma guards_smaller:
  assumes "guards_ok keys ts" "i < length ts" "thread_ok (keys ! i) t" "set (gt_held t) \<subseteq> set (gt_held (ts ! i))"
  shows "guards_ok keys (ts[i := t])"
proof (rule guards_update [OF assms(1-3)])
  fix j assume "j < length ts" "j \<noteq> i"
  then have "set (gt_held (ts ! i)) \<inter> set (gt_held (ts ! j)) = {}" using assms(1,2) by (auto simp: guards_ok_def)
  then show "set (gt_held t) \<inter> set (gt_held (ts ! j)) = {}" using assms(4) by blast
qed

lemma guards_thread: "guards_ok keys ts \<Longrightarrow> i < length ts \<Longrightarrow> thread_ok (keys ! i) (ts ! i)"
  by (simp add: guards_ok_def)

lemma guards_keep: "guard_step ts ts' \<Longrightarrow> guards_ok keys ts \<Longrightarrow> guards_ok keys ts'"
proof (induction rule: guard_step.induct)
  case (acquire i ts k ks hs)
  note guards_thread [OF acquire.prems acquire.hyps(1)]
  then have ok: "thread_ok (keys ! i) \<lparr> gt_phase = Acquiring, gt_todo = ks, gt_held = k # hs \<rparr>" using acquire by (simp add: thread_ok_def)
  show ?case
  proof (rule guards_update [OF acquire.prems acquire.hyps(1) ok])
    fix j assume j: "j < length ts" "j \<noteq> i"
    then have "set (gt_held (ts ! i)) \<inter> set (gt_held (ts ! j)) = {}" using acquire.prems acquire.hyps(1) unfolding guards_ok_def by metis
    then show "set (gt_held \<lparr> gt_phase = Acquiring, gt_todo = ks, gt_held = k # hs \<rparr>) \<inter> set (gt_held (ts ! j)) = {}"
      using j acquire by (simp add: lock_free_iff)
  qed
next
  case (enter i ts hs)
  then show ?case using guards_thread [OF enter.prems enter.hyps(1)] by (intro guards_smaller) (simp_all add: thread_ok_def)
next
  case (leave i ts hs)
  then have "rev hs = keys ! i" using guards_thread [OF leave.prems leave.hyps(1)] by (simp add: thread_ok_def)
  then have "set hs = set (keys ! i)" using set_rev by metis
  with leave show ?case by (intro guards_smaller) (simp_all add: thread_ok_def)
next
  case (release i ts k hs)
  then show ?case using guards_thread [OF release.prems release.hyps(1)] by (intro guards_smaller) (auto simp: thread_ok_def)
next
  case (finish i ts)
  then show ?case by (intro guards_smaller) (auto simp: thread_ok_def)
qed

lemma guards_start: "guards_ok keys (map guard_thread keys)"
  by (simp add: guards_ok_def guard_thread_def thread_ok_def)

lemma guards_reach: "(guard_step ^^ n) ts ts' \<Longrightarrow> guards_ok keys ts \<Longrightarrow> guards_ok keys ts'"
  by (induction n arbitrary: ts') (auto intro: guards_keep)

section \<open>Every schedule ends\<close>

definition phase_weight :: "guard_phase \<Rightarrow> nat" where
  "phase_weight p = (case p of Acquiring \<Rightarrow> 3 | Inside \<Rightarrow> 2 | Releasing \<Rightarrow> 1 | Finished \<Rightarrow> 0)"

definition thread_steps :: "GuardThread \<Rightarrow> nat" where
  "thread_steps t = 2 * length (gt_todo t) + length (gt_held t) + phase_weight (gt_phase t)"

definition steps_left :: "GuardThread list \<Rightarrow> nat" where
  "steps_left ts = sum_list (map thread_steps ts)"

lemma steps_update: "i < length ts \<Longrightarrow> thread_steps (ts ! i) = Suc (thread_steps t) \<Longrightarrow> steps_left ts = Suc (steps_left (ts[i := t]))"
proof -
  assume i: "i < length ts" and t: "thread_steps (ts ! i) = Suc (thread_steps t)"
  have "ts = take i ts @ ts ! i # drop (Suc i) ts" using i by (simp add: id_take_nth_drop)
  then have "steps_left ts = steps_left (take i ts) + thread_steps (ts ! i) + steps_left (drop (Suc i) ts)"
    unfolding steps_left_def by (metis (no_types) add.assoc list.simps(9) map_append sum_list.Cons sum_list_append)
  moreover have "steps_left (ts[i := t]) = steps_left (take i ts) + thread_steps t + steps_left (drop (Suc i) ts)"
    using i by (simp add: steps_left_def upd_conv_take_nth_drop)
  ultimately show ?thesis using t by simp
qed

lemma step_counts: "guard_step ts ts' \<Longrightarrow> steps_left ts = Suc (steps_left ts')"
  by (induction rule: guard_step.induct) (auto intro!: steps_update simp: thread_steps_def phase_weight_def)

lemma run_counts: "(guard_step ^^ n) ts ts' \<Longrightarrow> steps_left ts = n + steps_left ts'"
  by (induction n arbitrary: ts') (auto dest!: step_counts)

section \<open>No execution is stuck\<close>

lemma thread_moves:
  assumes "i < length ts" "guards_ok keys ts" "gt_phase (ts ! i) \<noteq> Finished"
  shows "(\<exists>ts'. guard_step ts ts') \<or> (\<exists>k ks. gt_phase (ts ! i) = Acquiring \<and> gt_todo (ts ! i) = k # ks \<and> \<not> lock_free ts i k)"
proof -
  have ok: "thread_ok (keys ! i) (ts ! i)" using assms by (simp add: guards_ok_def)
  obtain p td h where t: "ts ! i = \<lparr> gt_phase = p, gt_todo = td, gt_held = h \<rparr>" by (cases "ts ! i") auto
  show ?thesis
  proof (cases p)
    case Acquiring
    then show ?thesis using t assms(1) guard_step.intros(1,2) [of i ts] by (cases td) auto
  next
    case Inside
    then show ?thesis using t ok assms(1) guard_step.leave [of i ts] by (auto simp: thread_ok_def)
  next
    case Releasing
    then show ?thesis using t ok assms(1) guard_step.release [of i ts] guard_step.finish [of i ts] by (cases h) (auto simp: thread_ok_def)
  qed (use assms(3) t in simp)
qed

lemma blocked_by_larger:
  assumes "guards_ok keys ts" "\<forall>ks \<in> set keys. sorted ks \<and> distinct ks"
    and blocked: "\<forall>i < length ts. gt_phase (ts ! i) \<noteq> Finished \<longrightarrow>
      (\<exists>k ks. gt_phase (ts ! i) = Acquiring \<and> gt_todo (ts ! i) = k # ks \<and> \<not> lock_free ts i k)"
    and i: "i < length ts" "gt_phase (ts ! i) \<noteq> Finished"
  shows "\<exists>j < length ts. gt_phase (ts ! j) \<noteq> Finished \<and> hd (gt_todo (ts ! i)) < hd (gt_todo (ts ! j))"
proof -
  obtain k ks where k: "gt_todo (ts ! i) = k # ks" "\<not> lock_free ts i k" using blocked i by blast
  then obtain j where j: "j < length ts" "k \<in> set (gt_held (ts ! j))" by (auto simp: lock_free_iff)
  have ok: "thread_ok (keys ! j) (ts ! j)" using assms(1) j by (simp add: guards_ok_def)
  have unfinished: "gt_phase (ts ! j) \<noteq> Finished" using ok j(2) by (auto simp: thread_ok_def)
  then obtain k' ks' where k': "gt_phase (ts ! j) = Acquiring" "gt_todo (ts ! j) = k' # ks'" using blocked j(1) by blast
  have "rev (gt_held (ts ! j)) @ k' # ks' = keys ! j" using ok k' by (simp add: thread_ok_def)
  moreover have "sorted (keys ! j)" "distinct (keys ! j)" using assms(1,2) j(1) by (auto simp: guards_ok_def)
  ultimately have "sorted (rev (gt_held (ts ! j)) @ k' # ks')" "distinct (rev (gt_held (ts ! j)) @ k' # ks')" by metis+
  then have "k \<le> k'" "k \<noteq> k'" using j(2) by (auto simp: sorted_append)
  then show ?thesis using j(1) unfinished k(1) k'(2) by (intro exI [of _ j]) simp
qed

lemma some_step:
  assumes ok: "guards_ok keys ts" "\<forall>ks \<in> set keys. sorted ks \<and> distinct ks" and "\<not> all_finished ts"
  shows "\<exists>ts'. guard_step ts ts'"
proof (rule ccontr)
  assume stuck: "\<nexists>ts'. guard_step ts ts'"
  let ?live = "{i. i < length ts \<and> gt_phase (ts ! i) \<noteq> Finished}"
  let ?keys = "(\<lambda>i. hd (gt_todo (ts ! i))) ` ?live"
  have "?keys \<noteq> {}" using assms(3) by (auto simp: all_finished_def list_all_length)
  then have "Max ?keys \<in> ?keys" by (intro Max_in) auto
  then obtain i where i: "i \<in> ?live" and top: "Max ?keys = hd (gt_todo (ts ! i))" by blast
  have "\<exists>j < length ts. gt_phase (ts ! j) \<noteq> Finished \<and> hd (gt_todo (ts ! i)) < hd (gt_todo (ts ! j))"
    by (rule blocked_by_larger [OF ok]) (use i thread_moves [OF _ ok(1)] stuck in blast)+
  then obtain j where j: "j \<in> ?live" "Max ?keys < hd (gt_todo (ts ! j))" using top by auto
  have "hd (gt_todo (ts ! j)) \<le> Max ?keys" using j(1) by (intro Max_ge) auto
  with j(2) show False by simp
qed

lemma guard_keys_sorted: "sorted (guard_keys env call)" "distinct (guard_keys env call)"
  by (simp_all add: guard_keys_def)

lemma start_guards_ok:
  "guards_ok (map (\<lambda>(env, call). guard_keys env call) calls) (start_guards calls)"
proof -
  have "start_guards calls = map guard_thread (map (\<lambda>(env, call). guard_keys env call) calls)" by (auto simp: start_guards_def)
  then show ?thesis using guards_start by metis
qed

lemma steps_start: "steps_left (start_guards calls) = sum_list (map (\<lambda>(env, call). 2 * length (guard_keys env call) + 3) calls)"
  by (induction calls) (auto simp: steps_left_def start_guards_def guard_thread_def thread_steps_def phase_weight_def)

lemma inside_disjoint:
  assumes "(guard_step ^^ n) (start_guards calls) ts" "i < length calls" "j < length calls" "i \<noteq> j"
    "gt_phase (ts ! i) = Inside" "gt_phase (ts ! j) = Inside"
  shows "set (guard_keys (fst (calls ! i)) (snd (calls ! i))) \<inter> set (guard_keys (fst (calls ! j)) (snd (calls ! j))) = {}"
proof -
  note ok = guards_reach [OF assms(1) start_guards_ok]
  have len: "length ts = length calls" using ok by (simp add: guards_ok_def)
  have held: "set (gt_held (ts ! m)) = set (guard_keys (fst (calls ! m)) (snd (calls ! m)))"
    if "m < length calls" "gt_phase (ts ! m) = Inside" for m
  proof -
    have "thread_ok (guard_keys (fst (calls ! m)) (snd (calls ! m))) (ts ! m)"
      using ok that(1) len by (auto simp: guards_ok_def case_prod_beta)
    then show ?thesis using that(2) by (simp add: thread_ok_def) (metis set_rev)
  qed
  show ?thesis using ok assms(2-6) len held unfolding guards_ok_def by (metis length_map)
qed

end
