(* ===== verification/Action_Contracts.thy ===== *)
theory Action_Contracts
  imports Action_Invariants
begin

text \<open>
  Pre- and postconditions of actions: from a state with \<open>P\<close> the action returns a value and a state with
  \<open>Q\<close>, or raises an exception in a state with \<open>E\<close>. The rules follow the code from the start.
\<close>

named_theorems contract_rules "composition of contracts along the code"

definition contract :: "('s \<Rightarrow> bool) \<Rightarrow> ('s, 'e, 'a) action \<Rightarrow> ('a \<Rightarrow> 's \<Rightarrow> bool) \<Rightarrow> ('s \<Rightarrow> bool) \<Rightarrow> bool" where
  "contract P m Q E \<longleftrightarrow> (\<forall>s. P s \<longrightarrow> (case m s of (Inl e, s') \<Rightarrow> E s' | (Inr x, s') \<Rightarrow> Q x s'))"

lemma contractI:
  assumes "\<And>s x s'. P s \<Longrightarrow> m s = (Inr x, s') \<Longrightarrow> Q x s'" and "\<And>s e s'. P s \<Longrightarrow> m s = (Inl e, s') \<Longrightarrow> E s'"
  shows "contract P m Q E"
  using assms by (auto simp: contract_def split: prod.split sum.split)

lemma contract_Inr: "contract P m Q E \<Longrightarrow> P s \<Longrightarrow> m s = (Inr x, s') \<Longrightarrow> Q x s'"
  by (fastforce simp: contract_def)

lemma contract_Inl: "contract P m Q E \<Longrightarrow> P s \<Longrightarrow> m s = (Inl e, s') \<Longrightarrow> E s'"
  by (fastforce simp: contract_def)

lemma contract_snd: "contract P m (\<lambda>_. E) E \<Longrightarrow> P s \<Longrightarrow> E (snd (m s))"
  by (cases "m s") (auto simp: contract_def split: sum.splits)

lemma contract_post:
  "contract P m Q' E' \<Longrightarrow> (\<And>s. P' s \<Longrightarrow> P s) \<Longrightarrow> (\<And>x s. Q' x s \<Longrightarrow> Q x s) \<Longrightarrow> (\<And>s. E' s \<Longrightarrow> E s) \<Longrightarrow> contract P' m Q E"
  unfolding contract_def by (fastforce split: prod.splits sum.splits)

lemma contract_bind [contract_rules]:
  assumes "contract P m R E" and "\<And>x. contract (R x) (f x) Q E"
  shows "contract P (act_bind m f) Q E"
proof (unfold contract_def, intro allI impI)
  fix s assume "P s"
  obtain r s' where m: "m s = (r, s')" by fastforce
  show "case act_bind m f s of (Inl e, s') \<Rightarrow> E s' | (Inr x, s') \<Rightarrow> Q x s'"
  proof (cases r)
    case (Inr x)
    then have "R x s'" using contract_Inr [OF assms(1) \<open>P s\<close>] m by simp
    with assms(2) [of x] show ?thesis using m Inr by (auto simp: act_bind_def contract_def)
  qed (use contract_Inl [OF assms(1) \<open>P s\<close>] m in \<open>simp add: act_bind_def\<close>)
qed

lemma contract_then [contract_rules]: "contract P m (\<lambda>_. R) E \<Longrightarrow> contract R m' Q E \<Longrightarrow> contract P (act_then m m') Q E"
  unfolding act_then_def by (rule contract_bind)

lemma contract_return [contract_rules]: "(\<And>s. P s \<Longrightarrow> Q x s) \<Longrightarrow> contract P (act_return x) Q E"
  by (simp add: contract_def)

lemma contract_raise [contract_rules]: "(\<And>s. P s \<Longrightarrow> E s) \<Longrightarrow> contract P (act_raise e) Q E"
  by (simp add: contract_def)

lemma contract_get: "contract P (act_get g) (\<lambda>x s. P s \<and> x = g s) E"
  by (simp add: contract_def)

lemma contract_if [contract_rules]:
  "(c \<Longrightarrow> contract P m Q E) \<Longrightarrow> (\<not> c \<Longrightarrow> contract P m' Q E) \<Longrightarrow> contract P (if c then m else m') Q E"
  by simp

lemma contract_cases [contract_rules]:
  "(r = None \<Longrightarrow> contract P m Q E) \<Longrightarrow> (\<And>x. r = Some x \<Longrightarrow> contract P (f x) Q E) \<Longrightarrow>
    contract P (case r of None \<Rightarrow> m | Some x \<Rightarrow> f x) Q E"
  "(\<And>x. q = Inl x \<Longrightarrow> contract P (f1 x) Q E) \<Longrightarrow> (\<And>x. q = Inr x \<Longrightarrow> contract P (f2 x) Q E) \<Longrightarrow>
    contract P (case q of Inl x \<Rightarrow> f1 x | Inr x \<Rightarrow> f2 x) Q E"
  by (simp_all split: option.splits sum.splits)

lemma contract_try [contract_rules]:
  assumes "contract P m Q E'" and "\<And>e. contract E' (h e) Q E" and "\<And>s. E' s \<Longrightarrow> E s"
  shows "contract P (act_try c m h) Q E"
proof (unfold contract_def, intro allI impI)
  fix s assume "P s"
  obtain r s' where m: "m s = (r, s')" by fastforce
  show "case act_try c m h s of (Inl e, s') \<Rightarrow> E s' | (Inr x, s') \<Rightarrow> Q x s'"
  proof (cases r)
    case (Inl e)
    then have "E' s'" using contract_Inl [OF assms(1) \<open>P s\<close>] m by simp
    with assms(2) [of e] assms(3) show ?thesis using m Inl by (auto simp: act_try_def contract_def)
  qed (use contract_Inr [OF assms(1) \<open>P s\<close>] m in \<open>simp add: act_try_def\<close>)
qed

lemma contract_when [contract_rules]:
  "(c \<Longrightarrow> contract P m Q E) \<Longrightarrow> (\<And>s. \<not> c \<Longrightarrow> P s \<Longrightarrow> Q () s) \<Longrightarrow> contract P (act_when c m) Q E"
  by (simp add: act_when_def contract_return)

text \<open>A fact of the precondition that does not depend on the state.\<close>

lemma contract_fact: "(F \<Longrightarrow> contract P m Q E) \<Longrightarrow> contract (\<lambda>s. P s \<and> F) m Q E"
  by (auto simp: contract_def)

lemma contract_given:
  "(F \<Longrightarrow> contract P m Q' E) \<Longrightarrow> (\<And>x s. F \<Longrightarrow> Q' x s \<Longrightarrow> Q x s) \<Longrightarrow> contract (\<lambda>s. P s \<and> F) m Q E"
  by (rule contract_fact) (rule contract_post)

lemma contract_pre: "contract P m Q E \<Longrightarrow> (\<And>s. P' s \<Longrightarrow> P s) \<Longrightarrow> contract P' m Q E"
  by (auto simp: contract_def)

lemma contract_each:
  assumes "\<And>x. x \<in> set xs \<Longrightarrow> contract P (f x) (\<lambda>_. P) E"
  shows "contract P (act_each f xs) (\<lambda>_. P) E"
  using assms by (induction xs) (auto intro!: contract_rules)

end
