(* ===== verification/File_Guarantees.thy ===== *)
theory File_Guarantees
  imports Patch_Tool Action_Contracts
begin

text \<open>
  No blind edits: whatever a tool call does to the files, a file that existed before and that is changed or
  removed had been read (or written) by the same run, and was still as it was then.
\<close>

section \<open>The steps\<close>

text \<open>
  \<open>seen_by\<close>: the fingerprints a run knows; \<open>kept_outside\<close>: the files are as they were, except where
  a change is free; \<open>may_change\<close>: a path without a file, or with a file the run knows as it is.
\<close>

definition seen_by :: "ReadLedger \<Rightarrow> pystr \<Rightarrow> fpath \<Rightarrow> FileFingerprint option" where
  "seen_by l k p = map_option le_fingerprint (known l k p)"

definition file_at :: "tree \<Rightarrow> fpath \<Rightarrow> (pystr \<times> FileFingerprint) option" where
  "file_at t p = (case node_at t p of Some (File c f) \<Rightarrow> Some (c, f) | _ \<Rightarrow> None)"

definition kept_outside :: "tree \<Rightarrow> (fpath \<Rightarrow> bool) \<Rightarrow> tree \<Rightarrow> bool" where
  "kept_outside t0 free t \<longleftrightarrow> (\<forall>p. \<not> free p \<longrightarrow> file_at t p = file_at t0 p)"

definition may_change :: "tree \<Rightarrow> (fpath \<Rightarrow> FileFingerprint option) \<Rightarrow> fpath \<Rightarrow> bool" where
  "may_change t0 seen p \<longleftrightarrow> (\<forall>c f. file_at t0 p = Some (c, f) \<longrightarrow> seen p = Some f)"

lemma kept_outside_refl: "kept_outside t free t"
  by (simp add: kept_outside_def)

lemma node_update [simp]: "node_at (AList.update p n t) q = (if q = p then Some n else node_at t q)"
  by (simp add: node_at_def update_conv')

lemma node_delete [simp]: "node_at (AList.delete p t) q = (if q = p then None else node_at t q)"
  by (simp add: node_at_def delete_conv')

lemma file_at_update [simp]: "q \<noteq> p \<Longrightarrow> file_at (AList.update p n t) q = file_at t q"
  "file_at (AList.update p Dir t) p = None" "q \<noteq> p \<Longrightarrow> file_at (AList.delete p t) q = file_at t q"
  by (simp_all add: file_at_def)

lemma make_dirs_files: "make_dirs ps t = Inr t' \<Longrightarrow> file_at t' q = file_at t q"
proof (induction ps arbitrary: t)
  case (Cons p ps)
  show ?case
  proof (cases "node_at t p")
    case None
    then have "file_at t' q = file_at (AList.update p Dir t) q" using Cons by simp
    then show ?thesis using None by (cases "q = p") (simp_all add: file_at_def)
  qed (use Cons in \<open>auto split: node.splits\<close>)
qed simp

lemma make_parents_kept: "make_parents p t = Inr t' \<Longrightarrow> kept_outside t0 free t \<Longrightarrow> kept_outside t0 free t'"
  by (simp add: kept_outside_def make_parents_def make_dirs_files)

lemma write_text_kept: "write_text p c f t = Inr t' \<Longrightarrow> free p \<Longrightarrow> kept_outside t0 free t \<Longrightarrow> kept_outside t0 free t'"
  by (auto simp: kept_outside_def write_text_def split: if_splits; metis file_at_update(1))

lemma unlink_kept: "unlink p t = Inr t' \<Longrightarrow> free p \<Longrightarrow> kept_outside t0 free t \<Longrightarrow> kept_outside t0 free t'"
  by (auto simp: kept_outside_def unlink_def split: option.splits node.splits; metis file_at_update(3))

text \<open>What a path that does not exist now was, or an unread file would still be there.\<close>

lemma missing_may_change:
  assumes "kept_outside t0 (may_change t0 seen) t" "\<not> path_exists t p"
  shows "may_change t0 seen p"
proof (rule ccontr)
  assume not: "\<not> may_change t0 seen p"
  then have "file_at t p = file_at t0 p" using assms(1) by (simp add: kept_outside_def)
  moreover have "file_at t p = None" using assms(2) by (simp add: path_exists_def file_at_def)
  ultimately show False using not by (simp add: may_change_def)
qed

section \<open>Contracts of the primitives\<close>

definition files_kept :: "tree \<Rightarrow> (fpath \<Rightarrow> bool) \<Rightarrow> FileState \<Rightarrow> bool" where
  "files_kept t0 free s \<longleftrightarrow> kept_outside t0 free (fs_tree s)"

lemma lift_contract: "contract P (f_lift r) (\<lambda>x s. P s \<and> r = Inr x) P"
  by (cases r) (simp_all add: f_lift_def contract_def)

lemma tree_contract:
  assumes "\<And>t t'. f t = Inr t' \<Longrightarrow> kept_outside t0 free t \<Longrightarrow> kept_outside t0 free t'"
  shows "contract (files_kept t0 free) (f_tree f) (\<lambda>_. files_kept t0 free) (files_kept t0 free)"
  using assms by (auto simp: contract_def files_kept_def f_tree_def split: sum.split)

lemma write_contract: "free p \<Longrightarrow>
    contract (files_kept t0 free) (f_write env p c) (\<lambda>_. files_kept t0 free) (files_kept t0 free)"
  by (auto simp: contract_def files_kept_def f_write_def dest: write_text_kept split: sum.split)

lemma ledger_contract: "contract (files_kept t0 free) (f_ledger f) (\<lambda>_. files_kept t0 free) (files_kept t0 free)"
  by (auto simp: contract_def files_kept_def f_ledger_def split: sum.split prod.split)

lemma record_contract: "contract (files_kept t0 free) (f_record env call p fo) (\<lambda>_. files_kept t0 free) (files_kept t0 free)"
  unfolding f_record_def
  by (rule contract_bind [OF contract_get]) (auto intro!: contract_cases contract_raise contract_pre [OF ledger_contract])

lemma forget_contract: "contract (files_kept t0 free) (f_forget env call p) (\<lambda>_. files_kept t0 free) (files_kept t0 free)"
  unfolding f_forget_def by (rule ledger_contract)

lemma parents_contract: "contract (files_kept t0 free) (f_tree (make_parents p)) (\<lambda>_. files_kept t0 free) (files_kept t0 free)"
  by (rule tree_contract) (rule make_parents_kept)

lemma unlink_contract: "free p \<Longrightarrow>
    contract (files_kept t0 free) (f_tree (unlink p)) (\<lambda>_. files_kept t0 free) (files_kept t0 free)"
  by (rule tree_contract) (rule unlink_kept)

text \<open>Before the first change: the files are those of the start and the run knows what it knew.\<close>

definition untouched :: "FileState \<Rightarrow> FileState \<Rightarrow> bool" where
  "untouched s0 s \<longleftrightarrow> fs_tree s = fs_tree s0 \<and> ledger_ok (fs_ledger s) \<and> known (fs_ledger s) = known (fs_ledger s0)"

abbreviation seen_in :: "ToolCall \<Rightarrow> FileState \<Rightarrow> fpath \<Rightarrow> FileFingerprint option" where
  "seen_in call s0 \<equiv> seen_by (fs_ledger s0) (py_strip (ledger_scope call))"

abbreviation free_for :: "ToolCall \<Rightarrow> FileState \<Rightarrow> fpath \<Rightarrow> bool" where
  "free_for call s0 \<equiv> may_change (fs_tree s0) (seen_in call s0)"

lemma untouched_kept: "untouched s0 s \<Longrightarrow> files_kept (fs_tree s0) (free_for call s0) s"
  by (simp add: untouched_def files_kept_def kept_outside_refl)

text \<open>The guard lets through only what the run knows as it is.\<close>

lemma guard_contract:
  assumes stable: "fe_resolve env p = p"
  shows "contract (untouched s0) (read_guard env call p shown)
    (\<lambda>d s. untouched s0 s \<and> (guard_allowed d \<longrightarrow> free_for call s0 p)) (untouched s0)"
proof (rule contractI)
  fix s d s' assume s: "untouched s0 s" and run: "read_guard env call p shown s = (Inr d, s')"
  then obtain i l where i: "inspect_read (ledger_scope call) p (stat_of env p (fs_tree s)) (fs_ledger s) = Inr (i, l)"
    and s': "s' = s\<lparr>fs_ledger := l\<rparr>" and d: "d = guard_decision call p shown i"
    using stable by (auto simp: read_guard_def act_bind_Inr f_ledger_def split: sum.splits)
  note found = inspect_read_Inr [OF i]
  have "free_for call s0 p" if "guard_allowed d"
  proof -
    have "li_verdict i = LEDGER_OK" using that by (auto simp: d guard_decision_def guard_allowed_def split: if_splits)
    then show ?thesis using found s by (auto simp: untouched_def may_change_def seen_by_def stat_of_def file_at_def split: option.splits node.splits)
  qed
  then show "untouched s0 s' \<and> (guard_allowed d \<longrightarrow> free_for call s0 p)"
    using found s by (auto simp: untouched_def s')
next
  fix s e s' assume "untouched s0 s" "read_guard env call p shown s = (Inl e, s')"
  then show "untouched s0 s'"
    by (auto simp: read_guard_def act_bind_def f_ledger_def split: sum.splits prod.splits)
qed

lemma prior_read_contract:
  assumes "fe_resolve env p = p" "fe_read_mode env = ''enforce''"
  shows "contract (untouched s0) (require_prior_read env call p shown)
    (\<lambda>r s. untouched s0 s \<and> (\<forall>w. r = Inr w \<longrightarrow> free_for call s0 p)) (untouched s0)"
  unfolding require_prior_read_def
  using assms(2) by (auto intro!: contract_bind [OF guard_contract [OF assms(1)]] contract_if contract_return)

section \<open>The file tools\<close>

definition idempotent :: "FileEnv \<Rightarrow> bool" where
  "idempotent env \<longleftrightarrow> (\<forall>p. fe_resolve env (fe_resolve env p) = fe_resolve env p)"

lemma resolve_mutable_stable: "idempotent env \<Longrightarrow> resolve_mutable env raw = Inr p \<Longrightarrow> fe_resolve env p = p"
  by (auto simp: resolve_mutable_def Let_def idempotent_def split: if_splits)

definition no_blind_edit :: "FileEnv \<Rightarrow> ToolCall \<Rightarrow> ToolResult file_act \<Rightarrow> bool" where
  "no_blind_edit env call m \<longleftrightarrow> (\<forall>s0. contract (untouched s0) m
     (\<lambda>_. files_kept (fs_tree s0) (free_for call s0)) (files_kept (fs_tree s0) (free_for call s0)))"

lemma store_file_contract: "free p \<Longrightarrow>
    contract (files_kept t0 free) (store_file env call p c w) (\<lambda>_. files_kept t0 free) (files_kept t0 free)"
  unfolding store_file_def
  by (intro contract_then [OF parents_contract] contract_then [OF write_contract] contract_then [OF record_contract] contract_return)

lemma lift_untouched: "contract (untouched s0) (f_lift r) (\<lambda>x s. untouched s0 s \<and> r = Inr x) (files_kept (fs_tree s0) (free_for call s0))"
  by (rule contract_post [OF lift_contract [of "untouched s0"]]) (auto intro: untouched_kept)

lemma get_untouched: "contract (untouched s0) (act_get fs_tree) (\<lambda>t s. untouched s0 s \<and> t = fs_tree s0) E"
  by (rule contract_post [OF contract_get]) (auto simp: untouched_def)

lemma prior_read_kept:
  assumes "fe_resolve env p = p" "fe_read_mode env = ''enforce''"
  shows "contract (untouched s0) (require_prior_read env call p shown)
    (\<lambda>r s. untouched s0 s \<and> (\<forall>w. r = Inr w \<longrightarrow> free_for call s0 p))
    (files_kept (fs_tree s0) (free_for call s0))"
  by (rule contract_post [OF prior_read_contract [OF assms]]) (auto intro: untouched_kept)

lemma kept_returns: "contract (untouched s0) (act_return x) (\<lambda>_. files_kept (fs_tree s0) (free_for call s0)) E"
  by (rule contract_return) (rule untouched_kept)

text \<open>What follows the guard may change the path; where there is nothing, the guard is not needed.\<close>

lemma guarded_contract:
  assumes "fe_resolve env p = p" "fe_read_mode env = ''enforce''"
    "\<And>w. free_for call s0 p \<Longrightarrow>
       contract (files_kept (fs_tree s0) (free_for call s0)) (k w) (\<lambda>_. files_kept (fs_tree s0) (free_for call s0)) (files_kept (fs_tree s0) (free_for call s0))"
  shows "contract (untouched s0) (guarded_edit env call p raw k) (\<lambda>_. files_kept (fs_tree s0) (free_for call s0)) (files_kept (fs_tree s0) (free_for call s0))"
  unfolding guarded_edit_def
  by (rule contract_bind [OF prior_read_kept [OF assms(1,2)]])
    (auto intro!: contract_cases contract_return contract_fact contract_pre [OF assms(3)] intro: untouched_kept)

lemma missing_free: "\<not> path_exists (fs_tree s0) p \<Longrightarrow> may_change (fs_tree s0) seen p"
  by (rule missing_may_change [OF kept_outside_refl])

lemmas plan_rules = contract_bind [OF lift_untouched] contract_fact contract_if contract_cases contract_bind [OF get_untouched] kept_returns

lemma write_file_safe:
  assumes "idempotent env" "fe_read_mode env = ''enforce''"
  shows "no_blind_edit env call (write_file env call)"
  unfolding no_blind_edit_def write_file_def Let_def
  by (intro allI plan_rules guarded_contract resolve_mutable_stable [OF assms(1)] assms(2) store_file_contract
      contract_pre [OF store_file_contract [OF missing_free]])
    (auto simp: write_modes_def intro!: contract_raise intro: untouched_kept)

lemma replace_text_safe:
  assumes "idempotent env" "fe_read_mode env = ''enforce''"
  shows "no_blind_edit env call (replace_text env call)"
  unfolding no_blind_edit_def replace_text_def Let_def
  by (intro allI plan_rules guarded_contract resolve_mutable_stable [OF assms(1)] assms(2))
    (auto simp: replace_in_def Let_def intro!: contract_bind [OF lift_contract] contract_fact contract_if contract_return
        contract_then [OF write_contract] contract_then [OF record_contract])

lemma unlink_file_contract: "free p \<Longrightarrow>
    contract (files_kept t0 free) (unlink_file env call p w) (\<lambda>_. files_kept t0 free) (files_kept t0 free)"
  unfolding unlink_file_def
  by (rule contract_try [where E' = "files_kept t0 free"], intro contract_then [OF unlink_contract] contract_then [OF forget_contract] contract_return)
    (auto intro: contract_return)

lemma remove_file_safe:
  assumes "idempotent env" "fe_read_mode env = ''enforce''"
  shows "no_blind_edit env call (remove_file env call)"
  unfolding no_blind_edit_def remove_file_def Let_def
  by (intro allI plan_rules guarded_contract resolve_mutable_stable [OF assms(1)] assms(2), assumption, rule unlink_file_contract)

lemma get_any: "contract P (act_get g) (\<lambda>_. P) E"
  by (simp add: contract_def)

lemma read_file_safe: "no_blind_edit env call (read_file env call)"
  unfolding no_blind_edit_def read_file_def read_result_def Let_def
  by (intro allI contract_bind [OF lift_untouched] contract_bind [OF get_any] contract_fact contract_if kept_returns
        contract_then [OF contract_pre [OF record_contract untouched_kept]])
    (auto intro: contract_return)

lemma list_files_safe: "no_blind_edit env call (list_files env call)"
  unfolding no_blind_edit_def list_files_def Let_def by (intro allI plan_rules)

section \<open>The patch tool\<close>

lemma patch_resolve_stable: "idempotent (pe_files env) \<Longrightarrow> patch_resolve env raw = Inr p \<Longrightarrow> fe_resolve (pe_files env) p = p"
  by (auto simp: patch_resolve_def Let_def idempotent_def split: if_splits)

definition paths_free :: "(fpath \<Rightarrow> bool) \<Rightarrow> (pystr \<times> fpath) list \<Rightarrow> bool" where
  "paths_free free ps \<longleftrightarrow> (\<forall>x p. (x, p) \<in> set ps \<longrightarrow> free p)"

definition op_free :: "PatchEnv \<Rightarrow> tree \<Rightarrow> (fpath \<Rightarrow> bool) \<Rightarrow> patch_op \<Rightarrow> bool" where
  "op_free env t0 free op \<longleftrightarrow> (\<exists>ps. guarded_paths env t0 op = Inr ps \<and> paths_free free ps)"

lemma update_target_stable:
  "idempotent (pe_files env) \<Longrightarrow> update_target env p m = Inr q \<Longrightarrow> q = p \<or> fe_resolve (pe_files env) q = q"
  by (auto simp: update_target_def split: if_splits dest: patch_resolve_stable)

lemma guarded_paths_stable:
  assumes "idempotent (pe_files env)" "guarded_paths env t op = Inr ps" "(x, p) \<in> set ps"
  shows "fe_resolve (pe_files env) p = p"
proof (cases op)
  case (UpdateFile raw hs m)
  then obtain a b where a: "patch_resolve env raw = Inr a" and b: "update_target env a m = Inr b" and "p = a \<or> p = b"
    using assms(2,3) by (auto simp: guarded_paths_def bind_res_Inr split: if_splits)
  then show ?thesis using patch_resolve_stable [OF assms(1) a] update_target_stable [OF assms(1) b] by auto
qed (use assms in \<open>auto simp: guarded_paths_def bind_res_Inr dest: patch_resolve_stable\<close>)

lemma guard_kept:
  assumes "fe_resolve env p = p"
  shows "contract (untouched s0) (read_guard env call p shown)
    (\<lambda>d s. untouched s0 s \<and> (guard_allowed d \<longrightarrow> free_for call s0 p)) (files_kept (fs_tree s0) (free_for call s0))"
  by (rule contract_post [OF guard_contract [OF assms]]) (auto intro: untouched_kept)

lemma check_paths_contract:
  "(\<And>x p. (x, p) \<in> set ps \<Longrightarrow> fe_resolve (pe_files env) p = p) \<Longrightarrow> fe_read_mode (pe_files env) = ''enforce'' \<Longrightarrow>
    contract (untouched s0) (check_paths env call ps ws)
      (\<lambda>r s. untouched s0 s \<and> (\<forall>w. r = Inr w \<longrightarrow> paths_free (free_for call s0) ps)) (files_kept (fs_tree s0) (free_for call s0))"
proof (induction env call ps ws rule: check_paths.induct)
  case (2 env call shown p ps ws)
  have p: "fe_resolve (pe_files env) p = p" using "2.prems"(1) [of shown p] by simp
  have rest: "contract (\<lambda>s. untouched s0 s \<and> (guard_allowed d \<longrightarrow> free_for call s0 p))
      (if guard_allowed d then check_paths env call ps ws
        else if fe_read_mode (pe_files env) = ''warn'' then m else act_return (Inl r))
      (\<lambda>r s. untouched s0 s \<and> (\<forall>w. r = Inr w \<longrightarrow> paths_free (free_for call s0) ((shown, p) # ps)))
      (files_kept (fs_tree s0) (free_for call s0))" for d m r
  proof (cases "guard_allowed d")
    case True
    have "contract (untouched s0) (check_paths env call ps ws)
      (\<lambda>r s. untouched s0 s \<and> (\<forall>w. r = Inr w \<longrightarrow> paths_free (free_for call s0) ps)) (files_kept (fs_tree s0) (free_for call s0))"
      by (rule "2.IH"(1) [OF True _ "2.prems"(2)]) (metis "2.prems"(1) list.set_intros(2))
    then show ?thesis using True by (simp, intro contract_given) (auto simp: paths_free_def)
  qed (use "2.prems"(2) in \<open>simp add: contract_def\<close>)
  show ?case unfolding check_paths.simps Let_def by (rule contract_bind [OF guard_kept [OF p] rest])
qed (auto simp: paths_free_def intro: contract_return)

lemma precheck_contract:
  assumes "idempotent (pe_files env)" "fe_read_mode (pe_files env) = ''enforce''"
  shows "contract (untouched s0) (precheck_ops env call ops ws)
    (\<lambda>r s. untouched s0 s \<and> (\<forall>w. r = Inr w \<longrightarrow> (\<forall>op \<in> set ops. op_free env (fs_tree s0) (free_for call s0) op)))
    (files_kept (fs_tree s0) (free_for call s0))"
proof (induction ops arbitrary: ws)
  case (Cons op ops)
  have step: "contract (\<lambda>s. untouched s0 s \<and> (\<forall>w. r = Inr w \<longrightarrow> paths_free (free_for call s0) ps))
      (case r of Inl blocked \<Rightarrow> act_return (Inl blocked) | Inr ws \<Rightarrow> precheck_ops env call ops ws)
      (\<lambda>r s. untouched s0 s \<and> (\<forall>w. r = Inr w \<longrightarrow> (\<forall>op \<in> set (op # ops). op_free env (fs_tree s0) (free_for call s0) op)))
      (files_kept (fs_tree s0) (free_for call s0))"
    if ps: "guarded_paths env (fs_tree s0) op = Inr ps" for r ps
  proof (cases r)
    case (Inr ws)
    show ?thesis unfolding Inr sum.case
      by (rule contract_given [OF Cons.IH]) (use ps in \<open>auto simp: op_free_def\<close>)
  qed (simp add: contract_def)
  have checked: "contract (untouched s0) (act_bind (check_paths env call ps ws) (\<lambda>r. case r of
         Inl blocked \<Rightarrow> act_return (Inl blocked) | Inr ws \<Rightarrow> precheck_ops env call ops ws))
      (\<lambda>r s. untouched s0 s \<and> (\<forall>w. r = Inr w \<longrightarrow> (\<forall>op \<in> set (op # ops). op_free env (fs_tree s0) (free_for call s0) op)))
      (files_kept (fs_tree s0) (free_for call s0))" if "guarded_paths env (fs_tree s0) op = Inr ps" for ps
    by (rule contract_bind [OF check_paths_contract [OF guarded_paths_stable [OF assms(1) that] assms(2)] step [OF that]])
  show ?case unfolding precheck_ops.simps
    by (intro contract_bind [OF get_untouched] contract_fact contract_bind [OF lift_untouched]) (rule checked, simp)
qed (auto intro: contract_return)

lemma get_tree_kept: "contract (files_kept t0 free) (act_get fs_tree) (\<lambda>t s. files_kept t0 free s \<and> kept_outside t0 free t) E"
  by (simp add: contract_def files_kept_def)

lemma lift_kept: "contract (files_kept t0 free) (f_lift r) (\<lambda>x s. files_kept t0 free s \<and> r = Inr x) (files_kept t0 free)"
  by (rule lift_contract)

lemma update_contract:
  assumes "free p" "\<And>q. update_target env p m = Inr q \<Longrightarrow> free q"
  shows "contract (files_kept t0 free) (apply_update env p raw hs m dry) (\<lambda>_. files_kept t0 free) (files_kept t0 free)"
  unfolding apply_update_def using assms
  by (auto intro!: contract_bind [OF get_tree_kept] contract_bind [OF lift_kept] contract_fact contract_if contract_return contract_raise
      contract_then [OF parents_contract] contract_then [OF write_contract] contract_then [OF contract_when] unlink_contract)

lemma forget_silently_contract: "contract (files_kept t0 free) (f_forget_silently env call p) (\<lambda>_. files_kept t0 free) (files_kept t0 free)"
  unfolding f_forget_silently_def by (rule contract_bind [OF forget_contract]) (rule contract_return)

text \<open>An operation changes the path it names and the target of its move; a file is added only where nothing is.\<close>

lemma apply_op_contract:
  assumes named: "\<And>p t. patch_resolve env (op_path op) = Inr p \<Longrightarrow> kept_outside t0 free t \<Longrightarrow>
      (\<And>raw c. op = AddFile raw c \<Longrightarrow> \<not> path_exists t p) \<Longrightarrow> free p"
    and moved: "\<And>raw hs m p q. op = UpdateFile raw hs m \<Longrightarrow> patch_resolve env raw = Inr p \<Longrightarrow> update_target env p m = Inr q \<Longrightarrow> free q"
  shows "contract (files_kept t0 free) (apply_op env call dry op) (\<lambda>_. files_kept t0 free) (files_kept t0 free)"
proof (cases op)
  case (AddFile raw c)
  then show ?thesis unfolding apply_op_def
    by (auto simp: op_path_def intro!: contract_bind [OF get_tree_kept] contract_bind [OF lift_kept] contract_fact contract_if contract_return contract_raise
      contract_then [OF contract_when] contract_then [OF parents_contract] contract_then [OF write_contract] record_contract
      intro: named)
next
  case (DeleteFile raw)
  have "patch_resolve env raw = Inr p \<Longrightarrow> free p" for p
    using named [of p t0] by (simp add: DeleteFile op_path_def kept_outside_refl)
  then show ?thesis unfolding apply_op_def DeleteFile
    by (auto intro!: contract_bind [OF get_tree_kept] contract_bind [OF lift_kept] contract_fact contract_if contract_return contract_raise
      contract_then [OF contract_when] contract_then [OF unlink_contract] forget_silently_contract)
next
  case (UpdateFile raw hs m)
  have upd: "contract (files_kept t0 free) (apply_update env p raw hs m dry) (\<lambda>_. files_kept t0 free) (files_kept t0 free)"
    if p: "patch_resolve env raw = Inr p" for p
  proof (rule update_contract)
    show "free p" using named [of p t0] p by (simp add: UpdateFile op_path_def kept_outside_refl)
  qed (rule moved [OF UpdateFile p])
  show ?thesis unfolding apply_op_def UpdateFile patch_op.case
    by (intro contract_bind [OF lift_kept] contract_fact contract_bind [OF upd] contract_then [where R = "files_kept t0 free"] contract_when
        contract_then [where R = "files_kept t0 free"] record_contract forget_silently_contract contract_post [OF lift_kept]) auto
qed

lemma op_free_contract:
  assumes op: "op_free env t0 free op" and free: "free = may_change t0 seen"
  shows "contract (files_kept t0 free) (apply_op env call dry op) (\<lambda>_. files_kept t0 free) (files_kept t0 free)"
proof (rule apply_op_contract)
  fix p t assume p: "patch_resolve env (op_path op) = Inr p" and t: "kept_outside t0 free t"
    and new: "\<And>raw c. op = AddFile raw c \<Longrightarrow> \<not> path_exists t p"
  show "free p"
  proof (cases op)
    case (AddFile raw c)
    with new t show ?thesis unfolding free by (metis missing_may_change)
  qed (use op p in \<open>auto simp: op_free_def guarded_paths_def op_path_def paths_free_def bind_res_Inr\<close>)
next
  fix raw hs m p q assume upd: "op = UpdateFile raw hs m" "patch_resolve env raw = Inr p" and q: "update_target env p m = Inr q"
  then have "paths_free free ((raw, p) # (if q \<noteq> p \<and> path_exists t0 q then [(or_empty m, q)] else []))"
    using op by (simp add: op_free_def guarded_paths_def)
  then show "free q"
    using missing_may_change [OF kept_outside_refl, of t0 q seen] by (cases "q = p"; cases "path_exists t0 q") (auto simp: paths_free_def free)
qed

lemma apply_patch_safe:
  assumes "idempotent (pe_files env)" "fe_read_mode (pe_files env) = ''enforce''"
  shows "no_blind_edit (pe_files env) call (apply_patch env call)"
  unfolding no_blind_edit_def
proof
  fix s0 :: FileState
  let ?K = "files_kept (fs_tree s0) (free_for call s0)"
  have ops: "contract ?K (act_bind (act_each (apply_op env call dry) ops) (\<lambda>changed. act_return (patch_success call dry ws changed))) (\<lambda>_. ?K) ?K"
    if "\<forall>op \<in> set ops. op_free env (fs_tree s0) (free_for call s0) op" for ops dry ws
    using that by (intro contract_bind [OF contract_each] contract_return op_free_contract [OF _ refl]) auto
  have checked: "contract (\<lambda>s. untouched s0 s \<and> (\<forall>w. r = Inr w \<longrightarrow> (\<forall>op \<in> set ops. op_free env (fs_tree s0) (free_for call s0) op)))
      (apply_checked env call dry ops r) (\<lambda>_. ?K) ?K" for r ops dry
  proof (cases r)
    case (Inr ws)
    show ?thesis unfolding apply_checked_def Inr sum.case by (rule contract_fact, rule contract_pre [OF ops untouched_kept]) simp
  qed (auto simp: apply_checked_def intro: contract_return untouched_kept)
  have pre: "precheck_reads env call ops = precheck_ops env call ops []" for ops using assms(2) by (simp add: precheck_reads_def)
  have body: "contract (untouched s0) (act_bind (f_lift (parse_patch raw)) (\<lambda>ops.
      act_bind (precheck_reads env call ops) (apply_checked env call dry ops))) (\<lambda>_. ?K) ?K" for raw dry
    unfolding pre by (intro contract_bind [OF lift_untouched] contract_fact contract_bind [OF precheck_contract [OF assms] checked])
  show "contract (untouched s0) (apply_patch env call) (\<lambda>_. ?K) ?K"
    unfolding apply_patch_def Let_def
    by (intro contract_if kept_returns contract_try [OF body]) (auto intro: contract_return)
qed

end
