(* ===== verification/File_Safety.thy ===== *)
theory File_Safety
  imports File_Guarantees
begin

text \<open>
  The guarantees of the file tools as a whole: reads before edits, over any calls of other runs; the confinement of
  changes; the dry run of a patch; and two limits of the patch tool, its confinement by text and its lack of atomicity.
\<close>

section \<open>Every tool\<close>

lemma run_tool_safe:
  assumes "idempotent (pe_files env)" "fe_read_mode (pe_files env) = ''enforce''"
  shows "no_blind_edit (pe_files env) call (run_file_tool env call)"
proof -
  have "no_blind_edit (pe_files env) call (act_raise e)" for e
    by (auto simp: no_blind_edit_def intro: contract_raise untouched_kept)
  then show ?thesis
    using write_file_safe [OF assms] replace_text_safe [OF assms] remove_file_safe [OF assms] apply_patch_safe [OF assms]
      read_file_safe list_files_safe by (simp add: run_file_tool_def Let_def)
qed

lemma blind_edit_kept:
  assumes "no_blind_edit e call m" "ledger_ok (fs_ledger s)" "file_at (fs_tree s) p = Some (c, f)"
    "seen_in call s p \<noteq> Some f"
  shows "file_at (fs_tree (snd (m s))) p = Some (c, f)"
proof -
  have "untouched s s" using assms(2) by (simp add: untouched_def)
  then have "kept_outside (fs_tree s) (free_for call s) (fs_tree (snd (m s)))"
    using contract_snd [OF assms(1) [unfolded no_blind_edit_def, THEN spec, of s]] by (simp add: files_kept_def)
  moreover have "\<not> free_for call s p" using assms(3,4) by (simp add: may_change_def)
  ultimately show ?thesis using assms(3) by (simp add: kept_outside_def)
qed

section \<open>What a run knows\<close>

text \<open>
  The calls of one run leave what other runs know, except that old entries may be dropped.
\<close>

definition knows_at_most :: "ReadLedger \<Rightarrow> pystr \<Rightarrow> FileState \<Rightarrow> bool" where
  "knows_at_most l0 k s \<longleftrightarrow> ledger_ok (fs_ledger s) \<and> (\<forall>j p e. j \<noteq> k \<longrightarrow> known (fs_ledger s) j p = Some e \<longrightarrow> known l0 j p = Some e)"

lemma ledger_stays:
  assumes "\<And>l x l'. ledger_ok l \<Longrightarrow> f l = Inr (x, l') \<Longrightarrow> ledger_ok l' \<and> (\<forall>j p e. j \<noteq> k \<longrightarrow> known l' j p = Some e \<longrightarrow> known l j p = Some e)"
  shows "stays (knows_at_most l0 k) (f_ledger f)"
  by (rule staysI) (auto simp: f_ledger_def knows_at_most_def dest: assms split: sum.split prod.split)

lemma tree_stays [act_rules]: "stays (knows_at_most l0 k) (f_tree f)" "stays (knows_at_most l0 k) (f_write env p c)"
  "stays (knows_at_most l0 k) (f_lift r)"
  by (auto simp: stays_def f_tree_def f_write_def f_lift_def knows_at_most_def split: sum.splits)

lemma record_stays [act_rules]: "stays (knows_at_most l0 (py_strip (ledger_scope call))) (f_record env call p fo)"
  unfolding f_record_def
  by (intro act_rules ledger_stays) (auto simp: bind_res_Inr dest!: record_read_Inr)

lemma forget_stays [act_rules]: "stays (knows_at_most l0 (py_strip (ledger_scope call))) (f_forget env call p)"
  unfolding f_forget_def by (rule ledger_stays) (auto dest!: forget_read_Inr)

lemma guard_stays [act_rules]: "stays (knows_at_most l0 k) (read_guard env call p shown)"
  unfolding read_guard_def
  by (intro act_rules ledger_stays) (auto dest!: inspect_read_Inr)

lemma prior_read_stays [act_rules]: "stays (knows_at_most l0 k) (require_prior_read env call p shown)"
  unfolding require_prior_read_def by (intro act_rules)

abbreviation knows :: "ReadLedger \<Rightarrow> ToolCall \<Rightarrow> FileState \<Rightarrow> bool" where
  "knows l0 call \<equiv> knows_at_most l0 (py_strip (ledger_scope call))"

lemma guarded_stays [act_rules]: "(\<And>w. stays (knows l0 call) (k w)) \<Longrightarrow> stays (knows l0 call) (guarded_edit env call p raw k)"
  unfolding guarded_edit_def by (intro act_rules)

lemma store_stays [act_rules]: "stays (knows l0 call) (store_file env call p c w)"
  unfolding store_file_def by (intro act_rules)

lemma replace_stays [act_rules]: "stays (knows l0 call) (replace_in env call p a b n t w)"
  unfolding replace_in_def Let_def by (intro act_rules)

lemma unlink_stays [act_rules]: "stays (knows l0 call) (unlink_file env call p w)"
  unfolding unlink_file_def by (intro act_rules)

lemma result_stays [act_rules]: "stays (knows l0 call) (read_result env call p f t a b n)"
  unfolding read_result_def Let_def by (intro act_rules)

lemma file_tools_stay:
  "stays (knows l0 call) (write_file env call)" "stays (knows l0 call) (replace_text env call)"
  "stays (knows l0 call) (remove_file env call)" "stays (knows l0 call) (read_file env call)" "stays (knows l0 call) (list_files env call)"
  unfolding write_file_def replace_text_def remove_file_def read_file_def list_files_def Let_def
  by (intro act_rules)+

lemma stays_Pair [act_rules]: "stays P (Pair r)"
  by (simp add: stays_def)

lemma check_paths_stay [act_rules]: "stays (knows l0 call) (check_paths env call ps ws)"
  by (induction env call ps ws rule: check_paths.induct) (auto simp: Let_def intro!: act_rules)

lemma precheck_stays [act_rules]: "stays (knows l0 call) (precheck_ops env call ops ws)"
  by (induction ops arbitrary: ws) (auto intro!: act_rules)

lemma update_stays [act_rules]: "stays (knows l0 call) (apply_update env p raw hs m dry)"
  unfolding apply_update_def by (intro act_rules)

lemma op_stays [act_rules]: "stays (knows l0 call) (apply_op env call dry op)"
  unfolding apply_op_def f_forget_silently_def by (cases op) (simp_all, intro act_rules, intro act_rules, intro act_rules)

lemma apply_patch_stays: "stays (knows l0 call) (apply_patch env call)"
  unfolding apply_patch_def apply_checked_def precheck_reads_def Let_def by (intro act_rules)

lemma run_tool_stays: "stays (knows l0 call) (run_file_tool env call)"
  unfolding run_file_tool_def Let_def using file_tools_stay apply_patch_stays by (auto intro!: act_rules)

text \<open>Calls one after the other, each in its own environment; an exception is the caller's affair.\<close>

primrec run_calls :: "(PatchEnv \<times> ToolCall) list \<Rightarrow> FileState \<Rightarrow> FileState" where
  "run_calls [] s = s"
| "run_calls (c # cs) s = run_calls cs (snd (run_file_tool (fst c) (snd c) s))"

lemma run_calls_unknown:
  "ledger_ok (fs_ledger s) \<Longrightarrow> known (fs_ledger s) k p = None \<Longrightarrow> \<forall>c \<in> set calls. py_strip (ledger_scope (snd c)) \<noteq> k \<Longrightarrow>
    ledger_ok (fs_ledger (run_calls calls s)) \<and> known (fs_ledger (run_calls calls s)) k p = None"
proof (induction calls arbitrary: s)
  case (Cons c calls)
  let ?s = "snd (run_file_tool (fst c) (snd c) s)"
  have "knows_at_most (fs_ledger s) (py_strip (ledger_scope (snd c))) s" using Cons.prems(1) by (simp add: knows_at_most_def)
  then have "knows_at_most (fs_ledger s) (py_strip (ledger_scope (snd c))) ?s" using run_tool_stays by (simp add: stays_def)
  then have "ledger_ok (fs_ledger ?s)" "known (fs_ledger ?s) k p = None"
    using Cons.prems by (auto simp: knows_at_most_def) (metis not_Some_eq)
  with Cons.IH Cons.prems(3) show ?case by simp
qed simp

section \<open>Confinement\<close>

definition changes_within :: "(fpath \<Rightarrow> bool) \<Rightarrow> 'a file_act \<Rightarrow> bool" where
  "changes_within inside m \<longleftrightarrow> (\<forall>t0. contract (files_kept t0 inside) m (\<lambda>_. files_kept t0 inside) (files_kept t0 inside))"

lemma changes_withinD: "changes_within inside m \<Longrightarrow> \<not> inside p \<Longrightarrow> file_at (fs_tree (snd (m s))) p = file_at (fs_tree s) p"
  using contract_snd [of "files_kept (fs_tree s) inside" m "files_kept (fs_tree s) inside" s]
  by (simp add: changes_within_def files_kept_def kept_outside_def)

definition mutable_area :: "FileEnv \<Rightarrow> fpath \<Rightarrow> bool" where
  "mutable_area env p \<longleftrightarrow> is_path_inside env p (fe_cwd env) \<or> (\<exists>st. fe_staging env = Some st \<and> is_path_inside env p st)"

lemma resolve_mutable_area: "resolve_mutable env raw = Inr p \<Longrightarrow> mutable_area env p"
  by (auto simp: resolve_mutable_def mutable_area_def Let_def split: if_splits option.splits)

lemma guard_within: "contract (files_kept t0 inside) (read_guard env call p raw) (\<lambda>_. files_kept t0 inside) (files_kept t0 inside)"
  unfolding read_guard_def by (intro contract_bind [OF get_any] contract_bind [OF ledger_contract] contract_return)

lemma prior_read_within: "contract (files_kept t0 inside) (require_prior_read env call p raw) (\<lambda>_. files_kept t0 inside) (files_kept t0 inside)"
  unfolding require_prior_read_def by (intro contract_if contract_return contract_bind [OF guard_within])

lemma guarded_within:
  "(\<And>w. contract (files_kept t0 inside) (k w) (\<lambda>_. files_kept t0 inside) (files_kept t0 inside)) \<Longrightarrow>
    contract (files_kept t0 inside) (guarded_edit env call p raw k) (\<lambda>_. files_kept t0 inside) (files_kept t0 inside)"
  unfolding guarded_edit_def by (intro contract_bind [OF prior_read_within] contract_cases contract_return)

lemmas within_rules = contract_bind [OF lift_kept] contract_fact contract_if contract_cases contract_bind [OF get_any]
  contract_return contract_raise

lemma edits_within:
  "changes_within (mutable_area env) (write_file env call)" "changes_within (mutable_area env) (replace_text env call)"
  "changes_within (mutable_area env) (remove_file env call)"
  unfolding changes_within_def write_file_def replace_text_def remove_file_def replace_in_def Let_def
  by (intro allI within_rules guarded_within store_file_contract unlink_file_contract
      contract_then [OF write_contract] contract_then [OF record_contract] | erule resolve_mutable_area | assumption)+

text \<open>The patch tool checks the text of the resolved path only.\<close>

definition patch_area :: "PatchEnv \<Rightarrow> fpath \<Rightarrow> bool" where
  "patch_area env p \<longleftrightarrow> prefix (path_text (base_path (pe_files env))) (path_text p)"

lemma patch_resolve_area: "patch_resolve env raw = Inr p \<Longrightarrow> patch_area env p"
  by (auto simp: patch_resolve_def patch_area_def Let_def split: if_splits)

lemma update_target_area: "patch_area env p \<Longrightarrow> update_target env p m = Inr q \<Longrightarrow> patch_area env q"
  by (auto simp: update_target_def split: if_splits dest: patch_resolve_area)

lemma apply_op_within: "contract (files_kept t0 (patch_area env)) (apply_op env call dry op) (\<lambda>_. files_kept t0 (patch_area env)) (files_kept t0 (patch_area env))"
  by (rule apply_op_contract) (auto dest: patch_resolve_area update_target_area)

lemma check_paths_within: "contract (files_kept t0 inside) (check_paths env call ps ws) (\<lambda>_. files_kept t0 inside) (files_kept t0 inside)"
proof (induction env call ps ws rule: check_paths.induct)
  case (1 env call ws)
  show ?case unfolding check_paths.simps by (rule contract_return)
qed (auto simp: Let_def intro!: contract_bind [OF guard_within] contract_if contract_return)

lemma precheck_within: "contract (files_kept t0 inside) (precheck_ops env call ops ws) (\<lambda>_. files_kept t0 inside) (files_kept t0 inside)"
  by (induction ops arbitrary: ws)
    (auto intro!: contract_return contract_bind [OF get_any] contract_bind [OF lift_kept] contract_fact contract_bind [OF check_paths_within] contract_cases)

lemma checked_within: "contract (files_kept t0 (patch_area env)) (apply_checked env call dry ops r) (\<lambda>_. files_kept t0 (patch_area env)) (files_kept t0 (patch_area env))"
  unfolding apply_checked_def
  by (intro contract_cases contract_return contract_bind [OF contract_each [OF apply_op_within]])

lemma apply_patch_within: "changes_within (patch_area env) (apply_patch env call)"
  unfolding changes_within_def apply_patch_def Let_def precheck_reads_def
proof
  fix t0
  have body: "contract (files_kept t0 (patch_area env)) (act_bind (f_lift (parse_patch raw)) (\<lambda>ops.
      act_bind (if fe_read_mode (pe_files env) = ''off'' then act_return (Inr []) else precheck_ops env call ops []) (apply_checked env call dry ops)))
      (\<lambda>_. files_kept t0 (patch_area env)) (files_kept t0 (patch_area env))" for raw dry
    by (intro contract_bind [OF lift_kept] contract_fact contract_bind [OF _ checked_within] contract_if contract_return precheck_within)
  show "contract (files_kept t0 (patch_area env)) (if py_strip (str_default (pe_files env) call ''patch'' []) = []
        then act_return (tool_failure (tool_name call) (''apply_patch requer '' @ [CHR 0x27] @ ''patch'' @ [CHR 0x27]) [])
        else act_try (\<lambda>_. True) (act_bind (f_lift (parse_patch (str_default (pe_files env) call ''patch'' []))) (\<lambda>ops.
          act_bind (if fe_read_mode (pe_files env) = ''off'' then act_return (Inr []) else precheck_ops env call ops [])
            (apply_checked env call (flag_arg call ''dry_run'' False) ops)))
          (\<lambda>e. act_return (tool_failure (tool_name call) (exc_message (pe_files env) e) [])))
      (\<lambda>_. files_kept t0 (patch_area env)) (files_kept t0 (patch_area env))"
    by (intro contract_if contract_return contract_try [OF body])
qed

section \<open>The dry run\<close>

definition same_tree :: "tree \<Rightarrow> FileState \<Rightarrow> bool" where
  "same_tree t s \<longleftrightarrow> fs_tree s = t"

lemma same_tree_stays [act_rules]: "stays (same_tree t) (f_lift r)" "stays (same_tree t) (f_ledger f)"
  by (auto simp: stays_def same_tree_def f_lift_def f_ledger_def split: sum.splits prod.splits)

lemma same_guard [act_rules]: "stays (same_tree t) (read_guard env call p shown)"
  unfolding read_guard_def by (intro act_rules)

lemma same_checks [act_rules]: "stays (same_tree t) (check_paths env call ps ws)"
  by (induction env call ps ws rule: check_paths.induct) (auto simp: Let_def intro!: act_rules)

lemma same_precheck [act_rules]: "stays (same_tree t) (precheck_ops env call ops ws)"
  by (induction ops arbitrary: ws) (auto intro!: act_rules)

lemma stays_skip: "\<not> c \<Longrightarrow> stays P (act_when c m)"
  by (simp add: act_when_def stays_pure)

lemma same_dry_op [act_rules]: "stays (same_tree t) (apply_op env call True op)"
  unfolding apply_op_def apply_update_def
  by (cases op) (simp_all only: patch_op.case if_True, (intro stays_bind stays_then stays_pure stays_if stays_skip same_tree_stays; simp)+)

lemma dry_run_same: "stays (same_tree t) (apply_checked env call True ops r)"
  unfolding apply_checked_def by (intro act_rules)

section \<open>A workspace to evaluate\<close>

lemma lexical_fixed: "''..'' \<notin> set p \<Longrightarrow> lexical_resolve p = p"
proof (induction p rule: rev_induct)
  case (snoc c p)
  then show ?case by (auto simp: lexical_resolve_def)
qed (simp add: lexical_resolve_def)

lemma lexical_no_dots: "''..'' \<notin> set (lexical_resolve p)"
proof (induction p rule: rev_induct)
  case (snoc c p)
  then show ?case by (auto simp: lexical_resolve_def dest: in_set_butlastD)
qed (simp add: lexical_resolve_def)

definition stamp :: "nat \<Rightarrow> FileFingerprint" where
  "stamp n = \<lparr>fp_mtime_ns = int n, fp_ctime_ns = int n, fp_size = 0, fp_device = 1, fp_inode = int n\<rparr>"

definition sample_files :: FileEnv where
  "sample_files = \<lparr> fe_py = sample_py, fe_cwd = [''ws''], fe_staging = None, fe_read_roots = [[''ws'']], fe_resolve = lexical_resolve,
     fe_stamp = (\<lambda>n _. stamp (10 + n)), fe_dir_stat = (\<lambda>_. stamp 0), fe_race = (\<lambda>_. None), fe_now = (\<lambda>_. 0),
     fe_read_mode = ''enforce'', fe_max_read = 100, fe_message = (\<lambda>_. []) \<rparr>"

definition sample_patch_env :: PatchEnv where
  "sample_patch_env = \<lparr> pe_files = sample_files, pe_ratio = (\<lambda>_ _. 0), pe_percent = (\<lambda>_. ''0%'') \<rparr>"

definition sample_tree :: tree where
  "sample_tree = [([], Dir), ([''ws''], Dir), ([''ws'', ''a''], File ''x'' (stamp 1)), ([''ws'', ''b''], File ''y'' (stamp 2))]"

definition empty_ledger :: ReadLedger where
  "empty_ledger = \<lparr> rl_max_scopes = 64, rl_max_paths = 512, rl_scopes = [] \<rparr>"

definition sample_fstate :: FileState where
  "sample_fstate = \<lparr> fs_tree = sample_tree, fs_ledger = empty_ledger, fs_tick = 0 \<rparr>"

definition call_of :: "pystr \<Rightarrow> pystr \<Rightarrow> (pystr \<times> json) list \<Rightarrow> ToolCall" where
  "call_of run name args = \<lparr> tool_name = name, arguments = args, call_id = None,
     metadata = Some [(''trusted_context'', MetaJson (JObj [(''run_id'', JStr run)]))] \<rparr>"

definition read_call :: "pystr \<Rightarrow> ToolCall" where
  "read_call run = call_of run ''read_file'' [(''path'', JStr ''a'')]"

definition write_call :: "pystr \<Rightarrow> ToolCall" where
  "write_call run = call_of run ''write_file'' [(''path'', JStr ''a''), (''content'', JStr ''z''), (''replace_existing'', JBool True)]"

lemma sample_idempotent: "idempotent (pe_files sample_patch_env)" "fe_read_mode (pe_files sample_patch_env) = ''enforce''"
  by (simp_all add: idempotent_def sample_patch_env_def sample_files_def lexical_fixed lexical_no_dots)

lemma sample_ledger_ok: "ledger_ok (fs_ledger sample_fstate)" "known (fs_ledger sample_fstate) k p = None"
  by (simp_all add: ledger_ok_def sample_fstate_def empty_ledger_def keys_of_def known_def)

lemma sample_edit: "file_at (fs_tree (run_calls [(sample_patch_env, read_call ''r1'')] sample_fstate)) [''ws'', ''a''] = Some (''x'', stamp 1)"
  "file_at (fs_tree (run_calls [(sample_patch_env, read_call ''r1''), (sample_patch_env, write_call ''r1'')] sample_fstate)) [''ws'', ''a''] = Some (''z'', stamp 10)"
  by code_simp+

section \<open>Properties\<close>

text \<open>
  C27. No edit without a read. With \<open>read_before_edit = enforce\<close>, a file that a call of any file tool changes or
  removes was known to the same run, read or written by it, with the very fingerprint it had before.
\<close>

theorem edits_need_reading:
  assumes "idempotent (pe_files env)" "fe_read_mode (pe_files env) = ''enforce''" "ledger_ok (fs_ledger s)"
    "file_at (fs_tree s) p = Some (c, f)" "file_at (fs_tree (snd (run_file_tool env call s))) p \<noteq> Some (c, f)"
  shows "\<exists>e. known (fs_ledger s) (py_strip (ledger_scope call)) p = Some e \<and> le_fingerprint e = f"
  using blind_edit_kept [OF run_tool_safe [OF assms(1,2)] assms(3,4)] assms(5) by (auto simp: seen_by_def)

theorem edits_need_reading_witness:
  "\<exists>e. known (fs_ledger (run_calls [(sample_patch_env, read_call ''r1'')] sample_fstate)) (py_strip (ledger_scope (write_call ''r1''))) [''ws'', ''a''] =
     Some e \<and> le_fingerprint e = stamp 1"
proof (rule edits_need_reading [OF sample_idempotent])
  show "ledger_ok (fs_ledger (run_calls [(sample_patch_env, read_call ''r1'')] sample_fstate))"
    using run_calls_unknown [OF sample_ledger_ok, of "[(sample_patch_env, read_call ''r1'')]" "''none''"] by code_simp
qed (use sample_edit in \<open>simp_all add: stamp_def\<close>)

text \<open>
  What a run knows is its own: starting with an empty ledger, after any calls of other runs (reads included),
  a first call of a run leaves every existing file as it is.
\<close>

theorem fresh_run_edits_nothing:
  assumes "idempotent (pe_files env)" "fe_read_mode (pe_files env) = ''enforce''" "new_ledger a b = Inr (fs_ledger s)"
    "\<forall>c \<in> set calls. py_strip (ledger_scope (snd c)) \<noteq> py_strip (ledger_scope call)"
    "file_at (fs_tree (run_calls calls s)) p = Some (c, f)"
  shows "file_at (fs_tree (snd (run_file_tool env call (run_calls calls s)))) p = Some (c, f)"
proof -
  note start = new_ledger_ok [OF assms(3)]
  note unknown = run_calls_unknown [OF conjunct1 [OF start] conjunct2 [OF start] assms(4)]
  show ?thesis
    by (rule blind_edit_kept [OF run_tool_safe [OF assms(1,2)] conjunct1 [OF unknown] assms(5)])
      (use unknown in \<open>simp add: seen_by_def\<close>)
qed

theorem fresh_run_edits_nothing_witness:
  "file_at (fs_tree (snd (run_file_tool sample_patch_env (write_call ''r2'')
     (run_calls [(sample_patch_env, read_call ''r1'')] sample_fstate)))) [''ws'', ''a''] = Some (''x'', stamp 1)"
proof (rule fresh_run_edits_nothing [OF sample_idempotent, where a = 64 and b = 512])
  show "new_ledger 64 512 = Inr (fs_ledger sample_fstate)" by (simp add: new_ledger_def sample_fstate_def empty_ledger_def)
  show "\<forall>c \<in> set [(sample_patch_env, read_call ''r1'')]. py_strip (ledger_scope (snd c)) \<noteq> py_strip (ledger_scope (write_call ''r2''))"
    by code_simp
qed (rule sample_edit)

text \<open>
  C28. The ledger stays well formed: whatever tools are called in whatever order, no scope and no path is recorded twice
  and neither the number of scopes nor that of the paths of a scope exceeds its limit.
\<close>

theorem ledger_well_formed:
  assumes "new_ledger a b = Inr (fs_ledger s)"
  shows "ledger_ok (fs_ledger (run_calls calls s))"
proof -
  have step: "ledger_ok (fs_ledger (snd (run_file_tool env call s)))" if "ledger_ok (fs_ledger s)" for env call s
  proof -
    have "knows_at_most (fs_ledger s) (py_strip (ledger_scope call)) s" using that by (simp add: knows_at_most_def)
    then have "knows_at_most (fs_ledger s) (py_strip (ledger_scope call)) (snd (run_file_tool env call s))"
      using run_tool_stays [of "fs_ledger s" call env] unfolding stays_def by blast
    then show ?thesis unfolding knows_at_most_def by blast
  qed
  have "ledger_ok (fs_ledger s) \<Longrightarrow> ledger_ok (fs_ledger (run_calls calls s))" for s
  proof (induction calls arbitrary: s)
    case (Cons c calls)
    then show ?case using step [of s "fst c" "snd c"] by simp
  qed simp
  then show ?thesis using new_ledger_ok [OF assms] by blast
qed

theorem ledger_well_formed_witness:
  "ledger_ok (fs_ledger (run_calls [(sample_patch_env, read_call ''r1''), (sample_patch_env, write_call ''r1'')] sample_fstate))"
  by (rule ledger_well_formed [where a = 64 and b = 512]) (simp add: new_ledger_def sample_fstate_def empty_ledger_def)

text \<open>C29. Writes, replacements and removals stay inside the workspace or the staging area, links resolved.\<close>

theorem edits_stay_inside:
  assumes "tool_name call \<in> {''write_file'', ''replace_text'', ''remove_file''}"
    "file_at (fs_tree (snd (run_file_tool env call s))) p \<noteq> file_at (fs_tree s) p"
  shows "mutable_area (pe_files env) p"
proof (rule ccontr)
  assume out: "\<not> mutable_area (pe_files env) p"
  have "file_at (fs_tree (snd (run_file_tool env call s))) p = file_at (fs_tree s) p"
    using assms(1) changes_withinD [OF edits_within(1) out] changes_withinD [OF edits_within(2) out] changes_withinD [OF edits_within(3) out]
    by (auto simp: run_file_tool_def Let_def)
  with assms(2) show False by simp
qed

theorem edits_stay_inside_witness:
  "mutable_area (pe_files sample_patch_env) [''ws'', ''a'']"
proof (rule edits_stay_inside [where call = "write_call ''r1''" and s = "run_calls [(sample_patch_env, read_call ''r1'')] sample_fstate"])
  show "tool_name (write_call ''r1'') \<in> {''write_file'', ''replace_text'', ''remove_file''}"
    by (simp add: write_call_def call_of_def)
qed (use sample_edit in \<open>simp add: stamp_def\<close>)

definition plain_name :: "pystr \<Rightarrow> bool" where
  "plain_name n \<longleftrightarrow> n \<noteq> [] \<and> CHR ''/'' \<notin> set n \<and> n \<noteq> ''.'' \<and> n \<noteq> ''..''"

lemma split_plain: "CHR ''/'' \<notin> set n \<Longrightarrow> split_char (CHR ''/'') (n @ CHR ''/'' # rest) = n # split_char (CHR ''/'') rest"
  by (induction n) auto

lemma split_plain_end: "CHR ''/'' \<notin> set n \<Longrightarrow> split_char (CHR ''/'') n = [n]"
  by (induction n) auto

lemma sibling_path:
  assumes "fe_resolve env = lexical_resolve" "base_path env = dir @ [name]" "''..'' \<notin> set dir" "plain_name name" "plain_name (name @ ext)"
  shows "fe_resolve env (joined (base_path env) (''../'' @ (name @ ext) @ ''/f'')) = dir @ [name @ ext, ''f'']"
proof -
  have slash: "CHR ''/'' \<notin> set (name @ ext)" using assms(5) by (simp add: plain_name_def)
  have "split_char (CHR ''/'') (''../'' @ (name @ ext) @ ''/f'') = [''..'', name @ ext, ''f'']"
    using split_plain [OF slash, of "''f''"] by simp
  then have "path_parts (strip_slashes (''../'' @ (name @ ext) @ ''/f'')) = [''..'', name @ ext, ''f'']"
    using assms(5) by (simp add: path_parts_def strip_slashes_def plain_name_def)
  moreover have "lexical_resolve (dir @ [name] @ [''..'', name @ ext, ''f'']) = dir @ [name @ ext, ''f'']"
    using lexical_fixed [OF assms(3)] assms(4,5) by (simp add: lexical_resolve_def plain_name_def)
  ultimately show ?thesis using assms(1,2) by (simp add: joined_def)
qed

text \<open>
  C38. The patch tool does not stay inside the workspace: it compares texts, so a sibling directory whose name extends the name of the
  workspace passes. The other tools refuse the same path.
\<close>

theorem patch_leaves_workspace:
  assumes "fe_resolve (pe_files env) = lexical_resolve" "fe_staging (pe_files env) = None" "fe_cwd (pe_files env) = dir @ [name]"
    "''..'' \<notin> set dir" "plain_name name" "plain_name (name @ ext)" "ext \<noteq> []"
  shows "patch_resolve env (''../'' @ (name @ ext) @ ''/f'') = Inr (dir @ [name @ ext, ''f'']) \<and>
     resolve_mutable (pe_files env) (''../'' @ (name @ ext) @ ''/f'') = Inl (ValueErr (outside_text (''../'' @ (name @ ext) @ ''/f'')))"
proof -
  have base: "base_path (pe_files env) = dir @ [name]" using assms(2,3) by (simp add: base_path_def)
  note sib = sibling_path [OF assms(1) base assms(4-6)]
  have "prefix (path_text (dir @ [name])) (path_text (dir @ [name @ ext, ''f'']))"
    by (simp add: path_text_def prefix_def)
  then have ok: "patch_resolve env (''../'' @ (name @ ext) @ ''/f'') = Inr (dir @ [name @ ext, ''f''])"
    using sib by (simp add: patch_resolve_def Let_def base)
  have "\<not> prefix (dir @ [name]) (dir @ [name @ ext, ''f''])" using assms(7) by (simp add: prefix_def)
  moreover have "lexical_resolve (dir @ [name]) = dir @ [name]" "lexical_resolve (dir @ [name @ ext, ''f'']) = dir @ [name @ ext, ''f'']"
    using assms(4-6) by (auto simp: plain_name_def intro!: lexical_fixed)
  ultimately show ?thesis
    using ok sib assms(1-3) by (simp add: resolve_mutable_def Let_def base is_path_inside_def)
qed

theorem patch_leaves_workspace_witness:
  "patch_resolve sample_patch_env ''../ws2/f'' = Inr [''ws2'', ''f''] \<and> \<not> prefix (fe_cwd sample_files) [''ws2'', ''f'']"
  using patch_leaves_workspace [of sample_patch_env "[]" "''ws''" "''2''"]
  by (simp add: sample_patch_env_def sample_files_def plain_name_def)

text \<open>A dry run of a patch changes no file, whatever the patch and whatever the outcome.\<close>

theorem dry_run_changes_nothing:
  assumes "flag_arg call ''dry_run'' False"
  shows "fs_tree (snd (apply_patch env call s)) = fs_tree s"
proof -
  have "stays (same_tree (fs_tree s)) (apply_patch env call)"
    unfolding apply_patch_def precheck_reads_def Let_def using assms by (simp only: if_True, intro act_rules) (simp add: dry_run_same)
  then show ?thesis by (auto simp: stays_def same_tree_def)
qed

definition delete_call :: "bool \<Rightarrow> ToolCall" where
  "delete_call dry = call_of ''r1'' ''apply_patch'' [(''dry_run'', JBool dry), (''patch'', JStr (join_lines
     [begin_line, delete_mark @ ''a'', end_line]))]"

theorem dry_run_changes_nothing_witness:
  "fs_tree (snd (apply_patch sample_patch_env (delete_call True) (run_calls [(sample_patch_env, read_call ''r1'')] sample_fstate))) =
     fs_tree (run_calls [(sample_patch_env, read_call ''r1'')] sample_fstate)"
  by (rule dry_run_changes_nothing) (simp add: delete_call_def call_of_def flag_arg_def arg_def)

end
