(* ===== verification/Patch_Guarantees.thy ===== *)
theory Patch_Guarantees
  imports File_Safety
begin

text \<open>
  Patches as texts: which texts are patches, what printing and parsing keep, where hunks go, which files survive
  a patch line by line, and what a failing patch leaves behind.
\<close>

section \<open>Lines\<close>

definition line_free :: "pystr \<Rightarrow> bool" where
  "line_free l \<longleftrightarrow> (\<forall>c \<in> set l. \<not> line_end c)"

lemma line_free_simps [simp]: "line_free []" "line_free (c # l) \<longleftrightarrow> \<not> line_end c \<and> line_free l"
  "line_free (k @ l) \<longleftrightarrow> line_free k \<and> line_free l"
  by (auto simp: line_free_def)

lemma line_end_LF [simp]: "line_end (CHR 0x0A)"
  by (simp add: line_end_def)

lemma join_lines_simps: "join_lines [] = []" "join_lines (l # ls) = l @ CHR 0x0A # join_lines ls"
  by (cases ls; simp add: join_lines_def)+

lemma splitlines_step: "line_free l \<Longrightarrow> splitlines_from line (l @ CHR 0x0A # rest) = (line @ l) # splitlines_from [] rest"
  by (induction l arbitrary: line) auto

lemma splitlines_join: "\<forall>l \<in> set ls. line_free l \<Longrightarrow> py_splitlines (join_lines ls) = ls"
  by (induction ls) (auto simp: py_splitlines_def join_lines_simps splitlines_step)

lemma splitlines_free: "line_free line \<Longrightarrow> l \<in> set (splitlines_from line t) \<Longrightarrow> line_free l"
proof (induction line t rule: splitlines_from.induct)
  case (2 line c cs)
  show ?case
  proof (cases "line_end c")
    case True
    then have "l = line \<or> l \<in> set (splitlines_from [] (if c = CHR 0x0D \<and> cs \<noteq> [] \<and> hd cs = CHR 0x0A then tl cs else cs))"
      using "2.prems"(2) by simp
    then show ?thesis using "2.IH"(1) [OF True] "2.prems"(1) by auto
  next
    case False
    then show ?thesis using "2.IH"(2) [OF False] "2.prems" by simp
  qed
qed (simp split: if_splits)

lemma join_splitlines:
  "\<forall>c \<in> set t. line_end c \<longrightarrow> c = CHR 0x0A \<Longrightarrow> t = [] \<and> line = [] \<or> t \<noteq> [] \<and> last t = CHR 0x0A \<Longrightarrow>
    join_lines (splitlines_from line t) = line @ t"
proof (induction line t rule: splitlines_from.induct)
  case (2 line c cs)
  have last: "cs = [] \<and> c = CHR 0x0A \<or> cs \<noteq> [] \<and> last cs = CHR 0x0A" using "2.prems"(2) by (cases cs) simp_all
  have cs: "\<forall>d \<in> set cs. line_end d \<longrightarrow> d = CHR 0x0A" using "2.prems"(1) by simp
  show ?case
  proof (cases "line_end c")
    case True
    then have c: "c = CHR 0x0A" using "2.prems"(1) by simp
    then have "join_lines (splitlines_from [] cs) = cs" using "2.IH"(1) [OF True] cs last by auto
    then show ?thesis using c by (simp add: join_lines_simps)
  next
    case False
    then have "cs \<noteq> []" using last by auto
    then show ?thesis using "2.IH"(2) [OF False cs] last False by simp
  qed
qed (simp add: join_lines_simps)

lemma join_lines_chars: "c \<in> set (join_lines ls) \<Longrightarrow> c = CHR 0x0A \<or> (\<exists>l \<in> set ls. c \<in> set l)"
  by (induction ls) (auto simp: join_lines_simps)

lemma join_lines_last: "join_lines ls = [] \<or> last (join_lines ls) = CHR 0x0A"
  by (cases "ls = []") (simp_all add: join_lines_def)

section \<open>Printing\<close>

definition print_op :: "patch_op \<Rightarrow> pystr list" where
  "print_op op = (case op of
     AddFile p c \<Rightarrow> (add_mark @ p) # map (\<lambda>l. CHR ''+'' # l) (py_splitlines c)
   | DeleteFile p \<Rightarrow> [delete_mark @ p]
   | UpdateFile p hunks m \<Rightarrow> (update_mark @ p) # (case m of None \<Rightarrow> [] | Some t \<Rightarrow> [move_mark @ t]) @
       concat (map (\<lambda>h. ''@@'' # h) hunks))"

definition print_patch :: "patch_op list \<Rightarrow> pystr" where
  "print_patch ops = join_lines (begin_line # concat (map print_op ops) @ [end_line])"

definition path_ok :: "pystr \<Rightarrow> bool" where
  "path_ok p \<longleftrightarrow> py_strip p = p \<and> line_free p"

definition hunk_ok :: "pystr list \<Rightarrow> bool" where
  "hunk_ok h \<longleftrightarrow> h \<noteq> [] \<and> (\<forall>l \<in> set h. l \<noteq> [] \<and> hd l \<in> {CHR '' '', CHR ''+'', CHR ''-''} \<and> line_free l)"

definition op_ok :: "patch_op \<Rightarrow> bool" where
  "op_ok op \<longleftrightarrow> path_ok (op_path op) \<and> (case op of
     AddFile _ c \<Rightarrow> join_lines (py_splitlines c) = c
   | DeleteFile _ \<Rightarrow> True
   | UpdateFile _ hunks m \<Rightarrow> hunks \<noteq> [] \<and> (\<forall>h \<in> set hunks. hunk_ok h) \<and> (case m of None \<Rightarrow> True | Some t \<Rightarrow> path_ok t))"

lemmas marks = add_mark_def delete_mark_def update_mark_def move_mark_def begin_line_def end_line_def eof_line_def marked_def

lemma after_mark_same: "path_ok p \<Longrightarrow> after_mark mark (mark @ p) = p"
  by (simp add: after_mark_def path_ok_def)

lemma while_marks:
  assumes "\<forall>x \<in> set xs. \<not> marked x" "rest = [] \<or> marked (hd rest)"
  shows "takeWhile (\<lambda>l. \<not> marked l) (xs @ rest) = xs" "dropWhile (\<lambda>l. \<not> marked l) (xs @ rest) = rest"
proof -
  have "takeWhile (\<lambda>l. \<not> marked l) rest = []" "dropWhile (\<lambda>l. \<not> marked l) rest = rest"
    using assms(2) by (cases rest; simp)+
  then show "takeWhile (\<lambda>l. \<not> marked l) (xs @ rest) = xs" "dropWhile (\<lambda>l. \<not> marked l) (xs @ rest) = rest"
    using assms(1) by (induction xs) auto
qed

lemma added_lines: "map_res added_line (map (\<lambda>l. CHR ''+'' # l) ls) = Inr ls"
  by (induction ls) (simp_all add: added_line_def)

lemma hunk_line: "hunk_ok h \<Longrightarrow> l \<in> set h \<Longrightarrow> \<not> marked l \<and> \<not> prefix ''@@'' l \<and> l \<noteq> eof_line \<and> l \<noteq> [] \<and> hd l \<in> {CHR '' '', CHR ''+'', CHR ''-''}"
  by (cases l) (auto simp: hunk_ok_def marks)

lemma read_one_hunk:
  "\<forall>l \<in> set h. \<not> prefix ''@@'' l \<and> l \<noteq> eof_line \<and> l \<noteq> [] \<and> hd l \<in> {CHR '' '', CHR ''+'', CHR ''-''} \<Longrightarrow>
    read_hunks (h @ lines) hunks current = read_hunks lines hunks (current @ h)"
  by (induction h arbitrary: current) auto

lemma read_printed_hunks:
  "\<forall>h \<in> set hs. hunk_ok h \<Longrightarrow> current = [] \<or> current \<noteq> [] \<Longrightarrow>
    read_hunks (concat (map (\<lambda>h. ''@@'' # h) hs)) hunks current =
      Inr (hunks @ (if current \<noteq> [] then [current] else []) @ hs)"
proof (induction hs arbitrary: hunks current)
  case (Cons h hs)
  then have "hunk_ok h" by simp
  then have "h \<noteq> []" by (simp add: hunk_ok_def)
  have "read_hunks (h @ concat (map (\<lambda>h. ''@@'' # h) hs)) ks [] = read_hunks (concat (map (\<lambda>h. ''@@'' # h) hs)) ks h" for ks
    using read_one_hunk [of h] hunk_line [OF \<open>hunk_ok h\<close>] by simp
  then show ?case using Cons \<open>h \<noteq> []\<close> by (auto simp: eof_line_def)
qed simp

lemma parse_printed:
  assumes "op_ok op" "rest = [] \<or> marked (hd rest)"
  shows "parse_ops (print_op op @ rest) = bind_res (parse_ops rest) (\<lambda>ops. Inr (op # ops))"
proof (cases op)
  case (AddFile p c)
  have "\<forall>x \<in> set (map (\<lambda>l. CHR ''+'' # l) (py_splitlines c)). \<not> marked x" by (auto simp: marks)
  note w = while_marks [OF this assms(2)]
  show ?thesis using assms(1)
    by (simp add: AddFile print_op_def w added_lines op_ok_def op_path_def after_mark_same)
next
  case (DeleteFile p)
  then show ?thesis using assms(1) by (simp add: print_op_def op_ok_def op_path_def after_mark_same) (simp add: marks)
next
  case (UpdateFile p hs m)
  let ?body = "concat (map (\<lambda>h. ''@@'' # h) hs)"
  have hs: "\<forall>h \<in> set hs. hunk_ok h" "hs \<noteq> []" using assms(1) by (auto simp: UpdateFile op_ok_def)
  have "\<forall>x \<in> set ?body. \<not> marked x" using hunk_line hs(1) by (auto simp: marks)
  note w = while_marks [OF this assms(2)]
  obtain bs where body: "?body = ''@@'' # bs" using hs(2) by (cases hs) auto
  have at: "\<not> prefix move_mark ''@@''" by (simp add: marks)
  have lines: "move_target ((case m of None \<Rightarrow> [] | Some t \<Rightarrow> [move_mark @ t]) @ ?body @ rest) = m"
    "hunk_lines ((case m of None \<Rightarrow> [] | Some t \<Rightarrow> [move_mark @ t]) @ ?body @ rest) = ?body @ rest"
    using assms(1) at unfolding body
    by (cases m; simp add: UpdateFile op_ok_def move_target_def hunk_lines_def after_mark_same)+
  have upd: "update_op p m ?body = Inr op"
    using read_printed_hunks [OF hs(1), of "[]" "[]"] hs(2) by (simp add: update_op_def UpdateFile)
  show ?thesis using assms(1) lines w upd
    by (simp add: UpdateFile print_op_def op_ok_def op_path_def after_mark_same) (simp add: marks)
qed

lemma parse_print_ops: "\<forall>op \<in> set ops. op_ok op \<Longrightarrow> parse_ops (concat (map print_op ops)) = Inr ops"
proof (induction ops)
  case (Cons op ops)
  have "concat (map print_op ops) = [] \<or> marked (hd (concat (map print_op ops)))"
    by (cases ops) (auto simp: print_op_def marks split: patch_op.split)
  then show ?case using Cons parse_printed [of op "concat (map print_op ops)"] by simp
qed simp

lemma print_free: "op_ok op \<Longrightarrow> l \<in> set (print_op op) \<Longrightarrow> line_free l"
proof -
  assume op: "op_ok op" and l: "l \<in> set (print_op op)"
  have mark: "line_free add_mark" "line_free delete_mark" "line_free update_mark" "line_free move_mark" "line_free ''@@''"
    by (simp_all add: marks line_end_def)
  show "line_free l"
  proof (cases op)
    case (AddFile p c)
    then show ?thesis using op l mark splitlines_free [of "[]" _ c]
      by (auto simp: print_op_def op_ok_def op_path_def path_ok_def py_splitlines_def line_end_def)
  qed (use op l mark in \<open>auto simp: print_op_def op_ok_def op_path_def path_ok_def hunk_ok_def split: option.splits\<close>)
qed

section \<open>The marker of the end of a file\<close>

lemma not_takeWhile: "x \<in> set xs \<Longrightarrow> x \<notin> set (takeWhile P xs) \<Longrightarrow> x \<in> set (dropWhile P xs)"
  by (metis Un_iff set_append takeWhile_dropWhile_id)

lemma eof_unmarked: "x \<in> set (takeWhile (\<lambda>l. \<not> marked l) lines) \<Longrightarrow> x \<noteq> eof_line"
  by (auto dest: set_takeWhileD simp: marks)

lemma parse_without_eof: "parse_ops lines = Inr ops \<Longrightarrow> eof_line \<notin> set lines"
proof (induction lines arbitrary: ops rule: parse_ops.induct)
  case (2 line lines)
  have "line \<noteq> eof_line" using "2.prems" by (auto simp: marks)
  have rest: "eof_line \<in> set ls \<Longrightarrow> eof_line \<in> set (dropWhile (\<lambda>l. \<not> marked l) ls)" for ls
    using not_takeWhile eof_unmarked by metis
  consider (add) "prefix add_mark line" | (delete) "\<not> prefix add_mark line" "prefix delete_mark line"
    | (update) "\<not> prefix add_mark line" "\<not> prefix delete_mark line" "prefix update_mark line"
    using "2.prems" by (auto split: if_splits)
  then show ?case
  proof cases
    case add
    then have "eof_line \<notin> set (dropWhile (\<lambda>l. \<not> marked l) lines)" using "2.prems" "2.IH"(1) by (auto simp: bind_res_Inr)
    then show ?thesis using rest \<open>line \<noteq> eof_line\<close> by auto
  next
    case delete
    then show ?thesis using "2.prems" "2.IH"(2) \<open>line \<noteq> eof_line\<close> by (auto simp: bind_res_Inr)
  next
    case update
    then have "eof_line \<notin> set (dropWhile (\<lambda>l. \<not> marked l) (hunk_lines lines))" using "2.prems" "2.IH"(3) by (auto simp: bind_res_Inr)
    then have "eof_line \<notin> set (hunk_lines lines)" using rest by blast
    moreover have "eof_line \<in> set lines \<Longrightarrow> eof_line \<in> set (hunk_lines lines)"
      by (auto simp: hunk_lines_def move_target_def marks split: list.splits if_splits)
    ultimately show ?thesis using \<open>line \<noteq> eof_line\<close> by auto
  qed
qed simp

section \<open>Where hunks go\<close>

text \<open>
  The reference: the old lines of the hunks stand in the file one after the other, without overlap, and are
  replaced by the new ones; the lines between them stay.
\<close>

fun edited :: "pystr list list \<Rightarrow> pystr list \<Rightarrow> pystr list \<Rightarrow> bool" where
  "edited [] ls ls' \<longleftrightarrow> ls' = ls"
| "edited (h # hs) ls ls' \<longleftrightarrow> (\<exists>gap rest rest'. ls = gap @ old_lines h @ rest \<and> ls' = gap @ new_lines h @ rest' \<and> edited hs rest rest')"

lemma find_range_Some:
  assumes "find P [a ..< b] = Some i"
  shows "a \<le> i \<and> i < b \<and> P i \<and> (\<forall>j. a \<le> j \<longrightarrow> j < i \<longrightarrow> \<not> P j)"
proof -
  obtain k where k: "k < b - a" "P (a + k)" "\<forall>j < k. \<not> P (a + j)" "i = a + k" using assms by (auto simp: find_Some_iff)
  have "\<not> P j" if "a \<le> j" "j < i" for j
  proof -
    have "j - a < k" "a + (j - a) = j" using that k(4) by auto
    then show ?thesis using k(3) by metis
  qed
  then show ?thesis using k by auto
qed

lemma subsequence_Some:
  assumes "find_subsequence (pre @ ls) old (length pre) = Some i"
  shows "\<exists>gap rest. ls = gap @ old @ rest \<and> i = length pre + length gap \<and>
     (\<forall>g r. ls = g @ old @ r \<longrightarrow> length gap \<le> length g)"
proof (cases "old = []")
  case True
  with assms show ?thesis by (intro exI [of _ "[]"] exI [of _ ls]) (simp add: find_subsequence_def)
next
  case False
  note found = find_range_Some [OF assms [unfolded find_subsequence_def, simplified False if_False]]
  then have here: "take (length old) (drop (i - length pre) ls) = old" by (auto simp: drop_all)
  have "length gap \<le> length g" if "gap = take (i - length pre) ls" "ls = g @ old @ r" for g r gap
  proof (rule ccontr)
    assume "\<not> length gap \<le> length g"
    then have "length pre + length g < i" using that(1) by auto
    moreover have "take (length old) (drop (length pre + length g) (pre @ ls)) = old" using that(2) by simp
    ultimately show False using found by (metis le_add1)
  qed
  moreover have "ls = take (i - length pre) ls @ old @ drop (length old) (drop (i - length pre) ls)"
    by (metis append_take_drop_id here)
  moreover have "i - length pre \<le> length ls" using found by auto
  ultimately show ?thesis using found
    by (intro exI [of _ "take (i - length pre) ls"] exI [of _ "drop (length old) (drop (i - length pre) ls)"]) auto
qed

lemma subsequence_None:
  assumes "find_subsequence (pre @ ls) old (length pre) = None"
  shows "ls \<noteq> g @ old @ r"
proof
  assume ls: "ls = g @ old @ r"
  have "old \<noteq> []" using assms by (auto simp: find_subsequence_def)
  then have "length pre + length g \<in> set [length pre ..< length (pre @ ls) + 1 - length old]" by (simp add: ls)
  moreover have "take (length old) (drop (length pre + length g) (pre @ ls)) = old" by (simp add: ls)
  ultimately show False using assms by (auto simp: find_subsequence_def find_None_iff split: if_splits)
qed

lemma hunk_step:
  assumes "find_subsequence (pre @ ls) (old_lines h) (length pre) = Some i" "ls = gap @ old_lines h @ rest" "i = length pre + length gap"
  shows "apply_hunks env path (h # hs) (pre @ ls) (length pre) =
    apply_hunks env path hs ((pre @ gap @ new_lines h) @ rest) (length (pre @ gap @ new_lines h))"
proof -
  have "take i (pre @ ls) @ new_lines h @ drop (i + length (old_lines h)) (pre @ ls) = (pre @ gap @ new_lines h) @ rest"
    by (simp add: assms(2,3))
  moreover have "i + length (new_lines h) = length (pre @ gap @ new_lines h)" by (simp add: assms(3))
  ultimately show ?thesis by (simp only: apply_hunks.simps Let_def assms(1) option.case)
qed

lemma apply_hunks_edited:
  "apply_hunks env path hs (pre @ ls) (length pre) = Inr r \<Longrightarrow> \<exists>r'. r = pre @ r' \<and> edited hs ls r'"
proof (induction hs arbitrary: pre ls)
  case (Cons h hs)
  then obtain i where i: "find_subsequence (pre @ ls) (old_lines h) (length pre) = Some i"
    by (auto simp: Let_def split: option.splits)
  from subsequence_Some [OF i] obtain gap rest where gap: "ls = gap @ old_lines h @ rest" "i = length pre + length gap" by blast
  have "apply_hunks env path hs ((pre @ gap @ new_lines h) @ rest) (length (pre @ gap @ new_lines h)) = Inr r"
    using Cons.prems unfolding hunk_step [OF i gap] .
  from Cons.IH [OF this] obtain r' where r': "r = (pre @ gap @ new_lines h) @ r'" "edited hs rest r'" by blast
  then have "edited (h # hs) ls (gap @ new_lines h @ r')" using gap(1) by auto
  with r'(1) show ?case by (metis append.assoc)
qed simp

lemma edited_more: "edited hs rest r \<Longrightarrow> \<exists>r'. edited hs (g @ rest) r'"
proof (cases hs)
  case (Cons h hs')
  moreover assume "edited hs rest r"
  ultimately obtain gap a b where "rest = gap @ old_lines h @ a" "edited hs' a b" by auto
  then have "edited hs (g @ rest) ((g @ gap) @ new_lines h @ b)" unfolding Cons edited.simps by (metis append.assoc)
  then show ?thesis by blast
qed simp

lemma edited_applies: "edited hs ls r \<Longrightarrow> \<exists>r'. apply_hunks env path hs (pre @ ls) (length pre) = Inr r'"
proof (induction hs arbitrary: pre ls r)
  case (Cons h hs)
  then obtain g a b where g: "ls = g @ old_lines h @ a" "edited hs a b" by auto
  then obtain i where i: "find_subsequence (pre @ ls) (old_lines h) (length pre) = Some i" using subsequence_None by blast
  from subsequence_Some [OF i] obtain gap rest where gap: "ls = gap @ old_lines h @ rest" "i = length pre + length gap"
    and least: "length gap \<le> length g" using g(1) by blast
  have "\<exists>k. rest = k @ a"
  proof -
    have "(gap @ old_lines h) @ rest = (g @ old_lines h) @ a" using gap(1) g(1) by simp
    from arg_cong [OF this, of "drop (length (gap @ old_lines h))"]
    have "rest = drop (length (gap @ old_lines h)) (g @ old_lines h) @ a" using least by simp
    then show ?thesis by blast
  qed
  then obtain b' where "edited hs rest b'" using edited_more g(2) by blast
  from Cons.IH [OF this, of "pre @ gap @ new_lines h"] show ?case unfolding hunk_step [OF i gap] .
qed simp


section \<open>A failing operation\<close>

lemma act_each_stop:
  "act_each f xs s = (Inr ys, t) \<Longrightarrow> f x t = (Inl e, u) \<Longrightarrow> act_each f (xs @ x # rest) s = (Inl e, u)"
  by (induction xs arbitrary: s ys) (auto simp: act_bind_def act_return_def split: prod.splits sum.splits)

section \<open>Properties\<close>

text \<open>
  C31. Printing and parsing: the text of a list of operations, its paths without white space around them, its
  hunks not empty and its contents lines ended by line feeds, is parsed to that list.
\<close>

theorem patch_roundtrip:
  assumes "\<forall>op \<in> set ops. op_ok op"
  shows "parse_patch (print_patch ops) = Inr ops"
proof -
  have "line_free begin_line" "line_free end_line" by (simp_all add: begin_line_def end_line_def line_end_def)
  then have "py_splitlines (print_patch ops) = begin_line # concat (map print_op ops) @ [end_line]"
    unfolding print_patch_def by (intro splitlines_join) (use assms print_free in auto)
  then show ?thesis using parse_print_ops [OF assms] by (simp add: parse_patch_def Let_def butlast_append)
qed

definition sample_ops :: "patch_op list" where
  "sample_ops = [AddFile ''d/n'' (join_lines [''1'', []]), UpdateFile ''a'' [['' x'', ''-y'', ''+z''], [''+'']] (Some ''b''), DeleteFile ''c'']"

theorem patch_roundtrip_witness: "parse_patch (print_patch sample_ops) = Inr sample_ops"
  by (rule patch_roundtrip) code_simp

text \<open>
  The parser takes a line \<open>*** End of File\<close> for the mark of an operation it does not know: no patch with
  that line is accepted, for all that the loop over hunks has a branch that skips it.
\<close>

theorem end_marker_never_accepted:
  assumes "parse_patch patch = Inr ops"
  shows "eof_line \<notin> set (py_splitlines patch)"
proof -
  let ?ls = "py_splitlines patch"
  have ls: "?ls \<noteq> []" "hd ?ls = begin_line" "last ?ls = end_line" "parse_ops (butlast (tl ?ls)) = Inr ops"
    using assms by (auto simp: parse_patch_def Let_def split: if_splits)
  have "set ?ls \<subseteq> {hd ?ls, last ?ls} \<union> set (butlast (tl ?ls))"
    by (cases ?ls) (auto simp: in_set_butlast_appendI dest: append_butlast_last_id split: if_splits,
      metis append_butlast_last_id in_set_conv_decomp rotate1.simps(2) set_ConsD set_rotate1)
  then show ?thesis using ls parse_without_eof [OF ls(4)] by (auto simp: begin_line_def end_line_def eof_line_def)
qed

theorem end_marker_never_accepted_witness:
  "eof_line \<notin> set (py_splitlines (print_patch [DeleteFile ''c'']))"
  by (rule end_marker_never_accepted [where ops = "[DeleteFile ''c'']"]) code_simp

text \<open>
  C30. Hunks: the lines after an update are the lines before with the old lines of the hunks, found one after the other
  and without overlap, replaced by the new ones and nothing else changed; the update fails only where there
  are no such places, so the search from the left misses none.
\<close>

theorem hunks_exact:
  "case apply_hunks env path hunks lines 0 of
     Inr result \<Rightarrow> edited hunks lines result
   | Inl e \<Rightarrow> (\<nexists>result. edited hunks lines result)"
  using apply_hunks_edited [of env path hunks "[]" lines] edited_applies [of hunks lines _ env path "[]"]
  by (fastforce split: sum.splits)

text \<open>
  What an update that changes no line writes back is the text it read exactly when every line end of it is a line
  feed and the last line has one: form feeds, vertical tabs and other separators become line feeds, and a missing
  one is added.
\<close>

theorem untouched_text_survives:
  "join_lines (py_splitlines t) = t \<longleftrightarrow> set (filter line_end t) \<subseteq> {CHR 0x0A} \<and> (t = [] \<or> last t = CHR 0x0A)"
proof (cases "set (filter line_end t) \<subseteq> {CHR 0x0A} \<and> (t = [] \<or> last t = CHR 0x0A)")
  case True
  then have "join_lines (splitlines_from [] t) = [] @ t" by (intro join_splitlines) auto
  with True show ?thesis by (simp add: py_splitlines_def)
next
  case False
  have "set (filter line_end t) \<subseteq> {CHR 0x0A} \<and> (t = [] \<or> last t = CHR 0x0A)" if "join_lines (py_splitlines t) = t"
  proof -
    have "line_free l" if "l \<in> set (py_splitlines t)" for l
      using that splitlines_free [of "[]" l t] by (simp add: py_splitlines_def)
    then show ?thesis using join_lines_chars [of _ "py_splitlines t"] join_lines_last [of "py_splitlines t"] that
      by (auto simp: line_free_def)
  qed
  with False show ?thesis by blast
qed

text \<open>
  A patch is not atomic: when an operation fails the call reports its error alone, with no list of the files already
  changed, and the state is the one the operations before it left.
\<close>

theorem patch_is_not_atomic:
  assumes "py_strip (str_default (pe_files env) call ''patch'' []) \<noteq> []"
    "parse_patch (str_default (pe_files env) call ''patch'' []) = Inr (ops @ op # rest)"
    "precheck_reads env call (ops @ op # rest) s = (Inr (Inr warnings), s1)"
    "act_each (apply_op env call (flag_arg call ''dry_run'' False)) ops s1 = (Inr names, s2)"
    "apply_op env call (flag_arg call ''dry_run'' False) op s2 = (Inl e, s3)"
  shows "apply_patch env call s = (Inr (tool_failure (tool_name call) (exc_message (pe_files env) e) []), s3)"
proof -
  note stop = act_each_stop [where f = "apply_op env call (flag_arg call ''dry_run'' False)"]
  note each = stop [OF assms(4,5), of rest]
  have "apply_checked env call (flag_arg call ''dry_run'' False) (ops @ op # rest) (Inr warnings) s1 = (Inl e, s3)"
    by (simp only: apply_checked_def sum.case act_bind_def each prod.case)
  then show ?thesis
    by (simp only: apply_patch_def Let_def assms(1) if_False act_try_def act_bind_def assms(2,3) f_lift_def
        act_return_def prod.case sum.case if_True)
qed

definition half_call :: ToolCall where
  "half_call = call_of ''r1'' ''apply_patch'' [(''patch'', JStr (print_patch [AddFile ''n'' [], AddFile ''a'' []]))]"

theorem patch_is_not_atomic_witness:
  "tr_ok (case fst (apply_patch sample_patch_env half_call sample_fstate) of Inr r \<Rightarrow> r) = False \<and>
    path_exists (fs_tree (snd (apply_patch sample_patch_env half_call sample_fstate))) [''ws'', ''n'']"
proof -
  let ?s3 = "snd (apply_op sample_patch_env half_call False (AddFile ''n'' []) sample_fstate)"
  let ?e = "PatchErr (''Arquivo j'' @ [CHR 0xE1] @ '' existe: '' @ ''a'')"
  have "apply_patch sample_patch_env half_call sample_fstate =
    (Inr (tool_failure (tool_name half_call) (exc_message (pe_files sample_patch_env) ?e) []), ?s3)"
    by (rule patch_is_not_atomic [where ops = "[AddFile ''n'' []]" and op = "AddFile ''a'' []" and rest = "[]" and warnings = "[]" and
      names = "[''n'']" and ?s1.0 = sample_fstate and ?s2.0 = ?s3]) code_simp+
  moreover have "path_exists (fs_tree ?s3) [''ws'', ''n'']" by code_simp
  ultimately show ?thesis by (simp add: tool_failure_def)
qed

end
