(* ===== verification/Edit_Locks.thy ===== *)
theory Edit_Locks
  imports Execution_Guards Patch_Guarantees
begin

text \<open>
  What the locks of an execution are worth for files: the file that a call changes is one of its keys, so guarded edits
  of one file do not overlap; and the paths of patches for which this fails.
\<close>

section \<open>The files of a call\<close>

definition named_path :: "FileEnv \<Rightarrow> ToolCall \<Rightarrow> fpath \<Rightarrow> bool" where
  "named_path env call p \<longleftrightarrow> (\<exists>raw. needed_text call ''path'' = Inr raw \<and> resolve_mutable env raw = Inr p)"

lemma named_edits:
  "changes_within (named_path env call) (write_file env call)" "changes_within (named_path env call) (replace_text env call)"
  "changes_within (named_path env call) (remove_file env call)"
  unfolding changes_within_def write_file_def replace_text_def remove_file_def replace_in_def Let_def
  by (intro allI within_rules guarded_within store_file_contract unlink_file_contract
      contract_then [OF write_contract] contract_then [OF record_contract] | simp add: named_path_def)+

definition op_touches :: "PatchEnv \<Rightarrow> patch_op \<Rightarrow> fpath \<Rightarrow> bool" where
  "op_touches env op p \<longleftrightarrow> patch_resolve env (op_path op) = Inr p \<or>
     (\<exists>raw hs m q. op = UpdateFile raw hs m \<and> patch_resolve env raw = Inr q \<and> update_target env q m = Inr p)"

definition patch_touches :: "PatchEnv \<Rightarrow> ToolCall \<Rightarrow> fpath \<Rightarrow> bool" where
  "patch_touches env call p \<longleftrightarrow> (\<exists>ops op. parse_patch (str_default (pe_files env) call ''patch'' []) = Inr ops \<and> op \<in> set ops \<and> op_touches env op p)"

lemma checked_touches:
  assumes "parse_patch (str_default (pe_files env) call ''patch'' []) = Inr ops"
  shows "contract (files_kept t0 (patch_touches env call)) (apply_checked env call dry ops r)
    (\<lambda>_. files_kept t0 (patch_touches env call)) (files_kept t0 (patch_touches env call))"
proof -
  have "contract (files_kept t0 (patch_touches env call)) (apply_op env call dry op)
    (\<lambda>_. files_kept t0 (patch_touches env call)) (files_kept t0 (patch_touches env call))" if "op \<in> set ops" for op
    by (rule apply_op_contract) (use assms that in \<open>auto simp: patch_touches_def op_touches_def op_path_def\<close>)
  then show ?thesis unfolding apply_checked_def
    by (intro contract_cases contract_return contract_bind [OF contract_each])
qed

lemma patch_edits: "changes_within (patch_touches env call) (apply_patch env call)"
  unfolding changes_within_def
proof
  fix t0
  let ?E = "files_kept t0 (patch_touches env call)"
  have body: "contract ?E (act_bind (f_lift (parse_patch (str_default (pe_files env) call ''patch'' []))) (\<lambda>ops.
      act_bind (precheck_reads env call ops) (apply_checked env call dry ops))) (\<lambda>_. ?E) ?E" for dry
    unfolding precheck_reads_def
    by (intro contract_bind [OF lift_kept] contract_fact contract_bind [OF _ checked_touches] contract_if contract_return precheck_within)
  show "contract ?E (apply_patch env call) (\<lambda>_. ?E) ?E"
    unfolding apply_patch_def Let_def by (intro contract_if contract_return contract_try [OF body])
qed

section \<open>The paths that the broker reads in a patch\<close>

lemma extract_paths_mem: "t \<in> set (foldl (\<lambda>paths line. case f line of None \<Rightarrow> paths | Some t \<Rightarrow> if t \<in> set paths then paths else paths @ [t]) acc lines)
    \<longleftrightarrow> t \<in> set acc \<or> (\<exists>l \<in> set lines. f l = Some t)"
  by (induction lines arbitrary: acc) (auto split: option.splits)

lemma extract_patch_mem: "t \<in> set (extract_patch_paths env patch) \<longleftrightarrow>
    (\<exists>l \<in> set (py_splitlines patch). \<exists>x. patch_line_path l = Some x \<and> patch_path_text env x = Some t)"
  unfolding extract_patch_paths_def extract_paths_mem by (auto simp: bind_eq_Some_conv)

text \<open>Every path of a parsed patch stands after a mark in one of its lines.\<close>

definition listed :: "pystr list \<Rightarrow> pystr \<Rightarrow> bool" where
  "listed lines raw \<longleftrightarrow> (\<exists>l \<in> set lines. \<exists>x. patch_line_path l = Some x \<and> py_strip x = raw)"

definition op_paths :: "patch_op \<Rightarrow> pystr set" where
  "op_paths op = insert (op_path op) (case op of UpdateFile _ _ (Some m) \<Rightarrow> {m} | _ \<Rightarrow> {})"

lemma listed_mark:
  "prefix add_mark l \<Longrightarrow> patch_line_path l = Some (drop (length add_mark) l)"
  "prefix delete_mark l \<Longrightarrow> patch_line_path l = Some (drop (length delete_mark) l)"
  "prefix update_mark l \<Longrightarrow> patch_line_path l = Some (drop (length update_mark) l)"
  "prefix move_mark l \<Longrightarrow> patch_line_path l = Some (drop (length move_mark) l)"
  by (auto simp: patch_line_path_def add_mark_def delete_mark_def update_mark_def move_mark_def prefix_def)

lemma listed_more: "listed ls raw \<Longrightarrow> set ls \<subseteq> set ls' \<Longrightarrow> listed ls' raw"
  by (auto simp: listed_def)

lemma parse_listed: "parse_ops lines = Inr ops \<Longrightarrow> op \<in> set ops \<Longrightarrow> raw \<in> op_paths op \<Longrightarrow> listed lines raw"
proof (induction lines arbitrary: ops rule: parse_ops.induct)
  case (2 line lines)
  have drop_in: "set (dropWhile P ls) \<subseteq> set ls" for P :: "pystr \<Rightarrow> bool" and ls by (auto dest: set_dropWhileD)
  have hunk_in: "set (hunk_lines lines) \<subseteq> set lines" by (auto simp: hunk_lines_def dest: list.set_sel(2) [rotated] split: if_splits) (metis list.sel(2) list.set_sel(2))
  consider (add) "prefix add_mark line" | (delete) "\<not> prefix add_mark line" "prefix delete_mark line"
    | (update) "\<not> prefix add_mark line" "\<not> prefix delete_mark line" "prefix update_mark line"
    using "2.prems" by (auto split: if_splits)
  then show ?case
  proof cases
    case add
    then obtain content rest where r: "map_res added_line (takeWhile (\<lambda>l. \<not> marked l) lines) = Inr content"
      "parse_ops (dropWhile (\<lambda>l. \<not> marked l) lines) = Inr rest" "ops = AddFile (after_mark add_mark line) (join_lines content) # rest"
      using "2.prems"(1) by (auto simp: bind_res_Inr)
    show ?thesis
    proof (cases "op \<in> set rest")
      case True
      from "2.IH"(1) [OF add r(2) True "2.prems"(3)] show ?thesis
        by (rule listed_more) (meson drop_in set_subset_Cons subset_trans)
    next
      case False
      then have "raw = py_strip (drop (length add_mark) line)" using "2.prems"(2,3) r(3) by (auto simp: op_paths_def op_path_def after_mark_def)
      then show ?thesis using listed_mark(1) [OF add] by (auto simp: listed_def)
    qed
  next
    case delete
    then obtain rest where r: "parse_ops lines = Inr rest" "ops = DeleteFile (after_mark delete_mark line) # rest"
      using "2.prems"(1) by (auto simp: bind_res_Inr)
    show ?thesis
    proof (cases "op \<in> set rest")
      case True
      from "2.IH"(2) [OF delete r(1) True "2.prems"(3)] show ?thesis
        by (rule listed_more) (rule set_subset_Cons)
    next
      case False
      then have "raw = py_strip (drop (length delete_mark) line)" using "2.prems"(2,3) r(2) by (auto simp: op_paths_def op_path_def after_mark_def)
      then show ?thesis using listed_mark(2) [OF delete(2)] by (auto simp: listed_def)
    qed
  next
    case update
    then obtain first rest where r: "update_op (after_mark update_mark line) (move_target lines) (takeWhile (\<lambda>l. \<not> marked l) (hunk_lines lines)) = Inr first"
      "parse_ops (dropWhile (\<lambda>l. \<not> marked l) (hunk_lines lines)) = Inr rest" "ops = first # rest"
      using "2.prems"(1) by (auto simp: bind_res_Inr)
    obtain hs where first: "first = UpdateFile (after_mark update_mark line) hs (move_target lines)"
      using r(1) by (auto simp: update_op_def bind_res_Inr split: if_splits)
    show ?thesis
    proof (cases "op \<in> set rest")
      case True
      from "2.IH"(3) [OF update r(2) True "2.prems"(3)] show ?thesis
        by (rule listed_more) (meson drop_in hunk_in set_subset_Cons subset_trans)
    next
      case False
      then consider "raw = py_strip (drop (length update_mark) line)" | m where "move_target lines = Some m" "raw = m"
        using "2.prems"(2,3) r(3) first by (auto simp: op_paths_def op_path_def after_mark_def split: option.splits)
      then show ?thesis
      proof cases
        case 1
        then show ?thesis using listed_mark(3) [OF update(3)] by (auto simp: listed_def)
      next
        case 2
        then obtain l ls where "lines = l # ls" "prefix move_mark l" "raw = py_strip (drop (length move_mark) l)"
          by (auto simp: move_target_def after_mark_def split: list.splits if_splits)
        then show ?thesis using listed_mark(4) [of l] by (auto simp: listed_def)
      qed
    qed
  qed
qed simp

lemma patch_listed:
  assumes "parse_patch patch = Inr ops" "op \<in> set ops" "raw \<in> op_paths op"
  shows "listed (py_splitlines patch) raw"
proof -
  have "parse_ops (butlast (tl (py_splitlines patch))) = Inr ops" using assms(1) by (auto simp: parse_patch_def Let_def split: if_splits)
  from parse_listed [OF this assms(2,3)] show ?thesis
    by (rule listed_more) (auto dest: in_set_butlastD list.set_sel(2) [rotated] intro: list.set_sel(2))
qed


section \<open>Keys\<close>

lemma path_text_nonempty [simp]: "path_text p \<noteq> []"
  by (cases p) (simp_all add: path_text_def)

definition file_key :: "fpath \<Rightarrow> pystr" where
  "file_key p = ''path:'' @ path_text p"

lemma set_guard_keys [simp]: "set (guard_keys env call) = set (serialization_keys env call)"
  by (simp add: guard_keys_def)

lemma edit_rows:
  "map_option (\<lambda>m. (tm_serialization m, tm_path_args m)) (get_tool_metadata ''write_file'') = Some (Some ''path'', [''path''])"
  "map_option (\<lambda>m. (tm_serialization m, tm_path_args m)) (get_tool_metadata ''replace_text'') = Some (Some ''path'', [''path''])"
  "map_option (\<lambda>m. (tm_serialization m, tm_path_args m)) (get_tool_metadata ''remove_file'') = Some (Some ''path'', [''path''])"
  "map_option tm_serialization (get_tool_metadata ''apply_patch'') = Some (Some ''patch_paths'')"
  by code_simp+

lemma edit_metadata:
  "n \<in> {''write_file'', ''replace_text'', ''remove_file''} \<Longrightarrow> \<exists>m. get_tool_metadata n = Some m \<and> tm_serialization m = Some ''path'' \<and> tm_path_args m = [''path'']"
  "\<exists>m. get_tool_metadata ''apply_patch'' = Some m \<and> tm_serialization m = Some ''patch_paths''"
  using edit_rows by auto

lemma named_key:
  assumes "fe_staging (be_files env) = None" "tool_name call \<in> {''write_file'', ''replace_text'', ''remove_file''}"
    "named_path (be_files env) call p"
  shows "file_key p \<in> set (guard_keys env call)"
proof -
  obtain raw where raw: "needed_text call ''path'' = Inr raw" "resolve_mutable (be_files env) raw = Inr p" using assms(3) by (auto simp: named_path_def)
  then have "arg call ''path'' = Some (JStr raw)" by (auto simp: needed_text_def split: option.splits json.splits)
  then have "str_default (be_files env) call ''path'' ''.'' = raw" by (simp add: str_default_def py_str_def)
  moreover have "p = cwd_path env raw" using raw(2) assms(1) by (auto simp: resolve_mutable_def Let_def cwd_path_def base_path_def split: if_splits)
  moreover obtain m where "get_tool_metadata (tool_name call) = Some m" "tm_serialization m = Some ''path''" "tm_path_args m = [''path'']"
    using edit_metadata(1) [OF assms(2)] by blast
  ultimately show ?thesis using assms(2)
    by (auto simp: serialization_keys_def Let_def extract_path_def none_if_empty_def file_key_def)
qed

text \<open>Paths of patches that the broker reads as the patch tool does.\<close>

definition plain_patch_path :: "BrokerEnv \<Rightarrow> pystr \<Rightarrow> bool" where
  "plain_patch_path env raw \<longleftrightarrow> raw \<noteq> [] \<and> \<not> prefix ''a/'' raw \<and> \<not> prefix ''b/'' raw \<and> raw \<noteq> ''/dev/null'' \<and>
     is_path_inside (be_files env) (cwd_path env raw) (fe_cwd (be_files env))"

definition plain_patch :: "BrokerEnv \<Rightarrow> ToolCall \<Rightarrow> bool" where
  "plain_patch env call \<longleftrightarrow> (case parse_patch (str_default (be_files env) call ''patch'' []) of Inl _ \<Rightarrow> True
     | Inr ops \<Rightarrow> \<forall>op \<in> set ops. \<forall>raw \<in> op_paths op. plain_patch_path env raw)"

lemma touches_named:
  assumes "fe_staging (be_files env) = None" "pe_files penv = be_files env" "op_touches penv op p"
  shows "\<exists>raw \<in> op_paths op. p = cwd_path env raw"
proof -
  have resolve: "p = cwd_path env raw" if "patch_resolve penv raw = Inr p" for raw p
    using that assms(1,2) by (auto simp: patch_resolve_def Let_def cwd_path_def base_path_def split: if_splits)
  from assms(3) consider "patch_resolve penv (op_path op) = Inr p"
    | raw hs m q where "op = UpdateFile raw hs m" "patch_resolve penv raw = Inr q" "update_target penv q m = Inr p"
    by (auto simp: op_touches_def)
  then show ?thesis
  proof cases
    case 1
    then show ?thesis using resolve by (auto simp: op_paths_def)
  next
    case 2
    show ?thesis
    proof (cases "or_empty m = []")
      case True
      then show ?thesis using 2 resolve by (auto simp: update_target_def op_paths_def op_path_def)
    next
      case False
      then obtain t where "m = Some t" by (cases m) auto
      then show ?thesis using 2 False resolve by (auto simp: update_target_def op_paths_def)
    qed
  qed
qed

lemma patch_key:
  assumes "fe_staging (be_files env) = None" "pe_files penv = be_files env" "tool_name call = ''apply_patch''"
    "plain_patch env call" "patch_touches penv call p"
  shows "file_key p \<in> set (guard_keys env call)"
proof -
  let ?text = "str_default (be_files env) call ''patch'' []"
  obtain ops op where op: "parse_patch ?text = Inr ops" "op \<in> set ops" "op_touches penv op p"
    using assms(2,5) by (auto simp: patch_touches_def)
  then obtain raw where raw: "raw \<in> op_paths op" "p = cwd_path env raw" using touches_named [OF assms(1,2)] by blast
  then have plain: "plain_patch_path env raw" using assms(4) op by (auto simp: plain_patch_def)
  obtain l x where l: "l \<in> set (py_splitlines ?text)" "patch_line_path l = Some x" "py_strip x = raw"
    using patch_listed [OF op(1,2) raw(1)] by (auto simp: listed_def)
  have "patch_path_text env x = Some (path_text p)" using plain l(3) raw(2) by (auto simp: patch_path_text_def plain_patch_path_def Let_def)
  then have "path_text p \<in> set (extract_patch_paths env ?text)" using l by (auto simp: extract_patch_mem)
  then show ?thesis using assms(3) edit_metadata(2) by (auto simp: serialization_keys_def Let_def file_key_def)
qed

definition edit_tools :: "pystr list" where
  "edit_tools = [''write_file'', ''replace_text'', ''remove_file'', ''apply_patch'']"

lemma changed_file_locked:
  assumes "fe_staging (be_files env) = None" "pe_files penv = be_files env" "tool_name call \<in> set edit_tools" "plain_patch env call"
    "file_at (fs_tree (snd (run_file_tool penv call s))) p \<noteq> file_at (fs_tree s) p"
  shows "file_key p \<in> set (guard_keys env call)"
proof (cases "tool_name call = ''apply_patch''")
  case True
  then have "patch_touches penv call p" using assms(5) changes_withinD [OF patch_edits] by (auto simp: run_file_tool_def Let_def)
  then show ?thesis using patch_key [OF assms(1,2) True assms(4)] by blast
next
  case False
  then have edit: "tool_name call \<in> {''write_file'', ''replace_text'', ''remove_file''}" using assms(3) by (auto simp: edit_tools_def)
  then have "named_path (be_files env) call p"
    using assms(2,5) changes_withinD [OF named_edits(1), of "be_files env" call p] changes_withinD [OF named_edits(2), of "be_files env" call p]
      changes_withinD [OF named_edits(3), of "be_files env" call p]
    by (cases "named_path (be_files env) call p") (auto simp: run_file_tool_def Let_def)
  then show ?thesis using named_key [OF assms(1) edit] by blast
qed


section \<open>Properties\<close>

definition sample_broker_env :: BrokerEnv where
  "sample_broker_env = \<lparr> be_files = sample_files, be_now = 0, be_ids = (\<lambda>n. ''id'' @ show_nat n), be_thread = 1, be_arrow = ''>'',
     be_preview = (\<lambda>name _ _. name), be_require_mutations = True, be_require_tasks = True, be_policy = None, be_delegation_budget = 8 \<rparr>"

definition append_call :: "pystr \<Rightarrow> ToolCall" where
  "append_call name = call_of ''r1'' ''write_file'' [(''path'', JStr name), (''content'', JStr ''z''), (''mode'', JStr ''create'')]"

definition sample_guarded :: "(BrokerEnv \<times> ToolCall) list" where
  "sample_guarded = [(sample_broker_env, append_call ''n''), (sample_broker_env, append_call ''m''), (sample_broker_env, append_call ''n'')]"

definition sample_inside :: "GuardThread list" where
  "sample_inside = [\<lparr>gt_phase = Inside, gt_todo = [], gt_held = [''path:/ws/n'']\<rparr>,
     \<lparr>gt_phase = Inside, gt_todo = [], gt_held = [''path:/ws/m'']\<rparr>, \<lparr>gt_phase = Acquiring, gt_todo = [''path:/ws/n''], gt_held = []\<rparr>]"

lemma sample_schedule: "guard_schedule [0, 1, 0, 1] (start_guards sample_guarded) = Some sample_inside"
  by code_simp

text \<open>
  C14. Guarded executions never block one another for good: however they are scheduled, their steps are bounded by the
  locks they take, and until all have finished one of them can go on.
\<close>

theorem guarded_runs_end:
  assumes "(guard_step ^^ n) (start_guards calls) ts"
  shows "n \<le> sum_list (map (\<lambda>(env, call). 2 * length (guard_keys env call) + 3) calls) \<and> (all_finished ts \<or> (\<exists>ts'. guard_step ts ts'))"
proof
  show "n \<le> sum_list (map (\<lambda>(env, call). 2 * length (guard_keys env call) + 3) calls)"
    using run_counts [OF assms] by (simp add: steps_start)
  have "\<forall>ks \<in> set (map (\<lambda>(env, call). guard_keys env call) calls). sorted ks \<and> distinct ks" by (auto simp: guard_keys_sorted)
  then show "all_finished ts \<or> (\<exists>ts'. guard_step ts ts')" using some_step [OF guards_reach [OF assms start_guards_ok]] by blast
qed

theorem guarded_runs_end_witness:
  "\<exists>ts. guard_step sample_inside ts"
proof -
  have "\<not> all_finished sample_inside" by code_simp
  then show ?thesis using guarded_runs_end [OF schedule_runs [OF sample_schedule]] by blast
qed

text \<open>
  C15. Two edits of one file do not overlap: if there is no staging area and every path in a patch is one that the broker reads
  as the patch tool does (inside the workspace, without a leading a/ or b/, not /dev/null), then of two guarded calls of the
  editing tools that are executing at the same time, one that changes a file excludes that the other changes it.
\<close>

theorem file_edits_exclusive:
  assumes "(guard_step ^^ n) (start_guards calls) ts" "i < length calls" "j < length calls" "i \<noteq> j"
    "gt_phase (ts ! i) = Inside" "gt_phase (ts ! j) = Inside"
    "\<forall>(env, call) \<in> set calls. fe_staging (be_files env) = None \<and> tool_name call \<in> set edit_tools \<and> plain_patch env call"
    "pe_files penv = be_files (fst (calls ! i))" "pe_files penv' = be_files (fst (calls ! j))"
    "file_at (fs_tree (snd (run_file_tool penv (snd (calls ! i)) s))) p \<noteq> file_at (fs_tree s) p"
  shows "file_at (fs_tree (snd (run_file_tool penv' (snd (calls ! j)) s'))) p = file_at (fs_tree s') p"
proof (rule ccontr)
  have ok: "fe_staging (be_files (fst (calls ! k))) = None" "tool_name (snd (calls ! k)) \<in> set edit_tools"
    "plain_patch (fst (calls ! k)) (snd (calls ! k))" if "k < length calls" for k
    using assms(7) nth_mem [OF that] by (auto simp: case_prod_beta)
  assume other: "file_at (fs_tree (snd (run_file_tool penv' (snd (calls ! j)) s'))) p \<noteq> file_at (fs_tree s') p"
  have "file_key p \<in> set (guard_keys (fst (calls ! j)) (snd (calls ! j)))"
    by (rule changed_file_locked [OF ok(1) [OF assms(3)] assms(9) ok(2) [OF assms(3)] ok(3) [OF assms(3)] other])
  moreover have "file_key p \<in> set (guard_keys (fst (calls ! i)) (snd (calls ! i)))"
    by (rule changed_file_locked [OF ok(1) [OF assms(2)] assms(8) ok(2) [OF assms(2)] ok(3) [OF assms(2)] assms(10)])
  ultimately show False using inside_disjoint [OF assms(1-6)] by blast
qed

theorem file_edits_exclusive_witness:
  "file_at (fs_tree (snd (run_file_tool sample_patch_env (append_call ''m'') sample_fstate))) [''ws'', ''n''] = None"
proof -
  have files: "pe_files sample_patch_env = be_files (fst (sample_guarded ! 0))" "pe_files sample_patch_env = be_files (fst (sample_guarded ! 1))"
    by (simp_all add: sample_patch_env_def sample_guarded_def sample_broker_env_def)
  have "file_at (fs_tree (snd (run_file_tool sample_patch_env (snd (sample_guarded ! 1)) sample_fstate))) [''ws'', ''n''] = file_at (fs_tree sample_fstate) [''ws'', ''n'']"
    by (rule file_edits_exclusive [OF schedule_runs [OF sample_schedule] _ _ _ _ _ _ files, where s = sample_fstate]) code_simp+
  then show ?thesis by code_simp
qed

text \<open>
  The broker takes \<open>a/\<close> and \<open>b/\<close> at the start of any path of a patch for the prefixes of git: for a file below a
  directory \<open>a\<close> it locks, shows and approves another file than the one the patch tool changes.
\<close>

theorem patch_locks_other_file:
  assumes "tool_name call = ''apply_patch''" "arg call ''patch'' = Some (JStr (print_patch [DeleteFile (''a/'' @ name)]))"
    "path_ok (''a/'' @ name)" "is_path_inside (be_files env) (cwd_path env name) (fe_cwd (be_files env))"
    "fe_staging (be_files env) = None" "pe_files penv = be_files env"
    "patch_resolve penv (''a/'' @ name) = Inr p"
  shows "guard_keys env call = [file_key (cwd_path env name)] \<and> extract_path env call None = Some (path_text (cwd_path env name)) \<and>
    p = cwd_path env (''a/'' @ name)"
proof -
  have given_text: "str_default (be_files env) call ''patch'' [] = print_patch [DeleteFile (''a/'' @ name)]" using assms(2) by (simp add: str_default_def py_str_def)
  have free: "line_free l" if "l \<in> set [begin_line, delete_mark @ ''a/'' @ name, end_line]" for l
    using that assms(3) by (auto simp: path_ok_def begin_line_def end_line_def delete_mark_def line_end_def)
  have lines: "py_splitlines (print_patch [DeleteFile (''a/'' @ name)]) = [begin_line, delete_mark @ ''a/'' @ name, end_line]"
    using splitlines_join [of "[begin_line, delete_mark @ ''a/'' @ name, end_line]"] free by (simp add: print_patch_def print_op_def)
  have other: "patch_line_path begin_line = None" "patch_line_path end_line = None" by code_simp+
  have "patch_line_path (delete_mark @ ''a/'' @ name) = Some (''a/'' @ name)" using listed_mark(2) [of "delete_mark @ ''a/'' @ name"] by simp
  moreover have "patch_path_text env (''a/'' @ name) = Some (path_text (cwd_path env name))"
    using assms(3,4) by (simp add: patch_path_text_def Let_def path_ok_def)
  ultimately have paths: "extract_patch_paths env (print_patch [DeleteFile (''a/'' @ name)]) = [path_text (cwd_path env name)]"
    unfolding extract_patch_paths_def lines by (simp add: other)
  show ?thesis using paths given_text assms(1,5-7) edit_metadata(2)
    by (auto simp: guard_keys_def serialization_keys_def Let_def extract_path_def file_key_def patch_resolve_def cwd_path_def base_path_def split: if_splits)
qed

theorem patch_locks_other_file_witness:
  "guard_keys sample_broker_env (call_of ''r1'' ''apply_patch'' [(''patch'', JStr (print_patch [DeleteFile ''a/x'']))]) = [file_key [''ws'', ''x'']] \<and>
   patch_resolve sample_patch_env ''a/x'' = Inr [''ws'', ''a'', ''x'']"
proof -
  have "patch_resolve sample_patch_env (''a/'' @ ''x'') = Inr [''ws'', ''a'', ''x'']" by code_simp
  moreover have "cwd_path sample_broker_env ''x'' = [''ws'', ''x'']" by code_simp
  moreover have "guard_keys sample_broker_env (call_of ''r1'' ''apply_patch'' [(''patch'', JStr (print_patch [DeleteFile (''a/'' @ ''x'')]))]) =
     [file_key (cwd_path sample_broker_env ''x'')] \<and> extract_path sample_broker_env (call_of ''r1'' ''apply_patch'' [(''patch'', JStr (print_patch [DeleteFile (''a/'' @ ''x'')]))]) None =
     Some (path_text (cwd_path sample_broker_env ''x'')) \<and> [''ws'', ''a'', ''x''] = cwd_path sample_broker_env (''a/'' @ ''x'')"
    by (rule patch_locks_other_file [where penv = sample_patch_env]) (simp add: sample_patch_env_def sample_broker_env_def | code_simp)+
  ultimately show ?thesis by simp
qed

end
