(* ===== verification/Approval_Guarantees.thy ===== *)
theory Approval_Guarantees
  imports Edit_Locks
begin

text \<open>
  What the approval of tools is worth: tools that change things run only if a person agreed or a rule says so, scopes
  and budgets allow no more than they say; and the rules that do less than their documentation promises.
\<close>

section \<open>The decision without scopes\<close>

text \<open>A handler with nothing approved beforehand for a thread.\<close>

definition asks_person :: "int \<Rightarrow> PreApproval \<Rightarrow> bool" where
  "asks_person thread h \<longleftrightarrow> thread \<notin> set (pa_threads h) \<and> pa_scopes h = [] \<and> \<not> pa_approve_all h \<and> \<not> pa_pre_approved h"

lemma asks_person_decides:
  "asks_person thread h \<Longrightarrow> fst (handler_approves thread answer name summary h) = fst (answer_decision answer)"
  by (simp add: handler_approves_def consume_local_def asks_person_def Let_def split: prod.split)

lemma asks_person_bound: "asks_person thread h \<Longrightarrow> asks_person thread (snd (bind_thread_scope t scope h))"
  by (simp add: asks_person_def bind_thread_scope_def)

lemma fresh_id_state:
  "fresh_id env b = (n, b') \<Longrightarrow> bs_scopes b' = bs_scopes b \<and> bs_handler b' = bs_handler b \<and> bs_budget b' = bs_budget b \<and>
    bs_audit b' = bs_audit b"
  by (auto simp: fresh_id_def)

lemma build_context_state:
  "build_context env call b = (c, b') \<Longrightarrow> bs_scopes b' = bs_scopes b \<and> bs_handler b' = bs_handler b \<and> bs_budget b' = bs_budget b \<and>
    bs_audit b' = bs_audit b"
  by (auto simp: build_context_def Let_def split: option.splits meta_value.splits json.splits prod.splits dest: fresh_id_state)

lemma create_request_state:
  assumes "create_request env call permission reason b = (r, b')"
  shows "bs_scopes b' = bs_scopes b \<and> bs_handler b' = bs_handler b \<and> bs_budget b' = bs_budget b \<and> bs_audit b' = bs_audit b \<and>
    ar_tool r = tool_name call \<and> ar_arguments r = arguments call \<and> ar_risk r = classify_call env call \<and>
    ar_context r = fst (build_context env call b) \<and> (reason = None \<longrightarrow> permission = None \<longrightarrow> ar_reason r = None)"
proof -
  obtain c b1 where c: "build_context env call b = (c, b1)" by fastforce
  obtain n b2 where n: "fresh_id env b1 = (n, b2)" by fastforce
  show ?thesis using assms build_context_state [OF c] fresh_id_state [OF n] by (auto simp: create_request_def Let_def c n)
qed

lemma no_scopes_no_match: "bs_scopes b = [] \<Longrightarrow> consume_matching_scope env r consume b = (False, b)"
  by (cases b) (simp add: consume_matching_scope_def prune_scopes_def Let_def)

definition not_automatic :: "BrokerEnv \<Rightarrow> ToolRisk \<Rightarrow> bool" where
  "not_automatic env risk \<longleftrightarrow> risk \<noteq> RISK_DELEGATION \<and> (case be_policy env of None \<Rightarrow> True | Some p \<Rightarrow> level_for p risk \<noteq> LEVEL_AUTO)"

lemma needs_not_auto: "not_automatic env (ar_risk r) \<Longrightarrow> auto_approved env r True consume b = (False, b)"
  by (auto simp: auto_approved_def not_automatic_def Let_def split: option.splits AutonomyLevel.splits)

lemma record_decision_state [simp]:
  "bs_scopes (record_decision env e r d b) = bs_scopes b" "bs_handler (record_decision env e r d b) = bs_handler b"
  "bs_budget (record_decision env e r d b) = bs_budget b" "bs_ids_used (record_decision env e r d b) = bs_ids_used b"
  by (simp_all add: record_decision_def)

text \<open>The two entries that the audit trail has of a request that was put to somebody and approved.\<close>

definition approval_trail :: "BrokerEnv \<Rightarrow> ApprovalRequest \<Rightarrow> AuditEntry list" where
  "approval_trail env r =
     [\<lparr> au_event = ''request'', au_request = r, au_decision = None, au_recorded_at = be_now env \<rparr>,
      \<lparr> au_event = ''approved'', au_request = r, au_decision = Some True, au_recorded_at = be_now env \<rparr>]"

lemma decide_by_person:
  assumes "bs_scopes b = []" "not_automatic env (ar_risk r)" "asks_person (be_thread env) (bs_handler b)"
  shows "fst (decide_request env human r True b) = fst (answer_decision (human r))"
    and "fst (decide_request env human r True b) \<Longrightarrow> bs_audit (snd (decide_request env human r True b)) = bs_audit b @ approval_trail env r"
  using assms asks_person_decides [OF assms(3)]
  by (simp_all add: decide_request_def can_auto_approve_def no_scopes_no_match needs_not_auto Let_def split: prod.split)
    (metis fst_conv, auto simp: record_decision_def approval_trail_def)

lemma approve_by_person:
  assumes "bs_scopes b = []" "not_automatic env (classify_call env call)" "asks_person (be_thread env) (bs_handler b)"
    "fst (approve_call env human call True permission b)"
  shows "\<exists>r. ar_tool r = tool_name call \<and> ar_arguments r = arguments call \<and> fst (answer_decision (human r)) \<and>
    bs_audit (snd (approve_call env human call True permission b)) = bs_audit b @ approval_trail env r"
proof -
  obtain r b1 where r: "create_request env call permission None b = (r, b1)" by fastforce
  note state = create_request_state [OF r]
  have d: "approve_call env human call True permission b = decide_request env human r True b1" by (simp add: approve_call_def r)
  then show ?thesis using decide_by_person [of b1 env r human] state assms by (intro exI [of _ r]) auto
qed

text \<open>An answer given by a person: a line that says yes, or yes to everything.\<close>

definition person_agrees :: "human_answer \<Rightarrow> bool" where
  "person_agrees a \<longleftrightarrow> (\<exists>raw. a = Typed raw \<and>
     py_lower (py_strip raw) \<in> {''y'', ''yes'', ''s'', ''sim'', ''a'', ''all'', ''todas''})"

lemma decision_of_person: "fst (answer_decision a) \<Longrightarrow> a \<noteq> Unattended ''auto'' \<Longrightarrow> person_agrees a"
  by (cases a) (auto simp: person_agrees_def all_answers_def yes_answers_def Let_def split: if_splits)

section \<open>Runs of handlers\<close>

definition same_ran :: "ToolCall list \<Rightarrow> ExecState \<Rightarrow> bool" where
  "same_ran cs s \<longleftrightarrow> xs_ran s = cs"

lemma ran_stays [act_rules]: "stays (same_ran cs) (x_lift r)" "stays (same_ran cs) (x_broker f)" "stays (same_ran cs) (x_files m)"
  by (auto simp: stays_def same_ran_def x_lift_def x_broker_def x_files_def act_raise_def act_return_def split: sum.split prod.split)

lemma normalize_metadata [simp]: "metadata (normalize_call call) = metadata call" "call_id (normalize_call call) = call_id call"
  by (simp_all add: normalize_call_def Let_def)

lemma call_id_result:
  assumes "with_tool_call_id env call s = (Inr c, s')"
  shows "tool_name c = tool_name call \<and> arguments c = arguments call \<and> xs_ran s' = xs_ran s \<and>
    bs_scopes (xs_broker s') = bs_scopes (xs_broker s) \<and> bs_handler (xs_broker s') = bs_handler (xs_broker s) \<and>
    bs_audit (xs_broker s') = bs_audit (xs_broker s)"
  using assms build_context_state
  by (auto simp: with_tool_call_id_def Let_def act_raise_def act_return_def act_bind_def x_broker_def split: option.splits meta_value.splits if_splits prod.splits)


lemma in_call_scope_result:
  "\<exists>b'. bs_scopes b' = bs_scopes b \<and> bs_audit b' = bs_audit b \<and> (\<forall>t. asks_person t (bs_handler b) \<longrightarrow> asks_person t (bs_handler b')) \<and>
     fst (in_call_scope env call f b) = fst (f b') \<and> bs_audit (snd (in_call_scope env call f b)) = bs_audit (snd (f b'))"
proof (cases "call_scope env call")
  case None
  then show ?thesis by (auto simp: in_call_scope_def)
next
  case (Some scope)
  let ?h = "snd (bind_thread_scope (be_thread (xe_broker env)) (Some scope) (bs_handler b))"
  have "fst (in_call_scope env call f b) = fst (f (b\<lparr>bs_handler := ?h\<rparr>)) \<and>
      bs_audit (snd (in_call_scope env call f b)) = bs_audit (snd (f (b\<lparr>bs_handler := ?h\<rparr>)))"
    by (simp add: in_call_scope_def Some Let_def split: prod.split)
  then show ?thesis using asks_person_bound by (intro exI [of _ "b\<lparr>bs_handler := ?h\<rparr>"]) simp
qed

lemma handler_keeps_broker: "xs_broker (snd (run_handler_of env call s)) = xs_broker s"
  by (auto simp: run_handler_of_def Let_def act_then_def act_bind_def act_raise_def x_files_def split: option.splits prod.splits)

lemma approved_ran:
  assumes "xs_ran (snd (execute_approved env c needs permission s)) \<noteq> xs_ran s"
  shows "fst (in_call_scope env c (approve_call (xe_broker env) (xe_human env) c needs permission) (xs_broker s))"
    and "xs_broker (snd (execute_approved env c needs permission s)) =
      snd (in_call_scope env c (approve_call (xe_broker env) (xe_human env) c needs permission) (xs_broker s))"
proof -
  obtain ok b where b: "in_call_scope env c (approve_call (xe_broker env) (xe_human env) c needs permission) (xs_broker s) = (ok, b)" by fastforce
  have shown: "xe_preview_error env c = None"
    using assms by (cases "xe_preview_error env c") (simp_all add: execute_approved_def act_then_def act_bind_def act_raise_def)
  have "ok"
  proof (rule ccontr)
    assume "\<not> ok"
    then have "xs_ran (snd (execute_approved env c needs permission s)) = xs_ran s"
      by (simp add: execute_approved_def act_then_def act_bind_def act_return_def x_broker_def b shown)
    with assms show False by simp
  qed
  then show "fst (in_call_scope env c (approve_call (xe_broker env) (xe_human env) c needs permission) (xs_broker s))"
    and "xs_broker (snd (execute_approved env c needs permission s)) =
      snd (in_call_scope env c (approve_call (xe_broker env) (xe_human env) c needs permission) (xs_broker s))"
    using handler_keeps_broker
    by (simp_all add: b execute_approved_def act_then_def act_bind_def act_return_def x_broker_def shown)
qed

text \<open>The calls for which the policy asks for an approval whatever their arguments.\<close>

definition approval_required :: "pystr \<Rightarrow> bool" where
  "approval_required name \<longleftrightarrow> (case get_tool_metadata name of None \<Rightarrow> True | Some m \<Rightarrow> tm_approval m = AM_MUTATION)"

lemma approval_required_asks:
  "approval_required (tool_name call) \<Longrightarrow> be_require_mutations env \<Longrightarrow> requires_approval env policy call"
  by (auto simp: approval_required_def requires_approval_def split: option.splits)

lemma authorized_state:
  "xs_ran (snd (authorize env c proceed s)) = xs_ran s \<or> (\<exists>permission. snd (authorize env c proceed s) = snd (proceed (requires_approval (xe_broker env) (xe_policy env) c) permission s))"
  by (auto simp: authorize_def act_bind_def act_get_def x_lift_def act_raise_def act_return_def split: sum.splits prod.splits)

lemma executed_state:
  assumes "xs_ran (snd (execute_call env call s)) \<noteq> xs_ran s"
  shows "\<exists>c s1 permission. with_tool_call_id env (normalize_call call) s = (Inr c, s1) \<and>
    snd (execute_call env call s) = snd (execute_approved env c (requires_approval (xe_broker env) (xe_policy env) c) permission s1) \<and>
    xs_ran (snd (execute_approved env c (requires_approval (xe_broker env) (xe_policy env) c) permission s1)) \<noteq> xs_ran s1"
proof -
  obtain q s1 where q: "with_tool_call_id env (normalize_call call) s = (q, s1)" by fastforce
  show ?thesis
  proof (cases q)
    case (Inl e)
    have "stays (same_ran (xs_ran s)) (with_tool_call_id env (normalize_call call))"
      unfolding with_tool_call_id_def Let_def by (cases "metadata (normalize_call call)") (auto intro!: act_rules split: option.split meta_value.split)
    then have "xs_ran s1 = xs_ran s" using q by (auto simp: stays_def same_ran_def)
    then show ?thesis using assms Inl q by (simp add: execute_call_def act_bind_def)
  next
    case (Inr c)
    note id = call_id_result [OF q [unfolded Inr]]
    have "snd (execute_call env call s) = snd (authorize env c (execute_approved env c) s1)"
      by (simp add: execute_call_def act_bind_def q Inr act_try_def act_return_def split: prod.split sum.split)
    then show ?thesis using assms id authorized_state [of env c "execute_approved env c" s1] q Inr by metis
  qed
qed

section \<open>A sequence of approvals\<close>

text \<open>
  Approvals one after the other, each with the environment of its moment, where nobody answers: the number of those
  granted.
\<close>

fun granted :: "(BrokerEnv \<times> ToolCall \<times> PathPermission option) list \<Rightarrow> BrokerState \<Rightarrow> nat" where
  "granted [] b = 0"
| "granted ((env, call, permission) # rest) b =
     (let (ok, b') = approve_call env (\<lambda>_. Unanswered) call True permission b in (if ok then 1 else 0) + granted rest b')"

text \<open>A quantity that every grant uses up bounds their number.\<close>

lemma granted_bound:
  assumes step: "\<And>env call permission b ok b'. (env, call, permission) \<in> set calls \<Longrightarrow> good b \<Longrightarrow>
      approve_call env (\<lambda>_. Unanswered) call True permission b = (ok, b') \<Longrightarrow>
      good b' \<and> (if ok then f b' + 1 \<le> f b else f b' \<le> f b) \<and> 0 \<le> f b'"
    and "good b" "0 \<le> (f b :: int)"
  shows "int (granted calls b) \<le> f b"
  using assms
proof (induction calls arbitrary: b)
  case (Cons c calls)
  obtain env call permission where c: "c = (env, call, permission)" by (cases c) auto
  obtain ok b' where r: "approve_call env (\<lambda>_. Unanswered) call True permission b = (ok, b')" by fastforce
  from Cons.prems(1) [of env call permission b ok b'] Cons.prems(2) r c
  have b': "good b'" "if ok then f b' + 1 \<le> f b else f b' \<le> f b" "0 \<le> f b'" by auto
  have "int (granted calls b') \<le> f b'" by (rule Cons.IH [OF Cons.prems(1) b'(1,3)]) auto
  then show ?case using b'(2) by (auto simp: c r split: if_splits)
qed simp

definition nothing_beforehand :: "PreApproval \<Rightarrow> bool" where
  "nothing_beforehand h \<longleftrightarrow> (\<forall>thread. asks_person thread h)"

lemma unanswered_handler:
  "nothing_beforehand h \<Longrightarrow> handler_approves thread Unanswered name summary h = (False, h)"
  by (simp add: handler_approves_def consume_local_def asks_person_def nothing_beforehand_def Let_def split: prod.split)

lemma unanswered_decision:
  assumes "can_auto_approve env r True True (record_decision env ''request'' r None b) = (ok, b2)" "nothing_beforehand (bs_handler b2)"
  shows "\<exists>b3. decide_request env (\<lambda>_. Unanswered) r True b = (ok, b3) \<and> bs_scopes b3 = bs_scopes b2 \<and> bs_handler b3 = bs_handler b2 \<and> bs_budget b3 = bs_budget b2"
  using assms by (cases ok) (simp_all add: decide_request_def Let_def unanswered_handler)

section \<open>Uses of scopes\<close>

definition scope_uses :: "ApprovalScope \<Rightarrow> int" where
  "scope_uses s = (case as_uses s of None \<Rightarrow> 0 | Some n \<Rightarrow> max 0 n)"

definition uses_left :: "ApprovalScope list \<Rightarrow> int" where
  "uses_left ss = sum_list (map scope_uses ss)"

lemma scope_uses_nonneg: "0 \<le> scope_uses s"
  by (simp add: scope_uses_def split: option.split)

lemma uses_left_nonneg: "0 \<le> uses_left ss"
  by (induction ss) (simp_all add: uses_left_def scope_uses_nonneg)

lemma uses_prune: "uses_left (prune_scopes now ss) \<le> uses_left ss"
proof (induction ss)
  case (Cons s ss)
  then show ?case using scope_uses_nonneg [of s] by (simp add: uses_left_def prune_scopes_def)
qed (simp add: uses_left_def prune_scopes_def)

lemma uses_first: "use_first now r ss = Some ss' \<Longrightarrow> uses_left ss' + 1 \<le> uses_left ss"
proof (induction ss arbitrary: ss')
  case (Cons s ss)
  then show ?case
    by (auto simp: uses_left_def scope_uses_def scope_matches_def consume_scope_def split: if_splits option.splits)
qed simp

lemma match_uses:
  assumes "consume_matching_scope env r True b = (ok, b')"
  shows "(if ok then uses_left (bs_scopes b') + 1 \<le> uses_left (bs_scopes b) else uses_left (bs_scopes b') \<le> uses_left (bs_scopes b)) \<and>
    bs_handler b' = bs_handler b \<and> bs_budget b' = bs_budget b"
proof (cases "use_first (be_now env) r (prune_scopes (be_now env) (bs_scopes b))")
  case None
  then show ?thesis using assms uses_prune [of "be_now env" "bs_scopes b"] by (auto simp: consume_matching_scope_def Let_def)
next
  case (Some used)
  then have "ok" "bs_scopes b' = prune_scopes (be_now env) used" "bs_handler b' = bs_handler b" "bs_budget b' = bs_budget b"
    using assms by (auto simp: consume_matching_scope_def Let_def)
  then show ?thesis
    using uses_first [OF Some] uses_prune [of "be_now env" used] uses_prune [of "be_now env" "bs_scopes b"] by simp
qed

section \<open>Properties\<close>


definition sample_exec_env :: "human_answer \<Rightarrow> ExecEnv" where
  "sample_exec_env answer = \<lparr> xe_broker = sample_broker_env, xe_policy = builtin_policy new_policy, xe_validate = (\<lambda>_ _ _. Inr ()),
     xe_human = (\<lambda>_. answer), xe_meanwhile = id, xe_preview_error = (\<lambda>_. None), xe_others = (\<lambda>_. None), xe_ratio = (\<lambda>_ _. 0), xe_percent = (\<lambda>_. ''0%'') \<rparr>"

definition sample_exec_state :: ExecState where
  "sample_exec_state = \<lparr> xs_broker = new_broker, xs_files = sample_fstate, xs_ran = [] \<rparr>"


text \<open>
  C16. Scopes grant no more than their uses: however many calls are made, at whatever times and by whomever, those granted
  without a person are at most the uses of the scopes there were.
\<close>

theorem scope_uses_bounded:
  assumes "\<forall>(env, call, permission) \<in> set calls. not_automatic env (classify_call env call)" "nothing_beforehand (bs_handler b)"
  shows "int (granted calls b) \<le> sum_list (map scope_uses (bs_scopes b))"
proof -
  have "int (granted calls b) \<le> uses_left (bs_scopes b)"
  proof (rule granted_bound [where good = "\<lambda>b. nothing_beforehand (bs_handler b)"])
    fix env call permission b ok b'
    assume call: "(env, call, permission) \<in> set calls" and h: "nothing_beforehand (bs_handler b)"
      and run: "approve_call env (\<lambda>_. Unanswered) call True permission b = (ok, b')"
    obtain r b1 where r: "create_request env call permission None b = (r, b1)" by fastforce
    note state = create_request_state [OF r]
    have risk: "not_automatic env (ar_risk r)" using assms(1) call state by auto
    obtain m b2 where m: "consume_matching_scope env r True (record_decision env ''request'' r None b1) = (m, b2)" by fastforce
    note uses = match_uses [OF m]
    have "can_auto_approve env r True True (record_decision env ''request'' r None b1) = (m, b2)"
      by (simp add: can_auto_approve_def m needs_not_auto [OF risk])
    from unanswered_decision [OF this] uses h state obtain b3 where "decide_request env (\<lambda>_. Unanswered) r True b1 = (m, b3)"
      "bs_scopes b3 = bs_scopes b2" "bs_handler b3 = bs_handler b2" by auto
    then show "nothing_beforehand (bs_handler b') \<and> (if ok then uses_left (bs_scopes b') + 1 \<le> uses_left (bs_scopes b)
        else uses_left (bs_scopes b') \<le> uses_left (bs_scopes b)) \<and> 0 \<le> uses_left (bs_scopes b')"
      using run uses h state by (auto simp: approve_call_def r uses_left_nonneg)
  qed (use assms(2) uses_left_nonneg in auto)
  then show ?thesis by (simp add: uses_left_def)
qed


definition sample_scope :: ApprovalScope where
  "sample_scope = \<lparr> as_id = ''s'', as_run_id = ''r1'', as_transport = Some ''native_tool_call'', as_server_origin = Some ''tool_executor'',
     as_tool = Some ''write_file'', as_agent = None, as_target = None, as_path = Some ''/ws/n'', as_risk = Some RISK_WRITE,
     as_expires_at = Some 300, as_uses = Some 1, as_all_in_run = False \<rparr>"

definition sample_calls :: "(BrokerEnv \<times> ToolCall \<times> PathPermission option) list" where
  "sample_calls = replicate 3 (sample_broker_env, append_call ''n'', None)"

theorem scope_uses_bounded_witness:
  "int (granted sample_calls (new_broker\<lparr>bs_scopes := [sample_scope]\<rparr>)) \<le> 1 \<and> granted sample_calls (new_broker\<lparr>bs_scopes := [sample_scope]\<rparr>) = 1"
proof
  have "int (granted sample_calls (new_broker\<lparr>bs_scopes := [sample_scope]\<rparr>)) \<le> sum_list (map scope_uses (bs_scopes (new_broker\<lparr>bs_scopes := [sample_scope]\<rparr>)))"
  proof (rule scope_uses_bounded)
    show "\<forall>(env, call, permission) \<in> set sample_calls. not_automatic env (classify_call env call)" by code_simp
    show "nothing_beforehand (bs_handler (new_broker\<lparr>bs_scopes := [sample_scope]\<rparr>))"
      by (simp add: nothing_beforehand_def asks_person_def new_broker_def new_pre_approval_def)
  qed
  then show "int (granted sample_calls (new_broker\<lparr>bs_scopes := [sample_scope]\<rparr>)) \<le> 1" by (simp add: sample_scope_def scope_uses_def)
qed code_simp

definition delegates_within :: "pystr \<Rightarrow> int \<Rightarrow> BrokerEnv \<Rightarrow> ToolCall \<Rightarrow> bool" where
  "delegates_within k n env call \<longleftrightarrow> tool_name call = ''tasks_delegate'' \<and> (case call_context call of
     Some (MetaContext c) \<Rightarrow> context_scope_key env c = k \<and> (case tc_delegation_budget c of None \<Rightarrow> be_delegation_budget env | Some m \<Rightarrow> m) \<le> n
   | _ \<Rightarrow> False)"

lemma delegate_risk: "tool_name call = ''tasks_delegate'' \<Longrightarrow> classify_call env call = RISK_DELEGATION"
proof -
  assume name: "tool_name call = ''tasks_delegate''"
  have "map_option tm_risk (get_tool_metadata ''tasks_delegate'') = Some RISK_DELEGATION" by code_simp
  then show ?thesis using name by (auto simp: classify_call_def)
qed

lemma budget_step:
  assumes "delegation_within_budget env r True b = (ok, b')" "context_scope_key env (ar_context r) = k"
    "(case tc_delegation_budget (ar_context r) of None \<Rightarrow> be_delegation_budget env | Some m \<Rightarrow> m) \<le> n"
  shows "(if ok then budget_used b' k = budget_used b k + 1 \<and> budget_used b' k \<le> n else b' = b) \<and> bs_scopes b' = bs_scopes b \<and> bs_handler b' = bs_handler b"
  using assms by (auto simp: delegation_within_budget_def Let_def budget_used_def update_conv' split: if_splits option.splits)

text \<open>
  C17. The delegations of a run stay within its budget: calls whose trusted contexts have the same scope key and budgets of at
  most \<open>n\<close> are granted at most as many times as the budget has left.
\<close>

theorem delegation_budget_holds:
  assumes "\<forall>(env, call, permission) \<in> set calls. delegates_within k n env call" "nothing_beforehand (bs_handler b)" "bs_scopes b = []"
  shows "int (granted calls b) \<le> max 0 (n - budget_used b k)"
proof (rule granted_bound [where good = "\<lambda>b. nothing_beforehand (bs_handler b) \<and> bs_scopes b = []"])
  fix env call permission b ok b'
  assume call: "(env, call, permission) \<in> set calls" and good: "nothing_beforehand (bs_handler b) \<and> bs_scopes b = []"
    and run: "approve_call env (\<lambda>_. Unanswered) call True permission b = (ok, b')"
  obtain r b1 where r: "create_request env call permission None b = (r, b1)" by fastforce
  note state = create_request_state [OF r]
  have within: "delegates_within k n env call" using assms(1) call by auto
  then have ctx: "context_scope_key env (ar_context r) = k" "(case tc_delegation_budget (ar_context r) of None \<Rightarrow> be_delegation_budget env | Some m \<Rightarrow> m) \<le> n"
    using state by (auto simp: delegates_within_def build_context_def Let_def split: option.splits meta_value.splits json.splits)
  have risk: "ar_risk r = RISK_DELEGATION" using state within delegate_risk by (simp add: delegates_within_def)
  define b0 where "b0 = record_decision env ''request'' r None b1"
  have b0: "bs_scopes b0 = []" "bs_handler b0 = bs_handler b" "budget_used b0 k = budget_used b k"
    using state good by (simp_all add: b0_def budget_used_def)
  obtain m b2 where m: "can_auto_approve env r True True b0 = (m, b2)" by fastforce
  then have "(m, b2) = (False, b0) \<or> delegation_within_budget env r True b0 = (m, b2)"
    using risk b0(1) by (auto simp: can_auto_approve_def no_scopes_no_match auto_approved_def split: if_splits)
  then have step: "(if m then budget_used b2 k = budget_used b0 k + 1 \<and> budget_used b2 k \<le> n else b2 = b0) \<and> bs_scopes b2 = bs_scopes b0 \<and> bs_handler b2 = bs_handler b0"
    using budget_step [OF _ ctx, of b0 m b2] by auto
  then have quiet: "nothing_beforehand (bs_handler b2)" using good b0 by simp
  from unanswered_decision [OF m [unfolded b0_def] quiet] obtain b3 where b3: "decide_request env (\<lambda>_. Unanswered) r True b1 = (m, b3)"
    "bs_scopes b3 = bs_scopes b2" "bs_handler b3 = bs_handler b2" "bs_budget b3 = bs_budget b2" by blast
  then have "ok = m" "b' = b3" using run by (auto simp: approve_call_def r)
  then show "(nothing_beforehand (bs_handler b') \<and> bs_scopes b' = []) \<and>
      (if ok then max 0 (n - budget_used b' k) + 1 \<le> max 0 (n - budget_used b k) else max 0 (n - budget_used b' k) \<le> max 0 (n - budget_used b k)) \<and>
      0 \<le> max 0 (n - budget_used b' k)"
    using step b3 b0 quiet by (auto simp: budget_used_def split: if_splits)
qed (use assms in auto)

definition delegate_call :: ToolCall where
  "delegate_call = \<lparr> tool_name = ''tasks_delegate'', arguments = [(''target_agent'', JStr ''x'')], call_id = None,
     metadata = Some [(''trusted_context'', MetaContext ((native_context ''r1'')\<lparr>tc_delegation_budget := Some 2\<rparr>))] \<rparr>"

theorem delegation_budget_holds_witness:
  "int (granted (replicate 4 (sample_broker_env, delegate_call, None)) new_broker) \<le> 2 \<and>
    granted (replicate 4 (sample_broker_env, delegate_call, None)) new_broker = 2"
proof
  have "int (granted (replicate 4 (sample_broker_env, delegate_call, None)) new_broker) \<le> max 0 (2 - budget_used new_broker ''run:r1'')"
  proof (rule delegation_budget_holds)
    show "\<forall>(env, call, permission) \<in> set (replicate 4 (sample_broker_env, delegate_call, None)). delegates_within ''run:r1'' 2 env call" by code_simp
    show "nothing_beforehand (bs_handler new_broker)" by (simp add: nothing_beforehand_def asks_person_def new_broker_def new_pre_approval_def)
  qed (simp add: new_broker_def)
  then show "int (granted (replicate 4 (sample_broker_env, delegate_call, None)) new_broker) \<le> 2" by (simp add: new_broker_def budget_used_def)
qed code_simp

end
