(* ===== verification/Approval_Rules.thy ===== *)
theory Approval_Rules
  imports Approval_Guarantees
begin

text \<open>
  Three rules of approval seen from outside: what the level \<open>deny\<close> does, why no permission for a path is ever asked,
  and that the executor's forecast of a prompt is on the safe side.
\<close>

section \<open>Metadata of a call\<close>

lemma arg_meta [simp]: "arg (call\<lparr>metadata := m\<rparr>) k = arg call k"
  by (simp add: arg_def)

lemma args_meta [simp]:
  "str_default env (call\<lparr>metadata := m\<rparr>) k d = str_default env call k d"
  "text_default (call\<lparr>metadata := m\<rparr>) k d = text_default call k d"
  by (simp_all add: str_default_def text_default_def)

lemma calls_meta [simp]:
  "classify_call env (call\<lparr>metadata := m\<rparr>) = classify_call env call"
  "extract_path env (call\<lparr>metadata := m\<rparr>) permission = extract_path env call permission"
  "extract_command env (call\<lparr>metadata := m\<rparr>) = extract_command env call"
  "requires_approval env policy (call\<lparr>metadata := m\<rparr>) = requires_approval env policy call"
  "check_path_permission fenv (call\<lparr>metadata := m\<rparr>) = check_path_permission fenv call"
  by (simp_all add: classify_call_def http_method_def extract_path_def extract_command_def requires_approval_def
      check_path_permission_def requires_path_permission_def cong: option.case_cong if_cong)

lemma create_request_meta:
  assumes "call_context (call\<lparr>metadata := m\<rparr>) = call_context call"
  shows "create_request env (call\<lparr>metadata := m\<rparr>) permission reason b = create_request env call permission reason b"
proof -
  have "build_context env (call\<lparr>metadata := m\<rparr>) b = build_context env call b" by (simp add: build_context_def assms)
  moreover have "request_summary env (call\<lparr>metadata := m\<rparr>) = request_summary env call" by (intro ext) (simp add: request_summary_def cong: option.case_cong if_cong)
  ultimately show ?thesis by (simp add: create_request_def)
qed

lemma context_with_id:
  "call_context (call\<lparr>metadata := Some (AList.update ''tool_call_id'' v kvs)\<rparr>) = call_context (call\<lparr>metadata := Some kvs\<rparr>)"
  by (simp add: call_context_def Let_def update_conv')

lemma own_metadata: "metadata call = m \<Longrightarrow> call\<lparr>metadata := m\<rparr> = call"
  by (cases call) simp

lemma with_id_context:
  assumes "call_context call = Some (MetaContext c)" "with_tool_call_id env call s = (Inr call', s')"
  shows "s' = s \<and> (\<exists>m. call' = call\<lparr>metadata := m\<rparr> \<and> call_context call' = call_context call)"
proof -
  obtain kvs where kvs: "metadata call = Some kvs" using assms(2) by (cases "metadata call") (auto simp: with_tool_call_id_def act_raise_def)
  let ?finish = "\<lambda>i. if i = [] then call else call\<lparr>metadata := Some (AList.update ''tool_call_id'' (MetaJson (JStr i)) kvs)\<rparr>"
  have finish: "\<exists>m. ?finish i = call\<lparr>metadata := m\<rparr> \<and> call_context (?finish i) = call_context call" for i
  proof (cases "i = []")
    case True
    then show ?thesis using own_metadata [OF kvs] by (intro exI [of _ "Some kvs"]) simp
  next
    case False
    have "call_context (?finish i) = call_context call"
      using False context_with_id [where call = call and v = "MetaJson (JStr i)" and kvs = kvs] own_metadata [OF kvs] by simp
    with False show ?thesis by (intro exI [of _ "Some (AList.update ''tool_call_id'' (MetaJson (JStr i)) kvs)"]) simp
  qed
  have same: "s\<lparr>xs_broker := xs_broker s\<rparr> = s" by simp
  have "\<exists>i. call' = ?finish i \<and> s' = s"
    using assms(2) same
    by (auto simp: with_tool_call_id_def kvs Let_def act_return_def act_bind_def x_broker_def build_context_def assms(1)
        split: option.splits meta_value.splits if_splits)
  then show ?thesis using finish by auto
qed

section \<open>Approved without a person\<close>

lemma auto_same:
  assumes "bs_scopes b = bs_scopes b'" "bs_budget b = bs_budget b'"
  shows "fst (can_auto_approve env r needs c b) = fst (can_auto_approve env r needs c' b')"
proof -
  have match: "fst (consume_matching_scope env r c b) = fst (consume_matching_scope env r c' b')"
    using assms(1) by (simp add: consume_matching_scope_def Let_def split: option.split)
  have "bs_budget (snd (consume_matching_scope env r c b)) = bs_budget b" for c b
    by (simp add: consume_matching_scope_def Let_def split: option.split)
  moreover have "fst (auto_approved env r needs c b1) = fst (auto_approved env r needs c' b2)" if "bs_budget b1 = bs_budget b2" for b1 b2
    using that by (auto simp: auto_approved_def delegation_within_budget_def budget_used_def Let_def split: AutonomyLevel.split)
  ultimately show ?thesis using match assms(2) by (simp add: can_auto_approve_def split: prod.split) (metis fst_conv snd_conv)
qed

lemma auto_ignores_person:
  assumes "fst (can_auto_approve env (fst (create_request env call permission None b)) needs False (snd (create_request env call permission None b)))"
  shows "approve_call env human call needs permission b = approve_call env human' call needs permission b"
proof -
  obtain r b1 where r: "create_request env call permission None b = (r, b1)" by fastforce
  have "fst (can_auto_approve env r needs True (record_decision env ''request'' r None b1))"
    using assms auto_same [of b1 "record_decision env ''request'' r None b1" env r needs False True] by (simp add: r)
  then show ?thesis by (auto simp: approve_call_def r decide_request_def Let_def split: prod.split)
qed


lemma create_request_handler:
  "fst (create_request env call permission reason (b\<lparr>bs_handler := h\<rparr>)) = fst (create_request env call permission reason b)"
proof -
  have fresh: "fresh_id env (b\<lparr>bs_handler := h\<rparr>) = (fst (fresh_id env b), (snd (fresh_id env b))\<lparr>bs_handler := h\<rparr>)" for b
    by (simp add: fresh_id_def)
  have "build_context env call (b\<lparr>bs_handler := h\<rparr>) = (fst (build_context env call b), (snd (build_context env call b))\<lparr>bs_handler := h\<rparr>)"
    by (simp add: build_context_def Let_def fresh split: option.split meta_value.split json.split prod.split)
  then show ?thesis by (simp add: create_request_def Let_def fresh split: prod.split)
qed

lemma in_call_scope_cong:
  assumes "\<And>h. f (b\<lparr>bs_handler := h\<rparr>) = g (b\<lparr>bs_handler := h\<rparr>)"
  shows "in_call_scope env call f b = in_call_scope env call g b"
  using assms [of "bs_handler b"] by (auto simp: in_call_scope_def assms Let_def split: option.split prod.split)

lemma human_other:
  "xe_files (env\<lparr>xe_human := human\<rparr>) = xe_files env" "xe_broker (env\<lparr>xe_human := human\<rparr>) = xe_broker env"
  "xe_policy (env\<lparr>xe_human := human\<rparr>) = xe_policy env" "xe_validate (env\<lparr>xe_human := human\<rparr>) = xe_validate env"
  "xe_patch (env\<lparr>xe_human := human\<rparr>) = xe_patch env" "xe_others (env\<lparr>xe_human := human\<rparr>) = xe_others env"
  "xe_preview_error (env\<lparr>xe_human := human\<rparr>) = xe_preview_error env" "xe_meanwhile (env\<lparr>xe_human := human\<rparr>) = xe_meanwhile env"
  "xe_human (env\<lparr>xe_human := human\<rparr>) = human"
  by (simp_all add: xe_files_def xe_patch_def)

lemma authorize_cong:
  assumes "\<And>permission. check_path_permission (xe_files env) c = Inr permission \<Longrightarrow>
      proceed (requires_approval (xe_broker env) (xe_policy env) c) permission s = proceed' (requires_approval (xe_broker env) (xe_policy env) c) permission s"
  shows "authorize env c proceed s = authorize env c proceed' s"
  using assms by (auto simp: authorize_def act_bind_def act_get_def x_lift_def act_raise_def act_return_def split: sum.split)

lemma execute_approved_cong:
  assumes "in_call_scope env c (approve_call (xe_broker env) human c needs permission) (xs_broker s) =
      in_call_scope env c (approve_call (xe_broker env) (xe_human env) c needs permission) (xs_broker s)"
  shows "execute_approved (env\<lparr>xe_human := human\<rparr>) c needs permission s = execute_approved env c needs permission s"
proof -
  have scope: "in_call_scope (env\<lparr>xe_human := human\<rparr>) c f b = in_call_scope env c f b" for f :: "BrokerState \<Rightarrow> bool \<times> BrokerState" and b
    unfolding in_call_scope_def call_scope_def human_other ..
  have handler: "run_handler_of (env\<lparr>xe_human := human\<rparr>) c = run_handler_of env c"
    unfolding run_handler_of_def human_other ..
  have approve: "x_broker (in_call_scope env c (approve_call (xe_broker env) human c needs permission)) s =
      x_broker (in_call_scope env c (approve_call (xe_broker env) (xe_human env) c needs permission)) s"
    by (simp only: x_broker_def assms)
  show ?thesis unfolding execute_approved_def human_other handler scope
    by (cases "xe_preview_error env c") (simp_all add: act_then_def act_bind_def act_return_def act_raise_def approve)
qed

section \<open>Permissions for paths\<close>

lemma path_permission_tools:
  assumes "requires_path_permission call"
  shows "tool_name call \<in> {''list_files'', ''read_file'', ''grep_search'', ''remove_file''}"
proof -
  obtain m where m: "get_tool_metadata (tool_name call) = Some m" "tm_requires_path_permission m"
    using assms by (auto simp: requires_path_permission_def split: option.splits)
  have "list_all (\<lambda>(n, m). tm_requires_path_permission m \<longrightarrow> n \<in> {''list_files'', ''read_file'', ''grep_search'', ''remove_file''}) tool_table"
    by code_simp
  from tool_table_cases [OF m(1) this] m(2) show ?thesis by simp
qed

lemma validated_inside: "resolve_workspace_or_staging env raw = Inr q \<Longrightarrow> is_path_inside env (fe_resolve env (joined (fe_cwd env) raw)) (fe_cwd env)"
  by (auto simp: resolve_workspace_or_staging_def resolve_workspace_path_def Let_def bind_res_Inr split: if_splits)

lemma validated_file_path:
  assumes "validate_file_tool env t call = Inr ()" "tool_name call \<in> {''list_files'', ''read_file'', ''grep_search'', ''remove_file''}"
    "text_default call ''path'' ''.'' = Inr raw"
  shows "is_path_inside env (fe_resolve env (joined (fe_cwd env) raw)) (fe_cwd env)"
proof -
  have default: "str_default env call ''path'' ''.'' = raw" using assms(3)
    by (auto simp: text_default_def str_default_def py_str_def split: option.splits json.splits)
  have required: "raw' = raw" if "required_path env call = Inr raw'" for raw'
    using that assms(3) by (auto simp: required_path_def refuse_def text_default_def py_str_def split: option.splits json.splits if_splits)
  have "\<exists>q. resolve_workspace_or_staging env raw = Inr q"
    using assms(1,2) default required
    by (auto simp: validate_file_tool_def Let_def validate_read_file_def validate_grep_search_def validate_remove_file_def bind_res_Inr)
  then show ?thesis using validated_inside by blast
qed

section \<open>Properties\<close>

text \<open>
  The level \<open>deny\<close> of a policy blocks nothing: reading and network tools run without a question, and all others as soon as
  a person agrees; only what a person answers counts.
\<close>

theorem deny_only_asks:
  assumes "be_policy env = Some p" "level_for p (classify_call env call) = LEVEL_DENY" "classify_call env call \<noteq> RISK_DELEGATION"
    "bs_scopes b = []" "asks_person (be_thread env) (bs_handler b)"
  shows "fst (approve_call env human call needs None b) \<longleftrightarrow>
    classify_call env call \<in> {RISK_READ, RISK_NETWORK} \<and> \<not> needs \<or> fst (answer_decision (human (fst (create_request env call None None b))))"
proof -
  obtain r b1 where r: "create_request env call None None b = (r, b1)" by fastforce
  note state = create_request_state [OF r]
  have reason: "ar_reason r = None" using state by simp
  have auto: "can_auto_approve env r needs True (record_decision env ''request'' r None b1) =
      (classify_call env call \<in> {RISK_READ, RISK_NETWORK} \<and> \<not> needs, record_decision env ''request'' r None b1)"
    using assms(1-4) state reason by (simp add: can_auto_approve_def no_scopes_no_match auto_approved_def)
  have "fst (handler_approves (be_thread env) (human r) (ar_tool r) (ar_summary r) (bs_handler b1)) = fst (answer_decision (human r))"
    using asks_person_decides assms(5) state by simp
  then show ?thesis by (simp add: approve_call_def r decide_request_def auto Let_def split: prod.split) (metis fst_conv)
qed

definition deny_all :: WorkspacePolicy where
  "deny_all = strict_policy\<lparr>wp_read := LEVEL_DENY, wp_network := LEVEL_DENY, wp_write := LEVEL_DENY, wp_shell := LEVEL_DENY, wp_destructive := LEVEL_DENY\<rparr>"

theorem deny_only_asks_witness:
  "fst (approve_call (sample_broker_env\<lparr>be_policy := Some deny_all\<rparr>) (\<lambda>_. Unanswered) (read_call ''r1'') False None new_broker) \<and>
   fst (approve_call (sample_broker_env\<lparr>be_policy := Some deny_all\<rparr>) (\<lambda>_. Typed ''y'') (append_call ''n'') True None new_broker)"
proof
  have "fst (approve_call (sample_broker_env\<lparr>be_policy := Some deny_all\<rparr>) (\<lambda>_. Unanswered) (read_call ''r1'') False None new_broker) =
      (classify_call (sample_broker_env\<lparr>be_policy := Some deny_all\<rparr>) (read_call ''r1'') \<in> {RISK_READ, RISK_NETWORK} \<and> \<not> False \<or>
       fst (answer_decision Unanswered))"
    by (rule deny_only_asks [where p = deny_all]) (simp, code_simp+)
  moreover have "classify_call (sample_broker_env\<lparr>be_policy := Some deny_all\<rparr>) (read_call ''r1'') = RISK_READ" by code_simp
  ultimately show "fst (approve_call (sample_broker_env\<lparr>be_policy := Some deny_all\<rparr>) (\<lambda>_. Unanswered) (read_call ''r1'') False None new_broker)" by simp
qed code_simp

text \<open>
  No permission for a path outside the workspace is ever asked: the validators of the tools that would need it refuse such
  paths first, so neither \<open>allowed_read_roots\<close> nor an approval opens them.
\<close>

theorem no_path_permission_asked:
  assumes "validate_call env others policy t call = Inr ()" "fe_cwd env \<in> set (fe_read_roots env)"
    "\<forall>n \<in> set file_tool_names. map_of (tp_validators policy) n = Some FileValidator"
  shows "check_path_permission env call \<noteq> Inr (Some permission)"
proof
  assume asked: "check_path_permission env call = Inr (Some permission)"
  then obtain raw where raw: "requires_path_permission call" "text_default call ''path'' ''.'' = Inr raw"
    and out: "\<not> list_ex (is_path_inside env (fe_resolve env (joined (fe_cwd env) raw))) (fe_read_roots env)"
    by (auto simp: check_path_permission_def bind_res_Inr Let_def split: if_splits)
  note name = path_permission_tools [OF raw(1)]
  then have "map_of (tp_validators policy) (tool_name call) = Some FileValidator" using assms(3) by (auto simp: file_tool_names_def)
  then have "validate_file_tool env t call = Inr ()" using assms(1) by (auto simp: validate_call_def Let_def refuse_def split: if_splits)
  from validated_file_path [OF this name raw(2)] out assms(2) show False by (auto simp: list_ex_iff)
qed

theorem no_path_permission_asked_witness:
  "\<nexists>permission. check_path_permission sample_files (read_call ''r1'') = Inr (Some permission)"
proof
  have "validate_call sample_files (\<lambda>_ _ _. Inr ()) (builtin_policy new_policy) sample_tree (read_call ''r1'') = Inr ()" by code_simp
  moreover have "fe_cwd sample_files \<in> set (fe_read_roots sample_files)" by (simp add: sample_files_def)
  moreover have "\<forall>n \<in> set file_tool_names. map_of (tp_validators (builtin_policy new_policy)) n = Some FileValidator" by code_simp
  moreover assume "\<exists>permission. check_path_permission sample_files (read_call ''r1'') = Inr (Some permission)"
  ultimately show False using no_path_permission_asked by blast
qed

text \<open>
  C18. The forecast is on the safe side: if \<open>would_require_approval\<close> says that a call with a trusted context needs no
  approval, executing it from that state is the same whatever a person would answer, for nobody is asked.
\<close>

theorem forecast_is_safe:
  assumes "call_context (normalize_call call) = Some (MetaContext c)"
    "fst (would_require_approval env call s) = Inr False"
  shows "execute_call (env\<lparr>xe_human := human\<rparr>) call s = execute_call env call s"
proof -
  let ?n = "normalize_call call"
  obtain permission where perm: "check_path_permission (xe_files env) ?n = Inr permission"
    and no: "\<not> fst (should_request_approval (xe_broker env) ?n (requires_approval (xe_broker env) (xe_policy env) ?n) permission (xs_broker s))"
    using assms(2)
    by (auto simp: would_require_approval_def Let_def act_try_def authorize_def act_bind_def act_get_def x_lift_def act_raise_def act_return_def
        x_broker_def split: sum.splits prod.splits if_splits)
  let ?needs = "requires_approval (xe_broker env) (xe_policy env) ?n" and ?b = "xs_broker s"
  obtain r b1 where r: "create_request (xe_broker env) ?n permission None ?b = (r, b1)" by fastforce
  have auto: "fst (can_auto_approve (xe_broker env) r ?needs False b1)"
    using no by (simp add: should_request_approval_def r split: prod.splits)
  show ?thesis
  proof (cases "with_tool_call_id env ?n s")
    case (Pair q s')
    have same_id: "with_tool_call_id (env\<lparr>xe_human := human\<rparr>) ?n = with_tool_call_id env ?n"
      unfolding with_tool_call_id_def human_other ..
    show ?thesis
    proof (cases q)
      case (Inl e)
      then show ?thesis using Pair by (simp add: execute_call_def act_bind_def same_id)
    next
      case (Inr c')
      from with_id_context [OF assms(1) Pair [unfolded Inr]] obtain m where c': "s' = s" "c' = ?n\<lparr>metadata := m\<rparr>" "call_context c' = call_context ?n" by blast
      have approve: "approve_call (xe_broker env) human c' ?needs permission (?b\<lparr>bs_handler := h\<rparr>) =
          approve_call (xe_broker env) (xe_human env) c' ?needs permission (?b\<lparr>bs_handler := h\<rparr>)" for h
      proof (rule auto_ignores_person)
        have request: "create_request (xe_broker env) c' permission None b = create_request (xe_broker env) ?n permission None b" for b
          using create_request_meta c'(2,3) by metis
        have "fst (create_request (xe_broker env) c' permission None (?b\<lparr>bs_handler := h\<rparr>)) = r"
          by (simp add: request create_request_handler r)
        moreover obtain r2 b2 where r2: "create_request (xe_broker env) c' permission None (?b\<lparr>bs_handler := h\<rparr>) = (r2, b2)" by fastforce
        moreover have "bs_scopes b2 = bs_scopes b1" "bs_budget b2 = bs_budget b1"
          using create_request_state [OF r2] create_request_state [OF r] by simp_all
        ultimately show "fst (can_auto_approve (xe_broker env) (fst (create_request (xe_broker env) c' permission None (?b\<lparr>bs_handler := h\<rparr>)))
            ?needs False (snd (create_request (xe_broker env) c' permission None (?b\<lparr>bs_handler := h\<rparr>))))"
          using auto auto_same [of b2 b1 "xe_broker env" r ?needs False False] by simp
      qed
      have "execute_approved (env\<lparr>xe_human := human\<rparr>) c' ?needs permission s = execute_approved env c' ?needs permission s"
        by (rule execute_approved_cong, rule in_call_scope_cong, rule approve)
      moreover have "requires_approval (xe_broker env) (xe_policy env) c' = ?needs" "check_path_permission (xe_files env) c' = Inr permission"
        using c'(2) perm by simp_all
      ultimately have "authorize env c' (execute_approved (env\<lparr>xe_human := human\<rparr>) c') s = authorize env c' (execute_approved env c') s"
        by (intro authorize_cong) simp
      moreover have "authorize (env\<lparr>xe_human := human\<rparr>) = (authorize env :: ToolCall \<Rightarrow> (bool \<Rightarrow> PathPermission option \<Rightarrow> ToolResult exec_act) \<Rightarrow> ToolResult exec_act)"
        unfolding authorize_def human_other ..
      moreover have "failure_text (env\<lparr>xe_human := human\<rparr>) = failure_text env" unfolding failure_text_def human_other ..
      ultimately show ?thesis
        by (simp only: execute_call_def act_bind_def same_id Pair Inr c'(1) prod.case sum.case act_try_def)
    qed
  qed
qed


definition trusted_read :: ToolCall where
  "trusted_read = (read_call ''r1'')\<lparr>metadata := Some [(''trusted_context'', MetaContext (native_context ''r1''))]\<rparr>"

theorem forecast_is_safe_witness:
  "execute_call (sample_exec_env (Typed ''y'')) trusted_read sample_exec_state = execute_call (sample_exec_env Unanswered) trusted_read sample_exec_state"
proof -
  have "execute_call ((sample_exec_env Unanswered)\<lparr>xe_human := \<lambda>_. Typed ''y''\<rparr>) trusted_read sample_exec_state =
      execute_call (sample_exec_env Unanswered) trusted_read sample_exec_state"
    by (rule forecast_is_safe [where c = "native_context ''r1''"]) code_simp+
  then show ?thesis by (simp add: sample_exec_env_def)
qed

end
