(* ===== verification/Timestamps.thy ===== *)
theory Timestamps
  imports Prelude
begin

text \<open>
  What the coordinator uses of \<open>datetime\<close>: reading \<open>%Y-%m-%d %H:%M:%S\<close> with \<open>strptime\<close> and comparing
  moments in UTC. A moment is the number of microseconds since 0001-01-01 00:00:00
  (\<open>datetime.min\<close>); a text that \<open>strptime\<close> refuses gives \<open>None\<close> (\<open>ValueError\<close>).
\<close>

definition is_digit :: "char \<Rightarrow> bool" where
  "is_digit c \<longleftrightarrow> c \<in> set ''0123456789''"

definition digits_value :: "pystr \<Rightarrow> int" where
  "digits_value ds = foldl (\<lambda>n c. 10 * n + (int (of_char c) - 48)) 0 ds"

text \<open>A field of \<open>lo\<close> to \<open>hi\<close> digits with a value in a range, and the rest of the text.\<close>

definition num_field :: "nat \<Rightarrow> nat \<Rightarrow> int \<Rightarrow> int \<Rightarrow> pystr \<Rightarrow> (int \<times> pystr) option" where
  "num_field lo hi least most t =
     (let ds = takeWhile is_digit t; v = digits_value ds in
      if lo \<le> length ds \<and> length ds \<le> hi \<and> least \<le> v \<and> v \<le> most
      then Some (v, dropWhile is_digit t) else None)"

definition day_field :: "pystr \<Rightarrow> (int \<times> pystr) option" where
  "day_field t = (case t of
     CHR '' '' # rest \<Rightarrow> num_field 1 1 1 9 rest
   | _ \<Rightarrow> num_field 1 2 1 31 t)"

definition lit :: "char \<Rightarrow> pystr \<Rightarrow> pystr option" where
  "lit c t = (case t of [] \<Rightarrow> None | d # rest \<Rightarrow> if d = c then Some rest else None)"

text \<open>White space in the format matches one or more white-space characters.\<close>

definition blanks :: "pystr \<Rightarrow> pystr option" where
  "blanks t = (case t of [] \<Rightarrow> None | c # _ \<Rightarrow> if py_isspace c then Some (dropWhile py_isspace t) else None)"

definition leap :: "int \<Rightarrow> bool" where
  "leap y \<longleftrightarrow> y mod 4 = 0 \<and> (y mod 100 \<noteq> 0 \<or> y mod 400 = 0)"

definition month_days :: "int \<Rightarrow> int list" where
  "month_days y = [31, if leap y then 29 else 28, 31, 30, 31, 30, 31, 31, 30, 31, 30, 31]"

definition days_before :: "int \<Rightarrow> int \<Rightarrow> int" where
  "days_before y m = (y - 1) * 365 + (y - 1) div 4 - (y - 1) div 100 + (y - 1) div 400 +
     sum_list (take (nat (m - 1)) (month_days y))"

definition moment :: "int \<Rightarrow> int \<Rightarrow> int \<Rightarrow> int \<Rightarrow> int \<Rightarrow> int \<Rightarrow> int option" where
  "moment y mo d h mi sec =
     (if 1 \<le> y \<and> d \<le> month_days y ! nat (mo - 1) \<and> sec \<le> 59
      then Some (((((days_before y mo + d - 1) * 24 + h) * 60 + mi) * 60 + sec) * 1000000)
      else None)"

definition strptime :: "pystr \<Rightarrow> int option" where
  "strptime t =
     Option.bind (num_field 4 4 0 9999 t) (\<lambda>(y, t1). Option.bind (lit CHR ''-'' t1) (\<lambda>t2.
     Option.bind (num_field 1 2 1 12 t2) (\<lambda>(mo, t3). Option.bind (lit CHR ''-'' t3) (\<lambda>t4.
     Option.bind (day_field t4) (\<lambda>(d, t5). Option.bind (blanks t5) (\<lambda>t6.
     Option.bind (num_field 1 2 0 23 t6) (\<lambda>(h, t7). Option.bind (lit CHR '':'' t7) (\<lambda>t8.
     Option.bind (num_field 1 2 0 59 t8) (\<lambda>(mi, t9). Option.bind (lit CHR '':'' t9) (\<lambda>t10.
     Option.bind (num_field 1 2 0 61 t10) (\<lambda>(sec, t11).
     if t11 = [] then moment y mo d h mi sec else None)))))))))))"

text \<open>\<open>_parse_time\<close>: a missing text is \<open>datetime.min\<close>.\<close>

definition parse_time :: "pystr option \<Rightarrow> int option" where
  "parse_time t = (if or_empty t = [] then Some 0 else strptime (or_empty t))"

lemma strptime_sample: "strptime ''2024-02-29 23:59:58'' = Some 63844847998000000"
  by code_simp

lemma strptime_refuses: "strptime ''2023-02-29 00:00:00'' = None" "strptime ''2024-01-01'' = None"
  "strptime ''2024-01-01 24:00:00'' = None"
  by code_simp+

end
