(* ===== verification/Workflow_Presentation.thy ===== *)
theory Workflow_Presentation
  imports Workflow_Repository
begin

text \<open>
  The derived view of a workflow: the operational counts of a snapshot (\<open>WorkflowSnapshot.counts\<close>,
  \<open>quimera/workflows/models.py\<close>) and the plain-text summary shown to humans and to the coordinator
  (\<open>render_text\<close>, \<open>quimera/workflows/presentation.py\<close>). Both read the snapshot only.
\<close>

section \<open>Views by item\<close>

text \<open>\<open>by_item = {view.link.item_id: view for view in tasks}\<close>: the last view of an item counts.\<close>

definition by_item :: "TaskView list \<Rightarrow> pystr \<Rightarrow> TaskView option" where
  "by_item views x = find (\<lambda>v. l_item (v_link v) = x) (rev views)"

text \<open>A dependency that is not in the snapshot does not block (\<open>if dep in by_item\<close>).\<close>

definition dep_open :: "TaskView list \<Rightarrow> pystr \<Rightarrow> bool" where
  "dep_open views d = (case by_item views d of
     None \<Rightarrow> False | Some w \<Rightarrow> v_status w \<noteq> status_value COMPLETED)"

definition deps_done :: "TaskView list \<Rightarrow> TaskView \<Rightarrow> bool" where
  "deps_done views v = (\<not> list_ex (dep_open views) (v_dependencies v))"

section \<open>Counts\<close>

record WorkflowCounts =
  ct_total :: int
  ct_completed :: int
  ct_running :: int
  ct_pending :: int
  ct_blocked :: int
  ct_failed :: int
  ct_cancelled :: int

definition count_view :: "TaskView list \<Rightarrow> WorkflowCounts \<Rightarrow> TaskView \<Rightarrow> WorkflowCounts" where
  "count_view views c v =
     (if v_status v = ''completed'' then c\<lparr>ct_completed := ct_completed c + 1\<rparr>
      else if v_status v \<in> set [''in_progress'', ''pending_review'', ''reviewing'']
        then c\<lparr>ct_running := ct_running c + 1\<rparr>
      else if v_status v \<in> set [''failed'', ''rejected''] then c\<lparr>ct_failed := ct_failed c + 1\<rparr>
      else if v_status v = ''cancelled'' then c\<lparr>ct_cancelled := ct_cancelled c + 1\<rparr>
      else if list_ex (dep_open views) (v_dependencies v) then c\<lparr>ct_blocked := ct_blocked c + 1\<rparr>
      else c\<lparr>ct_pending := ct_pending c + 1\<rparr>)"

definition zero_counts :: "TaskView list \<Rightarrow> WorkflowCounts" where
  "zero_counts views = \<lparr> ct_total = int (length views), ct_completed = 0, ct_running = 0, ct_pending = 0,
     ct_blocked = 0, ct_failed = 0, ct_cancelled = 0 \<rparr>"

definition snapshot_counts :: "WorkflowSnapshot \<Rightarrow> WorkflowCounts" where
  "snapshot_counts sn = foldl (count_view (sn_tasks sn)) (zero_counts (sn_tasks sn)) (sn_tasks sn)"

section \<open>The text summary\<close>

definition status_label :: "pystr \<Rightarrow> pystr" where
  "status_label st = (case map_of [(''in_progress'', ''executando''),
       (''pending_review'', ''aguardando review''), (''reviewing'', ''em review''),
       (''pending'', ''pendente''), (''completed'', ''concluida''), (''failed'', ''falhou''),
       (''rejected'', ''rejeitada''), (''cancelled'', ''cancelada'')] st of
     None \<Rightarrow> st | Some label \<Rightarrow> label)"

text \<open>The middle dot U+00B7 between the parts of a line.\<close>

definition dot_sep :: pystr where
  "dot_sep = '' '' @ [CHR 0xB7] @ '' ''"

definition render_task :: "TaskView \<Rightarrow> pystr" where
  "render_task v =
     (let deps = (if v_dependencies v = [] then [] else '' <- '' @ py_join '','' (v_dependencies v));
          details = (if v_attempt_count v = 0 then [] else [''tentativa '' @ show_int (v_attempt_count v + 1)]) @
            (if v_rework_count v = 0 then [] else [''devolvida '' @ show_int (v_rework_count v) @ ''x'']);
          retries = (if details = [] then [] else '' ('' @ py_join '', '' details @ '')'') in
      ''  ['' @ l_item (v_link v) @ ''] task '' @ show_int (l_task (v_link v)) @ '' '' @
      status_label (v_status v) @ dot_sep @ text_or (or_empty (v_assigned_to v)) ''roteamento automatico'' @
      deps @ retries @ dot_sep @ v_title v)"

definition render_counts :: "WorkflowCounts \<Rightarrow> pystr" where
  "render_counts c = ''tasks: '' @ show_int (ct_total c) @ '' | concluidas '' @ show_int (ct_completed c) @
     '' | em execucao '' @ show_int (ct_running c) @ '' | pendentes '' @ show_int (ct_pending c) @
     '' | bloqueadas '' @ show_int (ct_blocked c) @ '' | falhas '' @ show_int (ct_failed c) @
     '' | canceladas '' @ show_int (ct_cancelled c)"

definition render_text :: "WorkflowSnapshot \<Rightarrow> pystr" where
  "render_text sn = (let w = sn_workflow sn in py_join [CHR 0x0A]
     ([''workflow '' @ show_int (w_id w) @ '' ['' @ w_status w @ ''] plano v'' @ show_int (w_plan_version w) @
         dot_sep @ ''coordenador '' @ w_coordinator w,
       ''objetivo: '' @ w_objective w,
       render_counts (snapshot_counts sn)] @
      (if or_empty (w_status_reason w) = [] then [] else [''motivo: '' @ or_empty (w_status_reason w)]) @
      map render_task (sn_tasks sn) @
      (if or_empty (w_result w) = [] then [] else [''resultado: '' @ or_empty (w_result w)])))"

section \<open>Every task is counted once\<close>

definition category_sum :: "WorkflowCounts \<Rightarrow> int" where
  "category_sum c = ct_completed c + ct_running c + ct_pending c + ct_blocked c + ct_failed c + ct_cancelled c"

lemma count_view_sum: "category_sum (count_view views c v) = category_sum c + 1"
  by (simp add: count_view_def category_sum_def)

lemma count_view_total: "ct_total (count_view views c v) = ct_total c"
  by (simp add: count_view_def)

lemma count_view_completed:
  "ct_completed (count_view views c v) = ct_completed c + (if v_status v = ''completed'' then 1 else 0)"
  by (simp add: count_view_def)

lemma count_views:
  "category_sum (foldl (count_view views) c vs) = category_sum c + int (length vs)"
  "ct_total (foldl (count_view views) c vs) = ct_total c"
  "ct_completed (foldl (count_view views) c vs) =
     ct_completed c + int (length (filter (\<lambda>v. v_status v = ''completed'') vs))"
  by (induction vs arbitrary: c) (simp_all add: count_view_sum count_view_total count_view_completed)

text \<open>
  The counts are a partition: the six categories add up to the total, which is the number of
  tasks of the snapshot; and a workflow counts as complete (completed = total) exactly when every
  task of the snapshot is completed.
\<close>

theorem counts_partition:
  "category_sum (snapshot_counts sn) = ct_total (snapshot_counts sn) \<and>
   ct_total (snapshot_counts sn) = int (length (sn_tasks sn)) \<and>
   (ct_completed (snapshot_counts sn) = ct_total (snapshot_counts sn) \<longleftrightarrow>
      list_all (\<lambda>v. v_status v = ''completed'') (sn_tasks sn))"
proof -
  have "length (filter p xs) = length xs \<longleftrightarrow> list_all p xs" for p :: "TaskView \<Rightarrow> bool" and xs
    by (metis filter_True length_filter_less less_irrefl list_all_iff)
  moreover have "category_sum (zero_counts vs) = 0" "ct_total (zero_counts vs) = int (length vs)"
    "ct_completed (zero_counts vs) = 0" for vs
    by (simp_all add: zero_counts_def category_sum_def)
  ultimately show ?thesis by (simp add: snapshot_counts_def count_views)
qed

end
