(* ===== verification/Workflow_Coordinator.thy ===== *)
theory Workflow_Coordinator
  imports Actions Timestamps Workflow_Presentation
begin

text \<open>
  \<open>WorkflowCoordinator\<close> (\<open>quimera/workflows/coordinator.py\<close>): creating, starting, pausing, resuming,
  cancelling, replanning and finishing workflows, their deterministic reconciliation with the
  database and the recovery after a restart. Every method is an action; each call of a repository
  is one transaction. What the code gets from its environment through callables is in the record
  \<open>CoordEnv\<close>: the members of the pool and the available ones, the current job, the live tasks, the
  clock (the text the repositories store and the moment \<open>now()\<close>), the digests, and the consultation
  of the coordinating agent, which may itself act on the system. Within one method a callable is
  read as one value.
\<close>

section \<open>Environment and errors\<close>

record CoordEnv =
  e_limits :: WorkflowLimits
  e_active :: "pystr list"
  e_available :: "pystr list"
  e_job :: "int option"
  e_live :: "int list option"
  e_clock :: pystr
  e_now :: int
  e_digest :: "json \<Rightarrow> pystr"
  e_sha :: "pystr \<Rightarrow> pystr"
  e_consult :: "(WorkflowRow \<Rightarrow> pystr \<Rightarrow> pystr \<Rightarrow> Sys \<Rightarrow> pystr option \<times> Sys) option"

datatype coord_error =
    StoreFailed store_error
  | PlanRefused plan_error
  | NoJob
  | CannotStart int pystr
  | CannotCancel int pystr
  | CannotMove int pystr pystr
  | SummaryMissing
  | NotAccepted "pystr list"
  | CannotConclude pystr
  | CannotMarkFailed pystr
  | UnknownOutcome
  | ResultRace int pystr int
  | BadTimestamp "pystr option"
  | TimeOutOfRange

text \<open>Which of them are a \<open>WorkflowError\<close>; the others are Python errors that \<open>tick\<close> does not catch.\<close>

fun store_workflow_error :: "store_error \<Rightarrow> bool" where
  "store_workflow_error (WorkflowNotFound _) = True"
| "store_workflow_error (WorkflowLimit _) = True"
| "store_workflow_error (VersionConflict _ _) = True"
| "store_workflow_error (NotReplannable _) = True"
| "store_workflow_error (ReplanLimit _) = True"
| "store_workflow_error _ = False"

fun workflow_error :: "coord_error \<Rightarrow> bool" where
  "workflow_error (StoreFailed e) = store_workflow_error e"
| "workflow_error (BadTimestamp _) = False"
| "workflow_error TimeOutOfRange = False"
| "workflow_error _ = True"

type_synonym 'a coord = "(coord_error, 'a) act"

definition of_result :: "('a \<Rightarrow> coord_error) \<Rightarrow> 'a + 'b \<Rightarrow> 'b coord" where
  "of_result err r = (case r of Inl e \<Rightarrow> act_raise (err e) | Inr x \<Rightarrow> act_return x)"

definition get_workflow :: "int \<Rightarrow> WorkflowRow coord" where
  "get_workflow wid = act_query StoreFailed (load_workflow wid)"

definition get_snapshot :: "int \<Rightarrow> WorkflowSnapshot coord" where
  "get_snapshot wid = act_query StoreFailed (snapshot wid)"

definition wake :: "unit coord" where
  "wake = act_effect Waken"

definition interrupt_tasks :: "int list \<Rightarrow> unit coord" where
  "interrupt_tasks ids = act_when (ids \<noteq> []) (act_effect (Interrupt ids))"

definition require_job :: "CoordEnv \<Rightarrow> int coord" where
  "require_job env = (case e_job env of None \<Rightarrow> act_raise NoJob | Some j \<Rightarrow> act_return j)"

text \<open>\<open>self._repo.set_status\<close> with the environment's clock.\<close>

definition repo_set_status :: "CoordEnv \<Rightarrow> int \<Rightarrow> WorkflowStatus \<Rightarrow> pystr option \<Rightarrow> WorkflowStatus list option
    \<Rightarrow> int option \<Rightarrow> bool \<Rightarrow> pystr option \<Rightarrow> (WorkflowRow \<times> int list) option coord" where
  "repo_set_status env wid target reason expected version cancel_tasks result =
     act_commit StoreFailed (set_status (e_clock env) wid target reason expected version cancel_tasks None result)"

definition move_workflow :: "CoordEnv \<Rightarrow> int \<Rightarrow> WorkflowStatus \<Rightarrow> WorkflowStatus list \<Rightarrow> pystr
    \<Rightarrow> int option \<Rightarrow> WorkflowRow coord" where
  "move_workflow env wid target expected reason version =
     act_bind (repo_set_status env wid target (Some reason) (Some expected) version False None) (\<lambda>changed.
     case changed of
       None \<Rightarrow> act_bind (get_workflow wid) (\<lambda>current.
         act_raise (CannotMove wid (w_status current) (wf_value target)))
     | Some (w, _) \<Rightarrow> act_return w)"

definition record_result :: "CoordEnv \<Rightarrow> int \<Rightarrow> pystr \<Rightarrow> WorkflowStatus \<Rightarrow> int \<Rightarrow> unit coord" where
  "record_result env wid summary status version =
     act_bind (act_write (set_result (e_clock env) wid summary status version False)) (\<lambda>done.
     if done then act_return ()
     else act_bind (get_workflow wid) (\<lambda>current.
       act_raise (ResultRace wid (w_status current) (w_plan_version current))))"

section \<open>Operations of the tools\<close>

definition validate :: "CoordEnv \<Rightarrow> json \<Rightarrow> pystr \<Rightarrow> WorkflowPlan coord" where
  "validate env payload requested_by =
     of_result PlanRefused (parse_plan payload requested_by (e_limits env) 1)"

text \<open>The basis of the publication key: the caller's \<open>idempotency_key\<close>, else the hash of the plan.\<close>

definition key_basis :: "CoordEnv \<Rightarrow> json \<Rightarrow> WorkflowPlan \<Rightarrow> pystr" where
  "key_basis env payload plan = (case payload of
     JObj kvs \<Rightarrow> (case obj_get kvs ''idempotency_key'' of
         JStr t \<Rightarrow> if py_strip t \<noteq> [] then t else plan_hash (e_digest env) plan
       | _ \<Rightarrow> plan_hash (e_digest env) plan)
   | _ \<Rightarrow> plan_hash (e_digest env) plan)"

definition publication_key :: "CoordEnv \<Rightarrow> int \<Rightarrow> pystr \<Rightarrow> pystr \<Rightarrow> pystr" where
  "publication_key env jid requested_by basis =
     e_sha env (show_int jid @ ''|'' @ requested_by @ ''|'' @ basis)"

definition create :: "CoordEnv \<Rightarrow> json \<Rightarrow> pystr \<Rightarrow> (WorkflowRow \<times> bool) coord" where
  "create env payload requested_by =
     act_bind (validate env payload requested_by) (\<lambda>plan.
     act_bind (require_job env) (\<lambda>jid.
     act_bind (act_commit StoreFailed (publish (e_digest env) (e_limits env) (e_clock env) plan jid
         (publication_key env jid requested_by (key_basis env payload plan)) (e_active env))) (\<lambda>result.
     act_then wake (act_return result))))"

definition start :: "CoordEnv \<Rightarrow> int \<Rightarrow> WorkflowRow coord" where
  "start env wid =
     act_bind (get_workflow wid) (\<lambda>w.
     if w_status w = wf_value WF_RUNNING then act_return w
     else act_bind (repo_set_status env wid WF_RUNNING (Some ''iniciado'') (Some [WF_READY]) None False None) (\<lambda>changed.
       case changed of
         None \<Rightarrow> act_raise (CannotStart wid (w_status w))
       | Some (w', _) \<Rightarrow> act_then wake (act_return w')))"

definition pause :: "CoordEnv \<Rightarrow> int \<Rightarrow> WorkflowRow coord" where
  "pause env wid =
     act_bind (move_workflow env wid WF_PAUSED [WF_RUNNING, WF_BLOCKED] ''pausado'' None) (\<lambda>w.
     act_then wake (act_return w))"

definition cancel :: "CoordEnv \<Rightarrow> int \<Rightarrow> pystr option \<Rightarrow> WorkflowRow coord" where
  "cancel env wid reason =
     act_bind (get_workflow wid) (\<lambda>w.
     if w_status w = wf_value WF_CANCELLED then act_return w
     else act_bind (repo_set_status env wid WF_CANCELLED (Some (non_empty_or reason ''cancelado'')) None None True None)
       (\<lambda>changed. case changed of
         None \<Rightarrow> act_raise (CannotCancel wid (w_status w))
       | Some (w', interrupted) \<Rightarrow>
           act_then (interrupt_tasks interrupted) (act_then wake (act_return w'))))"

definition coord_replan :: "CoordEnv \<Rightarrow> int \<Rightarrow> json \<Rightarrow> int \<Rightarrow> ReplanResult coord" where
  "coord_replan env wid payload base_version =
     act_bind (get_workflow wid) (\<lambda>current.
     act_bind (of_result PlanRefused (parse_plan payload (w_coordinator current) (e_limits env) (base_version + 1))) (\<lambda>plan.
     act_bind (act_commit StoreFailed (replan (e_digest env) (e_limits env) (e_clock env) wid plan base_version
         (e_active env) decide_kept)) (\<lambda>result.
     act_then (interrupt_tasks (rp_to_interrupt result))
       (act_then (act_when (rp_applied result) wake) (act_return result)))))"

section \<open>Explicit conclusion\<close>

definition finish_completed :: "CoordEnv \<Rightarrow> int \<Rightarrow> pystr \<Rightarrow> unit coord" where
  "finish_completed env wid summary =
     act_bind (get_snapshot wid) (\<lambda>sn.
     let w = sn_workflow sn;
         pending = map (\<lambda>v. l_item (v_link v)) (filter (\<lambda>v. v_status v \<noteq> ''completed'') (sn_tasks sn)) in
     if pending \<noteq> [] then act_raise (NotAccepted pending)
     else act_then
       (if w_status w = wf_value WF_RUNNING then
          act_then (move_workflow env wid WF_COMPLETED [WF_RUNNING] ''concluido pelo coordenador''
            (Some (w_plan_version w))) (act_return ())
        else if w_status w \<noteq> wf_value WF_COMPLETED then act_raise (CannotConclude (w_status w))
        else act_return ())
       (record_result env wid summary WF_COMPLETED (w_plan_version w)))"

definition finish_blocked :: "CoordEnv \<Rightarrow> int \<Rightarrow> pystr \<Rightarrow> WorkflowRow \<Rightarrow> unit coord" where
  "finish_blocked env wid summary w =
     act_then
       (if w_status w \<noteq> wf_value WF_BLOCKED then
          act_then (move_workflow env wid WF_BLOCKED [WF_RUNNING] (take 500 (''bloqueado: '' @ summary))
            (Some (w_plan_version w))) (act_return ())
        else act_return ())
       (record_result env wid summary WF_BLOCKED (w_plan_version w))"

definition finish_failed :: "CoordEnv \<Rightarrow> int \<Rightarrow> pystr \<Rightarrow> WorkflowRow \<Rightarrow> unit coord" where
  "finish_failed env wid summary w =
     act_bind (repo_set_status env wid WF_FAILED (Some (take 500 summary))
         (Some [WF_RUNNING, WF_BLOCKED, WF_PAUSED]) None True (Some summary)) (\<lambda>changed.
     case changed of
       None \<Rightarrow> act_raise (CannotMarkFailed (w_status w))
     | Some (_, interrupted) \<Rightarrow> interrupt_tasks interrupted)"

definition finish :: "CoordEnv \<Rightarrow> int \<Rightarrow> pystr \<Rightarrow> pystr \<Rightarrow> WorkflowRow coord" where
  "finish env wid outcome raw_summary =
     (let summary = py_strip raw_summary in
      if summary = [] then act_raise SummaryMissing
      else act_bind (get_workflow wid) (\<lambda>w.
        act_then
          (if outcome = ''completed'' then finish_completed env wid summary
           else if outcome = ''blocked'' then finish_blocked env wid summary w
           else if outcome = ''failed'' then finish_failed env wid summary w
           else act_raise UnknownOutcome)
          (act_then wake (get_workflow wid))))"

end
