(* ===== verification/Workflow_Reconcile.thy ===== *)
theory Workflow_Reconcile
  imports Workflow_Coordinator
begin

text \<open>
  The deterministic reconciliation of \<open>WorkflowCoordinator\<close> (\<open>tick\<close>, \<open>reconcile\<close> and its private
  steps \<open>_requeue_expired\<close>, \<open>_settle_unrunnable\<close>, \<open>_conclude\<close>), and \<open>resume\<close> and \<open>recover\<close>, which
  end in it.
\<close>

definition in_flight_view :: "TaskView \<Rightarrow> bool" where
  "in_flight_view v \<longleftrightarrow> v_status v \<in> set [''in_progress'', ''reviewing'']"

definition dead_view :: "TaskView \<Rightarrow> bool" where
  "dead_view v \<longleftrightarrow> v_status v \<in> set [''failed'', ''rejected'', ''cancelled'']"

definition ready_view :: "TaskView list \<Rightarrow> TaskView \<Rightarrow> bool" where
  "ready_view views v \<longleftrightarrow> v_status v = ''pending'' \<and> deps_done views v"

text \<open>\<open>_reviewable\<close>: somebody among \<open>agents\<close>, not the executor, can still review the delivery.\<close>

definition reviewable :: "Store \<Rightarrow> TaskView \<Rightarrow> pystr list \<Rightarrow> bool" where
  "reviewable s v agents =
     (let executor = py_lower (py_strip (or_empty (v_assigned_to v))) in
      can_review_task (l_task (v_link v)) (filter (\<lambda>a. py_lower (py_strip a) \<noteq> executor) agents) s)"

section \<open>Waiting for a suspended agent\<close>

definition notice_key :: "TaskView \<Rightarrow> int \<times> int \<times> pystr" where
  "notice_key v = (l_task (v_link v), v_attempt_count v, v_status v)"

definition workflow_prefix :: "int \<Rightarrow> pystr" where
  "workflow_prefix wid = ''[workflow '' @ show_int wid @ '']''"

definition task_prefix :: "int \<Rightarrow> TaskView \<Rightarrow> pystr" where
  "task_prefix wid v = workflow_prefix wid @ '' task '' @ show_int (l_task (v_link v)) @ '' ('' @
     l_item (v_link v) @ ''): ''"

definition notify_waiting :: "CoordEnv \<Rightarrow> int \<Rightarrow> TaskView \<Rightarrow> pystr \<Rightarrow> unit coord" where
  "notify_waiting env wid v role = (\<lambda>s.
     if notice_key v \<in> set (noticed s) then (Inr (), s)
     else let suspended = py_join '', '' (filter (\<lambda>a. a \<notin> set (e_available env)) (e_active env)) in
       act_effect (Notify (task_prefix wid v @ ''aguardando '' @ role @ '' disponivel (suspensos: '' @
         text_or suspended ''nenhum'' @ '')'')) (s\<lparr>noticed := notice_key v # noticed s\<rparr>))"

definition notify_no_reviewer :: "CoordEnv \<Rightarrow> int \<Rightarrow> TaskView \<Rightarrow> unit coord" where
  "notify_no_reviewer env wid v =
     act_bind (act_ask (\<lambda>d. reviewable d v (e_active env) \<and> \<not> reviewable d v (e_available env))) (\<lambda>waits.
     act_when waits (notify_waiting env wid v ''revisor''))"

section \<open>Expired leases\<close>

text \<open>
  \<open>_requeue_expired\<close>. The comparison with \<open>deadline\<close> is only made for a task in flight without a
  live execution; a time text that cannot be read raises there. \<open>now() - lease\<close> before
  \<open>datetime.min\<close> raises \<open>OverflowError\<close>.
\<close>

definition deadline :: "CoordEnv \<Rightarrow> int" where
  "deadline env = e_now env - lease_seconds (e_limits env) * 1000000"

fun expired_views :: "int list \<Rightarrow> int \<Rightarrow> TaskView list \<Rightarrow> coord_error + (int \<times> observation) list" where
  "expired_views live limit [] = Inr []"
| "expired_views live limit (v # vs) =
     (if in_flight_view v \<and> l_task (v_link v) \<notin> set live then
        (case parse_time (v_updated_at v) of
           None \<Rightarrow> Inl (BadTimestamp (v_updated_at v))
         | Some t \<Rightarrow> bind_res (expired_views live limit vs) (\<lambda>rest.
             Inr (if t < limit then (l_task (v_link v), v_status v, v_attempt_count v, v_updated_at v) # rest
                  else rest)))
      else expired_views live limit vs)"

definition requeue_expired :: "CoordEnv \<Rightarrow> WorkflowSnapshot \<Rightarrow> WorkflowSnapshot coord" where
  "requeue_expired env sn = (case e_live env of
     None \<Rightarrow> act_return sn
   | Some live \<Rightarrow>
       if deadline env < 0 then act_raise TimeOutOfRange
       else (case expired_views live (deadline env) (sn_tasks sn) of
         Inl e \<Rightarrow> act_raise e
       | Inr orphans \<Rightarrow>
           if orphans = [] then act_return sn
           else act_then (act_write (requeue_orphans (e_clock env) orphans ''lease expirado sem execucao ativa''))
             (get_snapshot (w_id (sn_workflow sn)))))"

section \<open>Tasks that cannot run\<close>

definition unassign_notice :: "int \<Rightarrow> TaskView \<Rightarrow> pystr \<Rightarrow> pystr" where
  "unassign_notice wid v owner = task_prefix wid v @ owner @
     '' indisponivel; a task passa para outro agente disponivel''"

text \<open>One turn of the loop of \<open>_settle_unrunnable\<close>; the result says whether the database changed.\<close>

definition settle_view :: "CoordEnv \<Rightarrow> int \<Rightarrow> TaskView list \<Rightarrow> TaskView \<Rightarrow> bool coord" where
  "settle_view env wid views v =
     (let tid = l_task (v_link v); owner = or_empty (v_assigned_to v) in
      if v_status v = ''pending_review'' then act_then (notify_no_reviewer env wid v) (act_return False)
      else if \<not> ready_view views v then act_return False
      else if owner \<noteq> [] \<and> owner \<notin> set (e_available env) then
        act_bind (act_write (unassign_pending_task (e_clock env) tid owner)) (\<lambda>released.
        if released then act_then (act_effect (Notify (unassign_notice wid v owner)))
          (act_then wake (act_return True))
        else act_return False)
      else
        act_bind (act_ask (\<lambda>d. (can_reassign_task tid (e_active env) d, can_reassign_task tid (e_available env) d)))
          (\<lambda>(somebody, available).
        let limit = max_task_attempts (e_limits env) in
        if v_rework_count v \<ge> limit then
          act_write (fail_task (e_clock env) tid (Some (''limite de '' @ show_int limit @
            '' entregas rejeitadas atingido'')) None (Some ''pending''))
        else if \<not> somebody then
          act_write (fail_task (e_clock env) tid (Some ''nenhum agente elegivel restante'') None (Some ''pending''))
        else act_then (act_when (\<not> available) (notify_waiting env wid v ''agente'')) (act_return False)))"

definition settle_unrunnable :: "CoordEnv \<Rightarrow> WorkflowSnapshot \<Rightarrow> WorkflowSnapshot coord" where
  "settle_unrunnable env sn =
     act_bind (act_each (settle_view env (w_id (sn_workflow sn)) (sn_tasks sn)) (sn_tasks sn)) (\<lambda>changes.
     if True \<in> set changes then get_snapshot (w_id (sn_workflow sn)) else act_return sn)"

section \<open>Conclusion and consultation\<close>

definition attention_text :: "WorkflowStatus \<Rightarrow> int \<Rightarrow> pystr list \<Rightarrow> pystr" where
  "attention_text target version failed = wf_value target @ '':v'' @ show_int version @ '':'' @ py_join '','' failed"

definition no_decision_notice :: "WorkflowRow \<Rightarrow> pystr" where
  "no_decision_notice w = workflow_prefix (w_id w) @ '' sem decisao de '' @ w_coordinator w @
     ''; o estado persistido foi mantido para decisao manual.''"

text \<open>The consultation: the answer is stored only if nothing changed in the meantime.\<close>

definition consult_coordinator :: "CoordEnv \<Rightarrow> WorkflowStatus \<Rightarrow> pystr \<Rightarrow> pystr
    \<Rightarrow> (WorkflowRow \<Rightarrow> pystr \<Rightarrow> pystr \<Rightarrow> Sys \<Rightarrow> pystr option \<times> Sys) \<Rightarrow> WorkflowRow \<Rightarrow> WorkflowRow coord" where
  "consult_coordinator env target attention text ask w =
     act_bind (\<lambda>s. let (answer, s') = ask w attention text s in (Inr (or_empty answer), s')) (\<lambda>answer.
     act_bind (if answer = [] then act_return False
         else act_write (set_result (e_clock env) (w_id w) answer target (w_plan_version w) True)) (\<lambda>stored.
     act_then (act_when stored (act_effect (Notify (workflow_prefix (w_id w) @ '' '' @ w_coordinator w @ '': '' @ answer))))
       (act_bind (get_workflow (w_id w)) (\<lambda>w'.
        act_then (act_when (answer = [] \<and> w_status w' = wf_value target \<and> or_empty (w_result w') = [])
            (act_effect (Notify (no_decision_notice w'))))
          (act_return w')))))"

definition conclude :: "CoordEnv \<Rightarrow> int \<Rightarrow> WorkflowStatus \<Rightarrow> pystr \<Rightarrow> WorkflowSnapshot \<Rightarrow> pystr list
    \<Rightarrow> WorkflowRow coord" where
  "conclude env wid target reason sn failed =
     act_bind (repo_set_status env wid target (Some reason) (Some [WF_RUNNING])
         (Some (w_plan_version (sn_workflow sn))) False None) (\<lambda>changed.
     case changed of
       None \<Rightarrow> get_workflow wid
     | Some (w, _) \<Rightarrow>
         let text = render_text (sn\<lparr>sn_workflow := w\<rparr>);
             attention = attention_text target (w_plan_version w) failed in
         act_then (act_effect (Notify text))
           (case e_consult env of
              None \<Rightarrow> act_return w
            | Some ask \<Rightarrow>
                act_bind (act_write (claim_consult (e_limits env) (e_clock env) (w_id w) attention)) (\<lambda>claimed.
                if claimed then consult_coordinator env target attention text ask w else act_return w)))"

section \<open>Reconciliation\<close>

datatype verdict = Complete | Continue | Block pystr "pystr list"

text \<open>What \<open>reconcile\<close> decides from the views; \<open>can_be_reviewed\<close> is the query of each waiting delivery.\<close>

definition judge :: "(TaskView \<Rightarrow> bool) \<Rightarrow> TaskView list \<Rightarrow> verdict" where
  "judge can_be_reviewed views =
     (if list_all (\<lambda>v. v_status v = ''completed'') views then Complete
      else if list_ex (\<lambda>v. in_flight_view v \<or> (v_status v = ''pending_review'' \<and> can_be_reviewed v)) views
           \<or> list_ex (ready_view views) views then Continue
      else let failed = sort (map (\<lambda>v. l_item (v_link v)) (filter dead_view views));
               unreviewed = sort (map (\<lambda>v. l_item (v_link v)) (filter (\<lambda>v. v_status v = ''pending_review'') views)) in
        if unreviewed \<noteq> [] \<and> failed = [] then
          Block (''revisao sem revisor elegivel no pool: '' @ py_join '', '' unreviewed) failed
        else Block (''tarefas bloqueadas por falhas: '' @ text_or (py_join '', '' failed) ''dependencias'') failed)"

definition reconcile :: "CoordEnv \<Rightarrow> int \<Rightarrow> WorkflowRow coord" where
  "reconcile env wid =
     act_bind (get_workflow wid) (\<lambda>w.
     if w_status w \<noteq> wf_value WF_RUNNING then act_return w
     else
       act_bind (get_snapshot wid) (\<lambda>sn0.
       act_bind (requeue_expired env sn0) (\<lambda>sn1.
       act_bind (settle_unrunnable env sn1) (\<lambda>sn.
       act_bind (act_ask (\<lambda>d. judge (\<lambda>v. reviewable d v (e_active env)) (sn_tasks sn))) (\<lambda>decision.
       case decision of
         Complete \<Rightarrow> conclude env (w_id w) WF_COMPLETED ''plano concluido'' sn []
       | Continue \<Rightarrow> act_return w
       | Block reason failed \<Rightarrow> conclude env (w_id w) WF_BLOCKED reason sn failed)))))"

definition resume :: "CoordEnv \<Rightarrow> int \<Rightarrow> WorkflowRow coord" where
  "resume env wid =
     act_bind (require_job env) (\<lambda>jid.
     act_bind (get_workflow wid) (\<lambda>w.
     if w_status w = wf_value WF_RUNNING then act_return w
     else
       act_then (if w_status w = wf_value WF_PAUSED \<and> w_job_id w \<noteq> jid
           then act_then (act_commit StoreFailed (adopt (e_clock env) wid jid ''pausado'')) (act_return ())
           else act_return ())
         (act_bind (move_workflow env wid WF_RUNNING [WF_PAUSED] ''retomado'' None) (\<lambda>w'.
          act_then wake (reconcile env (w_id w'))))))"

text \<open>\<open>tick\<close>: a \<open>WorkflowError\<close> of one workflow is logged and the next one is reconciled.\<close>

definition tick :: "CoordEnv \<Rightarrow> unit coord" where
  "tick env =
     act_bind (act_query StoreFailed (list_workflows None (Some [WF_RUNNING]))) (\<lambda>ws.
     act_then (act_each (\<lambda>w. act_try workflow_error (act_then (reconcile env (w_id w)) (act_return ()))
         (\<lambda>_. act_return ())) ws) (act_return ()))"

definition recovered_notice :: "int \<Rightarrow> pystr" where
  "recovered_notice wid = workflow_prefix wid @
     '' recuperado apos reinicio e pausado; retome com workflows_control (resume).''"

definition recover_one :: "CoordEnv \<Rightarrow> int \<Rightarrow> WorkflowRow \<Rightarrow> WorkflowRow coord" where
  "recover_one env jid w =
     act_bind (act_commit StoreFailed (adopt (e_clock env) (w_id w) jid
         ''recuperado apos reinicio; retome com workflows_control resume'')) (\<lambda>paused.
     act_then (act_when paused (act_effect (Notify (recovered_notice (w_id w)))))
       (get_workflow (w_id w)))"

definition recover :: "CoordEnv \<Rightarrow> WorkflowRow list coord" where
  "recover env = (case e_job env of
     None \<Rightarrow> act_return []
   | Some jid \<Rightarrow>
       act_bind (act_query StoreFailed (list_workflows None (Some open_workflow_states))) (\<lambda>ws.
       act_each (recover_one env jid) ws))"

end
