(* ===== verification/Coordinator_Interleaving.thy ===== *)
theory Coordinator_Interleaving
  imports Workflow_Reconcile
begin

text \<open>
  The methods of \<open>WorkflowCoordinator\<close> that decide the end of a workflow (\<open>reconcile\<close> and
  \<open>finish\<close>, \<open>quimera/workflows/coordinator.py\<close>), statement by statement with other actors between
  their transactions. \<open>Workflow_Coordinator\<close> and \<open>Workflow_Reconcile\<close> give the same methods when
  nobody else acts; here every \<open>SELECT\<close> of a snapshot, every query and every write is a transaction
  of its own, and before each of them the workers, the agents and the other threads may have moved
  the database. \<open>Coordinator_Completion\<close> shows that without other actors both agree.
\<close>

section \<open>Transactions among others\<close>

text \<open>
  The system, what the others will do before the next transactions (one move for each, in order;
  nothing once the list is used up), and the database before and after each of the method's own
  transactions.
\<close>

record Shared =
  sh_sys :: Sys
  sh_others :: "(Store \<Rightarrow> Store) list"
  sh_commits :: "(Store \<times> Store) list"

abbreviation store_of :: "Shared \<Rightarrow> Store" where
  "store_of sh \<equiv> db (sh_sys sh)"

type_synonym 'a shared = "(Shared, coord_error, 'a) action"

definition others_act :: "Shared \<Rightarrow> Shared" where
  "others_act sh = (case sh_others sh of
     [] \<Rightarrow> sh
   | f # fs \<Rightarrow> sh\<lparr>sh_sys := (sh_sys sh)\<lparr>db := f (db (sh_sys sh))\<rparr>, sh_others := fs\<rparr>)"

text \<open>A transaction of the method, an action of somebody it calls, and a step outside the database.\<close>

definition tx :: "'a coord \<Rightarrow> 'a shared" where
  "tx m = (\<lambda>sh. let sh1 = others_act sh; (r, s') = m (sh_sys sh1) in
     (r, sh1\<lparr>sh_sys := s', sh_commits := sh_commits sh1 @ [(store_of sh1, db s')]\<rparr>))"

definition foreign :: "'a coord \<Rightarrow> 'a shared" where
  "foreign m = (\<lambda>sh. let sh1 = others_act sh; (r, s') = m (sh_sys sh1) in (r, sh1\<lparr>sh_sys := s'\<rparr>))"

definition plain :: "'a coord \<Rightarrow> 'a shared" where
  "plain m = (\<lambda>sh. let (r, s') = m (sh_sys sh) in (r, sh\<lparr>sh_sys := s'\<rparr>))"

section \<open>The snapshot\<close>

text \<open>
  \<open>WorkflowRepository.snapshot\<close>: the row, the current links and the specifications are three
  statements of one connection outside a transaction, the task rows one statement of another.
\<close>

definition snapshot_amid :: "int \<Rightarrow> WorkflowSnapshot shared" where
  "snapshot_amid wid =
     act_bind (tx (get_workflow wid)) (\<lambda>w.
     act_bind (tx (act_ask (current_links wid))) (\<lambda>ls.
     act_bind (tx (act_query StoreFailed (plan_specs wid (w_plan_version w)))) (\<lambda>specs.
     act_bind (tx (act_query StoreFailed (\<lambda>d. map_res (task_view d specs) ls))) (\<lambda>views.
     act_return \<lparr> sn_workflow = w, sn_tasks = views \<rparr>))))"

section \<open>Reconciliation\<close>

definition requeue_expired_amid :: "CoordEnv \<Rightarrow> WorkflowSnapshot \<Rightarrow> WorkflowSnapshot shared" where
  "requeue_expired_amid env sn = (case e_live env of
     None \<Rightarrow> act_return sn
   | Some live \<Rightarrow>
       if deadline env < 0 then act_raise TimeOutOfRange
       else (case expired_views live (deadline env) (sn_tasks sn) of
         Inl e \<Rightarrow> act_raise e
       | Inr orphans \<Rightarrow>
           if orphans = [] then act_return sn
           else act_then (tx (act_write (requeue_orphans (e_clock env) orphans ''lease expirado sem execucao ativa'')))
             (snapshot_amid (w_id (sn_workflow sn)))))"

definition notify_no_reviewer_amid :: "CoordEnv \<Rightarrow> int \<Rightarrow> TaskView \<Rightarrow> unit shared" where
  "notify_no_reviewer_amid env wid v =
     act_bind (tx (act_ask (\<lambda>d. reviewable d v (e_active env)))) (\<lambda>possible.
     if \<not> possible then act_return ()
     else act_bind (tx (act_ask (\<lambda>d. reviewable d v (e_available env)))) (\<lambda>now.
       act_when (\<not> now) (plain (notify_waiting env wid v ''revisor''))))"

definition fail_unrunnable_amid :: "CoordEnv \<Rightarrow> int \<Rightarrow> pystr \<Rightarrow> bool shared" where
  "fail_unrunnable_amid env tid reason =
     tx (act_write (fail_task (e_clock env) tid (Some reason) None (Some ''pending'')))"

definition settle_view_amid :: "CoordEnv \<Rightarrow> int \<Rightarrow> TaskView list \<Rightarrow> TaskView \<Rightarrow> bool shared" where
  "settle_view_amid env wid views v =
     (let tid = l_task (v_link v); owner = or_empty (v_assigned_to v); limit = max_task_attempts (e_limits env) in
      if v_status v = ''pending_review'' then act_then (notify_no_reviewer_amid env wid v) (act_return False)
      else if \<not> ready_view views v then act_return False
      else if owner \<noteq> [] \<and> owner \<notin> set (e_available env) then
        act_bind (tx (act_write (unassign_pending_task (e_clock env) tid owner))) (\<lambda>released.
        if released then act_then (plain (act_effect (Notify (unassign_notice wid v owner))))
          (act_then (plain wake) (act_return True))
        else act_return False)
      else if v_rework_count v \<ge> limit then
        fail_unrunnable_amid env tid (''limite de '' @ show_int limit @ '' entregas rejeitadas atingido'')
      else
        act_bind (tx (act_ask (can_reassign_task tid (e_active env)))) (\<lambda>somebody.
        if \<not> somebody then fail_unrunnable_amid env tid ''nenhum agente elegivel restante''
        else
          act_bind (tx (act_ask (can_reassign_task tid (e_available env)))) (\<lambda>available.
          act_then (act_when (\<not> available) (plain (notify_waiting env wid v ''agente''))) (act_return False))))"

definition settle_unrunnable_amid :: "CoordEnv \<Rightarrow> WorkflowSnapshot \<Rightarrow> WorkflowSnapshot shared" where
  "settle_unrunnable_amid env sn =
     act_bind (act_each (settle_view_amid env (w_id (sn_workflow sn)) (sn_tasks sn)) (sn_tasks sn)) (\<lambda>changes.
     if True \<in> set changes then snapshot_amid (w_id (sn_workflow sn)) else act_return sn)"

text \<open>The consultation and \<open>_conclude\<close>.\<close>

definition consult_amid :: "CoordEnv \<Rightarrow> WorkflowStatus \<Rightarrow> pystr \<Rightarrow> pystr
    \<Rightarrow> (WorkflowRow \<Rightarrow> pystr \<Rightarrow> pystr \<Rightarrow> Sys \<Rightarrow> pystr option \<times> Sys) \<Rightarrow> WorkflowRow \<Rightarrow> WorkflowRow shared" where
  "consult_amid env target attention text ask w =
     act_bind (foreign (\<lambda>s. let (answer, s') = ask w attention text s in (Inr (or_empty answer), s'))) (\<lambda>answer.
     act_bind (if answer = [] then act_return False
         else tx (act_write (set_result (e_clock env) (w_id w) answer target (w_plan_version w) True))) (\<lambda>stored.
     act_then (act_when stored
         (plain (act_effect (Notify (workflow_prefix (w_id w) @ '' '' @ w_coordinator w @ '': '' @ answer)))))
       (act_bind (tx (get_workflow (w_id w))) (\<lambda>w'.
        act_then (act_when (answer = [] \<and> w_status w' = wf_value target \<and> or_empty (w_result w') = [])
            (plain (act_effect (Notify (no_decision_notice w')))))
          (act_return w')))))"

definition conclude_amid :: "CoordEnv \<Rightarrow> int \<Rightarrow> WorkflowStatus \<Rightarrow> pystr \<Rightarrow> WorkflowSnapshot \<Rightarrow> pystr list
    \<Rightarrow> WorkflowRow shared" where
  "conclude_amid env wid target reason sn failed =
     act_bind (tx (repo_set_status env wid target (Some reason) (Some [WF_RUNNING])
         (Some (w_plan_version (sn_workflow sn))) False None)) (\<lambda>changed.
     case changed of
       None \<Rightarrow> tx (get_workflow wid)
     | Some (w, _) \<Rightarrow>
         let text = render_text (sn\<lparr>sn_workflow := w\<rparr>);
             attention = attention_text target (w_plan_version w) failed in
         act_then (plain (act_effect (Notify text)))
           (case e_consult env of
              None \<Rightarrow> act_return w
            | Some ask \<Rightarrow>
                act_bind (tx (act_write (claim_consult (e_limits env) (e_clock env) (w_id w) attention))) (\<lambda>claimed.
                if claimed then consult_amid env target attention text ask w else act_return w)))"

text \<open>\<open>any(...)\<close> over the views, one query for each delivery that waits, up to the first hit.\<close>

fun in_flight_amid :: "CoordEnv \<Rightarrow> TaskView list \<Rightarrow> bool shared" where
  "in_flight_amid env [] = act_return False"
| "in_flight_amid env (v # vs) =
     (if in_flight_view v then act_return True
      else if v_status v = ''pending_review'' then
        act_bind (tx (act_ask (\<lambda>d. reviewable d v (e_active env)))) (\<lambda>possible.
        if possible then act_return True else in_flight_amid env vs)
      else in_flight_amid env vs)"

text \<open>Why a workflow that cannot go on is blocked, and the items that failed.\<close>

definition block_reason :: "TaskView list \<Rightarrow> pystr \<times> pystr list" where
  "block_reason views =
     (let failed = sort (map (\<lambda>v. l_item (v_link v)) (filter dead_view views));
          unreviewed = sort (map (\<lambda>v. l_item (v_link v)) (filter (\<lambda>v. v_status v = ''pending_review'') views)) in
      (if unreviewed \<noteq> [] \<and> failed = [] then ''revisao sem revisor elegivel no pool: '' @ py_join '', '' unreviewed
       else ''tarefas bloqueadas por falhas: '' @ text_or (py_join '', '' failed) ''dependencias'', failed))"

definition reconcile_amid :: "CoordEnv \<Rightarrow> int \<Rightarrow> WorkflowRow shared" where
  "reconcile_amid env wid =
     act_bind (tx (get_workflow wid)) (\<lambda>w.
     if w_status w \<noteq> wf_value WF_RUNNING then act_return w
     else
       act_bind (snapshot_amid wid) (\<lambda>sn0.
       act_bind (requeue_expired_amid env sn0) (\<lambda>sn1.
       act_bind (settle_unrunnable_amid env sn1) (\<lambda>sn.
       if list_all (\<lambda>v. v_status v = ''completed'') (sn_tasks sn) then
         conclude_amid env (w_id w) WF_COMPLETED ''plano concluido'' sn []
       else act_bind (in_flight_amid env (sn_tasks sn)) (\<lambda>flying.
         if flying \<or> list_ex (ready_view (sn_tasks sn)) (sn_tasks sn) then act_return w
         else case block_reason (sn_tasks sn) of (reason, failed) \<Rightarrow>
           conclude_amid env (w_id w) WF_BLOCKED reason sn failed)))))"

section \<open>Explicit conclusion\<close>

definition move_workflow_amid :: "CoordEnv \<Rightarrow> int \<Rightarrow> WorkflowStatus \<Rightarrow> WorkflowStatus list \<Rightarrow> pystr
    \<Rightarrow> int option \<Rightarrow> WorkflowRow shared" where
  "move_workflow_amid env wid target expected reason version =
     act_bind (tx (repo_set_status env wid target (Some reason) (Some expected) version False None)) (\<lambda>changed.
     case changed of
       None \<Rightarrow> act_bind (tx (get_workflow wid)) (\<lambda>current.
         act_raise (CannotMove wid (w_status current) (wf_value target)))
     | Some (w, _) \<Rightarrow> act_return w)"

definition record_result_amid :: "CoordEnv \<Rightarrow> int \<Rightarrow> pystr \<Rightarrow> WorkflowStatus \<Rightarrow> int \<Rightarrow> unit shared" where
  "record_result_amid env wid summary status version =
     act_bind (tx (act_write (set_result (e_clock env) wid summary status version False))) (\<lambda>done.
     if done then act_return ()
     else act_bind (tx (get_workflow wid)) (\<lambda>current.
       act_raise (ResultRace wid (w_status current) (w_plan_version current))))"

definition finish_completed_amid :: "CoordEnv \<Rightarrow> int \<Rightarrow> pystr \<Rightarrow> unit shared" where
  "finish_completed_amid env wid summary =
     act_bind (snapshot_amid wid) (\<lambda>sn.
     let w = sn_workflow sn;
         pending = map (\<lambda>v. l_item (v_link v)) (filter (\<lambda>v. v_status v \<noteq> ''completed'') (sn_tasks sn)) in
     if pending \<noteq> [] then act_raise (NotAccepted pending)
     else act_then
       (if w_status w = wf_value WF_RUNNING then
          act_then (move_workflow_amid env wid WF_COMPLETED [WF_RUNNING] ''concluido pelo coordenador''
            (Some (w_plan_version w))) (act_return ())
        else if w_status w \<noteq> wf_value WF_COMPLETED then act_raise (CannotConclude (w_status w))
        else act_return ())
       (record_result_amid env wid summary WF_COMPLETED (w_plan_version w)))"

definition finish_blocked_amid :: "CoordEnv \<Rightarrow> int \<Rightarrow> pystr \<Rightarrow> WorkflowRow \<Rightarrow> unit shared" where
  "finish_blocked_amid env wid summary w =
     act_then
       (if w_status w \<noteq> wf_value WF_BLOCKED then
          act_then (move_workflow_amid env wid WF_BLOCKED [WF_RUNNING] (take 500 (''bloqueado: '' @ summary))
            (Some (w_plan_version w))) (act_return ())
        else act_return ())
       (record_result_amid env wid summary WF_BLOCKED (w_plan_version w))"

definition finish_failed_amid :: "CoordEnv \<Rightarrow> int \<Rightarrow> pystr \<Rightarrow> WorkflowRow \<Rightarrow> unit shared" where
  "finish_failed_amid env wid summary w =
     act_bind (tx (repo_set_status env wid WF_FAILED (Some (take 500 summary))
         (Some [WF_RUNNING, WF_BLOCKED, WF_PAUSED]) None True (Some summary))) (\<lambda>changed.
     case changed of
       None \<Rightarrow> act_raise (CannotMarkFailed (w_status w))
     | Some (_, interrupted) \<Rightarrow> plain (interrupt_tasks interrupted))"

definition finish_amid :: "CoordEnv \<Rightarrow> int \<Rightarrow> pystr \<Rightarrow> pystr \<Rightarrow> WorkflowRow shared" where
  "finish_amid env wid outcome raw_summary =
     (let summary = py_strip raw_summary in
      if summary = [] then act_raise SummaryMissing
      else act_bind (tx (get_workflow wid)) (\<lambda>w.
        act_then
          (if outcome = ''completed'' then finish_completed_amid env wid summary
           else if outcome = ''blocked'' then finish_blocked_amid env wid summary w
           else if outcome = ''failed'' then finish_failed_amid env wid summary w
           else act_raise UnknownOutcome)
          (act_then (plain wake) (tx (get_workflow wid)))))"

end
