(* ===== verification/Task_Lifecycle.thy ===== *)
theory Task_Lifecycle
  imports Task_Repository
begin

text \<open>
  What the operations of \<open>Task_Repository\<close> do to a task row, one lemma per operation, and what
  follows for whole runs. \<open>task_step\<close> is the step relation of the task table: one rule per
  guarded operation, and one rule for writes that leave the task table alone. The raw
  \<open>update_task\<close> is not a step: it writes any status without a look at the table, so nothing below
  holds of a database on which it is used. It is exported by \<open>tasks/api.py\<close>, and no other code under
  \<open>src/quimera\<close> calls it. Neither is \<open>transition_task\<close> with target \<open>pending\<close> a step, which no caller
  in the program asks for.
\<close>

section \<open>The contract of one row\<close>

definition has_token :: "pystr \<Rightarrow> pystr option \<Rightarrow> bool" where
  "has_token agent column = py_contains (failed_agents_token agent) (or_empty column)"

definition reworked :: "int option \<Rightarrow> TaskRow \<Rightarrow> TaskRow \<Rightarrow> bool" where
  "reworked mx r r' \<longleftrightarrow> t_rework_count r' = t_rework_count r + 1 \<and>
     can_transition (t_status r) (t_status r') \<and>
     t_status r' = status_value (case mx of None \<Rightarrow> PENDING
       | Some m \<Rightarrow> if t_rework_count r' \<ge> m then FAILED else PENDING)"

text \<open>
  One operation moves the status along the table or leaves it, never lowers the attempt, raises
  it by one whenever the task goes back to \<open>pending\<close>, never forgets a failed agent, and raises
  the count of returned deliveries only by a \<open>rework_task\<close>, whose outcome the limit \<open>mx\<close> decides.
\<close>

definition row_step :: "int option \<Rightarrow> TaskRow \<Rightarrow> TaskRow \<Rightarrow> bool" where
  "row_step mx r r' \<longleftrightarrow> t_id r' = t_id r \<and>
     (t_status r' = t_status r \<or> can_transition (t_status r) (t_status r')) \<and>
     t_attempt_count r \<le> t_attempt_count r' \<and>
     (t_status r' = status_value PENDING \<longrightarrow> t_status r = status_value PENDING \<or>
        t_attempt_count r < t_attempt_count r') \<and>
     (\<forall>a. has_token a (t_failed_agents r) \<longrightarrow> has_token a (t_failed_agents r')) \<and>
     (t_rework_count r' = t_rework_count r \<or> reworked mx r r')"

definition rows_step :: "int option \<Rightarrow> Store \<Rightarrow> Store \<Rightarrow> bool" where
  "rows_step mx s s' \<longleftrightarrow> (\<forall>tid r. task_at s tid = Some r \<longrightarrow>
     (\<exists>r'. task_at s' tid = Some r' \<and> row_step mx r r'))"

lemma row_step_refl [simp]: "row_step mx r r"
  by (simp add: row_step_def)

lemma rows_step_same: "tasks s' = tasks s \<Longrightarrow> rows_step mx s s'"
  by (simp add: rows_step_def task_at_def)

lemma rows_step_refl [simp]: "rows_step mx s s"
  by (simp add: rows_step_same)

lemma rows_step_publish [simp]: "rows_step mx s (publish_event e s') = rows_step mx s s'"
  by (simp add: rows_step_def)

lemma rows_step_update:
  assumes "\<And>r. t_id (f r) = t_id r" and "\<And>r. task_at s tid = Some r \<Longrightarrow> row_step mx r (f r)"
  shows "rows_step mx s (update_task_row tid f s)"
  using assms by (auto simp: rows_step_def task_at_update_task_row)

lemma rows_step_update_where:
  assumes f: "\<And>r. t_id (f r) = t_id r" and step: "\<And>r. r \<in> set (tasks s) \<Longrightarrow> p r \<Longrightarrow> row_step mx r (f r)"
  shows "rows_step mx s (s\<lparr>tasks := update_where p f (tasks s)\<rparr>)"
  unfolding rows_step_def
proof (intro allI impI)
  fix tid r assume r: "task_at s tid = Some r"
  have "task_at (s\<lparr>tasks := update_where p f (tasks s)\<rparr>) tid = Some (if p r then f r else r)"
    using r f by (simp add: task_at_def find_update_where)
  then show "\<exists>r'. task_at (s\<lparr>tasks := update_where p f (tasks s)\<rparr>) tid = Some r' \<and> row_step mx r r'"
    using step r by (auto dest: task_at_SomeD)
qed

text \<open>
  What the primary key gives: ids are distinct, ascending in rowid order and handed out by the
  AUTOINCREMENT counter.
\<close>

definition ids_ok :: "Store \<Rightarrow> bool" where
  "ids_ok s \<longleftrightarrow> sorted (map t_id (tasks s)) \<and> distinct (map t_id (tasks s)) \<and>
     (\<forall>r \<in> set (tasks s). t_id r \<le> task_seq s)"

lemma task_at_member: "ids_ok s \<Longrightarrow> r \<in> set (tasks s) \<Longrightarrow> task_at s (t_id r) = Some r"
  by (simp add: task_at_def ids_ok_def find_key_unique)

text \<open>Tokens: adding one keeps the others, and the one added is there.\<close>

lemma has_token_None [simp]: "\<not> has_token a None"
  by (simp add: has_token_def failed_agents_token_def)

lemma add_token_contains: "py_contains (failed_agents_token a) (add_token column a)"
  using py_contains_append [of "failed_agents_token a" "or_empty column" "[]"]
  by (simp add: add_token_def Let_def)

lemma add_token_keeps: "py_contains x (or_empty column) \<Longrightarrow> py_contains x (add_token column a)"
  using py_contains_mono [of x "or_empty column" "[]" "failed_agents_token a"]
  by (simp add: add_token_def Let_def)

lemma excluded_if_token: "has_token a column \<Longrightarrow> excluded_by column a"
  by (simp add: has_token_def excluded_by_def sql_like_contains)

section \<open>Each operation keeps the contract\<close>

lemmas step_simps = row_step_def has_token_def add_token_keeps can_transition_to_value

lemma transition_one_rows:
  "st \<noteq> PENDING \<Longrightarrow> rows_step mx s (snd (transition_tasks now [tid] st reason s))"
  by (auto simp: step_simps intro!: rows_step_update split: option.splits)

lemma requeue_interrupted_rows: "rows_step mx s (snd (requeue_interrupted now tid reason obs s))"
  by (auto simp: requeue_interrupted_def step_simps intro!: rows_step_update split: option.splits)

lemma unassign_pending_task_rows: "rows_step mx s (snd (unassign_pending_task now tid owner s))"
  by (auto simp: unassign_pending_task_def step_simps intro!: rows_step_update split: option.splits)

lemma set_job_one_rows: "set_tasks_job now [tid] jid s = Inr s' \<Longrightarrow> rows_step mx s s'"
  by (auto simp: step_simps intro!: rows_step_update split: if_splits)

lemma release_agent_tasks_rows: "rows_step mx s (release_agent_tasks now agent s)"
  by (auto simp: release_agent_tasks_def step_simps intro!: rows_step_update_where)

lemma insert_task_rows: "insert_task now jid n s = Inr (tid, s') \<Longrightarrow> rows_step mx s s'"
  by (auto simp: insert_task_def Let_def rows_step_def task_at_def find_append split: if_splits)

lemma create_task_rows: "create_task now jid n s = Inr (tid, s') \<Longrightarrow> rows_step mx s s'"
  by (auto simp: create_task_def bind_res_Inr dest: insert_task_rows)

lemma requeue_task_rows: "rows_step mx s (snd (requeue_task now tid agent reason e exclude s))"
  by (auto simp: requeue_task_def publish_requeue_def Let_def step_simps intro!: rows_step_update
      split: option.splits)

lemma complete_task_rows: "rows_step mx s (snd (complete_task now tid res rvw notes ex e s))"
  by (auto simp: complete_task_def Let_def step_simps intro!: rows_step_update split: option.splits)

lemma submit_for_review_rows: "rows_step mx s (snd (submit_for_review now tid res e s))"
  by (auto simp: submit_for_review_def Let_def step_simps intro!: rows_step_update
      split: option.splits)

lemma requeue_after_review_rows:
  "rows_step mx s (snd (requeue_task_after_review now tid agent res notes e s))"
  by (auto simp: requeue_task_after_review_def publish_requeue_def Let_def step_simps
      intro!: rows_step_update split: option.splits)

lemma return_review_rows: "rows_step mx s (snd (return_review now tid rvw reason e exclude s))"
  by (auto simp: return_review_def Let_def step_simps intro!: rows_step_update split: option.splits)

lemma pending_then_failed: "PENDING \<in> set (valid_transitions a) \<Longrightarrow> FAILED \<in> set (valid_transitions a)"
  by (cases a) simp_all

lemma rework_task_rows: "rows_step mx s (snd (rework_task now tid owner reason res e mx s))"
  by (auto simp: rework_task_def reworked_def publish_requeue_def Let_def step_simps
      intro!: rows_step_update split: option.splits dest: pending_then_failed)

lemma tasks_transition_event [simp]: "tasks (transition_event tid jid to appr res s) = tasks s"
  by (simp add: transition_event_def)

lemma rows_step_transition_event [simp]:
  "rows_step mx s (transition_event tid jid to appr res s') = rows_step mx s s'"
  by (simp add: rows_step_def task_at_def)

lemma transition_task_rows: "to \<noteq> status_value PENDING \<Longrightarrow>
    rows_step mx s (snd (transition_task now tid to res notes appr asg e es s))"
  by (auto simp: transition_task_def Let_def row_step_def intro!: rows_step_update split: option.splits)

lemma claim_task_rows: "rows_step mx s (snd (claim_task now agent jid s))"
  by (auto simp: claim_task_def claim_update_matches_def Let_def step_simps
      intro!: rows_step_update_where split: option.splits)

lemma claim_review_task_rows: "ids_ok s \<Longrightarrow> rows_step mx s (snd (claim_review_task now agent jid s))"
  by (auto simp: claim_review_task_def review_claimable_def Let_def step_simps
      intro!: rows_step_update split: option.splits dest!: find_SomeD dest: task_at_member)

section \<open>The step relation\<close>

inductive task_step :: "int option \<Rightarrow> Store \<Rightarrow> Store \<Rightarrow> bool" for mx where
  other_tables: "tasks s' = tasks s \<Longrightarrow> task_seq s' = task_seq s \<Longrightarrow> task_step mx s s'"
| insert: "insert_task now jid n s = Inr (tid, s') \<Longrightarrow> task_step mx s s'"
| create: "create_task now jid n s = Inr (tid, s') \<Longrightarrow> task_step mx s s'"
| transition_one: "st \<noteq> PENDING \<Longrightarrow> task_step mx s (snd (transition_tasks now [tid] st reason_opt s))"
| requeue_lost: "task_step mx s (snd (requeue_interrupted now tid reason obs s))"
| unassign: "task_step mx s (snd (unassign_pending_task now tid owner s))"
| set_job: "set_tasks_job now [tid] jid s = Inr s' \<Longrightarrow> task_step mx s s'"
| release: "task_step mx s (release_agent_tasks now agent s)"
| requeue: "task_step mx s (snd (requeue_task now tid agent reason_opt e exclude s))"
| complete: "task_step mx s (snd (complete_task now tid res rvw notes ex e s))"
| submit: "task_step mx s (snd (submit_for_review now tid res e s))"
| review_requeue: "task_step mx s (snd (requeue_task_after_review now tid agent res notes e s))"
| rework: "task_step mx s (snd (rework_task now tid owner_opt reason res e mx s))"
| return: "task_step mx s (snd (return_review now tid agent reason e exclude s))"
| transition: "to \<noteq> status_value PENDING \<Longrightarrow>
     task_step mx s (snd (transition_task now tid to res_arg notes_arg appr asg e es s))"
| claim: "task_step mx s (snd (claim_task now agent jid_opt s))"
| claim_review: "task_step mx s (snd (claim_review_task now agent jid_opt s))"

lemma map_t_id_update [simp]:
  "(\<And>r. t_id (f r) = t_id r) \<Longrightarrow> map t_id (update_where p f rows) = map t_id rows"
  by (simp add: map_update_where)

lemma ids_ok_same:
  assumes "map t_id (tasks s') = map t_id (tasks s)" and "task_seq s' = task_seq s"
  shows "ids_ok s' = ids_ok s"
proof -
  have "t_id ` set (tasks s') = t_id ` set (tasks s)" using assms(1) by (metis list.set_map)
  then have "(\<forall>r \<in> set (tasks s'). t_id r \<le> n) = (\<forall>r \<in> set (tasks s). t_id r \<le> n)" for n
    by (metis (no_types, lifting) imageE imageI)
  with assms show ?thesis by (simp add: ids_ok_def)
qed

lemma ids_ok_insert: "insert_task now jid n s = Inr (tid, s') \<Longrightarrow> ids_ok s \<Longrightarrow> ids_ok s'"
  by (force simp: insert_task_def Let_def ids_ok_def new_task_row_def sorted_append split: if_splits)

text \<open>The columns no operation but an insertion touches.\<close>

definition same_ids :: "Store \<Rightarrow> Store \<Rightarrow> bool" where
  "same_ids s s' \<longleftrightarrow> map t_id (tasks s') = map t_id (tasks s) \<and> task_seq s' = task_seq s"

lemma same_ids_refl [simp]: "same_ids s s"
  by (simp add: same_ids_def)

lemma same_ids_update [simp]:
  "(\<And>r. t_id (f r) = t_id r) \<Longrightarrow> same_ids s (update_task_row tid f s')
     \<longleftrightarrow> same_ids s s'"
  by (simp add: same_ids_def update_task_row_def)

lemma same_ids_update_where [simp]:
  "(\<And>r. t_id (f r) = t_id r) \<Longrightarrow> same_ids s (s\<lparr>tasks := update_where p f (tasks s)\<rparr>)"
  by (simp add: same_ids_def)

lemma same_ids_publish [simp]: "same_ids s (publish_event e s') \<longleftrightarrow> same_ids s s'"
  by (simp add: same_ids_def)

lemma same_ids_transition_event [simp]:
  "same_ids s (transition_event tid jid to appr res s') \<longleftrightarrow> same_ids s s'"
  by (simp add: transition_event_def)

lemmas op_defs = requeue_interrupted_def unassign_pending_task_def release_agent_tasks_def
  requeue_task_def complete_task_def submit_for_review_def requeue_task_after_review_def
  rework_task_def return_review_def transition_task_def claim_task_def claim_review_task_def
  publish_requeue_def

lemma task_step_ids:
  assumes "task_step mx s s'"
  shows "same_ids s s' \<or> (\<exists>now jid n tid s1. insert_task now jid n s = Inr (tid, s1) \<and> same_ids s1 s')"
  using assms
proof cases
  case other_tables
  then show ?thesis by (simp add: same_ids_def)
next
  case (insert now jid n tid)
  then show ?thesis using same_ids_refl by blast
next
  case (create now jid n tid)
  then obtain s1 where "insert_task now jid n s = Inr (tid, s1)" "same_ids s1 s'"
    by (auto simp: create_task_def bind_res_Inr)
  then show ?thesis by blast
qed (auto simp: op_defs Let_def split: option.splits if_splits)

lemma task_step_ids_ok: "task_step mx s s' \<Longrightarrow> ids_ok s \<Longrightarrow> ids_ok s'"
  using task_step_ids [of mx s s'] ids_ok_same ids_ok_insert unfolding same_ids_def by metis

lemma task_step_rows: "task_step mx s s' \<Longrightarrow> ids_ok s \<Longrightarrow> rows_step mx s s'"
  by (erule task_step.cases)
    (auto simp del: transition_tasks.simps set_tasks_job.simps
      intro: rows_step_same insert_task_rows create_task_rows transition_one_rows
      requeue_interrupted_rows unassign_pending_task_rows set_job_one_rows release_agent_tasks_rows
      requeue_task_rows complete_task_rows submit_for_review_rows requeue_after_review_rows
      rework_task_rows return_review_rows transition_task_rows claim_task_rows claim_review_task_rows)

section \<open>Runs\<close>

abbreviation task_run :: "int option \<Rightarrow> Store \<Rightarrow> Store \<Rightarrow> bool" where
  "task_run mx \<equiv> (task_step mx)\<^sup>*\<^sup>*"

lemma task_run_ids_ok: "task_run mx s s' \<Longrightarrow> ids_ok s \<Longrightarrow> ids_ok s'"
  by (induction rule: rtranclp_induct) (auto dest: task_step_ids_ok)

text \<open>A run in which each step may come with its own limit of returned deliveries.\<close>

abbreviation any_step :: "Store \<Rightarrow> Store \<Rightarrow> bool" where
  "any_step s s' \<equiv> \<exists>mx. task_step mx s s'"

abbreviation any_run :: "Store \<Rightarrow> Store \<Rightarrow> bool" where
  "any_run \<equiv> any_step\<^sup>*\<^sup>*"

lemma any_run_ids_ok: "any_run s s' \<Longrightarrow> ids_ok s \<Longrightarrow> ids_ok s'"
  by (induction rule: rtranclp_induct) (auto dest: task_step_ids_ok)

lemma task_run_any: "task_run mx s s' \<Longrightarrow> any_run s s'"
  by (induction rule: rtranclp_induct) (auto intro: rtranclp.rtrancl_into_rtrancl)

text \<open>
  A fact about a row that the contract keeps holds of that row after any run; the row is never
  deleted. The instances below are the facts the executors rely on between a claim and the write
  of its outcome.
\<close>

locale kept_by_steps =
  fixes mx :: "int option" and I :: "TaskRow \<Rightarrow> bool"
  assumes kept: "I r \<Longrightarrow> row_step mx r r' \<Longrightarrow> I r'"
begin

lemma kept_run:
  assumes "task_run mx s s'" and "ids_ok s" and "task_at s tid = Some r" and "I r"
  shows "\<exists>r'. task_at s' tid = Some r' \<and> I r'"
  using assms
proof (induction rule: rtranclp_induct)
  case base
  then show ?case by blast
next
  case (step t u)
  then obtain r1 where r1: "task_at t tid = Some r1" "I r1" by blast
  have "rows_step mx t u"
    using step.hyps step.prems(1) task_run_ids_ok task_step_rows by blast
  with r1 show ?case unfolding rows_step_def using kept by blast
qed

end

text \<open>A fact kept under every limit is kept along any run.\<close>

locale kept_by_all =
  fixes I :: "TaskRow \<Rightarrow> bool"
  assumes kept_all: "I r \<Longrightarrow> row_step mx r r' \<Longrightarrow> I r'"
begin

lemma kept_any:
  assumes "any_run s s'" and "ids_ok s" and "task_at s tid = Some r" and "I r"
  shows "\<exists>r'. task_at s' tid = Some r' \<and> I r'"
  using assms
proof (induction rule: rtranclp_induct)
  case base
  then show ?case by blast
next
  case (step t u)
  then obtain r1 mx where r1: "task_at t tid = Some r1" "I r1" and st: "task_step mx t u" by blast
  have "rows_step mx t u"
    using st step.hyps(1) step.prems(1) any_run_ids_ok task_step_rows by blast
  with r1 show ?case unfolding rows_step_def using kept_all by blast
qed

end

sublocale kept_by_all \<subseteq> under_limit: kept_by_steps mx I for mx
  by unfold_locales (rule kept_all)

text \<open>An attempt that is over stays over.\<close>

interpretation attempt_passed: kept_by_all "\<lambda>r. a < t_attempt_count r" for a
  by unfold_locales (auto simp: row_step_def)

text \<open>A failed agent stays recorded.\<close>

interpretation agent_failed: kept_by_all "\<lambda>r. has_token a (t_failed_agents r)" for a
  by unfold_locales (auto simp: row_step_def)

text \<open>
  A task claimed in attempt \<open>a\<close> is out of the claimable statuses, or in a later attempt.
\<close>

definition claimed_in :: "int \<Rightarrow> TaskRow \<Rightarrow> bool" where
  "claimed_in a r \<longleftrightarrow> a < t_attempt_count r \<or> (a = t_attempt_count r \<and>
     t_status r \<in> status_value ` {IN_PROGRESS, PENDING_REVIEW, REVIEWING, COMPLETED, FAILED, REJECTED, CANCELLED})"

lemma claimed_in_step: "claimed_in a r \<Longrightarrow> row_step mx r r' \<Longrightarrow> claimed_in a r'"
  unfolding claimed_in_def row_step_def by (auto elim!: can_transitionE)

interpretation claim_held: kept_by_all "claimed_in a" for a
  by unfold_locales (rule claimed_in_step)

text \<open>A terminal status is final.\<close>

definition settled :: "TaskStatus \<Rightarrow> TaskRow \<Rightarrow> bool" where
  "settled st r \<longleftrightarrow> task_terminal st \<and> t_status r = status_value st"

interpretation outcome_final: kept_by_all "settled st" for st
  by unfold_locales (auto simp: row_step_def settled_def task_terminal_iff can_transition_from_value)

text \<open>With limit \<open>m\<close>, a task has at most \<open>m\<close> returned deliveries, and the \<open>m\<close>-th failed it.\<close>

definition rework_bounded :: "int \<Rightarrow> TaskRow \<Rightarrow> bool" where
  "rework_bounded m r \<longleftrightarrow> t_rework_count r < m \<or>
     (t_rework_count r = m \<and> t_status r = status_value FAILED)"

interpretation rework_limit: kept_by_steps "Some m" "rework_bounded m" for m
proof unfold_locales
  fix r r' assume b: "rework_bounded m r" and st: "row_step (Some m) r r'"
  show "rework_bounded m r'"
  proof (cases "t_status r = status_value FAILED")
    case True
    with b st show ?thesis
      by (auto simp: row_step_def reworked_def rework_bounded_def can_transition_from_value)
  next
    case False
    with b st show ?thesis by (auto simp: row_step_def reworked_def rework_bounded_def)
  qed
qed

end
