(* ===== verification/Task_Dependencies.thy ===== *)
theory Task_Dependencies
  imports Task_Lifecycle
begin

text \<open>
  Prerequisites between tasks: the reachability query of \<open>insert_task_dependency\<close> computes the
  reflexive transitive closure, so the graph stays acyclic, and an acyclic graph always leaves
  some unfinished task with every prerequisite completed.
\<close>

section \<open>The reachability query\<close>

lemma reach_seen: "set seen \<subseteq> set (reach E seen xs)"
  by (induction E seen xs rule: reach.induct) auto

lemma reach_todo: "set xs \<subseteq> set (reach E seen xs)"
proof (induction E seen xs rule: reach.induct)
  case (2 E seen x xs)
  then show ?case using reach_seen [of seen E xs] reach_seen [of "x # seen" E] by auto
qed simp

lemma succs_image: "set (map snd (filter (\<lambda>e. fst e = x) E)) = set E `` {x}"
  by force

lemma reach_closed:
  "set E `` set seen \<subseteq> set seen \<union> set xs \<Longrightarrow> set E `` set (reach E seen xs) \<subseteq> set (reach E seen xs)"
proof (induction E seen xs rule: reach.induct)
  case (1 E seen)
  then show ?case by simp
next
  case (2 E seen x xs)
  show ?case
  proof (cases "x \<in> set seen")
    case True
    then show ?thesis using 2 by auto
  next
    case False
    have "set E `` set (x # seen) \<subseteq> set (x # seen) \<union> set (map snd (filter (\<lambda>e. fst e = x) E) @ xs)"
      using "2.prems" unfolding set_append succs_image by auto
    with "2.IH"(2) [OF False] False show ?thesis by simp
  qed
qed

lemma reach_subset: "set (reach E seen xs) \<subseteq> set seen \<union> (set E)\<^sup>* `` set xs"
proof (induction E seen xs rule: reach.induct)
  case (1 E seen)
  then show ?case by simp
next
  case (2 E seen x xs)
  show ?case
  proof (cases "x \<in> set seen")
    case True
    then show ?thesis using 2 by auto
  next
    case False
    have "(set E)\<^sup>* `` (set E `` {x}) \<subseteq> (set E)\<^sup>* `` {x}"
      by (auto intro: converse_rtrancl_into_rtrancl)
    with "2.IH"(2) [OF False] False show ?thesis
      unfolding set_append succs_image Image_Un by auto
  qed
qed

lemma reach_rtrancl: "set (reach E [] [a]) = (set E)\<^sup>* `` {a}"
proof
  show "set (reach E [] [a]) \<subseteq> (set E)\<^sup>* `` {a}" using reach_subset [of E "[]" "[a]"] by simp
  have closed: "set E `` set (reach E [] [a]) \<subseteq> set (reach E [] [a])"
    by (rule reach_closed) simp
  show "(set E)\<^sup>* `` {a} \<subseteq> set (reach E [] [a])"
    using Image_closed_trancl [OF closed] reach_todo [of "[a]" E "[]"] by (auto simp: Image_iff)
qed

section \<open>Edges\<close>

definition edge_set :: "Store \<Rightarrow> (int \<times> int) set" where
  "edge_set s = set (dep_edges s)"

definition deps_ok :: "Store \<Rightarrow> bool" where
  "deps_ok s \<longleftrightarrow> acyclic (edge_set s) \<and> distinct (dep_edges s) \<and>
     (\<forall>(t, d) \<in> edge_set s. task_at s t \<noteq> None \<and> task_at s d \<noteq> None)"

lemma insert_dependency_cases:
  assumes ok: "deps_ok s"
  shows "(\<exists>res. insert_task_dependency now t d s = Inr res) \<longleftrightarrow>
      acyclic (insert (t, d) (edge_set s)) \<and> task_at s t \<noteq> None \<and> task_at s d \<noteq> None"
proof -
  have "acyclic (insert (t, d) (edge_set s)) \<longleftrightarrow> t \<notin> set (reach (dep_edges s) [] [d])"
    using ok unfolding reach_rtrancl deps_ok_def by (auto simp: acyclic_insert edge_set_def)
  moreover have "t = d \<Longrightarrow> t \<in> set (reach (dep_edges s) [] [d])"
    unfolding reach_rtrancl by blast
  moreover have "(t, d) \<in> set (dep_edges s) \<Longrightarrow> task_at s t \<noteq> None \<and> task_at s d \<noteq> None"
    using ok by (auto simp: deps_ok_def edge_set_def)
  ultimately show ?thesis by (auto simp: insert_task_dependency_def)
qed

lemma insert_dependency_effect:
  assumes "insert_task_dependency now t d s = Inr (b, s')"
  shows "edge_set s' = insert (t, d) (edge_set s)" and "b \<longleftrightarrow> (t, d) \<notin> edge_set s"
    and "tasks s' = tasks s" and "distinct (dep_edges s) \<Longrightarrow> distinct (dep_edges s')"
  using assms
  by (auto simp: insert_task_dependency_def edge_set_def dep_edges_def image_iff split: if_splits)

lemma insert_dependency_ok:
  assumes ok: "deps_ok s" and ins: "insert_task_dependency now t d s = Inr (b, s')"
  shows "deps_ok s'"
proof -
  have "acyclic (insert (t, d) (edge_set s)) \<and> task_at s t \<noteq> None \<and> task_at s d \<noteq> None"
    using insert_dependency_cases [OF ok, of now t d] ins by blast
  then show ?thesis using ok insert_dependency_effect [OF ins]
    by (auto simp: deps_ok_def task_at_def)
qed

text \<open>
  Adding a prerequisite (\<open>insert_task_dependency\<close>) is exact on an acyclic graph: it succeeds
  precisely when both tasks exist and the graph with the new edge is still acyclic (so a task
  never depends on itself, directly or through others); the edge is then there, once, and the
  result says whether it is new. The graph stays acyclic.
\<close>

theorem dependency_insertion_exact:
  assumes "deps_ok s"
  shows "(case insert_task_dependency now t d s of
       Inl e \<Rightarrow> \<not> acyclic (insert (t, d) (edge_set s)) \<or> task_at s t = None \<or> task_at s d = None
     | Inr (added, s') \<Rightarrow> acyclic (insert (t, d) (edge_set s)) \<and>
         edge_set s' = insert (t, d) (edge_set s) \<and> (added \<longleftrightarrow> (t, d) \<notin> edge_set s) \<and>
         tasks s' = tasks s \<and> deps_ok s')"
proof (cases "insert_task_dependency now t d s")
  case (Inl e)
  then have "\<not> (\<exists>res. insert_task_dependency now t d s = Inr res)" by simp
  then show ?thesis using Inl unfolding insert_dependency_cases [OF assms] by simp
next
  case (Inr res)
  obtain added s' where res: "res = (added, s')" by (cases res)
  have "\<exists>res. insert_task_dependency now t d s = Inr res" using Inr by blast
  with Inr res show ?thesis
    using insert_dependency_effect [of now t d s added s'] insert_dependency_ok [OF assms]
    unfolding insert_dependency_cases [OF assms] by simp
qed

section \<open>Progress\<close>

lemma unfinished_minimal:
  assumes "deps_ok s" and "ids_ok s" and "r \<in> set (tasks s)" and "t_status r \<noteq> status_value COMPLETED"
  shows "\<exists>r' \<in> set (tasks s). t_status r' \<noteq> status_value COMPLETED \<and> prerequisites_met s (t_id r')"
proof -
  let ?Q = "t_id ` {r \<in> set (tasks s). t_status r \<noteq> status_value COMPLETED}"
  have "wf ((edge_set s)\<inverse>)"
    using assms(1) by (intro finite_acyclic_wf_converse) (auto simp: deps_ok_def edge_set_def)
  moreover have "t_id r \<in> ?Q" using assms(3,4) by blast
  ultimately obtain z where z: "z \<in> ?Q" and min: "\<And>y. (y, z) \<in> (edge_set s)\<inverse> \<Longrightarrow> y \<notin> ?Q"
    by (rule wfE_min) blast
  from z obtain r' where r': "r' \<in> set (tasks s)" "t_status r' \<noteq> status_value COMPLETED" "z = t_id r'"
    by blast
  have "prerequisites_met s z"
    using min by (fastforce simp: prerequisites_met_def list_ex_iff edge_set_def dep_edges_def)
  with r' show ?thesis by blast
qed

end
