(* ===== verification/Workflow_Publication.thy ===== *)
theory Workflow_Publication
  imports Workflow_Repository Task_Dependencies
begin

text \<open>
  The integrity of the shared store (\<open>store_ok\<close>) and the creation of the tasks of a plan version.
  Creating tasks for a valid plan never fails: the links are new, every dependency resolves, and
  the graph over tasks stays acyclic because it is a copy of the plan's graph placed on fresh ids.
\<close>

section \<open>Integrity of the store\<close>

definition current_keys :: "Store \<Rightarrow> (int \<times> pystr) list" where
  "current_keys s = map (\<lambda>l. (l_workflow l, l_item l)) (filter (\<lambda>l. l_superseded_in l = None) (links s))"

definition links_ok :: "Store \<Rightarrow> bool" where
  "links_ok s \<longleftrightarrow> distinct (map l_task (links s)) \<and> distinct (current_keys s) \<and>
     (\<forall>l \<in> set (links s). task_at s (l_task l) \<noteq> None \<and> workflow_at s (l_workflow l) \<noteq> None)"

text \<open>The current version of a workflow is a stored valid plan, and no version is ahead of it.\<close>

definition version_ok :: "Store \<Rightarrow> WorkflowRow \<Rightarrow> bool" where
  "version_ok s w \<longleftrightarrow> (\<exists>row p. plan_row (w_id w) (w_plan_version w) s = Some row \<and>
     p_plan_json row = JObj (plan_to_dict p) \<and> graph_ok p) \<and>
     (\<forall>row \<in> set (plans s). p_workflow row = w_id w \<longrightarrow> p_version row \<le> w_plan_version w)"

definition workflows_ok :: "Store \<Rightarrow> bool" where
  "workflows_ok s \<longleftrightarrow> distinct (map w_id (workflows s)) \<and>
     (\<forall>w \<in> set (workflows s). w_id w \<le> workflow_seq s \<and> wf_status_of (w_status w) \<noteq> None \<and>
        job_exists s (w_job_id w) \<and> version_ok s w) \<and>
     (\<forall>row \<in> set (plans s). p_workflow row \<le> workflow_seq s)"

definition store_ok :: "Store \<Rightarrow> bool" where
  "store_ok s \<longleftrightarrow> ids_ok s \<and> deps_ok s \<and> links_ok s \<and> workflows_ok s"

section \<open>Rows for the tasks of a version\<close>

fun spec_ids :: "int \<Rightarrow> WorkflowTaskSpec list \<Rightarrow> (pystr \<times> int) list" where
  "spec_ids tid [] = []"
| "spec_ids tid (sp # sps) = (spec_id sp, tid) # spec_ids (tid + 1) sps"

fun spec_rows :: "pystr \<Rightarrow> int \<Rightarrow> int \<Rightarrow> int \<Rightarrow> int \<Rightarrow> WorkflowTaskSpec list \<Rightarrow> TaskRow list" where
  "spec_rows now wid jid v tid [] = []"
| "spec_rows now wid jid v tid (sp # sps) =
     new_task_row now tid jid (new_task_of_spec wid v sp) # spec_rows now wid jid v (tid + 1) sps"

fun spec_links :: "int \<Rightarrow> int \<Rightarrow> int \<Rightarrow> int \<Rightarrow> WorkflowTaskSpec list \<Rightarrow> LinkRow list" where
  "spec_links wid v lid tid [] = []"
| "spec_links wid v lid tid (sp # sps) =
     \<lparr> l_id = lid, l_workflow = wid, l_item = spec_id sp, l_task = tid, l_version = v,
       l_superseded_in = None, l_writes = ws_writes sp, l_evidence = ws_evidence sp \<rparr>
     # spec_links wid v (lid + 1) (tid + 1) sps"

definition add_spec_rows :: "pystr \<Rightarrow> int \<Rightarrow> int \<Rightarrow> int \<Rightarrow> WorkflowTaskSpec list \<Rightarrow> Store \<Rightarrow> Store" where
  "add_spec_rows now wid jid v sps s =
     s\<lparr>tasks := tasks s @ spec_rows now wid jid v (task_seq s + 1) sps,
       task_seq := task_seq s + int (length sps),
       links := links s @ spec_links wid v (link_seq s + 1) (task_seq s + 1) sps,
       link_seq := link_seq s + int (length sps)\<rparr>"

lemma insert_specs_eq:
  assumes "ids_ok s" and "job_exists s jid" and "workflow_at s wid \<noteq> None"
    and "\<forall>l \<in> set (links s). l_task l \<le> task_seq s" and "distinct (map spec_id sps)"
    and "\<forall>sp \<in> set sps. (wid, spec_id sp) \<notin> set (current_keys s)"
  shows "insert_specs now wid jid v sps s =
    Inr (spec_ids (task_seq s + 1) sps, add_spec_rows now wid jid v sps s)"
  using assms
proof (induction sps arbitrary: s)
  case Nil
  then show ?case by (simp add: add_spec_rows_def)
next
  case (Cons sp sps)
  let ?tid = "task_seq s + 1"
  let ?s1 = "s\<lparr>tasks := tasks s @ [new_task_row now ?tid jid (new_task_of_spec wid v sp)], task_seq := ?tid\<rparr>"
  let ?s2 = "?s1\<lparr>links := links s @ spec_links wid v (link_seq s + 1) ?tid [sp], link_seq := link_seq s + 1\<rparr>"
  have ins: "insert_task now jid (new_task_of_spec wid v sp) s = Inr (?tid, ?s1)"
    using Cons.prems(2) by (simp add: insert_task_def Let_def)
  have ok1: "ids_ok ?s1" using ids_ok_insert [OF ins Cons.prems(1)] .
  have "task_at ?s1 ?tid \<noteq> None"
    by (auto simp: task_at_def find_append new_task_row_def split: option.splits)
  then have link: "insert_link wid (spec_id sp) ?tid v (ws_writes sp) (ws_evidence sp) ?s1 = Inr ?s2"
    using Cons.prems(3,4,6)
    by (fastforce simp: insert_link_def list_ex_iff current_keys_def workflow_at_def image_iff)
  have "insert_specs now wid jid v sps ?s2 =
      Inr (spec_ids (task_seq ?s2 + 1) sps, add_spec_rows now wid jid v sps ?s2)"
  proof (rule Cons.IH)
    show "ids_ok ?s2" using ok1 by (simp add: ids_ok_def)
    show "job_exists ?s2 jid" using Cons.prems(2) by (simp add: job_exists_def)
    show "workflow_at ?s2 wid \<noteq> None" using Cons.prems(3) by (simp add: workflow_at_def)
    show "\<forall>l \<in> set (links ?s2). l_task l \<le> task_seq ?s2" using Cons.prems(4) by force
    show "distinct (map spec_id sps)" using Cons.prems(5) by simp
    show "\<forall>sp \<in> set sps. (wid, spec_id sp) \<notin> set (current_keys ?s2)"
      using Cons.prems(5,6) by (auto simp: current_keys_def image_iff)
  qed
  with ins link show ?case by (simp add: add_spec_rows_def algebra_simps)
qed

lemma map_fst_spec_ids [simp]: "map fst (spec_ids tid sps) = map spec_id sps"
  by (induction sps arbitrary: tid) auto

lemma spec_ids_range: "(x, t) \<in> set (spec_ids tid sps) \<Longrightarrow> tid \<le> t \<and> t < tid + int (length sps)"
  by (induction sps arbitrary: tid) fastforce+

lemma spec_ids_distinct: "distinct (map snd (spec_ids tid sps))"
proof (induction sps arbitrary: tid)
  case (Cons sp sps)
  have "tid \<notin> snd ` set (spec_ids (tid + 1) sps)" using spec_ids_range [of _ _ "tid + 1" sps] by fastforce
  with Cons show ?case by simp
qed simp

lemma spec_ids_dom: "x \<in> spec_id ` set sps \<Longrightarrow> \<exists>t. map_of (spec_ids tid sps) x = Some t"
  by (induction sps arbitrary: tid) auto

lemma spec_ids_Some: "map_of (spec_ids tid sps) x = Some t \<Longrightarrow>
    tid \<le> t \<and> t < tid + int (length sps) \<and> x \<in> spec_id ` set sps"
  using spec_ids_range [of x t tid sps] map_of_SomeD [of "spec_ids tid sps" x t]
  by (metis domI dom_map_of_conv_image_fst image_set map_fst_spec_ids list.set_map)

lemma spec_ids_inj:
  assumes "map_of (spec_ids tid sps) x = Some t" and "map_of (spec_ids tid sps) y = Some t"
  shows "x = y"
proof -
  have "(x, t) \<in> set (spec_ids tid sps)" "(y, t) \<in> set (spec_ids tid sps)"
    using assms by (auto dest: map_of_SomeD)
  then show ?thesis using spec_ids_distinct [of tid sps]
    by (metis distinct_map inj_onD prod.inject snd_conv)
qed

lemma spec_rows_ids: "map t_id (spec_rows now wid jid v tid sps) = map snd (spec_ids tid sps)"
  by (induction sps arbitrary: tid) (auto simp: new_task_row_def)

lemma spec_links_tasks: "map l_task (spec_links wid v lid tid sps) = map snd (spec_ids tid sps)"
  by (induction sps arbitrary: lid tid) auto

lemma spec_links_keys: "map (\<lambda>l. (l_workflow l, l_item l)) (filter (\<lambda>l. l_superseded_in l = None)
    (spec_links wid v lid tid sps)) = map (\<lambda>sp. (wid, spec_id sp)) sps"
  by (induction sps arbitrary: lid tid) auto

lemma spec_links_workflow: "l \<in> set (spec_links wid v lid tid sps) \<Longrightarrow> l_workflow l = wid"
  by (induction sps arbitrary: lid tid) auto

section \<open>The copy of the plan's graph\<close>

lemma acyclic_extend:
  assumes E: "acyclic E" and old: "\<And>a b. (a, b) \<in> E \<Longrightarrow> a \<notin> f ` X \<and> b \<notin> f ` X"
    and R: "acyclic R" and inj: "inj_on f X"
    and new: "\<And>a b. (a, b) \<in> N \<Longrightarrow> (\<exists>x \<in> X. a = f x \<and>
      ((\<exists>d \<in> X. b = f d \<and> (x, d) \<in> R) \<or> b \<notin> f ` X))"
  shows "acyclic (E \<union> N)"
proof -
  have into: "\<exists>x \<in> X. a = f x \<and> (x, d) \<in> R\<^sup>+" if "(a, f d) \<in> (E \<union> N)\<^sup>+" "d \<in> X" for a d
  proof -
    have one: "\<exists>x \<in> X. a = f x \<and> (x, d) \<in> R" if "(a, f d) \<in> E \<union> N" "d \<in> X" for a d
    proof -
      have "(a, f d) \<in> N" using that old by blast
      from new [OF this] obtain x d' where "x \<in> X" "a = f x" "d' \<in> X" "f d = f d'" "(x, d') \<in> R"
        using \<open>d \<in> X\<close> by blast
      then show ?thesis using inj_onD [OF inj] \<open>d \<in> X\<close> by metis
    qed
    show ?thesis using that(1)
    proof (induction rule: converse_trancl_induct)
      case (base a)
      then show ?case using one [OF _ that(2)] by blast
    next
      case (step a c)
      then obtain x where x: "x \<in> X" "c = f x" "(x, d) \<in> R\<^sup>+" by blast
      then obtain y where "y \<in> X" "a = f y" "(y, x) \<in> R"
        using one step.hyps(1) by blast
      with x(3) show ?case using trancl_into_trancl2 [of y x R d] by blast
    qed
  qed
  have from_old: "(a, b) \<in> E\<^sup>+ \<and> b \<notin> f ` X" if "(a, b) \<in> (E \<union> N)\<^sup>+" "a \<notin> f ` X" for a b
    using that
  proof (induction rule: trancl_induct)
    case (base b)
    then show ?case using old new by blast
  next
    case (step b c)
    then have "(b, c) \<in> E" using new by blast
    with step old show ?case by (meson trancl_into_trancl)
  qed
  show ?thesis unfolding acyclic_def
  proof (intro allI notI)
    fix a assume loop: "(a, a) \<in> (E \<union> N)\<^sup>+"
    show False
    proof (cases "a \<in> f ` X")
      case True
      then obtain d where "d \<in> X" "a = f d" by blast
      with into [of a d] loop inj R show False by (metis acyclic_def inj_onD)
    next
      case False
      with from_old [OF loop] E show False by (simp add: acyclic_def)
    qed
  qed
qed

section \<open>Linking the dependencies\<close>

definition dep_target :: "(pystr \<times> int) list \<Rightarrow> pystr \<Rightarrow> int" where
  "dep_target by_item d = the (map_of by_item d)"

definition spec_edges :: "(pystr \<times> int) list \<Rightarrow> (pystr \<times> int) list \<Rightarrow> WorkflowTaskSpec list \<Rightarrow> (int \<times> int) set" where
  "spec_edges created by_item sps = (\<Union>sp \<in> set sps.
     {dep_target created (spec_id sp)} \<times> dep_target by_item ` set (wi_dependencies (ws_item sp)))"

definition known_task :: "Store \<Rightarrow> (pystr \<times> int) list \<Rightarrow> pystr \<Rightarrow> bool" where
  "known_task s d x \<longleftrightarrow> (\<exists>tid. map_of d x = Some tid \<and> task_at s tid \<noteq> None)"

lemma deps_frame_trans:
  "s1 = s\<lparr>deps := deps s1\<rparr> \<Longrightarrow> s2 = s1\<lparr>deps := deps s2\<rparr> \<Longrightarrow> s2 = s\<lparr>deps := deps s2\<rparr>"
  by (cases s; cases s1; cases s2) simp

lemma insert_dependency_frame:
  "insert_task_dependency now t d s = Inr (b, s') \<Longrightarrow> s' = s\<lparr>deps := deps s'\<rparr>"
  by (auto simp: insert_task_dependency_def split: if_splits)

lemma task_at_deps [simp]: "task_at (s\<lparr>deps := ds\<rparr>) t = task_at s t"
  by (simp add: task_at_def)

lemma link_deps_ok:
  "deps_ok s \<Longrightarrow> task_at s tid \<noteq> None \<Longrightarrow> \<forall>d \<in> set ds. known_task s by_item d \<Longrightarrow>
    acyclic (edge_set s \<union> {tid} \<times> dep_target by_item ` set ds) \<Longrightarrow>
    \<exists>s'. link_deps now tid by_item ds s = Inr s' \<and> deps_ok s' \<and> s' = s\<lparr>deps := deps s'\<rparr> \<and>
      edge_set s' = edge_set s \<union> {tid} \<times> dep_target by_item ` set ds"
proof (induction ds arbitrary: s)
  case Nil
  then show ?case by simp
next
  case (Cons d ds)
  from Cons.prems(3) obtain t where t: "map_of by_item d = Some t" "task_at s t \<noteq> None"
    by (auto simp: known_task_def)
  have "acyclic (insert (tid, t) (edge_set s))"
    by (rule acyclic_subset [OF Cons.prems(4)]) (use t(1) in \<open>auto simp: dep_target_def\<close>)
  then obtain b s1 where ins: "insert_task_dependency now tid t s = Inr (b, s1)"
    using insert_dependency_cases [OF Cons.prems(1)] Cons.prems(2) t(2) by fastforce
  note eff = insert_dependency_effect [OF ins]
  note frame = insert_dependency_frame [OF ins]
  have same: "task_at s1 x = task_at s x" for x by (subst frame) simp
  have "\<exists>s'. link_deps now tid by_item ds s1 = Inr s' \<and> deps_ok s' \<and> s' = s1\<lparr>deps := deps s'\<rparr> \<and>
      edge_set s' = edge_set s1 \<union> {tid} \<times> dep_target by_item ` set ds"
  proof (rule Cons.IH)
    show "deps_ok s1" using insert_dependency_ok [OF Cons.prems(1) ins] .
    show "task_at s1 tid \<noteq> None" using Cons.prems(2) same by simp
    show "\<forall>d \<in> set ds. known_task s1 by_item d" using Cons.prems(3) same by (simp add: known_task_def)
    show "acyclic (edge_set s1 \<union> {tid} \<times> dep_target by_item ` set ds)"
      by (rule acyclic_subset [OF Cons.prems(4)]) (use eff(1) t(1) in \<open>auto simp: dep_target_def\<close>)
  qed
  then obtain s' where s': "link_deps now tid by_item ds s1 = Inr s'" "deps_ok s'"
    "s' = s1\<lparr>deps := deps s'\<rparr>" "edge_set s' = edge_set s1 \<union> {tid} \<times> dep_target by_item ` set ds"
    by blast
  have "s' = s\<lparr>deps := deps s'\<rparr>" by (rule deps_frame_trans [OF frame s'(3)])
  with s' ins t(1) eff(1) show ?case by (auto simp: dict_get_def dep_target_def)
qed

lemma spec_edges_Cons: "spec_edges created by_item (sp # sps) =
    {dep_target created (spec_id sp)} \<times> dep_target by_item ` set (wi_dependencies (ws_item sp))
    \<union> spec_edges created by_item sps"
  by (simp add: spec_edges_def)

lemma link_specs_ok:
  "deps_ok s \<Longrightarrow> \<forall>sp \<in> set sps. known_task s created (spec_id sp) \<and>
      (\<forall>d \<in> set (wi_dependencies (ws_item sp)). known_task s by_item d) \<Longrightarrow>
    acyclic (edge_set s \<union> spec_edges created by_item sps) \<Longrightarrow>
    \<exists>s'. link_specs now created by_item sps s = Inr s' \<and> deps_ok s' \<and> s' = s\<lparr>deps := deps s'\<rparr> \<and>
      edge_set s' = edge_set s \<union> spec_edges created by_item sps"
proof (induction sps arbitrary: s)
  case Nil
  then show ?case by (simp add: spec_edges_def)
next
  case (Cons sp sps)
  from Cons.prems(2) obtain tid where tid: "map_of created (spec_id sp) = Some tid" "task_at s tid \<noteq> None"
    by (auto simp: known_task_def)
  let ?new = "{tid} \<times> dep_target by_item ` set (wi_dependencies (ws_item sp))"
  have new: "?new = {dep_target created (spec_id sp)} \<times> dep_target by_item ` set (wi_dependencies (ws_item sp))"
    using tid(1) by (simp add: dep_target_def)
  have "acyclic (edge_set s \<union> ?new)"
    by (rule acyclic_subset [OF Cons.prems(3)]) (auto simp: spec_edges_Cons new)
  then obtain s1 where s1: "link_deps now tid by_item (wi_dependencies (ws_item sp)) s = Inr s1" "deps_ok s1"
    "s1 = s\<lparr>deps := deps s1\<rparr>" "edge_set s1 = edge_set s \<union> ?new"
    using link_deps_ok [OF Cons.prems(1) tid(2)] Cons.prems(2) by (metis list.set_intros(1))
  have same: "task_at s1 x = task_at s x" for x by (subst s1(3)) simp
  have "\<exists>s'. link_specs now created by_item sps s1 = Inr s' \<and> deps_ok s' \<and> s' = s1\<lparr>deps := deps s'\<rparr> \<and>
      edge_set s' = edge_set s1 \<union> spec_edges created by_item sps"
  proof (rule Cons.IH)
    show "deps_ok s1" by (rule s1(2))
    show "\<forall>sp \<in> set sps. known_task s1 created (spec_id sp) \<and>
        (\<forall>d \<in> set (wi_dependencies (ws_item sp)). known_task s1 by_item d)"
      using Cons.prems(2) same by (simp add: known_task_def)
    show "acyclic (edge_set s1 \<union> spec_edges created by_item sps)"
      using Cons.prems(3) s1(4) new by (simp add: spec_edges_Cons Un_assoc)
  qed
  then obtain s' where s': "link_specs now created by_item sps s1 = Inr s'" "deps_ok s'"
    "s' = s1\<lparr>deps := deps s'\<rparr>" "edge_set s' = edge_set s1 \<union> spec_edges created by_item sps"
    by blast
  have "s' = s\<lparr>deps := deps s'\<rparr>" by (rule deps_frame_trans [OF s1(3) s'(3)])
  with s' s1(1,4) tid(1) new show ?case by (simp add: dict_get_def spec_edges_Cons Un_assoc)
qed

section \<open>Creating the tasks of a version\<close>

definition fresh_version :: "Store \<Rightarrow> int \<Rightarrow> (pystr \<times> int) list \<Rightarrow> WorkflowTaskSpec list \<Rightarrow> bool" where
  "fresh_version s wid existing sps \<longleftrightarrow> distinct (map spec_id sps) \<and>
     (\<forall>sp \<in> set sps. (wid, spec_id sp) \<notin> set (current_keys s) \<and>
        (\<forall>d \<in> set (wi_dependencies (ws_item sp)). d \<in> spec_id ` set sps \<or> known_task s existing d))"

lemma task_at_add_old: "task_at s t = Some r \<Longrightarrow> task_at (add_spec_rows now wid jid v sps s) t = Some r"
  by (simp add: add_spec_rows_def task_at_def find_append)

lemma task_at_add_new:
  assumes "t \<in> snd ` set (spec_ids (task_seq s + 1) sps)"
  shows "task_at (add_spec_rows now wid jid v sps s) t \<noteq> None"
proof -
  have "t \<in> t_id ` set (spec_rows now wid jid v (task_seq s + 1) sps)"
    using assms spec_rows_ids [of now wid jid v "task_seq s + 1" sps] by (metis image_set)
  then show ?thesis
    unfolding task_at_def find_None_iff_ball add_spec_rows_def by auto
qed

lemma old_id_bound: "ids_ok s \<Longrightarrow> task_at s t \<noteq> None \<Longrightarrow> t \<le> task_seq s"
  unfolding ids_ok_def by (auto dest: task_at_SomeD)

lemma add_spec_rows_edges [simp]: "edge_set (add_spec_rows now wid jid v sps s) = edge_set s"
  "dep_edges (add_spec_rows now wid jid v sps s) = dep_edges s"
  by (simp_all add: add_spec_rows_def edge_set_def dep_edges_def)

lemma deps_ok_add: "deps_ok s \<Longrightarrow> deps_ok (add_spec_rows now wid jid v sps s)"
  using task_at_add_old by (fastforce simp: deps_ok_def)

lemma version_edges_acyclic:
  assumes ids: "ids_ok s" and deps: "deps_ok s" and fresh: "fresh_version s wid existing sps"
    and acy: "acyclic (dep_rel (map ws_item sps))"
  defines "created \<equiv> spec_ids (task_seq s + 1) sps"
  shows "acyclic (edge_set s \<union> spec_edges created (created @ existing) sps)"
proof (rule acyclic_extend [where X = "spec_id ` set sps" and f = "dep_target created" and R = "dep_rel (map ws_item sps)"])
  have new_id: "task_seq s < dep_target created x" if "x \<in> spec_id ` set sps" for x
    using spec_ids_dom [OF that, of "task_seq s + 1"] spec_ids_Some [of "task_seq s + 1" sps x]
    by (auto simp: created_def dep_target_def)
  show "acyclic (edge_set s)" using deps by (simp add: deps_ok_def)
  show "a \<notin> dep_target created ` spec_id ` set sps \<and> b \<notin> dep_target created ` spec_id ` set sps"
    if "(a, b) \<in> edge_set s" for a b
  proof -
    have "task_at s a \<noteq> None" "task_at s b \<noteq> None" using that deps unfolding deps_ok_def by blast+
    then have "a \<le> task_seq s" "b \<le> task_seq s" using old_id_bound [OF ids] by blast+
    then show ?thesis using new_id by (metis (no_types, lifting) imageE leD)
  qed
  show "acyclic (dep_rel (map ws_item sps))" by (rule acy)
  show "inj_on (dep_target created) (spec_id ` set sps)"
    using spec_ids_dom spec_ids_inj unfolding created_def dep_target_def
    by (intro inj_onI) (metis option.sel)
  fix a b assume "(a, b) \<in> spec_edges created (created @ existing) sps"
  then obtain sp d where sp: "sp \<in> set sps" "d \<in> set (wi_dependencies (ws_item sp))"
    and ab: "a = dep_target created (spec_id sp)" "b = dep_target (created @ existing) d"
    by (auto simp: spec_edges_def)
  show "\<exists>x \<in> spec_id ` set sps. a = dep_target created x \<and>
      ((\<exists>d \<in> spec_id ` set sps. b = dep_target created d \<and> (x, d) \<in> dep_rel (map ws_item sps)) \<or>
       b \<notin> dep_target created ` spec_id ` set sps)"
  proof (cases "d \<in> spec_id ` set sps")
    case True
    then have "b = dep_target created d"
      using spec_ids_dom [OF True, of "task_seq s + 1"] ab(2) by (auto simp: created_def dep_target_def map_add_def)
    moreover have "(spec_id sp, d) \<in> dep_rel (map ws_item sps)" using sp unfolding dep_rel_specs by auto
    ultimately show ?thesis using sp ab(1) True by blast
  next
    case False
    then have "map_of created d = None" by (simp add: created_def map_of_eq_None_iff flip: set_map)
    moreover have "known_task s existing d" using fresh sp False by (auto simp: fresh_version_def)
    ultimately have "b \<le> task_seq s"
      using ab(2) old_id_bound [OF ids] by (auto simp: dep_target_def known_task_def map_add_def)
    then have "b \<notin> dep_target created ` spec_id ` set sps"
      using new_id by (metis (no_types, lifting) imageE leD)
    then show ?thesis using sp(1) ab(1) by blast
  qed
qed

lemma add_spec_rows_ids: "ids_ok s \<Longrightarrow> ids_ok (add_spec_rows now wid jid v sps s)"
proof (induction sps arbitrary: s)
  case (Cons sp sps)
  let ?s1 = "s\<lparr>tasks := tasks s @ [new_task_row now (task_seq s + 1) jid (new_task_of_spec wid v sp)],
    task_seq := task_seq s + 1, links := links s @ spec_links wid v (link_seq s + 1) (task_seq s + 1) [sp],
    link_seq := link_seq s + 1\<rparr>"
  have "ids_ok ?s1" using Cons.prems by (force simp: ids_ok_def new_task_row_def sorted_append)
  from Cons.IH [OF this] show ?case by (simp add: add_spec_rows_def algebra_simps)
qed (simp add: add_spec_rows_def)

lemma links_ok_add:
  assumes "links_ok s" and "ids_ok s" and "workflow_at s wid \<noteq> None" and "fresh_version s wid existing sps"
  shows "links_ok (add_spec_rows now wid jid v sps s)"
proof -
  let ?s = "add_spec_rows now wid jid v sps s" and ?new = "spec_links wid v (link_seq s + 1) (task_seq s + 1) sps"
  have new_ids: "l_task ` set ?new = snd ` set (spec_ids (task_seq s + 1) sps)"
    using spec_links_tasks [of wid v "link_seq s + 1" "task_seq s + 1" sps] by (metis image_set)
  have old: "l_task l \<le> task_seq s" if "l \<in> set (links s)" for l
    using assms(1,2) that old_id_bound unfolding links_ok_def by blast
  have "l_task ` set (links s) \<inter> snd ` set (spec_ids (task_seq s + 1) sps) = {}"
    using old spec_ids_range [of _ _ "task_seq s + 1" sps] by fastforce
  then have "distinct (map l_task (links ?s))"
    using assms(1) spec_ids_distinct by (simp add: add_spec_rows_def links_ok_def spec_links_tasks)
  moreover have "current_keys ?s = current_keys s @ map (\<lambda>sp. (wid, spec_id sp)) sps"
    by (simp add: current_keys_def add_spec_rows_def spec_links_keys)
  then have "distinct (current_keys ?s)"
    using assms(1,4) by (auto simp: links_ok_def fresh_version_def distinct_map inj_on_def)
  moreover have "task_at ?s (l_task l) \<noteq> None \<and> workflow_at ?s (l_workflow l) \<noteq> None"
    if "l \<in> set (links ?s)" for l
  proof (cases "l \<in> set (links s)")
    case True
    then have "task_at s (l_task l) \<noteq> None \<and> workflow_at s (l_workflow l) \<noteq> None"
      using assms(1) by (simp add: links_ok_def)
    then show ?thesis using task_at_add_old by (fastforce simp: workflow_at_def add_spec_rows_def)
  next
    case False
    with that have l: "l \<in> set ?new" by (simp add: add_spec_rows_def)
    then have "l_task l \<in> snd ` set (spec_ids (task_seq s + 1) sps)" using new_ids by blast
    then show ?thesis using task_at_add_new spec_links_workflow [OF l] assms(3)
      by (simp add: workflow_at_def add_spec_rows_def)
  qed
  ultimately show ?thesis by (simp add: links_ok_def)
qed

lemma create_tasks_ok:
  fixes now :: pystr and v :: int
  assumes ok: "ids_ok s" "deps_ok s" "links_ok s" and job: "job_exists s jid" and wf: "workflow_at s wid \<noteq> None"
    and fresh: "fresh_version s wid existing sps" and acy: "acyclic (dep_rel (map ws_item sps))"
  defines "created \<equiv> spec_ids (task_seq s + 1) sps" and "s1 \<equiv> add_spec_rows now wid jid v sps s"
  shows "\<exists>s'. create_tasks now wid jid v sps existing s = Inr (created, s') \<and> s' = s1\<lparr>deps := deps s'\<rparr> \<and>
    edge_set s' = edge_set s \<union> spec_edges created (created @ existing) sps \<and>
    ids_ok s' \<and> deps_ok s' \<and> links_ok s'"
proof -
  have bound: "\<forall>l \<in> set (links s). l_task l \<le> task_seq s"
    using ok old_id_bound unfolding links_ok_def by blast
  have ins: "insert_specs now wid jid v sps s = Inr (created, s1)"
    unfolding created_def s1_def using insert_specs_eq [OF ok(1) job wf bound] fresh
    by (simp add: fresh_version_def)
  have known_new: "known_task s1 created x" if "x \<in> spec_id ` set sps" for x
  proof -
    from spec_ids_dom [OF that] obtain t where t: "map_of created x = Some t"
      unfolding created_def by blast
    then have "t \<in> snd ` set created" by (metis image_eqI map_of_SomeD snd_conv)
    then show ?thesis using t task_at_add_new unfolding known_task_def created_def s1_def by blast
  qed
  have known: "known_task s1 (created @ existing) d"
    if "sp \<in> set sps" "d \<in> set (wi_dependencies (ws_item sp))" for sp d
  proof (cases "d \<in> spec_id ` set sps")
    case True
    then obtain t where "map_of created d = Some t" "task_at s1 t \<noteq> None"
      using known_new unfolding known_task_def by blast
    then show ?thesis by (simp add: known_task_def map_add_def)
  next
    case False
    then have none: "map_of created d = None" by (simp add: created_def map_of_eq_None_iff flip: set_map)
    have "known_task s existing d" using fresh that False by (auto simp: fresh_version_def)
    then obtain t r where "map_of existing d = Some t" "task_at s t = Some r" by (auto simp: known_task_def)
    with none show ?thesis using task_at_add_old unfolding s1_def known_task_def by (auto simp: map_add_def)
  qed
  have "acyclic (edge_set s1 \<union> spec_edges created (created @ existing) sps)"
    using version_edges_acyclic [OF ok(1,2) fresh acy] by (simp add: s1_def created_def)
  moreover have "deps_ok s1" using deps_ok_add [OF ok(2)] by (simp add: s1_def)
  ultimately obtain s' where s': "link_specs now created (created @ existing) sps s1 = Inr s'" "deps_ok s'"
    "s' = s1\<lparr>deps := deps s'\<rparr>" "edge_set s' = edge_set s1 \<union> spec_edges created (created @ existing) sps"
    using link_specs_ok [of s1 sps created "created @ existing"] known_new known by blast
  have "ids_ok s1" "links_ok s1"
    using add_spec_rows_ids ok links_ok_add [OF ok(3,1) wf fresh] by (simp_all add: s1_def)
  then have "ids_ok (s1\<lparr>deps := deps s'\<rparr>)" "links_ok (s1\<lparr>deps := deps s'\<rparr>)"
    by (simp_all add: ids_ok_def links_ok_def current_keys_def workflow_at_def)
  with s' have "ids_ok s'" "links_ok s'" by metis+
  with ins s' show ?thesis by (simp add: create_tasks_def s1_def)
qed

section \<open>Publishing a plan\<close>

lemma gate_closed:
  assumes "l \<in> set (links s)" and "l_task l = t_id c" and "workflow_at s (l_workflow l) = Some w"
    and "w_status w \<noteq> wf_value WF_RUNNING"
  shows "\<not> claimable s agent job c"
  using assms workflow_at_SomeD [OF assms(3)]
  by (auto simp: claimable_def exec_claim_gate_def list_ex_iff)

lemma ok_other_tables:
  assumes "tasks s' = tasks s" and "task_seq s' = task_seq s" and "deps s' = deps s"
  shows "ids_ok s' = ids_ok s" and "deps_ok s' = deps_ok s"
  using assms by (simp_all add: ids_ok_def deps_ok_def edge_set_def dep_edges_def task_at_def)

lemma workflow_at_snoc:
  assumes "w_id w \<notin> w_id ` set (workflows s)"
  shows "workflow_at (s\<lparr>workflows := workflows s @ [w], workflow_seq := n, plans := ps\<rparr>) i =
      (if i = w_id w then Some w else workflow_at s i)"
proof -
  have "find (\<lambda>x. w_id x = w_id w) (workflows s) = None"
    unfolding find_None_iff_ball using assms by (metis imageI)
  then show ?thesis by (auto simp: workflow_at_def find_append split: option.splits)
qed

definition publish_base :: "(json \<Rightarrow> pystr) \<Rightarrow> pystr \<Rightarrow> WorkflowPlan \<Rightarrow> int \<Rightarrow> pystr \<Rightarrow> Store \<Rightarrow> Store" where
  "publish_base digest now plan jid key s = (let wid = workflow_seq s + 1 in
     s\<lparr>workflows := workflows s @ [new_workflow now wid jid key plan], workflow_seq := wid,
       plans := plans s @ [\<lparr> p_workflow = wid, p_version = 1, p_plan_json = JObj (plan_to_dict plan),
         p_hash = plan_hash digest plan, p_created_at = now \<rparr>]\<rparr>)"

lemma publish_base_ok:
  fixes digest :: "json \<Rightarrow> pystr" and now key :: pystr and jid :: int
  assumes ok: "store_ok s" and g: "graph_ok plan" and job: "job_exists s jid"
  defines "b \<equiv> publish_base digest now plan jid key s" and "wid \<equiv> workflow_seq s + 1"
  shows "ids_ok b" and "deps_ok b" and "links_ok b" and "workflows_ok b"
    and "\<And>i. workflow_at b i = (if i = wid then Some (new_workflow now wid jid key plan) else workflow_at s i)"
proof -
  have tabs: "tasks b = tasks s" "task_seq b = task_seq s" "deps b = deps s" "links b = links s"
    by (simp_all add: b_def publish_base_def Let_def)
  show "ids_ok b" "deps_ok b" using ok ok_other_tables [OF tabs(1-3)] by (simp_all add: store_ok_def)
  have old: "w_id w \<le> workflow_seq s" if "w \<in> set (workflows s)" for w
    using ok that by (simp add: store_ok_def workflows_ok_def)
  then have new: "wid \<notin> w_id ` set (workflows s)" unfolding wid_def by fastforce
  show at: "workflow_at b i = (if i = wid then Some (new_workflow now wid jid key plan) else workflow_at s i)" for i
    using workflow_at_snoc [where s = s and w = "new_workflow now wid jid key plan"] new
    by (simp add: b_def publish_base_def Let_def wid_def new_workflow_def)
  show "links_ok b"
    using ok at tabs by (auto simp: store_ok_def links_ok_def current_keys_def task_at_def)
  have plans: "plans b = plans s @ [\<lparr> p_workflow = wid, p_version = 1,
      p_plan_json = JObj (plan_to_dict plan), p_hash = plan_hash digest plan, p_created_at = now \<rparr>]"
    by (simp add: b_def publish_base_def Let_def wid_def)
  have rows: "p_workflow row \<le> workflow_seq s" if "row \<in> set (plans s)" for row
    using ok that by (simp add: store_ok_def workflows_ok_def)
  have "version_ok b w" if "w \<in> set (workflows s)" for w
  proof -
    have "version_ok s w" using ok that by (simp add: store_ok_def workflows_ok_def)
    moreover have "w_id w \<noteq> wid" using old [OF that] by (simp add: wid_def)
    ultimately show ?thesis by (auto simp: version_ok_def plans plan_row_def find_append)
  qed
  moreover have "plan_row wid 1 s = None"
    unfolding plan_row_def find_None_iff_ball using rows by (fastforce simp: wid_def)
  then have "version_ok b (new_workflow now wid jid key plan)"
    using rows g by (fastforce simp: version_ok_def plans plan_row_def find_append new_workflow_def wid_def)
  ultimately show "workflows_ok b"
    using ok new old rows job
    by (force simp: job_exists_def workflows_ok_def plans store_ok_def b_def publish_base_def Let_def wid_def new_workflow_def)
qed

lemma workflows_ok_tables:
  assumes "workflows s' = workflows s" and "workflow_seq s' = workflow_seq s" and "plans s' = plans s"
    and "jobs s' = jobs s"
  shows "workflows_ok s' = workflows_ok s" and "workflow_at s' i = workflow_at s i"
  using assms by (simp_all add: workflows_ok_def version_ok_def plan_row_def workflow_at_def job_exists_def)

lemma publish_succeeds:
  fixes digest :: "json \<Rightarrow> pystr" and now :: pystr and agents :: "pystr list"
  assumes ok: "store_ok s" and g: "graph_ok plan" and job: "job_exists s jid"
    and key: "find (\<lambda>w. w_publication_key w = key) (workflows s) = None"
    and room: "open_count jid s < max_open_workflows limits"
  defines "wid \<equiv> workflow_seq s + 1" and "specs \<equiv> pl_tasks (resolve_assignees plan agents)"
  defines "s1 \<equiv> add_spec_rows now wid jid 1 specs (publish_base digest now plan jid key s)"
  shows "\<exists>s'. publish digest limits now plan jid key agents s = Inr ((new_workflow now wid jid key plan, True), s') \<and>
    s' = s1\<lparr>deps := deps s'\<rparr> \<and> store_ok s'"
proof -
  let ?b = "publish_base digest now plan jid key s"
  note b = publish_base_ok [OF ok g job, of digest now key, folded wid_def]
  have "p_workflow row \<le> workflow_seq s" if "row \<in> set (plans s)" for row
    using ok that by (simp add: store_ok_def workflows_ok_def)
  then have "plan_row wid 1 (s\<lparr>workflows := ws, workflow_seq := n\<rparr>) = None" for ws n
    unfolding plan_row_def find_None_iff_ball wid_def by fastforce
  then have base: "insert_plan_version digest now wid 1 plan
      (s\<lparr>workflows := workflows s @ [new_workflow now wid jid key plan], workflow_seq := wid\<rparr>) = Inr ?b"
    by (simp add: insert_plan_version_def publish_base_def Let_def wid_def)
  have gr: "graph_ok (resolve_assignees plan agents)" using g by simp
  have "(wid, i) \<notin> set (current_keys ?b)" for i
  proof
    assume "(wid, i) \<in> set (current_keys ?b)"
    then have "wid \<in> l_workflow ` set (links s)"
      by (auto simp: current_keys_def publish_base_def Let_def)
    then obtain w where "workflow_at s wid = Some w"
      using ok unfolding store_ok_def links_ok_def by blast
    then have "wid \<le> workflow_seq s"
      using ok workflow_at_SomeD unfolding store_ok_def workflows_ok_def by blast
    then show False by (simp add: wid_def)
  qed
  moreover have "d \<in> spec_id ` set specs" if "sp \<in> set specs" "d \<in> set (wi_dependencies (ws_item sp))" for sp d
    using graph_ok_dep [OF gr] that unfolding specs_def by blast
  ultimately have fresh: "fresh_version ?b wid [] specs"
    using gr unfolding fresh_version_def graph_ok_def specs_def by blast
  have acy: "acyclic (dep_rel (map ws_item specs))" using gr unfolding graph_ok_def specs_def by blast
  have jb: "job_exists ?b jid" using job by (simp add: job_exists_def publish_base_def Let_def)
  have wfb: "workflow_at ?b wid \<noteq> None" using b(5) [of wid] by simp
  from create_tasks_ok [OF b(1,2,3) jb wfb fresh acy, of now 1] obtain s' where s':
    "create_tasks now wid jid 1 specs [] ?b = Inr (spec_ids (task_seq ?b + 1) specs, s')"
    "s' = s1\<lparr>deps := deps s'\<rparr>" "ids_ok s'" "deps_ok s'" "links_ok s'"
    unfolding s1_def by blast
  have tabs: "workflows s' = workflows ?b" "workflow_seq s' = workflow_seq ?b" "plans s' = plans ?b" "jobs s' = jobs ?b"
    by (subst s'(2), simp add: s1_def add_spec_rows_def)+
  have "load_workflow wid s' = Inr (new_workflow now wid jid key plan)"
    using workflows_ok_tables(2) [OF tabs, of wid] b(5) [of wid]
    by (simp add: load_workflow_def new_workflow_def)
  with s' base key room job have "publish digest limits now plan jid key agents s =
      Inr ((new_workflow now wid jid key plan, True), s')"
    by (simp add: publish_def Let_def wid_def specs_def del: resolve_plan_fields)
  moreover have "store_ok s'" using s' b(4) workflows_ok_tables(1) [OF tabs] by (simp add: store_ok_def)
  ultimately show ?thesis using s'(2) by blast
qed

end
