(* ===== verification/Workflow_Replanning.thy ===== *)
theory Workflow_Replanning
  imports Workflow_Publication
begin

text \<open>
  Applying a new version of a plan. The lemmas are proved once for any decider that keeps the
  contract \<open>keep_decider\<close>; the interpretation for \<open>decide_kept\<close> gives them for the code.
\<close>

section \<open>Cancelling a list of tasks\<close>

lemma tasks_frame_trans:
  "s1 = s\<lparr>tasks := tasks s1\<rparr> \<Longrightarrow> s2 = s1\<lparr>tasks := tasks s2\<rparr> \<Longrightarrow> s2 = s\<lparr>tasks := tasks s2\<rparr>"
  by (cases s; cases s1; cases s2) simp

lemma update_task_row_frame: "update_task_row t f s = s\<lparr>tasks := tasks (update_task_row t f s)\<rparr>"
  by (simp add: update_task_row_def)

definition cancelled_row :: "pystr \<Rightarrow> TaskStatus \<Rightarrow> pystr option \<Rightarrow> TaskRow \<Rightarrow> TaskRow" where
  "cancelled_row now st reason r = r\<lparr>t_status := status_value st, t_notes := reason,
     t_completed_at := Some now, t_updated_at := Some now\<rparr>"

lemma cancelled_row_id [simp]: "t_id (cancelled_row now st reason r) = t_id r"
  "t_status (cancelled_row now st reason r) = status_value st"
  by (simp_all add: cancelled_row_def)

lemma cancelled_row_idem [simp]:
  "cancelled_row now st reason (cancelled_row now st reason r) = cancelled_row now st reason r"
  by (simp add: cancelled_row_def)

lemma transition_tasks_Cons:
  "transition_tasks now (tid # tids) st reason s = (case task_at s tid of
     None \<Rightarrow> transition_tasks now tids st reason s
   | Some r \<Rightarrow>
       if can_transition (t_status r) (status_value st)
       then map_prod ((#) tid) id
         (transition_tasks now tids st reason (update_task_row tid (cancelled_row now st reason) s))
       else transition_tasks now tids st reason s)"
  by (simp add: cancelled_row_def [abs_def] map_prod_def split: option.splits)

lemma terminal_no_transition: "task_terminal st \<Longrightarrow> \<not> can_transition (status_value st) y"
  by (simp add: task_terminal_iff can_transition_from_value)

lemma transition_tasks_effect:
  "transition_tasks now tids st reason s = (changed, s') \<Longrightarrow> task_terminal st \<Longrightarrow>
    s' = s\<lparr>tasks := tasks s'\<rparr> \<and> same_ids s s' \<and> (\<forall>t. task_at s' t = (case task_at s t of None \<Rightarrow> None
      | Some r \<Rightarrow> Some (if t \<in> set tids \<and> can_transition (t_status r) (status_value st)
                       then cancelled_row now st reason r else r)))"
proof (induction tids arbitrary: s changed)
  case Nil
  then show ?case by (auto split: option.splits)
next
  case (Cons tid tids)
  show ?case
  proof (cases "\<exists>r. task_at s tid = Some r \<and> can_transition (t_status r) (status_value st)")
    case False
    then have "transition_tasks now tids st reason s = (changed, s')"
      using Cons.prems(1) unfolding transition_tasks_Cons by (auto split: option.splits)
    from Cons.IH [OF this Cons.prems(2)] False show ?thesis by (auto split: option.splits)
  next
    case True
    let ?s1 = "update_task_row tid (cancelled_row now st reason) s"
    from True Cons.prems(1) obtain ch where "transition_tasks now tids st reason ?s1 = (ch, s')"
      unfolding transition_tasks_Cons by (auto simp: map_prod_def split: prod.splits)
    note IH = Cons.IH [OF this Cons.prems(2)]
    have "s' = s\<lparr>tasks := tasks s'\<rparr>"
      using tasks_frame_trans [OF update_task_row_frame] IH by blast
    moreover have "same_ids s s'" using IH same_ids_update [of "cancelled_row now st reason" s tid s]
      by (simp add: same_ids_def)
    moreover have "task_at s' t = (case task_at s t of None \<Rightarrow> None
      | Some r \<Rightarrow> Some (if t \<in> set (tid # tids) \<and> can_transition (t_status r) (status_value st)
                       then cancelled_row now st reason r else r))" for t
      using IH True terminal_no_transition [OF Cons.prems(2)]
      by (auto simp: task_at_update_task_row split: option.splits)
    ultimately show ?thesis by blast
  qed
qed

lemma transition_tasks_None: "transition_tasks now tids st reason s = (changed, s') \<Longrightarrow> task_terminal st \<Longrightarrow>
    task_at s' t = None \<longleftrightarrow> task_at s t = None"
  using transition_tasks_effect [of now tids st reason s changed s'] by (auto split: option.splits)

section \<open>Superseding links\<close>

lemma filter_update_where_sub:
  "(\<And>x. p x \<Longrightarrow> \<not> q (f x)) \<Longrightarrow> filter q (update_where p f xs) = filter (\<lambda>x. q x \<and> \<not> p x) xs"
  by (induction xs) auto

lemma current_keys_supersede: "current_keys (supersede v tids s) = map (\<lambda>l. (l_workflow l, l_item l))
    (filter (\<lambda>l. l_superseded_in l = None \<and> l_task l \<notin> set tids) (links s))"
  by (simp add: current_keys_def supersede_def filter_update_where_sub)

lemma supersede_frame [simp]:
  "task_at (supersede v tids s) t = task_at s t" "workflow_at (supersede v tids s) i = workflow_at s i"
  by (simp_all add: supersede_def task_at_def workflow_at_def)

lemma links_ok_supersede:
  assumes "links_ok s" shows "links_ok (supersede v tids s)"
proof -
  have "map l_task (links (supersede v tids s)) = map l_task (links s)"
    by (simp add: supersede_def map_update_where)
  moreover have "distinct (current_keys (supersede v tids s))"
    unfolding current_keys_supersede
    using assms by (auto simp: links_ok_def current_keys_def distinct_map inj_on_def)
  ultimately show ?thesis using assms
    by (auto simp: links_ok_def) (auto simp: supersede_def in_set_update_where)
qed

section \<open>Reading the current version\<close>

lemma map_res_Inr: "(\<And>x. x \<in> set xs \<Longrightarrow> f x = Inr (g x)) \<Longrightarrow> map_res f xs = Inr (map g xs)"
  by (induction xs) auto

lemma specs_of_plan: "specs_of_json (JObj (plan_to_dict p)) = Some (rev (map (\<lambda>sp. (spec_id sp, sp)) (pl_tasks p)))"
  by (simp add: specs_of_json_def plan_to_dict_def map_opt_map [where h = "\<lambda>sp. (spec_id sp, sp)"])

lemma map_of_specs:
  assumes "map_of (rev (map (\<lambda>sp. (spec_id sp, sp)) sps)) x = Some sp"
  shows "sp \<in> set sps \<and> spec_id sp = x"
  using map_of_SomeD [OF assms] by auto

lemma plan_specs_ok:
  assumes "store_ok s" and "workflow_at s wid = Some w"
  shows "\<exists>p. plan_specs wid (w_plan_version w) s = Inr (rev (map (\<lambda>sp. (spec_id sp, sp)) (pl_tasks p))) \<and> graph_ok p"
proof -
  have "w \<in> set (workflows s)" "w_id w = wid" using workflow_at_SomeD [OF assms(2)] by auto
  then have "version_ok s w" using assms(1) by (simp add: store_ok_def workflows_ok_def)
  with \<open>w_id w = wid\<close> show ?thesis by (auto simp: version_ok_def plan_specs_def specs_of_plan)
qed

definition entries :: "Store \<Rightarrow> (pystr \<times> WorkflowTaskSpec) list \<Rightarrow> LinkRow list \<Rightarrow> current_map" where
  "entries s old lks = map (\<lambda>l. (l_item l, the (map_of old (l_item l)), t_status (the (task_at s (l_task l)))))
     (filter (\<lambda>l. l_item l \<in> fst ` set old) lks)"

lemma entries_eq:
  assumes "links_ok s" and "set lks \<subseteq> set (links s)"
  shows "map_res (current_entry s old) (filter (\<lambda>l. l_item l \<in> fst ` set old) lks) = Inr (entries s old lks)"
  unfolding entries_def
proof (rule map_res_Inr)
  fix l assume l: "l \<in> set (filter (\<lambda>l. l_item l \<in> fst ` set old) lks)"
  then obtain sp where "map_of old (l_item l) = Some sp"
    by (cases "map_of old (l_item l)") (auto simp: map_of_eq_None_iff)
  moreover obtain r where "task_at s (l_task l) = Some r"
    using l assms unfolding links_ok_def by (metis filter_is_subset option.exhaust subsetD)
  ultimately show "current_entry s old l = Inr (l_item l, the (map_of old (l_item l)), t_status (the (task_at s (l_task l))))"
    by (simp add: current_entry_def status_of_task_def)
qed

lemma entries_dom: "map_of (entries s old lks) x \<noteq> None \<Longrightarrow> \<exists>l \<in> set lks. l_item l = x"
  by (auto simp: entries_def dest!: map_of_SomeD)

lemma statuses_eq:
  assumes "\<forall>t \<in> set tids. task_at s t \<noteq> None"
  shows "map_res (\<lambda>tid. map_sum id (\<lambda>st. (tid, st)) (status_of_task s tid)) tids =
    Inr (map (\<lambda>t. (t, t_status (the (task_at s t)))) tids)"
  by (rule map_res_Inr) (use assms in \<open>auto simp: status_of_task_def\<close>)

section \<open>Retiring the replaced tasks\<close>

lemma close_frame [simp]:
  "tasks (close_open_attempts now ids r s) = tasks s" "task_seq (close_open_attempts now ids r s) = task_seq s"
  "deps (close_open_attempts now ids r s) = deps s" "links (close_open_attempts now ids r s) = links s"
  "workflows (close_open_attempts now ids r s) = workflows s" "jobs (close_open_attempts now ids r s) = jobs s"
  "workflow_seq (close_open_attempts now ids r s) = workflow_seq s" "plans (close_open_attempts now ids r s) = plans s"
  "task_at (close_open_attempts now ids r s) t = task_at s t"
  "workflow_at (close_open_attempts now ids r s) i = workflow_at s i"
  by (simp_all add: close_open_attempts_def task_at_def workflow_at_def)

lemma supersede_tables [simp]:
  "tasks (supersede v ids s) = tasks s" "task_seq (supersede v ids s) = task_seq s"
  "deps (supersede v ids s) = deps s" "workflows (supersede v ids s) = workflows s"
  "jobs (supersede v ids s) = jobs s" "workflow_seq (supersede v ids s) = workflow_seq s"
  "plans (supersede v ids s) = plans s"
  by (simp_all add: supersede_def)

lemma links_ok_cong:
  assumes "links s' = links s" and "\<And>t. task_at s' t = None \<longleftrightarrow> task_at s t = None"
    and "\<And>i. workflow_at s' i = workflow_at s i"
  shows "links_ok s' = links_ok s"
  using assms by (simp add: links_ok_def current_keys_def)

lemma deps_ok_cong:
  assumes "deps s' = deps s" and "\<And>t. task_at s' t = None \<longleftrightarrow> task_at s t = None"
  shows "deps_ok s' = deps_ok s"
  using assms by (simp add: deps_ok_def edge_set_def dep_edges_def)

lemma cancelled_terminal [simp]: "task_terminal CANCELLED"
  by (simp add: task_terminal_def)

lemma retire_effect:
  "task_at (retire now v tids reason s) t = (case task_at s t of None \<Rightarrow> None
      | Some r \<Rightarrow> Some (if t \<in> set tids \<and> can_transition (t_status r) (status_value CANCELLED)
                       then cancelled_row now CANCELLED (Some reason) r else r))"
  "same_ids s (retire now v tids reason s)"
  "deps (retire now v tids reason s) = deps s" "workflows (retire now v tids reason s) = workflows s"
  "workflow_seq (retire now v tids reason s) = workflow_seq s" "plans (retire now v tids reason s) = plans s"
  "jobs (retire now v tids reason s) = jobs s"
  "links (retire now v tids reason s) = links (supersede v tids s)"
proof -
  obtain changed s1 where t: "transition_tasks now tids CANCELLED (Some reason) s = (changed, s1)" by fastforce
  note eff = transition_tasks_effect [OF t cancelled_terminal]
  obtain ts where s1: "s1 = s\<lparr>tasks := ts\<rparr>" using eff by blast
  have frame: "deps s1 = deps s" "workflows s1 = workflows s" "workflow_seq s1 = workflow_seq s"
    "plans s1 = plans s" "jobs s1 = jobs s" "links s1 = links s"
    by (simp_all add: s1)
  show "task_at (retire now v tids reason s) t = (case task_at s t of None \<Rightarrow> None
      | Some r \<Rightarrow> Some (if t \<in> set tids \<and> can_transition (t_status r) (status_value CANCELLED)
                       then cancelled_row now CANCELLED (Some reason) r else r))" for t
    using eff by (simp add: retire_def t)
  show "same_ids s (retire now v tids reason s)" using eff by (simp add: retire_def t same_ids_def)
  show "deps (retire now v tids reason s) = deps s" "workflows (retire now v tids reason s) = workflows s"
    "workflow_seq (retire now v tids reason s) = workflow_seq s" "plans (retire now v tids reason s) = plans s"
    "jobs (retire now v tids reason s) = jobs s" "links (retire now v tids reason s) = links (supersede v tids s)"
    using frame by (simp_all add: retire_def t supersede_def)
qed

lemma retire_None: "task_at (retire now v tids reason s) t = None \<longleftrightarrow> task_at s t = None"
  by (simp add: retire_effect(1) split: option.splits)

lemma workflow_at_retire [simp]: "workflow_at (retire now v tids reason s) i = workflow_at s i"
  by (simp add: workflow_at_def retire_effect)

lemma retire_ok:
  assumes "store_ok s"
  shows "ids_ok (retire now v tids reason s)" "deps_ok (retire now v tids reason s)"
    "links_ok (retire now v tids reason s)" "workflows_ok (retire now v tids reason s)"
proof -
  let ?s = "retire now v tids reason s"
  show "ids_ok ?s" using assms ids_ok_same retire_effect(2) unfolding store_ok_def same_ids_def by metis
  show "deps_ok ?s" using assms deps_ok_cong [OF retire_effect(3) retire_None] by (simp add: store_ok_def)
  show "links_ok ?s"
    using assms links_ok_cong [of ?s "supersede v tids s"] links_ok_supersede retire_None
    by (simp add: store_ok_def retire_effect(8))
  show "workflows_ok ?s"
    using assms workflows_ok_tables(1) [OF retire_effect(4,5,6,7)] by (simp add: store_ok_def)
qed

lemma current_keys_retire: "current_keys (retire now v tids reason s) = map (\<lambda>l. (l_workflow l, l_item l))
    (filter (\<lambda>l. l_superseded_in l = None \<and> l_task l \<notin> set tids) (links s))"
  using current_keys_supersede [of v tids s] by (simp add: current_keys_def retire_effect(8))

section \<open>A new version\<close>

definition kept_links :: "int \<Rightarrow> pystr list \<Rightarrow> Store \<Rightarrow> LinkRow list" where
  "kept_links wid keep s = filter (\<lambda>l. l_item l \<in> set keep) (current_links wid s)"

definition retired_links :: "int \<Rightarrow> pystr list \<Rightarrow> Store \<Rightarrow> LinkRow list" where
  "retired_links wid keep s = filter (\<lambda>l. l_item l \<notin> set keep) (current_links wid s)"

definition new_specs :: "pystr list \<Rightarrow> WorkflowPlan \<Rightarrow> WorkflowTaskSpec list" where
  "new_specs keep p = filter (\<lambda>sp. spec_id sp \<notin> set keep) (pl_tasks p)"

definition after_retire :: "pystr \<Rightarrow> WorkflowRow \<Rightarrow> pystr list \<Rightarrow> Store \<Rightarrow> Store" where
  "after_retire now w keep s = retire now (w_plan_version w + 1)
     (map l_task (retired_links (w_id w) keep s)) (''superada pelo plano v'' @ show_int (w_plan_version w + 1)) s"

definition kept_tasks :: "int \<Rightarrow> pystr list \<Rightarrow> Store \<Rightarrow> (pystr \<times> int) list" where
  "kept_tasks wid keep s = rev (map (\<lambda>l. (l_item l, l_task l)) (kept_links wid keep s))"

lemma current_links_sub: "set (current_links wid s) \<subseteq> set (links s)"
  by (auto simp: current_links_def)

lemma current_link_task: "links_ok s \<Longrightarrow> l \<in> set (current_links wid s) \<Longrightarrow> task_at s (l_task l) \<noteq> None"
  using current_links_sub unfolding links_ok_def by blast

lemma replaced_key_free:
  assumes "links_ok s" and "x \<notin> set keep"
  shows "(w_id w, x) \<notin> set (current_keys (after_retire now w keep s))"
  using assms(2) unfolding after_retire_def current_keys_retire
  by (auto simp: retired_links_def current_links_def)

lemma load_Inr: "load_workflow wid s = Inr w \<longleftrightarrow> workflow_at s wid = Some w \<and> wf_status_of (w_status w) \<noteq> None"
  by (auto simp: load_workflow_def split: option.splits)

definition version_row :: "(json \<Rightarrow> pystr) \<Rightarrow> pystr \<Rightarrow> int \<Rightarrow> int \<Rightarrow> WorkflowPlan \<Rightarrow> PlanRow" where
  "version_row digest now wid v plan = \<lparr> p_workflow = wid, p_version = v,
     p_plan_json = JObj (plan_to_dict plan), p_hash = plan_hash digest plan, p_created_at = now \<rparr>"

definition bump :: "(json \<Rightarrow> pystr) \<Rightarrow> pystr \<Rightarrow> WorkflowRow \<Rightarrow> WorkflowPlan \<Rightarrow> Store \<Rightarrow> Store" where
  "bump digest now w plan s = update_workflow_row (w_id w) (replanned_row now (w_plan_version w + 1) plan)
     (s\<lparr>plans := plans s @ [version_row digest now (w_id w) (w_plan_version w + 1) plan]\<rparr>)"

lemma replanned_row_facts [simp]: "w_id (replanned_row now v plan w) = w_id w"
  "w_plan_version (replanned_row now v plan w) = v" "w_job_id (replanned_row now v plan w) = w_job_id w"
  by (simp_all add: replanned_row_def)

lemma bump_ok:
  assumes ok: "workflows_ok s" and w: "workflow_at s (w_id w) = Some w" and g: "graph_ok plan"
  shows "insert_plan_version digest now (w_id w) (w_plan_version w + 1) plan s =
      Inr (s\<lparr>plans := plans s @ [version_row digest now (w_id w) (w_plan_version w + 1) plan]\<rparr>)"
    and "workflows_ok (bump digest now w plan s)"
    and "workflow_at (bump digest now w plan s) i =
      (if i = w_id w then Some (replanned_row now (w_plan_version w + 1) plan w) else workflow_at s i)"
    and "load_workflow (w_id w) (bump digest now w plan s) = Inr (replanned_row now (w_plan_version w + 1) plan w)"
proof -
  let ?v = "w_plan_version w + 1" and ?b = "bump digest now w plan s"
  let ?f = "replanned_row now ?v plan"
  have mem: "w \<in> set (workflows s)" using workflow_at_SomeD [OF w] by simp
  then have le: "p_version row \<le> w_plan_version w" if "row \<in> set (plans s)" "p_workflow row = w_id w" for row
    using ok that by (auto simp: workflows_ok_def version_ok_def)
  then have none: "plan_row (w_id w) ?v s = None"
    unfolding plan_row_def find_None_iff_ball by fastforce
  then show "insert_plan_version digest now (w_id w) ?v plan s =
      Inr (s\<lparr>plans := plans s @ [version_row digest now (w_id w) ?v plan]\<rparr>)"
    by (simp add: insert_plan_version_def version_row_def)
  show at: "workflow_at ?b i = (if i = w_id w then Some (?f w) else workflow_at s i)" for i
    unfolding bump_def using w by (auto simp: workflow_at_update_workflow_row) (simp_all add: workflow_at_def)
  have stat: "wf_status_of (w_status (?f u)) \<noteq> None" if "wf_status_of (w_status u) \<noteq> None" for u
    using that by (simp add: replanned_row_def)
  have same: "u = w" if "u \<in> set (workflows s)" "w_id u = w_id w" for u
    using find_key_unique [of w_id "workflows s" u] that ok w by (simp add: workflows_ok_def workflow_at_def)
  have plans: "plans ?b = plans s @ [version_row digest now (w_id w) ?v plan]" by (simp add: bump_def)
  have old_version: "version_ok ?b u" if "u \<in> set (workflows s)" "w_id u \<noteq> w_id w" for u
  proof -
    have "version_ok s u" using ok that by (simp add: workflows_ok_def)
    then show ?thesis using that(2)
      by (auto simp: version_ok_def plans plan_row_def find_append version_row_def)
  qed
  have new_version: "version_ok ?b (?f w)"
    using none le g by (fastforce simp: version_ok_def plans plan_row_def find_append version_row_def)
  have "version_ok ?b u \<and> w_id u \<le> workflow_seq s \<and> wf_status_of (w_status u) \<noteq> None \<and> job_exists s (w_job_id u)"
    if "u \<in> set (workflows ?b)" for u
  proof -
    from that obtain u0 where u0: "u0 \<in> set (workflows s)" "u = (if w_id u0 = w_id w then ?f u0 else u0)"
      by (auto simp: bump_def update_workflow_row_def in_set_update_where)
    then show ?thesis using old_version [of u0] new_version same [of u0] stat [of u0] ok
      by (auto simp: workflows_ok_def)
  qed
  moreover have "p_workflow row \<le> workflow_seq s" if "row \<in> set (plans ?b)" for row
    using that ok mem by (auto simp: plans version_row_def workflows_ok_def)
  moreover have "map w_id (workflows ?b) = map w_id (workflows s)"
    by (simp add: bump_def update_workflow_row_def map_update_where)
  moreover have "workflow_seq ?b = workflow_seq s" "job_exists ?b j = job_exists s j" for j
    by (simp_all add: bump_def job_exists_def)
  ultimately show "workflows_ok ?b" using ok by (simp add: workflows_ok_def)
  show "load_workflow (w_id w) ?b = Inr (?f w)"
    unfolding load_Inr using at [of "w_id w"] stat [of w] ok mem by (simp add: workflows_ok_def)
qed

lemma bump_tables [simp]:
  "tasks (bump digest now w plan s) = tasks s" "task_seq (bump digest now w plan s) = task_seq s"
  "deps (bump digest now w plan s) = deps s" "links (bump digest now w plan s) = links s"
  "task_at (bump digest now w plan s) t = task_at s t"
  by (simp_all add: bump_def task_at_def)

context keep_decider
begin

lemma fresh_after_retire:
  assumes ok: "store_ok s" and g: "graph_ok p"
    and dec: "decide (entries s old (current_links (w_id w) s)) p = Some keep"
  shows "fresh_version (after_retire now w keep s) (w_id w) (kept_tasks (w_id w) keep s) (new_specs keep p)"
  unfolding fresh_version_def
proof (intro conjI ballI)
  show "distinct (map spec_id (new_specs keep p))"
    using g by (simp add: new_specs_def graph_ok_def distinct_map_filter)
  fix sp assume sp: "sp \<in> set (new_specs keep p)"
  show "(w_id w, spec_id sp) \<notin> set (current_keys (after_retire now w keep s))"
    using sp ok replaced_key_free by (simp add: new_specs_def store_ok_def)
  fix d assume d: "d \<in> set (wi_dependencies (ws_item sp))"
  have "sp \<in> set (pl_tasks p)" using sp by (simp add: new_specs_def)
  from dependency_resolves [OF g dec this d]
  show "d \<in> spec_id ` set (new_specs keep p) \<or> known_task (after_retire now w keep s) (kept_tasks (w_id w) keep s) d"
  proof
    assume kept: "d \<in> set keep \<and> map_of (entries s old (current_links (w_id w) s)) d \<noteq> None"
    then obtain l where l: "l \<in> set (current_links (w_id w) s)" "l_item l = d" using entries_dom by blast
    then have "d \<in> fst ` set (kept_tasks (w_id w) keep s)" using kept by (force simp: kept_tasks_def kept_links_def)
    then obtain t where t: "map_of (kept_tasks (w_id w) keep s) d = Some t"
      by (metis map_of_eq_None_iff option.exhaust)
    then have "t \<in> l_task ` set (current_links (w_id w) s)"
      by (auto simp: kept_tasks_def kept_links_def dest!: map_of_SomeD)
    then have "task_at s t \<noteq> None" using current_link_task ok unfolding store_ok_def by blast
    with t show ?thesis by (simp add: known_task_def after_retire_def retire_None)
  qed (simp add: new_specs_def)
qed

lemma apply_replan_ok:
  fixes now :: pystr
  assumes ok: "store_ok s" and w: "workflow_at s (w_id w) = Some w" and g: "graph_ok resolved"
    and gp: "graph_ok plan"
  shows "\<exists>old keep s'. graph_ok old \<and>
    decide (entries s (rev (map (\<lambda>sp. (spec_id sp, sp)) (pl_tasks old))) (current_links (w_id w) s)) resolved = Some keep \<and>
    apply_replan digest now w plan resolved decide s = Inr (\<lparr>
      rp_workflow = replanned_row now (w_plan_version w + 1) plan w, rp_applied = True,
      rp_kept = map l_task (kept_links (w_id w) keep s),
      rp_created = map snd (spec_ids (task_seq s + 1) (new_specs keep resolved)),
      rp_retired = map l_task (retired_links (w_id w) keep s),
      rp_to_interrupt = filter (\<lambda>t. in_flight (t_status (the (task_at s t)))) (map l_task (retired_links (w_id w) keep s))\<rparr>, s') \<and>
    tasks s' = tasks (add_spec_rows now (w_id w) (w_job_id w) (w_plan_version w + 1) (new_specs keep resolved) (after_retire now w keep s)) \<and>
    links s' = links (add_spec_rows now (w_id w) (w_job_id w) (w_plan_version w + 1) (new_specs keep resolved) (after_retire now w keep s)) \<and>
    workflows s' = update_where (\<lambda>u. w_id u = w_id w) (replanned_row now (w_plan_version w + 1) plan) (workflows s) \<and>
    store_ok s'"
proof -
  let ?wid = "w_id w" and ?v = "w_plan_version w + 1" and ?lks = "current_links (w_id w) s"
  obtain old where old: "plan_specs ?wid (w_plan_version w) s = Inr (rev (map (\<lambda>sp. (spec_id sp, sp)) (pl_tasks old)))"
    "graph_ok old" using plan_specs_ok [OF ok w] by blast
  let ?old = "rev (map (\<lambda>sp. (spec_id sp, sp)) (pl_tasks old))"
  obtain keep where dec: "decide (entries s ?old ?lks) resolved = Some keep" using answers [OF g] by blast
  have lok: "links_ok s" using ok by (simp add: store_ok_def)
  let ?sps = "new_specs keep resolved" and ?rt = "map l_task (retired_links ?wid keep s)" and ?s2 = "after_retire now w keep s"
  have seq: "task_seq ?s2 = task_seq s" using retire_effect(2) by (simp add: after_retire_def same_ids_def)
  have st: "map_res (\<lambda>tid. map_sum id (\<lambda>st. (tid, st)) (status_of_task s tid)) ?rt =
      Inr (map (\<lambda>t. (t, t_status (the (task_at s t)))) ?rt)"
    by (rule statuses_eq) (use current_link_task [OF lok] in \<open>auto simp: retired_links_def\<close>)
  have acy: "acyclic (dep_rel (map ws_item ?sps))"
    by (rule acyclic_subset [of "dep_rel (plan_items resolved)"])
      (use g in \<open>auto simp: graph_ok_def dep_rel_specs new_specs_def\<close>)
  have jb: "job_exists ?s2 (w_job_id w)"
    using ok workflow_at_SomeD [OF w]
    by (simp add: store_ok_def workflows_ok_def job_exists_def after_retire_def retire_effect)
  have wfb: "workflow_at ?s2 ?wid \<noteq> None" using w by (simp add: after_retire_def)
  note ok2 = retire_ok [OF ok, of now ?v ?rt "''superada pelo plano v'' @ show_int ?v", folded after_retire_def]
  from create_tasks_ok [OF ok2(1,2,3) jb wfb fresh_after_retire [OF ok g dec] acy, of now ?v]
  obtain s3 where s3: "create_tasks now ?wid (w_job_id w) ?v ?sps (kept_tasks ?wid keep s) ?s2 =
      Inr (spec_ids (task_seq s + 1) ?sps, s3)"
    "s3 = (add_spec_rows now ?wid (w_job_id w) ?v ?sps ?s2)\<lparr>deps := deps s3\<rparr>"
    "ids_ok s3" "deps_ok s3" "links_ok s3"
    unfolding seq by blast
  have "\<exists>ds. s3 = (add_spec_rows now ?wid (w_job_id w) ?v ?sps ?s2)\<lparr>deps := ds\<rparr>" using s3(2) by blast
  then obtain ds where s3': "s3 = (add_spec_rows now ?wid (w_job_id w) ?v ?sps ?s2)\<lparr>deps := ds\<rparr>" ..
  have tabs: "workflows s3 = workflows s" "workflow_seq s3 = workflow_seq s" "plans s3 = plans s" "jobs s3 = jobs s"
    "tasks s3 = tasks (add_spec_rows now ?wid (w_job_id w) ?v ?sps ?s2)"
    "links s3 = links (add_spec_rows now ?wid (w_job_id w) ?v ?sps ?s2)"
    by (simp_all add: s3' add_spec_rows_def after_retire_def retire_effect)
  have ok3: "workflows_ok s3" "workflow_at s3 (w_id w) = Some w"
    using ok w workflows_ok_tables [OF tabs(1-4)] by (simp_all add: store_ok_def)
  note b = bump_ok [OF ok3 gp, of digest now]
  let ?s5 = "bump digest now w plan s3"
  have links5: "links_ok ?s5"
    using s3(5) b(3) w ok3(2) unfolding links_ok_def by (auto simp: current_keys_def)
  have "store_ok ?s5"
    using ok_other_tables [of ?s5 s3] s3(3,4) b(2) links5 by (simp add: store_ok_def)
  moreover have "apply_replan digest now w plan resolved decide s = Inr (\<lparr>
      rp_workflow = replanned_row now ?v plan w, rp_applied = True,
      rp_kept = map l_task (kept_links ?wid keep s), rp_created = map snd (spec_ids (task_seq s + 1) ?sps),
      rp_retired = ?rt, rp_to_interrupt = filter (\<lambda>t. in_flight (t_status (the (task_at s t)))) ?rt\<rparr>, ?s5)"
    using old(1) dec st s3(1) b(1,4) entries_eq [OF lok current_links_sub, of ?old]
    by (simp add: apply_replan_def Let_def kept_links_def retired_links_def new_specs_def kept_tasks_def
        after_retire_def bump_def filter_map comp_def)
  moreover have "workflows ?s5 = update_where (\<lambda>u. w_id u = ?wid) (replanned_row now ?v plan) (workflows s)"
    by (simp add: bump_def update_workflow_row_def tabs)
  ultimately show ?thesis using old(2) dec tabs(5,6) by auto
qed

end

section \<open>The whole operation\<close>

text \<open>\<open>replan\<close> refuses in four documented ways, changes nothing when the content is the same, and
  otherwise applies the new version.\<close>

lemma replan_cases:
  assumes ok: "store_ok s" and g: "graph_ok plan"
  shows "(\<exists>e. replan digest limits now wid plan base names decide s = Inl e \<and>
      (e = WorkflowNotFound wid \<or> (\<exists>v. e = VersionConflict v base) \<or> (\<exists>st. e = NotReplannable st) \<or>
       e = ReplanLimit (max_replans limits))) \<or>
    (\<exists>w. load_workflow wid s = Inr w \<and> replan digest limits now wid plan base names decide s =
      Inr (\<lparr> rp_workflow = w, rp_applied = False, rp_kept = [], rp_created = [], rp_retired = [], rp_to_interrupt = [] \<rparr>, s)) \<or>
    (\<exists>w. load_workflow wid s = Inr w \<and> w_id w = wid \<and> w_plan_version w = base \<and>
      w_status w \<in> set (map wf_value replannable) \<and> w_replans w < max_replans limits \<and>
      replan digest limits now wid plan base names decide s =
        apply_replan digest now w plan (resolve_assignees plan names) decide s)"
proof (cases "load_workflow wid s")
  case (Inl e)
  have "e = WorkflowNotFound wid"
  proof (cases "workflow_at s wid")
    case None
    then show ?thesis using Inl by (simp add: load_workflow_def)
  next
    case (Some w)
    then have "wf_status_of (w_status w) \<noteq> None"
      using ok workflow_at_SomeD [OF Some] by (simp add: store_ok_def workflows_ok_def)
    then have "load_workflow wid s = Inr w" using Some by (simp add: load_Inr)
    then show ?thesis using Inl by simp
  qed
  then show ?thesis using Inl by (simp add: replan_def)
next
  case (Inr w)
  then have w: "workflow_at s wid = Some w" by (simp add: load_Inr)
  then have mem: "w \<in> set (workflows s)" "w_id w = wid" using workflow_at_SomeD by auto
  then have "version_ok s w" using ok by (simp add: store_ok_def workflows_ok_def)
  then obtain row where "plan_row wid (w_plan_version w) s = Some row"
    using mem(2) by (auto simp: version_ok_def)
  with Inr mem(2) show ?thesis by (simp add: replan_def)
qed

end
