(* ===== verification/Task_Guarantees.thy ===== *)
theory Task_Guarantees
  imports Task_Lifecycle Task_Dependencies
begin

text \<open>
  What the executors and the workflow coordinator rely on when they use the task repository:
  the claim is exact, a claim opens an attempt no one had before, a write of a passed attempt
  is refused, a failed agent never gets the task again, an outcome is final, returned deliveries
  are limited, a plan without cycles never waits for itself.
\<close>

section \<open>New tasks\<close>

lemma fresh_task_id: "ids_ok s \<Longrightarrow> task_at s (task_seq s + 1) = None"
  unfolding task_at_def find_None_iff_ball ids_ok_def by force

lemma insert_task_row: "insert_task now jid n s = Inr (tid, s') \<Longrightarrow> ids_ok s \<Longrightarrow>
    task_at s' tid = Some (new_task_row now tid jid n)"
  using fresh_task_id [of s]
  by (auto simp: insert_task_def Let_def task_at_def find_append new_task_row_def split: if_splits)

section \<open>Claims\<close>

lemma claimable_hit:
  assumes "ids_ok s" and "find (claimable s agent job) (tasks s) = Some c"
  shows "filter (claim_update_matches agent (t_id c) (t_job_id c)) (tasks s) = [c]"
proof (rule filter_key_unique)
  show "distinct (map t_id (tasks s))" using assms(1) by (simp add: ids_ok_def)
  show "c \<in> set (tasks s)" "claim_update_matches agent (t_id c) (t_job_id c) c"
    using assms(2) by (auto simp: claim_update_matches_def claimable_def dest: find_SomeD)
qed (simp add: claim_update_matches_def)

definition claimed_row :: "pystr \<Rightarrow> pystr \<Rightarrow> TaskRow \<Rightarrow> TaskRow" where
  "claimed_row now agent r = r\<lparr>t_assigned_to := Some agent, t_status := status_value IN_PROGRESS,
     t_started_at := Some now, t_updated_at := Some now\<rparr>"

lemma claimed_row_fun: "claimed_row now agent = (\<lambda>r. r\<lparr>t_assigned_to := Some agent,
    t_status := status_value IN_PROGRESS, t_started_at := Some now, t_updated_at := Some now\<rparr>)"
  by (rule ext) (simp add: claimed_row_def)

lemma claim_task_None:
  assumes "ids_ok s"
  shows "claim_task now agent job s = (None, s') \<longleftrightarrow>
    s' = s \<and> (\<forall>c \<in> set (tasks s). \<not> claimable s agent job c)"
proof (cases "find (claimable s agent job) (tasks s)")
  case None
  then have "\<forall>c \<in> set (tasks s). \<not> claimable s agent job c" by (simp add: find_None_iff_ball)
  with None show ?thesis by (auto simp: claim_task_def)
next
  case (Some c)
  then show ?thesis using claimable_hit [OF assms Some]
    by (auto simp: claim_task_def Let_def dest: find_SomeD)
qed

lemma claim_task_Some:
  assumes ok: "ids_ok s" and claim: "claim_task now agent job s = (Some tid, s')"
  shows "\<exists>c. task_at s tid = Some c \<and> claimable s agent job c \<and>
    (\<forall>c' \<in> set (tasks s). claimable s agent job c' \<longrightarrow> tid \<le> t_id c') \<and>
    s' = publish_event (TaskStarted tid (t_job_id c) agent) (update_task_row tid (claimed_row now agent) s)"
proof -
  from claim obtain c where c: "find (claimable s agent job) (tasks s) = Some c" and tid: "tid = t_id c"
    by (auto simp: claim_task_def Let_def split: option.splits if_splits)
  have mem: "c \<in> set (tasks s)" "claimable s agent job c" using c by (auto dest: find_SomeD)
  have at: "task_at s tid = Some c" using task_at_member [OF ok mem(1)] tid by simp
  have least: "\<forall>c' \<in> set (tasks s). claimable s agent job c' \<longrightarrow> tid \<le> t_id c'"
    using find_sorted_least [OF _ c] ok tid by (auto simp: ids_ok_def)
  let ?hit = "claim_update_matches agent tid (t_job_id c)"
  have only: "?hit r \<longleftrightarrow> t_id r = tid" if "r \<in> set (tasks s)" for r
  proof -
    have "filter ?hit (tasks s) = [c]" using claimable_hit [OF ok c] tid by simp
    then have hitc: "?hit c" by (metis filter_eq_Cons_iff)
    show ?thesis
    proof
      assume "t_id r = tid"
      then have "r = c" using task_at_member [OF ok that] at by simp
      with hitc show "?hit r" by simp
    qed (simp add: claim_update_matches_def)
  qed
  have "update_where ?hit f (tasks s) = update_where (\<lambda>r. t_id r = tid) f (tasks s)" for f
    unfolding update_where_def using only by (auto intro!: map_cong)
  then have "s' = publish_event (TaskStarted tid (t_job_id c) agent)
      (update_task_row tid (claimed_row now agent) s)"
    using claim c tid unfolding claim_task_def
    by (auto simp: Let_def update_task_row_def claimed_row_fun split: if_splits)
  with at mem least show ?thesis by blast
qed

lemma claimed_row_facts [simp]:
  "t_id (claimed_row now a r) = t_id r" "t_status (claimed_row now a r) = status_value IN_PROGRESS"
  "t_attempt_count (claimed_row now a r) = t_attempt_count r"
  by (simp_all add: claimed_row_def)

lemma claim_opens_attempt:
  assumes "ids_ok s" and "claim_task now agent job s = (Some tid, s')" and "task_at s tid = Some r"
  shows "\<exists>r'. task_at s' tid = Some r' \<and> claimed_in (t_attempt_count r) r'"
  using claim_task_Some [OF assms(1,2)] assms(3)
  by (auto simp: task_at_update_task_row claimed_in_def)

lemma claim_is_step: "claim_task now agent job s = (res, s') \<Longrightarrow> task_step mx s s'"
  using task_step.claim [of mx s now agent job] by simp

lemma claim_requires_open_status:
  assumes "ids_ok s" and "claim_task now agent job s = (Some tid, s')" and "task_at s tid = Some r"
  shows "t_status r \<in> set [status_value PENDING, status_value APPROVED] \<and> \<not> excluded_by (t_failed_agents r) agent"
  using claim_task_Some [OF assms(1,2)] assms(3) by (auto simp: claimable_def)

section \<open>A sample database\<close>

text \<open>
  One job and two tasks, the second waiting for the first; built by the operations themselves.
  The theorems below are applied to it.
\<close>

definition sample_new :: "pystr \<Rightarrow> NewTask" where
  "sample_new description = (task_defaults description)\<lparr>n_task_type := ''code_edit''\<rparr>"

definition res_store :: "store_error + ('a \<times> Store) \<Rightarrow> Store" where
  "res_store r = (case r of Inl e \<Rightarrow> empty_store | Inr (x, s) \<Rightarrow> s)"

definition sample_store :: Store where
  "sample_store = res_store (insert_task_dependency ''t2'' 2 1
     (res_store (create_task ''t1'' 1 (sample_new ''b'')
       (res_store (create_task ''t1'' 1 (sample_new ''a'')
         (snd (add_job ''t0'' ''job'' None None empty_store)))))))"

definition sample_row :: "int \<Rightarrow> pystr \<Rightarrow> TaskRow" where
  "sample_row tid description = new_task_row ''t1'' tid 1 (sample_new description)"

lemma sample_tables: "tasks sample_store = [sample_row 1 ''a'', sample_row 2 ''b''] \<and>
    task_seq sample_store = 2 \<and> dep_edges sample_store = [(2, 1)] \<and> links sample_store = []"
  by code_simp

lemma sample_ids_ok: "ids_ok sample_store"
  using sample_tables by (simp add: ids_ok_def sample_row_def new_task_row_def)

lemma sample_rows: "task_at sample_store 1 = Some (sample_row 1 ''a'') \<and>
    task_at sample_store 2 = Some (sample_row 2 ''b'')"
  by code_simp

lemma sample_deps_ok: "deps_ok sample_store"
proof -
  have "acyclic {(2 :: int, 1)}" by (simp add: acyclic_insert) (simp add: acyclic_def)
  then show ?thesis using sample_tables sample_rows by (simp add: deps_ok_def edge_set_def)
qed

section \<open>The claim\<close>

text \<open>
  C34. \<open>claim_task\<close> is exact. It returns nothing, and changes nothing, only when no task is
  claimable by the agent; otherwise it returns the claimable task of least id, whose row becomes
  \<open>in_progress\<close> for this agent in the same attempt, every other row is unchanged, and one
  \<open>TaskStarted\<close> is published.
\<close>

theorem claim_task_exact:
  assumes "ids_ok s"
  shows "case claim_task now agent job s of
      (None, s') \<Rightarrow> s' = s \<and> (\<forall>c \<in> set (tasks s). \<not> claimable s agent job c)
    | (Some tid, s') \<Rightarrow>
        (\<exists>c. task_at s tid = Some c \<and> claimable s agent job c \<and>
          (\<forall>c' \<in> set (tasks s). claimable s agent job c' \<longrightarrow> tid \<le> t_id c') \<and>
          task_at s' tid = Some (claimed_row now agent c) \<and>
          (\<forall>tid'. tid' \<noteq> tid \<longrightarrow> task_at s' tid' = task_at s tid') \<and>
          published s' = published s @ [TaskStarted tid (t_job_id c) agent])"
proof (cases "claim_task now agent job s")
  case (Pair res s')
  show ?thesis
  proof (cases res)
    case None
    with Pair show ?thesis using claim_task_None [OF assms, of now agent job s'] by simp
  next
    case (Some tid)
    with Pair show ?thesis using claim_task_Some [OF assms, of now agent job tid s']
      by (auto simp: task_at_update_task_row)
  qed
qed

theorem claim_task_exact_witness:
  "fst (claim_task ''t3'' ''claude'' None sample_store) = Some 1 \<and>
   (\<exists>c. task_at sample_store 1 = Some c \<and> claimable sample_store ''claude'' None c)"
proof -
  have "fst (claim_task ''t3'' ''claude'' None sample_store) = Some 1" by code_simp
  then show ?thesis
    using claim_task_exact [OF sample_ids_ok, where now = "''t3''" and agent = "''claude''" and job = None]
    by (auto split: prod.splits)
qed

text \<open>
  Two claims of the same task never share an attempt: between them the task went back to
  \<open>pending\<close>, and each such return raised the attempt. So the pair (task, attempt) that an
  executor holds names one claim for ever.
\<close>

theorem claims_use_fresh_attempts:
  assumes "ids_ok s" and "task_at s tid = Some r"
    and "claim_task now agent job s = (Some tid, s1)" and "any_run s1 s2"
    and "claim_task now' agent' job' s2 = (Some tid, s3)" and "task_at s2 tid = Some r2"
  shows "t_attempt_count r < t_attempt_count r2"
proof -
  have ok1: "ids_ok s1" using task_step_ids_ok [OF claim_is_step [OF assms(3)] assms(1)] .
  obtain r1 where "task_at s1 tid = Some r1" "claimed_in (t_attempt_count r) r1"
    using claim_opens_attempt [OF assms(1,3,2)] by blast
  then have "claimed_in (t_attempt_count r) r2"
    using claim_held.kept_any [OF assms(4) ok1] assms(6) by fastforce
  moreover have "t_status r2 \<in> set [status_value PENDING, status_value APPROVED]"
    using claim_requires_open_status [OF any_run_ids_ok [OF assms(4) ok1] assms(5,6)] by simp
  ultimately show ?thesis by (auto simp: claimed_in_def)
qed

definition sample_claimed :: Store where
  "sample_claimed = snd (claim_task ''t3'' ''claude'' None sample_store)"

definition sample_requeued :: Store where
  "sample_requeued = snd (requeue_task ''t4'' 1 ''claude'' (Some ''x'') (Some 0) True sample_claimed)"

lemma sample_claim: "claim_task ''t3'' ''claude'' None sample_store = (Some 1, sample_claimed)"
proof -
  have "fst (claim_task ''t3'' ''claude'' None sample_store) = Some 1" by code_simp
  then show ?thesis unfolding sample_claimed_def by (metis prod.collapse)
qed

lemma sample_requeue_run: "any_run sample_claimed sample_requeued"
  unfolding sample_requeued_def by (blast intro: r_into_rtranclp task_step.requeue)

theorem claims_use_fresh_attempts_witness:
  "t_attempt_count (sample_row 1 ''a'') < t_attempt_count (the (task_at sample_requeued 1))"
proof (rule claims_use_fresh_attempts [OF sample_ids_ok _ sample_claim sample_requeue_run])
  show "task_at sample_store 1 = Some (sample_row 1 ''a'')" using sample_rows by simp
  show "claim_task ''t5'' ''codex'' None sample_requeued =
      (Some 1, snd (claim_task ''t5'' ''codex'' None sample_requeued))"
    by code_simp
  show "task_at sample_requeued 1 = Some (the (task_at sample_requeued 1))" by code_simp
qed

section \<open>The attempt as a fencing token\<close>

text \<open>
  Once attempt \<open>a\<close> of a task is over, every later write that carries \<open>a\<close> is refused and
  changes nothing, whatever happened to the task in between: an executor that was given up for
  lost cannot overwrite the work of its successor.
\<close>

theorem late_write_rejected:
  assumes "ids_ok s" and "task_at s tid = Some r" and "a < t_attempt_count r" and "any_run s s'"
  shows "complete_task now tid result rvw notes ex (Some a) s' = (False, s') \<and>
    submit_for_review now tid result (Some a) s' = (False, s') \<and>
    requeue_task now tid agent result (Some a) exclude s' = (False, s') \<and>
    requeue_task_after_review now tid agent result notes (Some a) s' = (False, s') \<and>
    rework_task now tid owner reason result (Some a) limit s' = (None, s') \<and>
    return_review now tid agent reason (Some a) exclude s' = (False, s') \<and>
    fail_task now tid result (Some a) es s' = (False, s')"
proof -
  obtain r' where "task_at s' tid = Some r'" and "a < t_attempt_count r'"
    using attempt_passed.kept_any [OF assms(4,1,2,3)] by blast
  then show ?thesis
    by (simp add: complete_task_def submit_for_review_def requeue_task_def
        requeue_task_after_review_def rework_task_def return_review_def fail_task_def
        transition_task_def stale_attempt_def)
qed

lemma sample_requeued_row: "task_at sample_requeued 1 = Some ((sample_row 1 ''a'')\<lparr>
    t_result := Some ''x'', t_notes := Some ''x'', t_failed_agents := Some ''|claude|'',
    t_attempt_count := 1, t_updated_at := Some ''t4''\<rparr>)"
  by code_simp

lemma sample_claimed_ids_ok: "ids_ok sample_claimed"
  using task_step_ids_ok [OF claim_is_step [OF sample_claim] sample_ids_ok] .

lemma sample_requeued_ids_ok: "ids_ok sample_requeued"
  using any_run_ids_ok [OF sample_requeue_run sample_claimed_ids_ok] .

theorem late_write_rejected_witness:
  "complete_task ''t9'' 1 (Some ''late'') None None None (Some 0) sample_requeued = (False, sample_requeued)"
  using late_write_rejected [OF sample_requeued_ids_ok sample_requeued_row _ rtranclp.rtrancl_refl, of 0]
  by simp

section \<open>Agents that failed\<close>

lemma requeue_excludes:
  assumes "requeue_task now tid agent reason e True s = (True, s1)"
  shows "\<exists>r. task_at s1 tid = Some r \<and> has_token agent (t_failed_agents r)"
  using assms add_token_contains
  by (auto simp: requeue_task_def Let_def publish_requeue_def task_at_update_task_row has_token_def
      split: option.splits if_splits)

text \<open>
  An agent excluded by a requeue never claims that task again, in any later state of the
  repository and for any job filter.
\<close>

theorem failed_agent_never_reclaims:
  assumes "ids_ok s" and "requeue_task now tid agent reason e True s = (True, s1)"
    and "any_run s1 s2"
  shows "fst (claim_task now' agent job s2) \<noteq> Some tid"
proof
  assume "fst (claim_task now' agent job s2) = Some tid"
  then obtain s3 where claim: "claim_task now' agent job s2 = (Some tid, s3)"
    by (metis prod.collapse)
  obtain r where r: "task_at s1 tid = Some r" "has_token agent (t_failed_agents r)"
    using requeue_excludes [OF assms(2)] by blast
  have "task_step None s s1"
    using task_step.requeue [of None s now tid agent reason e True] assms(2) by simp
  then have ok: "ids_ok s1" using assms(1) by (rule task_step_ids_ok)
  obtain r2 where r2: "task_at s2 tid = Some r2" "has_token agent (t_failed_agents r2)"
    using agent_failed.kept_any [OF assms(3) ok r] by blast
  then show False
    using claim_requires_open_status [OF any_run_ids_ok [OF assms(3) ok] claim r2(1)]
      excluded_if_token by blast
qed

theorem failed_agent_never_reclaims_witness:
  "fst (claim_task ''t5'' ''claude'' None sample_requeued) \<noteq> Some 1"
proof (rule failed_agent_never_reclaims [OF sample_claimed_ids_ok _ rtranclp.rtrancl_refl])
  have "fst (requeue_task ''t4'' 1 ''claude'' (Some ''x'') (Some 0) True sample_claimed) = True"
    by code_simp
  then show "requeue_task ''t4'' 1 ''claude'' (Some ''x'') (Some 0) True sample_claimed = (True, sample_requeued)"
    unfolding sample_requeued_def by (metis prod.collapse)
qed

section \<open>Outcomes and limits\<close>



text \<open>
  With \<open>max_reworks = Some m\<close>, a task created here is returned for rework at most \<open>m\<close> times,
  and if it was returned \<open>m\<close> times it is \<open>failed\<close>: the cycle between executor and reviewer ends.
\<close>

theorem rework_limit_holds:
  assumes "ids_ok s" and "insert_task now jid n s = Inr (tid, s1)" and "0 < m"
    and "task_run (Some m) s1 s2"
  shows "\<exists>r. task_at s2 tid = Some r \<and> t_rework_count r \<le> m \<and>
    (t_rework_count r = m \<longrightarrow> t_status r = status_value FAILED)"
proof -
  have "rework_bounded m (new_task_row now tid jid n)"
    using assms(3) by (simp add: rework_bounded_def new_task_row_def)
  then show ?thesis
    using rework_limit.kept_run [OF assms(4) ids_ok_insert [OF assms(2,1)]
        insert_task_row [OF assms(2,1)]]
    by (fastforce simp: rework_bounded_def)
qed

definition sample_rejected :: Store where
  "sample_rejected = snd (rework_task ''t4'' 1 None ''falta teste'' None (Some 0) (Some 1) sample_claimed)"

lemma sample_insert: "insert_task ''t3'' 1 (sample_new ''c'') sample_store =
    Inr (3, res_store (insert_task ''t3'' 1 (sample_new ''c'') sample_store))"
  by code_simp

definition sample_reworked :: Store where
  "sample_reworked = (let s1 = res_store (insert_task ''t3'' 1 (sample_new ''c'') sample_store);
     s2 = snd (transition_task ''t4'' 3 ''in_progress'' None None None None None None s1) in
     snd (rework_task ''t5'' 3 None ''falta teste'' None (Some 0) (Some 1) s2))"

lemma sample_reworked_run:
  "task_run (Some 1) (res_store (insert_task ''t3'' 1 (sample_new ''c'') sample_store)) sample_reworked"
proof -
  have "(''in_progress'' :: pystr) \<noteq> status_value PENDING" by (simp add: status_value.simps)
  then show ?thesis unfolding sample_reworked_def Let_def
    by (blast intro: rtranclp.rtrancl_into_rtrancl r_into_rtranclp task_step.transition task_step.rework)
qed

theorem rework_limit_holds_witness:
  "\<exists>r. task_at sample_reworked 3 = Some r \<and> t_rework_count r = 1 \<and> t_status r = status_value FAILED"
proof -
  have "map_option t_rework_count (task_at sample_reworked 3) = Some 1" by code_simp
  then show ?thesis
    using rework_limit_holds [OF sample_ids_ok sample_insert _ sample_reworked_run] by auto
qed

section \<open>Reviews\<close>

definition review_row :: "pystr \<Rightarrow> pystr \<Rightarrow> TaskRow \<Rightarrow> TaskRow" where
  "review_row now agent r = r\<lparr>t_status := status_value REVIEWING, t_reviewed_by := Some agent,
     t_updated_at := Some now\<rparr>"

lemma review_row_fun: "review_row now agent = (\<lambda>r. r\<lparr>t_status := status_value REVIEWING,
    t_reviewed_by := Some agent, t_updated_at := Some now\<rparr>)"
  by (rule ext) (simp add: review_row_def)

text \<open>
  \<open>claim_review_task\<close> hands out a delivery that waits for review, of least id, never to the
  agent that executed it nor to a reviewer that failed on it; it changes only this row, to
  \<open>reviewing\<close> by this agent. Nothing is handed out, and nothing changes, only if nothing waits
  for this agent.
\<close>

theorem claim_review_exact:
  assumes "ids_ok s"
  shows "case claim_review_task now agent job s of
      (None, s') \<Rightarrow> s' = s \<and> (\<forall>c \<in> set (tasks s). \<not> review_claimable s agent job c)
    | (Some tid, s') \<Rightarrow>
        (\<exists>c. task_at s tid = Some c \<and> review_claimable s agent job c \<and>
          t_assigned_to c \<noteq> Some agent \<and> \<not> has_token agent (t_failed_reviewers c) \<and>
          (\<forall>c' \<in> set (tasks s). review_claimable s agent job c' \<longrightarrow> tid \<le> t_id c') \<and>
          task_at s' tid = Some (review_row now agent c) \<and>
          (\<forall>tid'. tid' \<noteq> tid \<longrightarrow> task_at s' tid' = task_at s tid'))"
proof (cases "find (review_claimable s agent job) (tasks s)")
  case None
  then have "\<forall>c \<in> set (tasks s). \<not> review_claimable s agent job c" by (simp add: find_None_iff_ball)
  with None show ?thesis by (simp add: claim_review_task_def)
next
  case (Some c)
  have c: "c \<in> set (tasks s)" "review_claimable s agent job c" using Some by (auto dest: find_SomeD)
  have least: "\<forall>c' \<in> set (tasks s). review_claimable s agent job c' \<longrightarrow> t_id c \<le> t_id c'"
    using find_sorted_least [OF _ Some] assms by (auto simp: ids_ok_def)
  have "t_assigned_to c \<noteq> Some agent" and "\<not> has_token agent (t_failed_reviewers c)"
    using c(2) excluded_if_token by (auto simp: review_claimable_def)
  with c least Some task_at_member [OF assms c(1)] show ?thesis
    by (auto simp: claim_review_task_def Let_def task_at_update_task_row review_row_def)
qed

definition sample_submitted :: Store where
  "sample_submitted = snd (submit_for_review ''t4'' 1 (Some ''feito'') (Some 0) sample_claimed)"

lemma sample_submitted_ids_ok: "ids_ok sample_submitted"
  unfolding sample_submitted_def
  by (rule task_step_ids_ok [OF task_step.submit sample_claimed_ids_ok])

theorem claim_review_exact_witness:
  "fst (claim_review_task ''t5'' ''codex'' None sample_submitted) = Some 1 \<and>
   (\<exists>c. task_at sample_submitted 1 = Some c \<and> t_assigned_to c \<noteq> Some ''codex'')"
proof -
  have "fst (claim_review_task ''t5'' ''codex'' None sample_submitted) = Some 1" by code_simp
  then show ?thesis
    using claim_review_exact [OF sample_submitted_ids_ok, where now = "''t5''" and agent = "''codex''" and job = None]
    by (auto split: prod.splits)
qed

section \<open>Dependencies\<close>

theorem dependency_insertion_exact_witness:
  "acyclic (insert (1, 2) (edge_set sample_store)) \<longleftrightarrow> False"
proof -
  have "insert_task_dependency ''t3'' 1 2 sample_store =
      Inl (ValueError ''dependencia criaria ciclo entre tasks'')"
    by code_simp
  then show ?thesis
    using dependency_insertion_exact [OF sample_deps_ok, where now = "''t3''" and t = 1 and d = 2] sample_rows by simp
qed

text \<open>The conditions of a claim apart from the prerequisites.\<close>

definition offered :: "Store \<Rightarrow> pystr \<Rightarrow> TaskRow \<Rightarrow> bool" where
  "offered s agent r \<longleftrightarrow> t_status r \<in> set [status_value PENDING, status_value APPROVED] \<and>
     t_origin r \<noteq> ''delegate'' \<and> (t_assigned_to r = Some agent \<or> t_assigned_to r = None) \<and>
     \<not> excluded_by (t_failed_agents r) agent \<and> exec_claim_gate s r"

text \<open>
  The prerequisites alone never stop the work: while a task is unfinished and the unfinished
  tasks are offered to the agent, one of them can be claimed, because insertion keeps the
  dependency graph acyclic.
\<close>

theorem no_scheduling_deadlock:
  assumes "deps_ok s" and "ids_ok s" and "r \<in> set (tasks s)" and "t_status r \<noteq> status_value COMPLETED"
    and "\<forall>r' \<in> set (tasks s). t_status r' \<noteq> status_value COMPLETED \<longrightarrow> offered s agent r'"
  shows "\<exists>tid s'. claim_task now agent None s = (Some tid, s')"
proof -
  obtain c where "c \<in> set (tasks s)" "t_status c \<noteq> status_value COMPLETED" "prerequisites_met s (t_id c)"
    using unfinished_minimal [OF assms(1-4)] by blast
  with assms(5) have "c \<in> set (tasks s)" "claimable s agent None c"
    by (auto simp: offered_def claimable_def)
  then have "fst (claim_task now agent None s) \<noteq> None"
    using claim_task_None [OF assms(2), of now agent None "snd (claim_task now agent None s)"]
    by (metis prod.collapse)
  then show ?thesis by (metis option.exhaust prod.collapse)
qed

theorem no_scheduling_deadlock_witness:
  "\<exists>tid s'. claim_task ''t9'' ''codex'' None sample_store = (Some tid, s')"
proof (rule no_scheduling_deadlock [OF sample_deps_ok sample_ids_ok])
  show "sample_row 1 ''a'' \<in> set (tasks sample_store)" by (simp add: sample_tables)
  show "t_status (sample_row 1 ''a'') \<noteq> status_value COMPLETED" by code_simp
  have "offered sample_store ''codex'' (sample_row 1 ''a'')" by code_simp
  moreover have "offered sample_store ''codex'' (sample_row 2 ''b'')" by code_simp
  ultimately show "\<forall>r' \<in> set (tasks sample_store). t_status r' \<noteq> status_value COMPLETED \<longrightarrow>
      offered sample_store ''codex'' r'"
    by (simp add: sample_tables)
qed

section \<open>Two ways to match a failed agent\<close>

definition plain_text :: "pystr \<Rightarrow> bool" where
  "plain_text t \<longleftrightarrow> wildcard_free t \<and> map ascii_fold t = t"

lemma excluded_iff_token:
  assumes "plain_text agent" and "map ascii_fold (or_empty column) = or_empty column"
  shows "excluded_by column agent \<longleftrightarrow> has_token agent column"
proof
  assume "excluded_by column agent"
  moreover have tok: "wildcard_free (failed_agents_token agent)"
    "map ascii_fold (failed_agents_token agent) = failed_agents_token agent"
    using assms(1) by (auto simp: plain_text_def wildcard_free_def failed_agents_token_def ascii_fold_def)
  ultimately obtain a m b where col: "or_empty column = a @ m @ b"
    and m: "map ascii_fold m = failed_agents_token agent"
    unfolding excluded_by_def using sql_like_wildcard_free [of "failed_agents_token agent" "or_empty column"]
    by (metis append_Cons append_Nil)
  have "map ascii_fold m = m" using assms(2) unfolding col by simp
  with col m show "has_token agent column" by (simp add: has_token_def)
qed (rule excluded_if_token)

text \<open>
  For lower-case agent names without \<open>%\<close> and \<open>_\<close>, the check \<open>can_reassign_task\<close> (Python's
  \<open>in\<close>) says yes exactly when one of the candidates passes the failed-agents filter of the
  claim (SQL's \<open>LIKE\<close>).
\<close>

theorem reassign_check_agrees_on_plain_names:
  assumes "task_at s tid = Some r" and "\<forall>a \<in> set candidates. plain_text a"
    and "map ascii_fold (or_empty (t_failed_agents r)) = or_empty (t_failed_agents r)"
  shows "can_reassign_task tid candidates s \<longleftrightarrow>
    (\<exists>a \<in> set candidates. \<not> excluded_by (t_failed_agents r) a)"
  using assms excluded_iff_token
  by (auto simp: can_reassign_task_def has_candidate_def Let_def list_ex_iff has_token_def)

theorem reassign_check_agrees_on_plain_names_witness:
  "can_reassign_task 1 [''claude'', ''codex''] sample_requeued \<longleftrightarrow>
    (\<exists>a \<in> set [''claude'', ''codex'']. \<not> excluded_by (Some ''|claude|'') a)"
proof -
  have "\<forall>a \<in> set [''claude'', ''codex'']. plain_text a" by code_simp
  moreover have "map ascii_fold ''|claude|'' = ''|claude|''" by code_simp
  ultimately show ?thesis
    using reassign_check_agrees_on_plain_names [OF sample_requeued_row] by simp
qed

definition trap_store :: Store where
  "trap_store = (let s1 = snd (claim_task ''t3'' ''gpt-4'' None sample_store) in
     snd (requeue_task ''t4'' 1 ''gpt-4'' None (Some 0) True s1))"

text \<open>
  The two checks differ on other names: after \<open>gpt-4\<close> failed the first task, the check says
  that \<open>gpt_4\<close> or \<open>GPT-4\<close> can take it over, but the claim refuses both, since in a \<open>LIKE\<close>
  pattern \<open>_\<close> matches any character and letters match in either case.
\<close>

theorem reassign_check_differs_from_claim:
  "can_reassign_task 1 [''gpt_4''] trap_store \<and> fst (claim_task ''t5'' ''gpt_4'' None trap_store) = None \<and>
   can_reassign_task 1 [''GPT-4''] trap_store \<and> fst (claim_task ''t5'' ''GPT-4'' None trap_store) = None \<and>
   fst (claim_task ''t5'' ''codex'' None trap_store) = Some 1"
  by code_simp

end
