(* ===== verification/Workflow_Runs.thy ===== *)
theory Workflow_Runs
  imports Workflow_Replanning Task_Guarantees
begin

text \<open>
  The task and workflow repositories as one event system: the step relation \<open>wf_step\<close> has a rule for
  each operation the executors, reviewers and the coordinator apply to the shared store. Proved by
  rule induction: the store keeps its integrity, at most one writing task of the current plans
  executes at a time, and the limits on replanning and consulting hold.
\<close>

section \<open>Tame steps\<close>

text \<open>A step that leaves the workflow tables alone, loses no task and starts none.\<close>

definition task_frame :: "Store \<Rightarrow> Store \<Rightarrow> bool" where
  "task_frame s s' \<longleftrightarrow> deps s' = deps s \<and> links s' = links s \<and> workflows s' = workflows s \<and>
     workflow_seq s' = workflow_seq s \<and> plans s' = plans s \<and> jobs s' = jobs s"

definition starts_none :: "Store \<Rightarrow> Store \<Rightarrow> bool" where
  "starts_none s s' \<longleftrightarrow> (\<forall>t r r'. task_at s t = Some r \<longrightarrow> task_at s' t = Some r' \<longrightarrow>
     t_status r' = status_value IN_PROGRESS \<longrightarrow> t_status r = status_value IN_PROGRESS)"

definition tame :: "Store \<Rightarrow> Store \<Rightarrow> bool" where
  "tame s s' \<longleftrightarrow> task_frame s s' \<and> (ids_ok s \<longrightarrow> ids_ok s') \<and>
     (\<forall>t. task_at s t \<noteq> None \<longrightarrow> task_at s' t \<noteq> None) \<and> starts_none s s'"

lemma tame_refl [simp]: "tame s s"
  by (simp add: tame_def task_frame_def starts_none_def)

lemma tame_trans:
  assumes "tame s t" and "tame t u" shows "tame s u"
proof -
  have "starts_none s u" unfolding starts_none_def
  proof (intro allI impI)
    fix x r r' assume r: "task_at s x = Some r" "task_at u x = Some r'" "t_status r' = status_value IN_PROGRESS"
    then obtain r1 where "task_at t x = Some r1" using assms(1) unfolding tame_def by fastforce
    with r assms show "t_status r = status_value IN_PROGRESS" unfolding tame_def starts_none_def by blast
  qed
  moreover have "task_frame s u" using assms by (simp add: tame_def task_frame_def)
  ultimately show ?thesis using assms unfolding tame_def by blast
qed

lemma tame_update:
  assumes "\<And>r. t_id (f r) = t_id r"
    and "\<And>r. task_at s t = Some r \<Longrightarrow> t_status (f r) = status_value IN_PROGRESS \<Longrightarrow> t_status r = status_value IN_PROGRESS"
  shows "tame s (update_task_row t f s)"
proof -
  have "ids_ok s \<Longrightarrow> ids_ok (update_task_row t f s)"
    using ids_ok_same [of "update_task_row t f s" s] assms(1) by (simp add: update_task_row_def)
  with assms show ?thesis
    by (auto simp: tame_def task_frame_def starts_none_def task_at_update_task_row)
qed

lemma tame_publish [simp]: "tame s (publish_event e s') \<longleftrightarrow> tame s s'"
  by (simp add: tame_def task_frame_def starts_none_def ids_ok_def)

lemma tame_attempts [simp]: "tame s (s'\<lparr>attempts := as\<rparr>) \<longleftrightarrow> tame s s'"
  by (simp add: tame_def task_frame_def starts_none_def ids_ok_def task_at_def)

lemma tame_transition_event [simp]: "tame s (transition_event tid jid to appr res s') \<longleftrightarrow> tame s s'"
  by (simp add: transition_event_def)

lemma tame_update_where:
  assumes "\<And>r. t_id (f r) = t_id r" and "\<And>r. t_status (f r) = t_status r"
  shows "tame s (s\<lparr>tasks := update_where p f (tasks s)\<rparr>)"
proof -
  let ?s = "s\<lparr>tasks := update_where p f (tasks s)\<rparr>"
  have at: "task_at ?s t = map_option (\<lambda>r. if p r then f r else r) (task_at s t)" for t
    using assms(1) by (simp add: task_at_def find_update_where)
  have "ids_ok s \<Longrightarrow> ids_ok ?s" using ids_ok_same [of ?s s] assms(1) by simp
  with at assms(2) show ?thesis
    by (auto simp: tame_def task_frame_def starts_none_def split: if_splits)
qed

text \<open>Every operation but the claim, on every branch.\<close>

lemma tame_transition_tasks:
  assumes t: "transition_tasks now tids st reason s = (changed, s')" and trm: "task_terminal st"
  shows "tame s s'"
proof -
  note eff = transition_tasks_effect [OF t trm]
  obtain ts where s': "s' = s\<lparr>tasks := ts\<rparr>" using eff by blast
  have "starts_none s s'" unfolding starts_none_def
  proof (intro allI impI)
    fix x r r' assume r: "task_at s x = Some r" "task_at s' x = Some r'" "t_status r' = status_value IN_PROGRESS"
    have "task_at s' x = Some (if x \<in> set tids \<and> can_transition (t_status r) (status_value st)
        then cancelled_row now st reason r else r)"
      using eff [THEN conjunct2, THEN conjunct2, THEN spec, of x] r(1) by simp
    moreover have "st \<noteq> IN_PROGRESS" using trm by (auto simp: task_terminal_def)
    ultimately show "t_status r = status_value IN_PROGRESS" using r(2,3) by (simp split: if_splits)
  qed
  moreover have "ids_ok s \<Longrightarrow> ids_ok s'"
    using eff [THEN conjunct2, THEN conjunct1] ids_ok_same [of s' s] by (simp add: same_ids_def)
  moreover have "task_frame s s'" by (simp add: s' task_frame_def)
  ultimately show ?thesis using transition_tasks_None [OF t trm] by (simp add: tame_def)
qed

lemma tame_ops:
  "tame s (snd (requeue_interrupted now tid reason obs s))"
  "tame s (snd (unassign_pending_task now tid owner s))"
  "tame s (release_agent_tasks now agent s)"
  "tame s (snd (requeue_task now tid agent ropt e exclude s))"
  "tame s (snd (complete_task now tid res rvw notes ex e s))"
  "tame s (snd (submit_for_review now tid res e s))"
  "tame s (snd (requeue_task_after_review now tid agent res notes e s))"
  "tame s (snd (rework_task now tid owneropt reason res e mx s))"
  "tame s (snd (return_review now tid agent reason e exclude s))"
  by (auto simp: op_defs Let_def intro!: tame_update tame_update_where split: option.splits)

lemma tame_transition_task:
  "to \<noteq> status_value IN_PROGRESS \<Longrightarrow> tame s (snd (transition_task now tid to res notes appr asg e es s))"
  by (auto simp: transition_task_def Let_def intro!: tame_update split: option.splits)

lemma tame_claim_review: "tame s (snd (claim_review_task now agent job s))"
  by (auto simp: claim_review_task_def Let_def intro!: tame_update split: option.splits)

lemma tame_insert: "insert_task now jid n s = Inr (tid, s') \<Longrightarrow> tame s s'"
  using ids_ok_insert [of now jid n s tid s']
  by (auto simp: insert_task_def Let_def tame_def task_frame_def starts_none_def task_at_def find_append
      split: if_splits)

lemma tame_create: "create_task now jid n s = Inr (tid, s') \<Longrightarrow> tame s s'"
  by (auto simp: create_task_def bind_res_Inr intro: tame_insert)

lemma tame_set_tasks_job: "set_tasks_job now ids jid s = Inr s' \<Longrightarrow> tame s s'"
proof (induction ids arbitrary: s)
  case (Cons t ids)
  let ?s = "update_task_row t (\<lambda>r. r\<lparr>t_job_id := jid, t_updated_at := Some now\<rparr>) s"
  have "tame s ?s" by (rule tame_update) auto
  moreover have "tame ?s s'" using Cons by (auto split: if_splits)
  ultimately show ?case by (rule tame_trans)
qed simp

lemma tame_requeue_and_close: "tame s (snd (requeue_and_close now tid reason obs s))"
  using tame_ops(1) [of s now tid reason obs]
  by (auto simp: requeue_and_close_def Let_def split: prod.splits if_splits)

lemma tame_requeue_all: "tame s (requeue_all now ids reason s)"
proof (induction ids arbitrary: s)
  case (Cons t ids)
  show ?case using tame_trans [OF tame_requeue_and_close Cons.IH] by simp
qed simp

lemma tame_requeue_orphans: "tame s (snd (requeue_orphans now obs reason s))"
proof (induction now obs reason s rule: requeue_orphans.induct)
  case (2 now tid seen obs reason s)
  obtain d s1 where d: "requeue_and_close now tid reason (Some seen) s = (d, s1)" by fastforce
  with tame_requeue_and_close [of s now tid reason "Some seen"] have "tame s s1" by simp
  moreover have "tame s1 (snd (requeue_orphans now obs reason s1))" using "2.IH" d by simp
  ultimately have "tame s (snd (requeue_orphans now obs reason s1))" by (rule tame_trans)
  then show ?case using d by (simp add: split_beta)
qed simp

section \<open>What tame steps keep\<close>

lemma tame_store_ok:
  assumes "tame s s'" and "store_ok s" shows "store_ok s'"
proof -
  have fr: "deps s' = deps s" "links s' = links s" "workflows s' = workflows s" "workflow_seq s' = workflow_seq s"
    "plans s' = plans s" "jobs s' = jobs s"
    using assms(1) by (simp_all add: tame_def task_frame_def)
  have some: "task_at s t \<noteq> None \<Longrightarrow> task_at s' t \<noteq> None" for t using assms(1) by (simp add: tame_def)
  have "deps_ok s'" using assms(2) some
    unfolding store_ok_def deps_ok_def edge_set_def dep_edges_def fr by blast
  moreover have "links_ok s'" using assms(2) some workflows_ok_tables(2) [OF fr(3-6)]
    unfolding store_ok_def links_ok_def current_keys_def fr by simp
  moreover have "workflows_ok s'" using assms(2) workflows_ok_tables(1) [OF fr(3-6)] by (simp add: store_ok_def)
  ultimately show ?thesis using assms by (simp add: store_ok_def tame_def)
qed

text \<open>At most one task of a current writing link is being executed.\<close>

definition writing :: "Store \<Rightarrow> LinkRow \<Rightarrow> bool" where
  "writing s l \<longleftrightarrow> l \<in> set (links s) \<and> l_writes l \<and> l_superseded_in l = None \<and>
     (\<exists>r. task_at s (l_task l) = Some r \<and> t_status r = status_value IN_PROGRESS)"

definition one_writer :: "Store \<Rightarrow> bool" where
  "one_writer s \<longleftrightarrow> (\<forall>l l'. writing s l \<and> writing s l' \<longrightarrow> l_task l = l_task l')"

text \<open>It is enough that who writes afterwards was writing before.\<close>

lemma one_writer_mono:
  assumes "one_writer s" and "\<And>l. writing s' l \<Longrightarrow> \<exists>l0. writing s l0 \<and> l_task l0 = l_task l"
  shows "one_writer s'"
  using assms unfolding one_writer_def by metis

lemma tame_writing: "tame s s' \<Longrightarrow> links_ok s \<Longrightarrow> writing s' l \<Longrightarrow> writing s l"
  unfolding tame_def task_frame_def starts_none_def writing_def links_ok_def by (metis option.exhaust)

lemma tame_one_writer: "tame s s' \<Longrightarrow> store_ok s \<Longrightarrow> one_writer s \<Longrightarrow> one_writer s'"
  using one_writer_mono tame_writing unfolding store_ok_def by blast

lemma busy_if_writing:
  assumes "links_ok s" and "writing s l" and "l_task l \<noteq> tid"
  shows "busy_writer s tid"
proof -
  obtain r where r: "task_at s (l_task l) = Some r" "t_status r = status_value IN_PROGRESS"
    and l: "l \<in> set (links s)" "l_writes l" "l_superseded_in l = None"
    using assms(2) by (auto simp: writing_def)
  obtain w where "workflow_at s (l_workflow l) = Some w" using assms(1) l(1) unfolding links_ok_def by blast
  then have "w \<in> set (workflows s)" "w_id w = l_workflow l" by (auto dest: workflow_at_SomeD)
  then show ?thesis using r(2) l assms(3) task_at_SomeD [OF r(1)]
    unfolding busy_writer_def list_ex_iff by (intro bexI [of _ l] bexI [of _ r] bexI [of _ w] conjI) auto
qed

lemma own_writes_link: "links_ok s \<Longrightarrow> l \<in> set (links s) \<Longrightarrow> own_writes s (l_task l) = l_writes l"
  using find_key_unique [of l_task "links s" l] by (simp add: own_writes_def links_ok_def)

lemma claim_one_writer:
  assumes ok: "store_ok s" and one: "one_writer s" and claim: "claim_task now agent job s = (res, s')"
  shows "one_writer s' \<and> store_ok s'"
proof (cases res)
  case None
  then show ?thesis using claim_task_None [of s now agent job s'] ok one claim by (simp add: store_ok_def)
next
  case (Some tid)
  have ids: "ids_ok s" and lok: "links_ok s" using ok by (simp_all add: store_ok_def)
  from claim_task_Some [OF ids] claim Some obtain c where c: "task_at s tid = Some c" "claimable s agent job c"
    and s': "s' = publish_event (TaskStarted tid (t_job_id c) agent) (update_task_row tid (claimed_row now agent) s)"
    by blast
  have tid: "t_id c = tid" using task_at_SomeD [OF c(1)] by simp
  have at: "task_at s' t = (if t = tid then Some (claimed_row now agent c) else task_at s t)" for t
    using c(1) by (simp add: s' task_at_update_task_row)
  have links: "links s' = links s" by (simp add: s')
  have old: "writing s l" if "writing s' l" "l_task l \<noteq> tid" for l
    using that by (simp add: writing_def at links)
  have alone: "l_task l' = tid" if "writing s' l" "l_task l = tid" "writing s' l'" for l l'
  proof (rule ccontr)
    assume other: "l_task l' \<noteq> tid"
    then have "busy_writer s tid" using busy_if_writing [OF lok old] that(3) by blast
    moreover have "own_writes s tid"
      using own_writes_link [OF lok, of l] that(1,2) by (simp add: writing_def links)
    ultimately show False using c(2) tid by (simp add: claimable_def exec_claim_gate_def)
  qed
  have "one_writer s'" unfolding one_writer_def
  proof (intro allI impI)
    fix l l' assume w: "writing s' l \<and> writing s' l'"
    show "l_task l = l_task l'"
    proof (cases "l_task l = tid \<or> l_task l' = tid")
      case True
      then show ?thesis using alone w by metis
    next
      case False
      then show ?thesis using old w one unfolding one_writer_def by blast
    qed
  qed
  moreover have "task_step None s s'" using claim_is_step [OF claim] .
  then have "ids_ok s'" using ids by (rule task_step_ids_ok)
  moreover have "links_ok s'" using links_ok_cong [of s' s] lok at c(1) links by (simp add: s')
  moreover have "deps_ok s'" using deps_ok_cong [of s' s] ok at c(1) by (simp add: s' store_ok_def)
  moreover have "workflows_ok s'" using workflows_ok_tables(1) [of s' s] ok by (simp add: s' store_ok_def)
  ultimately show ?thesis by (simp add: store_ok_def)
qed

section \<open>Updates of workflow rows\<close>

definition keeps_row :: "Store \<Rightarrow> (WorkflowRow \<Rightarrow> WorkflowRow) \<Rightarrow> bool" where
  "keeps_row s f \<longleftrightarrow> (\<forall>w. w_id (f w) = w_id w \<and> w_plan_version (f w) = w_plan_version w \<and>
     (wf_status_of (w_status w) \<noteq> None \<longrightarrow> wf_status_of (w_status (f w)) \<noteq> None) \<and>
     (job_exists s (w_job_id w) \<longrightarrow> job_exists s (w_job_id (f w))))"

lemma workflow_update_ok:
  assumes f: "keeps_row s f" and ok: "store_ok s"
  shows "store_ok (s\<lparr>workflows := update_where p f (workflows s)\<rparr>)"
proof -
  let ?s = "s\<lparr>workflows := update_where p f (workflows s)\<rparr>"
  have at: "workflow_at ?s i = map_option (\<lambda>w. if p w then f w else w) (workflow_at s i)" for i
    using f by (simp add: workflow_at_def find_update_where keeps_row_def)
  have "links_ok ?s"
    using ok at by (auto simp: store_ok_def links_ok_def current_keys_def task_at_def)
  moreover have "workflows_ok ?s" unfolding workflows_ok_def
  proof (intro conjI ballI)
    have "map w_id (workflows ?s) = map w_id (workflows s)"
      using f by (simp add: map_update_where keeps_row_def)
    then show "distinct (map w_id (workflows ?s))" using ok by (simp add: store_ok_def workflows_ok_def)
    show "p_workflow row \<le> workflow_seq ?s" if "row \<in> set (plans ?s)" for row
      using that ok by (simp add: store_ok_def workflows_ok_def)
    fix u assume "u \<in> set (workflows ?s)"
    then obtain w where w: "w \<in> set (workflows s)" "u = (if p w then f w else w)"
      by (auto simp: in_set_update_where)
    then have "w_id w \<le> workflow_seq s" "wf_status_of (w_status w) \<noteq> None" "job_exists s (w_job_id w)" "version_ok s w"
      using ok by (simp_all add: store_ok_def workflows_ok_def)
    with w(2) f show "w_id u \<le> workflow_seq ?s" "wf_status_of (w_status u) \<noteq> None"
      "job_exists ?s (w_job_id u)" "version_ok ?s u"
      by (auto simp: keeps_row_def job_exists_def version_ok_def plan_row_def)
  qed
  moreover have "ids_ok ?s" "deps_ok ?s" using ok ok_other_tables [of ?s s] by (simp_all add: store_ok_def)
  ultimately show ?thesis by (simp add: store_ok_def)
qed

lemma writing_workflows [simp]: "writing (s\<lparr>workflows := ws\<rparr>) l = writing s l"
  by (simp add: writing_def task_at_def)

text \<open>The budgets of a workflow.\<close>

definition budget_ok :: "WorkflowLimits \<Rightarrow> Store \<Rightarrow> bool" where
  "budget_ok limits s \<longleftrightarrow> (\<forall>w \<in> set (workflows s). w_replans w \<le> max_replans limits \<and> w_consults w \<le> max_consults limits)"

definition good :: "WorkflowLimits \<Rightarrow> Store \<Rightarrow> bool" where
  "good limits s \<longleftrightarrow> store_ok s \<and> one_writer s \<and> budget_ok limits s"

lemma good_tame: "tame s s' \<Longrightarrow> good limits s \<Longrightarrow> good limits s'"
  using tame_store_ok tame_one_writer by (auto simp: good_def budget_ok_def tame_def task_frame_def)

lemma good_workflow_update:
  assumes "keeps_row s f" and "good limits s"
    and "\<And>w. w \<in> set (workflows s) \<Longrightarrow> p w \<Longrightarrow> w_replans w \<le> max_replans limits \<and> w_consults w \<le> max_consults limits \<Longrightarrow>
      w_replans (f w) \<le> max_replans limits \<and> w_consults (f w) \<le> max_consults limits"
  shows "good limits (s\<lparr>workflows := update_where p f (workflows s)\<rparr>)"
  using assms workflow_update_ok [OF assms(1)]
  by (auto simp: good_def one_writer_def budget_ok_def in_set_update_where)

lemma good_set_result: "good limits s \<Longrightarrow> good limits (snd (set_result now wid result st v only s))"
  by (simp add: set_result_def Let_def) (rule good_workflow_update; simp add: keeps_row_def)

lemma good_claim_consult: "good limits s \<Longrightarrow> good limits (snd (claim_consult limits now wid att s))"
  by (simp add: claim_consult_def Let_def) (rule good_workflow_update; simp add: keeps_row_def)

lemma tame_close [simp]: "tame s (close_open_attempts now ids r s') \<longleftrightarrow> tame s s'"
  by (simp add: close_open_attempts_def)

lemma tame_cancel_current:
  assumes "cancel_current now wid reason s = Inr (ids, s')" shows "tame s s'"
proof -
  obtain changed s1 where t: "transition_tasks now (map l_task (current_links wid s)) CANCELLED (Some reason) s = (changed, s1)"
    by fastforce
  then have "s' = close_open_attempts now changed reason s1"
    using assms by (auto simp: cancel_current_def Let_def bind_res_Inr)
  then show ?thesis using tame_transition_tasks [OF t cancelled_terminal] by simp
qed

lemma keeps_status_row: "keeps_row s (status_row now st reason att result)"
  by (simp add: keeps_row_def status_row_def)

lemma set_status_cases:
  assumes "set_status now wid to reason expected version cancel att result s = Inr (res, s')"
  shows "s' = s \<and> res = None \<or> (\<exists>s1 w ids. tame s s1 \<and> s' = update_workflow_row wid (status_row now to reason att result) s1 \<and>
    workflow_at s wid = Some w \<and> can_transition_workflow (w_status w) (wf_value to) \<and>
    (\<forall>sts. expected = Some sts \<longrightarrow> w_status w \<in> set (map wf_value sts)) \<and>
    (\<forall>v. version = Some v \<longrightarrow> w_plan_version w = v) \<and>
    res = Some (status_row now to reason att result w, ids))"
proof -
  from assms obtain w where w: "load_workflow wid s = Inr w" by (auto simp: set_status_def bind_res_Inr)
  show ?thesis
  proof (cases "(case expected of None \<Rightarrow> False | Some sts \<Rightarrow> w_status w \<notin> set (map wf_value sts))
        \<or> (case version of None \<Rightarrow> False | Some v \<Rightarrow> w_plan_version w \<noteq> v)
        \<or> \<not> can_transition_workflow (w_status w) (wf_value to)")
    case True
    then show ?thesis using assms w by (simp add: set_status_def)
  next
    case False
    from assms w False obtain ids s1 w' where
      c: "(if cancel then cancel_current now wid (non_empty_or reason ''workflow cancelado'') s else Inr ([], s)) = Inr (ids, s1)"
      and s': "s' = update_workflow_row wid (status_row now to reason att result) s1"
      and w': "load_workflow wid s' = Inr w'" "res = Some (w', ids)"
      by (auto simp: set_status_def bind_res_Inr Let_def simp del: if_split)
    have "tame s s1" using c tame_cancel_current by (cases cancel) auto
    moreover have "workflow_at s1 wid = workflow_at s wid"
      using \<open>tame s s1\<close> by (simp add: tame_def task_frame_def workflow_at_def)
    then have "w' = status_row now to reason att result w"
      using w w'(1) unfolding s' load_Inr by (auto simp: workflow_at_update_workflow_row status_row_def)
    moreover have "(\<forall>sts. expected = Some sts \<longrightarrow> w_status w \<in> set (map wf_value sts)) \<and>
        (\<forall>v. version = Some v \<longrightarrow> w_plan_version w = v)" using False by (auto split: option.splits)
    ultimately show ?thesis using s' w'(2) w False unfolding load_Inr by blast
  qed
qed

lemma good_update_row:
  "keeps_row s f \<Longrightarrow> good limits s \<Longrightarrow> (\<And>w. w_replans (f w) = w_replans w \<and> w_consults (f w) = w_consults w) \<Longrightarrow>
    good limits (update_workflow_row wid f s)"
  unfolding update_workflow_row_def by (rule good_workflow_update) auto

lemma good_set_status:
  assumes "set_status now wid to reason expected version cancel att result s = Inr (res, s')" and "good limits s"
  shows "good limits s'"
  using set_status_cases [OF assms(1)] assms(2) good_tame good_update_row [OF keeps_status_row]
  by (auto simp: status_row_def)

section \<open>Creating tasks writes nothing\<close>

lemma spec_rows_pending: "r \<in> set (spec_rows now wid jid v tid sps) \<Longrightarrow> t_status r = status_value PENDING"
  by (induction sps arbitrary: tid) (auto simp: new_task_row_def new_task_of_spec_def status_arg_column_def Let_def)

lemma spec_links_fresh: "l \<in> set (spec_links wid v lid tid sps) \<Longrightarrow> tid \<le> l_task l"
  using spec_ids_range [of _ _ tid sps] spec_links_tasks [of wid v lid tid sps]
  by (metis (no_types, lifting) image_eqI image_iff list.set_map prod.collapse)

lemma add_spec_rows_writing:
  assumes ids: "ids_ok s" and links: "links_ok s"
    and tables: "tasks s' = tasks (add_spec_rows now wid jid v sps s)" "links s' = links (add_spec_rows now wid jid v sps s)"
    and w: "writing s' l"
  shows "writing s l"
proof -
  from w obtain r where r: "task_at s' (l_task l) = Some r" "t_status r = status_value IN_PROGRESS"
    and l: "l \<in> set (links s')" by (auto simp: writing_def)
  have "r \<notin> set (spec_rows now wid jid v (task_seq s + 1) sps)" using spec_rows_pending r(2) by fastforce
  then have old: "r \<in> set (tasks s)" "t_id r = l_task l"
    using task_at_SomeD [OF r(1)] by (auto simp: tables add_spec_rows_def)
  then have at: "task_at s (l_task l) = Some r" using task_at_member [OF ids] by metis
  then have "l_task l \<le> task_seq s" using old_id_bound [OF ids] by simp
  then have "l \<notin> set (spec_links wid v (link_seq s + 1) (task_seq s + 1) sps)"
    using spec_links_fresh by fastforce
  then show ?thesis using w l r at by (auto simp: writing_def tables add_spec_rows_def)
qed

lemma retire_writing:
  assumes "writing (retire now v tids reason s) l" shows "writing s l"
proof -
  from assms obtain r where r: "task_at (retire now v tids reason s) (l_task l) = Some r"
    "t_status r = status_value IN_PROGRESS" and l: "l \<in> set (links (supersede v tids s))" "l_writes l"
    "l_superseded_in l = None"
    by (auto simp: writing_def retire_effect(8))
  then have "task_at s (l_task l) = Some r"
    by (auto simp: retire_effect(1) split: option.splits if_splits)
  moreover have "l \<in> set (links s)" using l by (auto simp: supersede_def in_set_update_where split: if_splits)
  ultimately show ?thesis using r l by (simp add: writing_def)
qed

lemma publish_cases:
  assumes "publish digest limits now plan jid key agents s = Inr (res, s')"
  shows "s' = s \<or> (find (\<lambda>w. w_publication_key w = key) (workflows s) = None \<and> job_exists s jid \<and>
    open_count jid s < max_open_workflows limits)"
  using assms by (auto simp: publish_def Let_def bind_res_Inr split: option.splits if_splits)

lemma good_publish:
  assumes pub: "publish digest limits now plan jid key agents s = Inr (res, s')" and g: "graph_ok plan"
    and good: "good limits s" and pos: "0 \<le> max_replans limits" "0 \<le> max_consults limits"
  shows "good limits s'"
proof (cases "s' = s")
  case True
  then show ?thesis using good by simp
next
  case False
  have ok: "store_ok s" using good by (simp add: good_def)
  let ?wid = "workflow_seq s + 1" and ?sps = "pl_tasks (resolve_assignees plan agents)"
  let ?b = "publish_base digest now plan jid key s"
  from publish_cases [OF pub] False have job: "job_exists s jid"
    and key: "find (\<lambda>w. w_publication_key w = key) (workflows s) = None"
    and room: "open_count jid s < max_open_workflows limits" by auto
  from publish_succeeds [OF ok g job key room, of digest now agents] pub
  have s': "s' = (add_spec_rows now ?wid jid 1 ?sps ?b)\<lparr>deps := deps s'\<rparr>" and ok': "store_ok s'"
    by auto
  obtain ds where s'': "s' = (add_spec_rows now ?wid jid 1 ?sps ?b)\<lparr>deps := ds\<rparr>" using s' by blast
  note b = publish_base_ok [OF ok g job, of digest now key]
  have "writing s l" if "writing s' l" for l
  proof -
    have "writing ?b l"
      by (rule add_spec_rows_writing [OF b(1,3) _ _ that, of now ?wid jid 1 ?sps]) (simp_all add: s'')
    then show ?thesis by (simp add: writing_def publish_base_def Let_def task_at_def)
  qed
  then have "one_writer s'" using good one_writer_mono [of s s'] by (auto simp: good_def)
  moreover have "budget_ok limits s'"
    using good pos by (simp add: good_def budget_ok_def s'' add_spec_rows_def publish_base_def Let_def new_workflow_def)
  ultimately show ?thesis using ok' by (simp add: good_def)
qed

lemma good_replan:
  assumes rp: "replan digest limits now wid plan base names decide_kept s = Inr (res, s')" and g: "graph_ok plan"
    and good: "good limits s"
  shows "good limits s'"
proof -
  have ok: "store_ok s" using good by (simp add: good_def)
  consider "s' = s" | w where "workflow_at s (w_id w) = Some w" "w_replans w < max_replans limits"
      "apply_replan digest now w plan (resolve_assignees plan names) decide_kept s = Inr (res, s')"
    using replan_cases [OF ok g, of digest limits now wid base names decide_kept] rp unfolding load_Inr by auto
  then show ?thesis
  proof cases
    case 1
    then show ?thesis using good by simp
  next
    case 2
    have gr: "graph_ok (resolve_assignees plan names)" using g by simp
    from decide_kept.apply_replan_ok [OF ok 2(1) gr g, of digest now] 2(3) obtain keep where
      s': "tasks s' = tasks (add_spec_rows now (w_id w) (w_job_id w) (w_plan_version w + 1)
          (new_specs keep (resolve_assignees plan names)) (after_retire now w keep s))"
        "links s' = links (add_spec_rows now (w_id w) (w_job_id w) (w_plan_version w + 1)
          (new_specs keep (resolve_assignees plan names)) (after_retire now w keep s))"
        "workflows s' = update_where (\<lambda>u. w_id u = w_id w) (replanned_row now (w_plan_version w + 1) plan) (workflows s)"
        "store_ok s'"
      by auto
    have "writing s l" if "writing s' l" for l
      using add_spec_rows_writing [OF retire_ok(1) [OF ok] retire_ok(3) [OF ok]
          s'(1) [unfolded after_retire_def] s'(2) [unfolded after_retire_def] that]
      by (rule retire_writing)
    then have "one_writer s'" using good one_writer_mono [of s s'] by (auto simp: good_def)
    moreover have "u = w" if "u \<in> set (workflows s)" "w_id u = w_id w" for u
      using find_key_unique [of w_id "workflows s" u] that ok 2(1)
      by (simp add: store_ok_def workflows_ok_def workflow_at_def)
    then have "budget_ok limits s'"
      using good 2(2) by (fastforce simp: good_def budget_ok_def s'(3) in_set_update_where replanned_row_def)
    ultimately show ?thesis using s'(4) by (simp add: good_def)
  qed
qed

lemma adopt_cases:
  assumes "adopt now wid jid reason s = Inr (paused, s')"
  shows "\<exists>w s1. workflow_at s wid = Some w \<and> wf_status_of (w_status w) \<noteq> None \<and> tame s s1 \<and> job_exists s1 jid \<and>
    s' = requeue_all now (map l_task (current_links wid s)) ''interrompida por reinicio''
      (update_workflow_row wid (adopted_row now jid reason w) s1) \<and>
    (paused \<longleftrightarrow> w_status w = wf_value WF_RUNNING)"
proof -
  from assms obtain w s1 where w: "load_workflow wid s = Inr w"
    and s1: "set_tasks_job now (map l_task (current_links wid s)) jid s = Inr s1"
    by (auto simp: adopt_def Let_def bind_res_Inr)
  have "job_exists s1 jid \<and> (paused \<longleftrightarrow> w_status w = wf_value WF_RUNNING) \<and>
    s' = requeue_all now (map l_task (current_links wid s)) ''interrompida por reinicio''
      (update_workflow_row wid (adopted_row now jid reason w) s1)"
    using assms w s1 by (auto simp: adopt_def Let_def split: if_splits)
  moreover have "tame s s1" using s1 by (rule tame_set_tasks_job)
  ultimately show ?thesis using w unfolding load_Inr by blast
qed

lemma good_adopt:
  assumes "adopt now wid jid reason s = Inr (paused, s')" and "good limits s"
  shows "good limits s'"
proof -
  from adopt_cases [OF assms(1)] obtain w s1 where c: "tame s s1" "job_exists s1 jid" "wf_status_of (w_status w) \<noteq> None"
    and s': "s' = requeue_all now (map l_task (current_links wid s)) ''interrompida por reinicio''
      (update_workflow_row wid (adopted_row now jid reason w) s1)" by blast
  have "good limits (update_workflow_row wid (adopted_row now jid reason w) s1)"
    by (rule good_update_row [OF _ good_tame [OF c(1) assms(2)]])
      (use c(2,3) in \<open>auto simp: keeps_row_def adopted_row_def Let_def\<close>)
  then show ?thesis unfolding s' by (rule good_tame [OF tame_requeue_all])
qed

section \<open>The event system\<close>

text \<open>
  One event per operation. \<open>transition_task\<close> to \<open>in_progress\<close> is used for delegated tasks only, which
  belong to no workflow. Plans are validated before they are published or applied. \<open>update_task\<close>,
  which no code of the program calls, is no event.
\<close>

inductive wf_step :: "(json \<Rightarrow> pystr) \<Rightarrow> WorkflowLimits \<Rightarrow> Store \<Rightarrow> Store \<Rightarrow> bool" for digest limits where
  claim: "wf_step digest limits s (snd (claim_task now agent job s))"
| claim_review: "wf_step digest limits s (snd (claim_review_task now agent job s))"
| complete: "wf_step digest limits s (snd (complete_task now tid res rvw notes ex e s))"
| submit: "wf_step digest limits s (snd (submit_for_review now tid res e s))"
| requeue: "wf_step digest limits s (snd (requeue_task now tid agent ropt e exclude s))"
| review_requeue: "wf_step digest limits s (snd (requeue_task_after_review now tid agent res notes e s))"
| rework: "wf_step digest limits s (snd (rework_task now tid owner reason res e mx s))"
| return: "wf_step digest limits s (snd (return_review now tid agent reason e exclude s))"
| transition: "to \<noteq> status_value PENDING \<Longrightarrow> to \<noteq> status_value IN_PROGRESS \<or> link_for_task tid s = None \<Longrightarrow>
    wf_step digest limits s (snd (transition_task now tid to res notes appr asg e es s))"
| unassign: "wf_step digest limits s (snd (unassign_pending_task now tid owner s))"
| release: "wf_step digest limits s (release_agent_tasks now agent s)"
| create: "create_task now jid n s = Inr (tid, s') \<Longrightarrow> wf_step digest limits s s'"
| publish: "validate_plan plan = Inr () \<Longrightarrow> publish digest limits now plan jid key names s = Inr (res, s') \<Longrightarrow>
    wf_step digest limits s s'"
| replan: "validate_plan plan = Inr () \<Longrightarrow>
    replan digest limits now wid plan base names decide_kept s = Inr (res, s') \<Longrightarrow> wf_step digest limits s s'"
| set_status: "set_status now wid to reason_opt froms ver cancel att result s = Inr (res, s') \<Longrightarrow>
    wf_step digest limits s s'"
| set_result: "wf_step digest limits s (snd (set_result now wid result st v only_empty s))"
| consult: "wf_step digest limits s (snd (claim_consult limits now wid att s))"
| adopt: "adopt now wid jid reason s = Inr (paused, s') \<Longrightarrow> wf_step digest limits s s'"
| orphans: "wf_step digest limits s (snd (requeue_orphans now obs reason s))"
| begin_attempt: "begin_attempt now tid attempt agent run_id s = Inr s' \<Longrightarrow> wf_step digest limits s s'"
| finish_attempt: "wf_step digest limits s (finish_attempt now tid attempt agent status handoff freason s)"

lemma good_claim: "good limits s \<Longrightarrow> good limits (snd (claim_task now agent job s))"
proof -
  assume good: "good limits s"
  obtain res s' where c: "claim_task now agent job s = (res, s')" by fastforce
  have "workflows s' = workflows s" using c by (auto simp: claim_task_def Let_def split: option.splits if_splits)
  then show ?thesis using claim_one_writer [OF _ _ c] good c by (simp add: good_def budget_ok_def)
qed

lemma good_delegate:
  assumes good: "good limits s" and free: "link_for_task tid s = None"
  shows "good limits (snd (transition_task now tid to res notes appr asg e es s))"
proof -
  let ?s = "snd (transition_task now tid to res notes appr asg e es s)"
  have fr: "task_frame s ?s" "same_ids s ?s"
    by (auto simp: task_frame_def transition_task_def Let_def transition_event_def split: option.splits)
  have eqs: "deps ?s = deps s" "links ?s = links s" "workflows ?s = workflows s"
    "workflow_seq ?s = workflow_seq s" "plans ?s = plans s" "jobs ?s = jobs s"
    using fr(1) by (simp_all add: task_frame_def)
  have some: "task_at s t \<noteq> None \<Longrightarrow> task_at ?s t \<noteq> None" for t
    by (auto simp: transition_task_def Let_def transition_event_def task_at_update_task_row split: option.splits)
  have other: "task_at ?s t = task_at s t" if "t \<noteq> tid" for t
    using that by (auto simp: transition_task_def Let_def transition_event_def task_at_update_task_row split: option.splits)
  have "l_task l \<noteq> tid" if "l \<in> set (links s)" for l
    using free that by (simp add: link_for_task_def find_None_iff_ball)
  then have "writing s l" if "writing ?s l" for l
    using that fr(1) other by (auto simp: writing_def task_frame_def)
  then have "one_writer ?s" using good one_writer_mono [of s ?s] by (auto simp: good_def)
  moreover have ids: "ids_ok ?s" using ids_ok_same [of ?s s] fr(2) good by (simp add: same_ids_def good_def store_ok_def)
  moreover have "budget_ok limits ?s" using fr(1) good by (simp add: task_frame_def good_def budget_ok_def)
  moreover have "deps_ok ?s"
    using good some unfolding good_def store_ok_def deps_ok_def edge_set_def dep_edges_def eqs by blast
  moreover have "links_ok ?s" using good some workflows_ok_tables(2) [OF eqs(3-6)]
    unfolding good_def store_ok_def links_ok_def current_keys_def eqs by simp
  moreover have "workflows_ok ?s" using good workflows_ok_tables(1) [OF eqs(3-6)]
    by (simp add: good_def store_ok_def)
  ultimately show ?thesis by (simp add: good_def store_ok_def)
qed

lemma wf_step_good:
  assumes "wf_step digest limits s s'" and "0 \<le> max_replans limits" and "0 \<le> max_consults limits"
    and good: "good limits s"
  shows "good limits s'"
  using assms(1)
proof cases
  case (transition to tid now res ntxt appr asg e es)
  then show ?thesis using good_tame [OF tame_transition_task good] good_delegate [OF good] by metis
next
  case (publish plan now jid key names res)
  then show ?thesis using good_publish [OF publish(2) _ good assms(2,3)] by (simp add: validate_plan_iff)
next
  case (replan plan now wid base names res)
  then show ?thesis using good_replan [OF replan(2) _ good] by (simp add: validate_plan_iff)
next
  case (begin_attempt now tid attempt agent run_id)
  then have "tame s s'" by (auto simp: begin_attempt_def split: if_splits)
  then show ?thesis using good by (rule good_tame)
next
  case (finish_attempt now tid attempt agent status handoff freason)
  then have "tame s s'" by (simp add: finish_attempt_def)
  then show ?thesis using good by (rule good_tame)
next
  case (orphans now obs reason)
  then show ?thesis using good_tame [OF tame_requeue_orphans good] by simp
next
  case (create now jid n tid)
  then show ?thesis using good_tame [OF tame_create good] by simp
next
  case (adopt now wid jid reason paused)
  then show ?thesis using good_adopt good by blast
next
  case (set_status now wid to reason_opt froms ver cancel att result res)
  then show ?thesis using good_set_status good by blast
qed (simp_all add: good_claim good_tame [OF tame_claim_review good] good_tame [OF tame_ops(2) good]
    good_tame [OF tame_ops(3) good] good_tame [OF tame_ops(4) good] good_tame [OF tame_ops(5) good]
    good_tame [OF tame_ops(6) good] good_tame [OF tame_ops(7) good] good_tame [OF tame_ops(8) good]
    good_tame [OF tame_ops(9) good] good_set_result good_claim_consult good)

abbreviation wf_run :: "(json \<Rightarrow> pystr) \<Rightarrow> WorkflowLimits \<Rightarrow> Store \<Rightarrow> Store \<Rightarrow> bool" where
  "wf_run digest limits \<equiv> (wf_step digest limits)\<^sup>*\<^sup>*"

lemma wf_run_good:
  "wf_run digest limits s s' \<Longrightarrow> 0 \<le> max_replans limits \<Longrightarrow> 0 \<le> max_consults limits \<Longrightarrow> good limits s \<Longrightarrow> good limits s'"
  by (induction rule: rtranclp_induct) (auto dest: wf_step_good)

end
