(* ===== verification/Workflow_Refinement.thy ===== *)
theory Workflow_Refinement
  imports Workflow_Runs
begin

text \<open>
  The workflow repository refines the task table's step relation: whatever a workflow operation
  does to tasks is a run of guarded task operations. So the guarantees proved for runs of the task
  repository (fencing by attempt, outcomes that are final, failed agents that stay excluded) hold
  across publishing, replanning, cancelling, adoption and recovery.
\<close>

section \<open>Runs made of single steps\<close>

lemma run_other: "tasks s' = tasks s \<Longrightarrow> task_seq s' = task_seq s \<Longrightarrow> any_run s s'"
  using r_into_rtranclp [of any_step s s'] task_step.other_tables [of s' s] by blast

lemma run_step: "task_step None s s' \<Longrightarrow> any_run s s'"
  by blast

lemma run_then_other: "any_run s t \<Longrightarrow> tasks u = tasks t \<Longrightarrow> task_seq u = task_seq t \<Longrightarrow> any_run s u"
  using rtranclp_trans [OF _ run_other] .

lemma snd_transition_tasks_Cons: "snd (transition_tasks now (t # ts) st reason s) =
    snd (transition_tasks now ts st reason (snd (transition_tasks now [t] st reason s)))"
  by (cases "task_at s t") (simp_all add: split_beta Let_def)

lemma transition_tasks_run: "st \<noteq> PENDING \<Longrightarrow> any_run s (snd (transition_tasks now tids st reason s))"
proof (induction tids arbitrary: s)
  case (Cons t tids)
  have "any_run s (snd (transition_tasks now [t] st reason s))"
    by (rule run_step) (rule task_step.transition_one [OF Cons.prems])
  from rtranclp_trans [OF this Cons.IH [OF Cons.prems]] show ?case
    by (subst snd_transition_tasks_Cons)
qed simp

lemma set_tasks_job_Cons: "set_tasks_job now (t # ts) jid s = Inr s' \<Longrightarrow>
    \<exists>s1. set_tasks_job now [t] jid s = Inr s1 \<and> set_tasks_job now ts jid s1 = Inr s'"
  by (auto split: if_splits)

lemma set_tasks_job_run: "set_tasks_job now tids jid s = Inr s' \<Longrightarrow> any_run s s'"
proof (induction tids arbitrary: s)
  case (Cons t tids)
  from set_tasks_job_Cons [OF Cons.prems] obtain s1 where "set_tasks_job now [t] jid s = Inr s1"
    and rest: "set_tasks_job now tids jid s1 = Inr s'" by blast
  then have "any_run s s1" by (blast intro: task_step.set_job)
  with Cons.IH [OF rest] show ?case by (meson rtranclp_trans)
qed simp

lemma insert_specs_run: "insert_specs now wid jid v sps s = Inr (created, s') \<Longrightarrow> any_run s s'"
proof (induction sps arbitrary: s created)
  case (Cons sp sps)
  then obtain tid s1 s2 c where ins: "insert_task now jid (new_task_of_spec wid v sp) s = Inr (tid, s1)"
    and link: "insert_link wid (spec_id sp) tid v (ws_writes sp) (ws_evidence sp) s1 = Inr s2"
    and rest: "insert_specs now wid jid v sps s2 = Inr (c, s')"
    by (auto simp: bind_res_Inr)
  have "any_run s s1" using ins by (blast intro: task_step.insert)
  moreover have "tasks s2 = tasks s1" "task_seq s2 = task_seq s1"
    using link by (auto simp: insert_link_def split: if_splits)
  ultimately have "any_run s s2" by (rule run_then_other)
  with Cons.IH [OF rest] show ?case by (meson rtranclp_trans)
qed simp

lemma insert_dependency_tasks: "insert_task_dependency now t d s = Inr (b, s') \<Longrightarrow>
    tasks s' = tasks s \<and> task_seq s' = task_seq s"
  by (auto simp: insert_task_dependency_def split: if_splits)

lemma link_deps_tasks: "link_deps now tid by_item ds s = Inr s' \<Longrightarrow> tasks s' = tasks s \<and> task_seq s' = task_seq s"
proof (induction ds arbitrary: s)
  case (Cons d ds)
  then obtain dep b s1 where "insert_task_dependency now tid dep s = Inr (b, s1)"
    "link_deps now tid by_item ds s1 = Inr s'" by (auto simp: bind_res_Inr)
  with Cons.IH insert_dependency_tasks show ?case by metis
qed simp

lemma link_specs_tasks: "link_specs now c by_item sps s = Inr s' \<Longrightarrow> tasks s' = tasks s \<and> task_seq s' = task_seq s"
proof (induction sps arbitrary: s)
  case (Cons sp sps)
  then obtain tid s1 where "link_deps now tid by_item (wi_dependencies (ws_item sp)) s = Inr s1"
    "link_specs now c by_item sps s1 = Inr s'" by (auto simp: bind_res_Inr)
  with Cons.IH link_deps_tasks show ?case by metis
qed simp

lemma create_tasks_run:
  assumes "create_tasks now wid jid v sps existing s = Inr (created, s')" shows "any_run s s'"
proof -
  from assms obtain s1 where ins: "insert_specs now wid jid v sps s = Inr (created, s1)"
    and link: "link_specs now created (created @ existing) sps s1 = Inr s'"
    by (auto simp: create_tasks_def bind_res_Inr)
  have "tasks s' = tasks s1" "task_seq s' = task_seq s1" using link_specs_tasks [OF link] by auto
  with insert_specs_run [OF ins] show ?thesis by (rule run_then_other)
qed

lemma requeue_and_close_run: "any_run s (snd (requeue_and_close now tid reason obs s))"
proof -
  have "any_run s (snd (requeue_interrupted now tid reason obs s))"
    by (rule run_step) (rule task_step.requeue_lost)
  then show ?thesis
    by (rule run_then_other) (auto simp: requeue_and_close_def Let_def split: prod.splits)
qed

lemma requeue_all_run: "any_run s (requeue_all now ids reason s)"
proof (induction ids arbitrary: s)
  case (Cons t ids)
  show ?case using rtranclp_trans [OF requeue_and_close_run Cons.IH] by simp
qed simp

lemma requeue_orphans_run: "any_run s (snd (requeue_orphans now obs reason s))"
proof (induction now obs reason s rule: requeue_orphans.induct)
  case (2 now tid seen obs reason s)
  obtain d s1 where d: "requeue_and_close now tid reason (Some seen) s = (d, s1)" by fastforce
  with requeue_and_close_run [of s now tid reason "Some seen"] have "any_run s s1" by simp
  moreover have "any_run s1 (snd (requeue_orphans now obs reason s1))" using "2.IH" d by simp
  ultimately have "any_run s (snd (requeue_orphans now obs reason s1))" by (rule rtranclp_trans)
  then show ?case using d by (simp add: split_beta)
qed simp

section \<open>The workflow operations\<close>

lemma retire_run: "any_run s (retire now v tids reason s)"
proof -
  have "any_run s (snd (transition_tasks now tids CANCELLED (Some reason) s))"
    by (rule transition_tasks_run) simp
  then show ?thesis by (rule run_then_other) (auto simp: retire_def split: prod.splits)
qed

lemma publish_run:
  assumes "publish digest limits now plan jid key names s = Inr (res, s')" shows "any_run s s'"
proof (cases "find (\<lambda>w. w_publication_key w = key) (workflows s)")
  case (Some row)
  then show ?thesis using assms by (auto simp: publish_def Let_def bind_res_Inr)
next
  case None
  with assms obtain s1 s2 c where
    "insert_plan_version digest now (workflow_seq s + 1) 1 plan
       (s\<lparr>workflows := workflows s @ [new_workflow now (workflow_seq s + 1) jid key plan],
          workflow_seq := workflow_seq s + 1\<rparr>) = Inr s2"
    "create_tasks now (workflow_seq s + 1) jid 1 (pl_tasks (resolve_assignees plan names)) [] s2 = Inr (c, s')"
    by (auto simp: publish_def Let_def bind_res_Inr split: if_splits)
  moreover from this(1) have "any_run s s2"
    by (intro run_other) (auto simp: insert_plan_version_def split: if_splits)
  ultimately show ?thesis using create_tasks_run by (meson rtranclp_trans)
qed

lemma apply_replan_run:
  assumes "apply_replan digest now w plan resolved decide s = Inr (res, s')" shows "any_run s s'"
proof -
  from assms obtain keep v wid rt reason c s3 s4 sps ex where
    "create_tasks now wid (w_job_id w) v sps ex (retire now v rt reason s) = Inr (c, s3)"
    and plan: "insert_plan_version digest now wid v plan s3 = Inr s4"
    and s': "s' = update_workflow_row wid (replanned_row now v plan) s4"
    unfolding apply_replan_def Let_def bind_res_Inr by (auto simp: bind_res_Inr split: option.splits)
  then have "any_run s s3" using retire_run create_tasks_run by (meson rtranclp_trans)
  then show ?thesis by (rule run_then_other)
    (use plan s' in \<open>auto simp: insert_plan_version_def split: if_splits\<close>)
qed

lemma replan_run:
  assumes "replan digest limits now wid plan base names decide s = Inr (res, s')" shows "any_run s s'"
proof -
  have "s' = s \<or> (\<exists>w resolved. apply_replan digest now w plan resolved decide s = Inr (res, s'))"
    using assms by (auto simp: replan_def Let_def bind_res_Inr split: option.splits if_splits)
  then show ?thesis using apply_replan_run by blast
qed

lemma set_status_run:
  assumes "set_status now wid to reason froms ver cancel att result s = Inr (res, s')" shows "any_run s s'"
proof -
  have cc: "any_run s s1" if "cancel_current now wid r s = Inr (ids, s1)" for ids s1 r
  proof -
    obtain ch s2 where t: "transition_tasks now (map l_task (current_links wid s)) CANCELLED (Some r) s = (ch, s2)"
      by fastforce
    then have "any_run s s2" using transition_tasks_run [of CANCELLED s now "map l_task (current_links wid s)" "Some r"] by simp
    then show ?thesis by (rule run_then_other)
      (use that t in \<open>auto simp: cancel_current_def Let_def bind_res_Inr\<close>)
  qed
  have "s' = s \<or> (\<exists>ids s1. any_run s s1 \<and> s' = update_workflow_row wid (status_row now to reason att result) s1)"
    using assms cc by (auto simp: set_status_def bind_res_Inr Let_def split: if_splits)
  then show ?thesis using run_then_other by fastforce
qed

lemma adopt_run:
  assumes "adopt now wid jid reason s = Inr (paused, s')" shows "any_run s s'"
proof -
  let ?ids = "map l_task (current_links wid s)"
  from assms obtain w s1 where s1: "set_tasks_job now ?ids jid s = Inr s1"
    and s': "s' = requeue_all now ?ids ''interrompida por reinicio'' (update_workflow_row wid (adopted_row now jid reason w) s1)"
    by (auto simp: adopt_def Let_def bind_res_Inr split: if_splits)
  have "any_run s (update_workflow_row wid (adopted_row now jid reason w) s1)"
    using set_tasks_job_run [OF s1] by (rule run_then_other) simp_all
  with requeue_all_run show ?thesis unfolding s' by (meson rtranclp_trans)
qed

lemma wf_step_run:
  assumes "wf_step digest limits s s'" shows "any_run s s'"
  using assms
proof cases
  case (rework now tid owner reason res e mx)
  then show ?thesis using task_step.rework by blast
next
  case (transition to tid now res ntxt appr asg e es)
  then show ?thesis using task_step.transition by blast
next
  case (create now jid n tid)
  then show ?thesis using task_step.create by blast
next
  case (publish plan now jid key names res)
  then show ?thesis using publish_run by blast
next
  case (replan plan now wid base names res)
  then show ?thesis using replan_run by blast
next
  case (set_status now wid to reason_opt froms ver cancel att result res)
  then show ?thesis using set_status_run by blast
next
  case (adopt now wid jid reason paused)
  then show ?thesis using adopt_run by blast
next
  case (begin_attempt now tid attempt agent run_id)
  then show ?thesis by (intro run_other) (auto simp: begin_attempt_def split: if_splits)
next
  case finish_attempt
  then show ?thesis by (intro run_other) (auto simp: finish_attempt_def)
next
  case set_result
  then show ?thesis by (intro run_other) (auto simp: set_result_def Let_def)
next
  case consult
  then show ?thesis by (intro run_other) (auto simp: claim_consult_def Let_def)
next
  case orphans
  then show ?thesis using requeue_orphans_run by blast
qed (blast intro: task_step.intros)+

lemma wf_run_any: "wf_run digest limits s s' \<Longrightarrow> any_run s s'"
proof (induction rule: rtranclp_induct)
  case (step t u)
  then show ?case using wf_step_run by (meson rtranclp_trans)
qed simp

end
