(* ===== verification/Workflow_Guarantees.thy ===== *)
theory Workflow_Guarantees
  imports Workflow_Refinement
begin

text \<open>
  What the coordinator and the executors rely on when they use the workflow repository: publication
  is total, atomic and idempotent; replanning preserves what is still valid and nothing else; at
  most one writing task runs; a cancelled or adopted workflow leaves nothing running; the outcome of
  an attempt is final.
\<close>

section \<open>A sample database\<close>

definition sample_digest :: "json \<Rightarrow> pystr" where
  "sample_digest j = (case j of JObj kvs \<Rightarrow> show_nat (length kvs) @ (case obj_get kvs ''tasks'' of
     JList ts \<Rightarrow> show_nat (length ts) | _ \<Rightarrow> []) | _ \<Rightarrow> [])"

definition job_store :: Store where
  "job_store = snd (add_job ''t0'' ''job'' None None empty_store)"

definition sample_publish :: "store_error + ((WorkflowRow \<times> bool) \<times> Store)" where
  "sample_publish = publish sample_digest default_limits ''t1'' sample_plan 1 ''k'' [''claude'', ''codex''] job_store"

definition published_store :: Store where
  "published_store = res_store sample_publish"

lemma job_store_ok: "good default_limits job_store"
proof -
  have "tasks job_store = []" "deps job_store = []" "links job_store = []" "workflows job_store = []" "plans job_store = []"
    by (simp_all add: job_store_def add_job_def empty_store_def Let_def)
  moreover have "acyclic ({} :: (int \<times> int) set)" by (simp add: acyclic_def)
  ultimately show ?thesis
    by (simp add: good_def store_ok_def ids_ok_def deps_ok_def edge_set_def dep_edges_def links_ok_def
        current_keys_def workflows_ok_def one_writer_def writing_def budget_ok_def)
qed

lemma sample_plan_valid: "validate_plan sample_plan = Inr ()"
  by code_simp

lemma res_store_eq: "map_sum id fst r = Inr x \<Longrightarrow> r = Inr (x, res_store r)"
  by (cases r) (auto simp: res_store_def)

lemma sample_publish_eq: "sample_publish = Inr ((new_workflow ''t1'' 1 1 ''k'' sample_plan, True), published_store)"
proof -
  have "map_sum id fst sample_publish = Inr (new_workflow ''t1'' 1 1 ''k'' sample_plan, True)" by code_simp
  then show ?thesis unfolding published_store_def by (rule res_store_eq)
qed

lemma published_step: "wf_step sample_digest default_limits job_store published_store"
  using wf_step.publish [OF sample_plan_valid] sample_publish_eq unfolding sample_publish_def by blast

lemma default_positive: "0 \<le> max_replans default_limits \<and> 0 \<le> max_consults default_limits"
  by (simp add: default_limits_def)

lemma published_good: "good default_limits published_store"
  using wf_step_good [OF published_step _ _ job_store_ok] default_positive by simp

section \<open>Publication\<close>

text \<open>The links a publication adds are the current links of the new workflow, in the plan's order.\<close>

lemma spec_links_items: "map l_item (spec_links wid version lid tid sps) = map spec_id sps"
  by (induction sps arbitrary: lid tid) auto

lemma spec_links_current:
  "filter (\<lambda>l. l_workflow l = wid \<and> l_superseded_in l = None) (spec_links wid version lid tid sps) =
     spec_links wid version lid tid sps"
  by (induction sps arbitrary: lid tid) auto

lemma links_of_known_workflow:
  assumes "store_ok s" and "l \<in> set (links s)"
  shows "l_workflow l \<noteq> workflow_seq s + 1"
proof
  assume l: "l_workflow l = workflow_seq s + 1"
  have "workflow_at s (l_workflow l) \<noteq> None" using assms unfolding store_ok_def links_ok_def by blast
  then obtain w where "workflow_at s (workflow_seq s + 1) = Some w" by (auto simp: l)
  then have "w \<in> set (workflows s)" "w_id w = workflow_seq s + 1" using workflow_at_SomeD by blast+
  then show False using assms(1) unfolding store_ok_def workflows_ok_def by fastforce
qed

lemma published_links:
  assumes "store_ok s"
  shows "current_links (workflow_seq s + 1)
      ((add_spec_rows now (workflow_seq s + 1) jid 1 sps (publish_base digest now plan jid key s))\<lparr>deps := ds\<rparr>) =
    spec_links (workflow_seq s + 1) 1 (link_seq s + 1) (task_seq s + 1) sps"
proof -
  have "filter (\<lambda>l. l_workflow l = workflow_seq s + 1 \<and> l_superseded_in l = None) (links s) = []"
    unfolding filter_empty_conv using links_of_known_workflow [OF assms] by blast
  then show ?thesis
    by (simp add: current_links_def add_spec_rows_def publish_base_def Let_def spec_links_current)
qed

text \<open>
  C6. Publishing a validated plan never fails half way: if the job exists, the key is new and the
  limit of open workflows is not reached, \<open>publish\<close> returns the new workflow, \<open>ready\<close> at version 1;
  every item of the plan has exactly one current task, pending; the rows that existed are unchanged;
  no executor can claim one of the new tasks before the workflow is started.
\<close>

theorem publish_valid_plan:
  assumes "store_ok s" and "validate_plan plan = Inr ()" and "job_exists s jid"
    and "find (\<lambda>w. w_publication_key w = key) (workflows s) = None"
    and "open_count jid s < max_open_workflows limits"
  shows "\<exists>w s'. publish digest limits now plan jid key agents s = Inr ((w, True), s') \<and> store_ok s' \<and>
    w_status w = wf_value WF_READY \<and> w_plan_version w = 1 \<and> w_id w = workflow_seq s + 1 \<and>
    map l_item (current_links (w_id w) s') = map spec_id (pl_tasks plan) \<and>
    (\<forall>t r. task_at s t = Some r \<longrightarrow> task_at s' t = Some r) \<and>
    (\<forall>l \<in> set (current_links (w_id w) s'). \<exists>r. task_at s' (l_task l) = Some r \<and>
       t_status r = status_value PENDING \<and> task_at s (l_task l) = None \<and>
       (\<forall>name job. \<not> claimable s' name job r))"
proof -
  let ?wid = "workflow_seq s + 1" and ?sps = "pl_tasks (resolve_assignees plan agents)"
  let ?b = "publish_base digest now plan jid key s"
  have g: "graph_ok plan" using assms(2) by (simp add: validate_plan_iff)
  from publish_succeeds [OF assms(1) g assms(3,4,5), of digest now agents] obtain s' where
    pub: "publish digest limits now plan jid key agents s = Inr ((new_workflow now ?wid jid key plan, True), s')"
    and s': "s' = (add_spec_rows now ?wid jid 1 ?sps ?b)\<lparr>deps := deps s'\<rparr>" and ok: "store_ok s'"
    by blast
  obtain ds where s'': "s' = (add_spec_rows now ?wid jid 1 ?sps ?b)\<lparr>deps := ds\<rparr>" using s' by blast
  note b = publish_base_ok [OF assms(1) g assms(3), of digest now key]
  have base: "task_at ?b t = task_at s t" "task_seq ?b = task_seq s" "links ?b = links s" for t
    by (simp_all add: publish_base_def Let_def task_at_def)
  have cur: "current_links ?wid s' = spec_links ?wid 1 (link_seq s + 1) (task_seq s + 1) ?sps"
    unfolding s'' by (rule published_links [OF assms(1)])
  have old: "task_at s' t = Some r" if "task_at s t = Some r" for t r
    using task_at_add_old [of ?b t r now ?wid jid 1 ?sps] that by (simp add: s'' base)
  have wat: "workflow_at s' ?wid = Some (new_workflow now ?wid jid key plan)"
    using b(5) [of ?wid] by (simp add: s'' add_spec_rows_def workflow_at_def)
  have link: "\<exists>r. task_at s' (l_task l) = Some r \<and> t_status r = status_value PENDING \<and> task_at s (l_task l) = None \<and>
       (\<forall>name job. \<not> claimable s' name job r)" if l: "l \<in> set (current_links ?wid s')" for l
  proof -
    have lin: "l \<in> set (links s')" "l_workflow l = ?wid" using l by (auto simp: current_links_def)
    obtain r where r: "task_at s' (l_task l) = Some r"
      using ok lin(1) unfolding store_ok_def links_ok_def by blast
    have new: "task_seq s + 1 \<le> l_task l" using l cur spec_links_fresh by metis
    then have none: "task_at s (l_task l) = None"
      using old_id_bound [of s "l_task l"] assms(1) unfolding store_ok_def by fastforce
    have "r \<in> set (spec_rows now ?wid jid 1 (task_seq s + 1) ?sps)"
      using task_at_SomeD [OF r] none
      by (auto simp: s'' add_spec_rows_def publish_base_def Let_def task_at_def find_None_iff_ball)
    then have "t_status r = status_value PENDING" by (rule spec_rows_pending)
    moreover have "\<not> claimable s' name job r" for name job
      by (rule gate_closed [OF lin(1) _ wat [folded lin(2)]])
        (use task_at_SomeD [OF r] in \<open>simp_all add: new_workflow_def\<close>)
    ultimately show ?thesis using r none by blast
  qed
  show ?thesis
    using pub ok cur spec_links_items old link
    by (intro exI [of _ "new_workflow now ?wid jid key plan"] exI [of _ s']) (simp add: new_workflow_def comp_def)
qed

theorem publish_valid_plan_witness:
  "\<exists>w s'. sample_publish = Inr ((w, True), s') \<and> w_status w = wf_value WF_READY \<and>
     map l_item (current_links (w_id w) s') = [''A'', ''B'']"
proof -
  have ids: "map spec_id (pl_tasks sample_plan) = [''A'', ''B'']" by code_simp
  have "store_ok job_store" using job_store_ok by (simp add: good_def)
  moreover have "job_exists job_store 1" by code_simp
  moreover have "find (\<lambda>w. w_publication_key w = ''k'') (workflows job_store) = None" by code_simp
  moreover have "open_count 1 job_store < max_open_workflows default_limits" by code_simp
  ultimately obtain w s' where "sample_publish = Inr ((w, True), s')" "w_status w = wf_value WF_READY"
    "map l_item (current_links (w_id w) s') = map spec_id (pl_tasks sample_plan)"
    using publish_valid_plan [OF _ sample_plan_valid, of job_store 1 "''k''" default_limits sample_digest "''t1''" "[''claude'', ''codex'']"]
    unfolding sample_publish_def by blast
  then show ?thesis unfolding ids by (intro exI conjI)
qed

text \<open>
  Publication is idempotent by its key: publishing again with the same key, whatever the plan,
  the job or the clock, returns the same workflow and changes nothing.
\<close>

theorem publish_idempotent:
  assumes "store_ok s" and "validate_plan plan = Inr ()"
    and "publish digest limits now plan jid key agents s = Inr ((w, created), s1)"
  shows "publish digest' limits' now' plan' jid' key agents' s1 = Inr ((w, False), s1)"
proof (cases "find (\<lambda>w. w_publication_key w = key) (workflows s)")
  case (Some row)
  then have "load_workflow (w_id row) s = Inr w" "s1 = s"
    using assms(3) by (auto simp: publish_def Let_def bind_res_Inr)
  with Some show ?thesis by (simp add: publish_def Let_def)
next
  case None
  let ?w = "new_workflow now (workflow_seq s + 1) jid key plan"
  have room: "job_exists s jid" "open_count jid s < max_open_workflows limits"
    using assms(3) None by (auto simp: publish_def Let_def split: if_splits)
  have g: "graph_ok plan" using assms(2) by (simp add: validate_plan_iff)
  from publish_succeeds [OF assms(1) g room(1) None room(2), of digest now agents] assms(3)
  have w: "w = ?w" and s1: "s1 = (add_spec_rows now (workflow_seq s + 1) jid 1 (pl_tasks (resolve_assignees plan agents))
      (publish_base digest now plan jid key s))\<lparr>deps := deps s1\<rparr>"
    by auto
  obtain ds where s1': "s1 = (add_spec_rows now (workflow_seq s + 1) jid 1 (pl_tasks (resolve_assignees plan agents))
      (publish_base digest now plan jid key s))\<lparr>deps := ds\<rparr>" using s1 by blast
  have "workflow_at s1 (workflow_seq s + 1) = Some ?w"
    using publish_base_ok(5) [OF assms(1) g room(1), of digest now key "workflow_seq s + 1"]
    by (simp add: s1' add_spec_rows_def workflow_at_def)
  then have "load_workflow (w_id ?w) s1 = Inr ?w" by (simp add: load_Inr new_workflow_def)
  moreover have "find (\<lambda>w. w_publication_key w = key) (workflows s1) = Some ?w"
    using None by (simp add: s1' add_spec_rows_def publish_base_def Let_def find_append new_workflow_def)
  ultimately show ?thesis by (simp add: publish_def Let_def w)
qed

theorem publish_idempotent_witness:
  "publish sample_digest default_limits ''t9'' sample_plan 1 ''k'' [] published_store =
    Inr ((new_workflow ''t1'' 1 1 ''k'' sample_plan, False), published_store)"
proof (rule publish_idempotent [OF _ sample_plan_valid])
  show "store_ok job_store" using job_store_ok by (simp add: good_def)
  show "publish sample_digest default_limits ''t1'' sample_plan 1 ''k'' [''claude'', ''codex''] job_store =
      Inr ((new_workflow ''t1'' 1 1 ''k'' sample_plan, True), published_store)"
    using sample_publish_eq unfolding sample_publish_def .
qed

section \<open>Replanning\<close>

lemma superseded_not_claimable:
  assumes "links_ok s" and "l \<in> set (links s)" and "l_task l = t_id c" and "l_superseded_in l \<noteq> None"
  shows "\<not> claimable s agent job c" and "\<not> review_claimable s agent job c"
proof -
  obtain w where "workflow_at s (l_workflow l) = Some w" using assms(1,2) unfolding links_ok_def by blast
  then have "w \<in> set (workflows s)" "w_id w = l_workflow l" using workflow_at_SomeD by blast+
  with assms show "\<not> claimable s agent job c" "\<not> review_claimable s agent job c"
    unfolding claimable_def review_claimable_def exec_claim_gate_def review_claim_gate_def list_ex_iff by metis+
qed

lemma current_after_replan:
  assumes lok: "links_ok s" and links: "links s' = links (add_spec_rows now (w_id w) jid v sps (after_retire now w keep s))"
  shows "set (map l_item (current_links (w_id w) s')) =
    set (map l_item (kept_links (w_id w) keep s)) \<union> set (map spec_id sps)"
proof -
  let ?wid = "w_id w" and ?rt = "set (map l_task (retired_links (w_id w) keep s))"
  have items: "l_item ` set (spec_links ?wid v lid tid sps) = spec_id ` set sps"
    "\<forall>l \<in> set (spec_links ?wid v lid tid sps). l_workflow l = ?wid \<and> l_superseded_in l = None" for lid tid
    by (induction sps arbitrary: lid tid) auto
  have kept: "l \<in> set (links s) \<and> l_task l \<notin> ?rt \<and> l_workflow l = ?wid \<and> l_superseded_in l = None \<longleftrightarrow>
      l \<in> set (kept_links ?wid keep s)" for l
  proof
    assume l: "l \<in> set (kept_links ?wid keep s)"
    have "l_task l \<noteq> l_task l'" if "l' \<in> set (retired_links ?wid keep s)" for l'
    proof
      assume "l_task l = l_task l'"
      moreover have "l \<in> set (links s)" "l' \<in> set (links s)"
        using l that current_links_sub by (auto simp: kept_links_def retired_links_def)
      ultimately have "l = l'" using lok by (auto simp: links_ok_def distinct_map inj_on_def)
      with l that show False by (simp add: kept_links_def retired_links_def)
    qed
    with l show "l \<in> set (links s) \<and> l_task l \<notin> ?rt \<and> l_workflow l = ?wid \<and> l_superseded_in l = None"
      by (auto simp: kept_links_def current_links_def)
  qed (auto simp: kept_links_def retired_links_def current_links_def)
  have old: "l \<in> set (links (after_retire now w keep s)) \<and> l_superseded_in l = None \<longleftrightarrow>
      l \<in> set (links s) \<and> l_superseded_in l = None \<and> l_task l \<notin> ?rt" for l
  proof -
    have "set (filter (\<lambda>l. l_superseded_in l = None) (links (after_retire now w keep s))) =
        {l \<in> set (links s). l_superseded_in l = None \<and> l_task l \<notin> ?rt}"
      by (auto simp: after_retire_def retire_effect(8) supersede_def filter_update_where_sub)
    then show ?thesis by auto
  qed
  let ?new = "spec_links ?wid v (link_seq (after_retire now w keep s) + 1) (task_seq (after_retire now w keep s) + 1) sps"
  have "l \<in> set (current_links ?wid s') \<longleftrightarrow> l \<in> set (kept_links ?wid keep s) \<or> l \<in> set ?new" for l
    using kept [of l] old [of l] items(2) by (auto simp: current_links_def links add_spec_rows_def)
  then have "set (current_links ?wid s') = set (kept_links ?wid keep s) \<union> set ?new" by blast
  then show ?thesis using items(1) by (simp add: image_Un)
qed

lemma link_by_task: "links_ok s \<Longrightarrow> l \<in> set (links s) \<Longrightarrow> l' \<in> set (links s) \<Longrightarrow> l_task l = l_task l' \<Longrightarrow> l = l'"
  by (auto simp: links_ok_def distinct_map inj_on_def)

lemma kept_retired_disjoint:
  assumes "links_ok s"
  shows "l_task ` set (kept_links wid keep s) \<inter> l_task ` set (retired_links wid keep s) = {}"
proof (rule ccontr)
  assume "\<not> ?thesis"
  then obtain l l' where ll: "l \<in> set (kept_links wid keep s)" "l' \<in> set (retired_links wid keep s)"
    "l_task l = l_task l'" by auto
  then have "l \<in> set (links s)" "l' \<in> set (links s)"
    using current_links_sub by (auto simp: kept_links_def retired_links_def)
  with ll(3) have "l = l'" using link_by_task [OF assms] by blast
  with ll show False by (simp add: kept_links_def retired_links_def)
qed

lemma retired_superseded:
  assumes links: "links s' = links (add_spec_rows now (w_id w) jid v sps (after_retire now w keep s))"
    and t: "t \<in> l_task ` set (retired_links (w_id w) keep s)"
  shows "\<exists>l \<in> set (links s'). l_task l = t \<and> l_superseded_in l = Some (w_plan_version w + 1)"
proof -
  from t obtain l0 where l0: "l0 \<in> set (links s)" "l_task l0 = t"
    using current_links_sub by (auto simp: retired_links_def)
  then have "l0\<lparr>l_superseded_in := Some (w_plan_version w + 1)\<rparr> \<in> set (links s')"
    using t by (auto simp: links add_spec_rows_def after_retire_def retire_effect(8) supersede_def
        in_set_update_where intro!: bexI [of _ l0])
  with l0(2) show ?thesis by (intro bexI) auto
qed

lemma unretired_link:
  assumes "links s' = links (add_spec_rows now (w_id w) jid v sps (after_retire now w keep s))"
    and "l \<in> set (links s)" and "l_task l \<notin> l_task ` set (retired_links (w_id w) keep s)"
  shows "l \<in> set (links s')"
  using assms by (auto simp: add_spec_rows_def after_retire_def retire_effect(8) supersede_def in_set_update_where
      intro!: bexI [of _ l])

text \<open>A replan of one workflow leaves the current links of the others alone.\<close>

lemma retire_other_links:
  assumes lok: "links_ok s" and other: "wid \<noteq> w_id w"
  shows "filter (\<lambda>l. l_workflow l = wid \<and> l_superseded_in l = None) (links (after_retire now w keep s)) =
    current_links wid s"
proof -
  let ?rt = "set (map l_task (retired_links (w_id w) keep s))"
  have mine: "l_workflow l = w_id w" if l: "l \<in> set (links s)" "l_task l \<in> ?rt" for l
  proof -
    from l(2) obtain l' where l': "l' \<in> set (retired_links (w_id w) keep s)" "l_task l' = l_task l" by auto
    then have "l' \<in> set (links s)" "l_workflow l' = w_id w" by (auto simp: retired_links_def current_links_def)
    with link_by_task [OF lok _ l(1), of l'] l'(2) show ?thesis by simp
  qed
  have "filter (\<lambda>l. l_workflow l = wid \<and> l_superseded_in l = None) (links (after_retire now w keep s)) =
      filter (\<lambda>l. (l_workflow l = wid \<and> l_superseded_in l = None) \<and> l_task l \<notin> ?rt) (links s)"
    by (simp add: after_retire_def retire_effect(8) supersede_def filter_update_where_sub)
  also have "\<dots> = current_links wid s"
    unfolding current_links_def by (rule filter_cong) (use mine other in auto)
  finally show ?thesis .
qed

lemma other_workflow_links:
  assumes "links_ok s" and "wid \<noteq> w_id w"
    and "links s' = links (add_spec_rows now (w_id w) jid v sps (after_retire now w keep s))"
  shows "current_links wid s' = current_links wid s"
proof -
  have "filter (\<lambda>l. l_workflow l = wid \<and> l_superseded_in l = None) (spec_links (w_id w) v lid tid sps) = []" for lid tid
    using assms(2) by (induction sps arbitrary: lid tid) auto
  with retire_other_links [OF assms(1,2), of now keep] show ?thesis
    by (simp add: current_links_def assms(3) add_spec_rows_def)
qed

lemma other_workflow_rows:
  assumes "workflows s' = update_where (\<lambda>u. w_id u = w_id w) (replanned_row now v plan) (workflows s)"
  shows "workflow_at s' i = (if i = w_id w then map_option (replanned_row now v plan) (workflow_at s i) else workflow_at s i)"
  using find_key_update [of w_id "replanned_row now v plan" i "w_id w" "workflows s"]
  by (simp add: workflow_at_def assms replanned_row_def)

lemma unretired_kept:
  assumes "task_at s t = Some r" and "t \<notin> l_task ` set (retired_links (w_id w) keep s)"
    and "tasks s' = tasks (add_spec_rows now (w_id w) jid v sps (after_retire now w keep s))"
  shows "task_at s' t = Some r"
proof -
  have "task_at (after_retire now w keep s) t = Some r"
    using assms(1,2) by (simp add: after_retire_def retire_effect(1))
  then have "task_at (add_spec_rows now (w_id w) jid v sps (after_retire now w keep s)) t = Some r"
    by (rule task_at_add_old)
  then show ?thesis by (simp add: task_at_def assms(3))
qed

text \<open>What holds after a version was applied.\<close>

definition version_applied :: "WorkflowPlan \<Rightarrow> Store \<Rightarrow> ReplanResult \<Rightarrow> Store \<Rightarrow> bool" where
  "version_applied plan s res s' \<longleftrightarrow> store_ok s' \<and>
     set (map l_item (current_links (w_id (rp_workflow res)) s')) = set (map spec_id (pl_tasks plan)) \<and>
     (\<forall>t \<in> set (rp_created res). task_at s t = None) \<and>
     (\<forall>t r. task_at s t = Some r \<and> t \<notin> set (rp_retired res) \<longrightarrow> task_at s' t = Some r) \<and>
     set (rp_kept res) \<inter> set (rp_retired res) = {} \<and>
     set (rp_kept res) \<union> set (rp_retired res) = l_task ` set (current_links (w_id (rp_workflow res)) s) \<and>
     (\<forall>l \<in> set (links s). l_task l \<notin> set (rp_retired res) \<longrightarrow> l \<in> set (links s')) \<and>
     (\<forall>t \<in> set (rp_retired res). \<exists>l \<in> set (links s'). l_task l = t \<and> l_superseded_in l = Some (w_plan_version (rp_workflow res))) \<and>
     (\<forall>wid. wid \<noteq> w_id (rp_workflow res) \<longrightarrow> workflow_at s' wid = workflow_at s wid \<and> current_links wid s' = current_links wid s)"

lemma apply_replan_version:
  assumes ok: "store_ok s" and w: "workflow_at s (w_id w) = Some w" and g: "graph_ok plan"
  shows "\<exists>res s'. apply_replan digest now w plan (resolve_assignees plan names) decide_kept s = Inr (res, s') \<and>
    rp_applied res \<and> rp_workflow res = replanned_row now (w_plan_version w + 1) plan w \<and> version_applied plan s res s'"
proof -
  let ?p = "resolve_assignees plan names"
  have gr: "graph_ok ?p" using g by simp
  have lok: "links_ok s" and ids: "ids_ok s" using ok by (simp_all add: store_ok_def)
  from decide_kept.apply_replan_ok [OF ok w gr g, of digest now] obtain old :: WorkflowPlan and keep s' where
    dec: "decide_kept (entries s (rev (map (\<lambda>sp. (spec_id sp, sp)) (pl_tasks old))) (current_links (w_id w) s)) ?p = Some keep"
    and run: "apply_replan digest now w plan ?p decide_kept s = Inr (\<lparr>
      rp_workflow = replanned_row now (w_plan_version w + 1) plan w, rp_applied = True,
      rp_kept = map l_task (kept_links (w_id w) keep s),
      rp_created = map snd (spec_ids (task_seq s + 1) (new_specs keep ?p)),
      rp_retired = map l_task (retired_links (w_id w) keep s),
      rp_to_interrupt = filter (\<lambda>t. in_flight (t_status (the (task_at s t)))) (map l_task (retired_links (w_id w) keep s))\<rparr>, s')"
    and tasks: "tasks s' = tasks (add_spec_rows now (w_id w) (w_job_id w) (w_plan_version w + 1) (new_specs keep ?p) (after_retire now w keep s))"
    and links: "links s' = links (add_spec_rows now (w_id w) (w_job_id w) (w_plan_version w + 1) (new_specs keep ?p) (after_retire now w keep s))"
    and rows: "workflows s' = update_where (\<lambda>u. w_id u = w_id w) (replanned_row now (w_plan_version w + 1) plan) (workflows s)"
    and ok': "store_ok s'" by blast
  have keep_ids: "set keep \<subseteq> spec_id ` set (pl_tasks ?p)"
    using decide_kept.kept_unchanged [OF gr dec] by blast
  have keep_cur: "set keep \<subseteq> set (map l_item (kept_links (w_id w) keep s))"
    using decide_kept.kept_is_current [OF gr dec] entries_dom by (fastforce simp: kept_links_def)
  have "set (map l_item (current_links (w_id w) s')) = set keep \<union> spec_id ` set (new_specs keep ?p)"
    using current_after_replan [OF lok links] keep_cur by (auto simp: kept_links_def)
  also have "\<dots> = set (map spec_id (pl_tasks ?p))" using keep_ids by (auto simp: new_specs_def simp del: resolve_plan_fields)
  finally have items: "set (map l_item (current_links (w_id w) s')) = set (map spec_id (pl_tasks plan))"
    unfolding ids_resolve .
  have created: "task_at s t = None" if "t \<in> set (map snd (spec_ids (task_seq s + 1) (new_specs keep ?p)))" for t
    using that spec_ids_range old_id_bound [OF ids, of t] by fastforce
  have retired: "\<exists>l \<in> set (links s'). l_task l = t \<and> l_superseded_in l = Some (w_plan_version w + 1)"
    if "t \<in> l_task ` set (retired_links (w_id w) keep s)" for t
    using retired_superseded [OF links that] .
  have others: "workflow_at s' i = workflow_at s i" "current_links i s' = current_links i s" if "i \<noteq> w_id w" for i
    using other_workflow_rows [OF rows, of i] other_workflow_links [OF lok that links] that by simp_all
  have "l_task ` set (kept_links (w_id w) keep s) \<union> l_task ` set (retired_links (w_id w) keep s) =
      l_task ` set (current_links (w_id w) s)"
    by (auto simp: kept_links_def retired_links_def)
  moreover have "task_at s' t = Some r"
    if "task_at s t = Some r" "t \<notin> l_task ` set (retired_links (w_id w) keep s)" for t r
    using unretired_kept [OF that tasks] .
  ultimately show ?thesis
    using run ok' items created kept_retired_disjoint [OF lok] retired others unretired_link [OF links]
    by (simp add: version_applied_def replanned_row_def)
qed

definition sample_plan2 :: WorkflowPlan where
  "sample_plan2 = sample_plan\<lparr>pl_tasks := [sample_spec ''A'' ''Ler'' ''general'' None [] ''ok'' False,
     sample_spec ''B'' ''Mudar'' ''code_edit'' None [''A''] ''outros testes'' True,
     sample_spec ''C'' ''Rever'' ''code_review'' None [''B''] ''ok'' False], pl_version := 2\<rparr>"

definition sample_start :: "store_error + ((WorkflowRow \<times> int list) option \<times> Store)" where
  "sample_start = set_status ''t2'' 1 WF_RUNNING (Some ''iniciado'') (Some [WF_READY]) None False None None published_store"

definition running_store :: Store where
  "running_store = res_store sample_start"

lemma res_fst: "map_sum id (\<lambda>x. f (fst x)) r = Inr y \<Longrightarrow> \<exists>a s. r = Inr (a, s) \<and> f a = y"
  by (cases r) auto

lemma res_both: "map_sum id (\<lambda>x. (f (fst x), g (snd x))) r = Inr (y, z) \<Longrightarrow>
    \<exists>a s. r = Inr (a, s) \<and> f a = y \<and> g s = z"
  by (cases r) auto

lemma res_store_some: "map_sum id (\<lambda>x. map_option snd (fst x)) r = Inr (Some y) \<Longrightarrow>
    \<exists>res. r = Inr (Some res, res_store r)"
  by (cases r) (auto simp: res_store_def)

lemma sample_start_eq: "\<exists>res. sample_start = Inr (Some res, running_store)"
proof -
  have "map_sum id (\<lambda>x. map_option snd (fst x)) sample_start = Inr (Some [])" by code_simp
  then show ?thesis unfolding running_store_def by (rule res_store_some)
qed

lemma running_good: "good default_limits running_store"
  using sample_start_eq good_set_status published_good unfolding sample_start_def by blast

definition sample_replan :: "store_error + (ReplanResult \<times> Store)" where
  "sample_replan = replan sample_digest default_limits ''t3'' 1 sample_plan2 1 [''claude''] decide_kept running_store"

section \<open>Runs of the whole system\<close>

text \<open>
  C35. Writing tasks exclude each other: in every state reached from a sound one by any sequence of
  operations (claims, deliveries, reviews, requeues, publications, replanning, state changes,
  adoption, recovery), at most one task of a current writing link is in progress.
\<close>

theorem one_writer_at_a_time:
  assumes "good limits s" and "wf_run digest limits s s'" and "0 \<le> max_replans limits" and "0 \<le> max_consults limits"
    and "l \<in> set (links s')" and "l_writes l" and "l_superseded_in l = None"
    and "task_at s' (l_task l) = Some r" and "t_status r = status_value IN_PROGRESS"
    and "l' \<in> set (links s')" and "l_writes l'" and "l_superseded_in l' = None"
    and "task_at s' (l_task l') = Some r'" and "t_status r' = status_value IN_PROGRESS"
  shows "l = l'"
proof -
  have g: "good limits s'" using wf_run_good [OF assms(2,3,4,1)] .
  have "writing s' l" "writing s' l'" using assms by (auto simp: writing_def)
  then have "l_task l = l_task l'" using g unfolding good_def one_writer_def by blast
  then show ?thesis using link_by_task [of s' l l'] g assms(5,10) by (simp add: good_def store_ok_def)
qed

definition writing_store :: Store where
  "writing_store = (let s1 = snd (claim_task ''t3'' ''claude'' None running_store);
     s2 = snd (complete_task ''t4'' 1 (Some ''ok'') None None None (Some 0) s1) in
     snd (claim_task ''t5'' ''codex'' None s2))"

lemma writing_run: "wf_run sample_digest default_limits job_store writing_store"
proof -
  obtain res where st: "sample_start = Inr (Some res, running_store)" using sample_start_eq by blast
  have "wf_step sample_digest default_limits published_store running_store"
    using wf_step.set_status st unfolding sample_start_def by blast
  with published_step have "wf_run sample_digest default_limits job_store running_store"
    by (meson r_into_rtranclp rtranclp.rtrancl_into_rtrancl)
  then show ?thesis unfolding writing_store_def Let_def
    by (meson rtranclp.rtrancl_into_rtrancl wf_step.claim wf_step.complete)
qed

theorem one_writer_at_a_time_witness:
  "\<exists>l r. {l' \<in> set (links writing_store). writing writing_store l'} = {l} \<and>
     task_at writing_store (l_task l) = Some r \<and> t_status r = status_value IN_PROGRESS"
proof -
  have "list_ex (\<lambda>l. l_writes l \<and> l_superseded_in l = None \<and> (case task_at writing_store (l_task l) of
      None \<Rightarrow> False | Some r \<Rightarrow> t_status r = status_value IN_PROGRESS)) (links writing_store)" by code_simp
  then obtain l r where l: "l \<in> set (links writing_store)" "l_writes l" "l_superseded_in l = None"
    and r: "task_at writing_store (l_task l) = Some r" "t_status r = status_value IN_PROGRESS"
    by (auto simp: list_ex_iff split: option.splits)
  have pos: "0 \<le> max_replans default_limits" "0 \<le> max_consults default_limits"
    using default_positive by simp_all
  have "l' = l" if "writing writing_store l'" for l'
  proof -
    from that obtain r' where l': "l' \<in> set (links writing_store)" "l_writes l'" "l_superseded_in l' = None"
        "task_at writing_store (l_task l') = Some r'" "t_status r' = status_value IN_PROGRESS"
      unfolding writing_def by blast
    from one_writer_at_a_time [OF job_store_ok writing_run pos l' l r] show ?thesis .
  qed
  moreover have "writing writing_store l" unfolding writing_def using l r by blast
  ultimately have "{l' \<in> set (links writing_store). writing writing_store l'} = {l}" using l(1) by blast
  with r show ?thesis by blast
qed

text \<open>
  The budgets hold in every reachable state: a workflow is replanned at most \<open>max_replans\<close> times
  and its coordinator consulted at most \<open>max_consults\<close> times; and the tables stay consistent (ids,
  acyclic dependencies, links, plan versions).
\<close>

theorem budgets_hold:
  assumes "good limits s" and "wf_run digest limits s s'" and "0 \<le> max_replans limits" and "0 \<le> max_consults limits"
    and "workflow_at s' wid = Some w"
  shows "w_replans w \<le> max_replans limits \<and> w_consults w \<le> max_consults limits \<and> store_ok s'"
  using wf_run_good [OF assms(2,3,4,1)] workflow_at_SomeD [OF assms(5)] by (auto simp: good_def budget_ok_def)

theorem budgets_hold_witness:
  "\<exists>w. workflow_at writing_store 1 = Some w \<and> w_replans w \<le> 3 \<and> store_ok writing_store"
proof -
  have "map_option w_replans (workflow_at writing_store 1) = Some 0" by code_simp
  then obtain w where "workflow_at writing_store 1 = Some w" by blast
  then show ?thesis
    using budgets_hold [OF job_store_ok writing_run _ _ \<open>workflow_at _ _ = _\<close>] default_positive
    by (simp add: default_limits_def)
qed

text \<open>
  Refinement: a run of the whole system is, on the task table, a run of guarded task operations.
  So the fencing token works across publications, replanning and recovery: a write that carries the
  attempt of an execution that is over changes nothing.
\<close>

theorem fencing_across_workflow_operations:
  assumes "ids_ok s" and "wf_run digest limits s s'" and "task_at s tid = Some r" and "a < t_attempt_count r"
  shows "any_run s s' \<and> complete_task now tid result rvw notes ex (Some a) s' = (False, s') \<and>
    submit_for_review now tid result (Some a) s' = (False, s') \<and>
    requeue_task now tid agent result (Some a) exclude s' = (False, s')"
proof -
  have run: "any_run s s'" using wf_run_any [OF assms(2)] .
  obtain r' where "task_at s' tid = Some r'" and "a < t_attempt_count r'"
    using attempt_passed.kept_any [OF run assms(1,3,4)] by blast
  with run show ?thesis
    by (simp add: complete_task_def submit_for_review_def requeue_task_def stale_attempt_def)
qed

definition recovered_store :: Store where
  "recovered_store = snd (requeue_orphans ''t9'' [(2, status_value IN_PROGRESS, 0, Some ''t5'')] ''lease'' writing_store)"

theorem fencing_across_workflow_operations_witness:
  "complete_task ''u'' 2 (Some ''late'') None None None (Some 0) recovered_store = (False, recovered_store)"
proof -
  have r: "map_option t_attempt_count (task_at recovered_store 2) = Some 1" by code_simp
  then obtain row where "task_at recovered_store 2 = Some row" "0 < t_attempt_count row" by auto
  moreover have "good default_limits recovered_store"
    unfolding recovered_store_def
    by (rule good_tame [OF tame_requeue_orphans wf_run_good [OF writing_run _ _ job_store_ok]])
      (use default_positive in auto)
  then have "ids_ok recovered_store" by (simp add: good_def store_ok_def)
  ultimately show ?thesis
    using fencing_across_workflow_operations [OF _ rtranclp.rtrancl_refl] by blast
qed

section \<open>State changes\<close>

text \<open>
  \<open>set_status\<close> is a compare-and-set over the transition table: a refusal changes nothing; a change
  is allowed by the table from the stored state, respects the expected states and plan version, and
  touches no other workflow.
\<close>

theorem set_status_compare_and_set:
  assumes "set_status now wid to reason froms version cancel att result s = Inr (res, s')"
    and "workflow_at s wid = Some w"
  shows "case res of None \<Rightarrow> s' = s
    | Some (w', ids) \<Rightarrow> can_transition_workflow (w_status w) (wf_value to) \<and>
        (froms \<noteq> None \<longrightarrow> w_status w \<in> wf_value ` set (the froms)) \<and>
        (version \<noteq> None \<longrightarrow> version = Some (w_plan_version w)) \<and>
        workflow_at s' wid = Some w' \<and> w_status w' = wf_value to \<and> w_plan_version w' = w_plan_version w \<and>
        (\<forall>i. i \<noteq> wid \<longrightarrow> workflow_at s' i = workflow_at s i)"
  using set_status_cases [OF assms(1)]
proof (elim disjE exE conjE)
  assume "s' = s" "res = None"
  then show ?thesis by simp
next
  fix s1 u ids
  let ?f = "status_row now to reason att result"
  assume tame: "tame s s1" and s': "s' = update_workflow_row wid ?f s1" and u: "workflow_at s wid = Some u"
    and rules: "can_transition_workflow (w_status u) (wf_value to)"
    "\<forall>sts. froms = Some sts \<longrightarrow> w_status u \<in> set (map wf_value sts)" "\<forall>v. version = Some v \<longrightarrow> w_plan_version u = v"
    and res: "res = Some (?f u, ids)"
  have same: "workflow_at s1 i = workflow_at s i" for i
    using tame by (simp add: tame_def task_frame_def workflow_at_def)
  have id: "w_id (?f x) = w_id x" for x by (simp add: status_row_def)
  have "workflow_at s' i = (if i = wid then Some (?f u) else workflow_at s i)" for i
    unfolding s' using workflow_at_update_workflow_row [of ?f wid s1 i] id same u by simp
  with rules res u assms(2) show ?thesis by (auto simp: status_row_def)
qed

lemma running_from_published:
  "\<exists>res. set_status ''t2'' 1 WF_RUNNING (Some ''iniciado'') (Some [WF_READY]) None False None None published_store =
    Inr (Some res, running_store)"
  using sample_start_eq unfolding sample_start_def .

lemma published_row: "workflow_at published_store 1 = Some (new_workflow ''t1'' 1 1 ''k'' sample_plan)"
  by code_simp

theorem set_status_compare_and_set_witness:
  "\<exists>w'. workflow_at running_store 1 = Some w' \<and> w_status w' = wf_value WF_RUNNING \<and> w_plan_version w' = 1"
proof -
  obtain w' ids where "set_status ''t2'' 1 WF_RUNNING (Some ''iniciado'') (Some [WF_READY]) None False None None published_store =
      Inr (Some (w', ids), running_store)" using running_from_published by auto
  from set_status_compare_and_set [OF this published_row] show ?thesis by (simp add: new_workflow_def)
qed

lemma cancel_current_effect:
  assumes "cancel_current now wid reason s = Inr (ids, s1)"
  shows "task_at s1 t = (case task_at s t of None \<Rightarrow> None
      | Some r \<Rightarrow> Some (if t \<in> l_task ` set (current_links wid s) \<and> can_transition (t_status r) (status_value CANCELLED)
                       then cancelled_row now CANCELLED (Some reason) r else r))"
    and "links s1 = links s"
    and "links_ok s \<Longrightarrow> ids = filter (\<lambda>t. in_flight (t_status (the (task_at s t)))) (map l_task (current_links wid s))"
proof -
  let ?ids = "map l_task (current_links wid s)"
  obtain ch s2 where t: "transition_tasks now ?ids CANCELLED (Some reason) s = (ch, s2)" by fastforce
  have s1: "s1 = close_open_attempts now ch reason s2"
    using assms t by (auto simp: cancel_current_def Let_def bind_res_Inr)
  note eff = transition_tasks_effect [OF t cancelled_terminal]
  show "task_at s1 t = (case task_at s t of None \<Rightarrow> None
      | Some r \<Rightarrow> Some (if t \<in> l_task ` set (current_links wid s) \<and> can_transition (t_status r) (status_value CANCELLED)
                       then cancelled_row now CANCELLED (Some reason) r else r))" for t
    using eff [THEN conjunct2, THEN conjunct2, THEN spec, of t] by (cases "task_at s t") (simp_all add: s1)
  obtain ts where "s2 = s\<lparr>tasks := ts\<rparr>" using eff by blast
  then show "links s1 = links s" by (simp add: s1)
  assume "links_ok s"
  then have "\<forall>t \<in> set ?ids. task_at s t \<noteq> None" using current_link_task by auto
  from statuses_eq [OF this] show "ids = filter (\<lambda>t. in_flight (t_status (the (task_at s t)))) ?ids"
    using assms t by (auto simp: cancel_current_def Let_def bind_res_Inr filter_map comp_def)
qed

lemma not_cancellable: "status_value st \<noteq> x \<or> task_terminal st \<or> can_transition x (status_value CANCELLED)"
  by (cases st) (auto simp: task_terminal_def)

text \<open>
  Ending a workflow with \<open>cancel_tasks\<close> (\<open>cancel\<close>, \<open>finish\<close> as failed) leaves nothing open: afterwards
  every task of a current link has a terminal status, and the ids returned for interruption are
  exactly the tasks that were in progress, waiting for review or in review.
\<close>

theorem ended_workflow_has_no_open_task:
  assumes "store_ok s" and "set_status now wid to reason froms version True att result s = Inr (Some (w', ids), s')"
    and "\<forall>r \<in> set (tasks s). task_status_of (t_status r) \<noteq> None"
  shows "ids = filter (\<lambda>t. in_flight (t_status (the (task_at s t)))) (map l_task (current_links wid s)) \<and>
    (\<forall>l \<in> set (current_links wid s'). \<exists>r st. task_at s' (l_task l) = Some r \<and> t_status r = status_value st \<and> task_terminal st)"
proof -
  have lok: "links_ok s" using assms(1) by (simp add: store_ok_def)
  from assms(2) obtain s1 where c: "cancel_current now wid (non_empty_or reason ''workflow cancelado'') s = Inr (ids, s1)"
    and s': "s' = update_workflow_row wid (status_row now to reason att result) s1"
    by (auto simp: set_status_def bind_res_Inr Let_def split: if_splits)
  note eff = cancel_current_effect [OF c]
  have "\<exists>r st. task_at s' (l_task l) = Some r \<and> t_status r = status_value st \<and> task_terminal st"
    if "l \<in> set (current_links wid s')" for l
  proof -
    have l: "l \<in> set (current_links wid s)" using that eff(2) by (simp add: current_links_def s')
    then obtain r where r: "task_at s (l_task l) = Some r" using current_link_task [OF lok] by blast
    then obtain st where st: "t_status r = status_value st"
      using assms(3) task_at_SomeD [OF r] task_status_of_SomeD by (metis option.exhaust)
    show ?thesis
    proof (cases "can_transition (t_status r) (status_value CANCELLED)")
      case True
      then have "task_at s' (l_task l) = Some (cancelled_row now CANCELLED (Some (non_empty_or reason ''workflow cancelado'')) r)"
        using eff(1) r l by (simp add: s')
      then show ?thesis using cancelled_terminal by force
    next
      case False
      then have "task_at s' (l_task l) = Some r" using eff(1) r by (simp add: s')
      then show ?thesis using not_cancellable [of st "t_status r"] st False by auto
    qed
  qed
  with eff(3) [OF lok] show ?thesis by blast
qed

definition sample_cancel :: "store_error + ((WorkflowRow \<times> int list) option \<times> Store)" where
  "sample_cancel = set_status ''t6'' 1 WF_CANCELLED (Some ''cancelado'') None None True None None writing_store"

theorem ended_workflow_has_no_open_task_witness:
  "\<exists>w' s' l r st. sample_cancel = Inr (Some (w', [2]), s') \<and> l \<in> set (current_links 1 s') \<and>
     task_at s' (l_task l) = Some r \<and> t_status r = status_value st \<and> task_terminal st"
proof -
  have "map_sum id (\<lambda>x. (map_option snd (fst x), current_links 1 (snd x) \<noteq> [])) sample_cancel = Inr (Some [2], True)"
    by code_simp
  then obtain w' s' where r: "sample_cancel = Inr (Some (w', [2]), s')" and "current_links 1 s' \<noteq> []"
    by (auto dest: res_both)
  then obtain l where l: "l \<in> set (current_links 1 s')" by fastforce
  have ok: "store_ok writing_store"
    using wf_run_good [OF writing_run _ _ job_store_ok] default_positive by (simp add: good_def)
  have "list_all (\<lambda>r. task_status_of (t_status r) \<noteq> None) (tasks writing_store)" by code_simp
  then show ?thesis
    using ended_workflow_has_no_open_task [OF ok r [unfolded sample_cancel_def]] r l by (fastforce simp: list_all_iff)
qed

section \<open>Recovery\<close>

definition at_rest :: "TaskRow \<Rightarrow> bool" where
  "at_rest r \<longleftrightarrow> t_status r \<noteq> status_value IN_PROGRESS \<and> t_status r \<noteq> status_value REVIEWING"

definition resting :: "Store \<Rightarrow> int \<Rightarrow> bool" where
  "resting s t \<longleftrightarrow> (\<forall>r. task_at s t = Some r \<longrightarrow> at_rest r)"

lemma requeue_and_close_rest:
  "resting (snd (requeue_and_close now tid reason None s)) tid"
  "t \<noteq> tid \<Longrightarrow> task_at (snd (requeue_and_close now tid reason None s)) t = task_at s t"
proof -
  have snd: "task_at (snd (requeue_and_close now tid reason None s)) t =
      task_at (snd (requeue_interrupted now tid reason None s)) t" for t
    by (auto simp: requeue_and_close_def Let_def task_at_def split: prod.splits)
  show "resting (snd (requeue_and_close now tid reason None s)) tid" unfolding resting_def snd
    by (auto simp: requeue_interrupted_def task_at_update_task_row at_rest_def split: option.splits)
  show "t \<noteq> tid \<Longrightarrow> task_at (snd (requeue_and_close now tid reason None s)) t = task_at s t" unfolding snd
    by (auto simp: requeue_interrupted_def task_at_update_task_row split: option.splits)
qed

lemma requeue_all_rest: "t \<in> set ids \<or> resting s t \<Longrightarrow> resting (requeue_all now ids reason s) t"
proof (induction ids arbitrary: s)
  case (Cons i ids)
  have "t \<in> set ids \<or> resting (snd (requeue_and_close now i reason None s)) t"
    using Cons.prems requeue_and_close_rest [where s = s and tid = i] by (cases "t = i") (auto simp: resting_def)
  from Cons.IH [OF this] show ?case by simp
qed simp

text \<open>
  After a restart, \<open>adopt\<close> leaves the workflow idle: it is no longer \<open>running\<close>, it belongs to
  the new job, no task of a current link is in progress or in review, and none can be claimed for
  execution until the workflow is resumed.
\<close>

theorem adopted_workflow_is_idle:
  assumes "store_ok s" and "adopt now wid jid reason s = Inr (paused, s')"
  shows "\<exists>w. workflow_at s' wid = Some w \<and> w_job_id w = jid \<and> w_status w \<noteq> wf_value WF_RUNNING \<and>
    (\<forall>l \<in> set (current_links wid s'). \<exists>r. task_at s' (l_task l) = Some r \<and>
       t_status r \<noteq> status_value IN_PROGRESS \<and> t_status r \<noteq> status_value REVIEWING \<and>
       (\<forall>agent job. \<not> claimable s' agent job r))"
proof -
  from adopt_cases [OF assms(2)] obtain w s1 where w: "workflow_at s wid = Some w" and t1: "tame s s1"
    and s': "s' = requeue_all now (map l_task (current_links wid s)) ''interrompida por reinicio''
      (update_workflow_row wid (adopted_row now jid reason w) s1)" by blast
  let ?s2 = "update_workflow_row wid (adopted_row now jid reason w) s1"
  have t2: "tame ?s2 s'" unfolding s' by (rule tame_requeue_all)
  have links: "links s' = links s" using t1 t2 by (simp add: tame_def task_frame_def)
  have "workflow_at s1 wid = Some w" using t1 w by (simp add: tame_def task_frame_def workflow_at_def)
  then have "workflow_at ?s2 wid = Some (adopted_row now jid reason w w)"
    using workflow_at_update_workflow_row [of "adopted_row now jid reason w" wid s1 wid]
    by (simp add: adopted_row_def Let_def)
  then have at: "workflow_at s' wid = Some (adopted_row now jid reason w w)"
    using t2 by (simp add: tame_def task_frame_def workflow_at_def)
  have idle: "w_status (adopted_row now jid reason w w) \<noteq> wf_value WF_RUNNING" "w_job_id (adopted_row now jid reason w w) = jid"
    by (simp_all add: adopted_row_def Let_def)
  have "\<exists>r. task_at s' (l_task l) = Some r \<and> t_status r \<noteq> status_value IN_PROGRESS \<and> t_status r \<noteq> status_value REVIEWING \<and>
       (\<forall>agent job. \<not> claimable s' agent job r)" if l: "l \<in> set (current_links wid s')" for l
  proof -
    have cur: "l \<in> set (current_links wid s)" "l \<in> set (links s')" "l_workflow l = wid"
      using l by (auto simp: current_links_def links)
    have "task_at s (l_task l) \<noteq> None" using current_link_task assms(1) cur(1) by (simp add: store_ok_def)
    then have "task_at ?s2 (l_task l) \<noteq> None" using t1 by (simp add: tame_def)
    then obtain r where r: "task_at s' (l_task l) = Some r" using t2 by (auto simp: tame_def)
    have "resting s' (l_task l)" unfolding s' by (rule requeue_all_rest) (use cur(1) in auto)
    then have "at_rest r" using r by (simp add: resting_def)
    moreover have "\<not> claimable s' agent job r" for agent job
      using gate_closed [OF cur(2), of r "adopted_row now jid reason w w" agent job] at cur(3) idle(1)
        task_at_SomeD [OF r] by simp
    ultimately show ?thesis using r by (auto simp: at_rest_def)
  qed
  with at idle show ?thesis by blast
qed

definition sample_adopt :: "store_error + (bool \<times> Store)" where
  "sample_adopt = adopt ''t7'' 1 1 ''reinicio'' writing_store"

theorem adopted_workflow_is_idle_witness:
  "\<exists>s' w. sample_adopt = Inr (True, s') \<and> workflow_at s' 1 = Some w \<and> w_status w \<noteq> wf_value WF_RUNNING"
proof -
  have "map_sum id (\<lambda>x. id (fst x)) sample_adopt = Inr True" by code_simp
  from res_fst [OF this] obtain s' where r: "sample_adopt = Inr (True, s')" by auto
  have ok: "store_ok writing_store"
    using wf_run_good [OF writing_run _ _ job_store_ok] default_positive by (simp add: good_def)
  show ?thesis using adopted_workflow_is_idle [OF ok r [unfolded sample_adopt_def]] r by blast
qed

section \<open>Attempts\<close>

definition outcome_recorded :: "AttemptRow \<Rightarrow> bool" where
  "outcome_recorded a \<longleftrightarrow> a_status a \<noteq> ''running'' \<and> a_status a \<noteq> ''submitted''"

lemma update_where_keeps: "x \<in> set xs \<Longrightarrow> \<not> p x \<Longrightarrow> x \<in> set (update_where p f xs)"
  by (auto simp: in_set_update_where intro!: bexI [of _ x])

lemma same_attempts [simp]: "attempts (snd (requeue_interrupted now tid reason obs s)) = attempts s"
  by (auto simp: requeue_interrupted_def split: option.splits)

text \<open>
  A recorded outcome of an attempt is final: neither a later result, nor a verdict, nor the
  closing of cancelled or interrupted executions, nor the start of another attempt changes the row;
  and a verdict is recorded only for a delivery that was submitted.
\<close>

theorem attempt_outcome_is_final:
  assumes "a \<in> set (attempts s)" and "outcome_recorded a"
  shows "a \<in> set (attempts (finish_attempt now tid attempt agent status handoff reason s)) \<and>
    a \<in> set (attempts (close_open_attempts now tids why s)) \<and>
    a \<in> set (attempts (snd (requeue_and_close now tid why obs s))) \<and>
    (\<not> same_attempt tid attempt agent a \<longrightarrow> (case begin_attempt now tid attempt agent run_id s of
       Inl e \<Rightarrow> True | Inr s' \<Rightarrow> a \<in> set (attempts s'))) \<and>
    (\<forall>verdict \<in> set review_verdicts. \<forall>b \<in> set (attempts (finish_attempt now tid attempt agent verdict handoff reason s)).
       b \<in> set (attempts s) \<or> (\<exists>b0 \<in> set (attempts s). a_status b0 = ''submitted'' \<and> same_attempt tid attempt agent b0))"
proof (intro conjI)
  show "a \<in> set (attempts (finish_attempt now tid attempt agent status handoff reason s))"
    using assms by (auto simp: finish_attempt_def finish_source_def outcome_recorded_def intro: update_where_keeps)
  show "a \<in> set (attempts (close_open_attempts now tids why s))"
    using assms by (auto simp: close_open_attempts_def outcome_recorded_def intro: update_where_keeps)
  obtain moved s1 where s1: "requeue_interrupted now tid why obs s = (moved, s1)" by fastforce
  with assms(1) have "a \<in> set (attempts s1)" using same_attempts [where s = s and now = now and tid = tid and reason = why and obs = obs] by simp
  with assms(2) s1 show "a \<in> set (attempts (snd (requeue_and_close now tid why obs s)))"
    by (auto simp: requeue_and_close_def Let_def outcome_recorded_def intro: update_where_keeps)
  show "\<not> same_attempt tid attempt agent a \<longrightarrow> (case begin_attempt now tid attempt agent run_id s of
       Inl e \<Rightarrow> True | Inr s' \<Rightarrow> a \<in> set (attempts s'))"
    using assms(1) by (auto simp: begin_attempt_def intro: update_where_keeps)
  show "\<forall>verdict \<in> set review_verdicts. \<forall>b \<in> set (attempts (finish_attempt now tid attempt agent verdict handoff reason s)).
       b \<in> set (attempts s) \<or> (\<exists>b0 \<in> set (attempts s). a_status b0 = ''submitted'' \<and> same_attempt tid attempt agent b0)"
    by (auto simp: finish_attempt_def finish_source_def review_verdicts_def in_set_update_where)
qed

definition sample_attempts :: Store where
  "sample_attempts = (case begin_attempt ''t3'' 1 0 ''claude'' None published_store of Inl e \<Rightarrow> empty_store
     | Inr s \<Rightarrow> finish_attempt ''t4'' 1 0 ''claude'' ''failed'' None (Some ''x'') s)"

definition sample_outcome :: AttemptRow where
  "sample_outcome = \<lparr> a_task = 1, a_attempt = 0, a_agent = ''claude'', a_run_id = None, a_status = ''failed'',
     a_failure_reason = Some ''x'', a_handoff = None, a_started_at = ''t3'', a_finished_at = Some ''t4'' \<rparr>"

theorem attempt_outcome_is_final_witness:
  "\<exists>a. a \<in> set (attempts (finish_attempt ''t5'' 1 0 ''claude'' ''submitted'' (Some ''late'') None sample_attempts)) \<and>
     a_status a = ''failed''"
proof -
  have one: "attempts sample_attempts = [sample_outcome]" by code_simp
  have rec: "outcome_recorded sample_outcome" by code_simp
  show ?thesis
    using attempt_outcome_is_final [of sample_outcome sample_attempts] one rec
    by (intro exI [of _ sample_outcome]) (simp add: sample_outcome_def)
qed

end
