(* ===== verification/Coordinator_Runs.thy ===== *)
theory Coordinator_Runs
  imports Workflow_Reconcile Workflow_Guarantees
begin

text \<open>
  Every method of the coordinator, in every outcome, moves the database only along the operations
  of the two repositories: the coordinator refines the store-level system of \<open>Workflow_Runs\<close>, so
  each invariant proved there holds under it.
\<close>

section \<open>The contract of the methods\<close>

interpretation runs: store_preorder "wf_run digest limits" for digest limits
  by unfold_locales (auto intro: rtranclp_trans)

abbreviation env_run :: "CoordEnv \<Rightarrow> Store \<Rightarrow> Store \<Rightarrow> bool" where
  "env_run env \<equiv> wf_run (e_digest env) (e_limits env)"

text \<open>The agent that is consulted acts on the database through the same operations.\<close>

definition consult_ok :: "CoordEnv \<Rightarrow> bool" where
  "consult_ok env \<longleftrightarrow> (\<forall>ask. e_consult env = Some ask \<longrightarrow>
     (\<forall>w attention text s. env_run env (db s) (db (snd (ask w attention text s)))))"

lemma parse_plan_valid: "parse_plan payload coordinator limits version = Inr p \<Longrightarrow> validate_plan p = Inr ()"
  by (auto simp: parse_plan_def bind_res_Inr Let_def split: json.splits if_splits)

lemma step_run: "wf_step digest limits s s' \<Longrightarrow> wf_run digest limits s s'"
  by blast

named_theorems keeps "contracts of the coordinator's methods"

declare runs.keeps_pure [keeps] runs.keeps_bind [keeps] runs.keeps_then [keeps] runs.keeps_when [keeps]
  runs.keeps_each [keeps] runs.keeps_try [keeps] act_keeps_splits [keeps]

lemma keeps_of_result [keeps]: "act_keeps (wf_run digest limits) (of_result err r)"
  by (auto simp: of_result_def split: sum.splits intro: keeps)

lemma keeps_queries [keeps]:
  "act_keeps (wf_run digest limits) (get_workflow wid)" "act_keeps (wf_run digest limits) (get_snapshot wid)"
  "act_keeps (wf_run digest limits) wake" "act_keeps (wf_run digest limits) (interrupt_tasks ids)"
  "act_keeps (wf_run digest limits) (require_job env)"
  by (auto simp: get_workflow_def get_snapshot_def wake_def interrupt_tasks_def require_job_def
      split: option.splits intro!: keeps)

lemma keeps_set_status [keeps]:
  "act_keeps (wf_run digest limits) (repo_set_status env wid target reason expected version cancelling res)"
  unfolding repo_set_status_def
  by (rule runs.keeps_commit) (blast intro: wf_step.set_status)

lemma keeps_set_result [keeps]:
  "act_keeps (wf_run digest limits) (act_write (set_result now wid text st v only_empty))"
  by (rule runs.keeps_write) (blast intro: wf_step.set_result)

lemma keeps_adopt [keeps]: "act_keeps (wf_run digest limits) (act_commit err (adopt now wid jid reason))"
  by (rule runs.keeps_commit) (blast intro: wf_step.adopt)

lemma keeps_writes [keeps]:
  "act_keeps (wf_run digest limits) (act_write (requeue_orphans now obs reason))"
  "act_keeps (wf_run digest limits) (act_write (unassign_pending_task now tid owner))"
  "act_keeps (wf_run digest limits) (act_write (claim_consult limits now wid attention))"
  by (rule runs.keeps_write, blast intro: wf_step.intros)+

lemma keeps_fail_task [keeps]: "act_keeps (wf_run digest limits) (act_write (fail_task now tid reason e st))"
  by (rule runs.keeps_write) (auto simp: fail_task_def intro!: step_run wf_step.transition)

section \<open>The methods\<close>

lemma keeps_move [keeps]:
  "act_keeps (wf_run digest limits) (move_workflow env wid target expected reason version)"
  "act_keeps (wf_run digest limits) (record_result env wid summary status v)"
  by (auto simp: move_workflow_def record_result_def split: option.splits intro!: keeps)

lemma keeps_parsed:
  assumes "\<And>x. r = Inr x \<Longrightarrow> act_keeps (wf_run digest limits) (f x)"
  shows "act_keeps (wf_run digest limits) (act_bind (of_result err r) f)"
  using assms by (cases r) (auto simp: of_result_def act_bind_def act_keeps_def)

lemma keeps_create: "act_keeps (env_run env) (create env payload requester)"
  unfolding create_def validate_def
  by (intro keeps_parsed keeps runs.keeps_commit)
    (blast dest: parse_plan_valid intro: wf_step.publish step_run)

lemma keeps_replan: "act_keeps (env_run env) (coord_replan env wid payload base)"
  unfolding coord_replan_def
  by (intro keeps_parsed keeps runs.keeps_commit)
    (blast dest: parse_plan_valid intro: wf_step.replan step_run)

lemma keeps_controls:
  "act_keeps (env_run env) (start env wid)" "act_keeps (env_run env) (pause env wid)"
  "act_keeps (env_run env) (cancel env wid reason)"
  unfolding start_def pause_def cancel_def by (intro keeps)+

lemma keeps_finish: "act_keeps (env_run env) (finish env wid outcome summary)"
  unfolding finish_def finish_completed_def finish_blocked_def finish_failed_def Let_def by (intro keeps)

lemma keeps_notify [keeps]: "act_keeps (wf_run digest limits) (notify_waiting env wid v role)"
  "act_keeps (wf_run digest limits) (notify_no_reviewer env wid v)"
  by (auto simp: notify_waiting_def notify_no_reviewer_def act_keeps_def act_bind_def act_when_def Let_def)

lemma keeps_expired [keeps]: "act_keeps (wf_run digest limits) (requeue_expired env sn)"
  unfolding requeue_expired_def by (intro keeps)

lemma keeps_settle [keeps]: "act_keeps (wf_run digest limits) (settle_unrunnable env sn)"
  unfolding settle_unrunnable_def settle_view_def Let_def by (intro keeps)

lemma keeps_consult:
  assumes "consult_ok env" and "e_consult env = Some ask"
  shows "act_keeps (env_run env) (consult_coordinator env target attention text ask w)"
proof -
  have "act_keeps (env_run env) (\<lambda>s. let (answer, s') = ask w attention text s in (Inr (or_empty answer), s'))"
    using assms by (auto simp: act_keeps_def consult_ok_def split_beta)
  then show ?thesis unfolding consult_coordinator_def by (intro keeps)
qed

lemma keeps_conclude: "consult_ok env \<Longrightarrow> act_keeps (env_run env) (conclude env wid target reason sn failed)"
  unfolding conclude_def Let_def by (intro keeps keeps_consult)

lemma keeps_reconcile: "consult_ok env \<Longrightarrow> act_keeps (env_run env) (reconcile env wid)"
  unfolding reconcile_def
  by (intro keeps) (auto split: verdict.splits intro: keeps keeps_conclude)

lemma keeps_lifecycle:
  assumes "consult_ok env"
  shows "act_keeps (env_run env) (resume env wid)" and "act_keeps (env_run env) (tick env)"
    and "act_keeps (env_run env) (recover env)"
  unfolding resume_def tick_def recover_def recover_one_def
  by (intro keeps keeps_reconcile [OF assms])+

end
