(* ===== verification/Workflow_Versions.thy ===== *)
theory Workflow_Versions
  imports Workflow_Guarantees
begin

text \<open>
  Decisions are taken on a snapshot and written later, with a comparison of the plan version. Here:
  in the whole system the version of a workflow never decreases, and while it stays the same, so
  do the current links of the workflow. Hence a decision that passes the comparison was taken on
  the tasks that are still the current ones.
\<close>

definition version_kept :: "Store \<Rightarrow> Store \<Rightarrow> bool" where
  "version_kept s s' \<longleftrightarrow> (\<forall>wid w. workflow_at s wid = Some w \<longrightarrow>
     (\<exists>w'. workflow_at s' wid = Some w' \<and> w_plan_version w \<le> w_plan_version w' \<and>
       (w_plan_version w' = w_plan_version w \<longrightarrow> current_links wid s' = current_links wid s)))"

lemma version_kept_refl: "version_kept s s"
  by (simp add: version_kept_def)

lemma version_kept_trans: "version_kept s t \<Longrightarrow> version_kept t u \<Longrightarrow> version_kept s u"
  unfolding version_kept_def
proof (intro allI impI)
  fix wid w
  assume st: "\<forall>wid w. workflow_at s wid = Some w \<longrightarrow> (\<exists>w'. workflow_at t wid = Some w' \<and>
      w_plan_version w \<le> w_plan_version w' \<and> (w_plan_version w' = w_plan_version w \<longrightarrow> current_links wid t = current_links wid s))"
    and tu: "\<forall>wid w. workflow_at t wid = Some w \<longrightarrow> (\<exists>w'. workflow_at u wid = Some w' \<and>
      w_plan_version w \<le> w_plan_version w' \<and> (w_plan_version w' = w_plan_version w \<longrightarrow> current_links wid u = current_links wid t))"
    and w: "workflow_at s wid = Some w"
  from st w obtain w1 where 1: "workflow_at t wid = Some w1" "w_plan_version w \<le> w_plan_version w1"
    "w_plan_version w1 = w_plan_version w \<longrightarrow> current_links wid t = current_links wid s" by blast
  from tu 1(1) obtain w2 where "workflow_at u wid = Some w2" "w_plan_version w1 \<le> w_plan_version w2"
    "w_plan_version w2 = w_plan_version w1 \<longrightarrow> current_links wid u = current_links wid t" by blast
  with 1 show "\<exists>w'. workflow_at u wid = Some w' \<and> w_plan_version w \<le> w_plan_version w' \<and>
      (w_plan_version w' = w_plan_version w \<longrightarrow> current_links wid u = current_links wid s)" by auto
qed

lemma version_kept_frame:
  assumes "links s' = links s" and "\<And>wid w. workflow_at s wid = Some w \<Longrightarrow>
    \<exists>w'. workflow_at s' wid = Some w' \<and> w_plan_version w' = w_plan_version w"
  shows "version_kept s s'"
  unfolding version_kept_def
proof (intro allI impI)
  fix wid w assume "workflow_at s wid = Some w"
  with assms(2) obtain w' where "workflow_at s' wid = Some w'" "w_plan_version w' = w_plan_version w" by blast
  then show "\<exists>w'. workflow_at s' wid = Some w' \<and> w_plan_version w \<le> w_plan_version w' \<and>
      (w_plan_version w' = w_plan_version w \<longrightarrow> current_links wid s' = current_links wid s)"
    using assms(1) by (simp add: current_links_def)
qed

lemma version_kept_tables: "links s' = links s \<Longrightarrow> workflows s' = workflows s \<Longrightarrow> version_kept s s'"
  by (rule version_kept_frame) (simp_all add: workflow_at_def)

lemma version_kept_rows:
  assumes "\<And>w. w_id (f w) = w_id w \<and> w_plan_version (f w) = w_plan_version w"
    and "links s' = links s" and "workflows s' = update_where p f (workflows s)"
  shows "version_kept s s'"
proof (rule version_kept_frame [OF assms(2)])
  fix wid w assume "workflow_at s wid = Some w"
  then show "\<exists>w'. workflow_at s' wid = Some w' \<and> w_plan_version w' = w_plan_version w"
    using assms(1) by (auto simp: workflow_at_def assms(3) find_update_where)
qed

lemma version_kept_tame: "tame s s' \<Longrightarrow> version_kept s s'"
  by (rule version_kept_tables) (simp_all add: tame_def task_frame_def)

section \<open>The operations\<close>

lemma version_kept_set_status:
  assumes "set_status now wid to reason expected version cancelling att result s = Inr (res, s')"
  shows "version_kept s s'"
  using set_status_cases [OF assms]
proof (elim disjE exE conjE)
  fix s1 w ids assume t: "tame s s1" and s': "s' = update_workflow_row wid (status_row now to reason att result) s1"
  have "version_kept s1 s'"
    by (rule version_kept_rows [of "status_row now to reason att result"])
      (simp_all add: s' update_workflow_row_def status_row_def)
  with version_kept_tame [OF t] show ?thesis by (rule version_kept_trans)
qed (simp add: version_kept_refl)

lemma version_kept_adopt:
  assumes "adopt now wid jid reason s = Inr (paused, s')"
  shows "version_kept s s'"
proof -
  from adopt_cases [OF assms] obtain w s1 where t: "tame s s1"
    and s': "s' = requeue_all now (map l_task (current_links wid s)) ''interrompida por reinicio''
      (update_workflow_row wid (adopted_row now jid reason w) s1)" by blast
  have "version_kept s1 (update_workflow_row wid (adopted_row now jid reason w) s1)"
    by (rule version_kept_rows [of "adopted_row now jid reason w"])
      (simp_all add: update_workflow_row_def adopted_row_def Let_def)
  then show ?thesis unfolding s'
    using version_kept_tame [OF t] version_kept_tame [OF tame_requeue_all] by (blast intro: version_kept_trans)
qed

lemma version_kept_publish:
  assumes pub: "publish digest limits now plan jid key agents s = Inr (res, s')" and g: "graph_ok plan"
    and ok: "store_ok s"
  shows "version_kept s s'"
proof (cases "s' = s")
  case False
  let ?wid = "workflow_seq s + 1" and ?sps = "pl_tasks (resolve_assignees plan agents)"
  from publish_cases [OF pub] False have job: "job_exists s jid"
    and key: "find (\<lambda>w. w_publication_key w = key) (workflows s) = None"
    and room: "open_count jid s < max_open_workflows limits" by auto
  from publish_succeeds [OF ok g job key room, of digest now agents] pub
  have "s' = (add_spec_rows now ?wid jid 1 ?sps (publish_base digest now plan jid key s))\<lparr>deps := deps s'\<rparr>" by auto
  then obtain ds where s': "s' = (add_spec_rows now ?wid jid 1 ?sps (publish_base digest now plan jid key s))\<lparr>deps := ds\<rparr>"
    by blast
  show ?thesis unfolding version_kept_def
  proof (intro allI impI)
    fix wid w assume w: "workflow_at s wid = Some w"
    then have new: "wid \<noteq> ?wid"
      using workflow_at_SomeD [OF w] ok by (fastforce simp: store_ok_def workflows_ok_def)
    have "workflow_at s' wid = Some w"
      using w by (simp add: s' add_spec_rows_def publish_base_def Let_def workflow_at_def find_append)
    moreover have "filter (\<lambda>l. l_workflow l = wid \<and> l_superseded_in l = None) (spec_links ?wid 1 lid tid sps) = []"
      for lid tid sps using new by (induction sps arbitrary: lid tid) auto
    then have "current_links wid s' = current_links wid s"
      by (simp add: current_links_def s' add_spec_rows_def publish_base_def Let_def)
    ultimately show "\<exists>w'. workflow_at s' wid = Some w' \<and> w_plan_version w \<le> w_plan_version w' \<and>
        (w_plan_version w' = w_plan_version w \<longrightarrow> current_links wid s' = current_links wid s)" by simp
  qed
qed (simp add: version_kept_refl)

lemma version_kept_replan:
  assumes rp: "replan digest limits now wid plan base names decide_kept s = Inr (res, s')" and g: "graph_ok plan"
    and ok: "store_ok s"
  shows "version_kept s s'"
proof -
  consider "s' = s" | w where "workflow_at s (w_id w) = Some w"
      "apply_replan digest now w plan (resolve_assignees plan names) decide_kept s = Inr (res, s')"
    using replan_cases [OF ok g, of digest limits now wid base names decide_kept] rp unfolding load_Inr by auto
  then show ?thesis
  proof cases
    case 2
    let ?p = "resolve_assignees plan names"
    have gr: "graph_ok ?p" using g by simp
    from decide_kept.apply_replan_ok [OF ok 2(1) gr g, of digest now] 2(2) obtain keep where
      lk: "links s' = links (add_spec_rows now (w_id w) (w_job_id w) (w_plan_version w + 1) (new_specs keep ?p) (after_retire now w keep s))"
      and wf: "workflows s' = update_where (\<lambda>u. w_id u = w_id w) (replanned_row now (w_plan_version w + 1) plan) (workflows s)"
      by auto
    have lok: "links_ok s" using ok by (simp add: store_ok_def)
    note row = other_workflow_rows [OF wf]
    show ?thesis unfolding version_kept_def
    proof (intro allI impI)
      fix i u assume u: "workflow_at s i = Some u"
      show "\<exists>w'. workflow_at s' i = Some w' \<and> w_plan_version u \<le> w_plan_version w' \<and>
          (w_plan_version w' = w_plan_version u \<longrightarrow> current_links i s' = current_links i s)"
      proof (cases "i = w_id w")
        case True
        then show ?thesis using u 2(1) by (simp add: row replanned_row_def)
      next
        case False
        with u show ?thesis using other_workflow_links [OF lok False lk] by (simp add: row)
      qed
    qed
  qed (simp add: version_kept_refl)
qed

section \<open>The whole system\<close>

lemma version_kept_step:
  assumes st: "wf_step digest limits s s'" and ok: "store_ok s"
  shows "version_kept s s'"
  using st
proof cases
  case (claim now agent job)
  then show ?thesis
    by (auto simp: claim_task_def Let_def intro!: version_kept_tables split: option.splits)
next
  case (transition to tid now res ntxt appr asg e es)
  then show ?thesis
    by (auto simp: transition_task_def Let_def transition_event_def intro!: version_kept_tables split: option.splits)
next
  case (publish plan now jid key names res)
  then show ?thesis using version_kept_publish [OF publish(2) _ ok] by (simp add: validate_plan_iff)
next
  case (replan plan now wid base names res)
  then show ?thesis using version_kept_replan [OF replan(2) _ ok] by (simp add: validate_plan_iff)
next
  case (set_status now wid to reason_opt froms ver cancelling att result res)
  then show ?thesis using version_kept_set_status by blast
next
  case (adopt now wid jid reason paused)
  then show ?thesis using version_kept_adopt by blast
next
  case (create now jid n tid)
  then show ?thesis using version_kept_tame [OF tame_create] by blast
next
  case (begin_attempt now tid attempt agent run_id)
  then show ?thesis by (auto simp: begin_attempt_def intro!: version_kept_tables split: if_splits)
next
  case (finish_attempt now tid attempt agent status handoff freason)
  then show ?thesis by (simp add: finish_attempt_def version_kept_tables)
next
  case (set_result now wid result st v only_empty)
  show ?thesis unfolding set_result
    by (rule version_kept_rows [of "\<lambda>w. w\<lparr>w_result := Some result, w_updated_at := now\<rparr>"])
      (simp_all add: set_result_def Let_def)
next
  case (consult now wid att)
  show ?thesis unfolding consult
    by (rule version_kept_rows [of "\<lambda>w. w\<lparr>w_attention := Some att, w_consults := w_consults w + 1, w_updated_at := now\<rparr>"])
      (simp_all add: claim_consult_def Let_def)
qed (simp_all add: version_kept_tame tame_claim_review tame_ops tame_requeue_orphans)

lemma version_kept_run:
  assumes "wf_run digest limits s s'" and "good limits s" and "0 \<le> max_replans limits" and "0 \<le> max_consults limits"
  shows "version_kept s s'"
  using assms(1)
proof (induction rule: rtranclp_induct)
  case (step t u)
  have "good limits t" using wf_run_good [OF step.hyps(1) assms(3,4,2)] .
  then have "version_kept t u" using version_kept_step [OF step.hyps(2)] by (simp add: good_def)
  with step.IH show ?case by (rule version_kept_trans)
qed (simp add: version_kept_refl)

section \<open>A retired task stays retired\<close>

definition retired_kept :: "Store \<Rightarrow> Store \<Rightarrow> bool" where
  "retired_kept s s' \<longleftrightarrow> (\<forall>l \<in> set (links s). l_superseded_in l \<noteq> None \<longrightarrow>
     (\<exists>l' \<in> set (links s'). l_task l' = l_task l \<and> l_superseded_in l' \<noteq> None))"

lemma retired_kept_same: "links s' = links s \<Longrightarrow> retired_kept s s'"
  by (auto simp: retired_kept_def)

lemma retired_kept_tame: "tame s s' \<Longrightarrow> retired_kept s s'"
  by (rule retired_kept_same) (simp add: tame_def task_frame_def)

lemma retired_kept_publish:
  assumes pub: "publish digest limits now plan jid key agents s = Inr (res, s')" and g: "graph_ok plan"
    and ok: "store_ok s"
  shows "retired_kept s s'"
proof (cases "s' = s")
  case False
  from publish_cases [OF pub] False have job: "job_exists s jid"
    and key: "find (\<lambda>w. w_publication_key w = key) (workflows s) = None"
    and room: "open_count jid s < max_open_workflows limits" by auto
  let ?wid = "workflow_seq s + 1" and ?sps = "pl_tasks (resolve_assignees plan agents)"
  from publish_succeeds [OF ok g job key room, of digest now agents] pub
  have "s' = (add_spec_rows now ?wid jid 1 ?sps (publish_base digest now plan jid key s))\<lparr>deps := deps s'\<rparr>" by auto
  then obtain ds where "s' = (add_spec_rows now ?wid jid 1 ?sps (publish_base digest now plan jid key s))\<lparr>deps := ds\<rparr>" by blast
  then have "set (links s) \<subseteq> set (links s')" by (auto simp: add_spec_rows_def publish_base_def Let_def)
  then show ?thesis by (auto simp: retired_kept_def)
qed (simp add: retired_kept_same)

lemma retired_kept_replan:
  assumes rp: "replan digest limits now wid plan base names decide_kept s = Inr (res, s')" and g: "graph_ok plan"
    and ok: "store_ok s"
  shows "retired_kept s s'"
proof -
  consider "s' = s" | w where "workflow_at s (w_id w) = Some w"
      "apply_replan digest now w plan (resolve_assignees plan names) decide_kept s = Inr (res, s')"
    using replan_cases [OF ok g, of digest limits now wid base names decide_kept] rp unfolding load_Inr by auto
  then show ?thesis
  proof cases
    case 2
    from apply_replan_version [OF ok 2(1) g, of digest now names] 2(2) have "version_applied plan s res s'" by auto
    then show ?thesis unfolding version_applied_def retired_kept_def by (metis option.distinct(1))
  qed (simp add: retired_kept_same)
qed

lemma retired_kept_step:
  assumes st: "wf_step digest limits s s'" and ok: "store_ok s"
  shows "retired_kept s s'"
  using st
proof cases
  case (claim now agent job)
  then show ?thesis
    by (auto simp: claim_task_def Let_def intro!: retired_kept_same split: option.splits)
next
  case (transition to tid now res ntxt appr asg e es)
  then show ?thesis
    by (auto simp: transition_task_def Let_def transition_event_def intro!: retired_kept_same split: option.splits)
next
  case (publish plan now jid key names res)
  then show ?thesis using retired_kept_publish [OF publish(2) _ ok] by (simp add: validate_plan_iff)
next
  case (replan plan now wid base names res)
  then show ?thesis using retired_kept_replan [OF replan(2) _ ok] by (simp add: validate_plan_iff)
next
  case (set_status now wid to reason_opt froms ver cancelling att result res)
  from set_status_cases [OF this] show ?thesis
    by (auto simp: tame_def task_frame_def update_workflow_row_def intro!: retired_kept_same)
next
  case (adopt now wid jid reason paused)
  from adopt_cases [OF this] obtain w t where "tame s t"
    and s': "s' = requeue_all now (map l_task (current_links wid s)) ''interrompida por reinicio''
      (update_workflow_row wid (adopted_row now jid reason w) t)" by blast
  moreover have "tame (update_workflow_row wid (adopted_row now jid reason w) t) s'" unfolding s' by (rule tame_requeue_all)
  ultimately show ?thesis by (auto simp: tame_def task_frame_def update_workflow_row_def intro!: retired_kept_same)
next
  case (create now jid n tid)
  then show ?thesis using retired_kept_tame [OF tame_create] by blast
next
  case (begin_attempt now tid attempt agent run_id)
  then show ?thesis by (auto simp: begin_attempt_def intro!: retired_kept_same split: if_splits)
qed (simp_all add: retired_kept_tame tame_claim_review tame_ops tame_requeue_orphans finish_attempt_def set_result_def
    claim_consult_def Let_def retired_kept_same)

lemma superseded_stays:
  assumes "wf_run digest limits s s'" and "good limits s" and "0 \<le> max_replans limits" and "0 \<le> max_consults limits"
    and "l \<in> set (links s)" and "l_superseded_in l \<noteq> None"
  shows "\<exists>l' \<in> set (links s'). l_task l' = l_task l \<and> l_superseded_in l' \<noteq> None"
  using assms(1)
proof (induction rule: rtranclp_induct)
  case base
  then show ?case using assms(5,6) by blast
next
  case (step t u)
  have "good limits t" using wf_run_good [OF step.hyps(1) assms(3,4,2)] .
  then have "retired_kept t u" using retired_kept_step [OF step.hyps(2)] by (simp add: good_def)
  with step.IH show ?case unfolding retired_kept_def by metis
qed

text \<open>
  C5. \<open>replan\<close> with \<open>decide_kept\<close>, on a sound database and a validated plan, fails only by its four
  documented refusals (unknown workflow, stale base version, state, limit); in particular no
  dependency is ever missing or cyclic. Otherwise, unless the content is unchanged (then nothing
  happens), the version after the base is current and its current items are exactly the items of
  the plan; the kept and the retired tasks are together exactly the tasks that were current in this
  workflow, and no task is both; every task that is not retired is untouched, row and link, and so
  are the rows and the current links of the other workflows; created tasks are new; and a retired
  task can be claimed neither for execution nor for review, in the resulting database and in every
  one reached from it by the operations of the two repositories.
\<close>

theorem replan_preserves_valid_work:
  assumes "good limits s" and "validate_plan plan = Inr ()" and "0 \<le> max_replans limits" and "0 \<le> max_consults limits"
  shows "case replan digest limits now wid plan base names decide_kept s of
      Inl e \<Rightarrow> e = WorkflowNotFound wid \<or> (\<exists>v. e = VersionConflict v base) \<or> (\<exists>st. e = NotReplannable st) \<or>
        e = ReplanLimit (max_replans limits)
    | Inr (res, s') \<Rightarrow> (if rp_applied res
        then w_plan_version (rp_workflow res) = base + 1 \<and> w_id (rp_workflow res) = wid \<and> version_applied plan s res s' \<and>
          (\<forall>s''. wf_run digest limits s' s'' \<longrightarrow> (\<forall>t \<in> set (rp_retired res). \<forall>r agent job. task_at s'' t = Some r \<longrightarrow>
             \<not> claimable s'' agent job r \<and> \<not> review_claimable s'' agent job r))
        else s' = s)"
proof -
  have g: "graph_ok plan" using assms(2) by (simp add: validate_plan_iff)
  have ok: "store_ok s" using assms(1) by (simp add: good_def)
  consider (refused) e where "replan digest limits now wid plan base names decide_kept s = Inl e"
      "e = WorkflowNotFound wid \<or> (\<exists>v. e = VersionConflict v base) \<or> (\<exists>st. e = NotReplannable st) \<or>
        e = ReplanLimit (max_replans limits)"
    | (same) res where "replan digest limits now wid plan base names decide_kept s = Inr (res, s)" "\<not> rp_applied res"
    | (applied) w where "workflow_at s (w_id w) = Some w" "w_id w = wid" "w_plan_version w = base"
      "replan digest limits now wid plan base names decide_kept s =
        apply_replan digest now w plan (resolve_assignees plan names) decide_kept s"
    using replan_cases [OF ok g, of digest limits now wid base names decide_kept]
    unfolding load_Inr by fastforce
  then show ?thesis
  proof cases
    case applied
    from apply_replan_version [OF ok applied(1) g, of digest now names] obtain res s' where
      run: "apply_replan digest now w plan (resolve_assignees plan names) decide_kept s = Inr (res, s')" "rp_applied res"
      "rp_workflow res = replanned_row now (w_plan_version w + 1) plan w" "version_applied plan s res s'" by blast
    have good: "good limits s'" using good_replan [OF _ g assms(1)] run(1) applied(4) by metis
    have "\<not> claimable s'' agent job r \<and> \<not> review_claimable s'' agent job r"
      if later: "wf_run digest limits s' s''" and t: "t \<in> set (rp_retired res)" and r: "task_at s'' t = Some r" for s'' t r agent job
    proof -
      from run(4) t obtain l where "l \<in> set (links s')" "l_task l = t" "l_superseded_in l \<noteq> None"
        unfolding version_applied_def by (metis option.distinct(1))
      from superseded_stays [OF later good assms(3,4) this(1,3)] this(2) obtain l' where
        l': "l' \<in> set (links s'')" "l_task l' = t" "l_superseded_in l' \<noteq> None" by blast
      have "links_ok s''" using wf_run_good [OF later assms(3,4) good] by (simp add: good_def store_ok_def)
      from superseded_not_claimable [OF this l'(1) _ l'(3), of r agent job] l'(2) task_at_SomeD [OF r] show ?thesis by simp
    qed
    with run applied show ?thesis by (simp add: replanned_row_def)
  qed simp_all
qed

theorem replan_preserves_valid_work_witness:
  "\<exists>res s'. sample_replan = Inr (res, s') \<and> rp_applied res \<and> rp_kept res = [1] \<and> rp_retired res = [2] \<and>
     rp_created res = [3, 4] \<and> version_applied sample_plan2 running_store res s'"
proof -
  have valid: "validate_plan sample_plan2 = Inr ()" by code_simp
  have "map_sum id (\<lambda>x. (\<lambda>res. (rp_applied res, rp_kept res, rp_retired res, rp_created res)) (fst x)) sample_replan =
      Inr (True, [1], [2], [3, 4])" by code_simp
  from res_fst [OF this] obtain res s' where r: "sample_replan = Inr (res, s')" "rp_applied res" "rp_kept res = [1]"
    "rp_retired res = [2]" "rp_created res = [3, 4]"
    by auto
  moreover have "version_applied sample_plan2 running_store res s'"
    using replan_preserves_valid_work [OF running_good valid, where digest = sample_digest and
        now = "''t3''" and wid = 1 and base = 1 and names = "[''claude'']"]
      default_positive r unfolding sample_replan_def by simp
  ultimately show ?thesis by blast
qed

end
