(* ===== verification/Coordinator_Guarantees.thy ===== *)
theory Coordinator_Guarantees
  imports Coordinator_Runs Workflow_Versions
begin

text \<open>
  The properties of the coordinator when each of its calls runs alone: it refines the store-level
  system, and the reconciliation decides exactly by the database. What holds with other actors
  between the transactions of one call is in \<open>Coordinator_Completion\<close>, the restart in
  \<open>Coordinator_Recovery\<close>.
\<close>

section \<open>Runs of the coordinator\<close>

inductive coord_call :: "CoordEnv \<Rightarrow> Sys \<Rightarrow> Sys \<Rightarrow> bool" for env where
  create: "coord_call env s (snd (create env payload requester s))"
| start: "coord_call env s (snd (start env wid s))"
| pause: "coord_call env s (snd (pause env wid s))"
| resume: "coord_call env s (snd (resume env wid s))"
| cancel: "coord_call env s (snd (cancel env wid reason s))"
| replan: "coord_call env s (snd (coord_replan env wid payload base s))"
| finish: "coord_call env s (snd (finish env wid outcome summary s))"
| reconcile: "coord_call env s (snd (reconcile env wid s))"
| tick: "coord_call env s (snd (tick env s))"
| recover: "coord_call env s (snd (recover env s))"

text \<open>
  The whole system: calls of the coordinator, under any pool, job, clock and answers of the
  consulted agent, between the operations of the workers.
\<close>

inductive system_step :: "(json \<Rightarrow> pystr) \<Rightarrow> WorkflowLimits \<Rightarrow> Sys \<Rightarrow> Sys \<Rightarrow> bool" for digest limits where
  coordinator: "coord_call env s s' \<Longrightarrow> e_digest env = digest \<Longrightarrow> e_limits env = limits \<Longrightarrow> consult_ok env \<Longrightarrow>
    system_step digest limits s s'"
| worker: "wf_step digest limits (db s) d \<Longrightarrow> system_step digest limits s (s\<lparr>db := d\<rparr>)"

lemma act_keeps_run: "act_keeps R m \<Longrightarrow> R (db s) (db (snd (m s)))"
  by (simp add: act_keeps_def)

lemma coord_call_run:
  assumes "coord_call env s s'" and "consult_ok env"
  shows "env_run env (db s) (db s')"
  using assms(1)
  by cases (simp_all add: act_keeps_run keeps_create keeps_replan keeps_controls keeps_finish
      keeps_reconcile [OF assms(2)] keeps_lifecycle [OF assms(2)])

lemma system_step_run: "system_step digest limits s s' \<Longrightarrow> wf_run digest limits (db s) (db s')"
  by (induction rule: system_step.induct) (auto dest: coord_call_run)

lemma system_run: "(system_step digest limits)\<^sup>*\<^sup>* s s' \<Longrightarrow> wf_run digest limits (db s) (db s')"
  by (induction rule: rtranclp_induct) (auto dest: system_step_run intro: rtranclp_trans)

text \<open>
  C2. The coordinator and the workers together refine the store-level system: whatever methods are
  called, under any environment, and however the consulted agent acts, the database moves only
  along the repositories' operations; so the tables stay consistent, at most one writing task runs,
  the budgets hold, and no plan version is taken back.
\<close>

theorem system_refines_store:
  assumes "(system_step digest limits)\<^sup>*\<^sup>* s s'" and "good limits (db s)"
    and "0 \<le> max_replans limits" and "0 \<le> max_consults limits"
  shows "wf_run digest limits (db s) (db s') \<and> any_run (db s) (db s') \<and> good limits (db s') \<and>
    version_kept (db s) (db s')"
  using system_run [OF assms(1)] wf_run_any [OF system_run [OF assms(1)]]
    wf_run_good [OF system_run [OF assms(1)] assms(3,4,2)]
    version_kept_run [OF system_run [OF assms(1)] assms(2-4)] by blast

definition sample_env :: CoordEnv where
  "sample_env = \<lparr> e_limits = default_limits, e_active = [''claude'', ''codex''], e_available = [''claude''],
     e_job = Some 1, e_live = Some [], e_clock = ''2024-01-01 10:00:00'', e_now = 63839704800000000,
     e_digest = sample_digest, e_sha = id, e_consult = None \<rparr>"

definition sample_sys :: Sys where
  "sample_sys = \<lparr> db = running_store, noticed = [], effects = [] \<rparr>"

theorem system_refines_store_witness:
  "good default_limits (db (snd (tick sample_env (snd (pause sample_env 1 sample_sys)))))"
proof -
  have ok: "e_digest sample_env = sample_digest" "e_limits sample_env = default_limits" "consult_ok sample_env"
    by (simp_all add: sample_env_def consult_ok_def)
  have "(system_step sample_digest default_limits)\<^sup>*\<^sup>* sample_sys (snd (tick sample_env (snd (pause sample_env 1 sample_sys))))"
    using system_step.coordinator [OF coord_call.pause ok] system_step.coordinator [OF coord_call.tick ok]
    by (rule converse_rtranclp_into_rtranclp [OF _ r_into_rtranclp])
  from system_refines_store [OF this] show ?thesis
    using running_good default_positive by (simp add: sample_sys_def)
qed

section \<open>Snapshots\<close>

lemma map_res_image: "map_res f xs = Inr ys \<Longrightarrow> x \<in> set xs \<Longrightarrow> \<exists>y \<in> set ys. f x = Inr y"
  by (induction xs arbitrary: ys) (auto simp: bind_res_Inr)

lemma snapshot_view:
  assumes "snapshot wid s = Inr sn"
  shows "workflow_at s wid = Some (sn_workflow sn)"
    and "l \<in> set (current_links wid s) \<Longrightarrow> \<exists>v r. v \<in> set (sn_tasks sn) \<and> v_link v = l \<and>
      task_at s (l_task l) = Some r \<and> v_status v = t_status r"
proof -
  from assms obtain specs where w: "load_workflow wid s = Inr (sn_workflow sn)"
    and views: "map_res (task_view s specs) (current_links wid s) = Inr (sn_tasks sn)"
    by (auto simp: snapshot_def bind_res_Inr)
  from w show "workflow_at s wid = Some (sn_workflow sn)" by (simp add: load_Inr)
  assume "l \<in> set (current_links wid s)"
  from map_res_image [OF views this] obtain v where "v \<in> set (sn_tasks sn)" "task_view s specs l = Inr v" by blast
  then show "\<exists>v r. v \<in> set (sn_tasks sn) \<and> v_link v = l \<and> task_at s (l_task l) = Some r \<and> v_status v = t_status r"
    by (intro exI [of _ v]) (auto simp: task_view_def split: option.splits)
qed

section \<open>Verdicts\<close>

lemma judge_complete: "judge p views = Complete \<longleftrightarrow> list_all (\<lambda>v. v_status v = ''completed'') views"
  by (simp add: judge_def Let_def)

lemma completed_value: "status_value COMPLETED = ''completed''"
  by (simp add: status_value.simps)

section \<open>The reconciliation decides by the database\<close>

lemma set_status_plain:
  assumes "set_status now wid to reason expected version False att res s = Inr (Some (w, ids), s')"
  shows "s' = update_workflow_row wid (status_row now to reason att res) s"
  using assms by (auto simp: set_status_def bind_res_Inr Let_def split: if_splits)

lemma set_status_applies:
  assumes "workflow_at s wid = Some w" and "w_status w = wf_value from_st" and "to \<in> set (workflow_transitions from_st)"
  shows "set_status now wid to reason (Some [from_st]) (Some (w_plan_version w)) False att res s =
    Inr (Some (status_row now to reason att res w, []), update_workflow_row wid (status_row now to reason att res) s)"
  using assms
  by (simp add: set_status_def load_workflow_def status_row_def workflow_at_update_workflow_row)

lemma unassign_False: "fst (unassign_pending_task now tid owner d) = False \<Longrightarrow> snd (unassign_pending_task now tid owner d) = d"
  by (auto simp: unassign_pending_task_def split: option.splits if_splits)

lemma fail_False: "fst (fail_task now tid reason e st d) = False \<Longrightarrow> snd (fail_task now tid reason e st d) = d"
  by (auto simp: fail_task_def transition_task_def Let_def split: option.splits if_splits)

lemma notify_waiting_result: "\<exists>s'. notify_waiting env wid v role s = (Inr (), s') \<and> db s' = db s"
  by (simp add: notify_waiting_def Let_def)

lemma notify_no_reviewer_result: "\<exists>s'. notify_no_reviewer env wid v s = (Inr (), s') \<and> db s' = db s"
  using notify_waiting_result by (simp add: notify_no_reviewer_def act_bind_def act_when_def)

lemma settle_view_False:
  assumes "settle_view env wid views v s = (Inr False, s')"
  shows "db s' = db s"
proof -
  obtain s1 where "notify_no_reviewer env wid v s = (Inr (), s1)" "db s1 = db s"
    using notify_no_reviewer_result by blast
  moreover obtain s2 where "notify_waiting env wid v ''agente'' s = (Inr (), s2)" "db s2 = db s"
    using notify_waiting_result by blast
  ultimately show ?thesis using assms unassign_False fail_False
    by (auto simp: settle_view_def Let_def act_then_def act_bind_def act_when_def act_write_def wake_def
        split: if_splits)
qed

lemma act_each_False:
  assumes "\<And>v s s'. f v s = (Inr False, s') \<Longrightarrow> db s' = db s"
    and "act_each f vs s = (Inr changes, s')" and "True \<notin> set changes"
  shows "db s' = db s"
  using assms(2,3)
proof (induction vs arbitrary: s changes)
  case (Cons v vs)
  then obtain c cs s1 where c: "f v s = (Inr c, s1)" "act_each f vs s1 = (Inr cs, s')" "changes = c # cs"
    by (auto simp: act_bind_Inr)
  with Cons.prems(2) have "c = False" "True \<notin> set cs" by auto
  with c assms(1) Cons.IH show ?case by metis
qed simp

lemma settle_snapshot:
  assumes "settle_unrunnable env sn s = (Inr sn', s')" and "snapshot wid (db s) = Inr sn" and "w_id (sn_workflow sn) = wid"
  shows "snapshot wid (db s') = Inr sn'"
proof -
  from assms(1) obtain changes s1 where each: "act_each (settle_view env wid (sn_tasks sn)) (sn_tasks sn) s = (Inr changes, s1)"
    and rest: "(if True \<in> set changes then get_snapshot wid else act_return sn) s1 = (Inr sn', s')"
    unfolding settle_unrunnable_def act_bind_Inr assms(3) by blast
  show ?thesis
  proof (cases "True \<in> set changes")
    case True
    with rest show ?thesis by (simp add: get_snapshot_def act_query_Inr)
  next
    case False
    with act_each_False [OF settle_view_False each] rest assms(2) show ?thesis by simp
  qed
qed

lemma requeue_snapshot:
  assumes "requeue_expired env sn s = (Inr sn', s')" and "snapshot wid (db s) = Inr sn" and "w_id (sn_workflow sn) = wid"
  shows "snapshot wid (db s') = Inr sn'"
  using assms by (auto simp: requeue_expired_def act_then_Inr get_snapshot_def act_query_Inr
      split: option.splits if_splits sum.splits)

text \<open>Settling and requeueing touch task rows only.\<close>

interpretation workflow_rows: store_preorder "\<lambda>s t. workflows t = workflows s"
  by unfold_locales auto

lemma tame_workflows: "tame s t \<Longrightarrow> workflows t = workflows s"
  by (simp add: tame_def task_frame_def)

lemma rows_writes:
  "act_keeps (\<lambda>s t. workflows t = workflows s) (act_write (requeue_orphans now obs reason))"
  "act_keeps (\<lambda>s t. workflows t = workflows s) (act_write (unassign_pending_task now tid owner))"
  "act_keeps (\<lambda>s t. workflows t = workflows s) (act_write (fail_task now tid text e st))"
  by (rule workflow_rows.keeps_write,
      simp add: tame_workflows tame_requeue_orphans tame_ops tame_transition_task fail_task_def)+

lemma rows_notify:
  "act_keeps (\<lambda>s t. workflows t = workflows s) (notify_waiting env wid v role)"
  "act_keeps (\<lambda>s t. workflows t = workflows s) (notify_no_reviewer env wid v)"
  by (auto simp: act_keeps_def notify_waiting_def notify_no_reviewer_def act_bind_def act_when_def Let_def)

lemmas rows_intros = workflow_rows.keeps_pure workflow_rows.keeps_bind workflow_rows.keeps_then
  workflow_rows.keeps_when workflow_rows.keeps_each act_keeps_splits rows_writes rows_notify

lemma rows_reconciling:
  "act_keeps (\<lambda>s t. workflows t = workflows s) (requeue_expired env sn)"
  "act_keeps (\<lambda>s t. workflows t = workflows s) (settle_unrunnable env sn)"
  unfolding requeue_expired_def settle_unrunnable_def settle_view_def get_snapshot_def wake_def Let_def
  by (intro rows_intros)+

lemma snapshot_status_row:
  assumes "snapshot wid s = Inr sn" and "w_id (sn_workflow sn) = wid"
  shows "snapshot wid (update_workflow_row wid (status_row now to reason att res) s) =
    Inr (sn\<lparr>sn_workflow := status_row now to reason att res (sn_workflow sn)\<rparr>)"
proof -
  let ?s = "update_workflow_row wid (status_row now to reason att res) s"
  obtain specs where at: "workflow_at s wid = Some (sn_workflow sn)"
    and specs: "plan_specs wid (w_plan_version (sn_workflow sn)) s = Inr specs"
    and views: "map_res (task_view s specs) (current_links wid s) = Inr (sn_tasks sn)"
    using assms(1) snapshot_view(1) [OF assms(1)] by (cases sn) (auto simp: snapshot_def bind_res_Inr load_Inr)
  have "load_workflow wid ?s = Inr (status_row now to reason att res (sn_workflow sn))"
    using at assms(2) by (simp add: load_workflow_def workflow_at_update_workflow_row status_row_def)
  moreover have "plan_specs wid v ?s = plan_specs wid v s" "current_links wid ?s = current_links wid s"
    "task_view ?s specs l = task_view s specs l" for v l
    by (simp_all add: plan_specs_def plan_row_def current_links_def task_view_def update_workflow_row_def task_at_def)
  moreover have "task_view ?s specs = task_view s specs" using calculation(4) by (rule ext)
  ultimately show ?thesis using specs views by (cases sn) (simp add: snapshot_def status_row_def)
qed

lemma reviewable_update_workflow [simp]: "reviewable (update_workflow_row wid f s) v names = reviewable s v names"
  by (simp add: reviewable_def can_review_task_def has_candidate_def)

lemma conclude_alone:
  assumes "e_consult env = None" and "snapshot wid (db s) = Inr sn" and "w_id (sn_workflow sn) = wid"
    and "w_status (sn_workflow sn) = wf_value WF_RUNNING" and "target \<in> {WF_COMPLETED, WF_BLOCKED}"
  shows "\<exists>w s'. conclude env wid target reason sn failed s = (Inr w, s') \<and> w_status w = wf_value target \<and>
    (\<exists>sn'. snapshot wid (db s') = Inr sn' \<and> sn_workflow sn' = w \<and> sn_tasks sn' = sn_tasks sn) \<and>
    (\<forall>v names. reviewable (db s') v names = reviewable (db s) v names)"
proof -
  let ?row = "status_row (e_clock env) target (Some reason) None None"
  have at: "workflow_at (db s) wid = Some (sn_workflow sn)" using snapshot_view(1) [OF assms(2)] .
  have set: "set_status (e_clock env) wid target (Some reason) (Some [WF_RUNNING]) (Some (w_plan_version (sn_workflow sn)))
      False None None (db s) = Inr (Some (?row (sn_workflow sn), []), update_workflow_row wid ?row (db s))"
    using set_status_applies [OF at assms(4)] assms(5) by auto
  show ?thesis
    using snapshot_status_row [OF assms(2,3), of "e_clock env" target "Some reason" None None]
    by (simp add: conclude_def repo_set_status_def act_bind_def act_commit_def set assms(1) act_then_def Let_def)
      (simp add: status_row_def)
qed

definition progress_possible :: "CoordEnv \<Rightarrow> Store \<Rightarrow> TaskView list \<Rightarrow> bool" where
  "progress_possible env d views \<longleftrightarrow> (\<exists>v \<in> set views. v_status v = ''in_progress'' \<or> v_status v = ''reviewing'' \<or>
     (v_status v = ''pending_review'' \<and> reviewable d v (e_active env)) \<or>
     (v_status v = ''pending'' \<and> (\<forall>x \<in> set (v_dependencies v). \<forall>w. by_item views x = Some w \<longrightarrow> v_status w = ''completed'')))"

lemma dep_open_iff: "dep_open views d \<longleftrightarrow> (\<exists>w. by_item views d = Some w \<and> v_status w \<noteq> ''completed'')"
  by (simp add: dep_open_def completed_value split: option.splits)

lemma judge_progress:
  "judge (\<lambda>v. reviewable d v (e_active env)) views = Continue \<longleftrightarrow>
     \<not> (\<forall>v \<in> set views. v_status v = ''completed'') \<and> progress_possible env d views"
proof -
  have "judge (\<lambda>v. reviewable d v (e_active env)) views = Continue \<longleftrightarrow>
      \<not> list_all (\<lambda>v. v_status v = ''completed'') views \<and>
      (list_ex (\<lambda>v. in_flight_view v \<or> (v_status v = ''pending_review'' \<and> reviewable d v (e_active env))) views \<or>
       list_ex (ready_view views) views)"
    by (simp add: judge_def Let_def)
  then show ?thesis
    by (simp add: list_ex_iff list_all_iff progress_possible_def in_flight_view_def ready_view_def deps_done_def
        dep_open_iff) blast
qed

text \<open>
  C3. The reconciliation of a running workflow, alone, leaves it in the state the database calls for:
  \<open>completed\<close> exactly if every current task is completed; otherwise \<open>running\<close> exactly if something
  can still move it (a task in progress or in review, a delivery that an eligible agent of the pool
  can review, a pending task whose dependencies are completed); otherwise \<open>blocked\<close>. So no
  workflow is left running with nothing to wait for, and none is blocked while work is possible.
\<close>

theorem reconcile_decides_by_database:
  assumes "e_consult env = None" and "workflow_at (db s) wid = Some w0" and "w_status w0 = wf_value WF_RUNNING"
    and "reconcile env wid s = (Inr w, s')"
  shows "\<exists>sn. snapshot wid (db s') = Inr sn \<and> w_status (sn_workflow sn) = w_status w \<and>
    w_status w = wf_value (if \<forall>v \<in> set (sn_tasks sn). v_status v = ''completed'' then WF_COMPLETED
      else if progress_possible env (db s') (sn_tasks sn) then WF_RUNNING else WF_BLOCKED)"
proof -
  have id: "w_id w0 = wid" using workflow_at_SomeD [OF assms(2)] by simp
  have load: "load_workflow wid (db s) = Inr w0" using assms(2,3) by (simp add: load_Inr)
  from assms(4) load assms(3) obtain sn0 sn1 s1 sn s2 where s0: "snapshot wid (db s) = Inr sn0"
    and r1: "requeue_expired env sn0 s = (Inr sn1, s1)" and r2: "settle_unrunnable env sn1 s1 = (Inr sn, s2)"
    and fin: "(case judge (\<lambda>v. reviewable (db s2) v (e_active env)) (sn_tasks sn) of
         Complete \<Rightarrow> conclude env wid WF_COMPLETED ''plano concluido'' sn []
       | Continue \<Rightarrow> act_return w0
       | Block reason failed \<Rightarrow> conclude env wid WF_BLOCKED reason sn failed) s2 = (Inr w, s')"
    by (auto simp: reconcile_def act_bind_Inr get_workflow_def get_snapshot_def act_query_Inr id)
  have w_sn0: "w_id (sn_workflow sn0) = wid" using snapshot_view(1) [OF s0] workflow_at_SomeD by blast
  have s1: "snapshot wid (db s1) = Inr sn1" using requeue_snapshot [OF r1 s0 w_sn0] .
  have w_sn1: "w_id (sn_workflow sn1) = wid" using snapshot_view(1) [OF s1] workflow_at_SomeD by blast
  have s2: "snapshot wid (db s2) = Inr sn" using settle_snapshot [OF r2 s1 w_sn1] .
  have "workflows (db s2) = workflows (db s)"
    using act_keepsD [OF rows_reconciling(1) r1] act_keepsD [OF rows_reconciling(2) r2] by simp
  then have sw: "sn_workflow sn = w0" using snapshot_view(1) [OF s2] assms(2) by (simp add: workflow_at_def)
  have wid: "w_id (sn_workflow sn) = wid" and run: "w_status (sn_workflow sn) = wf_value WF_RUNNING"
    using id assms(3) by (simp_all add: sw)
  note alone = conclude_alone [OF assms(1) s2 wid run]
  show ?thesis
  proof (cases "judge (\<lambda>v. reviewable (db s2) v (e_active env)) (sn_tasks sn)")
    case Complete
    then have c: "conclude env wid WF_COMPLETED ''plano concluido'' sn [] s2 = (Inr w, s')" using fin by simp
    from alone [of WF_COMPLETED "''plano concluido''" "[]"] c obtain sn' where
      sn': "snapshot wid (db s') = Inr sn'" "sn_workflow sn' = w" "sn_tasks sn' = sn_tasks sn"
        "w_status w = wf_value WF_COMPLETED" by auto
    have "\<forall>v \<in> set (sn_tasks sn). v_status v = ''completed''" using Complete by (simp add: judge_complete list_all_iff)
    with sn' show ?thesis by (intro exI [of _ sn']) simp
  next
    case Continue
    then show ?thesis using fin s2 assms(3) judge_progress [of "db s2" env "sn_tasks sn"] sw by auto
  next
    case (Block reason failed)
    then have "\<not> (\<forall>v \<in> set (sn_tasks sn). v_status v = ''completed'')" "\<not> progress_possible env (db s2) (sn_tasks sn)"
      using judge_progress [of "db s2" env "sn_tasks sn"]
        judge_complete [of "\<lambda>v. reviewable (db s2) v (e_active env)" "sn_tasks sn"]
      by (auto simp: list_all_iff)
    moreover have c: "conclude env wid WF_BLOCKED reason sn failed s2 = (Inr w, s')" using fin Block by simp
    from alone [of WF_BLOCKED reason failed] c obtain sn' where
      sn': "snapshot wid (db s') = Inr sn'" "sn_workflow sn' = w" "sn_tasks sn' = sn_tasks sn"
        "w_status w = wf_value WF_BLOCKED" "\<forall>v names. reviewable (db s') v names = reviewable (db s2) v names" by auto
    moreover have "progress_possible env (db s') (sn_tasks sn) = progress_possible env (db s2) (sn_tasks sn)"
      using sn'(5) by (simp add: progress_possible_def)
    ultimately show ?thesis by (intro exI [of _ sn']) simp
  qed
qed

text \<open>Task 2 is still being executed in \<open>writing_store\<close>: the reconciliation keeps the workflow running.\<close>

theorem reconcile_decides_by_database_witness:
  "\<exists>s' w sn. reconcile (sample_env\<lparr>e_live := None\<rparr>) 1 (sample_sys\<lparr>db := writing_store\<rparr>) = (Inr w, s') \<and>
     snapshot 1 (db s') = Inr sn \<and> w_status (sn_workflow sn) = wf_value WF_RUNNING"
proof -
  let ?env = "sample_env\<lparr>e_live := None\<rparr>" and ?s = "sample_sys\<lparr>db := writing_store\<rparr>"
  have "map_sum id w_status (fst (reconcile ?env 1 ?s)) = Inr (wf_value WF_RUNNING)" by code_simp
  then obtain w s' where r: "reconcile ?env 1 ?s = (Inr w, s')" "w_status w = wf_value WF_RUNNING"
    by (cases "reconcile ?env 1 ?s"; cases "fst (reconcile ?env 1 ?s)") auto
  have "map_option w_status (workflow_at writing_store 1) = Some (wf_value WF_RUNNING)" by code_simp
  then obtain w0 where "workflow_at (db ?s) 1 = Some w0" "w_status w0 = wf_value WF_RUNNING" by auto
  from reconcile_decides_by_database [OF _ this r(1)] r show ?thesis by (auto simp: sample_env_def)
qed

end
