(* ===== verification/Coordinator_Completion.thy ===== *)
theory Coordinator_Completion
  imports Coordinator_Interleaving Coordinator_Guarantees
begin

text \<open>
  What the methods that end a workflow guarantee when others act between their transactions, by
  triples of the rely-guarantee kind: the precondition of a transaction must be stable under the
  others, and each transaction must keep the guarantee. The rely is any sequence of operations of
  the two repositories.
\<close>

section \<open>Rely and guarantee\<close>

definition others_ok :: "CoordEnv \<Rightarrow> (Store \<Rightarrow> Store) list \<Rightarrow> bool" where
  "others_ok env fs \<longleftrightarrow> (\<forall>f \<in> set fs. \<forall>d. env_run env d (f d))"

definition is_completed :: "Store \<Rightarrow> int \<Rightarrow> bool" where
  "is_completed d wid \<longleftrightarrow> (case workflow_at d wid of None \<Rightarrow> False | Some w \<Rightarrow> w_status w = wf_value WF_COMPLETED)"

definition tasks_accepted :: "Store \<Rightarrow> int \<Rightarrow> bool" where
  "tasks_accepted d wid \<longleftrightarrow> list_all (\<lambda>l. case task_at d (l_task l) of None \<Rightarrow> False
     | Some r \<Rightarrow> t_status r = status_value COMPLETED) (current_links wid d)"

lemma is_completed_iff: "is_completed d wid \<longleftrightarrow> (\<exists>w. workflow_at d wid = Some w \<and> w_status w = wf_value WF_COMPLETED)"
  by (simp add: is_completed_def split: option.splits)

lemma tasks_accepted_iff: "tasks_accepted d wid \<longleftrightarrow> (\<forall>l \<in> set (current_links wid d).
    \<exists>r. task_at d (l_task l) = Some r \<and> t_status r = status_value COMPLETED)"
  by (auto simp: tasks_accepted_def list_all_iff split: option.splits)

text \<open>The guarantee: a transaction that completes a workflow leaves its current tasks accepted.\<close>

definition completes_soundly :: "Store \<Rightarrow> Store \<Rightarrow> bool" where
  "completes_soundly d d' \<longleftrightarrow> (\<forall>wid. is_completed d' wid \<longrightarrow> is_completed d wid \<or> tasks_accepted d' wid)"

definition shared_ok :: "CoordEnv \<Rightarrow> Shared \<Rightarrow> bool" where
  "shared_ok env sh \<longleftrightarrow> good (e_limits env) (store_of sh) \<and> others_ok env (sh_others sh) \<and>
     (\<forall>(d, d') \<in> set (sh_commits sh). completes_soundly d d')"

definition limits_ok :: "CoordEnv \<Rightarrow> bool" where
  "limits_ok env \<longleftrightarrow> 0 \<le> max_replans (e_limits env) \<and> 0 \<le> max_consults (e_limits env)"

definition stable :: "CoordEnv \<Rightarrow> (Store \<Rightarrow> bool) \<Rightarrow> bool" where
  "stable env P \<longleftrightarrow> (\<forall>d d'. good (e_limits env) d \<longrightarrow> P d \<longrightarrow> env_run env d d' \<longrightarrow> P d')"

definition triple :: "CoordEnv \<Rightarrow> (Store \<Rightarrow> bool) \<Rightarrow> 'a shared \<Rightarrow> ('a \<Rightarrow> Store \<Rightarrow> bool) \<Rightarrow> bool" where
  "triple env P m Q \<longleftrightarrow> (\<forall>sh r sh'. shared_ok env sh \<longrightarrow> P (store_of sh) \<longrightarrow> m sh = (r, sh') \<longrightarrow>
     shared_ok env sh' \<and> (\<forall>x. r = Inr x \<longrightarrow> Q x (store_of sh')))"

named_theorems triples "rules of the triples"

lemma tripleD: "triple env P m Q \<Longrightarrow> shared_ok env sh \<Longrightarrow> P (store_of sh) \<Longrightarrow> m sh = (r, sh') \<Longrightarrow>
    shared_ok env sh' \<and> (\<forall>x. r = Inr x \<longrightarrow> Q x (store_of sh'))"
  by (simp add: triple_def)

section \<open>Rules\<close>

lemma triple_return: "(\<And>d. P d \<Longrightarrow> Q x d) \<Longrightarrow> triple env P (act_return x) Q"
  by (auto simp: triple_def)

lemma triple_raise [triples]: "triple env P (act_raise e) Q"
  by (auto simp: triple_def)

lemma triple_bind:
  assumes "triple env P m R" and "\<And>x. triple env (R x) (f x) Q"
  shows "triple env P (act_bind m f) Q"
  unfolding triple_def
proof (intro allI impI)
  fix sh r sh' assume ok: "shared_ok env sh" "P (store_of sh)" and run: "act_bind m f sh = (r, sh')"
  obtain r1 sh1 where m: "m sh = (r1, sh1)" by fastforce
  note 1 = tripleD [OF assms(1) ok m]
  show "shared_ok env sh' \<and> (\<forall>x. r = Inr x \<longrightarrow> Q x (store_of sh'))"
  proof (cases r1)
    case (Inl e)
    with run m 1 show ?thesis by (auto simp: act_bind_def)
  next
    case (Inr x)
    with run m have "f x sh1 = (r, sh')" by (simp add: act_bind_def)
    with 1 Inr tripleD [OF assms(2)] show ?thesis by blast
  qed
qed

lemma triple_then: "triple env P m R \<Longrightarrow> (\<And>x. triple env (R x) m' Q) \<Longrightarrow> triple env P (act_then m m') Q"
  unfolding act_then_def by (rule triple_bind)

lemma triple_weaken: "triple env P m Q \<Longrightarrow> (\<And>d. P' d \<Longrightarrow> P d) \<Longrightarrow> (\<And>x d. Q x d \<Longrightarrow> Q' x d) \<Longrightarrow> triple env P' m Q'"
  unfolding triple_def by blast

text \<open>An assertion that every step keeps; the rules above for it, with the construct unfolded.\<close>

abbreviation keeping :: "CoordEnv \<Rightarrow> (Store \<Rightarrow> bool) \<Rightarrow> 'a shared \<Rightarrow> bool" where
  "keeping env P m \<equiv> triple env P m (\<lambda>_. P)"

lemma keeping_return [triples]: "keeping env P (act_return x)"
  by (rule triple_return)

lemma keeping_bind [triples]: "keeping env P m \<Longrightarrow> (\<And>x. keeping env P (f x)) \<Longrightarrow> keeping env P (act_bind m f)"
  by (rule triple_bind)

lemma keeping_then [triples]: "keeping env P m \<Longrightarrow> keeping env P m' \<Longrightarrow> keeping env P (act_then m m')"
  by (rule triple_then)

lemma keeping_when [triples]: "(c \<Longrightarrow> keeping env P m) \<Longrightarrow> keeping env P (act_when c m)"
  by (auto simp: act_when_def intro: triples)

lemma keeping_each [triples]: "(\<And>x. keeping env P (f x)) \<Longrightarrow> keeping env P (act_each f xs)"
  by (induction xs) (auto intro: triples)

lemma triple_if [triples]: "(c \<Longrightarrow> triple env P m Q) \<Longrightarrow> (\<not> c \<Longrightarrow> triple env P m' Q) \<Longrightarrow>
    triple env P (if c then m else m') Q"
  by simp

lemma triple_option [triples]: "(r = None \<Longrightarrow> triple env P m Q) \<Longrightarrow> (\<And>x. r = Some x \<Longrightarrow> triple env P (f x) Q) \<Longrightarrow>
    triple env P (case r of None \<Rightarrow> m | Some x \<Rightarrow> f x) Q"
  by (cases r) simp_all

lemma triple_sum [triples]: "(\<And>x. r = Inl x \<Longrightarrow> triple env P (f x) Q) \<Longrightarrow> (\<And>x. r = Inr x \<Longrightarrow> triple env P (g x) Q) \<Longrightarrow>
    triple env P (case r of Inl x \<Rightarrow> f x | Inr x \<Rightarrow> g x) Q"
  by (cases r) simp_all

lemma triple_prod [triples]: "(\<And>x y. r = (x, y) \<Longrightarrow> triple env P (f x y) Q) \<Longrightarrow> triple env P (case r of (x, y) \<Rightarrow> f x y) Q"
  by (cases r) simp_all

text \<open>Transactions.\<close>

lemma others_act_ok:
  assumes "limits_ok env" and "stable env P" and "shared_ok env sh" and "P (store_of sh)"
  shows "shared_ok env (others_act sh) \<and> P (store_of (others_act sh))"
proof (cases "sh_others sh")
  case (Cons f fs)
  with assms(3) have run: "env_run env (store_of sh) (f (store_of sh))" by (simp add: shared_ok_def others_ok_def)
  have "good (e_limits env) (f (store_of sh))"
    using wf_run_good [OF run] assms(1,3) by (simp add: limits_ok_def shared_ok_def)
  with assms run show ?thesis by (auto simp: others_act_def Cons shared_ok_def others_ok_def stable_def)
qed (use assms in \<open>simp add: others_act_def\<close>)

lemma triple_tx:
  assumes "limits_ok env" and "stable env P" and "act_keeps (env_run env) m"
    and "\<And>s r s'. good (e_limits env) (db s) \<Longrightarrow> P (db s) \<Longrightarrow> m s = (r, s') \<Longrightarrow>
      completes_soundly (db s) (db s') \<and> (\<forall>x. r = Inr x \<longrightarrow> Q x (db s'))"
  shows "triple env P (tx m) Q"
  unfolding triple_def
proof (intro allI impI)
  fix sh r sh' assume ok: "shared_ok env sh" "P (store_of sh)" and run: "tx m sh = (r, sh')"
  let ?sh = "others_act sh"
  obtain s' where m: "m (sh_sys ?sh) = (r, s')" and sh': "sh' = ?sh\<lparr>sh_sys := s',
      sh_commits := sh_commits ?sh @ [(store_of ?sh, db s')]\<rparr>"
    using run by (auto simp: tx_def Let_def split: prod.splits)
  note 1 = others_act_ok [OF assms(1,2) ok]
  then have good: "good (e_limits env) (store_of ?sh)" by (simp add: shared_ok_def)
  have "good (e_limits env) (db s')"
    using wf_run_good [OF act_keepsD [OF assms(3) m] _ _ good] assms(1) by (simp add: limits_ok_def)
  with 1 assms(4) [OF good _ m] show "shared_ok env sh' \<and> (\<forall>x. r = Inr x \<longrightarrow> Q x (store_of sh'))"
    by (auto simp: sh' shared_ok_def)
qed

lemma keeping_tx:
  assumes "limits_ok env" and "stable env P" and "act_keeps (env_run env) m" and "act_keeps completes_soundly m"
  shows "keeping env P (tx m)"
proof (rule triple_tx [OF assms(1-3)])
  fix s r s' assume g: "good (e_limits env) (db s)" "P (db s)" and m: "m s = (r, s')"
  from assms(2) g act_keepsD [OF assms(3) m] have "P (db s')" unfolding stable_def by blast
  with act_keepsD [OF assms(4) m] show "completes_soundly (db s) (db s') \<and> (\<forall>x. r = Inr x \<longrightarrow> P (db s'))" by simp
qed

lemma keeping_foreign:
  assumes "limits_ok env" and "stable env P" and "act_keeps (env_run env) m"
  shows "keeping env P (foreign m)"
  unfolding triple_def
proof (intro allI impI)
  fix sh r sh' assume ok: "shared_ok env sh" "P (store_of sh)" and run: "foreign m sh = (r, sh')"
  let ?sh = "others_act sh"
  obtain s' where m: "m (sh_sys ?sh) = (r, s')" and sh': "sh' = ?sh\<lparr>sh_sys := s'\<rparr>"
    using run by (auto simp: foreign_def Let_def split: prod.splits)
  note 1 = others_act_ok [OF assms(1,2) ok]
  then have good: "good (e_limits env) (store_of ?sh)" by (simp add: shared_ok_def)
  have "good (e_limits env) (db s')"
    using wf_run_good [OF act_keepsD [OF assms(3) m] _ _ good] assms(1) by (simp add: limits_ok_def)
  moreover have "P (db s')" using assms(2) 1 good act_keepsD [OF assms(3) m] unfolding stable_def by blast
  ultimately show "shared_ok env sh' \<and> (\<forall>x. r = Inr x \<longrightarrow> P (store_of sh'))"
    using 1 by (simp add: sh' shared_ok_def)
qed

lemma keeping_plain: "act_keeps (\<lambda>d d'. d' = d) m \<Longrightarrow> keeping env P (plain m)"
  unfolding triple_def plain_def
  by (auto simp: shared_ok_def dest: act_keepsD split: prod.splits)

section \<open>The transactions\<close>

lemma stable_True [simp]: "stable env (\<lambda>_. True)"
  by (simp add: stable_def)

lemma triple_known: "(\<And>d. P d \<Longrightarrow> c) \<Longrightarrow> (c \<Longrightarrow> triple env P m Q) \<Longrightarrow> triple env P m Q"
  unfolding triple_def by blast

text \<open>Writes that complete no workflow.\<close>

lemma sound_rows: "workflows d' = workflows d \<Longrightarrow> completes_soundly d d'"
  by (simp add: completes_soundly_def is_completed_iff workflow_at_def)

lemma sound_update:
  assumes "workflows d' = update_where p f (workflows d)" and "\<And>w. w_id (f w) = w_id w \<and> w_status (f w) = w_status w"
  shows "completes_soundly d d'"
  using assms by (auto simp: completes_soundly_def is_completed_iff workflow_at_def find_update_where split: if_splits)

lemma sound_queries:
  "act_keeps completes_soundly (act_ask f)" "act_keeps completes_soundly (act_query err g)"
  "act_keeps completes_soundly (get_workflow wid)"
  by (auto simp: act_keeps_def get_workflow_def act_query_def sound_rows split: sum.splits)

lemma sound_writes:
  "act_keeps completes_soundly (act_write (requeue_orphans now obs reason))"
  "act_keeps completes_soundly (act_write (unassign_pending_task now tid owner))"
  "act_keeps completes_soundly (act_write (fail_task now tid text e st))"
  "act_keeps completes_soundly (act_write (set_result now wid res status v only_empty))"
  "act_keeps completes_soundly (act_write (claim_consult limits now wid attention))"
  using rows_writes
  by (auto simp: act_keeps_def act_write_def sound_rows)
    (rule sound_update, simp add: set_result_def claim_consult_def Let_def, simp)+

lemma workflow_at_status_row:
  "workflow_at (update_workflow_row wid (status_row now to reason att res) d) x =
    (if x = wid then map_option (status_row now to reason att res) (workflow_at d x) else workflow_at d x)"
  by (simp add: workflow_at_update_workflow_row status_row_def)

lemma sound_set_status:
  assumes "target \<noteq> WF_COMPLETED"
  shows "act_keeps completes_soundly (repo_set_status env wid target reason expected version cancelling res)"
proof (rule act_keepsI)
  fix s
  let ?a = "repo_set_status env wid target reason expected version cancelling res"
  have other: "wf_value target \<noteq> wf_value WF_COMPLETED" using assms by (cases target) simp_all
  show "completes_soundly (db s) (db (snd (?a s)))"
  proof (cases "set_status (e_clock env) wid target reason expected version cancelling None res (db s)")
    case (Inl e)
    then show ?thesis by (simp add: repo_set_status_def act_commit_def sound_rows)
  next
    case (Inr p)
    obtain changed d where p: "p = (changed, d)" by fastforce
    have "completes_soundly (db s) d" using set_status_cases [OF Inr [unfolded p]]
    proof (elim disjE exE conjE)
      fix t w ids assume "tame (db s) t" and d: "d = update_workflow_row wid (status_row (e_clock env) target reason None res) t"
      then have "workflow_at t = workflow_at (db s)" by (auto simp: workflow_at_def tame_workflows)
      then show ?thesis using other
        by (auto simp: d completes_soundly_def is_completed_iff workflow_at_status_row split: if_splits)
          (simp add: status_row_def)
    qed (simp add: sound_rows)
    then show ?thesis by (simp add: repo_set_status_def act_commit_def Inr p)
  qed
qed

text \<open>Every transaction but the completing one, and the steps outside the database.\<close>

lemma keeping_transactions [triples]:
  assumes "limits_ok env" and "stable env P"
  shows "keeping env P (tx (act_ask f))" and "keeping env P (tx (act_query err g))"
    and "keeping env P (tx (get_workflow wid))"
    and "keeping env P (tx (act_write (requeue_orphans now obs reason)))"
    and "keeping env P (tx (act_write (unassign_pending_task now tid owner)))"
    and "keeping env P (tx (act_write (fail_task now tid text e st)))"
    and "keeping env P (tx (act_write (set_result now wid result status v only_empty)))"
    and "keeping env P (tx (act_write (claim_consult (e_limits env) now wid attention)))"
    and "target \<noteq> WF_COMPLETED \<Longrightarrow> keeping env P (tx (repo_set_status env wid target ropt expected version cancelling res))"
  by (rule keeping_tx [OF assms], (rule keeps runs.keeps_pure sound_queries sound_writes sound_set_status, assumption?)+)+

lemma keeping_effects [triples]:
  "keeping env P (plain (act_effect e))" "keeping env P (plain wake)" "keeping env P (plain (interrupt_tasks ids))"
  "keeping env P (plain (notify_waiting env' wid v role))"
  by (rule keeping_plain, simp add: act_keeps_def wake_def interrupt_tasks_def act_when_def notify_waiting_def Let_def)+

section \<open>What a snapshot vouches for\<close>

text \<open>
  Read at several moments, a snapshot still vouches for this, from its last read on and whatever
  the others do: if the version of the plan is the one it read, its links are the current ones, and
  every task it shows as completed is completed.
\<close>

definition version_seen :: "int \<Rightarrow> WorkflowRow \<Rightarrow> LinkRow list option \<Rightarrow> Store \<Rightarrow> bool" where
  "version_seen wid w ls d \<longleftrightarrow> w_id w = wid \<and> (\<exists>w1. workflow_at d wid = Some w1 \<and> w_plan_version w \<le> w_plan_version w1 \<and>
     (\<forall>l. ls = Some l \<longrightarrow> w_plan_version w1 = w_plan_version w \<longrightarrow> current_links wid d = l))"

definition vouched :: "int \<Rightarrow> WorkflowSnapshot \<Rightarrow> Store \<Rightarrow> bool" where
  "vouched wid sn d \<longleftrightarrow> version_seen wid (sn_workflow sn) (Some (map v_link (sn_tasks sn))) d \<and>
     (\<forall>v \<in> set (sn_tasks sn). v_status v = ''completed'' \<longrightarrow>
       (\<exists>r. task_at d (l_task (v_link v)) = Some r \<and> t_status r = ''completed''))"

lemma stable_version_seen:
  assumes "limits_ok env" shows "stable env (version_seen wid w ls)"
  unfolding stable_def
proof (intro allI impI)
  fix d d' assume g: "good (e_limits env) d" and P: "version_seen wid w ls d" and run: "env_run env d d'"
  have kept: "version_kept d d'" using version_kept_run [OF run g] assms by (simp add: limits_ok_def)
  from P obtain w1 where w1: "workflow_at d wid = Some w1" "w_plan_version w \<le> w_plan_version w1"
    "\<And>l. ls = Some l \<Longrightarrow> w_plan_version w1 = w_plan_version w \<Longrightarrow> current_links wid d = l" "w_id w = wid"
    by (auto simp: version_seen_def)
  from kept w1(1) obtain w2 where "workflow_at d' wid = Some w2" "w_plan_version w1 \<le> w_plan_version w2"
    "w_plan_version w2 = w_plan_version w1 \<longrightarrow> current_links wid d' = current_links wid d"
    unfolding version_kept_def by blast
  with w1 show "version_seen wid w ls d'" by (auto simp: version_seen_def)
qed

lemma completed_stays:
  assumes "good limits d" and "wf_run digest limits d d'" and "task_at d tid = Some r" and "t_status r = ''completed''"
  shows "\<exists>r'. task_at d' tid = Some r' \<and> t_status r' = ''completed''"
proof -
  have "settled COMPLETED r" using assms(4) by (simp add: settled_def task_terminal_iff completed_value)
  moreover have "ids_ok d" using assms(1) by (simp add: good_def store_ok_def)
  ultimately show ?thesis
    using outcome_final.kept_any [OF wf_run_any [OF assms(2)] _ assms(3), of COMPLETED]
    by (auto simp: settled_def completed_value)
qed

lemma stable_vouched: "limits_ok env \<Longrightarrow> stable env (vouched wid sn)"
  using stable_version_seen [of env wid "sn_workflow sn"] completed_stays [of "e_limits env"]
  unfolding stable_def vouched_def by metis

lemma views_vouch:
  assumes "map_res (task_view d specs) ls = Inr views"
  shows "map v_link views = ls" and "v \<in> set views \<Longrightarrow> \<exists>r. task_at d (l_task (v_link v)) = Some r \<and> t_status r = v_status v"
  using assms by (induction ls arbitrary: views) (auto simp: bind_res_Inr task_view_def split: option.splits)

lemma triple_snapshot:
  assumes "limits_ok env"
  shows "triple env P (snapshot_amid wid) (vouched wid)"
proof -
  note tx = triple_tx [OF assms] and st = stable_version_seen [OF assms]
  have 1: "triple env (\<lambda>_. True) (tx (get_workflow wid)) (\<lambda>w. version_seen wid w None)"
    by (rule tx [OF stable_True keeps_queries(1)])
      (auto simp: get_workflow_def act_query_def load_Inr version_seen_def sound_rows split: sum.splits dest: workflow_at_SomeD)
  have 2: "triple env (version_seen wid w None) (tx (act_ask (current_links wid))) (\<lambda>ls. version_seen wid w (Some ls))" for w
    by (rule tx [OF st]) (auto simp: runs.keeps_pure version_seen_def sound_rows)
  have 3: "keeping env (version_seen wid w (Some ls)) (tx (act_query StoreFailed (plan_specs wid v)))" for w ls v
    by (rule triples assms st)+
  have 4: "triple env (version_seen wid w (Some ls)) (tx (act_query StoreFailed (\<lambda>d. map_res (task_view d specs) ls)))
      (\<lambda>views. vouched wid \<lparr> sn_workflow = w, sn_tasks = views \<rparr>)" for w ls specs
    by (rule tx [OF st runs.keeps_pure(5)])
      (auto simp: vouched_def views_vouch sound_rows act_query_def split: sum.splits dest: views_vouch(2))
  have "triple env (\<lambda>_. True) (snapshot_amid wid) (vouched wid)"
    unfolding snapshot_amid_def by (rule triple_bind 1 2 3 4 triple_return)+
  then show ?thesis by (rule triple_weaken) simp_all
qed

section \<open>The methods\<close>

lemma triple_requeue:
  assumes "limits_ok env"
  shows "triple env (vouched wid sn) (requeue_expired_amid env sn) (vouched wid)"
proof -
  have wid: "vouched wid sn d \<Longrightarrow> w_id (sn_workflow sn) = wid" for d by (simp add: vouched_def version_seen_def)
  have "w_id (sn_workflow sn) = wid \<Longrightarrow> triple env (vouched wid sn) (requeue_expired_amid env sn) (vouched wid)"
    unfolding requeue_expired_amid_def
    by (auto intro!: triple_option triple_sum triple_if triple_return triple_raise
        triple_then [OF keeping_transactions(4) [OF assms stable_vouched [OF assms]]] triple_snapshot [OF assms])
  then show ?thesis using triple_known [of "vouched wid sn"] wid by metis
qed

lemma keeping_settle:
  assumes "limits_ok env" and "stable env P"
  shows "keeping env P (settle_view_amid env wid views v)"
  unfolding settle_view_amid_def notify_no_reviewer_amid_def fail_unrunnable_amid_def Let_def
  by (intro triples assms)

lemma triple_settle:
  assumes "limits_ok env"
  shows "triple env (vouched wid sn) (settle_unrunnable_amid env sn) (vouched wid)"
proof -
  have wid: "vouched wid sn d \<Longrightarrow> w_id (sn_workflow sn) = wid" for d by (simp add: vouched_def version_seen_def)
  have "w_id (sn_workflow sn) = wid \<Longrightarrow> triple env (vouched wid sn) (settle_unrunnable_amid env sn) (vouched wid)"
    unfolding settle_unrunnable_amid_def
    by (auto intro!: triple_bind [OF keeping_each [OF keeping_settle [OF assms stable_vouched [OF assms]]]]
        triple_if triple_return triple_snapshot [OF assms])
  then show ?thesis using triple_known [of "vouched wid sn"] wid by metis
qed

text \<open>
  The completing transaction: the comparison of the version with the one of the snapshot makes its
  links the current ones, and the snapshot vouches for their tasks.
\<close>

lemma triple_complete:
  assumes "limits_ok env" and "list_all (\<lambda>v. v_status v = ''completed'') (sn_tasks sn)"
  shows "triple env (vouched wid sn) (tx (repo_set_status env wid WF_COMPLETED reason expected
    (Some (w_plan_version (sn_workflow sn))) False res)) (\<lambda>_ _. True)"
proof (rule triple_tx [OF assms(1) stable_vouched [OF assms(1)] keeps_set_status])
  fix s r s' assume g: "good (e_limits env) (db s)" and P: "vouched wid sn (db s)"
    and run: "repo_set_status env wid WF_COMPLETED reason expected (Some (w_plan_version (sn_workflow sn))) False res s = (r, s')"
  have "completes_soundly (db s) (db s')"
  proof (cases "set_status (e_clock env) wid WF_COMPLETED reason expected (Some (w_plan_version (sn_workflow sn)))
      False None res (db s)")
    case (Inl e)
    with run show ?thesis by (auto simp: repo_set_status_def act_commit_def sound_rows)
  next
    case (Inr p)
    then obtain changed where set: "set_status (e_clock env) wid WF_COMPLETED reason expected
        (Some (w_plan_version (sn_workflow sn))) False None res (db s) = Inr (changed, db s')"
      using run by (cases p) (auto simp: repo_set_status_def act_commit_def)
    show ?thesis using set_status_cases [OF set]
    proof (elim disjE exE conjE)
      fix t w ids assume t: "tame (db s) t"
        and s': "db s' = update_workflow_row wid (status_row (e_clock env) WF_COMPLETED reason None res) t"
        and w: "workflow_at (db s) wid = Some w"
        and v: "\<forall>v. Some (w_plan_version (sn_workflow sn)) = Some v \<longrightarrow> w_plan_version w = v"
      have "current_links wid (db s) = map v_link (sn_tasks sn)"
        using P w v by (auto simp: vouched_def version_seen_def)
      moreover have "current_links wid (db s') = current_links wid (db s)"
        using t by (simp add: s' current_links_def update_workflow_row_def tame_def task_frame_def)
      ultimately have links: "current_links wid (db s') = map v_link (sn_tasks sn)" by simp
      have step: "env_run env (db s) (db s')" using wf_step.set_status [OF set] by blast
      have "tasks_accepted (db s') wid"
        using completed_stays [OF g step] P assms(2) by (fastforce simp: tasks_accepted_iff links vouched_def list_all_iff completed_value)
      moreover have "workflow_at t = workflow_at (db s)" using t by (auto simp: workflow_at_def tame_workflows)
      then have "is_completed (db s') x \<Longrightarrow> x \<noteq> wid \<Longrightarrow> is_completed (db s) x" for x
        by (auto simp: s' is_completed_iff workflow_at_status_row)
      ultimately show ?thesis by (auto simp: completes_soundly_def)
    qed (simp add: sound_rows)
  qed
  then show "completes_soundly (db s) (db s') \<and> (\<forall>x. r = Inr x \<longrightarrow> True)" by simp
qed

lemma keeping_consult:
  assumes "limits_ok env" and "consult_ok env" and "e_consult env = Some ask"
  shows "keeping env (\<lambda>_. True) (consult_amid env target attention text ask w)"
proof -
  have "act_keeps (env_run env) (\<lambda>s. let (answer, s') = ask w attention text s in (Inr (or_empty answer), s'))"
    using assms by (auto simp: act_keeps_def consult_ok_def split_beta)
  from keeping_foreign [OF assms(1) stable_True this] show ?thesis
    unfolding consult_amid_def by (intro triples assms(1) stable_True)
qed

lemma triple_conclude:
  assumes "limits_ok env" and "consult_ok env"
    and "target = WF_COMPLETED \<Longrightarrow> list_all (\<lambda>v. v_status v = ''completed'') (sn_tasks sn)"
  shows "triple env (vouched wid sn) (conclude_amid env wid target reason sn failed) (\<lambda>_ _. True)"
proof -
  have "triple env (vouched wid sn) (tx (repo_set_status env wid target (Some reason) (Some [WF_RUNNING])
      (Some (w_plan_version (sn_workflow sn))) False None)) (\<lambda>_ _. True)"
  proof (cases "target = WF_COMPLETED")
    case True
    with triple_complete [OF assms(1)] assms(3) show ?thesis by simp
  next
    case False
    show ?thesis
      by (rule triple_weaken [OF keeping_transactions(9) [OF assms(1) stable_True False]]) simp_all
  qed
  then show ?thesis unfolding conclude_amid_def Let_def
    by (rule triple_bind) (intro triples keeping_consult [OF assms(1,2)] assms(1) stable_True)
qed

lemma keeping_in_flight: "limits_ok env \<Longrightarrow> stable env P \<Longrightarrow> keeping env P (in_flight_amid env vs)"
  by (induction vs) (auto intro: triples)

lemma triple_reconcile:
  assumes "limits_ok env" and "consult_ok env"
  shows "triple env (\<lambda>_. True) (reconcile_amid env wid) (\<lambda>_ _. True)"
proof -
  let ?id = "\<lambda>w d. w_id w = wid"
  have get: "triple env (\<lambda>_. True) (tx (get_workflow wid)) ?id"
    by (rule triple_tx [OF assms(1) stable_True keeps_queries(1)])
      (auto simp: get_workflow_def act_query_def load_Inr sound_rows split: sum.splits dest: workflow_at_SomeD)
  have flying: "keeping env (vouched wid sn) (in_flight_amid env (sn_tasks sn))" for sn
    by (rule keeping_in_flight [OF assms(1) stable_vouched [OF assms(1)]])
  have body: "triple env (?id w) (act_bind (snapshot_amid wid) (\<lambda>sn0.
       act_bind (requeue_expired_amid env sn0) (\<lambda>sn1.
       act_bind (settle_unrunnable_amid env sn1) (\<lambda>sn.
       if list_all (\<lambda>v. v_status v = ''completed'') (sn_tasks sn) then
         conclude_amid env (w_id w) WF_COMPLETED ''plano concluido'' sn []
       else act_bind (in_flight_amid env (sn_tasks sn)) (\<lambda>flying.
         if flying \<or> list_ex (ready_view (sn_tasks sn)) (sn_tasks sn) then act_return w
         else case block_reason (sn_tasks sn) of (reason, failed) \<Rightarrow>
           conclude_amid env (w_id w) WF_BLOCKED reason sn failed))))) (\<lambda>_ _. True)"
    if "w_id w = wid" for w
    unfolding that
    by (intro triple_bind [OF triple_snapshot [OF assms(1)]] triple_bind [OF triple_requeue [OF assms(1)]]
        triple_bind [OF triple_settle [OF assms(1)]] triple_if triple_bind [OF flying] triple_prod
        triple_conclude [OF assms] triple_return) auto
  show ?thesis unfolding reconcile_amid_def
    by (rule triple_bind [OF get], rule triple_if, rule triple_return, simp, rule triple_known [of "?id _"])
      (use body in auto)
qed

lemma triple_move:
  assumes "limits_ok env" and "list_all (\<lambda>v. v_status v = ''completed'') (sn_tasks sn)"
  shows "triple env (vouched wid sn) (move_workflow_amid env wid WF_COMPLETED expected reason
    (Some (w_plan_version (sn_workflow sn)))) (\<lambda>_ _. True)"
  unfolding move_workflow_amid_def
  by (rule triple_bind [OF triple_complete [OF assms]]) (intro triples assms(1) stable_True)

lemma triple_finish_completed:
  assumes "limits_ok env"
  shows "triple env (\<lambda>_. True) (finish_completed_amid env wid summary) (\<lambda>_ _. True)"
proof -
  have result: "keeping env (\<lambda>_. True) (record_result_amid env wid summary st v)" for st v
    unfolding record_result_amid_def by (intro triples assms stable_True)
  have pending: "map (\<lambda>v. l_item (v_link v)) (filter (\<lambda>v. v_status v \<noteq> ''completed'') vs) = [] \<longleftrightarrow>
      list_all (\<lambda>v. v_status v = ''completed'') vs" for vs
    by (auto simp: filter_empty_conv list_all_iff)
  have accepted: "triple env (vouched wid sn)
       (if w_status (sn_workflow sn) = wf_value WF_RUNNING then
          act_then (move_workflow_amid env wid WF_COMPLETED [WF_RUNNING] ''concluido pelo coordenador''
            (Some (w_plan_version (sn_workflow sn)))) (act_return ())
        else if w_status (sn_workflow sn) \<noteq> wf_value WF_COMPLETED then act_raise (CannotConclude (w_status (sn_workflow sn)))
        else act_return ()) (\<lambda>_ _. True)" if "list_all (\<lambda>v. v_status v = ''completed'') (sn_tasks sn)" for sn
    by (intro triple_if triple_raise triple_return triple_then [OF triple_move [OF assms that]]) simp_all
  have "triple env (vouched wid sn)
     (if map (\<lambda>v. l_item (v_link v)) (filter (\<lambda>v. v_status v \<noteq> ''completed'') (sn_tasks sn)) \<noteq> []
      then act_raise (NotAccepted (map (\<lambda>v. l_item (v_link v)) (filter (\<lambda>v. v_status v \<noteq> ''completed'') (sn_tasks sn))))
      else act_then
       (if w_status (sn_workflow sn) = wf_value WF_RUNNING then
          act_then (move_workflow_amid env wid WF_COMPLETED [WF_RUNNING] ''concluido pelo coordenador''
            (Some (w_plan_version (sn_workflow sn)))) (act_return ())
        else if w_status (sn_workflow sn) \<noteq> wf_value WF_COMPLETED then act_raise (CannotConclude (w_status (sn_workflow sn)))
        else act_return ())
       (record_result_amid env wid summary WF_COMPLETED (w_plan_version (sn_workflow sn)))) (\<lambda>_ _. True)" for sn
    using pending [of "sn_tasks sn"] by (intro triple_if triple_raise triple_then [OF accepted result]) blast
  then show ?thesis unfolding finish_completed_amid_def Let_def by (rule triple_bind [OF triple_snapshot [OF assms]])
qed

lemma triple_finish:
  assumes "limits_ok env"
  shows "keeping env (\<lambda>_. True) (finish_amid env wid outcome summary)"
  unfolding finish_amid_def finish_blocked_amid_def finish_failed_amid_def move_workflow_amid_def record_result_amid_def
    Let_def
  by (intro triples triple_finish_completed assms stable_True) simp_all

section \<open>Completion\<close>

text \<open>
  C1. Completion is sound although it is decided on reads made earlier. Take the whole reconciliation
  of a workflow, or the whole explicit conclusion by its coordinator, with any operations of the
  other actors between any two of its transactions (each read of the snapshot is one of them). Every
  transaction of it that turns a workflow to completed leaves every task of that workflow's plan
  current at that moment completed, so no replan, requeue or new plan version slips in between.
\<close>

theorem completion_is_sound:
  assumes "good (e_limits env) (db s)" and "0 \<le> max_replans (e_limits env)" and "0 \<le> max_consults (e_limits env)"
    and "others_ok env fs" and "consult_ok env"
    and "method = reconcile_amid env wid \<or> method = finish_amid env wid outcome summary"
    and "method \<lparr> sh_sys = s, sh_others = fs, sh_commits = [] \<rparr> = (r, sh)" and "(d, d') \<in> set (sh_commits sh)"
    and "\<not> is_completed d x" and "is_completed d' x"
  shows "\<forall>l \<in> set (current_links x d'). \<exists>row. task_at d' (l_task l) = Some row \<and> t_status row = status_value COMPLETED"
proof -
  have lim: "limits_ok env" using assms(2,3) by (simp add: limits_ok_def)
  have "triple env (\<lambda>_. True) method (\<lambda>_ _. True)"
    using triple_reconcile [OF lim assms(5)] triple_finish [OF lim] assms(6) by blast
  from tripleD [OF this _ _ assms(7)] have "shared_ok env sh" using assms(1,4) by (simp add: shared_ok_def)
  then have "completes_soundly d d'" using assms(8) by (auto simp: shared_ok_def)
  then show ?thesis using assms(9,10) by (auto simp: completes_soundly_def tasks_accepted_iff)
qed

text \<open>
  In the witness task 2 is accepted by somebody else between the third and the fourth read of the
  snapshot.
\<close>

definition accepting_others :: "(Store \<Rightarrow> Store) list" where
  "accepting_others = [id, id, id, id, \<lambda>d. snd (complete_task ''t6'' 2 (Some ''ok'') None None None (Some 0) d)]"

definition sample_amid :: "(coord_error + WorkflowRow) \<times> Shared" where
  "sample_amid = reconcile_amid (sample_env\<lparr>e_live := None\<rparr>) 1
     \<lparr> sh_sys = sample_sys\<lparr>db := writing_store\<rparr>, sh_others = accepting_others, sh_commits = [] \<rparr>"

theorem completion_is_sound_witness:
  "\<exists>d d'. (d, d') \<in> set (sh_commits (snd sample_amid)) \<and> is_completed d' 1 \<and>
     (\<forall>l \<in> set (current_links 1 d'). \<exists>row. task_at d' (l_task l) = Some row \<and> t_status row = status_value COMPLETED)"
proof -
  let ?env = "sample_env\<lparr>e_live := None\<rparr>" and ?s = "sample_sys\<lparr>db := writing_store\<rparr>"
  have "list_ex (\<lambda>(d, d'). \<not> is_completed d 1 \<and> is_completed d' 1) (sh_commits (snd sample_amid))" by code_simp
  then obtain d d' where c: "(d, d') \<in> set (sh_commits (snd sample_amid))" "\<not> is_completed d 1" "is_completed d' 1"
    by (auto simp: list_ex_iff)
  have env: "e_limits ?env = default_limits" "consult_ok ?env" by (simp_all add: sample_env_def consult_ok_def)
  have pos: "0 \<le> max_replans default_limits" "0 \<le> max_consults default_limits" using default_positive by simp_all
  have good: "good (e_limits ?env) (db ?s)" using wf_run_good [OF writing_run pos job_store_ok] by (simp add: env)
  have others: "others_ok ?env accepting_others"
    by (auto simp: others_ok_def accepting_others_def intro: wf_step.complete)
  have run: "reconcile_amid ?env 1 \<lparr> sh_sys = ?s, sh_others = accepting_others, sh_commits = [] \<rparr> =
      (fst sample_amid, snd sample_amid)" by (simp add: sample_amid_def)
  have limits: "0 \<le> max_replans (e_limits ?env)" "0 \<le> max_consults (e_limits ?env)" using pos by (simp_all add: env)
  show ?thesis
    using completion_is_sound [OF good limits others env(2) disjI1 [OF refl] run c] c(1,3) by blast
qed

section \<open>Without other actors\<close>

text \<open>The interleaved method does what the method of \<open>Workflow_Reconcile\<close> does, if nobody acts in between.\<close>

definition runs_as :: "'a shared \<Rightarrow> 'a coord \<Rightarrow> bool" where
  "runs_as m m' \<longleftrightarrow> (\<forall>s cs. \<exists>cs'. m \<lparr> sh_sys = s, sh_others = [], sh_commits = cs \<rparr> =
     (fst (m' s), \<lparr> sh_sys = snd (m' s), sh_others = [], sh_commits = cs' \<rparr>))"

named_theorems alone "methods that run as their model without other actors"

lemma alone_tx [alone]: "runs_as (tx m) m"
  by (auto simp: runs_as_def tx_def others_act_def Let_def split: prod.splits)

lemma alone_foreign [alone]: "runs_as (foreign m) m"
  by (auto simp: runs_as_def foreign_def others_act_def Let_def split: prod.splits)

lemma alone_plain [alone]: "runs_as (plain m) m"
  by (auto simp: runs_as_def plain_def split: prod.splits)

lemma alone_return [alone]: "runs_as (act_return x) (act_return x)" "runs_as (act_raise e) (act_raise e)"
  by (auto simp: runs_as_def)

lemma alone_bind [alone]:
  assumes "runs_as m m'" and "\<And>x. runs_as (f x) (f' x)"
  shows "runs_as (act_bind m f) (act_bind m' f')"
  unfolding runs_as_def
proof (intro allI)
  fix s cs
  obtain r s' where m': "m' s = (r, s')" by fastforce
  from assms(1) m' obtain cs' where m: "m \<lparr> sh_sys = s, sh_others = [], sh_commits = cs \<rparr> =
      (r, \<lparr> sh_sys = s', sh_others = [], sh_commits = cs' \<rparr>)" unfolding runs_as_def by (metis fst_conv snd_conv)
  show "\<exists>cs'. act_bind m f \<lparr> sh_sys = s, sh_others = [], sh_commits = cs \<rparr> =
      (fst (act_bind m' f' s), \<lparr> sh_sys = snd (act_bind m' f' s), sh_others = [], sh_commits = cs' \<rparr>)"
    using assms(2) by (cases r) (auto simp: act_bind_def m m' runs_as_def)
qed

lemma alone_then [alone]: "runs_as m m' \<Longrightarrow> runs_as n n' \<Longrightarrow> runs_as (act_then m n) (act_then m' n')"
  unfolding act_then_def by (rule alone_bind)

lemma alone_when [alone]: "(c \<Longrightarrow> runs_as m m') \<Longrightarrow> runs_as (act_when c m) (act_when c m')"
  by (auto simp: act_when_def intro: alone)

lemma alone_each [alone]: "(\<And>x. runs_as (f x) (f' x)) \<Longrightarrow> runs_as (act_each f xs) (act_each f' xs)"
  by (induction xs) (auto intro: alone)

lemma alone_if [alone]: "(c \<Longrightarrow> runs_as m m') \<Longrightarrow> (\<not> c \<Longrightarrow> runs_as n n') \<Longrightarrow>
    runs_as (if c then m else n) (if c then m' else n')"
  by simp

lemma alone_option [alone]: "(r = None \<Longrightarrow> runs_as m m') \<Longrightarrow> (\<And>x. r = Some x \<Longrightarrow> runs_as (f x) (f' x)) \<Longrightarrow>
    runs_as (case r of None \<Rightarrow> m | Some x \<Rightarrow> f x) (case r of None \<Rightarrow> m' | Some x \<Rightarrow> f' x)"
  by (cases r) simp_all

lemma alone_sum [alone]: "(\<And>x. r = Inl x \<Longrightarrow> runs_as (f x) (f' x)) \<Longrightarrow> (\<And>x. r = Inr x \<Longrightarrow> runs_as (g x) (g' x)) \<Longrightarrow>
    runs_as (case r of Inl x \<Rightarrow> f x | Inr x \<Rightarrow> g x) (case r of Inl x \<Rightarrow> f' x | Inr x \<Rightarrow> g' x)"
  by (cases r) simp_all

lemma alone_prod [alone]: "(\<And>x y. r = (x, y) \<Longrightarrow> runs_as (f x y) (f' x y)) \<Longrightarrow>
    runs_as (case r of (x, y) \<Rightarrow> f x y) (case r of (x, y) \<Rightarrow> f' x y)"
  by (cases r) simp_all

lemma runs_as_eq: "runs_as m n \<Longrightarrow> n = m' \<Longrightarrow> runs_as m m'"
  by simp

text \<open>Reads in one step instead of several.\<close>

lemma get_snapshot_reads: "act_bind (get_workflow wid) (\<lambda>w. act_bind (act_ask (current_links wid)) (\<lambda>ls.
     act_bind (act_query StoreFailed (plan_specs wid (w_plan_version w))) (\<lambda>specs.
     act_bind (act_query StoreFailed (\<lambda>d. map_res (task_view d specs) ls)) (\<lambda>views.
     act_return \<lparr> sn_workflow = w, sn_tasks = views \<rparr>)))) = get_snapshot wid"
  by (rule ext) (simp add: act_bind_def get_snapshot_def get_workflow_def act_query_def snapshot_def bind_res_def split: sum.split)

lemma alone_snapshot [alone]: "runs_as (snapshot_amid wid) (get_snapshot wid)"
  unfolding snapshot_amid_def by (rule runs_as_eq [OF _ get_snapshot_reads]) (intro alone)

lemma alone_requeue [alone]: "runs_as (requeue_expired_amid env sn) (requeue_expired env sn)"
  unfolding requeue_expired_amid_def requeue_expired_def by (intro alone)

lemma notify_reads: "act_bind (act_ask (\<lambda>d. reviewable d v (e_active env))) (\<lambda>possible. if \<not> possible then act_return ()
     else act_bind (act_ask (\<lambda>d. reviewable d v (e_available env))) (\<lambda>now.
       act_when (\<not> now) (notify_waiting env wid v ''revisor''))) = notify_no_reviewer env wid v"
  by (rule ext) (simp add: notify_no_reviewer_def act_bind_def act_when_def)

lemma alone_notify [alone]: "runs_as (notify_no_reviewer_amid env wid v) (notify_no_reviewer env wid v)"
  unfolding notify_no_reviewer_amid_def by (rule runs_as_eq [OF _ notify_reads]) (intro alone)

lemma settle_reads:
  "(if limit \<le> rework then fail_limit
    else act_bind (act_ask f) (\<lambda>somebody. if \<not> somebody then fail_nobody
      else act_bind (act_ask g) (\<lambda>available. act_then (act_when (\<not> available) notice) (act_return False)))) =
   act_bind (act_ask (\<lambda>d. (f d, g d))) (\<lambda>(somebody, available). if limit \<le> rework then fail_limit
     else if \<not> somebody then fail_nobody else act_then (act_when (\<not> available) notice) (act_return False))"
  for limit :: int
  by (rule ext) (simp add: act_bind_def)

lemma alone_settle_view [alone]: "runs_as (settle_view_amid env wid views v) (settle_view env wid views v)"
  unfolding settle_view_amid_def settle_view_def Let_def settle_reads [symmetric] fail_unrunnable_amid_def
  by (intro alone)

lemma alone_settle [alone]: "runs_as (settle_unrunnable_amid env sn) (settle_unrunnable env sn)"
  unfolding settle_unrunnable_amid_def settle_unrunnable_def by (intro alone)

lemma alone_conclude [alone]: "runs_as (conclude_amid env wid target reason sn failed) (conclude env wid target reason sn failed)"
  unfolding conclude_amid_def conclude_def consult_amid_def consult_coordinator_def Let_def by (intro alone)

lemma alone_in_flight [alone]: "runs_as (in_flight_amid env vs) (act_ask (\<lambda>d. list_ex (\<lambda>v. in_flight_view v \<or>
    (v_status v = ''pending_review'' \<and> reviewable d v (e_active env))) vs))"
proof (induction vs)
  case (Cons v vs)
  have "runs_as (in_flight_amid env (v # vs)) (if in_flight_view v then act_return True
      else if v_status v = ''pending_review'' then
        act_bind (act_ask (\<lambda>d. reviewable d v (e_active env))) (\<lambda>possible. if possible then act_return True
          else act_ask (\<lambda>d. list_ex (\<lambda>v. in_flight_view v \<or> (v_status v = ''pending_review'' \<and> reviewable d v (e_active env))) vs))
      else act_ask (\<lambda>d. list_ex (\<lambda>v. in_flight_view v \<or> (v_status v = ''pending_review'' \<and> reviewable d v (e_active env))) vs))"
    unfolding in_flight_amid.simps by (intro alone Cons.IH)
  then show ?case by (rule runs_as_eq) (rule ext, simp add: act_bind_def)
qed (auto simp: runs_as_def)

lemma judge_reads:
  "(if list_all (\<lambda>v. v_status v = ''completed'') views then finished
    else act_bind (act_ask (\<lambda>d. list_ex (\<lambda>v. in_flight_view v \<or> (v_status v = ''pending_review'' \<and> can d v)) views)) (\<lambda>flying.
      if flying \<or> list_ex (ready_view views) views then going
      else case block_reason views of (reason, failed) \<Rightarrow> stop reason failed)) =
   act_bind (act_ask (\<lambda>d. judge (can d) views)) (\<lambda>decision. case decision of Complete \<Rightarrow> finished
     | Continue \<Rightarrow> going | Block reason failed \<Rightarrow> stop reason failed)"
  by (rule ext) (simp add: act_bind_def judge_def block_reason_def Let_def)

lemma alone_reconcile: "runs_as (reconcile_amid env wid) (reconcile env wid)"
  unfolding reconcile_amid_def reconcile_def judge_reads [symmetric] by (intro alone)

lemma alone_finish: "runs_as (finish_amid env wid outcome summary) (finish env wid outcome summary)"
  unfolding finish_amid_def finish_def finish_completed_amid_def finish_completed_def finish_blocked_amid_def
    finish_blocked_def finish_failed_amid_def finish_failed_def move_workflow_amid_def move_workflow_def
    record_result_amid_def record_result_def Let_def
  by (intro alone)


end
