(* ===== verification/Coordinator_Recovery.thy ===== *)
theory Coordinator_Recovery
  imports Coordinator_Guarantees
begin

text \<open>
  The recovery at start-up (\<open>recover\<close>) and the refusals of \<open>finish\<close>.
\<close>

section \<open>Adopting one workflow after another\<close>

definition quiet :: "int \<Rightarrow> Store \<Rightarrow> int \<Rightarrow> bool" where
  "quiet jid d wid \<longleftrightarrow> (\<forall>w. workflow_at d wid = Some w \<longrightarrow> w_job_id w = jid \<and> w_status w \<noteq> wf_value WF_RUNNING) \<and>
     (\<forall>l \<in> set (current_links wid d). resting d (l_task l))"

lemma set_tasks_job_status:
  "set_tasks_job now ids jid s = Inr s' \<Longrightarrow> map_option t_status (task_at s' t) = map_option t_status (task_at s t)"
proof (induction ids arbitrary: s)
  case (Cons i ids)
  let ?s = "update_task_row i (\<lambda>r. r\<lparr>t_job_id := jid, t_updated_at := Some now\<rparr>) s"
  have "map_option t_status (task_at ?s t) = map_option t_status (task_at s t)"
    by (simp add: task_at_update_task_row option.map_comp comp_def)
  moreover have "set_tasks_job now ids jid ?s = Inr s'"
    using Cons.prems by (simp add: Let_def split: if_splits)
  ultimately show ?case using Cons.IH by simp
qed simp

lemma resting_same_status:
  "map_option t_status (task_at s' t) = map_option t_status (task_at s t) \<Longrightarrow> resting s t \<Longrightarrow> resting s' t"
  by (cases "task_at s t") (auto simp: resting_def at_rest_def)

lemma adopt_effect:
  assumes "adopt now wid jid reason s = Inr (paused, s')"
  shows "links s' = links s" and "\<exists>w. workflow_at s wid = Some w \<and> workflow_at s' wid = Some (adopted_row now jid reason w w)"
    and "i \<noteq> wid \<Longrightarrow> workflow_at s' i = workflow_at s i"
    and "t \<in> set (map l_task (current_links wid s)) \<or> resting s t \<Longrightarrow> resting s' t"
    and "paused \<Longrightarrow> \<exists>w. workflow_at s wid = Some w \<and> w_status w = wf_value WF_RUNNING"
proof -
  from assms obtain w s1 where w: "load_workflow wid s = Inr w"
    and s1: "set_tasks_job now (map l_task (current_links wid s)) jid s = Inr s1"
    and p: "paused \<longleftrightarrow> w_status w = wf_value WF_RUNNING"
    and s': "s' = requeue_all now (map l_task (current_links wid s)) ''interrompida por reinicio''
      (update_workflow_row wid (adopted_row now jid reason w) s1)"
    by (auto simp: adopt_def Let_def bind_res_Inr split: if_splits)
  let ?s2 = "update_workflow_row wid (adopted_row now jid reason w) s1"
  have t1: "tame s s1" using s1 by (rule tame_set_tasks_job)
  have t2: "tame ?s2 s'" unfolding s' by (rule tame_requeue_all)
  show "links s' = links s" using t1 t2 by (simp add: tame_def task_frame_def)
  have rows: "workflow_at s' i = workflow_at ?s2 i" "workflow_at s1 i = workflow_at s i" for i
    using t1 t2 by (simp_all add: tame_def task_frame_def workflow_at_def)
  have at: "workflow_at ?s2 i = (if i = wid then map_option (adopted_row now jid reason w) (workflow_at s i) else workflow_at s i)" for i
    using workflow_at_update_workflow_row [of "adopted_row now jid reason w" wid s1 i] rows(2)
    by (simp add: adopted_row_def Let_def)
  have ws: "workflow_at s wid = Some w" using w by (simp add: load_Inr)
  show "\<exists>w. workflow_at s wid = Some w \<and> workflow_at s' wid = Some (adopted_row now jid reason w w)"
    using rows(1) at ws by simp
  show "i \<noteq> wid \<Longrightarrow> workflow_at s' i = workflow_at s i" using rows(1) at by simp
  show "paused \<Longrightarrow> \<exists>w. workflow_at s wid = Some w \<and> w_status w = wf_value WF_RUNNING" using p ws by simp
  assume "t \<in> set (map l_task (current_links wid s)) \<or> resting s t"
  moreover have "resting ?s2 t" if "resting s t"
    using resting_same_status [OF set_tasks_job_status [OF s1] that] by (simp add: resting_def)
  ultimately show "resting s' t" unfolding s' by (blast intro: requeue_all_rest)
qed

lemma adopt_quiet:
  assumes a: "adopt now wid jid reason s = Inr (paused, s')" and "i = wid \<or> quiet jid s i"
  shows "quiet jid s' i"
proof (cases "i = wid")
  case True
  from adopt_effect(2) [OF a] obtain w where "workflow_at s' wid = Some (adopted_row now jid reason w w)" by blast
  then show ?thesis using True adopt_effect(4) [OF a] adopt_effect(1) [OF a]
    by (auto simp: quiet_def adopted_row_def Let_def current_links_def)
next
  case False
  then show ?thesis using assms(2) adopt_effect(1,3) [OF a] adopt_effect(4) [OF a]
    by (auto simp: quiet_def current_links_def)
qed

section \<open>The recovery\<close>

lemma recover_one_effect:
  assumes "recover_one env jid w s = (Inr w', s')"
  shows "\<exists>paused. adopt (e_clock env) (w_id w) jid ''recuperado apos reinicio; retome com workflows_control resume'' (db s) =
    Inr (paused, db s')"
proof -
  have notice: "db t' = db t" if "act_when p (act_effect ef) t = ((Inr u, t') :: (coord_error + unit) \<times> Sys)" for p ef t t' u
    using that by (auto simp: act_when_def split: if_splits)
  from assms obtain paused d u where a: "adopt (e_clock env) (w_id w) jid ''recuperado apos reinicio; retome com workflows_control resume'' (db s) = Inr (paused, d)"
    and n: "act_when paused (act_effect (Notify (recovered_notice (w_id w)))) (s\<lparr>db := d\<rparr>) = ((Inr u, s') :: (coord_error + unit) \<times> Sys)"
    unfolding recover_one_def act_bind_Inr act_then_Inr act_commit_Inr get_workflow_def act_query_Inr by blast
  have "db s' = d" using notice [OF n] by simp
  with a show ?thesis by blast
qed

lemma recover_each_quiet:
  assumes "act_each (recover_one env jid) ws s = (Inr res, s')" and "i \<in> w_id ` set ws \<or> quiet jid (db s) i"
  shows "quiet jid (db s') i"
  using assms
proof (induction ws arbitrary: s res)
  case (Cons w ws)
  then obtain w' rest s1 where r: "recover_one env jid w s = (Inr w', s1)" "act_each (recover_one env jid) ws s1 = (Inr rest, s')"
    by (auto simp: act_bind_Inr)
  from recover_one_effect [OF r(1)] obtain paused where
    a: "adopt (e_clock env) (w_id w) jid ''recuperado apos reinicio; retome com workflows_control resume'' (db s) = Inr (paused, db s1)"
    by blast
  have "i \<in> w_id ` set ws \<or> quiet jid (db s1) i" using Cons.prems(2) adopt_quiet [OF a, of i] by auto
  with Cons.IH [OF r(2)] show ?case by blast
qed simp

lemma recover_each_others:
  assumes "act_each (recover_one env jid) ws s = (Inr res, s')" and "i \<notin> w_id ` set ws"
  shows "workflow_at (db s') i = workflow_at (db s) i"
  using assms
proof (induction ws arbitrary: s res)
  case (Cons w ws)
  then obtain w' rest s1 where r: "recover_one env jid w s = (Inr w', s1)" "act_each (recover_one env jid) ws s1 = (Inr rest, s')"
    by (auto simp: act_bind_Inr)
  from recover_one_effect [OF r(1)] adopt_effect(3) Cons.prems(2)
  have "workflow_at (db s1) i = workflow_at (db s) i" by fastforce
  with Cons.IH [OF r(2)] Cons.prems(2) show ?case by simp
qed simp

lemma listed_open:
  assumes "list_workflows None (Some sts) d = Inr ws" and "workflow_at d i = Some w" and "w_status w \<in> set (map wf_value sts)"
  shows "i \<in> w_id ` set ws"
proof -
  have w: "w \<in> set (workflows d)" "w_id w = i" using workflow_at_SomeD [OF assms(2)] by auto
  from assms(1) have "map_res (\<lambda>w. load_workflow (w_id w) d)
      (filter (\<lambda>w. w_status w \<in> set (map wf_value sts)) (workflows d)) = Inr ws"
    by (simp add: list_workflows_def)
  from map_res_image [OF this, of w] w(1) assms(3) obtain w' where
    "w' \<in> set ws" "load_workflow (w_id w) d = Inr w'" by auto
  moreover from this(2) have "w_id w' = i" using w(2) workflow_at_SomeD by (auto simp: load_Inr)
  ultimately show ?thesis by blast
qed

text \<open>
  C4. After a start-up with a job, nothing is left running: every workflow that was open belongs to
  the current job and none is \<open>running\<close>; no task of its current plan is in progress or in review;
  the workflows that had ended are as they were.
\<close>

theorem recovery_leaves_nothing_running:
  assumes "store_ok (db s)" and "e_job env = Some jid" and "recover env s = (Inr ws, s')"
    and "workflow_at (db s) i = Some w"
  shows "(w_status w \<in> set (map wf_value open_workflow_states) \<longrightarrow> quiet jid (db s') i) \<and>
    (w_status w \<notin> set (map wf_value open_workflow_states) \<longrightarrow> workflow_at (db s') i = Some w)"
proof -
  from assms(2,3) obtain listed where l: "list_workflows None (Some open_workflow_states) (db s) = Inr listed"
    and each: "act_each (recover_one env jid) listed s = (Inr ws, s')"
    by (auto simp: recover_def act_bind_Inr act_query_Inr)
  have "i \<notin> w_id ` set listed" if ended: "w_status w \<notin> set (map wf_value open_workflow_states)"
  proof
    assume "i \<in> w_id ` set listed"
    then obtain w' where w': "w' \<in> set listed" "w_id w' = i" by blast
    from l have "map_res (\<lambda>w. load_workflow (w_id w) (db s))
        (filter (\<lambda>w. w_status w \<in> set (map wf_value open_workflow_states)) (workflows (db s))) = Inr listed"
      by (simp add: list_workflows_def)
    from map_res_all [OF this w'(1)] obtain u where u: "u \<in> set (workflows (db s))"
      "w_status u \<in> set (map wf_value open_workflow_states)" "load_workflow (w_id u) (db s) = Inr w'" by auto
    then have at: "workflow_at (db s) (w_id u) = Some w'" "w_id u = i"
      using w'(2) workflow_at_SomeD by (auto simp: load_Inr)
    have "distinct (map w_id (workflows (db s)))" using assms(1) by (simp add: store_ok_def workflows_ok_def)
    from find_key_unique [OF this u(1)] at assms(4) have "u = w" by (simp add: workflow_at_def)
    with u(2) ended show False by simp
  qed
  then show ?thesis
    using recover_each_quiet [OF each] recover_each_others [OF each] listed_open [OF l assms(4)] assms(4) by auto
qed

theorem recovery_leaves_nothing_running_witness:
  "\<exists>ws s'. recover sample_env (sample_sys\<lparr>db := writing_store\<rparr>) = (Inr ws, s') \<and> quiet 1 (db s') 1"
proof -
  let ?s = "sample_sys\<lparr>db := writing_store\<rparr>"
  have "map_sum id length (fst (recover sample_env ?s)) = Inr 1" by code_simp
  then obtain ws s' where r: "recover sample_env ?s = (Inr ws, s')"
    by (cases "recover sample_env ?s"; cases "fst (recover sample_env ?s)") auto
  have "map_option w_status (workflow_at writing_store 1) = Some (wf_value WF_RUNNING)" by code_simp
  then obtain w where w: "workflow_at (db ?s) 1 = Some w" "w_status w = wf_value WF_RUNNING" by auto
  have ok: "store_ok (db ?s)"
    using wf_run_good [OF writing_run _ _ job_store_ok] default_positive by (simp add: good_def)
  have "e_job sample_env = Some 1" by (simp add: sample_env_def)
  from recovery_leaves_nothing_running [OF ok this r w(1)] w(2) r show ?thesis
    by (auto simp: open_workflow_states_def)
qed

section \<open>Refusals\<close>

lemma failed_refused:
  assumes "workflow_at d wid = Some w" and "w_status w = wf_value WF_PAUSED"
  shows "set_status now wid WF_FAILED reason expected version cancelling att res d = Inr (None, d)"
  using assms by (simp add: set_status_def load_workflow_def)

text \<open>
  \<open>finish\<close> refuses without any effect, on the database or outside: an empty summary; an unknown
  outcome; \<open>completed\<close> while a current task is not accepted, naming exactly the items that are not;
  and \<open>failed\<close> for a paused workflow, which the transition table excludes although the method lists
  \<open>paused\<close> among the states it accepts.
\<close>

theorem finish_refusals:
  assumes "workflow_at (db s) wid = Some w" and "wf_status_of (w_status w) \<noteq> None" and "snapshot wid (db s) = Inr sn"
  shows "(py_strip summary = [] \<longrightarrow> finish env wid outcome summary s = (Inl SummaryMissing, s)) \<and>
    (py_strip summary \<noteq> [] \<longrightarrow>
      (outcome \<notin> {''completed'', ''blocked'', ''failed''} \<longrightarrow> finish env wid outcome summary s = (Inl UnknownOutcome, s)) \<and>
      ((\<exists>v \<in> set (sn_tasks sn). v_status v \<noteq> ''completed'') \<longrightarrow>
        finish env wid ''completed'' summary s =
          (Inl (NotAccepted (map (\<lambda>v. l_item (v_link v)) (filter (\<lambda>v. v_status v \<noteq> ''completed'') (sn_tasks sn)))), s)) \<and>
      (w_status w = wf_value WF_PAUSED \<longrightarrow>
        finish env wid ''failed'' summary s = (Inl (CannotMarkFailed (wf_value WF_PAUSED)), s)))"
proof -
  have load: "load_workflow wid (db s) = Inr w" using assms(1,2) by (simp add: load_Inr)
  have failed: "w_status w = wf_value WF_PAUSED \<Longrightarrow>
      finish_failed env wid why w s = (Inl (CannotMarkFailed (wf_value WF_PAUSED)), s)" for why
    by (simp add: finish_failed_def repo_set_status_def act_bind_def act_commit_def failed_refused [OF assms(1)])
  have completed: "(\<exists>v \<in> set (sn_tasks sn). v_status v \<noteq> ''completed'') \<Longrightarrow> finish_completed env wid why s =
      (Inl (NotAccepted (map (\<lambda>v. l_item (v_link v)) (filter (\<lambda>v. v_status v \<noteq> ''completed'') (sn_tasks sn)))), s)" for why
    by (auto simp: finish_completed_def get_snapshot_def act_bind_def act_query_def assms(3) Let_def filter_empty_conv)
  show ?thesis
    using failed completed
    by (auto simp: finish_def Let_def get_workflow_def act_bind_def act_then_def act_query_def load)
qed

definition paused_sys :: Sys where
  "paused_sys = snd (pause sample_env 1 (sample_sys\<lparr>db := writing_store\<rparr>))"

theorem finish_refusals_witness:
  "finish sample_env 1 ''failed'' ''desisto'' paused_sys = (Inl (CannotMarkFailed (wf_value WF_PAUSED)), paused_sys)"
proof -
  have "map_option w_status (workflow_at (db paused_sys) 1) = Some (wf_value WF_PAUSED)" by code_simp
  then obtain w where w: "workflow_at (db paused_sys) 1 = Some w" "w_status w = wf_value WF_PAUSED" by auto
  have "map_sum id (\<lambda>_. ()) (snapshot 1 (db paused_sys)) = Inr ()" by code_simp
  then obtain sn where sn: "snapshot 1 (db paused_sys) = Inr sn" by (cases "snapshot 1 (db paused_sys)") auto
  have "py_strip ''desisto'' \<noteq> []" by code_simp
  then show ?thesis using finish_refusals [OF w(1) _ sn, of "''desisto''" sample_env] w(2) by simp
qed

end
