(* ===== verification/Debate_Models.thy ===== *)
theory Debate_Models
  imports Handoff
begin

text \<open>
  The data of a debate and the strict protocol of its agents (\<open>quimera/debate/models.py\<close>): statuses
  and limits, contributions and syntheses with their dictionaries and their texts for the chat, and
  the parsing of responses and of stored syntheses. What the standard library computes on floats
  (the mean, the texts of \<open>format\<close>) and the messages of its own exceptions are fields of \<open>DebatePy\<close>.
\<close>

record DebatePy =
  dp_text :: PyText
  dp_mean :: "rat list \<Rightarrow> rat"
  dp_percent :: "rat \<Rightarrow> pystr"
  dp_seconds :: "rat \<Rightarrow> pystr"
  dp_bad_text :: "pystr \<Rightarrow> pystr"
  dp_bad_value :: "json \<Rightarrow> pystr"

section \<open>Errors\<close>

text \<open>
  \<open>BadValue\<close> is a \<open>ValueError\<close> (\<open>DebateCommandError\<close> and \<open>JSONDecodeError\<close> too), \<open>NoSuchKey\<close> a \<open>KeyError\<close>,
  \<open>Integrity\<close> an \<open>IntegrityError\<close> of the database; \<open>Failure\<close> is any other \<open>Exception\<close> with its message.
\<close>

datatype debate_error = ProtocolError pystr | DebateCancelled | BadValue pystr | NoSuchKey pystr
  | Integrity pystr | Failure pystr

fun exc_text :: "debate_error \<Rightarrow> pystr" where
  "exc_text (ProtocolError m) = m"
| "exc_text DebateCancelled = []"
| "exc_text (BadValue m) = m"
| "exc_text (NoSuchKey k) = py_repr_text k"
| "exc_text (Integrity m) = m"
| "exc_text (Failure m) = m"

fun work_item_message :: "work_item_error \<Rightarrow> pystr" where
  "work_item_message DuplicateIds = ''work_items contem IDs duplicados''"
| "work_item_message (UnknownDependencies i ds) = ''work item '' @ i @ '' depende de IDs desconhecidos: '' @ py_join '', '' ds"
| "work_item_message (SelfDependency i) = ''work item '' @ i @ '' depende de si mesmo''"
| "work_item_message DependencyCycle = ''workflow contem ciclo de dependencias''"
| "work_item_message ItemsNotList = ''work_items deve ser uma lista''"
| "work_item_message (TooManyItems n) = ''work_items excede o limite de '' @ show_nat n @ '' itens''"
| "work_item_message ItemNotObject = ''cada work_item deve ser um objeto''"
| "work_item_message (InvalidId i) = ''work_item possui id invalido: '' @ i"
| "work_item_message MissingTitle = ''campo obrigatorio ausente: title''"
| "work_item_message (InvalidPriority i p) = ''prioridade invalida no work_item '' @ i @ '': '' @ p"
| "work_item_message (InvalidTaskType i t) = ''task_type invalido no work_item '' @ i @ '': '' @ t"
| "work_item_message (NotText f) = f @ '' deve ser texto''"
| "work_item_message (TextTooLong f n) = f @ '' excede o limite de '' @ show_nat n @ '' caracteres''"
| "work_item_message (InvalidListType f) = f @ '' possui tipo invalido''"
| "work_item_message (ListTooLong f) = f @ '' excede o limite de '' @ show_nat max_list_items @ '' itens''"
| "work_item_message (WritesNotBool i) = ''writes deve ser booleano no work_item '' @ i"
| "work_item_message (MissingKey k) = py_repr_text k"

text \<open>\<open>except WorkItemError as exc: raise DebateProtocolError (str (exc))\<close>; a \<open>KeyError\<close> passes.\<close>

definition as_protocol_error :: "work_item_error + 'a \<Rightarrow> debate_error + 'a" where
  "as_protocol_error r = (case r of
     Inl (MissingKey k) \<Rightarrow> Inl (NoSuchKey k)
   | Inl e \<Rightarrow> Inl (ProtocolError (work_item_message e))
   | Inr x \<Rightarrow> Inr x)"

lemma as_protocol_error_Inr [simp]: "as_protocol_error r = Inr x \<longleftrightarrow> r = Inr x"
  by (auto simp: as_protocol_error_def split: sum.splits work_item_error.splits)

lemma as_protocol_error_simps:
  "as_protocol_error (Inr x) = Inr x" "as_protocol_error (Inl (ListTooLong f)) = Inl (ProtocolError (work_item_message (ListTooLong f)))"
  "as_protocol_error (Inl (InvalidListType f)) = Inl (ProtocolError (work_item_message (InvalidListType f)))"
  by (simp_all add: as_protocol_error_def)

section \<open>Modes, statuses and records\<close>

definition max_debate_response_chars :: nat where "max_debate_response_chars = 128000"
definition max_debate_text_chars :: nat where "max_debate_text_chars = 20000"
definition max_debate_list_items :: nat where "max_debate_list_items = 32"
definition max_debate_work_items :: nat where "max_debate_work_items = 50"

datatype DebateMode = VERDICT | WORKFLOW

fun mode_value :: "DebateMode \<Rightarrow> pystr" where
  "mode_value VERDICT = ''verdict''"
| "mode_value WORKFLOW = ''workflow''"

datatype DebateStatus = DB_CREATED | DB_RUNNING | DB_SYNTHESIZING | DB_CONVERGED | DB_EXHAUSTED
  | DB_CANCELLED | DB_FAILED

fun debate_value :: "DebateStatus \<Rightarrow> pystr" where
  "debate_value DB_CREATED = ''created''"
| "debate_value DB_RUNNING = ''running''"
| "debate_value DB_SYNTHESIZING = ''synthesizing''"
| "debate_value DB_CONVERGED = ''converged''"
| "debate_value DB_EXHAUSTED = ''exhausted''"
| "debate_value DB_CANCELLED = ''cancelled''"
| "debate_value DB_FAILED = ''failed''"

definition terminal_debate :: "DebateStatus \<Rightarrow> bool" where
  "terminal_debate st \<longleftrightarrow> st \<in> {DB_CONVERGED, DB_EXHAUSTED, DB_CANCELLED, DB_FAILED}"

definition all_debate_modes :: "DebateMode list" where
  "all_debate_modes = [VERDICT, WORKFLOW]"

definition all_debate_statuses :: "DebateStatus list" where
  "all_debate_statuses = [DB_CREATED, DB_RUNNING, DB_SYNTHESIZING, DB_CONVERGED, DB_EXHAUSTED, DB_CANCELLED, DB_FAILED]"

text \<open>\<open>DebateMode (value)\<close> and \<open>DebateStatus (value)\<close>, which raise \<open>ValueError\<close> on an unknown value.\<close>

definition mode_of :: "pystr \<Rightarrow> DebateMode option" where
  "mode_of v = find (\<lambda>m. mode_value m = v) all_debate_modes"

definition debate_status_of :: "pystr \<Rightarrow> DebateStatus option" where
  "debate_status_of v = find (\<lambda>st. debate_value st = v) all_debate_statuses"

lemma mode_of_value [simp]: "mode_of (mode_value m) = Some m"
  by (cases m) (simp_all add: mode_of_def all_debate_modes_def)

lemma debate_status_of_value [simp]: "debate_status_of (debate_value st) = Some st"
  by (cases st) (simp_all add: debate_status_of_def all_debate_statuses_def)

record DebateLimits =
  dl_max_rounds :: int
  dl_timeout_seconds :: rat
  dl_quorum :: int

record DebateContribution =
  dc_debate_id :: pystr
  dc_round_index :: int
  dc_agent :: pystr
  dc_position :: pystr
  dc_arguments :: "pystr list"
  dc_objections :: "pystr list"
  dc_proposal :: pystr
  dc_confidence :: rat
  dc_vote :: pystr
  dc_critical_objection :: bool
  dc_work_items :: "WorkItem list"
  dc_raw_response :: pystr

record DebateSynthesis =
  sy_debate_id :: pystr
  sy_round_index :: int
  sy_moderator :: pystr
  sy_summary :: pystr
  sy_verdict :: pystr
  sy_agreements :: "pystr list"
  sy_disagreements :: "pystr list"
  sy_critical_objections :: "pystr list"
  sy_confidence :: rat
  sy_consensus_reached :: bool
  sy_work_items :: "WorkItem list"
  sy_raw_response :: pystr

record DebateSession =
  se_id :: pystr
  se_session_id :: pystr
  se_topic :: pystr
  se_mode :: DebateMode
  se_status :: DebateStatus
  se_participants :: "pystr list"
  se_moderator :: pystr
  se_limits :: DebateLimits
  se_context :: pystr
  se_current_round :: int
  se_created_at :: pystr
  se_updated_at :: pystr
  se_started_at :: "pystr option"
  se_completed_at :: "pystr option"
  se_result :: "DebateSynthesis option"
  se_error :: pystr
  se_applied_at :: "pystr option"

definition session_terminal :: "DebateSession \<Rightarrow> bool" where
  "session_terminal s = terminal_debate (se_status s)"

section \<open>Dictionaries\<close>

definition contribution_dict :: "bool \<Rightarrow> DebateContribution \<Rightarrow> (pystr \<times> json) list" where
  "contribution_dict include_raw c =
     [(''debate_id'', JStr (dc_debate_id c)), (''round_index'', JInt (dc_round_index c)),
      (''agent'', JStr (dc_agent c)), (''position'', JStr (dc_position c)),
      (''arguments'', str_list (dc_arguments c)), (''objections'', str_list (dc_objections c)),
      (''proposal'', JStr (dc_proposal c)), (''confidence'', JFloat (dc_confidence c)),
      (''vote'', JStr (dc_vote c)), (''critical_objection'', JBool (dc_critical_objection c)),
      (''work_items'', JList (map (\<lambda>i. JObj (item_to_dict i)) (dc_work_items c)))] @
     (if include_raw then [(''raw_response'', JStr (dc_raw_response c))] else [])"

definition synthesis_dict :: "bool \<Rightarrow> DebateSynthesis \<Rightarrow> (pystr \<times> json) list" where
  "synthesis_dict include_raw s =
     [(''debate_id'', JStr (sy_debate_id s)), (''round_index'', JInt (sy_round_index s)),
      (''moderator'', JStr (sy_moderator s)), (''summary'', JStr (sy_summary s)),
      (''verdict'', JStr (sy_verdict s)), (''agreements'', str_list (sy_agreements s)),
      (''disagreements'', str_list (sy_disagreements s)),
      (''critical_objections'', str_list (sy_critical_objections s)),
      (''confidence'', JFloat (sy_confidence s)), (''consensus_reached'', JBool (sy_consensus_reached s)),
      (''work_items'', JList (map (\<lambda>i. JObj (item_to_dict i)) (sy_work_items s)))] @
     (if include_raw then [(''raw_response'', JStr (sy_raw_response s))] else [])"

section \<open>Texts for the chat\<close>

definition line_feed :: pystr where "line_feed = [CHR 0x0A]"

definition bullet_lines :: "pystr list \<Rightarrow> pystr list" where
  "bullet_lines items = map (\<lambda>item. ''- '' @ item) items"

definition vote_label :: "pystr \<Rightarrow> pystr" where
  "vote_label v = (case map_of [(''support'', ''apoio''), (''oppose'', ''oposicao''),
       (''abstain'', ''abstencao''), (''propose'', ''proposta inicial'')] v of
     Some label \<Rightarrow> label | None \<Rightarrow> v)"

definition render_contribution :: "DebatePy \<Rightarrow> DebateContribution \<Rightarrow> pystr" where
  "render_contribution py c = py_strip (py_join line_feed
     ([py_strip (dc_position c)] @
      (if dc_arguments c \<noteq> [] then ['''', ''**Argumentos**''] @ bullet_lines (dc_arguments c) else []) @
      (if dc_objections c \<noteq> [] then ['''', ''**Objecoes**''] @ bullet_lines (dc_objections c) else []) @
      (if dc_proposal c \<noteq> [] then ['''', ''**Proposta**'', py_strip (dc_proposal c)] else []) @
      (if dc_work_items c \<noteq> [] then ['''', ''**Divisao de trabalho**''] @
         map (\<lambda>i. ''- `'' @ wi_id i @ ''` '' @ wi_title i @
           (if truthy_text (wi_assigned_to i) then '' -> '' @ or_empty (wi_assigned_to i) else [])) (dc_work_items c)
       else []) @
      ['''', ''Voto: **'' @ vote_label (dc_vote c) @ ''** | confianca: **'' @ dp_percent py (dc_confidence c) @ ''**'']))"

definition render_plan_item :: "WorkItem \<Rightarrow> pystr list" where
  "render_plan_item i =
     (''- `'' @ wi_id i @ ''` **'' @ wi_title i @ ''** -> '' @
        (if truthy_text (wi_assigned_to i) then or_empty (wi_assigned_to i) else ''nao atribuido'') @
        (if wi_dependencies i \<noteq> [] then '' | depende de: '' @ py_join '', '' (wi_dependencies i) else [])) #
     map (\<lambda>c. ''  - aceite: '' @ c) (wi_acceptance_criteria i)"

text \<open>\<open>dict.fromkeys\<close>: the first occurrence of each text, in order.\<close>

definition first_of_each :: "'a list \<Rightarrow> 'a list" where
  "first_of_each xs = rev (remdups (rev xs))"

definition render_synthesis :: "DebatePy \<Rightarrow> bool \<Rightarrow> DebateStatus option \<Rightarrow> DebateSynthesis \<Rightarrow> pystr" where
  "render_synthesis py final status s =
     (let verdict = py_strip (sy_verdict s); dissent = sy_disagreements s @ sy_critical_objections s in
      py_strip (py_join line_feed
       ([if verdict \<noteq> [] then verdict else py_strip (sy_summary s)] @
        (if sy_work_items s \<noteq> [] then ['''', ''**Plano coordenado**''] @ concat (map render_plan_item (sy_work_items s)) else []) @
        (if sy_agreements s \<noteq> [] then ['''', ''**Acordos**''] @ bullet_lines (sy_agreements s) else []) @
        (if dissent \<noteq> [] then ['''', ''**Dissensos**''] @ bullet_lines (first_of_each dissent) else []) @
        (if final then ['''', ''Resultado: **'' @ (if status = Some DB_CONVERGED then ''consenso'' else ''sem consenso'') @
           ''** | confianca: **'' @ dp_percent py (sy_confidence s) @ ''**''] else []))))"

section \<open>Fields of a response\<close>

definition debate_text :: "json \<Rightarrow> pystr \<Rightarrow> nat \<Rightarrow> debate_error + pystr" where
  "debate_text value field_name max_chars = (case value of
       JNull \<Rightarrow> Inr []
     | JStr s \<Rightarrow> (let text = py_strip s in
         if length text > max_chars
         then Inl (ProtocolError (field_name @ '' excede o limite de '' @ show_nat max_chars @ '' caracteres''))
         else Inr text)
     | _ \<Rightarrow> Inl (ProtocolError (field_name @ '' deve ser texto'')))"

definition required_text :: "(pystr \<times> json) list \<Rightarrow> pystr \<Rightarrow> nat \<Rightarrow> debate_error + pystr" where
  "required_text payload key max_chars =
     bind_res (debate_text (obj_get payload key) key max_chars) (\<lambda>value.
     if value = [] then Inl (ProtocolError (''campo obrigatorio ausente: '' @ key)) else Inr value)"

definition debate_text_items :: "json \<Rightarrow> pystr \<Rightarrow> debate_error + pystr list" where
  "debate_text_items value field_name =
     (if value = JNull \<or> value = JStr [] then Inr []
      else case value of
        JList items \<Rightarrow>
          (if length items > max_debate_list_items
           then Inl (ProtocolError (field_name @ '' excede o limite de '' @ show_nat max_debate_list_items @ '' itens''))
           else bind_res (map_res (\<lambda>item. debate_text item (field_name @ ''[]'') 4000) items)
                  (\<lambda>texts. Inr (filter (\<lambda>t. t \<noteq> []) texts)))
      | _ \<Rightarrow> Inl (ProtocolError (field_name @ '' possui tipo invalido'')))"

text \<open>
  An integer that rounds to no finite double is an \<open>OverflowError\<close>, which no caller turns into a
  protocol error.
\<close>

definition confidence_of :: "json \<Rightarrow> bool \<Rightarrow> debate_error + rat" where
  "confidence_of value required =
     (let in_range = (\<lambda>r. if 0 \<le> r \<and> r \<le> 1 then Inr r else Inl (ProtocolError ''confidence deve estar entre 0 e 1'')) in
      case value of
        JNull \<Rightarrow> if required then Inl (ProtocolError ''confidence deve ser numero entre 0 e 1'') else Inr 0
      | JInt i \<Rightarrow> if \<bar>i\<bar> \<ge> 2 ^ 1024 - 2 ^ 970 then Inl (Failure ''int too large to convert to float'') else in_range (of_int i)
      | JFloat r \<Rightarrow> in_range r
      | JNonFinite \<Rightarrow> Inl (ProtocolError ''confidence deve estar entre 0 e 1'')
      | _ \<Rightarrow> Inl (ProtocolError ''confidence deve ser numero entre 0 e 1''))"

definition boolean_of :: "(pystr \<times> json) list \<Rightarrow> pystr \<Rightarrow> bool option \<Rightarrow> debate_error + bool" where
  "boolean_of payload key default_value = (case map_of payload key of
     None \<Rightarrow> (case default_value of Some b \<Rightarrow> Inr b | None \<Rightarrow> Inl (ProtocolError (''campo obrigatorio ausente: '' @ key)))
   | Some (JBool b) \<Rightarrow> Inr b
   | Some _ \<Rightarrow> Inl (ProtocolError (key @ '' deve ser booleano'')))"

definition stored_bool :: "json \<Rightarrow> debate_error + bool" where
  "stored_bool value = (case value of
     JBool b \<Rightarrow> Inr b | _ \<Rightarrow> Inl (ProtocolError ''valor booleano persistido invalido''))"

text \<open>\<open>payload.get ("work_items", ())\<close>: an absent key is the empty list.\<close>

definition get_or :: "(pystr \<times> json) list \<Rightarrow> pystr \<Rightarrow> json \<Rightarrow> json" where
  "get_or payload key d = (case map_of payload key of None \<Rightarrow> d | Some v \<Rightarrow> v)"

definition debate_work_items :: "json \<Rightarrow> debate_error + WorkItem list" where
  "debate_work_items value = as_protocol_error (parse_work_items value max_debate_work_items)"

definition check_work_items :: "WorkItem list \<Rightarrow> debate_error + unit" where
  "check_work_items items = as_protocol_error (validate_work_items items)"

section \<open>Responses\<close>

text \<open>
  \<open>decoder.raw_decode (text[index:])\<close> at each opening brace, until one starts an object. What follows
  the object is ignored.
\<close>

fun first_object :: "pystr \<Rightarrow> (pystr \<times> json) list option" where
  "first_object [] = None"
| "first_object (c # cs) =
     (if c \<noteq> CHR ''{'' then first_object cs
      else case parse_value (2 * length (c # cs) + 1) (c # cs) of
          Some (JObj payload, _) \<Rightarrow> Some payload
        | _ \<Rightarrow> first_object cs)"

definition response_text :: "PyText \<Rightarrow> json \<Rightarrow> pystr" where
  "response_text py response = (if truthy response then py_str py response else [])"

definition extract_json_object :: "PyText \<Rightarrow> json \<Rightarrow> debate_error + (pystr \<times> json) list" where
  "extract_json_object py response = (case response of
     JObj payload \<Rightarrow> Inr payload
   | _ \<Rightarrow> (let text = py_strip (response_text py response) in
       if text = [] then Inl (ProtocolError ''resposta vazia'')
       else if length text > max_debate_response_chars then Inl (ProtocolError ''resposta excede o limite do protocolo'')
       else case first_object text of
           Some payload \<Rightarrow> Inr payload
         | None \<Rightarrow> Inl (ProtocolError ''resposta nao contem objeto JSON valido'')))"

definition debate_votes :: "pystr list" where
  "debate_votes = [''support'', ''oppose'', ''abstain'', ''propose'']"

definition contribution_from_response :: "PyText \<Rightarrow> json \<Rightarrow> pystr \<Rightarrow> int \<Rightarrow> pystr \<Rightarrow> debate_error + DebateContribution" where
  "contribution_from_response py response debate_id round_index agent =
     bind_res (extract_json_object py response) (\<lambda>payload.
     bind_res (required_text payload ''position'' max_debate_text_chars) (\<lambda>position.
     bind_res (debate_text (obj_get payload ''proposal'') ''proposal'' max_debate_text_chars) (\<lambda>proposal.
     bind_res (debate_work_items (get_or payload ''work_items'' (JList []))) (\<lambda>items.
     bind_res (debate_text (json_or (obj_get payload ''vote'') (JStr ''abstain'')) ''vote'' max_debate_text_chars) (\<lambda>v.
     let vote = py_lower v in
     if vote \<notin> set debate_votes then Inl (ProtocolError (''vote invalido: '' @ vote)) else
     bind_res (debate_text_items (obj_get payload ''arguments'') ''arguments'') (\<lambda>arguments.
     bind_res (debate_text_items (obj_get payload ''objections'') ''objections'') (\<lambda>objections.
     bind_res (confidence_of (obj_get payload ''confidence'') True) (\<lambda>confidence.
     bind_res (boolean_of payload ''critical_objection'' (Some False)) (\<lambda>critical.
     Inr \<lparr> dc_debate_id = debate_id, dc_round_index = round_index, dc_agent = agent,
           dc_position = position, dc_arguments = arguments, dc_objections = objections,
           dc_proposal = proposal, dc_confidence = confidence, dc_vote = vote,
           dc_critical_objection = critical, dc_work_items = items,
           dc_raw_response = response_text py response \<rparr>)))))))))"

definition synthesis_from_response :: "PyText \<Rightarrow> json \<Rightarrow> pystr \<Rightarrow> int \<Rightarrow> pystr \<Rightarrow> debate_error + DebateSynthesis" where
  "synthesis_from_response py response debate_id round_index moderator =
     bind_res (extract_json_object py response) (\<lambda>payload.
     bind_res (debate_work_items (get_or payload ''work_items'' (JList []))) (\<lambda>items.
     bind_res (check_work_items items) (\<lambda>_.
     bind_res (required_text payload ''summary'' max_debate_text_chars) (\<lambda>summary.
     bind_res (required_text payload ''verdict'' max_debate_text_chars) (\<lambda>verdict.
     bind_res (debate_text_items (obj_get payload ''agreements'') ''agreements'') (\<lambda>agreements.
     bind_res (debate_text_items (obj_get payload ''disagreements'') ''disagreements'') (\<lambda>disagreements.
     bind_res (debate_text_items (obj_get payload ''critical_objections'') ''critical_objections'') (\<lambda>critical.
     bind_res (confidence_of (obj_get payload ''confidence'') True) (\<lambda>confidence.
     bind_res (boolean_of payload ''consensus_reached'' None) (\<lambda>consensus.
     Inr \<lparr> sy_debate_id = debate_id, sy_round_index = round_index, sy_moderator = moderator,
           sy_summary = summary, sy_verdict = verdict, sy_agreements = agreements,
           sy_disagreements = disagreements, sy_critical_objections = critical,
           sy_confidence = confidence, sy_consensus_reached = consensus, sy_work_items = items,
           sy_raw_response = response_text py response \<rparr>))))))))))"

text \<open>
  The synthesis of a stored dictionary: an empty one is none. A value that is not a dictionary, or a
  round that is not a number, never comes from the repository.
\<close>

definition synthesis_from_dict :: "DebatePy \<Rightarrow> json \<Rightarrow> debate_error + DebateSynthesis option" where
  "synthesis_from_dict py v =
     (if \<not> truthy v then Inr None
      else case v of
        JObj payload \<Rightarrow>
          bind_res (debate_text (obj_get payload ''debate_id'') ''debate_id'' max_debate_text_chars) (\<lambda>debate_id.
          case py_int (json_or (obj_get payload ''round_index'') (JInt 0)) of
            None \<Rightarrow> Inl (Failure (dp_bad_value py (obj_get payload ''round_index'')))
          | Some round_index \<Rightarrow>
          bind_res (debate_text (obj_get payload ''moderator'') ''moderator'' max_debate_text_chars) (\<lambda>moderator.
          bind_res (debate_text (obj_get payload ''summary'') ''summary'' max_debate_text_chars) (\<lambda>summary.
          bind_res (debate_text (obj_get payload ''verdict'') ''verdict'' max_debate_text_chars) (\<lambda>verdict.
          bind_res (debate_text_items (obj_get payload ''agreements'') ''agreements'') (\<lambda>agreements.
          bind_res (debate_text_items (obj_get payload ''disagreements'') ''disagreements'') (\<lambda>disagreements.
          bind_res (debate_text_items (obj_get payload ''critical_objections'') ''critical_objections'') (\<lambda>critical.
          bind_res (confidence_of (obj_get payload ''confidence'') False) (\<lambda>confidence.
          bind_res (stored_bool (get_or payload ''consensus_reached'' (JBool False))) (\<lambda>consensus.
          bind_res (debate_work_items (get_or payload ''work_items'' (JList []))) (\<lambda>items.
          bind_res (debate_text (obj_get payload ''raw_response'') ''raw_response'' max_debate_response_chars) (\<lambda>raw.
          Inr (Some \<lparr> sy_debate_id = debate_id, sy_round_index = round_index, sy_moderator = moderator,
             sy_summary = summary, sy_verdict = verdict, sy_agreements = agreements,
             sy_disagreements = disagreements, sy_critical_objections = critical,
             sy_confidence = confidence, sy_consensus_reached = consensus, sy_work_items = items,
             sy_raw_response = raw \<rparr>))))))))))))
      | _ \<Rightarrow> Inl (Failure (dp_bad_value py v)))"

section \<open>What the parsers accept\<close>

definition confidence_ok :: "rat \<Rightarrow> bool" where
  "confidence_ok r \<longleftrightarrow> 0 \<le> r \<and> r \<le> 1"

definition items_accepted :: "WorkItem list \<Rightarrow> bool" where
  "items_accepted items \<longleftrightarrow> length items \<le> max_debate_work_items \<and> (\<forall>i \<in> set items. item_ok i)"

definition contribution_ok :: "DebateContribution \<Rightarrow> bool" where
  "contribution_ok c \<longleftrightarrow> dc_position c \<noteq> [] \<and> text_ok max_debate_text_chars (dc_position c) \<and>
     text_ok max_debate_text_chars (dc_proposal c) \<and> texts_ok (dc_arguments c) \<and> texts_ok (dc_objections c) \<and>
     confidence_ok (dc_confidence c) \<and> dc_vote c \<in> set debate_votes \<and> items_accepted (dc_work_items c)"

definition synthesis_ok :: "DebateSynthesis \<Rightarrow> bool" where
  "synthesis_ok s \<longleftrightarrow> sy_summary s \<noteq> [] \<and> text_ok max_debate_text_chars (sy_summary s) \<and>
     sy_verdict s \<noteq> [] \<and> text_ok max_debate_text_chars (sy_verdict s) \<and> texts_ok (sy_agreements s) \<and>
     texts_ok (sy_disagreements s) \<and> texts_ok (sy_critical_objections s) \<and> confidence_ok (sy_confidence s) \<and>
     items_accepted (sy_work_items s) \<and> validate_work_items (sy_work_items s) = Inr ()"

lemma debate_text_ok: "debate_text v f n = Inr t \<Longrightarrow> text_ok n t"
  by (cases v) (auto simp: debate_text_def text_ok_def Let_def split: if_splits)

lemma required_text_ok: "required_text kvs f n = Inr t \<Longrightarrow> t \<noteq> [] \<and> text_ok n t"
  by (auto simp: required_text_def bind_res_Inr dest: debate_text_ok split: if_splits)

lemma debate_text_field: "debate_text v f n = as_protocol_error (text_field v f n)"
  by (cases v) (simp_all add: debate_text_def text_field_def Let_def as_protocol_error_def)

lemma map_res_protocol: "map_res (\<lambda>x. as_protocol_error (f x)) xs = as_protocol_error (map_res f xs)"
  by (induction xs) (auto simp: as_protocol_error_def bind_res_def split: sum.splits work_item_error.splits)

lemma protocol_map: "bind_res (as_protocol_error r) (\<lambda>x. Inr (g x)) = as_protocol_error (bind_res r (\<lambda>x. Inr (g x)))"
  by (auto simp: as_protocol_error_def bind_res_def split: sum.splits work_item_error.splits)

lemma debate_text_list: "debate_text_items v f = as_protocol_error (text_list v f)"
  by (cases v) (simp_all add: debate_text_items_def text_list_def debate_text_field map_res_protocol protocol_map
      as_protocol_error_simps max_debate_list_items_def max_list_items_def)

lemma debate_text_items_ok: "debate_text_items v f = Inr ts \<Longrightarrow> texts_ok ts"
  by (auto simp: debate_text_list dest: text_list_ok)

lemma confidence_of_ok: "confidence_of v b = Inr r \<Longrightarrow> confidence_ok r"
  by (cases v) (auto simp: confidence_of_def confidence_ok_def Let_def simp del: power_Suc split: if_splits)

lemma debate_work_items_ok: "debate_work_items v = Inr items \<Longrightarrow> items_accepted items"
  by (auto simp: debate_work_items_def items_accepted_def dest: parse_work_items_ok)

lemma contribution_from_response_ok:
  "contribution_from_response py v d r a = Inr c \<Longrightarrow>
    contribution_ok c \<and> dc_debate_id c = d \<and> dc_round_index c = r \<and> dc_agent c = a"
  by (auto simp: contribution_from_response_def contribution_ok_def bind_res_Inr Let_def
      dest!: required_text_ok debate_text_ok debate_text_items_ok confidence_of_ok debate_work_items_ok split: if_splits)

lemma synthesis_from_response_ok:
  "synthesis_from_response py v d r m = Inr s \<Longrightarrow>
    synthesis_ok s \<and> sy_debate_id s = d \<and> sy_round_index s = r \<and> sy_moderator s = m"
  by (auto simp: synthesis_from_response_def synthesis_ok_def check_work_items_def bind_res_Inr Let_def
      dest!: required_text_ok debate_text_items_ok confidence_of_ok debate_work_items_ok split: if_splits)

section \<open>Stored syntheses\<close>

lemma py_lower_members: "\<forall>v \<in> set work_item_priorities \<union> set work_item_task_types. v \<noteq> [] \<and> py_lower v = v \<and>
    py_strip v = v \<and> length v \<le> 20"
  by code_simp

lemma text_field_JStr: "text_field (JStr t) f n = (if length (py_strip t) \<le> n then Inr (py_strip t) else Inl (TextTooLong f n))"
  by (simp add: text_field_def Let_def)

lemma text_list_strs: "texts_ok ts \<Longrightarrow> text_list (str_list ts) f = Inr ts"
proof -
  assume ok: "texts_ok ts"
  have "map_res (\<lambda>x. text_field x g 4000) (map JStr us) = Inr us" if "set us \<subseteq> set ts" for us g
    using that ok by (induction us) (auto simp: text_field_JStr texts_ok_def text_ok_def)
  moreover have "filter (\<lambda>t. t \<noteq> []) ts = ts" using ok by (auto simp: texts_ok_def filter_id_conv)
  ultimately show ?thesis using ok by (simp add: text_list_def str_list_def texts_ok_def)
qed

lemma id_char_visible: "id_rest_char c \<Longrightarrow> \<not> py_isspace c"
  by (auto simp: id_rest_char_def id_first_char_def py_isspace_def Let_def)

lemma strip_visible:
  assumes "list_all (\<lambda>c. \<not> py_isspace c) s"
  shows "py_strip s = s"
proof -
  have "s = [] \<or> \<not> py_isspace (hd s)" using assms by (cases s) simp_all
  moreover have "rev s = [] \<or> \<not> py_isspace (hd (rev s))"
    using assms last_in_set [of s] by (auto simp: hd_rev list_all_iff)
  ultimately show ?thesis by (simp add: py_strip_def py_rstrip_def py_lstrip_def dropWhile_fixed)
qed

lemma work_item_id_text: "work_item_id_ok s \<Longrightarrow> s \<noteq> [] \<and> text_ok 64 s"
proof (cases s)
  case (Cons c cs)
  assume "work_item_id_ok s"
  then have "id_rest_char c" "list_all id_rest_char cs" "length cs \<le> 63"
    by (auto simp: Cons work_item_id_ok_def id_rest_char_def)
  then have "list_all (\<lambda>d. \<not> py_isspace d) s" by (auto simp: Cons list_all_iff dest: id_char_visible)
  with \<open>length cs \<le> 63\<close> show ?thesis by (auto simp: Cons text_ok_def strip_visible)
qed (simp add: work_item_id_ok_def)

lemma parse_item_dict:
  assumes "item_ok i"
  shows "parse_work_item (JObj (item_to_dict i)) d =
    Inr (i\<lparr>wi_description := text_or (wi_description i) (wi_title i)\<rparr>)"
proof -
  note ok = assms [unfolded item_ok_def]
  have id: "wi_id i \<noteq> []" "length (wi_id i) \<le> 64" "py_strip (wi_id i) = wi_id i"
    using work_item_id_text ok by (auto simp: text_ok_def)
  have p: "wi_priority i \<noteq> []" "py_lower (wi_priority i) = wi_priority i" "py_strip (wi_priority i) = wi_priority i"
    "length (wi_priority i) \<le> 20"
    and t: "wi_task_type i \<noteq> []" "py_lower (wi_task_type i) = wi_task_type i" "py_strip (wi_task_type i) = wi_task_type i"
    "length (wi_task_type i) \<le> 20"
    using py_lower_members ok by blast+
  have descr: "text_field (json_or (JStr (wi_description i)) (JStr (wi_title i))) ''work_item.description'' 8000 =
      Inr (text_or (wi_description i) (wi_title i))"
    using ok by (auto simp: json_or_def text_or_def text_field_JStr text_ok_def)
  have a: "text_field (opt_str (wi_assigned_to i)) f 200 = Inr (or_empty (wi_assigned_to i))" for f
    using ok by (cases "wi_assigned_to i") (auto simp: opt_str_def text_field_JStr text_ok_def text_field_def)
  have n: "none_if_empty (or_empty (wi_assigned_to i)) = wi_assigned_to i"
    using ok by (cases "wi_assigned_to i") (auto simp: none_if_empty_def)
  have ls: "text_list (str_list (wi_dependencies i)) f = Inr (wi_dependencies i)"
    "text_list (str_list (wi_acceptance_criteria i)) f = Inr (wi_acceptance_criteria i)" for f
    using ok by (simp_all add: text_list_strs)
  show ?thesis
    using ok id p t
    by (simp add: parse_work_item_def item_to_dict_def obj_get_def json_or_def text_field_JStr text_ok_def Let_def a ls n
        descr [unfolded json_or_def, simplified])
qed

text \<open>
  A stored work item is read back; an empty description is read as the title, as it is when the
  plan is first parsed.
\<close>

definition described :: "WorkItem \<Rightarrow> WorkItem" where
  "described i = i\<lparr>wi_description := text_or (wi_description i) (wi_title i)\<rparr>"

lemma parse_item_dicts:
  "items_accepted items \<Longrightarrow> debate_work_items (JList (map (\<lambda>i. JObj (item_to_dict i)) items)) = Inr (map described items)"
proof -
  have "map_res (\<lambda>(index, raw). parse_work_item raw (CHR ''T'' # show_nat index))
      (zip ns (map (\<lambda>i. JObj (item_to_dict i)) xs)) = Inr (map described xs)"
    if "list_all item_ok xs" "length ns = length xs" for ns :: "nat list" and xs
    using that(2,1) by (induction ns xs rule: list_induct2) (simp_all add: parse_item_dict described_def)
  from this [of items "[1..<Suc (length items)]"] show "items_accepted items \<Longrightarrow> ?thesis"
    by (simp add: debate_work_items_def parse_work_items_def items_accepted_def list_all_iff as_protocol_error_simps
        del: upt_Suc)
qed

definition texts_fit :: "pystr list \<Rightarrow> bool" where
  "texts_fit ts \<longleftrightarrow> length ts \<le> max_debate_list_items \<and> (\<forall>t \<in> set ts. length (py_strip t) \<le> 4000)"

lemma texts_ok_fit: "texts_ok ts \<Longrightarrow> texts_fit ts"
  by (auto simp: texts_ok_def texts_fit_def text_ok_def max_debate_list_items_def max_list_items_def)

lemma read_texts_iff: "(\<exists>us. debate_text_items (str_list ts) f = Inr us) \<longleftrightarrow> texts_fit ts"
proof -
  have "(\<exists>us. map_res (\<lambda>x. debate_text x g 4000) (map JStr us') = Inr us) \<longleftrightarrow> (\<forall>t \<in> set us'. length (py_strip t) \<le> 4000)"
    for us' g
    by (induction us') (auto simp: debate_text_def Let_def bind_res_Inr)
  then show ?thesis by (auto simp: debate_text_items_def str_list_def texts_fit_def bind_res_Inr)
qed

text \<open>Reading a stored synthesis is reading its two lists of dissent: the rest is as the parsers leave it.\<close>

definition storable :: "DebateSynthesis \<Rightarrow> bool" where
  "storable s \<longleftrightarrow> list_all (text_ok max_debate_text_chars) [sy_debate_id s, sy_moderator s, sy_summary s, sy_verdict s] \<and>
     texts_ok (sy_agreements s) \<and> confidence_ok (sy_confidence s) \<and> items_accepted (sy_work_items s)"

lemma debate_text_same: "text_ok n t \<Longrightarrow> debate_text (JStr t) f n = Inr t"
  by (simp add: debate_text_def text_ok_def Let_def)

lemma debate_text_null: "debate_text JNull f n = Inr []"
  by (simp add: debate_text_def)

lemma read_round: "py_int (json_or (JInt n) (JInt 0)) = Some n"
  by (simp add: json_or_def)

lemma read_confidence: "confidence_ok r \<Longrightarrow> confidence_of (JFloat r) b = Inr r"
  by (simp add: confidence_of_def confidence_ok_def)

lemma read_synthesis:
  assumes "storable s"
  shows "synthesis_from_dict py (JObj (synthesis_dict False s)) =
    bind_res (debate_text_items (str_list (sy_disagreements s)) ''disagreements'') (\<lambda>d.
    bind_res (debate_text_items (str_list (sy_critical_objections s)) ''critical_objections'') (\<lambda>c.
    Inr (Some (s\<lparr>sy_disagreements := d, sy_critical_objections := c,
      sy_work_items := map described (sy_work_items s), sy_raw_response := []\<rparr>))))"
proof -
  note ok = assms [unfolded storable_def, simplified]
  have lists: "debate_text_items (str_list (sy_agreements s)) f = Inr (sy_agreements s)" for f
    using ok by (simp add: debate_text_list text_list_strs as_protocol_error_simps)
  have get: "obj_get (synthesis_dict False s) ''debate_id'' = JStr (sy_debate_id s)"
    "obj_get (synthesis_dict False s) ''round_index'' = JInt (sy_round_index s)"
    "obj_get (synthesis_dict False s) ''moderator'' = JStr (sy_moderator s)"
    "obj_get (synthesis_dict False s) ''summary'' = JStr (sy_summary s)"
    "obj_get (synthesis_dict False s) ''verdict'' = JStr (sy_verdict s)"
    "obj_get (synthesis_dict False s) ''agreements'' = str_list (sy_agreements s)"
    "obj_get (synthesis_dict False s) ''disagreements'' = str_list (sy_disagreements s)"
    "obj_get (synthesis_dict False s) ''critical_objections'' = str_list (sy_critical_objections s)"
    "obj_get (synthesis_dict False s) ''confidence'' = JFloat (sy_confidence s)"
    "get_or (synthesis_dict False s) ''consensus_reached'' (JBool False) = JBool (sy_consensus_reached s)"
    "get_or (synthesis_dict False s) ''work_items'' (JList []) = JList (map (\<lambda>i. JObj (item_to_dict i)) (sy_work_items s))"
    "obj_get (synthesis_dict False s) ''raw_response'' = JNull" "synthesis_dict False s \<noteq> []"
    by (simp_all add: synthesis_dict_def obj_get_def get_or_def)
  show ?thesis
    using ok by (simp add: synthesis_from_dict_def get debate_text_same read_round lists read_confidence stored_bool_def
        parse_item_dicts debate_text_null) (cases s, simp)
qed

lemma read_synthesis_iff:
  assumes "storable s"
  shows "(\<exists>r. synthesis_from_dict py (JObj (synthesis_dict False s)) = Inr r) \<longleftrightarrow>
    texts_fit (sy_disagreements s) \<and> texts_fit (sy_critical_objections s)"
  unfolding read_synthesis [OF assms] read_texts_iff [symmetric, of _ "''disagreements''"]
  using read_texts_iff [of "sy_critical_objections s" "''critical_objections''"]
    read_texts_iff [of "sy_critical_objections s" "''disagreements''"]
  by (auto simp: bind_res_Inr)

lemma read_synthesis_same:
  assumes "storable s" "texts_ok (sy_disagreements s)" "texts_ok (sy_critical_objections s)"
  shows "synthesis_from_dict py (JObj (synthesis_dict False s)) =
    Inr (Some (s\<lparr>sy_work_items := map described (sy_work_items s), sy_raw_response := []\<rparr>))"
  using assms by (simp add: read_synthesis debate_text_list text_list_strs as_protocol_error_simps)

text \<open>The text of a dictionary is read back when the text of the confidence is.\<close>

lemma strs_ok [simp]: "json_ok py (str_list ts)"
  by (simp add: str_list_def, induction ts) simp_all

lemma item_dict_ok [simp]: "json_ok py (JObj (item_to_dict i))"
  by (cases "wi_assigned_to i") (simp_all add: item_to_dict_def opt_str_def del: json_ok.simps(3))

lemma item_dicts_ok [simp]: "items_ok py (map (\<lambda>i. JObj (item_to_dict i)) items)"
  by (induction items) (simp_all del: json_ok.simps(4))

lemma synthesis_dict_text:
  "float_reads py (JFloat (sy_confidence s)) \<Longrightarrow>
    json_loads (json_dumps py (JObj (synthesis_dict False s))) = Some (JObj (synthesis_dict False s))"
  by (rule json_text_reads) (simp add: synthesis_dict_def)

end
