(* ===== verification/Debate_Repository.thy ===== *)
theory Debate_Repository
  imports Debate_Models
begin

text \<open>
  The tables of the debates and their repository (\<open>quimera/debate/repository.py\<close>). Each method is one
  transaction: a function on the tables, with \<open>Inl\<close> the exception that rolled it back. Rows are in
  the order of their row ids; \<open>now\<close> is the text of \<open>_now\<close>.
\<close>

section \<open>Tables\<close>

record DebateRow =
  de_id :: pystr
  de_session_id :: pystr
  de_topic :: pystr
  de_context :: pystr
  de_mode :: pystr
  de_status :: pystr
  de_participants_json :: pystr
  de_moderator :: pystr
  de_max_rounds :: int
  de_timeout_seconds :: rat
  de_quorum :: int
  de_current_round :: int
  de_result_json :: "pystr option"
  de_error :: "pystr option"
  de_created_at :: pystr
  de_updated_at :: pystr
  de_started_at :: "pystr option"
  de_completed_at :: "pystr option"
  de_applied_at :: "pystr option"

record ContributionRow =
  cr_debate :: pystr
  cr_round :: int
  cr_agent :: pystr
  cr_payload :: pystr
  cr_raw :: pystr
  cr_created_at :: pystr

record SynthesisRow =
  sr_debate :: pystr
  sr_round :: int
  sr_moderator :: pystr
  sr_payload :: pystr
  sr_raw :: pystr
  sr_created_at :: pystr

record ItemRow =
  ir_debate :: pystr
  ir_item :: pystr
  ir_ordinal :: nat
  ir_payload :: pystr

record TaskLinkRow =
  tl_debate :: pystr
  tl_item :: pystr
  tl_task :: int
  tl_created_at :: pystr

record DebateTables =
  debates :: "DebateRow list"
  contribution_rows :: "ContributionRow list"
  synthesis_rows :: "SynthesisRow list"
  item_rows :: "ItemRow list"
  task_link_rows :: "TaskLinkRow list"

definition debate_at :: "DebateTables \<Rightarrow> pystr \<Rightarrow> DebateRow option" where
  "debate_at t did = find (\<lambda>r. de_id r = did) (debates t)"

definition update_debate :: "pystr \<Rightarrow> (DebateRow \<Rightarrow> DebateRow) \<Rightarrow> DebateTables \<Rightarrow> DebateTables" where
  "update_debate did f t = t\<lparr>debates := update_where (\<lambda>r. de_id r = did) f (debates t)\<rparr>"

section \<open>Sessions\<close>

definition new_debate_row :: "DebatePy \<Rightarrow> pystr \<Rightarrow> DebateSession \<Rightarrow> DebateRow" where
  "new_debate_row py now s =
     \<lparr> de_id = se_id s, de_session_id = se_session_id s, de_topic = se_topic s, de_context = se_context s,
       de_mode = mode_value (se_mode s), de_status = debate_value (se_status s),
       de_participants_json = json_dumps (dp_text py) (str_list (se_participants s)),
       de_moderator = se_moderator s, de_max_rounds = dl_max_rounds (se_limits s),
       de_timeout_seconds = dl_timeout_seconds (se_limits s), de_quorum = dl_quorum (se_limits s),
       de_current_round = se_current_round s, de_result_json = None, de_error = None,
       de_created_at = text_or (se_created_at s) now, de_updated_at = text_or (se_updated_at s) now,
       de_started_at = None, de_completed_at = None, de_applied_at = None \<rparr>"

definition create_session :: "DebatePy \<Rightarrow> pystr \<Rightarrow> DebateSession \<Rightarrow> DebateTables \<Rightarrow> debate_error + DebateTables" where
  "create_session py now s t =
     (if debate_at t (se_id s) \<noteq> None then Inl (Integrity ''UNIQUE constraint failed: debates.id'')
      else Inr (t\<lparr>debates := debates t @ [new_debate_row py now s]\<rparr>))"

definition read_participants :: "DebatePy \<Rightarrow> pystr \<Rightarrow> debate_error + pystr list" where
  "read_participants py text = (case json_loads text of
     None \<Rightarrow> Inl (BadValue (dp_bad_text py text))
   | Some v \<Rightarrow> (case v of
       JList xs \<Rightarrow> (case strs_of xs of Some names \<Rightarrow> Inr names | None \<Rightarrow> Inl (Failure (dp_bad_value py v)))
     | _ \<Rightarrow> Inl (Failure (dp_bad_value py v))))"

definition read_result :: "DebatePy \<Rightarrow> pystr option \<Rightarrow> debate_error + json" where
  "read_result py text =
     (if truthy_text text then (case json_loads (or_empty text) of
        None \<Rightarrow> Inl (BadValue (dp_bad_text py (or_empty text))) | Some v \<Rightarrow> Inr v)
      else Inr JNull)"

definition session_from_row :: "DebatePy \<Rightarrow> DebateRow \<Rightarrow> debate_error + DebateSession" where
  "session_from_row py r =
     bind_res (read_result py (de_result_json r)) (\<lambda>result_payload.
     case mode_of (de_mode r) of
       None \<Rightarrow> Inl (BadValue (py_repr_text (de_mode r) @ '' is not a valid DebateMode''))
     | Some mode \<Rightarrow> (case debate_status_of (de_status r) of
       None \<Rightarrow> Inl (BadValue (py_repr_text (de_status r) @ '' is not a valid DebateStatus''))
     | Some status \<Rightarrow>
     bind_res (read_participants py (de_participants_json r)) (\<lambda>participants.
     bind_res (synthesis_from_dict py result_payload) (\<lambda>result.
     Inr \<lparr> se_id = de_id r, se_session_id = de_session_id r, se_topic = de_topic r, se_mode = mode,
           se_status = status, se_participants = participants, se_moderator = de_moderator r,
           se_limits = \<lparr>dl_max_rounds = de_max_rounds r, dl_timeout_seconds = de_timeout_seconds r,
              dl_quorum = de_quorum r\<rparr>,
           se_context = de_context r, se_current_round = de_current_round r,
           se_created_at = de_created_at r, se_updated_at = de_updated_at r,
           se_started_at = de_started_at r, se_completed_at = de_completed_at r, se_result = result,
           se_error = or_empty (de_error r), se_applied_at = de_applied_at r \<rparr>))))"

definition get_session :: "DebatePy \<Rightarrow> pystr \<Rightarrow> DebateTables \<Rightarrow> debate_error + DebateSession option" where
  "get_session py did t = (case debate_at t did of
     None \<Rightarrow> Inr None
   | Some r \<Rightarrow> bind_res (session_from_row py r) (\<lambda>s. Inr (Some s)))"

text \<open>\<open>ORDER BY updated_at DESC, rowid DESC\<close>.\<close>

definition latest_first :: "DebateTables \<Rightarrow> DebateRow list" where
  "latest_first t = rev (sort_key de_updated_at (debates t))"

definition latest_session :: "DebatePy \<Rightarrow> DebateTables \<Rightarrow> debate_error + DebateSession option" where
  "latest_session py t = (case latest_first t of
     [] \<Rightarrow> Inr None
   | r # _ \<Rightarrow> bind_res (session_from_row py r) (\<lambda>s. Inr (Some s)))"

definition list_sessions :: "DebatePy \<Rightarrow> int \<Rightarrow> DebateTables \<Rightarrow> debate_error + DebateSession list" where
  "list_sessions py limit t =
     (let safe_limit = min 100 (max 1 limit) in
      map_res (session_from_row py) (take (nat safe_limit) (latest_first t)))"

text \<open>
  \<open>set_status\<close>: an unconditional update, whatever status the row has; the arguments that are \<open>None\<close>
  leave their columns alone.
\<close>

definition status_update :: "DebatePy \<Rightarrow> pystr \<Rightarrow> DebateStatus \<Rightarrow> int option \<Rightarrow> pystr option \<Rightarrow>
    DebateSynthesis option \<Rightarrow> DebateRow \<Rightarrow> DebateRow" where
  "status_update py now status current_round error result r = r\<lparr>
     de_status := debate_value status, de_updated_at := now,
     de_current_round := (case current_round of None \<Rightarrow> de_current_round r | Some n \<Rightarrow> n),
     de_error := (case error of None \<Rightarrow> de_error r | Some e \<Rightarrow> Some e),
     de_result_json := (case result of None \<Rightarrow> de_result_json r
        | Some s \<Rightarrow> Some (json_dumps (dp_text py) (JObj (synthesis_dict False s)))),
     de_started_at := (if status \<in> {DB_RUNNING, DB_SYNTHESIZING} then coalesce (de_started_at r) (Some now)
        else de_started_at r),
     de_completed_at := (if terminal_debate status then coalesce (de_completed_at r) (Some now)
        else de_completed_at r)\<rparr>"

definition set_debate_status :: "DebatePy \<Rightarrow> pystr \<Rightarrow> pystr \<Rightarrow> DebateStatus \<Rightarrow> int option \<Rightarrow> pystr option \<Rightarrow>
    DebateSynthesis option \<Rightarrow> DebateTables \<Rightarrow> debate_error + DebateTables" where
  "set_debate_status py now did status current_round error result t =
     (if debate_at t did = None then Inl (NoSuchKey (''debate inexistente: '' @ did))
      else Inr (update_debate did (status_update py now status current_round error result) t))"

definition mark_applied :: "pystr \<Rightarrow> pystr \<Rightarrow> DebateTables \<Rightarrow> debate_error + DebateTables" where
  "mark_applied now did t =
     (if debate_at t did = None then Inl (NoSuchKey (''debate inexistente: '' @ did))
      else Inr (update_debate did (\<lambda>r. r\<lparr>de_applied_at := coalesce (de_applied_at r) (Some now), de_updated_at := now\<rparr>) t))"

text \<open>
  \<open>recover_expired\<close>: \<open>julianday\<close> is SQLite's, \<open>None\<close> its \<open>NULL\<close> on a text that is no date; a comparison
  with \<open>NULL\<close> selects nothing.
\<close>

definition active_debate :: "pystr \<Rightarrow> bool" where
  "active_debate st \<longleftrightarrow> st \<in> {debate_value DB_CREATED, debate_value DB_RUNNING, debate_value DB_SYNTHESIZING}"

definition expired :: "(pystr \<Rightarrow> rat option) \<Rightarrow> pystr \<Rightarrow> DebateRow \<Rightarrow> bool" where
  "expired julianday recovered_at r \<longleftrightarrow> active_debate (de_status r) \<and>
     (case (julianday (case de_started_at r of Some d \<Rightarrow> d | None \<Rightarrow> de_created_at r), julianday recovered_at) of
        (Some from, Some now) \<Rightarrow> from + de_timeout_seconds r / 86400 \<le> now
      | _ \<Rightarrow> False)"

definition recover_expired :: "(pystr \<Rightarrow> rat option) \<Rightarrow> pystr \<Rightarrow> pystr \<Rightarrow> DebateTables \<Rightarrow> nat \<times> DebateTables" where
  "recover_expired julianday reason recovered_at t =
     (length (filter (expired julianday recovered_at) (debates t)),
      t\<lparr>debates := update_where (expired julianday recovered_at)
        (\<lambda>r. r\<lparr>de_status := debate_value DB_FAILED, de_error := Some reason, de_updated_at := recovered_at,
              de_completed_at := Some recovered_at\<rparr>) (debates t)\<rparr>)"

section \<open>Contributions and syntheses\<close>

definition foreign_key_failed :: debate_error where
  "foreign_key_failed = Integrity ''FOREIGN KEY constraint failed''"

text \<open>\<open>INSERT .. ON CONFLICT (key) DO UPDATE\<close>: the conflicting row is updated in its place.\<close>

definition upsert :: "('a \<Rightarrow> bool) \<Rightarrow> 'a \<Rightarrow> 'a list \<Rightarrow> 'a list" where
  "upsert conflicts row rows = (if list_ex conflicts rows then update_where conflicts (\<lambda>_. row) rows else rows @ [row])"

definition contribution_row :: "DebatePy \<Rightarrow> pystr \<Rightarrow> DebateContribution \<Rightarrow> ContributionRow" where
  "contribution_row py now c =
     \<lparr> cr_debate = dc_debate_id c, cr_round = dc_round_index c, cr_agent = dc_agent c,
       cr_payload = json_dumps (dp_text py) (JObj (contribution_dict False c)), cr_raw = dc_raw_response c,
       cr_created_at = now \<rparr>"

definition same_slot :: "ContributionRow \<Rightarrow> ContributionRow \<Rightarrow> bool" where
  "same_slot a b \<longleftrightarrow> cr_debate a = cr_debate b \<and> cr_round a = cr_round b \<and> cr_agent a = cr_agent b"

definition add_contribution :: "DebatePy \<Rightarrow> pystr \<Rightarrow> DebateContribution \<Rightarrow> DebateTables \<Rightarrow> debate_error + DebateTables" where
  "add_contribution py now c t =
     (if debate_at t (dc_debate_id c) = None then Inl foreign_key_failed
      else let row = contribution_row py now c in
        Inr (t\<lparr>contribution_rows := upsert (same_slot row) row (contribution_rows t)\<rparr>))"

text \<open>
  Reading back. A missing key, or a value of a type that \<open>as_dict\<close> does not write, is \<open>None\<close>.
\<close>

definition stored_strs :: "(pystr \<times> json) list \<Rightarrow> pystr \<Rightarrow> pystr list option" where
  "stored_strs kvs k = (let v = obj_get kvs k in
     if \<not> truthy v then Some [] else case v of JList xs \<Rightarrow> strs_of xs | _ \<Rightarrow> None)"

definition stored_text_or :: "PyText \<Rightarrow> (pystr \<times> json) list \<Rightarrow> pystr \<Rightarrow> pystr \<Rightarrow> pystr" where
  "stored_text_or py kvs k d = (let v = obj_get kvs k in if truthy v then py_str py v else d)"

definition stored_item :: "PyText \<Rightarrow> json \<Rightarrow> WorkItem option" where
  "stored_item py v = (case v of
     JObj kvs \<Rightarrow>
       Option.bind (let a = obj_get kvs ''assigned_to'' in
         if \<not> truthy a then Some None else case a of JStr s \<Rightarrow> Some (Some s) | _ \<Rightarrow> None) (\<lambda>assigned.
       Option.bind (stored_strs kvs ''dependencies'') (\<lambda>dependencies.
       Option.bind (stored_strs kvs ''acceptance_criteria'') (\<lambda>criteria.
       Some \<lparr> wi_id = stored_text_or py kvs ''id'' [], wi_title = stored_text_or py kvs ''title'' [],
              wi_description = stored_text_or py kvs ''description'' [],
              wi_task_type = stored_text_or py kvs ''task_type'' ''general'', wi_assigned_to = assigned,
              wi_dependencies = dependencies, wi_acceptance_criteria = criteria,
              wi_priority = stored_text_or py kvs ''priority'' ''medium'' \<rparr>)))
   | _ \<Rightarrow> None)"

definition stored_items :: "PyText \<Rightarrow> (pystr \<times> json) list \<Rightarrow> pystr \<Rightarrow> WorkItem list option" where
  "stored_items py kvs k = (let v = obj_get kvs k in
     if \<not> truthy v then Some [] else case v of JList xs \<Rightarrow> map_opt (stored_item py) xs | _ \<Rightarrow> None)"

definition contribution_from_row :: "DebatePy \<Rightarrow> ContributionRow \<Rightarrow> debate_error + DebateContribution" where
  "contribution_from_row py r = (case json_loads (cr_payload r) of
     None \<Rightarrow> Inl (BadValue (dp_bad_text py (cr_payload r)))
   | Some v \<Rightarrow>
     (case (case v of JObj payload \<Rightarrow>
         Option.bind (get_str payload ''debate_id'') (\<lambda>debate_id.
         Option.bind (Option.bind (map_of payload ''round_index'') py_int) (\<lambda>round_index.
         Option.bind (get_str payload ''agent'') (\<lambda>agent.
         Option.bind (get_str payload ''position'') (\<lambda>position.
         Option.bind (stored_strs payload ''arguments'') (\<lambda>arguments.
         Option.bind (stored_strs payload ''objections'') (\<lambda>objections.
         Option.bind (case json_or (obj_get payload ''confidence'') (JFloat 0) of
             JFloat c \<Rightarrow> Some c | JInt i \<Rightarrow> Some (of_int i) | JBool b \<Rightarrow> Some 1 | _ \<Rightarrow> None) (\<lambda>confidence.
         Option.bind (stored_items (dp_text py) payload ''work_items'') (\<lambda>items.
         Some \<lparr> dc_debate_id = debate_id, dc_round_index = round_index, dc_agent = agent,
                dc_position = position, dc_arguments = arguments, dc_objections = objections,
                dc_proposal = stored_text_or (dp_text py) payload ''proposal'' [], dc_confidence = confidence,
                dc_vote = stored_text_or (dp_text py) payload ''vote'' ''abstain'',
                dc_critical_objection = truthy (get_or payload ''critical_objection'' (JBool False)),
                dc_work_items = items, dc_raw_response = cr_raw r \<rparr>))))))))
       | _ \<Rightarrow> None) of
        Some c \<Rightarrow> Inr c
      | None \<Rightarrow> Inl (Failure (dp_bad_value py v))))"

definition list_contributions :: "DebatePy \<Rightarrow> pystr \<Rightarrow> int option \<Rightarrow> DebateTables \<Rightarrow> debate_error + DebateContribution list" where
  "list_contributions py did round_index t =
     map_res (contribution_from_row py) (sort_key cr_round (filter (\<lambda>r. cr_debate r = did \<and>
       (case round_index of None \<Rightarrow> True | Some n \<Rightarrow> cr_round r = n)) (contribution_rows t)))"

text \<open>\<open>add_synthesis\<close> is two transactions: the row of the synthesis, then the work items.\<close>

definition synthesis_row :: "DebatePy \<Rightarrow> pystr \<Rightarrow> DebateSynthesis \<Rightarrow> SynthesisRow" where
  "synthesis_row py now s =
     \<lparr> sr_debate = sy_debate_id s, sr_round = sy_round_index s, sr_moderator = sy_moderator s,
       sr_payload = json_dumps (dp_text py) (JObj (synthesis_dict False s)), sr_raw = sy_raw_response s,
       sr_created_at = now \<rparr>"

definition insert_synthesis :: "DebatePy \<Rightarrow> pystr \<Rightarrow> DebateSynthesis \<Rightarrow> DebateTables \<Rightarrow> debate_error + DebateTables" where
  "insert_synthesis py now s t =
     (if debate_at t (sy_debate_id s) = None then Inl foreign_key_failed
      else Inr (t\<lparr>synthesis_rows := upsert (\<lambda>r. sr_debate r = sy_debate_id s \<and> sr_round r = sy_round_index s)
        (synthesis_row py now s) (synthesis_rows t)\<rparr>))"

definition new_item_rows :: "DebatePy \<Rightarrow> pystr \<Rightarrow> WorkItem list \<Rightarrow> ItemRow list" where
  "new_item_rows py did items = map (\<lambda>(index, item).
     \<lparr>ir_debate = did, ir_item = wi_id item, ir_ordinal = index,
      ir_payload = json_dumps (dp_text py) (JObj (item_to_dict item))\<rparr>) (enumerate 0 items)"

definition replace_work_items :: "DebatePy \<Rightarrow> pystr \<Rightarrow> WorkItem list \<Rightarrow> DebateTables \<Rightarrow> debate_error + DebateTables" where
  "replace_work_items py did items t =
     (if \<not> distinct (map wi_id items)
        then Inl (Integrity ''UNIQUE constraint failed: debate_work_items.debate_id, debate_work_items.item_id'')
      else if items \<noteq> [] \<and> debate_at t did = None then Inl foreign_key_failed
      else Inr (t\<lparr>item_rows := filter (\<lambda>r. ir_debate r \<noteq> did) (item_rows t) @ new_item_rows py did items\<rparr>))"

definition get_work_items :: "DebatePy \<Rightarrow> pystr \<Rightarrow> DebateTables \<Rightarrow> debate_error + WorkItem list" where
  "get_work_items py did t = map_res (\<lambda>r. case json_loads (ir_payload r) of
       None \<Rightarrow> Inl (BadValue (dp_bad_text py (ir_payload r)))
     | Some v \<Rightarrow> (case stored_item (dp_text py) v of Some i \<Rightarrow> Inr i | None \<Rightarrow> Inl (Failure (dp_bad_value py v))))
     (sort_key ir_ordinal (filter (\<lambda>r. ir_debate r = did) (item_rows t)))"

section \<open>Links to tasks\<close>

text \<open>
  \<open>INSERT OR IGNORE\<close>: a row with the same key, or another link of the same task, makes it do nothing;
  a missing debate or task is an error all the same (foreign keys are not ignored).
\<close>

definition link_task :: "pystr \<Rightarrow> pystr \<Rightarrow> pystr \<Rightarrow> int \<Rightarrow> (int \<Rightarrow> bool) \<Rightarrow> DebateTables \<Rightarrow> debate_error + DebateTables" where
  "link_task now did item tid task_exists t =
     (if list_ex (\<lambda>l. (tl_debate l = did \<and> tl_item l = item) \<or> tl_task l = tid) (task_link_rows t) then Inr t
      else if debate_at t did = None \<or> \<not> task_exists tid then Inl foreign_key_failed
      else Inr (t\<lparr>task_link_rows := task_link_rows t @
        [\<lparr>tl_debate = did, tl_item = item, tl_task = tid, tl_created_at = now\<rparr>]\<rparr>))"

definition task_links :: "pystr \<Rightarrow> DebateTables \<Rightarrow> (pystr \<times> int) list" where
  "task_links did t = map (\<lambda>l. (tl_item l, tl_task l)) (filter (\<lambda>l. tl_debate l = did) (task_link_rows t))"

end
