(* ===== verification/Debate_Run.thy ===== *)
theory Debate_Run
  imports Debate_Repository Debate_Prompts Actions
begin

text \<open>
  One debate from its start to its end (\<open>DebateService._run_session_guarded\<close> and what it calls), as
  actions on the tables, the agents called so far and the lines shown so far. Everything else that
  happens meanwhile is the record \<open>DebateEnv\<close>, asked with the number of the moment: clocks, whether
  the user has cancelled, the answers of the agents, what another instance does to the tables before
  a transaction, and the exceptions of the callbacks. A worker that is not done in time is left
  behind: the calls it made are kept, what it shows afterwards is not followed.
\<close>

datatype debate_line = SystemLine pystr | WarningLine debate_error | ErrorLine pystr debate_error
  | AgentText pystr pystr | Running pystr pystr | NotRunning pystr | Persisted pystr pystr | TasksChanged

record AgentCall =
  ac_round :: int
  ac_agent :: pystr
  ac_purpose :: pystr
  ac_prompt :: pystr

text \<open>\<open>NoDispatch\<close>: the factory returned \<open>None\<close>; \<open>Returned None\<close>: \<open>delegate\<close> did.\<close>

datatype agent_reply = NoDispatch | Raised debate_error | Returned "pystr option"

record DebateState =
  tables :: DebateTables
  tick_no :: nat
  calls :: "AgentCall list"
  shown :: "debate_line list"
  active :: "pystr option"

record DebateEnv =
  dv_py :: DebatePy
  dv_now :: "nat \<Rightarrow> pystr"
  dv_clock :: "nat \<Rightarrow> rat"
  dv_cancelled :: "nat \<Rightarrow> bool"
  dv_handle :: "nat \<Rightarrow> bool"
  dv_reply :: "nat \<Rightarrow> AgentCall \<Rightarrow> agent_reply"
  dv_in_time :: "nat \<Rightarrow> bool"
  dv_shows :: "nat \<Rightarrow> debate_line \<Rightarrow> debate_error option"
  dv_others :: "nat \<Rightarrow> DebateTables \<Rightarrow> DebateTables"
  dv_renderer :: bool
  dv_persists :: bool

type_synonym 'a debate_act = "(DebateState, debate_error, 'a) action"

section \<open>Single steps\<close>

text \<open>A question to the environment, a line shown, a transaction, a result without effects.\<close>

definition d_ask :: "(nat \<Rightarrow> 'a) \<Rightarrow> 'a debate_act" where
  "d_ask f = (\<lambda>s. (Inr (f (tick_no s)), s\<lparr>tick_no := Suc (tick_no s)\<rparr>))"

definition d_show :: "DebateEnv \<Rightarrow> debate_line \<Rightarrow> unit debate_act" where
  "d_show env out = (\<lambda>s. case dv_shows env (tick_no s) out of
     None \<Rightarrow> (Inr (), s\<lparr>shown := shown s @ [out], tick_no := Suc (tick_no s)\<rparr>)
   | Some e \<Rightarrow> (Inl e, s\<lparr>tick_no := Suc (tick_no s)\<rparr>))"

definition d_commit :: "DebateEnv \<Rightarrow> (pystr \<Rightarrow> DebateTables \<Rightarrow> debate_error + DebateTables) \<Rightarrow> unit debate_act" where
  "d_commit env f = (\<lambda>s. let t = dv_others env (tick_no s) (tables s); s' = s\<lparr>tables := t, tick_no := Suc (tick_no s)\<rparr> in
     case f (dv_now env (tick_no s)) t of Inl e \<Rightarrow> (Inl e, s') | Inr t' \<Rightarrow> (Inr (), s'\<lparr>tables := t'\<rparr>))"

definition d_lift :: "debate_error + 'a \<Rightarrow> 'a debate_act" where
  "d_lift r = (\<lambda>s. (r, s))"

definition is_protocol :: "debate_error \<Rightarrow> bool" where
  "is_protocol e = (case e of ProtocolError _ \<Rightarrow> True | _ \<Rightarrow> False)"

definition raise_if_cancelled :: "DebateEnv \<Rightarrow> unit debate_act" where
  "raise_if_cancelled env = act_bind (d_ask (dv_cancelled env)) (\<lambda>c. if c then act_raise DebateCancelled else act_return ())"

definition timeout_error :: "DebatePy \<Rightarrow> DebateSession \<Rightarrow> debate_error" where
  "timeout_error py session = Failure (''debate excedeu timeout total de '' @
     dp_seconds py (dl_timeout_seconds (se_limits session)) @ ''s'')"

definition remaining_seconds :: "DebateEnv \<Rightarrow> DebateSession \<Rightarrow> rat \<Rightarrow> rat debate_act" where
  "remaining_seconds env session until = act_bind (d_ask (dv_clock env)) (\<lambda>now.
     if until - now \<le> 0 then act_raise (timeout_error (dv_py env) session) else act_return (until - now))"

definition put_status :: "DebateEnv \<Rightarrow> pystr \<Rightarrow> DebateStatus \<Rightarrow> int option \<Rightarrow> pystr option \<Rightarrow> DebateSynthesis option \<Rightarrow>
    unit debate_act" where
  "put_status env did status current_round error result =
     d_commit env (\<lambda>now. set_debate_status (dv_py env) now did status current_round error result)"

definition add_synthesis :: "DebateEnv \<Rightarrow> DebateSynthesis \<Rightarrow> unit debate_act" where
  "add_synthesis env s =
     act_then (d_commit env (\<lambda>now. insert_synthesis (dv_py env) now s))
       (d_commit env (\<lambda>now. replace_work_items (dv_py env) (sy_debate_id s) (sy_work_items s)))"

definition render_agent :: "DebateEnv \<Rightarrow> pystr \<Rightarrow> pystr \<Rightarrow> unit debate_act" where
  "render_agent env agent content =
     act_when (dv_renderer env \<and> py_strip content \<noteq> []) (d_show env (AgentText agent content))"

definition show_agent_running :: "DebateEnv \<Rightarrow> pystr \<Rightarrow> pystr \<Rightarrow> unit debate_act" where
  "show_agent_running env agent message = act_when (dv_renderer env) (d_show env (Running agent message))"

definition clear_agent_running :: "DebateEnv \<Rightarrow> pystr \<Rightarrow> unit debate_act" where
  "clear_agent_running env agent = act_when (dv_renderer env) (d_show env (NotRunning agent))"

definition persist_final :: "DebateEnv \<Rightarrow> pystr \<Rightarrow> DebateSynthesis \<Rightarrow> DebateStatus \<Rightarrow> unit debate_act" where
  "persist_final env moderator s status =
     act_when (dv_persists env) (d_show env (Persisted moderator (render_synthesis (dv_py env) True (Some status) s)))"

section \<open>Calls of agents\<close>

text \<open>
  \<open>_call_agent\<close>: refused once the user or the round has cancelled; a result that comes after the
  cancellation is dropped. The exception of creating, calling or closing the client is \<open>Raised\<close>.
\<close>

definition ask_agent :: "DebateEnv \<Rightarrow> AgentCall \<Rightarrow> agent_reply debate_act" where
  "ask_agent env call = (\<lambda>s. (Inr (dv_reply env (tick_no s) call),
     s\<lparr>calls := calls s @ [call], tick_no := Suc (tick_no s)\<rparr>))"

definition handle_cancelled :: "DebateEnv \<Rightarrow> unit debate_act" where
  "handle_cancelled env = act_bind (d_ask (dv_handle env)) (\<lambda>c. if c then act_raise DebateCancelled else act_return ())"

definition call_agent :: "DebateEnv \<Rightarrow> int \<Rightarrow> pystr \<Rightarrow> pystr \<Rightarrow> pystr \<Rightarrow> pystr debate_act" where
  "call_agent env round_index agent purpose prompt =
     act_then (raise_if_cancelled env)
       (act_then (handle_cancelled env)
       (act_bind (ask_agent env \<lparr>ac_round = round_index, ac_agent = agent, ac_purpose = purpose, ac_prompt = prompt\<rparr>) (\<lambda>reply.
        case reply of
          NoDispatch \<Rightarrow> act_raise (Failure ''dispatch isolado indisponivel'')
        | Raised e \<Rightarrow> act_raise e
        | Returned raw \<Rightarrow>
            act_then (handle_cancelled env)
            (act_then (raise_if_cancelled env)
              (if py_strip (or_empty raw) = [] then act_raise (Failure (agent @ '' nao retornou resposta''))
               else act_return (or_empty raw))))))"

definition validate_contribution :: "DebateContribution \<Rightarrow> DebateSynthesis option \<Rightarrow> debate_error + unit" where
  "validate_contribution c candidate =
     (if candidate = None \<and> dc_vote c \<noteq> ''propose''
        then Inl (ProtocolError (''primeira rodada exige vote='' @ [CHR 0x27] @ ''propose'' @ [CHR 0x27]))
      else if candidate \<noteq> None \<and> dc_vote c = ''propose''
        then Inl (ProtocolError ''rodadas com candidato exigem support, oppose ou abstain'')
      else Inr ())"

text \<open>A response read and checked, and the one repair that a violation of the protocol gets.\<close>

definition read_contribution :: "DebatePy \<Rightarrow> pystr \<Rightarrow> int \<Rightarrow> pystr \<Rightarrow> DebateSynthesis option \<Rightarrow> pystr \<Rightarrow>
    debate_error + DebateContribution" where
  "read_contribution py debate_id round_index agent candidate raw =
     bind_res (contribution_from_response (dp_text py) (JStr raw) debate_id round_index agent) (\<lambda>c.
     bind_res (validate_contribution c candidate) (\<lambda>_. Inr c))"

definition with_repair :: "DebateEnv \<Rightarrow> int \<Rightarrow> pystr \<Rightarrow> pystr \<Rightarrow> pystr \<Rightarrow> (pystr \<Rightarrow> debate_error + 'a) \<Rightarrow> 'a debate_act" where
  "with_repair env round_index agent purpose prompt read_response =
     act_bind (call_agent env round_index agent purpose prompt) (\<lambda>raw.
     act_try is_protocol (d_lift (read_response raw)) (\<lambda>e.
       act_bind (call_agent env round_index agent (purpose @ ''-repair'')
           (build_repair_prompt (dp_text (dv_py env)) prompt raw e)) (\<lambda>repaired. d_lift (read_response repaired))))"

definition run_participant :: "DebateEnv \<Rightarrow> DebateSession \<Rightarrow> int \<Rightarrow> pystr \<Rightarrow> DebateContribution list \<Rightarrow>
    DebateContribution list \<Rightarrow> DebateSynthesis option \<Rightarrow> DebateContribution debate_act" where
  "run_participant env session round_index agent previous current candidate =
     act_bind (with_repair env round_index agent ''participant''
         (build_contribution_prompt (dp_text (dv_py env)) session round_index agent previous candidate current)
         (read_contribution (dv_py env) (se_id session) round_index agent candidate)) (\<lambda>c.
     act_then (render_agent env (dc_agent c) (render_contribution (dv_py env) c)) (act_return c))"

text \<open>
  A worker in its own thread, waited for until the time is up: its result or its exception
  (\<open>future.result ()\<close>), or the timeout of the debate.
\<close>

definition in_worker :: "DebateEnv \<Rightarrow> DebateSession \<Rightarrow> 'a debate_act \<Rightarrow> (debate_error + 'a) debate_act" where
  "in_worker env session m = (\<lambda>s. case m s of (r, s') \<Rightarrow>
     if dv_in_time env (tick_no s') then (Inr r, s'\<lparr>tick_no := Suc (tick_no s')\<rparr>)
     else (Inl (timeout_error (dv_py env) session), s'\<lparr>shown := shown s, tick_no := Suc (tick_no s')\<rparr>))"

section \<open>A round\<close>

text \<open>
  One participant: its contribution, or the text of its failure; the timeout, and a cancellation by
  the user, end the round.
\<close>

definition note_failure :: "DebateEnv \<Rightarrow> debate_error + 'a \<Rightarrow> (pystr + 'a) debate_act" where
  "note_failure env r = (case r of
     Inr c \<Rightarrow> act_return (Inr c)
   | Inl e \<Rightarrow>
       if e = DebateCancelled then act_then (raise_if_cancelled env) (act_return (Inl ''cancelado''))
       else act_return (Inl (exc_text e)))"

definition hear_participant :: "DebateEnv \<Rightarrow> DebateSession \<Rightarrow> int \<Rightarrow> DebateContribution list \<Rightarrow> DebateSynthesis option \<Rightarrow>
    rat \<Rightarrow> DebateContribution list \<Rightarrow> pystr \<Rightarrow> (pystr + DebateContribution) debate_act" where
  "hear_participant env session round_index previous candidate until current agent =
     act_then (raise_if_cancelled env)
     (act_then (remaining_seconds env session until)
     (act_then (show_agent_running env agent ''respondendo no debate...'')
     (act_finally
       (act_bind (in_worker env session (run_participant env session round_index agent previous current candidate))
         (note_failure env))
       (clear_agent_running env agent))))"

text \<open>The loop of \<open>_run_round\<close>: contributions in order, failures by agent.\<close>

fun hear_participants :: "DebateEnv \<Rightarrow> DebateSession \<Rightarrow> int \<Rightarrow> DebateContribution list \<Rightarrow> DebateSynthesis option \<Rightarrow>
    rat \<Rightarrow> DebateContribution list \<Rightarrow> (pystr \<times> pystr) list \<Rightarrow> pystr list \<Rightarrow>
    (DebateContribution list \<times> (pystr \<times> pystr) list) debate_act" where
  "hear_participants env session round_index previous candidate until contributions failures [] =
     act_then (raise_if_cancelled env) (act_return (contributions, failures))"
| "hear_participants env session round_index previous candidate until contributions failures (agent # agents) =
     act_bind (hear_participant env session round_index previous candidate until contributions agent) (\<lambda>r. case r of
       Inr c \<Rightarrow> hear_participants env session round_index previous candidate until (contributions @ [c]) failures agents
     | Inl failure \<Rightarrow> hear_participants env session round_index previous candidate until contributions
         (AList.update agent failure failures) agents)"

definition run_round :: "DebateEnv \<Rightarrow> DebateSession \<Rightarrow> int \<Rightarrow> DebateContribution list \<Rightarrow> DebateSynthesis option \<Rightarrow>
    rat \<Rightarrow> (DebateContribution list \<times> (pystr \<times> pystr) list) debate_act" where
  "run_round env session round_index previous candidate timeout_seconds =
     act_bind (d_ask (dv_clock env)) (\<lambda>now.
       hear_participants env session round_index previous candidate (now + timeout_seconds) [] [] (se_participants session))"

section \<open>Consensus and synthesis\<close>

definition has_consensus :: "DebateContribution list \<Rightarrow> int \<Rightarrow> bool" where
  "has_consensus contributions quorum \<longleftrightarrow>
     int (length (filter (\<lambda>c. dc_vote c = ''support'') contributions)) \<ge> quorum \<and>
     \<not> list_ex dc_critical_objection contributions"

definition reasons :: "DebateContribution \<Rightarrow> pystr list" where
  "reasons c = (if dc_objections c \<noteq> [] then dc_objections c else [dc_position c])"

definition finalize_candidate :: "DebatePy \<Rightarrow> DebateSynthesis \<Rightarrow> DebateContribution list \<Rightarrow> int \<Rightarrow> bool \<Rightarrow> DebateSynthesis" where
  "finalize_candidate py candidate contributions round_index consensus_reached =
     (let dissent = sy_disagreements candidate @
            concat (map reasons (filter (\<lambda>c. dc_vote c \<noteq> ''support'') contributions));
          critical = sy_critical_objections candidate @ concat (map reasons (filter dc_critical_objection contributions)) in
      candidate\<lparr>sy_round_index := round_index,
        sy_disagreements := first_of_each (filter (\<lambda>t. t \<noteq> []) dissent),
        sy_critical_objections := first_of_each (filter (\<lambda>t. t \<noteq> []) critical),
        sy_confidence := dp_mean py (sy_confidence candidate # map dc_confidence contributions),
        sy_consensus_reached := consensus_reached\<rparr>)"

definition validate_synthesis :: "DebateSession \<Rightarrow> DebateSynthesis \<Rightarrow> debate_error + unit" where
  "validate_synthesis session s =
     (if se_mode session = WORKFLOW \<and> sy_work_items s = [] then Inl (ProtocolError ''sintese workflow nao contem work_items'')
      else let invalid = sort (remdups (filter (\<lambda>a. a \<noteq> [] \<and> a \<notin> set (se_participants session))
                 (map (\<lambda>i. or_empty (wi_assigned_to i)) (sy_work_items s)))) in
        if invalid \<noteq> [] then Inl (ProtocolError (''work_items atribuidos a agentes invalidos: '' @ py_join '', '' invalid))
        else Inr ())"

definition read_synthesis :: "DebatePy \<Rightarrow> DebateSession \<Rightarrow> int \<Rightarrow> pystr \<Rightarrow> debate_error + DebateSynthesis" where
  "read_synthesis py session round_index raw =
     bind_res (synthesis_from_response (dp_text py) (JStr raw) (se_id session) round_index (se_moderator session)) (\<lambda>s.
     bind_res (validate_synthesis session s) (\<lambda>_. Inr s))"

definition run_synthesis :: "DebateEnv \<Rightarrow> DebateSession \<Rightarrow> int \<Rightarrow> DebateContribution list \<Rightarrow> DebateSynthesis option \<Rightarrow>
    DebateSynthesis debate_act" where
  "run_synthesis env session round_index contributions previous_candidate =
     act_then (show_agent_running env (se_moderator session) ''sintetizando o debate...'')
     (act_finally
       (act_bind (in_worker env session
         (with_repair env round_index (se_moderator session) ''synthesis''
           (build_synthesis_prompt (dp_text (dv_py env)) session round_index contributions previous_candidate)
           (read_synthesis (dv_py env) session round_index))) d_lift)
       (clear_agent_running env (se_moderator session)))"

section \<open>The debate\<close>

definition quorum_error :: "DebateSession \<Rightarrow> int \<Rightarrow> DebateContribution list \<Rightarrow> (pystr \<times> pystr) list \<Rightarrow> debate_error" where
  "quorum_error session round_index contributions failures =
     (let detail = py_join ''; '' (map (\<lambda>(agent, e). agent @ '': '' @ e) failures) in
      Failure (''quorum nao atingido na rodada '' @ show_int round_index @ '' ('' @ show_nat (length contributions) @ ''/'' @
        show_int (dl_quorum (se_limits session)) @ '')'' @ (if detail \<noteq> [] then '': '' @ detail else [])))"

definition tag :: "DebateSession \<Rightarrow> pystr" where
  "tag session = ''[debate '' @ se_id session @ ''] ''"

text \<open>\<open>deadline\<close> of the debate is \<open>until\<close>; a finished debate is \<open>True\<close>, a next round to hold is \<open>False\<close>.\<close>

definition finish_converged :: "DebateEnv \<Rightarrow> DebateSession \<Rightarrow> int \<Rightarrow> DebateSynthesis \<Rightarrow> unit debate_act" where
  "finish_converged env session round_index final =
     act_then (add_synthesis env final)
     (act_then (put_status env (se_id session) DB_CONVERGED (Some round_index) None (Some final))
     (act_then (render_agent env (se_moderator session) (render_synthesis (dv_py env) True (Some DB_CONVERGED) final))
     (persist_final env (se_moderator session) final DB_CONVERGED)))"

definition finish_exhausted :: "DebateEnv \<Rightarrow> DebateSession \<Rightarrow> int \<Rightarrow> DebateSynthesis \<Rightarrow> unit debate_act" where
  "finish_exhausted env session round_index final =
     act_then (put_status env (se_id session) DB_EXHAUSTED (Some round_index) None (Some final))
     (act_then (render_agent env (se_moderator session) (render_synthesis (dv_py env) True (Some DB_EXHAUSTED) final))
     (persist_final env (se_moderator session) final DB_EXHAUSTED))"

text \<open>The first half of a round: the participants are heard and their contributions stored.\<close>

definition hold_round :: "DebateEnv \<Rightarrow> DebateSession \<Rightarrow> rat \<Rightarrow> int \<Rightarrow> DebateContribution list \<Rightarrow> DebateSynthesis option \<Rightarrow>
    DebateContribution list debate_act" where
  "hold_round env session until round_index previous candidate =
     act_then (raise_if_cancelled env)
     (act_bind (remaining_seconds env session until) (\<lambda>remaining.
      act_then (d_show env (SystemLine (tag session @ ''rodada '' @ show_int round_index @ ''/'' @
          show_int (dl_max_rounds (se_limits session)) @ '': ouvindo '' @ show_nat (length (se_participants session)) @
          '' agentes em sequencia.'')))
     (act_then (put_status env (se_id session) DB_RUNNING (Some round_index) None None)
     (act_bind (run_round env session round_index previous candidate remaining) (\<lambda>(contributions, failures).
      if int (length contributions) < dl_quorum (se_limits session)
        then act_raise (quorum_error session round_index contributions failures)
      else act_then (act_each (\<lambda>c. d_commit env (\<lambda>now. add_contribution (dv_py env) now c)) contributions)
        (act_return contributions))))))"

definition make_synthesis :: "DebateEnv \<Rightarrow> DebateSession \<Rightarrow> rat \<Rightarrow> int \<Rightarrow> DebateContribution list \<Rightarrow> DebateSynthesis option \<Rightarrow>
    DebateSynthesis debate_act" where
  "make_synthesis env session until round_index contributions candidate =
     act_then (put_status env (se_id session) DB_SYNTHESIZING (Some round_index) None None)
     (act_then (remaining_seconds env session until)
     (act_bind (run_synthesis env session round_index contributions candidate) (\<lambda>s.
      act_then (add_synthesis env s) (act_return s))))"

text \<open>The rounds from \<open>round_index\<close> on, \<open>left\<close> of them.\<close>

fun run_rounds :: "DebateEnv \<Rightarrow> DebateSession \<Rightarrow> rat \<Rightarrow> nat \<Rightarrow> int \<Rightarrow> DebateContribution list \<Rightarrow> DebateSynthesis option \<Rightarrow>
    unit debate_act" where
  "run_rounds env session until 0 round_index previous candidate = act_return ()"
| "run_rounds env session until (Suc left) round_index previous candidate =
     act_bind (hold_round env session until round_index previous candidate) (\<lambda>contributions.
     case (if has_consensus contributions (dl_quorum (se_limits session)) then candidate else None) of
       Some agreed \<Rightarrow> finish_converged env session round_index (finalize_candidate (dv_py env) agreed contributions round_index True)
     | None \<Rightarrow>
         act_bind (make_synthesis env session until round_index contributions candidate) (\<lambda>s.
         if round_index = dl_max_rounds (se_limits session)
           then finish_exhausted env session round_index (finalize_candidate (dv_py env) s contributions round_index False)
         else act_then (render_agent env (se_moderator session) (render_synthesis (dv_py env) False None s))
           (run_rounds env session until left (round_index + 1) contributions (Some s))))"

definition run_session :: "DebateEnv \<Rightarrow> DebateSession \<Rightarrow> unit debate_act" where
  "run_session env session =
     act_then (put_status env (se_id session) DB_RUNNING (Some 0) None None)
     (act_bind (d_ask (dv_clock env)) (\<lambda>now.
      run_rounds env session (now + dl_timeout_seconds (se_limits session)) (nat (dl_max_rounds (se_limits session))) 1 [] None))"

definition clear_active :: "pystr \<Rightarrow> unit debate_act" where
  "clear_active did = (\<lambda>s. (Inr (), if active s = Some did then s\<lparr>active := None\<rparr> else s))"

definition run_session_guarded :: "DebateEnv \<Rightarrow> DebateSession \<Rightarrow> unit debate_act" where
  "run_session_guarded env session =
     act_finally
       (act_try (\<lambda>_. True) (run_session env session) (\<lambda>e.
          if e = DebateCancelled
          then act_then (put_status env (se_id session) DB_CANCELLED None None None)
                 (d_show env (SystemLine (tag session @ ''cancelado.'')))
          else act_then (put_status env (se_id session) DB_FAILED None (Some (exc_text e)) None)
                 (d_show env (ErrorLine (tag session @ ''falhou: '') e))))
       (clear_active (se_id session))"

end
