(* ===== verification/Debate_Commands.thy ===== *)
theory Debate_Commands
  imports Debate_Models
begin

text \<open>
  The command line of a debate (\<open>quimera/debate/commands.py\<close>). \<open>shlex.split\<close> and \<open>argparse\<close> are the
  parameters \<open>split\<close> (\<open>Inl\<close> the message of its \<open>ValueError\<close>) and \<open>parse_args\<close> (\<open>Inl\<close> the message given
  to \<open>_Parser.error\<close>); the checks behind them are the code's own. A timeout that is NaN or infinite fails the check of
  its range like any other outside it, so \<open>op_timeout\<close> is a finite number.
\<close>

definition max_debate_topic_chars :: nat where "max_debate_topic_chars = 8000"
definition max_debate_context_chars :: nat where "max_debate_context_chars = 8000"

datatype agents_arg = AgentCount int | AllAgents

record DebateCommand =
  cm_action :: pystr
  cm_topic :: pystr
  cm_include_context :: bool
  cm_mode :: DebateMode
  cm_agents :: "agents_arg option"
  cm_rounds :: int
  cm_timeout_seconds :: rat
  cm_quorum :: "int option"
  cm_debate_id :: pystr

definition command_defaults :: "pystr \<Rightarrow> DebateCommand" where
  "command_defaults action = \<lparr> cm_action = action, cm_topic = [], cm_include_context = False,
     cm_mode = VERDICT, cm_agents = None, cm_rounds = 2, cm_timeout_seconds = 900, cm_quorum = None,
     cm_debate_id = [] \<rparr>"

text \<open>The options after \<open>argparse\<close> converted them: \<open>choices\<close> allows the values of \<open>DebateMode\<close> only.\<close>

record DebateOptions =
  op_mode :: DebateMode
  op_agents :: "pystr option"
  op_context :: bool
  op_rounds :: int
  op_timeout :: rat
  op_quorum :: "int option"
  op_topic :: "pystr list"

definition debate_usage :: pystr where
  "debate_usage = ''Uso: /debate [--mode verdict|workflow] [--agents 2..5|*] '' @
     ''[--rounds 2] [--timeout 900] [--quorum 2] [--context] <tema> '' @
     ''(--context inclui o historico recente do chat no debate)''"

definition parse_control :: "pystr \<Rightarrow> pystr list \<Rightarrow> debate_error + DebateCommand" where
  "parse_control action args =
     (if action = ''list'' then
        (if args \<noteq> [] then Inl (BadValue ''Uso: /debate list'') else Inr (command_defaults ''list''))
      else if action \<in> {''status'', ''cancel''} then
        (if length args > 1 then Inl (BadValue (''Uso: /debate '' @ action @ '' [id]''))
         else Inr ((command_defaults action)\<lparr>cm_debate_id := (case args of [] \<Rightarrow> [] | a # _ \<Rightarrow> a)\<rparr>))
      else case args of
          [a] \<Rightarrow> Inr ((command_defaults action)\<lparr>cm_debate_id := a\<rparr>)
        | _ \<Rightarrow> Inl (BadValue (''Uso: /debate '' @ action @ '' <id>'')))"

definition parse_agents :: "pystr option \<Rightarrow> debate_error + agents_arg option" where
  "parse_agents arg = (case arg of
     None \<Rightarrow> Inr None
   | Some text \<Rightarrow> (let raw_agents = py_strip text in
       if raw_agents = ''*'' then Inr (Some AllAgents)
       else case py_int_text raw_agents of
           None \<Rightarrow> Inl (BadValue (''--agents aceita apenas uma quantidade entre 2 e 5 ou '' @ [CHR 0x27, CHR ''*'', CHR 0x27]))
         | Some n \<Rightarrow>
             if 2 \<le> n \<and> n \<le> 5 then Inr (Some (AgentCount n))
             else Inl (BadValue (''--agents deve estar entre 2 e 5, ou usar '' @ [CHR 0x27, CHR ''*'', CHR 0x27] @ '' para todos''))))"

definition parse_start :: "DebateOptions \<Rightarrow> debate_error + DebateCommand" where
  "parse_start options =
     (if \<not> (1 \<le> op_rounds options \<and> op_rounds options \<le> 6)
        then Inl (BadValue ''--rounds deve estar entre 1 e 6'')
      else if \<not> (30 \<le> op_timeout options \<and> op_timeout options \<le> 1800)
        then Inl (BadValue ''--timeout deve estar entre 30 e 1800 segundos'')
      else if (case op_quorum options of None \<Rightarrow> False | Some q \<Rightarrow> q < 2)
        then Inl (BadValue ''--quorum deve ser pelo menos 2'')
      else bind_res (parse_agents (op_agents options)) (\<lambda>agents.
        let topic = py_strip (py_join '' '' (op_topic options)) in
        if topic = [] then Inl (BadValue debate_usage)
        else if length topic > max_debate_topic_chars
          then Inl (BadValue (''tema excede o limite de '' @ show_nat max_debate_topic_chars @ '' caracteres''))
        else Inr \<lparr> cm_action = ''start'', cm_topic = topic, cm_include_context = op_context options,
               cm_mode = op_mode options, cm_agents = agents, cm_rounds = op_rounds options,
               cm_timeout_seconds = op_timeout options, cm_quorum = op_quorum options, cm_debate_id = [] \<rparr>))"

definition parse_debate_command :: "(pystr \<Rightarrow> pystr + pystr list) \<Rightarrow> (pystr list \<Rightarrow> pystr + DebateOptions) \<Rightarrow>
    pystr \<Rightarrow> debate_error + DebateCommand" where
  "parse_debate_command split parse_args command =
     (let raw = py_strip command in
      if \<not> prefix ''/debate'' raw then Inl (BadValue ''comando deve iniciar com /debate'')
      else case split (py_strip (drop (length ''/debate'') raw)) of
          Inl message \<Rightarrow> Inl (BadValue message)
        | Inr [] \<Rightarrow> Inl (BadValue debate_usage)
        | Inr (token # rest) \<Rightarrow>
            (let action = py_lower token in
             if action \<in> set [''status'', ''cancel'', ''show'', ''apply'', ''list''] then parse_control action rest
             else case parse_args (token # rest) of
                 Inl message \<Rightarrow> Inl (BadValue message)
               | Inr options \<Rightarrow> parse_start options))"

section \<open>What a parsed command satisfies\<close>

definition command_ok :: "DebateCommand \<Rightarrow> bool" where
  "command_ok c \<longleftrightarrow> 1 \<le> cm_rounds c \<and> cm_rounds c \<le> 6 \<and> 30 \<le> cm_timeout_seconds c \<and> cm_timeout_seconds c \<le> 1800 \<and>
     (case cm_quorum c of None \<Rightarrow> True | Some q \<Rightarrow> 2 \<le> q) \<and>
     (case cm_agents c of Some (AgentCount n) \<Rightarrow> 2 \<le> n \<and> n \<le> 5 | _ \<Rightarrow> True) \<and>
     length (cm_topic c) \<le> max_debate_topic_chars"

lemma command_defaults_ok: "command_ok (command_defaults action)"
  by (simp add: command_ok_def command_defaults_def)

lemma parse_agents_ok: "parse_agents v = Inr (Some (AgentCount n)) \<Longrightarrow> 2 \<le> n \<and> n \<le> 5"
  by (auto simp: parse_agents_def Let_def split: option.splits if_splits)

lemma parse_start_ok: "parse_start options = Inr c \<Longrightarrow> command_ok c \<and> cm_action c = ''start'' \<and> cm_topic c \<noteq> []"
  by (auto simp: parse_start_def command_ok_def bind_res_Inr Let_def dest: parse_agents_ok
      split: if_splits option.splits agents_arg.splits)

lemma parse_control_Inr:
  assumes "parse_control action args = Inr c"
  shows "\<exists>a. c = (command_defaults action)\<lparr>cm_debate_id := a\<rparr>"
proof -
  have same: "\<exists>a. command_defaults b = (command_defaults b)\<lparr>cm_debate_id := a\<rparr>" for b
    by (rule exI [of _ "cm_debate_id (command_defaults b)"]) simp
  note parse = assms [unfolded parse_control_def]
  consider "action = ''list''" | "action \<noteq> ''list''" "action \<in> {''status'', ''cancel''}"
    | "action \<noteq> ''list''" "action \<notin> {''status'', ''cancel''}" by blast
  then show ?thesis
  proof cases
    case 1
    then have "c = command_defaults action" using parse [unfolded if_P [OF 1]] by (auto simp only: 1 sum.inject split: if_splits)
    then show ?thesis using same by metis
  next
    case 2
    then show ?thesis using parse [unfolded if_not_P [OF 2(1)] if_P [OF 2(2)]]
      by (cases "1 < length args") (simp_all only: if_True if_False sum.inject sum.simps, blast)
  next
    case 3
    then show ?thesis using parse [unfolded if_not_P [OF 3(1)] if_not_P [OF 3(2)]]
      by (cases args; cases "tl args") auto
  qed
qed

lemma parse_control_ok: "parse_control action args = Inr c \<Longrightarrow> command_ok c \<and> cm_action c = action"
  using parse_control_Inr command_defaults_ok by (fastforce simp: command_ok_def command_defaults_def)

lemma parse_debate_command_ok:
  assumes "parse_debate_command split parse_args command = Inr c"
  shows "command_ok c \<and> (cm_action c = ''start'' \<longrightarrow> cm_topic c \<noteq> [])"
proof -
  obtain token rest where "(if py_lower token \<in> set [''status'', ''cancel'', ''show'', ''apply'', ''list'']
      then parse_control (py_lower token) rest
      else case parse_args (token # rest) of Inl m \<Rightarrow> Inl (BadValue m) | Inr options \<Rightarrow> parse_start options) = Inr c"
    using assms unfolding parse_debate_command_def Let_def
    by (cases "split (py_strip (drop (length ''/debate'') (py_strip command)))"; fastforce split: if_splits list.splits)
  then consider "parse_control (py_lower token) rest = Inr c" "py_lower token \<noteq> ''start''"
    | options where "parse_start options = Inr c"
    by (cases "py_lower token \<in> set [''status'', ''cancel'', ''show'', ''apply'', ''list'']";
        cases "parse_args (token # rest)"; fastforce)
  then show ?thesis by cases (simp_all add: parse_control_ok parse_start_ok)
qed

end
