(* ===== verification/Debate_Service.thy ===== *)
theory Debate_Service
  imports Debate_Run Debate_Commands
begin

text \<open>
  The commands of the debate service (\<open>DebateService\<close> without the run of a debate): starting and
  cancelling, the texts of the status, and the application of a plan as tasks. The debate tables and
  the task tables share one database; another instance may change both before each transaction
  (\<open>ev_others\<close>). The callbacks that show a line do not raise here.
\<close>

record ServiceState =
  sv_tables :: DebateTables
  sv_store :: Store
  sv_active_id :: "pystr option"
  sv_thread :: bool
  sv_cancel :: bool
  sv_calls :: "(pystr \<times> bool) list"
  sv_closed :: bool
  sv_tick :: nat
  sv_lines :: "debate_line list"

text \<open>\<open>ev_alive\<close>: the thread of the last debate has not ended; \<open>ev_history\<close>: the provider, if there is one.\<close>

record ServiceEnv =
  ev_py :: DebatePy
  ev_now :: "nat \<Rightarrow> pystr"
  ev_alive :: "nat \<Rightarrow> bool"
  ev_new_id :: "nat \<Rightarrow> pystr"
  ev_agents :: "nat \<Rightarrow> pystr list"
  ev_history :: "(nat \<Rightarrow> json list) option"
  ev_session_id :: pystr
  ev_job :: int
  ev_others :: "nat \<Rightarrow> DebateTables \<times> Store \<Rightarrow> DebateTables \<times> Store"

type_synonym 'a service_act = "(ServiceState, debate_error, 'a) action"

definition sv_ask :: "(nat \<Rightarrow> 'a) \<Rightarrow> 'a service_act" where
  "sv_ask f = (\<lambda>s. (Inr (f (sv_tick s)), s\<lparr>sv_tick := Suc (sv_tick s)\<rparr>))"

definition sv_line :: "debate_line \<Rightarrow> unit service_act" where
  "sv_line l = (\<lambda>s. (Inr (), s\<lparr>sv_lines := sv_lines s @ [l]\<rparr>))"

text \<open>The others' turn, then one transaction of either repository, or one reading.\<close>

definition meanwhile :: "ServiceEnv \<Rightarrow> ServiceState \<Rightarrow> ServiceState" where
  "meanwhile env s = (case ev_others env (sv_tick s) (sv_tables s, sv_store s) of (t, d) \<Rightarrow>
     s\<lparr>sv_tables := t, sv_store := d, sv_tick := Suc (sv_tick s)\<rparr>)"

definition sv_commit :: "ServiceEnv \<Rightarrow> (pystr \<Rightarrow> Store \<Rightarrow> DebateTables \<Rightarrow> debate_error + DebateTables) \<Rightarrow> unit service_act" where
  "sv_commit env f = (\<lambda>s. let s' = meanwhile env s in
     case f (ev_now env (sv_tick s)) (sv_store s') (sv_tables s') of
       Inl e \<Rightarrow> (Inl e, s') | Inr t \<Rightarrow> (Inr (), s'\<lparr>sv_tables := t\<rparr>))"

definition sv_task_commit :: "ServiceEnv \<Rightarrow> (pystr \<Rightarrow> Store \<Rightarrow> debate_error + ('a \<times> Store)) \<Rightarrow> 'a service_act" where
  "sv_task_commit env f = (\<lambda>s. let s' = meanwhile env s in
     case f (ev_now env (sv_tick s)) (sv_store s') of
       Inl e \<Rightarrow> (Inl e, s') | Inr (x, d) \<Rightarrow> (Inr x, s'\<lparr>sv_store := d\<rparr>))"

definition sv_query :: "ServiceEnv \<Rightarrow> (DebateTables \<Rightarrow> debate_error + 'a) \<Rightarrow> 'a service_act" where
  "sv_query env f = (\<lambda>s. let s' = meanwhile env s in (f (sv_tables s'), s'))"

definition sv_task_query :: "ServiceEnv \<Rightarrow> (Store \<Rightarrow> 'a) \<Rightarrow> 'a service_act" where
  "sv_task_query env f = (\<lambda>s. let s' = meanwhile env s in (Inr (f (sv_store s')), s'))"

definition sv_check :: "bool \<Rightarrow> debate_error \<Rightarrow> unit service_act" where
  "sv_check refused e = (if refused then act_raise e else act_return ())"

section \<open>Starting\<close>

definition normalized_agents :: "pystr list \<Rightarrow> pystr list" where
  "normalized_agents names = first_of_each (map (\<lambda>a. dropWhile (\<lambda>c. c = CHR ''/'') (py_lower (py_strip a)))
     (filter (\<lambda>a. py_strip a \<noteq> [] \<and> py_strip a \<noteq> ''*'') names))"

definition default_participants :: nat where "default_participants = 3"
definition max_participants :: nat where "max_participants = 5"

text \<open>\<open>active[:n]\<close>, a negative \<open>n\<close> counted from the end.\<close>

definition py_take :: "int \<Rightarrow> 'a list \<Rightarrow> 'a list" where
  "py_take n xs = take (nat (if n < 0 then int (length xs) + n else n)) xs"

definition select_participants :: "pystr list \<Rightarrow> agents_arg option \<Rightarrow> debate_error + pystr list" where
  "select_participants names requested =
     (let agents = normalized_agents names in
      bind_res (case requested of
          Some AllAgents \<Rightarrow> Inr agents
        | Some (AgentCount n) \<Rightarrow>
            if int (length agents) < n
            then Inl (BadValue (''/debate solicitou '' @ show_int n @ '' agentes, mas apenas '' @ show_nat (length agents) @ '' estao ativos''))
            else Inr (py_take n agents)
        | None \<Rightarrow> Inr (take default_participants agents)) (\<lambda>participants.
      if length participants < 2 then Inl (BadValue ''/debate exige pelo menos 2 agentes ativos'')
      else if length participants > max_participants
        then Inl (BadValue (''/debate aceita no maximo '' @ show_nat max_participants @ '' agentes''))
      else Inr participants))"

text \<open>
  The context: the newest entries that fit, each with its label; the first one is cut when it does
  not fit alone. \<open>used\<close> counts the characters with the blank lines between the entries.
\<close>

definition history_line :: "PyText \<Rightarrow> json \<Rightarrow> pystr option" where
  "history_line py entry = (case entry of
     JObj kvs \<Rightarrow>
       (let role = py_lower (py_strip (py_str py (json_or (obj_get kvs ''role'') (JStr [])))) in
        if role = [] \<or> role \<in> {''system'', ''tool''} then None
        else case obj_get kvs ''content'' of
            JStr content \<Rightarrow>
              if py_strip content = [] then None
              else Some (''['' @ (if role \<in> {''human'', ''user''} then ''user'' else role) @ ''] '' @ py_strip content)
          | _ \<Rightarrow> None)
   | _ \<Rightarrow> None)"

fun context_lines :: "PyText \<Rightarrow> json list \<Rightarrow> pystr list \<Rightarrow> nat \<Rightarrow> pystr list" where
  "context_lines py [] lines used = lines"
| "context_lines py (entry # entries) lines used = (case history_line py entry of
     None \<Rightarrow> context_lines py entries lines used
   | Some line \<Rightarrow>
       (let cost = length line + (if lines \<noteq> [] then 2 else 0) in
        if used + cost > max_debate_context_chars
        then (if lines = [] then [take max_debate_context_chars line] else lines)
        else context_lines py entries (lines @ [line]) (used + cost)))"

definition build_chat_context :: "PyText \<Rightarrow> json list option \<Rightarrow> debate_error + pystr" where
  "build_chat_context py history = (case history of
     None \<Rightarrow> Inl (BadValue ''--context indisponivel: historico do chat nao acessivel nesta sessao'')
   | Some entries \<Rightarrow>
       (let lines = context_lines py (rev entries) [] 0 in
        if lines = [] then Inl (BadValue ''--context sem efeito: historico do chat vazio nesta sessao'')
        else Inr (py_join (line_feed @ line_feed) (rev lines))))"

text \<open>\<open>command.quorum or max (2, ceil (2 n / 3))\<close>.\<close>

definition debate_quorum :: "int option \<Rightarrow> nat \<Rightarrow> int" where
  "debate_quorum requested n = (case requested of
     Some q \<Rightarrow> if q \<noteq> 0 then q else max 2 (int ((2 * n + 2) div 3))
   | None \<Rightarrow> max 2 (int ((2 * n + 2) div 3)))"

definition new_session :: "ServiceEnv \<Rightarrow> DebateCommand \<Rightarrow> pystr \<Rightarrow> pystr list \<Rightarrow> int \<Rightarrow> pystr \<Rightarrow> DebateSession" where
  "new_session env command did participants quorum context = \<lparr> se_id = did, se_session_id = ev_session_id env,
     se_topic = cm_topic command, se_mode = cm_mode command, se_status = DB_CREATED,
     se_participants = participants, se_moderator = hd participants,
     se_limits = \<lparr>dl_max_rounds = cm_rounds command, dl_timeout_seconds = cm_timeout_seconds command, dl_quorum = quorum\<rparr>,
     se_context = context, se_current_round = 0, se_created_at = [], se_updated_at = [], se_started_at = None,
     se_completed_at = None, se_result = None, se_error = [], se_applied_at = None \<rparr>"

definition start_debate :: "ServiceEnv \<Rightarrow> DebateCommand \<Rightarrow> DebateSession service_act" where
  "start_debate env command =
     act_then (sv_check (cm_action command \<noteq> ''start'') (BadValue ''comando de inicio esperado''))
     (act_bind (sv_ask (ev_agents env)) (\<lambda>names.
      case select_participants names (cm_agents command) of Inl e \<Rightarrow> act_raise e | Inr participants \<Rightarrow>
      let quorum = debate_quorum (cm_quorum command) (length participants) in
      act_then (sv_check (quorum > int (length participants)) (BadValue ''quorum nao pode exceder o numero de participantes''))
      (act_bind (act_get (\<lambda>s. (sv_closed s, sv_thread s, sv_active_id s))) (\<lambda>(closed, thread, active_id).
       act_then (sv_check closed (Failure ''servico de debates encerrado''))
       (act_bind (sv_ask (ev_alive env)) (\<lambda>alive.
        act_then (sv_check (thread \<and> alive) (BadValue (''ja existe um debate ativo: '' @
            (case active_id of None \<Rightarrow> ''None'' | Some i \<Rightarrow> i))))
        (act_bind (sv_ask (ev_new_id env)) (\<lambda>did.
         act_bind (if cm_include_context command
             then (\<lambda>s. (build_chat_context (dp_text (ev_py env)) (map_option (\<lambda>h. h (sv_tick s)) (ev_history env)), s))
             else act_return []) (\<lambda>context.
         let session = new_session env command did participants quorum context in
         act_then (sv_commit env (\<lambda>now _ t. create_session (ev_py env) now session t))
         (act_then (\<lambda>s. (Inr (), s\<lparr>sv_active_id := Some did, sv_thread := True, sv_cancel := False\<rparr>))
           (act_return session)))))))))))"

section \<open>Cancelling\<close>

definition cancel_debate :: "ServiceEnv \<Rightarrow> pystr \<Rightarrow> bool service_act" where
  "cancel_debate env did =
     act_bind (sv_ask (ev_alive env)) (\<lambda>alive.
     act_bind (act_get (\<lambda>s. (sv_active_id s, sv_thread s))) (\<lambda>(active_id, thread).
     if or_empty active_id = [] \<or> \<not> thread \<or> \<not> alive then act_return False
     else if did \<noteq> [] \<and> Some did \<noteq> active_id then act_return False
     else (\<lambda>s. (Inr True, s\<lparr>sv_cancel := True, sv_calls := map (\<lambda>(k, _). (k, True)) (sv_calls s)\<rparr>))))"

definition shutdown_service :: "ServiceEnv \<Rightarrow> unit service_act" where
  "shutdown_service env =
     act_then (\<lambda>s. (Inr (), s\<lparr>sv_closed := True\<rparr>)) (act_bind (cancel_debate env []) (\<lambda>_. act_return ()))"

section \<open>Status, details and list\<close>

definition require_session :: "ServiceEnv \<Rightarrow> pystr \<Rightarrow> DebateSession service_act" where
  "require_session env did =
     act_bind (sv_query env (get_session (ev_py env) (py_strip did))) (\<lambda>r. case r of
       None \<Rightarrow> act_raise (NoSuchKey (''debate inexistente: '' @ did))
     | Some session \<Rightarrow> act_return session)"

definition status_line :: "DebateSession \<Rightarrow> pystr" where
  "status_line s = ''[debate '' @ se_id s @ ''] '' @ debate_value (se_status s) @ '' | modo='' @ mode_value (se_mode s) @
     '' | rodada='' @ show_int (se_current_round s) @ ''/'' @ show_int (dl_max_rounds (se_limits s)) @
     '' | quorum='' @ show_int (dl_quorum (se_limits s)) @ '' | agentes='' @ py_join '', '' (se_participants s)"

definition format_status :: "ServiceEnv \<Rightarrow> pystr \<Rightarrow> pystr service_act" where
  "format_status env did =
     act_bind (act_get (\<lambda>s. text_or did (or_empty (sv_active_id s)))) (\<lambda>target.
     act_bind (sv_query env (if target \<noteq> [] then get_session (ev_py env) target else latest_session (ev_py env))) (\<lambda>r.
     act_return (case r of None \<Rightarrow> ''Nenhum debate encontrado.'' | Some session \<Rightarrow> status_line session)))"

definition format_details :: "ServiceEnv \<Rightarrow> pystr \<Rightarrow> pystr service_act" where
  "format_details env did =
     act_bind (require_session env did) (\<lambda>session.
     act_bind (format_status env did) (\<lambda>status.
     act_bind (sv_query env (list_contributions (ev_py env) did None)) (\<lambda>contributions.
     act_bind (if or_empty (se_applied_at session) \<noteq> [] then sv_query env (\<lambda>t. Inr (task_links did t)) else act_return []) (\<lambda>linked.
     act_return (py_join line_feed
       ([status, ''Tema: '' @ se_topic session] @
        (if se_context session \<noteq> [] then [''Contexto: '' @ se_context session] else []) @
        [''Contribuicoes: '' @ show_nat (length contributions)] @
        (case se_result session of None \<Rightarrow> [] | Some result \<Rightarrow> ['''', render_synthesis (ev_py env) True (Some (se_status session)) result]) @
        (if se_error session \<noteq> [] then [''Erro: '' @ se_error session] else []) @
        (if or_empty (se_applied_at session) \<noteq> [] then [''Tasks: '' @ py_join '', '' (map (show_int \<circ> snd) linked)] else [])))))))"

definition format_list :: "ServiceEnv \<Rightarrow> pystr service_act" where
  "format_list env =
     act_bind (sv_query env (list_sessions (ev_py env) 20)) (\<lambda>sessions.
     act_return (if sessions = [] then ''Nenhum debate encontrado.''
       else py_join line_feed (map (\<lambda>s. ''- '' @ se_id s @ '' | '' @ debate_value (se_status s) @ '' | '' @
         mode_value (se_mode s) @ '' | '' @ take 80 (se_topic s)) sessions)))"

section \<open>Applying a plan\<close>

definition debate_task_type :: "pystr \<Rightarrow> TaskType" where
  "debate_task_type v = (case task_type_of (text_or v ''general'') of Some t \<Rightarrow> t | None \<Rightarrow> GENERAL)"

definition work_item_notes :: "WorkItem \<Rightarrow> pystr" where
  "work_item_notes i = py_join line_feed
     ((if wi_dependencies i \<noteq> [] then [''Dependencias: '' @ py_join '', '' (wi_dependencies i)] else []) @
      (if wi_acceptance_criteria i \<noteq> [] then [''Criterios de aceite: '' @ py_join ''; '' (wi_acceptance_criteria i)] else []))"

definition item_source :: "pystr \<Rightarrow> WorkItem \<Rightarrow> pystr" where
  "item_source did i = ''debate:'' @ did @ '':work-item:'' @ wi_id i"

definition item_task :: "pystr \<Rightarrow> pystr list \<Rightarrow> WorkItem \<Rightarrow> NewTask" where
  "item_task did agents i = \<lparr> n_description = wi_description i,
     n_task_type = task_type_value (debate_task_type (wi_task_type i)),
     n_assigned_to = (case wi_assigned_to i of Some a \<Rightarrow> if a \<in> set agents then Some a else None | None \<Rightarrow> None),
     n_origin = ''debate'', n_status = Member PENDING, n_priority = wi_priority i, n_created_by = Some ''debate'',
     n_requested_by = Some ''human'', n_notes = Some (work_item_notes i),
     n_body = Some (Dumped (JObj [(''debate_id'', JStr did), (''work_item'', JObj (item_to_dict i))])),
     n_source_context = Some (item_source did i) \<rparr>"

text \<open>
  \<open>create_task\<close> under the unique index \<open>idx_tasks_debate_source\<close>: a second task of origin \<open>debate\<close>
  with the same source is an \<open>IntegrityError\<close>.
\<close>

definition store_failure :: "store_error \<Rightarrow> debate_error" where
  "store_failure e = (case e of IntegrityError \<Rightarrow> Integrity ''FOREIGN KEY constraint failed''
     | ValueError m \<Rightarrow> BadValue m | KeyError m \<Rightarrow> NoSuchKey m | _ \<Rightarrow> Failure [])"

definition from_store :: "store_error + 'a \<Rightarrow> debate_error + 'a" where
  "from_store r = (case r of Inl e \<Rightarrow> Inl (store_failure e) | Inr x \<Rightarrow> Inr x)"

definition create_debate_task :: "pystr \<Rightarrow> int \<Rightarrow> NewTask \<Rightarrow> Store \<Rightarrow> debate_error + (int \<times> Store)" where
  "create_debate_task now job n s =
     (if list_ex (\<lambda>r. t_origin r = ''debate'' \<and> t_source_context r = n_source_context n \<and> t_source_context r \<noteq> None) (tasks s)
      then Inl (Integrity ''UNIQUE constraint failed: tasks.source_context'')
      else from_store (create_task now job n s))"

definition is_integrity :: "debate_error \<Rightarrow> bool" where
  "is_integrity e = (case e of Integrity _ \<Rightarrow> True | _ \<Rightarrow> False)"

definition task_of_item :: "ServiceEnv \<Rightarrow> pystr \<Rightarrow> pystr list \<Rightarrow> WorkItem \<Rightarrow> (int \<times> bool) service_act" where
  "task_of_item env did agents item =
     (let source = item_source did item in
      act_bind (sv_task_query env (find_task_by_source_context (Some source))) (\<lambda>found. case found of
        Some r \<Rightarrow> act_return (t_id r, False)
      | None \<Rightarrow>
          act_try is_integrity
            (act_bind (sv_task_commit env (\<lambda>now. create_debate_task now (ev_job env) (item_task did agents item))) (\<lambda>tid.
              act_return (tid, True)))
            (\<lambda>e. act_bind (sv_task_query env (find_task_by_source_context (Some source))) (\<lambda>again. case again of
                None \<Rightarrow> act_raise e
              | Some r \<Rightarrow> act_return (t_id r, False)))))"

fun link_items :: "ServiceEnv \<Rightarrow> pystr \<Rightarrow> pystr list \<Rightarrow> WorkItem list \<Rightarrow> (pystr \<times> int) list \<Rightarrow> bool \<Rightarrow>
    ((pystr \<times> int) list \<times> bool) service_act" where
  "link_items env did agents [] linked changed = act_return (linked, changed)"
| "link_items env did agents (item # items) linked changed = (case map_of linked (wi_id item) of
     Some tid \<Rightarrow> link_items env did agents items linked changed
   | None \<Rightarrow>
       act_bind (task_of_item env did agents item) (\<lambda>(tid, created).
       act_then (sv_commit env (\<lambda>now d t. link_task now did (wi_id item) tid (\<lambda>x. task_at d x \<noteq> None) t))
         (link_items env did agents items (AList.update (wi_id item) tid linked) (changed \<or> created))))"

text \<open>\<open>links[key]\<close> raises \<open>KeyError\<close> for a key that is not there.\<close>

definition link_of :: "(pystr \<times> int) list \<Rightarrow> pystr \<Rightarrow> int service_act" where
  "link_of linked key = (case map_of linked key of None \<Rightarrow> act_raise (NoSuchKey key) | Some tid \<Rightarrow> act_return tid)"

fun add_dependencies :: "ServiceEnv \<Rightarrow> (pystr \<times> int) list \<Rightarrow> int \<Rightarrow> pystr list \<Rightarrow> bool \<Rightarrow> bool service_act" where
  "add_dependencies env linked tid [] changed = act_return changed"
| "add_dependencies env linked tid (d # ds) changed =
     act_bind (link_of linked d) (\<lambda>dep.
     act_bind (sv_task_commit env (\<lambda>now s. from_store (add_task_dependency now tid dep s))) (\<lambda>added.
       add_dependencies env linked tid ds (added \<or> changed)))"

fun order_items :: "ServiceEnv \<Rightarrow> (pystr \<times> int) list \<Rightarrow> WorkItem list \<Rightarrow> bool \<Rightarrow> bool service_act" where
  "order_items env linked [] changed = act_return changed"
| "order_items env linked (item # items) changed =
     act_bind (link_of linked (wi_id item)) (\<lambda>tid.
     act_bind (add_dependencies env linked tid (wi_dependencies item) changed) (\<lambda>changed'.
       order_items env linked items changed'))"

definition apply_debate :: "ServiceEnv \<Rightarrow> pystr \<Rightarrow> int list service_act" where
  "apply_debate env did =
     act_bind (require_session env did) (\<lambda>session.
     act_then (sv_check (\<not> session_terminal session \<or> se_status session \<in> {DB_CANCELLED, DB_FAILED})
       (BadValue ''somente debates concluidos podem ser aplicados''))
     (act_then (sv_check (se_mode session \<noteq> WORKFLOW) (BadValue ''/debate apply exige um debate em modo workflow''))
     (act_bind (sv_query env (get_work_items (ev_py env) did)) (\<lambda>items.
      act_then (sv_check (items = []) (BadValue ''o debate nao produziu work_items''))
      (act_bind (sv_ask (ev_agents env)) (\<lambda>names.
       act_bind (sv_query env (\<lambda>t. Inr (task_links did t))) (\<lambda>linked0.
       act_bind (link_items env did (normalized_agents names) items linked0 False) (\<lambda>(linked, created).
       act_bind (order_items env linked items created) (\<lambda>changed.
       act_then (sv_commit env (\<lambda>now _ t. mark_applied now did t))
       (act_then (act_when changed (sv_line TasksChanged))
         (act_each (\<lambda>item. link_of linked (wi_id item)) items)))))))))))"

section \<open>The command handler\<close>

text \<open>\<open>except (DebateCommandError, DebateProtocolError, ValueError, KeyError)\<close>: the others are errors.\<close>

definition expected_error :: "debate_error \<Rightarrow> bool" where
  "expected_error e = (case e of ProtocolError _ \<Rightarrow> True | BadValue _ \<Rightarrow> True | NoSuchKey _ \<Rightarrow> True | _ \<Rightarrow> False)"

definition started_line :: "DebateSession \<Rightarrow> pystr" where
  "started_line s = ''[debate '' @ se_id s @ ''] iniciado com '' @ show_nat (length (se_participants s)) @ '' agentes, '' @
     show_int (dl_max_rounds (se_limits s)) @ '' rodada(s), modo '' @ mode_value (se_mode s) @ ''.''"

definition dispatch_command :: "ServiceEnv \<Rightarrow> DebateCommand \<Rightarrow> unit service_act" where
  "dispatch_command env parsed =
     (let action = cm_action parsed; did = cm_debate_id parsed in
      if action = ''start'' then act_bind (start_debate env parsed) (\<lambda>s. sv_line (SystemLine (started_line s)))
      else if action = ''status'' then act_bind (format_status env did) (\<lambda>t. sv_line (SystemLine t))
      else if action = ''cancel'' then
        act_bind (act_get (\<lambda>s. text_or did (or_empty (sv_active_id s)))) (\<lambda>target.
        act_bind (cancel_debate env target) (\<lambda>asked.
          if asked then sv_line (SystemLine (''[debate '' @ target @ ''] cancelamento solicitado.''))
          else sv_line (WarningLine (BadValue ''Nenhum debate ativo corresponde ao pedido.''))))
      else if action = ''show'' then act_bind (format_details env did) (\<lambda>t. sv_line (SystemLine t))
      else if action = ''list'' then act_bind (format_list env) (\<lambda>t. sv_line (SystemLine t))
      else if action = ''apply'' then
        act_bind (apply_debate env did) (\<lambda>ids. sv_line (SystemLine (''[debate '' @ did @
          ''] workflow aplicado em tasks: '' @ py_join '', '' (map show_int ids))))
      else act_return ())"

definition handle_command :: "ServiceEnv \<Rightarrow> (pystr \<Rightarrow> pystr + pystr list) \<Rightarrow> (pystr list \<Rightarrow> pystr + DebateOptions) \<Rightarrow>
    pystr \<Rightarrow> bool service_act" where
  "handle_command env split parse_args command =
     act_then (act_try (\<lambda>_. True)
       (case parse_debate_command split parse_args command of
          Inl e \<Rightarrow> act_raise e | Inr parsed \<Rightarrow> dispatch_command env parsed)
       (\<lambda>e. if expected_error e then sv_line (WarningLine e)
            else sv_line (ErrorLine ''Falha no comando /debate: '' e)))
     (act_return True)"

end
