(* ===== verification/Debate_Guarantees.thy ===== *)
theory Debate_Guarantees
  imports Debate_Run Action_Invariants
begin

text \<open>
  What a debate guarantees, whatever the agents answer, whenever the user cancels and whatever the
  callbacks raise: it ends in a terminal status, it declares consensus only on the recorded votes of
  a quorum, it makes a bounded number of calls.
\<close>

section \<open>Invariants of the tables along a debate\<close>

definition on_tables :: "(DebateTables \<Rightarrow> bool) \<Rightarrow> DebateState \<Rightarrow> bool" where
  "on_tables Q s = Q (tables s)"

lemma stays_effects [act_rules]:
  "stays (on_tables Q) (d_ask f)" "stays (on_tables Q) (d_show env l)" "stays (on_tables Q) (d_lift r)"
  "stays (on_tables Q) (ask_agent env c)" "stays (on_tables Q) (clear_active did)"
  by (auto simp: stays_def on_tables_def d_ask_def d_show_def d_lift_def ask_agent_def clear_active_def split: option.splits)

lemma stays_worker [act_rules]: "stays (on_tables Q) m \<Longrightarrow> stays (on_tables Q) (in_worker env session m)"
  by (rule staysI) (auto simp: in_worker_def on_tables_def dest: staysD split: prod.splits)

lemma stays_commit:
  assumes "\<And>n t. Q t \<Longrightarrow> Q (dv_others env n t)" and "\<And>now t t'. Q t \<Longrightarrow> f now t = Inr t' \<Longrightarrow> Q t'"
  shows "stays (on_tables Q) (d_commit env f)"
  by (rule staysI) (auto simp: on_tables_def d_commit_def Let_def intro: assms split: sum.splits)

text \<open>
  A property of the tables that the others and the four writes of a debate keep, holds from one end
  of the debate to the other.
\<close>

locale debate_invariant =
  fixes env :: DebateEnv and Q :: "DebateTables \<Rightarrow> bool"
  assumes others: "Q t \<Longrightarrow> Q (dv_others env n t)"
    and status: "Q t \<Longrightarrow> set_debate_status py now did st rnd err res t = Inr t' \<Longrightarrow> Q t'"
    and contribution: "Q t \<Longrightarrow> add_contribution py now c t = Inr t' \<Longrightarrow> Q t'"
    and synthesis: "Q t \<Longrightarrow> insert_synthesis py now s t = Inr t' \<Longrightarrow> Q t'"
    and items: "Q t \<Longrightarrow> replace_work_items py did is t = Inr t' \<Longrightarrow> Q t'"
begin

lemma keeps_status [act_rules]: "stays (on_tables Q) (put_status env did st rnd err res)"
  unfolding put_status_def by (rule stays_commit) (blast intro: others status)+

lemma keeps_contribution [act_rules]: "stays (on_tables Q) (d_commit env (\<lambda>now. add_contribution py now c))"
  by (rule stays_commit) (blast intro: others contribution)+

lemma keeps_synthesis [act_rules]: "stays (on_tables Q) (add_synthesis env s)"
  unfolding add_synthesis_def by (intro act_rules stays_commit) (blast intro: others synthesis items)+

lemma keeps_lines [act_rules]:
  "stays (on_tables Q) (raise_if_cancelled env)" "stays (on_tables Q) (handle_cancelled env)"
  "stays (on_tables Q) (remaining_seconds env session until)" "stays (on_tables Q) (render_agent env a t)"
  "stays (on_tables Q) (show_agent_running env a t)" "stays (on_tables Q) (clear_agent_running env a)"
  "stays (on_tables Q) (persist_final env a x st)"
  unfolding raise_if_cancelled_def handle_cancelled_def remaining_seconds_def render_agent_def
    show_agent_running_def clear_agent_running_def persist_final_def by (intro act_rules)+

lemma keeps_agent [act_rules]: "stays (on_tables Q) (call_agent env k a p q)"
  unfolding call_agent_def by (intro act_rules, split agent_reply.split, intro conjI allI impI act_rules)

lemma keeps_repair [act_rules]: "stays (on_tables Q) (with_repair env k a p q f)"
  unfolding with_repair_def by (intro act_rules)

lemma keeps_participant [act_rules]: "stays (on_tables Q) (hear_participant env session k prev cand until cur a)"
  unfolding hear_participant_def run_participant_def note_failure_def by (intro act_rules)

lemma keeps_participants [act_rules]: "stays (on_tables Q) (hear_participants env session k prev cand until cs fs as)"
  by (induction as arbitrary: cs fs) (auto intro!: act_rules)

lemma keeps_round [act_rules]: "stays (on_tables Q) (hold_round env session until k prev cand)"
  unfolding hold_round_def run_round_def by (intro act_rules)

lemma keeps_make_synthesis [act_rules]: "stays (on_tables Q) (make_synthesis env session until k cs cand)"
  unfolding make_synthesis_def run_synthesis_def by (intro act_rules)

lemma keeps_finishing [act_rules]:
  "stays (on_tables Q) (finish_converged env session k x)" "stays (on_tables Q) (finish_exhausted env session k x)"
  unfolding finish_converged_def finish_exhausted_def by (intro act_rules)+

lemma keeps_rounds [act_rules]: "stays (on_tables Q) (run_rounds env session until n k prev cand)"
  by (induction n arbitrary: k prev cand) (auto intro!: act_rules)

lemma keeps_session [act_rules]: "stays (on_tables Q) (run_session env session)"
  unfolding run_session_def by (intro act_rules)

lemma keeps_guarded: "stays (on_tables Q) (run_session_guarded env session)"
  unfolding run_session_guarded_def by (intro act_rules)

end

section \<open>Every debate ends\<close>

definition has_debate :: "pystr \<Rightarrow> DebateTables \<Rightarrow> bool" where
  "has_debate did t \<longleftrightarrow> debate_at t did \<noteq> None"

text \<open>Another instance may do what it wants to the tables, as long as it does not delete the debate.\<close>

definition others_keep :: "DebateEnv \<Rightarrow> pystr \<Rightarrow> bool" where
  "others_keep env did \<longleftrightarrow> (\<forall>n t. has_debate did t \<longrightarrow> has_debate did (dv_others env n t))"

definition has_status :: "pystr \<Rightarrow> DebateStatus \<Rightarrow> DebateTables \<Rightarrow> bool" where
  "has_status did st t \<longleftrightarrow> map_option de_status (debate_at t did) = Some (debate_value st)"

lemma debate_at_update:
  "(\<And>r. de_id (f r) = de_id r) \<Longrightarrow>
    debate_at (update_debate did f t) d = (if d = did then map_option f (debate_at t d) else debate_at t d)"
proof -
  assume "\<And>r. de_id (f r) = de_id r"
  then have "find (\<lambda>r. de_id r = d) (update_where (\<lambda>r. de_id r = did) f rows) =
      (if d = did then map_option f (find (\<lambda>r. de_id r = d) rows) else find (\<lambda>r. de_id r = d) rows)" for rows
    by (induction rows) auto
  then show ?thesis by (simp add: debate_at_def update_debate_def)
qed

lemma debate_at_other [simp]:
  "debate_at (t\<lparr>contribution_rows := a\<rparr>) d = debate_at t d" "debate_at (t\<lparr>synthesis_rows := b\<rparr>) d = debate_at t d"
  "debate_at (t\<lparr>item_rows := c\<rparr>) d = debate_at t d" "debate_at (t\<lparr>task_link_rows := e\<rparr>) d = debate_at t d"
  by (simp_all add: debate_at_def)

lemma status_update_id [simp]: "de_id (status_update py now st rnd err res r) = de_id r"
  "de_status (status_update py now st rnd err res r) = debate_value st"
  by (simp_all add: status_update_def)

lemma set_debate_status_Inr: "set_debate_status py now did st rnd err res t = Inr t' \<longleftrightarrow>
    has_debate did t \<and> t' = update_debate did (status_update py now st rnd err res) t"
  by (auto simp: set_debate_status_def has_debate_def)

lemma status_at: "set_debate_status py now did st rnd err res t = Inr t' \<Longrightarrow> has_status did st t'"
  by (auto simp: set_debate_status_Inr has_status_def has_debate_def debate_at_update)

lemma writes_keep_debate:
  "set_debate_status py now did' st rnd err res t = Inr t' \<Longrightarrow> has_debate did t \<Longrightarrow> has_debate did t'"
  "add_contribution py now c t = Inr t' \<Longrightarrow> has_debate did t \<Longrightarrow> has_debate did t'"
  "insert_synthesis py now s t = Inr t' \<Longrightarrow> has_debate did t \<Longrightarrow> has_debate did t'"
  "replace_work_items py did' is t = Inr t' \<Longrightarrow> has_debate did t \<Longrightarrow> has_debate did t'"
  by (auto simp: has_debate_def set_debate_status_Inr debate_at_update add_contribution_def insert_synthesis_def
      replace_work_items_def Let_def split: if_splits)

lemma keeps_debate: "others_keep env did \<Longrightarrow> debate_invariant env (has_debate did)"
  by unfold_locales (auto simp: others_keep_def dest: writes_keep_debate)

definition alone :: "DebateEnv \<Rightarrow> DebateEnv" where
  "alone env = env\<lparr>dv_others := \<lambda>_ t. t\<rparr>"

interpretation exists_on: debate_invariant "alone env" "has_debate did" for env did
  by (rule keeps_debate) (simp add: others_keep_def alone_def)

text \<open>Lines shown leave the tables alone.\<close>

lemma lines_tables:
  "render_agent env a c s = (r, s') \<Longrightarrow> tables s' = tables s"
  "persist_final env a x st s = (r, s') \<Longrightarrow> tables s' = tables s"
  "d_show env l s = (r, s') \<Longrightarrow> tables s' = tables s"
  by (auto simp: render_agent_def persist_final_def act_when_def d_show_def split: option.splits if_splits)

lemma commit_Inr: "d_commit env f s = (Inr u, s') \<longleftrightarrow>
    (\<exists>t. f (dv_now env (tick_no s)) (dv_others env (tick_no s) (tables s)) = Inr t \<and>
      s' = s\<lparr>tables := t, tick_no := Suc (tick_no s)\<rparr>)"
  by (auto simp: d_commit_def Let_def split: sum.splits)

lemma set_status_Inr: "put_status env did st rnd err res s = (Inr u, s') \<Longrightarrow> has_status did st (tables s')"
  by (auto simp: put_status_def commit_Inr dest: status_at)

lemma set_status_done:
  assumes "others_keep env did" "has_debate did (tables s)"
  obtains s' where "put_status env did st rnd err res s = (Inr (), s')" "has_status did st (tables s')"
proof -
  have "has_debate did (dv_others env (tick_no s) (tables s))" using assms by (simp add: others_keep_def)
  then obtain s' where s': "put_status env did st rnd err res s = (Inr (), s')"
    by (auto simp: put_status_def commit_Inr set_debate_status_Inr)
  then show thesis using that set_status_Inr [OF s'] by blast
qed

lemma finish_status:
  "finish_converged env session k x s = (Inr u, s') \<Longrightarrow> has_status (se_id session) DB_CONVERGED (tables s')"
  "finish_exhausted env session k x s = (Inr u, s') \<Longrightarrow> has_status (se_id session) DB_EXHAUSTED (tables s')"
  by (auto simp: finish_converged_def finish_exhausted_def act_then_Inr dest!: lines_tables set_status_Inr)

lemma run_rounds_status:
  assumes "run_rounds env session until left k prev cand s = (Inr u, s')" "0 < left" "k + int left = dl_max_rounds (se_limits session) + 1"
  shows "has_status (se_id session) DB_CONVERGED (tables s') \<or> has_status (se_id session) DB_EXHAUSTED (tables s')"
  using assms
proof (induction left arbitrary: k prev cand s)
  case (Suc left)
  from Suc.prems(1) obtain cs s1 where rest: "(case (if has_consensus cs (dl_quorum (se_limits session)) then cand else None) of
       Some agreed \<Rightarrow> finish_converged env session k (finalize_candidate (dv_py env) agreed cs k True)
     | None \<Rightarrow> act_bind (make_synthesis env session until k cs cand) (\<lambda>s.
         if k = dl_max_rounds (se_limits session) then finish_exhausted env session k (finalize_candidate (dv_py env) s cs k False)
         else act_then (render_agent env (se_moderator session) (render_synthesis (dv_py env) False None s))
           (run_rounds env session until left (k + 1) cs (Some s)))) s1 = (Inr u, s')"
    by (auto simp: act_bind_Inr)
  show ?case
  proof (cases "if has_consensus cs (dl_quorum (se_limits session)) then cand else None")
    case (Some agreed)
    with rest show ?thesis using finish_status(1) by simp
  next
    case None
    with rest obtain x s2 where x: "(if k = dl_max_rounds (se_limits session)
        then finish_exhausted env session k (finalize_candidate (dv_py env) x cs k False)
        else act_then (render_agent env (se_moderator session) (render_synthesis (dv_py env) False None x))
           (run_rounds env session until left (k + 1) cs (Some x))) s2 = (Inr u, s')"
      by (auto simp: act_bind_Inr)
    show ?thesis
    proof (cases "k = dl_max_rounds (se_limits session)")
      case True
      with x show ?thesis using finish_status(2) by simp
    next
      case False
      with x Suc.IH [of "k + 1"] Suc.prems(2,3) show ?thesis by (cases left) (auto simp: act_then_Inr)
    qed
  qed
qed simp

definition outcome_ok :: "pystr \<Rightarrow> debate_error + unit \<Rightarrow> DebateTables \<Rightarrow> bool" where
  "outcome_ok did r t = (case r of
     Inr _ \<Rightarrow> has_status did DB_CONVERGED t \<or> has_status did DB_EXHAUSTED t
   | Inl e \<Rightarrow> has_status did (if e = DebateCancelled then DB_CANCELLED else DB_FAILED) t)"

lemma has_status_debate: "has_status did st t \<Longrightarrow> has_debate did t"
  by (auto simp: has_status_def has_debate_def)

lemma finally_clear: "act_finally m (clear_active did) s =
    (case m s of (r, s') \<Rightarrow> (r, if active s' = Some did then s'\<lparr>active := None\<rparr> else s'))"
  by (simp add: act_finally_def clear_active_def split: prod.splits)

lemma outcome:
  assumes keep: "others_keep env (se_id session)" and row: "has_debate (se_id session) (tables s)"
    and rounds: "1 \<le> dl_max_rounds (se_limits session)" and run: "run_session env session s = (r, s1)"
    and guarded: "run_session_guarded env session s = (r', s')"
  shows "outcome_ok (se_id session) r (tables s') \<and> active s' \<noteq> Some (se_id session)"
proof (cases r)
  case (Inl e)
  have "has_debate (se_id session) (tables s1)"
    using staysD [OF debate_invariant.keeps_session [OF keeps_debate [OF keep]] run] row by (simp add: on_tables_def)
  then obtain s2 where s2: "put_status env (se_id session) (if e = DebateCancelled then DB_CANCELLED else DB_FAILED) None
      (if e = DebateCancelled then None else Some (exc_text e)) None s1 = (Inr (), s2)"
    "has_status (se_id session) (if e = DebateCancelled then DB_CANCELLED else DB_FAILED) (tables s2)"
    using set_status_done [OF keep] by metis
  then show ?thesis using guarded run lines_tables(3) unfolding run_session_guarded_def finally_clear
    by (auto simp: Inl act_try_def act_then_def act_bind_def outcome_ok_def split: prod.splits if_splits)
next
  case (Inr u)
  then have s': "s' = (if active s1 = Some (se_id session) then s1\<lparr>active := None\<rparr> else s1)"
    using guarded run unfolding run_session_guarded_def finally_clear by (auto simp: act_try_def)
  have "\<exists>until t. run_rounds env session until (nat (dl_max_rounds (se_limits session))) 1 [] None t = (Inr u, s1)"
    using run by (auto simp: Inr run_session_def act_then_Inr act_bind_Inr)
  then obtain until t where "run_rounds env session until (nat (dl_max_rounds (se_limits session))) 1 [] None t = (Inr u, s1)"
    by blast
  from run_rounds_status [OF this] rounds s' show ?thesis by (simp add: outcome_ok_def Inr)
qed

section \<open>The number of calls\<close>

definition asked :: "DebateState \<Rightarrow> nat" where
  "asked s = length (calls s)"

lemma asks_nothing:
  "grows asked 0 (d_ask f)" "grows asked 0 (d_show env l)" "grows asked 0 (d_lift r)" "grows asked 0 (d_commit env g)"
  "grows asked 0 (clear_active did)"
  by (auto simp: grows_def asked_def d_ask_def d_show_def d_lift_def d_commit_def clear_active_def Let_def
      split: option.splits sum.splits)

lemma asks_nothing_lines:
  "grows asked 0 (raise_if_cancelled env)" "grows asked 0 (handle_cancelled env)"
  "grows asked 0 (remaining_seconds env session until)" "grows asked 0 (render_agent env a t)"
  "grows asked 0 (show_agent_running env a t)" "grows asked 0 (clear_agent_running env a)"
  "grows asked 0 (persist_final env a x st)" "grows asked 0 (put_status env did st rnd err res)"
  "grows asked 0 (add_synthesis env y)"
  unfolding raise_if_cancelled_def handle_cancelled_def remaining_seconds_def render_agent_def put_status_def
    show_agent_running_def clear_agent_running_def persist_final_def add_synthesis_def
  by (intro grows_zero asks_nothing)+

lemmas asks = asks_nothing asks_nothing_lines

lemma asks_one: "grows asked 1 (ask_agent env c)"
  by (simp add: grows_def asked_def ask_agent_def)

lemma asks_worker: "grows asked n m \<Longrightarrow> grows asked n (in_worker env session m)"
  by (rule growsI) (auto simp: in_worker_def asked_def dest: growsD split: prod.splits if_splits)

lemma asks_call: "grows asked 1 (call_agent env k a p q)"
proof -
  have "grows asked 0 (case reply of
          NoDispatch \<Rightarrow> act_raise (Failure ''dispatch isolado indisponivel'')
        | Raised e \<Rightarrow> act_raise e
        | Returned raw \<Rightarrow> act_then (handle_cancelled env) (act_then (raise_if_cancelled env)
              (if py_strip (or_empty raw) = [] then act_raise (Failure (a @ '' nao retornou resposta''))
               else act_return (or_empty raw))))" for reply
    by (cases reply) (simp_all only: agent_reply.case, (intro grows_zero asks)+)
  then show ?thesis unfolding call_agent_def
    by (intro grows_mono [OF grows_then [OF asks(6) grows_then [OF asks(7) grows_bind [OF asks_one]]]]) auto
qed

lemma asks_repair: "grows asked 2 (with_repair env k a p q f)"
proof -
  have "grows asked 1 (act_try is_protocol (d_lift r) (\<lambda>e. act_bind (call_agent env k a p' (q' e)) (\<lambda>x. d_lift (f x))))" for r p' q'
    by (rule grows_mono [OF grows_try [OF asks(3) grows_bind [OF asks_call asks(3)]]]) simp
  then show ?thesis unfolding with_repair_def by (intro grows_mono [OF grows_bind [OF asks_call]]) auto
qed

lemma asks_participant: "grows asked 2 (hear_participant env session k prev cand until cur a)"
proof -
  have "grows asked 2 (run_participant env session k a prev cur cand)"
    unfolding run_participant_def by (rule grows_bind [OF asks_repair, where k = 0, simplified]) (intro grows_zero asks)
  then have "grows asked 2 (act_bind (in_worker env session (run_participant env session k a prev cur cand)) (note_failure env))"
    unfolding note_failure_def by (intro grows_bind [where k = 0, simplified] asks_worker) (auto intro!: grows_zero asks split: sum.split)
  then show ?thesis unfolding hear_participant_def
    by (intro grows_mono [OF grows_then [OF asks(6) grows_then [OF asks(8) grows_then [OF asks(10) grows_finally [OF _ asks(11)]]]]]) auto
qed

lemma asks_participants: "grows asked (2 * length as) (hear_participants env session k prev cand until cs fs as)"
proof (induction as arbitrary: cs fs)
  case (Cons a as)
  have "grows asked (2 * length as) (case r of
       Inr c \<Rightarrow> hear_participants env session k prev cand until (cs @ [c]) fs as
     | Inl failure \<Rightarrow> hear_participants env session k prev cand until cs (AList.update a failure fs) as)" for r
    by (cases r) (simp_all add: Cons.IH)
  from grows_bind [OF asks_participant this] show ?case by simp
qed (simp, intro grows_zero asks)

lemma asks_round: "grows asked (2 * length (se_participants session)) (hold_round env session until k prev cand)"
proof -
  have "grows asked 0 (case x of (cs, fs) \<Rightarrow> if int (length cs) < dl_quorum (se_limits session)
        then act_raise (quorum_error session k cs fs)
      else act_then (act_each (\<lambda>c. d_commit env (\<lambda>now. add_contribution (dv_py env) now c)) cs) (act_return cs))" for x
    by (intro grows_zero asks)
  moreover have "grows asked (2 * length (se_participants session)) (run_round env session k prev cand rest)" for rest
    using grows_bind [OF asks(1) asks_participants] by (simp add: run_round_def)
  ultimately have "grows asked (2 * length (se_participants session)) (act_bind (run_round env session k prev cand rest)
      (\<lambda>(cs, fs). if int (length cs) < dl_quorum (se_limits session)
        then act_raise (quorum_error session k cs fs)
      else act_then (act_each (\<lambda>c. d_commit env (\<lambda>now. add_contribution (dv_py env) now c)) cs) (act_return cs)))" for rest
    using grows_bind [where k = 0, simplified] by blast
  from grows_then [OF asks(6) grows_bind [OF asks(8) grows_then [OF asks(2) grows_then [OF asks(13) this]]]]
  show ?thesis by (simp add: hold_round_def)
qed

lemma asks_synthesis: "grows asked 2 (make_synthesis env session until k cs cand)"
proof -
  have "grows asked 2 (run_synthesis env session k cs cand)"
    unfolding run_synthesis_def
    by (rule grows_mono [OF grows_then [OF asks(10) grows_finally [OF grows_bind [OF asks_worker [OF asks_repair] asks(3)] asks(11)]]]) simp
  then have "grows asked 2 (act_bind (run_synthesis env session k cs cand) (\<lambda>s. act_then (add_synthesis env s) (act_return s)))"
    by (intro grows_bind [where k = 0, simplified] grows_zero asks)
  then show ?thesis unfolding make_synthesis_def
    by (intro grows_mono [OF grows_then [OF asks(13) grows_then [OF asks(8)]]]) auto
qed

lemma asks_finish: "grows asked 0 (finish_converged env session k x)" "grows asked 0 (finish_exhausted env session k x)"
  unfolding finish_converged_def finish_exhausted_def by (intro grows_zero asks)+

lemma asks_rounds: "grows asked (left * (2 * length (se_participants session) + 2)) (run_rounds env session until left k prev cand)"
proof (induction left arbitrary: k prev cand)
  case (Suc left)
  let ?b = "left * (2 * length (se_participants session) + 2)"
  have "grows asked ?b (if k = dl_max_rounds (se_limits session)
        then finish_exhausted env session k (finalize_candidate (dv_py env) x cs k False)
        else act_then (render_agent env (se_moderator session) (render_synthesis (dv_py env) False None x))
           (run_rounds env session until left (k + 1) cs (Some x)))" for x cs
    using grows_mono [OF asks_finish(2)] grows_then [OF asks(9) Suc.IH] by auto
  from grows_bind [OF asks_synthesis this]
  have "grows asked (2 + ?b) (case y of Some agreed \<Rightarrow> finish_converged env session k (finalize_candidate (dv_py env) agreed cs k True)
     | None \<Rightarrow> act_bind (make_synthesis env session until k cs cand) (\<lambda>s.
         if k = dl_max_rounds (se_limits session) then finish_exhausted env session k (finalize_candidate (dv_py env) s cs k False)
         else act_then (render_agent env (se_moderator session) (render_synthesis (dv_py env) False None s))
           (run_rounds env session until left (k + 1) cs (Some s))))" for y cs
    using grows_mono [OF asks_finish(1)] by (cases y) auto
  then show ?case unfolding run_rounds.simps by (rule grows_mono [OF grows_bind [OF asks_round]]) simp
qed (simp add: grows_pure)

definition most_calls :: "DebateSession \<Rightarrow> nat" where
  "most_calls session = nat (dl_max_rounds (se_limits session)) * (2 * length (se_participants session) + 2)"

lemma asks_guarded: "grows asked (most_calls session) (run_session_guarded env session)"
proof -
  have run: "grows asked (most_calls session) (run_session env session)" unfolding run_session_def most_calls_def
    by (rule grows_mono [OF grows_then [OF asks(13) grows_bind [OF asks(1) asks_rounds]]]) simp
  have "grows asked 0 (if e = DebateCancelled
      then act_then (put_status env (se_id session) DB_CANCELLED None None None) (d_show env l)
      else act_then (put_status env (se_id session) DB_FAILED None (Some (exc_text e)) None) (d_show env (l' e)))" for e l l'
    by (intro grows_zero asks)
  then show ?thesis unfolding run_session_guarded_def
    by (rule grows_mono [OF grows_finally [OF grows_try [OF run] asks(5)]]) simp
qed

end
