(* ===== verification/Debate_Consensus.thy ===== *)
theory Debate_Consensus
  imports Debate_Guarantees
begin

text \<open>
  Consensus of a debate is sound: a debate ends \<open>converged\<close> only when, in one round after the first,
  a quorum of distinct participants voted for the candidate, none raised a critical objection, and
  each of these contributions is in the audit trail.
\<close>

definition others_leave :: "DebateEnv \<Rightarrow> pystr \<Rightarrow> bool" where
  "others_leave env did \<longleftrightarrow> (\<forall>n t. debate_at (dv_others env n t) did = debate_at t did \<and>
     filter (\<lambda>r. cr_debate r = did) (contribution_rows (dv_others env n t)) = filter (\<lambda>r. cr_debate r = did) (contribution_rows t))"

definition recorded :: "DebatePy \<Rightarrow> DebateTables \<Rightarrow> DebateContribution \<Rightarrow> bool" where
  "recorded py t c \<longleftrightarrow> (\<exists>now. contribution_row py now c \<in> set (contribution_rows t))"

text \<open>A contribution that may count in a round: read under the protocol, with a vote that fits the round.\<close>

definition heard_ok :: "pystr \<Rightarrow> int \<Rightarrow> DebateSynthesis option \<Rightarrow> DebateContribution \<Rightarrow> bool" where
  "heard_ok did k cand c \<longleftrightarrow> contribution_ok c \<and> dc_debate_id c = did \<and> dc_round_index c = k \<and>
     (cand = None \<longleftrightarrow> dc_vote c = ''propose'')"

section \<open>What a round delivers\<close>

lemma read_contribution_heard:
  "read_contribution py did k a cand raw = Inr c \<Longrightarrow> heard_ok did k cand c \<and> dc_agent c = a"
  by (auto simp: read_contribution_def heard_ok_def validate_contribution_def bind_res_Inr
      dest!: contribution_from_response_ok split: if_splits)

lemma with_repair_Inr:
  assumes "with_repair env k a p q f s = (Inr x, s')"
  shows "\<exists>raw. f raw = Inr x"
proof -
  from assms obtain raw t where "act_try is_protocol (d_lift (f raw)) (\<lambda>e.
       act_bind (call_agent env k a (p @ ''-repair'') (build_repair_prompt (dp_text (dv_py env)) q raw e))
         (\<lambda>repaired. d_lift (f repaired))) t = (Inr x, s')"
    by (auto simp: with_repair_def act_bind_Inr)
  then show ?thesis by (cases "f raw") (auto simp: act_try_def d_lift_def act_bind_Inr split: if_splits)
qed

lemma run_participant_heard:
  "run_participant env session k a prev cur cand s = (Inr c, s') \<Longrightarrow> heard_ok (se_id session) k cand c \<and> dc_agent c = a"
  by (auto simp: run_participant_def act_bind_Inr act_then_Inr dest!: with_repair_Inr read_contribution_heard)

lemma in_worker_Inr: "in_worker env session m s = (Inr r, s') \<Longrightarrow> \<exists>t. m s = (r, t)"
  by (auto simp: in_worker_def split: prod.splits if_splits)

lemma note_failure_Inr: "note_failure env r s = (Inr (Inr c), s') \<Longrightarrow> r = Inr c"
  by (auto simp: note_failure_def act_then_Inr split: sum.splits if_splits)

lemma finally_Inr: "act_finally m h s = (Inr x, s') \<Longrightarrow> \<exists>t. m s = (Inr x, t)"
  by (auto simp: act_finally_def split: prod.splits sum.splits)

lemma hear_participant_heard:
  "hear_participant env session k prev cand until cur a s = (Inr (Inr c), s') \<Longrightarrow>
    heard_ok (se_id session) k cand c \<and> dc_agent c = a"
  unfolding hear_participant_def
  by (auto simp: act_then_Inr act_bind_Inr dest!: finally_Inr note_failure_Inr in_worker_Inr run_participant_heard)

lemma hear_participants_heard:
  "hear_participants env session k prev cand until cs fs as s = (Inr (ds, gs), s') \<Longrightarrow>
    \<exists>es. ds = cs @ es \<and> list_all (heard_ok (se_id session) k cand) es \<and> subseq (map dc_agent es) as"
proof (induction as arbitrary: cs fs s)
  case (Cons a as)
  then obtain r t where r: "hear_participant env session k prev cand until cs a s = (Inr r, t)"
    and rest: "(case r of Inr c \<Rightarrow> hear_participants env session k prev cand until (cs @ [c]) fs as
       | Inl e \<Rightarrow> hear_participants env session k prev cand until cs (AList.update a e fs) as) t = (Inr (ds, gs), s')"
    by (auto simp: act_bind_Inr)
  show ?case
  proof (cases r)
    case (Inl e)
    with rest Cons.IH show ?thesis by (metis sum.case(1) list_emb_Cons)
  next
    case (Inr c)
    have "heard_ok (se_id session) k cand c \<and> dc_agent c = a" using hear_participant_heard r Inr by blast
    moreover obtain es where "ds = (cs @ [c]) @ es" "list_all (heard_ok (se_id session) k cand) es" "subseq (map dc_agent es) as"
      using rest Cons.IH Inr by (metis sum.case(2))
    ultimately show ?thesis by (intro exI [of _ "c # es"]) simp
  qed
qed (auto simp: act_then_Inr)

section \<open>The audit trail\<close>

lemma recorded_kept:
  assumes "others_leave env did" "recorded py t c" "dc_debate_id c = did"
  shows "recorded py (dv_others env n t) c"
proof -
  from assms(2) obtain now where "contribution_row py now c \<in> set (filter (\<lambda>r. cr_debate r = did) (contribution_rows t))"
    by (auto simp: recorded_def contribution_row_def assms(3))
  with assms(1) have "contribution_row py now c \<in> set (filter (\<lambda>r. cr_debate r = did) (contribution_rows (dv_others env n t)))"
    by (metis others_leave_def)
  then show ?thesis by (auto simp: recorded_def)
qed

lemma add_contribution_records:
  "add_contribution py now c t = Inr t' \<Longrightarrow> recorded py t' c"
  by (auto simp: add_contribution_def recorded_def upsert_def Let_def update_where_def list_ex_iff image_iff split: if_splits) blast

lemma add_contribution_keeps:
  assumes "add_contribution py now c t = Inr t'" "recorded py t d" "dc_agent d \<noteq> dc_agent c"
  shows "recorded py t' d"
proof -
  from assms(2) obtain n where n: "contribution_row py n d \<in> set (contribution_rows t)" by (auto simp: recorded_def)
  have "\<not> same_slot (contribution_row py now c) (contribution_row py n d)"
    using assms(3) by (auto simp: same_slot_def contribution_row_def)
  with n assms(1) have "contribution_row py n d \<in> set (contribution_rows t')"
    by (auto simp: add_contribution_def upsert_def Let_def in_set_update_where split: if_splits)
  then show ?thesis by (auto simp: recorded_def)
qed

lemma store_contributions:
  assumes "act_each (\<lambda>c. d_commit env (\<lambda>now. add_contribution py now c)) cs s = (Inr us, s')"
    and leave: "others_leave env did" and ids: "list_all (\<lambda>c. dc_debate_id c = did) (ds @ cs)"
    and dist: "distinct (map dc_agent (ds @ cs))" and old: "list_all (recorded py (tables s)) ds"
  shows "list_all (recorded py (tables s')) (ds @ cs)"
  using assms
proof (induction cs arbitrary: ds s us)
  case (Cons c cs)
  from Cons.prems(1) obtain s1 vs where c: "d_commit env (\<lambda>now. add_contribution py now c) s = (Inr (), s1)"
    and rest: "act_each (\<lambda>c. d_commit env (\<lambda>now. add_contribution py now c)) cs s1 = (Inr vs, s')"
    by (auto simp: act_bind_Inr)
  from c obtain now n t where t: "add_contribution py now c (dv_others env n (tables s)) = Inr t" "tables s1 = t"
    by (auto simp: commit_Inr)
  have "recorded py t d" if "d \<in> set ds" for d
  proof (rule add_contribution_keeps [OF t(1)])
    show "recorded py (dv_others env n (tables s)) d"
      using recorded_kept [OF leave] Cons.prems(3,5) that by (auto simp: list_all_iff)
    show "dc_agent d \<noteq> dc_agent c" using Cons.prems(4) that by (auto simp: image_iff)
  qed
  then have "list_all (recorded py (tables s1)) (ds @ [c])"
    using add_contribution_records [OF t(1)] by (simp add: list_all_iff t(2))
  from Cons.IH [OF rest leave _ _ this] Cons.prems(3,4) show ?case by simp
qed simp

lemma subseq_distinct: "subseq xs ys \<Longrightarrow> distinct ys \<Longrightarrow> distinct xs \<and> set xs \<subseteq> set ys"
  by (induction rule: list_emb.induct) auto

lemma hold_round_delivers:
  assumes round: "hold_round env session until k prev cand s = (Inr cs, s')"
    and leave: "others_leave env (se_id session)" and dist: "distinct (se_participants session)"
  shows "list_all (heard_ok (se_id session) k cand) cs \<and> subseq (map dc_agent cs) (se_participants session) \<and>
     list_all (recorded (dv_py env) (tables s')) cs"
proof -
  from round obtain fs t1 t2 us where heard: "run_round env session k prev cand us t1 = (Inr (cs, fs), t2)"
    and stored: "\<exists>vs. act_each (\<lambda>c. d_commit env (\<lambda>now. add_contribution (dv_py env) now c)) cs t2 = (Inr vs, s')"
    by (auto simp: hold_round_def act_then_Inr act_bind_Inr split: if_splits)
  from heard have cs: "list_all (heard_ok (se_id session) k cand) cs \<and> subseq (map dc_agent cs) (se_participants session)"
    by (auto simp: run_round_def act_bind_Inr dest!: hear_participants_heard)
  then have "distinct (map dc_agent cs)" using subseq_distinct dist by blast
  moreover have "list_all (\<lambda>c. dc_debate_id c = se_id session) cs" using cs by (auto simp: list_all_iff heard_ok_def)
  ultimately have "list_all (recorded (dv_py env) (tables s')) cs"
    using stored store_contributions [OF _ leave, of _ cs t2 _ s' "[]"] by auto
  with cs show ?thesis by simp
qed

section \<open>Convergence\<close>

text \<open>
  Written without the function that decides: at least a quorum of different participants supported
  the candidate, and no contribution of the round is a critical objection.
\<close>

definition supporters :: "DebateContribution list \<Rightarrow> pystr set" where
  "supporters cs = {a. \<exists>c \<in> set cs. dc_agent c = a \<and> dc_vote c = ''support''}"

definition agreed_in :: "DebateEnv \<Rightarrow> DebateSession \<Rightarrow> DebateTables \<Rightarrow> int \<Rightarrow> DebateContribution list \<Rightarrow> bool" where
  "agreed_in env session t k cs \<longleftrightarrow> 2 \<le> k \<and> k \<le> dl_max_rounds (se_limits session) \<and>
     map_option de_current_round (debate_at t (se_id session)) = Some k \<and>
     dl_quorum (se_limits session) \<le> int (card (supporters cs)) \<and> supporters cs \<subseteq> set (se_participants session) \<and>
     (\<forall>c \<in> set cs. \<not> dc_critical_objection c) \<and> distinct (map dc_agent cs) \<and>
     set (map dc_agent cs) \<subseteq> set (se_participants session) \<and>
     list_all (\<lambda>c. contribution_ok c \<and> dc_round_index c = k \<and> dc_vote c \<noteq> ''propose'' \<and> recorded (dv_py env) t c) cs"

lemma consensus_supporters:
  assumes "has_consensus cs quorum" and "distinct (map dc_agent cs)"
  shows "quorum \<le> int (card (supporters cs))" and "\<forall>c \<in> set cs. \<not> dc_critical_objection c"
proof -
  have "supporters cs = set (map dc_agent (filter (\<lambda>c. dc_vote c = ''support'') cs))" by (auto simp: supporters_def)
  then have "card (supporters cs) = length (filter (\<lambda>c. dc_vote c = ''support'') cs)"
    using distinct_card [OF distinct_map_filter [OF assms(2)]] by simp
  with assms(1) show "quorum \<le> int (card (supporters cs))" "\<forall>c \<in> set cs. \<not> dc_critical_objection c"
    by (auto simp: has_consensus_def list_ex_iff)
qed

lemma supporters_participate: "set (map dc_agent cs) \<subseteq> P \<Longrightarrow> supporters cs \<subseteq> P"
  by (auto simp: supporters_def)

lemma synthesis_keeps_records:
  "insert_synthesis py now x t = Inr t' \<Longrightarrow> recorded q t' c = recorded q t c"
  "replace_work_items py did is t = Inr t' \<Longrightarrow> recorded q t' c = recorded q t c"
  "set_debate_status py now did st rnd err res t = Inr t' \<Longrightarrow> recorded q t' c = recorded q t c"
  by (auto simp: insert_synthesis_def replace_work_items_def set_debate_status_def update_debate_def recorded_def split: if_splits)

lemma status_round: "de_current_round (status_update py now st (Some k) err res r) = k"
  by (simp add: status_update_def)

lemma finish_converged_agreed:
  assumes run: "finish_converged env session k x s = (Inr u, s')" and leave: "others_leave env (se_id session)"
    and ids: "list_all (\<lambda>c. dc_debate_id c = se_id session) cs" and old: "list_all (recorded (dv_py env) (tables s)) cs"
  shows "list_all (recorded (dv_py env) (tables s')) cs \<and> map_option de_current_round (debate_at (tables s') (se_id session)) = Some k"
proof -
  from run obtain s1 s2 where s1: "add_synthesis env x s = (Inr (), s1)"
    and s2: "put_status env (se_id session) DB_CONVERGED (Some k) None (Some x) s1 = (Inr (), s2)" and s': "tables s' = tables s2"
    by (auto simp: finish_converged_def act_then_Inr dest!: lines_tables)
  have keep: "recorded (dv_py env) (dv_others env n t) c" if "recorded (dv_py env) t c" "c \<in> set cs" for n t c
    using recorded_kept [OF leave that(1)] ids that(2) by (auto simp: list_all_iff)
  have "list_all (recorded (dv_py env) (tables s1)) cs"
    using s1 old keep by (fastforce simp: add_synthesis_def act_then_Inr commit_Inr list_all_iff synthesis_keeps_records)
  moreover obtain n now where "set_debate_status (dv_py env) now (se_id session) DB_CONVERGED (Some k) None (Some x)
      (dv_others env n (tables s1)) = Inr (tables s2)"
    using s2 by (auto simp: put_status_def commit_Inr)
  ultimately have "list_all (recorded (dv_py env) (tables s2)) cs"
    and "map_option de_current_round (debate_at (tables s2) (se_id session)) = Some k"
    using keep by (simp_all add: list_all_iff synthesis_keeps_records(3))
      (auto simp: set_debate_status_Inr debate_at_update has_debate_def status_round)
  then show ?thesis by (simp add: s')
qed

lemma debate_value_inject [simp]: "debate_value a = debate_value b \<longleftrightarrow> a = b"
  by (metis debate_status_of_value option.inject)

lemma has_status_unique: "has_status did a t \<Longrightarrow> has_status did b t \<Longrightarrow> a = b"
  by (auto simp: has_status_def)

lemma rounds_agreed:
  assumes leave: "others_leave env (se_id session)" and dist: "distinct (se_participants session)"
  shows "run_rounds env session until left k prev cand s = (Inr u, s') \<Longrightarrow> 0 < left \<Longrightarrow>
     k + int left = dl_max_rounds (se_limits session) + 1 \<Longrightarrow> (cand \<noteq> None \<longrightarrow> 2 \<le> k) \<Longrightarrow> 1 \<le> k \<Longrightarrow>
     has_status (se_id session) DB_CONVERGED (tables s') \<Longrightarrow> \<exists>j cs. agreed_in env session (tables s') j cs"
proof (induction left arbitrary: k prev cand s)
  case (Suc left)
  from Suc.prems(1) obtain cs s1 where round: "hold_round env session until k prev cand s = (Inr cs, s1)"
    and rest: "(case (if has_consensus cs (dl_quorum (se_limits session)) then cand else None) of
       Some agreed \<Rightarrow> finish_converged env session k (finalize_candidate (dv_py env) agreed cs k True)
     | None \<Rightarrow> act_bind (make_synthesis env session until k cs cand) (\<lambda>s.
         if k = dl_max_rounds (se_limits session) then finish_exhausted env session k (finalize_candidate (dv_py env) s cs k False)
         else act_then (render_agent env (se_moderator session) (render_synthesis (dv_py env) False None s))
           (run_rounds env session until left (k + 1) cs (Some s)))) s1 = (Inr u, s')"
    by (auto simp: act_bind_Inr)
  note cs = hold_round_delivers [OF round leave dist]
  show ?case
  proof (cases "if has_consensus cs (dl_quorum (se_limits session)) then cand else None")
    case (Some agreed)
    then have cons: "has_consensus cs (dl_quorum (se_limits session))" and cand: "cand = Some agreed"
      by (auto split: if_splits)
    have run: "finish_converged env session k (finalize_candidate (dv_py env) agreed cs k True) s1 = (Inr u, s')"
      using rest Some by simp
    have "list_all (\<lambda>c. dc_debate_id c = se_id session) cs" using cs by (auto simp: list_all_iff heard_ok_def)
    note end_state = finish_converged_agreed [OF run leave this]
    have dv: "distinct (map dc_agent cs)" "set (map dc_agent cs) \<subseteq> set (se_participants session)"
      using cs subseq_distinct dist by blast+
    with cs consensus_supporters [OF cons dv(1)] supporters_participate [OF dv(2)] cand end_state Suc.prems(3,4) show ?thesis
      by (intro exI [of _ k] exI [of _ cs]) (auto simp: agreed_in_def list_all_iff heard_ok_def)
  next
    case None
    with rest obtain x s2 where x: "(if k = dl_max_rounds (se_limits session)
        then finish_exhausted env session k (finalize_candidate (dv_py env) x cs k False)
        else act_then (render_agent env (se_moderator session) (render_synthesis (dv_py env) False None x))
           (run_rounds env session until left (k + 1) cs (Some x))) s2 = (Inr u, s')"
      by (auto simp: act_bind_Inr)
    show ?thesis
    proof (cases "k = dl_max_rounds (se_limits session)")
      case True
      with x have "has_status (se_id session) DB_EXHAUSTED (tables s')" using finish_status(2) by simp
      with Suc.prems(6) show ?thesis using has_status_unique by blast
    next
      case False
      with x Suc.IH [of "k + 1"] Suc.prems show ?thesis by (cases left) (auto simp: act_then_Inr)
    qed
  qed
qed simp

end
