(* ===== verification/Debate_Outcomes.thy ===== *)
theory Debate_Outcomes
  imports Debate_Consensus
begin

text \<open>
  The guarantees of a debate as theorems, with a debate of two agents that agree in the second round:
  all its steps are evaluated, down to the JSON of the answers.
\<close>

section \<open>A sample debate\<close>

definition reply_text :: "int \<Rightarrow> pystr \<Rightarrow> pystr" where
  \<open>reply_text k purpose =
     (if purpose = ''synthesis'' then ''{"summary":"s","verdict":"v","confidence":1,"consensus_reached":false}''
      else if k = 1 then ''{"position":"p","confidence":1,"vote":"propose"}''
      else ''{"position":"p","confidence":1,"vote":"support"}'')\<close>

definition sample_dpy :: DebatePy where
  "sample_dpy = \<lparr> dp_text = sample_py, dp_mean = (\<lambda>_. 1), dp_percent = (\<lambda>_. ''100%''), dp_seconds = (\<lambda>_. ''900''),
     dp_bad_text = (\<lambda>_. []), dp_bad_value = (\<lambda>_. []) \<rparr>"

text \<open>Persisting the final message raises when \<open>broken\<close>.\<close>

definition sample_denv :: "bool \<Rightarrow> DebateEnv" where
  "sample_denv broken = \<lparr> dv_py = sample_dpy, dv_now = (\<lambda>_. ''2024-01-01 00:00:00''), dv_clock = (\<lambda>_. 0),
     dv_cancelled = (\<lambda>_. False), dv_handle = (\<lambda>_. False),
     dv_reply = (\<lambda>_ call. Returned (Some (reply_text (ac_round call) (ac_purpose call)))), dv_in_time = (\<lambda>_. True),
     dv_shows = (\<lambda>_ l. case l of Persisted _ _ \<Rightarrow> if broken then Some (Failure ''disk full'') else None | _ \<Rightarrow> None),
     dv_others = (\<lambda>_ t. t), dv_renderer = False, dv_persists = True \<rparr>"

definition sample_session :: DebateSession where
  "sample_session = \<lparr> se_id = ''d1'', se_session_id = ''s'', se_topic = ''t'', se_mode = VERDICT, se_status = DB_CREATED,
     se_participants = [''a'', ''b''], se_moderator = ''a'',
     se_limits = \<lparr>dl_max_rounds = 2, dl_timeout_seconds = 900, dl_quorum = 2\<rparr>, se_context = [], se_current_round = 0,
     se_created_at = [], se_updated_at = [], se_started_at = None, se_completed_at = None, se_result = None,
     se_error = [], se_applied_at = None \<rparr>"

definition sample_dstate :: DebateState where
  "sample_dstate = \<lparr> tables = \<lparr>debates = [new_debate_row sample_dpy ''n'' sample_session], contribution_rows = [],
     synthesis_rows = [], item_rows = [], task_link_rows = []\<rparr>, tick_no = 0, calls = [], shown = [], active = Some ''d1'' \<rparr>"

definition sample_vote :: "int \<Rightarrow> pystr \<Rightarrow> DebateContribution" where
  "sample_vote k a = \<lparr> dc_debate_id = ''d1'', dc_round_index = k, dc_agent = a, dc_position = ''p'', dc_arguments = [],
     dc_objections = [], dc_proposal = [], dc_confidence = 1, dc_vote = (if k = 1 then ''propose'' else ''support''),
     dc_critical_objection = False, dc_work_items = [], dc_raw_response = reply_text k ''participant'' \<rparr>"

definition sample_candidate :: DebateSynthesis where
  "sample_candidate = \<lparr> sy_debate_id = ''d1'', sy_round_index = 1, sy_moderator = ''a'', sy_summary = ''s'',
     sy_verdict = ''v'', sy_agreements = [], sy_disagreements = [], sy_critical_objections = [], sy_confidence = 1,
     sy_consensus_reached = False, sy_work_items = [], sy_raw_response = reply_text 1 ''synthesis'' \<rparr>"

lemma sample_objects:
  "first_object (reply_text 1 ''participant'') =
     Some [(''position'', JStr ''p''), (''confidence'', JInt 1), (''vote'', JStr ''propose'')]"
  "first_object (reply_text 2 ''participant'') =
     Some [(''position'', JStr ''p''), (''confidence'', JInt 1), (''vote'', JStr ''support'')]"
  "first_object (reply_text 1 ''synthesis'') =
     Some [(''summary'', JStr ''s''), (''verdict'', JStr ''v''), (''confidence'', JInt 1), (''consensus_reached'', JBool False)]"
  by code_simp+

lemma sample_strips:
  "py_strip (reply_text 1 ''participant'') = reply_text 1 ''participant''"
  "py_strip (reply_text 2 ''participant'') = reply_text 2 ''participant''"
  "py_strip (reply_text 1 ''synthesis'') = reply_text 1 ''synthesis''"
  by code_simp+

lemma sample_sizes: "reply_text k p \<noteq> []" "length (reply_text k p) \<le> max_debate_response_chars"
  by (simp_all add: reply_text_def max_debate_response_chars_def)

lemma sample_extracts:
  assumes "first_object (reply_text k p) = Some payload" "py_strip (reply_text k p) = reply_text k p"
  shows "extract_json_object py (JStr (reply_text k p)) = Inr payload"
  using assms sample_sizes [of k p] by (simp add: extract_json_object_def response_text_def py_str_def Let_def)

lemma sample_values:
  "confidence_of (JInt 1) True = Inr 1" "debate_work_items (JList []) = Inr []" "check_work_items [] = Inr ()"
  "debate_text_items JNull f = Inr []"
  by (simp_all add: confidence_of_def debate_work_items_def parse_work_items_def check_work_items_def
      validate_work_items_def debate_text_items_def as_protocol_error_simps)

lemma sample_short: "s \<in> {''p'', ''propose'', ''support'', ''s'', ''v''} \<Longrightarrow>
    debate_text (JStr s) f max_debate_text_chars = Inr s \<and> py_lower s = s"
  by (auto simp: debate_text_def Let_def max_debate_text_chars_def py_strip_def py_lstrip_def py_rstrip_def
      py_isspace_def py_lower_def py_lower_char_def)

lemma sample_reads:
  "read_contribution sample_dpy ''d1'' 1 a None (reply_text 1 ''participant'') = Inr (sample_vote 1 a)"
  "read_contribution sample_dpy ''d1'' 2 a (Some cand) (reply_text 2 ''participant'') = Inr (sample_vote 2 a)"
  "read_synthesis sample_dpy sample_session 1 (reply_text 1 ''synthesis'') = Inr sample_candidate"
  by (simp_all add: read_contribution_def read_synthesis_def contribution_from_response_def synthesis_from_response_def
      sample_extracts sample_objects sample_strips required_text_def obj_get_def get_or_def json_or_def sample_short
      sample_values debate_text_null boolean_of_def debate_votes_def validate_contribution_def validate_synthesis_def
      sample_vote_def sample_candidate_def sample_session_def response_text_def py_str_def sample_sizes)

text \<open>
  A step that goes well from every state in which the debate exists, and leaves it there.
\<close>

definition yields :: "'a debate_act \<Rightarrow> 'a \<Rightarrow> bool" where
  "yields m x \<longleftrightarrow> (\<forall>s. has_debate ''d1'' (tables s) \<longrightarrow> (\<exists>s'. m s = (Inr x, s') \<and> has_debate ''d1'' (tables s')))"

named_theorems sample_steps "steps of the sample debate"

lemma yields_bind: "yields m x \<Longrightarrow> yields (f x) y \<Longrightarrow> yields (act_bind m f) y"
  unfolding yields_def act_bind_def by fastforce

lemma yields_then: "yields m x \<Longrightarrow> yields m' y \<Longrightarrow> yields (act_then m m') y"
  unfolding act_then_def by (rule yields_bind)

lemma yields_finally: "yields m x \<Longrightarrow> yields h u \<Longrightarrow> yields (act_finally m h) x"
  unfolding yields_def act_finally_def by fastforce

lemma yields_return [sample_steps]: "yields (act_return x) x"
  by (simp add: yields_def)

lemma yields_env [sample_steps]:
  "yields (raise_if_cancelled (sample_denv b)) ()" "yields (handle_cancelled (sample_denv b)) ()"
  "yields (render_agent (sample_denv b) a t) ()" "yields (show_agent_running (sample_denv b) a t) ()"
  "yields (clear_agent_running (sample_denv b) a) ()" "yields (d_show (sample_denv b) (SystemLine l)) ()"
  "yields (d_ask (dv_clock (sample_denv b))) 0" "yields (d_lift (Inr x)) x"
  "0 < until \<Longrightarrow> yields (remaining_seconds (sample_denv b) session until) until"
  by (simp_all add: yields_def raise_if_cancelled_def handle_cancelled_def render_agent_def show_agent_running_def
      clear_agent_running_def d_show_def d_ask_def d_lift_def remaining_seconds_def act_when_def act_bind_def sample_denv_def)

lemma yields_status [sample_steps]: "yields (put_status (sample_denv b) ''d1'' st k e x) ()"
  by (auto simp: yields_def put_status_def d_commit_def set_debate_status_def sample_denv_def has_debate_def debate_at_update)

lemma yields_commits [sample_steps]:
  "dc_debate_id c = ''d1'' \<Longrightarrow> yields (d_commit (sample_denv b) (\<lambda>now. add_contribution py now c)) ()"
  "sy_debate_id y = ''d1'' \<Longrightarrow> yields (d_commit (sample_denv b) (\<lambda>now. insert_synthesis py now y)) ()"
  "yields (d_commit (sample_denv b) (\<lambda>now. replace_work_items py ''d1'' [])) ()"
  by (auto simp: yields_def d_commit_def add_contribution_def insert_synthesis_def replace_work_items_def
      sample_denv_def has_debate_def Let_def)

lemma yields_call [sample_steps]:
  "py_strip (reply_text k p) \<noteq> [] \<Longrightarrow> yields (call_agent (sample_denv b) k a p q) (reply_text k p)"
  by (simp add: yields_def call_agent_def raise_if_cancelled_def handle_cancelled_def act_then_def act_bind_def d_ask_def
      ask_agent_def sample_denv_def)

lemma yields_repair: "py_strip (reply_text k p) \<noteq> [] \<Longrightarrow> f (reply_text k p) = Inr x \<Longrightarrow>
    yields (with_repair (sample_denv b) k a p q f) x"
  unfolding with_repair_def by (rule yields_bind [OF yields_call]) (auto simp: yields_def act_try_def d_lift_def)

lemma yields_worker: "yields m x \<Longrightarrow> yields (in_worker (sample_denv b) session m) (Inr x)"
  by (auto simp: yields_def in_worker_def sample_denv_def split: prod.split)

lemma sample_fields [simp]:
  "se_id sample_session = ''d1''" "se_participants sample_session = [''a'', ''b'']" "se_moderator sample_session = ''a''"
  "dl_quorum (se_limits sample_session) = 2" "dl_max_rounds (se_limits sample_session) = 2"
  "dl_timeout_seconds (se_limits sample_session) = 900" "dv_py (sample_denv b) = sample_dpy"
  "dc_agent (sample_vote k a) = a" "dc_debate_id (sample_vote k a) = ''d1''" "sy_debate_id sample_candidate = ''d1''"
  "sy_work_items sample_candidate = []"
  by (simp_all add: sample_session_def sample_denv_def sample_vote_def sample_candidate_def)

lemmas sample_rules = sample_steps yields_bind yields_then yields_finally

lemma yields_hear:
  assumes "read_contribution sample_dpy ''d1'' k a cand (reply_text k ''participant'') = Inr (sample_vote k a)"
    "py_strip (reply_text k ''participant'') = reply_text k ''participant''" "0 < until"
  shows "yields (hear_participant (sample_denv b) sample_session k prev cand until cur a) (Inr (sample_vote k a))"
proof -
  have "py_strip (reply_text k ''participant'') \<noteq> []" by (simp add: assms(2) sample_sizes)
  then have "yields (run_participant (sample_denv b) sample_session k a prev cur cand) (sample_vote k a)"
    unfolding run_participant_def
    by (rule yields_bind [OF yields_repair]) (simp add: assms(1), (rule sample_rules)+)
  then have "yields (act_bind (in_worker (sample_denv b) sample_session (run_participant (sample_denv b) sample_session k a prev cur cand))
      (note_failure (sample_denv b))) (Inr (sample_vote k a))"
    by (rule yields_bind [OF yields_worker]) (simp add: note_failure_def yields_return)
  then show ?thesis unfolding hear_participant_def using assms(3)
    by (intro yields_then [OF sample_steps(2)] yields_then [OF sample_steps(10)] yields_then [OF sample_steps(5)]
        yields_finally [OF _ sample_steps(6)])
qed

lemma yields_round:
  assumes "\<And>a. read_contribution sample_dpy ''d1'' k a cand (reply_text k ''participant'') = Inr (sample_vote k a)"
    "py_strip (reply_text k ''participant'') = reply_text k ''participant''" "0 < until"
  shows "yields (hold_round (sample_denv b) sample_session until k prev cand) [sample_vote k ''a'', sample_vote k ''b'']"
proof -
  have "yields (run_round (sample_denv b) sample_session k prev cand until) ([sample_vote k ''a'', sample_vote k ''b''], [])"
    unfolding run_round_def sample_fields hear_participants.simps
    by (rule sample_rules yields_hear assms | simp add: assms)+
  note run = this
  show ?thesis unfolding hold_round_def sample_fields act_each.simps
    by (rule sample_rules run | simp add: assms)+
qed

lemma yields_synthesis:
  "0 < until \<Longrightarrow> yields (make_synthesis (sample_denv b) sample_session until 1 cs None) sample_candidate"
proof -
  assume until: "0 < until"
  have "py_strip (reply_text 1 ''synthesis'') \<noteq> []" by (simp add: sample_strips sample_sizes)
  note worker = yields_worker [OF yields_repair [where f = "read_synthesis sample_dpy sample_session 1", OF this sample_reads(3)]]
  show ?thesis unfolding make_synthesis_def run_synthesis_def add_synthesis_def sample_fields
    by (rule sample_rules worker | simp add: until)+
qed

lemma sample_consensus: "has_consensus [sample_vote 2 ''a'', sample_vote 2 ''b''] 2"
  by (simp add: has_consensus_def sample_vote_def)

lemma sample_final [simp]:
  "sy_debate_id (finalize_candidate py sample_candidate cs k c) = ''d1''"
  "sy_work_items (finalize_candidate py sample_candidate cs k c) = []"
  by (simp_all add: finalize_candidate_def Let_def)

text \<open>The two agents agree in round two; then the final message is persisted, or that raises.\<close>

lemma sample_finish:
  "yields (finish_converged (sample_denv False) sample_session 2 (finalize_candidate py sample_candidate cs 2 True)) ()"
  "has_debate ''d1'' (tables s) \<Longrightarrow> \<exists>s'.
     finish_converged (sample_denv True) sample_session 2 (finalize_candidate py sample_candidate cs 2 True) s =
       (Inl (Failure ''disk full''), s') \<and> has_status ''d1'' DB_CONVERGED (tables s')"
proof -
  have p: "yields (persist_final (sample_denv False) a x st) ()" for a x st
    by (simp add: yields_def persist_final_def act_when_def d_show_def sample_denv_def)
  show "yields (finish_converged (sample_denv False) sample_session 2 (finalize_candidate py sample_candidate cs 2 True)) ()"
    unfolding finish_converged_def add_synthesis_def sample_fields by (rule sample_rules p | simp)+
  assume "has_debate ''d1'' (tables s)"
  moreover have "yields (add_synthesis (sample_denv True) (finalize_candidate py sample_candidate cs 2 True)) ()"
    unfolding add_synthesis_def by (rule sample_rules | simp)+
  ultimately obtain s1 where s1: "add_synthesis (sample_denv True) (finalize_candidate py sample_candidate cs 2 True) s = (Inr (), s1)"
    "has_debate ''d1'' (tables s1)" by (auto simp: yields_def)
  with yields_status obtain s2 where s2: "put_status (sample_denv True) ''d1'' DB_CONVERGED (Some 2) None
      (Some (finalize_candidate py sample_candidate cs 2 True)) s1 = (Inr (), s2)" by (fastforce simp: yields_def)
  show "\<exists>s'. finish_converged (sample_denv True) sample_session 2 (finalize_candidate py sample_candidate cs 2 True) s =
       (Inl (Failure ''disk full''), s') \<and> has_status ''d1'' DB_CONVERGED (tables s')"
    using set_status_Inr [OF s2]
    by (simp add: finish_converged_def act_then_def act_bind_def s1 s2 render_agent_def persist_final_def act_when_def
        d_show_def) (simp add: sample_denv_def act_return_def)
qed

lemma yieldsE: "yields m x \<Longrightarrow> has_debate ''d1'' (tables s) \<Longrightarrow> (\<And>s'. m s = (Inr x, s') \<Longrightarrow> has_debate ''d1'' (tables s') \<Longrightarrow> thesis) \<Longrightarrow> thesis"
  unfolding yields_def by blast

lemma sample_run:
  assumes "has_debate ''d1'' (tables s)"
  shows "\<exists>s'. has_debate ''d1'' (tables s') \<and> run_session (sample_denv b) sample_session s =
    finish_converged (sample_denv b) sample_session 2
      (finalize_candidate sample_dpy sample_candidate [sample_vote 2 ''a'', sample_vote 2 ''b''] 2 True) s'"
proof -
  have r1: "yields (hold_round (sample_denv b) sample_session 900 1 [] None) [sample_vote 1 ''a'', sample_vote 1 ''b'']"
    by (rule yields_round [OF sample_reads(1) sample_strips(1)]) simp
  have r2: "yields (hold_round (sample_denv b) sample_session 900 2 prev (Some sample_candidate)) [sample_vote 2 ''a'', sample_vote 2 ''b'']" for prev
    by (rule yields_round [OF sample_reads(2) sample_strips(2)]) simp
  have sy: "yields (make_synthesis (sample_denv b) sample_session 900 1 cs None) sample_candidate" for cs
    by (rule yields_synthesis) simp
  obtain s1 where s1: "put_status (sample_denv b) ''d1'' DB_RUNNING (Some 0) None None s = (Inr (), s1)" "has_debate ''d1'' (tables s1)"
    using yields_status assms by (rule yieldsE)
  obtain s2 where s2: "d_ask (dv_clock (sample_denv b)) s1 = (Inr 0, s2)" "has_debate ''d1'' (tables s2)"
    using yields_env(7) s1(2) by (rule yieldsE)
  obtain s3 where s3: "hold_round (sample_denv b) sample_session 900 1 [] None s2 = (Inr [sample_vote 1 ''a'', sample_vote 1 ''b''], s3)"
    "has_debate ''d1'' (tables s3)"
    using r1 s2(2) by (rule yieldsE)
  obtain s4 where s4: "make_synthesis (sample_denv b) sample_session 900 1 [sample_vote 1 ''a'', sample_vote 1 ''b''] None s3 = (Inr sample_candidate, s4)"
    "has_debate ''d1'' (tables s4)"
    using sy s3(2) by (rule yieldsE)
  obtain s5 where s5: "render_agent (sample_denv b) ''a'' (render_synthesis sample_dpy False None sample_candidate) s4 = (Inr (), s5)"
    "has_debate ''d1'' (tables s5)"
    using yields_env(3) s4(2) by (rule yieldsE)
  obtain s6 where s6: "hold_round (sample_denv b) sample_session 900 2 [sample_vote 1 ''a'', sample_vote 1 ''b''] (Some sample_candidate) s5 =
      (Inr [sample_vote 2 ''a'', sample_vote 2 ''b''], s6)" "has_debate ''d1'' (tables s6)"
    using r2 s5(2) by (rule yieldsE)
  have two: "run_rounds env session until 2 = run_rounds env session until (Suc (Suc 0))" for env session until
    by (simp only: numeral_2_eq_2)
  show ?thesis
    by (rule exI [of _ s6]) (simp add: run_session_def act_then_def act_bind_def s1 s2 two s3 s4 s5 s6 sample_consensus)
qed

lemma sample_exists: "has_debate ''d1'' (tables sample_dstate)"
  by (simp add: has_debate_def debate_at_def sample_dstate_def new_debate_row_def)

lemma sample_agrees: "\<exists>s'. run_session (sample_denv False) sample_session sample_dstate = (Inr (), s')"
  using sample_run [OF sample_exists, of False] sample_finish(1) by (metis yieldsE)

lemma sample_breaks: "\<exists>s'. run_session (sample_denv True) sample_session sample_dstate = (Inl (Failure ''disk full''), s') \<and>
    has_status ''d1'' DB_CONVERGED (tables s')"
  using sample_run [OF sample_exists, of True] sample_finish(2) by metis

section \<open>Properties\<close>

text \<open>
  C9. Every debate ends. Whatever the agents answer or fail to, whenever the user cancels, whatever the
  callbacks raise and the other instances do short of deleting the row: once started, the debate is
  left in a terminal status, it is no longer the active one, and the status tells how the run ended
  (by itself: converged or exhausted; by the user: cancelled; by an exception: failed).
\<close>

theorem every_debate_ends:
  assumes "others_keep env (se_id session)" "has_debate (se_id session) (tables s)" "1 \<le> dl_max_rounds (se_limits session)"
  shows "outcome_ok (se_id session) (fst (run_session env session s)) (tables (snd (run_session_guarded env session s))) \<and>
    active (snd (run_session_guarded env session s)) \<noteq> Some (se_id session)"
  using outcome [OF assms] by (metis prod.collapse)

lemma sample_keeps: "others_keep (sample_denv b) did" "others_leave (sample_denv b) did"
  by (simp_all add: others_keep_def others_leave_def sample_denv_def)

theorem every_debate_ends_witness:
  "has_status ''d1'' DB_FAILED (tables (snd (run_session_guarded (sample_denv True) sample_session sample_dstate)))"
  using every_debate_ends [OF sample_keeps(1) [of True], of sample_session sample_dstate] sample_exists sample_breaks
  by (auto simp: outcome_ok_def)

text \<open>
  C12. The calls of a debate are bounded: at most two for each participant and two for the synthesis in
  each round, the repairs included.
\<close>

theorem debate_calls_bounded:
  "length (calls (snd (run_session_guarded env session s))) \<le>
     length (calls s) + nat (dl_max_rounds (se_limits session)) * (2 * length (se_participants session) + 2)"
  using asks_guarded [of session env] by (simp add: grows_def asked_def most_calls_def)



text \<open>
  C24. A late exception overwrites the result: if an exception other than the cancellation leaves the rounds of
  a debate that is already stored as converged (raised when the final message is shown or persisted), and the
  other programs leave its row alone, the handler around the rounds turns its status into failed, because
  \<open>set_status\<close> does not look at the status that is there, and keeps the stored result. The plan of such a
  debate can no longer be applied.
\<close>

theorem late_exception_overwrites:
  assumes "others_leave env (se_id session)" "run_session env session s = (Inl e, s1)" "e \<noteq> DebateCancelled"
    "has_status (se_id session) DB_CONVERGED (tables s1)"
  shows "has_status (se_id session) DB_FAILED (tables (snd (run_session_guarded env session s))) \<and>
    map_option de_result_json (debate_at (tables (snd (run_session_guarded env session s))) (se_id session)) =
      map_option de_result_json (debate_at (tables s1) (se_id session))"
proof -
  have keep: "others_keep env (se_id session)" using assms(1) by (simp add: others_leave_def others_keep_def has_debate_def)
  obtain s2 where s2: "put_status env (se_id session) DB_FAILED None (Some (exc_text e)) None s1 = (Inr (), s2)"
    "has_status (se_id session) DB_FAILED (tables s2)"
    using set_status_done [OF keep] has_status_debate assms(4) by blast
  then obtain n now where t: "set_debate_status (dv_py env) now (se_id session) DB_FAILED None (Some (exc_text e)) None
      (dv_others env n (tables s1)) = Inr (tables s2)" by (auto simp: put_status_def commit_Inr)
  have "map_option de_result_json (debate_at (tables s2) (se_id session)) = map_option de_result_json (debate_at (tables s1) (se_id session))"
    using t assms(1) by (auto simp: set_debate_status_Inr debate_at_update has_debate_def others_leave_def status_update_def)
  moreover have "tables (snd (run_session_guarded env session s)) = tables s2"
    unfolding run_session_guarded_def finally_clear
    by (simp add: act_try_def assms(2,3) act_then_def act_bind_def s2(1))
      (auto dest: lines_tables(3) split: prod.splits)
  ultimately show ?thesis using s2(2) by simp
qed

theorem late_exception_overwrites_witness:
  "has_status ''d1'' DB_FAILED (tables (snd (run_session_guarded (sample_denv True) sample_session sample_dstate)))"
proof -
  obtain s1 where "run_session (sample_denv True) sample_session sample_dstate = (Inl (Failure ''disk full''), s1)"
    "has_status ''d1'' DB_CONVERGED (tables s1)" using sample_breaks by blast
  from late_exception_overwrites [OF sample_keeps(2) this(1)] this(2) show ?thesis by simp
qed

end
