(* ===== verification/Debate_Application.thy ===== *)
theory Debate_Application
  imports Debate_Service Debate_Outcomes Task_Dependencies Task_Guarantees
begin

text \<open>
  Applying the plan of a debate can be repeated: whatever the first application found or created, a
  second one finds the same tasks and changes neither tasks nor dependencies.
\<close>

definition quiet :: "ServiceEnv \<Rightarrow> bool" where
  "quiet env \<longleftrightarrow> (\<forall>n p. ev_others env n p = p)"

lemma meanwhile_quiet: "quiet env \<Longrightarrow> meanwhile env s = s\<lparr>sv_tick := Suc (sv_tick s)\<rparr>"
  by (simp add: meanwhile_def quiet_def)

section \<open>The task of a work item\<close>

text \<open>What a reader finds for a key: the link, or else the task of its source.\<close>

definition key_source :: "pystr \<Rightarrow> pystr \<Rightarrow> pystr" where
  "key_source did key = ''debate:'' @ did @ '':work-item:'' @ key"

definition source_task :: "Store \<Rightarrow> pystr \<Rightarrow> int option" where
  "source_task d source = map_option t_id (find (\<lambda>r. t_source_context r = Some source) (tasks d))"

definition lookup_task :: "pystr \<Rightarrow> ServiceState \<Rightarrow> pystr \<Rightarrow> int option" where
  "lookup_task did s key = (case map_of (task_links did (sv_tables s)) key of
     Some x \<Rightarrow> Some x | None \<Rightarrow> source_task (sv_store s) (key_source did key))"

lemma item_source_key: "item_source did i = key_source did (wi_id i)"
  by (simp add: item_source_def key_source_def)

lemma key_source_inject [simp]: "key_source did a = key_source did b \<longleftrightarrow> a = b"
  by (simp add: key_source_def)

lemma strip_nonempty: "\<not> py_isspace c \<Longrightarrow> py_strip (c # cs) \<noteq> []"
proof -
  assume c: "\<not> py_isspace c"
  then have "dropWhile py_isspace (rev (c # cs)) \<noteq> []" by simp
  with c show ?thesis by (simp add: py_strip_def py_lstrip_def py_rstrip_def)
qed

lemma key_source_text: "py_strip (key_source did key) \<noteq> []"
  by (simp add: key_source_def strip_nonempty py_isspace_def)

lemma tasks_by_id: "x \<in> set (list_tasks [ById (Some i)] d) \<longleftrightarrow> x \<in> set (tasks d) \<and> t_id x = i"
  by (auto simp: list_tasks_def sql_eq_def)

lemma find_source_task:
  assumes "py_strip source \<noteq> []"
  shows "map_option t_id (find_task_by_source_context (Some source) d) = source_task d source"
proof (cases "find (\<lambda>r. t_source_context r = Some source) (tasks d)")
  case (Some r)
  then have r: "r \<in> set (tasks d)" by (auto dest: find_SomeD)
  obtain x xs where x: "list_tasks [ById (Some (t_id r))] d = x # xs"
    using r tasks_by_id [of r "t_id r" d] by (cases "list_tasks [ById (Some (t_id r))] d") auto
  then have "t_id x = t_id r" using tasks_by_id [of x "t_id r" d] by simp
  with x show ?thesis using assms by (simp add: find_task_by_source_context_def source_task_def Some)
qed (use assms in \<open>simp add: find_task_by_source_context_def source_task_def\<close>)

lemmas find_source = find_source_task [OF key_source_text]

lemma source_task_exists: "source_task d x = Some tid \<Longrightarrow> task_at d tid \<noteq> None"
  by (auto simp: source_task_def task_at_def find_None_iff_ball dest!: find_SomeD)

section \<open>One work item\<close>

lemma quiet_steps:
  assumes "quiet env"
  shows "sv_task_query env f s = (Inr (f (sv_store s)), s\<lparr>sv_tick := Suc (sv_tick s)\<rparr>)"
    "sv_query env g s = (g (sv_tables s), s\<lparr>sv_tick := Suc (sv_tick s)\<rparr>)"
    "sv_commit env h s = (case h (ev_now env (sv_tick s)) (sv_store s) (sv_tables s) of
        Inl e \<Rightarrow> (Inl e, s\<lparr>sv_tick := Suc (sv_tick s)\<rparr>) | Inr t \<Rightarrow> (Inr (), s\<lparr>sv_tick := Suc (sv_tick s), sv_tables := t\<rparr>))"
    "sv_task_commit env k s = (case k (ev_now env (sv_tick s)) (sv_store s) of
        Inl e \<Rightarrow> (Inl e, s\<lparr>sv_tick := Suc (sv_tick s)\<rparr>) | Inr (x, d) \<Rightarrow> (Inr x, s\<lparr>sv_tick := Suc (sv_tick s), sv_store := d\<rparr>))"
  using assms by (simp_all add: sv_task_query_def sv_query_def sv_commit_def sv_task_commit_def meanwhile_quiet Let_def
      split: sum.splits prod.splits)

lemma create_debate_task_Inr:
  assumes "create_debate_task now job n d = Inr (tid, d')"
  shows "deps d' = deps d \<and> (\<exists>row. tasks d' = tasks d @ [row] \<and> t_id row = tid \<and> t_source_context row = n_source_context n)"
  using assms
  by (auto simp: create_debate_task_def from_store_def create_task_def insert_task_def publish_event_def Let_def
      new_task_row_def bind_res_Inr split: if_splits sum.splits)

lemma source_task_append:
  "tasks d' = tasks d @ [row] \<Longrightarrow> source_task d' x = (case source_task d x of Some y \<Rightarrow> Some y
     | None \<Rightarrow> if t_source_context row = Some x then Some (t_id row) else None)"
proof -
  have "find p (xs @ [row]) = (case find p xs of Some y \<Rightarrow> Some y | None \<Rightarrow> if p row then Some row else None)" for p xs
    by (induction xs) auto
  then show "tasks d' = tasks d @ [row] \<Longrightarrow> ?thesis" by (simp add: source_task_def split: option.split)
qed

text \<open>
  The task of an item: the one of its source, or a new one when there is none. Other sources keep
  theirs, and the dependencies are untouched.
\<close>

lemma task_of_item_finds:
  assumes "quiet env" "source_task (sv_store s) (item_source did item) = Some tid"
  shows "task_of_item env did agents item s = (Inr (tid, False), s\<lparr>sv_tick := Suc (sv_tick s)\<rparr>)"
proof -
  from assms(2) obtain r where "find_task_by_source_context (Some (item_source did item)) (sv_store s) = Some r" "t_id r = tid"
    using find_source [of did "wi_id item" "sv_store s"] by (auto simp: item_source_key)
  then show ?thesis by (simp add: task_of_item_def Let_def act_bind_def quiet_steps [OF assms(1)])
qed

lemma task_of_item_result:
  assumes quiet: "quiet env" and run: "task_of_item env did agents item s = (Inr (tid, created), s')"
  shows "sv_tables s' = sv_tables s \<and> sv_lines s' = sv_lines s \<and> deps (sv_store s') = deps (sv_store s) \<and>
     source_task (sv_store s') (item_source did item) = Some tid \<and>
     (\<forall>x. x \<noteq> item_source did item \<longrightarrow> source_task (sv_store s') x = source_task (sv_store s) x) \<and>
     (\<forall>x. task_at (sv_store s) x \<noteq> None \<longrightarrow> task_at (sv_store s') x \<noteq> None)"
proof (cases "source_task (sv_store s) (item_source did item)")
  case (Some y)
  with task_of_item_finds [OF quiet Some] run show ?thesis by auto
next
  case None
  then have none: "find_task_by_source_context (Some (item_source did item)) (sv_store s) = None"
    using find_source [of did "wi_id item" "sv_store s"] by (simp add: item_source_key)
  let ?s1 = "s\<lparr>sv_tick := Suc (sv_tick s)\<rparr>"
  have "create_debate_task (ev_now env (sv_tick ?s1)) (ev_job env) (item_task did agents item) (sv_store s) = Inr (tid, sv_store s') \<and>
      sv_tables s' = sv_tables s \<and> sv_lines s' = sv_lines s"
    using run none
    by (cases "create_debate_task (ev_now env (sv_tick ?s1)) (ev_job env) (item_task did agents item) (sv_store s)")
      (auto simp: task_of_item_def Let_def act_bind_def act_try_def quiet_steps [OF quiet] none is_integrity_def
        split: prod.splits if_splits debate_error.splits)
  then obtain row where "deps (sv_store s') = deps (sv_store s)" "tasks (sv_store s') = tasks (sv_store s) @ [row]"
    "t_id row = tid" "t_source_context row = Some (item_source did item)" "sv_tables s' = sv_tables s" "sv_lines s' = sv_lines s"
    by (auto simp: item_task_def dest!: create_debate_task_Inr)
  then show ?thesis using None source_task_append [of "sv_store s'" "sv_store s" row]
    by (auto simp: task_at_def find_None_iff_ball split: option.splits)
qed

section \<open>All items\<close>

text \<open>
  What holds between the links in memory and the database while the items are linked: a stored link
  is in memory, and what is in memory is what a reader finds.
\<close>

definition links_agree :: "pystr \<Rightarrow> (pystr \<times> int) list \<Rightarrow> ServiceState \<Rightarrow> bool" where
  "links_agree did linked s \<longleftrightarrow>
     (\<forall>key x. map_of (task_links did (sv_tables s)) key = Some x \<longrightarrow> map_of linked key = Some x) \<and>
     (\<forall>key x. map_of linked key = Some x \<longrightarrow> lookup_task did s key = Some x)"

lemma links_agree_start: "links_agree did (task_links did (sv_tables s)) s"
  by (simp add: links_agree_def lookup_task_def)

lemma map_of_append_single: "map_of (xs @ [(k, v)]) x = (case map_of xs x of Some y \<Rightarrow> Some y | None \<Rightarrow> if x = k then Some v else None)"
  by (auto simp: map_add_def split: option.split)

lemma link_task_links:
  assumes "link_task now did key tid ex t = Inr t'" "map_of (task_links did t) key = None"
  shows "t' = t\<lparr>task_link_rows := task_link_rows t'\<rparr> \<and> (map_of (task_links did t') = map_of (task_links did t) \<or>
     map_of (task_links did t') = (map_of (task_links did t))(key \<mapsto> tid))"
proof (cases "list_ex (\<lambda>l. (tl_debate l = did \<and> tl_item l = key) \<or> tl_task l = tid) (task_link_rows t)")
  case False
  with assms(1) have t': "t' = t\<lparr>task_link_rows := task_link_rows t @
        [\<lparr>tl_debate = did, tl_item = key, tl_task = tid, tl_created_at = now\<rparr>]\<rparr>"
    by (auto simp: link_task_def split: if_splits)
  then have "task_links did t' = task_links did t @ [(key, tid)]" by (simp add: task_links_def)
  then have "map_of (task_links did t') = (map_of (task_links did t))(key \<mapsto> tid)"
    using assms(2) by (auto simp: map_of_append_single fun_eq_iff simp del: map_of_append split: option.split)
  with t' show ?thesis by simp
qed (use assms in \<open>simp add: link_task_def\<close>)

lemma link_item_agrees:
  assumes quiet: "quiet env" and agree: "links_agree did linked s" and new: "map_of linked (wi_id item) = None"
    and task: "task_of_item env did agents item s = (Inr (tid, created), s1)"
    and link: "sv_commit env (\<lambda>now d t. link_task now did (wi_id item) tid (\<lambda>x. task_at d x \<noteq> None) t) s1 = (Inr u, s2)"
  shows "links_agree did (AList.update (wi_id item) tid linked) s2 \<and> deps (sv_store s2) = deps (sv_store s) \<and>
     (\<forall>x. task_at (sv_store s) x \<noteq> None \<longrightarrow> task_at (sv_store s2) x \<noteq> None) \<and>
     sv_tables s2 = (sv_tables s)\<lparr>task_link_rows := task_link_rows (sv_tables s2)\<rparr> \<and> sv_lines s2 = sv_lines s \<and>
     map_of (task_links did (sv_tables s)) \<subseteq>\<^sub>m map_of (task_links did (sv_tables s2)) \<and>
     (\<forall>key. lookup_task did s2 key = (if key = wi_id item then Some tid else lookup_task did s key))"
proof -
  note found = task_of_item_result [OF quiet task]
  have none: "map_of (task_links did (sv_tables s)) (wi_id item) = None"
    using agree new by (cases "map_of (task_links did (sv_tables s)) (wi_id item)") (auto simp: links_agree_def)
  obtain t where t: "link_task (ev_now env (sv_tick s1)) did (wi_id item) tid (\<lambda>x. task_at (sv_store s1) x \<noteq> None) (sv_tables s) = Inr t"
    and s2: "s2 = s1\<lparr>sv_tick := Suc (sv_tick s1), sv_tables := t\<rparr>"
    using link found by (auto simp: quiet_steps [OF quiet] split: sum.splits)
  note rows = link_task_links [OF t none]
  have reader: "lookup_task did s2 key = (if key = wi_id item then Some tid else lookup_task did s key)" for key
    using rows found none by (auto simp: lookup_task_def s2 item_source_key split: option.split)
  have "links_agree did (AList.update (wi_id item) tid linked) s2"
    using agree rows reader none unfolding links_agree_def update_conv' by (auto simp: s2)
  moreover have "map_of (task_links did (sv_tables s)) \<subseteq>\<^sub>m map_of (task_links did (sv_tables s2))"
    using rows none by (auto simp: s2 map_le_def)
  ultimately show ?thesis using found rows reader by (auto simp: s2)
qed

lemma link_items_agree:
  assumes quiet: "quiet env"
  shows "link_items env did agents items linked ch s = (Inr (linked', ch'), s') \<Longrightarrow> links_agree did linked s \<Longrightarrow>
    links_agree did linked' s' \<and> deps (sv_store s') = deps (sv_store s) \<and>
    (\<forall>x. task_at (sv_store s) x \<noteq> None \<longrightarrow> task_at (sv_store s') x \<noteq> None) \<and>
    sv_tables s' = (sv_tables s)\<lparr>task_link_rows := task_link_rows (sv_tables s')\<rparr> \<and> sv_lines s' = sv_lines s \<and>
    map_of (task_links did (sv_tables s)) \<subseteq>\<^sub>m map_of (task_links did (sv_tables s')) \<and>
    map_of linked \<subseteq>\<^sub>m map_of linked' \<and> dom (map_of linked') = dom (map_of linked) \<union> wi_id ` set items"
proof (induction items arbitrary: linked ch s)
  case (Cons item items)
  show ?case
  proof (cases "map_of linked (wi_id item)")
    case (Some tid)
    with Cons.prems have run: "link_items env did agents items linked ch s = (Inr (linked', ch'), s')" by simp
    from Cons.IH [OF run Cons.prems(2)] Some show ?thesis by (simp add: insert_absorb domI)
  next
    case None
    from Cons.prems(1) obtain tid created s1 u s2 where task: "task_of_item env did agents item s = (Inr (tid, created), s1)"
      and link: "sv_commit env (\<lambda>now d t. link_task now did (wi_id item) tid (\<lambda>x. task_at d x \<noteq> None) t) s1 = (Inr u, s2)"
      and rest: "link_items env did agents items (AList.update (wi_id item) tid linked) (ch \<or> created) s2 = (Inr (linked', ch'), s')"
      by (auto simp: None act_bind_Inr act_then_Inr)
    note one = link_item_agrees [OF quiet Cons.prems(2) None task link]
    have "map_of linked \<subseteq>\<^sub>m map_of (AList.update (wi_id item) tid linked)" "map_of (AList.update (wi_id item) tid linked) (wi_id item) = Some tid"
      using None by (auto simp: map_le_def update_conv')
    note more = Cons.IH [OF rest conjunct1 [OF one]]
    have "map_of linked \<subseteq>\<^sub>m map_of linked'"
      using more \<open>map_of linked \<subseteq>\<^sub>m _\<close> map_le_trans by blast
    moreover have "dom (map_of (AList.update (wi_id item) tid linked)) = insert (wi_id item) (dom (map_of linked))"
      by (auto simp: update_conv')
    moreover have "map_of (task_links did (sv_tables s)) \<subseteq>\<^sub>m map_of (task_links did (sv_tables s'))"
      using more one map_le_trans by blast
    moreover have "sv_tables s' = (sv_tables s)\<lparr>task_link_rows := task_link_rows (sv_tables s')\<rparr>"
      using more one by (metis DebateTables.update_convs(5) DebateTables.surjective)
    ultimately show ?thesis using more one by simp
  qed
qed (auto simp: map_le_def)

section \<open>The order of the tasks\<close>

definition ordered :: "(pystr \<times> int) list \<Rightarrow> (int \<times> int) set \<Rightarrow> int \<Rightarrow> pystr list \<Rightarrow> bool" where
  "ordered linked E tid ds \<longleftrightarrow> (\<forall>d \<in> set ds. \<exists>x. map_of linked d = Some x \<and> (tid, x) \<in> E)"

definition all_ordered :: "(pystr \<times> int) list \<Rightarrow> (int \<times> int) set \<Rightarrow> WorkItem list \<Rightarrow> bool" where
  "all_ordered linked E items \<longleftrightarrow>
     (\<forall>i \<in> set items. \<exists>tid. map_of linked (wi_id i) = Some tid \<and> ordered linked E tid (wi_dependencies i))"

lemma ordered_mono: "ordered linked E tid ds \<Longrightarrow> E \<subseteq> F \<Longrightarrow> ordered linked F tid ds"
  unfolding ordered_def by blast

lemma all_ordered_mono: "all_ordered linked E items \<Longrightarrow> E \<subseteq> F \<Longrightarrow> all_ordered linked F items"
  unfolding all_ordered_def using ordered_mono by blast

lemma task_commit_Inr: "quiet env \<Longrightarrow> sv_task_commit env k s = (Inr x, s') \<longleftrightarrow>
    (\<exists>d. k (ev_now env (sv_tick s)) (sv_store s) = Inr (x, d) \<and> s' = s\<lparr>sv_tick := Suc (sv_tick s), sv_store := d\<rparr>)"
  by (auto simp: quiet_steps split: sum.splits)

lemma commit_Inr_quiet: "quiet env \<Longrightarrow> sv_commit env h s = (Inr u, s') \<longleftrightarrow>
    (\<exists>t. h (ev_now env (sv_tick s)) (sv_store s) (sv_tables s) = Inr t \<and> s' = s\<lparr>sv_tick := Suc (sv_tick s), sv_tables := t\<rparr>)"
  by (auto simp: quiet_steps split: sum.splits)

definition only_edges :: "ServiceState \<Rightarrow> ServiceState \<Rightarrow> bool" where
  "only_edges s s' \<longleftrightarrow> deps_ok (sv_store s') \<and> tasks (sv_store s') = tasks (sv_store s) \<and> sv_tables s' = sv_tables s \<and>
     sv_lines s' = sv_lines s \<and> edge_set (sv_store s) \<subseteq> edge_set (sv_store s')"

lemma link_of_Inr: "link_of linked key s = (Inr x, s') \<longleftrightarrow> map_of linked key = Some x \<and> s' = s"
  by (auto simp: link_of_def split: option.splits)

lemma from_store_Inr [simp]: "from_store r = Inr x \<longleftrightarrow> r = Inr x"
  by (auto simp: from_store_def split: sum.splits)

lemma add_dependencies_result:
  assumes quiet: "quiet env"
  shows "add_dependencies env linked tid ds ch s = (Inr ch', s') \<Longrightarrow> deps_ok (sv_store s) \<Longrightarrow>
    only_edges s s' \<and> ordered linked (edge_set (sv_store s')) tid ds"
proof (induction ds arbitrary: ch s)
  case (Cons d ds)
  then obtain dep added E where d: "map_of linked d = Some dep"
    and ins: "insert_task_dependency (ev_now env (sv_tick s)) tid dep (sv_store s) = Inr (added, E)"
    and rest: "add_dependencies env linked tid ds (added \<or> ch) (s\<lparr>sv_tick := Suc (sv_tick s), sv_store := E\<rparr>) = (Inr ch', s')"
    by (auto simp: act_bind_Inr link_of_Inr task_commit_Inr [OF quiet] add_task_dependency_def)
  note one = insert_dependency_ok [OF Cons.prems(2) ins] insert_dependency_effect [OF ins]
  from Cons.IH [OF rest] one d show ?case by (auto simp: only_edges_def ordered_def)
qed (simp add: only_edges_def ordered_def)

lemma order_items_result:
  assumes quiet: "quiet env"
  shows "order_items env linked items ch s = (Inr ch', s') \<Longrightarrow> deps_ok (sv_store s) \<Longrightarrow>
    only_edges s s' \<and> all_ordered linked (edge_set (sv_store s')) items"
proof (induction items arbitrary: ch s)
  case (Cons i items)
  then obtain tid c s1 where tid: "map_of linked (wi_id i) = Some tid"
    and one: "add_dependencies env linked tid (wi_dependencies i) ch s = (Inr c, s1)"
    and rest: "order_items env linked items c s1 = (Inr ch', s')"
    by (auto simp: act_bind_Inr link_of_Inr)
  note first = add_dependencies_result [OF quiet one Cons.prems(2)]
  then have "deps_ok (sv_store s1)" by (simp add: only_edges_def)
  note more = Cons.IH [OF rest this]
  have "ordered linked (edge_set (sv_store s')) tid (wi_dependencies i)"
    using first more ordered_mono by (auto simp: only_edges_def)
  with first more tid show ?case by (auto simp: only_edges_def all_ordered_def)
qed (simp add: only_edges_def all_ordered_def)

text \<open>The same edges a second time change nothing.\<close>

lemma insert_again:
  assumes "deps_ok s" "(t, d) \<in> edge_set s"
  shows "insert_task_dependency now t d s = Inr (False, s)"
proof -
  have "\<exists>res. insert_task_dependency now t d s = Inr res"
    using assms insert_dependency_cases [OF assms(1), of now t d] by (auto simp: deps_ok_def insert_absorb)
  then obtain b s' where r: "insert_task_dependency now t d s = Inr (b, s')" by auto
  then show ?thesis using insert_dependency_effect(2) [OF r] assms(2)
    by (auto simp: insert_task_dependency_def split: if_splits)
qed

definition same_data :: "ServiceState \<Rightarrow> ServiceState \<Rightarrow> bool" where
  "same_data s s' \<longleftrightarrow> sv_store s' = sv_store s \<and> sv_tables s' = sv_tables s \<and> sv_lines s' = sv_lines s"

lemma add_dependencies_again:
  assumes quiet: "quiet env"
  shows "deps_ok (sv_store s) \<Longrightarrow> ordered linked (edge_set (sv_store s)) tid ds \<Longrightarrow>
    \<exists>s'. add_dependencies env linked tid ds ch s = (Inr ch, s') \<and> same_data s s'"
proof (induction ds arbitrary: s)
  case (Cons d ds)
  from Cons.prems obtain dep where d: "map_of linked d = Some dep" "(tid, dep) \<in> edge_set (sv_store s)"
    and ds: "ordered linked (edge_set (sv_store s)) tid ds" by (auto simp: ordered_def)
  let ?s1 = "s\<lparr>sv_tick := Suc (sv_tick s), sv_store := sv_store s\<rparr>"
  obtain s' where s': "add_dependencies env linked tid ds ch ?s1 = (Inr ch, s')" "same_data ?s1 s'"
    using Cons.IH [of ?s1] Cons.prems(1) ds by auto
  then have "add_dependencies env linked tid (d # ds) ch s = (Inr ch, s')"
    by (simp add: act_bind_def link_of_def d quiet_steps [OF quiet] add_task_dependency_def
        insert_again [OF Cons.prems(1) d(2)] from_store_def)
  with s' show ?case by (auto simp: same_data_def)
qed (simp add: same_data_def)

lemma order_items_again:
  assumes quiet: "quiet env"
  shows "deps_ok (sv_store s) \<Longrightarrow> all_ordered linked (edge_set (sv_store s)) items \<Longrightarrow>
    \<exists>s'. order_items env linked items ch s = (Inr ch, s') \<and> same_data s s'"
proof (induction items arbitrary: s)
  case (Cons i items)
  from Cons.prems(2) obtain tid where tid: "map_of linked (wi_id i) = Some tid"
    "ordered linked (edge_set (sv_store s)) tid (wi_dependencies i)" by (auto simp: all_ordered_def)
  obtain s1 where s1: "add_dependencies env linked tid (wi_dependencies i) ch s = (Inr ch, s1)" "same_data s s1"
    using add_dependencies_again [OF quiet Cons.prems(1) tid(2)] by blast
  obtain s' where "order_items env linked items ch s1 = (Inr ch, s')" "same_data s1 s'"
    using Cons.IH [of s1] Cons.prems s1(2) by (auto simp: same_data_def all_ordered_def)
  with s1 tid show ?case by (auto simp: act_bind_def link_of_def same_data_def)
qed (simp add: same_data_def)

section \<open>The links a second time\<close>

lemma link_items_again:
  assumes quiet: "quiet env"
  shows "links_agree did linked s \<Longrightarrow> debate_at (sv_tables s) did \<noteq> None \<Longrightarrow>
    \<forall>i \<in> set items. lookup_task did s (wi_id i) \<noteq> None \<Longrightarrow>
    \<exists>linked' s'. link_items env did agents items linked ch s = (Inr (linked', ch), s') \<and>
      sv_store s' = sv_store s \<and> sv_tables s' = (sv_tables s)\<lparr>task_link_rows := task_link_rows (sv_tables s')\<rparr> \<and>
      sv_lines s' = sv_lines s \<and> links_agree did linked' s' \<and>
      (\<forall>key x. lookup_task did s key = Some x \<longrightarrow> lookup_task did s' key = Some x) \<and>
      map_of linked \<subseteq>\<^sub>m map_of linked' \<and> wi_id ` set items \<subseteq> dom (map_of linked')"
proof (induction items arbitrary: linked s)
  case (Cons i items)
  show ?case
  proof (cases "map_of linked (wi_id i)")
    case (Some tid)
    with Cons.IH [OF Cons.prems(1,2)] Cons.prems(3) show ?thesis by (fastforce simp: map_le_def dom_def)
  next
    case None
    from Cons.prems(3) obtain x where x: "lookup_task did s (wi_id i) = Some x" by auto
    have none: "map_of (task_links did (sv_tables s)) (wi_id i) = None"
      using Cons.prems(1) None by (cases "map_of (task_links did (sv_tables s)) (wi_id i)") (auto simp: links_agree_def)
    then have source: "source_task (sv_store s) (item_source did i) = Some x" using x by (simp add: lookup_task_def item_source_key)
    note task = task_of_item_finds [OF quiet this, of agents]
    let ?s1 = "s\<lparr>sv_tick := Suc (sv_tick s)\<rparr>"
    obtain t where t: "link_task (ev_now env (sv_tick ?s1)) did (wi_id i) x (\<lambda>y. task_at (sv_store ?s1) y \<noteq> None) (sv_tables ?s1) = Inr t"
      using Cons.prems(2) source_task_exists [OF source]
      by (cases "list_ex (\<lambda>l. (tl_debate l = did \<and> tl_item l = wi_id i) \<or> tl_task l = x) (task_link_rows (sv_tables s))")
        (auto simp: link_task_def)
    let ?s2 = "?s1\<lparr>sv_tick := Suc (sv_tick ?s1), sv_tables := t\<rparr>"
    have link: "sv_commit env (\<lambda>now d t. link_task now did (wi_id i) x (\<lambda>y. task_at d y \<noteq> None) t) ?s1 = (Inr (), ?s2)"
      using t by (simp add: quiet_steps [OF quiet])
    note one = link_item_agrees [OF quiet Cons.prems(1) None task link]
    have keys: "lookup_task did ?s2 key = lookup_task did s key" for key using one x by simp
    have debate: "debate_at (sv_tables ?s2) did \<noteq> None"
    proof -
      have "sv_tables ?s2 = (sv_tables s)\<lparr>task_link_rows := task_link_rows (sv_tables ?s2)\<rparr>" using one by blast
      then have "debate_at (sv_tables ?s2) did = debate_at (sv_tables s) did" by (metis debate_at_other(4))
      with Cons.prems(2) show ?thesis by simp
    qed
    have later: "\<forall>j \<in> set items. lookup_task did ?s2 (wi_id j) \<noteq> None"
      using Cons.prems(3) unfolding keys by simp
    obtain linked' s' where rest: "link_items env did agents items (AList.update (wi_id i) x linked) ch ?s2 = (Inr (linked', ch), s')"
      and more: "sv_store s' = sv_store ?s2" "sv_tables s' = (sv_tables ?s2)\<lparr>task_link_rows := task_link_rows (sv_tables s')\<rparr>"
      "sv_lines s' = sv_lines ?s2" "links_agree did linked' s'"
      "\<forall>key x. lookup_task did ?s2 key = Some x \<longrightarrow> lookup_task did s' key = Some x"
      "map_of (AList.update (wi_id i) x linked) \<subseteq>\<^sub>m map_of linked'" "wi_id ` set items \<subseteq> dom (map_of linked')"
      using Cons.IH [OF conjunct1 [OF one] debate later] by blast
    have "link_items env did agents (i # items) linked ch s = (Inr (linked', ch), s')"
      using rest by (simp add: None act_bind_def act_then_def task link del: not_None_eq)
    moreover have "map_of linked \<subseteq>\<^sub>m map_of linked'" "wi_id i \<in> dom (map_of linked')"
      using more(6) None by (auto simp: map_le_def update_conv' dom_def split: if_splits)
    moreover have "sv_tables s' = (sv_tables s)\<lparr>task_link_rows := task_link_rows (sv_tables s')\<rparr>"
      using more(2) one by (metis DebateTables.update_convs(5) DebateTables.surjective)
    ultimately show ?thesis using more keys by (intro exI [of _ linked'] exI [of _ s']) simp
  qed
qed (auto simp: map_le_def)

section \<open>The application\<close>

lemma check_Inr [simp]: "sv_check b e s = (Inr u, s') \<longleftrightarrow> \<not> b \<and> s' = s"
  by (auto simp: sv_check_def)

lemma ask_Inr: "sv_ask f s = (Inr x, s') \<longleftrightarrow> x = f (sv_tick s) \<and> s' = s\<lparr>sv_tick := Suc (sv_tick s)\<rparr>"
  by (auto simp: sv_ask_def)

lemma query_Inr: "quiet env \<Longrightarrow> sv_query env g s = (Inr x, s') \<longleftrightarrow> g (sv_tables s) = Inr x \<and> s' = s\<lparr>sv_tick := Suc (sv_tick s)\<rparr>"
  by (auto simp: quiet_steps)

lemma require_session_Inr: "quiet env \<Longrightarrow> require_session env did s = (Inr x, s') \<longleftrightarrow>
    get_session (ev_py env) (py_strip did) (sv_tables s) = Inr (Some x) \<and> s' = s\<lparr>sv_tick := Suc (sv_tick s)\<rparr>"
  by (auto simp: require_session_def act_bind_Inr query_Inr split: option.splits)

definition can_apply :: "DebateSession \<Rightarrow> bool" where
  "can_apply x \<longleftrightarrow> session_terminal x \<and> se_status x \<notin> {DB_CANCELLED, DB_FAILED} \<and> se_mode x = WORKFLOW"

text \<open>An application that goes well, step by step.\<close>

lemma apply_steps:
  assumes "quiet env"
  shows "apply_debate env did s = (Inr ids, s') \<longleftrightarrow> (\<exists>x items linked created changed sA sB t u sD.
     get_session (ev_py env) (py_strip did) (sv_tables s) = Inr (Some x) \<and> can_apply x \<and>
     get_work_items (ev_py env) did (sv_tables s) = Inr items \<and> items \<noteq> [] \<and>
     link_items env did (normalized_agents (ev_agents env (Suc (Suc (sv_tick s))))) items (task_links did (sv_tables s)) False
       (s\<lparr>sv_tick := Suc (Suc (Suc (Suc (sv_tick s))))\<rparr>) = (Inr (linked, created), sA) \<and>
     order_items env linked items created sA = (Inr changed, sB) \<and>
     mark_applied (ev_now env (sv_tick sB)) did (sv_tables sB) = Inr t \<and>
     act_when changed (sv_line TasksChanged) (sB\<lparr>sv_tick := Suc (sv_tick sB), sv_tables := t\<rparr>) = (Inr u, sD) \<and>
     act_each (\<lambda>item. link_of linked (wi_id item)) items sD = (Inr ids, s'))"
  unfolding apply_debate_def can_apply_def using assms
  by (auto simp: act_bind_Inr act_then_Inr require_session_Inr query_Inr ask_Inr commit_Inr_quiet)

lemma each_link: "act_each (\<lambda>item. link_of linked (wi_id item)) items s = (Inr ids, s') \<longleftrightarrow>
    s' = s \<and> map (\<lambda>i. map_of linked (wi_id i)) items = map Some ids"
  by (induction items arbitrary: ids) (auto simp: act_bind_Inr link_of_Inr map_eq_Cons_conv Cons_eq_map_conv)

lemma notify_Inr: "act_when changed (sv_line TasksChanged) s = (Inr u, s') \<longleftrightarrow>
    s' = (if changed then s\<lparr>sv_lines := sv_lines s @ [TasksChanged]\<rparr> else s)"
  by (auto simp: act_when_def sv_line_def)

lemma session_applied:
  assumes "session_from_row py r = Inr x"
  shows "session_from_row py (r\<lparr>de_applied_at := a, de_updated_at := v\<rparr>) =
     Inr (x\<lparr>se_applied_at := a, se_updated_at := v\<rparr>)"
proof (cases "mode_of (de_mode r)")
  case (Some m)
  show ?thesis
  proof (cases "debate_status_of (de_status r)")
    case status: (Some st)
    from assms show ?thesis
      by (simp add: session_from_row_def Some status bind_res_def split: sum.splits) auto
  qed (use assms in \<open>simp add: session_from_row_def Some bind_res_def split: sum.splits\<close>)
qed (use assms in \<open>simp add: session_from_row_def bind_res_def split: sum.splits\<close>)

lemma mark_applied_session:
  assumes "mark_applied now did t = Inr t'" "get_session py d t = Inr (Some x)" "can_apply x"
  shows "\<exists>x'. get_session py d t' = Inr (Some x') \<and> can_apply x'"
proof -
  have t': "t' = update_debate did (\<lambda>r. r\<lparr>de_applied_at := coalesce (de_applied_at r) (Some now), de_updated_at := now\<rparr>) t"
    using assms(1) by (auto simp: mark_applied_def split: if_splits)
  obtain r where r: "debate_at t d = Some r" "session_from_row py r = Inr x"
    using assms(2) by (auto simp: get_session_def bind_res_Inr split: option.splits)
  show ?thesis
  proof (cases "d = did")
    case True
    then show ?thesis using r assms(3) session_applied [OF r(2)]
      by (auto simp: t' get_session_def debate_at_update can_apply_def session_terminal_def)
  next
    case False
    then show ?thesis using assms(2,3) by (auto simp: t' get_session_def debate_at_update)
  qed
qed

lemma mark_applied_rest:
  assumes "mark_applied now did t = Inr t'"
  shows "item_rows t' = item_rows t \<and> task_link_rows t' = task_link_rows t \<and> debate_at t' did \<noteq> None"
  using assms by (auto simp: mark_applied_def update_debate_def debate_at_update [unfolded update_debate_def] split: if_splits)

lemma mark_applied_again: "debate_at t did \<noteq> None \<Longrightarrow> \<exists>t'. mark_applied now did t = Inr t'"
  by (simp add: mark_applied_def)

lemma deps_ok_more:
  "deps_ok d \<Longrightarrow> deps d' = deps d \<Longrightarrow> (\<And>x. task_at d x \<noteq> None \<Longrightarrow> task_at d' x \<noteq> None) \<Longrightarrow> deps_ok d'"
  by (auto simp: deps_ok_def edge_set_def dep_edges_def)

lemma lookup_same:
  "task_link_rows (sv_tables s') = task_link_rows (sv_tables s) \<Longrightarrow> tasks (sv_store s') = tasks (sv_store s) \<Longrightarrow>
    lookup_task did s' = lookup_task did s"
  by (rule ext) (simp add: lookup_task_def task_links_def source_task_def split: option.split)

lemma apply_again:
  assumes quiet: "quiet env" and ok: "deps_ok (sv_store s)" and first: "apply_debate env did s = (Inr ids, s')"
  shows "\<exists>s''. apply_debate env did s' = (Inr ids, s'') \<and> sv_store s'' = sv_store s' \<and> sv_lines s'' = sv_lines s'"
proof -
  from first obtain x items linked created changed sA sB t u sD s0 agents where
    x: "get_session (ev_py env) (py_strip did) (sv_tables s) = Inr (Some x)" "can_apply x"
    and items: "get_work_items (ev_py env) did (sv_tables s) = Inr items" "items \<noteq> []"
    and s0: "s0 = s\<lparr>sv_tick := Suc (Suc (Suc (Suc (sv_tick s))))\<rparr>"
    and link: "link_items env did agents items (task_links did (sv_tables s0)) False s0 = (Inr (linked, created), sA)"
    and order: "order_items env linked items created sA = (Inr changed, sB)"
    and mark: "mark_applied (ev_now env (sv_tick sB)) did (sv_tables sB) = Inr t"
    and line: "act_when changed (sv_line TasksChanged) (sB\<lparr>sv_tick := Suc (sv_tick sB), sv_tables := t\<rparr>) = (Inr u, sD)"
    and ids: "act_each (\<lambda>item. link_of linked (wi_id item)) items sD = (Inr ids, s')"
    by (auto simp: apply_steps [OF quiet])
  note linked = link_items_agree [OF quiet link links_agree_start]
  have "deps_ok (sv_store sA)" using linked ok by (intro deps_ok_more [OF ok]) (simp_all add: s0)
  note ordered = order_items_result [OF quiet order this, unfolded only_edges_def]
  have s': "sv_store s' = sv_store sB" "sv_tables s' = t" "map (\<lambda>i. map_of linked (wi_id i)) items = map Some ids"
    using ids line by (auto simp: each_link notify_Inr split: if_splits)
  have tB: "sv_tables sB = (sv_tables s)\<lparr>task_link_rows := task_link_rows (sv_tables sA)\<rparr>"
    using linked ordered by (auto simp: s0)
  note marked = mark_applied_rest [OF mark]
  have "get_session (ev_py env) (py_strip did) (sv_tables sB) = Inr (Some x)"
    using x(1) by (simp add: tB get_session_def)
  then obtain x' where x': "get_session (ev_py env) (py_strip did) t = Inr (Some x')" "can_apply x'"
    using mark_applied_session [OF mark _ x(2)] by blast
  have items': "get_work_items (ev_py env) did t = Inr items"
    using items(1) marked by (simp add: get_work_items_def tB)
  let ?s1 = "s'\<lparr>sv_tick := Suc (Suc (Suc (Suc (sv_tick s'))))\<rparr>"
  have look: "lookup_task did ?s1 = lookup_task did sA"
    by (rule lookup_same) (use s' marked ordered in simp_all)
  have found: "\<forall>i \<in> set items. lookup_task did ?s1 (wi_id i) \<noteq> None"
    using linked unfolding look links_agree_def by (auto simp: dom_def) blast
  have "debate_at (sv_tables ?s1) did \<noteq> None" using marked s' by simp
  from link_items_again [OF quiet links_agree_start this found, of "normalized_agents (ev_agents env (Suc (Suc (sv_tick s'))))" False]
  obtain linked2 s2 where link2: "link_items env did (normalized_agents (ev_agents env (Suc (Suc (sv_tick s'))))) items
      (task_links did (sv_tables ?s1)) False ?s1 = (Inr (linked2, False), s2)"
    and s2: "sv_store s2 = sv_store ?s1" "sv_tables s2 = (sv_tables ?s1)\<lparr>task_link_rows := task_link_rows (sv_tables s2)\<rparr>"
      "sv_lines s2 = sv_lines ?s1" "links_agree did linked2 s2"
      "\<forall>key x. lookup_task did ?s1 key = Some x \<longrightarrow> lookup_task did s2 key = Some x"
      "map_of (task_links did (sv_tables ?s1)) \<subseteq>\<^sub>m map_of linked2" "wi_id ` set items \<subseteq> dom (map_of linked2)"
    by blast
  have agree: "links_agree did linked sA" and dom: "dom (map_of linked) = dom (map_of (task_links did (sv_tables s0))) \<union> wi_id ` set items"
    and grows: "map_of (task_links did (sv_tables s0)) \<subseteq>\<^sub>m map_of (task_links did (sv_tables sA))"
    using linked by blast+
  have kept: "map_of (task_links did (sv_tables sA)) \<subseteq>\<^sub>m map_of linked2"
    using s2(6) s' marked ordered by (simp add: task_links_def)
  have same: "map_of linked2 key = Some y" if y: "map_of linked key = Some y" for key y
  proof -
    have "dom (map_of linked) \<subseteq> dom (map_of linked2)"
      unfolding dom using s2(7) map_le_implies_dom_le [OF grows] map_le_implies_dom_le [OF kept] by blast
    then obtain z where z: "map_of linked2 key = Some z" using y by blast
    have "lookup_task did sA key = Some y" using agree y by (simp add: links_agree_def)
    then have "lookup_task did s2 key = Some y" using s2(5) unfolding look by blast
    moreover have "lookup_task did s2 key = Some z" using s2(4) z by (simp add: links_agree_def)
    ultimately show ?thesis using z by simp
  qed
  have edges: "edge_set (sv_store s2) = edge_set (sv_store sB)" using s2(1) s'(1) by simp
  have "all_ordered linked2 (edge_set (sv_store s2)) items"
    unfolding all_ordered_def ordered_def edges
  proof (intro ballI)
    fix i assume "i \<in> set items"
    with ordered obtain tid where "map_of linked (wi_id i) = Some tid"
      "\<forall>d \<in> set (wi_dependencies i). \<exists>x. map_of linked d = Some x \<and> (tid, x) \<in> edge_set (sv_store sB)"
      unfolding all_ordered_def ordered_def by blast
    then show "\<exists>tid. map_of linked2 (wi_id i) = Some tid \<and>
        (\<forall>d \<in> set (wi_dependencies i). \<exists>x. map_of linked2 d = Some x \<and> (tid, x) \<in> edge_set (sv_store sB))"
      using same by blast
  qed
  moreover have "deps_ok (sv_store s2)" using ordered s2(1) s'(1) by simp
  ultimately obtain s3 where order2: "order_items env linked2 items False s2 = (Inr False, s3)" "same_data s2 s3"
    using order_items_again [OF quiet] by blast
  have "sv_tables s3 = (sv_tables ?s1)\<lparr>task_link_rows := task_link_rows (sv_tables s2)\<rparr>"
    using order2(2) s2(2) by (simp only: same_data_def)
  then have "debate_at (sv_tables s3) did = debate_at (sv_tables ?s1) did" by (simp only: debate_at_other)
  then have "debate_at (sv_tables s3) did \<noteq> None" using \<open>debate_at (sv_tables ?s1) did \<noteq> None\<close> by simp
  then obtain t3 where mark2: "mark_applied (ev_now env (sv_tick s3)) did (sv_tables s3) = Inr t3" using mark_applied_again by blast
  have ids2: "map (\<lambda>i. map_of linked2 (wi_id i)) items = map Some ids"
    using s'(3) same by (auto simp: list_eq_iff_nth_eq)
  have "apply_debate env did s' = (Inr ids, s3\<lparr>sv_tick := Suc (sv_tick s3), sv_tables := t3\<rparr>)"
    unfolding apply_steps [OF quiet] using x' items' items(2) link2 order2(1) mark2 ids2 s'(2)
    by (auto simp: each_link notify_Inr)
  then show ?thesis using s2 order2(2) s'
    by (intro exI [of _ "s3\<lparr>sv_tick := Suc (sv_tick s3), sv_tables := t3\<rparr>"]) (simp add: same_data_def)
qed

definition planned_row :: DebateRow where
  "planned_row = (new_debate_row sample_dpy ''n'' sample_session)\<lparr>de_mode := ''workflow'', de_status := ''converged''\<rparr>"

definition planned_tables :: DebateTables where
  "planned_tables = \<lparr>debates = [planned_row], contribution_rows = [], synthesis_rows = [],
     item_rows = [\<lparr>ir_debate = ''d1'', ir_item = ''x'', ir_ordinal = 0, ir_payload = json_dumps sample_py (JObj [(''id'', JStr ''x'')])\<rparr>,
       \<lparr>ir_debate = ''d1'', ir_item = ''y'', ir_ordinal = 1,
         ir_payload = json_dumps sample_py (JObj [(''id'', JStr ''y''), (''dependencies'', JList [JStr ''x''])])\<rparr>],
     task_link_rows = []\<rparr>"

definition apply_env :: ServiceEnv where
  "apply_env = \<lparr> ev_py = sample_dpy, ev_now = (\<lambda>_. ''n''), ev_alive = (\<lambda>_. False), ev_new_id = (\<lambda>_. ''d2''),
     ev_agents = (\<lambda>_. [''a'', ''b'']), ev_history = None, ev_session_id = ''s'', ev_job = 1, ev_others = (\<lambda>_ p. p) \<rparr>"

definition apply_state :: ServiceState where
  "apply_state = \<lparr> sv_tables = planned_tables, sv_store = sample_store, sv_active_id = None, sv_thread = False,
     sv_cancel = False, sv_calls = [], sv_closed = False, sv_tick = 0, sv_lines = [] \<rparr>"

lemma first_application: "fst (apply_debate apply_env ''d1'' apply_state) = Inr [3, 4]"
  by code_simp

lemma planned_items: "case get_work_items (ev_py apply_env) ''d1'' (sv_tables apply_state) of
    Inr items \<Rightarrow> map (\<lambda>i. (wi_id i, wi_dependencies i)) items = [(''x'', []), (''y'', [''x''])] | Inl e \<Rightarrow> False"
  by code_simp

section \<open>Properties\<close>

text \<open>
  Applying the plan of a debate twice is applying it once: the second application answers the same
  tasks, and it changes neither tasks, dependencies nor the notifications shown.
\<close>

theorem apply_is_repeatable:
  assumes "quiet env" "deps_ok (sv_store s)" "apply_debate env did s = (Inr ids, s')"
  shows "\<exists>s''. apply_debate env did s' = (Inr ids, s'') \<and> sv_store s'' = sv_store s' \<and> sv_lines s'' = sv_lines s'"
  by (rule apply_again [OF assms])

lemma apply_state_ok: "quiet apply_env" "deps_ok (sv_store apply_state)"
  by (simp_all add: quiet_def apply_env_def apply_state_def sample_deps_ok)

theorem apply_is_repeatable_witness:
  "\<exists>s' s''. apply_debate apply_env ''d1'' apply_state = (Inr [3, 4], s') \<and> apply_debate apply_env ''d1'' s' = (Inr [3, 4], s'') \<and>
     sv_store s'' = sv_store s' \<and> sv_lines s'' = sv_lines s'"
  using apply_is_repeatable [OF apply_state_ok, of "''d1''" "[3, 4]" "snd (apply_debate apply_env ''d1'' apply_state)"] first_application
  by (metis prod.collapse)

text \<open>
  C11. The plan is what the tasks follow: an application answers one task for each work item, every
  dependency between items is a dependency between their tasks, and the dependencies of all tasks
  stay acyclic and refer to tasks that exist.
\<close>

theorem apply_orders_tasks:
  assumes "quiet env" "deps_ok (sv_store s)" "apply_debate env did s = (Inr ids, s')"
    "get_work_items (ev_py env) did (sv_tables s) = Inr items"
  shows "length ids = length items \<and> deps_ok (sv_store s') \<and>
     (\<forall>i < length items. \<forall>j < length items. wi_id (items ! j) \<in> set (wi_dependencies (items ! i)) \<longrightarrow>
        (ids ! i, ids ! j) \<in> edge_set (sv_store s'))"
proof -
  from assms(3,4) obtain linked created changed sA sB t u sD s0 agents where
    s0: "s0 = s\<lparr>sv_tick := Suc (Suc (Suc (Suc (sv_tick s))))\<rparr>"
    and link: "link_items env did agents items (task_links did (sv_tables s0)) False s0 = (Inr (linked, created), sA)"
    and order: "order_items env linked items created sA = (Inr changed, sB)"
    and line: "act_when changed (sv_line TasksChanged) (sB\<lparr>sv_tick := Suc (sv_tick sB), sv_tables := t\<rparr>) = (Inr u, sD)"
    and ids: "act_each (\<lambda>item. link_of linked (wi_id item)) items sD = (Inr ids, s')"
    by (auto simp: apply_steps [OF assms(1)])
  note linked = link_items_agree [OF assms(1) link links_agree_start]
  have "deps_ok (sv_store sA)" using linked by (intro deps_ok_more [OF assms(2)]) (simp_all add: s0)
  note ordered = order_items_result [OF assms(1) order this, unfolded only_edges_def]
  have s': "sv_store s' = sv_store sB" and found: "map (\<lambda>i. map_of linked (wi_id i)) items = map Some ids"
    using ids line by (auto simp: each_link notify_Inr split: if_splits)
  have len: "length ids = length items" using found by (metis length_map)
  have id: "map_of linked (wi_id (items ! i)) = Some (ids ! i)" if "i < length items" for i
    using arg_cong [OF found, of "\<lambda>xs. xs ! i"] that len by simp
  have "(ids ! i, ids ! j) \<in> edge_set (sv_store s')"
    if i: "i < length items" and j: "j < length items" and dep: "wi_id (items ! j) \<in> set (wi_dependencies (items ! i))" for i j
  proof -
    have "ordered linked (edge_set (sv_store sB)) (ids ! i) (wi_dependencies (items ! i))"
      using ordered id [OF i] nth_mem [OF i] unfolding all_ordered_def by fastforce
    then show ?thesis using dep id [OF j] by (fastforce simp: ordered_def s')
  qed
  then show ?thesis using len ordered s' by simp
qed

theorem apply_orders_tasks_witness:
  "\<exists>s'. apply_debate apply_env ''d1'' apply_state = (Inr [3, 4], s') \<and> (4, 3) \<in> edge_set (sv_store s') \<and> deps_ok (sv_store s')"
proof -
  obtain s' where s': "apply_debate apply_env ''d1'' apply_state = (Inr [3, 4], s')"
    using first_application by (metis prod.collapse)
  obtain x y where "get_work_items (ev_py apply_env) ''d1'' (sv_tables apply_state) = Inr [x, y]"
    "wi_id x = ''x''" "wi_dependencies y = [''x'']"
    using planned_items by (auto split: sum.splits)
  from apply_orders_tasks [OF apply_state_ok s' this(1)] this(2,3) s' show ?thesis
    by (intro exI [of _ s']) (auto simp: less_Suc_eq)
qed

end
