(* ===== verification/Debate_Storage.thy ===== *)
theory Debate_Storage
  imports Debate_Outcomes
begin

text \<open>
  What the repository of the debates promises its readers: a session read as it was created, the
  result of a finished debate, and the recovery of the debates whose time is up. The reader of a
  result is stricter than its writer: the consequence is shown at the end.
\<close>

section \<open>Reading a session\<close>

lemma read_participants_written: "read_participants py (json_dumps (dp_text py) (str_list names)) = Inr names"
  using json_text_reads [OF strs_ok, of "dp_text py" names] by (simp add: read_participants_def str_list_def)

definition read_back :: "pystr \<Rightarrow> DebateSession \<Rightarrow> DebateSession" where
  "read_back now s = s\<lparr>se_created_at := text_or (se_created_at s) now, se_updated_at := text_or (se_updated_at s) now,
     se_started_at := None, se_completed_at := None, se_result := None, se_error := [], se_applied_at := None\<rparr>"

lemma find_append_None: "find p xs = None \<Longrightarrow> find p (xs @ [x]) = (if p x then Some x else None)"
  by (induction xs) (auto split: if_splits)

lemma session_written: "session_from_row py (new_debate_row py now s) = Inr (read_back now s)"
  by (cases s; cases "se_limits s") (simp add: session_from_row_def new_debate_row_def read_result_def truthy_text_def
      read_participants_written synthesis_from_dict_def read_back_def)

lemma map_res_each: "map_res f xs = Inr ys \<Longrightarrow> x \<in> set xs \<Longrightarrow> \<exists>y. f x = Inr y"
  by (induction xs arbitrary: ys) (auto simp: bind_res_Inr)

section \<open>The result of a finished debate\<close>

text \<open>What a finalized candidate keeps of the synthesis it comes from.\<close>

lemma finalize_storable:
  assumes "synthesis_ok x" "text_ok max_debate_text_chars (sy_debate_id x)" "text_ok max_debate_text_chars (sy_moderator x)"
    "confidence_ok (dp_mean py (sy_confidence x # map dc_confidence cs))"
  shows "storable (finalize_candidate py x cs k b)"
  using assms by (simp add: storable_def finalize_candidate_def synthesis_ok_def Let_def)

text \<open>The columns that the reader checks and \<open>set_status\<close> does not write.\<close>

definition row_ok :: "DebatePy \<Rightarrow> DebateRow \<Rightarrow> bool" where
  "row_ok py r \<longleftrightarrow> mode_of (de_mode r) \<noteq> None \<and> (\<exists>names. read_participants py (de_participants_json r) = Inr names)"

lemma status_columns:
  "de_mode (status_update py now st k e res r) = de_mode r"
  "de_participants_json (status_update py now st k e res r) = de_participants_json r"
  "de_result_json (status_update py now st k e (Some x) r) = Some (json_dumps (dp_text py) (JObj (synthesis_dict False x)))"
  by (simp_all add: status_update_def)

lemma read_result_row:
  assumes "row_ok py r" "float_reads (dp_text py) (JFloat (sy_confidence x))"
  shows "(\<exists>s. session_from_row py (status_update py now st k e (Some x) r) = Inr s) \<longleftrightarrow>
    (\<exists>y. synthesis_from_dict py (JObj (synthesis_dict False x)) = Inr y)"
proof -
  have "json_dumps (dp_text py) (JObj (synthesis_dict False x)) \<noteq> []" by simp
  then have "read_result py (Some (json_dumps (dp_text py) (JObj (synthesis_dict False x)))) = Inr (JObj (synthesis_dict False x))"
    using synthesis_dict_text [OF assms(2)] by (simp add: read_result_def truthy_text_def)
  moreover obtain m names where "mode_of (de_mode r) = Some m" "read_participants py (de_participants_json r) = Inr names"
    using assms(1) by (auto simp: row_ok_def)
  ultimately show ?thesis by (simp add: session_from_row_def status_columns bind_res_Inr del: json_dumps.simps)
qed

lemma set_status_readable:
  assumes "row_ok py r" "debate_at t did = Some r" "float_reads (dp_text py) (JFloat (sy_confidence x))" "storable x"
    and "set_debate_status py now did st k e (Some x) t = Inr t'"
  shows "(\<exists>s. get_session py did t' = Inr (Some s)) \<longleftrightarrow> texts_fit (sy_disagreements x) \<and> texts_fit (sy_critical_objections x)"
proof -
  have "debate_at t' did = Some (status_update py now st k e (Some x) r)"
    using assms(2,5) by (auto simp: set_debate_status_Inr debate_at_update)
  then have "(\<exists>s. get_session py did t' = Inr (Some s)) \<longleftrightarrow> (\<exists>s. session_from_row py (status_update py now st k e (Some x) r) = Inr s)"
    by (auto simp: get_session_def bind_res_Inr)
  then show ?thesis using read_result_row [OF assms(1,3)] read_synthesis_iff [OF assms(4)] by simp
qed

lemma reasons_in_dissent:
  assumes "c \<in> set cs" "dc_vote c \<noteq> ''support''" "t \<in> set (reasons c)" "t \<noteq> []"
  shows "t \<in> set (sy_disagreements (finalize_candidate py x cs k b))"
  using assms by (auto simp: finalize_candidate_def Let_def first_of_each_def)

section \<open>Samples\<close>

lemma half_reads: "float_reads sample_py (JFloat (1 / 2))"
proof -
  have digits: "takeWhile is_digit r = [] \<and> dropWhile is_digit r = r" if "number_end r" for r
    using that by (cases r) (auto simp: number_end_def)
  have "scan_number (''0.5'' @ r) = Some (JFloat (1 / 2), r)" if "number_end r" for r
    using digits [OF that] scan_tail [OF that]
    by (simp add: scan_number_def int_digits_def scan_fraction_def is_digit_def digits_value_def float_json_def Let_def)
  moreover have "json_word (''0.5'' @ r) = None" for r by (simp add: json_word_def)
  ultimately show ?thesis by (simp add: float_reads_def sample_py_def json_ws_def quote_def)
qed

definition half_dpy :: DebatePy where
  "half_dpy = sample_dpy\<lparr>dp_mean := \<lambda>_. 1 / 2\<rparr>"

definition half_candidate :: DebateSynthesis where
  "half_candidate = sample_candidate\<lparr>sy_confidence := 1 / 2\<rparr>"

definition stored_row :: DebateRow where
  "stored_row = new_debate_row half_dpy ''n'' sample_session"

definition stored_tables :: DebateTables where
  "stored_tables = \<lparr>debates = [stored_row], contribution_rows = [], synthesis_rows = [], item_rows = [], task_link_rows = []\<rparr>"

lemma stored_row: "row_ok half_dpy stored_row" "debate_at stored_tables ''d1'' = Some stored_row"
  by (simp_all add: row_ok_def stored_row_def new_debate_row_def read_participants_written stored_tables_def debate_at_def)

lemma short_ok: "set t \<subseteq> set ''abdpsv1'' \<Longrightarrow> length t \<le> n \<Longrightarrow> text_ok n t"
  unfolding text_ok_def by (rule conjI, assumption, rule strip_visible) (auto simp: list_all_iff py_isspace_def)

lemma half_candidate: "synthesis_ok half_candidate" "storable half_candidate"
  "text_ok max_debate_text_chars (sy_debate_id half_candidate)" "text_ok max_debate_text_chars (sy_moderator half_candidate)"
  "sy_confidence half_candidate = 1 / 2" "sy_disagreements half_candidate = []" "sy_critical_objections half_candidate = []"
  by (simp_all add: half_candidate_def sample_candidate_def synthesis_ok_def storable_def short_ok max_debate_text_chars_def
      texts_ok_def confidence_ok_def items_accepted_def validate_work_items_def Let_def)

definition long_vote :: DebateContribution where
  "long_vote = (sample_vote 2 ''b'')\<lparr>dc_vote := ''oppose'', dc_position := replicate 4001 (CHR ''a'')\<rparr>"

lemma long_vote: "contribution_ok long_vote" "dc_vote long_vote \<noteq> ''support''" "dc_objections long_vote = []"
  "4000 < length (dc_position long_vote)"
  by (simp_all add: long_vote_def sample_vote_def contribution_ok_def short_ok max_debate_text_chars_def texts_ok_def
      confidence_ok_def debate_votes_def items_accepted_def)

section \<open>Properties\<close>

text \<open>
  A session is read back as it was created: topic, mode, participants, limits and status;
  the columns of a run are empty.
\<close>

theorem session_roundtrip:
  assumes "create_session py now s t = Inr t'"
  shows "get_session py (se_id s) t' = Inr (Some (read_back now s))"
proof -
  have "debate_at t (se_id s) = None" "t' = t\<lparr>debates := debates t @ [new_debate_row py now s]\<rparr>"
    using assms by (auto simp: create_session_def split: if_splits)
  then have "debate_at t' (se_id s) = Some (new_debate_row py now s)"
    by (simp add: debate_at_def find_append_None new_debate_row_def)
  then show ?thesis by (simp add: get_session_def session_written)
qed

theorem session_roundtrip_witness:
  "\<exists>t'. create_session half_dpy ''n'' sample_session (stored_tables\<lparr>debates := []\<rparr>) = Inr t' \<and>
     get_session half_dpy ''d1'' t' = Inr (Some (read_back ''n'' sample_session))"
  using session_roundtrip [of half_dpy "''n''" sample_session "stored_tables\<lparr>debates := []\<rparr>"]
  by (simp add: create_session_def debate_at_def)

text \<open>
  The result of a finished debate can be read if and only if its dissent fits the protocol: at most 32
  texts in each list, none above 4000 characters. \<open>set_status\<close> stores whatever it is given.
\<close>

theorem result_readable_iff:
  assumes "row_ok py r" "debate_at t did = Some r" "float_reads (dp_text py) (JFloat (sy_confidence x))" "storable x"
    and "set_debate_status py now did st k e (Some x) t = Inr t'"
  shows "(\<exists>s. get_session py did t' = Inr (Some s)) = (texts_fit (sy_disagreements x) \<and> texts_fit (sy_critical_objections x))"
  by (rule set_status_readable [OF assms])

theorem result_readable_iff_witness:
  "\<exists>t' s. set_debate_status half_dpy ''n'' ''d1'' DB_EXHAUSTED None None (Some half_candidate) stored_tables = Inr t' \<and>
     get_session half_dpy ''d1'' t' = Inr (Some s)"
  using result_readable_iff [OF stored_row, of half_candidate "''n''" DB_EXHAUSTED None None] half_reads half_candidate
  by (simp add: set_debate_status_def stored_row half_dpy_def sample_dpy_def texts_fit_def)

text \<open>
  A debate that cannot be read. One participant who does not support the candidate, gives no objections
  and states a position of more than 4000 characters (20000 are allowed) is enough: its position
  becomes a dissent of the result, and from then on the debate cannot be shown or applied, and every
  listing that reaches it fails.
\<close>

theorem long_position_locks_debate:
  assumes "row_ok py r" "debate_at t did = Some r" "synthesis_ok x"
    "text_ok max_debate_text_chars (sy_debate_id x)" "text_ok max_debate_text_chars (sy_moderator x)"
    "confidence_ok (dp_mean py (sy_confidence x # map dc_confidence cs))"
    "float_reads (dp_text py) (JFloat (dp_mean py (sy_confidence x # map dc_confidence cs)))"
    "c \<in> set cs" "contribution_ok c" "dc_vote c \<noteq> ''support''" "dc_objections c = []" "4000 < length (dc_position c)"
    "set_debate_status py now did DB_EXHAUSTED (Some k) None (Some (finalize_candidate py x cs k False)) t = Inr t'"
  shows "(\<forall>s. get_session py did t' \<noteq> Inr s) \<and>
     (length (debates t') \<le> nat (min 100 (max 1 limit)) \<longrightarrow> (\<forall>ss. list_sessions py limit t' \<noteq> Inr ss))"
proof -
  let ?final = "finalize_candidate py x cs k False"
  have "dc_position c \<in> set (sy_disagreements ?final)"
    using assms(8-12) by (intro reasons_in_dissent) (auto simp: reasons_def)
  moreover have "py_strip (dc_position c) = dc_position c" using assms(9) by (simp add: contribution_ok_def text_ok_def)
  ultimately have unfit: "\<not> texts_fit (sy_disagreements ?final)" using assms(12) by (force simp: texts_fit_def)
  have conf: "sy_confidence ?final = dp_mean py (sy_confidence x # map dc_confidence cs)"
    by (simp add: finalize_candidate_def Let_def)
  let ?row = "status_update py now DB_EXHAUSTED (Some k) None (Some ?final) r"
  have row: "debate_at t' did = Some ?row"
    using assms(2,13) by (auto simp: set_debate_status_Inr debate_at_update)
  have bad: "session_from_row py ?row \<noteq> Inr s" for s
    using read_result_row [OF assms(1), of ?final now DB_EXHAUSTED "Some k" None] read_synthesis_iff [OF finalize_storable [OF assms(3-6)]]
      unfit assms(7) conf by auto
  have "get_session py did t' \<noteq> Inr s" for s
    using bad by (auto simp: get_session_def row bind_res_Inr)
  moreover have "list_sessions py limit t' \<noteq> Inr ss" if "length (debates t') \<le> nat (min 100 (max 1 limit))" for ss
  proof
    assume "list_sessions py limit t' = Inr ss"
    then have "map_res (session_from_row py) (latest_first t') = Inr ss"
      using that by (simp add: list_sessions_def latest_first_def Let_def)
    moreover have "?row \<in> set (latest_first t')"
      using row by (auto simp: debate_at_def latest_first_def dest: find_SomeD)
    ultimately obtain y where "session_from_row py ?row = Inr y" using map_res_each by fastforce
    with bad show False by blast
  qed
  ultimately show ?thesis by blast
qed

theorem long_position_locks_debate_witness:
  "\<exists>t'. set_debate_status half_dpy ''n'' ''d1'' DB_EXHAUSTED (Some 2) None
       (Some (finalize_candidate half_dpy half_candidate [long_vote] 2 False)) stored_tables = Inr t' \<and>
     (\<forall>s. get_session half_dpy ''d1'' t' \<noteq> Inr s)"
proof -
  have "confidence_ok (dp_mean half_dpy (sy_confidence half_candidate # map dc_confidence [long_vote]))"
    "float_reads (dp_text half_dpy) (JFloat (dp_mean half_dpy (sy_confidence half_candidate # map dc_confidence [long_vote])))"
    using half_reads by (simp_all add: half_dpy_def sample_dpy_def confidence_ok_def)
  from long_position_locks_debate [OF stored_row half_candidate(1,3,4) this _ long_vote] show ?thesis
    by (auto simp: set_debate_status_def stored_row)
qed

end
