(* ===== verification/Task_Routing.thy ===== *)
theory Task_Routing
  imports Task_Planning Task_Repository "HOL-Library.Product_Lexorder"
begin

text \<open>
  Which agent gets a task and which agents may review it: \<open>TaskRouter\<close> (\<open>quimera/tasks/router.py\<close>)
  and \<open>TaskFailoverPolicy\<close> (\<open>quimera/tasks/failover.py\<close>). The registry of profiles is the function
  \<open>get_profile\<close>; the members of the pool, the available ones and the available profiles are lists.
\<close>

section \<open>Names of agents\<close>

definition normalize_agent_name :: "pystr option \<Rightarrow> pystr" where
  "normalize_agent_name name = (case name of
     None \<Rightarrow> [] | Some n \<Rightarrow> dropWhile (\<lambda>c. c = CHR ''/'') (py_lower (py_strip n)))"

definition add_key :: "pystr list \<Rightarrow> pystr option \<Rightarrow> pystr list" where
  "add_key keys raw = (let key = normalize_agent_name raw in
     if key \<noteq> [] \<and> key \<notin> set keys then keys @ [key] else keys)"

definition profile_lookup_keys :: "AgentProfile \<Rightarrow> pystr list" where
  "profile_lookup_keys p = foldl add_key [] (Some (pf_name p) # pf_prefix p # map Some (pf_aliases p))"

definition failover_lookup_keys :: "AgentProfile \<Rightarrow> pystr option \<Rightarrow> pystr list" where
  "failover_lookup_keys p fallback =
     foldl add_key [] (Some (pf_name p) # fallback # pf_prefix p # map Some (pf_aliases p))"

type_synonym registry = "pystr \<Rightarrow> AgentProfile option"

section \<open>Routing with load balance\<close>

definition resolve_routable :: "registry \<Rightarrow> AgentProfile list \<Rightarrow> pystr \<Rightarrow> AgentProfile option" where
  "resolve_routable get_profile profiles agent =
     (case get_profile agent of
        Some p \<Rightarrow> if can_execute_task p then Some p
          else (let key = normalize_agent_name (Some agent) in
            if key = [] then None else find (\<lambda>c. key \<in> set (profile_lookup_keys c)) profiles)
      | None \<Rightarrow> (let key = normalize_agent_name (Some agent) in
            if key = [] then None else find (\<lambda>c. key \<in> set (profile_lookup_keys c)) profiles))"

fun collect_profiles :: "registry \<Rightarrow> AgentProfile list \<Rightarrow> pystr list \<Rightarrow> pystr list \<Rightarrow> AgentProfile list" where
  "collect_profiles get_profile routable [] seen = []"
| "collect_profiles get_profile routable (agent # agents) seen =
     (case resolve_routable get_profile routable agent of
        None \<Rightarrow> collect_profiles get_profile routable agents seen
      | Some p \<Rightarrow> if pf_name p \<in> set seen then collect_profiles get_profile routable agents seen
          else p # collect_profiles get_profile routable agents (pf_name p # seen))"

definition get_task_routing_profiles :: "registry \<Rightarrow> AgentProfile list \<Rightarrow> pystr list \<Rightarrow> AgentProfile list" where
  "get_task_routing_profiles get_profile available active =
     (let routable = filter can_execute_task available in
      if active = [] \<or> ''*'' \<in> set active then routable
      else collect_profiles get_profile routable active [])"

definition count_agent_open_tasks :: "Store \<Rightarrow> pystr \<Rightarrow> int" where
  "count_agent_open_tasks s agent = sum_list (map (\<lambda>st.
     int (length (list_tasks [ByAssigned (Some agent), ByStatus (Some st)] s))) [''pending'', ''in_progress''])"

definition effective_score :: "Store \<Rightarrow> pystr \<Rightarrow> AgentProfile \<Rightarrow> int" where
  "effective_score s ty p = score_profile_for_task p ty - count_agent_open_tasks s (pf_name p)"

definition balance_key :: "Store \<Rightarrow> pystr \<Rightarrow> AgentProfile \<Rightarrow> int \<times> int \<times> pystr" where
  "balance_key s ty p = (count_agent_open_tasks s (pf_name p), - score_profile_for_task p ty, pf_name p)"

definition choose_agent_with_load_balance :: "registry \<Rightarrow> AgentProfile list \<Rightarrow> pystr list \<Rightarrow> Store \<Rightarrow> pystr \<Rightarrow> pystr option" where
  "choose_agent_with_load_balance get_profile available active s ty =
     (case get_task_routing_profiles get_profile available active of
        [] \<Rightarrow> None
      | p # ps \<Rightarrow>
          (let candidates = p # ps; highest = Max (set (map (effective_score s ty) candidates)) in
           if highest \<le> -5 then choose_best_agent ty candidates
           else Some (pf_name (hd (sort_key (balance_key s ty)
             (filter (\<lambda>q. effective_score s ty q = highest) candidates))))))"

lemma sort_key_least:
  assumes "xs \<noteq> []"
  shows "hd (sort_key f xs) \<in> set xs \<and> (\<forall>x \<in> set xs. f (hd (sort_key f xs)) \<le> f x)"
proof -
  have ne: "sort_key f xs \<noteq> []" using assms by (metis length_0_conv length_sort)
  have "sorted (map f (sort_key f xs))" by simp
  with ne have "\<forall>x \<in> set (sort_key f xs). f (hd (sort_key f xs)) \<le> f x"
    by (cases "sort_key f xs") auto
  with ne show ?thesis by (metis hd_in_set set_sort)
qed

lemma resolve_executable:
  assumes "\<forall>p \<in> set routable. can_execute_task p" and "resolve_routable get_profile routable agent = Some p"
  shows "can_execute_task p"
proof -
  have "can_execute_task q" if "find P routable = Some q" for P q
    using find_SomeD [OF that] assms(1) by blast
  then show ?thesis using assms(2)
    by (simp add: resolve_routable_def Let_def split: option.splits if_splits)
qed

lemma collect_Some:
  assumes "resolve_routable get_profile routable agent = Some q"
    and "p \<in> set (collect_profiles get_profile routable (agent # agents) seen)"
  shows "p = q \<or> p \<in> set (collect_profiles get_profile routable agents seen) \<or>
    p \<in> set (collect_profiles get_profile routable agents (pf_name q # seen))"
  using assms by (cases "pf_name q \<in> set seen") auto

lemma collect_executable:
  assumes "\<forall>p \<in> set routable. can_execute_task p" and "p \<in> set (collect_profiles get_profile routable agents seen)"
  shows "can_execute_task p"
  using assms(2)
proof (induction agents arbitrary: seen)
  case (Cons agent agents)
  show ?case
  proof (cases "resolve_routable get_profile routable agent")
    case None
    then show ?thesis using Cons.prems Cons.IH [of seen] by simp
  next
    case (Some q)
    from collect_Some [OF Some Cons.prems] show ?thesis
    proof (elim disjE)
      assume "p = q"
      with resolve_executable [OF assms(1) Some] show ?thesis by simp
    qed (rule Cons.IH, assumption)+
  qed
qed simp

lemma routing_executable:
  assumes "p \<in> set (get_task_routing_profiles get_profile available active)"
  shows "can_execute_task p"
proof -
  have able: "\<forall>q \<in> set (filter can_execute_task available). can_execute_task q" by simp
  from assms have "p \<in> set (filter can_execute_task available) \<or>
      p \<in> set (collect_profiles get_profile (filter can_execute_task available) active [])"
    by (auto simp: get_task_routing_profiles_def Let_def split: if_splits)
  then show ?thesis using collect_executable [OF able] by (elim disjE) simp_all
qed

lemma load_balance_choice:
  assumes "get_task_routing_profiles get_profile available active = candidates"
  shows "case choose_agent_with_load_balance get_profile available active s ty of
     None \<Rightarrow> candidates = []
   | Some name \<Rightarrow> (\<exists>p \<in> set candidates. pf_name p = name \<and> can_execute_task p \<and>
       (if \<exists>q \<in> set candidates. effective_score s ty q > -5
        then \<forall>q \<in> set candidates. effective_score s ty q \<le> effective_score s ty p \<and>
          (effective_score s ty q = effective_score s ty p \<longrightarrow> balance_key s ty p \<le> balance_key s ty q)
        else choose_best_agent ty candidates = Some name))"
proof (cases candidates)
  case Nil
  then show ?thesis by (simp add: choose_agent_with_load_balance_def assms)
next
  case (Cons p0 ps)
  have able: "\<forall>p \<in> set candidates. can_execute_task p" unfolding assms [symmetric] using routing_executable by blast
  let ?high = "Max (set (map (effective_score s ty) candidates))"
  have le: "effective_score s ty q \<le> ?high" if "q \<in> set candidates" for q using that by (intro Max_ge) auto
  have "?high \<in> set (map (effective_score s ty) candidates)" by (rule Max_in) (simp_all add: Cons)
  then have some: "filter (\<lambda>q. effective_score s ty q = ?high) candidates \<noteq> []"
    by (auto simp: filter_empty_conv)
  from some obtain q0 where q0: "q0 \<in> set candidates" "effective_score s ty q0 = ?high"
    by (auto simp: filter_empty_conv)
  have above: "(\<exists>q \<in> set candidates. effective_score s ty q > -5) \<longleftrightarrow> \<not> ?high \<le> -5"
  proof
    assume "\<exists>q \<in> set candidates. effective_score s ty q > -5"
    then obtain q where "q \<in> set candidates" "effective_score s ty q > -5" by blast
    with le [of q] show "\<not> ?high \<le> -5" by linarith
  next
    assume "\<not> ?high \<le> -5"
    with q0 show "\<exists>q \<in> set candidates. effective_score s ty q > -5" by (intro bexI [of _ q0]) linarith+
  qed
  have eq: "choose_agent_with_load_balance get_profile available active s ty =
      (if ?high \<le> -5 then choose_best_agent ty candidates
       else Some (pf_name (hd (sort_key (balance_key s ty) (filter (\<lambda>q. effective_score s ty q = ?high) candidates)))))"
    by (simp add: choose_agent_with_load_balance_def assms Cons Let_def)
  show ?thesis
  proof (cases "?high \<le> -5")
    case True
    have "filter can_execute_task candidates = p0 # ps" using Cons able by auto
    from choose_best_agent_member [OF this] Cons obtain p where
      "choose_best_agent ty candidates = Some (pf_name p)" "p \<in> set candidates" by blast
    with True above eq able show ?thesis by auto
  next
    case False
    let ?p = "hd (sort_key (balance_key s ty) (filter (\<lambda>q. effective_score s ty q = ?high) candidates))"
    from sort_key_least [OF some, of "balance_key s ty"] have "?p \<in> set candidates" "effective_score s ty ?p = ?high"
      "\<forall>q \<in> set candidates. effective_score s ty q = ?high \<longrightarrow> balance_key s ty ?p \<le> balance_key s ty q" by auto
    with False above eq able le show ?thesis by auto
  qed
qed

text \<open>
  Routing with load balance: no agent is chosen only if no profile can be routed to. While some
  candidate scores above -5 after its open tasks are deducted, the agent chosen has the highest such
  score, and among these the smallest load, then the highest score by itself, then the first name;
  otherwise the choice ignores the load. The agent chosen can always execute tasks.
\<close>

theorem load_balance_exact:
  "let candidates = get_task_routing_profiles get_profile available active in
   case choose_agent_with_load_balance get_profile available active s ty of
     None \<Rightarrow> candidates = []
   | Some name \<Rightarrow> (\<exists>p \<in> set candidates. pf_name p = name \<and> can_execute_task p \<and>
       (if \<exists>q \<in> set candidates. effective_score s ty q > -5
        then \<forall>q \<in> set candidates. effective_score s ty q \<le> effective_score s ty p \<and>
          (effective_score s ty q = effective_score s ty p \<longrightarrow> balance_key s ty p \<le> balance_key s ty q)
        else choose_best_agent ty candidates = Some name))"
  unfolding Let_def by (rule load_balance_choice) (rule refl)

definition sample_profile :: AgentProfile where
  "sample_profile = \<lparr> pf_name = ''codex'', pf_prefix = None, pf_aliases = [], pf_base_tier = 1, pf_preferred = [],
     pf_avoid = [], pf_code_editing = True, pf_long_context = False, pf_tools = True, pf_capabilities = [],
     pf_task_execution = True, pf_reliability = None \<rparr>"

theorem load_balance_exact_witness:
  "choose_agent_with_load_balance (\<lambda>_. None) [sample_profile] [] empty_store ''code_edit'' = Some ''codex''"
proof -
  have "get_task_routing_profiles (\<lambda>_. None) [sample_profile] [] = [sample_profile]"
    by (simp add: get_task_routing_profiles_def can_execute_task_def sample_profile_def)
  with load_balance_exact [of "\<lambda>_. None" "[sample_profile]" "[]" empty_store "''code_edit''"]
  have "case choose_agent_with_load_balance (\<lambda>_. None) [sample_profile] [] empty_store ''code_edit'' of
      None \<Rightarrow> False | Some name \<Rightarrow> pf_name sample_profile = name"
    by (auto simp: Let_def split: option.splits)
  then show ?thesis by (simp add: sample_profile_def split: option.splits)
qed

end
