(* ===== verification/Task_Failover.thy ===== *)
theory Task_Failover
  imports Task_Routing
begin

text \<open>
  \<open>TaskFailoverPolicy\<close> (\<open>quimera/tasks/failover.py\<close>): the identity of agents across names, prefixes
  and aliases, who may review a delivery, and whether somebody is left to take a task over.
\<close>

section \<open>Identity of agents\<close>

fun find_alias :: "registry \<Rightarrow> pystr \<Rightarrow> pystr list \<Rightarrow> AgentProfile option" where
  "find_alias get_profile key [] = None"
| "find_alias get_profile key (name # names) =
     (case get_profile name of
        None \<Rightarrow> find_alias get_profile key names
      | Some c \<Rightarrow>
          if \<not> can_execute_task c then find_alias get_profile key names
          else if key \<in> set (failover_lookup_keys c (Some name)) then Some c
          else find_alias get_profile key names)"

definition resolve_agent :: "registry \<Rightarrow> pystr list \<Rightarrow> pystr \<Rightarrow> AgentProfile option" where
  "resolve_agent get_profile active agent =
     (let search = (let key = normalize_agent_name (Some agent) in
            if key = [] then None else find_alias get_profile key active) in
      case get_profile agent of
        Some p \<Rightarrow> if can_execute_task p then Some p else search
      | None \<Rightarrow> search)"

definition canonical_name :: "AgentProfile option \<Rightarrow> pystr \<Rightarrow> pystr" where
  "canonical_name p fallback = (case p of
     None \<Rightarrow> normalize_agent_name (Some fallback)
   | Some q \<Rightarrow> normalize_agent_name (Some (text_or (pf_name q) fallback)))"

definition same_agent_identity :: "registry \<Rightarrow> pystr list \<Rightarrow> pystr option \<Rightarrow> pystr option \<Rightarrow> bool" where
  "same_agent_identity get_profile active left right =
     (let l = normalize_agent_name left; r = normalize_agent_name right in
      if l = [] \<or> r = [] then False
      else if l = r then True
      else canonical_name (resolve_agent get_profile active l) l = canonical_name (resolve_agent get_profile active r) r)"

section \<open>Availability and reviewers\<close>

definition is_available :: "registry \<Rightarrow> pystr list \<Rightarrow> pystr list \<Rightarrow> pystr \<Rightarrow> bool" where
  "is_available get_profile active available agent =
     list_ex (\<lambda>b. same_agent_identity get_profile active (Some agent) (Some b)) available"

definition is_active_agent :: "registry \<Rightarrow> pystr list \<Rightarrow> pystr \<Rightarrow> bool" where
  "is_active_agent get_profile active agent =
     list_ex (\<lambda>b. same_agent_identity get_profile active (Some agent) (Some b)) active"

definition is_operational_review_agent :: "registry \<Rightarrow> pystr list \<Rightarrow> pystr \<Rightarrow> bool" where
  "is_operational_review_agent get_profile active agent =
     (if \<not> is_active_agent get_profile active agent then False
      else resolve_agent get_profile active agent \<noteq> None)"

definition review_agents_for :: "registry \<Rightarrow> pystr list \<Rightarrow> pystr option \<Rightarrow> pystr list \<Rightarrow> pystr list" where
  "review_agents_for get_profile active executor excluded = filter (\<lambda>a.
     \<not> (executor \<noteq> None \<and> same_agent_identity get_profile active (Some a) executor) \<and>
     \<not> list_ex (\<lambda>b. same_agent_identity get_profile active (Some a) (Some b)) excluded \<and>
     is_operational_review_agent get_profile active a) active"

definition can_failover :: "registry \<Rightarrow> pystr list \<Rightarrow> int \<Rightarrow> pystr \<Rightarrow> Store \<Rightarrow> bool" where
  "can_failover get_profile active tid failed_agent s =
     can_reassign_task tid (filter (\<lambda>a. \<not> same_agent_identity get_profile active (Some a) (Some failed_agent)) active) s"

definition can_review :: "registry \<Rightarrow> pystr list \<Rightarrow> int \<Rightarrow> pystr option \<Rightarrow> pystr list \<Rightarrow> Store \<Rightarrow> bool" where
  "can_review get_profile active tid executor excluded s =
     can_review_task tid (review_agents_for get_profile active executor excluded) s"

section \<open>Identity is an equivalence of names\<close>

definition identity_key :: "registry \<Rightarrow> pystr list \<Rightarrow> pystr option \<Rightarrow> pystr option" where
  "identity_key get_profile active name = (let n = normalize_agent_name name in
     if n = [] then None else Some (canonical_name (resolve_agent get_profile active n) n))"

lemma same_identity_key: "same_agent_identity gp active l r \<longleftrightarrow>
    identity_key gp active l \<noteq> None \<and> identity_key gp active l = identity_key gp active r"
  by (auto simp: same_agent_identity_def identity_key_def Let_def)

lemma other_identity:
  "identity_key gp active a \<noteq> identity_key gp active b \<Longrightarrow> same_agent_identity gp active name b \<Longrightarrow>
   \<not> same_agent_identity gp active a name"
  unfolding same_identity_key by metis

lemma active_names_identical:
  "normalize_agent_name (Some a) \<noteq> [] \<Longrightarrow> a \<in> set active \<Longrightarrow> is_active_agent gp active a"
  by (auto simp: is_active_agent_def list_ex_iff same_identity_key identity_key_def Let_def intro!: bexI [of _ a])

lemma blank_not_active: "normalize_agent_name (Some a) = [] \<Longrightarrow> \<not> is_active_agent gp active a"
  by (auto simp: is_active_agent_def list_ex_iff same_identity_key identity_key_def)

text \<open>
  An agent may review exactly if it is a member of the pool with a name, resolves to a profile
  that can execute tasks, and is neither the executor nor an excluded agent under any of their
  names: a name that stands for the executor (by prefix, alias or spelling) is never the name of a
  reviewer. Suspended members of the pool count.
\<close>

theorem reviewers_exact:
  "a \<in> set (review_agents_for gp active (Some executor) excluded) \<longleftrightarrow>
     a \<in> set active \<and> normalize_agent_name (Some a) \<noteq> [] \<and> resolve_agent gp active a \<noteq> None \<and>
     (\<forall>name. same_agent_identity gp active (Some name) (Some executor) \<longrightarrow> \<not> same_agent_identity gp active (Some a) (Some name)) \<and>
     (\<forall>b \<in> set excluded. \<forall>name. same_agent_identity gp active (Some name) (Some b) \<longrightarrow>
        \<not> same_agent_identity gp active (Some a) (Some name))"
proof -
  have any_name: "(\<forall>name. same_agent_identity gp active (Some name) b \<longrightarrow> \<not> same_agent_identity gp active (Some a) (Some name)) \<longleftrightarrow>
      \<not> same_agent_identity gp active (Some a) b" for b
    unfolding same_identity_key by metis
  show ?thesis
    using active_names_identical [of a active gp] blank_not_active [of a gp active]
    unfolding any_name by (auto simp: review_agents_for_def list_ex_iff is_operational_review_agent_def)
qed

definition sample_registry :: registry where
  "sample_registry name = map_of
     [(''claude'', \<lparr> pf_name = ''claude'', pf_prefix = Some ''/claude'', pf_aliases = [''opus''], pf_base_tier = 3,
        pf_preferred = [], pf_avoid = [], pf_code_editing = True, pf_long_context = True, pf_tools = True,
        pf_capabilities = [], pf_task_execution = True, pf_reliability = Some ''high'' \<rparr>),
      (''codex'', \<lparr> pf_name = ''codex'', pf_prefix = Some ''/codex'', pf_aliases = [], pf_base_tier = 2,
        pf_preferred = [], pf_avoid = [], pf_code_editing = True, pf_long_context = False, pf_tools = True,
        pf_capabilities = [], pf_task_execution = True, pf_reliability = None \<rparr>)] name"

theorem reviewers_exact_witness:
  "''codex'' \<in> set (review_agents_for sample_registry [''claude'', ''codex''] (Some ''/Opus'') [])"
proof -
  have "''codex'' \<in> set [''claude'', ''codex''] \<and> normalize_agent_name (Some ''codex'') \<noteq> [] \<and>
      resolve_agent sample_registry [''claude'', ''codex''] ''codex'' \<noteq> None" by code_simp
  moreover have "identity_key sample_registry [''claude'', ''codex''] (Some ''codex'') \<noteq>
      identity_key sample_registry [''claude'', ''codex''] (Some ''/Opus'')" by code_simp
  then have "\<not> same_agent_identity sample_registry [''claude'', ''codex''] (Some ''codex'') (Some name)"
    if "same_agent_identity sample_registry [''claude'', ''codex''] (Some name) (Some ''/Opus'')" for name
    using that by (rule other_identity)
  ultimately show ?thesis
    by (intro iffD2 [OF reviewers_exact] conjI allI impI ballI) (blast, blast, blast, blast, simp)
qed

end
