(* ===== verification/Task_Runner.thy ===== *)
theory Task_Runner
  imports Workflow_Hooks
begin

text \<open>
  \<open>TaskRunner\<close> (\<open>quimera/tasks/runner.py\<close>) and \<open>TaskReviewer\<close> (\<open>quimera/tasks/reviewer.py\<close>): one
  execution and one review of a task, in every outcome. \<open>hooked\<close> says whether task hooks are
  installed; they apply to workflow tasks only. The lines shown to the user are not modelled, nor
  is a failing event sink (its exception is logged and dropped). An exception is any
  \<open>Exception\<close> of Python; an interrupt of the process is outside.
\<close>

section \<open>Shared steps\<close>

definition workflow_task :: "bool \<Rightarrow> TaskRow \<Rightarrow> bool" where
  "workflow_task hooked task \<longleftrightarrow> hooked \<and> t_origin task = ''workflow''"

text \<open>Writes of workflow tasks carry the attempt, others carry none.\<close>

definition fence_of :: "bool \<Rightarrow> TaskRow \<Rightarrow> int option" where
  "fence_of hooked task = (if workflow_task hooked task then Some (t_attempt_count task) else None)"

definition abort_with :: "RunEnv \<Rightarrow> bool \<Rightarrow> TaskRow \<Rightarrow> pystr \<Rightarrow> pystr \<Rightarrow> unit run" where
  "abort_with env hooked task agent reason =
     (if workflow_task hooked task then hooks_abort env task agent reason else act_return ())"

definition repo_fail :: "RunEnv \<Rightarrow> TaskRow \<Rightarrow> pystr \<Rightarrow> int option \<Rightarrow> bool run" where
  "repo_fail env task reason attempt_fence = act_write (fail_task (re_clock env) (t_id task) (Some reason) attempt_fence None)"

definition agent_available :: "RunEnv \<Rightarrow> pystr \<Rightarrow> bool run" where
  "agent_available env agent = act_get (\<lambda>s. is_available (re_registry env) (re_active env s) (re_available env s) agent)"

definition hand_off :: "RunEnv \<Rightarrow> TaskRow \<Rightarrow> pystr \<Rightarrow> pystr \<Rightarrow> int option \<Rightarrow> bool run" where
  "hand_off env task agent reason attempt_fence =
     act_bind (agent_available env agent) (\<lambda>here.
     if \<not> here then act_write (requeue_task (re_clock env) (t_id task) agent
         (Some (agent @ '' indisponivel: '' @ reason)) attempt_fence False)
     else act_bind (act_get (\<lambda>s. can_failover (re_registry env) (re_active env s) (t_id task) agent (db s))) (\<lambda>another.
       if another then act_write (requeue_task (re_clock env) (t_id task) agent (Some reason) attempt_fence True)
       else repo_fail env task reason attempt_fence))"

section \<open>Execution\<close>

definition task_text :: "RunEnv \<Rightarrow> TaskRow \<Rightarrow> pystr" where
  "task_text env task = text_or (body_string (re_py env) (t_body task)) (t_description task)"

definition run_delegation :: "RunEnv \<Rightarrow> TaskRow \<Rightarrow> pystr \<Rightarrow> Delegation" where
  "run_delegation env task agent =
     \<lparr> dg_id = ''task-'' @ show_int (t_id task),
       dg_task = text_or (t_description task) (''Executar task '' @ show_int (t_id task)),
       dg_context = task_text env task,
       dg_expected = ''Execute a task, fa'' @ [CHR 0xE7] @ ''a a menor mudan'' @ [CHR 0xE7] @ ''a segura, valide com evid'' @
         [CHR 0xEA] @ ''ncia concreta e reporte arquivos alterados, valida'' @ [CHR 0xE7, CHR 0xE3] @ ''o e pr'' @ [CHR 0xF3] @ ''ximo passo.'',
       dg_priority = text_or (or_empty (t_priority task)) ''normal'',
       dg_chain = [''task-runner'', agent], dg_run_id = None, dg_read_only = None \<rparr>"

definition no_answer_reason :: "bool \<Rightarrow> pystr" where
  "no_answer_reason here = (if here then ''communication failed''
     else ''suspenso durante a run (rate limit, cota ou falhas seguidas)'')"

text \<open>The delivery passed: it waits for a review, or is completed when nobody in the pool could review it.\<close>

definition hand_in :: "RunEnv \<Rightarrow> TaskRow \<Rightarrow> pystr \<Rightarrow> pystr \<Rightarrow> int option \<Rightarrow> bool run" where
  "hand_in env task agent result attempt_fence =
     act_bind (act_get (\<lambda>s. review_agents_for (re_registry env) (re_active env s) (Some agent) [])) (\<lambda>reviewers.
     if reviewers \<noteq> [] then act_write (submit_for_review (re_clock env) (t_id task) (Some result) attempt_fence)
     else act_write (complete_task (re_clock env) (t_id task) (Some result) None None None attempt_fence))"

definition judge_answer :: "RunEnv \<Rightarrow> bool \<Rightarrow> TaskRow \<Rightarrow> pystr \<Rightarrow> pystr \<Rightarrow> bool run" where
  "judge_answer env hooked task agent response =
     (if workflow_task hooked task then
        act_bind (hooks_finish env task agent response) (\<lambda>(ok, result).
        if \<not> ok then
          act_bind (discarded task) (\<lambda>gone.
          if gone then act_return False
          else act_bind (hooks_rework env task (Some agent) result None) (\<lambda>_. act_return False))
        else hand_in env task agent result (fence_of hooked task))
      else
        (case classify_task_execution_result (Some response) of (ok, result) \<Rightarrow>
          if \<not> ok then act_then (hand_off env task agent result None) (act_return False)
          else hand_in env task agent result None))"

definition no_answer :: "RunEnv \<Rightarrow> bool \<Rightarrow> TaskRow \<Rightarrow> pystr \<Rightarrow> bool run" where
  "no_answer env hooked task agent =
     act_bind (agent_available env agent) (\<lambda>here.
     act_then (abort_with env hooked task agent (no_answer_reason here))
       (act_then (hand_off env task agent (no_answer_reason here) (fence_of hooked task)) (act_return False)))"

definition interrupted :: "RunEnv \<Rightarrow> bool \<Rightarrow> TaskRow \<Rightarrow> pystr \<Rightarrow> bool run" where
  "interrupted env hooked task agent =
     act_then (abort_with env hooked task agent ''interrompida pelo workflow'') (act_return False)"

definition after_answer :: "RunEnv \<Rightarrow> bool \<Rightarrow> TaskRow \<Rightarrow> pystr \<Rightarrow> pystr option \<Rightarrow> bool run" where
  "after_answer env hooked task agent response =
     act_bind (act_get (re_cancelled env)) (\<lambda>cancelled.
     if cancelled then
       act_then (abort_with env hooked task agent ''cancelled by user'')
         (act_then (repo_fail env task ''cancelled by user'' (fence_of hooked task)) (act_return False))
     else act_bind (discarded task) (\<lambda>gone.
       if response = None \<and> workflow_task hooked task \<and> gone then interrupted env hooked task agent
       else (case response of
           None \<Rightarrow> no_answer env hooked task agent
         | Some answer \<Rightarrow>
             if workflow_task hooked task \<and> py_strip answer = [] then no_answer env hooked task agent
             else judge_answer env hooked task agent answer)))"

definition run_agent :: "RunEnv \<Rightarrow> bool \<Rightarrow> TaskRow \<Rightarrow> pystr \<Rightarrow> Delegation \<Rightarrow> bool run" where
  "run_agent env hooked task agent delegation =
     act_then (re_before env agent)
       (act_bind (act_finally (re_delegate env agent delegation) (re_after env agent))
         (after_answer env hooked task agent))"

definition run_body :: "RunEnv \<Rightarrow> bool \<Rightarrow> TaskRow \<Rightarrow> pystr \<Rightarrow> bool run" where
  "run_body env hooked task agent =
     (if task_text env task = [] then
        act_then (repo_fail env task ''empty body'' (fence_of hooked task)) (act_return False)
      else if workflow_task hooked task then
        act_bind (delegation_for env task agent (run_delegation env task agent)) (\<lambda>delegation.
        act_then (hooks_begin env task agent)
          (act_bind (discarded task) (\<lambda>gone.
           if gone then interrupted env hooked task agent
           else run_agent env hooked task agent delegation)))
      else run_agent env hooked task agent (run_delegation env task agent))"

definition run :: "RunEnv \<Rightarrow> bool \<Rightarrow> TaskRow \<Rightarrow> pystr \<Rightarrow> bool run" where
  "run env hooked task agent = act_try (\<lambda>_. True) (run_body env hooked task agent) (\<lambda>e.
     act_then (abort_with env hooked task agent (error_text env e))
       (act_then (hand_off env task agent (error_text env e) (fence_of hooked task)) (act_return False)))"

section \<open>Review\<close>

definition plain_review_delegation :: "RunEnv \<Rightarrow> TaskRow \<Rightarrow> pystr \<Rightarrow> Delegation" where
  "plain_review_delegation env task agent =
     \<lparr> dg_id = ''task-review-'' @ show_int (t_id task),
       dg_task = text_or (t_description task) (''Revisar task '' @ show_int (t_id task)),
       dg_context = ''Task ID: '' @ show_int (t_id task) @ CHR 0x0A #
         ''Executor: '' @ text_or (or_empty (t_assigned_to task)) ''desconhecido'' @ [CHR 0x0A, CHR 0x0A] @
         ''Task original:'' @ CHR 0x0A # text_or (t_description task) (''[sem descri'' @ [CHR 0xE7, CHR 0xE3] @ ''o]'') @ [CHR 0x0A, CHR 0x0A] @
         ''Escopo enviado:'' @ CHR 0x0A # task_text env task @ [CHR 0x0A, CHR 0x0A] @
         ''Resultado do executor:'' @ CHR 0x0A # text_or (or_empty (t_result task)) ''[sem resultado]'',
       dg_expected = ''Primeira linha com ACEITE, RETENTATIVA, REPLANEJAR ou REJEITAR. '' @
         ''Depois justifique com evid'' @ [CHR 0xEA] @ ''ncia concreta e objetiva.'',
       dg_priority = text_or (or_empty (t_priority task)) ''normal'',
       dg_chain = [''task-reviewer'', agent], dg_run_id = None, dg_read_only = None \<rparr>"

definition emit_reassigned :: "TaskRow \<Rightarrow> pystr \<Rightarrow> pystr \<Rightarrow> unit run" where
  "emit_reassigned task reason agent = act_effect (ReviewReassigned (t_id task) (t_job_id task) reason agent)"

text \<open>A review without verdict leaves the delivery for another reviewer, or completes it when nobody is left.\<close>

definition reviewer_unavailable :: "RunEnv \<Rightarrow> bool \<Rightarrow> TaskRow \<Rightarrow> pystr \<Rightarrow> pystr \<Rightarrow> unit run" where
  "reviewer_unavailable env hooked task agent reason =
     act_bind (agent_available env agent) (\<lambda>here.
     act_bind (act_get (\<lambda>s. can_review (re_registry env) (re_active env s) (t_id task) (t_assigned_to task)
         (if here then [agent] else []) (db s))) (\<lambda>someone.
     if t_origin task \<noteq> ''workflow'' \<and> \<not> someone then
       act_then (act_write (complete_task (re_clock env) (t_id task) (t_result task) None
           (Some (''concluida sem revisao: '' @ agent @ '': '' @ reason)) None (fence_of hooked task)))
         (act_return ())
     else act_bind (act_write (return_review (re_clock env) (t_id task) agent reason (fence_of hooked task) here)) (\<lambda>ok.
       act_when ok (emit_reassigned task (''review sem veredito: '' @ reason) agent))))"

definition refuse_self_review :: "RunEnv \<Rightarrow> TaskRow \<Rightarrow> pystr \<Rightarrow> bool run" where
  "refuse_self_review env task agent =
     act_bind (act_write (transition_task (re_clock env) (t_id task) (status_value PENDING_REVIEW)
         (Some (t_result task)) (Some (t_notes task)) None None None None)) (\<lambda>ok.
     act_then (act_when ok (emit_reassigned task ''self-review rejected'' agent)) (act_return False))"

definition apply_verdict :: "RunEnv \<Rightarrow> bool \<Rightarrow> TaskRow \<Rightarrow> pystr \<Rightarrow> pystr option \<Rightarrow> bool run" where
  "apply_verdict env hooked task agent response =
     (case classify_task_review_result response of (accepted, verdict, review_text) \<Rightarrow>
      if \<not> accepted \<and> workflow_task hooked task then
        act_then (reviewed env task agent False review_text)
          (act_bind (hooks_rework env task (t_assigned_to task) review_text (Some (or_empty (t_result task))))
            (\<lambda>_. act_return False))
      else if \<not> accepted then
        act_bind (act_write (requeue_task_after_review (re_clock env) (t_id task)
            (text_or (or_empty (t_assigned_to task)) agent) (Some (or_empty (t_result task))) (Some review_text) None))
          (\<lambda>_. act_return False)
      else
        act_bind (act_write (complete_task (re_clock env) (t_id task) (Some (or_empty (t_result task))) (Some agent)
            None None (fence_of hooked task))) (\<lambda>ok.
        if \<not> ok then act_return False
        else act_then (if workflow_task hooked task then reviewed env task agent True review_text else act_return ())
          (act_return True)))"

definition after_review :: "RunEnv \<Rightarrow> bool \<Rightarrow> TaskRow \<Rightarrow> pystr \<Rightarrow> pystr option \<Rightarrow> bool run" where
  "after_review env hooked task agent response =
     act_bind (act_get (re_cancelled env)) (\<lambda>cancelled.
     if cancelled then act_then (repo_fail env task ''cancelled by user'' (fence_of hooked task)) (act_return False)
     else if py_strip (or_empty response) = [] then
       act_then (reviewer_unavailable env hooked task agent ''revisor sem resposta'') (act_return False)
     else apply_verdict env hooked task agent response)"

definition review_body :: "RunEnv \<Rightarrow> bool \<Rightarrow> TaskRow \<Rightarrow> pystr \<Rightarrow> bool run" where
  "review_body env hooked task agent =
     (if t_assigned_to task = Some agent then refuse_self_review env task agent
      else act_bind
        (if workflow_task hooked task then review_delegation env task agent (plain_review_delegation env task agent)
         else act_return (plain_review_delegation env task agent))
        (\<lambda>delegation. act_bind (re_delegate env agent delegation) (after_review env hooked task agent)))"

definition review :: "RunEnv \<Rightarrow> bool \<Rightarrow> TaskRow \<Rightarrow> pystr \<Rightarrow> bool run" where
  "review env hooked task agent = act_try (\<lambda>_. True) (review_body env hooked task agent) (\<lambda>e.
     act_then (reviewer_unavailable env hooked task agent (error_text env e)) (act_return False))"

end
