(* ===== verification/Task_Executor.thy ===== *)
theory Task_Executor
  imports Task_Runner
begin

text \<open>
  \<open>TaskExecutor\<close> (\<open>quimera/tasks/executor.py\<close>): the poller of one agent and its pool of workers, and
  the executors of all agents together as \<open>TaskExecutorPool\<close> (\<open>quimera/tasks/executor_pool.py\<close>) sets
  them up. A method that holds the claim lock is one step; so is the execution of a handler, whose
  agent call may change the database in between (\<open>re_delegate\<close>). What other threads and processes do
  between a claim and the reading of the claimed task is \<open>xe_meanwhile\<close>.
\<close>

section \<open>State\<close>

datatype work_kind = ForExecution | ForReview

record Worker =
  wk_kind :: work_kind
  wk_task :: TaskRow

datatype thread_pool = NoPool | OpenPool | ClosedPool
datatype poller = NoPoller | AtTop | Waiting

record Executor =
  x_max_workers :: int
  x_running :: bool
  x_stopped :: bool
  x_wake :: bool
  x_pool :: thread_pool
  x_poller :: poller
  x_futures :: "Worker list"

record ExecEnv =
  xe_agent :: pystr
  xe_job :: "int option"
  xe_clock :: pystr
  xe_handler :: "(TaskRow \<Rightarrow> bool run) option"
  xe_reviewer :: "(TaskRow \<Rightarrow> bool run) option"
  xe_eligible :: "Sys \<Rightarrow> bool"
  xe_gate :: "Sys \<Rightarrow> bool"
  xe_meanwhile :: "Sys \<Rightarrow> Sys"
  xe_error_text :: "run_error \<Rightarrow> pystr"

datatype executor_error = BadArgument pystr | StillRunning pystr

section \<open>Start and stop\<close>

text \<open>\<open>poll_interval\<close> is \<open>None\<close> where the code is given an infinity or no number.\<close>

definition new_executor :: "int \<Rightarrow> rat option \<Rightarrow> executor_error + Executor" where
  "new_executor max_workers poll_interval =
     (if max_workers < 1 then Inl (BadArgument ''max_workers must be a positive integer'')
      else if (case poll_interval of None \<Rightarrow> True | Some i \<Rightarrow> i \<le> 0)
        then Inl (BadArgument ''poll_interval must be finite and positive'')
      else Inr \<lparr> x_max_workers = max_workers, x_running = False, x_stopped = False, x_wake = False, x_pool = NoPool,
        x_poller = NoPoller, x_futures = [] \<rparr>)"

definition executor_start :: "Executor \<Rightarrow> executor_error + Executor" where
  "executor_start x =
     (if x_running x then Inr x
      else if x_futures x \<noteq> [] then Inl (StillRunning ''previous task workers are still running'')
      else if x_poller x \<noteq> NoPoller then Inl (StillRunning ''previous task poller is still running'')
      else Inr (x\<lparr>x_pool := OpenPool, x_running := True, x_stopped := False, x_wake := False, x_poller := AtTop\<rparr>))"

definition executor_stop :: "Executor \<Rightarrow> Executor" where
  "executor_stop x = x\<lparr>x_running := False, x_stopped := True, x_wake := True,
     x_pool := (if x_pool x = NoPool then NoPool else ClosedPool)\<rparr>"

definition executor_wake :: "Executor \<Rightarrow> Executor" where
  "executor_wake x = x\<lparr>x_wake := True\<rparr>"

section \<open>Claims\<close>

type_synonym 'a exec = "Executor \<Rightarrow> Sys \<Rightarrow> (run_error + 'a) \<times> Executor \<times> Sys"

definition claim_execution :: "ExecEnv \<Rightarrow> Sys \<Rightarrow> int option \<times> Sys" where
  "claim_execution env s = (case claim_task (xe_clock env) (xe_agent env) (xe_job env) (db s) of (tid, d) \<Rightarrow> (tid, s\<lparr>db := d\<rparr>))"

definition claim_delivery :: "ExecEnv \<Rightarrow> Sys \<Rightarrow> int option \<times> Sys" where
  "claim_delivery env s = (case claim_review_task (xe_clock env) (xe_agent env) (xe_job env) (db s) of (tid, d) \<Rightarrow> (tid, s\<lparr>db := d\<rparr>))"

definition load_task :: "int \<Rightarrow> Store \<Rightarrow> TaskRow option" where
  "load_task tid d = (case list_tasks [ById (Some tid)] d of [] \<Rightarrow> None | r # _ \<Rightarrow> Some r)"

definition fail_claimed :: "ExecEnv \<Rightarrow> int \<Rightarrow> pystr \<Rightarrow> Sys \<Rightarrow> Sys" where
  "fail_claimed env tid reason s = s\<lparr>db := snd (fail_task (xe_clock env) tid (Some reason) None None (db s))\<rparr>"

definition can_execute_loaded :: "ExecEnv \<Rightarrow> TaskRow \<Rightarrow> bool" where
  "can_execute_loaded env task \<longleftrightarrow> t_status task = status_value IN_PROGRESS \<and>
     \<not> (or_empty (t_assigned_to task) \<noteq> [] \<and> t_assigned_to task \<noteq> Some (xe_agent env))"

definition can_review_loaded :: "ExecEnv \<Rightarrow> TaskRow \<Rightarrow> bool" where
  "can_review_loaded env task \<longleftrightarrow> t_status task = status_value REVIEWING \<and> t_reviewed_by task = Some (xe_agent env)"

section \<open>Handlers\<close>

definition handler_of :: "ExecEnv \<Rightarrow> Worker \<Rightarrow> bool run" where
  "handler_of env w = (case (case wk_kind w of ForExecution \<Rightarrow> xe_handler env | ForReview \<Rightarrow> xe_reviewer env) of
     None \<Rightarrow> act_return False | Some h \<Rightarrow> h (wk_task w))"

text \<open>A handler that raises fails its task, if the task is still in the hands of this agent.\<close>

definition still_ours :: "ExecEnv \<Rightarrow> TaskRow \<Rightarrow> bool" where
  "still_ours env r \<longleftrightarrow>
     (t_status r = status_value IN_PROGRESS \<and> t_assigned_to r \<in> {None, Some [], Some (xe_agent env)}) \<or>
     (t_status r = status_value REVIEWING \<and> t_reviewed_by r = Some (xe_agent env))"

definition run_handler :: "ExecEnv \<Rightarrow> Worker \<Rightarrow> bool run" where
  "run_handler env w = act_try (\<lambda>_. True) (handler_of env w) (\<lambda>e.
     act_bind (act_ask (load_task (t_id (wk_task w)))) (\<lambda>current.
     if (case current of None \<Rightarrow> False | Some r \<Rightarrow> still_ours env r)
     then act_then (act_write (fail_task (xe_clock env) (t_id (wk_task w)) (Some (xe_error_text env e)) None None))
       (act_return False)
     else act_return False))"

definition submit_handler :: "ExecEnv \<Rightarrow> Worker \<Rightarrow> unit exec" where
  "submit_handler env w x s = (case x_pool x of
     NoPool \<Rightarrow> (map_sum id (\<lambda>_. ()) (fst (run_handler env w s)), x, snd (run_handler env w s))
   | OpenPool \<Rightarrow> (Inr (), x\<lparr>x_futures := x_futures x @ [w]\<rparr>, s)
   | ClosedPool \<Rightarrow> (Inl (AgentRaised ''cannot schedule new futures after shutdown''), x, s))"

text \<open>An exception after a claim fails the claimed task and goes on.\<close>

definition or_fail :: "ExecEnv \<Rightarrow> int \<Rightarrow> (run_error + unit) \<times> Executor \<times> Sys \<Rightarrow> (run_error + int option) \<times> Executor \<times> Sys" where
  "or_fail env tid r = (case r of
     (Inl e, x, s) \<Rightarrow> (Inl e, x, fail_claimed env tid (xe_error_text env e) s)
   | (Inr _, x, s) \<Rightarrow> (Inr (Some tid), x, s))"

definition dispatch_execution :: "ExecEnv \<Rightarrow> int \<Rightarrow> int option exec" where
  "dispatch_execution env tid x s = (case load_task tid (db s) of
     None \<Rightarrow> (Inr None, x, fail_claimed env tid ''task not found'' s)
   | Some r \<Rightarrow>
       if can_execute_loaded env r then or_fail env tid (submit_handler env \<lparr> wk_kind = ForExecution, wk_task = r \<rparr> x s)
       else (Inr None, x, s))"

definition dispatch_review :: "ExecEnv \<Rightarrow> int \<Rightarrow> int option exec" where
  "dispatch_review env tid x s = (case load_task tid (db s) of
     None \<Rightarrow> (Inr None, x, fail_claimed env tid ''review task not found'' s)
   | Some r \<Rightarrow>
       if can_review_loaded env r then or_fail env tid (submit_handler env \<lparr> wk_kind = ForReview, wk_task = r \<rparr> x s)
       else (Inr None, x, s))"

definition process_reviews :: "ExecEnv \<Rightarrow> bool \<Rightarrow> int option exec" where
  "process_reviews env include_reviews x s =
     (if include_reviews \<and> xe_reviewer env \<noteq> None \<and> xe_eligible env s
      then (case claim_delivery env s of
          (None, s') \<Rightarrow> (Inr None, x, s')
        | (Some tid, s') \<Rightarrow> dispatch_review env tid x (xe_meanwhile env s'))
      else (Inr None, x, s))"

definition process_next :: "ExecEnv \<Rightarrow> bool \<Rightarrow> int option exec" where
  "process_next env include_reviews x s =
     (if x_stopped x \<or> \<not> xe_gate env s then (Inr None, x, s)
      else if int (length (x_futures x)) \<ge> x_max_workers x then (Inr None, x, s)
      else if xe_handler env = None then process_reviews env include_reviews x s
      else (case claim_execution env s of
          (Some tid, s') \<Rightarrow> dispatch_execution env tid x (xe_meanwhile env s')
        | (None, s') \<Rightarrow> process_reviews env include_reviews x s'))"

section \<open>The poller and the workers\<close>

text \<open>One turn of the loop, up to its next claim or its wait; an exception of the turn is only logged.\<close>

definition poll_turn :: "ExecEnv \<Rightarrow> Executor \<Rightarrow> Sys \<Rightarrow> Executor \<times> Sys" where
  "poll_turn env x s =
     (if x_running x then
        (case process_next env True x s of
           (Inr (Some tid), x', s') \<Rightarrow> (x', s')
         | (_, x', s') \<Rightarrow> (x'\<lparr>x_poller := Waiting\<rparr>, s'))
      else (x\<lparr>x_poller := NoPoller\<rparr>, s))"

text \<open>The end of a wait, by the event or by the timeout.\<close>

definition wait_over :: "Executor \<Rightarrow> Executor" where
  "wait_over x = x\<lparr>x_wake := False, x_poller := (if x_running x then AtTop else NoPoller)\<rparr>"

text \<open>\<open>_worker_done\<close> drops the future and wakes the own poller; the peers are woken by the fleet.\<close>

definition worker_done :: "nat \<Rightarrow> Executor \<Rightarrow> Executor" where
  "worker_done k x = executor_wake (x\<lparr>x_futures := take k (x_futures x) @ drop (Suc k) (x_futures x)\<rparr>)"

section \<open>The executors of the pool\<close>

type_synonym fleet = "(ExecEnv \<times> Executor) list"

definition wake_peers :: "fleet \<Rightarrow> fleet" where
  "wake_peers fl = map (\<lambda>(env, x). (env, executor_wake x)) fl"

text \<open>
  \<open>claim_gate_for\<close>: an agent claims only while it is available, and the gate of the application is open.
\<close>

definition claim_gate_for :: "RunEnv \<Rightarrow> pystr \<Rightarrow> (Sys \<Rightarrow> bool) option \<Rightarrow> Sys \<Rightarrow> bool" where
  "claim_gate_for env agent gate s =
     (if \<not> is_available (re_registry env) (re_active env s) (re_available env s) agent then False
      else (case gate of None \<Rightarrow> True | Some g \<Rightarrow> g s))"

definition executor_env :: "RunEnv \<Rightarrow> int option \<Rightarrow> (Sys \<Rightarrow> bool) option \<Rightarrow> (Sys \<Rightarrow> Sys) \<Rightarrow> Sys \<Rightarrow> pystr \<Rightarrow> ExecEnv" where
  "executor_env env job gate meanwhile s agent =
     \<lparr> xe_agent = agent, xe_job = job, xe_clock = re_clock env,
       xe_handler = Some (\<lambda>task. run env True task agent),
       xe_reviewer = (if agent \<in> set (review_agents_for (re_registry env) (re_active env s) None [])
         then Some (\<lambda>task. review env True task agent) else None),
       xe_eligible = (\<lambda>t. is_operational_review_agent (re_registry env) (re_active env t) agent),
       xe_gate = claim_gate_for env agent gate, xe_meanwhile = meanwhile, xe_error_text = error_text env \<rparr>"

text \<open>The factory uses the defaults: two workers, polling every five seconds.\<close>

definition setup_executors :: "RunEnv \<Rightarrow> int option \<Rightarrow> (Sys \<Rightarrow> bool) option \<Rightarrow> (Sys \<Rightarrow> Sys) \<Rightarrow> Sys \<Rightarrow> executor_error + fleet" where
  "setup_executors env job gate meanwhile s = map_res (\<lambda>agent.
     bind_res (new_executor 2 (Some 5)) (\<lambda>x.
     bind_res (executor_start x) (\<lambda>x'. Inr (executor_env env job gate meanwhile s agent, x')))) (re_active env s)"

definition stop_executors :: "fleet \<Rightarrow> fleet" where
  "stop_executors fl = map (\<lambda>(env, x). (env, executor_stop x)) fl"

text \<open>
  One step of the executors and their surroundings: a poller, a worker that ends, a manual round, a
  call of \<open>start\<close>, \<open>stop\<close> or \<open>wake\<close>, or a change of the database by others (\<open>others\<close>).
\<close>

inductive fleet_step :: "(Store \<Rightarrow> Store \<Rightarrow> bool) \<Rightarrow> fleet \<times> Sys \<Rightarrow> fleet \<times> Sys \<Rightarrow> bool"
  for others :: "Store \<Rightarrow> Store \<Rightarrow> bool" where
  poll: "i < length fl \<Longrightarrow> fl ! i = (env, x) \<Longrightarrow> x_poller x = AtTop \<Longrightarrow> poll_turn env x s = (x', s') \<Longrightarrow>
    fleet_step others (fl, s) (fl[i := (env, x')], s')"
| waited: "i < length fl \<Longrightarrow> fl ! i = (env, x) \<Longrightarrow> x_poller x = Waiting \<Longrightarrow>
    fleet_step others (fl, s) (fl[i := (env, wait_over x)], s)"
| manual: "i < length fl \<Longrightarrow> fl ! i = (env, x) \<Longrightarrow> process_next env False x s = (r, x', s') \<Longrightarrow>
    fleet_step others (fl, s) (fl[i := (env, x')], s')"
| worker: "i < length fl \<Longrightarrow> fl ! i = (env, x) \<Longrightarrow> k < length (x_futures x) \<Longrightarrow>
    run_handler env (x_futures x ! k) s = (r, s') \<Longrightarrow>
    fleet_step others (fl, s) (wake_peers (fl[i := (env, worker_done k x)]), s')"
| started: "i < length fl \<Longrightarrow> fl ! i = (env, x) \<Longrightarrow> executor_start x = Inr x' \<Longrightarrow>
    fleet_step others (fl, s) (fl[i := (env, x')], s)"
| stopped: "fleet_step others (fl, s) (stop_executors fl, s)"
| woken: "i < length fl \<Longrightarrow> fl ! i = (env, x) \<Longrightarrow> fleet_step others (fl, s) (fl[i := (env, executor_wake x)], s)"
| other: "others (db s) (db s') \<Longrightarrow> fleet_step others (fl, s) (fl, s')"

end
