(* ===== verification/Worker_Contract.thy ===== *)
theory Worker_Contract
  imports Task_Runner
begin

text \<open>
  What the runner and the reviewer rely on, and what they do: the locale \<open>worker_store\<close> lists the
  writes of the repositories they make, for a reflexive and transitive relation between databases
  that each of these writes satisfies. Inside it, an execution and a review satisfy the relation in
  every outcome, provided the agents they call do.
\<close>

definition agents_keep :: "(Store \<Rightarrow> Store \<Rightarrow> bool) \<Rightarrow> RunEnv \<Rightarrow> bool" where
  "agents_keep R env \<longleftrightarrow> (\<forall>agent. act_keeps R (re_before env agent) \<and> act_keeps R (re_after env agent) \<and>
     (\<forall>dg. act_keeps R (re_delegate env agent dg)))"

named_theorems works "contracts of the steps of a worker"

declare act_keeps_splits [works]

locale worker_store = store_preorder R for R +
  assumes by_requeue: "R d (snd (requeue_task now tid agent ropt e x d))"
    and by_submit: "R d (snd (submit_for_review now tid res e d))"
    and by_complete: "R d (snd (complete_task now tid res rvw remark ex e d))"
    and by_fail: "R d (snd (fail_task now tid ropt e st d))"
    and by_review_requeue: "R d (snd (requeue_task_after_review now tid agent res remark e d))"
    and by_return: "R d (snd (return_review now tid agent reason e x d))"
    and by_rework: "R d (snd (rework_task now tid owner reason res e mx d))"
    and by_review_again: "R d (snd (transition_task now tid (status_value PENDING_REVIEW) a b c f e st d))"
    and by_close: "R d (finish_attempt now tid n agent words h ropt d)"
    and by_begin: "begin_attempt now tid n agent rid d = Inr d' \<Longrightarrow> R d d'"
begin

declare keeps_pure [works] keeps_bind [works] keeps_then [works] keeps_when [works] keeps_try [works] keeps_each [works]
  keeps_get [works] keeps_finally [works]

lemma keeps_worker_writes [works]:
  "act_keeps R (act_write (requeue_task now tid agent ropt e x))"
  "act_keeps R (act_write (submit_for_review now tid res e))"
  "act_keeps R (act_write (complete_task now tid res rvw remark ex e))"
  "act_keeps R (act_write (fail_task now tid ropt e st))"
  "act_keeps R (act_write (requeue_task_after_review now tid agent res remark e))"
  "act_keeps R (act_write (return_review now tid agent reason e x))"
  "act_keeps R (act_write (rework_task now tid owner reason res e mx))"
  "act_keeps R (act_write (transition_task now tid (status_value PENDING_REVIEW) a b c f e st))"
  by (rule keeps_write, rule by_requeue by_submit by_complete by_fail by_review_requeue by_return by_rework by_review_again)+

lemma keeps_close [works]: "act_keeps R (close_attempt env task agent words h reason)"
  unfolding close_attempt_def by (rule keeps_write) (simp add: by_close)

lemma keeps_begin [works]: "act_keeps R (hooks_begin env task agent)"
  unfolding hooks_begin_def
  by (intro works keeps_commit) (auto simp: map_sum_def by_begin split: sum.splits)

lemma keeps_reading [works]:
  "act_keeps R (task_link task)" "act_keeps R (task_spec task)"
  "act_keeps R (discarded task)" "act_keeps R (agent_available env agent)"
proof -
  show "act_keeps R (task_link task)" unfolding task_link_def by (intro works)
  show "act_keeps R (task_spec task)"
    unfolding task_spec_def Let_def by (auto split: option.splits json.splits intro: works)
  show "act_keeps R (discarded task)" unfolding discarded_def by (intro works)
  show "act_keeps R (agent_available env agent)" unfolding agent_available_def by (intro works)
qed

lemma keeps_dependency [works]: "act_keeps R (dependency_result env task dep)"
  unfolding dependency_result_def
  by (intro works) (auto split: list.splits option.splits intro!: works)

lemma keeps_delegations [works]:
  "act_keeps R (delegation_for env task agent base)"
  "act_keeps R (review_delegation env task agent base)"
  unfolding delegation_for_def review_delegation_def accepted_dependencies_def Let_def by (intro works)+

lemma keeps_hooks [works]:
  "act_keeps R (hooks_finish env task agent response)"
  "act_keeps R (hooks_rework env task owner reason res)"
  "act_keeps R (abort_with env hooked task agent reason)"
  "act_keeps R (reviewed env task agent acc words)"
  "act_keeps R (repo_fail env task reason f)"
  unfolding hooks_finish_def hooks_rework_def abort_with_def hooks_abort_def reviewed_def repo_fail_def Let_def
  by (intro works)+

lemma keeps_ends [works]:
  "act_keeps R (hand_off env task agent reason f)"
  "act_keeps R (hand_in env task agent res f)"
  "act_keeps R (interrupted env hooked task agent)"
  "act_keeps R (emit_reassigned task reason agent)"
  unfolding hand_off_def hand_in_def interrupted_def emit_reassigned_def by (intro works)+

lemma keeps_answers [works]:
  "act_keeps R (no_answer env hooked task agent)"
  "act_keeps R (judge_answer env hooked task agent answer)"
  "act_keeps R (reviewer_unavailable env hooked task agent reason)"
  "act_keeps R (refuse_self_review env task agent)"
  "act_keeps R (apply_verdict env hooked task agent response)"
  unfolding no_answer_def judge_answer_def reviewer_unavailable_def refuse_self_review_def apply_verdict_def by (intro works)+

lemma keeps_after [works]:
  "act_keeps R (after_answer env hooked task agent response)"
  "act_keeps R (after_review env hooked task agent response)"
  unfolding after_answer_def after_review_def by (intro works)+

lemma keeps_run:
  assumes "agents_keep R env"
  shows "act_keeps R (run env hooked task agent)"
proof -
  have "act_keeps R (run_agent env hooked task agent dg)" for dg
    using assms unfolding run_agent_def agents_keep_def by (intro works) blast+
  then show ?thesis unfolding run_def run_body_def by (intro works)
qed

lemma keeps_review:
  assumes "agents_keep R env"
  shows "act_keeps R (review env hooked task agent)"
  using assms unfolding review_def review_body_def agents_keep_def by (intro works) blast+

end

end
