(* ===== verification/Runner_Guarantees.thy ===== *)
theory Runner_Guarantees
  imports Worker_Contract Coordinator_Runs
begin

text \<open>
  What one execution and one review guarantee in every outcome: they never leave their task behind
  in the status they found it in, whatever agents, callbacks and other workers do meanwhile; a
  review completes a task only on an acceptance; and both move the database only along the
  operations of the repositories, so the invariants of \<open>Workflow_Guarantees\<close> hold under them.
\<close>

section \<open>Leaving a status\<close>

definition left_behind :: "TaskStatus \<Rightarrow> int option \<Rightarrow> int \<Rightarrow> Store \<Rightarrow> bool" where
  "left_behind st attempt_fence tid s \<longleftrightarrow> (\<exists>r. task_at s tid = Some r \<and> t_status r = status_value st \<and>
     (attempt_fence = None \<or> attempt_fence = Some (t_attempt_count r)))"

definition working :: "TaskStatus \<Rightarrow> bool" where
  "working st \<longleftrightarrow> st = IN_PROGRESS \<or> st = REVIEWING"

lemma not_left_unfenced: "\<not> left_behind st None tid s \<Longrightarrow> \<not> left_behind st f tid s"
  by (auto simp: left_behind_def)

lemma left_behind_publish [simp]: "left_behind st f tid (publish_event e s) = left_behind st f tid s"
  by (simp add: left_behind_def)

lemma left_behind_event [simp]: "left_behind st f tid (transition_event i j t a r s) = left_behind st f tid s"
  by (simp add: left_behind_def task_at_def)

lemma left_behind_update: "(\<And>r. t_id (f r) = t_id r) \<Longrightarrow> (\<And>r. t_status (f r) \<noteq> status_value st) \<Longrightarrow>
    \<not> left_behind st e tid (update_task_row tid f s)"
  by (auto simp: left_behind_def task_at_update_task_row)

lemma working_moves: "working st \<Longrightarrow> to \<in> {PENDING, PENDING_REVIEW, COMPLETED, FAILED} \<Longrightarrow>
    can_transition (status_value st) (status_value to) \<and> to \<noteq> st"
  by (auto simp: working_def)

lemma stale_left: "task_at s tid = Some r \<Longrightarrow> \<not> can_transition (t_status r) (status_value to) \<or> stale_attempt (t_attempt_count r) f \<Longrightarrow>
    working st \<Longrightarrow> to \<in> {PENDING, PENDING_REVIEW, COMPLETED, FAILED} \<Longrightarrow> \<not> left_behind st f tid s"
  using working_moves [of st to] by (auto simp: left_behind_def stale_attempt_def split: option.splits)

lemma absent_left: "task_at s tid = None \<Longrightarrow> \<not> left_behind st f tid s"
  by (simp add: left_behind_def)

lemmas leave_simps = Let_def publish_requeue_def left_behind_update absent_left working_def

lemma leaves_requeue: "working st \<Longrightarrow> \<not> left_behind st f tid (snd (requeue_task now tid agent reason f exclude s))"
  by (auto simp: requeue_task_def leave_simps dest: stale_left split: option.splits)

lemma leaves_submit: "working st \<Longrightarrow> \<not> left_behind st f tid (snd (submit_for_review now tid res f s))"
  by (auto simp: submit_for_review_def leave_simps dest: stale_left split: option.splits)

lemma leaves_complete: "working st \<Longrightarrow> \<not> left_behind st f tid (snd (complete_task now tid res rvw notes ex f s))"
  by (auto simp: complete_task_def leave_simps dest: stale_left split: option.splits)

lemma leaves_review_requeue:
  "working st \<Longrightarrow> \<not> left_behind st f tid (snd (requeue_task_after_review now tid agent res notes f s))"
  by (auto simp: requeue_task_after_review_def leave_simps dest: stale_left split: option.splits)

lemma leaves_return: "working st \<Longrightarrow> \<not> left_behind st f tid (snd (return_review now tid agent reason f exclude s))"
  by (auto simp: return_review_def leave_simps dest: stale_left split: option.splits)

lemma leaves_rework: "working st \<Longrightarrow> \<not> left_behind st f tid (snd (rework_task now tid owner reason res f mx s))"
  by (auto simp: rework_task_def leave_simps dest: stale_left split: option.splits)

lemma leaves_transition: "working st \<Longrightarrow> to \<in> {PENDING, PENDING_REVIEW, COMPLETED, FAILED} \<Longrightarrow>
    \<not> left_behind st f tid (snd (transition_task now tid (status_value to) res notes appr asg f None s))"
  using stale_left [of s tid _ to f st] working_moves [of st to]
  by (auto simp: transition_task_def leave_simps split: option.splits)

lemma leaves_fail: "working st \<Longrightarrow> \<not> left_behind st f tid (snd (fail_task now tid reason f None s))"
  unfolding fail_task_def by (rule leaves_transition) simp_all

lemma left_behind_finish: "left_behind st f tid (finish_attempt now t n agent status h reason s) = left_behind st f tid s"
  by (simp add: left_behind_def finish_attempt_def task_at_def)


section \<open>Every outcome leaves the status\<close>

abbreviation settles :: "bool \<Rightarrow> TaskRow \<Rightarrow> TaskStatus \<Rightarrow> 'a run \<Rightarrow> bool" where
  "settles hooked task st m \<equiv> act_ends (\<lambda>_. True) m (\<lambda>d. \<not> left_behind st (fence_of hooked task) (t_id task) d)"

lemma keeps_settled_close: "act_ends (\<lambda>d. \<not> left_behind st f tid d) (close_attempt env task agent status h reason)
    (\<lambda>d. \<not> left_behind st f tid d)"
  unfolding close_attempt_def by (intro ends_write) (simp add: left_behind_finish)

lemma keeps_settled_abort: "act_ends (\<lambda>d. \<not> left_behind st f tid d) (abort_with env hooked task agent reason)
    (\<lambda>d. \<not> left_behind st f tid d)"
  unfolding abort_with_def hooks_abort_def
  by (intro ends_if ends_ask ends_return ends_pre [OF keeps_settled_close]) auto

lemma settles_fail: "working st \<Longrightarrow> settles hooked task st (repo_fail env task reason (fence_of hooked task))"
  unfolding repo_fail_def by (intro ends_write leaves_fail)

lemma settles_hand_off: "working st \<Longrightarrow> settles hooked task st (hand_off env task agent reason (fence_of hooked task))"
  unfolding hand_off_def by (intro ends_last ends_if ends_write leaves_requeue settles_fail)

lemma settles_hand_in: "working st \<Longrightarrow> settles hooked task st (hand_in env task agent res (fence_of hooked task))"
  unfolding hand_in_def by (intro ends_last ends_if ends_write leaves_submit leaves_complete)

lemma settles_rework: "working st \<Longrightarrow> workflow_task hooked task \<Longrightarrow> settles hooked task st (hooks_rework env task owner reason res)"
  unfolding hooks_rework_def by (intro ends_write) (simp add: fence_of_def leaves_rework)

text \<open>A discarded attempt is not in progress any more.\<close>

lemma filter_find: "(case filter P xs of [] \<Rightarrow> a | x # _ \<Rightarrow> g x) = (case find P xs of None \<Rightarrow> a | Some x \<Rightarrow> g x)"
  by (induction xs) auto

lemma discard_reason_at: "discard_reason task d = (case task_at d (t_id task) of
     None \<Rightarrow> Some ''cancelled''
   | Some r \<Rightarrow> if t_status r = status_value CANCELLED then Some ''cancelled''
       else if t_attempt_count r \<noteq> t_attempt_count task then Some ''superseded'' else None)"
  by (simp add: discard_reason_def list_tasks_def sql_eq_def filter_find task_at_def)

lemma discarded_settled: "workflow_task hooked task \<Longrightarrow> discard_reason task d \<noteq> None \<Longrightarrow>
    \<not> left_behind IN_PROGRESS (fence_of hooked task) (t_id task) d"
  by (auto simp: discard_reason_at left_behind_def fence_of_def split: if_splits)

lemma settles_interrupted:
  "act_ends (\<lambda>d. \<not> left_behind st (fence_of hooked task) (t_id task) d) (interrupted env hooked task agent)
    (\<lambda>d. \<not> left_behind st (fence_of hooked task) (t_id task) d)"
  unfolding interrupted_def by (intro ends_seq [OF keeps_settled_abort] ends_return)

lemma settles_no_answer: "working st \<Longrightarrow> settles hooked task st (no_answer env hooked task agent)"
  unfolding no_answer_def by (intro ends_last ends_then_last ends_then_return settles_hand_off)

lemma settles_judge: "settles hooked task IN_PROGRESS (judge_answer env hooked task agent response)"
proof -
  have w: "working IN_PROGRESS" by (simp add: working_def)
  have plain: "fence_of hooked task = None" if "\<not> workflow_task hooked task" using that by (simp add: fence_of_def)
  have gone: "act_ends (\<lambda>d. True \<and> (discard_reason task d \<noteq> None) = g)
      (if g then act_return False else act_bind (hooks_rework env task (Some agent) res None) (\<lambda>_. act_return False))
      (\<lambda>d. \<not> left_behind IN_PROGRESS (fence_of hooked task) (t_id task) d)" if "workflow_task hooked task" for g res
  proof (cases g)
    case True
    then show ?thesis using discarded_settled [OF that] by (auto intro!: ends_return)
  next
    case False
    then show ?thesis using ends_weaken [OF ends_map [OF settles_rework [OF w that]]] by simp
  qed
  show ?thesis
  proof (cases "workflow_task hooked task")
    case True
    then show ?thesis
      unfolding judge_answer_def discarded_def
      by (simp, intro ends_last ends_prod ends_if ends_ask gone settles_hand_in w) simp_all
  next
    case False
    then show ?thesis
      using settles_hand_off [OF w, where hooked = hooked and task = task] settles_hand_in [OF w, where hooked = hooked and task = task]
      unfolding judge_answer_def plain [OF False]
      by (auto intro!: ends_prod ends_if ends_then_return)
  qed
qed


lemma settles_after_answer: "settles hooked task IN_PROGRESS (after_answer env hooked task agent response)"
proof -
  have w: "working IN_PROGRESS" by (simp add: working_def)
  have gone: "act_ends (\<lambda>d. True \<and> (discard_reason task d \<noteq> None) = g) (interrupted env hooked task agent)
      (\<lambda>d. \<not> left_behind IN_PROGRESS (fence_of hooked task) (t_id task) d)" if "workflow_task hooked task" "g" for g
    using discarded_settled [OF that(1)] that(2) by (intro ends_pre [OF settles_interrupted]) auto
  show ?thesis
    unfolding after_answer_def discarded_def
    by (intro ends_last ends_if ends_then_last ends_then_return ends_ask ends_option settles_fail w
        gone ends_weaken [OF settles_no_answer] ends_weaken [OF settles_judge]) simp_all
qed

lemma settles_run_body: "settles hooked task IN_PROGRESS (run_body env hooked task agent)"
proof -
  have w: "working IN_PROGRESS" by (simp add: working_def)
  have agent: "settles hooked task IN_PROGRESS (run_agent env hooked task agent delegation)" for delegation
    unfolding run_agent_def by (intro ends_then_last ends_last settles_after_answer)
  have rest: "act_ends (\<lambda>d. True \<and> (discard_reason task d \<noteq> None) = g)
      (if g then interrupted env hooked task agent else run_agent env hooked task agent delegation)
      (\<lambda>d. \<not> left_behind IN_PROGRESS (fence_of hooked task) (t_id task) d)" if "workflow_task hooked task" for g delegation
    using discarded_settled [OF that]
    by (intro ends_if ends_pre [OF settles_interrupted] ends_weaken [OF agent]) auto
  show ?thesis
    unfolding run_body_def discarded_def
    by (intro ends_if ends_last ends_then_last ends_then_return ends_ask rest agent settles_fail w)
qed

lemma totals_abort [totals]: "act_total (abort_with env hooked task agent reason)"
  unfolding abort_with_def hooks_abort_def close_attempt_def by (intro totals)

lemma totals_hand_off [totals]: "act_total (hand_off env task agent reason f)"
  unfolding hand_off_def agent_available_def repo_fail_def by (intro totals)

lemma totals_unavailable [totals]: "act_total (reviewer_unavailable env hooked task agent reason)"
  unfolding reviewer_unavailable_def agent_available_def emit_reassigned_def by (intro totals)

lemma settles_run: "settles hooked task IN_PROGRESS (run env hooked task agent)"
  unfolding run_def
  by (intro ends_try settles_run_body ends_then_last ends_then_return settles_hand_off) (simp add: working_def)

lemma total_run: "act_total (run env hooked task agent)"
  unfolding run_def by (intro totals_try totals)

subsection \<open>Reviews\<close>

lemma settles_unavailable: "settles hooked task REVIEWING (reviewer_unavailable env hooked task agent reason)"
proof -
  have w: "working REVIEWING" by (simp add: working_def)
  have emit: "act_ends (\<lambda>d. \<not> left_behind st f tid d) (act_when ok (emit_reassigned task t agent)) (\<lambda>d. \<not> left_behind st f tid d)"
    for st f tid ok t by (auto simp: act_when_def emit_reassigned_def act_ends_def)
  have ret: "act_ends (\<lambda>_. True) (act_bind (act_write (return_review now (t_id task) agent r (fence_of hooked task) here))
      (\<lambda>ok. act_when ok (emit_reassigned task t agent))) (\<lambda>d. \<not> left_behind REVIEWING (fence_of hooked task) (t_id task) d)"
    for now r here t
    using leaves_return [OF w] by (auto simp: act_ends_def act_bind_Inr act_write_def act_when_def emit_reassigned_def)
  show ?thesis
    unfolding reviewer_unavailable_def
    by (intro ends_last ends_if ends_then_return ends_write leaves_complete w ret)
qed

lemma settles_verdict: "settles hooked task REVIEWING (apply_verdict env hooked task agent response)"
proof -
  have w: "working REVIEWING" by (simp add: working_def)
  have seen: "act_ends (\<lambda>d. \<not> left_behind st f tid d) (reviewed env task agent acc words) (\<lambda>d. \<not> left_behind st f tid d)"
    for st f tid acc words
    unfolding reviewed_def by (intro ends_if ends_return keeps_settled_close)
  have complete: "act_ends (\<lambda>_. True) (act_bind (act_write (complete_task now (t_id task) res rvw remark ex (fence_of hooked task)))
      (\<lambda>ok. if \<not> ok then act_return False
        else act_then (if workflow_task hooked task then reviewed env task agent True words else act_return ()) (act_return True)))
      (\<lambda>d. \<not> left_behind REVIEWING (fence_of hooked task) (t_id task) d)" for now res rvw remark ex words
  proof -
    have first: "act_ends (\<lambda>_. True) (act_write (complete_task now (t_id task) res rvw remark ex (fence_of hooked task)))
        (\<lambda>d. \<not> left_behind REVIEWING (fence_of hooked task) (t_id task) d)" by (intro ends_write leaves_complete w)
    have rest: "act_ends (\<lambda>d. \<not> left_behind REVIEWING (fence_of hooked task) (t_id task) d) (if \<not> ok then act_return False
        else act_then (if workflow_task hooked task then reviewed env task agent True words else act_return ()) (act_return True))
      (\<lambda>d. \<not> left_behind REVIEWING (fence_of hooked task) (t_id task) d)" for ok
      by (intro ends_if ends_then_return ends_return seen)
    show ?thesis by (rule ends_bind [OF first rest])
  qed
  have requeue: "settles hooked task REVIEWING (act_bind (act_write (requeue_task_after_review now (t_id task) a res remark None)) (\<lambda>_. act_return False))"
    for now a res remark
    by (intro ends_map ends_write not_left_unfenced [OF leaves_review_requeue] w)
  show ?thesis
    unfolding apply_verdict_def
    by (intro ends_prod ends_if ends_then_last complete requeue ends_map settles_rework w) simp_all
qed

lemma settles_self_review: "settles hooked task REVIEWING (refuse_self_review env task agent)"
proof -
  have "\<not> left_behind REVIEWING f (t_id task) (snd (transition_task now (t_id task) (status_value PENDING_REVIEW) a b c d None None s))"
    for f now a b c d s by (intro not_left_unfenced [OF leaves_transition]) (simp_all add: working_def)
  then show ?thesis
    unfolding refuse_self_review_def
    by (auto simp: act_ends_def act_bind_Inr act_then_Inr act_write_def act_when_def emit_reassigned_def)
qed

lemma settles_review: "settles hooked task REVIEWING (review env hooked task agent)"
proof -
  have w: "working REVIEWING" by (simp add: working_def)
  have after: "settles hooked task REVIEWING (after_review env hooked task agent response)" for response
    unfolding after_review_def
    by (intro ends_last ends_if ends_then_return settles_fail w settles_unavailable settles_verdict)
  show ?thesis
    unfolding review_def review_body_def
    by (intro ends_try ends_if ends_then_return settles_unavailable settles_self_review ends_last after)
qed

lemma total_review: "act_total (review env hooked task agent)"
  unfolding review_def by (intro totals_try totals)

text \<open>
  C7. An execution and a review always come to an end of their own, whatever the agent answers or
  raises, whatever the callbacks raise and whatever happened to the task meanwhile; afterwards the
  task is not left behind in progress (or under review) for the attempt that was run: of a plain
  task the status has been left, of a workflow task it may only be in use again by a later attempt.
\<close>

theorem no_attempt_stranded:
  "(\<exists>b s'. run env hooked task agent s = (Inr b, s') \<and> \<not> left_behind IN_PROGRESS (fence_of hooked task) (t_id task) (db s')) \<and>
   (\<exists>b s'. review env hooked task agent s = (Inr b, s') \<and> \<not> left_behind REVIEWING (fence_of hooked task) (t_id task) (db s'))"
proof -
  obtain b s' where r: "run env hooked task agent s = (Inr b, s')" using total_run unfolding act_total_def by blast
  obtain c s'' where v: "review env hooked task agent s = (Inr c, s'')" using total_review unfolding act_total_def by blast
  show ?thesis
    using act_endsD [OF settles_run _ r] act_endsD [OF settles_review _ v] r v by auto
qed


section \<open>Acceptance\<close>

definition completed_in :: "int \<Rightarrow> Store \<Rightarrow> bool" where
  "completed_in tid s \<longleftrightarrow> (\<exists>r. task_at s tid = Some r \<and> t_status r = status_value COMPLETED)"

abbreviation not_completed_by :: "int \<Rightarrow> Store \<Rightarrow> Store \<Rightarrow> bool" where
  "not_completed_by tid s t \<equiv> completed_in tid t \<longrightarrow> completed_in tid s"

interpretation uncompleted: store_preorder "not_completed_by tid" for tid
  by unfold_locales auto

lemma completed_publish [simp]: "completed_in tid (publish_event e s) = completed_in tid s"
  by (simp add: completed_in_def)

lemma completed_event [simp]: "completed_in tid (transition_event i j t a r s) = completed_in tid s"
  by (simp add: completed_in_def task_at_def)

lemma completed_update: "(\<And>r. t_id (f r) = t_id r) \<Longrightarrow> (\<And>r. t_status (f r) \<noteq> status_value COMPLETED) \<Longrightarrow>
    not_completed_by tid s (update_task_row i f s)"
  by (auto simp: completed_in_def task_at_update_task_row split: if_splits)

lemmas completed_simps = Let_def publish_requeue_def completed_update

lemma uncompleted_writes:
  "not_completed_by tid s (snd (requeue_task_after_review now i a res rsn f s))"
  "not_completed_by tid s (snd (return_review now i a rsn2 f x s))"
  "not_completed_by tid s (snd (rework_task now i owner rsn2 res f mx s))"
  "not_completed_by tid s (snd (fail_task now i rsn f st s))"
  "not_completed_by tid s (snd (transition_task now i (status_value PENDING_REVIEW) b c d e f st s))"
  "not_completed_by tid s (finish_attempt now i n a words h rsn s)"
proof -
  note d = requeue_task_after_review_def return_review_def rework_task_def fail_task_def transition_task_def
  have u: "completed_in tid (update_task_row i f s) \<Longrightarrow> completed_in tid s"
    if "\<And>r. t_id (f r) = t_id r" "\<And>r. t_status (f r) \<noteq> status_value COMPLETED" for f
    using completed_update [where f = f and tid = tid and s = s and i = i] that by blast
  show "not_completed_by tid s (snd (requeue_task_after_review now i a res rsn f s))"
    "not_completed_by tid s (snd (return_review now i a rsn2 f x s))"
    "not_completed_by tid s (snd (rework_task now i owner rsn2 res f mx s))"
    "not_completed_by tid s (snd (fail_task now i rsn f st s))"
    "not_completed_by tid s (snd (transition_task now i (status_value PENDING_REVIEW) b c d e f st s))"
    by (auto simp: d Let_def publish_requeue_def split: option.splits if_splits elim!: u [rotated -1])
  show "not_completed_by tid s (finish_attempt now i n a words h rsn s)"
    by (simp add: completed_in_def finish_attempt_def task_at_def)
qed


text \<open>An action that completes the task only if it returns \<open>True\<close>.\<close>

definition quiet :: "int \<Rightarrow> bool run \<Rightarrow> bool" where
  "quiet tid m \<longleftrightarrow> (\<forall>s r s'. m s = (r, s') \<longrightarrow> r \<noteq> Inr True \<longrightarrow> not_completed_by tid (db s) (db s'))"

lemma quiet_keeps: "act_keeps (not_completed_by tid) m \<Longrightarrow> quiet tid m"
  by (auto simp: quiet_def act_keeps_def)

lemma quiet_if: "(c \<Longrightarrow> quiet tid m) \<Longrightarrow> (\<not> c \<Longrightarrow> quiet tid m') \<Longrightarrow> quiet tid (if c then m else m')"
  by simp

lemma quiet_bind:
  assumes "act_keeps (not_completed_by tid) m" and "\<And>x. quiet tid (f x)"
  shows "quiet tid (act_bind m f)"
proof -
  have "not_completed_by tid (db s) (db s')" if b: "act_bind m f s = (r, s')" and r: "r \<noteq> Inr True" for s r s'
  proof -
    obtain a t where m: "m s = (a, t)" by fastforce
    have "not_completed_by tid (db s) (db t)" using act_keepsD [OF assms(1) m] .
    moreover have "not_completed_by tid (db t) (db s')"
    proof (cases a)
      case (Inl e)
      then show ?thesis using b m by (simp add: act_bind_def)
    next
      case (Inr x)
      then have "f x t = (r, s')" using b m by (simp add: act_bind_def)
      then show ?thesis using assms(2) [of x] r unfolding quiet_def by blast
    qed
    ultimately show ?thesis by blast
  qed
  then show ?thesis unfolding quiet_def by blast
qed

lemma quiet_try:
  assumes "quiet tid m" and "\<And>e. act_keeps (not_completed_by tid) (h e)"
  shows "quiet tid (act_try (\<lambda>_. True) m h)"
proof -
  have "not_completed_by tid (db s) (db s')" if t: "act_try (\<lambda>_. True) m h s = (r, s')" and r: "r \<noteq> Inr True" for s r s'
  proof -
    obtain a u where m: "m s = (a, u)" by fastforce
    show ?thesis
    proof (cases a)
      case (Inl e)
      then have "h e u = (r, s')" using t m by (simp add: act_try_def)
      from act_keepsD [OF assms(2) this] assms(1) m Inl show ?thesis unfolding quiet_def by blast
    next
      case (Inr x)
      with t m r assms(1) show ?thesis by (simp add: act_try_def quiet_def)
    qed
  qed
  then show ?thesis unfolding quiet_def by blast
qed

lemma uncompleted_unavailable:
  assumes "t_origin task = ''workflow''"
  shows "act_keeps (not_completed_by tid) (reviewer_unavailable env hooked task agent reason)"
proof -
  have no: "(t_origin task \<noteq> ''workflow'' \<and> \<not> someone) = False" for someone using assms by blast
  have handed: "act_keeps (not_completed_by tid) (act_bind (act_write (return_review now i a rsn f here))
      (\<lambda>ok. act_when ok (act_effect ef)))" for now i a rsn f here ef
    by (intro uncompleted.keeps_bind uncompleted.keeps_write uncompleted.keeps_when uncompleted.keeps_pure uncompleted_writes)
  show ?thesis
    unfolding reviewer_unavailable_def agent_available_def emit_reassigned_def no if_False
    by (intro uncompleted.keeps_bind uncompleted.keeps_get handed)
qed

lemma uncompleted_reviewed: "act_keeps (not_completed_by tid) (reviewed env task agent acc words)"
  unfolding reviewed_def close_attempt_def
  by (intro act_keeps_if uncompleted.keeps_write uncompleted.keeps_pure) (unfold snd_conv, rule uncompleted_writes)

lemma quiet_complete:
  "quiet (t_id task) (act_bind (act_write (complete_task now (t_id task) res rvw remark ex f))
      (\<lambda>ok. if \<not> ok then act_return False
        else act_then (if workflow_task hooked task then reviewed env task agent True words else act_return ()) (act_return True)))"
  (is "quiet _ (act_bind ?done_write ?rest)")
proof -
  have "not_completed_by (t_id task) (db s) (db s')" if b: "act_bind ?done_write ?rest s = (r, s')" and r: "r \<noteq> Inr True" for s r s'
  proof -
    define res' where "res' = complete_task now (t_id task) res rvw remark ex f (db s)"
    have b': "?rest (fst res') (s\<lparr>db := snd res'\<rparr>) = (r, s')" using b by (simp add: act_bind_def act_write_def res'_def)
    have "fst res' = False"
      using b' r totals_basic(5) by (auto simp: act_then_def act_bind_def reviewed_def close_attempt_def act_write_def split: if_splits)
    moreover from this have "snd res' = db s" by (auto simp: res'_def complete_task_def Let_def split: option.splits if_splits)
    ultimately show ?thesis using b' by auto
  qed
  then show ?thesis unfolding quiet_def by blast
qed

lemma quiet_verdict: "quiet (t_id task) (apply_verdict env hooked task agent response)"
proof -
  have keep: "act_keeps (not_completed_by (t_id task)) (act_then (reviewed env task agent False words)
      (act_bind (hooks_rework env task owner words res) (\<lambda>_. act_return False)))"
    "act_keeps (not_completed_by (t_id task)) (act_bind (act_write (requeue_task_after_review now (t_id task) a res rsn None))
      (\<lambda>_. act_return False))" for words owner res now a rsn
    unfolding hooks_rework_def
    by (intro uncompleted.keeps_then uncompleted_reviewed uncompleted.keeps_bind uncompleted.keeps_write uncompleted.keeps_pure
        uncompleted_writes)+
  obtain accepted v words where c: "classify_task_review_result response = (accepted, v, words)" by (cases "classify_task_review_result response")
  show ?thesis
    unfolding apply_verdict_def c prod.case
    by (intro quiet_if quiet_complete quiet_keeps keep)
qed

lemma quiet_review:
  assumes "t_origin task = ''workflow''" and delegate: "\<And>dg. act_keeps (not_completed_by (t_id task)) (re_delegate env agent dg)"
  shows "quiet (t_id task) (review env hooked task agent)"
proof -
  have self: "act_keeps (not_completed_by (t_id task)) (refuse_self_review env task agent)"
    unfolding refuse_self_review_def emit_reassigned_def
    by (intro uncompleted.keeps_bind uncompleted.keeps_write uncompleted.keeps_then uncompleted.keeps_when uncompleted.keeps_pure
        uncompleted_writes)
  have link: "act_keeps (not_completed_by (t_id task)) (task_link task)"
    unfolding task_link_def by (intro uncompleted.keeps_bind act_keeps_splits uncompleted.keeps_pure)
  have spec: "act_keeps (not_completed_by (t_id task)) (task_spec task)"
    unfolding task_spec_def Let_def by (auto split: option.splits json.splits)
  have deleg: "act_keeps (not_completed_by (t_id task)) (if workflow_task hooked task
      then review_delegation env task agent base else act_return base)" for base
    unfolding review_delegation_def Let_def
    by (intro act_keeps_if uncompleted.keeps_bind link spec uncompleted.keeps_pure)
  have fail: "act_keeps (not_completed_by (t_id task)) (act_then (repo_fail env task rsn f) (act_return False))" for rsn f
    unfolding repo_fail_def by (intro uncompleted.keeps_then uncompleted.keeps_write uncompleted.keeps_pure uncompleted_writes)
  have gone: "act_keeps (not_completed_by (t_id task)) (act_then (reviewer_unavailable env hooked task agent rsn) (act_return False))" for rsn
    by (intro uncompleted.keeps_then uncompleted_unavailable assms(1) uncompleted.keeps_pure)
  have after: "quiet (t_id task) (after_review env hooked task agent response)" for response
    unfolding after_review_def
    by (intro quiet_bind uncompleted.keeps_get quiet_if quiet_keeps [OF fail] quiet_keeps [OF gone] quiet_verdict)
  show ?thesis
    unfolding review_def review_body_def
    by (intro quiet_try quiet_if quiet_keeps [OF self] quiet_bind deleg delegate after gone)
qed


lemma returned_False: "act_then m (act_return False) s = (Inr True, s') \<Longrightarrow> X"
  "act_bind m (\<lambda>_. act_return False) s = (Inr True, s') \<Longrightarrow> X"
  by (auto simp: act_then_Inr act_bind_Inr)

lemma complete_True: "complete_task now tid res rvw remark ex f d = (True, d') \<Longrightarrow> completed_in tid d'"
  by (auto simp: complete_task_def completed_in_def task_at_update_task_row Let_def split: option.splits if_splits)

lemma completed_finish: "completed_in tid (finish_attempt now i n agent words h rsn d) = completed_in tid d"
  by (simp add: completed_in_def finish_attempt_def task_at_def)

lemma verdict_True:
  assumes "apply_verdict env hooked task agent response s = (Inr True, s')"
  shows "fst (classify_task_review_result response) \<and> completed_in (t_id task) (db s')"
proof -
  obtain accepted v words where c: "classify_task_review_result response = (accepted, v, words)"
    by (cases "classify_task_review_result response")
  let ?done_write = "act_write (complete_task (re_clock env) (t_id task) (Some (or_empty (t_result task))) (Some agent) None None
      (fence_of hooked task)) :: bool run"
  let ?rest = "\<lambda>ok. if \<not> ok then act_return False
        else act_then (if workflow_task hooked task then reviewed env task agent True words else act_return ()) (act_return True)"
  have acc: accepted
    using assms by (auto simp: apply_verdict_def c act_then_Inr act_bind_Inr split: if_splits)
  with assms have "act_bind ?done_write ?rest s = (Inr True, s')" by (simp add: apply_verdict_def c)
  then obtain ok t where w: "?done_write s = (Inr ok, t)" and rest: "?rest ok t = (Inr True, s')"
    unfolding act_bind_Inr by blast
  then have ok: ok by (auto split: if_splits)
  have "completed_in (t_id task) (db t)"
    using w ok by (auto simp: act_write_def intro: complete_True [OF prod_eqI])
  have "act_ends (completed_in (t_id task)) (reviewed env task agent True words) (completed_in (t_id task))"
    unfolding reviewed_def close_attempt_def
    by (intro ends_if ends_return ends_write) (simp_all add: completed_finish)
  then have "act_ends (completed_in (t_id task)) (?rest ok) (completed_in (t_id task))"
    by (intro ends_if ends_then_return ends_return)
  from act_endsD [OF this \<open>completed_in (t_id task) (db t)\<close> rest] acc c show ?thesis by simp
qed

lemma review_True:
  assumes "review env hooked task agent s = (Inr True, s')"
  shows "t_assigned_to task \<noteq> Some agent \<and> completed_in (t_id task) (db s') \<and>
    (\<exists>delegation s1 answer s2. re_delegate env agent delegation s1 = (Inr (Some answer), s2) \<and>
       fst (classify_task_review_result (Some answer)))"
proof -
  have body: "review_body env hooked task agent s = (Inr True, s')"
    using assms by (auto simp: review_def act_try_def act_then_Inr act_bind_Inr split: prod.splits sum.splits)
  have other: "t_assigned_to task \<noteq> Some agent"
    using body by (auto simp: review_body_def refuse_self_review_def act_bind_Inr act_then_Inr)
  with body obtain delegation s1 response s2 where d: "re_delegate env agent delegation s1 = (Inr response, s2)"
    and after: "after_review env hooked task agent response s2 = (Inr True, s')"
    unfolding review_body_def by (auto simp: act_bind_Inr)
  have said: "py_strip (or_empty response) \<noteq> []" and verdict: "apply_verdict env hooked task agent response s2 = (Inr True, s')"
    using after by (auto simp: after_review_def act_bind_Inr act_then_Inr act_get_def split: if_splits)
  from said obtain answer where "response = Some answer" by (cases response) auto
  with d verdict_True [OF verdict] other show ?thesis by blast
qed

text \<open>
  C32. A review that counts as successful rests on an answer of a reviewer other than the executor
  that accepts the delivery, and the task is completed then. For a workflow task this is the only
  way: as long as the agent does not itself complete the task while it is asked, a task that was not
  completed before the review and is completed after it was accepted in such an answer.
\<close>

theorem review_needs_acceptance:
  assumes "review env hooked task agent s = (Inr b, s')"
    and "b \<or> (t_origin task = ''workflow'' \<and> (\<forall>dg t. not_completed_by (t_id task) (db t) (db (snd (re_delegate env agent dg t)))) \<and>
      \<not> completed_in (t_id task) (db s) \<and> completed_in (t_id task) (db s'))"
  shows "t_assigned_to task \<noteq> Some agent \<and> completed_in (t_id task) (db s') \<and>
    (\<exists>delegation s1 answer s2. re_delegate env agent delegation s1 = (Inr (Some answer), s2) \<and>
       fst (classify_task_review_result (Some answer)))"
proof -
  have b
  proof (rule ccontr)
    assume "\<not> b"
    with assms(2) have o: "t_origin task = ''workflow''" "\<And>dg. act_keeps (not_completed_by (t_id task)) (re_delegate env agent dg)"
      and new: "\<not> completed_in (t_id task) (db s)" "completed_in (t_id task) (db s')" by (auto simp: act_keeps_def)
    from quiet_review [OF o, where hooked = hooked] assms(1) \<open>\<not> b\<close> new show False unfolding quiet_def by blast
  qed
  with review_True assms(1) show ?thesis by metis
qed


definition sample_answer :: pystr where
  "sample_answer = ''ACEITE'' @ newline # ''ok''"

lemma sample_accepts: "classify_task_review_result (Some sample_answer) = (True, ''ACEITE'', sample_answer)"
  by code_simp

definition sample_run_env :: RunEnv where
  "sample_run_env = \<lparr> re_py = sample_py, re_clock = ''t9'', re_limits = default_limits, re_registry = (\<lambda>_. None),
     re_active = (\<lambda>_. [''claude'', ''codex'']), re_available = (\<lambda>_. [''claude'', ''codex'']), re_workspace = None,
     re_store_text = (\<lambda>_. ''store''), re_before = (\<lambda>_. act_return ()), re_after = (\<lambda>_. act_return ()),
     re_delegate = (\<lambda>_ _. act_return (Some sample_answer)), re_cancelled = (\<lambda>_. False) \<rparr>"

definition reviewed_task :: TaskRow where
  "reviewed_task = (new_task_row ''t1'' 1 1 (task_defaults ''testar''))\<lparr>t_status := status_value REVIEWING,
     t_assigned_to := Some ''claude'', t_reviewed_by := Some ''codex'', t_result := Some ''feito''\<rparr>"

definition review_sys :: Sys where
  "review_sys = \<lparr> db = empty_store\<lparr>tasks := [reviewed_task]\<rparr>, noticed = [], effects = [] \<rparr>"

lemma sample_review: "\<exists>s'. review sample_run_env False reviewed_task ''codex'' review_sys = (Inr True, s')"
proof -
  have strip: "py_strip sample_answer \<noteq> []" by code_simp
  show ?thesis
    by (simp add: review_def review_body_def after_review_def apply_verdict_def workflow_task_def act_try_def act_bind_def
        act_then_def act_get_def act_write_def sample_run_env_def sample_accepts strip complete_task_def review_sys_def
        task_at_def reviewed_task_def new_task_row_def task_defaults_def fence_of_def stale_attempt_def)
qed

theorem review_needs_acceptance_witness:
  "completed_in 1 (db (snd (review sample_run_env False reviewed_task ''codex'' review_sys)))"
proof -
  obtain s' where "review sample_run_env False reviewed_task ''codex'' review_sys = (Inr True, s')" using sample_review by blast
  with review_needs_acceptance [OF this] show ?thesis by (simp add: reviewed_task_def new_task_row_def)
qed

section \<open>Workers only use the operations of the repositories\<close>

interpretation worker_runs: worker_store "wf_run digest limits" for digest limits
proof
  show "wf_run digest limits d (snd (fail_task now tid ropt e st d))" for d now tid ropt e st
    unfolding fail_task_def by (rule step_run) (simp add: wf_step.transition)
  show "begin_attempt now tid n agent rid d = Inr d' \<Longrightarrow> wf_run digest limits d d'" for now tid n agent rid d d'
    by (blast intro: wf_step.begin_attempt)
  show "wf_run digest limits d (snd (transition_task now tid (status_value PENDING_REVIEW) a b c f e st d))" for d now tid a b c f e st
    by (rule step_run) (simp add: wf_step.transition)
qed (rule runs.refl | (erule runs.trans, assumption) | (rule step_run, rule wf_step.intros))+

text \<open>
  The workers refine the store-level system: an execution or a review moves the database only
  along the operations of the repositories, in every outcome, as long as the agents it calls do; so
  fencing, history, budgets and the one-writer rule proved for those operations hold while tasks are
  executed and reviewed.
\<close>

theorem workers_refine_store:
  assumes "agents_keep (wf_run digest limits) env" and "good limits (db s)"
    and "0 \<le> max_replans limits" and "0 \<le> max_consults limits"
  shows "good limits (db (snd (run env hooked task agent s))) \<and> any_run (db s) (db (snd (run env hooked task agent s))) \<and>
    good limits (db (snd (review env hooked task agent s))) \<and> any_run (db s) (db (snd (review env hooked task agent s)))"
proof -
  have r: "wf_run digest limits (db s) (db (snd (run env hooked task agent s)))"
    "wf_run digest limits (db s) (db (snd (review env hooked task agent s)))"
    using worker_runs.keeps_run [OF assms(1)] worker_runs.keeps_review [OF assms(1)] unfolding act_keeps_def by blast+
  show ?thesis
    using wf_run_good [OF r(1) assms(3,4,2)] wf_run_good [OF r(2) assms(3,4,2)] wf_run_any [OF r(1)] wf_run_any [OF r(2)] by blast
qed


theorem workers_refine_store_witness:
  "good default_limits (db (snd (run sample_run_env True reviewed_task ''codex''
     \<lparr> db = running_store, noticed = [], effects = [] \<rparr>)))"
proof -
  have "agents_keep (wf_run sample_digest default_limits) sample_run_env"
    by (simp add: agents_keep_def sample_run_env_def keeps)
  from workers_refine_store [OF this, of "\<lparr> db = running_store, noticed = [], effects = [] \<rparr>"]
  show ?thesis using running_good default_positive by simp
qed

end
