(* ===== verification/Executor_Guarantees.thy ===== *)
theory Executor_Guarantees
  imports Task_Executor Runner_Guarantees
begin

text \<open>
  The executors lose no work: what an executor claims it dispatches, within its capacity; and every
  task that is in progress or under review is in the hands of a live worker, in every state the
  executors of the pool can reach.
\<close>

section \<open>Changes that claim nothing\<close>

definition busy :: "TaskRow \<Rightarrow> bool" where
  "busy r \<longleftrightarrow> t_status r = status_value IN_PROGRESS \<or> t_status r = status_value REVIEWING"

definition busy_key :: "TaskRow \<Rightarrow> int \<times> pystr \<times> int \<times> pystr option \<times> pystr option" where
  "busy_key r = (t_id r, t_status r, t_attempt_count r, t_assigned_to r, t_reviewed_by r)"

definition calm :: "Store \<Rightarrow> Store \<Rightarrow> bool" where
  "calm s t \<longleftrightarrow> (ids_ok s \<longrightarrow> ids_ok t) \<and> (\<forall>r' \<in> set (tasks t). busy r' \<longrightarrow> (\<exists>r \<in> set (tasks s). busy_key r = busy_key r'))"

lemma busy_key_busy: "busy_key r = busy_key r' \<Longrightarrow> busy r = busy r'"
  by (simp add: busy_key_def busy_def)

lemma calm_refl: "calm s s"
  by (auto simp: calm_def)

lemma calm_trans: "calm s t \<Longrightarrow> calm t u \<Longrightarrow> calm s u"
  unfolding calm_def by (metis busy_key_busy)

lemma calm_step: "task_step mx s t \<Longrightarrow> (\<And>r'. r' \<in> set (tasks t) \<Longrightarrow> busy r' \<Longrightarrow> r' \<in> set (tasks s)) \<Longrightarrow> calm s t"
  using task_step_ids_ok [of mx s t] by (auto simp: calm_def)

lemma idle_update: "r' \<in> set (tasks (update_task_row tid f s)) \<Longrightarrow> busy r' \<Longrightarrow> (\<And>r. \<not> busy (f r)) \<Longrightarrow> r' \<in> set (tasks s)"
  by (auto simp: update_task_row_def in_set_update_where split: if_splits)

lemma tasks_event [simp]: "tasks (transition_event i j t a r s) = tasks s"
  by (simp add: tasks_transition_event)

lemmas calm_ops = Let_def publish_requeue_def

interpretation worker_calm: worker_store calm
proof
  show "calm s s" for s by (rule calm_refl)
  show "calm s t \<Longrightarrow> calm t u \<Longrightarrow> calm s u" for s t u by (rule calm_trans)
  show "calm d (snd (requeue_task now tid agent ropt e x d))" for d now tid agent ropt e x
    by (rule calm_step [OF task_step.requeue])
      (auto simp: requeue_task_def calm_ops busy_def split: option.splits if_splits elim!: idle_update)
  show "calm d (snd (submit_for_review now tid res e d))" for d now tid res e
    by (rule calm_step [OF task_step.submit])
      (auto simp: submit_for_review_def calm_ops busy_def split: option.splits if_splits elim!: idle_update)
  show "calm d (snd (complete_task now tid res rvw remark ex e d))" for d now tid res rvw remark ex e
    by (rule calm_step [OF task_step.complete])
      (auto simp: complete_task_def calm_ops busy_def split: option.splits if_splits elim!: idle_update)
  show "calm d (snd (fail_task now tid ropt e st d))" for d now tid ropt e st
    unfolding fail_task_def
    by (rule calm_step [OF task_step.transition])
      (auto simp: transition_task_def calm_ops busy_def split: option.splits if_splits elim!: idle_update)
  show "calm d (snd (requeue_task_after_review now tid agent res remark e d))" for d now tid agent res remark e
    by (rule calm_step [OF task_step.review_requeue])
      (auto simp: requeue_task_after_review_def calm_ops busy_def split: option.splits if_splits elim!: idle_update)
  show "calm d (snd (return_review now tid agent reason e x d))" for d now tid agent reason e x
    by (rule calm_step [OF task_step.return])
      (auto simp: return_review_def calm_ops busy_def split: option.splits if_splits elim!: idle_update)
  show "calm d (snd (rework_task now tid owner reason res e mx d))" for d now tid owner reason res e mx
    by (rule calm_step [OF task_step.rework])
      (auto simp: rework_task_def calm_ops busy_def split: option.splits if_splits elim!: idle_update)
  show "calm d (snd (transition_task now tid (status_value PENDING_REVIEW) a b c f e st d))" for d now tid a b c f e st
    by (rule calm_step [OF task_step.transition])
      (auto simp: transition_task_def calm_ops busy_def split: option.splits if_splits elim!: idle_update)
  show "calm d (finish_attempt now tid n agent words h ropt d)" for d now tid n agent words h ropt
    by (rule calm_step [OF task_step.other_tables]) (simp_all add: finish_attempt_def)
  show "begin_attempt now tid n agent rid d = Inr d' \<Longrightarrow> calm d d'" for now tid n agent rid d d'
    by (rule calm_step [OF task_step.other_tables]) (auto simp: begin_attempt_def Let_def split: if_splits option.splits)
qed

section \<open>A claim and what becomes of it\<close>

definition worker_of :: "Worker \<Rightarrow> TaskRow \<Rightarrow> bool" where
  "worker_of w r \<longleftrightarrow> t_id (wk_task w) = t_id r \<and> t_attempt_count (wk_task w) = t_attempt_count r \<and>
     t_status r = status_value (case wk_kind w of ForExecution \<Rightarrow> IN_PROGRESS | ForReview \<Rightarrow> REVIEWING)"

text \<open>A claim of \<open>tid\<close>: its row is as \<open>P\<close> says, every other row is as it was.\<close>

definition claims_row :: "(TaskRow \<Rightarrow> bool) \<Rightarrow> int \<Rightarrow> Store \<Rightarrow> Store \<Rightarrow> bool" where
  "claims_row P tid d d' \<longleftrightarrow> ids_ok d' \<and> (\<exists>r. task_at d' tid = Some r \<and> P r) \<and>
     (\<forall>r \<in> set (tasks d'). t_id r \<noteq> tid \<longrightarrow> r \<in> set (tasks d))"

lemma update_other_rows: "r \<in> set (tasks (update_task_row tid f d)) \<Longrightarrow> (\<And>x. t_id (f x) = t_id x) \<Longrightarrow> t_id r \<noteq> tid \<Longrightarrow> r \<in> set (tasks d)"
  by (auto simp: update_task_row_def in_set_update_where split: if_splits)

lemma load_task_at: "load_task tid d = task_at d tid"
  by (simp add: load_task_def list_tasks_def sql_eq_def filter_find task_at_def split: option.split)

lemma claim_execution_claims:
  assumes "ids_ok (db s)" and "claim_execution env s = (Some tid, s')"
  shows "claims_row (\<lambda>r. can_execute_loaded env r \<and> t_assigned_to r = Some (xe_agent env)) tid (db s) (db s')"
proof -
  obtain d where d: "claim_task (xe_clock env) (xe_agent env) (xe_job env) (db s) = (Some tid, d)" "s' = s\<lparr>db := d\<rparr>"
    using assms(2) by (auto simp: claim_execution_def split: prod.splits)
  from claim_task_Some [OF assms(1) d(1)] obtain c where c: "task_at (db s) tid = Some c"
    and eq: "d = publish_event (TaskStarted tid (t_job_id c) (xe_agent env)) (update_task_row tid (claimed_row (xe_clock env) (xe_agent env)) (db s))"
    by blast
  have "ids_ok d" using task_step_ids_ok [OF claim_is_step [OF d(1)] assms(1)] .
  moreover have "task_at d tid = Some (claimed_row (xe_clock env) (xe_agent env) c)"
    unfolding eq using c by (simp add: task_at_update_task_row)
  ultimately show ?thesis
    using update_other_rows [of _ tid "claimed_row (xe_clock env) (xe_agent env)" "db s"]
    by (auto simp: claims_row_def d(2) eq can_execute_loaded_def claimed_row_def)
qed

lemma claim_delivery_claims:
  assumes "ids_ok (db s)" and "claim_delivery env s = (Some tid, s')"
  shows "claims_row (can_review_loaded env) tid (db s) (db s')"
proof -
  obtain d where d: "claim_review_task (xe_clock env) (xe_agent env) (xe_job env) (db s) = (Some tid, d)" "s' = s\<lparr>db := d\<rparr>"
    using assms(2) by (auto simp: claim_delivery_def split: prod.splits)
  then obtain c where c: "find (review_claimable (db s) (xe_agent env) (xe_job env)) (tasks (db s)) = Some c" "tid = t_id c"
    and eq: "d = publish_event (TaskReviewStarted tid (t_job_id c) (xe_agent env)) (update_task_row tid (review_row (xe_clock env) (xe_agent env)) (db s))"
    by (auto simp: claim_review_task_def Let_def review_row_fun split: option.splits)
  have at: "task_at (db s) tid = Some c" using task_at_member [OF assms(1)] c by (auto dest: find_SomeD)
  have "task_step None (db s) d" using task_step.claim_review [of None "db s" "xe_clock env" "xe_agent env" "xe_job env"] d(1) by simp
  then have "ids_ok d" using task_step_ids_ok assms(1) by blast
  moreover have "task_at d tid = Some (review_row (xe_clock env) (xe_agent env) c)"
    unfolding eq using at by (simp add: task_at_update_task_row review_row_def)
  moreover have "t_id (review_row a b r) = t_id r" for a b r by (simp add: review_row_def)
  ultimately show ?thesis
    using update_other_rows [of _ tid "review_row (xe_clock env) (xe_agent env)" "db s"]
    by (auto simp: claims_row_def d(2) eq can_review_loaded_def review_row_def)
qed

lemma claims_row_mono: "claims_row P tid d d' \<Longrightarrow> (\<And>r. P r \<Longrightarrow> Q r) \<Longrightarrow> claims_row Q tid d d'"
  by (auto simp: claims_row_def)

lemma claim_none: "claim_execution env s = (None, s') \<Longrightarrow> ids_ok (db s) \<Longrightarrow> s' = s"
  "claim_delivery env s = (None, s') \<Longrightarrow> s' = s"
  using claim_task_None [of "db s"]
  by (auto simp: claim_execution_def claim_delivery_def claim_review_task_def Let_def split: prod.splits option.splits)

text \<open>
  What a turn may do to the busy rows: each one was busy before, with the same key, or is in the hands
  of a worker of the executor.
\<close>

definition attended :: "Worker list \<Rightarrow> Store \<Rightarrow> Store \<Rightarrow> bool" where
  "attended ws d d' \<longleftrightarrow> ids_ok d' \<and> (\<forall>r' \<in> set (tasks d'). busy r' \<longrightarrow>
     (\<exists>r \<in> set (tasks d). busy_key r = busy_key r') \<or> (\<exists>w \<in> set ws. worker_of w r'))"

lemma attended_calm: "ids_ok d \<Longrightarrow> calm d d' \<Longrightarrow> attended ws d d'"
  by (auto simp: attended_def calm_def)

text \<open>The row of a claim, read after a calm change, is dispatched unless it is not busy any more.\<close>

lemma claim_attended:
  assumes "claims_row P tid d d1" and calm: "calm d1 d2"
    and keep: "\<And>r r'. P r \<Longrightarrow> busy_key r = busy_key r' \<Longrightarrow> P r'"
    and kind: "\<And>r. P r \<Longrightarrow> t_status r = status_value (case k of ForExecution \<Rightarrow> IN_PROGRESS | ForReview \<Rightarrow> REVIEWING)"
  shows "(case task_at d2 tid of
     None \<Rightarrow> attended ws d d2
   | Some r \<Rightarrow> if P r then attended (ws @ [\<lparr> wk_kind = k, wk_task = r \<rparr>]) d d2 else attended ws d d2)"
proof -
  obtain c where c: "task_at d1 tid = Some c" "P c" and ids1: "ids_ok d1"
    and others: "\<And>r. r \<in> set (tasks d1) \<Longrightarrow> t_id r \<noteq> tid \<Longrightarrow> r \<in> set (tasks d)"
    using assms(1) by (auto simp: claims_row_def)
  have ids2: "ids_ok d2" using calm ids1 by (simp add: calm_def)
  have other: "\<exists>r \<in> set (tasks d). busy_key r = busy_key r'" if row: "r' \<in> set (tasks d2)" "busy r'" "t_id r' \<noteq> tid" for r'
  proof -
    obtain r where r: "r \<in> set (tasks d1)" "busy_key r = busy_key r'" using calm row(1,2) by (auto simp: calm_def)
    then have "t_id r \<noteq> tid" using row(3) by (simp add: busy_key_def)
    with others r show ?thesis by blast
  qed
  have own: "task_at d2 tid = Some r' \<and> P r'" if row: "r' \<in> set (tasks d2)" "busy r'" "t_id r' = tid" for r'
  proof -
    obtain r where r: "r \<in> set (tasks d1)" "busy_key r = busy_key r'" using calm row(1,2) by (auto simp: calm_def)
    then have "task_at d1 tid = Some r" using task_at_member [OF ids1 r(1)] row(3) by (simp add: busy_key_def)
    with c keep r(2) show ?thesis using task_at_member [OF ids2 row(1)] row(3) by auto
  qed
  show ?thesis
    using ids2 other own kind by (auto simp: attended_def worker_of_def split: option.splits) (metis option.inject)+
qed

section \<open>One turn\<close>

definition exec_ok :: "ExecEnv \<Rightarrow> Executor \<Rightarrow> bool" where
  "exec_ok env x \<longleftrightarrow> 1 \<le> x_max_workers x \<and> int (length (x_futures x)) \<le> x_max_workers x \<and>
     x_pool x \<noteq> NoPool \<and> (x_stopped x \<or> x_pool x = OpenPool) \<and>
     (\<forall>w \<in> set (x_futures x). wk_kind w = ForReview \<longrightarrow> xe_reviewer env \<noteq> None)"

text \<open>What \<open>process_next\<close> may return from a state: no exception, and at most one worker more.\<close>

definition turn_ok :: "ExecEnv \<Rightarrow> Executor \<Rightarrow> Store \<Rightarrow> (run_error + int option) \<times> Executor \<times> Sys \<Rightarrow> bool" where
  "turn_ok env x d res \<longleftrightarrow> (case res of (r, x', s') \<Rightarrow>
     attended (x_futures x') d (db s') \<and>
     ((r = Inr None \<and> x' = x) \<or>
      (\<exists>w. r = Inr (Some (t_id (wk_task w))) \<and> x' = x\<lparr>x_futures := x_futures x @ [w]\<rparr> \<and>
         (wk_kind w = ForReview \<longrightarrow> xe_reviewer env \<noteq> None) \<and> int (length (x_futures x)) < x_max_workers x)))"

lemma turn_ok_none: "attended (x_futures x) d (db s) \<Longrightarrow> turn_ok env x d (Inr None, x, s)"
  by (simp add: turn_ok_def)

lemma turn_ok_some:
  "attended (x_futures x @ [w]) d (db s) \<Longrightarrow> (wk_kind w = ForReview \<Longrightarrow> xe_reviewer env \<noteq> None) \<Longrightarrow>
     int (length (x_futures x)) < x_max_workers x \<Longrightarrow> tid = t_id (wk_task w) \<Longrightarrow>
     turn_ok env x d (Inr (Some tid), x\<lparr>x_futures := x_futures x @ [w]\<rparr>, s)"
  unfolding turn_ok_def by (simp, blast)

lemma attended_none: "attended ws d d' \<Longrightarrow> attended ws d (snd (fail_task now tid ropt e st d'))"
  using worker_calm.by_fail [of d' now tid ropt e st] unfolding attended_def calm_def worker_of_def busy_key_def busy_def by fastforce

lemma can_execute_facts:
  "can_execute_loaded env r \<Longrightarrow> t_status r = status_value (case ForExecution of ForExecution \<Rightarrow> IN_PROGRESS | ForReview \<Rightarrow> REVIEWING)"
  "can_review_loaded env r \<Longrightarrow> t_status r = status_value (case ForReview of ForExecution \<Rightarrow> IN_PROGRESS | ForReview \<Rightarrow> REVIEWING)"
  "can_execute_loaded env r \<Longrightarrow> busy_key r = busy_key r' \<Longrightarrow> can_execute_loaded env r'"
  "can_review_loaded env r \<Longrightarrow> busy_key r = busy_key r' \<Longrightarrow> can_review_loaded env r'"
  by (simp_all add: can_execute_loaded_def can_review_loaded_def busy_key_def)

lemma dispatch_ok:
  assumes "x_pool x = OpenPool" and "int (length (x_futures x)) < x_max_workers x"
  shows "claims_row (can_execute_loaded env) tid d d1 \<Longrightarrow> calm d1 (db s) \<Longrightarrow> turn_ok env x d (dispatch_execution env tid x s)"
    and "claims_row (can_review_loaded env) tid d d1 \<Longrightarrow> calm d1 (db s) \<Longrightarrow> xe_reviewer env \<noteq> None \<Longrightarrow>
      turn_ok env x d (dispatch_review env tid x s)"
proof -
  have id: "t_id r = tid" if "task_at (db s) tid = Some r" for r using that by (auto simp: task_at_def dest: find_SomeD)
  note ex = claim_attended [where P = "can_execute_loaded env" and k = ForExecution and ws = "x_futures x", OF _ _ can_execute_facts(3) can_execute_facts(1)]
  note rev = claim_attended [where P = "can_review_loaded env" and k = ForReview and ws = "x_futures x", OF _ _ can_execute_facts(4) can_execute_facts(2)]
  show "turn_ok env x d (dispatch_execution env tid x s)" if c: "claims_row (can_execute_loaded env) tid d d1" "calm d1 (db s)"
  proof -
    have "case task_at (db s) tid of None \<Rightarrow> attended (x_futures x) d (db s)
      | Some r \<Rightarrow> if can_execute_loaded env r then attended (x_futures x @ [\<lparr>wk_kind = ForExecution, wk_task = r\<rparr>]) d (db s)
        else attended (x_futures x) d (db s)" by (rule ex [OF c])
    then show ?thesis using assms id
      by (cases "task_at (db s) tid") (auto simp: dispatch_execution_def load_task_at fail_claimed_def submit_handler_def or_fail_def
          split: if_splits intro!: turn_ok_none turn_ok_some attended_none)
  qed
  show "turn_ok env x d (dispatch_review env tid x s)" if c: "claims_row (can_review_loaded env) tid d d1" "calm d1 (db s)"
    and r: "xe_reviewer env \<noteq> None"
  proof -
    have "case task_at (db s) tid of None \<Rightarrow> attended (x_futures x) d (db s)
      | Some r \<Rightarrow> if can_review_loaded env r then attended (x_futures x @ [\<lparr>wk_kind = ForReview, wk_task = r\<rparr>]) d (db s)
        else attended (x_futures x) d (db s)" by (rule rev [OF c])
    then show ?thesis using assms id r
      by (cases "task_at (db s) tid") (auto simp: dispatch_review_def load_task_at fail_claimed_def submit_handler_def or_fail_def
          split: if_splits intro!: turn_ok_none turn_ok_some attended_none)
  qed
qed

lemma process_reviews_ok:
  assumes "ids_ok (db s)" and "x_pool x = OpenPool" and "int (length (x_futures x)) < x_max_workers x"
    and "\<And>t. calm (db t) (db (xe_meanwhile env t))"
  shows "turn_ok env x (db s) (process_reviews env reviews x s)"
proof (cases "reviews \<and> xe_reviewer env \<noteq> None \<and> xe_eligible env s")
  case True
  obtain res s' where c: "claim_delivery env s = (res, s')" by fastforce
  show ?thesis
  proof (cases res)
    case None
    with c claim_none(2) [of env s s'] have "s' = s" by simp
    with True c None attended_calm [OF assms(1) calm_refl] show ?thesis by (simp add: process_reviews_def turn_ok_none)
  next
    case (Some tid)
    from dispatch_ok(2) [OF assms(2,3) claim_delivery_claims [OF assms(1)] assms(4)] c Some True
    show ?thesis by (simp add: process_reviews_def)
  qed
next
  case False
  then have "process_reviews env reviews x s = (Inr None, x, s)" unfolding process_reviews_def by (rule if_not_P)
  with attended_calm [OF assms(1) calm_refl] show ?thesis by (simp add: turn_ok_none)
qed

lemma process_next_ok:
  assumes "ids_ok (db s)" and ok: "exec_ok env x" and meanwhile: "\<And>t. calm (db t) (db (xe_meanwhile env t))"
  shows "turn_ok env x (db s) (process_next env reviews x s)"
proof (cases "x_stopped x \<or> \<not> xe_gate env s \<or> int (length (x_futures x)) \<ge> x_max_workers x")
  case True
  with attended_calm [OF assms(1) calm_refl] show ?thesis by (auto simp: process_next_def turn_ok_none)
next
  case False
  then have pool: "x_pool x = OpenPool" and room: "int (length (x_futures x)) < x_max_workers x"
    using ok by (auto simp: exec_ok_def)
  note reviews = process_reviews_ok [OF assms(1) pool room meanwhile, of reviews]
  obtain res s' where c: "claim_execution env s = (res, s')" by fastforce
  show ?thesis
  proof (cases res)
    case None
    with c claim_none(1) [OF _ assms(1)] have "s' = s" by simp
    with False c None reviews show ?thesis by (simp add: process_next_def)
  next
    case (Some tid)
    from dispatch_ok(1) [OF pool room claims_row_mono [OF claim_execution_claims [OF assms(1)]] meanwhile] c Some False reviews
    show ?thesis by (simp add: process_next_def)
  qed
qed

section \<open>The fleet\<close>

text \<open>
  The executors of \<open>renv\<close>'s agents, all within their capacity, with every busy task of the database in
  the hands of a worker.
\<close>

definition own_env :: "RunEnv \<Rightarrow> ExecEnv \<Rightarrow> bool" where
  "own_env renv env \<longleftrightarrow> (\<exists>job gate meanwhile s agent. env = executor_env renv job gate meanwhile s agent \<and>
     (\<forall>t. calm (db t) (db (meanwhile t))))"

definition covered :: "fleet \<Rightarrow> Store \<Rightarrow> bool" where
  "covered fl d \<longleftrightarrow> (\<forall>r \<in> set (tasks d). busy r \<longrightarrow> (\<exists>(env, x) \<in> set fl. \<exists>w \<in> set (x_futures x). worker_of w r))"

definition fleet_ok :: "RunEnv \<Rightarrow> fleet \<times> Sys \<Rightarrow> bool" where
  "fleet_ok renv c \<longleftrightarrow> (case c of (fl, s) \<Rightarrow> ids_ok (db s) \<and> covered fl (db s) \<and>
     (\<forall>(env, x) \<in> set fl. own_env renv env \<and> exec_ok env x))"

lemma set_update_other: "y \<in> set xs \<Longrightarrow> y \<noteq> xs ! i \<Longrightarrow> y \<in> set (xs[i := z])"
  by (metis in_set_conv_nth length_list_update nth_list_update_neq)

lemma set_update_cases: "y \<in> set (xs[i := z]) \<Longrightarrow> y = z \<or> y \<in> set xs"
  using set_update_subset_insert by fastforce

lemma worker_of_key: "worker_of w r \<Longrightarrow> busy_key r = busy_key r' \<Longrightarrow> worker_of w r'"
  by (simp add: worker_of_def busy_key_def)

text \<open>An executor whose futures grow or stay keeps the database covered after a turn.\<close>

lemma covered_turn:
  assumes "covered fl d" and "fl ! i = (env, x)" and "i < length fl" and "attended (x_futures x') d d'"
    and "set (x_futures x) \<subseteq> set (x_futures x')"
  shows "covered (fl[i := (env, x')]) d'"
proof -
  have "\<exists>(e, y) \<in> set (fl[i := (env, x')]). \<exists>w \<in> set (x_futures y). worker_of w r'" if r': "r' \<in> set (tasks d')" "busy r'" for r'
  proof -
    have new: "(env, x') \<in> set (fl[i := (env, x')])" using assms(3) by (rule set_update_memI)
    from assms(4) r' consider r where "r \<in> set (tasks d)" "busy_key r = busy_key r'" | w where "w \<in> set (x_futures x')" "worker_of w r'"
      by (auto simp: attended_def)
    then show ?thesis
    proof cases
      case 1
      then have "busy r" using r'(2) busy_key_busy by blast
      with 1 assms(1) obtain e y w where w: "(e, y) \<in> set fl" "w \<in> set (x_futures y)" "worker_of w r" by (fastforce simp: covered_def)
      show ?thesis
      proof (cases "(e, y) = fl ! i")
        case True
        with assms(2,5) w(2) have "w \<in> set (x_futures x')" by auto
        moreover have "worker_of w r'" using worker_of_key [OF w(3) 1(2)] .
        ultimately show ?thesis using new by blast
      next
        case False
        with w worker_of_key 1(2) set_update_other [OF w(1) False, of "(env, x')"] show ?thesis by blast
      qed
    next
      case 2
      with new show ?thesis by blast
    qed
  qed
  then show ?thesis by (simp add: covered_def)
qed

lemma own_meanwhile: "own_env renv env \<Longrightarrow> calm (db t) (db (xe_meanwhile env t))"
  by (auto simp: own_env_def executor_env_def)

lemma fleet_turn:
  assumes ok: "fleet_ok renv (fl, s)" and i: "i < length fl" "fl ! i = (env, x)"
    and p: "process_next env reviews x s = (r, x', s')"
    and same: "x_futures x'' = x_futures x'" "x_max_workers x'' = x_max_workers x'" "x_pool x'' = x_pool x'" "x_stopped x'' = x_stopped x'"
  shows "fleet_ok renv (fl[i := (env, x'')], s')"
proof -
  have mem: "(env, x) \<in> set fl" using i by (metis nth_mem)
  then have env: "own_env renv env" "exec_ok env x" and ids: "ids_ok (db s)" and cov: "covered fl (db s)"
    using ok by (auto simp: fleet_ok_def)
  from process_next_ok [OF ids env(2) own_meanwhile [OF env(1)], where reviews = reviews] p
  have t: "turn_ok env x (db s) (r, x', s')" by simp
  then have att: "attended (x_futures x'') (db s) (db s')" by (simp add: turn_ok_def same)
  have ex: "exec_ok env x''" and sub: "set (x_futures x) \<subseteq> set (x_futures x'')"
    using t env(2) same by (auto simp: turn_ok_def exec_ok_def)
  have "covered (fl[i := (env, x'')]) (db s')" by (rule covered_turn [OF cov i(2,1) att sub])
  then show ?thesis
    using ok att env(1) ex by (auto simp: fleet_ok_def attended_def dest!: set_update_cases)
qed

lemma fleet_same:
  assumes "fleet_ok renv (fl, s)" and "length fl' = length fl"
    and "\<And>i. i < length fl \<Longrightarrow> fst (fl' ! i) = fst (fl ! i) \<and> x_futures (snd (fl' ! i)) = x_futures (snd (fl ! i)) \<and>
      exec_ok (fst (fl' ! i)) (snd (fl' ! i))"
  shows "fleet_ok renv (fl', s)"
proof -
  have moved: "(e, snd (fl' ! i)) \<in> set fl' \<and> x_futures (snd (fl' ! i)) = x_futures y"
    if len: "i < length fl" and y: "fl ! i = (e, y)" for e y i
  proof -
    from assms(3) [OF len] y have e: "fst (fl' ! i) = e" "x_futures (snd (fl' ! i)) = x_futures y" by simp_all
    have "fl' ! i \<in> set fl'" using len assms(2) by simp
    then have "(e, snd (fl' ! i)) \<in> set fl'" unfolding e(1) [symmetric] by simp
    with e(2) show ?thesis by simp
  qed
  have "covered fl' (db s)"
    unfolding covered_def
  proof (intro ballI impI)
    fix r assume "r \<in> set (tasks (db s))" "busy r"
    then obtain e y w where w: "(e, y) \<in> set fl" "w \<in> set (x_futures y)" "worker_of w r"
      using assms(1) by (fastforce simp: fleet_ok_def covered_def)
    from w(1) obtain i where "i < length fl" "fl ! i = (e, y)" by (metis in_set_conv_nth)
    from moved [OF this] have m: "(e, snd (fl' ! i)) \<in> set fl'" "x_futures (snd (fl' ! i)) = x_futures y" by blast+
    then have "\<exists>w \<in> set (x_futures (snd (fl' ! i))). worker_of w r" using w(2,3) by auto
    with m(1) show "\<exists>(e, y) \<in> set fl'. \<exists>w \<in> set (x_futures y). worker_of w r" by blast
  qed
  moreover have "own_env renv e \<and> exec_ok e y" if row: "(e, y) \<in> set fl'" for e y
  proof -
    obtain i where i: "i < length fl'" "fl' ! i = (e, y)" using row by (metis in_set_conv_nth)
    have len: "i < length fl" using i(1) unfolding assms(2) .
    from assms(3) [OF len] have "fst (fl' ! i) = fst (fl ! i)" "exec_ok (fst (fl' ! i)) (snd (fl' ! i))" by blast+
    then have e: "e = fst (fl ! i)" "exec_ok e y" unfolding i(2) by simp_all
    have "(e, snd (fl ! i)) \<in> set fl" using nth_mem [OF len] unfolding e(1) prod.collapse .
    with assms(1) have "own_env renv e" by (auto simp: fleet_ok_def)
    with e(2) show ?thesis by simp
  qed
  ultimately show ?thesis using assms(1) by (auto simp: fleet_ok_def)
qed

lemma handler_runs:
  assumes "own_env renv env" and "wk_kind w = ForReview \<Longrightarrow> xe_reviewer env \<noteq> None" and "agents_keep calm renv"
    and r: "run_handler env w s = (r, s')"
  shows "calm (db s) (db s')"
    and "\<not> left_behind (case wk_kind w of ForExecution \<Rightarrow> IN_PROGRESS | ForReview \<Rightarrow> REVIEWING)
      (fence_of True (wk_task w)) (t_id (wk_task w)) (db s')"
proof -
  obtain agent where h: "handler_of env w =
      (case wk_kind w of ForExecution \<Rightarrow> run renv True (wk_task w) agent | ForReview \<Rightarrow> review renv True (wk_task w) agent)"
    using assms(1,2) by (cases "wk_kind w") (auto simp: own_env_def executor_env_def handler_of_def split: if_splits)
  define m where "m = handler_of env w"
  have m: "act_total m" "act_keeps calm m" "settles True (wk_task w) (case wk_kind w of ForExecution \<Rightarrow> IN_PROGRESS | ForReview \<Rightarrow> REVIEWING) m"
    unfolding m_def h using worker_calm.keeps_run [OF assms(3)] worker_calm.keeps_review [OF assms(3)]
    by (cases "wk_kind w"; simp add: total_run total_review settles_run settles_review)+
  obtain b t where t: "m s = (Inr b, t)" using m(1) unfolding act_total_def by blast
  then have "(r, s') = (Inr b, t)" using r by (simp add: run_handler_def m_def [symmetric] act_try_def)
  with t act_keepsD [OF m(2)] act_endsD [OF m(3) _ t] show "calm (db s) (db s')"
    and "\<not> left_behind (case wk_kind w of ForExecution \<Rightarrow> IN_PROGRESS | ForReview \<Rightarrow> REVIEWING)
      (fence_of True (wk_task w)) (t_id (wk_task w)) (db s')" by auto
qed

text \<open>A worker leaves when its task is not in progress any more.\<close>

lemma worker_leaves:
  assumes "ids_ok d'" and "r' \<in> set (tasks d')" and "worker_of w r'"
    and "\<not> left_behind (case wk_kind w of ForExecution \<Rightarrow> IN_PROGRESS | ForReview \<Rightarrow> REVIEWING)
      (fence_of True (wk_task w)) (t_id (wk_task w)) d'"
  shows False
  using assms task_at_member [OF assms(1,2)] by (auto simp: worker_of_def left_behind_def fence_of_def split: if_splits)

lemma removed_other: "w \<in> set ws \<Longrightarrow> w \<noteq> ws ! k \<Longrightarrow> w \<in> set (take k ws @ drop (Suc k) ws)"
proof -
  assume w: "w \<in> set ws" "w \<noteq> ws ! k"
  then obtain j where j: "j < length ws" "ws ! j = w" by (metis in_set_conv_nth)
  with w(2) consider "j < k" | "k < j" by (metis linorder_neqE_nat)
  then show ?thesis
  proof cases
    case 1
    with j have "w \<in> set (take k ws)" by (auto simp: in_set_conv_nth intro!: exI [of _ j])
    then show ?thesis by simp
  next
    case 2
    with j have "w \<in> set (drop (Suc k) ws)" by (auto simp: in_set_conv_nth intro!: exI [of _ "j - Suc k"])
    then show ?thesis by simp
  qed
qed

lemma fleet_worker:
  assumes ok: "fleet_ok renv (fl, s)" and i: "i < length fl" "fl ! i = (env, x)" and k: "k < length (x_futures x)"
    and r: "run_handler env (x_futures x ! k) s = (r, s')" and calm: "agents_keep calm renv"
  shows "fleet_ok renv (fl[i := (env, worker_done k x)], s')"
proof -
  let ?w = "x_futures x ! k"
  have mem: "(env, x) \<in> set fl" using i by (metis nth_mem)
  then have env: "own_env renv env" "exec_ok env x" and ids: "ids_ok (db s)" and cov: "covered fl (db s)"
    using ok by (auto simp: fleet_ok_def)
  have kind: "wk_kind ?w = ForReview \<Longrightarrow> xe_reviewer env \<noteq> None" using env(2) nth_mem [OF k] by (auto simp: exec_ok_def)
  note run = handler_runs [OF env(1) kind calm r]
  have ids': "ids_ok (db s')" using run(1) ids by (simp add: calm_def)
  let ?new = "fl[i := (env, worker_done k x)]"
  have new: "(env, worker_done k x) \<in> set ?new" using i(1) by (rule set_update_memI)
  have "\<exists>(e, y) \<in> set ?new. \<exists>w \<in> set (x_futures y). worker_of w r'" if r': "r' \<in> set (tasks (db s'))" "busy r'" for r'
  proof -
    obtain q where q: "q \<in> set (tasks (db s))" "busy_key q = busy_key r'" using run(1) r' by (auto simp: calm_def)
    then have "busy q" using r'(2) busy_key_busy by blast
    then obtain e y w where w: "(e, y) \<in> set fl" "w \<in> set (x_futures y)" "worker_of w q" using cov q(1) by (fastforce simp: covered_def)
    have w': "worker_of w r'" using worker_of_key [OF w(3) q(2)] .
    then have other: "w \<noteq> ?w" using worker_leaves [OF ids' r'(1) _ run(2)] by blast
    show ?thesis
    proof (cases "(e, y) = fl ! i")
      case True
      with i(2) removed_other [OF _ other] w(2) have "w \<in> set (x_futures (worker_done k x))"
        by (simp add: worker_done_def executor_wake_def)
      with new w' show ?thesis by blast
    next
      case False
      with set_update_other [OF w(1) False, of "(env, worker_done k x)"] w(2) w' show ?thesis by blast
    qed
  qed
  moreover have "exec_ok env (worker_done k x)"
    using env(2) by (auto simp: exec_ok_def worker_done_def executor_wake_def dest: in_set_takeD in_set_dropD)
  ultimately show ?thesis
    using ok ids' env(1) by (auto simp: fleet_ok_def covered_def dest!: set_update_cases)
qed

lemma fleet_one:
  assumes "fleet_ok renv (fl, s)" and "i < length fl" and "fl ! i = (env, x)" and "x_futures x' = x_futures x" and "exec_ok env x'"
  shows "fleet_ok renv (fl[i := (env, x')], s)"
proof (rule fleet_same [OF assms(1)])
  have e: "\<forall>p \<in> set fl. exec_ok (fst p) (snd p)" using assms(1) by (auto simp: fleet_ok_def)
  show "fst (fl[i := (env, x')] ! j) = fst (fl ! j) \<and> x_futures (snd (fl[i := (env, x')] ! j)) = x_futures (snd (fl ! j)) \<and>
      exec_ok (fst (fl[i := (env, x')] ! j)) (snd (fl[i := (env, x')] ! j))" if "j < length fl" for j
    using that assms(2-5) e by (cases "j = i") auto
qed simp

lemma fleet_map:
  assumes "fleet_ok renv (fl, s)" and "\<And>env x. exec_ok env x \<Longrightarrow> exec_ok env (f x)" and "\<And>x. x_futures (f x) = x_futures x"
  shows "fleet_ok renv (map (\<lambda>(env, x). (env, f x)) fl, s)"
proof (rule fleet_same [OF assms(1)])
  have e: "\<forall>p \<in> set fl. exec_ok (fst p) (snd p)" using assms(1) by (auto simp: fleet_ok_def)
  show "fst (map (\<lambda>(env, x). (env, f x)) fl ! j) = fst (fl ! j) \<and>
      x_futures (snd (map (\<lambda>(env, x). (env, f x)) fl ! j)) = x_futures (snd (fl ! j)) \<and>
      exec_ok (fst (map (\<lambda>(env, x). (env, f x)) fl ! j)) (snd (map (\<lambda>(env, x). (env, f x)) fl ! j))" if "j < length fl" for j
    using that e assms(2,3) nth_mem [OF that] by (auto simp: case_prod_beta)
qed simp

lemma exec_ok_wake: "exec_ok env x \<Longrightarrow> exec_ok env (executor_wake x)"
  by (simp add: exec_ok_def executor_wake_def)

lemma fleet_wake: "fleet_ok renv (fl, s) \<Longrightarrow> fleet_ok renv (wake_peers fl, s)"
  unfolding wake_peers_def by (rule fleet_map) (simp_all add: exec_ok_def executor_wake_def)

lemma fleet_step_ok:
  assumes "fleet_step calm (fl, s) (fl', s')" and "fleet_ok renv (fl, s)" and "agents_keep calm renv"
  shows "fleet_ok renv (fl', s')"
  using assms(1,2)
proof (cases rule: fleet_step.cases)
  case (poll i env x x')
  have ok: "exec_ok env x" using assms(2) poll nth_mem [of i fl] by (fastforce simp: fleet_ok_def)
  show ?thesis
  proof (cases "x_running x")
    case True
    obtain r y t where p: "process_next env True x s = (r, y, t)" by (metis prod_cases3)
    with poll True have "(x' = y \<or> x' = y\<lparr>x_poller := Waiting\<rparr>) \<and> s' = t"
      by (auto simp: poll_turn_def split: sum.splits option.splits)
    with fleet_turn [OF assms(2) _ _ p, of i x'] poll show ?thesis by auto
  next
    case False
    with poll have "x' = x\<lparr>x_poller := NoPoller\<rparr>" "s' = s" by (simp_all add: poll_turn_def)
    with fleet_one [OF assms(2), of i env x x'] poll ok show ?thesis by (simp add: exec_ok_def)
  qed
next
  case (waited i env x)
  have ok: "exec_ok env x" using assms(2) waited nth_mem [of i fl] by (fastforce simp: fleet_ok_def)
  with fleet_one [OF assms(2), of i env x "wait_over x"] waited show ?thesis by (simp add: exec_ok_def wait_over_def)
next
  case (manual i env x r x')
  with fleet_turn [OF assms(2), of i env x False r x' s' x'] show ?thesis by simp
next
  case (worker i env x k r)
  with fleet_worker [OF assms(2), of i env x k r s'] assms(3) show ?thesis by (simp add: fleet_wake)
next
  case (started i env x x')
  have ok: "exec_ok env x" using assms(2) started nth_mem [of i fl] by (fastforce simp: fleet_ok_def)
  with fleet_one [OF assms(2), of i env x x'] started show ?thesis
    by (auto simp: exec_ok_def executor_start_def split: if_splits)
next
  case stopped
  with fleet_map [OF assms(2), of executor_stop] show ?thesis
    by (simp add: stop_executors_def exec_ok_def executor_stop_def)
next
  case (woken i env x)
  have ok: "exec_ok env x" using assms(2) woken nth_mem [of i fl] by (fastforce simp: fleet_ok_def)
  with fleet_one [OF assms(2), of i env x "executor_wake x"] woken exec_ok_wake show ?thesis by (simp add: executor_wake_def)
next
  case other
  then have c: "calm (db s) (db s')" "fl' = fl" by simp_all
  have "covered fl (db s')"
    unfolding covered_def
  proof (intro ballI impI)
    fix r' assume "r' \<in> set (tasks (db s'))" "busy r'"
    then obtain r where r: "r \<in> set (tasks (db s))" "busy_key r = busy_key r'" using c(1) by (auto simp: calm_def)
    then have "busy r" using busy_key_busy \<open>busy r'\<close> by blast
    with r assms(2) obtain e y w where "(e, y) \<in> set fl" "w \<in> set (x_futures y)" "worker_of w r"
      by (fastforce simp: fleet_ok_def covered_def)
    with worker_of_key r(2) show "\<exists>(e, y) \<in> set fl. \<exists>w \<in> set (x_futures y). worker_of w r'" by blast
  qed
  with assms(2) c show ?thesis by (simp add: fleet_ok_def calm_def)
qed

lemma setup_ok:
  assumes "setup_executors renv job gate meanwhile s = Inr fl" and "\<And>t. calm (db t) (db (meanwhile t))"
    and "ids_ok (db s)" and "\<not> list_ex busy (tasks (db s))"
  shows "fleet_ok renv (fl, s)"
proof -
  have "own_env renv env \<and> exec_ok env x" if "(env, x) \<in> set fl" for env x
  proof -
    from map_res_all [OF assms(1) [unfolded setup_executors_def] that]
    obtain agent where a: "env = executor_env renv job gate meanwhile s agent"
      and x: "x = \<lparr>x_max_workers = 2, x_running = True, x_stopped = False, x_wake = False, x_pool = OpenPool, x_poller = AtTop, x_futures = []\<rparr>"
      by (auto simp: new_executor_def executor_start_def)
    from assms(2) have "own_env renv env" unfolding own_env_def a by blast
    moreover have "exec_ok env x" by (simp add: exec_ok_def x)
    ultimately show ?thesis ..
  qed
  then show ?thesis using assms(3,4) by (auto simp: fleet_ok_def covered_def list_ex_iff)
qed

text \<open>
  C8. The executors lose no task they claim. Let them be set up on a database in which no task is in progress or under review
  (as the recovery leaves it), and let nobody but their own claims put a task in that state: the agents, the changes between
  two statements of a turn and the other programs may do to the database whatever is \<open>calm\<close> (so not an \<open>update_task\<close> to such
  a status). Then after any number of steps, in any order, of pollers, waits, manual rounds, workers that run their whole
  handler, calls of \<open>start\<close>, \<open>stop\<close> and \<open>wake\<close> and changes by others, every task in progress or under review is in the hands
  of a live worker that holds this very attempt, and no executor has more work than workers.
\<close>

theorem claimed_work_has_a_worker:
  assumes "setup_executors renv job gate meanwhile s0 = Inr fl0"
    and "(fleet_step calm)\<^sup>*\<^sup>* (fl0, s0) (fl, s)"
    and "agents_keep calm renv" and "\<And>t. calm (db t) (db (meanwhile t))"
    and "ids_ok (db s0)" and "\<not> list_ex busy (tasks (db s0))"
  shows "(\<forall>r \<in> set (tasks (db s)). busy r \<longrightarrow> (\<exists>(env, x) \<in> set fl. \<exists>w \<in> set (x_futures x). worker_of w r)) \<and>
    (\<forall>(env, x) \<in> set fl. int (length (x_futures x)) \<le> x_max_workers x)"
proof -
  have "fleet_ok renv c" if "(fleet_step calm)\<^sup>*\<^sup>* (fl0, s0) c" for c
    using that
  proof (induction rule: rtranclp_induct)
    case base
    then show ?case by (rule setup_ok [OF assms(1,4,5,6)])
  next
    case (step c c')
    then show ?case using fleet_step_ok assms(3) by (metis prod.collapse)
  qed
  from this [OF assms(2)] show ?thesis by (auto simp: fleet_ok_def covered_def exec_ok_def)
qed

text \<open>
  A turn of an executor never raises and never claims beyond its capacity: it either claims nothing
  and leaves the database as it is, or returns the one task it claimed, which it has handed to a worker
  of its own together with the row as it is in the database.
\<close>

theorem turn_claims_what_it_dispatches:
  assumes "ids_ok (db s)" and "exec_ok env x" and "\<And>t. xe_meanwhile env t = t"
  shows "case process_next env reviews x s of (r, x', s') \<Rightarrow>
    (r = Inr None \<and> x' = x \<and> s' = s) \<or>
    (\<exists>w. r = Inr (Some (t_id (wk_task w))) \<and> x' = x\<lparr>x_futures := x_futures x @ [w]\<rparr> \<and>
       int (length (x_futures x')) \<le> x_max_workers x' \<and> \<not> x_stopped x' \<and>
       task_at (db s') (t_id (wk_task w)) = Some (wk_task w) \<and> worker_of w (wk_task w) \<and>
       (if wk_kind w = ForExecution then t_assigned_to (wk_task w) = Some (xe_agent env)
        else t_reviewed_by (wk_task w) = Some (xe_agent env)))"
proof (cases "x_stopped x \<or> \<not> xe_gate env s \<or> int (length (x_futures x)) \<ge> x_max_workers x")
  case True
  then show ?thesis by (auto simp: process_next_def)
next
  case False
  then have pool: "x_pool x = OpenPool" and room: "int (length (x_futures x)) < x_max_workers x"
    using assms(2) by (auto simp: exec_ok_def)
  have reviews: ?thesis if "process_next env reviews x s = process_reviews env reviews x s"
  proof (cases "reviews \<and> xe_reviewer env \<noteq> None \<and> xe_eligible env s")
    case True
    obtain res s' where c: "claim_delivery env s = (res, s')" by fastforce
    show ?thesis
    proof (cases res)
      case None
      with c claim_none(2) [of env s s'] that show ?thesis by (simp add: process_reviews_def)
    next
      case (Some tid)
      obtain r where r: "task_at (db s') tid = Some r" "can_review_loaded env r"
        using claim_delivery_claims [OF assms(1), of env tid s'] c Some by (auto simp: claims_row_def)
      then have "t_id r = tid" by (auto simp: task_at_def dest: find_SomeD)
      with True c Some r pool have "process_reviews env reviews x s =
          (Inr (Some tid), x\<lparr>x_futures := x_futures x @ [\<lparr>wk_kind = ForReview, wk_task = r\<rparr>]\<rparr>, s')"
        by (simp add: process_reviews_def assms(3) dispatch_review_def load_task_at submit_handler_def or_fail_def)
      with that show ?thesis using r room False \<open>t_id r = tid\<close>
        by (simp, intro exI [of _ "\<lparr>wk_kind = ForReview, wk_task = r\<rparr>"]) (simp add: worker_of_def can_review_loaded_def)
    qed
  next
    case False
    then have "process_reviews env reviews x s = (Inr None, x, s)" unfolding process_reviews_def by (rule if_not_P)
    with that show ?thesis by simp
  qed
  show ?thesis
  proof (cases "xe_handler env = None")
    case True
    with False reviews show ?thesis by (simp add: process_next_def)
  next
    case handler: False
    obtain res s' where c: "claim_execution env s = (res, s')" by fastforce
    show ?thesis
    proof (cases res)
      case None
      with c claim_none(1) [OF _ assms(1)] have "s' = s" by simp
      with False c None handler reviews show ?thesis by (simp add: process_next_def)
    next
      case (Some tid)
      obtain r where r: "task_at (db s') tid = Some r" "can_execute_loaded env r" "t_assigned_to r = Some (xe_agent env)"
        using claim_execution_claims [OF assms(1), of env tid s'] c Some by (auto simp: claims_row_def)
      then have "t_id r = tid" by (auto simp: task_at_def dest: find_SomeD)
      with False handler c Some r pool have "process_next env reviews x s =
          (Inr (Some tid), x\<lparr>x_futures := x_futures x @ [\<lparr>wk_kind = ForExecution, wk_task = r\<rparr>]\<rparr>, s')"
        by (auto simp: process_next_def assms(3) dispatch_execution_def load_task_at submit_handler_def or_fail_def)
      then show ?thesis using r room False \<open>t_id r = tid\<close>
        by (simp, intro exI [of _ "\<lparr>wk_kind = ForExecution, wk_task = r\<rparr>"]) (simp add: worker_of_def can_execute_loaded_def)
    qed
  qed
qed

section \<open>A sample fleet\<close>

definition idle_sys :: Sys where
  "idle_sys = \<lparr> db = sample_store, noticed = [], effects = [] \<rparr>"

definition sample_fleet :: fleet where
  "sample_fleet = (case setup_executors sample_run_env None None (\<lambda>s. s) idle_sys of Inl _ \<Rightarrow> [] | Inr fl \<Rightarrow> fl)"

definition first_turn :: "fleet \<times> Sys" where
  "first_turn = (case sample_fleet ! 0 of (env, x) \<Rightarrow> (case poll_turn env x idle_sys of (x', s') \<Rightarrow> (sample_fleet[0 := (env, x')], s')))"

lemma sample_setup: "setup_executors sample_run_env None None (\<lambda>s. s) idle_sys = Inr sample_fleet"
proof -
  have "map_sum (\<lambda>_. ()) length (setup_executors sample_run_env None None (\<lambda>s. s) idle_sys) = Inr 2" by code_simp
  then show ?thesis by (auto simp: sample_fleet_def split: sum.splits)
qed

lemma sample_poller: "0 < length sample_fleet \<and> x_poller (snd (sample_fleet ! 0)) = AtTop"
  by code_simp

lemma first_turn_claims: "map (\<lambda>r. (t_id r, busy r)) (tasks (db (snd first_turn))) = [(1, True), (2, False)]"
  by code_simp

lemma sample_idle: "\<not> list_ex busy (tasks (db idle_sys))"
  by code_simp

lemma first_turn_step: "(fleet_step calm)\<^sup>*\<^sup>* (sample_fleet, idle_sys) (fst first_turn, snd first_turn)"
proof -
  obtain env x where x: "sample_fleet ! 0 = (env, x)" by fastforce
  obtain x' s' where p: "poll_turn env x idle_sys = (x', s')" by fastforce
  have "fleet_step calm (sample_fleet, idle_sys) (sample_fleet[0 := (env, x')], s')"
    using fleet_step.poll [OF _ x _ p, of calm] sample_poller x by simp
  then show ?thesis by (simp add: first_turn_def x p)
qed

theorem claimed_work_has_a_worker_witness:
  "(1, True) \<in> set (map (\<lambda>r. (t_id r, busy r)) (tasks (db (snd first_turn)))) \<and>
   (\<exists>(env, x) \<in> set (fst first_turn). x_futures x \<noteq> [])"
proof -
  have agents: "agents_keep calm sample_run_env"
    by (auto simp: agents_keep_def sample_run_env_def intro: worker_calm.keeps_pure)
  have "ids_ok (db idle_sys)" by (simp add: idle_sys_def sample_ids_ok)
  from claimed_work_has_a_worker [OF sample_setup first_turn_step agents calm_refl this sample_idle]
  have "\<forall>r \<in> set (tasks (db (snd first_turn))). busy r \<longrightarrow> (\<exists>(env, x) \<in> set (fst first_turn). x_futures x \<noteq> [])"
    unfolding case_prod_beta by (metis emptyE empty_set)
  moreover have "(1, True) \<in> set (map (\<lambda>r. (t_id r, busy r)) (tasks (db (snd first_turn))))" by (simp add: first_turn_claims)
  ultimately show ?thesis by auto
qed

theorem turn_claims_what_it_dispatches_witness:
  "exec_ok (fst (sample_fleet ! 0)) (snd (sample_fleet ! 0)) \<and>
   (case process_next (fst (sample_fleet ! 0)) True (snd (sample_fleet ! 0)) idle_sys of (r, x', s') \<Rightarrow> x_futures x' \<noteq> [])"
proof -
  have ids: "ids_ok (db idle_sys)" by (simp add: idle_sys_def sample_ids_ok)
  from setup_ok [OF sample_setup calm_refl ids sample_idle] sample_poller
  have ok: "exec_ok (fst (sample_fleet ! 0)) (snd (sample_fleet ! 0))" by (force simp: fleet_ok_def)
  obtain env x where e: "sample_fleet ! 0 = (env, x)" by fastforce
  have "xe_meanwhile env = (\<lambda>s. s)"
    using map_res_all [OF sample_setup [unfolded setup_executors_def], of "(env, x)"] sample_poller nth_mem [of 0 sample_fleet] e
    by (auto simp: new_executor_def executor_start_def executor_env_def)
  then have m: "xe_meanwhile (fst (sample_fleet ! 0)) t = t" for t by (simp add: e)
  obtain r x' s' where p: "process_next (fst (sample_fleet ! 0)) True (snd (sample_fleet ! 0)) idle_sys = (r, x', s')"
    by (metis prod_cases3)
  have "fst (process_next (fst (sample_fleet ! 0)) True (snd (sample_fleet ! 0)) idle_sys) \<noteq> Inr None" by code_simp
  with turn_claims_what_it_dispatches [OF ids ok m, of True] p have "x_futures x' \<noteq> []" by auto
  with ok p show ?thesis by simp
qed

end
