(* ===== verification/Shell_Lexer.thy ===== *)
theory Shell_Lexer
  imports File_Tools
begin

text \<open>
  How commands are cut into words and stages (\<open>runtime/tools/shell.py\<close>): the lexer of the standard library as
  the validator configures it (\<open>shlex.shlex (posix=True, punctuation_chars=";&|")\<close> with
  \<open>whitespace_split\<close> and no comments; \<open>shlex.split\<close> is the same lexer without punctuation), the division into
  stages, the scan for operators outside quotes, and \<open>shlex.quote\<close>.
\<close>

section \<open>The lexer\<close>

definition sq :: char where "sq = CHR 0x27"
definition dq :: char where "dq = CHR 0x22"
definition bslash :: char where "bslash = CHR 0x5C"

definition lex_blank :: "char \<Rightarrow> bool" where
  "lex_blank c \<longleftrightarrow> c \<in> {CHR '' '', CHR 0x09, CHR 0x0D, CHR 0x0A}"

text \<open>
  The states of \<open>read_token\<close>: \<open>' '\<close>, \<open>'a'\<close>, \<open>'c'\<close>, a quote, the bslash with the state it returns to (\<open>None\<close> is
  \<open>'a'\<close>). A token carries whether it ended a run of punctuation; the source sees the text only.
\<close>

datatype lex_state = LSpace | LWord | LPunct | LQuote char | LEscape "char option"

fun lex_rank :: "lex_state \<Rightarrow> nat" where
  "lex_rank LSpace = 0" | "lex_rank LWord = 1" | "lex_rank LPunct = 1" | "lex_rank (LQuote k) = 1" | "lex_rank (LEscape e) = 1"

definition lex_cons :: "pystr \<times> bool \<Rightarrow> pystr + (pystr \<times> bool) list \<Rightarrow> pystr + (pystr \<times> bool) list" where
  "lex_cons t r = bind_res r (\<lambda>ts. Inr (t # ts))"

text \<open>The character an escape leaves in the token: within quotes only the quote and the bslash lose theirs.\<close>

definition escaped_text :: "char option \<Rightarrow> char \<Rightarrow> pystr" where
  "escaped_text e c = (if e \<noteq> None \<and> c \<noteq> bslash \<and> e \<noteq> Some c then [bslash, c] else [c])"

definition after_escape :: "char option \<Rightarrow> lex_state" where
  "after_escape e = (case e of None \<Rightarrow> LWord | Some k \<Rightarrow> LQuote k)"

lemma after_escape_rank [simp]: "lex_rank (after_escape e) = 1"
  by (cases e) (simp_all add: after_escape_def)

text \<open>The arguments after the punctuation: the state, the token so far, whether a part of it was quoted, the input.\<close>

function read_token :: "pystr \<Rightarrow> lex_state \<Rightarrow> pystr \<Rightarrow> bool \<Rightarrow> pystr \<Rightarrow> pystr + (pystr \<times> bool) list" where
  "read_token P (LQuote k) tok q [] = Inl ''No closing quotation''"
| "read_token P (LEscape e) tok q [] = Inl ''No escaped character''"
| "read_token P LSpace tok q [] = Inr (if tok \<noteq> [] \<or> q then [(tok, False)] else [])"
| "read_token P LWord tok q [] = Inr (if tok \<noteq> [] \<or> q then [(tok, False)] else [])"
| "read_token P LPunct tok q [] = Inr (if tok \<noteq> [] \<or> q then [(tok, True)] else [])"
| "read_token P LSpace tok q (c # cs) =
     (if lex_blank c then
        (if tok \<noteq> [] \<or> q then lex_cons (tok, False) (read_token P LSpace [] False cs) else read_token P LSpace tok q cs)
      else if c = bslash then read_token P (LEscape None) tok q cs
      else if c \<in> set P then read_token P LPunct [c] q cs
      else if c = sq \<or> c = dq then read_token P (LQuote c) tok q cs
      else read_token P LWord [c] q cs)"
| "read_token P (LQuote k) tok q (c # cs) =
     (if c = k then read_token P LWord tok True cs
      else if c = bslash \<and> k = dq then read_token P (LEscape (Some k)) tok True cs
      else read_token P (LQuote k) (tok @ [c]) True cs)"
| "read_token P (LEscape e) tok q (c # cs) = read_token P (after_escape e) (tok @ escaped_text e c) q cs"
| "read_token P LWord tok q (c # cs) =
     (if lex_blank c then
        (if tok \<noteq> [] \<or> q then lex_cons (tok, False) (read_token P LSpace [] False cs) else read_token P LSpace tok q cs)
      else if c = sq \<or> c = dq then read_token P (LQuote c) tok q cs
      else if c = bslash then read_token P (LEscape None) tok q cs
      else if c \<in> set P then
        (if tok \<noteq> [] \<or> q then lex_cons (tok, False) (read_token P LSpace [] False (c # cs)) else read_token P LSpace tok q (c # cs))
      else read_token P LWord (tok @ [c]) q cs)"
| "read_token P LPunct tok q (c # cs) =
     (if lex_blank c then lex_cons (tok, True) (read_token P LSpace [] False cs)
      else if c \<in> set P then read_token P LPunct (tok @ [c]) q cs
      else lex_cons (tok, True) (read_token P LSpace [] False (c # cs)))"
  by pat_completeness auto
termination by (relation "measure (\<lambda>(P, st, tok, q, cs). 2 * length cs + lex_rank st)") auto

definition lex_tokens :: "pystr \<Rightarrow> pystr \<Rightarrow> pystr + (pystr \<times> bool) list" where
  "lex_tokens P s = read_token P LSpace [] False s"

definition shlex :: "pystr \<Rightarrow> pystr \<Rightarrow> pystr + pystr list" where
  "shlex P s = bind_res (lex_tokens P s) (\<lambda>ts. Inr (map fst ts))"

text \<open>\<open>shlex.split (command)\<close>.\<close>

definition shlex_split :: "pystr \<Rightarrow> pystr + pystr list" where
  "shlex_split s = shlex [] s"

section \<open>Stages of a command\<close>

definition stage_operators :: "pystr list" where
  "stage_operators = ['';'', ''&&'', ''||'', ''|'']"

fun group_stages :: "pystr list \<Rightarrow> pystr list \<Rightarrow> pystr + pystr list list" where
  "group_stages [] current = (if current = [] then Inl ''comando incompleto'' else Inr [current])"
| "group_stages (t # ts) current =
     (if t \<in> set stage_operators then
        (if current = [] then Inl ''operador shell sem comando''
         else bind_res (group_stages ts []) (\<lambda>stages. Inr (current # stages)))
      else if t = ''&'' then Inl (''execu'' @ [CHR 0xE7, CHR 0xE3] @ ''o em background n'' @ [CHR 0xE3] @ ''o suportada'')
      else group_stages ts (current @ [t]))"

definition shell_punct :: pystr where
  "shell_punct = '';&|''"

text \<open>
  \<open>_split_shell_commands\<close>. It reads the tokens one at a time, so of two errors it may raise the other one; both
  are a \<open>ValueError\<close> that its only caller replaces by its own message.
\<close>

definition split_shell_commands :: "pystr \<Rightarrow> pystr + pystr list list" where
  "split_shell_commands command = bind_res (shlex shell_punct command) (\<lambda>ts. group_stages ts [])"

section \<open>The scan for operators\<close>

text \<open>\<open>_SHELL_OPERATOR_PATTERN.match (command, index)\<close>: \<open>&&\<close>, \<open>||\<close>, or one of \<open>;\<close> and \<open>|\<close>.\<close>

definition operator_at :: "pystr \<Rightarrow> pystr option" where
  "operator_at s = (if prefix ''&&'' s then Some ''&&'' else if prefix ''||'' s then Some ''||''
     else if s \<noteq> [] \<and> hd s \<in> {CHR '';'', CHR ''|''} then Some [hd s] else None)"

text \<open>\<open>_validate_shell_operators\<close>: the operator that is refused; the open quote and the escape are the arguments.\<close>

fun scan_operators :: "char option \<Rightarrow> bool \<Rightarrow> pystr \<Rightarrow> pystr option" where
  "scan_operators opened escaped [] = None"
| "scan_operators opened escaped (c # cs) =
     (if escaped then scan_operators opened False cs
      else if c = bslash then scan_operators opened True cs
      else if opened \<noteq> None then scan_operators (if opened = Some c then None else opened) False cs
      else if c = sq \<or> c = dq then scan_operators (Some c) False cs
      else if c = CHR 0x60 then Some [CHR 0x60]
      else if prefix ''$('' (c # cs) then Some ''$(''
      else (case operator_at (c # cs) of Some op \<Rightarrow> Some op | None \<Rightarrow> scan_operators None False cs))"

section \<open>Quoting\<close>

text \<open>\<open>shlex.quote\<close>: a text of safe characters stays, any other goes between single quotes.\<close>

definition quote_safe :: "char \<Rightarrow> bool" where
  "quote_safe c = (let n = (of_char c :: nat) in
     (48 \<le> n \<and> n \<le> 57) \<or> (65 \<le> n \<and> n \<le> 90) \<or> (97 \<le> n \<and> n \<le> 122) \<or> c \<in> set ''_@%+=:,./-'')"

definition quote_body :: "pystr \<Rightarrow> pystr" where
  "quote_body s = concat (map (\<lambda>c. if c = sq then [sq, dq, sq, dq, sq] else [c]) s)"

definition shlex_quote :: "pystr \<Rightarrow> pystr" where
  "shlex_quote s = (if s = [] then [sq, sq] else if list_all quote_safe s then s else sq # quote_body s @ [sq])"

section \<open>Words\<close>

text \<open>Characters that no state but a quote or an escape treats apart.\<close>

definition lex_word_char :: "pystr \<Rightarrow> char \<Rightarrow> bool" where
  "lex_word_char P c \<longleftrightarrow> \<not> lex_blank c \<and> c \<noteq> sq \<and> c \<noteq> dq \<and> c \<noteq> bslash \<and> c \<notin> set P"

lemma lex_cons_simps [simp]: "lex_cons t (Inl e) = Inl e" "lex_cons t (Inr ts) = Inr (t # ts)"
  by (simp_all add: lex_cons_def)

lemma lex_cons_Inr: "lex_cons t r = Inr ts \<longleftrightarrow> (\<exists>us. r = Inr us \<and> ts = t # us)"
  by (cases r) auto

lemma char_facts [simp]: "sq \<noteq> dq" "dq \<noteq> sq" "sq \<noteq> bslash" "bslash \<noteq> sq" "dq \<noteq> bslash" "bslash \<noteq> dq"
  "\<not> lex_blank sq" "\<not> lex_blank dq" "\<not> lex_blank bslash"
  by (simp_all add: sq_def dq_def bslash_def lex_blank_def)

lemma lex_word_run: "list_all (lex_word_char P) w \<Longrightarrow> read_token P LWord tok q (w @ r) = read_token P LWord (tok @ w) q r"
  by (induction w arbitrary: tok) (auto simp: lex_word_char_def)

lemma lex_word: "w \<noteq> [] \<Longrightarrow> list_all (lex_word_char P) w \<Longrightarrow> read_token P LSpace [] False (w @ r) = read_token P LWord w False r"
  by (cases w) (auto simp: lex_word_char_def lex_word_run)

lemma lex_quote_nonempty: "r \<noteq> [] \<Longrightarrow> read_token P (LQuote k) tok q r = read_token P (LQuote k) tok True r"
  by (cases r) auto

lemma lex_quote_body: "read_token P (LQuote sq) tok True (quote_body s @ r) = read_token P (LQuote sq) (tok @ s) True r"
proof (induction s arbitrary: tok)
  case (Cons c s)
  then show ?case by (simp add: quote_body_def)
qed (simp add: quote_body_def)

lemma quote_safe_word: "quote_safe c \<Longrightarrow> c \<notin> set P \<Longrightarrow> lex_word_char P c"
  by (auto simp: quote_safe_def lex_word_char_def lex_blank_def sq_def dq_def bslash_def Let_def)

lemma lex_word_blank: "w \<noteq> [] \<Longrightarrow> list_all (lex_word_char P) w \<Longrightarrow> lex_blank c \<Longrightarrow>
    read_token P LSpace [] False (w @ c # r) = lex_cons (w, False) (read_token P LSpace [] False r)"
  by (simp add: lex_word)

text \<open>The lexer reads a quoted text back as a part of the word it stands in, whatever follows.\<close>

lemma lex_shlex_quote:
  assumes "\<And>c. quote_safe c \<Longrightarrow> c \<notin> set P" and free: "sq \<notin> set P"
  shows "read_token P LSpace [] False (shlex_quote s @ r) = read_token P LWord s (\<not> (s \<noteq> [] \<and> list_all quote_safe s)) r"
proof (cases "s \<noteq> [] \<and> list_all quote_safe s")
  case True
  then have "list_all (lex_word_char P) s" using assms(1) by (auto simp: list_all_iff intro: quote_safe_word)
  then show ?thesis using True by (simp add: shlex_quote_def lex_word)
next
  case False
  show ?thesis
  proof (cases "s = []")
    case True
    then show ?thesis using free by (simp add: shlex_quote_def)
  next
    case ne: False
    have "read_token P (LQuote sq) [] False (quote_body s @ sq # r) = read_token P (LQuote sq) s True (sq # r)"
      using lex_quote_nonempty [of "quote_body s @ sq # r" P sq "[]" False] lex_quote_body [of P "[]" s "sq # r"] by simp
    then show ?thesis using False ne free by (simp add: shlex_quote_def)
  qed
qed

end
