(* ===== verification/Shell_Policy.thy ===== *)
theory Shell_Policy
  imports Tool_Policy Shell_Lexer
begin

text \<open>
  What the policy asks of a shell command before it runs (\<open>ShellToolValidator\<close> of \<open>runtime/tools/shell.py\<close>, with
  the defaults of \<open>runtime/config.py\<close>): the expression and the texts that are refused anywhere, the operators, the
  allowlist of programs, the paths of commands that read and of \<open>mkdir\<close>. Home directories, the resolution of paths
  and the reading of a number by \<open>float\<close> are parameters.
\<close>

section \<open>Expressions\<close>

text \<open>
  The regular expressions the denylist uses: one character of a class, any number of them, a literal text, the end
  (\<open>$\<close>, also before a last line feed), a choice and a sequence. \<open>residues\<close> is what may be left after a match at the front.
\<close>

datatype rx = One "char \<Rightarrow> bool" | Many "char \<Rightarrow> bool" | Lit pystr | AtEnd | Alt rx rx | Seq rx rx

primrec residues :: "rx \<Rightarrow> pystr \<Rightarrow> pystr list" where
  "residues (One p) s = (case s of [] \<Rightarrow> [] | c # cs \<Rightarrow> if p c then [cs] else [])"
| "residues (Many p) s = map (\<lambda>k. drop k s) [0 ..< Suc (length (takeWhile p s))]"
| "residues (Lit t) s = (if prefix t s then [drop (length t) s] else [])"
| "residues AtEnd s = (if s = [] \<or> s = [CHR 0x0A] then [s] else [])"
| "residues (Alt a b) s = residues a s @ residues b s"
| "residues (Seq a b) s = concat (map (residues b) (residues a s))"

definition blanks1 :: rx where "blanks1 = Seq (One py_isspace) (Many py_isspace)"
definition blanks :: rx where "blanks = Many py_isspace"

fun rx_any :: "rx list \<Rightarrow> rx" where
  "rx_any [] = One (\<lambda>_. False)"
| "rx_any (r # rs) = Alt r (rx_any rs)"

fun rx_seq :: "rx list \<Rightarrow> rx" where
  "rx_seq [] = Lit []"
| "rx_seq (r # rs) = Seq r (rx_seq rs)"

definition device_char :: "char \<Rightarrow> bool" where
  "device_char c = (let n = (of_char c :: nat) in (97 \<le> n \<and> n \<le> 122) \<or> (48 \<le> n \<and> n \<le> 57))"

text \<open>The choices of \<open>_DENYLIST_REGEX\<close>, in its order.\<close>

definition denied_forms :: "rx list" where
  "denied_forms = [
     rx_seq [Lit ''rm'', blanks1, Lit ''-rf''],
     rx_seq [Lit ''rm'', blanks1, Lit ''-r'', blanks1, Lit ''/''],
     rx_seq [Lit ''sudo'', Alt blanks1 AtEnd],
     Lit ''systemctl'', Lit ''shutdown'', Lit ''reboot'', Lit ''poweroff'', Lit ''mkfs'',
     rx_seq [Lit '':'', blanks, Lit ''('', blanks, Lit ''{''],
     rx_seq [Lit '':'', blanks, Lit ''()'', blanks, Lit ''{''],
     rx_seq [Lit ''chmod'', blanks1, Lit ''-R'', blanks1, Lit ''777''],
     rx_seq [Lit ''chown'', blanks1, Lit ''-R''],
     Lit ''chattr'',
     rx_seq [Lit ''dd'', blanks1, Lit ''if=''],
     rx_seq [Lit ''>'', blanks, Lit ''/dev/'', rx_any (map Lit [''sd'', ''nvme'', ''hd'', ''xvd'', ''vd'', ''loop'', ''mmcblk'']), Many device_char]]"

text \<open>\<open>(?:\s|$)\<close> after the form; the form starts the text or follows a blank.\<close>

definition form_matches :: "pystr \<Rightarrow> bool" where
  "form_matches s \<longleftrightarrow> residues (Seq (rx_any denied_forms) (Alt (One py_isspace) AtEnd)) s \<noteq> []"

fun after_blank_matches :: "pystr \<Rightarrow> bool" where
  "after_blank_matches [] = False"
| "after_blank_matches (c # cs) = ((py_isspace c \<and> form_matches cs) \<or> after_blank_matches cs)"

definition denylist_search :: "pystr \<Rightarrow> bool" where
  "denylist_search s \<longleftrightarrow> form_matches s \<or> after_blank_matches s"

section \<open>Configuration\<close>

datatype pyfloat = Finite rat | Infinite bool | NotANumber

record ShellEnv =
  sh_files :: FileEnv
  sh_home :: "pystr \<Rightarrow> (bool \<times> pystr list) option"
  sh_float :: "json \<Rightarrow> pyfloat option"
  sh_allowlist :: "pystr list"
  sh_denylist :: "pystr list"
  sh_policy :: "WorkspacePolicy option"

definition default_allowlist :: "pystr list" where
  "default_allowlist = [''awk'', ''cargo'', ''cat'', ''cmake'', ''cmp'', ''composer'', ''cp'', ''cut'', ''diff'', ''docker'',
     ''docker-compose'', ''dotnet'', ''echo'', ''file'', ''find'', ''go'', ''gradle'', ''gradlew'', ''git'', ''grep'', ''head'',
     ''java'', ''javac'', ''jq'', ''ls'', ''make'', ''mkdir'', ''mvn'', ''mvnw'', ''node'', ''npm'', ''npx'', ''pnpm'', ''poetry'',
     ''pip'', ''pip3'', ''pwd'', ''pytest'', ''python'', ''python3'', ''rg'', ''ruff'', ''sed'', ''sort'', ''stat'', ''tail'', ''tee'',
     ''tree'', ''tsc'', ''uv'', ''wc'', ''xargs'', ''yarn'']"

definition default_denylist :: "pystr list" where
  "default_denylist = [''rm -rf'', ''rm -r /'', ''rm -rf /'', ''sudo '', ''systemctl '', ''shutdown'', ''reboot'', ''poweroff'', ''mkfs'',
     '' dd '', '':(){'', '':()'', ''chmod -R 777'', ''chown -R'', ''chattr'', ''dd if='', ''wget '', ''curl -o'', ''curl --output'']"

section \<open>Paths in a command\<close>

text \<open>\<open>Path (text).expanduser ()\<close>: whether it is absolute, and its components.\<close>

definition parsed_path :: "pystr \<Rightarrow> bool \<times> pystr list" where
  "parsed_path raw = (raw \<noteq> [] \<and> hd raw = CHR ''/'', path_parts raw)"

definition expand_user :: "ShellEnv \<Rightarrow> pystr \<Rightarrow> tool_exception + (bool \<times> pystr list)" where
  "expand_user env raw = (let (rooted, parts) = parsed_path raw in
     if \<not> rooted \<and> parts \<noteq> [] \<and> prefix ''~'' (hd parts) then
       (case sh_home env (hd parts) of
         None \<Rightarrow> Inl (RuntimeErr ''Could not determine home directory.'')
       | Some (at_root, home) \<Rightarrow> Inr (at_root, home @ tl parts))
     else Inr (rooted, parts))"

definition shell_cwd :: "ShellEnv \<Rightarrow> fpath" where
  "shell_cwd env = fe_cwd (sh_files env)"

definition inside_workspace :: "ShellEnv \<Rightarrow> fpath \<Rightarrow> bool" where
  "inside_workspace env p = is_path_inside (sh_files env) p (shell_cwd env)"

definition anchored :: "ShellEnv \<Rightarrow> bool \<times> pystr list \<Rightarrow> fpath" where
  "anchored env path = (case path of (rooted, parts) \<Rightarrow> if rooted then parts else shell_cwd env @ parts)"

definition normalize_allowed_executable :: "ShellEnv \<Rightarrow> pystr \<Rightarrow> tool_exception + pystr" where
  "normalize_allowed_executable env first =
     (if CHR ''/'' \<notin> set first then Inr first
      else bind_res (expand_user env first) (\<lambda>path. let candidate = anchored env path in
        if \<not> inside_workspace env (fe_resolve (sh_files env) (butlast candidate))
        then refuse (''Execut'' @ [CHR 0xE1] @ ''vel fora do workspace: '' @ first)
        else Inr (if candidate = [] then [] else last candidate)))"

definition outside_path_text :: "pystr \<Rightarrow> pystr" where
  "outside_path_text raw = ''Caminho fora do workspace: '' @ raw"

definition mkdir_flags :: "pystr list" where
  "mkdir_flags = [''-p'', ''--parents'', ''-v'', ''--verbose'']"

fun mkdir_paths :: "bool \<Rightarrow> pystr list \<Rightarrow> tool_exception + pystr list" where
  "mkdir_paths parse_flags [] = Inr []"
| "mkdir_paths parse_flags (a # args) =
     (if parse_flags \<and> a = ''--'' then mkdir_paths False args
      else if parse_flags \<and> prefix ''-'' a then
        (if a \<notin> set mkdir_flags then refuse (''Flag n'' @ [CHR 0xE3] @ ''o permitida para mkdir: '' @ a) else mkdir_paths parse_flags args)
      else bind_res (mkdir_paths parse_flags args) (\<lambda>paths. Inr (a # paths)))"

fun check_all :: "('a \<Rightarrow> tool_exception + unit) \<Rightarrow> 'a list \<Rightarrow> tool_exception + unit" where
  "check_all f [] = Inr ()"
| "check_all f (x # xs) = bind_res (f x) (\<lambda>_. check_all f xs)"

definition check_mkdir_path :: "ShellEnv \<Rightarrow> pystr \<Rightarrow> tool_exception + unit" where
  "check_mkdir_path env raw = bind_res (expand_user env raw) (\<lambda>path.
     if inside_workspace env (fe_resolve (sh_files env) (anchored env path)) then Inr () else refuse (outside_path_text raw))"

definition validate_mkdir_args :: "ShellEnv \<Rightarrow> pystr list \<Rightarrow> tool_exception + unit" where
  "validate_mkdir_args env args = bind_res (mkdir_paths True args) (\<lambda>paths.
     if paths = [] then refuse (''mkdir requer ao menos um diret'' @ [CHR 0xF3] @ ''rio'') else check_all (check_mkdir_path env) paths)"

definition check_read_path :: "ShellEnv \<Rightarrow> pystr \<Rightarrow> tool_exception + unit" where
  "check_read_path env a = bind_res (expand_user env a) (\<lambda>(rooted, parts).
     if \<not> rooted then Inr ()
     else if inside_workspace env (fe_resolve (sh_files env) parts) then Inr () else refuse (outside_path_text a))"

definition validate_shell_file_paths :: "ShellEnv \<Rightarrow> pystr list \<Rightarrow> tool_exception + unit" where
  "validate_shell_file_paths env args = check_all (check_read_path env) args"

section \<open>Commands\<close>

definition file_path_cmds :: "pystr list" where
  "file_path_cmds = [''cat'', ''head'', ''tail'', ''less'', ''grep'', ''sed'', ''find'', ''ls'']"

definition git_push_text :: pystr where
  "git_push_text = ''Comando bloqueado: git push exige confirma'' @ [CHR 0xE7, CHR 0xE3] @ ''o forte fora do shell MCP''"

definition validate_stage :: "ShellEnv \<Rightarrow> pystr list \<Rightarrow> tool_exception + unit" where
  "validate_stage env tokens = bind_res (normalize_allowed_executable env (hd tokens)) (\<lambda>first.
     if first \<notin> set (sh_allowlist env) then refuse (''Comando fora da allowlist: '' @ first)
     else if first = ''git'' \<and> length tokens > 1 \<and> tokens ! 1 = ''push'' then refuse git_push_text
     else bind_res (if first \<in> set file_path_cmds then validate_shell_file_paths env (tl tokens) else Inr ()) (\<lambda>_.
       if first = ''mkdir'' then validate_mkdir_args env (tl tokens) else Inr ()))"

definition operator_text :: "pystr \<Rightarrow> pystr" where
  "operator_text op = ''Comando bloqueado: operador de encadeamento proibido: '' @ [sq] @ op @ [sq]"

definition validate_shell_operators :: "pystr \<Rightarrow> tool_exception + unit" where
  "validate_shell_operators command = (case scan_operators None False command of
     Some op \<Rightarrow> refuse (operator_text op) | None \<Rightarrow> Inr ())"

definition policy_flag :: "(WorkspacePolicy \<Rightarrow> bool) \<Rightarrow> ShellEnv \<Rightarrow> bool" where
  "policy_flag flag env = (case sh_policy env of None \<Rightarrow> False | Some p \<Rightarrow> flag p)"

text \<open>The first text of the denylist that occurs, letters in either case, a blank put on both sides of the command.\<close>

definition denied_pattern :: "ShellEnv \<Rightarrow> pystr \<Rightarrow> pystr option" where
  "denied_pattern env command =
     List.find (\<lambda>p. py_contains (py_lower p) ('' '' @ py_lower command @ '' '')) (sh_denylist env)"

definition check_denied :: "ShellEnv \<Rightarrow> pystr \<Rightarrow> tool_exception + unit" where
  "check_denied env command =
     (if py_contains ''$IFS'' command then refuse ''Comando bloqueado: tentativa de bypass com $IFS''
      else if denylist_search command then refuse (''Comando bloqueado pelo padr'' @ [CHR 0xE3] @ ''o de seguran'' @ [CHR 0xE7] @ ''a'')
      else (case denied_pattern env command of
        Some p \<Rightarrow> refuse (''Comando bloqueado pela denylist: '' @ p) | None \<Rightarrow> Inr ()))"

definition validate_shell_command :: "ShellEnv \<Rightarrow> pystr \<Rightarrow> pystr \<Rightarrow> tool_exception + unit" where
  "validate_shell_command env tool command =
     (if command = [] then refuse (tool @ '' requer um comando n'' @ [CHR 0xE3] @ ''o vazio'')
      else bind_res (check_denied env command) (\<lambda>_.
        case split_shell_commands command of
          Inl _ \<Rightarrow> refuse (''Comando inv'' @ [CHR 0xE1] @ ''lido: '' @ command)
        | Inr stages \<Rightarrow>
            bind_res (if policy_flag wp_shell_allow_chaining env then Inr () else validate_shell_operators command) (\<lambda>_.
              if policy_flag wp_shell_skip_allowlist env then Inr () else check_all (validate_stage env) stages)))"

section \<open>Calls\<close>

definition float_not_positive :: "pyfloat \<Rightarrow> bool" where
  "float_not_positive v = (case v of Finite x \<Rightarrow> x \<le> 0 | Infinite up \<Rightarrow> \<not> up | NotANumber \<Rightarrow> False)"

definition positive_float :: "ShellEnv \<Rightarrow> pystr \<Rightarrow> json \<Rightarrow> tool_exception + pyfloat" where
  "positive_float env message v = (case sh_float env v of
     None \<Rightarrow> refuse message | Some x \<Rightarrow> if float_not_positive x then refuse message else Inr x)"

definition check_workdir :: "ShellEnv \<Rightarrow> ToolCall \<Rightarrow> tool_exception + unit" where
  "check_workdir env call = (case given_arg call ''workdir'' of
     None \<Rightarrow> Inr ()
   | Some v \<Rightarrow> bind_res (resolve_workspace_path (sh_files env) (py_str (fe_py (sh_files env)) v)) (\<lambda>_. Inr ()))"

definition validate_run_shell :: "ShellEnv \<Rightarrow> ToolCall \<Rightarrow> tool_exception + unit" where
  "validate_run_shell env call =
     bind_res (validate_shell_command env ''run_shell'' (py_strip (str_default (sh_files env) call ''command'' []))) (\<lambda>_.
     bind_res (check_workdir env call) (\<lambda>_.
       case arg call ''timeout'' of
         None \<Rightarrow> Inr ()
       | Some v \<Rightarrow> bind_res (positive_float env (''run_shell.timeout deve ser n'' @ [CHR 0xFA] @ ''mero positivo'') v) (\<lambda>_. Inr ())))"

definition allowed_shells :: "pystr list" where
  "allowed_shells = [''/bin/bash'', ''/bin/sh'', ''/bin/zsh'', ''/bin/dash'', ''/usr/bin/bash'', ''/usr/bin/sh'', ''/usr/bin/zsh'', ''/usr/bin/dash'']"

definition validate_exec_command :: "ShellEnv \<Rightarrow> ToolCall \<Rightarrow> tool_exception + unit" where
  "validate_exec_command env call =
     bind_res (validate_shell_command env ''exec_command'' (py_strip (str_default (sh_files env) call ''cmd'' []))) (\<lambda>_.
       case given_arg call ''shell'' of
         None \<Rightarrow> check_workdir env call
       | Some v \<Rightarrow> (let shell = py_str (fe_py (sh_files env)) v in
           if shell \<notin> set allowed_shells then refuse (''Shell n'' @ [CHR 0xE3] @ ''o permitido: '' @ shell) else check_workdir env call))"

definition check_session_id :: "ToolCall \<Rightarrow> tool_exception + unit" where
  "check_session_id call = (case arg call ''session_id'' of
     None \<Rightarrow> refuse (tool_name call @ '' requer '' @ [sq] @ ''session_id'' @ [sq])
   | Some v \<Rightarrow> if py_int v = None then refuse (tool_name call @ '' requer um session_id inteiro'') else Inr ())"

definition check_yield_time :: "ToolCall \<Rightarrow> tool_exception + unit" where
  "check_yield_time call = (case arg call ''yield_time_ms'' of
     None \<Rightarrow> Inr ()
   | Some v \<Rightarrow> if py_int v = None then refuse (tool_name call @ '' requer yield_time_ms inteiro'') else Inr ())"

definition validate_shell_tool :: "ShellEnv \<Rightarrow> ToolCall \<Rightarrow> tool_exception + unit" where
  "validate_shell_tool env call = (let name = tool_name call in
     if name = ''run_shell'' then validate_run_shell env call
     else if name = ''exec_command'' then validate_exec_command env call
     else if name \<in> {''write_stdin'', ''poll_command_session''} then bind_res (check_session_id call) (\<lambda>_. check_yield_time call)
     else if name = ''close_command_session'' then check_session_id call
     else Inr ())"

definition shell_tool_names :: "pystr list" where
  "shell_tool_names = [''run_shell'', ''exec_command'', ''write_stdin'', ''poll_command_session'', ''close_command_session'']"

text \<open>\<open>register\<close>: the policy after the shell tools are registered, and its verdict on a call.\<close>

definition shell_policy :: "ToolPolicy \<Rightarrow> ToolPolicy" where
  "shell_policy p = register_validator shell_tool_names (OtherValidator ''shell'') p"

definition validate_with_shell :: "ShellEnv \<Rightarrow> ToolPolicy \<Rightarrow> tree \<Rightarrow> ToolCall \<Rightarrow> tool_exception + unit" where
  "validate_with_shell env = validate_call (sh_files env) (\<lambda>_ _ call. validate_shell_tool env call)"

text \<open>\<open>_resolve_timeout_seconds\<close>: \<open>min (value, maximum)\<close> keeps the first where neither is smaller.\<close>

definition float_min :: "pyfloat \<Rightarrow> rat \<Rightarrow> pyfloat" where
  "float_min v maximum = (case v of Finite x \<Rightarrow> Finite (if maximum < x then maximum else x)
     | Infinite up \<Rightarrow> if up then Finite maximum else v | NotANumber \<Rightarrow> NotANumber)"

definition resolve_timeout_seconds :: "ShellEnv \<Rightarrow> rat \<Rightarrow> rat \<Rightarrow> json option \<Rightarrow> tool_exception + pyfloat" where
  "resolve_timeout_seconds env preset maximum raw =
     (if preset \<le> 0 \<or> maximum \<le> 0 then refuse (''timeouts da runtime devem ser n'' @ [CHR 0xFA] @ ''meros positivos (segundos)'')
      else (case raw of
        None \<Rightarrow> Inr (float_min (Finite preset) maximum)
      | Some v \<Rightarrow> bind_res (positive_float env (''timeout deve ser n'' @ [CHR 0xFA] @ ''mero positivo (segundos)'') v)
          (\<lambda>x. Inr (float_min x maximum))))"

end
