(* ===== verification/Shell_Commands.thy ===== *)
theory Shell_Commands
  imports Shell_Policy
begin

text \<open>
  What the shell tool makes of a command before it runs (\<open>ShellTool\<close> of \<open>runtime/tools/shell.py\<close>): the directory it
  runs in, the program of the workspace's own virtual environment in place of a common one, and the environment of its
  process. The environment that the workspace and its secrets give (\<open>build_env_vars\<close>) is a parameter.
\<close>

section \<open>Directory and waiting time\<close>

definition resolve_workdir :: "ShellEnv \<Rightarrow> pystr option \<Rightarrow> tool_exception + fpath" where
  "resolve_workdir env raw = (case raw of
     None \<Rightarrow> Inr (shell_cwd env)
   | Some text \<Rightarrow> if text = [] then Inr (shell_cwd env)
       else (let p = fe_resolve (sh_files env) (anchored env (parsed_path text)) in
         if inside_workspace env p then Inr p else refuse (''workdir fora da workspace: '' @ text)))"

definition resolve_yield_time :: "int \<Rightarrow> json option \<Rightarrow> tool_exception + int" where
  "resolve_yield_time preset raw = (case raw of
     None \<Rightarrow> Inr preset
   | Some v \<Rightarrow> if v = JNull then Inr preset else (case py_int v of None \<Rightarrow> Inl (BadArgument v) | Some i \<Rightarrow> Inr (max 0 i)))"

section \<open>The virtual environment of the workspace\<close>

definition venv_programs :: "pystr list" where
  "venv_programs = [''python'', ''python3'', ''pytest'', ''pip'']"

definition venv_bin :: "fpath \<Rightarrow> fpath" where
  "venv_bin dir = dir @ [''.venv'', ''bin'']"

text \<open>\<open>Path (text).name\<close>.\<close>

definition path_name :: "pystr \<Rightarrow> pystr" where
  "path_name raw = (let parts = path_parts raw in if parts = [] then [] else last parts)"

definition venv_candidate :: "tree \<Rightarrow> fpath \<Rightarrow> pystr \<Rightarrow> fpath option" where
  "venv_candidate t workdir first =
     (if path_exists t (venv_bin workdir @ [first]) then Some (venv_bin workdir @ [first])
      else if first = ''python3'' \<and> path_exists t (venv_bin workdir @ [''python'']) then Some (venv_bin workdir @ [''python''])
      else None)"

text \<open>\<open>re.match (r"^(\s*)(\S+)", command)\<close>: blanks, the first word and the rest.\<close>

definition first_word :: "pystr \<Rightarrow> (pystr \<times> pystr \<times> pystr) option" where
  "first_word command = (let rest = dropWhile py_isspace command in
     if rest = [] then None
     else Some (takeWhile py_isspace command, takeWhile (\<lambda>c. \<not> py_isspace c) rest, dropWhile (\<lambda>c. \<not> py_isspace c) rest))"

definition rewrite_for_local_venv :: "tree \<Rightarrow> fpath \<Rightarrow> pystr \<Rightarrow> pystr" where
  "rewrite_for_local_venv t workdir command = (case shlex_split command of
     Inl _ \<Rightarrow> command
   | Inr [] \<Rightarrow> command
   | Inr (token # _) \<Rightarrow>
       if path_name token \<notin> set venv_programs then command
       else (case venv_candidate t workdir (path_name token) of
         None \<Rightarrow> command
       | Some program \<Rightarrow> (case first_word command of
           None \<Rightarrow> command | Some (blank, _, rest) \<Rightarrow> blank @ shlex_quote (path_text program) @ rest)))"

text \<open>
  \<open>_find_workspace_virtualenv\<close> walks from the directory to its parents; the argument is the path in reverse. Above the root
  of the file system nothing is left to look at: only a workspace that is the root contains it, and there the loop stops.
\<close>

fun find_venv_up :: "ShellEnv \<Rightarrow> tree \<Rightarrow> fpath \<Rightarrow> pystr list \<Rightarrow> fpath option" where
  "find_venv_up env t area [] = (if is_path_inside (sh_files env) [] area \<and> is_dir t (venv_bin []) then Some [''.venv''] else None)"
| "find_venv_up env t area (c # parents) = (let current = rev (c # parents) in
     if \<not> is_path_inside (sh_files env) current area then None
     else if is_dir t (venv_bin current) then Some (current @ [''.venv''])
     else if current = area then None
     else find_venv_up env t area parents)"

definition find_workspace_virtualenv :: "ShellEnv \<Rightarrow> tree \<Rightarrow> fpath \<Rightarrow> fpath option" where
  "find_workspace_virtualenv env t workdir =
     find_venv_up env t (fe_resolve (sh_files env) (shell_cwd env)) (rev (fe_resolve (sh_files env) workdir))"

text \<open>\<open>str (Path (text) / "bin")\<close>.\<close>

definition bin_text :: "pystr \<Rightarrow> pystr" where
  "bin_text raw = (let (rooted, parts) = parsed_path raw; p = parts @ [''bin''] in
     if rooted then path_text p else py_join ''/'' p)"

definition path_entries :: "(pystr \<times> pystr) list \<Rightarrow> pystr option \<Rightarrow> pystr list" where
  "path_entries vars inherited = (let entries = split_char (CHR '':'') (or_empty (map_of vars ''PATH'')) in
     case inherited of None \<Rightarrow> entries | Some v \<Rightarrow> if v = [] then entries else filter (\<lambda>e. e \<noteq> bin_text v) entries)"

text \<open>The entries of \<open>PATH\<close>, and the variables, of a command's process.\<close>

definition workspace_path :: "(pystr \<times> pystr) list \<Rightarrow> fpath option \<Rightarrow> pystr list" where
  "workspace_path vars venv = (let entries = path_entries vars (map_of vars ''VIRTUAL_ENV'') in
     case venv of None \<Rightarrow> entries
     | Some v \<Rightarrow> (let bin = path_text (v @ [''bin'']) in bin # filter (\<lambda>e. e \<noteq> bin) entries))"

definition build_workspace_environment :: "ShellEnv \<Rightarrow> tree \<Rightarrow> (pystr \<times> pystr) list \<Rightarrow> fpath \<Rightarrow> (pystr \<times> pystr) list" where
  "build_workspace_environment env t vars workdir = (let venv = find_workspace_virtualenv env t workdir;
       own = AList.delete ''VIRTUAL_ENV'' vars;
       marked = (case venv of None \<Rightarrow> own | Some v \<Rightarrow> AList.update ''VIRTUAL_ENV'' (path_text v) own) in
     AList.update ''PATH'' (py_join '':'' (workspace_path vars venv)) marked)"

section \<open>The rewritten command\<close>

lemma lex_blanks: "list_all lex_blank w \<Longrightarrow> read_token P LSpace [] False (w @ r) = read_token P LSpace [] False r"
  by (induction w) auto

lemma blank_is_space: "lex_blank c \<Longrightarrow> py_isspace c"
  by (auto simp: lex_blank_def py_isspace_def)

definition program_word :: "pystr \<Rightarrow> bool" where
  "program_word w \<longleftrightarrow> w \<noteq> [] \<and> list_all (\<lambda>c. lex_word_char [] c \<and> \<not> py_isspace c) w"

lemma first_word_parts:
  assumes "list_all lex_blank blank" "program_word w" "rest = [] \<or> lex_blank (hd rest)"
  shows "first_word (blank @ w @ rest) = Some (blank, w, rest)"
proof -
  have b: "\<And>c. c \<in> set blank \<Longrightarrow> py_isspace c" using assms(1) blank_is_space by (auto simp: list_all_iff)
  have w: "\<And>c. c \<in> set w \<Longrightarrow> \<not> py_isspace c" "w \<noteq> []" using assms(2) by (auto simp: program_word_def list_all_iff)
  have r: "rest = [] \<or> py_isspace (hd rest)" using assms(3) blank_is_space by auto
  obtain a v where av: "w = a # v" "\<not> py_isspace a" using w by (cases w) auto
  have "dropWhile py_isspace (blank @ w @ rest) = w @ rest" using b av by (simp add: dropWhile_append2)
  moreover have "takeWhile py_isspace (blank @ w @ rest) = blank" using b av by (simp add: takeWhile_append2)
  moreover have "takeWhile (\<lambda>c. \<not> py_isspace c) (w @ rest) = w" using w r by (cases rest) (simp_all add: takeWhile_append2)
  moreover have "dropWhile (\<lambda>c. \<not> py_isspace c) (w @ rest) = rest" using w r by (cases rest) (simp_all add: dropWhile_append2)
  ultimately show ?thesis using av(1) by (simp add: first_word_def)
qed

text \<open>What follows a word that ends at a blank does not depend on the word.\<close>

definition following_words :: "pystr \<Rightarrow> pystr + (pystr \<times> bool) list" where
  "following_words rest = read_token [] LSpace [] False rest"

lemma lex_word_end: "w \<noteq> [] \<or> q \<Longrightarrow> rest = [] \<or> lex_blank (hd rest) \<Longrightarrow> read_token [] LWord w q rest = lex_cons (w, False) (following_words rest)"
  by (cases rest) (auto simp: following_words_def)

lemma program_word_lexes: "program_word w \<Longrightarrow> list_all (lex_word_char []) w \<and> w \<noteq> []"
  by (auto simp: program_word_def list_all_iff)

lemma shlex_split_word:
  assumes "list_all lex_blank blank" "program_word w" "rest = [] \<or> lex_blank (hd rest)"
  shows "shlex_split (blank @ w @ rest) = bind_res (following_words rest) (\<lambda>ts. Inr (w # map fst ts))"
  using program_word_lexes [OF assms(2)] lex_word_end [OF _ assms(3), of w False]
  by (cases "following_words rest") (simp_all add: shlex_split_def shlex_def lex_tokens_def lex_blanks [OF assms(1)] lex_word)

lemma shlex_split_quoted:
  assumes "list_all lex_blank blank" "rest = [] \<or> lex_blank (hd rest)"
  shows "shlex_split (blank @ shlex_quote p @ rest) = bind_res (following_words rest) (\<lambda>ts. Inr (p # map fst ts))"
proof -
  have "read_token [] LSpace [] False (shlex_quote p @ rest) = lex_cons (p, False) (following_words rest)"
    using lex_shlex_quote [of "[]" p rest] lex_word_end [OF _ assms(2), of p "\<not> (p \<noteq> [] \<and> list_all quote_safe p)"] by auto
  then show ?thesis
    by (cases "following_words rest") (simp_all add: shlex_split_def shlex_def lex_tokens_def lex_blanks [OF assms(1)])
qed

text \<open>
  C26. where the program of a command is a plain unquoted word (after blanks, if any), the command rewritten to the virtual
  environment of the workspace is the command itself, or the lexer reads it back as the program of that environment, whatever
  characters its path has, with exactly the arguments the command had.
\<close>

theorem rewrite_keeps_arguments:
  assumes "list_all lex_blank blank" "program_word w" "rest = [] \<or> lex_blank (hd rest)" "command = blank @ w @ rest"
    "shlex_split command = Inr words"
  shows "rewrite_for_local_venv t workdir command = command \<or>
    (\<exists>program. venv_candidate t workdir (path_name w) = Some program \<and> path_name w \<in> set venv_programs \<and>
      shlex_split (rewrite_for_local_venv t workdir command) = Inr (path_text program # tl words))"
proof -
  obtain ts where ts: "following_words rest = Inr ts" "words = w # map fst ts"
    using assms(5) shlex_split_word [OF assms(1-3)] assms(4) by (auto simp: bind_res_Inr)
  show ?thesis
  proof (cases "venv_candidate t workdir (path_name w)")
    case (Some program)
    show ?thesis
    proof (cases "path_name w \<in> set venv_programs")
      case True
      have "rewrite_for_local_venv t workdir command = blank @ shlex_quote (path_text program) @ rest"
        using assms(5) ts(2) Some True first_word_parts [OF assms(1-3)] assms(4) by (simp add: rewrite_for_local_venv_def)
      then have "shlex_split (rewrite_for_local_venv t workdir command) = Inr (path_text program # tl words)"
        using shlex_split_quoted [OF assms(1,3), of "path_text program"] ts by simp
      then show ?thesis using Some True by blast
    qed (use assms(5) ts(2) in \<open>simp add: rewrite_for_local_venv_def\<close>)
  qed (use assms(5) ts(2) in \<open>simp add: rewrite_for_local_venv_def\<close>)
qed

theorem rewrite_keeps_arguments_witness:
  "shlex_split (rewrite_for_local_venv [([''w s'', ''.venv'', ''bin'', ''pytest''], Dir)] [''w s''] ''pytest -q a.py'') =
    Inr [''/w s/.venv/bin/pytest'', ''-q'', ''a.py'']"
proof -
  let ?t = "[([''w s'', ''.venv'', ''bin'', ''pytest''], Dir)]"
  have changed: "rewrite_for_local_venv ?t [''w s''] ''pytest -q a.py'' \<noteq> ''pytest -q a.py''" by code_simp
  have program: "venv_candidate ?t [''w s''] (path_name ''pytest'') = Some [''w s'', ''.venv'', ''bin'', ''pytest'']"
    "path_text [''w s'', ''.venv'', ''bin'', ''pytest''] = ''/w s/.venv/bin/pytest''" by code_simp+
  have "program_word ''pytest''" "shlex_split ''pytest -q a.py'' = Inr [''pytest'', ''-q'', ''a.py'']" "lex_blank (hd '' -q a.py'')" by code_simp+
  then show ?thesis
    using rewrite_keeps_arguments [of "[]" "''pytest''" "'' -q a.py''" "''pytest -q a.py''" "[''pytest'', ''-q'', ''a.py'']" ?t "[''w s'']"]
      changed program by simp
qed

section \<open>The nearest virtual environment\<close>

lemma find_venv_up_result:
  assumes "find_venv_up env t area rp = Some v"
  shows "\<exists>k \<le> length rp. v = rev (drop k rp) @ [''.venv''] \<and> is_dir t (venv_bin (rev (drop k rp))) \<and>
    is_path_inside (sh_files env) (rev (drop k rp)) area \<and> (\<forall>j < k. \<not> is_dir t (venv_bin (rev (drop j rp))))"
  using assms
proof (induction rp)
  case (Cons c parents)
  let ?here = "rev (c # parents)"
  show ?case
  proof (cases "is_dir t (venv_bin ?here)")
    case True
    then show ?thesis using Cons.prems by (intro exI [of _ 0]) (auto simp: Let_def split: if_splits)
  next
    case False
    then have "find_venv_up env t area parents = Some v" using Cons.prems by (auto simp: Let_def split: if_splits)
    then obtain k where k: "k \<le> length parents" "v = rev (drop k parents) @ [''.venv'']" "is_dir t (venv_bin (rev (drop k parents)))"
      "is_path_inside (sh_files env) (rev (drop k parents)) area" "\<forall>j < k. \<not> is_dir t (venv_bin (rev (drop j parents)))" using Cons.IH by blast
    have "\<not> is_dir t (venv_bin (rev (drop j (c # parents))))" if "j < Suc k" for j
      using that False k(5) by (cases j) simp_all
    then show ?thesis using k by (intro exI [of _ "Suc k"]) auto
  qed
qed (auto split: if_splits)

lemma nearest_virtualenv:
  assumes "find_workspace_virtualenv env t workdir = Some v" "path = fe_resolve (sh_files env) workdir"
  shows "\<exists>k \<le> length path. v = take k path @ [''.venv''] \<and> is_dir t (venv_bin (take k path)) \<and>
    (\<forall>j. k < j \<and> j \<le> length path \<longrightarrow> \<not> is_dir t (venv_bin (take j path)))"
proof -
  obtain k where k: "k \<le> length path" "v = rev (drop k (rev path)) @ [''.venv'']" "is_dir t (venv_bin (rev (drop k (rev path))))"
    "\<forall>j < k. \<not> is_dir t (venv_bin (rev (drop j (rev path))))"
    using find_venv_up_result [OF assms(1) [unfolded find_workspace_virtualenv_def]] unfolding assms(2) by auto
  have tk: "rev (drop j (rev path)) = take (length path - j) path" for j by (simp add: rev_drop)
  show ?thesis using k unfolding tk by (intro exI [of _ "length path - k"]) (auto, metis diff_diff_cancel diff_less_mono2 le_less_trans less_or_eq_imp_le not_le)
qed

text \<open>A program given in quotes, by a path with a blank: the word that is replaced ends at the blank, and its second quote is left over.\<close>

lemma quoted_program_breaks:
  "shlex_split (dq # ''/a b/python'' @ dq # '' x'') = Inr [''/a b/python'', ''x''] \<and>
   shlex_split (rewrite_for_local_venv [([''w'', ''.venv'', ''bin'', ''python''], Dir)] [''w''] (dq # ''/a b/python'' @ dq # '' x'')) = Inl ''No closing quotation''"
  by code_simp

end
