(* ===== verification/Shell_Guarantees.thy ===== *)
theory Shell_Guarantees
  imports Shell_Policy File_Safety
begin

text \<open>
  What the validation of shell commands gives, and what it does not: its verdict as one condition on the stages of
  the command, the agreement of the scan for operators with the lexer, and the commands that run a program that
  no check has seen.
\<close>

section \<open>The scan and the lexer agree\<close>

fun scan_quote :: "lex_state \<Rightarrow> char option" where
  "scan_quote (LQuote k) = Some k"
| "scan_quote (LEscape e) = e"
| "scan_quote st = None"

fun scan_escaped :: "lex_state \<Rightarrow> bool" where
  "scan_escaped (LEscape e) = True"
| "scan_escaped st = False"

fun state_ok :: "lex_state \<Rightarrow> pystr \<Rightarrow> pystr \<Rightarrow> bool" where
  "state_ok LSpace tok s = (bslash \<notin> set s \<or> sq \<notin> set s)"
| "state_ok LWord tok s = (bslash \<notin> set s \<or> sq \<notin> set s)"
| "state_ok LPunct tok s = ((bslash \<notin> set s \<or> sq \<notin> set s) \<and> tok = ''&'' \<and> \<not> prefix ''&'' s)"
| "state_ok (LQuote k) tok s = (k = sq \<and> bslash \<notin> set s \<or> k = dq \<and> (bslash \<notin> set s \<or> sq \<notin> set s))"
| "state_ok (LEscape e) tok s = ((e = None \<or> e = Some dq) \<and> (bslash \<notin> set s \<or> sq \<notin> set s))"

definition operator_tokens :: "pystr \<Rightarrow> pystr list" where
  "operator_tokens command = (case lex_tokens shell_punct command of Inl _ \<Rightarrow> [] | Inr ts \<Rightarrow> map fst (filter snd ts))"

lemma operator_chars: "scan_operators None False (c # cs) = None \<Longrightarrow> c \<in> set shell_punct \<Longrightarrow>
    c = CHR ''&'' \<and> \<not> prefix ''&'' cs \<and> scan_operators None False cs = None"
  by (auto simp: shell_punct_def operator_at_def bslash_def sq_def dq_def split: if_splits)

lemma scan_word: "\<not> lex_blank c \<Longrightarrow> c \<notin> set shell_punct \<Longrightarrow> c \<noteq> bslash \<Longrightarrow> c \<noteq> sq \<Longrightarrow> c \<noteq> dq \<Longrightarrow>
    scan_operators None False (c # cs) = None \<Longrightarrow> scan_operators None False cs = None"
  by (auto split: if_splits option.splits)

lemma scan_blank: "lex_blank c \<Longrightarrow> scan_operators None False (c # cs) = scan_operators None False cs"
  by (auto simp: lex_blank_def operator_at_def bslash_def sq_def dq_def)

lemma scan_after_escape: "scan_quote (after_escape e) = e" "scan_escaped (after_escape e) = False"
  by (cases e; simp add: after_escape_def)+

lemma operator_not_special: "c \<in> set shell_punct \<Longrightarrow> \<not> lex_blank c \<and> c \<noteq> bslash \<and> c \<noteq> sq \<and> c \<noteq> dq"
  by (auto simp: shell_punct_def lex_blank_def bslash_def sq_def dq_def)

lemma scan_special:
  "scan_operators None False (bslash # cs) = scan_operators None True cs"
  "scan_operators None False (sq # cs) = scan_operators (Some sq) False cs"
  "scan_operators None False (dq # cs) = scan_operators (Some dq) False cs"
  "scan_operators opened True (c # cs) = scan_operators opened False cs"
  "scan_operators (Some k) False (c # cs) =
     (if c = bslash then scan_operators (Some k) True cs else scan_operators (if k = c then None else Some k) False cs)"
  by simp_all

definition only_background :: "pystr + (pystr \<times> bool) list \<Rightarrow> bool" where
  "only_background r \<longleftrightarrow> (case r of Inl _ \<Rightarrow> True | Inr ts \<Rightarrow> list_all (\<lambda>(t, operator). operator \<longrightarrow> t = ''&'') ts)"

lemma only_background_simps [simp]:
  "only_background (Inl e)" "only_background (Inr [])"
  "only_background (Inr ((t, operator) # ts)) \<longleftrightarrow> (operator \<longrightarrow> t = ''&'') \<and> only_background (Inr ts)"
  by (simp_all add: only_background_def)

lemma only_background_cons: "only_background r \<Longrightarrow> operator \<longrightarrow> t = ''&'' \<Longrightarrow> only_background (lex_cons (t, operator) r)"
  by (cases r) simp_all

lemma scan_lex:
  assumes "scan_operators (scan_quote st) (scan_escaped st) s = None" "state_ok st tok s"
  shows "only_background (read_token shell_punct st tok q s)"
  using assms
  supply scan_operators.simps [simp del] scan_special [simp] only_background_cons [intro]
proof (induction shell_punct st tok q s rule: read_token.induct)
  case (6 tok q c cs)
  note step = 6
  consider "lex_blank c" | "c \<in> set shell_punct" | "c = bslash" | "c = sq" | "c = dq"
    | "\<not> lex_blank c" "c \<notin> set shell_punct" "c \<noteq> bslash" "c \<noteq> sq" "c \<noteq> dq" by blast
  then show ?case
  proof cases
    case 1
    then show ?thesis using 6 scan_blank [OF 1, of cs] by (auto intro!: only_background_cons)
  next
    case 2
    then show ?thesis using 6 operator_chars [of c cs] operator_not_special [OF 2] by auto
  next
    case 3
    then show ?thesis using 6 by auto
  next
    case 4
    then show ?thesis using 6 operator_not_special [of sq] by auto
  next
    case 5
    then show ?thesis using 6 operator_not_special [of dq] by auto
  next
    case 6
    then show ?thesis using step scan_word [OF 6, of cs] by auto
  qed
next
  case (7 k tok q c cs)
  then show ?case by (auto split: if_splits)
next
  case (8 e tok q c cs)
  then show ?case by (cases e) (auto simp: scan_after_escape after_escape_def)
next
  case (9 tok q c cs)
  consider "lex_blank c" | "c \<in> set shell_punct" | "c = bslash" | "c = sq" | "c = dq"
    | "\<not> lex_blank c" "c \<notin> set shell_punct" "c \<noteq> bslash" "c \<noteq> sq" "c \<noteq> dq" by blast
  then show ?case
  proof cases
    case 1
    then show ?thesis using 9 scan_blank [OF 1, of cs] by (auto intro!: only_background_cons)
  next
    case 2
    then show ?thesis using 9 operator_not_special [OF 2] by (auto intro!: only_background_cons)
  next
    case 3
    then show ?thesis using 9 by auto
  next
    case 4
    then show ?thesis using 9 by auto
  next
    case 5
    then show ?thesis using 9 by auto
  next
    case 6
    then show ?thesis using 9 scan_word [OF 6, of cs] by auto
  qed
next
  case (10 tok q c cs)
  show ?case
  proof (cases "c \<in> set shell_punct")
    case True
    then have "c = CHR ''&''" using operator_chars [of c cs] "10.prems"(1) by simp
    then show ?thesis using "10.prems"(2) by simp
  next
    case False
    then show ?thesis using 10 scan_blank [of c cs] by (auto intro!: only_background_cons)
  qed
qed simp_all

lemma group_stages_no_background: "group_stages ts current = Inr stages \<Longrightarrow> ''&'' \<notin> set ts"
  by (induction ts current arbitrary: stages rule: group_stages.induct)
     (auto simp: stage_operators_def bind_res_Inr split: if_splits)

lemma lexed_tokens: "split_shell_commands command = Inr stages \<Longrightarrow>
    \<exists>ts. lex_tokens shell_punct command = Inr ts \<and> group_stages (map fst ts) [] = Inr stages"
  by (auto simp: split_shell_commands_def shlex_def bind_res_Inr)

lemma clean_scan_only_background: "scan_operators None False command = None \<Longrightarrow> bslash \<notin> set command \<or> sq \<notin> set command \<Longrightarrow>
    only_background (lex_tokens shell_punct command)"
  unfolding lex_tokens_def by (rule scan_lex) simp_all

section \<open>Plain words\<close>

text \<open>A text of words and blanks: no quotes, no backslash, no operator, no backtick and no dollar sign.\<close>

definition plain_text :: "pystr \<Rightarrow> bool" where
  "plain_text s \<longleftrightarrow> list_all (\<lambda>c. (lex_blank c \<or> lex_word_char shell_punct c) \<and> c \<noteq> CHR 0x60 \<and> c \<noteq> CHR ''$'') s"

definition plain_words :: "(pystr \<times> bool) list \<Rightarrow> bool" where
  "plain_words ts \<longleftrightarrow> list_all (\<lambda>(t, operator). \<not> operator \<and> t \<noteq> [] \<and> list_all (lex_word_char shell_punct) t) ts"

lemma plain_words_simps [simp]: "plain_words []"
  "plain_words ((t, operator) # ts) \<longleftrightarrow> \<not> operator \<and> t \<noteq> [] \<and> list_all (lex_word_char shell_punct) t \<and> plain_words ts"
  by (simp_all add: plain_words_def)

lemma plain_text_Cons: "plain_text (c # cs) \<longleftrightarrow> (lex_blank c \<or> lex_word_char shell_punct c) \<and> c \<noteq> CHR 0x60 \<and> c \<noteq> CHR ''$'' \<and> plain_text cs"
  by (simp add: plain_text_def)

lemma lex_plain:
  assumes "plain_text s"
  shows "\<exists>ts. read_token shell_punct LSpace [] False s = Inr ts \<and> plain_words ts"
    and "tok \<noteq> [] \<Longrightarrow> list_all (lex_word_char shell_punct) tok \<Longrightarrow> \<exists>ts. read_token shell_punct LWord tok False s = Inr ts \<and> plain_words ts"
  using assms
proof (induction s arbitrary: tok)
  case (Cons c cs)
  {
    case 1
    show ?case
    proof (cases "lex_blank c")
      case False
      then have c: "lex_word_char shell_punct c" using 1 by (simp add: plain_text_Cons)
      then show ?thesis using Cons.IH(2) [of "[c]"] 1 by (auto simp: plain_text_Cons lex_word_char_def)
    qed (use 1 Cons.IH(1) in \<open>auto simp: plain_text_Cons\<close>)
  next
    case 2
    show ?case
    proof (cases "lex_blank c")
      case False
      then have c: "lex_word_char shell_punct c" using 2 by (simp add: plain_text_Cons)
      then show ?thesis using Cons.IH(2) [of "tok @ [c]"] 2 by (auto simp: plain_text_Cons lex_word_char_def)
    qed (use 2 Cons.IH(1) in \<open>auto simp: plain_text_Cons\<close>)
  }
qed (auto simp: plain_text_def)

lemma plain_char_scans: "(lex_blank c \<or> lex_word_char shell_punct c) \<Longrightarrow> c \<noteq> CHR 0x60 \<Longrightarrow> c \<noteq> CHR ''$'' \<Longrightarrow>
    scan_operators None False (c # cs) = scan_operators None False cs"
  by (auto simp: lex_blank_def lex_word_char_def shell_punct_def operator_at_def bslash_def sq_def dq_def)

lemma scan_plain: "plain_text s \<Longrightarrow> scan_operators None False s = None"
proof (induction s)
  case (Cons c cs)
  then show ?case unfolding plain_text_Cons using plain_char_scans [of c cs] by auto
qed simp

lemma plain_word_no_operator: "list_all (lex_word_char shell_punct) t \<Longrightarrow> t \<noteq> [] \<Longrightarrow> t \<notin> set stage_operators \<and> t \<noteq> ''&''"
  by (auto simp: stage_operators_def lex_word_char_def shell_punct_def)

lemma group_plain: "plain_words ts \<Longrightarrow> current \<noteq> [] \<Longrightarrow> group_stages (map fst ts) current = Inr [current @ map fst ts]"
proof (induction ts arbitrary: current)
  case (Cons t ts)
  obtain w b where t: "t = (w, b)" by force
  then have "w \<notin> set stage_operators \<and> w \<noteq> ''&''" using Cons.prems(1) plain_word_no_operator [of w] by simp
  then show ?case using Cons t by simp
qed simp

section \<open>The verdict\<close>

text \<open>What a stage must satisfy: the program it runs, and the paths among its arguments.\<close>

definition runs_program :: "ShellEnv \<Rightarrow> pystr \<Rightarrow> pystr \<Rightarrow> bool" where
  "runs_program env first prog \<longleftrightarrow> (if CHR ''/'' \<in> set first
     then \<exists>path. expand_user env first = Inr path \<and>
       inside_workspace env (fe_resolve (sh_files env) (butlast (anchored env path))) \<and>
       prog = (if anchored env path = [] then [] else last (anchored env path))
     else prog = first)"

definition read_path_ok :: "ShellEnv \<Rightarrow> pystr \<Rightarrow> bool" where
  "read_path_ok env a \<longleftrightarrow> (\<exists>rooted parts. expand_user env a = Inr (rooted, parts) \<and>
     (rooted \<longrightarrow> inside_workspace env (fe_resolve (sh_files env) parts)))"

definition made_path_ok :: "ShellEnv \<Rightarrow> pystr \<Rightarrow> bool" where
  "made_path_ok env a \<longleftrightarrow> (\<exists>path. expand_user env a = Inr path \<and> inside_workspace env (fe_resolve (sh_files env) (anchored env path)))"

text \<open>What of the arguments of \<open>mkdir\<close> is a path: all but the flags before \<open>--\<close>, and the first \<open>--\<close>.\<close>

definition made_paths :: "pystr list \<Rightarrow> pystr list" where
  "made_paths args = filter (\<lambda>a. \<not> prefix ''-'' a) (takeWhile (\<lambda>a. a \<noteq> ''--'') args) @ tl (dropWhile (\<lambda>a. a \<noteq> ''--'') args)"

definition made_flags :: "pystr list \<Rightarrow> pystr list" where
  "made_flags args = filter (prefix ''-'') (takeWhile (\<lambda>a. a \<noteq> ''--'') args)"

definition stage_ok :: "ShellEnv \<Rightarrow> pystr list \<Rightarrow> bool" where
  "stage_ok env stage \<longleftrightarrow> (\<exists>prog. runs_program env (hd stage) prog \<and> prog \<in> set (sh_allowlist env) \<and>
     (prog = ''git'' \<longrightarrow> take 1 (tl stage) \<noteq> [''push'']) \<and>
     (prog \<in> set file_path_cmds \<longrightarrow> (\<forall>a \<in> set (tl stage). read_path_ok env a)) \<and>
     (prog = ''mkdir'' \<longrightarrow> set (made_flags (tl stage)) \<subseteq> set mkdir_flags \<and> made_paths (tl stage) \<noteq> [] \<and>
        (\<forall>a \<in> set (made_paths (tl stage)). made_path_ok env a)))"

definition denied_text :: "ShellEnv \<Rightarrow> pystr \<Rightarrow> bool" where
  "denied_text env command \<longleftrightarrow> sublist ''$IFS'' command \<or> denylist_search command \<or>
     (\<exists>p \<in> set (sh_denylist env). sublist (py_lower p) ('' '' @ py_lower command @ '' ''))"

lemma check_all_ok: "check_all f xs = Inr () \<longleftrightarrow> (\<forall>x \<in> set xs. f x = Inr ())"
  by (induction xs) (auto simp: bind_res_Inr)

lemma refuse_not_ok [simp]: "refuse m \<noteq> Inr x" "Inr x \<noteq> refuse m"
  by (simp_all add: refuse_def)

lemma check_denied_ok: "check_denied env command = Inr () \<longleftrightarrow> \<not> denied_text env command"
  by (auto simp: check_denied_def denied_text_def denied_pattern_def py_contains_sublist find_None_iff find_Some_iff split: option.splits)

lemma runs_program_iff: "normalize_allowed_executable env first = Inr prog \<longleftrightarrow> runs_program env first prog"
  by (cases "expand_user env first") (auto simp: normalize_allowed_executable_def runs_program_def Let_def)

lemma check_read_path_ok: "check_read_path env a = Inr () \<longleftrightarrow> read_path_ok env a"
  by (cases "expand_user env a") (auto simp: check_read_path_def read_path_ok_def split: if_splits)

lemma check_mkdir_path_ok: "check_mkdir_path env a = Inr () \<longleftrightarrow> made_path_ok env a"
  by (auto simp: check_mkdir_path_def made_path_ok_def bind_res_Inr split: if_splits)

lemma mkdir_paths_plain: "mkdir_paths False args = Inr args"
  by (induction args) simp_all

lemma mkdir_paths_ok: "mkdir_paths True args = Inr paths \<longleftrightarrow> set (made_flags args) \<subseteq> set mkdir_flags \<and> paths = made_paths args"
proof (induction args arbitrary: paths)
  case (Cons a args)
  show ?case
  proof (cases "a = ''--''")
    case True
    then show ?thesis by (auto simp: mkdir_paths_plain made_flags_def made_paths_def)
  next
    case False
    then show ?thesis using Cons by (auto simp: bind_res_Inr made_flags_def made_paths_def)
  qed
qed (auto simp: made_flags_def made_paths_def)

lemma validate_mkdir_ok: "validate_mkdir_args env args = Inr () \<longleftrightarrow>
    set (made_flags args) \<subseteq> set mkdir_flags \<and> made_paths args \<noteq> [] \<and> (\<forall>a \<in> set (made_paths args). made_path_ok env a)"
  by (auto simp: validate_mkdir_args_def bind_res_Inr mkdir_paths_ok check_all_ok check_mkdir_path_ok split: if_splits)

lemma pushes_iff: "length tokens > 1 \<and> tokens ! 1 = ''push'' \<longleftrightarrow> take 1 (tl tokens) = [''push'']"
  by (cases tokens; cases "tl tokens") auto

lemma stage_body_ok: "(if prog \<notin> set allowed then refuse m1 else if bad then refuse m2
     else bind_res (if reads then r1 else Inr ()) (\<lambda>_. if makes then r2 else Inr ())) = Inr () \<longleftrightarrow>
   prog \<in> set allowed \<and> \<not> bad \<and> (reads \<longrightarrow> r1 = Inr ()) \<and> (makes \<longrightarrow> r2 = Inr ())"
  by (cases r1) auto

lemma validate_stage_ok: "validate_stage env stage = Inr () \<longleftrightarrow> stage_ok env stage"
  unfolding validate_stage_def bind_res_Inr runs_program_iff stage_body_ok stage_ok_def
    pushes_iff validate_shell_file_paths_def check_all_ok check_read_path_ok validate_mkdir_ok by (simp only: de_Morgan_conj imp_conv_disj)

lemma command_verdict: "validate_shell_command env tool command = Inr () \<longleftrightarrow>
    command \<noteq> [] \<and> \<not> denied_text env command \<and>
    (\<exists>stages. split_shell_commands command = Inr stages \<and>
      (policy_flag wp_shell_allow_chaining env \<or> scan_operators None False command = None) \<and>
      (policy_flag wp_shell_skip_allowlist env \<or> list_all (stage_ok env) stages))"
proof (cases "split_shell_commands command")
  case (Inl e)
  then show ?thesis by (auto simp: validate_shell_command_def bind_res_Inr)
next
  case (Inr stages)
  then show ?thesis
    by (auto simp: validate_shell_command_def bind_res_Inr check_denied_ok check_all_ok validate_stage_ok
      validate_shell_operators_def list_all_iff split: option.splits)
qed

text \<open>
  C25. in a command that does not mix single quotes and backslashes, what the scan for operators lets through holds no
  operator for the lexer either: a command accepted without chaining is one simple command.
\<close>

theorem no_operator_survives:
  assumes "validate_shell_operators command = Inr ()" "bslash \<notin> set command \<or> sq \<notin> set command"
    "split_shell_commands command = Inr stages"
  shows "operator_tokens command = []"
proof -
  obtain ts where ts: "lex_tokens shell_punct command = Inr ts" "''&'' \<notin> set (map fst ts)"
    using lexed_tokens [OF assms(3)] group_stages_no_background by blast
  have "only_background (Inr ts)"
    using clean_scan_only_background [of command] assms(1,2) ts(1) by (auto simp: validate_shell_operators_def split: option.splits)
  then have "\<forall>t \<in> set ts. \<not> snd t" using ts(2) by (force simp: only_background_def list_all_iff)
  then have "filter snd ts = []" by simp
  then show ?thesis by (simp add: operator_tokens_def ts(1))
qed

theorem no_operator_survives_witness: "operator_tokens ''grep -n x a.py'' = []"
  using no_operator_survives [of "''grep -n x a.py''" "[[''grep'', ''-n'', ''x'', ''a.py'']]"] by code_simp

text \<open>
  with both, an operator passes: in \<open>echo '\'; ls ' '\<close> the scan takes the backslash for an escape inside the single
  quotes, the lexer and the shell do not, and a second command follows.
\<close>

definition quoted_backslash :: pystr where
  "quoted_backslash = ''echo '' @ [sq, bslash, sq] @ ''; ls '' @ [sq, CHR '' '', sq]"

theorem quoted_backslash_hides_operator:
  "validate_shell_operators quoted_backslash = Inr () \<and> operator_tokens quoted_backslash = ['';''] \<and>
    split_shell_commands quoted_backslash = Inr [[''echo'', [bslash]], [''ls'', '' '']]"
  by code_simp

section \<open>Programs no check has seen\<close>

text \<open>
  Three ways to put a program behind an \<open>echo\<close>: after a line feed, which separates commands in a shell and is a blank
  for the lexer; in a command substitution within double quotes, which the scan passes over; and, where chaining is allowed,
  behind \<open>|&\<close>, which is not among the operators that end a stage.
\<close>

definition after_line_feed :: "pystr \<Rightarrow> pystr" where "after_line_feed d = ''echo ok'' @ CHR 0x0A # d"
definition in_substitution :: "pystr \<Rightarrow> pystr" where "in_substitution d = ''echo '' @ dq # ''$('' @ d @ '')'' @ [dq]"
definition behind_pipe_both :: "pystr \<Rightarrow> pystr" where "behind_pipe_both d = ''echo ok |& '' @ d"

definition unseen_commands :: "ShellEnv \<Rightarrow> pystr \<Rightarrow> pystr list" where
  "unseen_commands env d = [after_line_feed d, in_substitution d] @
     (if policy_flag wp_shell_allow_chaining env then [behind_pipe_both d] else [])"

lemma echo_stage_ok: "''echo'' \<in> set (sh_allowlist env) \<Longrightarrow> stage_ok env (''echo'' # args)"
  unfolding stage_ok_def by (rule exI [of _ "''echo''"]) (simp add: runs_program_def file_path_cmds_def)

lemma plain_letters: "list_all (lex_word_char shell_punct) ''echo''" "list_all (lex_word_char shell_punct) ''ok''"
  by code_simp+

lemma lex_echo: "read_token shell_punct LSpace [] False (''echo'' @ CHR '' '' # r) = lex_cons (''echo'', False) (read_token shell_punct LSpace [] False r)"
  by (rule lex_word_blank) (simp, rule plain_letters, simp add: lex_blank_def)

lemma lex_ok: "lex_blank c \<Longrightarrow> read_token shell_punct LSpace [] False (''ok'' @ c # r) = lex_cons (''ok'', False) (read_token shell_punct LSpace [] False r)"
  by (rule lex_word_blank) (simp, rule plain_letters)

lemma lex_after_line_feed: "read_token shell_punct LSpace [] False (after_line_feed d) =
    lex_cons (''echo'', False) (lex_cons (''ok'', False) (read_token shell_punct LSpace [] False d))"
proof -
  have "after_line_feed d = ''echo'' @ CHR '' '' # ''ok'' @ CHR 0x0A # d" by (simp add: after_line_feed_def)
  then show ?thesis by (simp only: lex_echo) (subst lex_ok, simp_all add: lex_blank_def)
qed

lemma lex_pipe_both: "read_token shell_punct LSpace [] False (''|& '' @ d) = lex_cons (''|&'', True) (read_token shell_punct LSpace [] False d)"
  by (simp add: shell_punct_def lex_blank_def sq_def dq_def bslash_def)

lemma lex_behind_pipe_both: "read_token shell_punct LSpace [] False (behind_pipe_both d) =
    lex_cons (''echo'', False) (lex_cons (''ok'', False) (lex_cons (''|&'', True) (read_token shell_punct LSpace [] False d)))"
proof -
  have "behind_pipe_both d = ''echo'' @ CHR '' '' # ''ok'' @ CHR '' '' # ''|& '' @ d" by (simp add: behind_pipe_both_def)
  then show ?thesis by (simp only: lex_echo) (subst lex_ok, simp add: lex_blank_def, simp only: lex_pipe_both)
qed

lemma lex_in_double: "dq \<notin> set d \<Longrightarrow> bslash \<notin> set d \<Longrightarrow> read_token P (LQuote dq) tok True (d @ r) = read_token P (LQuote dq) (tok @ d) True r"
  by (induction d arbitrary: tok) auto

lemma scan_in_double: "dq \<notin> set d \<Longrightarrow> bslash \<notin> set d \<Longrightarrow> scan_operators (Some dq) False (d @ r) = scan_operators (Some dq) False r"
  by (induction d) auto

lemma plain_no_quotes: "plain_text d \<Longrightarrow> dq \<notin> set d \<and> bslash \<notin> set d"
  unfolding plain_text_def list_all_iff lex_word_char_def using char_facts by blast

lemma substitution_chars: "CHR ''$'' \<noteq> dq" "CHR ''('' \<noteq> dq" "CHR '')'' \<noteq> dq" "CHR ''$'' \<noteq> bslash" "CHR ''('' \<noteq> bslash" "CHR '')'' \<noteq> bslash"
    "dq \<notin> set shell_punct"
  by code_simp+

lemma lex_double_start: "read_token shell_punct LSpace [] False (dq # s) = read_token shell_punct (LQuote dq) [] False s"
  by (simp only: read_token.simps char_facts substitution_chars if_False if_True simp_thms)

lemma lex_in_substitution:
  assumes "plain_text d"
  shows "read_token shell_punct LSpace [] False (in_substitution d) = Inr [(''echo'', False), (''$('' @ d @ '')'', False)]"
proof -
  let ?s = "''$('' @ d @ '')''"
  have d: "dq \<notin> set ?s" "bslash \<notin> set ?s" using plain_no_quotes [OF assms] substitution_chars by auto
  have "in_substitution d = ''echo'' @ CHR '' '' # dq # ?s @ [dq]" by (simp add: in_substitution_def)
  then have "read_token shell_punct LSpace [] False (in_substitution d) =
      lex_cons (''echo'', False) (read_token shell_punct (LQuote dq) [] False (?s @ [dq]))"
    by (simp only: lex_echo lex_double_start)
  also have "read_token shell_punct (LQuote dq) [] False (?s @ [dq]) = read_token shell_punct (LQuote dq) [] True (?s @ [dq])"
    by (rule lex_quote_nonempty) simp
  also have "\<dots> = read_token shell_punct (LQuote dq) ([] @ ?s) True [dq]" by (rule lex_in_double [OF d])
  finally show ?thesis by simp
qed

lemma scan_unseen:
  assumes "plain_text d"
  shows "scan_operators None False (after_line_feed d) = None" "scan_operators None False (in_substitution d) = None"
proof -
  have "scan_operators None False (after_line_feed d) = scan_operators None False d"
    by (simp add: after_line_feed_def operator_at_def sq_def dq_def bslash_def)
  then show "scan_operators None False (after_line_feed d) = None" using scan_plain [OF assms] by simp
  have "scan_operators None False (in_substitution d) = scan_operators (Some dq) False ((''$('' @ d @ '')'') @ [dq])"
    by (simp add: in_substitution_def operator_at_def sq_def dq_def bslash_def)
  then show "scan_operators None False (in_substitution d) = None"
    using scan_in_double [of "''$('' @ d @ '')''" "[dq]"] plain_no_quotes [OF assms] by (simp add: dq_def bslash_def)
qed

lemma split_unseen:
  assumes "plain_text d" "c \<in> set (unseen_commands env d)"
  shows "\<exists>args. split_shell_commands c = Inr [''echo'' # args]"
proof -
  obtain ts where ts: "read_token shell_punct LSpace [] False d = Inr ts" "plain_words ts" using lex_plain(1) [OF assms(1)] by blast
  have "group_stages (map fst ts) [''echo'', ''ok''] = Inr [[''echo'', ''ok''] @ map fst ts]" using group_plain [OF ts(2)] by simp
  moreover have "group_stages (map fst ts) [''echo'', ''ok'', ''|&''] = Inr [[''echo'', ''ok'', ''|&''] @ map fst ts]" using group_plain [OF ts(2)] by simp
  ultimately show ?thesis
    using assms(2) lex_in_substitution [OF assms(1)]
    by (auto simp: unseen_commands_def split_shell_commands_def shlex_def lex_tokens_def lex_after_line_feed lex_behind_pipe_both
      ts(1) stage_operators_def split: if_splits)
qed

text \<open>
  C39. whatever words follow, whatever program they name: if the denylist does not hold the command and \<open>echo\<close> is allowed,
  the command is accepted, and \<open>echo\<close> is the only program that was compared with the allowlist.
\<close>

theorem unseen_programs_accepted:
  assumes "''echo'' \<in> set (sh_allowlist env)" "plain_text d" "c \<in> set (unseen_commands env d)" "\<not> denied_text env c"
  shows "validate_shell_command env tool c = Inr () \<and> (\<exists>args. split_shell_commands c = Inr [''echo'' # args])"
proof -
  obtain args where args: "split_shell_commands c = Inr [''echo'' # args]" using split_unseen [OF assms(2,3)] by blast
  have "policy_flag wp_shell_allow_chaining env \<or> scan_operators None False c = None"
    using assms(3) scan_unseen [OF assms(2)] by (auto simp: unseen_commands_def split: if_splits)
  moreover have "c \<noteq> []" using args by (auto simp: split_shell_commands_def shlex_def lex_tokens_def)
  ultimately have "validate_shell_command env tool c = Inr ()"
    using assms(4) args echo_stage_ok [OF assms(1)] by (auto simp: command_verdict)
  with args show ?thesis by blast
qed

definition sample_shell :: ShellEnv where
  "sample_shell = \<lparr> sh_files = sample_files, sh_home = (\<lambda>_. None), sh_float = (\<lambda>_. None), sh_allowlist = default_allowlist,
     sh_denylist = default_denylist, sh_policy = Some developer_policy \<rparr>"

theorem unseen_programs_accepted_witness:
  "list_all (\<lambda>c. validate_shell_command sample_shell ''exec_command'' c = Inr ()) (unseen_commands sample_shell ''nc host 80'')"
proof -
  have "''echo'' \<in> set (sh_allowlist sample_shell)" by code_simp
  moreover have "plain_text ''nc host 80''" by code_simp
  moreover have "list_all (\<lambda>c. check_denied sample_shell c = Inr ()) (unseen_commands sample_shell ''nc host 80'')" by code_simp
  ultimately show ?thesis
    using unseen_programs_accepted [of sample_shell "''nc host 80''"] by (auto simp: list_all_iff check_denied_ok)
qed

text \<open>
  the arguments that are not checked: a reading command may name any file above the workspace by a path that starts with
  \<open>..\<close>, and \<open>git push\<close> is refused only where \<open>push\<close> is the first argument.
\<close>

theorem arguments_not_confined:
  assumes "set [''cat'', ''git''] \<subseteq> set (sh_allowlist env)" "opt \<noteq> ''push''"
  shows "validate_stage env (''cat'' # map ((@) ''../'') names) = Inr () \<and> validate_stage env (''git'' # opt # rest) = Inr ()"
proof -
  have "read_path_ok env (''../'' @ n)" for n
    by (auto simp: read_path_ok_def expand_user_def parsed_path_def path_parts_def intro: exI [of _ False])
  then have "stage_ok env (''cat'' # map ((@) ''../'') names)"
    unfolding stage_ok_def using assms(1) by (intro exI [of _ "''cat''"]) (simp add: runs_program_def)
  moreover have "stage_ok env (''git'' # opt # rest)"
    unfolding stage_ok_def using assms by (intro exI [of _ "''git''"]) (simp add: runs_program_def file_path_cmds_def)
  ultimately show ?thesis by (simp add: validate_stage_ok)
qed

theorem arguments_not_confined_witness:
  "validate_stage sample_shell [''cat'', ''../secret''] = Inr () \<and> validate_stage sample_shell [''git'', ''--no-pager'', ''push''] = Inr ()"
proof -
  have "set [''cat'', ''git''] \<subseteq> set (sh_allowlist sample_shell)" by code_simp
  then show ?thesis using arguments_not_confined [of sample_shell "''--no-pager''" "[''secret'']" "[''push'']"] by simp
qed

text \<open>The timeout of a call is positive and at most the maximum, unless it is not a number.\<close>

lemma timeout_bounded:
  assumes "resolve_timeout_seconds env preset maximum raw = Inr v"
  shows "v = NotANumber \<or> (\<exists>x. v = Finite x \<and> 0 < x \<and> x \<le> maximum)"
  using assms by (auto simp: resolve_timeout_seconds_def positive_float_def float_not_positive_def float_min_def refuse_def bind_res_Inr
    split: if_splits option.splits pyfloat.splits)

section \<open>Through the policy\<close>

lemma shell_validator: "tool_name call \<in> set shell_tool_names \<Longrightarrow> map_of (tp_validators (shell_policy p)) (tool_name call) = Some (OtherValidator ''shell'')"
  by (auto simp: shell_policy_def register_validator_def shell_tool_names_def update_conv')

text \<open>With the shell tools registered, the policy accepts a call of theirs exactly when it is neither blocked nor left out and the validator accepts it.\<close>

lemma policy_asks_shell_validator:
  assumes "tool_name call \<in> set shell_tool_names"
  shows "validate_with_shell env (shell_policy p) t call = Inr () \<longleftrightarrow>
    (case tp_allowed p of None \<Rightarrow> True | Some names \<Rightarrow> tool_name call \<in> set names) \<and> tool_name call \<notin> set (tp_blocked p) \<and>
    validate_shell_tool env call = Inr ()"
  using shell_validator [OF assms, of p]
  by (auto simp: validate_with_shell_def validate_call_def Let_def shell_policy_def register_validator_def split: option.splits)

end
