(* ===== verification/Shell_Sessions.thy ===== *)
theory Shell_Sessions
  imports Shell_Policy
begin

text \<open>
  The sessions of the shell tool (\<open>ShellTool\<close> of \<open>runtime/tools/shell.py\<close>): the table of interactive processes with
  its slots, reservations and marks of aborted runs, the two streams of a session with what was read and what was
  delivered, and the results its calls return. What the processes write and when they end, the random identifiers and the
  clock are parameters. Every operation on the table runs under one lock, every operation on a stream under the lock
  of its session, so each is one function.
\<close>

section \<open>Streams\<close>

text \<open>\<open>stdout_buffer\<close>, \<open>stdout_history\<close>, \<open>stdout_offset\<close>, \<open>_stdout_total\<close>, \<open>stdout_truncated\<close>, and those of \<open>stderr\<close>.\<close>

record OutputStream =
  os_buffer :: pystr
  os_history :: pystr
  os_offset :: nat
  os_total :: nat
  os_truncated :: bool

definition new_stream :: OutputStream where
  "new_stream = \<lparr> os_buffer = [], os_history = [], os_offset = 0, os_total = 0, os_truncated = False \<rparr>"

definition append_chunk :: "nat \<Rightarrow> pystr \<Rightarrow> OutputStream \<Rightarrow> OutputStream" where
  "append_chunk limit chunk s =
     (if os_total s \<ge> limit then s\<lparr>os_truncated := True\<rparr>
      else (let remaining = limit - os_total s;
              s' = (if length chunk > remaining then s\<lparr>os_truncated := True\<rparr> else s);
              chunk' = (if length chunk > remaining then take remaining chunk else chunk) in
        s'\<lparr>os_buffer := os_buffer s' @ chunk', os_history := os_history s' @ chunk', os_total := os_total s + length chunk'\<rparr>))"

definition reset_stream_counter :: "OutputStream \<Rightarrow> OutputStream" where
  "reset_stream_counter s = s\<lparr>os_total := length (os_history s)\<rparr>"

definition truncate_consumed :: "OutputStream \<Rightarrow> OutputStream" where
  "truncate_consumed s = (if os_offset s > 0 then s\<lparr>os_buffer := drop (os_offset s) (os_buffer s), os_offset := 0\<rparr> else s)"

definition drain_stream :: "OutputStream \<Rightarrow> pystr \<times> OutputStream" where
  "drain_stream s = (let s' = truncate_consumed s in (drop (os_offset s') (os_buffer s'), s'\<lparr>os_offset := length (os_buffer s')\<rparr>))"

definition snapshot_stream :: "OutputStream \<Rightarrow> pystr \<times> OutputStream" where
  "snapshot_stream s = (let s' = truncate_consumed s in (os_history s', s'))"

definition unread :: "OutputStream \<Rightarrow> pystr" where
  "unread s = drop (os_offset s) (os_buffer s)"

section \<open>Sessions\<close>

record CommandSession =
  cs_id :: int
  cs_process :: nat
  cs_command :: pystr
  cs_cwd :: fpath
  cs_started :: rat
  cs_run :: "pystr option"
  cs_agent :: "pystr option"
  cs_out :: OutputStream
  cs_err :: OutputStream
  cs_tty :: bool
  cs_in_use :: int

text \<open>A line or a block that one of the readers takes from the process: for \<open>stderr\<close> or not, and its text.\<close>

definition reader_chunk :: "nat \<Rightarrow> bool \<times> pystr \<Rightarrow> CommandSession \<Rightarrow> CommandSession" where
  "reader_chunk limit piece s = (case piece of (err, chunk) \<Rightarrow>
     (let s' = (if err then s\<lparr>cs_err := append_chunk limit chunk (cs_err s)\<rparr> else s\<lparr>cs_out := append_chunk limit chunk (cs_out s)\<rparr>) in
      s'\<lparr>cs_out := reset_stream_counter (cs_out s'), cs_err := reset_stream_counter (cs_err s')\<rparr>))"

definition drain_session :: "CommandSession \<Rightarrow> (pystr \<times> pystr) \<times> CommandSession" where
  "drain_session s = (let (out, o') = drain_stream (cs_out s); (err, e') = drain_stream (cs_err s) in
     ((out, err), s\<lparr>cs_out := o', cs_err := e'\<rparr>))"

definition snapshot_session :: "CommandSession \<Rightarrow> (pystr \<times> pystr) \<times> CommandSession" where
  "snapshot_session s = (let (out, o') = snapshot_stream (cs_out s); (err, e') = snapshot_stream (cs_err s) in
     ((out, err), s\<lparr>cs_out := o', cs_err := e'\<rparr>))"

definition has_unread_output :: "CommandSession \<Rightarrow> bool" where
  "has_unread_output s \<longleftrightarrow> os_offset (cs_out s) < length (os_buffer (cs_out s)) \<or> os_offset (cs_err s) < length (os_buffer (cs_err s))"

section \<open>The table\<close>

definition max_sessions :: nat where "max_sessions = 64"
definition max_aborted_runs :: nat where "max_aborted_runs = 1024"

record ShellTable =
  st_sessions :: "CommandSession list"
  st_reservations :: int
  st_aborted :: "pystr list"

definition new_table :: ShellTable where
  "new_table = \<lparr> st_sessions = [], st_reservations = 0, st_aborted = [] \<rparr>"

definition session_of :: "ShellTable \<Rightarrow> int \<Rightarrow> CommandSession option" where
  "session_of t sid = List.find (\<lambda>s. cs_id s = sid) (st_sessions t)"

definition pop_session :: "int \<Rightarrow> ShellTable \<Rightarrow> ShellTable" where
  "pop_session sid t = t\<lparr>st_sessions := filter (\<lambda>s. cs_id s \<noteq> sid) (st_sessions t)\<rparr>"

definition remember_aborted_run :: "pystr \<Rightarrow> ShellTable \<Rightarrow> ShellTable" where
  "remember_aborted_run run t = (let runs = filter (\<lambda>r. r \<noteq> run) (st_aborted t) @ [run] in
     t\<lparr>st_aborted := drop (length runs - max_aborted_runs) runs\<rparr>)"

definition is_command_run_aborted :: "ShellTable \<Rightarrow> pystr option \<Rightarrow> bool" where
  "is_command_run_aborted t run = (case run of None \<Rightarrow> False | Some r \<Rightarrow> r \<noteq> [] \<and> r \<in> set (st_aborted t))"

text \<open>\<open>min (.., key=started_at)\<close>: the first of the sessions that started earliest.\<close>

fun oldest_session :: "CommandSession list \<Rightarrow> CommandSession option" where
  "oldest_session [] = None"
| "oldest_session (s # ss) = (case oldest_session ss of
     None \<Rightarrow> Some s | Some s' \<Rightarrow> if cs_started s' < cs_started s then Some s' else Some s)"

definition occupied :: "ShellTable \<Rightarrow> int" where
  "occupied t = int (length (st_sessions t)) + st_reservations t"

definition reclaimed_session :: "(nat \<Rightarrow> bool) \<Rightarrow> ShellTable \<Rightarrow> CommandSession option" where
  "reclaimed_session ended t = (if occupied t \<ge> int max_sessions
     then oldest_session (filter (\<lambda>s. cs_in_use s = 0 \<and> ended (cs_process s)) (st_sessions t)) else None)"

text \<open>\<open>_reserve_session_slot\<close>: whether a slot was reserved, and the table.\<close>

definition reserve_session_slot :: "(nat \<Rightarrow> bool) \<Rightarrow> ShellTable \<Rightarrow> bool \<times> ShellTable" where
  "reserve_session_slot ended t =
     (let t' = (case reclaimed_session ended t of None \<Rightarrow> t | Some s \<Rightarrow> pop_session (cs_id s) t) in
      if occupied t' < int max_sessions then (True, t'\<lparr>st_reservations := st_reservations t' + 1\<rparr>) else (False, t'))"

definition release_session_slot :: "ShellTable \<Rightarrow> tool_exception + ShellTable" where
  "release_session_slot t = (if st_reservations t \<le> 0
     then Inl (RuntimeErr (''Tentativa de liberar slot de sess'' @ [CHR 0xE3] @ ''o n'' @ [CHR 0xE3] @ ''o reservado''))
     else Inr (t\<lparr>st_reservations := st_reservations t - 1\<rparr>))"

text \<open>The first draw that no session has.\<close>

definition draw_id :: "ShellTable \<Rightarrow> int list \<Rightarrow> int option" where
  "draw_id t draws = List.find (\<lambda>d. session_of t d = None) draws"

record SpawnedCommand =
  sp_process :: nat
  sp_command :: pystr
  sp_cwd :: fpath
  sp_run :: "pystr option"
  sp_agent :: "pystr option"
  sp_tty :: bool

definition register_session :: "SpawnedCommand \<Rightarrow> int list \<Rightarrow> rat \<Rightarrow> ShellTable \<Rightarrow> tool_exception + (CommandSession \<times> ShellTable) option" where
  "register_session c draws now t =
     (if st_reservations t \<le> 0
      then Inl (RuntimeErr (''Cria'' @ [CHR 0xE7, CHR 0xE3] @ ''o de sess'' @ [CHR 0xE3] @ ''o sem slot previamente reservado''))
      else if is_command_run_aborted t (sp_run c)
      then Inl (RuntimeErr (''Run encerrado antes de registrar a sess'' @ [CHR 0xE3] @ ''o''))
      else (case draw_id t draws of
        None \<Rightarrow> Inr None
      | Some sid \<Rightarrow> (let s = \<lparr> cs_id = sid, cs_process = sp_process c, cs_command = sp_command c, cs_cwd = sp_cwd c, cs_started = now,
            cs_run = sp_run c, cs_agent = sp_agent c, cs_out = new_stream, cs_err = new_stream, cs_tty = sp_tty c, cs_in_use = 1 \<rparr> in
          Inr (Some (s, t\<lparr>st_reservations := st_reservations t - 1, st_sessions := st_sessions t @ [s]\<rparr>)))))"

definition change_use :: "int \<Rightarrow> int \<Rightarrow> ShellTable \<Rightarrow> ShellTable" where
  "change_use sid d t = t\<lparr>st_sessions := map (\<lambda>s. if cs_id s = sid then s\<lparr>cs_in_use := cs_in_use s + d\<rparr> else s) (st_sessions t)\<rparr>"

text \<open>\<open>_session_in_use\<close>: the session under the identifier, marked; \<open>_release_session_use\<close>.\<close>

definition acquire_session :: "int \<Rightarrow> ShellTable \<Rightarrow> CommandSession option \<times> ShellTable" where
  "acquire_session sid t = (case session_of t sid of None \<Rightarrow> (None, t) | Some s \<Rightarrow> (Some s, change_use sid 1 t))"

definition release_session_use :: "int \<Rightarrow> ShellTable \<Rightarrow> ShellTable" where
  "release_session_use sid t = change_use sid (- 1) t"

text \<open>\<open>close_command_sessions_for_run\<close>: the sessions taken out of the table, whose processes are ended afterwards.\<close>

definition close_sessions_for_run :: "pystr \<Rightarrow> ShellTable \<Rightarrow> CommandSession list \<times> ShellTable" where
  "close_sessions_for_run raw t = (let run = py_strip raw in
     if run = [] then ([], t)
     else (let t' = remember_aborted_run run t;
             owned = filter (\<lambda>s. cs_run s = Some run) (st_sessions t') in
       (owned, t'\<lparr>st_sessions := filter (\<lambda>s. cs_run s \<noteq> Some run) (st_sessions t')\<rparr>)))"

text \<open>\<open>str (trusted_context.run_id or "").strip () or None\<close>.\<close>

definition owner_run :: "pystr option \<Rightarrow> pystr option" where
  "owner_run run = none_if_empty (py_strip (or_empty run))"

section \<open>Results\<close>

datatype diff_op = DiffReplace pystr | DiffAdd pystr

definition build_output_diff :: "pystr \<Rightarrow> pystr \<Rightarrow> pystr option \<Rightarrow> pystr option \<Rightarrow> bool \<Rightarrow> diff_op list" where
  "build_output_diff out err full_out full_err completed =
     (if completed then (let combined = or_empty full_out @ or_empty full_err in if combined \<noteq> [] then [DiffReplace combined] else [])
      else (let combined = out @ err in if combined \<noteq> [] then [DiffAdd combined] else []))"

definition format_shell_content :: "pystr \<Rightarrow> pystr \<Rightarrow> int option \<Rightarrow> pystr \<Rightarrow> pystr \<Rightarrow> int option \<Rightarrow> int option \<Rightarrow> pystr option \<Rightarrow> bool \<Rightarrow> bool \<Rightarrow> pystr" where
  "format_shell_content out err sid status cwd exit_code duration timeout timed_out truncated =
     py_join [CHR 0x0A, CHR 0x0A] (
       (case sid of None \<Rightarrow> [] | Some i \<Rightarrow> [''session_id: '' @ show_int i]) @
       (if status \<noteq> [] then [''status: '' @ status] else []) @
       (if cwd \<noteq> [] then [''cwd: '' @ cwd] else []) @
       (case exit_code of None \<Rightarrow> [] | Some i \<Rightarrow> [''exit_code: '' @ show_int i]) @
       (case duration of None \<Rightarrow> [] | Some i \<Rightarrow> [''duration_ms: '' @ show_int i]) @
       (case timeout of None \<Rightarrow> [] | Some t \<Rightarrow> [''timeout_seconds: '' @ t]) @
       (if timed_out then [''timed_out: true''] else []) @
       (if truncated then [''truncated: true''] else []) @
       (if out \<noteq> [] then [''stdout:'' @ CHR 0x0A # out] else []) @
       (if err \<noteq> [] then [''stderr:'' @ CHR 0x0A # err] else []))"

text \<open>What a call returns, \<open>sr_error\<close> aside the fields of \<open>data\<close>.\<close>

record ShellResult =
  sr_ok :: bool
  sr_content :: pystr
  sr_error :: "pystr option"
  sr_exit :: "int option"
  sr_truncated :: bool
  sr_stdout :: pystr
  sr_stderr :: pystr
  sr_status :: pystr
  sr_session :: "int option"
  sr_diff :: "diff_op list"

text \<open>
  \<open>_collect_session_result\<close>: the pieces the readers take during the first wait, the wait for a process that has said
  nothing, and the last one; whether the process runs after the first, and its exit code at the end.
\<close>

record CollectTimes =
  ct_first :: "(bool \<times> pystr) list"
  ct_running :: bool
  ct_second :: "(bool \<times> pystr) list"
  ct_last :: "(bool \<times> pystr) list"
  ct_exit :: "int option"

definition collect_output :: "nat \<Rightarrow> CollectTimes \<Rightarrow> CommandSession \<Rightarrow> (pystr \<times> pystr) \<times> CommandSession" where
  "collect_output limit w s =
     (let ((out, err), s1) = drain_session (fold (reader_chunk limit) (ct_first w) s);
          ((out, err), s2) = (if out = [] \<and> err = [] \<and> ct_running w then drain_session (fold (reader_chunk limit) (ct_second w) s1) else ((out, err), s1)) in
      ((out, err), fold (reader_chunk limit) (ct_last w) s2))"

definition collect_session_result :: "nat \<Rightarrow> CollectTimes \<Rightarrow> CommandSession \<Rightarrow> ShellResult \<times> CommandSession" where
  "collect_session_result limit w s =
     (let ((out, err), s1) = collect_output limit w s;
          completed = (ct_exit w \<noteq> None);
          ((full_out, full_err), s2) = snapshot_session s1;
          shown_out = (if completed then full_out else out);
          shown_err = (if completed then full_err else err);
          status = (if completed then ''completed'' else ''running'') in
      (\<lparr> sr_ok = (if completed then ct_exit w = Some 0 else True),
         sr_content = format_shell_content (take limit shown_out) (take limit shown_err) (Some (cs_id s)) status [] None None None False False,
         sr_error = None, sr_exit = ct_exit w,
         sr_truncated = (os_truncated (cs_out s2) \<or> os_truncated (cs_err s2) \<or> length shown_out > limit \<or> length shown_err > limit),
         sr_stdout = take limit shown_out, sr_stderr = take limit shown_err, sr_status = status, sr_session = Some (cs_id s),
         sr_diff = build_output_diff (take limit out) (take limit err) (Some (take limit full_out)) (Some (take limit full_err)) completed \<rparr>, s2))"

text \<open>The result of \<open>close_command_session\<close> from the session as the readers left it; the exit code is \<open>poll ()\<close>.\<close>

definition close_session_result :: "nat \<Rightarrow> int option \<Rightarrow> CommandSession \<Rightarrow> ShellResult \<times> CommandSession" where
  "close_session_result limit code s =
     (let ((out, err), s1) = drain_session s in
      (\<lparr> sr_ok = True, sr_content = format_shell_content (take limit out) (take limit err) (Some (cs_id s)) ''closed'' [] None None None False False,
         sr_error = None, sr_exit = code, sr_truncated = (length out > limit \<or> length err > limit),
         sr_stdout = take limit out, sr_stderr = take limit err, sr_status = ''closed'', sr_session = Some (cs_id s),
         sr_diff = build_output_diff (take limit out) (take limit err) None None True \<rparr>, s1))"

text \<open>What the subprocess of \<open>run_shell\<close> did: it ended, or it was cut off with what it had written.\<close>

datatype run_outcome = Ended int pystr pystr | CutOff pystr pystr

definition run_shell_result :: "nat \<Rightarrow> pystr \<Rightarrow> int \<Rightarrow> pystr \<Rightarrow> run_outcome \<Rightarrow> ShellResult" where
  "run_shell_result limit cwd duration timeout outcome = (case outcome of
     Ended code out err \<Rightarrow> (let cut = (length out > limit \<or> length err > limit) in
       \<lparr> sr_ok = (code = 0),
         sr_content = format_shell_content (take limit out) (take limit err) None [] cwd (Some code) (Some duration) (Some timeout) False cut,
         sr_error = None, sr_exit = Some code, sr_truncated = cut, sr_stdout = take limit out, sr_stderr = take limit err,
         sr_status = [], sr_session = None, sr_diff = build_output_diff (take limit out) (take limit err) None None True \<rparr>)
   | CutOff out err \<Rightarrow> (let cut = (length out > limit \<or> length err > limit) in
       \<lparr> sr_ok = False,
         sr_content = format_shell_content (take limit out) (take limit err) None [] cwd None (Some duration) (Some timeout) True cut,
         sr_error = Some (''comando excedeu timeout de '' @ timeout @ ''s''), sr_exit = None, sr_truncated = cut,
         sr_stdout = take limit out, sr_stderr = take limit err, sr_status = [], sr_session = None, sr_diff = [] \<rparr>))"

section \<open>Lemmas\<close>

lemma session_of_Some: "session_of t sid = Some s \<Longrightarrow> s \<in> set (st_sessions t) \<and> cs_id s = sid"
  by (auto simp: session_of_def find_Some_iff)

lemma session_of_None: "session_of t sid = None \<longleftrightarrow> sid \<notin> cs_id ` set (st_sessions t)"
  by (auto simp: session_of_def find_None_iff)

lemma session_of_distinct: "distinct (map cs_id (st_sessions t)) \<Longrightarrow> s \<in> set (st_sessions t) \<Longrightarrow> session_of t (cs_id s) = Some s"
proof -
  assume d: "distinct (map cs_id (st_sessions t))" and s: "s \<in> set (st_sessions t)"
  then obtain u where u: "session_of t (cs_id s) = Some u" using session_of_None [of t "cs_id s"] by (cases "session_of t (cs_id s)") auto
  then have "u = s" using session_of_Some [OF u] d s by (auto simp: distinct_map inj_on_def)
  with u show ?thesis by simp
qed

lemma oldest_session_in: "oldest_session ss = Some s \<Longrightarrow> s \<in> set ss"
  by (induction ss arbitrary: s) (auto split: option.splits if_splits)

lemma oldest_session_None: "oldest_session ss = None \<longleftrightarrow> ss = []"
  by (cases ss) (auto split: option.splits)

lemma oldest_session_least: "oldest_session ss = Some s \<Longrightarrow> u \<in> set ss \<Longrightarrow> cs_started s \<le> cs_started u"
proof (induction ss arbitrary: s)
  case (Cons a ss)
  show ?case
  proof (cases "oldest_session ss")
    case None
    then show ?thesis using Cons.prems by (auto simp: oldest_session_None)
  next
    case (Some v)
    then show ?thesis using Cons.prems Cons.IH [OF Some] by (auto split: if_splits)
  qed
qed simp

end
