(* ===== verification/Shell_Output.thy ===== *)
theory Shell_Output
  imports Shell_Sessions
begin

text \<open>
  What the calls on a session deliver of the output of its process: the calls that find it running hand out
  every character that was kept once and in order, the call that finds it ended the whole output up to the limit, with a
  mark exactly when something was cut; the call that closes a session has lost the mark.
\<close>

section \<open>One stream\<close>

text \<open>A stream that took \<open>produced\<close> and has handed out \<open>delivered\<close>.\<close>

definition stream_ok :: "nat \<Rightarrow> pystr \<Rightarrow> pystr \<Rightarrow> OutputStream \<Rightarrow> bool" where
  "stream_ok limit produced delivered s \<longleftrightarrow> os_history s = take limit produced \<and> os_total s = length (os_history s) \<and>
     os_offset s \<le> length (os_buffer s) \<and> delivered @ unread s = os_history s \<and> (os_truncated s \<longleftrightarrow> limit < length produced)"

lemma stream_ok_new: "stream_ok limit [] [] new_stream"
  by (simp add: stream_ok_def new_stream_def unread_def)

lemma unread_append: "os_offset s \<le> length (os_buffer s) \<Longrightarrow> unread (s\<lparr>os_buffer := os_buffer s @ c\<rparr>) = unread s @ c"
  by (simp add: unread_def)

lemma append_chunk_full: "os_total s \<ge> limit \<Longrightarrow> append_chunk limit c s = s\<lparr>os_truncated := True\<rparr>"
  by (simp add: append_chunk_def)

lemma append_chunk_free: "os_total s < limit \<Longrightarrow> append_chunk limit c s =
    s\<lparr>os_truncated := os_truncated s \<or> limit - os_total s < length c, os_buffer := os_buffer s @ take (limit - os_total s) c,
      os_history := os_history s @ take (limit - os_total s) c, os_total := os_total s + min (length c) (limit - os_total s)\<rparr>"
  by (simp add: append_chunk_def Let_def min_def)

lemma stream_ok_append:
  assumes "stream_ok limit produced delivered s" "c \<noteq> []"
  shows "stream_ok limit (produced @ c) delivered (reset_stream_counter (append_chunk limit c s))"
proof (cases "limit \<le> length produced")
  case True
  then have "append_chunk limit c s = s\<lparr>os_truncated := True\<rparr>" using assms(1) by (intro append_chunk_full) (simp add: stream_ok_def)
  moreover have "limit < length (produced @ c)" using True assms(2) by (cases c) auto
  ultimately show ?thesis using assms(1) True by (simp add: stream_ok_def reset_stream_counter_def unread_def)
next
  case False
  then have t: "os_total s = length produced" using assms(1) by (simp add: stream_ok_def)
  note app = append_chunk_free [of s limit c, unfolded t]
  have d: "delivered @ drop (os_offset s) (os_buffer s) = produced" "os_history s = produced" "os_offset s \<le> length (os_buffer s)" "\<not> os_truncated s"
    using assms(1) False by (simp_all add: stream_ok_def unread_def)
  have "delivered @ drop (os_offset s) (os_buffer s) @ x = produced @ x" for x using d(1) by simp
  then show ?thesis using False d(2-4) app by (simp add: stream_ok_def reset_stream_counter_def unread_def less_diff_conv2 not_le) linarith
qed

lemma stream_ok_reset: "stream_ok limit produced delivered s \<Longrightarrow> stream_ok limit produced delivered (reset_stream_counter s)"
  by (simp add: stream_ok_def reset_stream_counter_def unread_def)

lemma stream_ok_truncate: "stream_ok limit produced delivered s \<Longrightarrow> stream_ok limit produced delivered (truncate_consumed s)"
  by (cases "os_offset s = 0") (simp_all add: stream_ok_def truncate_consumed_def unread_def)

lemma stream_ok_drain:
  assumes "stream_ok limit produced delivered s" "drain_stream s = (out, s')"
  shows "stream_ok limit produced (delivered @ out) s'" "unread s' = []"
  using stream_ok_truncate [OF assms(1)] assms(2) by (auto simp: drain_stream_def Let_def stream_ok_def unread_def)

lemma stream_ok_snapshot:
  assumes "stream_ok limit produced delivered s" "snapshot_stream s = (whole, s')"
  shows "stream_ok limit produced delivered s'" "whole = take limit produced"
  using stream_ok_truncate [OF assms(1)] assms(2) by (auto simp: snapshot_stream_def Let_def stream_ok_def)

lemma stream_ok_short: "stream_ok limit produced delivered s \<Longrightarrow> length delivered \<le> limit"
proof -
  assume ok: "stream_ok limit produced delivered s"
  then have "length (delivered @ unread s) \<le> limit" by (simp only: stream_ok_def) simp
  then show ?thesis by simp
qed

section \<open>A session\<close>

definition channel :: "bool \<Rightarrow> CommandSession \<Rightarrow> OutputStream" where
  "channel err s = (if err then cs_err s else cs_out s)"

definition shown :: "bool \<Rightarrow> ShellResult \<Rightarrow> pystr" where
  "shown err r = (if err then sr_stderr r else sr_stdout r)"

definition texts :: "bool \<Rightarrow> (bool \<times> pystr) list \<Rightarrow> pystr" where
  "texts err ps = concat (map snd (filter (\<lambda>p. fst p = err) ps))"

lemma texts_simps [simp]: "texts err [] = []" "texts err (p # ps) = (if fst p = err then snd p else []) @ texts err ps"
  by (simp_all add: texts_def)

lemma texts_snoc: "texts err (ps @ [p]) = texts err ps @ (if fst p = err then snd p else [])"
  by (simp add: texts_def)

definition session_ok :: "nat \<Rightarrow> (bool \<times> pystr) list \<Rightarrow> (bool \<Rightarrow> pystr) \<Rightarrow> CommandSession \<Rightarrow> bool" where
  "session_ok limit ps delivered s \<longleftrightarrow> (\<forall>err. stream_ok limit (texts err ps) (delivered err) (channel err s))"

lemma session_ok_iff: "session_ok limit ps delivered s \<longleftrightarrow>
    stream_ok limit (texts False ps) (delivered False) (cs_out s) \<and> stream_ok limit (texts True ps) (delivered True) (cs_err s)"
  unfolding session_ok_def channel_def by (metis (full_types))

definition no_empty_piece :: "(bool \<times> pystr) list \<Rightarrow> bool" where
  "no_empty_piece ps \<longleftrightarrow> list_all (\<lambda>p. snd p \<noteq> []) ps"

lemma session_ok_piece: "session_ok limit ps delivered s \<Longrightarrow> snd p \<noteq> [] \<Longrightarrow> session_ok limit (ps @ [p]) delivered (reader_chunk limit p s)"
  by (cases p) (auto simp: session_ok_iff reader_chunk_def Let_def texts_snoc stream_ok_append stream_ok_reset)

lemma session_ok_pieces: "session_ok limit ps delivered s \<Longrightarrow> no_empty_piece qs \<Longrightarrow> session_ok limit (ps @ qs) delivered (fold (reader_chunk limit) qs s)"
proof (induction qs arbitrary: ps s)
  case (Cons q qs)
  then have "session_ok limit (ps @ [q]) delivered (reader_chunk limit q s)" by (intro session_ok_piece) (auto simp: no_empty_piece_def)
  then show ?case using Cons.IH [of "ps @ [q]" "reader_chunk limit q s"] Cons.prems(2) by (simp add: no_empty_piece_def)
qed simp

lemma session_ok_drain:
  assumes "session_ok limit ps delivered s" "drain_session s = ((out, err), s')"
  shows "session_ok limit ps (\<lambda>e. delivered e @ (if e then err else out)) s'"
proof -
  obtain u v where d: "drain_stream (cs_out s) = (out, u)" "drain_stream (cs_err s) = (err, v)" "s' = s\<lparr>cs_out := u, cs_err := v\<rparr>"
    using assms(2) by (auto simp: drain_session_def Let_def split: prod.splits)
  have ok: "stream_ok limit (texts False ps) (delivered False) (cs_out s)" "stream_ok limit (texts True ps) (delivered True) (cs_err s)"
    using assms(1) by (auto simp: session_ok_iff)
  show ?thesis using stream_ok_drain(1) [OF ok(1) d(1)] stream_ok_drain(1) [OF ok(2) d(2)] d(3) by (simp add: session_ok_iff)
qed

lemma session_ok_snapshot:
  assumes "session_ok limit ps delivered s" "snapshot_session s = ((out, err), s')"
  shows "session_ok limit ps delivered s'" "out = take limit (texts False ps)" "err = take limit (texts True ps)"
proof -
  obtain u v where d: "snapshot_stream (cs_out s) = (out, u)" "snapshot_stream (cs_err s) = (err, v)" "s' = s\<lparr>cs_out := u, cs_err := v\<rparr>"
    using assms(2) by (auto simp: snapshot_session_def Let_def split: prod.splits)
  have ok: "stream_ok limit (texts False ps) (delivered False) (cs_out s)" "stream_ok limit (texts True ps) (delivered True) (cs_err s)"
    using assms(1) by (auto simp: session_ok_iff)
  note snap = stream_ok_snapshot [OF ok(1) d(1)] stream_ok_snapshot [OF ok(2) d(2)]
  show "session_ok limit ps delivered s'" using snap d(3) by (simp add: session_ok_iff)
  show "out = take limit (texts False ps)" "err = take limit (texts True ps)" using snap by simp_all
qed

section \<open>Calls in turn\<close>

text \<open>The pieces the readers take during one call.\<close>

definition poll_pieces :: "nat \<Rightarrow> CollectTimes \<Rightarrow> CommandSession \<Rightarrow> (bool \<times> pystr) list" where
  "poll_pieces limit w s = (let ((out, err), _) = drain_session (fold (reader_chunk limit) (ct_first w) s) in
     ct_first w @ (if out = [] \<and> err = [] \<and> ct_running w then ct_second w else []) @ ct_last w)"

fun run_polls :: "nat \<Rightarrow> CollectTimes list \<Rightarrow> CommandSession \<Rightarrow> ShellResult list \<times> CommandSession" where
  "run_polls limit [] s = ([], s)"
| "run_polls limit (w # ws) s = (let (r, s1) = collect_session_result limit w s; (rs, s2) = run_polls limit ws s1 in (r # rs, s2))"

fun all_pieces :: "nat \<Rightarrow> CollectTimes list \<Rightarrow> CommandSession \<Rightarrow> (bool \<times> pystr) list" where
  "all_pieces limit [] s = []"
| "all_pieces limit (w # ws) s = poll_pieces limit w s @ all_pieces limit ws (snd (collect_session_result limit w s))"

definition times_ok :: "CollectTimes \<Rightarrow> bool" where
  "times_ok w \<longleftrightarrow> no_empty_piece (ct_first w) \<and> no_empty_piece (ct_second w) \<and> no_empty_piece (ct_last w)"

lemma collect_output_ok:
  assumes "session_ok limit ps delivered s" "times_ok w" "collect_output limit w s = ((out, err), s')"
  shows "session_ok limit (ps @ poll_pieces limit w s) (\<lambda>e. delivered e @ (if e then err else out)) s'"
proof -
  obtain o1 e1 s1 where d1: "drain_session (fold (reader_chunk limit) (ct_first w) s) = ((o1, e1), s1)" by (metis prod.exhaust)
  have ok1: "session_ok limit (ps @ ct_first w) (\<lambda>e. delivered e @ (if e then e1 else o1)) s1"
    using session_ok_drain [OF session_ok_pieces [OF assms(1)] d1] assms(2) by (simp add: times_ok_def)
  show ?thesis
  proof (cases "o1 = [] \<and> e1 = [] \<and> ct_running w")
    case True
    obtain o2 e2 s2 where d2: "drain_session (fold (reader_chunk limit) (ct_second w) s1) = ((o2, e2), s2)" by (metis prod.exhaust)
    have "session_ok limit ((ps @ ct_first w) @ ct_second w) (\<lambda>e. (delivered e @ (if e then e1 else o1)) @ (if e then e2 else o2)) s2"
      using session_ok_drain [OF session_ok_pieces [OF ok1] d2] assms(2) by (simp add: times_ok_def)
    then have ok2: "session_ok limit ((ps @ ct_first w) @ ct_second w) (\<lambda>e. delivered e @ (if e then e2 else o2)) s2"
      unfolding session_ok_iff using True by simp
    have "s' = fold (reader_chunk limit) (ct_last w) s2" "out = o2" "err = e2"
      using assms(3) d1 d2 True by (auto simp: collect_output_def)
    moreover have "poll_pieces limit w s = ct_first w @ ct_second w @ ct_last w" using d1 True by (simp add: poll_pieces_def)
    ultimately show ?thesis using session_ok_pieces [OF ok2, of "ct_last w"] assms(2) by (simp add: times_ok_def cong: if_cong)
  next
    case False
    then have "s' = fold (reader_chunk limit) (ct_last w) s1" "out = o1" "err = e1" "poll_pieces limit w s = ct_first w @ ct_last w"
      using assms(3) d1 by (auto simp: collect_output_def poll_pieces_def)
    then show ?thesis using session_ok_pieces [OF ok1, of "ct_last w"] assms(2) by (simp add: times_ok_def cong: if_cong)
  qed
qed

lemma collect_ok:
  assumes "session_ok limit ps delivered s" "times_ok w" "collect_session_result limit w s = (r, s')"
  shows "\<exists>new. session_ok limit (ps @ poll_pieces limit w s) (\<lambda>e. delivered e @ new e) s' \<and>
    shown e r = (if ct_exit w = None then new e else take limit (texts e (ps @ poll_pieces limit w s))) \<and>
    (sr_truncated r \<longleftrightarrow> (\<exists>e. limit < length (texts e (ps @ poll_pieces limit w s))))"
proof -
  obtain out err s1 where c: "collect_output limit w s = ((out, err), s1)" by (metis prod.exhaust)
  obtain fo fe s2 where f: "snapshot_session s1 = ((fo, fe), s2)" by (metis prod.exhaust)
  define new where "new = (\<lambda>e. if e then err else out)"
  let ?ps = "ps @ poll_pieces limit w s"
  have ok1: "session_ok limit ?ps (\<lambda>e. delivered e @ new e) s1" using collect_output_ok [OF assms(1,2) c] by (simp add: new_def)
  note snap = session_ok_snapshot [OF ok1 f]
  have short: "length (delivered e @ new e) \<le> limit" for e using ok1 unfolding session_ok_def by (blast intro: stream_ok_short)
  then have lengths: "length out \<le> limit" "length err \<le> limit" using short [of False] short [of True] by (auto simp: new_def)
  have cut: "os_truncated (cs_out s2) \<longleftrightarrow> limit < length (texts False ?ps)" "os_truncated (cs_err s2) \<longleftrightarrow> limit < length (texts True ?ps)"
    using snap(1) unfolding session_ok_def stream_ok_def channel_def by (metis (full_types))+
  have any: "(\<exists>e. limit < length (texts e ?ps)) \<longleftrightarrow> limit < length (texts False ?ps) \<or> limit < length (texts True ?ps)"
    by (metis (full_types))
  have "s' = s2" "shown e r = (if ct_exit w = None then new e else take limit (texts e ?ps))"
    using assms(3) c f snap(2,3) lengths by (auto simp: collect_session_result_def Let_def shown_def new_def)
  moreover have "\<not> limit < length (if ct_exit w \<noteq> None then fo else out)" "\<not> limit < length (if ct_exit w \<noteq> None then fe else err)"
    using snap(2,3) lengths by auto
  then have "sr_truncated r \<longleftrightarrow> os_truncated (cs_out s2) \<or> os_truncated (cs_err s2)"
    using assms(3) c f by (auto simp: collect_session_result_def Let_def)
  ultimately show ?thesis using snap(1) cut any by auto
qed

lemma polls_ok:
  assumes "session_ok limit ps delivered s" "list_all times_ok ws" "list_all (\<lambda>w. ct_exit w = None) ws" "run_polls limit ws s = (rs, s')"
  shows "session_ok limit (ps @ all_pieces limit ws s) (\<lambda>e. delivered e @ concat (map (shown e) rs)) s'"
  using assms
proof (induction ws arbitrary: ps delivered s rs)
  case (Cons w ws)
  obtain r s1 where r: "collect_session_result limit w s = (r, s1)" by force
  obtain rs1 s2 where rs1: "run_polls limit ws s1 = (rs1, s2)" by force
  have rs: "rs = r # rs1" "s' = s2" using Cons.prems(4) r rs1 by auto
  obtain new where new: "session_ok limit (ps @ poll_pieces limit w s) (\<lambda>e. delivered e @ new e) s1" "shown False r = new False"
    using collect_ok [OF Cons.prems(1) _ r, of False] Cons.prems(2,3) by auto
  obtain new' where new': "session_ok limit (ps @ poll_pieces limit w s) (\<lambda>e. delivered e @ new' e) s1" "shown True r = new' True"
    using collect_ok [OF Cons.prems(1) _ r, of True] Cons.prems(2,3) by auto
  have "session_ok limit (ps @ poll_pieces limit w s) (\<lambda>e. delivered e @ shown e r) s1"
    using new new' by (simp add: session_ok_iff)
  from Cons.IH [OF this _ _ rs1 [folded rs(2)]] Cons.prems(2,3) show ?case by (simp add: rs r)
qed simp

definition fresh_session :: "CommandSession \<Rightarrow> bool" where
  "fresh_session s \<longleftrightarrow> cs_out s = new_stream \<and> cs_err s = new_stream"

lemma session_ok_fresh: "fresh_session s \<Longrightarrow> session_ok limit [] (\<lambda>_. []) s"
  by (simp add: fresh_session_def session_ok_def channel_def stream_ok_new)

lemma polls_of_fresh:
  assumes "fresh_session s" "list_all times_ok ws" "list_all (\<lambda>w. ct_exit w = None) ws" "run_polls limit ws s = (rs, s')"
  shows "session_ok limit (all_pieces limit ws s) (\<lambda>e. concat (map (shown e) rs)) s'"
  using polls_ok [OF session_ok_fresh [OF assms(1)] assms(2-4)] by simp

text \<open>
  C23. the calls that find the process running hand out, together, what the readers took, each character once and in order,
  up to the limit and what is still unread; the call that finds it ended hands out all of it up to the limit, and says that
  something was cut exactly when something was.
\<close>

theorem output_delivered_once:
  assumes "fresh_session s" "list_all times_ok (ws @ [w])" "list_all (\<lambda>w. ct_exit w = None) ws" "ct_exit w \<noteq> None"
    "run_polls limit ws s = (rs, s')" "collect_session_result limit w s' = (r, s'')"
  shows "concat (map (shown err) rs) @ unread (channel err s') = take limit (texts err (all_pieces limit ws s)) \<and>
    shown err r = take limit (texts err (all_pieces limit ws s @ poll_pieces limit w s')) \<and>
    (sr_truncated r \<longleftrightarrow> (\<exists>e. limit < length (texts e (all_pieces limit ws s @ poll_pieces limit w s'))))"
proof -
  have ok: "session_ok limit (all_pieces limit ws s) (\<lambda>e. concat (map (shown e) rs)) s'"
    using polls_of_fresh [OF assms(1) _ assms(3,5)] assms(2) by simp
  then show ?thesis using collect_ok [OF ok _ assms(6), of err] assms(2,4) by (auto simp: session_ok_def stream_ok_def)
qed

definition sample_session :: CommandSession where
  "sample_session = \<lparr> cs_id = 7, cs_process = 0, cs_command = ''make'', cs_cwd = [''ws''], cs_started = 0, cs_run = None, cs_agent = None,
     cs_out = new_stream, cs_err = new_stream, cs_tty = False, cs_in_use = 1 \<rparr>"

definition sample_times :: "(bool \<times> pystr) list \<Rightarrow> int option \<Rightarrow> CollectTimes" where
  "sample_times ps code = \<lparr> ct_first = ps, ct_running = (code = None), ct_second = [], ct_last = [], ct_exit = code \<rparr>"

theorem output_delivered_once_witness:
  "\<exists>rs s' r s''. run_polls 5 [sample_times [(False, ''abc'')] None] sample_session = (rs, s') \<and>
     collect_session_result 5 (sample_times [(False, ''def'')] (Some 0)) s' = (r, s'') \<and> concat (map (shown False) rs) = ''abc'' \<and>
     shown False r = ''abcde'' \<and> sr_truncated r"
proof -
  obtain rs s' where p: "run_polls 5 [sample_times [(False, ''abc'')] None] sample_session = (rs, s')" by force
  obtain r s'' where c: "collect_session_result 5 (sample_times [(False, ''def'')] (Some 0)) s' = (r, s'')" by force
  have given: "fresh_session sample_session" "list_all times_ok ([sample_times [(False, ''abc'')] None] @ [sample_times [(False, ''def'')] (Some 0)])"
    "list_all (\<lambda>w. ct_exit w = None) [sample_times [(False, ''abc'')] None]" "ct_exit (sample_times [(False, ''def'')] (Some 0)) \<noteq> None"
    by code_simp+
  have eqs: "rs = fst (run_polls 5 [sample_times [(False, ''abc'')] None] sample_session)"
    "s' = snd (run_polls 5 [sample_times [(False, ''abc'')] None] sample_session)" using p by simp_all
  have vals: "unread (channel False s') = []" "all_pieces 5 [sample_times [(False, ''abc'')] None] sample_session = [(False, ''abc'')]"
    "poll_pieces 5 (sample_times [(False, ''def'')] (Some 0)) s' = [(False, ''def'')]"
    unfolding eqs by code_simp+
  note all = output_delivered_once [OF given p c, of False, unfolded vals]
  have "concat (map (shown False) rs) = ''abc''" "shown False r = ''abcde''" using all by simp_all
  moreover have "sr_truncated r" using all by (auto intro: exI [of _ False])
  ultimately show ?thesis using p c by blast
qed

text \<open>
  C40. closing a session never says that output was cut, even where it was, and never gives the interface an operation to
  show: what was kept fits the limit, and the text of the operation is read from two arguments the call does not give.
\<close>

theorem close_loses_marks:
  assumes "fresh_session s" "list_all times_ok ws" "list_all (\<lambda>w. ct_exit w = None) ws" "run_polls limit ws s = (rs, s')"
    "no_empty_piece ps" "close_session_result limit code (fold (reader_chunk limit) ps s') = (r, s'')"
  shows "\<not> sr_truncated r \<and> sr_diff r = []"
proof -
  have ok: "session_ok limit (all_pieces limit ws s @ ps) (\<lambda>e. concat (map (shown e) rs)) (fold (reader_chunk limit) ps s')"
    using session_ok_pieces [OF polls_of_fresh [OF assms(1-4)] assms(5)] .
  obtain out err s1 where d: "drain_session (fold (reader_chunk limit) ps s') = ((out, err), s1)" by (metis prod.exhaust)
  have "stream_ok limit (texts e (all_pieces limit ws s @ ps)) (concat (map (shown e) rs) @ (if e then err else out)) (channel e s1)" for e
    using session_ok_drain [OF ok d] by (simp add: session_ok_def)
  from stream_ok_short [OF this [of False]] stream_ok_short [OF this [of True]] have "length out \<le> limit" "length err \<le> limit" by simp_all
  then show ?thesis using assms(6) d by (auto simp: close_session_result_def build_output_diff_def)
qed

theorem close_loses_marks_witness:
  "\<exists>r s''. close_session_result 2 None (fold (reader_chunk 2) [(False, ''abc'')] sample_session) = (r, s'') \<and>
     os_truncated (cs_out s'') \<and> \<not> sr_truncated r \<and> sr_diff r = []"
proof -
  obtain r s'' where c: "close_session_result 2 None (fold (reader_chunk 2) [(False, ''abc'')] sample_session) = (r, s'')" by force
  have eq: "s'' = snd (close_session_result 2 None (fold (reader_chunk 2) [(False, ''abc'')] sample_session))" using c by simp
  have "fresh_session sample_session" "no_empty_piece [(False, ''abc'')]" by code_simp+
  moreover have "os_truncated (cs_out s'')" unfolding eq by code_simp
  ultimately show ?thesis using close_loses_marks [of sample_session "[]" 2 "[]" sample_session "[(False, ''abc'')]" None r s''] c by simp
qed

end
