(* ===== verification/Shell_Runs.thy ===== *)
theory Shell_Runs
  imports Shell_Sessions
begin

text \<open>
  The shell tool under concurrent calls (\<open>exec_command\<close>, \<open>write_stdin\<close>, \<open>poll_command_session\<close>,
  \<open>close_command_session\<close> and \<open>close_command_sessions_for_run\<close> of \<open>runtime/tools/shell.py\<close>): each thread goes through
  the phases of its call, one critical section, spawn or signal per step; processes end at any moment. What a thread does
  between these steps without the table (waiting for a process, for output, or for a write into the standard input of a
  process that does not read) is no step: a thread may stay in a phase for ever, and any call in use may fail (\<open>call_error\<close>).
  So the relation says what may happen, for safety, and nothing about a call that returns. One assumption is made about the
  random draws: a session gets an identifier that no session had before (\<open>ss_used\<close>), where the code (\<open>_create_session\<close>) only
  avoids those in the table at that moment; with about 10^9 numbers to draw from, a repetition while a thread still holds the
  number of a session already taken out is not modelled.
\<close>

section \<open>States and phases\<close>

text \<open>\<open>pr_signalled\<close>: it was told to end; \<open>pr_released\<close>: its session was closed with \<open>terminate=False\<close>.\<close>

record Process =
  pr_run :: "pystr option"
  pr_ended :: bool
  pr_signalled :: bool
  pr_released :: bool

record ShellState =
  ss_table :: ShellTable
  ss_procs :: "Process list"
  ss_used :: "int list"

definition ended :: "ShellState \<Rightarrow> nat \<Rightarrow> bool" where
  "ended s pid \<longleftrightarrow> pr_ended (ss_procs s ! pid)"

definition told_to_end :: "nat \<Rightarrow> ShellState \<Rightarrow> ShellState" where
  "told_to_end pid s = s\<lparr>ss_procs := (ss_procs s)[pid := (ss_procs s ! pid)\<lparr>pr_signalled := \<not> pr_ended (ss_procs s ! pid) \<or> pr_signalled (ss_procs s ! pid)\<rparr>]\<rparr>"

definition let_go :: "nat \<Rightarrow> ShellState \<Rightarrow> ShellState" where
  "let_go pid s = s\<lparr>ss_procs := (ss_procs s)[pid := (ss_procs s ! pid)\<lparr>pr_released := True\<rparr>]\<rparr>"

text \<open>
  \<open>Idle\<close>; before the reservation; a slot reserved; the spawn failed; spawned; not registered, slot still reserved; not
  registered, process still to end; a session in use, with its process; the call failed and the session was taken out, its
  process still to end; closing; about to give up its use; processes of an aborted run still to end.
\<close>

datatype shell_phase = Idle | Wanting "pystr option" | SlotHeld "pystr option" | SpawnFailed | Spawned SpawnedCommand
  | CreateFailed nat | Unregistered nat | Using int nat | Broken int "nat option" | Closing int nat | Leaving int | Aborting "nat list"

fun slot_held :: "shell_phase \<Rightarrow> bool" where
  "slot_held (SlotHeld run) = True" | "slot_held SpawnFailed = True" | "slot_held (Spawned c) = True"
| "slot_held (CreateFailed pid) = True" | "slot_held p = False"

fun held_session :: "shell_phase \<Rightarrow> int option" where
  "held_session (Using sid pid) = Some sid" | "held_session (Broken sid rest) = Some sid"
| "held_session (Closing sid pid) = Some sid" | "held_session (Leaving sid) = Some sid" | "held_session p = None"

text \<open>The processes a thread is going to end, or to register.\<close>

fun owed :: "shell_phase \<Rightarrow> nat list" where
  "owed (Spawned c) = [sp_process c]" | "owed (CreateFailed pid) = [pid]" | "owed (Unregistered pid) = [pid]"
| "owed (Broken sid (Some pid)) = [pid]" | "owed (Aborting pids) = pids" | "owed p = []"

section \<open>Steps\<close>

inductive thread_step :: "ShellState \<Rightarrow> shell_phase \<Rightarrow> ShellState \<Rightarrow> shell_phase \<Rightarrow> bool" where
  exec_begin: "\<not> is_command_run_aborted (ss_table s) (owner_run run) \<Longrightarrow> thread_step s Idle s (Wanting (owner_run run))"
| exec_slot: "reserve_session_slot (ended s) (ss_table s) = (True, t) \<Longrightarrow> thread_step s (Wanting run) (s\<lparr>ss_table := t\<rparr>) (SlotHeld run)"
| exec_full: "reserve_session_slot (ended s) (ss_table s) = (False, t) \<Longrightarrow> thread_step s (Wanting run) (s\<lparr>ss_table := t\<rparr>) Idle"
| spawn: "sp_run c = run \<Longrightarrow> sp_process c = length (ss_procs s) \<Longrightarrow>
    thread_step s (SlotHeld run) (s\<lparr>ss_procs := ss_procs s @ [\<lparr> pr_run = run, pr_ended = False, pr_signalled = False, pr_released = False \<rparr>]\<rparr>) (Spawned c)"
| spawn_error: "thread_step s (SlotHeld run) s SpawnFailed"
| slot_back: "release_session_slot (ss_table s) = Inr t \<Longrightarrow> thread_step s SpawnFailed (s\<lparr>ss_table := t\<rparr>) Idle"
| create: "register_session c draws now (ss_table s) = Inr (Some (session, t)) \<Longrightarrow> cs_id session \<notin> set (ss_used s) \<Longrightarrow>
    thread_step s (Spawned c) (s\<lparr>ss_table := t, ss_used := cs_id session # ss_used s\<rparr>) (Using (cs_id session) (sp_process c))"
| create_error: "register_session c draws now (ss_table s) = Inl e \<Longrightarrow> thread_step s (Spawned c) s (CreateFailed (sp_process c))"
| slot_back_created: "release_session_slot (ss_table s) = Inr t \<Longrightarrow> thread_step s (CreateFailed pid) (s\<lparr>ss_table := t\<rparr>) (Unregistered pid)"
| end_unregistered: "thread_step s (Unregistered pid) (told_to_end pid s) Idle"
| attach: "acquire_session sid (ss_table s) = (Some session, t) \<Longrightarrow> thread_step s Idle (s\<lparr>ss_table := t\<rparr>) (Using sid (cs_process session))"
| collect_running: "thread_step s (Using sid pid) s (Leaving sid)"
| collect_completed: "ended s pid \<Longrightarrow> thread_step s (Using sid pid) (s\<lparr>ss_table := pop_session sid (ss_table s)\<rparr>) (Leaving sid)"
| call_error: "thread_step s (Using sid pid) (s\<lparr>ss_table := pop_session sid (ss_table s)\<rparr>)
    (Broken sid (map_option cs_process (session_of (ss_table s) sid)))"
| end_broken: "thread_step s (Broken sid (Some pid)) (told_to_end pid s) (Leaving sid)"
| broken_gone: "thread_step s (Broken sid None) s (Leaving sid)"
| close_terminate: "thread_step s (Using sid pid) (told_to_end pid s) (Closing sid pid)"
| close_detach: "thread_step s (Using sid pid) (let_go pid s) (Closing sid pid)"
| close_pop: "thread_step s (Closing sid pid) (s\<lparr>ss_table := pop_session sid (ss_table s)\<rparr>) (Leaving sid)"
| leave: "thread_step s (Leaving sid) (s\<lparr>ss_table := release_session_use sid (ss_table s)\<rparr>) Idle"
| abort: "close_sessions_for_run run (ss_table s) = (owned, t) \<Longrightarrow> thread_step s Idle (s\<lparr>ss_table := t\<rparr>) (Aborting (map cs_process owned))"
| end_aborted: "thread_step s (Aborting (pid # pids)) (told_to_end pid s) (Aborting pids)"
| abort_done: "thread_step s (Aborting []) s Idle"

inductive shell_step :: "ShellState \<times> shell_phase list \<Rightarrow> ShellState \<times> shell_phase list \<Rightarrow> bool" where
  thread: "i < length ts \<Longrightarrow> thread_step s (ts ! i) s' q \<Longrightarrow> shell_step (s, ts) (s', ts[i := q])"
| process_ends: "pid < length (ss_procs s) \<Longrightarrow>
    shell_step (s, ts) (s\<lparr>ss_procs := (ss_procs s)[pid := (ss_procs s ! pid)\<lparr>pr_ended := True\<rparr>]\<rparr>, ts)"

definition start_state :: "nat \<Rightarrow> ShellState \<times> shell_phase list" where
  "start_state n = (\<lparr> ss_table = new_table, ss_procs = [], ss_used = [] \<rparr>, replicate n Idle)"

section \<open>The invariant\<close>

definition same_session :: "CommandSession \<Rightarrow> CommandSession \<Rightarrow> bool" where
  "same_session u v \<longleftrightarrow> cs_id u = cs_id v \<and> cs_process u = cs_process v \<and> cs_run u = cs_run v"

definition table_ok :: "ShellState \<Rightarrow> bool" where
  "table_ok s \<longleftrightarrow> (let t = ss_table s in
     occupied t \<le> int max_sessions \<and> distinct (map cs_id (st_sessions t)) \<and> cs_id ` set (st_sessions t) \<subseteq> set (ss_used s) \<and>
     distinct (st_aborted t) \<and> length (st_aborted t) \<le> max_aborted_runs \<and>
     (\<forall>u \<in> set (st_sessions t). cs_process u < length (ss_procs s) \<and> pr_run (ss_procs s ! cs_process u) = cs_run u \<and>
        (\<forall>r. cs_run u = Some r \<longrightarrow> r \<noteq> [] \<and> r \<notin> set (st_aborted t))))"

fun phase_ok :: "ShellState \<Rightarrow> shell_phase \<Rightarrow> bool" where
  "phase_ok s (Wanting run) = (run \<noteq> Some [])"
| "phase_ok s (SlotHeld run) = (run \<noteq> Some [])"
| "phase_ok s (Spawned c) = (sp_run c \<noteq> Some [] \<and> sp_process c < length (ss_procs s) \<and> pr_run (ss_procs s ! sp_process c) = sp_run c)"
| "phase_ok s (Using sid pid) = (sid \<in> set (ss_used s) \<and> pid < length (ss_procs s) \<and> (\<forall>u \<in> set (st_sessions (ss_table s)). cs_id u = sid \<longrightarrow> cs_process u = pid))"
| "phase_ok s (Broken sid rest) = (sid \<in> set (ss_used s))"
| "phase_ok s (Closing sid pid) = (sid \<in> set (ss_used s) \<and> pid < length (ss_procs s) \<and> (\<forall>u \<in> set (st_sessions (ss_table s)). cs_id u = sid \<longrightarrow> cs_process u = pid) \<and>
     (let p = ss_procs s ! pid in pr_ended p \<or> pr_signalled p \<or> pr_released p))"
| "phase_ok s (Leaving sid) = (sid \<in> set (ss_used s))"
| "phase_ok s p = True"

text \<open>A process that runs and that nobody has told to end or let go.\<close>

definition live :: "ShellState \<Rightarrow> nat \<Rightarrow> bool" where
  "live s pid \<longleftrightarrow> pid < length (ss_procs s) \<and> (let p = ss_procs s ! pid in \<not> pr_ended p \<and> \<not> pr_signalled p \<and> \<not> pr_released p)"

definition registered :: "ShellState \<Rightarrow> nat \<Rightarrow> bool" where
  "registered s pid \<longleftrightarrow> pid \<in> cs_process ` set (st_sessions (ss_table s))"

definition slots :: "shell_phase list \<Rightarrow> nat" where
  "slots ts = length (filter slot_held ts)"

definition users :: "int \<Rightarrow> shell_phase list \<Rightarrow> nat" where
  "users sid ts = length (filter (\<lambda>p. held_session p = Some sid) ts)"

definition shell_ok :: "ShellState \<times> shell_phase list \<Rightarrow> bool" where
  "shell_ok x \<longleftrightarrow> (case x of (s, ts) \<Rightarrow>
     table_ok s \<and> list_all (phase_ok s) ts \<and> st_reservations (ss_table s) = int (slots ts) \<and>
     (\<forall>u \<in> set (st_sessions (ss_table s)). cs_in_use u = int (users (cs_id u) ts)) \<and>
     (\<forall>pid. live s pid \<longrightarrow> registered s pid \<or> (\<exists>p \<in> set ts. pid \<in> set (owed p))))"

text \<open>How the state changes under the other threads.\<close>

definition evolves :: "ShellState \<Rightarrow> ShellState \<Rightarrow> bool" where
  "evolves s s' \<longleftrightarrow> set (ss_used s) \<subseteq> set (ss_used s') \<and> length (ss_procs s) \<le> length (ss_procs s') \<and>
     (\<forall>pid < length (ss_procs s). let p = ss_procs s ! pid; p' = ss_procs s' ! pid in
        pr_run p' = pr_run p \<and> (pr_ended p \<longrightarrow> pr_ended p') \<and> (pr_signalled p \<longrightarrow> pr_signalled p') \<and> (pr_released p \<longrightarrow> pr_released p')) \<and>
     (\<forall>u \<in> set (st_sessions (ss_table s')). cs_id u \<notin> set (ss_used s) \<or> (\<exists>v \<in> set (st_sessions (ss_table s)). same_session u v))"

lemma count_update: "i < length xs \<Longrightarrow>
    int (length (filter P (xs[i := y]))) = int (length (filter P xs)) - (if P (xs ! i) then 1 else 0) + (if P y then 1 else 0)"
proof (induction xs arbitrary: i)
  case (Cons x xs)
  show ?case
  proof (cases i)
    case (Suc j)
    then show ?thesis using Cons.IH [of j] Cons.prems by (cases "P x") simp_all
  qed simp
qed simp

lemma phase_ok_evolves: "evolves s s' \<Longrightarrow> phase_ok s p \<Longrightarrow> phase_ok s' p"
proof (cases p)
  case (Closing sid pid)
  assume "evolves s s'" "phase_ok s p"
  then show ?thesis unfolding Closing by (auto simp: evolves_def same_session_def Let_def)
qed (auto simp: evolves_def same_session_def Let_def)

section \<open>Operations on the table\<close>

lemma reclaimed_in: "reclaimed_session e t = Some v \<Longrightarrow> v \<in> set (st_sessions t) \<and> cs_in_use v = 0 \<and> e (cs_process v)"
  by (auto simp: reclaimed_session_def split: if_splits dest: oldest_session_in)

lemma reserve_cases:
  assumes "reserve_session_slot e t = (b, t')"
  obtains v where "reclaimed_session e t = Some v" "st_sessions t' = filter (\<lambda>u. cs_id u \<noteq> cs_id v) (st_sessions t)"
      "st_aborted t' = st_aborted t" "st_reservations t' = st_reservations t + (if b then 1 else 0)" "occupied t' \<le> int max_sessions \<or> \<not> b"
  | "reclaimed_session e t = None" "st_sessions t' = st_sessions t"
      "st_aborted t' = st_aborted t" "st_reservations t' = st_reservations t + (if b then 1 else 0)" "occupied t' \<le> int max_sessions \<or> \<not> b"
  using assms by (cases "reclaimed_session e t") (auto simp: reserve_session_slot_def pop_session_def Let_def occupied_def split: if_splits)

lemma reserve_keeps:
  assumes "reserve_session_slot e t = (b, t')"
  shows "set (st_sessions t') \<subseteq> set (st_sessions t)" "st_aborted t' = st_aborted t" "st_reservations t' = st_reservations t + (if b then 1 else 0)"
    "distinct (map cs_id (st_sessions t)) \<Longrightarrow> distinct (map cs_id (st_sessions t'))"
    "occupied t \<le> int max_sessions \<Longrightarrow> occupied t' \<le> int max_sessions"
proof -
  show "set (st_sessions t') \<subseteq> set (st_sessions t)" "st_aborted t' = st_aborted t" "st_reservations t' = st_reservations t + (if b then 1 else 0)"
    "distinct (map cs_id (st_sessions t)) \<Longrightarrow> distinct (map cs_id (st_sessions t'))"
    by (rule reserve_cases [OF assms]; auto simp: distinct_map_filter)+
  show "occupied t \<le> int max_sessions \<Longrightarrow> occupied t' \<le> int max_sessions"
  proof (rule reserve_cases [OF assms])
    fix v assume le: "occupied t \<le> int max_sessions" and v: "st_sessions t' = filter (\<lambda>u. cs_id u \<noteq> cs_id v) (st_sessions t)"
      "st_reservations t' = st_reservations t + (if b then 1 else 0)" "occupied t' \<le> int max_sessions \<or> \<not> b"
    have "int (length (st_sessions t')) \<le> int (length (st_sessions t))" unfolding v(1) by (simp add: length_filter_le)
    then show ?thesis using le v(2,3) unfolding occupied_def by (cases b) simp_all
  qed (auto simp: occupied_def)
qed

lemma reserve_drops_idle:
  assumes "reserve_session_slot e t = (b, t')" "distinct (map cs_id (st_sessions t))" "u \<in> set (st_sessions t)"
  shows "u \<in> set (st_sessions t') \<or> cs_in_use u = 0 \<and> e (cs_process u)"
proof (rule reserve_cases [OF assms(1)])
  fix v assume v: "reclaimed_session e t = Some v" "st_sessions t' = filter (\<lambda>u. cs_id u \<noteq> cs_id v) (st_sessions t)"
  note reclaimed_in [OF v(1)]
  then show ?thesis using v(2) assms(2,3) by (auto simp: distinct_map inj_on_def)
qed (use assms(3) in auto)

lemma create_result:
  assumes "register_session c draws now t = Inr (Some (u, t'))"
  shows "st_sessions t' = st_sessions t @ [u]" "st_reservations t' = st_reservations t - 1" "st_aborted t' = st_aborted t"
    "cs_process u = sp_process c" "cs_run u = sp_run c" "cs_in_use u = 1" "session_of t (cs_id u) = None"
    "\<not> is_command_run_aborted t (sp_run c)"
  using assms by (auto simp: register_session_def draw_id_def find_Some_iff Let_def split: if_splits option.splits)

lemma remember_result:
  "st_sessions (remember_aborted_run run t) = st_sessions t" "st_reservations (remember_aborted_run run t) = st_reservations t"
  "set (st_aborted (remember_aborted_run run t)) \<subseteq> insert run (set (st_aborted t))"
  "distinct (st_aborted t) \<Longrightarrow> distinct (st_aborted (remember_aborted_run run t))"
  "length (st_aborted (remember_aborted_run run t)) \<le> max_aborted_runs"
proof -
  let ?runs = "filter (\<lambda>r. r \<noteq> run) (st_aborted t) @ [run]"
  have eq: "st_aborted (remember_aborted_run run t) = drop (length ?runs - max_aborted_runs) ?runs"
    by (simp add: remember_aborted_run_def Let_def)
  show "st_sessions (remember_aborted_run run t) = st_sessions t" "st_reservations (remember_aborted_run run t) = st_reservations t"
    by (simp_all add: remember_aborted_run_def Let_def)
  show "set (st_aborted (remember_aborted_run run t)) \<subseteq> insert run (set (st_aborted t))"
    unfolding eq using set_drop_subset [of _ ?runs] by (rule order_trans) auto
  show "distinct (st_aborted (remember_aborted_run run t))" if "distinct (st_aborted t)"
    unfolding eq by (rule distinct_drop) (use that in simp)
  show "length (st_aborted (remember_aborted_run run t)) \<le> max_aborted_runs"
    unfolding eq length_drop by linarith
qed

lemma close_run_cases:
  assumes "close_sessions_for_run run t = (owned, t')"
  obtains "owned = []" "t' = t"
  | "t' = (remember_aborted_run (py_strip run) t)\<lparr>st_sessions := filter (\<lambda>u. cs_run u \<noteq> Some (py_strip run)) (st_sessions t)\<rparr>"
    "owned = filter (\<lambda>u. cs_run u = Some (py_strip run)) (st_sessions t)"
  using assms by (auto simp: close_sessions_for_run_def Let_def remember_result split: if_splits)

lemma close_run_result:
  assumes "close_sessions_for_run run t = (owned, t')"
  shows "set (st_sessions t') \<subseteq> set (st_sessions t)" "st_reservations t' = st_reservations t"
    "u \<in> set (st_sessions t) \<Longrightarrow> u \<in> set (st_sessions t') \<or> u \<in> set owned"
    "distinct (map cs_id (st_sessions t)) \<Longrightarrow> distinct (map cs_id (st_sessions t'))"
    "length (st_sessions t') \<le> length (st_sessions t)"
  by (rule close_run_cases [OF assms]; auto simp: distinct_map_filter remember_result)+

lemma close_run_aborted:
  assumes "close_sessions_for_run run t = (owned, t')" "u \<in> set (st_sessions t')" "cs_run u = Some r" "r \<notin> set (st_aborted t)"
  shows "r \<notin> set (st_aborted t')"
proof (rule close_run_cases [OF assms(1)])
  assume t': "t' = (remember_aborted_run (py_strip run) t)\<lparr>st_sessions := filter (\<lambda>u. cs_run u \<noteq> Some (py_strip run)) (st_sessions t)\<rparr>"
  then have "r \<noteq> py_strip run" using assms(2,3) by auto
  then show ?thesis using remember_result(3) [of "py_strip run" t] assms(4) by (auto simp: t')
qed (use assms(4) in simp)

lemma close_run_memory:
  assumes "close_sessions_for_run run t = (owned, t')" "distinct (st_aborted t)" "length (st_aborted t) \<le> max_aborted_runs"
  shows "distinct (st_aborted t') \<and> length (st_aborted t') \<le> max_aborted_runs"
  by (rule close_run_cases [OF assms(1)]) (simp_all add: remember_result assms(2,3))

lemma change_use_result: "st_reservations (change_use sid d t) = st_reservations t" "st_aborted (change_use sid d t) = st_aborted t"
  "length (st_sessions (change_use sid d t)) = length (st_sessions t)"
  "map cs_id (st_sessions (change_use sid d t)) = map cs_id (st_sessions t)"
  "u \<in> set (st_sessions (change_use sid d t)) \<Longrightarrow> \<exists>v \<in> set (st_sessions t). same_session u v \<and>
     cs_in_use u = cs_in_use v + (if cs_id v = sid then d else 0)"
  by (auto simp: change_use_def same_session_def)

lemma change_use_keeps: "v \<in> set (st_sessions t) \<Longrightarrow> \<exists>u \<in> set (st_sessions (change_use sid d t)). same_session u v"
  unfolding change_use_def
  by (rule bexI [of _ "if cs_id v = sid then v\<lparr>cs_in_use := cs_in_use v + d\<rparr> else v"]) (auto simp: same_session_def)

lemma pop_result: "set (st_sessions (pop_session sid t)) = {u \<in> set (st_sessions t). cs_id u \<noteq> sid}"
  "st_reservations (pop_session sid t) = st_reservations t" "st_aborted (pop_session sid t) = st_aborted t"
  "distinct (map cs_id (st_sessions t)) \<Longrightarrow> distinct (map cs_id (st_sessions (pop_session sid t)))"
  "length (st_sessions (pop_session sid t)) \<le> length (st_sessions t)"
  by (auto simp: pop_session_def distinct_map_filter)

lemma same_session_refl [simp]: "same_session u u"
  by (simp add: same_session_def)

lemma acquire_result: "acquire_session sid t = (Some u, t') \<Longrightarrow> u \<in> set (st_sessions t) \<and> cs_id u = sid \<and> t' = change_use sid 1 t"
  by (auto simp: acquire_session_def split: option.splits dest: session_of_Some)

lemma release_slot_result: "release_session_slot t = Inr t' \<Longrightarrow> t' = t\<lparr>st_reservations := st_reservations t - 1\<rparr>"
  by (simp add: release_session_slot_def split: if_splits)

end
