(* ===== verification/Shell_Safety.thy ===== *)
theory Shell_Safety
  imports Shell_Runs
begin

text \<open>
  What holds of the shell tool in every interleaving of its calls: the invariant \<open>shell_ok\<close> of \<open>Shell_Runs\<close> is kept by
  every step. Slots are never exceeded, no session in use is reclaimed, no session of a remembered aborted run is
  registered, and no process is left running that nobody can reach.
\<close>

section \<open>The state under one step\<close>

lemma same_itself [simp]: "u \<in> A \<Longrightarrow> \<exists>v \<in> A. same_session u v"
  by (rule bexI [of _ u]) simp_all

lemma evolves_refl: "evolves s s"
  by (auto simp: evolves_def)

lemma evolves_table: "(\<And>u. u \<in> set (st_sessions t) \<Longrightarrow> \<exists>v \<in> set (st_sessions (ss_table s)). same_session u v) \<Longrightarrow> evolves s (s\<lparr>ss_table := t\<rparr>)"
  by (auto simp: evolves_def Let_def)

lemma evolves_told: "evolves s (told_to_end pid s)"
  by (cases "pid < length (ss_procs s)") (auto simp: evolves_def told_to_end_def Let_def nth_list_update)

lemma evolves_let_go: "evolves s (let_go pid s)"
  by (cases "pid < length (ss_procs s)") (auto simp: evolves_def let_go_def Let_def nth_list_update)

lemma told_table [simp]: "ss_table (told_to_end pid s) = ss_table s" "ss_table (let_go pid s) = ss_table s"
  "ss_used (told_to_end pid s) = ss_used s" "ss_used (let_go pid s) = ss_used s"
  "length (ss_procs (told_to_end pid s)) = length (ss_procs s)" "length (ss_procs (let_go pid s)) = length (ss_procs s)"
  by (simp_all add: told_to_end_def let_go_def)

lemma subset_same: "set xs \<subseteq> set ys \<Longrightarrow> u \<in> set xs \<Longrightarrow> \<exists>v \<in> set ys. same_session u v"
  by (rule same_itself) blast

lemma step_evolves: "thread_step s p s' q \<Longrightarrow> evolves s s'"
proof (induction rule: thread_step.induct)
  case (exec_slot s t run)
  show ?case by (rule evolves_table, rule subset_same [OF reserve_keeps(1) [OF exec_slot.hyps]])
next
  case (exec_full s t run)
  show ?case by (rule evolves_table, rule subset_same [OF reserve_keeps(1) [OF exec_full.hyps]])
next
  case (spawn c run s)
  show ?case by (auto simp: evolves_def Let_def nth_append)
next
  case (slot_back s t)
  then show ?case by (intro evolves_table) (auto dest: release_slot_result)
next
  case (create c draws now s session t)
  have "st_sessions t = st_sessions (ss_table s) @ [session]" using create_result(1) [OF create.hyps(1)] .
  then show ?case using create.hyps(2) by (auto simp: evolves_def Let_def)
next
  case (slot_back_created s t pid)
  then show ?case by (intro evolves_table) (auto dest: release_slot_result)
next
  case (attach sid s session t)
  then have "t = change_use sid 1 (ss_table s)" by (simp add: acquire_result)
  then show ?case using change_use_result(5) by (intro evolves_table) blast
next
  case (leave sid s)
  show ?case unfolding release_session_use_def using change_use_result(5) by (intro evolves_table) blast
next
  case (abort run s owned t)
  show ?case by (rule evolves_table, rule subset_same [OF close_run_result(1) [OF abort.hyps]])
qed (auto simp: evolves_refl evolves_told evolves_let_go pop_result intro!: evolves_table)

lemma evolves_ends: "pid < length (ss_procs s) \<Longrightarrow> evolves s (s\<lparr>ss_procs := (ss_procs s)[pid := (ss_procs s ! pid)\<lparr>pr_ended := True\<rparr>]\<rparr>)"
  by (auto simp: evolves_def Let_def nth_list_update)

section \<open>The table\<close>

lemma table_ok_change:
  assumes "table_ok s" "occupied t \<le> int max_sessions" "distinct (map cs_id (st_sessions t))"
    "\<And>u. u \<in> set (st_sessions t) \<Longrightarrow> \<exists>v \<in> set (st_sessions (ss_table s)). same_session u v"
    "distinct (st_aborted t)" "length (st_aborted t) \<le> max_aborted_runs"
    "\<And>u r. u \<in> set (st_sessions t) \<Longrightarrow> cs_run u = Some r \<Longrightarrow> r \<notin> set (st_aborted (ss_table s)) \<Longrightarrow> r \<notin> set (st_aborted t)"
  shows "table_ok (s\<lparr>ss_table := t\<rparr>)"
proof -
  have "cs_id u \<in> set (ss_used s) \<and> cs_process u < length (ss_procs s) \<and> pr_run (ss_procs s ! cs_process u) = cs_run u \<and>
      (\<forall>r. cs_run u = Some r \<longrightarrow> r \<noteq> [] \<and> r \<notin> set (st_aborted t))" if u: "u \<in> set (st_sessions t)" for u
  proof -
    obtain v where v: "v \<in> set (st_sessions (ss_table s))" "same_session u v" using assms(4) [OF u] by blast
    have old: "cs_id v \<in> set (ss_used s)" "cs_process v < length (ss_procs s)" "pr_run (ss_procs s ! cs_process v) = cs_run v"
      "\<And>r. cs_run v = Some r \<Longrightarrow> r \<noteq> [] \<and> r \<notin> set (st_aborted (ss_table s))"
      using assms(1) v(1) by (auto simp: table_ok_def Let_def)
    have same: "cs_id u = cs_id v" "cs_process u = cs_process v" "cs_run u = cs_run v" using v(2) by (simp_all add: same_session_def)
    then show ?thesis using old assms(7) [OF u] by auto
  qed
  then show ?thesis using assms(2,3,5,6) by (auto simp: table_ok_def Let_def)
qed

lemma table_ok_fewer:
  assumes "table_ok s" "occupied t \<le> int max_sessions" "distinct (map cs_id (st_sessions t))"
    "\<And>u. u \<in> set (st_sessions t) \<Longrightarrow> \<exists>v \<in> set (st_sessions (ss_table s)). same_session u v" "st_aborted t = st_aborted (ss_table s)"
  shows "table_ok (s\<lparr>ss_table := t\<rparr>)"
  using assms by (intro table_ok_change) (auto simp: table_ok_def Let_def)

lemma table_ok_procs:
  assumes "table_ok s" "evolves s s'" "ss_table s' = ss_table s"
  shows "table_ok s'"
proof -
  have "cs_process u < length (ss_procs s') \<and> pr_run (ss_procs s' ! cs_process u) = cs_run u" if u: "u \<in> set (st_sessions (ss_table s))" for u
  proof -
    have "cs_process u < length (ss_procs s)" "pr_run (ss_procs s ! cs_process u) = cs_run u" using assms(1) u by (auto simp: table_ok_def Let_def)
    then show ?thesis using assms(2) by (auto simp: evolves_def Let_def)
  qed
  then show ?thesis using assms by (auto simp: table_ok_def Let_def evolves_def)
qed

lemma occupied_mono: "length (st_sessions t') \<le> length (st_sessions t) \<Longrightarrow> st_reservations t' \<le> st_reservations t \<Longrightarrow> occupied t' \<le> occupied t"
  by (simp add: occupied_def)

lemma table_okD:
  assumes "table_ok s"
  shows "occupied (ss_table s) \<le> int max_sessions" "distinct (map cs_id (st_sessions (ss_table s)))"
    "u \<in> set (st_sessions (ss_table s)) \<Longrightarrow> cs_id u \<in> set (ss_used s)"
    "u \<in> set (st_sessions (ss_table s)) \<Longrightarrow> cs_process u < length (ss_procs s)"
    "u \<in> set (st_sessions (ss_table s)) \<Longrightarrow> pr_run (ss_procs s ! cs_process u) = cs_run u"
    "u \<in> set (st_sessions (ss_table s)) \<Longrightarrow> cs_run u = Some r \<Longrightarrow> r \<notin> set (st_aborted (ss_table s))"
    "distinct (st_aborted (ss_table s))" "length (st_aborted (ss_table s)) \<le> max_aborted_runs"
  using assms by (auto simp: table_ok_def Let_def)

lemma table_ok_pop: "table_ok s \<Longrightarrow> table_ok (s\<lparr>ss_table := pop_session sid (ss_table s)\<rparr>)"
  by (intro table_ok_fewer order_trans [OF occupied_mono table_okD(1)]) (auto simp: pop_result table_okD)

lemma table_ok_use: "table_ok s \<Longrightarrow> table_ok (s\<lparr>ss_table := change_use sid d (ss_table s)\<rparr>)"
  by (intro table_ok_fewer) (auto simp: table_ok_def Let_def change_use_result(1-4) occupied_def dest!: change_use_result(5))

lemma table_ok_release: "table_ok s \<Longrightarrow> release_session_slot (ss_table s) = Inr t \<Longrightarrow> table_ok (s\<lparr>ss_table := t\<rparr>)"
  by (intro table_ok_fewer) (auto simp: table_ok_def Let_def occupied_def dest!: release_slot_result)

lemma table_ok_reserve:
  assumes "table_ok s" "reserve_session_slot e (ss_table s) = (b, t)"
  shows "table_ok (s\<lparr>ss_table := t\<rparr>)"
  using assms(1) reserve_keeps [OF assms(2)] subset_same [OF reserve_keeps(1) [OF assms(2)]]
  by (intro table_ok_fewer) (auto simp: table_ok_def Let_def)

lemma step_table_ok: "thread_step s p s' q \<Longrightarrow> table_ok s \<Longrightarrow> phase_ok s p \<Longrightarrow> table_ok s'"
proof (induction rule: thread_step.induct)
  case (spawn c run s)
  show ?case by (rule table_ok_procs [OF spawn.prems(1) step_evolves [OF thread_step.spawn [OF spawn.hyps]]]) simp
next
  case (create c draws now s session t)
  note new = create_result [OF create.hyps(1)]
  have "cs_id session \<notin> cs_id ` set (st_sessions (ss_table s))" using new(7) by (simp add: session_of_None)
  then show ?case using create new by (auto simp: table_ok_def Let_def occupied_def is_command_run_aborted_def split: option.splits)
next
  case (abort run s owned t)
  note close = close_run_result [OF abort.hyps] close_run_memory [OF abort.hyps] close_run_aborted [OF abort.hyps]
  have "occupied t \<le> occupied (ss_table s)" using close(2,5) by (simp add: occupied_def)
  then show ?case using abort.prems(1) close subset_same [OF close(1)]
    by (intro table_ok_change) (auto simp: table_ok_def Let_def)
qed (auto simp: table_ok_pop table_ok_use table_ok_release table_ok_reserve release_session_use_def
    intro: table_ok_procs [OF _ evolves_told] table_ok_procs [OF _ evolves_let_go] dest!: acquire_result)

section \<open>The thread that moves\<close>

lemma owner_run_some: "owner_run run \<noteq> Some []"
  by (simp add: owner_run_def none_if_empty_def)

lemma step_phase_ok: "thread_step s p s' q \<Longrightarrow> table_ok s \<Longrightarrow> phase_ok s p \<Longrightarrow> phase_ok s' q"
proof (induction rule: thread_step.induct)
  case (create c draws now s session t)
  note new = create_result [OF create.hyps(1)]
  have "cs_id u \<noteq> cs_id session" if "u \<in> set (st_sessions (ss_table s))" for u
    using new(7) that unfolding session_of_None by (metis imageI)
  then show ?case using create new by auto
next
  case (attach sid s session t)
  note acq = acquire_result [OF attach.hyps]
  have same: "v = session" if "v \<in> set (st_sessions (ss_table s))" "cs_id v = sid" for v
    using that acq table_okD(2) [OF attach.prems(1)] by (auto simp: distinct_map inj_on_def)
  have "cs_process u = cs_process session" if u: "u \<in> set (st_sessions t)" "cs_id u = sid" for u
  proof -
    obtain v where "v \<in> set (st_sessions (ss_table s))" "same_session u v" using change_use_result(5) [of u sid 1 "ss_table s"] u(1) acq by auto
    then show ?thesis using same [of v] u(2) by (auto simp: same_session_def)
  qed
  then show ?case using acq table_okD(3,4) [OF attach.prems(1), of session] by auto
next
  case (spawn c run s)
  then show ?case by (simp add: nth_append)
qed (auto simp: owner_run_some pop_result told_to_end_def let_go_def Let_def)

definition mark :: "bool \<Rightarrow> int" where "mark b = (if b then 1 else 0)"

lemma step_reservations: "thread_step s p s' q \<Longrightarrow>
    st_reservations (ss_table s') = st_reservations (ss_table s) - mark (slot_held p) + mark (slot_held q)"
proof (induction rule: thread_step.induct)
  case (exec_slot s t run)
  then show ?case using reserve_keeps(3) [OF exec_slot.hyps] by (simp add: mark_def)
next
  case (exec_full s t run)
  then show ?case using reserve_keeps(3) [OF exec_full.hyps] by (simp add: mark_def)
next
  case (create c draws now s session t)
  then show ?case using create_result(2) [OF create.hyps(1)] by (simp add: mark_def)
next
  case (abort run s owned t)
  then show ?case using close_run_result(2) [OF abort.hyps] by (simp add: mark_def)
qed (auto simp: mark_def pop_result change_use_result release_session_use_def dest!: release_slot_result acquire_result)

text \<open>How many more threads use a session after the step.\<close>

definition more_use :: "shell_phase \<Rightarrow> shell_phase \<Rightarrow> int \<Rightarrow> int" where
  "more_use p q sid = mark (held_session q = Some sid) - mark (held_session p = Some sid)"

definition use_follows :: "ShellState \<Rightarrow> shell_phase \<Rightarrow> ShellState \<Rightarrow> shell_phase \<Rightarrow> bool" where
  "use_follows s p s' q \<longleftrightarrow> (\<forall>u \<in> set (st_sessions (ss_table s')).
     (\<exists>v \<in> set (st_sessions (ss_table s)). same_session u v \<and> cs_in_use u = cs_in_use v + more_use p q (cs_id u)) \<or>
     (cs_id u \<notin> set (ss_used s) \<and> cs_in_use u = 1 \<and> more_use p q (cs_id u) = 1))"

lemma use_follows_same:
  assumes "\<And>u. u \<in> set (st_sessions (ss_table s')) \<Longrightarrow> u \<in> set (st_sessions (ss_table s)) \<and> more_use p q (cs_id u) = 0"
  shows "use_follows s p s' q"
  using assms by (force simp: use_follows_def)

lemma step_use: "thread_step s p s' q \<Longrightarrow> table_ok s \<Longrightarrow> use_follows s p s' q"
proof (induction rule: thread_step.induct)
  case (exec_slot s t run)
  then show ?case using reserve_keeps(1) [OF exec_slot.hyps] by (intro use_follows_same) (auto simp: more_use_def mark_def)
next
  case (exec_full s t run)
  then show ?case using reserve_keeps(1) [OF exec_full.hyps] by (intro use_follows_same) (auto simp: more_use_def mark_def)
next
  case (create c draws now s session t)
  note new = create_result [OF create.hyps(1)]
  have old: "more_use (Spawned c) (Using (cs_id session) (sp_process c)) (cs_id u) = 0" if "u \<in> set (st_sessions (ss_table s))" for u
    using create.hyps(2) create.prems that table_okD(3) by (auto simp: more_use_def mark_def)
  show ?case unfolding use_follows_def
  proof
    fix u assume "u \<in> set (st_sessions (ss_table (s\<lparr>ss_table := t, ss_used := cs_id session # ss_used s\<rparr>)))"
    then consider "u \<in> set (st_sessions (ss_table s))" | "u = session" using new(1) by auto
    then show "(\<exists>v \<in> set (st_sessions (ss_table s)). same_session u v \<and>
        cs_in_use u = cs_in_use v + more_use (Spawned c) (Using (cs_id session) (sp_process c)) (cs_id u)) \<or>
      (cs_id u \<notin> set (ss_used s) \<and> cs_in_use u = 1 \<and> more_use (Spawned c) (Using (cs_id session) (sp_process c)) (cs_id u) = 1)"
    proof cases
      case 1
      then show ?thesis using old [OF 1] by (intro disjI1 bexI [of _ u]) simp_all
    next
      case 2
      then show ?thesis using new(6) create.hyps(2) by (simp add: more_use_def mark_def)
    qed
  qed
next
  case (attach sid s session t)
  have "t = change_use sid 1 (ss_table s)" using acquire_result [OF attach.hyps] by simp
  then show ?case unfolding use_follows_def
    by (auto simp: more_use_def mark_def same_session_def dest!: change_use_result(5))
next
  case (leave sid s)
  show ?case unfolding use_follows_def release_session_use_def
    by (auto simp: more_use_def mark_def same_session_def dest!: change_use_result(5))
next
  case (abort run s owned t)
  then show ?case using close_run_result(1) [OF abort.hyps] by (intro use_follows_same) (auto simp: more_use_def mark_def)
qed (auto intro!: use_follows_same simp: more_use_def mark_def pop_result dest!: release_slot_result)

section \<open>Processes\<close>

text \<open>Every process that runs and was not told to end or let go is registered or owed by the thread that moves, or was the business of another.\<close>

lemma live_told: "live (told_to_end pid s) x \<longleftrightarrow> live s x \<and> x \<noteq> pid"
  by (cases "x = pid") (auto simp: live_def told_to_end_def Let_def)

lemma live_let_go: "live (let_go pid s) x \<longleftrightarrow> live s x \<and> x \<noteq> pid"
  by (cases "x = pid") (auto simp: live_def let_go_def Let_def)

lemma live_table [simp]: "live (s\<lparr>ss_table := t\<rparr>) x = live s x" "live (s\<lparr>ss_table := t, ss_used := us\<rparr>) x = live s x"
  by (simp_all add: live_def)

lemma live_spawn: "live (s\<lparr>ss_procs := ss_procs s @ [p]\<rparr>) x \<Longrightarrow> live s x \<or> x = length (ss_procs s)"
  by (auto simp: live_def nth_append Let_def split: if_splits)

lemma registered_table [simp]: "registered (told_to_end pid s) x = registered s x" "registered (let_go pid s) x = registered s x"
  "registered (s\<lparr>ss_procs := ps\<rparr>) x = registered s x"
  by (simp_all add: registered_def told_to_end_def let_go_def)

lemma registered_keeps:
  assumes "registered s x" "\<And>u. u \<in> set (st_sessions (ss_table s)) \<Longrightarrow> cs_process u = x \<Longrightarrow> \<exists>v \<in> set (st_sessions t). same_session u v"
  shows "registered (s\<lparr>ss_table := t\<rparr>) x"
  using assms unfolding registered_def by (fastforce simp: same_session_def)

lemma registered_stays:
  assumes "registered s x" "\<And>u. u \<in> set (st_sessions (ss_table s)) \<Longrightarrow> cs_process u = x \<Longrightarrow> u \<in> set (st_sessions t)"
  shows "registered (s\<lparr>ss_table := t\<rparr>) x"
  using assms by (intro registered_keeps) (auto intro: same_itself)

lemma pop_registered:
  assumes "registered s x" "\<And>u. u \<in> set (st_sessions (ss_table s)) \<Longrightarrow> cs_id u = sid \<Longrightarrow> cs_process u \<noteq> x"
  shows "registered (s\<lparr>ss_table := pop_session sid (ss_table s)\<rparr>) x"
  using assms by (intro registered_stays) (auto simp: pop_result)

lemma use_registered [simp]: "registered (s\<lparr>ss_table := change_use sid d (ss_table s)\<rparr>) x = registered s x"
proof -
  have "map cs_process (st_sessions (change_use sid d t)) = map cs_process (st_sessions t)" for t by (simp add: change_use_def)
  then have "cs_process ` set (st_sessions (change_use sid d t)) = cs_process ` set (st_sessions t)" for t by (metis list.set_map)
  then show ?thesis by (simp add: registered_def)
qed

lemma step_handover:
  assumes "thread_step s p s' q" "table_ok s" "phase_ok s p" "live s' x" "live s x \<Longrightarrow> registered s x \<or> x \<in> set (owed p) \<or> elsewhere"
  shows "registered s' x \<or> x \<in> set (owed q) \<or> elsewhere"
  using assms
proof (induction rule: thread_step.induct)
  case (exec_slot s t run)
  have "\<not> ended s x" using exec_slot.prems(3) by (simp add: live_def ended_def Let_def)
  then show ?case using exec_slot.prems reserve_drops_idle [OF exec_slot.hyps table_okD(2)] by (auto intro!: registered_stays)
next
  case (exec_full s t run)
  have "\<not> ended s x" using exec_full.prems(3) by (simp add: live_def ended_def Let_def)
  then show ?case using exec_full.prems reserve_drops_idle [OF exec_full.hyps table_okD(2)] by (auto intro!: registered_stays)
next
  case (spawn c run s)
  then show ?case using live_spawn by auto
next
  case (slot_back s t)
  then show ?case by (auto dest!: release_slot_result intro!: registered_keeps)
next
  case (create c draws now s session t)
  note new = create_result [OF create.hyps(1)]
  then show ?case using create.prems by (auto simp: registered_def)
next
  case (slot_back_created s t pid)
  then show ?case by (auto dest!: release_slot_result intro!: registered_keeps)
next
  case (end_unregistered s pid)
  then show ?case by (auto simp: live_told)
next
  case (attach sid s session t)
  have t: "t = change_use sid 1 (ss_table s)" using acquire_result [OF attach.hyps] by simp
  show ?case using attach.prems unfolding t by auto
next
  case (collect_completed s pid sid)
  have "x \<noteq> pid" using collect_completed by (auto simp: live_def ended_def Let_def)
  then show ?case using collect_completed.prems by (auto intro!: pop_registered)
next
  case (call_error s sid pid)
  show ?case
  proof (cases "session_of (ss_table s) sid")
    case None
    then show ?thesis using call_error.prems by (auto simp: session_of_None intro!: pop_registered)
  next
    case (Some u)
    then have u: "u \<in> set (st_sessions (ss_table s))" "cs_id u = sid" using session_of_Some by auto
    have "v = u" if "v \<in> set (st_sessions (ss_table s))" "cs_id v = sid" for v
      using that u table_okD(2) [OF call_error.prems(1)] by (auto simp: distinct_map inj_on_def)
    then show ?thesis using call_error.prems Some by (cases "cs_process u = x") (auto intro!: pop_registered)
  qed
next
  case (end_broken s sid pid)
  then show ?case by (auto simp: live_told)
next
  case (close_terminate s sid pid)
  then show ?case by (auto simp: live_told)
next
  case (close_detach s sid pid)
  then show ?case by (auto simp: live_let_go)
next
  case (close_pop s sid pid)
  have "x \<noteq> pid" using close_pop by (auto simp: live_def Let_def)
  then show ?case using close_pop.prems by (auto intro!: pop_registered)
next
  case (leave sid s)
  show ?case using leave.prems unfolding release_session_use_def by auto
next
  case (abort run s owned t)
  show ?case
  proof (cases "x \<in> cs_process ` set owned")
    case False
    have "u \<in> set (st_sessions t)" if "u \<in> set (st_sessions (ss_table s))" "cs_process u = x" for u
      using close_run_result(3) [OF abort.hyps that(1)] False that(2) by auto
    then have "registered s x \<Longrightarrow> registered (s\<lparr>ss_table := t\<rparr>) x" using registered_stays [of s x t] by blast
    then show ?thesis using abort.prems by auto
  qed auto
next
  case (end_aborted s pid pids)
  then show ?case by (auto simp: live_told)
qed auto

section \<open>Every interleaving\<close>

lemma shell_okD:
  assumes "shell_ok (s, ts)"
  shows "table_ok s" "p \<in> set ts \<Longrightarrow> phase_ok s p" "st_reservations (ss_table s) = int (slots ts)"
    "u \<in> set (st_sessions (ss_table s)) \<Longrightarrow> cs_in_use u = int (users (cs_id u) ts)"
    "live s x \<Longrightarrow> registered s x \<or> (\<exists>p \<in> set ts. x \<in> set (owed p))"
  using assms by (auto simp: shell_ok_def list_all_iff)

lemma users_none: "list_all (phase_ok s) ts \<Longrightarrow> sid \<notin> set (ss_used s) \<Longrightarrow> users sid ts = 0"
proof -
  assume ok: "list_all (phase_ok s) ts" "sid \<notin> set (ss_used s)"
  have "held_session p \<noteq> Some sid" if "p \<in> set ts" for p using ok that by (cases p) (auto simp: list_all_iff)
  then show ?thesis by (simp add: users_def filter_empty_conv)
qed

lemma users_update: "i < length ts \<Longrightarrow> int (users sid (ts[i := q])) = int (users sid ts) + more_use (ts ! i) q sid"
  unfolding users_def more_use_def mark_def by (subst count_update) auto

lemma slots_update: "i < length ts \<Longrightarrow> int (slots (ts[i := q])) = int (slots ts) - mark (slot_held (ts ! i)) + mark (slot_held q)"
  unfolding slots_def mark_def by (subst count_update) auto

lemma ok_thread_step:
  assumes "shell_ok (s, ts)" "i < length ts" "thread_step s (ts ! i) s' q"
  shows "shell_ok (s', ts[i := q])"
proof -
  note ok = shell_okD [OF assms(1)]
  have p: "ts ! i \<in> set ts" using assms(2) by simp
  note ev = step_evolves [OF assms(3)]
  have phases: "list_all (phase_ok s') (ts[i := q])"
    using phase_ok_evolves [OF ev] ok(2) step_phase_ok [OF assms(3) ok(1) ok(2) [OF p]] set_update_subset_insert [of ts i q]
    by (auto simp: list_all_iff)
  have uses: "cs_in_use u = int (users (cs_id u) (ts[i := q]))" if u: "u \<in> set (st_sessions (ss_table s'))" for u
  proof -
    consider v where "v \<in> set (st_sessions (ss_table s))" "same_session u v" "cs_in_use u = cs_in_use v + more_use (ts ! i) q (cs_id u)"
      | "cs_id u \<notin> set (ss_used s)" "cs_in_use u = 1" "more_use (ts ! i) q (cs_id u) = 1"
      using step_use [OF assms(3) ok(1)] u unfolding use_follows_def by blast
    then show ?thesis
    proof cases
      case 1
      then show ?thesis using ok(4) [OF 1(1)] users_update [OF assms(2)] by (simp add: same_session_def)
    next
      case 2
      then show ?thesis using users_none [of s ts "cs_id u"] assms(1) users_update [OF assms(2)] by (simp add: shell_ok_def)
    qed
  qed
  have cover: "registered s' x \<or> (\<exists>p \<in> set (ts[i := q]). x \<in> set (owed p))" if x: "live s' x" for x
  proof -
    let ?else = "\<exists>j < length ts. j \<noteq> i \<and> x \<in> set (owed (ts ! j))"
    have "live s x \<Longrightarrow> registered s x \<or> x \<in> set (owed (ts ! i)) \<or> ?else" using ok(5) [of x] by (metis in_set_conv_nth)
    from step_handover [OF assms(3) ok(1) ok(2) [OF p] x this]
    consider "registered s' x" | "x \<in> set (owed q)" | j where "j < length ts" "j \<noteq> i" "x \<in> set (owed (ts ! j))" by blast
    then show ?thesis
    proof cases
      case 2
      then show ?thesis using set_update_memI [OF assms(2), of q] by blast
    next
      case 3
      then have "ts ! j \<in> set (ts[i := q])" by (metis length_list_update nth_list_update_neq nth_mem)
      then show ?thesis using 3(3) by blast
    qed simp
  qed
  show ?thesis
    using step_table_ok [OF assms(3) ok(1) ok(2) [OF p]] phases uses cover slots_update [OF assms(2)] step_reservations [OF assms(3)] ok(3)
    by (simp add: shell_ok_def)
qed

lemma ok_step: "shell_step x y \<Longrightarrow> shell_ok x \<Longrightarrow> shell_ok y"
proof (induction rule: shell_step.induct)
  case (thread i ts s s' q)
  then show ?case using ok_thread_step by blast
next
  case (process_ends pid s ts)
  let ?s = "s\<lparr>ss_procs := (ss_procs s)[pid := (ss_procs s ! pid)\<lparr>pr_ended := True\<rparr>]\<rparr>"
  note ok = shell_okD [OF process_ends.prems] and ev = evolves_ends [OF process_ends.hyps]
  have "live ?s x \<Longrightarrow> live s x" for x by (cases "x = pid") (auto simp: live_def Let_def)
  then show ?case using table_ok_procs [OF ok(1) ev] phase_ok_evolves [OF ev] ok by (auto simp: shell_ok_def list_all_iff)
qed

lemma ok_start: "shell_ok (start_state n)"
  by (auto simp: shell_ok_def start_state_def table_ok_def new_table_def occupied_def max_sessions_def slots_def live_def list_all_iff)

lemma ok_reachable: "shell_step\<^sup>*\<^sup>* (start_state n) x \<Longrightarrow> shell_ok x"
  by (induction rule: rtranclp_induct) (auto simp: ok_start intro: ok_step)

section \<open>What holds\<close>

text \<open>
  C20. in every interleaving of calls, registered sessions and reservations together never exceed the slots, and a thread that
  holds a reservation can give it back: the error of a slot that was not reserved is never raised.
\<close>

theorem slots_never_exceeded:
  assumes "shell_step\<^sup>*\<^sup>* (start_state n) (s, ts)"
  shows "int (length (st_sessions (ss_table s))) + st_reservations (ss_table s) \<le> int max_sessions \<and> 0 \<le> st_reservations (ss_table s) \<and>
    list_all (\<lambda>p. slot_held p \<longrightarrow> (\<exists>t. release_session_slot (ss_table s) = Inr t)) ts"
proof -
  note ok = shell_okD [OF ok_reachable [OF assms]]
  have "st_reservations (ss_table s) > 0" if "p \<in> set ts" "slot_held p" for p
    using that ok(3) by (auto simp: slots_def filter_empty_conv)
  then show ?thesis using ok(3) table_okD(1) [OF ok(1)] by (auto simp: list_all_iff release_session_slot_def occupied_def)
qed

definition sample_command :: SpawnedCommand where
  "sample_command = \<lparr> sp_process = 0, sp_command = ''make'', sp_cwd = [''ws''], sp_run = Some ''r1'', sp_agent = None, sp_tty = False \<rparr>"

definition sample_state :: ShellState where
  "sample_state = \<lparr> ss_table = new_table\<lparr>st_reservations := 1\<rparr>,
     ss_procs = [\<lparr> pr_run = Some ''r1'', pr_ended = False, pr_signalled = False, pr_released = False \<rparr>], ss_used = [] \<rparr>"

lemma sample_spawned: "shell_step\<^sup>*\<^sup>* (start_state 1) (sample_state, [Spawned sample_command])"
proof -
  let ?s = "\<lparr> ss_table = new_table, ss_procs = [], ss_used = [] \<rparr>"
  let ?s1 = "?s\<lparr>ss_table := new_table\<lparr>st_reservations := 1\<rparr>\<rparr>"
  have run: "owner_run (Some ''r1'') = Some ''r1''" by code_simp
  have "thread_step ?s Idle ?s (Wanting (owner_run (Some ''r1'')))"
    by (rule exec_begin) (simp add: run is_command_run_aborted_def new_table_def)
  then have "shell_step (?s, [Idle]) (?s, [Idle][0 := Wanting (Some ''r1'')])" unfolding run by (intro thread) simp_all
  moreover have "reserve_session_slot (ended ?s) (ss_table ?s) = (True, new_table\<lparr>st_reservations := 1\<rparr>)"
    by (simp add: reserve_session_slot_def reclaimed_session_def new_table_def occupied_def max_sessions_def)
  then have "thread_step ?s (Wanting (Some ''r1'')) ?s1 (SlotHeld (Some ''r1''))" by (rule exec_slot)
  then have "shell_step (?s, [Wanting (Some ''r1'')]) (?s1, [Wanting (Some ''r1'')][0 := SlotHeld (Some ''r1'')])" by (intro thread) simp_all
  moreover have "thread_step ?s1 (SlotHeld (Some ''r1''))
      (?s1\<lparr>ss_procs := ss_procs ?s1 @ [\<lparr> pr_run = Some ''r1'', pr_ended = False, pr_signalled = False, pr_released = False \<rparr>]\<rparr>) (Spawned sample_command)"
    by (rule spawn) (simp_all add: sample_command_def)
  then have "shell_step (?s1, [SlotHeld (Some ''r1'')]) (sample_state, [SlotHeld (Some ''r1'')][0 := Spawned sample_command])"
    by (intro thread) (simp_all add: sample_state_def)
  ultimately have "shell_step\<^sup>*\<^sup>* (?s, [Idle]) (sample_state, [Spawned sample_command])"
    by (auto intro: converse_rtranclp_into_rtranclp)
  then show ?thesis by (simp add: start_state_def)
qed

theorem slots_never_exceeded_witness:
  "int (length (st_sessions (ss_table sample_state))) + st_reservations (ss_table sample_state) \<le> int max_sessions"
  using slots_never_exceeded [OF sample_spawned] by simp

text \<open>
  C21. reserving a slot never takes a session away whose process runs or that a call is using.
\<close>

theorem busy_session_kept:
  assumes "shell_step\<^sup>*\<^sup>* (start_state n) (s, ts)" "reserve_session_slot (ended s) (ss_table s) = (b, t)" "u \<in> set (st_sessions (ss_table s))"
    "\<not> ended s (cs_process u) \<or> (\<exists>p \<in> set ts. held_session p = Some (cs_id u))"
  shows "u \<in> set (st_sessions t)"
proof -
  note ok = shell_okD [OF ok_reachable [OF assms(1)]]
  have "cs_in_use u \<noteq> 0" if "p \<in> set ts" "held_session p = Some (cs_id u)" for p
    using that ok(4) [OF assms(3)] by (auto simp: users_def filter_empty_conv)
  then show ?thesis using reserve_drops_idle [OF assms(2) table_okD(2) [OF ok(1)] assms(3)] assms(4) by auto
qed

definition sample_registered :: CommandSession where
  "sample_registered = \<lparr> cs_id = 7, cs_process = 0, cs_command = ''make'', cs_cwd = [''ws''], cs_started = 0, cs_run = Some ''r1'', cs_agent = None,
     cs_out = new_stream, cs_err = new_stream, cs_tty = False, cs_in_use = 1 \<rparr>"

definition sample_using :: ShellState where
  "sample_using = sample_state\<lparr>ss_table := new_table\<lparr>st_sessions := [sample_registered]\<rparr>, ss_used := [7]\<rparr>"

lemma sample_create: "register_session sample_command [7] 0 (ss_table sample_state) = Inr (Some (sample_registered, new_table\<lparr>st_sessions := [sample_registered]\<rparr>))"
  by (simp add: register_session_def sample_command_def sample_state_def new_table_def is_command_run_aborted_def draw_id_def session_of_def
    sample_registered_def Let_def)

lemma sample_use: "shell_step\<^sup>*\<^sup>* (start_state 1) (sample_using, [Using 7 0])"
proof -
  have "thread_step sample_state (Spawned sample_command)
      (sample_state\<lparr>ss_table := new_table\<lparr>st_sessions := [sample_registered]\<rparr>, ss_used := cs_id sample_registered # ss_used sample_state\<rparr>)
      (Using (cs_id sample_registered) (sp_process sample_command))"
    by (rule create [OF sample_create]) (simp add: sample_state_def)
  then have "thread_step sample_state (Spawned sample_command) sample_using (Using 7 0)"
    by (simp add: sample_using_def sample_registered_def sample_command_def sample_state_def)
  then have "shell_step (sample_state, [Spawned sample_command]) (sample_using, [Spawned sample_command][0 := Using 7 0])" by (intro thread) simp_all
  then show ?thesis using sample_spawned by simp
qed

theorem busy_session_kept_witness:
  "sample_registered \<in> set (st_sessions (snd (reserve_session_slot (ended sample_using) (ss_table sample_using))))"
proof -
  obtain b t where bt: "reserve_session_slot (ended sample_using) (ss_table sample_using) = (b, t)" by force
  have "sample_registered \<in> set (st_sessions (ss_table sample_using))" by (simp add: sample_using_def)
  moreover have "held_session (Using 7 0) = Some (cs_id sample_registered)" by (simp add: sample_registered_def)
  ultimately show ?thesis using busy_session_kept [OF sample_use bt] bt by simp
qed

text \<open>
  C19. no process is lost. In every interleaving of the calls of the shell tool, in which no session id is drawn twice: a process
  that runs, that no call told to end and that no \<open>close_command_session\<close> let go of with \<open>terminate=False\<close>, either is
  registered in the table, for a run that is not among the aborted runs the tool remembers (the last 1024), or is the business
  of a thread that is about to register it or to end it.
\<close>

theorem no_process_lost:
  assumes "shell_step\<^sup>*\<^sup>* (start_state n) (s, ts)" "live s pid"
  shows "(registered s pid \<and> (\<forall>r. pr_run (ss_procs s ! pid) = Some r \<longrightarrow> r \<notin> set (st_aborted (ss_table s)))) \<or>
    (\<exists>p \<in> set ts. pid \<in> set (owed p))"
proof -
  note ok = shell_okD [OF ok_reachable [OF assms(1)]]
  have "r \<notin> set (st_aborted (ss_table s))" if "registered s pid" "pr_run (ss_procs s ! pid) = Some r" for r
    using that table_okD(5,6) [OF ok(1)] by (auto simp: registered_def)
  then show ?thesis using ok(5) [OF assms(2)] by blast
qed

theorem no_process_lost_witness: "live sample_state 0 \<and> 0 \<in> set (owed (Spawned sample_command))"
proof -
  have l: "live sample_state 0" by code_simp
  moreover have "\<not> registered sample_state 0" by code_simp
  ultimately show ?thesis using no_process_lost [OF sample_spawned l] by simp
qed

end
