(* ===== verification/Spec2Isabelle.thy ===== *)
theory Spec2Isabelle
  imports Agent_Pool Approval_Rules Coordinator_Completion Coordinator_Recovery Debate_Application Debate_Storage Executor_Guarantees Shell_Commands Shell_Guarantees Shell_Output Shell_Safety
begin

text \<open>
  \<^bold>\<open>Quimera: tasks, workflows, debates and the tools of agents.\<close>

  Quimera lets several coding agents work on one workspace. A coordinator publishes a workflow, a
  plan of work items with dependencies; each item becomes a task; executors claim tasks, run an agent
  on each, and hand the delivery to another agent for review; accepted deliveries unlock the
  dependent tasks. Agents may debate a topic before, and they act on the workspace through tools: a call is
  validated, approved and serialized before its handler touches a file. Everything shared is in one SQLite
  database. This library models the packages \<open>quimera/tasks\<close>, \<open>quimera/workflows\<close>, \<open>quimera/debate\<close> and
  their domain types, down to single statements of the repositories, and the core of \<open>quimera/runtime\<close>, the way
  of a tool call through policy, approval and locks to the file tools and the shell, and proves what the rest of the
  program relies on.

  \<^bold>\<open>State.\<close> The database is the record \<open>Store\<close> (\<open>Task_Store\<close>): one list of rows per table
  (\<open>jobs\<close>, \<open>tasks\<close>, \<open>task_dependencies\<close>, \<open>workflows\<close>, \<open>workflow_plans\<close>, \<open>workflow_tasks\<close>,
  \<open>workflow_attempts\<close>), a row a record whose columns have the names of the schema. A repository
  method is one transaction, so it is one function on the store; a raised exception is \<open>Inl\<close> of an
  error and leaves the store as it was. Python's integers are \<open>int\<close>, texts are lists of characters,
  a clock is a parameter \<open>now\<close>. Coordinator, runner and reviewer make several transactions; they are
  actions (\<open>Actions\<close>) on \<open>Sys\<close>, the store with what was published and done so far, and their environment
  (clock, agents, callbacks) is a record of functions which may change the store where the code calls them. The
  methods of the coordinator that end a workflow are modelled a second time on \<open>Shared\<close>, statement by
  statement with any operations of others before each (\<open>Coordinator_Interleaving\<close>).
  The state of the tools (\<open>ExecState\<close>) is the broker's (scopes, budgets, record, approvals given beforehand)
  and that of the files: a tree of directories and files with fingerprints, and the ledger of what each run has read.
  The shell tool has its own (\<open>ShellTable\<close>: sessions, reservations, aborted runs); under concurrent calls it is
  \<open>ShellState\<close>, with the processes, beside the phase of each thread.

  \<^bold>\<open>Theories and sources.\<close>
  \<^item> \<open>Prelude\<close>: collections of hints, results, Python's texts and lists, \<open>kept_by\<close> contracts.
  \<^item> \<open>Task_States\<close> (\<open>domain/task_states.py\<close>), \<open>Work_Items\<close> (\<open>domain/work_items.py\<close>): the status table,
    the parser and validator of work items; validation is exact: distinct ids, known and acyclic
    dependencies (\<open>validate_work_items_exact\<close>).
  \<^item> \<open>Task_Store\<close>, \<open>Task_Repository\<close> (\<open>tasks/repository.py\<close>, \<open>tasks/events.py\<close>): rows, queries and
    operations; \<open>Task_Lifecycle\<close>, \<open>Task_Dependencies\<close>, \<open>Task_Guarantees\<close>: runs of these operations
    (\<open>task_step\<close>), fencing of attempts, history, acyclic prerequisites, absence of deadlock.
  \<^item> \<open>Workflow_States\<close> (\<open>workflows/models.py\<close>), \<open>Workflow_Plan\<close> (\<open>workflows/plan.py\<close>),
    \<open>Workflow_Replan\<close> (\<open>workflows/replan.py\<close>), \<open>Workflow_Repository\<close> (\<open>workflows/repository.py\<close>,
    \<open>workflows/schema.py\<close>), \<open>Workflow_Presentation\<close> (\<open>workflows/presentation.py\<close>).
    \<open>Workflow_Publication\<close>, \<open>Workflow_Replanning\<close>, \<open>Workflow_Runs\<close>, \<open>Workflow_Refinement\<close>,
    \<open>Workflow_Versions\<close>, \<open>Workflow_Guarantees\<close>: what publishing and replanning do, the combined step
    relation \<open>wf_step\<close> with its invariant \<open>good\<close>, its abstraction to \<open>task_step\<close>, and the theorems
    about reachable states. Neither relation has the unguarded \<open>update_task\<close>, which the program exports
    (\<open>tasks/api.py\<close>) and does not call: what is proved of reachable states is about databases it was not used on.
  \<^item> \<open>Timestamps\<close>, \<open>Workflow_Coordinator\<close> (\<open>workflows/coordinator.py\<close>); \<open>Workflow_Reconcile\<close>,
    \<open>Coordinator_Runs\<close>, \<open>Coordinator_Guarantees\<close>, \<open>Coordinator_Recovery\<close>: its decisions, its
    refinement of \<open>wf_step\<close>, restart. \<open>Coordinator_Interleaving\<close>, \<open>Coordinator_Completion\<close>: \<open>reconcile\<close> and
    \<open>finish\<close> with others between their statements, soundness of completion by rely-guarantee triples, and the
    agreement with the model of a call that runs alone.
  \<^item> \<open>Task_Planning\<close> (\<open>tasks/planning.py\<close>), \<open>Task_Routing\<close> (\<open>tasks/router.py\<close>), \<open>Task_Failover\<close>
    (\<open>tasks/failover.py\<close>): which agent gets what, and who may take over or review.
  \<^item> \<open>Json_Text\<close>, \<open>Handoff\<close> (\<open>workflows/handoff.py\<close>), \<open>Workflow_Context\<close> (\<open>workflows/context.py\<close>),
    \<open>Task_Reports\<close> (\<open>tasks/classifiers.py\<close>, \<open>tasks/utils.py\<close>): the texts exchanged with agents.
  \<^item> \<open>Workflow_Hooks\<close> (\<open>workflows/execution.py\<close>), \<open>Task_Runner\<close> (\<open>tasks/runner.py\<close>,
    \<open>tasks/reviewer.py\<close>), \<open>Runner_Guarantees\<close>: one execution, one review, in every outcome.
  \<^item> \<open>Worker_Contract\<close>: the writes of a worker as a contract, and that runner and reviewer keep it.
  \<^item> \<open>Task_Executor\<close> (\<open>tasks/executor.py\<close>, \<open>tasks/executor_pool.py\<close>), \<open>Executor_Guarantees\<close>: the
    pollers and workers of all agents; no claimed task is lost.
  \<^item> \<open>Agent_Pool\<close> (\<open>app/agent_pool.py\<close>, \<open>app/agent_failure_tracker.py\<close>): rotation, suspension,
    failures.
  \<^item> \<open>Debate_Models\<close>, \<open>Debate_Prompts\<close>, \<open>Debate_Commands\<close>, \<open>Debate_Repository\<close>, \<open>Debate_Run\<close>,
    \<open>Debate_Service\<close> (the files of \<open>debate\<close>): contributions and syntheses read from answers, the five
    tables, the rounds of a debate with repairs and time limits, commands and the application of a
    plan. \<open>Action_Invariants\<close>: invariants and costs of actions. \<open>Debate_Guarantees\<close>,
    \<open>Debate_Consensus\<close>, \<open>Debate_Outcomes\<close>, \<open>Debate_Storage\<close>, \<open>Debate_Application\<close>: every debate ends
    in a final status, a consensus is real, what is stored and read back, applying twice.
  \<^item> \<open>Workspace_Files\<close>, \<open>Read_Ledger\<close> (\<open>runtime/read_ledger.py\<close>), \<open>File_Tools\<close>
    (\<open>runtime/tools/files.py\<close>), \<open>Patch_Tool\<close> (\<open>runtime/tools/patch.py\<close>): the files of the workspace, the
    record of what each run has read, and the tools that list, read, write, replace, remove and patch.
    \<open>Action_Contracts\<close>: rules for what an action needs and leaves. \<open>File_Guarantees\<close>, \<open>File_Safety\<close>,
    \<open>Patch_Guarantees\<close>: no edit of an existing file without a read of what it holds, confinement, dry runs,
    exactness of hunks, patches as texts.
  \<^item> \<open>Tool_Metadata\<close> (\<open>runtime/tool_metadata.py\<close>, \<open>runtime/workspace_policy.py\<close>), \<open>Approval_Handlers\<close>
    (\<open>runtime/approval.py\<close>), \<open>Approval_Broker\<close> (\<open>runtime/approval_broker.py\<close>), \<open>Tool_Policy\<close>
    (\<open>runtime/policy.py\<close>, the validators of \<open>runtime/tools\<close>), \<open>Tool_Executor\<close> (\<open>runtime/executor.py\<close>): from
    the call of an agent to its handler. \<open>Execution_Guards\<close>, \<open>Edit_Locks\<close>: the locks of executions, their
    end and the exclusion of edits of one file. \<open>Approval_Guarantees\<close>, \<open>Approval_Rules\<close>: who agreed to what runs,
    scopes and budgets, the forecast of a prompt, and the rules that do less than they say.
  \<^item> \<open>Shell_Lexer\<close>, \<open>Shell_Policy\<close>, \<open>Shell_Commands\<close>, \<open>Shell_Sessions\<close> (\<open>runtime/tools/shell.py\<close>):
    how commands are cut into stages, what the policy asks of each, what is made of a command before it runs, the table
    of sessions with their streams and results. \<open>Shell_Guarantees\<close>: the verdict as one condition, the agreement of
    the two scanners, the commands whose program no check has seen. \<open>Shell_Output\<close>: output is delivered once.
    \<open>Shell_Runs\<close>, \<open>Shell_Safety\<close>: concurrent calls as the step relation \<open>shell_step\<close>, its invariant
    \<open>shell_ok\<close>, bounded slots, sessions in use kept, no lost process.

  \<^bold>\<open>Interfaces.\<close> The locales state what one part relies on: \<open>kept_by\<close> and its extensions collect
  relations between states that every statement and operation of a repository keeps (identity of rows,
  history, fencing); the actions have a contract for any relation that is reflexive and transitive. They are
  interpreted on the store's own operations, and the properties rest on these facts.

  \<^bold>\<open>Bounds and fuel.\<close> The searches of the code (cycle search of plan validation, prerequisites,
  \<open>decide_kept\<close>) are recursive with a list of visited nodes; their fuel is the number of nodes, and
  each has a lemma that this is enough, or a termination proof by the nodes not yet visited. The JSON
  parser takes the length of the text as fuel, which the round trip shows to be enough.

  \<^bold>\<open>Parameters.\<close> SHA-256, the clock, the registry of profiles, what the file system says of a path, the
  text of an exception, the ellipsis and arrow characters (texts are 8-bit here) and what an agent does.

  \<^bold>\<open>Not modelled.\<close> The SQLite connection with its migrations and busy retries (an operation is atomic,
  as \<open>BEGIN IMMEDIATE\<close> makes it), threads inside one process beyond interleaving of transactions, log
  output, and the terminal. Agents, drivers, MCP, the other tools and the user interface are outside: they call
  the engine or are called by it through the parameters above. Of the file tools, the search with
  regular expressions and the listing of symbols of Python files are left out, of the shell tool the spawning of
  processes, terminals and waiting loops (also a write that blocks); its random identifiers are taken not to repeat. Files change by
  the calls themselves and while an approval is pending; their operations fail for the structure of the tree only.
  Of debates, the plumbing of futures, dispatch clients and staging directories is left out: a call
  of an agent is one query of the environment, which may change the database meanwhile.
\<close>

end
